(* ===== verification/Prelude.thy ===== *)
theory Prelude
  imports Main "HOL-Library.State_Monad"
begin

text \<open>
  Vocabulary shared by every component of the BrickSuite model: 32-bit integers, the
  trimming of strings, rows of a table addressed by an integer key, sums and counts over
  the rows a condition selects, and the state monad the repositories are written in.
  The collections \<open>run_simps\<close> and \<open>row_simps\<close> are filled here and by the components.
\<close>

named_theorems row_simps "rewriting of the row operations of a table"
named_theorems run_simps "one step of a computation in the state monad"

abbreviation ret :: "'a \<Rightarrow> ('s, 'a) state" where
  "ret \<equiv> State_Monad.return"

section \<open>Machine integers\<close>

text \<open>
  The quantities and identities of the code are 32-bit signed \<open>int\<close> values. The model
  uses mathematical integers and applies \<open>int32\<close> wherever the code adds two values whose
  sum is not bounded by an earlier guard; it is the two's complement value of the sum.
\<close>

definition int_max :: int where
  "int_max = 2147483647"

definition int32 :: "int \<Rightarrow> int" where
  "int32 x = (x + 2147483648) mod 4294967296 - 2147483648"

definition int_range :: "int \<Rightarrow> bool" where
  "int_range x \<longleftrightarrow> - 2147483648 \<le> x \<and> x \<le> int_max"

lemma int32_id: "int_range x \<Longrightarrow> int32 x = x"
  by (simp add: int_range_def int32_def int_max_def)

lemma int_range_int32 [simp]: "int_range (int32 x)"
proof -
  have "0 \<le> (x + 2147483648) mod 4294967296" "(x + 2147483648) mod 4294967296 < 4294967296"
    by simp_all
  then show ?thesis by (simp add: int_range_def int32_def int_max_def)
qed

text \<open>An addition of two non-negative values that overflows comes out negative.\<close>

lemma int32_add_nonneg:
  assumes "0 \<le> a" "a \<le> int_max" "0 \<le> b" "b \<le> int_max" "0 \<le> int32 (a + b)"
  shows "int32 (a + b) = a + b"
proof (cases "a + b \<le> int_max")
  case True
  with assms show ?thesis by (intro int32_id) (simp add: int_range_def)
next
  case False
  with assms have "int32 (a + b) = a + b - 4294967296"
    unfolding int32_def int_max_def by (subst mod_pos_geq) auto
  with assms show ?thesis by (simp add: int_max_def)
qed

lemma int32_le: "0 \<le> x \<Longrightarrow> int32 x \<le> x"
  unfolding int32_def using zmod_le_nonneg_dividend [of "x + 2147483648" 4294967296] by simp

lemma int32_add_overflow:
  assumes "0 \<le> a" "a \<le> int_max" "0 \<le> b" "b \<le> int_max" "int_max < a + b"
  shows "int32 (a + b) < 0"
  using assms unfolding int32_def int_max_def by (subst mod_pos_geq) auto

section \<open>Strings\<close>

definition is_space :: "char \<Rightarrow> bool" where
  "is_space c \<longleftrightarrow> (let n = (of_char c :: nat)
     in n = 32 \<or> (9 \<le> n \<and> n \<le> 13) \<or> n = 133 \<or> n = 160)"

definition trimmed :: "string \<Rightarrow> string" where
  "trimmed s = rev (dropWhile is_space (rev (dropWhile is_space s)))"

definition to_upper :: "char \<Rightarrow> char" where
  "to_upper c = (let n = (of_char c :: nat) in
     if 97 \<le> n \<and> n \<le> 122 then char_of (n - 32) else c)"

definition to_lower :: "char \<Rightarrow> char" where
  "to_lower c = (let n = (of_char c :: nat) in
     if 65 \<le> n \<and> n \<le> 90 then char_of (n + 32) else c)"

text \<open>Comparison under \<open>COLLATE NOCASE\<close>: the ASCII letters without their case.\<close>

definition nocase_eq :: "string \<Rightarrow> string \<Rightarrow> bool" where
  "nocase_eq a b \<longleftrightarrow> map to_upper a = map to_upper b"

lemma trimmed_Nil [simp]: "trimmed [] = []"
  by (simp add: trimmed_def)

lemma dropWhile_idem: "dropWhile P (dropWhile P xs) = dropWhile P xs"
  by (induction xs) auto

lemma dropWhile_rev_dropWhile:
  "dropWhile P xs = xs \<Longrightarrow> dropWhile P (rev (dropWhile P (rev xs))) = rev (dropWhile P (rev xs))"
proof (cases xs rule: rev_cases)
  case Nil
  then show ?thesis by simp
next
  case (snoc ys y)
  assume keep: "dropWhile P xs = xs"
  obtain zs where split: "xs = rev (dropWhile P (rev xs)) @ zs"
    by (metis rev_append rev_rev_ident takeWhile_dropWhile_id)
  show ?thesis
  proof (cases "rev (dropWhile P (rev xs))")
    case Nil
    then show ?thesis by (simp only: Nil dropWhile.simps)
  next
    case (Cons a as)
    with split have "xs = a # (as @ zs)" by simp
    with keep have "\<not> P a" by (metis dropWhile.simps(2) dropWhile_eq_Cons_conv)
    with Cons show ?thesis by simp
  qed
qed

lemma trimmed_idem [simp]: "trimmed (trimmed s) = trimmed s"
  by (simp only: trimmed_def dropWhile_rev_dropWhile dropWhile_idem rev_rev_ident)

text \<open>The decimal text of a number, as \<open>QString::number\<close> writes it.\<close>

fun digits_of :: "nat \<Rightarrow> string" where
  "digits_of n = (if n < 10 then [char_of (48 + n)] else digits_of (n div 10) @ [char_of (48 + n mod 10)])"

declare digits_of.simps [simp del]

definition number_text :: "int \<Rightarrow> string" where
  "number_text i = (if i < 0 then CHR 0x2D # digits_of (nat (- i)) else digits_of (nat i))"

lemma find_SomeD: "find P xs = Some x \<Longrightarrow> x \<in> set xs \<and> P x"
  by (auto simp: find_Some_iff)

section \<open>Rows of a table\<close>

text \<open>The relational operations of the SQL statements, on a table kept as a list of rows.\<close>

definition update_where :: "('r \<Rightarrow> bool) \<Rightarrow> ('r \<Rightarrow> 'r) \<Rightarrow> 'r list \<Rightarrow> 'r list" where
  "update_where P f rows = map (\<lambda>r. if P r then f r else r) rows"

definition count_where :: "('r \<Rightarrow> bool) \<Rightarrow> 'r list \<Rightarrow> nat" where
  "count_where P rows = length (filter P rows)"

definition sum_where :: "('r \<Rightarrow> int) \<Rightarrow> ('r \<Rightarrow> bool) \<Rightarrow> 'r list \<Rightarrow> int" where
  "sum_where q P rows = sum_list (map q (filter P rows))"

lemma update_where_Nil [simp]: "update_where P f [] = []"
  by (simp add: update_where_def)

lemma update_where_Cons [simp]:
  "update_where P f (r # rs) = (if P r then f r else r) # update_where P f rs"
  by (simp add: update_where_def)

lemma sum_where_Nil [simp]: "sum_where q P [] = 0"
  by (simp add: sum_where_def)

lemma sum_where_Cons [simp]:
  "sum_where q P (r # rs) = (if P r then q r else 0) + sum_where q P rs"
  by (simp add: sum_where_def)

lemma sum_where_append [simp]:
  "sum_where q P (rs @ rs') = sum_where q P rs + sum_where q P rs'"
  by (induction rs) auto

lemma count_where_Nil [simp]: "count_where P [] = 0"
  by (simp add: count_where_def)

lemma count_where_Cons [simp]:
  "count_where P (r # rs) = (if P r then 1 else 0) + count_where P rs"
  by (simp add: count_where_def)

lemma count_where_append [simp]:
  "count_where P (rs @ rs') = count_where P rs + count_where P rs'"
  by (induction rs) auto

lemma count_where_pos: "0 < count_where P rows \<longleftrightarrow> (\<exists>r\<in>set rows. P r)"
  by (induction rows) auto

lemma sum_where_nonneg: "(\<And>r. r \<in> set rows \<Longrightarrow> P r \<Longrightarrow> 0 \<le> q r) \<Longrightarrow> 0 \<le> sum_where q P rows"
  by (induction rows) auto

lemma sum_where_cong:
  "rows = rows' \<Longrightarrow> (\<And>r. r \<in> set rows' \<Longrightarrow> P r = P' r) \<Longrightarrow> (\<And>r. r \<in> set rows' \<Longrightarrow> P' r \<Longrightarrow> q r = q' r) \<Longrightarrow>
   sum_where q P rows = sum_where q' P' rows'"
proof (induction rows arbitrary: rows')
  case Nil
  then show ?case by simp
next
  case (Cons r rs)
  from Cons.prems have "sum_where q P rs = sum_where q' P' rs"
    by (intro Cons.IH) auto
  with Cons.prems show ?case by auto
qed

lemma sum_where_none: "(\<And>r. r \<in> set rows \<Longrightarrow> \<not> P r) \<Longrightarrow> sum_where q P rows = 0"
  by (induction rows) auto

lemma sum_where_filter [simp]:
  "sum_where q P (filter Q rows) = sum_where q (\<lambda>r. P r \<and> Q r) rows"
  by (induction rows) auto

lemma sum_where_member_le:
  assumes "r \<in> set rows" "P r" "\<And>r. r \<in> set rows \<Longrightarrow> P r \<Longrightarrow> 0 \<le> q r"
  shows "q r \<le> sum_where q P rows"
  using assms
proof (induction rows)
  case Nil
  then show ?case by simp
next
  case (Cons a rows)
  have tl: "0 \<le> sum_where q P rows"
    using Cons.prems by (intro sum_where_nonneg) auto
  show ?case
  proof (cases "r = a")
    case True
    with Cons.prems(2) tl show ?thesis by simp
  next
    case False
    with Cons have "q r \<le> sum_where q P rows" by auto
    moreover have "P a \<Longrightarrow> 0 \<le> q a" using Cons.prems(3) by simp
    ultimately show ?thesis by (cases "P a") simp_all
  qed
qed

lemma set_update_where: "set (update_where P f rows) = (\<lambda>r. if P r then f r else r) ` set rows"
  by (simp add: update_where_def)

lemma length_update_where [simp]: "length (update_where P f rows) = length rows"
  by (simp add: update_where_def)

section \<open>Keyed tables\<close>

text \<open>
  The contract of a table with an \<open>INTEGER PRIMARY KEY\<close>: reading the key a statement has
  assigned gives that key back. Everything a client may rely on when it looks a row up,
  updates it by its key, inserts or deletes it is proved once, here.
\<close>

locale keyed_table =
  fixes key :: "'r \<Rightarrow> int"
    and put_key :: "int \<Rightarrow> 'r \<Rightarrow> 'r"
  assumes key_put_key [simp]: "key (put_key i r) = i"
begin

lemma lookup_SomeD: "find (\<lambda>r. key r = i) rows = Some r \<Longrightarrow> r \<in> set rows \<and> key r = i"
  by (auto simp: find_Some_iff)

lemma lookup_unique:
  assumes "distinct (map key rows)" "r \<in> set rows"
  shows "find (\<lambda>r'. key r' = key r) rows = Some r"
  using assms by (induction rows) auto

lemma lookup_update_same:
  assumes "find (\<lambda>r. key r = i) rows = Some r" "\<And>r. key (f r) = key r"
  shows "find (\<lambda>r. key r = i) (update_where (\<lambda>r. key r = i) f rows) = Some (f r)"
  using assms by (induction rows) (auto split: if_splits)

lemma lookup_update_other:
  assumes "\<And>r. key (f r) = key r" "i \<noteq> j"
  shows "find (\<lambda>r. key r = j) (update_where (\<lambda>r. key r = i) f rows) = find (\<lambda>r. key r = j) rows"
  using assms by (induction rows) auto

lemma keys_update:
  assumes "\<And>r. key (f r) = key r"
  shows "map key (update_where P f rows) = map key rows"
  using assms by (induction rows) auto

lemma sum_where_update:
  assumes "find (\<lambda>r. key r = i) rows = Some r" "distinct (map key rows)"
  shows "sum_where q P (update_where (\<lambda>r. key r = i) f rows)
    = sum_where q P rows - (if P r then q r else 0) + (if P (f r) then q (f r) else 0)"
  using assms
proof (induction rows)
  case Nil
  then show ?case by simp
next
  case (Cons a rows)
  show ?case
  proof (cases "key a = i")
    case True
    with Cons.prems have "r = a" "\<forall>r\<in>set rows. key r \<noteq> i" by (auto simp: image_iff)
    then have "update_where (\<lambda>r. key r = i) f rows = rows"
      by (induction rows) auto
    with True \<open>r = a\<close> show ?thesis by simp
  next
    case False
    with Cons show ?thesis by simp
  qed
qed

lemma sum_where_delete:
  assumes "find (\<lambda>r. key r = i) rows = Some r" "distinct (map key rows)"
  shows "sum_where q P (filter (\<lambda>r. key r \<noteq> i) rows)
    = sum_where q P rows - (if P r then q r else 0)"
  using assms
proof (induction rows)
  case Nil
  then show ?case by simp
next
  case (Cons a rows)
  show ?case
  proof (cases "key a = i")
    case True
    with Cons.prems have "r = a" "\<forall>r\<in>set rows. key r \<noteq> i" by (auto simp: image_iff)
    then have "filter (\<lambda>r. key r \<noteq> i) rows = rows" by (auto simp: filter_id_conv)
    with True \<open>r = a\<close> show ?thesis by (simp del: sum_where_filter)
  next
    case False
    with Cons show ?thesis by (simp del: sum_where_filter)
  qed
qed

lemma sum_where_key:
  assumes "find (\<lambda>r. key r = i) rows = Some r" "distinct (map key rows)"
  shows "sum_where q (\<lambda>r. key r = i) rows = q r"
  using assms
proof (induction rows)
  case Nil
  then show ?case by simp
next
  case (Cons a rows)
  show ?case
  proof (cases "key a = i")
    case True
    with Cons.prems have "r = a" "\<And>x. x \<in> set rows \<Longrightarrow> key x \<noteq> i" by (auto simp: image_iff)
    with True show ?thesis by (simp add: sum_where_none)
  next
    case False
    with Cons show ?thesis by simp
  qed
qed

lemma lookup_insert:
  assumes "i \<notin> key ` set rows"
  shows "find (\<lambda>r. key r = i) (rows @ [put_key i r]) = Some (put_key i r)"
  using assms by (induction rows) auto

lemma lookup_insert_other:
  assumes "i \<noteq> j"
  shows "find (\<lambda>r. key r = j) (rows @ [put_key i r]) = find (\<lambda>r. key r = j) rows"
  using assms by (induction rows) auto

lemma lookup_append: "find (\<lambda>r. key r = i) rows = Some r \<Longrightarrow> find (\<lambda>r. key r = i) (rows @ rs) = Some r"
  by (induction rows) auto

lemma lookup_delete_other:
  assumes "i \<noteq> j"
  shows "find (\<lambda>r. key r = j) (filter (\<lambda>r. key r \<noteq> i) rows) = find (\<lambda>r. key r = j) rows"
  using assms by (induction rows) auto

end

end
