(* ===== verification/Tables.thy ===== *)
theory Tables
  imports Prelude
begin

text \<open>
  The rows of the workspace database the model follows, the \<open>tables\<close> record that holds them,
  the constraints the schema declares on them (\<open>DatabaseSchema.cpp\<close>), and the contract of a
  table addressed by its primary key, interpreted for every table.

  Text is kept as the code keeps it (types, modes and statuses are strings). A NULL identity is
  0, which is also what the C++ objects hold for it. The columns \<open>created_utc\<close> and
  \<open>modified_utc\<close> are not modelled, except for the storage locations and the Collection items,
  whose changes are checked against the time of the last one: no other modelled operation reads
  them.
\<close>

section \<open>Rows\<close>

record inventory_row =
  inv_id :: int
  inv_workspace :: int
  inv_part :: int
  inv_color :: int
  inv_storage :: int
  inv_manufacturer :: int
  inv_condition :: string
  inv_ownership :: string
  inv_quantity :: int

record movement_row =
  mov_id :: int
  mov_workspace :: int
  mov_inventory :: int
  mov_part :: int
  mov_color :: int
  mov_type :: string
  mov_quantity :: int
  mov_from :: int
  mov_to :: int
  mov_condition :: string
  mov_ownership :: string
  mov_ref_type :: string
  mov_ref_id :: string
  mov_notes :: string

record build_row =
  bld_id :: int
  bld_workspace :: int
  bld_type :: string
  bld_name :: string
  bld_set_number :: string
  bld_mode :: string
  bld_status :: string
  bld_active :: bool
  bld_notes :: string
  bld_manufacturer :: int
  bld_minifig :: int
  bld_set_catalog :: int

record requirement_row =
  req_id :: int
  req_build :: int
  req_part :: int
  req_color :: int
  req_sub_part :: int
  req_sub_color :: int
  req_required :: int
  req_pulled :: int
  req_released :: int
  req_spare :: bool

record allocation_row =
  alloc_id :: int
  alloc_build :: int
  alloc_requirement :: int
  alloc_inventory :: int
  alloc_part :: int
  alloc_color :: int
  alloc_storage :: int
  alloc_quantity :: int

record provenance_row =
  prov_id :: int
  prov_build :: int
  prov_part :: int
  prov_color :: int
  prov_manufacturer :: int
  prov_quantity :: int

record collection_row =
  col_id :: int
  col_workspace :: int
  col_type :: string
  col_set_catalog :: int
  col_minifig_catalog :: int
  col_state :: string
  col_condition :: string
  col_completeness :: string
  col_storage :: int
  col_source_build :: int
  col_nickname :: string
  col_notes :: string
  col_allow_parts :: bool
  col_active :: bool
  col_modified :: int

record storage_row =
  sto_id :: int
  sto_workspace :: int
  sto_parent :: int
  sto_type :: int
  sto_name :: string
  sto_description :: string
  sto_sort :: int
  sto_active :: bool
  sto_allows_inventory :: bool
  sto_allows_collection :: bool
  sto_modified :: int

record workspace_row =
  wsp_id :: int
  wsp_active :: bool

record location_type_row =
  typ_id :: int
  typ_active :: bool

record set_catalog_row =
  sct_id :: int
  sct_number :: string
  sct_name :: string

record part_row =
  part_id :: int
  part_number :: string
  part_active :: bool

record manufacturer_row =
  man_id :: int
  man_code :: string
  man_name :: string
  man_active :: bool

text \<open>
  The compositions of the catalog: a preferred revision of a set, and the rows of a revision, of a
  set of the older catalog and of a Minifig. The owner of a row is the revision, set or Minifig it
  belongs to.
\<close>

record revision_row =
  rev_id :: int
  rev_set :: int
  rev_provider :: string
  rev_active :: bool
  rev_preferred :: bool

record composition_row =
  cmp_id :: int
  cmp_owner :: int
  cmp_part :: int
  cmp_color :: int
  cmp_quantity :: int
  cmp_spare :: bool

text \<open>
  A customization of the Part Reference; the placement is the text of \<open>placement_mode\<close>, a missing
  anchor the empty text.
\<close>

record reference_row =
  rfe_id :: int
  rfe_part :: int
  rfe_catalog :: string
  rfe_section :: string
  rfe_anchor :: string
  rfe_placement :: string
  rfe_created :: int
  rfe_modified :: int

text \<open>
  The reference tables the modelled code only looks identities up in (colors, Minifig catalog) are
  lists of their primary keys; beside them stand the names of the colors, their Rebrickable
  numbers and the numbers of the Minifigs (with the Minifigs whose number is inactive), which some
  operations look up, put in order or in a note. The \<open>seq_\<close>
  fields are the AUTOINCREMENT counters.
\<close>

record tables =
  inventory :: "inventory_row list"
  movements :: "movement_row list"
  builds :: "build_row list"
  requirements :: "requirement_row list"
  allocations :: "allocation_row list"
  provenance :: "provenance_row list"
  collection :: "collection_row list"
  storage :: "storage_row list"
  workspaces :: "workspace_row list"
  parts :: "part_row list"
  colors :: "int list"
  manufacturers :: "manufacturer_row list"
  set_catalog :: "set_catalog_row list"
  minifig_catalog :: "int list"
  location_types :: "location_type_row list"
  color_names :: "(int \<times> string) list"
  color_numbers :: "(int \<times> int) list"
  minifig_numbers :: "(int \<times> string) list"
  inactive_numbers :: "int list"
  set_revisions :: "revision_row list"
  revision_parts :: "composition_row list"
  set_catalog_parts :: "composition_row list"
  minifig_catalog_parts :: "composition_row list"
  part_references :: "reference_row list"
  seq_inventory :: int
  seq_movement :: int
  seq_build :: int
  seq_requirement :: int
  seq_allocation :: int
  seq_provenance :: int
  seq_collection :: int
  seq_storage :: int
  seq_reference :: int

definition empty_tables :: tables where
  "empty_tables = \<lparr>inventory = [], movements = [], builds = [], requirements = [],
     allocations = [], provenance = [], collection = [], storage = [], workspaces = [],
     parts = [], colors = [], manufacturers = [], set_catalog = [], minifig_catalog = [],
     location_types = [], color_names = [], color_numbers = [], minifig_numbers = [], inactive_numbers = [], set_revisions = [],
     revision_parts = [], set_catalog_parts = [], minifig_catalog_parts = [], part_references = [], seq_inventory = 0, seq_movement = 0, seq_build = 0,
     seq_requirement = 0, seq_allocation = 0, seq_provenance = 0, seq_collection = 0,
     seq_storage = 0, seq_reference = 0\<rparr>"

section \<open>Constraints of the schema\<close>

definition refers :: "int \<Rightarrow> int list \<Rightarrow> bool" where
  "refers i keys \<longleftrightarrow> i \<in> set keys"

definition refers_or_null :: "int \<Rightarrow> int list \<Rightarrow> bool" where
  "refers_or_null i keys \<longleftrightarrow> i = 0 \<or> i \<in> set keys"

definition inventory_identity ::
    "inventory_row \<Rightarrow> int \<times> int \<times> int \<times> int \<times> int \<times> string \<times> string" where
  "inventory_identity r = (inv_workspace r, inv_part r, inv_color r, inv_storage r,
     inv_manufacturer r, inv_condition r, inv_ownership r)"

definition inventory_constraints :: "tables \<Rightarrow> bool" where
  "inventory_constraints t \<longleftrightarrow>
     distinct (map inv_id (inventory t)) \<and>
     distinct (map inventory_identity (inventory t)) \<and>
     (\<forall>r\<in>set (inventory t). 0 \<le> inv_quantity r
        \<and> refers (inv_workspace r) (map wsp_id (workspaces t))
        \<and> refers (inv_part r) (map part_id (parts t))
        \<and> refers (inv_color r) (colors t)
        \<and> refers (inv_storage r) (map sto_id (storage t))
        \<and> refers (inv_manufacturer r) (map man_id (manufacturers t)))"

definition movement_constraints :: "tables \<Rightarrow> bool" where
  "movement_constraints t \<longleftrightarrow>
     distinct (map mov_id (movements t)) \<and>
     (\<forall>m\<in>set (movements t).
        refers (mov_workspace m) (map wsp_id (workspaces t))
        \<and> refers_or_null (mov_inventory m) (map inv_id (inventory t))
        \<and> refers (mov_part m) (map part_id (parts t))
        \<and> refers (mov_color m) (colors t)
        \<and> refers_or_null (mov_from m) (map sto_id (storage t))
        \<and> refers_or_null (mov_to m) (map sto_id (storage t)))"

definition build_constraints :: "tables \<Rightarrow> bool" where
  "build_constraints t \<longleftrightarrow>
     distinct (map bld_id (builds t)) \<and>
     (\<forall>b\<in>set (builds t).
        bld_type b \<in> {''Set'', ''MOC'', ''Minifig''}
        \<and> bld_mode b \<in> {''Stock'', ''CompleteSet''}
        \<and> bld_status b \<in> {''Planned'', ''Pulling'', ''Complete'', ''Disassembled'', ''Cancelled''}
        \<and> refers (bld_workspace b) (map wsp_id (workspaces t))
        \<and> refers_or_null (bld_manufacturer b) (map man_id (manufacturers t))
        \<and> refers_or_null (bld_minifig b) (minifig_catalog t)
        \<and> refers_or_null (bld_set_catalog b) (map sct_id (set_catalog t)))"

definition requirement_identity :: "requirement_row \<Rightarrow> int \<times> int \<times> int \<times> bool" where
  "requirement_identity r = (req_build r, req_part r, req_color r, req_spare r)"

definition requirement_constraints :: "tables \<Rightarrow> bool" where
  "requirement_constraints t \<longleftrightarrow>
     distinct (map req_id (requirements t)) \<and>
     distinct (map requirement_identity (requirements t)) \<and>
     (\<forall>r\<in>set (requirements t). 0 < req_required r \<and> 0 \<le> req_pulled r \<and> 0 \<le> req_released r
        \<and> refers (req_build r) (map bld_id (builds t))
        \<and> refers (req_part r) (map part_id (parts t))
        \<and> refers (req_color r) (colors t)
        \<and> refers_or_null (req_sub_part r) (map part_id (parts t))
        \<and> refers_or_null (req_sub_color r) (colors t))"

definition allocation_identity :: "allocation_row \<Rightarrow> int \<times> int" where
  "allocation_identity a = (alloc_requirement a, alloc_inventory a)"

definition allocation_constraints :: "tables \<Rightarrow> bool" where
  "allocation_constraints t \<longleftrightarrow>
     distinct (map alloc_id (allocations t)) \<and>
     distinct (map allocation_identity (filter (\<lambda>a. alloc_requirement a \<noteq> 0) (allocations t))) \<and>
     (\<forall>a\<in>set (allocations t). 0 < alloc_quantity a
        \<and> refers (alloc_build a) (map bld_id (builds t))
        \<and> refers_or_null (alloc_requirement a) (map req_id (requirements t))
        \<and> refers (alloc_inventory a) (map inv_id (inventory t))
        \<and> refers (alloc_part a) (map part_id (parts t))
        \<and> refers (alloc_color a) (colors t)
        \<and> refers (alloc_storage a) (map sto_id (storage t)))"

definition provenance_identity :: "provenance_row \<Rightarrow> int \<times> int \<times> int \<times> int" where
  "provenance_identity p = (prov_build p, prov_part p, prov_color p, prov_manufacturer p)"

definition provenance_constraints :: "tables \<Rightarrow> bool" where
  "provenance_constraints t \<longleftrightarrow>
     distinct (map prov_id (provenance t)) \<and>
     distinct (map provenance_identity (provenance t)) \<and>
     (\<forall>p\<in>set (provenance t). 0 \<le> prov_quantity p
        \<and> refers (prov_build p) (map bld_id (builds t))
        \<and> refers (prov_part p) (map part_id (parts t))
        \<and> refers (prov_color p) (colors t)
        \<and> refers (prov_manufacturer p) (map man_id (manufacturers t)))"

definition collection_row_ok :: "tables \<Rightarrow> collection_row \<Rightarrow> bool" where
  "collection_row_ok t c \<longleftrightarrow>
     col_type c \<in> {''Set'', ''Minifig'', ''MOC''}
     \<and> col_state c \<in> {''Assembled'', ''Unassembled'', ''PartiallyAssembled'', ''Sealed''}
     \<and> col_condition c \<in> {''New'', ''Used''}
     \<and> col_completeness c \<in> {''Unknown'', ''Complete'', ''Incomplete''}
     \<and> refers (col_workspace c) (map wsp_id (workspaces t))
     \<and> refers_or_null (col_set_catalog c) (map sct_id (set_catalog t))
     \<and> refers_or_null (col_minifig_catalog c) (minifig_catalog t)
     \<and> (col_storage c = 0 \<or>
         (\<exists>l\<in>set (storage t). sto_workspace l = col_workspace c \<and> sto_id l = col_storage c))
     \<and> (col_source_build c = 0 \<or>
         (\<exists>b\<in>set (builds t). bld_workspace b = col_workspace c \<and> bld_id b = col_source_build c))
     \<and> ((col_type c = ''Set'' \<and> col_set_catalog c \<noteq> 0 \<and> col_minifig_catalog c = 0)
        \<or> (col_type c = ''Minifig'' \<and> col_set_catalog c = 0 \<and> col_minifig_catalog c \<noteq> 0
            \<and> \<not> col_allow_parts c)
        \<or> (col_type c = ''MOC'' \<and> col_set_catalog c = 0 \<and> col_minifig_catalog c = 0
            \<and> col_source_build c \<noteq> 0))"

definition collection_constraints :: "tables \<Rightarrow> bool" where
  "collection_constraints t \<longleftrightarrow>
     distinct (map col_id (collection t)) \<and>
     distinct (map col_source_build (filter (\<lambda>c. col_source_build c \<noteq> 0) (collection t))) \<and>
     (\<forall>c\<in>set (collection t). collection_row_ok t c)"

definition storage_constraints :: "tables \<Rightarrow> bool" where
  "storage_constraints t \<longleftrightarrow>
     distinct (map sto_id (storage t)) \<and>
     (\<forall>l\<in>set (storage t).
        refers (sto_workspace l) (map wsp_id (workspaces t))
        \<and> refers_or_null (sto_parent l) (map sto_id (storage t))
        \<and> refers (sto_type l) (map typ_id (location_types t)))"

definition reference_constraints :: "tables \<Rightarrow> bool" where
  "reference_constraints t \<longleftrightarrow>
     distinct (map rfe_id (part_references t)) \<and>
     distinct (map rfe_part (part_references t)) \<and>
     (\<forall>r\<in>set (part_references t). rfe_placement r \<in> {''Before'', ''After'', ''Append''}
        \<and> refers (rfe_part r) (map part_id (parts t)))"

text \<open>What SQLite checks before it accepts the effect of a statement.\<close>

definition constraints :: "tables \<Rightarrow> bool" where
  "constraints t \<longleftrightarrow> inventory_constraints t \<and> movement_constraints t \<and> build_constraints t
     \<and> requirement_constraints t \<and> allocation_constraints t \<and> provenance_constraints t
     \<and> collection_constraints t \<and> storage_constraints t \<and> reference_constraints t"

text \<open>Everything a concrete database has to be unfolded to for its constraints to be evaluated.\<close>

lemmas constraint_defs = constraints_def inventory_constraints_def movement_constraints_def
  build_constraints_def requirement_constraints_def allocation_constraints_def
  provenance_constraints_def collection_constraints_def collection_row_ok_def
  storage_constraints_def reference_constraints_def refers_def refers_or_null_def inventory_identity_def
  requirement_identity_def allocation_identity_def provenance_identity_def

lemma constraints_inventory_keys: "constraints t \<Longrightarrow> distinct (map inv_id (inventory t))"
  by (simp add: constraints_def inventory_constraints_def)

lemma constraints_quantity: "constraints t \<Longrightarrow> r \<in> set (inventory t) \<Longrightarrow> 0 \<le> inv_quantity r"
  by (simp add: constraints_def inventory_constraints_def)

lemma constraints_requirement_keys: "constraints t \<Longrightarrow> distinct (map req_id (requirements t))"
  by (simp add: constraints_def requirement_constraints_def)

lemma constraints_allocation_keys: "constraints t \<Longrightarrow> distinct (map alloc_id (allocations t))"
  by (simp add: constraints_def allocation_constraints_def)

lemma constraints_allocation_pos:
  "constraints t \<Longrightarrow> a \<in> set (allocations t) \<Longrightarrow> 0 < alloc_quantity a"
  by (simp add: constraints_def allocation_constraints_def)

lemma constraints_provenance_keys: "constraints t \<Longrightarrow> distinct (map prov_id (provenance t))"
  by (simp add: constraints_def provenance_constraints_def)

lemma constraints_provenance_identity:
  "constraints t \<Longrightarrow> distinct (map provenance_identity (provenance t))"
  by (simp add: constraints_def provenance_constraints_def)

lemma constraints_build_keys: "constraints t \<Longrightarrow> distinct (map bld_id (builds t))"
  by (simp add: constraints_def build_constraints_def)

lemma constraints_storage_keys: "constraints t \<Longrightarrow> distinct (map sto_id (storage t))"
  by (simp add: constraints_def storage_constraints_def)

lemma constraints_collection_keys: "constraints t \<Longrightarrow> distinct (map col_id (collection t))"
  by (simp add: constraints_def collection_constraints_def)

section \<open>The tables as keyed tables\<close>

definition put_inv_id :: "int \<Rightarrow> inventory_row \<Rightarrow> inventory_row" where
  "put_inv_id i r = r\<lparr>inv_id := i\<rparr>"

definition put_req_id :: "int \<Rightarrow> requirement_row \<Rightarrow> requirement_row" where
  "put_req_id i r = r\<lparr>req_id := i\<rparr>"

definition put_alloc_id :: "int \<Rightarrow> allocation_row \<Rightarrow> allocation_row" where
  "put_alloc_id i r = r\<lparr>alloc_id := i\<rparr>"

definition put_prov_id :: "int \<Rightarrow> provenance_row \<Rightarrow> provenance_row" where
  "put_prov_id i r = r\<lparr>prov_id := i\<rparr>"

definition put_bld_id :: "int \<Rightarrow> build_row \<Rightarrow> build_row" where
  "put_bld_id i r = r\<lparr>bld_id := i\<rparr>"

definition put_col_id :: "int \<Rightarrow> collection_row \<Rightarrow> collection_row" where
  "put_col_id i r = r\<lparr>col_id := i\<rparr>"

definition put_sto_id :: "int \<Rightarrow> storage_row \<Rightarrow> storage_row" where
  "put_sto_id i r = r\<lparr>sto_id := i\<rparr>"

interpretation inv: keyed_table inv_id put_inv_id
  by unfold_locales (simp add: put_inv_id_def)

interpretation req: keyed_table req_id put_req_id
  by unfold_locales (simp add: put_req_id_def)

interpretation alloc: keyed_table alloc_id put_alloc_id
  by unfold_locales (simp add: put_alloc_id_def)

interpretation prov: keyed_table prov_id put_prov_id
  by unfold_locales (simp add: put_prov_id_def)

interpretation bld: keyed_table bld_id put_bld_id
  by unfold_locales (simp add: put_bld_id_def)

interpretation col: keyed_table col_id put_col_id
  by unfold_locales (simp add: put_col_id_def)

interpretation sto: keyed_table sto_id put_sto_id
  by unfold_locales (simp add: put_sto_id_def)

end
