(* ===== verification/Session.thy ===== *)
theory Session
  imports Tables
begin

text \<open>
  A database connection (\<open>QSqlDatabase\<close>) and the statements the repositories run on it.
  A repository operation is a computation in the state monad over \<open>session\<close>.

  The environment decides which statements fail: every statement, transaction start and commit
  consumes one entry of \<open>faults\<close>, and \<open>True\<close> makes it fail. Once the list is used up nothing
  fails any more, so a theorem that quantifies over the session covers every pattern of
  database errors.

  \<open>local_writes\<close> is false exactly when the services refuse a change because of Host
  Maintenance: the connection is the default one and \<open>HostOperationalGate::localWritesAllowed\<close>
  is false. \<open>clock\<close> is the time the environment shows during the operation.
\<close>

record session =
  tables :: tables
  saved :: "tables option"   \<comment> \<open>the snapshot of the open transaction\<close>
  faults :: "bool list"
  local_writes :: bool       \<comment> \<open>the Host lets this connection write\<close>
  clock :: int               \<comment> \<open>\<open>QDateTime::currentDateTimeUtc\<close>\<close>

definition connect :: "tables \<Rightarrow> session" where
  "connect t = \<lparr>tables = t, saved = None, faults = [], local_writes = True, clock = 0\<rparr>"

definition fails_next :: "session \<Rightarrow> bool" where
  "fails_next s \<longleftrightarrow> (case faults s of [] \<Rightarrow> False | b # bs \<Rightarrow> b)"

definition tick :: "session \<Rightarrow> session" where
  "tick s = s\<lparr>faults := tl (faults s)\<rparr>"

section \<open>Statements\<close>

definition sql_query :: "(tables \<Rightarrow> 'a) \<Rightarrow> (session, 'a option) state" where
  "sql_query q = State (\<lambda>s. (if fails_next s then None else Some (q (tables s)), tick s))"

text \<open>
  A statement that writes gives the number of rows it affected, or the identity it inserted; it
  fails as a whole, leaving the tables as they were, when its effect breaks a constraint.
\<close>

definition sql_exec :: "(tables \<Rightarrow> 'n \<times> tables) \<Rightarrow> (session, 'n option) state" where
  "sql_exec f = State (\<lambda>s. (let (n, t) = f (tables s) in
     if fails_next s \<or> \<not> constraints t then (None, tick s)
     else (Some n, (tick s)\<lparr>tables := t\<rparr>)))"

definition begin_transaction :: "(session, bool) state" where
  "begin_transaction = State (\<lambda>s.
     if fails_next s \<or> saved s \<noteq> None then (False, tick s)
     else (True, (tick s)\<lparr>saved := Some (tables s)\<rparr>))"

definition commit :: "(session, bool) state" where
  "commit = State (\<lambda>s.
     if fails_next s \<or> saved s = None then (False, tick s)
     else (True, (tick s)\<lparr>saved := None\<rparr>))"

definition rollback :: "(session, unit) state" where
  "rollback = State (\<lambda>s. ((), case saved s of None \<Rightarrow> s
     | Some t \<Rightarrow> s\<lparr>tables := t, saved := None\<rparr>))"

definition host_write_allowed :: "(session, bool) state" where
  "host_write_allowed = State (\<lambda>s. (local_writes s, s))"

definition current_time :: "(session, int) state" where
  "current_time = State (\<lambda>s. (clock s, s))"

section \<open>Transactions\<close>

text \<open>
  The pattern every repository and service uses: begin, run the body, roll back when the body
  did not succeed, commit, and roll back when the commit fails.
\<close>

definition transactional ::
    "('a \<Rightarrow> bool) \<Rightarrow> 'a \<Rightarrow> 'a \<Rightarrow> (session, 'a) state \<Rightarrow> (session, 'a) state" where
  "transactional ok not_begun not_committed body = do {
     started \<leftarrow> begin_transaction;
     if \<not> started then ret not_begun
     else do {
       result \<leftarrow> body;
       if \<not> ok result then do { rollback; ret result }
       else do {
         committed \<leftarrow> commit;
         if committed then ret result
         else do { rollback; ret not_committed }
       }
     }
   }"

abbreviation in_transaction :: "(session, bool) state \<Rightarrow> (session, bool) state" where
  "in_transaction \<equiv> transactional (\<lambda>ok. ok) False False"

definition succeeds :: "('e + 'a) \<Rightarrow> bool" where
  "succeeds r = (case r of Inl e \<Rightarrow> False | Inr a \<Rightarrow> True)"

text \<open>
  The \<open>inTransaction\<close> of the services: Host Maintenance refuses the operation before a transaction
  is started.
\<close>

definition host_transaction ::
    "'e \<Rightarrow> 'e \<Rightarrow> (session, 'e + 'a) state \<Rightarrow> (session, 'e + 'a) state" where
  "host_transaction refused failed body = do {
     allowed \<leftarrow> host_write_allowed;
     if \<not> allowed then ret (Inl refused)
     else transactional succeeds (Inl failed) (Inl failed) body
   }"

definition got :: "'a option \<Rightarrow> bool" where
  "got r = (r \<noteq> None)"

section \<open>Running computations\<close>

lemma run_bind [run_simps]:
  "run_state (State_Monad.bind m f) s = (case run_state m s of (a, s') \<Rightarrow> run_state (f a) s')"
  by (simp add: State_Monad.bind_def)

lemma run_ret [run_simps]: "run_state (ret a) s = (a, s)"
  by (simp add: State_Monad.return_def)

lemma run_if [run_simps]:
  "run_state (if b then m else m') s = (if b then run_state m s else run_state m' s)"
  by simp

lemma run_query [run_simps]:
  "run_state (sql_query q) s = (if fails_next s then None else Some (q (tables s)), tick s)"
  by (simp add: sql_query_def)

lemma run_exec [run_simps]:
  "run_state (sql_exec f) s = (if fails_next s \<or> \<not> constraints (snd (f (tables s)))
     then (None, tick s)
     else (Some (fst (f (tables s))), (tick s)\<lparr>tables := snd (f (tables s))\<rparr>))"
  by (simp add: sql_exec_def split: prod.split)

lemma run_begin [run_simps]:
  "run_state begin_transaction s = (if fails_next s \<or> saved s \<noteq> None then (False, tick s)
     else (True, (tick s)\<lparr>saved := Some (tables s)\<rparr>))"
  by (simp add: begin_transaction_def)

lemma run_commit [run_simps]:
  "run_state commit s = (if fails_next s \<or> saved s = None then (False, tick s)
     else (True, (tick s)\<lparr>saved := None\<rparr>))"
  by (simp add: commit_def)

lemma run_rollback [run_simps]:
  "run_state rollback s = ((), case saved s of None \<Rightarrow> s
     | Some t \<Rightarrow> s\<lparr>tables := t, saved := None\<rparr>)"
  by (simp add: rollback_def)

lemma run_host_write_allowed [run_simps]: "run_state host_write_allowed s = (local_writes s, s)"
  by (simp add: host_write_allowed_def)

lemma run_current_time [run_simps]: "run_state current_time s = (clock s, s)"
  by (simp add: current_time_def)

lemma tick_simps [simp]:
  "tables (tick s) = tables s" "saved (tick s) = saved s" "local_writes (tick s) = local_writes s"
  "faults (tick s) = tl (faults s)"
  by (simp_all add: tick_def)

lemma succeeds_simps [simp]: "\<not> succeeds (Inl e)" "succeeds (Inr a)"
  by (simp_all add: succeeds_def)

lemma got_simps [simp]: "\<not> got None" "got (Some a)"
  by (simp_all add: got_def)

lemma succeeds_iff: "succeeds r \<longleftrightarrow> (\<exists>a. r = Inr a)"
  by (cases r) auto

text \<open>Evaluation of a session none of whose statements fail.\<close>

lemma connect_simps [simp]:
  "tables (connect t) = t" "saved (connect t) = None" "faults (connect t) = []"
  "local_writes (connect t)"
  by (simp_all add: connect_def)

lemma quiet_tick [simp]: "faults s = [] \<Longrightarrow> tick s = s"
  by (simp add: tick_def)

lemma no_faults [simp]: "faults s = [] \<Longrightarrow> \<not> fails_next s"
  by (simp add: fails_next_def)

section \<open>What a computation keeps\<close>

text \<open>
  A computation keeps the connection when it neither starts nor ends a transaction (nor opens
  the write gate) whatever it answers: the condition under which the transaction around it is
  the only one.
\<close>

definition keeps_connection :: "(session, 'a) state \<Rightarrow> bool" where
  "keeps_connection m \<longleftrightarrow> (\<forall>s. saved (snd (run_state m s)) = saved s
     \<and> local_writes (snd (run_state m s)) = local_writes s)"

named_theorems keeps_rules "computations that keep the connection"

lemma keepsD:
  "keeps_connection m \<Longrightarrow> run_state m s = (r, s') \<Longrightarrow> saved s' = saved s \<and> local_writes s' = local_writes s"
  unfolding keeps_connection_def by (metis snd_conv)

lemma keeps_ret [keeps_rules]: "keeps_connection (ret a)"
  by (simp add: keeps_connection_def run_simps)

lemma keeps_query [keeps_rules]: "keeps_connection (sql_query q)"
  by (simp add: keeps_connection_def run_simps)

lemma keeps_exec [keeps_rules]: "keeps_connection (sql_exec f)"
  by (simp add: keeps_connection_def run_simps Let_def split: prod.split)

lemma keeps_bind [keeps_rules]:
  "keeps_connection m \<Longrightarrow> (\<And>a. keeps_connection (f a)) \<Longrightarrow> keeps_connection (State_Monad.bind m f)"
  by (simp add: keeps_connection_def run_simps split: prod.split) (metis snd_conv)

lemma keeps_if [keeps_rules]:
  "(b \<Longrightarrow> keeps_connection m) \<Longrightarrow> (\<not> b \<Longrightarrow> keeps_connection m') \<Longrightarrow> keeps_connection (if b then m else m')"
  by simp

lemma keeps_option [keeps_rules]:
  "keeps_connection m \<Longrightarrow> (\<And>a. keeps_connection (f a)) \<Longrightarrow>
   keeps_connection (case x of None \<Rightarrow> m | Some a \<Rightarrow> f a)"
  by (cases x) auto

lemma keeps_sum [keeps_rules]:
  "(\<And>e. keeps_connection (g e)) \<Longrightarrow> (\<And>a. keeps_connection (f a)) \<Longrightarrow>
   keeps_connection (case x of Inl e \<Rightarrow> g e | Inr a \<Rightarrow> f a)"
  by (cases x) auto

lemma keeps_prod [keeps_rules]:
  "(\<And>a b. keeps_connection (f a b)) \<Longrightarrow> keeps_connection (case x of (a, b) \<Rightarrow> f a b)"
  by (cases x) auto

lemma keeps_Let [keeps_rules]:
  "(\<And>a. keeps_connection (f a)) \<Longrightarrow> keeps_connection (let a = x in f a)"
  by simp

text \<open>A computation that only reads: it changes nothing but the faults still to come.\<close>

definition reads_only :: "(session, 'a) state \<Rightarrow> bool" where
  "reads_only m \<longleftrightarrow> (\<forall>s. tables (snd (run_state m s)) = tables s
     \<and> saved (snd (run_state m s)) = saved s
     \<and> local_writes (snd (run_state m s)) = local_writes s)"

named_theorems reads_rules "computations that only read"

lemma readsD:
  "reads_only m \<Longrightarrow> run_state m s = (r, s') \<Longrightarrow>
   tables s' = tables s \<and> saved s' = saved s \<and> local_writes s' = local_writes s"
  unfolding reads_only_def by (metis snd_conv)

lemma reads_keeps: "reads_only m \<Longrightarrow> keeps_connection m"
  by (simp add: reads_only_def keeps_connection_def)

lemma reads_ret [reads_rules]: "reads_only (ret a)"
  by (simp add: reads_only_def run_simps)

lemma reads_query [reads_rules]: "reads_only (sql_query q)"
  by (simp add: reads_only_def run_simps)

lemma reads_clock [reads_rules]: "reads_only current_time"
  by (simp add: reads_only_def run_simps)

lemma reads_gate [reads_rules]: "reads_only host_write_allowed"
  by (simp add: reads_only_def run_simps)

lemmas keeps_clock_gate [keeps_rules] = reads_clock [THEN reads_keeps] reads_gate [THEN reads_keeps]

lemma reads_sum [reads_rules]:
  "(\<And>e. reads_only (g e)) \<Longrightarrow> (\<And>a. reads_only (f a)) \<Longrightarrow>
   reads_only (case x of Inl e \<Rightarrow> g e | Inr a \<Rightarrow> f a)"
  by (cases x) auto

lemma reads_bind [reads_rules]:
  "reads_only m \<Longrightarrow> (\<And>a. reads_only (f a)) \<Longrightarrow> reads_only (State_Monad.bind m f)"
  by (simp add: reads_only_def run_simps split: prod.split) (metis snd_conv)

lemma reads_if [reads_rules]:
  "(b \<Longrightarrow> reads_only m) \<Longrightarrow> (\<not> b \<Longrightarrow> reads_only m') \<Longrightarrow> reads_only (if b then m else m')"
  by simp

lemma reads_option [reads_rules]:
  "reads_only m \<Longrightarrow> (\<And>a. reads_only (f a)) \<Longrightarrow> reads_only (case x of None \<Rightarrow> m | Some a \<Rightarrow> f a)"
  by (cases x) auto

text \<open>
  A computation without transactions of its own keeps the constraints of the schema, since every
  statement does.
\<close>

definition keeps_valid :: "(session, 'a) state \<Rightarrow> bool" where
  "keeps_valid m \<longleftrightarrow> (\<forall>s. constraints (tables s) \<longrightarrow> constraints (tables (snd (run_state m s))))"

named_theorems valid_rules "computations that keep the constraints"

lemma validD:
  "keeps_valid m \<Longrightarrow> run_state m s = (r, s') \<Longrightarrow> constraints (tables s) \<Longrightarrow> constraints (tables s')"
  unfolding keeps_valid_def by (metis snd_conv)

lemma reads_valid: "reads_only m \<Longrightarrow> keeps_valid m"
  by (simp add: reads_only_def keeps_valid_def)

lemma valid_exec [valid_rules]: "keeps_valid (sql_exec f)"
  by (simp add: keeps_valid_def run_simps)

lemma valid_bind [valid_rules]:
  "keeps_valid m \<Longrightarrow> (\<And>a. keeps_valid (f a)) \<Longrightarrow> keeps_valid (State_Monad.bind m f)"
  by (simp add: keeps_valid_def run_simps split: prod.split) (metis snd_conv)

lemma valid_if [valid_rules]:
  "(b \<Longrightarrow> keeps_valid m) \<Longrightarrow> (\<not> b \<Longrightarrow> keeps_valid m') \<Longrightarrow> keeps_valid (if b then m else m')"
  by simp

lemma valid_option [valid_rules]:
  "keeps_valid m \<Longrightarrow> (\<And>a. keeps_valid (f a)) \<Longrightarrow> keeps_valid (case x of None \<Rightarrow> m | Some a \<Rightarrow> f a)"
  by (cases x) auto

lemma valid_sum [valid_rules]:
  "(\<And>e. keeps_valid (g e)) \<Longrightarrow> (\<And>a. keeps_valid (f a)) \<Longrightarrow>
   keeps_valid (case x of Inl e \<Rightarrow> g e | Inr a \<Rightarrow> f a)"
  by (cases x) auto

lemma valid_prod [valid_rules]:
  "(\<And>a b. keeps_valid (f a b)) \<Longrightarrow> keeps_valid (case x of (a, b) \<Rightarrow> f a b)"
  by (cases x) auto

lemma valid_Let [valid_rules]:
  "(\<And>a. keeps_valid (f a)) \<Longrightarrow> keeps_valid (let a = x in f a)"
  by simp

lemmas valid_basic [valid_rules] = reads_ret [THEN reads_valid] reads_query [THEN reads_valid]
  reads_clock [THEN reads_valid] reads_gate [THEN reads_valid]

section \<open>What a computation may change\<close>

definition stays :: "(tables \<Rightarrow> tables \<Rightarrow> bool) \<Rightarrow> (session, 'a) state \<Rightarrow> bool" where
  "stays R m \<longleftrightarrow> (\<forall>s. R (tables s) (tables (snd (run_state m s))))"

named_theorems stays_rules "computations that keep a relation between the tables"

lemma staysD: "stays R m \<Longrightarrow> run_state m s = (r, s') \<Longrightarrow> R (tables s) (tables s')"
  unfolding stays_def by (metis snd_conv)

lemma stays_if [stays_rules]:
  "(b \<Longrightarrow> stays R m) \<Longrightarrow> (\<not> b \<Longrightarrow> stays R m') \<Longrightarrow> stays R (if b then m else m')"
  by simp

lemma stays_option [stays_rules]:
  "stays R m \<Longrightarrow> (\<And>a. stays R (f a)) \<Longrightarrow> stays R (case x of None \<Rightarrow> m | Some a \<Rightarrow> f a)"
  by (cases x) auto

lemma stays_sum [stays_rules]:
  "(\<And>e. stays R (g e)) \<Longrightarrow> (\<And>a. stays R (f a)) \<Longrightarrow> stays R (case x of Inl e \<Rightarrow> g e | Inr a \<Rightarrow> f a)"
  by (cases x) auto

text \<open>What a computation may change, as a reflexive and transitive relation between tables.\<close>

locale frame_relation =
  fixes R :: "tables \<Rightarrow> tables \<Rightarrow> bool"
  assumes frame_refl: "R t t"
    and frame_trans: "R t t1 \<Longrightarrow> R t1 t2 \<Longrightarrow> R t t2"
begin

lemma stays_reads: "reads_only m \<Longrightarrow> stays R m"
  using frame_refl by (simp add: stays_def reads_only_def)

lemma stays_exec: "(\<And>t. R t (snd (f t))) \<Longrightarrow> stays R (sql_exec f)"
  using frame_refl by (simp add: stays_def run_simps)

lemma stays_bind [stays_rules]:
  "stays R m \<Longrightarrow> (\<And>a. stays R (f a)) \<Longrightarrow> stays R (State_Monad.bind m f)"
  unfolding stays_def by (simp add: run_simps split: prod.split) (metis frame_trans snd_conv)

lemmas stays_ret_query [stays_rules] = reads_ret [THEN stays_reads] reads_query [THEN stays_reads]

end

section \<open>Transactions\<close>

text \<open>
  The contract of the body of a transaction. Whatever faults the environment chose, a
  transaction whose body keeps the connection either succeeds, with the tables the body left,
  or leaves the tables as it found them; in both cases no transaction stays open.
\<close>

locale transaction_body =
  fixes body :: "(session, 'a) state"
    and ok :: "'a \<Rightarrow> bool"
  assumes body_keeps: "keeps_connection body"
begin

lemma outcome:
  assumes "run_state (transactional ok not_begun not_committed body) s = (r, s')"
    "saved s = None" "\<not> ok not_begun" "\<not> ok not_committed"
  shows "saved s' = None \<and> local_writes s' = local_writes s \<and>
    (if ok r then \<exists>u u'. tables u = tables s \<and> run_state body u = (r, u') \<and> tables s' = tables u'
       \<and> local_writes u = local_writes s \<and> saved u = Some (tables s) \<and> (faults s = [] \<longrightarrow> faults u = [])
     else tables s' = tables s)"
proof (cases "fails_next s")
  case True
  with assms show ?thesis by (auto simp: transactional_def run_simps)
next
  case False
  let ?u = "(tick s)\<lparr>saved := Some (tables s)\<rparr>"
  obtain q u' where body: "run_state body ?u = (q, u')" by fastforce
  with body_keeps have "saved u' = Some (tables s)" "local_writes u' = local_writes s"
    by (auto dest: keepsD)
  moreover from this body have "\<exists>v v'. tables v = tables s \<and> run_state body v = (q, v')
      \<and> tables u' = tables v' \<and> local_writes v = local_writes s \<and> saved v = Some (tables s)
      \<and> (faults s = [] \<longrightarrow> faults v = [])"
    by (intro exI [of _ ?u] exI [of _ u']) simp
  ultimately show ?thesis
    using assms False body by (auto simp: transactional_def run_simps split: if_splits)
qed

lemma atomic:
  assumes "run_state (transactional ok not_begun not_committed body) s = (r, s')"
    "saved s = None" "\<not> ok not_begun" "\<not> ok not_committed" "\<not> ok r"
  shows "tables s' = tables s"
  using outcome [OF assms(1-4)] assms(5) by simp

lemma effect:
  assumes "run_state (transactional ok not_begun not_committed body) s = (r, s')"
    "saved s = None" "\<not> ok not_begun" "\<not> ok not_committed" "ok r"
  obtains u u' where "tables u = tables s" "local_writes u = local_writes s"
    "saved u = Some (tables s)"
    "run_state body u = (r, u')" "tables s' = tables u'" "faults s = [] \<Longrightarrow> faults u = []"
  using outcome [OF assms(1-4)] assms(5) by auto

end

text \<open>The same contract for the operations of the services, whose failures are error values.\<close>

locale service_body = transaction_body body succeeds for body :: "(session, 'e + 'a) state"
begin

lemma service_atomic:
  assumes "run_state (host_transaction refused failed body) s = (Inl e, s')" "saved s = None"
  shows "tables s' = tables s"
  using assms atomic [of "Inl failed" "Inl failed" s "Inl e" s']
  by (auto simp: host_transaction_def run_simps split: if_splits)

lemma service_outcome:
  assumes "run_state (host_transaction refused failed body) s = (r, s')" "saved s = None"
  shows "saved s' = None \<and> local_writes s' = local_writes s"
  using assms outcome [of "Inl failed" "Inl failed" s r s']
  by (auto simp: host_transaction_def run_simps split: if_splits)

lemma service_effect:
  assumes "run_state (host_transaction refused failed body) s = (Inr a, s')" "saved s = None"
  obtains u u' where "tables u = tables s" "local_writes s" "saved u = Some (tables s)"
    "run_state body u = (Inr a, u')" "tables s' = tables u'" "faults s = [] \<Longrightarrow> faults u = []"
  using assms by (auto simp: host_transaction_def run_simps split: if_splits elim!: effect)

end

end
