(* ===== verification/BuildRepositories.thy ===== *)
theory BuildRepositories
  imports Session "HOL-Library.Product_Lexorder" "HOL-Library.List_Lexorder" "HOL-Library.Char_ord"
begin

text \<open>
  The repositories of the Builds: \<open>BuildRepository\<close>, \<open>BuildRequirementRepository\<close> and
  \<open>BuildAllocationRepository\<close> (which also keeps the manufacturer provenance of pulled
  pieces), with the manufacturer and part lookups they share with the inventory. Each operation
  is one or two SQL statements under the guards of the C++ function; \<open>None\<close> (or \<open>False\<close>) is
  the answer of a rejected call and of a failed statement.
\<close>

definition nullable :: "int \<Rightarrow> int" where
  "nullable i = (if i > 0 then i else 0)"

text \<open>A lookup whose caller does not tell a failed query from a missing row.\<close>

definition found_row :: "'a option option \<Rightarrow> 'a option" where
  "found_row q = (case q of None \<Rightarrow> None | Some r \<Rightarrow> r)"

lemma found_row_simps [simp]: "found_row None = None" "found_row (Some r) = r"
  by (simp_all add: found_row_def)

section \<open>ManufacturerRepository, PartRepository\<close>

definition manufacturer_by_code :: "string \<Rightarrow> (session, manufacturer_row option) state" where
  "manufacturer_by_code code = do {
     row \<leftarrow> sql_query (\<lambda>t. find (\<lambda>m. nocase_eq (man_code m) (trimmed code)) (manufacturers t));
     ret (found_row row)
   }"

definition lego_manufacturer_id :: "(session, int) state" where
  "lego_manufacturer_id = do {
     lego \<leftarrow> manufacturer_by_code ''LEGO'';
     ret (case lego of None \<Rightarrow> 0 | Some m \<Rightarrow> man_id m)
   }"

definition manufacturer_by_id :: "int \<Rightarrow> (session, manufacturer_row option) state" where
  "manufacturer_by_id i = do {
     row \<leftarrow> sql_query (\<lambda>t. find (\<lambda>m. man_id m = i) (manufacturers t));
     ret (found_row row)
   }"

definition part_by_id :: "int \<Rightarrow> (session, part_row option) state" where
  "part_by_id i = do {
     row \<leftarrow> sql_query (\<lambda>t. find (\<lambda>p. part_id p = i) (parts t));
     ret (found_row row)
   }"

section \<open>BuildRepository\<close>

definition insert_build :: "build_row \<Rightarrow> tables \<Rightarrow> int \<times> tables" where
  "insert_build b t = (let i = seq_build t + 1
     in (i, t\<lparr>builds := builds t @ [put_bld_id i b], seq_build := i\<rparr>))"

definition update_builds :: "(build_row \<Rightarrow> bool) \<Rightarrow> (build_row \<Rightarrow> build_row) \<Rightarrow> tables \<Rightarrow> nat \<times> tables" where
  "update_builds P f t = (count_where P (builds t), t\<lparr>builds := update_where P f (builds t)\<rparr>)"

definition valid_status :: "string \<Rightarrow> bool" where
  "valid_status s \<longleftrightarrow> s \<in> {''Planned'', ''Pulling'', ''Complete'', ''Disassembled'', ''Cancelled''}"

text \<open>The guards \<open>create\<close> and \<open>update\<close> share, on the trimmed fields of the object.\<close>

definition build_fields_ok :: "build_row \<Rightarrow> bool" where
  "build_fields_ok b \<longleftrightarrow>
     trimmed (bld_mode b) \<in> {''Stock'', ''CompleteSet''}
     \<and> trimmed (bld_type b) \<in> {''Set'', ''MOC'', ''Minifig''}
     \<and> (trimmed (bld_type b) = ''Minifig'') = (bld_minifig b > 0)
     \<and> \<not> (trimmed (bld_type b) \<noteq> ''Set'' \<and> bld_set_catalog b > 0)
     \<and> valid_status (trimmed (bld_status b))"

text \<open>The column values the two statements bind.\<close>

definition bound_build :: "build_row \<Rightarrow> build_row" where
  "bound_build b = b\<lparr>bld_type := trimmed (bld_type b), bld_name := trimmed (bld_name b),
     bld_set_number := trimmed (bld_set_number b), bld_set_catalog := nullable (bld_set_catalog b),
     bld_minifig := nullable (bld_minifig b), bld_mode := trimmed (bld_mode b),
     bld_status := trimmed (bld_status b), bld_notes := trimmed (bld_notes b)\<rparr>"

definition build_manufacturer :: "build_row \<Rightarrow> (session, int) state" where
  "build_manufacturer b =
     (if bld_manufacturer b > 0 then ret (bld_manufacturer b) else lego_manufacturer_id)"

definition build_create :: "build_row \<Rightarrow> (session, build_row option) state" where
  "build_create b = (
     if bld_workspace b \<le> 0 \<or> trimmed (bld_name b) = [] then ret None
     else if \<not> build_fields_ok b then ret None
     else do {
       manufacturer \<leftarrow> build_manufacturer b;
       if manufacturer \<le> 0 then ret None
       else do {
         i \<leftarrow> sql_exec (insert_build (bound_build (b\<lparr>bld_manufacturer := manufacturer\<rparr>)));
         case i of None \<Rightarrow> ret None
         | Some i \<Rightarrow> ret (Some (b\<lparr>bld_manufacturer := manufacturer, bld_id := i\<rparr>))
       }
     })"

definition build_try_get :: "int \<Rightarrow> (session, build_row option option) state" where
  "build_try_get i =
     (if i \<le> 0 then ret (Some None) else sql_query (\<lambda>t. find (\<lambda>b. bld_id b = i) (builds t)))"

definition build_get :: "int \<Rightarrow> (session, build_row option) state" where
  "build_get i = do { row \<leftarrow> build_try_get i; ret (found_row row) }"

text \<open>Archived Builds come last, then the order of status and name.\<close>

definition build_get_by_workspace :: "int \<Rightarrow> bool \<Rightarrow> (session, build_row list) state" where
  "build_get_by_workspace ws include_archived =
     (if ws \<le> 0 then ret []
      else do {
        rows \<leftarrow> sql_query (\<lambda>t. sort_key (\<lambda>b. (\<not> bld_active b, bld_status b, bld_name b))
          (filter (\<lambda>b. bld_workspace b = ws \<and> (include_archived \<or> bld_active b)) (builds t)));
        ret (case rows of None \<Rightarrow> [] | Some rs \<Rightarrow> rs)
      })"

definition build_set_active :: "int \<Rightarrow> bool \<Rightarrow> (session, bool) state" where
  "build_set_active i active =
     (if i \<le> 0 then ret False
      else do {
        n \<leftarrow> sql_exec (update_builds (\<lambda>b. bld_id b = i) (\<lambda>b. b\<lparr>bld_active := active\<rparr>));
        ret (case n of None \<Rightarrow> False | Some n \<Rightarrow> n > 0)
      })"

definition build_update :: "build_row \<Rightarrow> (session, build_row option) state" where
  "build_update b = (
     if bld_id b \<le> 0 \<or> bld_workspace b \<le> 0 \<or> trimmed (bld_name b) = [] then ret None
     else if \<not> build_fields_ok b then ret None
     else do {
       manufacturer \<leftarrow> build_manufacturer b;
       if manufacturer \<le> 0 then ret None
       else do {
         n \<leftarrow> sql_exec (update_builds (\<lambda>r. bld_id r = bld_id b)
           (\<lambda>r. bound_build (b\<lparr>bld_manufacturer := manufacturer\<rparr>)));
         case n of None \<Rightarrow> ret None
         | Some n \<Rightarrow> ret (if n > 0 then Some (b\<lparr>bld_manufacturer := manufacturer\<rparr>) else None)
       }
     })"

definition build_link_set_catalog :: "int \<Rightarrow> int \<Rightarrow> (session, bool) state" where
  "build_link_set_catalog i catalog =
     (if i \<le> 0 \<or> catalog \<le> 0 then ret False
      else do {
        n \<leftarrow> sql_exec (update_builds
          (\<lambda>b. bld_id b = i \<and> bld_type b = ''Set'' \<and> bld_set_catalog b = 0)
          (\<lambda>b. b\<lparr>bld_set_catalog := catalog\<rparr>));
        ret (case n of None \<Rightarrow> False | Some n \<Rightarrow> n = 1)
      })"

section \<open>BuildRequirementRepository\<close>

definition effective_part :: "requirement_row \<Rightarrow> int" where
  "effective_part r = (if req_sub_part r > 0 then req_sub_part r else req_part r)"

definition effective_color :: "requirement_row \<Rightarrow> int" where
  "effective_color r = (if req_sub_color r > 0 then req_sub_color r else req_color r)"

definition bound_requirement :: "requirement_row \<Rightarrow> requirement_row" where
  "bound_requirement r = r\<lparr>req_sub_part := nullable (req_sub_part r),
     req_sub_color := nullable (req_sub_color r)\<rparr>"

definition insert_requirement :: "requirement_row \<Rightarrow> tables \<Rightarrow> int \<times> tables" where
  "insert_requirement r t = (let i = seq_requirement t + 1
     in (i, t\<lparr>requirements := requirements t @ [put_req_id i r], seq_requirement := i\<rparr>))"

definition update_requirements ::
    "(requirement_row \<Rightarrow> bool) \<Rightarrow> (requirement_row \<Rightarrow> requirement_row) \<Rightarrow> tables \<Rightarrow> nat \<times> tables" where
  "update_requirements P f t =
     (count_where P (requirements t), t\<lparr>requirements := update_where P f (requirements t)\<rparr>)"

definition delete_requirements :: "(requirement_row \<Rightarrow> bool) \<Rightarrow> tables \<Rightarrow> nat \<times> tables" where
  "delete_requirements P t =
     (count_where P (requirements t), t\<lparr>requirements := filter (\<lambda>r. \<not> P r) (requirements t)\<rparr>)"

definition requirement_fields_ok :: "requirement_row \<Rightarrow> bool" where
  "requirement_fields_ok r \<longleftrightarrow> req_build r > 0 \<and> req_part r > 0 \<and> req_color r > 0
     \<and> req_required r > 0 \<and> req_pulled r \<ge> 0 \<and> req_released r \<ge> 0"

definition requirement_create :: "requirement_row \<Rightarrow> (session, requirement_row option) state" where
  "requirement_create r =
     (if \<not> requirement_fields_ok r then ret None
      else do {
        i \<leftarrow> sql_exec (insert_requirement (bound_requirement r));
        ret (case i of None \<Rightarrow> None | Some i \<Rightarrow> Some (r\<lparr>req_id := i\<rparr>))
      })"

definition requirement_try_get :: "int \<Rightarrow> (session, requirement_row option option) state" where
  "requirement_try_get i =
     (if i \<le> 0 then ret (Some None)
      else sql_query (\<lambda>t. find (\<lambda>r. req_id r = i) (requirements t)))"

definition requirement_get :: "int \<Rightarrow> (session, requirement_row option) state" where
  "requirement_get i = do { row \<leftarrow> requirement_try_get i; ret (found_row row) }"

definition requirements_of :: "int \<Rightarrow> tables \<Rightarrow> requirement_row list" where
  "requirements_of b t = sort_key (\<lambda>r. (req_spare r, req_part r, req_color r))
     (filter (\<lambda>r. req_build r = b) (requirements t))"

definition requirement_try_get_by_build :: "int \<Rightarrow> (session, requirement_row list option) state" where
  "requirement_try_get_by_build b =
     (if b \<le> 0 then ret (Some []) else sql_query (requirements_of b))"

definition requirement_get_by_build :: "int \<Rightarrow> (session, requirement_row list) state" where
  "requirement_get_by_build b = do {
     rows \<leftarrow> requirement_try_get_by_build b;
     ret (case rows of None \<Rightarrow> [] | Some rs \<Rightarrow> rs)
   }"

definition requirement_update :: "requirement_row \<Rightarrow> (session, bool) state" where
  "requirement_update r =
     (if req_id r \<le> 0 \<or> \<not> requirement_fields_ok r then ret False
      else do {
        n \<leftarrow> sql_exec (update_requirements (\<lambda>x. req_id x = req_id r) (\<lambda>x. bound_requirement r));
        ret (case n of None \<Rightarrow> False | Some n \<Rightarrow> n > 0)
      })"

definition requirement_remove :: "int \<Rightarrow> (session, bool) state" where
  "requirement_remove i =
     (if i \<le> 0 then ret False
      else do {
        n \<leftarrow> sql_exec (delete_requirements (\<lambda>r. req_id r = i));
        ret (case n of None \<Rightarrow> False | Some n \<Rightarrow> n > 0)
      })"

definition requirement_remove_all_for_build :: "int \<Rightarrow> (session, bool) state" where
  "requirement_remove_all_for_build b =
     (if b \<le> 0 then ret False
      else do {
        n \<leftarrow> sql_exec (delete_requirements (\<lambda>r. req_build r = b));
        ret (n \<noteq> None)
      })"

definition requirement_by_build_part_color ::
    "int \<Rightarrow> int \<Rightarrow> int \<Rightarrow> bool \<Rightarrow> (session, requirement_row option) state" where
  "requirement_by_build_part_color b p c spare =
     (if b \<le> 0 \<or> p \<le> 0 \<or> c \<le> 0 then ret None
      else do {
        row \<leftarrow> sql_query (\<lambda>t. find (\<lambda>r. requirement_identity r = (b, p, c, spare)) (requirements t));
        ret (found_row row)
      })"

section \<open>BuildAllocationRepository: allocations\<close>

definition bound_allocation :: "allocation_row \<Rightarrow> allocation_row" where
  "bound_allocation a = a\<lparr>alloc_requirement := nullable (alloc_requirement a)\<rparr>"

definition insert_allocation :: "allocation_row \<Rightarrow> tables \<Rightarrow> int \<times> tables" where
  "insert_allocation a t = (let i = seq_allocation t + 1
     in (i, t\<lparr>allocations := allocations t @ [put_alloc_id i a], seq_allocation := i\<rparr>))"

definition update_allocations ::
    "(allocation_row \<Rightarrow> bool) \<Rightarrow> (allocation_row \<Rightarrow> allocation_row) \<Rightarrow> tables \<Rightarrow> nat \<times> tables" where
  "update_allocations P f t =
     (count_where P (allocations t), t\<lparr>allocations := update_where P f (allocations t)\<rparr>)"

definition delete_allocations :: "(allocation_row \<Rightarrow> bool) \<Rightarrow> tables \<Rightarrow> nat \<times> tables" where
  "delete_allocations P t =
     (count_where P (allocations t), t\<lparr>allocations := filter (\<lambda>a. \<not> P a) (allocations t)\<rparr>)"

definition allocation_fields_ok :: "allocation_row \<Rightarrow> bool" where
  "allocation_fields_ok a \<longleftrightarrow> alloc_build a > 0 \<and> alloc_inventory a > 0 \<and> alloc_part a > 0
     \<and> alloc_color a > 0 \<and> alloc_storage a > 0 \<and> alloc_quantity a > 0"

definition allocation_create :: "allocation_row \<Rightarrow> (session, allocation_row option) state" where
  "allocation_create a =
     (if \<not> allocation_fields_ok a then ret None
      else do {
        i \<leftarrow> sql_exec (insert_allocation (bound_allocation a));
        ret (case i of None \<Rightarrow> None | Some i \<Rightarrow> Some (a\<lparr>alloc_id := i\<rparr>))
      })"

definition allocation_get :: "int \<Rightarrow> (session, allocation_row option) state" where
  "allocation_get i =
     (if i \<le> 0 then ret None
      else do {
        row \<leftarrow> sql_query (\<lambda>t. find (\<lambda>a. alloc_id a = i) (allocations t));
        ret (found_row row)
      })"

definition allocations_of_build :: "int \<Rightarrow> tables \<Rightarrow> allocation_row list" where
  "allocations_of_build b t = sort_key (\<lambda>a. (alloc_part a, alloc_color a, alloc_storage a))
     (filter (\<lambda>a. alloc_build a = b) (allocations t))"

definition allocation_try_get_by_build :: "int \<Rightarrow> (session, allocation_row list option) state" where
  "allocation_try_get_by_build b =
     (if b \<le> 0 then ret (Some []) else sql_query (allocations_of_build b))"

definition allocation_get_by_build :: "int \<Rightarrow> (session, allocation_row list) state" where
  "allocation_get_by_build b = do {
     rows \<leftarrow> allocation_try_get_by_build b;
     ret (case rows of None \<Rightarrow> [] | Some rs \<Rightarrow> rs)
   }"

definition allocation_get_by_requirement :: "int \<Rightarrow> (session, allocation_row list) state" where
  "allocation_get_by_requirement i =
     (if i \<le> 0 then ret []
      else do {
        rows \<leftarrow> sql_query (\<lambda>t. sort_key (\<lambda>a. (alloc_storage a, alloc_inventory a))
          (filter (\<lambda>a. alloc_requirement a = i) (allocations t)));
        ret (case rows of None \<Rightarrow> [] | Some rs \<Rightarrow> rs)
      })"

definition allocation_get_by_inventory :: "int \<Rightarrow> (session, allocation_row list) state" where
  "allocation_get_by_inventory i =
     (if i \<le> 0 then ret []
      else do {
        rows \<leftarrow> sql_query (\<lambda>t. sort_key alloc_build
          (filter (\<lambda>a. alloc_inventory a = i) (allocations t)));
        ret (case rows of None \<Rightarrow> [] | Some rs \<Rightarrow> rs)
      })"

definition allocation_update :: "allocation_row \<Rightarrow> (session, bool) state" where
  "allocation_update a =
     (if alloc_id a \<le> 0 \<or> \<not> allocation_fields_ok a then ret False
      else do {
        n \<leftarrow> sql_exec (update_allocations (\<lambda>x. alloc_id x = alloc_id a) (\<lambda>x. bound_allocation a));
        ret (case n of None \<Rightarrow> False | Some n \<Rightarrow> n > 0)
      })"

definition allocation_remove :: "int \<Rightarrow> (session, bool) state" where
  "allocation_remove i =
     (if i \<le> 0 then ret False
      else do {
        n \<leftarrow> sql_exec (delete_allocations (\<lambda>a. alloc_id a = i));
        ret (case n of None \<Rightarrow> False | Some n \<Rightarrow> n > 0)
      })"

definition allocation_remove_all_for_build :: "int \<Rightarrow> (session, bool) state" where
  "allocation_remove_all_for_build b =
     (if b \<le> 0 then ret False
      else do {
        n \<leftarrow> sql_exec (delete_allocations (\<lambda>a. alloc_build a = b));
        ret (n \<noteq> None)
      })"

definition allocation_remove_all_for_requirement :: "int \<Rightarrow> (session, bool) state" where
  "allocation_remove_all_for_requirement i =
     (if i \<le> 0 then ret False
      else do {
        n \<leftarrow> sql_exec (delete_allocations (\<lambda>a. alloc_requirement a = i));
        ret (n \<noteq> None)
      })"

definition allocated :: "(allocation_row \<Rightarrow> bool) \<Rightarrow> tables \<Rightarrow> int" where
  "allocated P t = sum_where alloc_quantity P (allocations t)"

definition total_allocated_for_requirement :: "int \<Rightarrow> (session, int) state" where
  "total_allocated_for_requirement i =
     (if i \<le> 0 then ret 0
      else do {
        n \<leftarrow> sql_query (allocated (\<lambda>a. alloc_requirement a = i));
        ret (case n of None \<Rightarrow> 0 | Some n \<Rightarrow> n)
      })"

text \<open>The inner join keeps the allocations whose Build is in the workspace.\<close>

definition total_allocated_for_part_color :: "int \<Rightarrow> int \<Rightarrow> int \<Rightarrow> (session, int) state" where
  "total_allocated_for_part_color ws p c =
     (if ws \<le> 0 \<or> p \<le> 0 \<or> c \<le> 0 then ret 0
      else do {
        n \<leftarrow> sql_query (\<lambda>t. allocated (\<lambda>a. alloc_part a = p \<and> alloc_color a = c \<and>
          list_ex (\<lambda>b. bld_id b = alloc_build a \<and> bld_workspace b = ws) (builds t)) t);
        ret (case n of None \<Rightarrow> 0 | Some n \<Rightarrow> n)
      })"

definition total_allocated_for_part_color_for_build :: "int \<Rightarrow> int \<Rightarrow> int \<Rightarrow> (session, int) state" where
  "total_allocated_for_part_color_for_build b p c =
     (if b \<le> 0 \<or> p \<le> 0 \<or> c \<le> 0 then ret 0
      else do {
        n \<leftarrow> sql_query (allocated (\<lambda>a. alloc_build a = b \<and> alloc_part a = p \<and> alloc_color a = c));
        ret (case n of None \<Rightarrow> 0 | Some n \<Rightarrow> n)
      })"

definition try_total_allocated_for_inventory :: "int \<Rightarrow> (session, int option) state" where
  "try_total_allocated_for_inventory i =
     (if i \<le> 0 then ret None else sql_query (allocated (\<lambda>a. alloc_inventory a = i)))"

definition total_allocated_for_inventory :: "int \<Rightarrow> (session, int) state" where
  "total_allocated_for_inventory i = do {
     n \<leftarrow> try_total_allocated_for_inventory i;
     ret (case n of None \<Rightarrow> 0 | Some n \<Rightarrow> n)
   }"

definition total_allocated_for_inventory_for_build :: "int \<Rightarrow> int \<Rightarrow> (session, int) state" where
  "total_allocated_for_inventory_for_build i b =
     (if i \<le> 0 \<or> b \<le> 0 then ret 0
      else do {
        n \<leftarrow> sql_query (allocated (\<lambda>a. alloc_inventory a = i \<and> alloc_build a = b));
        ret (case n of None \<Rightarrow> 0 | Some n \<Rightarrow> n)
      })"

section \<open>BuildAllocationRepository: manufacturer provenance\<close>

text \<open>\<open>INSERT ... ON CONFLICT DO UPDATE\<close>: one row per Build, part, color and manufacturer.\<close>

definition upsert_provenance :: "int \<times> int \<times> int \<times> int \<Rightarrow> int \<Rightarrow> tables \<Rightarrow> unit \<times> tables" where
  "upsert_provenance k n t =
     (if list_ex (\<lambda>p. provenance_identity p = k) (provenance t)
      then ((), t\<lparr>provenance := update_where (\<lambda>p. provenance_identity p = k)
             (\<lambda>p. p\<lparr>prov_quantity := prov_quantity p + n\<rparr>) (provenance t)\<rparr>)
      else (case k of (b, pt, c, m) \<Rightarrow> let i = seq_provenance t + 1 in
        ((), t\<lparr>provenance := provenance t @ [\<lparr>prov_id = i, prov_build = b, prov_part = pt,
             prov_color = c, prov_manufacturer = m, prov_quantity = n\<rparr>], seq_provenance := i\<rparr>)))"

definition record_pulled_manufacturer ::
    "int \<Rightarrow> int \<Rightarrow> int \<Rightarrow> int \<Rightarrow> int \<Rightarrow> (session, bool) state" where
  "record_pulled_manufacturer b p c m n =
     (if b \<le> 0 \<or> p \<le> 0 \<or> c \<le> 0 \<or> m \<le> 0 \<or> n \<le> 0 then ret False
      else do {
        done \<leftarrow> sql_exec (upsert_provenance (b, p, c, m) n);
        ret (done \<noteq> None)
      })"

definition provenance_of :: "int \<Rightarrow> int \<Rightarrow> int \<Rightarrow> tables \<Rightarrow> (int \<times> int) list" where
  "provenance_of b p c t = map (\<lambda>r. (prov_manufacturer r, prov_quantity r))
     (filter (\<lambda>r. prov_manufacturer r > 0 \<and> prov_quantity r > 0)
       (sort_key prov_manufacturer
         (filter (\<lambda>r. prov_build r = b \<and> prov_part r = p \<and> prov_color r = c
            \<and> prov_quantity r > 0) (provenance t))))"

definition pulled_manufacturer_provenance ::
    "int \<Rightarrow> int \<Rightarrow> int \<Rightarrow> (session, (int \<times> int) list) state" where
  "pulled_manufacturer_provenance b p c =
     (if b \<le> 0 \<or> p \<le> 0 \<or> c \<le> 0 then ret []
      else do {
        rows \<leftarrow> sql_query (provenance_of b p c);
        ret (case rows of None \<Rightarrow> [] | Some rs \<Rightarrow> rs)
      })"

definition decrease_provenance :: "int \<times> int \<times> int \<times> int \<Rightarrow> int \<Rightarrow> tables \<Rightarrow> nat \<times> tables" where
  "decrease_provenance k n t =
     (let P = (\<lambda>p. provenance_identity p = k \<and> prov_quantity p \<ge> n)
      in (count_where P (provenance t), t\<lparr>provenance := update_where P
           (\<lambda>p. p\<lparr>prov_quantity := prov_quantity p - n\<rparr>) (provenance t)\<rparr>))"

definition clean_provenance :: "int \<times> int \<times> int \<times> int \<Rightarrow> tables \<Rightarrow> nat \<times> tables" where
  "clean_provenance k t =
     (let P = (\<lambda>p. provenance_identity p = k \<and> prov_quantity p = 0)
      in (count_where P (provenance t), t\<lparr>provenance := filter (\<lambda>p. \<not> P p) (provenance t)\<rparr>))"

definition reduce_pulled_manufacturer ::
    "int \<Rightarrow> int \<Rightarrow> int \<Rightarrow> int \<Rightarrow> int \<Rightarrow> (session, bool) state" where
  "reduce_pulled_manufacturer b p c m n =
     (if b \<le> 0 \<or> p \<le> 0 \<or> c \<le> 0 \<or> m \<le> 0 \<or> n \<le> 0 then ret False
      else do {
        affected \<leftarrow> sql_exec (decrease_provenance (b, p, c, m) n);
        if affected = None \<or> affected = Some 0 then ret False
        else do {
          cleaned \<leftarrow> sql_exec (clean_provenance (b, p, c, m));
          ret (cleaned \<noteq> None)
        }
      })"

section \<open>The operations that only read\<close>

lemma reads_lego [reads_rules]: "reads_only lego_manufacturer_id"
  by (auto simp: lego_manufacturer_id_def manufacturer_by_code_def intro!: reads_rules)

lemma reads_manufacturer_by_id [reads_rules]: "reads_only (manufacturer_by_id i)"
  by (auto simp: manufacturer_by_id_def intro!: reads_rules)

lemma reads_part_by_id [reads_rules]: "reads_only (part_by_id i)"
  by (auto simp: part_by_id_def intro!: reads_rules)

lemma reads_build_manufacturer [reads_rules]: "reads_only (build_manufacturer b)"
  by (auto simp: build_manufacturer_def intro!: reads_rules)

lemma lego_run:
  "run_state lego_manufacturer_id s = (m, s') \<Longrightarrow> 0 < m \<Longrightarrow>
   tables s' = tables s \<and> (\<exists>x\<in>set (manufacturers (tables s)). nocase_eq (man_code x) ''LEGO'' \<and> man_id x = m)"
  by (auto simp: lego_manufacturer_id_def manufacturer_by_code_def run_simps trimmed_def is_space_def
      found_row_def dest!: find_SomeD split: if_splits option.splits)

text \<open>The manufacturer a written Build keeps: its own, or the LEGO one when none is set.\<close>

definition kept_manufacturer :: "tables \<Rightarrow> build_row \<Rightarrow> int \<Rightarrow> bool" where
  "kept_manufacturer t b m \<longleftrightarrow> (if 0 < bld_manufacturer b then m = bld_manufacturer b
     else \<exists>x\<in>set (manufacturers t). nocase_eq (man_code x) ''LEGO'' \<and> man_id x = m)"

lemma kept_manufacturer_cong:
  "manufacturers t' = manufacturers t \<Longrightarrow> kept_manufacturer t' b m = kept_manufacturer t b m"
  by (simp add: kept_manufacturer_def)

lemma kept_manufacturer_status [simp]:
  "kept_manufacturer t (b\<lparr>bld_status := st\<rparr>) m = kept_manufacturer t b m"
  by (simp add: kept_manufacturer_def)

lemma build_manufacturer_run:
  "run_state (build_manufacturer b) s = (m, s') \<Longrightarrow> 0 < m \<Longrightarrow> kept_manufacturer (tables s) b m"
  using lego_run by (auto simp: build_manufacturer_def kept_manufacturer_def run_simps split: if_splits)

lemma reads_build_get [reads_rules]: "reads_only (build_try_get i)" "reads_only (build_get i)"
  by (auto simp: build_try_get_def build_get_def intro!: reads_rules)

lemma reads_requirement_get [reads_rules]:
  "reads_only (requirement_try_get i)" "reads_only (requirement_get i)"
  "reads_only (requirement_try_get_by_build b)" "reads_only (requirement_get_by_build b)"
  "reads_only (requirement_by_build_part_color b p c spare)"
  by (auto simp: requirement_try_get_def requirement_get_def requirement_try_get_by_build_def
      requirement_get_by_build_def requirement_by_build_part_color_def intro!: reads_rules)

lemma reads_allocation_get [reads_rules]:
  "reads_only (allocation_get i)" "reads_only (allocation_try_get_by_build b)"
  "reads_only (allocation_get_by_build b)" "reads_only (allocation_get_by_requirement i)"
  "reads_only (allocation_get_by_inventory i)"
  by (auto simp: allocation_get_def allocation_try_get_by_build_def allocation_get_by_build_def
      allocation_get_by_requirement_def allocation_get_by_inventory_def intro!: reads_rules)

lemma reads_allocation_totals [reads_rules]:
  "reads_only (total_allocated_for_requirement i)"
  "reads_only (total_allocated_for_part_color ws p c)"
  "reads_only (total_allocated_for_part_color_for_build b p c)"
  "reads_only (try_total_allocated_for_inventory i)"
  "reads_only (total_allocated_for_inventory i)"
  "reads_only (total_allocated_for_inventory_for_build i b)"
  by (auto simp: total_allocated_for_requirement_def total_allocated_for_part_color_def
      total_allocated_for_part_color_for_build_def try_total_allocated_for_inventory_def
      total_allocated_for_inventory_def total_allocated_for_inventory_for_build_def
      intro!: reads_rules)

lemma reads_provenance [reads_rules]: "reads_only (pulled_manufacturer_provenance b p c)"
  by (auto simp: pulled_manufacturer_provenance_def intro!: reads_rules)

lemmas keeps_reads [keeps_rules] = reads_lego [THEN reads_keeps]
  reads_manufacturer_by_id [THEN reads_keeps] reads_part_by_id [THEN reads_keeps]
  reads_build_manufacturer [THEN reads_keeps] reads_build_get [THEN reads_keeps]
  reads_requirement_get [THEN reads_keeps] reads_allocation_get [THEN reads_keeps]
  reads_allocation_totals [THEN reads_keeps] reads_provenance [THEN reads_keeps]

section \<open>The operations that keep the connection\<close>

lemma keeps_build_writes [keeps_rules]:
  "keeps_connection (build_create b)" "keeps_connection (build_update b)"
  "keeps_connection (build_set_active i active)" "keeps_connection (build_link_set_catalog i c)"
  by (auto simp: build_create_def build_update_def build_set_active_def
      build_link_set_catalog_def intro!: keeps_rules)

lemma keeps_requirement_writes [keeps_rules]:
  "keeps_connection (requirement_create r)" "keeps_connection (requirement_update r)"
  "keeps_connection (requirement_remove i)" "keeps_connection (requirement_remove_all_for_build i)"
  by (auto simp: requirement_create_def requirement_update_def requirement_remove_def
      requirement_remove_all_for_build_def intro!: keeps_rules)

lemma keeps_allocation_writes [keeps_rules]:
  "keeps_connection (allocation_create a)" "keeps_connection (allocation_update a)"
  "keeps_connection (allocation_remove i)" "keeps_connection (allocation_remove_all_for_build i)"
  "keeps_connection (allocation_remove_all_for_requirement i)"
  "keeps_connection (record_pulled_manufacturer b p c m n)"
  "keeps_connection (reduce_pulled_manufacturer b p c m n)"
  by (auto simp: allocation_create_def allocation_update_def allocation_remove_def
      allocation_remove_all_for_build_def allocation_remove_all_for_requirement_def
      record_pulled_manufacturer_def reduce_pulled_manufacturer_def intro!: keeps_rules)

section \<open>The operations that keep the constraints\<close>

lemmas valid_reads [valid_rules] = reads_lego [THEN reads_valid]
  reads_manufacturer_by_id [THEN reads_valid] reads_part_by_id [THEN reads_valid]
  reads_build_manufacturer [THEN reads_valid] reads_build_get [THEN reads_valid]
  reads_requirement_get [THEN reads_valid] reads_allocation_get [THEN reads_valid]
  reads_allocation_totals [THEN reads_valid] reads_provenance [THEN reads_valid]

lemma valid_build_writes [valid_rules]:
  "keeps_valid (build_create b)" "keeps_valid (build_update b)"
  "keeps_valid (build_set_active i active)" "keeps_valid (build_link_set_catalog i c)"
  by (auto simp: build_create_def build_update_def build_set_active_def
      build_link_set_catalog_def intro!: valid_rules)

lemma valid_requirement_writes [valid_rules]:
  "keeps_valid (requirement_create r)" "keeps_valid (requirement_update r)"
  "keeps_valid (requirement_remove i)" "keeps_valid (requirement_remove_all_for_build i)"
  by (auto simp: requirement_create_def requirement_update_def requirement_remove_def
      requirement_remove_all_for_build_def intro!: valid_rules)

lemma valid_allocation_writes [valid_rules]:
  "keeps_valid (allocation_create a)" "keeps_valid (allocation_update a)"
  "keeps_valid (allocation_remove i)" "keeps_valid (allocation_remove_all_for_build i)"
  "keeps_valid (allocation_remove_all_for_requirement i)"
  "keeps_valid (record_pulled_manufacturer b p c m n)"
  "keeps_valid (reduce_pulled_manufacturer b p c m n)"
  by (auto simp: allocation_create_def allocation_update_def allocation_remove_def
      allocation_remove_all_for_build_def allocation_remove_all_for_requirement_def
      record_pulled_manufacturer_def reduce_pulled_manufacturer_def intro!: valid_rules)

end
