(* ===== verification/InventoryRepository.thy ===== *)
theory InventoryRepository
  imports BuildRepositories
begin

text \<open>
  \<open>InventoryRecordRepository\<close> and \<open>InventoryMovementRepository\<close>: the loose stock of a
  workspace and its ledger. Every operation that changes a quantity also appends a row to
  \<open>inventory_movement\<close>, in the transaction of the caller or in one of its own.
\<close>

section \<open>InventoryMovementRepository\<close>

text \<open>The row an insert with identity \<open>i\<close> stores for a movement.\<close>

definition logged :: "int \<Rightarrow> movement_row \<Rightarrow> movement_row" where
  "logged i m = m\<lparr>mov_id := i, mov_inventory := nullable (mov_inventory m),
     mov_from := nullable (mov_from m), mov_to := nullable (mov_to m)\<rparr>"

definition insert_movement :: "movement_row \<Rightarrow> tables \<Rightarrow> int \<times> tables" where
  "insert_movement m t = (let i = seq_movement t + 1
     in (i, t\<lparr>movements := movements t @ [logged i m], seq_movement := i\<rparr>))"

definition movement_create :: "movement_row \<Rightarrow> (session, bool) state" where
  "movement_create m =
     (if mov_workspace m \<le> 0 \<or> mov_part m \<le> 0 \<or> mov_color m \<le> 0 \<or> trimmed (mov_type m) = []
      then ret False
      else do {
        i \<leftarrow> sql_exec (insert_movement m);
        ret (i \<noteq> None)
      })"

text \<open>A default-constructed \<open>InventoryMovement\<close> (\<open>InventoryMovement.h\<close>).\<close>

definition blank_movement :: movement_row where
  "blank_movement = \<lparr>mov_id = 0, mov_workspace = 0, mov_inventory = 0, mov_part = 0, mov_color = 0,
     mov_type = [], mov_quantity = 0, mov_from = 0, mov_to = 0, mov_condition = [],
     mov_ownership = [], mov_ref_type = [], mov_ref_id = [], mov_notes = []\<rparr>"

section \<open>InventoryRecordRepository: statements\<close>

definition normalized_manufacturer_id :: "int \<Rightarrow> (session, int) state" where
  "normalized_manufacturer_id requested =
     (if requested > 0 then ret requested else lego_manufacturer_id)"

definition insert_inventory :: "inventory_row \<Rightarrow> tables \<Rightarrow> int \<times> tables" where
  "insert_inventory r t = (let i = seq_inventory t + 1
     in (i, t\<lparr>inventory := inventory t @ [put_inv_id i r], seq_inventory := i\<rparr>))"

definition update_inventory :: "int \<Rightarrow> (inventory_row \<Rightarrow> inventory_row) \<Rightarrow> tables \<Rightarrow> nat \<times> tables" where
  "update_inventory i f t = (count_where (\<lambda>r. inv_id r = i) (inventory t),
     t\<lparr>inventory := update_where (\<lambda>r. inv_id r = i) f (inventory t)\<rparr>)"

definition set_quantity :: "int \<Rightarrow> inventory_row \<Rightarrow> inventory_row" where
  "set_quantity q r = r\<lparr>inv_quantity := q\<rparr>"

definition delete_inventory :: "int \<Rightarrow> tables \<Rightarrow> nat \<times> tables" where
  "delete_inventory i t = (count_where (\<lambda>r. inv_id r = i) (inventory t),
     t\<lparr>inventory := filter (\<lambda>r. inv_id r \<noteq> i) (inventory t)\<rparr>)"

text \<open>The column values an insert binds for the condition and the ownership.\<close>

definition bound_inventory :: "inventory_row \<Rightarrow> inventory_row" where
  "bound_inventory r = r\<lparr>inv_condition := trimmed (inv_condition r),
     inv_ownership := trimmed (inv_ownership r)\<rparr>"

definition find_identity :: "inventory_row \<Rightarrow> tables \<Rightarrow> inventory_row option" where
  "find_identity r t = find (\<lambda>x. inventory_identity x = inventory_identity r) (inventory t)"

definition find_other :: "inventory_row \<Rightarrow> int \<Rightarrow> tables \<Rightarrow> inventory_row option" where
  "find_other r not_id t = find (\<lambda>x. inventory_identity x = inventory_identity r
     \<and> inv_id x \<noteq> not_id) (inventory t)"

definition inventory_create :: "inventory_row \<Rightarrow> (session, inventory_row option) state" where
  "inventory_create r =
     (if inv_workspace r \<le> 0 \<or> inv_part r \<le> 0 \<or> inv_color r \<le> 0 \<or> inv_storage r \<le> 0
        \<or> inv_quantity r < 0 then ret None
      else do {
        manufacturer \<leftarrow> normalized_manufacturer_id (inv_manufacturer r);
        if manufacturer \<le> 0 then ret None
        else do {
          i \<leftarrow> sql_exec (insert_inventory (bound_inventory (r\<lparr>inv_manufacturer := manufacturer\<rparr>)));
          ret (case i of None \<Rightarrow> None
            | Some i \<Rightarrow> Some (r\<lparr>inv_manufacturer := manufacturer, inv_id := i\<rparr>))
        }
      })"

definition inventory_try_get :: "int \<Rightarrow> (session, inventory_row option option) state" where
  "inventory_try_get i = sql_query (\<lambda>t. find (\<lambda>r. inv_id r = i) (inventory t))"

definition inventory_get :: "int \<Rightarrow> (session, inventory_row option) state" where
  "inventory_get i = do { row \<leftarrow> inventory_try_get i; ret (found_row row) }"

definition inventory_update_quantity :: "int \<Rightarrow> int \<Rightarrow> (session, bool) state" where
  "inventory_update_quantity i q =
     (if i \<le> 0 \<or> q < 0 then ret False
      else do {
        n \<leftarrow> sql_exec (update_inventory i (set_quantity q));
        ret (case n of None \<Rightarrow> False | Some n \<Rightarrow> n > 0)
      })"

definition inventory_remove :: "int \<Rightarrow> (session, bool) state" where
  "inventory_remove i =
     (if i \<le> 0 then ret False
      else do {
        n \<leftarrow> sql_exec (delete_inventory i);
        ret (case n of None \<Rightarrow> False | Some n \<Rightarrow> n > 0)
      })"

definition total_quantity_for_part_color :: "int \<Rightarrow> int \<Rightarrow> int \<Rightarrow> (session, int) state" where
  "total_quantity_for_part_color ws p c =
     (if ws \<le> 0 \<or> p \<le> 0 \<or> c \<le> 0 then ret 0
      else do {
        n \<leftarrow> sql_query (\<lambda>t. sum_where inv_quantity
          (\<lambda>r. inv_workspace r = ws \<and> inv_part r = p \<and> inv_color r = c) (inventory t));
        ret (case n of None \<Rightarrow> 0 | Some n \<Rightarrow> n)
      })"

definition inventory_get_by_part_color :: "int \<Rightarrow> int \<Rightarrow> int \<Rightarrow> (session, inventory_row list) state" where
  "inventory_get_by_part_color ws p c =
     (if ws \<le> 0 \<or> p \<le> 0 \<or> c \<le> 0 then ret []
      else do {
        rows \<leftarrow> sql_query (\<lambda>t. sort_key (\<lambda>r. (inv_storage r, inv_condition r, inv_ownership r))
          (filter (\<lambda>r. inv_workspace r = ws \<and> inv_part r = p \<and> inv_color r = c
             \<and> inv_quantity r > 0) (inventory t)));
        ret (case rows of None \<Rightarrow> [] | Some rs \<Rightarrow> rs)
      })"

section \<open>setQuantityWithMovement\<close>

definition adjustment_movement ::
    "inventory_row \<Rightarrow> int \<Rightarrow> string \<Rightarrow> string \<Rightarrow> string \<Rightarrow> string \<Rightarrow> movement_row" where
  "adjustment_movement row difference movement_type ref_type ref_id notes =
     blank_movement\<lparr>mov_workspace := inv_workspace row, mov_inventory := inv_id row,
       mov_part := inv_part row, mov_color := inv_color row,
       mov_type := (if trimmed movement_type = []
         then (if difference > 0 then ''QuantityIncrease'' else ''QuantityDecrease'')
         else trimmed movement_type),
       mov_quantity := difference, mov_to := inv_storage row,
       mov_condition := inv_condition row, mov_ownership := inv_ownership row,
       mov_ref_type := trimmed ref_type, mov_ref_id := trimmed ref_id,
       mov_notes := trimmed notes\<rparr>"

text \<open>The call with \<open>manageTransaction = false\<close>.\<close>

definition set_quantity_with_movement ::
    "int \<Rightarrow> int \<Rightarrow> string \<Rightarrow> string \<Rightarrow> string \<Rightarrow> string \<Rightarrow> (session, bool) state" where
  "set_quantity_with_movement i new_quantity movement_type ref_type ref_id notes =
     (if i \<le> 0 \<or> new_quantity < 0 then ret False
      else do {
        row \<leftarrow> inventory_get i;
        case row of None \<Rightarrow> ret False
        | Some row \<Rightarrow>
          if new_quantity - inv_quantity row = 0 then ret True
          else do {
            n \<leftarrow> sql_exec (update_inventory i (set_quantity new_quantity));
            if n = None \<or> n = Some 0 then ret False
            else movement_create (adjustment_movement row (new_quantity - inv_quantity row)
                   movement_type ref_type ref_id notes)
          }
      })"

text \<open>
  With \<open>manageTransaction = true\<close> the function opens its own transaction. When nothing has to
  change it commits and answers true without looking at what the commit answered.
\<close>

definition set_quantity_with_movement_managed ::
    "int \<Rightarrow> int \<Rightarrow> string \<Rightarrow> string \<Rightarrow> string \<Rightarrow> string \<Rightarrow> (session, bool) state" where
  "set_quantity_with_movement_managed i new_quantity movement_type ref_type ref_id notes =
     (if i \<le> 0 \<or> new_quantity < 0 then ret False
      else do {
        started \<leftarrow> begin_transaction;
        if \<not> started then ret False
        else do {
          row \<leftarrow> inventory_get i;
          case row of None \<Rightarrow> do { rollback; ret False }
          | Some row \<Rightarrow>
            if new_quantity - inv_quantity row = 0 then do { committed \<leftarrow> commit; ret True }
            else do {
              n \<leftarrow> sql_exec (update_inventory i (set_quantity new_quantity));
              if n = None \<or> n = Some 0 then do { rollback; ret False }
              else do {
                moved \<leftarrow> movement_create (adjustment_movement row
                  (new_quantity - inv_quantity row) movement_type ref_type ref_id notes);
                if \<not> moved then do { rollback; ret False }
                else do {
                  committed \<leftarrow> commit;
                  if committed then ret True else do { rollback; ret False }
                }
              }
            }
        }
      })"

section \<open>addOrIncreaseQuantity\<close>

record add_result =
  add_record :: int
  add_quantity :: int
  add_created :: bool
  add_merged :: bool

text \<open>
  Find the record with the same identity and increase it, or insert a new one. The answer is
  the caller's object after the call (its condition and ownership stay untrimmed) and whether
  the record existed.
\<close>

definition upsert_inventory :: "inventory_row \<Rightarrow> (session, (inventory_row \<times> bool) option) state" where
  "upsert_inventory record = do {
     existing \<leftarrow> sql_query (find_identity (bound_inventory record));
     case existing of None \<Rightarrow> ret None
     | Some (Some row) \<Rightarrow> do {
         let new_quantity = int32 (inv_quantity row + inv_quantity record);
         n \<leftarrow> sql_exec (update_inventory (inv_id row) (set_quantity new_quantity));
         if n = None then ret None
         else ret (Some (record\<lparr>inv_id := inv_id row, inv_quantity := new_quantity\<rparr>, True))
       }
     | Some None \<Rightarrow> do {
         i \<leftarrow> sql_exec (insert_inventory (bound_inventory record));
         case i of None \<Rightarrow> ret None
         | Some i \<Rightarrow> ret (Some (record\<lparr>inv_id := i\<rparr>, False))
       }
   }"

definition addition_movement ::
    "inventory_row \<Rightarrow> bool \<Rightarrow> int \<Rightarrow> string \<Rightarrow> string \<Rightarrow> string \<Rightarrow> string \<Rightarrow> movement_row" where
  "addition_movement record existed added movement_type ref_type ref_id notes =
     blank_movement\<lparr>mov_workspace := inv_workspace record, mov_inventory := inv_id record,
       mov_part := inv_part record, mov_color := inv_color record,
       mov_type := (if trimmed movement_type \<noteq> [] then trimmed movement_type
         else if existed then ''QuantityIncrease'' else ''InitialAdd''),
       mov_quantity := added, mov_to := inv_storage record,
       mov_condition := inv_condition record, mov_ownership := inv_ownership record,
       mov_ref_type := trimmed ref_type, mov_ref_id := trimmed ref_id,
       mov_notes := trimmed notes\<rparr>"

definition add_or_increase_in_current_transaction ::
    "inventory_row \<Rightarrow> string \<Rightarrow> string \<Rightarrow> string \<Rightarrow> string
     \<Rightarrow> (session, (inventory_row \<times> add_result) option) state" where
  "add_or_increase_in_current_transaction record movement_type ref_type ref_id notes =
     (if inv_workspace record \<le> 0 \<or> inv_part record \<le> 0 \<or> inv_color record \<le> 0
        \<or> inv_storage record \<le> 0 \<or> inv_quantity record \<le> 0 then ret None
      else do {
        manufacturer \<leftarrow> normalized_manufacturer_id (inv_manufacturer record);
        if manufacturer \<le> 0 then ret None
        else do {
          stored \<leftarrow> upsert_inventory (record\<lparr>inv_manufacturer := manufacturer\<rparr>);
          case stored of None \<Rightarrow> ret None
          | Some (after, existed) \<Rightarrow> do {
              moved \<leftarrow> movement_create (addition_movement after existed (inv_quantity record)
                movement_type ref_type ref_id notes);
              if \<not> moved then ret None
              else ret (Some (after, \<lparr>add_record = inv_id after, add_quantity = inv_quantity after,
                add_created = \<not> existed, add_merged = existed\<rparr>))
            }
        }
      })"

definition add_or_increase ::
    "inventory_row \<Rightarrow> string \<Rightarrow> string \<Rightarrow> string \<Rightarrow> string \<Rightarrow> bool
     \<Rightarrow> (session, (inventory_row \<times> add_result) option) state" where
  "add_or_increase record movement_type ref_type ref_id notes manage_transaction =
     (if \<not> manage_transaction
      then add_or_increase_in_current_transaction record movement_type ref_type ref_id notes
      else transactional got None None
        (add_or_increase_in_current_transaction record movement_type ref_type ref_id notes))"

section \<open>updateOrMerge\<close>

record update_result =
  upd_source :: int
  upd_surviving :: int
  upd_quantity :: int
  upd_storage :: int
  upd_merged :: bool

text \<open>The write: a merge into the record the edit collides with, or an update in place.\<close>

definition edited_row :: "inventory_row \<Rightarrow> inventory_row \<Rightarrow> inventory_row" where
  "edited_row record r = r\<lparr>inv_color := inv_color record, inv_storage := inv_storage record,
     inv_manufacturer := inv_manufacturer record, inv_condition := trimmed (inv_condition record),
     inv_ownership := trimmed (inv_ownership record), inv_quantity := inv_quantity record\<rparr>"

definition apply_edit :: "inventory_row \<Rightarrow> (session, (inventory_row \<times> bool) option) state" where
  "apply_edit record = do {
     destination \<leftarrow> sql_query (find_other (bound_inventory record) (inv_id record));
     case destination of None \<Rightarrow> ret None
     | Some (Some dest) \<Rightarrow> do {
         let merged_quantity = int32 (inv_quantity dest + inv_quantity record);
         merged \<leftarrow> sql_exec (update_inventory (inv_id dest) (set_quantity merged_quantity));
         if merged = None then ret None
         else do {
           zeroed \<leftarrow> sql_exec (update_inventory (inv_id record) (set_quantity 0));
           if zeroed = None then ret None
           else ret (Some (record\<lparr>inv_id := inv_id dest, inv_quantity := merged_quantity\<rparr>, True))
         }
       }
     | Some None \<Rightarrow> do {
         n \<leftarrow> sql_exec (update_inventory (inv_id record) (edited_row record));
         if n = None then ret None else ret (Some (record, False))
       }
   }"

definition edit_movement :: "inventory_row \<Rightarrow> string \<Rightarrow> int \<Rightarrow> string \<Rightarrow> movement_row" where
  "edit_movement record movement_type change notes =
     blank_movement\<lparr>mov_workspace := inv_workspace record, mov_inventory := inv_id record,
       mov_part := inv_part record, mov_color := inv_color record, mov_type := movement_type,
       mov_quantity := change, mov_to := inv_storage record, mov_condition := inv_condition record,
       mov_ownership := inv_ownership record, mov_notes := notes\<rparr>"

text \<open>The history an edit leaves, in order.\<close>

definition edit_history :: "inventory_row \<Rightarrow> inventory_row \<Rightarrow> bool \<Rightarrow> movement_row list" where
  "edit_history original record merged =
     (if inv_quantity record \<noteq> inv_quantity original \<and> \<not> merged
      then [edit_movement record
             (if inv_quantity record - inv_quantity original > 0
              then ''QuantityIncrease'' else ''QuantityDecrease'')
             (inv_quantity record - inv_quantity original) []] else [])
     @ (if inv_color record \<noteq> inv_color original
        then [edit_movement record ''ColorChange'' 0 (''Color ID '' @ number_text (inv_color original)
               @ '' -> '' @ number_text (inv_color record))] else [])
     @ (if inv_condition record \<noteq> inv_condition original
        then [edit_movement record ''ConditionChange'' 0
               (inv_condition original @ '' -> '' @ inv_condition record)] else [])
     @ (if inv_ownership record \<noteq> inv_ownership original
        then [edit_movement record ''OwnershipChange'' 0
               (inv_ownership original @ '' -> '' @ inv_ownership record)] else [])
     @ (if inv_storage record \<noteq> inv_storage original
        then [edit_movement record ''Move'' (inv_quantity record) []
               \<lparr>mov_from := inv_storage original\<rparr>] else [])
     @ (if merged
        then [edit_movement record ''Merge'' (inv_quantity record)
               ''Inventory record merged with existing destination record.''] else [])"

fun create_movements :: "movement_row list \<Rightarrow> (session, bool) state" where
  "create_movements [] = ret True"
| "create_movements (m # ms) = do {
     created \<leftarrow> movement_create m;
     if created then create_movements ms else ret False
   }"

definition update_or_merge_in_current_transaction ::
    "inventory_row \<Rightarrow> (session, (inventory_row \<times> update_result) option) state" where
  "update_or_merge_in_current_transaction record =
     (if inv_id record \<le> 0 \<or> inv_workspace record \<le> 0 \<or> inv_part record \<le> 0
        \<or> inv_color record \<le> 0 \<or> inv_storage record \<le> 0 \<or> inv_quantity record \<le> 0 then ret None
      else do {
        manufacturer \<leftarrow> normalized_manufacturer_id (inv_manufacturer record);
        if manufacturer \<le> 0 then ret None
        else do {
          original \<leftarrow> inventory_get (inv_id record);
          case original of None \<Rightarrow> ret None
          | Some original \<Rightarrow> do {
              edited \<leftarrow> apply_edit (record\<lparr>inv_manufacturer := manufacturer\<rparr>);
              case edited of None \<Rightarrow> ret None
              | Some (after, merged) \<Rightarrow> do {
                  recorded \<leftarrow> create_movements (edit_history original after merged);
                  if \<not> recorded then ret None
                  else ret (Some (after, \<lparr>upd_source = inv_id original, upd_surviving = inv_id after,
                    upd_quantity = inv_quantity after, upd_storage = inv_storage after,
                    upd_merged = merged\<rparr>))
                }
            }
        }
      })"

definition update_or_merge :: "inventory_row \<Rightarrow> (session, (inventory_row \<times> update_result) option) state" where
  "update_or_merge record =
     transactional got None None (update_or_merge_in_current_transaction record)"

section \<open>correctEntry and removeEntry\<close>

definition correct_entry_in_current_transaction :: "int \<Rightarrow> int \<Rightarrow> int \<Rightarrow> string \<Rightarrow> (session, bool) state" where
  "correct_entry_in_current_transaction i replacement_part quantity notes =
     (if i \<le> 0 \<or> replacement_part \<le> 0 \<or> quantity \<le> 0 then ret False
      else do {
        source \<leftarrow> inventory_get i;
        case source of None \<Rightarrow> ret False
        | Some source \<Rightarrow>
          if inv_quantity source \<le> 0 \<or> quantity > inv_quantity source then ret False
          else if inv_part source = replacement_part then ret False
          else do {
            source_part \<leftarrow> part_by_id (inv_part source);
            replacement \<leftarrow> part_by_id replacement_part;
            case (source_part, replacement) of
              (Some source_part, Some replacement) \<Rightarrow> do {
                reduced \<leftarrow> set_quantity_with_movement i (inv_quantity source - quantity)
                  ''CorrectionRemoved'' ''Part'' (part_number replacement)
                  (if trimmed notes = [] then ''Corrected to Part '' @ part_number replacement
                   else ''Corrected to Part '' @ part_number replacement @ ''. '' @ trimmed notes);
                if \<not> reduced then ret False
                else do {
                  added \<leftarrow> add_or_increase_in_current_transaction
                    (source\<lparr>inv_id := 0, inv_part := replacement_part, inv_quantity := quantity\<rparr>)
                    ''CorrectionAdded'' ''Part'' (part_number source_part)
                    (if trimmed notes = [] then ''Corrected from Part '' @ part_number source_part
                     else ''Corrected from Part '' @ part_number source_part @ ''. '' @ trimmed notes);
                  ret (added \<noteq> None)
                }
              }
            | _ \<Rightarrow> ret False
          }
      })"

definition correct_entry :: "int \<Rightarrow> int \<Rightarrow> int \<Rightarrow> string \<Rightarrow> (session, bool) state" where
  "correct_entry i replacement_part quantity notes =
     in_transaction (correct_entry_in_current_transaction i replacement_part quantity notes)"

text \<open>The reasons \<open>removeEntry\<close> reports in \<open>errorMessage\<close>.\<close>

datatype remove_error = RemovalInvalid | RemovalStale | AllocationsUnknown
  | AllAllocated | MoreThanRemovable int | RemovalNotRecorded | RemovalNotCommitted

definition remove_entry_in_current_transaction ::
    "int \<Rightarrow> int \<Rightarrow> string \<Rightarrow> (session, remove_error + unit) state" where
  "remove_entry_in_current_transaction i quantity notes =
     (if i \<le> 0 \<or> quantity \<le> 0 then ret (Inl RemovalInvalid)
      else do {
        row \<leftarrow> inventory_get i;
        case row of None \<Rightarrow> ret (Inl RemovalStale)
        | Some row \<Rightarrow>
          if inv_quantity row \<le> 0 \<or> quantity > inv_quantity row then ret (Inl RemovalStale)
          else do {
            reserved \<leftarrow> try_total_allocated_for_inventory i;
            case reserved of None \<Rightarrow> ret (Inl AllocationsUnknown)
            | Some reserved \<Rightarrow> do {
                let removable = max 0 (inv_quantity row - reserved);
                if quantity > removable
                then ret (Inl (if removable = 0 then AllAllocated else MoreThanRemovable removable))
                else do {
                  reduced \<leftarrow> set_quantity_with_movement i (inv_quantity row - quantity)
                    ''EntryRemoved'' ''Correction'' []
                    (if trimmed notes = [] then ''Inventory entry removed as a correction.''
                     else trimmed notes);
                  ret (if reduced then Inr () else Inl RemovalNotRecorded)
                }
              }
          }
      })"

text \<open>A transaction that cannot begin or commit answers false and leaves no message.\<close>

definition remove_entry :: "int \<Rightarrow> int \<Rightarrow> string \<Rightarrow> (session, remove_error + unit) state" where
  "remove_entry i quantity notes =
     transactional succeeds (Inl RemovalNotCommitted) (Inl RemovalNotCommitted)
       (remove_entry_in_current_transaction i quantity notes)"

section \<open>moveInventory\<close>

record move_result =
  mvr_source :: int
  mvr_destination :: int
  mvr_moved :: int
  mvr_source_quantity :: int
  mvr_destination_quantity :: int
  mvr_created :: bool

text \<open>Load the source record and check that the pieces may go to the destination.\<close>

definition move_source :: "int \<Rightarrow> int \<Rightarrow> int \<Rightarrow> (session, inventory_row option) state" where
  "move_source i destination quantity =
     (if i \<le> 0 \<or> destination \<le> 0 \<or> quantity \<le> 0 then ret None
      else do {
        source \<leftarrow> inventory_get i;
        case source of None \<Rightarrow> ret None
        | Some source \<Rightarrow>
          if destination = inv_storage source then ret None
          else if quantity > inv_quantity source then ret None
          else do {
            location \<leftarrow> sql_query (\<lambda>t. find (\<lambda>l. sto_id l = destination
              \<and> sto_workspace l = inv_workspace source \<and> sto_active l) (storage t));
            ret (case found_row location of None \<Rightarrow> None | Some l \<Rightarrow> Some source)
          }
      })"

text \<open>Add the pieces to the record at the destination; its identity, quantity, and whether it is new.\<close>

definition move_destination ::
    "inventory_row \<Rightarrow> int \<Rightarrow> int \<Rightarrow> (session, (int \<times> int \<times> bool) option) state" where
  "move_destination source destination quantity = do {
     existing \<leftarrow> sql_query (find_other (source\<lparr>inv_storage := destination\<rparr>) (inv_id source));
     case existing of None \<Rightarrow> ret None
     | Some (Some row) \<Rightarrow> do {
         let resulting = int32 (inv_quantity row + quantity);
         n \<leftarrow> sql_exec (update_inventory (inv_id row) (set_quantity resulting));
         if n = None then ret None else ret (Some (inv_id row, resulting, False))
       }
     | Some None \<Rightarrow> do {
         i \<leftarrow> sql_exec (insert_inventory
           (source\<lparr>inv_storage := destination, inv_quantity := quantity\<rparr>));
         case i of None \<Rightarrow> ret None | Some i \<Rightarrow> ret (Some (i, quantity, True))
       }
   }"

definition move_movement :: "inventory_row \<Rightarrow> int \<Rightarrow> int \<Rightarrow> movement_row" where
  "move_movement source destination quantity =
     blank_movement\<lparr>mov_workspace := inv_workspace source, mov_inventory := inv_id source,
       mov_part := inv_part source, mov_color := inv_color source, mov_type := ''Move'',
       mov_quantity := quantity, mov_from := inv_storage source, mov_to := destination,
       mov_condition := inv_condition source, mov_ownership := inv_ownership source\<rparr>"

definition move_inventory_in_current_transaction ::
    "int \<Rightarrow> int \<Rightarrow> int \<Rightarrow> (session, move_result option) state" where
  "move_inventory_in_current_transaction i destination quantity = do {
     source \<leftarrow> move_source i destination quantity;
     case source of None \<Rightarrow> ret None
     | Some source \<Rightarrow> do {
         placed \<leftarrow> move_destination source destination quantity;
         case placed of None \<Rightarrow> ret None
         | Some (dest, resulting, created) \<Rightarrow> do {
             let remaining = inv_quantity source - quantity;
             n \<leftarrow> sql_exec (update_inventory i (set_quantity remaining));
             if n = None then ret None
             else do {
               moved \<leftarrow> movement_create (move_movement source destination quantity);
               if \<not> moved then ret None
               else ret (Some \<lparr>mvr_source = i, mvr_destination = dest, mvr_moved = quantity,
                 mvr_source_quantity = remaining, mvr_destination_quantity = resulting,
                 mvr_created = created\<rparr>)
             }
           }
       }
   }"

definition move_inventory :: "int \<Rightarrow> int \<Rightarrow> int \<Rightarrow> (session, move_result option) state" where
  "move_inventory i destination quantity =
     transactional got None None
       (move_inventory_in_current_transaction i destination quantity)"

section \<open>markLost and markFound\<close>

definition lost_movement :: "inventory_row \<Rightarrow> int \<Rightarrow> string \<Rightarrow> movement_row" where
  "lost_movement row quantity notes =
     blank_movement\<lparr>mov_workspace := inv_workspace row, mov_inventory := inv_id row,
       mov_part := inv_part row, mov_color := inv_color row, mov_type := ''Lost'',
       mov_quantity := - quantity, mov_from := inv_storage row,
       mov_condition := inv_condition row, mov_ownership := inv_ownership row,
       mov_notes := trimmed notes\<rparr>"

definition mark_lost_in_current_transaction :: "int \<Rightarrow> int \<Rightarrow> string \<Rightarrow> (session, bool) state" where
  "mark_lost_in_current_transaction i quantity notes =
     (if i \<le> 0 \<or> quantity \<le> 0 then ret False
      else do {
        row \<leftarrow> inventory_get i;
        case row of None \<Rightarrow> ret False
        | Some row \<Rightarrow>
          if inv_quantity row \<le> 0 \<or> quantity > inv_quantity row then ret False
          else do {
            n \<leftarrow> sql_exec (update_inventory i (set_quantity (inv_quantity row - quantity)));
            if n = None \<or> n = Some 0 then ret False
            else movement_create (lost_movement row quantity notes)
          }
      })"

definition mark_lost :: "int \<Rightarrow> int \<Rightarrow> string \<Rightarrow> (session, bool) state" where
  "mark_lost i quantity notes = in_transaction (mark_lost_in_current_transaction i quantity notes)"

text \<open>
  The outstanding lost quantity of a part and color, as the SQL sum computes it: a Lost movement
  carries a negative change and a Found movement a positive one.
\<close>

definition outstanding_lost :: "int \<Rightarrow> int \<Rightarrow> int \<Rightarrow> tables \<Rightarrow> int" where
  "outstanding_lost ws p c t = sum_where (\<lambda>m. if mov_type m = ''Lost'' then - mov_quantity m
       else if mov_type m = ''Found'' then - mov_quantity m else 0)
     (\<lambda>m. mov_workspace m = ws \<and> mov_part m = p \<and> mov_color m = c
        \<and> mov_type m \<in> {''Lost'', ''Found''}) (movements t)"

record found_result =
  fnd_record :: int
  fnd_restored :: int
  fnd_storage :: int
  fnd_outstanding :: int
  fnd_created :: bool
  fnd_merged :: bool

definition found_record :: "int \<Rightarrow> int \<Rightarrow> int \<Rightarrow> int \<Rightarrow> int \<Rightarrow> string \<Rightarrow> string \<Rightarrow> inventory_row" where
  "found_record ws p c quantity destination condition ownership =
     \<lparr>inv_id = 0, inv_workspace = ws, inv_part = p, inv_color = c, inv_storage = destination,
      inv_manufacturer = 0, inv_condition = trimmed condition, inv_ownership = trimmed ownership,
      inv_quantity = quantity\<rparr>"

definition mark_found_in_current_transaction ::
    "int \<Rightarrow> int \<Rightarrow> int \<Rightarrow> int \<Rightarrow> int \<Rightarrow> string \<Rightarrow> string \<Rightarrow> string
     \<Rightarrow> (session, found_result option) state" where
  "mark_found_in_current_transaction ws p c quantity destination condition ownership notes =
     (if ws \<le> 0 \<or> p \<le> 0 \<or> c \<le> 0 \<or> quantity \<le> 0 \<or> destination \<le> 0 then ret None
      else do {
        lost \<leftarrow> sql_query (\<lambda>t. int32 (outstanding_lost ws p c t));
        case lost of None \<Rightarrow> ret None
        | Some lost \<Rightarrow>
          if lost \<le> 0 \<or> quantity > lost then ret None
          else do {
            added \<leftarrow> add_or_increase_in_current_transaction
              (found_record ws p c quantity destination condition ownership)
              ''Found'' [] [] (trimmed notes);
            ret (case added of None \<Rightarrow> None
              | Some (after, result) \<Rightarrow> Some \<lparr>fnd_record = add_record result,
                  fnd_restored = quantity, fnd_storage = destination,
                  fnd_outstanding = lost - quantity, fnd_created = add_created result,
                  fnd_merged = add_merged result\<rparr>)
          }
      })"

definition mark_found ::
    "int \<Rightarrow> int \<Rightarrow> int \<Rightarrow> int \<Rightarrow> int \<Rightarrow> string \<Rightarrow> string \<Rightarrow> string
     \<Rightarrow> (session, found_result option) state" where
  "mark_found ws p c quantity destination condition ownership notes =
     transactional got None None
       (mark_found_in_current_transaction ws p c quantity destination condition ownership notes)"

end
