(* ===== verification/InventoryLedger.thy ===== *)
theory InventoryLedger
  imports InventoryRepository
begin

text \<open>
  What the operations of the inventory repository do to the stock. \<open>stock Q t\<close> is the number
  of pieces in the records whose identity satisfies \<open>Q\<close>; an equation that holds for every
  \<open>Q\<close> says which record gained or lost how many pieces and that no other record changed.
  \<open>on_hand i t\<close> is the quantity of one record, which the allocations of Builds draw on.
\<close>

type_synonym identity = "int \<times> int \<times> int \<times> int \<times> int \<times> string \<times> string"

definition stock :: "(identity \<Rightarrow> bool) \<Rightarrow> tables \<Rightarrow> int" where
  "stock Q t = sum_where inv_quantity (\<lambda>r. Q (inventory_identity r)) (inventory t)"

definition on_hand :: "int \<Rightarrow> tables \<Rightarrow> int" where
  "on_hand i t = sum_where inv_quantity (\<lambda>r. inv_id r = i) (inventory t)"

text \<open>Every stored quantity is a 32-bit value, as the code that wrote it left it.\<close>

definition quantities_fit :: "tables \<Rightarrow> bool" where
  "quantities_fit t \<longleftrightarrow> (\<forall>r\<in>set (inventory t). inv_quantity r \<le> int_max)"

text \<open>The two states differ in the inventory and its ledger at most.\<close>

definition only_inventory :: "tables \<Rightarrow> tables \<Rightarrow> bool" where
  "only_inventory t t' \<longleftrightarrow> t' = t\<lparr>inventory := inventory t', movements := movements t',
     seq_inventory := seq_inventory t', seq_movement := seq_movement t'\<rparr>"

lemma only_inventory_refl [simp]: "only_inventory t t"
  by (simp add: only_inventory_def)

lemma only_inventory_trans: "only_inventory t t' \<Longrightarrow> only_inventory t' t'' \<Longrightarrow> only_inventory t t''"
  by (cases t, cases t', cases t'') (simp add: only_inventory_def)

lemma only_inventory_fields:
  "only_inventory t t' \<Longrightarrow> builds t' = builds t \<and> requirements t' = requirements t
    \<and> allocations t' = allocations t \<and> provenance t' = provenance t \<and> collection t' = collection t
    \<and> storage t' = storage t \<and> manufacturers t' = manufacturers t \<and> parts t' = parts t"
  by (cases t, cases t') (simp add: only_inventory_def)

section \<open>Statements\<close>

lemma set_quantity_simps [simp]:
  "inv_id (set_quantity q r) = inv_id r" "inv_quantity (set_quantity q r) = q"
  "inventory_identity (set_quantity q r) = inventory_identity r"
  by (simp_all add: set_quantity_def inventory_identity_def)

lemma put_inv_id_simps [simp]:
  "inv_quantity (put_inv_id i r) = inv_quantity r"
  "inventory_identity (put_inv_id i r) = inventory_identity r"
  by (simp_all add: put_inv_id_def inventory_identity_def)

lemma stock_set_quantity:
  assumes "find (\<lambda>r. inv_id r = i) (inventory t) = Some r" "constraints t"
  shows "stock Q (snd (update_inventory i (set_quantity q) t))
    = stock Q t + (if Q (inventory_identity r) then q - inv_quantity r else 0)"
  using inv.sum_where_update [OF assms(1) constraints_inventory_keys [OF assms(2)],
      of inv_quantity "\<lambda>r. Q (inventory_identity r)" "set_quantity q"]
  by (simp add: stock_def update_inventory_def)

lemma on_hand_set_quantity:
  assumes "find (\<lambda>r. inv_id r = i) (inventory t) = Some r" "constraints t"
  shows "on_hand j (snd (update_inventory i (set_quantity q) t))
    = (if j = i then q else on_hand j t)"
proof -
  have "on_hand i t = inv_quantity r"
    unfolding on_hand_def by (rule inv.sum_where_key [OF assms(1) constraints_inventory_keys [OF assms(2)]])
  moreover have "inv_id r = i" using assms(1) by (auto simp: find_Some_iff)
  ultimately show ?thesis
    using inv.sum_where_update [OF assms(1) constraints_inventory_keys [OF assms(2)],
      of inv_quantity "\<lambda>r. inv_id r = j" "set_quantity q"]
    by (auto simp: on_hand_def update_inventory_def)
qed

lemma stock_insert:
  "stock Q (snd (insert_inventory r t))
    = stock Q t + (if Q (inventory_identity r) then inv_quantity r else 0)"
  by (simp add: stock_def insert_inventory_def Let_def)

lemma on_hand_insert:
  assumes "0 \<le> inv_quantity r"
  shows "on_hand j t \<le> on_hand j (snd (insert_inventory r t))"
  using assms by (simp add: on_hand_def insert_inventory_def Let_def)

lemma find_identityD:
  assumes "find_identity k t = Some r" "constraints t"
  shows "find (\<lambda>x. inv_id x = inv_id r) (inventory t) = Some r"
    "inventory_identity r = inventory_identity k" "r \<in> set (inventory t)"
  using assms inv.lookup_unique [OF constraints_inventory_keys]
  by (auto simp: find_identity_def find_Some_iff)

lemma find_otherD:
  assumes "find_other k j t = Some r" "constraints t"
  shows "find (\<lambda>x. inv_id x = inv_id r) (inventory t) = Some r"
    "inventory_identity r = inventory_identity k" "r \<in> set (inventory t)" "inv_id r \<noteq> j"
  using assms inv.lookup_unique [OF constraints_inventory_keys]
  by (auto simp: find_other_def find_Some_iff)

lemma only_inventory_update [simp]: "only_inventory t (snd (update_inventory i f t))"
  by (simp add: only_inventory_def update_inventory_def)

lemma only_inventory_insert [simp]: "only_inventory t (snd (insert_inventory r t))"
  by (simp add: only_inventory_def insert_inventory_def Let_def)

lemma only_inventory_movement [simp]: "only_inventory t (snd (insert_movement m t))"
  by (simp add: only_inventory_def insert_movement_def Let_def)

lemma movements_update [simp]: "movements (snd (update_inventory i f t)) = movements t"
  by (simp add: update_inventory_def)

lemma movements_insert [simp]: "movements (snd (insert_inventory r t)) = movements t"
  by (simp add: insert_inventory_def Let_def)

lemma insert_movement_keeps [simp]:
  "stock Q (snd (insert_movement m t)) = stock Q t"
  "on_hand i (snd (insert_movement m t)) = on_hand i t"
  "quantities_fit (snd (insert_movement m t)) = quantities_fit t"
  by (simp_all add: stock_def on_hand_def quantities_fit_def insert_movement_def Let_def)

lemma quantities_fit_set_quantity:
  "quantities_fit t \<Longrightarrow> q \<le> int_max \<Longrightarrow> quantities_fit (snd (update_inventory i (set_quantity q) t))"
  by (auto simp: quantities_fit_def update_inventory_def set_update_where)

lemma quantities_fit_insert:
  "quantities_fit t \<Longrightarrow> inv_quantity r \<le> int_max \<Longrightarrow> quantities_fit (snd (insert_inventory r t))"
  by (auto simp: quantities_fit_def insert_inventory_def Let_def)

lemma constraints_set_quantity:
  assumes "constraints (snd (update_inventory i (set_quantity q) t))"
    "find (\<lambda>r. inv_id r = i) (inventory t) = Some r"
  shows "0 \<le> q"
proof -
  from assms(2) have "r \<in> set (inventory t)" "inv_id r = i"
    by (auto dest: inv.lookup_SomeD)
  then have "set_quantity q r \<in> set (inventory (snd (update_inventory i (set_quantity q) t)))"
    by (force simp: update_inventory_def set_update_where)
  from constraints_quantity [OF assms(1) this] show ?thesis by simp
qed

section \<open>Operations: what they read and what they keep\<close>

lemma reads_inventory_get [reads_rules]:
  "reads_only (normalized_manufacturer_id i)" "reads_only (inventory_try_get i)"
  "reads_only (inventory_get i)" "reads_only (move_source i d q)"
  "reads_only (inventory_get_by_part_color ws p c)" "reads_only (total_quantity_for_part_color ws p c)"
  by (auto simp: normalized_manufacturer_id_def inventory_try_get_def inventory_get_def
      move_source_def inventory_get_by_part_color_def total_quantity_for_part_color_def
      intro!: reads_rules)

lemmas keeps_inventory_get [keeps_rules] = reads_inventory_get [THEN reads_keeps]

lemma keeps_movement_create [keeps_rules]: "keeps_connection (movement_create m)"
  by (auto simp: movement_create_def intro!: keeps_rules)

lemma keeps_set_quantity_with_movement [keeps_rules]:
  "keeps_connection (set_quantity_with_movement i q ty rt ri notes)"
  by (auto simp: set_quantity_with_movement_def intro!: keeps_rules)

lemma keeps_upsert_inventory [keeps_rules]: "keeps_connection (upsert_inventory r)"
  by (auto simp: upsert_inventory_def intro!: keeps_rules)

lemma keeps_add_or_increase [keeps_rules]:
  "keeps_connection (add_or_increase_in_current_transaction r ty rt ri notes)"
  by (auto simp: add_or_increase_in_current_transaction_def intro!: keeps_rules)

lemma keeps_create_movements [keeps_rules]: "keeps_connection (create_movements ms)"
  by (induction ms) (auto intro!: keeps_rules)

lemma keeps_apply_edit [keeps_rules]: "keeps_connection (apply_edit r)"
  by (auto simp: apply_edit_def intro!: keeps_rules)

lemma keeps_update_or_merge [keeps_rules]:
  "keeps_connection (update_or_merge_in_current_transaction r)"
  by (auto simp: update_or_merge_in_current_transaction_def intro!: keeps_rules)

lemma keeps_correct_entry [keeps_rules]:
  "keeps_connection (correct_entry_in_current_transaction i p q notes)"
  by (auto simp: correct_entry_in_current_transaction_def intro!: keeps_rules)

lemma keeps_remove_entry [keeps_rules]:
  "keeps_connection (remove_entry_in_current_transaction i q notes)"
  by (auto simp: remove_entry_in_current_transaction_def Let_def intro!: keeps_rules)

lemma keeps_move_inventory [keeps_rules]:
  "keeps_connection (move_inventory_in_current_transaction i d q)"
  by (auto simp: move_inventory_in_current_transaction_def move_destination_def Let_def
      intro!: keeps_rules)

lemma keeps_mark_lost [keeps_rules]: "keeps_connection (mark_lost_in_current_transaction i q notes)"
  by (auto simp: mark_lost_in_current_transaction_def intro!: keeps_rules)

lemma keeps_mark_found [keeps_rules]:
  "keeps_connection (mark_found_in_current_transaction ws p c q d cond own notes)"
  by (auto simp: mark_found_in_current_transaction_def intro!: keeps_rules)

section \<open>Operations: what a success did\<close>

lemma inventory_get_run:
  "run_state (inventory_get i) s = (r, s') \<Longrightarrow>
   s' = tick s \<and> (r = None \<or> r = find (\<lambda>r. inv_id r = i) (inventory (tables s)))"
  by (auto simp: inventory_get_def inventory_try_get_def run_simps)

lemma inventory_get_found:
  "run_state (inventory_get i) s = (Some row, s') \<Longrightarrow>
   find (\<lambda>r. inv_id r = i) (inventory (tables s)) = Some row \<and> s' = tick s"
  using inventory_get_run [of i s "Some row" s'] by auto

lemma movement_create_success:
  assumes "run_state (movement_create m) s = (True, s')"
  shows "tables s' = snd (insert_movement m (tables s)) \<and> constraints (tables s')"
  using assms by (auto simp: movement_create_def run_simps Let_def split: if_splits prod.splits)

lemma set_quantity_with_movement_success:
  assumes "run_state (set_quantity_with_movement i q ty rt ri notes) s = (True, s')"
  obtains row where "find (\<lambda>r. inv_id r = i) (inventory (tables s)) = Some row" "0 \<le> q" "0 < i"
    "tables s' = (if q = inv_quantity row then tables s
      else snd (insert_movement (adjustment_movement row (q - inv_quantity row) ty rt ri notes)
        (snd (update_inventory i (set_quantity q) (tables s)))))"
    "constraints (tables s) \<Longrightarrow> constraints (tables s')"
proof -
  obtain row s1 where get: "run_state (inventory_get i) s = (Some row, s1)" "0 \<le> q" "0 < i"
    using assms by (auto simp: set_quantity_with_movement_def run_simps
        split: if_splits prod.splits option.splits)
  then have "s1 = tick s" "find (\<lambda>r. inv_id r = i) (inventory (tables s)) = Some row"
    by (auto dest: inventory_get_run)
  with get assms show ?thesis
    by (intro that [of row])
      (auto simp: set_quantity_with_movement_def run_simps Let_def
        split: if_splits prod.splits dest!: movement_create_success)
qed

lemma insert_movement_log [simp]:
  "movements (snd (insert_movement m t)) = movements t @ [logged (seq_movement t + 1) m]"
  "seq_movement (snd (insert_movement m t)) = seq_movement t + 1"
  by (simp_all add: insert_movement_def Let_def)

lemma logged_simps [simp]:
  "mov_workspace (logged i m) = mov_workspace m" "mov_part (logged i m) = mov_part m"
  "mov_color (logged i m) = mov_color m" "mov_type (logged i m) = mov_type m"
  "mov_quantity (logged i m) = mov_quantity m"
  by (simp_all add: logged_def)

lemma seq_movement_inventory [simp]:
  "seq_movement (snd (update_inventory i f t)) = seq_movement t"
  "seq_movement (snd (insert_inventory r t)) = seq_movement t"
  by (simp_all add: update_inventory_def insert_inventory_def Let_def)

lemma insert_movement_inventory [simp]: "inventory (snd (insert_movement m t)) = inventory t"
  by (simp add: insert_movement_def Let_def)

text \<open>
  The effect of a write on the records: which pieces it added, which records it left at least
  as full as before, and that it touched nothing but the inventory and its ledger.
\<close>

definition adds :: "identity \<Rightarrow> int \<Rightarrow> tables \<Rightarrow> tables \<Rightarrow> bool" where
  "adds k n t t' \<longleftrightarrow> only_inventory t t' \<and>
     (\<forall>Q. stock Q t' = stock Q t + (if Q k then n else 0))"

lemma addsD: "adds k n t t' \<Longrightarrow> stock Q t' = stock Q t + (if Q k then n else 0)"
  by (simp add: adds_def)

lemma adds_only: "adds k n t t' \<Longrightarrow> only_inventory t t'"
  by (simp add: adds_def)

lemma adds_zero: "adds k 0 t t"
  by (simp add: adds_def)

lemma adds_set_quantity:
  assumes "find (\<lambda>r. inv_id r = i) (inventory t) = Some r" "constraints t"
  shows "adds (inventory_identity r) (q - inv_quantity r) t (snd (update_inventory i (set_quantity q) t))"
  using stock_set_quantity [OF assms] by (simp add: adds_def)

lemma adds_insert:
  "adds (inventory_identity r) (inv_quantity r) t (snd (insert_inventory r t))"
  by (simp add: adds_def stock_insert)

lemma adds_movement: "adds k n t t' \<Longrightarrow> adds k n t (snd (insert_movement m t'))"
  using only_inventory_trans [of t t' "snd (insert_movement m t')"] by (simp add: adds_def)

lemma set_quantity_with_movement_effect:
  assumes "run_state (set_quantity_with_movement i q ty rt ri notes) s = (True, s')"
    "constraints (tables s)"
  obtains row where "find (\<lambda>r. inv_id r = i) (inventory (tables s)) = Some row" "0 \<le> q"
    "adds (inventory_identity row) (q - inv_quantity row) (tables s) (tables s')"
    "constraints (tables s')"
    "\<And>j. on_hand j (tables s') = (if j = i then q else on_hand j (tables s))"
    "quantities_fit (tables s) \<Longrightarrow> q \<le> int_max \<Longrightarrow> quantities_fit (tables s')"
    "movements (tables s') = movements (tables s) @ (if q = inv_quantity row then []
      else [logged (seq_movement (tables s) + 1)
        (adjustment_movement row (q - inv_quantity row) ty rt ri notes)])"
    "seq_movement (tables s') = seq_movement (tables s) + (if q = inv_quantity row then 0 else 1)"
proof -
  from set_quantity_with_movement_success [OF assms(1)] obtain row where
    row: "find (\<lambda>r. inv_id r = i) (inventory (tables s)) = Some row" "0 \<le> q" "0 < i" and
    t': "tables s' = (if q = inv_quantity row then tables s
      else snd (insert_movement (adjustment_movement row (q - inv_quantity row) ty rt ri notes)
        (snd (update_inventory i (set_quantity q) (tables s)))))" and
    c: "constraints (tables s')"
    using assms(2) by metis
  have "inv_id row = i" using row(1) by (auto dest: inv.lookup_SomeD)
  moreover have "on_hand i (tables s) = inv_quantity row"
    unfolding on_hand_def
    by (rule inv.sum_where_key [OF row(1) constraints_inventory_keys [OF assms(2)]])
  ultimately show ?thesis
    using row c t' assms(2)
    by (intro that [of row])
      (auto simp: adds_zero adds_movement adds_set_quantity on_hand_set_quantity
        quantities_fit_set_quantity)
qed

lemma on_hand_lookup:
  "find (\<lambda>r. inv_id r = i) (inventory t) = Some r \<Longrightarrow> constraints t \<Longrightarrow> on_hand i t = inv_quantity r"
  unfolding on_hand_def by (rule inv.sum_where_key [OF _ constraints_inventory_keys])

text \<open>
  Adding to a record that exists: the sum the code computes in 32 bits is the exact one
  whenever the database accepts it, because an overflow would be negative.
\<close>

lemma increase_record:
  assumes "find (\<lambda>r. inv_id r = i) (inventory t) = Some row" "constraints t" "quantities_fit t"
    "0 \<le> n" "n \<le> int_max"
    "constraints (snd (update_inventory i (set_quantity (int32 (inv_quantity row + n))) t))"
  shows "int32 (inv_quantity row + n) = inv_quantity row + n"
    "adds (inventory_identity row) n t
      (snd (update_inventory i (set_quantity (int32 (inv_quantity row + n))) t))"
    "quantities_fit (snd (update_inventory i (set_quantity (int32 (inv_quantity row + n))) t))"
    "on_hand j t \<le> on_hand j (snd (update_inventory i (set_quantity (int32 (inv_quantity row + n))) t))"
proof -
  have row: "row \<in> set (inventory t)" using inv.lookup_SomeD [OF assms(1)] by simp
  have "0 \<le> inv_quantity row" by (rule constraints_quantity [OF assms(2) row])
  moreover have "inv_quantity row \<le> int_max"
    using assms(3) row by (simp add: quantities_fit_def)
  ultimately show exact: "int32 (inv_quantity row + n) = inv_quantity row + n"
    using assms(4,5) constraints_set_quantity [OF assms(6,1)] by (intro int32_add_nonneg) auto
  show "adds (inventory_identity row) n t
      (snd (update_inventory i (set_quantity (int32 (inv_quantity row + n))) t))"
    using adds_set_quantity [OF assms(1,2), of "inv_quantity row + n"] by (simp add: exact)
  have "int32 (inv_quantity row + n) \<le> int_max"
    using int_range_int32 [of "inv_quantity row + n"] by (simp add: int_range_def)
  with assms(3) show "quantities_fit
      (snd (update_inventory i (set_quantity (int32 (inv_quantity row + n))) t))"
    by (rule quantities_fit_set_quantity)
  show "on_hand j t \<le> on_hand j (snd (update_inventory i
      (set_quantity (int32 (inv_quantity row + n))) t))"
    using assms(1,2,4) by (simp add: on_hand_set_quantity exact on_hand_lookup)
qed

lemma upsert_inventory_effect:
  assumes "run_state (upsert_inventory record) s = (Some (after, existed), s')"
    "constraints (tables s)" "quantities_fit (tables s)"
    "0 \<le> inv_quantity record" "inv_quantity record \<le> int_max"
  shows "adds (inventory_identity (bound_inventory record)) (inv_quantity record) (tables s) (tables s')"
    "constraints (tables s')" "quantities_fit (tables s')"
    "on_hand j (tables s) \<le> on_hand j (tables s')"
    "movements (tables s') = movements (tables s)" "seq_movement (tables s') = seq_movement (tables s)"
    "after = record\<lparr>inv_id := inv_id after, inv_quantity := inv_quantity after\<rparr>"
    "inv_quantity record \<le> inv_quantity after"
proof -
  let ?t = "tables s" and ?b = "bound_inventory record"
  obtain found where found: "found = find_identity ?b ?t" by simp
  have all: "adds (inventory_identity ?b) (inv_quantity record) ?t (tables s')
    \<and> constraints (tables s') \<and> quantities_fit (tables s')
    \<and> (\<forall>j. on_hand j ?t \<le> on_hand j (tables s')) \<and> movements (tables s') = movements ?t
    \<and> seq_movement (tables s') = seq_movement ?t
    \<and> after = record\<lparr>inv_id := inv_id after, inv_quantity := inv_quantity after\<rparr>
    \<and> inv_quantity record \<le> inv_quantity after"
  proof (cases found)
    case None
    let ?t' = "snd (insert_inventory ?b ?t)"
    from None found assms(1) have t': "tables s' = ?t'" "constraints ?t'"
      and "\<exists>i. after = record\<lparr>inv_id := i\<rparr>"
      by (auto simp: upsert_inventory_def run_simps split: if_splits)
    then obtain i where after: "after = record\<lparr>inv_id := i\<rparr>" by blast
    have b: "inv_quantity ?b = inv_quantity record" by (simp add: bound_inventory_def)
    from t' assms(3-5) b after show ?thesis
      using adds_insert [of ?b ?t] by (simp add: on_hand_insert quantities_fit_insert)
  next
    case (Some row)
    let ?q = "int32 (inv_quantity row + inv_quantity record)"
    let ?t' = "snd (update_inventory (inv_id row) (set_quantity ?q) ?t)"
    note row = find_identityD [OF _ assms(2), of ?b row]
    from Some found assms(1) have t': "tables s' = ?t'" "constraints ?t'"
      "after = record\<lparr>inv_id := inv_id row, inv_quantity := ?q\<rparr>"
      by (auto simp: upsert_inventory_def run_simps Let_def split: if_splits)
    from Some found have f: "find_identity ?b ?t = Some row" by simp
    note up = increase_record [OF row(1) [OF f] assms(2-5) t'(2)]
    have "0 \<le> inv_quantity row" by (rule constraints_quantity [OF assms(2) row(3) [OF f]])
    with t' up row(2) [OF f] show ?thesis by simp
  qed
  then show "adds (inventory_identity ?b) (inv_quantity record) ?t (tables s')"
    "constraints (tables s')" "quantities_fit (tables s')"
    "on_hand j ?t \<le> on_hand j (tables s')"
    "movements (tables s') = movements ?t" "seq_movement (tables s') = seq_movement ?t"
    "after = record\<lparr>inv_id := inv_id after, inv_quantity := inv_quantity after\<rparr>"
    "inv_quantity record \<le> inv_quantity after" by auto
qed

lemma normalized_manufacturer_run:
  assumes "run_state (normalized_manufacturer_id i) s = (m, s')"
  shows "tables s' = tables s \<and> (0 < i \<longrightarrow> m = i)"
  using readsD [OF reads_inventory_get(1) assms] assms
  by (auto simp: normalized_manufacturer_id_def run_simps)

lemma same_piece:
  "after = r\<lparr>inv_manufacturer := m, inv_id := i, inv_quantity := q\<rparr> \<Longrightarrow>
   inv_workspace after = inv_workspace r \<and> inv_part after = inv_part r
   \<and> inv_color after = inv_color r \<and> inv_storage after = inv_storage r"
  by simp

lemma add_or_increase_effect:
  assumes "run_state (add_or_increase_in_current_transaction record ty rt ri notes) s
      = (Some (after, result), s')"
    "constraints (tables s)" "quantities_fit (tables s)" "inv_quantity record \<le> int_max"
  obtains manufacturer existed where "0 < manufacturer"
    "0 < inv_manufacturer record \<Longrightarrow> manufacturer = inv_manufacturer record"
    "adds (inventory_identity (bound_inventory (record\<lparr>inv_manufacturer := manufacturer\<rparr>)))
      (inv_quantity record) (tables s) (tables s')"
    "constraints (tables s')" "quantities_fit (tables s')"
    "\<And>j. on_hand j (tables s) \<le> on_hand j (tables s')"
    "movements (tables s') = movements (tables s) @
      [logged (seq_movement (tables s) + 1)
        (addition_movement after existed (inv_quantity record) ty rt ri notes)]"
    "after = record\<lparr>inv_manufacturer := manufacturer, inv_id := inv_id after,
      inv_quantity := inv_quantity after\<rparr>"
    "0 < inv_quantity record" "0 < inv_part record" "0 < inv_color record"
    "add_created result = (\<not> existed)" "add_merged result = existed"
    "add_record result = inv_id after" "add_quantity result = inv_quantity after"
proof -
  from assms(1) obtain manufacturer s1 existed s2 where
    guard: "0 < inv_quantity record" "0 < inv_part record" "0 < inv_color record"
      "0 < manufacturer" and
    man: "run_state (normalized_manufacturer_id (inv_manufacturer record)) s = (manufacturer, s1)" and
    up: "run_state (upsert_inventory (record\<lparr>inv_manufacturer := manufacturer\<rparr>)) s1
      = (Some (after, existed), s2)" and
    mov: "run_state (movement_create (addition_movement after existed (inv_quantity record)
        ty rt ri notes)) s2 = (True, s')" and
    result: "result = \<lparr>add_record = inv_id after, add_quantity = inv_quantity after,
      add_created = \<not> existed, add_merged = existed\<rparr>"
    by (auto simp: add_or_increase_in_current_transaction_def run_simps
        split: if_splits prod.splits option.splits)
  from normalized_manufacturer_run [OF man] have s1: "tables s1 = tables s"
    and m: "0 < inv_manufacturer record \<Longrightarrow> manufacturer = inv_manufacturer record" by auto
  note effect = upsert_inventory_effect [OF up, unfolded s1, OF assms(2,3)]
  from movement_create_success [OF mov] have t': "tables s' = snd (insert_movement
    (addition_movement after existed (inv_quantity record) ty rt ri notes) (tables s2))"
    and c: "constraints (tables s')" by auto
  show ?thesis
    by (rule that [of manufacturer existed])
      (use guard m effect assms(4) t' c result in \<open>simp_all add: adds_movement\<close>)
qed

section \<open>Moves\<close>

definition relocated :: "int \<Rightarrow> inventory_row \<Rightarrow> inventory_row" where
  "relocated d r = r\<lparr>inv_storage := d\<rparr>"

lemma move_source_success:
  assumes "run_state (move_source i d q) s = (Some row, s')"
  shows "find (\<lambda>r. inv_id r = i) (inventory (tables s)) = Some row \<and> 0 < q
    \<and> q \<le> inv_quantity row \<and> d \<noteq> inv_storage row \<and> tables s' = tables s
    \<and> (\<exists>l\<in>set (storage (tables s)). sto_id l = d \<and> sto_workspace l = inv_workspace row \<and> sto_active l)"
  using assms
  by (auto simp: move_source_def run_simps found_row_def
      split: if_splits prod.splits option.splits dest!: inventory_get_found find_SomeD [of "\<lambda>l. sto_id l = d \<and> R l" for R])

lemma move_destination_effect:
  assumes "run_state (move_destination row d q) s = (Some (dest, resulting, created), s')"
    "find (\<lambda>r. inv_id r = inv_id row) (inventory (tables s)) = Some row"
    "constraints (tables s)" "quantities_fit (tables s)" "0 \<le> q" "q \<le> int_max"
  shows "adds (inventory_identity (relocated d row)) q (tables s) (tables s')
    \<and> constraints (tables s') \<and> quantities_fit (tables s')
    \<and> (\<forall>j. on_hand j (tables s) \<le> on_hand j (tables s'))
    \<and> movements (tables s') = movements (tables s)
    \<and> seq_movement (tables s') = seq_movement (tables s)
    \<and> find (\<lambda>r. inv_id r = inv_id row) (inventory (tables s')) = Some row"
proof (cases "find_other (relocated d row) (inv_id row) (tables s)")
  case None
  let ?new = "(relocated d row)\<lparr>inv_quantity := q\<rparr>"
  let ?t' = "snd (insert_inventory ?new (tables s))"
  from None assms(1) have t': "tables s' = ?t'" "constraints ?t'"
    by (auto simp: move_destination_def relocated_def run_simps split: if_splits)
  have "inventory_identity ?new = inventory_identity (relocated d row)"
    by (simp add: inventory_identity_def)
  then have "adds (inventory_identity (relocated d row)) q (tables s) ?t'"
    using adds_insert [of ?new "tables s"] by simp
  moreover have "find (\<lambda>r. inv_id r = inv_id row) (inventory ?t') = Some row"
    using assms(2) by (simp add: insert_inventory_def Let_def inv.lookup_append)
  ultimately show ?thesis
    using t' assms(4-6) by (simp add: on_hand_insert quantities_fit_insert)
next
  case (Some there)
  let ?q = "int32 (inv_quantity there + q)"
  let ?t' = "snd (update_inventory (inv_id there) (set_quantity ?q) (tables s))"
  note there = find_otherD [OF Some assms(3)]
  from Some assms(1) have t': "tables s' = ?t'" "constraints ?t'"
    by (auto simp: move_destination_def relocated_def run_simps Let_def split: if_splits)
  note up = increase_record [OF there(1) assms(3-6) t'(2)]
  have "find (\<lambda>r. inv_id r = inv_id row) (inventory ?t') = Some row"
    using assms(2) there(4) by (simp add: update_inventory_def inv.lookup_update_other)
  with t' up there(2) show ?thesis by simp
qed

lemma move_inventory_effect:
  assumes "run_state (move_inventory_in_current_transaction i d q) s = (Some result, s')"
    "constraints (tables s)" "quantities_fit (tables s)"
  obtains row where "find (\<lambda>r. inv_id r = i) (inventory (tables s)) = Some row"
    "0 < q" "q \<le> inv_quantity row" "only_inventory (tables s) (tables s')"
    "\<And>Q. stock Q (tables s') = stock Q (tables s)
      + (if Q (inventory_identity (relocated d row)) then q else 0)
      - (if Q (inventory_identity row) then q else 0)"
    "constraints (tables s')" "quantities_fit (tables s')"
    "on_hand i (tables s') = on_hand i (tables s) - q"
    "\<And>j. j \<noteq> i \<Longrightarrow> on_hand j (tables s) \<le> on_hand j (tables s')"
    "movements (tables s') = movements (tables s) @
      [logged (seq_movement (tables s) + 1) (move_movement row d q)]"
    "\<exists>l\<in>set (storage (tables s)). sto_id l = d \<and> sto_workspace l = inv_workspace row \<and> sto_active l"
proof -
  from assms(1) obtain row s1 dest resulting created s2 where
    src: "run_state (move_source i d q) s = (Some row, s1)" and
    dst: "run_state (move_destination row d q) s1 = (Some (dest, resulting, created), s2)" and
    upd: "constraints (snd (update_inventory i (set_quantity (inv_quantity row - q)) (tables s2)))"
      and
    mov: "run_state (movement_create (move_movement row d q)) ((tick s2)
      \<lparr>tables := snd (update_inventory i (set_quantity (inv_quantity row - q)) (tables s2))\<rparr>) = (True, s')"
    by (auto simp: move_inventory_in_current_transaction_def run_simps Let_def
        split: if_splits prod.splits option.splits)
  from move_source_success [OF src] have row: "find (\<lambda>r. inv_id r = i) (inventory (tables s)) = Some row"
    "0 < q" "q \<le> inv_quantity row" "tables s1 = tables s"
    "\<exists>l\<in>set (storage (tables s)). sto_id l = d \<and> sto_workspace l = inv_workspace row \<and> sto_active l"
    by auto
  from inv.lookup_SomeD [OF row(1)] have i: "row \<in> set (inventory (tables s))" "inv_id row = i" by auto
  with assms(3) row(3) have "q \<le> int_max" by (force simp: quantities_fit_def)
  with move_destination_effect [OF dst] assms(2,3) row i
  have d: "adds (inventory_identity (relocated d row)) q (tables s) (tables s2)"
    "constraints (tables s2)" "quantities_fit (tables s2)"
    "\<And>j. on_hand j (tables s) \<le> on_hand j (tables s2)"
    "movements (tables s2) = movements (tables s)" "seq_movement (tables s2) = seq_movement (tables s)"
    "find (\<lambda>r. inv_id r = i) (inventory (tables s2)) = Some row" by auto
  note sub = adds_set_quantity [OF d(7,2), of "inv_quantity row - q"]
  from movement_create_success [OF mov] upd
  have t': "tables s' = snd (insert_movement (move_movement row d q)
      (snd (update_inventory i (set_quantity (inv_quantity row - q)) (tables s2))))"
    "constraints (tables s')" by auto
  show ?thesis
  proof (rule that [OF row(1-3)])
    show "only_inventory (tables s) (tables s')"
      using adds_only [OF d(1)] only_inventory_trans only_inventory_movement only_inventory_update
        t' upd by metis
    show "\<And>Q. stock Q (tables s') = stock Q (tables s)
      + (if Q (inventory_identity (relocated d row)) then q else 0)
      - (if Q (inventory_identity row) then q else 0)"
      using addsD [OF d(1)] addsD [OF sub] t' upd by simp
    show "quantities_fit (tables s')"
    proof -
      from assms(3) i(1) have "inv_quantity row \<le> int_max" by (simp add: quantities_fit_def)
      with row(2) d(3) show ?thesis by (simp add: t' upd quantities_fit_set_quantity)
    qed
    show "on_hand i (tables s') = on_hand i (tables s) - q"
      using on_hand_set_quantity [OF d(7,2)] on_hand_lookup [OF row(1) assms(2)]
      by (simp add: t' upd)
    show "on_hand j (tables s) \<le> on_hand j (tables s')" if "j \<noteq> i" for j
      using on_hand_set_quantity [OF d(7,2)] d(4) that by (simp add: t' upd)
  qed (use t' upd d row in simp_all)
qed

section \<open>Lost, found, corrected and removed pieces\<close>

lemma mark_lost_effect:
  assumes "run_state (mark_lost_in_current_transaction i q notes) s = (True, s')"
    "constraints (tables s)" "quantities_fit (tables s)"
  obtains row where "find (\<lambda>r. inv_id r = i) (inventory (tables s)) = Some row"
    "0 < q" "q \<le> inv_quantity row"
    "adds (inventory_identity row) (- q) (tables s) (tables s')"
    "constraints (tables s')" "quantities_fit (tables s')"
    "\<And>j. on_hand j (tables s') = (if j = i then on_hand i (tables s) - q else on_hand j (tables s))"
    "movements (tables s') = movements (tables s) @
      [logged (seq_movement (tables s) + 1) (lost_movement row q notes)]"
proof -
  from assms(1) obtain row where
    row: "find (\<lambda>r. inv_id r = i) (inventory (tables s)) = Some row" "0 < q" "q \<le> inv_quantity row" and
    t': "tables s' = snd (insert_movement (lost_movement row q notes)
      (snd (update_inventory i (set_quantity (inv_quantity row - q)) (tables s))))" "constraints (tables s')"
    by (auto simp: mark_lost_in_current_transaction_def run_simps
        split: if_splits prod.splits option.splits dest!: inventory_get_found movement_create_success)
  note sub = adds_set_quantity [OF row(1) assms(2), of "inv_quantity row - q"]
  from inv.lookup_SomeD [OF row(1)] assms(3) have "inv_quantity row \<le> int_max"
    by (auto simp: quantities_fit_def)
  with sub row t' assms(2,3) show ?thesis
    by (intro that [of row])
      (auto simp: adds_movement on_hand_set_quantity on_hand_lookup quantities_fit_set_quantity)
qed

lemma mark_found_effect:
  assumes "run_state (mark_found_in_current_transaction ws p c q d cond own notes) s = (Some result, s')"
    "constraints (tables s)" "quantities_fit (tables s)" "q \<le> int_max"
  obtains manufacturer existed after where "0 < q" "q \<le> int32 (outstanding_lost ws p c (tables s))"
    "adds (ws, p, c, d, manufacturer, trimmed cond, trimmed own) q (tables s) (tables s')"
    "constraints (tables s')" "quantities_fit (tables s')"
    "\<And>j. on_hand j (tables s) \<le> on_hand j (tables s')"
    "movements (tables s') = movements (tables s) @ [logged (seq_movement (tables s) + 1)
      (addition_movement after existed q ''Found'' [] [] (trimmed notes))]"
    "inv_workspace after = ws" "inv_part after = p" "inv_color after = c"
    "fnd_outstanding result = int32 (outstanding_lost ws p c (tables s)) - q"
proof -
  let ?rec = "found_record ws p c q d cond own"
  from assms(1) obtain after added where
    lost: "0 < q" "q \<le> int32 (outstanding_lost ws p c (tables s))"
      "fnd_outstanding result = int32 (outstanding_lost ws p c (tables s)) - q" and
    add: "run_state (add_or_increase_in_current_transaction ?rec ''Found'' [] [] (trimmed notes))
      (tick s) = (Some (after, added), s')"
    by (auto simp: mark_found_in_current_transaction_def run_simps
        split: if_splits prod.splits option.splits)
  show ?thesis
  proof (rule add_or_increase_effect [OF add])
    fix manufacturer existed
    assume m: "adds (inventory_identity (bound_inventory (?rec\<lparr>inv_manufacturer := manufacturer\<rparr>)))
        (inv_quantity ?rec) (tables (tick s)) (tables s')"
      and after: "after = ?rec\<lparr>inv_manufacturer := manufacturer, inv_id := inv_id after,
        inv_quantity := inv_quantity after\<rparr>"
      and rest: "constraints (tables s')" "quantities_fit (tables s')"
        "\<And>j. on_hand j (tables (tick s)) \<le> on_hand j (tables s')"
        "movements (tables s') = movements (tables (tick s)) @
          [logged (seq_movement (tables (tick s)) + 1) (addition_movement after existed
            (inv_quantity ?rec) ''Found'' [] [] (trimmed notes))]"
    from same_piece [OF after] have "inv_workspace after = ws" "inv_part after = p" "inv_color after = c"
      by (simp_all add: found_record_def)
    with lost m rest show ?thesis
      by (intro that [of manufacturer after existed])
        (simp_all add: found_record_def bound_inventory_def inventory_identity_def)
  qed (use assms(2-4) in \<open>simp_all add: found_record_def\<close>)
qed

lemma correct_entry_stages:
  assumes "run_state (correct_entry_in_current_transaction i p q notes) s = (True, s')"
  obtains row r1 n1 r2 n2 s2 s3 after added where
    "find (\<lambda>r. inv_id r = i) (inventory (tables s)) = Some row" "0 < q" "q \<le> inv_quantity row"
    "p \<noteq> inv_part row"
    "run_state (set_quantity_with_movement i (inv_quantity row - q)
      ''CorrectionRemoved'' ''Part'' r1 n1) s2 = (True, s3)"
    "run_state (add_or_increase_in_current_transaction
      (row\<lparr>inv_id := 0, inv_part := p, inv_quantity := q\<rparr>) ''CorrectionAdded'' ''Part'' r2 n2) s3
      = (Some (after, added), s')"
    "tables s2 = tables s"
proof -
  obtain found s1 where get: "run_state (inventory_get i) s = (found, s1)" by fastforce
  with assms obtain row where "found = Some row" "0 < q" "q \<le> inv_quantity row" "p \<noteq> inv_part row"
    by (auto simp: correct_entry_in_current_transaction_def run_simps split: if_splits option.splits)
  moreover from this get have "find (\<lambda>r. inv_id r = i) (inventory (tables s)) = Some row"
    and s1: "tables s1 = tables s" by (auto dest: inventory_get_found)
  moreover obtain f1 s2 where part1: "run_state (part_by_id (inv_part row)) s1 = (f1, s2)" by fastforce
  moreover obtain f2 s3 where part2: "run_state (part_by_id p) s2 = (f2, s3)" by fastforce
  moreover from part1 part2 s1 have "tables s3 = tables s"
    using readsD [OF reads_part_by_id part1] readsD [OF reads_part_by_id part2] by simp
  ultimately show ?thesis
    using assms get
    by (auto simp: correct_entry_in_current_transaction_def run_simps
        split: if_splits prod.splits option.splits intro: that)
qed

lemma correct_entry_effect:
  assumes "run_state (correct_entry_in_current_transaction i p q notes) s = (True, s')"
    "constraints (tables s)" "quantities_fit (tables s)"
  obtains row k after existed n1 n2 r1 r2 where
    "find (\<lambda>r. inv_id r = i) (inventory (tables s)) = Some row"
    "0 < q" "q \<le> inv_quantity row" "p \<noteq> inv_part row" "only_inventory (tables s) (tables s')"
    "fst k = inv_workspace row" "fst (snd k) = p" "fst (snd (snd k)) = inv_color row"
    "\<And>Q. stock Q (tables s') = stock Q (tables s) + (if Q k then q else 0)
      - (if Q (inventory_identity row) then q else 0)"
    "constraints (tables s')" "quantities_fit (tables s')"
    "movements (tables s') = movements (tables s) @
      [logged (seq_movement (tables s) + 1)
         (adjustment_movement row (- q) ''CorrectionRemoved'' ''Part'' r1 n1),
       logged (2 + seq_movement (tables s))
         (addition_movement after existed q ''CorrectionAdded'' ''Part'' r2 n2)]"
    "inv_workspace after = inv_workspace row" "inv_part after = p" "inv_color after = inv_color row"
proof -
  obtain row r1 n1 r2 n2 s2 s3 after added where
    row: "find (\<lambda>r. inv_id r = i) (inventory (tables s)) = Some row" "0 < q"
      "q \<le> inv_quantity row" "p \<noteq> inv_part row" and
    sub: "run_state (set_quantity_with_movement i (inv_quantity row - q)
      ''CorrectionRemoved'' ''Part'' r1 n1) s2 = (True, s3)" and
    add: "run_state (add_or_increase_in_current_transaction
      (row\<lparr>inv_id := 0, inv_part := p, inv_quantity := q\<rparr>) ''CorrectionAdded'' ''Part'' r2 n2) s3
      = (Some (after, added), s')" and
    s2: "tables s2 = tables s"
    by (rule correct_entry_stages [OF assms(1)])
  let ?r = "row\<lparr>inv_id := 0, inv_part := p, inv_quantity := q\<rparr>"
  from inv.lookup_SomeD [OF row(1)] assms(3) have fit: "inv_quantity row \<le> int_max"
    by (auto simp: quantities_fit_def)
  have c2: "constraints (tables s2)" using assms(2) s2 by simp
  obtain row' where row': "find (\<lambda>r. inv_id r = i) (inventory (tables s2)) = Some row'" and
    a: "adds (inventory_identity row') (inv_quantity row - q - inv_quantity row') (tables s2) (tables s3)"
      "constraints (tables s3)" and
    f: "quantities_fit (tables s2) \<Longrightarrow> inv_quantity row - q \<le> int_max \<Longrightarrow> quantities_fit (tables s3)" and
    m: "movements (tables s3) = movements (tables s2) @ (if inv_quantity row - q = inv_quantity row' then []
        else [logged (seq_movement (tables s2) + 1) (adjustment_movement row'
          (inv_quantity row - q - inv_quantity row') ''CorrectionRemoved'' ''Part'' r1 n1)])"
      "seq_movement (tables s3) = seq_movement (tables s2)
        + (if inv_quantity row - q = inv_quantity row' then 0 else 1)"
    by (rule set_quantity_with_movement_effect [OF sub c2]) (rule that, assumption+)
  have "row' = row" using row' row(1) s2 by simp
  note a = a [unfolded this s2] and f = f [unfolded s2] and m = m [unfolded this s2]
  show ?thesis
  proof (rule add_or_increase_effect [OF add])
    fix manufacturer existed
    let ?k = "inventory_identity (bound_inventory (?r\<lparr>inv_manufacturer := manufacturer\<rparr>))"
    assume b: "adds ?k (inv_quantity ?r) (tables s3) (tables s')"
      and after: "after = ?r\<lparr>inv_manufacturer := manufacturer, inv_id := inv_id after,
        inv_quantity := inv_quantity after\<rparr>"
      and rest: "constraints (tables s')" "quantities_fit (tables s')"
        "movements (tables s') = movements (tables s3) @ [logged (seq_movement (tables s3) + 1)
          (addition_movement after existed (inv_quantity ?r) ''CorrectionAdded'' ''Part'' r2 n2)]"
    have k: "fst ?k = inv_workspace row" "fst (snd ?k) = p" "fst (snd (snd ?k)) = inv_color row"
      by (simp_all add: inventory_identity_def bound_inventory_def)
    from same_piece [OF after] have w: "inv_workspace after = inv_workspace row" "inv_part after = p"
      "inv_color after = inv_color row"
      by simp_all
    have "only_inventory (tables s) (tables s')"
      using only_inventory_trans [OF adds_only [OF a(1)] adds_only [OF b]] .
    moreover have "stock Q (tables s') = stock Q (tables s) + (if Q ?k then q else 0)
        - (if Q (inventory_identity row) then q else 0)" for Q
      using addsD [OF a(1), of Q] addsD [OF b, of Q] by auto
    ultimately show ?thesis
      using row k w rest m
      by (intro that [of row ?k r1 n1 after existed r2 n2]) simp_all
  qed (use a f assms(2,3) fit row(2) row(3) in simp_all)
qed

lemma remove_entry_effect:
  assumes "run_state (remove_entry_in_current_transaction i q notes) s = (Inr (), s')"
    "constraints (tables s)" "quantities_fit (tables s)"
  obtains row r n where "find (\<lambda>r. inv_id r = i) (inventory (tables s)) = Some row" "0 < q"
    "q \<le> inv_quantity row - allocated (\<lambda>a. alloc_inventory a = i) (tables s)"
    "adds (inventory_identity row) (- q) (tables s) (tables s')"
    "constraints (tables s')" "quantities_fit (tables s')"
    "\<And>j. on_hand j (tables s') = (if j = i then on_hand i (tables s) - q else on_hand j (tables s))"
    "movements (tables s') = movements (tables s) @ [logged (seq_movement (tables s) + 1)
      (adjustment_movement row (- q) ''EntryRemoved'' ''Correction'' r n)]"
proof -
  let ?notes = "if trimmed notes = [] then ''Inventory entry removed as a correction.'' else trimmed notes"
  obtain found s1 where get: "run_state (inventory_get i) s = (found, s1)" by fastforce
  obtain reserved s2 where total: "run_state (try_total_allocated_for_inventory i) s1 = (reserved, s2)"
    by fastforce
  from assms(1) get obtain row where "found = Some row"
    by (auto simp: remove_entry_in_current_transaction_def run_simps split: if_splits option.splits)
  with get have row: "find (\<lambda>r. inv_id r = i) (inventory (tables s)) = Some row" "tables s1 = tables s"
    by (auto dest: inventory_get_found)
  from assms(1) get total \<open>found = Some row\<close> obtain n where n: "reserved = Some n" "0 < q"
    "q \<le> inv_quantity row - n" "q \<le> inv_quantity row" and
    sub: "run_state (set_quantity_with_movement i (inv_quantity row - q) ''EntryRemoved''
      ''Correction'' [] ?notes) s2 = (True, s')"
    by (auto simp: remove_entry_in_current_transaction_def run_simps Let_def
        split: if_splits option.splits prod.splits)
  have s2: "tables s2 = tables s"
    using readsD [OF reads_allocation_totals(4) total] row(2) by simp
  from total n(1) row(2) have reserved: "n = allocated (\<lambda>a. alloc_inventory a = i) (tables s)"
    by (auto simp: try_total_allocated_for_inventory_def run_simps split: if_splits)
  from inv.lookup_SomeD [OF row(1)] assms(3) have fit: "inv_quantity row \<le> int_max"
    by (auto simp: quantities_fit_def)
  have c2: "constraints (tables s2)" using assms(2) s2 by simp
  show ?thesis
  proof (rule set_quantity_with_movement_effect [OF sub c2])
    fix row'
    assume found': "find (\<lambda>r. inv_id r = i) (inventory (tables s2)) = Some row'"
      and effect: "adds (inventory_identity row') (inv_quantity row - q - inv_quantity row')
          (tables s2) (tables s')" "constraints (tables s')"
        "\<And>j. on_hand j (tables s') = (if j = i then inv_quantity row - q else on_hand j (tables s2))"
        "quantities_fit (tables s2) \<Longrightarrow> inv_quantity row - q \<le> int_max \<Longrightarrow> quantities_fit (tables s')"
        "movements (tables s') = movements (tables s2) @ (if inv_quantity row - q = inv_quantity row'
          then [] else [logged (seq_movement (tables s2) + 1) (adjustment_movement row'
            (inv_quantity row - q - inv_quantity row') ''EntryRemoved'' ''Correction'' [] ?notes)])"
    from found' row(1) s2 have "row' = row" by simp
    with effect n reserved row fit s2 assms(2,3) show ?thesis
      by (intro that [of row "[]" ?notes]) (auto simp: on_hand_lookup)
  qed
qed

section \<open>Edits\<close>

lemma stock_edited:
  assumes "find (\<lambda>r. inv_id r = i) (inventory t) = Some r" "constraints t"
  shows "stock Q (snd (update_inventory i (edited_row record) t)) = stock Q t
    - (if Q (inventory_identity r) then inv_quantity r else 0)
    + (if Q (inventory_identity (edited_row record r)) then inv_quantity record else 0)"
  using inv.sum_where_update [OF assms(1) constraints_inventory_keys [OF assms(2)],
      of inv_quantity "\<lambda>r. Q (inventory_identity r)" "edited_row record"]
  by (simp add: stock_def update_inventory_def edited_row_def)

lemma apply_edit_effect:
  assumes "run_state (apply_edit record) s = (Some (after, merged), s')"
    "find (\<lambda>r. inv_id r = inv_id record) (inventory (tables s)) = Some original"
    "constraints (tables s)" "quantities_fit (tables s)"
    "0 \<le> inv_quantity record" "inv_quantity record \<le> int_max"
  defines "k \<equiv> inventory_identity (if merged then bound_inventory record else edited_row record original)"
  shows "only_inventory (tables s) (tables s')
    \<and> (\<forall>Q. stock Q (tables s') = stock Q (tables s)
        - (if Q (inventory_identity original) then inv_quantity original else 0)
        + (if Q k then inv_quantity record else 0))
    \<and> constraints (tables s') \<and> quantities_fit (tables s')
    \<and> movements (tables s') = movements (tables s)
    \<and> after = record\<lparr>inv_id := inv_id after, inv_quantity := inv_quantity after\<rparr>
    \<and> (merged \<longrightarrow> (\<exists>dest\<in>set (inventory (tables s)). inv_id dest \<noteq> inv_id record
          \<and> inv_id after = inv_id dest \<and> inv_quantity after = inv_quantity dest + inv_quantity record))
    \<and> (\<not> merged \<longrightarrow> after = record)"
proof (cases "find_other (bound_inventory record) (inv_id record) (tables s)")
  case None
  with assms(1) have t': "tables s' = snd (update_inventory (inv_id record) (edited_row record) (tables s))"
    "constraints (tables s')" "after = record" "\<not> merged"
    by (auto simp: apply_edit_def run_simps split: if_splits)
  have "quantities_fit (tables s')"
    using assms(4,6) t'(1)
    by (auto simp: quantities_fit_def update_inventory_def set_update_where edited_row_def)
  with t' assms(2,3) show ?thesis by (simp add: k_def stock_edited)
next
  case (Some dest)
  let ?q = "int32 (inv_quantity dest + inv_quantity record)"
  let ?t1 = "snd (update_inventory (inv_id dest) (set_quantity ?q) (tables s))"
  let ?t2 = "snd (update_inventory (inv_id record) (set_quantity 0) ?t1)"
  note dest = find_otherD [OF Some assms(3)]
  from Some assms(1) have t': "tables s' = ?t2" "constraints ?t1" "constraints ?t2" "merged"
    "after = record\<lparr>inv_id := inv_id dest, inv_quantity := ?q\<rparr>"
    by (auto simp: apply_edit_def run_simps Let_def split: if_splits)
  note up = increase_record [OF dest(1) assms(3-6) t'(2)]
  have still: "find (\<lambda>r. inv_id r = inv_id record) (inventory ?t1) = Some original"
    using assms(2) dest(4) by (simp add: update_inventory_def inv.lookup_update_other)
  have "only_inventory (tables s) ?t2"
    using adds_only [OF up(2)] only_inventory_update only_inventory_trans by blast
  moreover have "stock Q ?t2 = stock Q (tables s)
      - (if Q (inventory_identity original) then inv_quantity original else 0)
      + (if Q k then inv_quantity record else 0)" for Q
    using addsD [OF up(2), of Q] dest(2) t'(4)
    by (simp add: stock_set_quantity [OF still t'(2)] k_def)
  moreover have "quantities_fit ?t2"
    by (rule quantities_fit_set_quantity [OF up(3)]) (simp add: int_max_def)
  ultimately show ?thesis
    using t' up(1) dest(3,4) by auto
qed

lemma create_movements_effect:
  assumes "run_state (create_movements ms) s = (True, s')" "constraints (tables s)"
  shows "(\<exists>logs. movements (tables s') = movements (tables s) @ logs
      \<and> list_all2 (\<lambda>l m. \<exists>i. l = logged i m) logs ms)
    \<and> inventory (tables s') = inventory (tables s) \<and> only_inventory (tables s) (tables s')
    \<and> constraints (tables s')"
  using assms
proof (induction ms arbitrary: s)
  case Nil
  then show ?case by (simp add: run_simps)
next
  case (Cons m ms)
  then obtain s1 where m: "run_state (movement_create m) s = (True, s1)"
    and ms: "run_state (create_movements ms) s1 = (True, s')"
    by (auto simp: run_simps split: prod.splits if_splits)
  from movement_create_success [OF m] have s1: "tables s1 = snd (insert_movement m (tables s))"
    "constraints (tables s1)" by auto
  from Cons.IH [OF ms s1(2)] obtain logs where
    logs: "movements (tables s') = movements (tables s1) @ logs"
      "list_all2 (\<lambda>l m. \<exists>i. l = logged i m) logs ms" and
    rest: "inventory (tables s') = inventory (tables s1)" "only_inventory (tables s1) (tables s')"
      "constraints (tables s')" by auto
  from logs have "movements (tables s')
      = movements (tables s) @ (logged (seq_movement (tables s) + 1) m # logs)"
    "list_all2 (\<lambda>l m. \<exists>i. l = logged i m) (logged (seq_movement (tables s) + 1) m # logs) (m # ms)"
    by (auto simp: s1(1))
  then show ?case
    using rest only_inventory_trans [OF only_inventory_movement rest(2) [unfolded s1(1)]]
    by (auto simp: s1(1))
qed

lemma update_or_merge_effect:
  assumes "run_state (update_or_merge_in_current_transaction record) s = (Some (after, result), s')"
    "constraints (tables s)" "quantities_fit (tables s)" "inv_quantity record \<le> int_max"
  obtains original k logs where
    "find (\<lambda>r. inv_id r = inv_id record) (inventory (tables s)) = Some original"
    "only_inventory (tables s) (tables s')"
    "\<And>Q. stock Q (tables s') = stock Q (tables s)
      - (if Q (inventory_identity original) then inv_quantity original else 0)
      + (if Q k then inv_quantity record else 0)"
    "constraints (tables s')" "quantities_fit (tables s')"
    "movements (tables s') = movements (tables s) @ logs"
    "list_all2 (\<lambda>l m. \<exists>i. l = logged i m) logs (edit_history original after (upd_merged result))"
    "\<not> upd_merged result \<Longrightarrow> inv_quantity after = inv_quantity record"
    "upd_surviving result = inv_id after" "upd_quantity result = inv_quantity after"
    "0 < inv_quantity record"
proof -
  from assms(1) obtain manufacturer s1 original s2 merged s3 where
    guard: "0 < inv_quantity record" and
    man: "run_state (normalized_manufacturer_id (inv_manufacturer record)) s = (manufacturer, s1)" and
    get: "run_state (inventory_get (inv_id record)) s1 = (Some original, s2)" and
    edit: "run_state (apply_edit (record\<lparr>inv_manufacturer := manufacturer\<rparr>)) s2 = (Some (after, merged), s3)" and
    hist: "run_state (create_movements (edit_history original after merged)) s3 = (True, s')" and
    result: "result = \<lparr>upd_source = inv_id original, upd_surviving = inv_id after,
      upd_quantity = inv_quantity after, upd_storage = inv_storage after, upd_merged = merged\<rparr>"
    by (auto simp: update_or_merge_in_current_transaction_def run_simps
        split: if_splits prod.splits option.splits)
  let ?r = "record\<lparr>inv_manufacturer := manufacturer\<rparr>"
  from normalized_manufacturer_run [OF man] inventory_get_found [OF get]
  have s2: "tables s2 = tables s"
    and found: "find (\<lambda>r. inv_id r = inv_id record) (inventory (tables s)) = Some original" by auto
  from found s2 have "find (\<lambda>r. inv_id r = inv_id ?r) (inventory (tables s2)) = Some original" by simp
  from apply_edit_effect [OF edit this] guard assms(2-4) s2
  have e: "only_inventory (tables s) (tables s3)"
    "\<And>Q. stock Q (tables s3) = stock Q (tables s)
      - (if Q (inventory_identity original) then inv_quantity original else 0)
      + (if Q (inventory_identity (if merged then bound_inventory ?r else edited_row ?r original))
         then inv_quantity record else 0)"
    "constraints (tables s3)" "quantities_fit (tables s3)" "movements (tables s3) = movements (tables s)"
    "\<not> merged \<Longrightarrow> inv_quantity after = inv_quantity record"
    by auto
  from create_movements_effect [OF hist e(3)] obtain logs where
    h: "movements (tables s') = movements (tables s3) @ logs"
      "list_all2 (\<lambda>l m. \<exists>i. l = logged i m) logs (edit_history original after merged)"
      "inventory (tables s') = inventory (tables s3)" "only_inventory (tables s3) (tables s')"
      "constraints (tables s')" by auto
  show ?thesis
  proof (rule that [OF found])
    show "only_inventory (tables s) (tables s')" by (rule only_inventory_trans [OF e(1) h(4)])
    show "stock Q (tables s') = stock Q (tables s)
      - (if Q (inventory_identity original) then inv_quantity original else 0)
      + (if Q (inventory_identity (if merged then bound_inventory ?r else edited_row ?r original))
         then inv_quantity record else 0)" for Q
      using e(2) [of Q] h(3) by (simp add: stock_def)
    show "quantities_fit (tables s')" using e(4) h(3) by (simp add: quantities_fit_def)
  qed (use h e result guard in auto)
qed

end
