(* ===== verification/Sample.thy ===== *)
theory Sample
  imports Session
begin

text \<open>
  A small workspace database on which the properties are exercised: 26 bricks of part 10 in two
  records (20 LEGO bricks in location 1, 6 of another manufacturer in location 2), a Stock Build
  that needs 8 of them with 5 allocated, and a complete set kept in one piece.
\<close>

definition sample_row :: "int \<Rightarrow> int \<Rightarrow> int \<Rightarrow> int \<Rightarrow> inventory_row" where
  "sample_row i location manufacturer quantity =
     \<lparr>inv_id = i, inv_workspace = 1, inv_part = 10, inv_color = 5, inv_storage = location,
      inv_manufacturer = manufacturer, inv_condition = ''Used'', inv_ownership = ''Owned'',
      inv_quantity = quantity\<rparr>"

definition sample_movement :: "int \<Rightarrow> int \<Rightarrow> int \<Rightarrow> movement_row" where
  "sample_movement i location quantity =
     \<lparr>mov_id = i, mov_workspace = 1, mov_inventory = i, mov_part = 10, mov_color = 5,
      mov_type = ''InitialAdd'', mov_quantity = quantity, mov_from = 0, mov_to = location,
      mov_condition = ''Used'', mov_ownership = ''Owned'', mov_ref_type = [], mov_ref_id = [],
      mov_notes = []\<rparr>"

definition sample_build :: "int \<Rightarrow> string \<Rightarrow> string \<Rightarrow> build_row" where
  "sample_build i mode status =
     \<lparr>bld_id = i, bld_workspace = 1, bld_type = ''Set'', bld_name = ''Castle'',
      bld_set_number = ''375-2'', bld_mode = mode, bld_status = status, bld_active = True,
      bld_notes = [], bld_manufacturer = 1, bld_minifig = 0, bld_set_catalog = 0\<rparr>"

definition sample_requirement :: "int \<Rightarrow> int \<Rightarrow> int \<Rightarrow> int \<Rightarrow> requirement_row" where
  "sample_requirement i build required pulled =
     \<lparr>req_id = i, req_build = build, req_part = 10, req_color = 5, req_sub_part = 0,
      req_sub_color = 0, req_required = required, req_pulled = pulled, req_released = 0,
      req_spare = False\<rparr>"

definition sample_allocation :: allocation_row where
  "sample_allocation = \<lparr>alloc_id = 1, alloc_build = 1, alloc_requirement = 1, alloc_inventory = 1,
     alloc_part = 10, alloc_color = 5, alloc_storage = 1, alloc_quantity = 5\<rparr>"

definition sample_location :: "int \<Rightarrow> int \<Rightarrow> storage_row" where
  "sample_location i parent = \<lparr>sto_id = i, sto_workspace = 1, sto_parent = parent, sto_type = 1,
     sto_name = ''Drawer'', sto_description = [], sto_sort = 0, sto_active = True,
     sto_allows_inventory = True, sto_allows_collection = True, sto_modified = 0\<rparr>"

definition sample :: tables where
  "sample = empty_tables\<lparr>
     inventory := [sample_row 1 1 1 20, sample_row 2 2 2 6],
     movements := [sample_movement 1 1 20, sample_movement 2 2 6],
     builds := [sample_build 1 ''Stock'' ''Pulling'', sample_build 2 ''CompleteSet'' ''Complete''],
     requirements := [sample_requirement 1 1 8 0, sample_requirement 2 2 4 0],
     allocations := [sample_allocation],
     storage := [sample_location 1 0, sample_location 2 1],
     workspaces := [\<lparr>wsp_id = 1, wsp_active = True\<rparr>],
     set_catalog := [\<lparr>sct_id = 7, sct_number = ''375-2'', sct_name = ''Castle''\<rparr>],
     location_types := [\<lparr>typ_id = 1, typ_active = True\<rparr>], colors := [5], color_numbers := [(5, 4)],
     parts := [\<lparr>part_id = 10, part_number = ''3001'', part_active = True\<rparr>,
       \<lparr>part_id = 11, part_number = ''3002'', part_active = True\<rparr>],
     manufacturers := [\<lparr>man_id = 1, man_code = ''LEGO'', man_name = ''LEGO'', man_active = True\<rparr>, \<lparr>man_id = 2, man_code = ''GB'', man_name = ''Gobricks'', man_active = True\<rparr>],
     seq_inventory := 2, seq_movement := 2, seq_build := 2, seq_requirement := 2,
     seq_allocation := 1, seq_storage := 2\<rparr>"

lemmas sample_defs = sample_def sample_row_def sample_movement_def sample_build_def
  sample_requirement_def sample_allocation_def sample_location_def empty_tables_def

lemma sample_constraints: "constraints sample"
  by (simp add: constraint_defs sample_defs)

end
