(* ===== verification/InventoryBooks.thy ===== *)
theory InventoryBooks
  imports InventoryLedger Sample
begin

text \<open>
  The promises of the inventory as a whole: every quantity is accounted for by the movement
  history, Found never exceeds Lost, whatever sequence of operations runs and whichever
  statements of the database fail; failed operations leave no trace; and the exact effect of the
  single operations.
\<close>

section \<open>Transactions\<close>

interpretation add_body: transaction_body
    "add_or_increase_in_current_transaction r ty rt ri msg" got for r ty rt ri msg
  by unfold_locales (rule keeps_rules)

interpretation edit_body: transaction_body
    "update_or_merge_in_current_transaction r" got for r
  by unfold_locales (rule keeps_rules)

interpretation correct_body: transaction_body
    "correct_entry_in_current_transaction i p q msg" "\<lambda>ok. ok" for i p q msg
  by unfold_locales (rule keeps_rules)

interpretation remove_body: transaction_body
    "remove_entry_in_current_transaction i q msg" succeeds for i q msg
  by unfold_locales (rule keeps_rules)

interpretation move_body: transaction_body
    "move_inventory_in_current_transaction i d q" got for i d q
  by unfold_locales (rule keeps_rules)

interpretation lost_body: transaction_body
    "mark_lost_in_current_transaction i q msg" "\<lambda>ok. ok" for i q msg
  by unfold_locales (rule keeps_rules)

interpretation found_body: transaction_body
    "mark_found_in_current_transaction ws p c q d cond own msg" got
    for ws p c q d cond own msg
  by unfold_locales (rule keeps_rules)

text \<open>
  \<open>setQuantityWithMovement\<close> writes its transaction out by hand. It is the shared pattern, except
  that a call with nothing to change ignores what the commit answered.
\<close>

lemma set_quantity_managed_run:
  assumes "run_state (set_quantity_with_movement_managed i q ty rt ri notes) s = (r, s')"
    "saved s = None"
  shows "(tables s' = tables s \<and> (saved s' = None \<or> saved s' = Some (tables s)))
    \<or> (r \<and> saved s' = None \<and> (\<exists>u u'. tables u = tables s \<and> tables u' = tables s' \<and>
         run_state (set_quantity_with_movement i q ty rt ri notes) u = (True, u')))"
proof -
  let ?b = "(tick s)\<lparr>saved := Some (tables s)\<rparr>"
  obtain found s1 where get: "run_state (inventory_get i) ?b = (found, s1)" by fastforce
  from readsD [OF reads_inventory_get(3) get]
  have s1: "tables s1 = tables s" "saved s1 = Some (tables s)" by simp_all
  let ?t = "snd (update_inventory i (set_quantity q) (tables s))"
  let ?s2 = "(tick s1)\<lparr>tables := ?t\<rparr>"
  show ?thesis
  proof (cases "i \<le> 0 \<or> q < 0 \<or> fails_next s \<or> found = None \<or>
      (\<exists>row. found = Some row \<and> q - inv_quantity row = 0) \<or> fails_next s1 \<or> \<not> constraints ?t
      \<or> fst (update_inventory i (set_quantity q) (tables s)) = 0")
    case True
    with assms get s1 show ?thesis
      by (auto simp: set_quantity_with_movement_managed_def run_simps split: if_splits option.splits)
  next
    case False
    then obtain row where row: "found = Some row" by auto
    let ?m = "adjustment_movement row (q - inv_quantity row) ty rt ri notes"
    obtain ok s3 where mov: "run_state (movement_create ?m) ?s2 = (ok, s3)" by fastforce
    with keepsD [OF keeps_movement_create mov] s1 have s3: "saved s3 = Some (tables s)" by simp
    have body: "run_state (set_quantity_with_movement i q ty rt ri notes) ?b = (ok, s3)"
      using False row get mov s1 by (simp add: set_quantity_with_movement_def run_simps)
    have "run_state (set_quantity_with_movement_managed i q ty rt ri notes) s
      = (if \<not> ok then (False, s3\<lparr>tables := tables s, saved := None\<rparr>)
         else if fails_next s3 then (False, (tick s3)\<lparr>tables := tables s, saved := None\<rparr>)
         else (True, (tick s3)\<lparr>saved := None\<rparr>))"
      using False row get mov s1 s3 assms(2)
      by (simp add: set_quantity_with_movement_managed_def run_simps)
    moreover from body have "ok \<Longrightarrow> \<exists>u u'. tables u = tables s \<and> tables u' = tables s3 \<and>
        run_state (set_quantity_with_movement i q ty rt ri notes) u = (True, u')"
      by (intro exI [of _ ?b] exI [of _ s3]) simp
    ultimately show ?thesis
      using assms(1) by (auto split: if_splits)
  qed
qed

section \<open>The books\<close>

text \<open>
  The pieces of a part and color in a workspace, and what the movement history says there should
  be: the sum of the quantity changes. A Move and a Merge are no change of quantity; their
  \<open>quantity_change\<close> is the number of pieces concerned.
\<close>

definition pieces :: "int \<Rightarrow> int \<Rightarrow> int \<Rightarrow> tables \<Rightarrow> int" where
  "pieces ws p c = stock (\<lambda>k. fst k = ws \<and> fst (snd k) = p \<and> fst (snd (snd k)) = c)"

definition changes_quantity :: "movement_row \<Rightarrow> bool" where
  "changes_quantity m \<longleftrightarrow> mov_type m \<notin> {''Move'', ''Merge''}"

definition counted :: "int \<Rightarrow> int \<Rightarrow> int \<Rightarrow> movement_row \<Rightarrow> bool" where
  "counted ws p c m \<longleftrightarrow> mov_workspace m = ws \<and> mov_part m = p \<and> mov_color m = c
     \<and> changes_quantity m"

definition ledger :: "int \<Rightarrow> int \<Rightarrow> int \<Rightarrow> tables \<Rightarrow> int" where
  "ledger ws p c t = sum_where mov_quantity (counted ws p c) (movements t)"

definition reconciled :: "tables \<Rightarrow> bool" where
  "reconciled t \<longleftrightarrow> (\<forall>ws p c. pieces ws p c t = ledger ws p c t)"

definition lost_covered :: "tables \<Rightarrow> bool" where
  "lost_covered t \<longleftrightarrow> (\<forall>ws p c. 0 \<le> outstanding_lost ws p c t)"

definition books :: "tables \<Rightarrow> bool" where
  "books t \<longleftrightarrow> constraints t \<and> quantities_fit t \<and> reconciled t \<and> lost_covered t"

text \<open>One movement that accounts for the pieces a write added.\<close>

lemma books_add:
  assumes "books t" "constraints t'" "quantities_fit t'" "adds k n t t'"
    "movements t' = movements t @ [m]"
    "mov_workspace m = fst k" "mov_part m = fst (snd k)" "mov_color m = fst (snd (snd k))"
    "mov_quantity m = n" "mov_type m \<notin> {''Move'', ''Merge''}"
    "mov_type m = ''Lost'' \<Longrightarrow> n \<le> 0"
    "mov_type m = ''Found'' \<Longrightarrow> n \<le> outstanding_lost (fst k) (fst (snd k)) (fst (snd (snd k))) t"
  shows "books t'"
proof -
  have "pieces ws p c t' = ledger ws p c t'" for ws p c
    using assms addsD [OF assms(4), of "\<lambda>k. fst k = ws \<and> fst (snd k) = p \<and> fst (snd (snd k)) = c"]
    by (auto simp: pieces_def ledger_def books_def reconciled_def counted_def changes_quantity_def)
  moreover have "0 \<le> outstanding_lost ws p c t'" for ws p c
  proof -
    have "0 \<le> outstanding_lost ws p c t" using assms(1) by (simp add: books_def lost_covered_def)
    with assms show ?thesis by (auto simp: outstanding_lost_def)
  qed
  ultimately show ?thesis
    using assms(2,3) by (simp add: books_def reconciled_def lost_covered_def)
qed

text \<open>Movement types a caller may pass for an addition or an adjustment.\<close>

definition plain_type :: "string \<Rightarrow> bool" where
  "plain_type ty \<longleftrightarrow> trimmed ty \<notin> {''Move'', ''Merge'', ''Lost'', ''Found''}"

lemma addition_movement_simps [simp]:
  "mov_workspace (addition_movement r existed n ty rt ri notes) = inv_workspace r"
  "mov_part (addition_movement r existed n ty rt ri notes) = inv_part r"
  "mov_color (addition_movement r existed n ty rt ri notes) = inv_color r"
  "mov_quantity (addition_movement r existed n ty rt ri notes) = n"
  by (simp_all add: addition_movement_def)

lemma adjustment_movement_simps [simp]:
  "mov_workspace (adjustment_movement r n ty rt ri notes) = inv_workspace r"
  "mov_part (adjustment_movement r n ty rt ri notes) = inv_part r"
  "mov_color (adjustment_movement r n ty rt ri notes) = inv_color r"
  "mov_quantity (adjustment_movement r n ty rt ri notes) = n"
  by (simp_all add: adjustment_movement_def)

lemma adjustment_type:
  "plain_type ty \<Longrightarrow> mov_type (adjustment_movement r n ty rt ri notes)
    \<notin> {''Move'', ''Merge'', ''Lost'', ''Found''}"
  by (simp add: plain_type_def adjustment_movement_def)

lemma addition_type:
  "plain_type ty \<Longrightarrow> mov_type (addition_movement r existed n ty rt ri notes)
    \<notin> {''Move'', ''Merge'', ''Lost'', ''Found''}"
  by (simp add: plain_type_def addition_movement_def)

lemma identity_components [simp]:
  "fst (inventory_identity r) = inv_workspace r" "fst (snd (inventory_identity r)) = inv_part r"
  "fst (snd (snd (inventory_identity r))) = inv_color r"
  by (simp_all add: inventory_identity_def)

lemma books_set_quantity:
  assumes "run_state (set_quantity_with_movement i q ty rt ri notes) s = (True, s')"
    "books (tables s)" "q \<le> int_max" "plain_type ty"
  shows "books (tables s')"
proof -
  from assms(2) have c: "constraints (tables s)" "quantities_fit (tables s)" by (simp_all add: books_def)
  show ?thesis
  proof (rule set_quantity_with_movement_effect [OF assms(1) c(1)])
    fix row
    assume effect: "adds (inventory_identity row) (q - inv_quantity row) (tables s) (tables s')"
      "constraints (tables s')"
      "quantities_fit (tables s) \<Longrightarrow> q \<le> int_max \<Longrightarrow> quantities_fit (tables s')"
      "movements (tables s') = movements (tables s) @ (if q = inv_quantity row then []
        else [logged (seq_movement (tables s) + 1)
          (adjustment_movement row (q - inv_quantity row) ty rt ri notes)])"
    show ?thesis
    proof (cases "q = inv_quantity row")
      case True
      with effect assms(2,3) c show ?thesis
        by (auto simp: books_def reconciled_def lost_covered_def pieces_def ledger_def
            outstanding_lost_def adds_def)
    next
      case False
      with effect assms(3,4) c show ?thesis
        by (intro books_add [OF assms(2) effect(2) _ effect(1)])
          (auto dest: adjustment_type)
    qed
  qed
qed

lemma plain_types [simp]:
  "plain_type ''CorrectionRemoved''" "plain_type ''CorrectionAdded''" "plain_type ''EntryRemoved''"
  by (simp_all add: plain_type_def trimmed_def is_space_def)

lemma books_add_or_increase:
  assumes "run_state (add_or_increase_in_current_transaction r ty rt ri notes) s
      = (Some (after, result), s')"
    "books (tables s)" "inv_quantity r \<le> int_max" "plain_type ty"
  shows "books (tables s')"
proof -
  from assms(2) have c: "constraints (tables s)" "quantities_fit (tables s)" by (simp_all add: books_def)
  show ?thesis
  proof (rule add_or_increase_effect [OF assms(1) c assms(3)])
    fix manufacturer existed
    assume a: "adds (inventory_identity (bound_inventory (r\<lparr>inv_manufacturer := manufacturer\<rparr>)))
        (inv_quantity r) (tables s) (tables s')"
      and t': "constraints (tables s')" "quantities_fit (tables s')"
        "movements (tables s') = movements (tables s) @ [logged (seq_movement (tables s) + 1)
          (addition_movement after existed (inv_quantity r) ty rt ri notes)]"
      and after: "after = r\<lparr>inv_manufacturer := manufacturer, inv_id := inv_id after,
          inv_quantity := inv_quantity after\<rparr>"
    from t' assms(4) same_piece [OF after] show ?thesis
      by (intro books_add [OF assms(2) t'(1,2) a])
        (auto simp: bound_inventory_def dest: addition_type)
  qed
qed

lemma lost_movement_simps [simp]:
  "mov_workspace (lost_movement r n notes) = inv_workspace r"
  "mov_part (lost_movement r n notes) = inv_part r"
  "mov_color (lost_movement r n notes) = inv_color r"
  "mov_quantity (lost_movement r n notes) = - n" "mov_type (lost_movement r n notes) = ''Lost''"
  by (simp_all add: lost_movement_def)

lemma books_mark_lost:
  assumes "run_state (mark_lost_in_current_transaction i q notes) s = (True, s')" "books (tables s)"
  shows "books (tables s')"
proof -
  from assms(2) have c: "constraints (tables s)" "quantities_fit (tables s)" by (simp_all add: books_def)
  show ?thesis
  proof (rule mark_lost_effect [OF assms(1) c])
    fix row
    assume "0 < q" "adds (inventory_identity row) (- q) (tables s) (tables s')"
      "constraints (tables s')" "quantities_fit (tables s')"
      "movements (tables s') = movements (tables s) @
        [logged (seq_movement (tables s) + 1) (lost_movement row q notes)]"
    then show ?thesis by (intro books_add [OF assms(2)]) auto
  qed
qed

lemma books_mark_found:
  assumes "run_state (mark_found_in_current_transaction ws p c q d cond own notes) s = (Some result, s')"
    "books (tables s)" "q \<le> int_max"
  shows "books (tables s')"
proof -
  from assms(2) have c: "constraints (tables s)" "quantities_fit (tables s)" by (simp_all add: books_def)
  have ty: "mov_type (addition_movement after existed q ''Found'' [] [] n) = ''Found''" for after existed n
    by (simp add: addition_movement_def trimmed_def is_space_def)
  show ?thesis
  proof (rule mark_found_effect [OF assms(1) c assms(3)])
    fix manufacturer existed after
    assume "q \<le> int32 (outstanding_lost ws p c (tables s))"
      "adds (ws, p, c, d, manufacturer, trimmed cond, trimmed own) q (tables s) (tables s')"
      "constraints (tables s')" "quantities_fit (tables s')"
      "movements (tables s') = movements (tables s) @ [logged (seq_movement (tables s) + 1)
        (addition_movement after existed q ''Found'' [] [] (trimmed notes))]"
      "inv_workspace after = ws" "inv_part after = p" "inv_color after = c"
    then show ?thesis using int32_le [of "outstanding_lost ws p c (tables s)"] assms(2)
      by (intro books_add [OF assms(2)]) (auto simp: ty books_def lost_covered_def intro: order_trans)
  qed
qed

lemma books_remove_entry:
  assumes "run_state (remove_entry_in_current_transaction i q notes) s = (Inr (), s')" "books (tables s)"
  shows "books (tables s')"
proof -
  from assms(2) have c: "constraints (tables s)" "quantities_fit (tables s)" by (simp_all add: books_def)
  show ?thesis
  proof (rule remove_entry_effect [OF assms(1) c])
    fix row r n
    assume "adds (inventory_identity row) (- q) (tables s) (tables s')" "constraints (tables s')"
      "quantities_fit (tables s')"
      "movements (tables s') = movements (tables s) @ [logged (seq_movement (tables s) + 1)
        (adjustment_movement row (- q) ''EntryRemoved'' ''Correction'' r n)]"
    then show ?thesis
      using adjustment_type [OF plain_types(3), of row "- q" "''Correction''" r n]
      by (intro books_add [OF assms(2)]) auto
  qed
qed

lemma books_correct_entry:
  assumes "run_state (correct_entry_in_current_transaction i p q notes) s = (True, s')" "books (tables s)"
  shows "books (tables s')"
proof (rule correct_entry_stages [OF assms(1)])
  fix row r1 n1 r2 n2 s2 s3 after added
  assume row: "find (\<lambda>r. inv_id r = i) (inventory (tables s)) = Some row" "0 < q" "q \<le> inv_quantity row"
    and sub: "run_state (set_quantity_with_movement i (inv_quantity row - q)
      ''CorrectionRemoved'' ''Part'' r1 n1) s2 = (True, s3)"
    and add: "run_state (add_or_increase_in_current_transaction
      (row\<lparr>inv_id := 0, inv_part := p, inv_quantity := q\<rparr>) ''CorrectionAdded'' ''Part'' r2 n2) s3
      = (Some (after, added), s')"
    and s2: "tables s2 = tables s"
  from inv.lookup_SomeD [OF row(1)] assms(2) have "inv_quantity row \<le> int_max"
    by (auto simp: books_def quantities_fit_def)
  moreover have "books (tables s2)" using assms(2) s2 by simp
  ultimately have "books (tables s3)"
    using row(2,3) by (intro books_set_quantity [OF sub]) auto
  with \<open>inv_quantity row \<le> int_max\<close> row(3) show ?thesis
    by (intro books_add_or_increase [OF add]) auto
qed

lemma move_movement_simps [simp]:
  "mov_workspace (move_movement r d n) = inv_workspace r" "mov_part (move_movement r d n) = inv_part r"
  "mov_color (move_movement r d n) = inv_color r" "mov_type (move_movement r d n) = ''Move''"
  by (simp_all add: move_movement_def)

lemma books_move:
  assumes "run_state (move_inventory_in_current_transaction i d q) s = (Some result, s')" "books (tables s)"
  shows "books (tables s')"
proof -
  from assms(2) have c: "constraints (tables s)" "quantities_fit (tables s)" by (simp_all add: books_def)
  show ?thesis
  proof (rule move_inventory_effect [OF assms(1) c])
    fix row
    assume stock: "\<And>Q. stock Q (tables s') = stock Q (tables s)
        + (if Q (inventory_identity (relocated d row)) then q else 0)
        - (if Q (inventory_identity row) then q else 0)"
      and t': "constraints (tables s')" "quantities_fit (tables s')"
        "movements (tables s') = movements (tables s) @
          [logged (seq_movement (tables s) + 1) (move_movement row d q)]"
    have "pieces ws p c (tables s') = pieces ws p c (tables s)" for ws p c
      by (simp add: pieces_def stock relocated_def)
    moreover have "ledger ws p c (tables s') = ledger ws p c (tables s)" for ws p c
      by (simp add: ledger_def t' counted_def changes_quantity_def)
    moreover have "outstanding_lost ws p c (tables s') = outstanding_lost ws p c (tables s)" for ws p c
      by (simp add: outstanding_lost_def t')
    ultimately show ?thesis using t'(1,2) assms(2)
      by (simp add: books_def reconciled_def lost_covered_def)
  qed
qed

section \<open>Every sequence of operations\<close>

text \<open>
  The calls a client makes on the repository, each in its own transaction. The quantities are
  C++ \<open>int\<close> values, and an addition or an adjustment names a plain movement type.
\<close>

datatype stock_call =
    AddOrIncrease inventory_row string string string string
  | SetQuantity int int string string string string
  | CorrectEntry int int int string
  | RemoveEntry int int string
  | MoveInventory int int int
  | MarkLost int int string
  | MarkFound int int int int int string string string

fun permitted :: "stock_call \<Rightarrow> bool" where
  "permitted (AddOrIncrease r ty rt ri n) \<longleftrightarrow> inv_quantity r \<le> int_max \<and> plain_type ty"
| "permitted (SetQuantity i q ty rt ri n) \<longleftrightarrow> q \<le> int_max \<and> plain_type ty"
| "permitted (MarkFound ws p c q d cond own n) \<longleftrightarrow> q \<le> int_max"
| "permitted _ \<longleftrightarrow> True"

fun call_stock :: "stock_call \<Rightarrow> (session, bool) state" where
  "call_stock (AddOrIncrease r ty rt ri n) = do { x \<leftarrow> add_or_increase r ty rt ri n True; ret (got x) }"
| "call_stock (SetQuantity i q ty rt ri n) = set_quantity_with_movement_managed i q ty rt ri n"
| "call_stock (CorrectEntry i p q n) = correct_entry i p q n"
| "call_stock (RemoveEntry i q n) = do { x \<leftarrow> remove_entry i q n; ret (succeeds x) }"
| "call_stock (MoveInventory i d q) = do { x \<leftarrow> move_inventory i d q; ret (got x) }"
| "call_stock (MarkLost i q n) = mark_lost i q n"
| "call_stock (MarkFound ws p c q d cond own n) =
     do { x \<leftarrow> mark_found ws p c q d cond own n; ret (got x) }"

inductive stock_reachable :: "tables \<Rightarrow> tables \<Rightarrow> bool" for t where
  start: "stock_reachable t t"
| step: "stock_reachable t t1 \<Longrightarrow> permitted c \<Longrightarrow> tables s = t1 \<Longrightarrow> saved s = None \<Longrightarrow>
    run_state (call_stock c) s = (r, s') \<Longrightarrow> stock_reachable t (tables s')"

text \<open>One call, whatever statement fails: the books stay right, and a failed call changes nothing.\<close>

lemma transactional_books:
  assumes body: "keeps_connection body"
    and run: "run_state (transactional ok e e body) s = (r, s')" "saved s = None" "\<not> ok e"
    and step: "\<And>u u'. tables u = tables s \<Longrightarrow> run_state body u = (r, u') \<Longrightarrow> ok r \<Longrightarrow> books (tables u')"
    and "books (tables s)"
  shows "books (tables s') \<and> (\<not> ok r \<longrightarrow> tables s' = tables s)"
  using transaction_body.outcome [OF transaction_body.intro [OF body] run(1,2,3,3)] assms(6) step
  by (auto split: if_splits)

lemma call_atomic:
  assumes "run_state (call_stock c) s = (False, s')" "saved s = None"
  shows "tables s' = tables s"
proof (cases c)
  case (AddOrIncrease rec ty rt ri n)
  with assms show ?thesis
    by (auto simp: run_simps add_or_increase_def split: prod.splits dest!: add_body.atomic)
next
  case (SetQuantity i q ty rt ri n)
  with assms show ?thesis by (auto dest!: set_quantity_managed_run)
next
  case (CorrectEntry i p q n)
  with assms show ?thesis by (auto simp: correct_entry_def dest!: correct_body.atomic)
next
  case (RemoveEntry i q n)
  with assms show ?thesis
    by (auto simp: run_simps remove_entry_def split: prod.splits dest!: remove_body.atomic)
next
  case (MoveInventory i d q)
  with assms show ?thesis
    by (auto simp: run_simps move_inventory_def split: prod.splits dest!: move_body.atomic)
next
  case (MarkLost i q n)
  with assms show ?thesis by (auto simp: mark_lost_def dest!: lost_body.atomic)
next
  case (MarkFound ws p c' q d cond own n)
  with assms show ?thesis
    by (auto simp: run_simps mark_found_def split: prod.splits dest!: found_body.atomic)
qed

lemma call_books:
  assumes "run_state (call_stock c) s = (r, s')" "saved s = None" "permitted c" "books (tables s)"
  shows "books (tables s') \<and> (\<not> r \<longrightarrow> tables s' = tables s)"
proof (cases c)
  case (AddOrIncrease rec ty rt ri n)
  obtain x where x: "run_state (add_or_increase rec ty rt ri n True) s = (x, s')" "r = got x"
    using assms(1) AddOrIncrease by (auto simp: run_simps split: prod.splits)
  show ?thesis
    using transactional_books [OF keeps_add_or_increase x(1) [unfolded add_or_increase_def, simplified]
        assms(2)] books_add_or_increase assms(3,4) x(2) AddOrIncrease
    by (fastforce simp: got_def)
next
  case (SetQuantity i q ty rt ri n)
  then have "run_state (set_quantity_with_movement_managed i q ty rt ri n) s = (r, s')"
    using assms(1) by simp
  from set_quantity_managed_run [OF this assms(2)] assms(3,4) SetQuantity show ?thesis
    by (metis books_set_quantity permitted.simps(2))
next
  case (CorrectEntry i p q n)
  then show ?thesis
    using transactional_books [OF keeps_correct_entry _ assms(2), of "\<lambda>ok. ok" False i p q n r s']
      books_correct_entry assms
    by (fastforce simp: correct_entry_def)
next
  case (RemoveEntry i q n)
  obtain x where x: "run_state (remove_entry i q n) s = (x, s')" "r = succeeds x"
    using assms(1) RemoveEntry by (auto simp: run_simps split: prod.splits)
  show ?thesis
    using transactional_books [OF keeps_remove_entry x(1) [unfolded remove_entry_def] assms(2)]
      books_remove_entry assms(4) x(2)
    by (fastforce simp: succeeds_iff)
next
  case (MoveInventory i d q)
  obtain x where x: "run_state (move_inventory i d q) s = (x, s')" "r = got x"
    using assms(1) MoveInventory by (auto simp: run_simps split: prod.splits)
  show ?thesis
    using transactional_books [OF keeps_move_inventory x(1) [unfolded move_inventory_def] assms(2)]
      books_move assms(4) x(2)
    by (fastforce simp: got_def)
next
  case (MarkLost i q n)
  then show ?thesis
    using transactional_books [OF keeps_mark_lost _ assms(2), of "\<lambda>ok. ok" False i q n r s']
      books_mark_lost assms
    by (fastforce simp: mark_lost_def)
next
  case (MarkFound ws p c' q d cond own n)
  obtain x where x: "run_state (mark_found ws p c' q d cond own n) s = (x, s')" "r = got x"
    using assms(1) MarkFound by (auto simp: run_simps split: prod.splits)
  show ?thesis
    using transactional_books [OF keeps_mark_found x(1) [unfolded mark_found_def] assms(2)]
      books_mark_found assms(3,4) x(2) MarkFound
    by (fastforce simp: got_def)
qed

section \<open>Properties\<close>

text \<open>
  Property C1. Whatever sequence of inventory operations runs, and whichever of their database
  statements fail, the books stay right: every quantity is non-negative, fits 32 bits and equals
  what the movement history adds up to, the schema constraints hold, and no more pieces were
  Found than had been Lost.
\<close>

theorem stock_calls_keep_books: "stock_reachable t t' \<Longrightarrow> books t \<Longrightarrow> books t'"
  by (induction rule: stock_reachable.induct) (use call_books in blast)+

lemma books_sample: "books sample"
proof -
  have "pieces ws p c sample = ledger ws p c sample" for ws p c
    by (simp add: pieces_def stock_def ledger_def counted_def changes_quantity_def sample_defs inventory_identity_def)
  moreover have "0 \<le> outstanding_lost ws p c sample" for ws p c
    by (simp add: outstanding_lost_def sample_defs)
  moreover have "quantities_fit sample"
    by (simp add: quantities_fit_def sample_defs int_max_def)
  ultimately show ?thesis
    by (simp add: books_def sample_constraints reconciled_def lost_covered_def)
qed

lemma sample_call:
  "permitted c \<Longrightarrow> stock_reachable sample (tables (snd (run_state (call_stock c) (connect sample))))"
  by (rule stock_reachable.step [OF stock_reachable.start, where s = "connect sample" and c = c])
    (simp_all add: prod_eq_iff)

theorem stock_calls_keep_books_witness:
  "books (tables (snd (run_state (call_stock (MarkLost 1 3 [])) (connect sample))))
   \<and> fst (run_state (call_stock (MarkLost 1 3 [])) (connect sample))"
proof
  show "books (tables (snd (run_state (call_stock (MarkLost 1 3 [])) (connect sample))))"
    by (rule stock_calls_keep_books [OF sample_call books_sample]) simp
  show "fst (run_state (call_stock (MarkLost 1 3 [])) (connect sample))"
    by code_simp
qed

text \<open>
  Property C5. An inventory operation that reports failure (a rejected argument, a failed
  statement at any point, a failed commit) leaves every table as it was.
\<close>

theorem failed_stock_call_changes_nothing:
  "run_state (call_stock c) s = (False, s') \<Longrightarrow> saved s = None \<Longrightarrow> tables s' = tables s"
  by (rule call_atomic)

text \<open>A move whose last statement, the commit, fails: everything it wrote is rolled back.\<close>

theorem failed_stock_call_changes_nothing_witness:
  "tables (snd (run_state (call_stock (MoveInventory 1 2 3))
     ((connect sample)\<lparr>faults := replicate 7 False @ [True]\<rparr>))) = sample"
proof -
  have "fst (run_state (call_stock (MoveInventory 1 2 3))
     ((connect sample)\<lparr>faults := replicate 7 False @ [True]\<rparr>)) = False" by code_simp
  then show ?thesis
    using failed_stock_call_changes_nothing [of "MoveInventory 1 2 3"
        "(connect sample)\<lparr>faults := replicate 7 False @ [True]\<rparr>"]
    by (simp add: prod_eq_iff)
qed

text \<open>
  Property C6. Moving \<open>q\<close> pieces takes exactly \<open>q\<close> from the source record and adds exactly \<open>q\<close>
  to the record with the same workspace, part, color, manufacturer, condition and ownership at
  the destination; no other record changes, the history gets exactly one row, the Move of \<open>q\<close> pieces of
  the source record to the destination, and no other table changes. The destination
  is an active location of the same workspace and the source held at least \<open>q\<close> pieces.
\<close>

theorem move_inventory_exact:
  assumes "run_state (move_inventory i d q) s = (Some result, s')" "saved s = None"
    "constraints (tables s)" "quantities_fit (tables s)"
  shows "\<exists>row. find (\<lambda>r. inv_id r = i) (inventory (tables s)) = Some row
    \<and> 0 < q \<and> q \<le> inv_quantity row
    \<and> (\<forall>Q. stock Q (tables s') = stock Q (tables s)
          + (if Q (inventory_identity (row\<lparr>inv_storage := d\<rparr>)) then q else 0)
          - (if Q (inventory_identity row) then q else 0))
    \<and> on_hand i (tables s') = on_hand i (tables s) - q
    \<and> only_inventory (tables s) (tables s')
    \<and> movements (tables s') = movements (tables s)
        @ [logged (seq_movement (tables s) + 1) (move_movement row d q)]
    \<and> (\<exists>l\<in>set (storage (tables s)). sto_id l = d \<and> sto_active l
          \<and> sto_workspace l = inv_workspace row)"
proof -
  obtain u u' where u: "tables u = tables s" "tables s' = tables u'"
    "run_state (move_inventory_in_current_transaction i d q) u = (Some result, u')"
    by (rule move_body.effect [OF assms(1) [unfolded move_inventory_def] assms(2)]) auto
  show ?thesis
    by (rule move_inventory_effect [OF u(3)])
      (use assms(3,4) u in \<open>auto simp: relocated_def\<close>)
qed

theorem move_inventory_exact_witness:
  "\<exists>row s'. run_state (move_inventory 1 2 3) (connect sample) = (Some \<lparr>mvr_source = 1,
      mvr_destination = 3, mvr_moved = 3, mvr_source_quantity = 17, mvr_destination_quantity = 3,
      mvr_created = True\<rparr>, s')
    \<and> stock (\<lambda>k. k = inventory_identity (row\<lparr>inv_storage := 2\<rparr>)) (tables s') = 3"
proof -
  let ?r = "\<lparr>mvr_source = 1, mvr_destination = 3, mvr_moved = 3, mvr_source_quantity = 17,
    mvr_destination_quantity = 3, mvr_created = True\<rparr> :: move_result"
  let ?s' = "snd (run_state (move_inventory 1 2 3) (connect sample))"
  have "fst (run_state (move_inventory 1 2 3) (connect sample)) = Some ?r" by code_simp
  then have run: "run_state (move_inventory 1 2 3) (connect sample) = (Some ?r, ?s')"
    by (simp add: prod_eq_iff)
  from move_inventory_exact [OF run] books_sample obtain row where
    row: "find (\<lambda>r. inv_id r = 1) (inventory sample) = Some row" and
    st: "\<And>Q. stock Q (tables ?s') = stock Q sample
      + (if Q (inventory_identity (row\<lparr>inv_storage := 2\<rparr>)) then 3 else 0)
      - (if Q (inventory_identity row) then 3 else 0)"
    by (auto simp: books_def)
  from row have "row = sample_row 1 1 1 20" by (simp add: sample_defs)
  with run st [of "\<lambda>k. k = inventory_identity (row\<lparr>inv_storage := 2\<rparr>)"] show ?thesis
    by (intro exI [of _ row] exI [of _ ?s'])
      (simp add: stock_def sample_defs inventory_identity_def)
qed

text \<open>
  Adding pieces adds exactly the requested quantity to exactly one record, the one
  with the trimmed identity of the request (its manufacturer, or LEGO when none is given). The
  32-bit sum the code computes is the exact sum whenever the call succeeds: an overflow comes
  out negative and the CHECK of the schema refuses it.
\<close>

theorem add_or_increase_exact:
  assumes "run_state (add_or_increase record ty rt ri notes True) s = (Some (after, result), s')"
    "saved s = None" "constraints (tables s)" "quantities_fit (tables s)"
    "inv_quantity record \<le> int_max"
  shows "\<exists>manufacturer. 0 < manufacturer
    \<and> (0 < inv_manufacturer record \<longrightarrow> manufacturer = inv_manufacturer record)
    \<and> (\<forall>Q. stock Q (tables s') = stock Q (tables s)
         + (if Q (inventory_identity (bound_inventory (record\<lparr>inv_manufacturer := manufacturer\<rparr>)))
            then inv_quantity record else 0))
    \<and> only_inventory (tables s) (tables s')
    \<and> (\<forall>j. on_hand j (tables s) \<le> on_hand j (tables s'))
    \<and> quantities_fit (tables s')"
proof -
  obtain u u' where u: "tables u = tables s" "tables s' = tables u'"
    "run_state (add_or_increase_in_current_transaction record ty rt ri notes) u
      = (Some (after, result), u')"
    by (rule add_body.effect [OF assms(1) [unfolded add_or_increase_def, simplified] assms(2)]) auto
  show ?thesis
    by (rule add_or_increase_effect [OF u(3)])
      (use assms(3-5) u in \<open>auto simp: adds_def\<close>)
qed

theorem add_or_increase_exact_witness:
  "stock (\<lambda>k. k = inventory_identity (sample_row 0 1 1 0)) (tables (snd (run_state
     (add_or_increase (sample_row 0 1 0 4) [] [] [] [] True) (connect sample)))) = 24"
proof -
  let ?run = "run_state (add_or_increase (sample_row 0 1 0 4) [] [] [] [] True) (connect sample)"
  have run: "map_option (\<lambda>x. (inv_manufacturer (fst x), add_quantity (snd x))) (fst ?run) = Some (1, 24)"
    by code_simp
  then obtain after result where r: "?run = (Some (after, result), snd ?run)"
    by (cases "fst ?run") (auto simp: prod_eq_iff)
  have q: "inv_quantity (sample_row 0 1 0 4) = 4" by (simp add: sample_row_def)
  from add_or_increase_exact [OF r] books_sample obtain m where m:
    "\<And>Q. stock Q (tables (snd ?run)) = stock Q sample + (if Q (inventory_identity
       (bound_inventory ((sample_row 0 1 0 4)\<lparr>inv_manufacturer := m\<rparr>)))
         then inv_quantity (sample_row 0 1 0 4) else 0)"
    by (auto simp: books_def q int_max_def)
  have "stock (\<lambda>k. k = inventory_identity (sample_row 0 1 1 0)) (tables (snd ?run)) = 24"
    by code_simp
  with m [of "\<lambda>k. k = inventory_identity (sample_row 0 1 1 0)"] show ?thesis by simp
qed

text \<open>
  Removing an entry as a correction never takes pieces a Build has reserved: after
  a successful removal the record still holds at least what is allocated from it.
\<close>

theorem remove_entry_respects_allocations:
  assumes "run_state (remove_entry i q notes) s = (Inr (), s')" "saved s = None"
    "constraints (tables s)" "quantities_fit (tables s)"
  shows "allocated (\<lambda>a. alloc_inventory a = i) (tables s') \<le> on_hand i (tables s')
    \<and> on_hand i (tables s') = on_hand i (tables s) - q \<and> 0 < q"
proof -
  obtain u u' where u: "tables u = tables s" "tables s' = tables u'"
    "run_state (remove_entry_in_current_transaction i q notes) u = (Inr (), u')"
    by (rule remove_body.effect [OF assms(1) [unfolded remove_entry_def] assms(2)]) auto
  show ?thesis
    by (rule remove_entry_effect [OF u(3)])
      (use assms(3,4) u in \<open>auto simp: on_hand_lookup allocated_def
         dest!: adds_only only_inventory_fields\<close>)
qed

theorem remove_entry_respects_allocations_witness:
  "5 \<le> on_hand 1 (tables (snd (run_state (remove_entry 1 15 []) (connect sample))))
   \<and> fst (run_state (remove_entry 1 16 []) (connect sample)) = Inl (MoreThanRemovable 15)"
proof
  have "fst (run_state (remove_entry 1 15 []) (connect sample)) = Inr ()" by code_simp
  then have "run_state (remove_entry 1 15 []) (connect sample)
      = (Inr (), snd (run_state (remove_entry 1 15 []) (connect sample)))"
    by (simp add: prod_eq_iff)
  from remove_entry_respects_allocations [OF this] books_sample
  show "5 \<le> on_hand 1 (tables (snd (run_state (remove_entry 1 15 []) (connect sample))))"
    by (simp add: books_def on_hand_def sample_defs)
  show "fst (run_state (remove_entry 1 16 []) (connect sample)) = Inl (MoreThanRemovable 15)"
    by code_simp
qed

text \<open>
  Lost pieces that are found again restore the total: after \<open>q\<close> pieces of a record
  are marked Lost and \<open>q\<close> pieces of the same part and color are marked Found, the workspace
  holds as many pieces of them as before and as many are outstanding as before. The found pieces
  are booked under the LEGO manufacturer whatever manufacturer the lost record had.
\<close>

theorem lost_then_found_restores:
  assumes "run_state (mark_lost i q notes) s = (True, s1)"
    and "find (\<lambda>r. inv_id r = i) (inventory (tables s)) = Some row"
    and "run_state (mark_found (inv_workspace row) (inv_part row) (inv_color row) q d cond own notes') s1
      = (Some result, s2)"
    and "saved s = None" "constraints (tables s)" "quantities_fit (tables s)" "q \<le> int_max"
  shows "pieces ws p c (tables s2) = pieces ws p c (tables s)
    \<and> outstanding_lost ws p c (tables s2) = outstanding_lost ws p c (tables s)"
proof -
  obtain u u1 where u: "tables u = tables s" "tables s1 = tables u1"
    "run_state (mark_lost_in_current_transaction i q notes) u = (True, u1)"
    by (rule lost_body.effect [OF assms(1) [unfolded mark_lost_def] assms(4)]) auto
  have s1: "saved s1 = None"
    using lost_body.outcome [OF assms(1) [unfolded mark_lost_def] assms(4)] by simp
  obtain v v2 where v: "tables v = tables s1" "tables s2 = tables v2"
    "run_state (mark_found_in_current_transaction (inv_workspace row) (inv_part row) (inv_color row)
      q d cond own notes') v = (Some result, v2)"
    by (rule found_body.effect [OF assms(3) [unfolded mark_found_def] s1]) auto
  have lost: "adds (inventory_identity row) (- q) (tables s) (tables s1) \<and> constraints (tables s1)
    \<and> quantities_fit (tables s1) \<and> movements (tables s1) = movements (tables s)
      @ [logged (seq_movement (tables s) + 1) (lost_movement row q notes)]"
    by (rule mark_lost_effect [OF u(3)]) (use assms(2,5,6) u in auto)
  have ty: "mov_type (addition_movement after existed q ''Found'' [] [] n) = ''Found''" for after existed n
    by (simp add: addition_movement_def trimmed_def is_space_def)
  show ?thesis
  proof (rule mark_found_effect [OF v(3)])
    fix m existed after
    assume "adds (inv_workspace row, inv_part row, inv_color row, d, m, trimmed cond, trimmed own) q
        (tables v) (tables v2)"
      "movements (tables v2) = movements (tables v) @ [logged (seq_movement (tables v) + 1)
        (addition_movement after existed q ''Found'' [] [] (trimmed notes'))]"
      "inv_workspace after = inv_workspace row" "inv_part after = inv_part row"
      "inv_color after = inv_color row"
    with lost v show ?thesis
      by (auto simp: pieces_def outstanding_lost_def adds_def ty)
  qed (use lost v assms(7) in auto)
qed

text \<open>Six pieces of another manufacturer, lost and found, are LEGO pieces afterwards.\<close>

theorem lost_then_found_restores_witness:
  "let s1 = snd (run_state (mark_lost 2 6 []) (connect sample));
       s2 = snd (run_state (mark_found 1 10 5 6 2 ''Used'' ''Owned'' []) s1)
   in pieces 1 10 5 (tables s2) = pieces 1 10 5 sample
      \<and> stock (\<lambda>k. k = inventory_identity (sample_row 0 2 2 0)) (tables s2) = 0
      \<and> stock (\<lambda>k. k = inventory_identity (sample_row 0 2 1 0)) (tables s2) = 6"
proof -
  let ?l = "run_state (mark_lost 2 6 []) (connect sample)"
  let ?f = "run_state (mark_found 1 10 5 6 2 ''Used'' ''Owned'' []) (snd ?l)"
  have l: "?l = (True, snd ?l)" by (simp add: prod_eq_iff) code_simp
  have "map_option fnd_outstanding (fst ?f) = Some 0" by code_simp
  then obtain result where f: "?f = (Some result, snd ?f)"
    by (cases "fst ?f") (auto simp: prod_eq_iff)
  have row: "find (\<lambda>r. inv_id r = 2) (inventory (tables (connect sample))) = Some (sample_row 2 2 2 6)"
    by (simp add: sample_defs)
  have "pieces 1 10 5 (tables (snd ?f)) = pieces 1 10 5 (tables (connect sample))"
    using lost_then_found_restores [OF l row, of 2 "''Used''" "''Owned''" "[]" result "snd ?f" 1 10 5]
      f books_sample
    by (simp add: books_def sample_row_def int_max_def)
  moreover have "stock (\<lambda>k. k = inventory_identity (sample_row 0 2 2 0)) (tables (snd ?f)) = 0"
    by code_simp
  moreover have "stock (\<lambda>k. k = inventory_identity (sample_row 0 2 1 0)) (tables (snd ?f)) = 6"
    by code_simp
  ultimately show ?thesis by (simp add: Let_def)
qed

lemma sum_logged:
  "list_all2 (\<lambda>l m. \<exists>i. l = logged i m) logs ms \<Longrightarrow>
   sum_where mov_quantity changes_quantity logs
     = sum_where mov_quantity changes_quantity ms"
  by (induction rule: list_all2_induct) (auto simp: changes_quantity_def)

lemma edit_movement_simps [simp]:
  "mov_quantity (edit_movement r ty n notes) = n" "mov_type (edit_movement r ty n notes) = ty"
  by (simp_all add: edit_movement_def)

lemma edit_history_sum:
  "sum_where mov_quantity changes_quantity (edit_history original after merged)
    = (if merged then 0 else inv_quantity after - inv_quantity original)"
  by (simp add: edit_history_def changes_quantity_def)

text \<open>
  An edit that changes the quantity of a record changes the stock by exactly that
  difference, with or without a merge. The history accounts for the difference only when the
  edit does not merge: the quantity changes it logs sum to the difference in place, and to zero
  in a merge, so an edit that merges and changes the quantity is not in the books.
\<close>

theorem edit_changes_stock_and_history:
  assumes "run_state (update_or_merge record) s = (Some (after, result), s')" "saved s = None"
    "constraints (tables s)" "quantities_fit (tables s)" "inv_quantity record \<le> int_max"
  shows "\<exists>original logs. find (\<lambda>r. inv_id r = inv_id record) (inventory (tables s)) = Some original
    \<and> stock (\<lambda>k. True) (tables s')
        = stock (\<lambda>k. True) (tables s) + (inv_quantity record - inv_quantity original)
    \<and> movements (tables s') = movements (tables s) @ logs
    \<and> sum_where mov_quantity changes_quantity logs
        = (if upd_merged result then 0 else inv_quantity record - inv_quantity original)"
proof -
  obtain u u' where u: "tables u = tables s" "tables s' = tables u'"
    "run_state (update_or_merge_in_current_transaction record) u = (Some (after, result), u')"
    by (rule edit_body.effect [OF assms(1) [unfolded update_or_merge_def] assms(2)]) auto
  show ?thesis
  proof (rule update_or_merge_effect [OF u(3)])
    fix original k logs
    assume "find (\<lambda>r. inv_id r = inv_id record) (inventory (tables u)) = Some original"
      and stock: "\<And>Q. stock Q (tables u') = stock Q (tables u)
        - (if Q (inventory_identity original) then inv_quantity original else 0)
        + (if Q k then inv_quantity record else 0)"
      and "movements (tables u') = movements (tables u) @ logs"
      and logs: "list_all2 (\<lambda>l m. \<exists>i. l = logged i m) logs
          (edit_history original after (upd_merged result))"
        "\<not> upd_merged result \<Longrightarrow> inv_quantity after = inv_quantity record"
    with u sum_logged [OF logs(1)] stock [of "\<lambda>k. True"] show ?thesis
      by (intro exI [of _ original] exI [of _ logs]) (auto simp: edit_history_sum)
  qed (use assms(3-5) u in auto)
qed

text \<open>Six pieces corrected to four while the edit merges them into the other record: two vanish.\<close>

theorem edit_changes_stock_and_history_witness:
  "let s' = snd (run_state (update_or_merge (sample_row 2 1 1 4)) (connect sample))
   in stock (\<lambda>k. True) (tables s') = stock (\<lambda>k. True) sample - 2
      \<and> pieces 1 10 5 (tables s') = 24 \<and> ledger 1 10 5 (tables s') = 26"
proof -
  let ?run = "run_state (update_or_merge (sample_row 2 1 1 4)) (connect sample)"
  have "map_option (\<lambda>x. upd_merged (snd x)) (fst ?run) = Some True" by code_simp
  then obtain after result where r: "?run = (Some (after, result), snd ?run)"
    by (cases "fst ?run") (auto simp: prod_eq_iff)
  have q: "inv_quantity (sample_row 2 1 1 4) = 4" "inv_id (sample_row 2 1 1 4) = 2"
    by (simp_all add: sample_row_def)
  have "find (\<lambda>r. inv_id r = 2) (inventory sample) = Some (sample_row 2 2 2 6)"
    "inv_quantity (sample_row 2 2 2 6) = 6"
    by (simp_all add: sample_defs)
  then have "stock (\<lambda>k. True) (tables (snd ?run)) = stock (\<lambda>k. True) sample - 2"
    using edit_changes_stock_and_history [OF r] books_sample
    by (simp add: books_def q int_max_def)
  moreover have "pieces 1 10 5 (tables (snd ?run)) = 24" by code_simp
  moreover have "ledger 1 10 5 (tables (snd ?run)) = 26" by code_simp
  ultimately show ?thesis by (simp add: Let_def)
qed

end
