(* ===== verification/StorageLocations.thy ===== *)
theory StorageLocations
  imports BuildRepositories Sample
begin

text \<open>
  The storage hierarchy: \<open>StorageLocationRepository\<close> and, above it,
  \<open>HostStorageMutationService\<close>, which adds, edits, deactivates and reactivates locations for
  local and remote clients. A recursive common table expression is the iteration that SQLite
  runs: new rows are added until none is left.
\<close>

section \<open>StorageLocationRepository\<close>

datatype check = Yes | No | CheckError

definition check_of :: "bool option \<Rightarrow> check" where
  "check_of r = (case r of None \<Rightarrow> CheckError | Some b \<Rightarrow> if b then Yes else No)"

definition insert_location :: "storage_row \<Rightarrow> tables \<Rightarrow> int \<times> tables" where
  "insert_location l t = (let i = seq_storage t + 1
     in (i, t\<lparr>storage := storage t @ [put_sto_id i l], seq_storage := i\<rparr>))"

definition update_locations ::
    "(storage_row \<Rightarrow> bool) \<Rightarrow> (storage_row \<Rightarrow> storage_row) \<Rightarrow> tables \<Rightarrow> nat \<times> tables" where
  "update_locations P f t = (count_where P (storage t), t\<lparr>storage := update_where P f (storage t)\<rparr>)"

definition storage_create :: "storage_row \<Rightarrow> (session, storage_row option) state" where
  "storage_create l =
     (if sto_workspace l \<le> 0 \<or> sto_type l \<le> 0 \<or> trimmed (sto_name l) = [] then ret None
      else do {
        now \<leftarrow> current_time;
        i \<leftarrow> sql_exec (insert_location (l\<lparr>sto_parent := nullable (sto_parent l),
          sto_name := trimmed (sto_name l), sto_modified := now\<rparr>));
        ret (case i of None \<Rightarrow> None | Some i \<Rightarrow> Some (l\<lparr>sto_id := i, sto_modified := now\<rparr>))
      })"

definition storage_try_get :: "int \<Rightarrow> (session, storage_row option option) state" where
  "storage_try_get i = sql_query (\<lambda>t. find (\<lambda>l. sto_id l = i) (storage t))"

definition storage_get :: "int \<Rightarrow> (session, storage_row option) state" where
  "storage_get i = do { row \<leftarrow> storage_try_get i; ret (found_row row) }"

definition storage_get_children :: "int \<Rightarrow> int \<Rightarrow> (session, storage_row list) state" where
  "storage_get_children ws parent = do {
     rows \<leftarrow> sql_query (\<lambda>t. sort_key (\<lambda>l. (sto_sort l, sto_name l))
       (filter (\<lambda>l. sto_workspace l = ws \<and> sto_active l \<and>
          sto_parent l = (if parent > 0 then parent else 0)) (storage t)));
     ret (case rows of None \<Rightarrow> [] | Some rs \<Rightarrow> rs)
   }"

definition storage_update :: "storage_row \<Rightarrow> (session, storage_row option) state" where
  "storage_update l =
     (if sto_id l \<le> 0 \<or> sto_workspace l \<le> 0 \<or> sto_type l \<le> 0 \<or> trimmed (sto_name l) = []
      then ret None
      else do {
        now \<leftarrow> current_time;
        n \<leftarrow> sql_exec (update_locations (\<lambda>x. sto_id x = sto_id l \<and> sto_workspace x = sto_workspace l)
          (\<lambda>x. x\<lparr>sto_parent := nullable (sto_parent l), sto_type := sto_type l,
             sto_name := trimmed (sto_name l), sto_description := sto_description l,
             sto_sort := sto_sort l, sto_active := sto_active l,
             sto_allows_inventory := sto_allows_inventory l,
             sto_allows_collection := sto_allows_collection l, sto_modified := now\<rparr>));
        ret (case n of None \<Rightarrow> None
          | Some n \<Rightarrow> if n = 0 then None else Some (l\<lparr>sto_modified := now\<rparr>))
      })"

definition has_active_children :: "int \<Rightarrow> tables \<Rightarrow> bool" where
  "has_active_children i t \<longleftrightarrow> 0 < count_where (\<lambda>l. sto_parent l = i \<and> sto_active l) (storage t)"

definition has_active_children_checked :: "int \<Rightarrow> (session, check) state" where
  "has_active_children_checked i =
     (if i \<le> 0 then ret CheckError
      else do { n \<leftarrow> sql_query (has_active_children i); ret (check_of n) })"

datatype capability = AllowsInventory | AllowsCollection

fun has_capability :: "capability \<Rightarrow> storage_row \<Rightarrow> bool" where
  "has_capability AllowsInventory l = sto_allows_inventory l"
| "has_capability AllowsCollection l = sto_allows_collection l"

text \<open>An active location of the workspace with the capability and no active location below it.\<close>

definition is_destination :: "int \<Rightarrow> capability \<Rightarrow> tables \<Rightarrow> storage_row \<Rightarrow> bool" where
  "is_destination ws cap t l \<longleftrightarrow> sto_workspace l = ws \<and> sto_active l \<and> has_capability cap l
     \<and> \<not> list_ex (\<lambda>c. sto_parent c = sto_id l \<and> sto_active c) (storage t)"

definition valid_destination_checked ::
    "int \<Rightarrow> int \<Rightarrow> capability \<Rightarrow> int \<Rightarrow> (session, check) state" where
  "valid_destination_checked ws i cap excluded =
     (if ws \<le> 0 \<or> i \<le> 0 \<or> i = excluded then ret No
      else do {
        r \<leftarrow> sql_query (\<lambda>t. list_ex (\<lambda>l. sto_id l = i \<and> is_destination ws cap t l) (storage t));
        ret (check_of r)
      })"

definition has_inventory :: "int \<Rightarrow> tables \<Rightarrow> bool" where
  "has_inventory i t \<longleftrightarrow> list_ex (\<lambda>r. inv_storage r = i \<and> inv_quantity r > 0) (inventory t)"

definition has_inventory_checked :: "int \<Rightarrow> (session, check) state" where
  "has_inventory_checked i =
     (if i \<le> 0 then ret CheckError
      else do { r \<leftarrow> sql_query (has_inventory i); ret (check_of r) })"

definition has_collection :: "int \<Rightarrow> tables \<Rightarrow> bool" where
  "has_collection i t \<longleftrightarrow> list_ex (\<lambda>c. col_storage c = i \<and> col_active c) (collection t)"

definition has_collection_checked :: "int \<Rightarrow> (session, check) state" where
  "has_collection_checked i =
     (if i \<le> 0 then ret CheckError
      else do { r \<leftarrow> sql_query (has_collection i); ret (check_of r) })"

text \<open>
  The recursive part of \<open>WITH RECURSIVE\<close> under \<open>UNION\<close>: add the rows the step yields for the
  rows found so far, without duplicates, until it yields nothing new. Every round but the last
  adds an identity of the table, so one round per row of the table and one more are enough.
\<close>

fun recursive_rows :: "nat \<Rightarrow> (int list \<Rightarrow> int list) \<Rightarrow> int list \<Rightarrow> int list" where
  "recursive_rows 0 step found = found"
| "recursive_rows (Suc n) step found =
     (let new = filter (\<lambda>i. i \<notin> set found) (remdups (step found))
      in if new = [] then found else recursive_rows n step (found @ new))"

definition children_of :: "tables \<Rightarrow> int list \<Rightarrow> int list" where
  "children_of t parents = map sto_id (filter (\<lambda>l. sto_parent l \<in> set parents) (storage t))"

definition descendants :: "int \<Rightarrow> tables \<Rightarrow> int list" where
  "descendants i t =
     recursive_rows (length (storage t)) (children_of t) (remdups (children_of t [i]))"

definition is_descendant_checked :: "int \<Rightarrow> int \<Rightarrow> (session, check) state" where
  "is_descendant_checked i possible =
     (if i \<le> 0 \<or> possible \<le> 0 then ret CheckError
      else if i = possible then ret Yes
      else do {
        r \<leftarrow> sql_query (\<lambda>t. possible \<in> set (descendants i t));
        ret (check_of r)
      })"

text \<open>The locations the pickers show: the destinations and everything above them.\<close>

definition active_parents_of :: "int \<Rightarrow> tables \<Rightarrow> int list \<Rightarrow> int list" where
  "active_parents_of ws t found = map sto_id (filter (\<lambda>p. sto_workspace p = ws \<and> sto_active p \<and>
     list_ex (\<lambda>c. sto_id c \<in> set found \<and> sto_parent c = sto_id p) (storage t)) (storage t))"

definition capability_ids :: "int \<Rightarrow> capability \<Rightarrow> tables \<Rightarrow> int list" where
  "capability_ids ws cap t = recursive_rows (length (storage t)) (active_parents_of ws t)
     (remdups (map sto_id (filter (is_destination ws cap t) (storage t))))"

definition capability_hierarchy :: "int \<Rightarrow> capability \<Rightarrow> (session, storage_row list) state" where
  "capability_hierarchy ws cap =
     (if ws \<le> 0 then ret []
      else do {
        rows \<leftarrow> sql_query (\<lambda>t. sort_key (\<lambda>l. (sto_sort l, map to_lower (sto_name l), sto_id l))
          (filter (\<lambda>l. sto_id l \<in> set (capability_ids ws cap t)) (storage t)));
        ret (case rows of None \<Rightarrow> [] | Some rs \<Rightarrow> rs)
      })"

definition storage_deactivate :: "int \<Rightarrow> (session, bool) state" where
  "storage_deactivate i =
     (if i \<le> 0 then ret False
      else do {
        now \<leftarrow> current_time;
        n \<leftarrow> sql_exec (update_locations (\<lambda>l. sto_id l = i \<and> sto_active l)
          (\<lambda>l. l\<lparr>sto_active := False, sto_modified := now\<rparr>));
        ret (case n of None \<Rightarrow> False | Some n \<Rightarrow> n > 0)
      })"

definition reactivate_in :: "int \<Rightarrow> int \<Rightarrow> tables \<Rightarrow> nat \<times> tables" where
  "reactivate_in i now t = update_locations (\<lambda>l. sto_id l = i \<and> \<not> sto_active l \<and> (sto_parent l = 0 \<or>
       list_ex (\<lambda>p. sto_id p = sto_parent l \<and> sto_active p) (storage t)))
     (\<lambda>l. l\<lparr>sto_active := True, sto_modified := now\<rparr>) t"

definition storage_reactivate :: "int \<Rightarrow> (session, bool) state" where
  "storage_reactivate i =
     (if i \<le> 0 then ret False
      else do {
        now \<leftarrow> current_time;
        n \<leftarrow> sql_exec (reactivate_in i now);
        ret (case n of None \<Rightarrow> False | Some n \<Rightarrow> n > 0)
      })"

section \<open>HostStorageMutationService\<close>

datatype storage_error = InvalidArgument | WorkspaceMissing | WorkspaceInactive | StorageMissing
  | ParentMissing | ParentInactive | ParentWrongWorkspace | TypeMissing | TypeInactive
  | SelfParent | DescendantCycle | InventoryOccupied | CollectionOccupied
  | ActiveChildren | StaleExpectedState | StorageDatabaseFailure

text \<open>\<open>None\<close> is an expected state that was not provided.\<close>

definition matches_expected :: "storage_row \<Rightarrow> storage_row option \<Rightarrow> bool" where
  "matches_expected value expected = (case expected of None \<Rightarrow> True
     | Some e \<Rightarrow> sto_modified value = sto_modified e \<and> sto_parent value = sto_parent e
         \<and> sto_type value = sto_type e \<and> sto_name value = sto_name e
         \<and> sto_description value = sto_description e \<and> sto_sort value = sto_sort e
         \<and> sto_active value = sto_active e \<and> sto_allows_inventory value = sto_allows_inventory e
         \<and> sto_allows_collection value = sto_allows_collection e)"

definition validate_workspace :: "int \<Rightarrow> (session, storage_error option) state" where
  "validate_workspace ws =
     (if ws \<le> 0 then ret (Some InvalidArgument)
      else do {
        row \<leftarrow> sql_query (\<lambda>t. find (\<lambda>w. wsp_id w = ws) (workspaces t));
        ret (case row of None \<Rightarrow> Some StorageDatabaseFailure
          | Some None \<Rightarrow> Some WorkspaceMissing
          | Some (Some w) \<Rightarrow> if wsp_active w then None else Some WorkspaceInactive)
      })"

definition validate_type :: "int \<Rightarrow> (session, storage_error option) state" where
  "validate_type ty = do {
     row \<leftarrow> sql_query (\<lambda>t. find (\<lambda>x. typ_id x = ty) (location_types t));
     ret (case row of None \<Rightarrow> Some StorageDatabaseFailure
       | Some None \<Rightarrow> Some TypeMissing
       | Some (Some x) \<Rightarrow> if typ_active x then None else Some TypeInactive)
   }"

definition validate_workspace_and_type :: "int \<Rightarrow> int \<Rightarrow> (session, storage_error option) state" where
  "validate_workspace_and_type ws ty =
     (if ws \<le> 0 \<or> ty \<le> 0 then ret (Some InvalidArgument)
      else do {
        e \<leftarrow> validate_workspace ws;
        case e of Some e \<Rightarrow> ret (Some e) | None \<Rightarrow> validate_type ty
      })"

definition validate_parent :: "int \<Rightarrow> int \<Rightarrow> (session, storage_error option) state" where
  "validate_parent ws parent =
     (if parent = 0 then ret None
      else if parent < 0 then ret (Some InvalidArgument)
      else do {
        row \<leftarrow> storage_try_get parent;
        ret (case row of None \<Rightarrow> Some StorageDatabaseFailure
          | Some None \<Rightarrow> Some ParentMissing
          | Some (Some p) \<Rightarrow>
              if sto_workspace p \<noteq> ws then Some ParentWrongWorkspace
              else if \<not> sto_active p then Some ParentInactive else None)
      })"

text \<open>
  The display path of a location: its names from the root down, following the parents. The walk
  stops with an error at a location seen before and after 10000 locations.
\<close>

function hierarchy_path ::
    "int \<Rightarrow> int list \<Rightarrow> int \<Rightarrow> string list \<Rightarrow> (session, string list option) state" where
  "hierarchy_path ws visited current names =
     (if current \<le> 0 then ret (Some names)
      else if 10000 \<le> length visited \<or> current \<in> set visited then ret None
      else do {
        row \<leftarrow> storage_try_get current;
        case row of None \<Rightarrow> ret None
        | Some None \<Rightarrow> ret None
        | Some (Some l) \<Rightarrow>
            if sto_workspace l \<noteq> ws then ret None
            else hierarchy_path ws (current # visited) (sto_parent l) (sto_name l # names)
      })"
  by pat_completeness auto
termination
  by (relation "measure (\<lambda>(ws, visited, current, names). 10000 - length visited)") auto

declare hierarchy_path.simps [simp del]

definition authoritative ::
    "int \<Rightarrow> (session, storage_error + storage_row \<times> string list) state" where
  "authoritative i = do {
     value \<leftarrow> storage_try_get i;
     case value of None \<Rightarrow> ret (Inl StorageDatabaseFailure)
     | Some None \<Rightarrow> ret (Inl StorageDatabaseFailure)
     | Some (Some value) \<Rightarrow> do {
         path \<leftarrow> hierarchy_path (sto_workspace value) [] i [];
         ret (case path of None \<Rightarrow> Inl StorageDatabaseFailure | Some names \<Rightarrow> Inr (value, names))
       }
   }"

record add_location_request =
  adr_workspace :: int
  adr_parent :: int
  adr_type :: int
  adr_name :: string
  adr_description :: string
  adr_allows_inventory :: bool
  adr_allows_collection :: bool

definition location_text_ok :: "string \<Rightarrow> string \<Rightarrow> bool" where
  "location_text_ok name description \<longleftrightarrow> trimmed name \<noteq> [] \<and> length (trimmed name) \<le> 200
     \<and> length description \<le> 2000"

definition new_location :: "add_location_request \<Rightarrow> storage_row" where
  "new_location q = \<lparr>sto_id = 0, sto_workspace = adr_workspace q, sto_parent = adr_parent q,
     sto_type = adr_type q, sto_name = trimmed (adr_name q), sto_description = adr_description q,
     sto_sort = 0, sto_active = True, sto_allows_inventory = adr_allows_inventory q,
     sto_allows_collection = adr_allows_collection q, sto_modified = 0\<rparr>"

definition add_location ::
    "add_location_request \<Rightarrow> (session, storage_error + storage_row \<times> string list) state" where
  "add_location q = do {
     allowed \<leftarrow> host_write_allowed;
     if \<not> allowed then ret (Inl InvalidArgument)
     else if \<not> location_text_ok (adr_name q) (adr_description q) then ret (Inl InvalidArgument)
     else do {
       e \<leftarrow> validate_workspace_and_type (adr_workspace q) (adr_type q);
       case e of Some e \<Rightarrow> ret (Inl e)
       | None \<Rightarrow> do {
           e \<leftarrow> validate_parent (adr_workspace q) (adr_parent q);
           case e of Some e \<Rightarrow> ret (Inl e)
           | None \<Rightarrow> do {
               created \<leftarrow> storage_create (new_location q);
               case created of None \<Rightarrow> ret (Inl StorageDatabaseFailure)
               | Some l \<Rightarrow> authoritative (sto_id l)
             }
         }
     }
   }"

record edit_location_request =
  edr_workspace :: int
  edr_storage :: int
  edr_parent :: int
  edr_type :: int
  edr_name :: string
  edr_description :: string
  edr_allows_inventory :: bool
  edr_allows_collection :: bool
  edr_expected :: "storage_row option"

text \<open>The checks that guard a new parent and the loss of a capability.\<close>

definition check_not_below :: "int \<Rightarrow> int \<Rightarrow> (session, storage_error option) state" where
  "check_not_below i parent =
     (if parent \<le> 0 then ret None
      else do {
        cycle \<leftarrow> is_descendant_checked i parent;
        ret (case cycle of CheckError \<Rightarrow> Some StorageDatabaseFailure | Yes \<Rightarrow> Some DescendantCycle | No \<Rightarrow> None)
      })"

definition check_capability_loss ::
    "storage_row \<Rightarrow> edit_location_request \<Rightarrow> (session, storage_error option) state" where
  "check_capability_loss current q = do {
     e \<leftarrow> (if sto_allows_inventory current \<and> \<not> edr_allows_inventory q
       then do {
         occupied \<leftarrow> has_inventory_checked (edr_storage q);
         ret (case occupied of CheckError \<Rightarrow> Some StorageDatabaseFailure | Yes \<Rightarrow> Some InventoryOccupied
           | No \<Rightarrow> None)
       }
       else ret None);
     case e of Some e \<Rightarrow> ret (Some e)
     | None \<Rightarrow>
         if sto_allows_collection current \<and> \<not> edr_allows_collection q
         then do {
           occupied \<leftarrow> has_collection_checked (edr_storage q);
           ret (case occupied of CheckError \<Rightarrow> Some StorageDatabaseFailure | Yes \<Rightarrow> Some CollectionOccupied
             | No \<Rightarrow> None)
         }
         else ret None
   }"

definition edited_location :: "storage_row \<Rightarrow> edit_location_request \<Rightarrow> storage_row" where
  "edited_location current q = current\<lparr>sto_parent := edr_parent q, sto_type := edr_type q,
     sto_name := trimmed (edr_name q), sto_description := edr_description q,
     sto_allows_inventory := edr_allows_inventory q, sto_allows_collection := edr_allows_collection q\<rparr>"

text \<open>Everything the edit checks before it writes; the location as it is stored, or the error.\<close>

definition checked_edit ::
    "edit_location_request \<Rightarrow> (session, storage_error + storage_row) state" where
  "checked_edit q =
     (if edr_storage q \<le> 0 \<or> \<not> location_text_ok (edr_name q) (edr_description q)
      then ret (Inl InvalidArgument)
      else do {
        row \<leftarrow> storage_try_get (edr_storage q);
        case row of None \<Rightarrow> ret (Inl StorageDatabaseFailure)
        | Some None \<Rightarrow> ret (Inl StorageMissing)
        | Some (Some current) \<Rightarrow>
            if sto_workspace current \<noteq> edr_workspace q then ret (Inl StorageMissing)
            else if \<not> matches_expected current (edr_expected q) then ret (Inl StaleExpectedState)
            else do {
              e \<leftarrow> validate_workspace_and_type (edr_workspace q) (edr_type q);
              case e of Some e \<Rightarrow> ret (Inl e)
              | None \<Rightarrow>
                  if edr_parent q = edr_storage q then ret (Inl SelfParent)
                  else do {
                    e \<leftarrow> validate_parent (edr_workspace q) (edr_parent q);
                    case e of Some e \<Rightarrow> ret (Inl e)
                    | None \<Rightarrow> do {
                        e \<leftarrow> check_not_below (edr_storage q) (edr_parent q);
                        case e of Some e \<Rightarrow> ret (Inl e)
                        | None \<Rightarrow> do {
                            e \<leftarrow> check_capability_loss current q;
                            ret (case e of Some e \<Rightarrow> Inl e | None \<Rightarrow> Inr current)
                          }
                      }
                  }
            }
      })"

definition edit_location ::
    "edit_location_request \<Rightarrow> (session, storage_error + storage_row \<times> string list) state" where
  "edit_location q = do {
     allowed \<leftarrow> host_write_allowed;
     if \<not> allowed then ret (Inl InvalidArgument)
     else do {
       checked \<leftarrow> checked_edit q;
       case checked of Inl e \<Rightarrow> ret (Inl e)
       | Inr current \<Rightarrow> do {
           updated \<leftarrow> storage_update (edited_location current q);
           case updated of None \<Rightarrow> ret (Inl StorageDatabaseFailure)
           | Some l \<Rightarrow> authoritative (sto_id l)
         }
     }
   }"

text \<open>The checks of a reactivation and of a deactivation.\<close>

definition check_reactivation :: "int \<Rightarrow> storage_row \<Rightarrow> (session, storage_error option) state" where
  "check_reactivation ws current = do {
     e \<leftarrow> validate_type (sto_type current);
     case e of Some e \<Rightarrow> ret (Some e) | None \<Rightarrow> validate_parent ws (sto_parent current)
   }"

definition check_deactivation :: "int \<Rightarrow> (session, storage_error option) state" where
  "check_deactivation i = do {
     children \<leftarrow> has_active_children_checked i;
     inventory \<leftarrow> has_inventory_checked i;
     collection \<leftarrow> has_collection_checked i;
     ret (if children = CheckError \<or> inventory = CheckError \<or> collection = CheckError
       then Some StorageDatabaseFailure
       else if children = Yes then Some ActiveChildren
       else if inventory = Yes then Some InventoryOccupied
       else if collection = Yes then Some CollectionOccupied
       else None)
   }"

definition set_location_active ::
    "int \<Rightarrow> int \<Rightarrow> bool \<Rightarrow> storage_row option
     \<Rightarrow> (session, storage_error + storage_row \<times> string list) state" where
  "set_location_active ws i active expected = do {
     allowed \<leftarrow> host_write_allowed;
     if \<not> allowed then ret (Inl InvalidArgument)
     else if ws \<le> 0 \<or> i \<le> 0 then ret (Inl InvalidArgument)
     else do {
       row \<leftarrow> storage_try_get i;
       case row of None \<Rightarrow> ret (Inl StorageDatabaseFailure)
       | Some None \<Rightarrow> ret (Inl StorageMissing)
       | Some (Some current) \<Rightarrow>
           if sto_workspace current \<noteq> ws then ret (Inl StorageMissing)
           else if \<not> matches_expected current expected then ret (Inl StaleExpectedState)
           else if sto_active current = active then ret (Inl InvalidArgument)
           else do {
             e \<leftarrow> validate_workspace ws;
             case e of Some e \<Rightarrow> ret (Inl e)
             | None \<Rightarrow> do {
                 e \<leftarrow> (if active then check_reactivation ws current else check_deactivation i);
                 case e of Some e \<Rightarrow> ret (Inl e)
                 | None \<Rightarrow> do {
                     changed \<leftarrow> (if active then storage_reactivate i else storage_deactivate i);
                     if changed then authoritative i else ret (Inl StorageDatabaseFailure)
                   }
               }
           }
     }
   }"

end
