(* ===== verification/StorageHierarchy.thy ===== *)
theory StorageHierarchy
  imports StorageLocations
begin

text \<open>
  The shape of the storage hierarchy: the recursive query decides descent exactly, every change
  through \<open>HostStorageMutationService\<close> keeps the locations a forest whose active part is closed
  upwards, and a location is only deactivated when it is empty.
\<close>

section \<open>The recursive query\<close>

definition edges :: "tables \<Rightarrow> (int \<times> int) set" where
  "edges t = (\<lambda>l. (sto_parent l, sto_id l)) ` set (storage t)"

lemma set_children_of: "set (children_of t ps) = edges t `` set ps"
  by (auto simp: children_of_def edges_def)

lemma recursive_rows_extends: "set found \<subseteq> set (recursive_rows n step found)"
proof (induction n arbitrary: found)
  case 0
  then show ?case by simp
next
  case (Suc n)
  have "set (found @ filter (\<lambda>i. i \<notin> set found) (remdups (step found)))
    \<subseteq> set (recursive_rows n step (found @ filter (\<lambda>i. i \<notin> set found) (remdups (step found))))"
    by (rule Suc.IH)
  then show ?case by (simp add: Let_def)
qed

lemma recursive_rows_sound:
  assumes "\<And>xs y. y \<in> set (step xs) \<Longrightarrow> set xs \<subseteq> S \<Longrightarrow> y \<in> S" "set found \<subseteq> S"
  shows "set (recursive_rows n step found) \<subseteq> S"
  using assms(2)
proof (induction n arbitrary: found)
  case 0
  then show ?case by simp
next
  case (Suc n)
  let ?new = "filter (\<lambda>i. i \<notin> set found) (remdups (step found))"
  from Suc.prems assms(1) have "set (found @ ?new) \<subseteq> S" by auto
  from Suc.IH [OF this] Suc.prems show ?case by (simp add: Let_def)
qed

text \<open>One round per possible row closes the set under the step.\<close>

lemma recursive_rows_closed:
  assumes "finite U" "\<And>xs. set (step xs) \<subseteq> U" "distinct found" "set found \<subseteq> U"
    "card U \<le> n + length found"
  shows "set (step (recursive_rows n step found)) \<subseteq> set (recursive_rows n step found)"
  using assms(3-5)
proof (induction n arbitrary: found)
  case 0
  then have "set found = U"
    using assms(1) by (intro card_seteq) (auto simp: distinct_card)
  with assms(2) show ?case by simp
next
  case (Suc n)
  let ?new = "filter (\<lambda>i. i \<notin> set found) (remdups (step found))"
  show ?case
  proof (cases "?new = []")
    case True
    then have "set (step found) \<subseteq> set found" by (auto simp: filter_empty_conv)
    with True show ?thesis by (simp add: Let_def)
  next
    case False
    then have "0 < length ?new" by blast
    with Suc.prems(3) have "card U \<le> n + length (found @ ?new)" unfolding length_append by linarith
    moreover have "distinct (found @ ?new)" using Suc.prems(1) by auto
    moreover have "set (found @ ?new) \<subseteq> U" using Suc.prems(2) assms(2) [of found] by auto
    ultimately show ?thesis using Suc.IH [of "found @ ?new"] False by (simp add: Let_def)
  qed
qed

lemma descendants_exact: "set (descendants i t) = {d. (i, d) \<in> (edges t)\<^sup>+}"
proof
  have "set (remdups (children_of t [i])) \<subseteq> {d. (i, d) \<in> (edges t)\<^sup>+}"
    by (auto simp: set_children_of)
  moreover have "y \<in> {d. (i, d) \<in> (edges t)\<^sup>+}"
    if "y \<in> set (children_of t xs)" "set xs \<subseteq> {d. (i, d) \<in> (edges t)\<^sup>+}" for xs y
    using that by (auto simp: set_children_of intro: trancl_into_trancl)
  ultimately show "set (descendants i t) \<subseteq> {d. (i, d) \<in> (edges t)\<^sup>+}"
    unfolding descendants_def by (intro recursive_rows_sound) blast+
next
  let ?U = "sto_id ` set (storage t)"
  have "card ?U \<le> length (storage t) + length (remdups (children_of t [i]))"
    using card_image_le [of "set (storage t)" sto_id] card_length [of "storage t"] by simp
  then have closed: "edges t `` set (descendants i t) \<subseteq> set (descendants i t)"
    unfolding descendants_def set_children_of [symmetric]
    by (intro recursive_rows_closed [where U = ?U]) (auto simp: children_of_def)
  have base: "edges t `` {i} \<subseteq> set (descendants i t)"
    using recursive_rows_extends [of "remdups (children_of t [i])"]
    by (auto simp: descendants_def set_children_of)
  show "{d. (i, d) \<in> (edges t)\<^sup>+} \<subseteq> set (descendants i t)"
  proof clarify
    fix d
    assume "(i, d) \<in> (edges t)\<^sup>+"
    then show "d \<in> set (descendants i t)"
      by (induction rule: trancl_induct) (use base closed in auto)
  qed
qed

section \<open>The shape of the hierarchy\<close>

text \<open>
  No location is above itself; the parent of a location is a location of the same workspace, and
  it is active when the location is.
\<close>

definition placed :: "storage_row list \<Rightarrow> storage_row \<Rightarrow> bool" where
  "placed ls l \<longleftrightarrow> sto_parent l = 0 \<or> (\<exists>p\<in>set ls. sto_id p = sto_parent l
     \<and> sto_workspace p = sto_workspace l \<and> (sto_active l \<longrightarrow> sto_active p))"

definition hierarchy :: "tables \<Rightarrow> bool" where
  "hierarchy t \<longleftrightarrow> acyclic (edges t) \<and> (\<forall>l\<in>set (storage t). placed (storage t) l)
     \<and> (\<forall>l\<in>set (storage t). 0 < sto_id l) \<and> distinct (map sto_id (storage t)) \<and> 0 \<le> seq_storage t"

lemma root_reaches_nothing:
  assumes "\<And>l. l \<in> set (storage t) \<Longrightarrow> 0 < sto_id l" "(x, 0) \<in> (edges t)\<^sup>*"
  shows "x = 0"
  using assms(2,1) by (induction rule: rtrancl_induct) (force simp: edges_def)+

lemma hierarchy_insert:
  assumes "hierarchy t" "constraints (snd (insert_location l t))" "placed (storage t) l"
  shows "hierarchy (snd (insert_location l t))"
proof -
  let ?i = "seq_storage t + 1"
  let ?t = "snd (insert_location l t)"
  have st: "storage ?t = storage t @ [put_sto_id ?i l]" "seq_storage ?t = ?i"
    by (simp_all add: insert_location_def Let_def)
  have d: "distinct (map sto_id (storage ?t))" by (rule constraints_storage_keys [OF assms(2)])
  then have fresh: "\<And>m. m \<in> set (storage t) \<Longrightarrow> sto_id m \<noteq> ?i"
    by (auto simp: st put_sto_id_def image_iff)
  have edges: "edges ?t = insert (sto_parent l, ?i) (edges t)"
    by (auto simp: edges_def st put_sto_id_def)
  have pos: "0 < ?i" using assms(1) by (simp add: hierarchy_def)
  have "(?i, sto_parent l) \<notin> (edges t)\<^sup>*"
  proof
    assume "(?i, sto_parent l) \<in> (edges t)\<^sup>*"
    then show False
    proof (cases rule: converse_rtranclE)
      case base
      with assms(3) fresh pos show False by (auto simp: placed_def)
    next
      case (step y)
      then obtain c where "c \<in> set (storage t)" "sto_parent c = ?i" by (auto simp: edges_def)
      with assms(1) fresh pos show False by (fastforce simp: hierarchy_def placed_def)
    qed
  qed
  with assms(1) have "acyclic (edges ?t)" by (simp add: edges hierarchy_def)
  moreover have "placed (storage ?t) m" if "m \<in> set (storage ?t)" for m
    using that assms(1,3) by (auto simp: st hierarchy_def placed_def put_sto_id_def)
  ultimately show ?thesis
    using assms(1) pos d by (simp add: hierarchy_def st put_sto_id_def)
qed

text \<open>Replacing one location by a version with the same identity and workspace.\<close>

lemma hierarchy_replace:
  assumes "hierarchy t" and c: "c \<in> set (storage t)"
    and t': "storage t' = update_where P f (storage t)" "seq_storage t' = seq_storage t"
    and P: "\<And>l. l \<in> set (storage t) \<Longrightarrow> P l \<Longrightarrow> l = c"
    and f: "sto_id (f c) = sto_id c" "sto_workspace (f c) = sto_workspace c"
      "placed (storage t) (f c)" "(sto_id c, sto_parent (f c)) \<notin> (edges t)\<^sup>*"
      "sto_active c \<Longrightarrow> sto_active (f c) \<or>
        (\<forall>m\<in>set (storage t). sto_parent m = sto_id c \<longrightarrow> \<not> sto_active m)"
  shows "hierarchy t'"
proof -
  have members: "m \<in> set (storage t) \<and> \<not> P m \<or> m = f c \<and> P c" if "m \<in> set (storage t')" for m
    using that P c by (auto simp: t' set_update_where)
  have stays: "(if P m then f m else m) \<in> set (storage t')" if "m \<in> set (storage t)" for m
    using that by (auto simp: t' set_update_where)
  have "edges t' \<subseteq> insert (sto_parent (f c), sto_id c) (edges t)"
    using members f(1) by (fastforce simp: edges_def)
  moreover have "acyclic (insert (sto_parent (f c), sto_id c) (edges t))"
    using assms(1) f(4) by (simp add: hierarchy_def)
  ultimately have "acyclic (edges t')" by (rule acyclic_subset [rotated])
  moreover have "placed (storage t') m" if m: "m \<in> set (storage t')" for m
  proof (cases "sto_parent m = 0")
    case False
    from members [OF m] consider "m \<in> set (storage t)" "\<not> P m" | "m = f c" "P c" by blast
    then obtain p where p: "p \<in> set (storage t)" "sto_id p = sto_parent m"
      "sto_workspace p = sto_workspace m" "sto_active m \<Longrightarrow> sto_active p"
      using assms(1) f(3) False by (cases; fastforce simp: hierarchy_def placed_def)
    show ?thesis
    proof (cases "P p")
      case True
      with P p(1) have pc: "p = c" by blast
      with True stays [OF p(1)] have "f c \<in> set (storage t')" by simp
      moreover have "m \<noteq> f c" using pc p(2) f(4) by auto
      with members [OF m] have "m \<in> set (storage t)" by blast
      ultimately show ?thesis using p pc f(1,2,5) by (auto simp: placed_def)
    next
      case False
      with stays [OF p(1)] p show ?thesis by (auto simp: placed_def)
    qed
  qed (simp add: placed_def)
  moreover have "distinct (map sto_id (storage t'))"
  proof -
    have "map sto_id (storage t') = map sto_id (storage t)"
      using P f(1) unfolding t' by (induction "storage t" arbitrary: t) (auto simp: update_where_def)
    with assms(1) show ?thesis by (simp add: hierarchy_def)
  qed
  moreover have "0 < sto_id m" if "m \<in> set (storage t')" for m
    using members [OF that] assms(1) c f(1) by (auto simp: hierarchy_def)
  ultimately show ?thesis using assms(1) t'(2) by (simp add: hierarchy_def)
qed

lemma not_below_self:
  assumes "hierarchy t" "c \<in> set (storage t)"
  shows "(sto_id c, sto_parent c) \<notin> (edges t)\<^sup>*"
proof
  assume "(sto_id c, sto_parent c) \<in> (edges t)\<^sup>*"
  moreover have "(sto_parent c, sto_id c) \<in> edges t" using assms(2) by (auto simp: edges_def)
  ultimately have "(sto_parent c, sto_parent c) \<in> (edges t)\<^sup>+" by (meson rtrancl_into_trancl2)
  with assms(1) show False by (auto simp: hierarchy_def acyclic_def)
qed

section \<open>What the operations write\<close>

lemma reads_storage [reads_rules]:
  "reads_only (storage_try_get i)" "reads_only (storage_get i)"
  "reads_only (has_active_children_checked i)" "reads_only (valid_destination_checked ws i cap x)"
  "reads_only (has_inventory_checked i)" "reads_only (has_collection_checked i)"
  "reads_only (is_descendant_checked i j)"
  by (auto simp: storage_try_get_def storage_get_def has_active_children_checked_def
      valid_destination_checked_def has_inventory_checked_def has_collection_checked_def
      is_descendant_checked_def intro!: reads_rules)

lemma reads_validation [reads_rules]:
  "reads_only (validate_workspace ws)" "reads_only (validate_type ty)"
  "reads_only (validate_workspace_and_type ws ty)" "reads_only (validate_parent ws p)"
  "reads_only (check_not_below i p)" "reads_only (check_capability_loss l q)"
  "reads_only (check_deactivation i)"
  by (auto simp: validate_workspace_def validate_type_def validate_workspace_and_type_def
      validate_parent_def check_not_below_def check_capability_loss_def check_deactivation_def
      intro!: reads_rules)

lemma reads_checks [reads_rules]:
  "reads_only (check_reactivation ws l)" "reads_only (checked_edit q)"
  by (auto simp: check_reactivation_def checked_edit_def intro!: reads_rules)

lemma reads_hierarchy_path [reads_rules]: "reads_only (hierarchy_path ws visited i names)"
proof (induction ws visited i names rule: hierarchy_path.induct)
  case (1 ws visited current names)
  then show ?case
    by (subst hierarchy_path.simps) (auto intro!: reads_rules)
qed

lemma reads_authoritative [reads_rules]: "reads_only (authoritative i)"
  by (auto simp: authoritative_def intro!: reads_rules)

lemmas keeps_storage_reads [keeps_rules] = reads_storage [THEN reads_keeps]
  reads_validation [THEN reads_keeps] reads_checks [THEN reads_keeps]
  reads_authoritative [THEN reads_keeps]

text \<open>After a computation that only reads, whatever it answers, the tables are those before it.\<close>

lemma after_reading:
  "reads_only m \<Longrightarrow> run_state m s = (a, s1) \<Longrightarrow> tables s1 = tables s"
  using readsD by fast

definition parent_ok :: "int \<Rightarrow> int \<Rightarrow> tables \<Rightarrow> bool" where
  "parent_ok ws parent t \<longleftrightarrow> parent = 0 \<or> 0 < parent \<and>
     (\<exists>p\<in>set (storage t). sto_id p = parent \<and> sto_workspace p = ws \<and> sto_active p)"

lemma validate_parent_ok:
  "run_state (validate_parent ws parent) s = (None, s') \<Longrightarrow> parent_ok ws parent (tables s)"
  by (auto simp: validate_parent_def storage_try_get_def parent_ok_def run_simps
      split: if_splits option.splits dest: find_SomeD)

lemma check_not_below_ok:
  assumes "run_state (check_not_below i parent) s = (None, s')" "0 < parent"
  shows "(i, parent) \<notin> (edges (tables s))\<^sup>*"
proof
  assume "(i, parent) \<in> (edges (tables s))\<^sup>*"
  then have "i = parent \<or> parent \<in> set (descendants i (tables s))"
    by (auto simp: descendants_exact rtrancl_eq_or_trancl)
  with assms show False
    by (auto simp: check_not_below_def is_descendant_checked_def check_of_def run_simps
        split: if_splits prod.splits option.splits)
qed

lemma add_location_writes:
  assumes "run_state (add_location q) s = (r, s')"
  shows "tables s' = tables s \<or> (\<exists>now. parent_ok (adr_workspace q) (adr_parent q) (tables s)
    \<and> tables s' = snd (insert_location ((new_location q)\<lparr>sto_parent := nullable (adr_parent q),
         sto_name := trimmed (trimmed (adr_name q)), sto_modified := now\<rparr>) (tables s))
    \<and> constraints (tables s'))"
proof -
  obtain e1 s1 where v1: "run_state (validate_workspace_and_type (adr_workspace q) (adr_type q)) s = (e1, s1)"
    by fastforce
  obtain e2 s2 where v2: "run_state (validate_parent (adr_workspace q) (adr_parent q)) s1 = (e2, s2)"
    by fastforce
  have t: "tables s1 = tables s" "tables s2 = tables s"
    using after_reading [OF _ v1] after_reading [OF _ v2] reads_validation by auto
  note ok = validate_parent_ok [of "adr_workspace q" "adr_parent q" s1 s2]
  show ?thesis
    using assms v1 v2 t ok
    by (auto simp: add_location_def run_simps storage_create_def new_location_def
        split: if_splits option.splits prod.splits
        dest!: after_reading [OF reads_authoritative])
qed

lemma storage_try_get_found:
  "run_state (storage_try_get i) s = (Some (Some l), s') \<Longrightarrow> l \<in> set (storage (tables s)) \<and> sto_id l = i"
  by (auto simp: storage_try_get_def run_simps split: if_splits dest: find_SomeD)

lemma checked_edit_ok:
  assumes "run_state (checked_edit q) s = (Inr current, s')"
  shows "current \<in> set (storage (tables s)) \<and> sto_id current = edr_storage q
    \<and> sto_workspace current = edr_workspace q
    \<and> parent_ok (edr_workspace q) (edr_parent q) (tables s)
    \<and> (0 < edr_parent q \<longrightarrow> (edr_storage q, edr_parent q) \<notin> (edges (tables s))\<^sup>*)"
proof -
  obtain row s0 where v0: "run_state (storage_try_get (edr_storage q)) s = (row, s0)" by fastforce
  obtain e1 s1 where v1: "run_state (validate_workspace_and_type (edr_workspace q) (edr_type q)) s0 = (e1, s1)"
    by fastforce
  obtain e2 s2 where v2: "run_state (validate_parent (edr_workspace q) (edr_parent q)) s1 = (e2, s2)"
    by fastforce
  obtain e3 s3 where v3: "run_state (check_not_below (edr_storage q) (edr_parent q)) s2 = (e3, s3)"
    by fastforce
  have t: "tables s0 = tables s" "tables s1 = tables s" "tables s2 = tables s"
    using after_reading [OF _ v0] after_reading [OF _ v1] after_reading [OF _ v2]
      reads_storage reads_validation by auto
  have "row = Some (Some current) \<and> sto_workspace current = edr_workspace q \<and> e2 = None \<and> e3 = None"
    using assms v0 v1 v2 v3
    by (auto simp: checked_edit_def run_simps split: if_splits option.splits prod.splits)
  with v0 v2 v3 t storage_try_get_found [of "edr_storage q" s current s0]
    validate_parent_ok [of "edr_workspace q" "edr_parent q" s1 s2]
    check_not_below_ok [of "edr_storage q" "edr_parent q" s2 s3]
  show ?thesis by simp
qed

text \<open>The update an edit runs, on the row it is about.\<close>

definition write_edit :: "storage_row \<Rightarrow> int \<Rightarrow> storage_row \<Rightarrow> storage_row" where
  "write_edit l now x = x\<lparr>sto_parent := nullable (sto_parent l), sto_type := sto_type l,
     sto_name := trimmed (sto_name l), sto_description := sto_description l,
     sto_sort := sto_sort l, sto_active := sto_active l,
     sto_allows_inventory := sto_allows_inventory l,
     sto_allows_collection := sto_allows_collection l, sto_modified := now\<rparr>"

lemma edit_location_writes:
  assumes "run_state (edit_location q) s = (r, s')"
  shows "tables s' = tables s \<or> (\<exists>current now. current \<in> set (storage (tables s))
    \<and> sto_id current = edr_storage q \<and> sto_workspace current = edr_workspace q
    \<and> parent_ok (edr_workspace q) (edr_parent q) (tables s)
    \<and> (0 < edr_parent q \<longrightarrow> (edr_storage q, edr_parent q) \<notin> (edges (tables s))\<^sup>*)
    \<and> tables s' = snd (update_locations
         (\<lambda>x. sto_id x = edr_storage q \<and> sto_workspace x = edr_workspace q)
         (write_edit (edited_location current q) now) (tables s))
    \<and> constraints (tables s'))"
proof -
  obtain e s1 where v: "run_state (checked_edit q) s = (e, s1)" by fastforce
  have t: "tables s1 = tables s" using after_reading [OF reads_checks(2) v] .
  show ?thesis
  proof (cases e)
    case (Inl a)
    with assms v t show ?thesis
      by (auto simp: edit_location_def run_simps split: if_splits)
  next
    case (Inr current)
    note ok = checked_edit_ok [OF v [unfolded Inr]]
    have row: "sto_id (edited_location current q) = edr_storage q"
      "sto_workspace (edited_location current q) = edr_workspace q"
      using ok by (simp_all add: edited_location_def)
    have "tables s' = tables s \<or> (\<exists>now. tables s' = snd (update_locations
         (\<lambda>x. sto_id x = edr_storage q \<and> sto_workspace x = edr_workspace q)
         (write_edit (edited_location current q) now) (tables s)) \<and> constraints (tables s'))"
      using assms v t Inr row
      by (auto simp: edit_location_def storage_update_def write_edit_def [abs_def] run_simps
          split: if_splits option.splits prod.splits
          dest!: after_reading [OF reads_authoritative])
    with ok show ?thesis by blast
  qed
qed

lemma set_location_active_writes:
  assumes "run_state (set_location_active ws i active expected) s = (r, s')"
  shows "tables s' = tables s \<or> (\<exists>current now. current \<in> set (storage (tables s))
    \<and> sto_id current = i \<and> 0 < i \<and> sto_active current \<noteq> active
    \<and> (if active then tables s' = snd (reactivate_in i now (tables s))
         \<and> parent_ok ws (sto_parent current) (tables s)
       else tables s' = snd (update_locations (\<lambda>l. sto_id l = i \<and> sto_active l)
           (\<lambda>l. l\<lparr>sto_active := False, sto_modified := now\<rparr>) (tables s))
         \<and> \<not> has_active_children i (tables s) \<and> \<not> has_inventory i (tables s)
         \<and> \<not> has_collection i (tables s))
    \<and> sto_workspace current = ws \<and> constraints (tables s'))"
proof -
  obtain row s0 where v0: "run_state (storage_try_get i) s = (row, s0)" by fastforce
  obtain e1 s1 where v1: "run_state (validate_workspace ws) s0 = (e1, s1)" by fastforce
  have t: "tables s0 = tables s" "tables s1 = tables s"
    using after_reading [OF _ v0] after_reading [OF _ v1] reads_storage reads_validation by auto
  show ?thesis
  proof (cases "\<exists>current. row = Some (Some current) \<and> sto_workspace current = ws
      \<and> matches_expected current expected \<and> sto_active current \<noteq> active \<and> e1 = None \<and> 0 < i")
    case False
    with assms v0 v1 t show ?thesis
      by (auto simp: set_location_active_def run_simps split: if_splits option.splits)
  next
    case True
    then obtain current where cur: "row = Some (Some current)" "sto_workspace current = ws"
      "matches_expected current expected" "sto_active current \<noteq> active" "e1 = None" "0 < i" by blast
    note found = storage_try_get_found [OF v0 [unfolded cur(1)]]
    show ?thesis
    proof (cases active)
      case True
      obtain e2 s2 where v2: "run_state (check_reactivation ws current) s1 = (e2, s2)" by fastforce
      have t2: "tables s2 = tables s" using after_reading [OF reads_checks(1) v2] t by simp
      have "e2 = None \<Longrightarrow> parent_ok ws (sto_parent current) (tables s)"
        using v2 t after_reading [OF reads_validation(2)] validate_parent_ok
        by (auto simp: check_reactivation_def run_simps split: prod.splits option.splits) metis
      moreover have "tables s' = tables s \<or> e2 = None \<and>
          (\<exists>now. tables s' = snd (reactivate_in i now (tables s)) \<and> constraints (tables s'))"
        using assms True cur v0 v1 v2 t t2
        by (auto simp: set_location_active_def storage_reactivate_def run_simps
            split: if_splits option.splits prod.splits
            dest!: after_reading [OF reads_authoritative])
      ultimately show ?thesis using True cur found by simp blast
    next
      case False
      obtain e2 s2 where v2: "run_state (check_deactivation i) s1 = (e2, s2)" by fastforce
      have t2: "tables s2 = tables s" using after_reading [OF reads_validation(7) v2] t by simp
      have "e2 = None \<Longrightarrow> \<not> has_active_children i (tables s) \<and> \<not> has_inventory i (tables s)
          \<and> \<not> has_collection i (tables s)"
        using v2 t cur(6)
        by (auto simp: check_deactivation_def has_active_children_checked_def
            has_inventory_checked_def has_collection_checked_def check_of_def run_simps
            split: if_splits)
      moreover have "tables s' = tables s \<or> e2 = None \<and> (\<exists>now. tables s' = snd (update_locations
          (\<lambda>l. sto_id l = i \<and> sto_active l) (\<lambda>l. l\<lparr>sto_active := False, sto_modified := now\<rparr>)
          (tables s)) \<and> constraints (tables s'))"
        using assms False cur v0 v1 v2 t t2
        by (auto simp: set_location_active_def storage_deactivate_def run_simps
            split: if_splits option.splits prod.splits
            dest!: after_reading [OF reads_authoritative])
      ultimately show ?thesis using False cur found by simp blast
    qed
  qed
qed

section \<open>Every sequence of changes\<close>

datatype storage_call =
    AddLocation add_location_request
  | EditLocation edit_location_request
  | SetLocationActive int int bool "storage_row option"

fun call_storage :: "storage_call \<Rightarrow> (session, storage_error + storage_row \<times> string list) state" where
  "call_storage (AddLocation q) = add_location q"
| "call_storage (EditLocation q) = edit_location q"
| "call_storage (SetLocationActive ws i active expected) = set_location_active ws i active expected"

inductive storage_reachable :: "tables \<Rightarrow> tables \<Rightarrow> bool" for t where
  start: "storage_reachable t t"
| step: "storage_reachable t t1 \<Longrightarrow> tables s = t1 \<Longrightarrow> run_state (call_storage c) s = (r, s') \<Longrightarrow>
    storage_reachable t (tables s')"

lemma distinct_location:
  "hierarchy t \<Longrightarrow> l \<in> set (storage t) \<Longrightarrow> m \<in> set (storage t) \<Longrightarrow> sto_id l = sto_id m \<Longrightarrow> l = m"
  by (auto simp: hierarchy_def distinct_map inj_on_def)

lemma placed_parent: "parent_ok ws p t \<Longrightarrow> sto_workspace l = ws \<Longrightarrow> sto_parent l = nullable p \<Longrightarrow> placed (storage t) l"
  by (auto simp: parent_ok_def placed_def nullable_def)

lemma add_location_hierarchy:
  assumes "run_state (add_location q) s = (r, s')" "hierarchy (tables s)"
  shows "hierarchy (tables s')"
  using add_location_writes [OF assms(1)] assms(2)
  by (auto intro!: hierarchy_insert placed_parent simp: new_location_def)

lemma edit_location_hierarchy:
  assumes "run_state (edit_location q) s = (r, s')" "hierarchy (tables s)"
  shows "hierarchy (tables s')"
proof -
  let ?t = "tables s"
  consider "tables s' = ?t" | current now where "current \<in> set (storage ?t)"
    "sto_id current = edr_storage q" "sto_workspace current = edr_workspace q"
    "parent_ok (edr_workspace q) (edr_parent q) ?t"
    "0 < edr_parent q \<Longrightarrow> (edr_storage q, edr_parent q) \<notin> (edges ?t)\<^sup>*"
    "tables s' = snd (update_locations
         (\<lambda>x. sto_id x = edr_storage q \<and> sto_workspace x = edr_workspace q)
         (write_edit (edited_location current q) now) ?t)"
    using edit_location_writes [OF assms(1)] by blast
  then show ?thesis
  proof cases
    case 1
    with assms(2) show ?thesis by simp
  next
    case (2 current now)
    let ?f = "write_edit (edited_location current q) now"
    have pos: "0 < sto_id current" using assms(2) 2(1) by (simp add: hierarchy_def)
    have f: "sto_id (?f current) = sto_id current" "sto_workspace (?f current) = sto_workspace current"
      "sto_active (?f current) = sto_active current" "sto_parent (?f current) = nullable (edr_parent q)"
      by (simp_all add: write_edit_def edited_location_def)
    have "(sto_id current, nullable (edr_parent q)) \<notin> (edges ?t)\<^sup>*"
      using 2(2,5) pos root_reaches_nothing [of ?t "sto_id current"] assms(2)
      by (auto simp: nullable_def hierarchy_def)
    then show ?thesis
      using f 2(1,6) placed_parent [OF 2(4), of "?f current"] 2(2,3)
      by (intro hierarchy_replace [OF assms(2) 2(1), where f = ?f and
            P = "\<lambda>x. sto_id x = edr_storage q \<and> sto_workspace x = edr_workspace q"])
        (auto simp: update_locations_def intro: distinct_location [OF assms(2)])
  qed
qed

lemma set_location_active_hierarchy:
  assumes "run_state (set_location_active ws i active expected) s = (r, s')" "hierarchy (tables s)"
  shows "hierarchy (tables s')"
proof -
  let ?t = "tables s"
  let ?f = "\<lambda>now l. l\<lparr>sto_active := active, sto_modified := now\<rparr>"
  consider "tables s' = ?t" | current now P where "current \<in> set (storage ?t)" "sto_id current = i"
    "storage (tables s') = update_where P (?f now) (storage ?t)"
    "seq_storage (tables s') = seq_storage ?t"
    "\<And>l. P l \<Longrightarrow> sto_id l = i"
    "active \<Longrightarrow> parent_ok ws (sto_parent current) ?t" "sto_workspace current = ws"
    "\<not> active \<Longrightarrow> \<not> has_active_children i ?t"
  proof (cases "tables s' = ?t")
    case False
    with set_location_active_writes [OF assms(1)] obtain current now where
      raw: "current \<in> set (storage ?t) \<and> sto_id current = i \<and> 0 < i \<and> sto_active current \<noteq> active
        \<and> (if active then tables s' = snd (reactivate_in i now ?t) \<and> parent_ok ws (sto_parent current) ?t
           else tables s' = snd (update_locations (\<lambda>l. sto_id l = i \<and> sto_active l)
               (\<lambda>l. l\<lparr>sto_active := False, sto_modified := now\<rparr>) ?t)
             \<and> \<not> has_active_children i ?t \<and> \<not> has_inventory i ?t \<and> \<not> has_collection i ?t)
        \<and> sto_workspace current = ws \<and> constraints (tables s')" by blast
    then have c: "current \<in> set (storage ?t)" "sto_id current = i" "sto_workspace current = ws" and
      w: "if active then tables s' = snd (reactivate_in i now ?t) \<and> parent_ok ws (sto_parent current) ?t
       else tables s' = snd (update_locations (\<lambda>l. sto_id l = i \<and> sto_active l)
           (\<lambda>l. l\<lparr>sto_active := False, sto_modified := now\<rparr>) ?t) \<and> \<not> has_active_children i ?t"
      by (simp_all split: if_splits)
    show ?thesis
    proof (cases active)
      case True
      with w c show ?thesis
        by (intro that(2) [of current "\<lambda>l. sto_id l = i \<and> \<not> sto_active l \<and> (sto_parent l = 0 \<or>
            list_ex (\<lambda>p. sto_id p = sto_parent l \<and> sto_active p) (storage ?t))" now])
          (auto simp: reactivate_in_def update_locations_def)
    next
      case False
      with w c show ?thesis
        by (intro that(2) [of current "\<lambda>l. sto_id l = i \<and> sto_active l" now])
          (auto simp: update_locations_def)
    qed
  qed
  then show ?thesis
  proof cases
    case 1
    with assms(2) show ?thesis by simp
  next
    case (2 current now P)
    have "placed (storage ?t) (?f now current)"
    proof (cases active)
      case True
      have "nullable (sto_parent current) = sto_parent current"
        using 2(6) [OF True] by (auto simp: parent_ok_def nullable_def)
      then show ?thesis using placed_parent [OF 2(6) [OF True], of "?f now current"] 2(7) by simp
    next
      case False
      with assms(2) 2(1) show ?thesis by (auto simp: hierarchy_def placed_def)
    qed
    moreover have "active \<or> (\<forall>m\<in>set (storage ?t). sto_parent m = sto_id current \<longrightarrow> \<not> sto_active m)"
      using 2(2,8) by (auto simp: has_active_children_def count_where_pos)
    ultimately show ?thesis
      using 2(1-5) not_below_self [OF assms(2) 2(1)]
      by (intro hierarchy_replace [OF assms(2) 2(1) 2(3,4)])
        (auto intro: distinct_location [OF assms(2)])
  qed
qed

section \<open>Properties\<close>

text \<open>
  Property C7. Every sequence of additions, edits, deactivations and reactivations of storage
  locations, under any database faults, keeps the locations a forest: no location is ever above
  itself, every parent is in the workspace of its child, and every active location has an active
  parent.
\<close>

theorem storage_calls_keep_hierarchy:
  "storage_reachable t t' \<Longrightarrow> hierarchy t \<Longrightarrow> hierarchy t'"
proof (induction rule: storage_reachable.induct)
  case start
  then show ?case .
next
  case (step t1 s c r s')
  then show ?case
    by (cases c) (auto dest: add_location_hierarchy edit_location_hierarchy set_location_active_hierarchy)
qed

lemma hierarchy_sample: "hierarchy sample"
proof -
  have "edges sample = {(0, 1), (1, 2)}" by (auto simp: edges_def sample_defs)
  moreover have "acyclic {(0::int, 1), (1::int, 2)}"
    by (rule wf_acyclic, rule wf_subset [OF wf_measure [of nat]]) (auto simp: )
  ultimately show ?thesis by (simp add: hierarchy_def placed_def sample_defs)
qed

definition sample_edit :: "int \<Rightarrow> int \<Rightarrow> edit_location_request" where
  "sample_edit i parent = \<lparr>edr_workspace = 1, edr_storage = i, edr_parent = parent, edr_type = 1,
     edr_name = '' Shelf '', edr_description = [], edr_allows_inventory = True,
     edr_allows_collection = False, edr_expected = None\<rparr>"

text \<open>Location 2 becomes a root; putting location 1 below its descendant 2 is refused.\<close>

theorem storage_calls_keep_hierarchy_witness:
  "hierarchy (tables (snd (run_state (call_storage (EditLocation (sample_edit 2 0))) (connect sample))))
   \<and> map_option sto_parent (find (\<lambda>l. sto_id l = 2) (storage (tables (snd
       (run_state (call_storage (EditLocation (sample_edit 2 0))) (connect sample)))))) = Some 0
   \<and> fst (run_state (call_storage (EditLocation (sample_edit 1 2))) (connect sample)) = Inl DescendantCycle"
proof (intro conjI)
  have "storage_reachable sample
      (tables (snd (run_state (call_storage (EditLocation (sample_edit 2 0))) (connect sample))))"
    by (rule storage_reachable.step [OF storage_reachable.start, where s = "connect sample"
          and c = "EditLocation (sample_edit 2 0)"]) (simp_all add: prod_eq_iff)
  then show "hierarchy (tables (snd (run_state (call_storage (EditLocation (sample_edit 2 0))) (connect sample))))"
    by (rule storage_calls_keep_hierarchy [OF _ hierarchy_sample])
  show "map_option sto_parent (find (\<lambda>l. sto_id l = 2) (storage (tables (snd
       (run_state (call_storage (EditLocation (sample_edit 2 0))) (connect sample)))))) = Some 0"
    by code_simp
  show "fst (run_state (call_storage (EditLocation (sample_edit 1 2))) (connect sample)) = Inl DescendantCycle"
    by code_simp
qed

lemma set_location_active_wrote:
  assumes "run_state (set_location_active ws i False expected) s = (Inr result, s')"
  shows "\<exists>now. tables s' = snd (update_locations (\<lambda>l. sto_id l = i \<and> sto_active l)
      (\<lambda>l. l\<lparr>sto_active := False, sto_modified := now\<rparr>) (tables s))
    \<and> \<not> has_active_children i (tables s) \<and> \<not> has_inventory i (tables s)
    \<and> \<not> has_collection i (tables s)"
proof -
  obtain row s0 where v0: "run_state (storage_try_get i) s = (row, s0)" by fastforce
  obtain e1 s1 where v1: "run_state (validate_workspace ws) s0 = (e1, s1)" by fastforce
  obtain e2 s2 where v2: "run_state (check_deactivation i) s1 = (e2, s2)" by fastforce
  have t: "tables s0 = tables s" "tables s1 = tables s" "tables s2 = tables s"
    using after_reading [OF _ v0] after_reading [OF _ v1] after_reading [OF _ v2]
      reads_storage reads_validation by auto
  have e: "e2 = None" "0 < i"
    using assms v0 v1 v2 by (auto simp: set_location_active_def run_simps split: if_splits option.splits)
  then have "\<not> has_active_children i (tables s) \<and> \<not> has_inventory i (tables s)
      \<and> \<not> has_collection i (tables s)"
    using v2 t by (auto simp: check_deactivation_def has_active_children_checked_def
        has_inventory_checked_def has_collection_checked_def check_of_def run_simps split: if_splits)
  moreover have "\<exists>now. tables s' = snd (update_locations (\<lambda>l. sto_id l = i \<and> sto_active l)
      (\<lambda>l. l\<lparr>sto_active := False, sto_modified := now\<rparr>) (tables s))"
    using assms v0 v1 v2 t e
    by (auto simp: set_location_active_def storage_deactivate_def run_simps
        split: if_splits option.splits prod.splits dest!: after_reading [OF reads_authoritative])
  ultimately show ?thesis by blast
qed

text \<open>
  Property C12. A location that was deactivated is empty: no loose pieces are stored in it, no
  active Collection item is kept in it, and no active location is below it.
\<close>

theorem deactivated_location_is_empty:
  assumes "run_state (set_location_active ws i False expected) s = (Inr result, s')"
  shows "\<not> has_inventory i (tables s') \<and> \<not> has_collection i (tables s')
    \<and> \<not> has_active_children i (tables s')
    \<and> (\<forall>l\<in>set (storage (tables s')). sto_id l = i \<longrightarrow> \<not> sto_active l)"
proof -
  from set_location_active_wrote [OF assms(1)] obtain now where
    t': "tables s' = snd (update_locations (\<lambda>l. sto_id l = i \<and> sto_active l)
      (\<lambda>l. l\<lparr>sto_active := False, sto_modified := now\<rparr>) (tables s))"
    "\<not> has_active_children i (tables s)" "\<not> has_inventory i (tables s)"
    "\<not> has_collection i (tables s)" by blast
  let ?P = "\<lambda>l. sto_id l = i \<and> sto_active l"
  let ?f = "\<lambda>l. l\<lparr>sto_active := False, sto_modified := now\<rparr>"
  have same: "inventory (tables s') = inventory (tables s)" "collection (tables s') = collection (tables s)"
    "storage (tables s') = update_where ?P ?f (storage (tables s))"
    by (simp_all add: t'(1) update_locations_def)
  have old: "\<exists>m\<in>set (storage (tables s)). l = m \<and> \<not> ?P m \<or> l = ?f m" if "l \<in> set (storage (tables s'))" for l
    using that by (auto simp: same set_update_where)
  have "\<not> has_inventory i (tables s')" "\<not> has_collection i (tables s')"
    using t'(3,4) by (simp_all add: has_inventory_def has_collection_def same)
  moreover have "\<not> has_active_children i (tables s')"
    using t'(2) old by (fastforce simp: has_active_children_def count_where_pos)
  moreover have "\<forall>l\<in>set (storage (tables s')). sto_id l = i \<longrightarrow> \<not> sto_active l"
    using old by fastforce
  ultimately show ?thesis by blast
qed

definition sample_emptied :: tables where
  "sample_emptied = sample\<lparr>inventory := [sample_row 1 1 1 20, sample_row 2 2 2 0]\<rparr>"

theorem deactivated_location_is_empty_witness:
  "\<not> has_inventory 2 (tables (snd (run_state (set_location_active 1 2 False None) (connect sample_emptied))))
   \<and> fst (run_state (set_location_active 1 2 False None) (connect sample)) = Inl InventoryOccupied"
proof
  let ?run = "run_state (set_location_active 1 2 False None) (connect sample_emptied)"
  have "fst ?run = Inr ((sample_location 2 1)\<lparr>sto_active := False\<rparr>, [''Drawer'', ''Drawer''])"
    by code_simp
  then have "?run = (Inr ((sample_location 2 1)\<lparr>sto_active := False\<rparr>, [''Drawer'', ''Drawer'']), snd ?run)"
    by (simp add: prod_eq_iff)
  from deactivated_location_is_empty [OF this]
  show "\<not> has_inventory 2 (tables (snd ?run))" by simp
  show "fst (run_state (set_location_active 1 2 False None) (connect sample)) = Inl InventoryOccupied"
    by code_simp
qed

text \<open>
  Property C11. The recursive query behind \<open>isDescendantChecked\<close> answers exactly whether a
  location lies in the subtree of another, on any table, even one whose parents form a cycle:
  the iteration always ends and finds every descendant.
\<close>

theorem is_descendant_exact:
  assumes "0 < i" "0 < j" "\<not> fails_next s"
  shows "fst (run_state (is_descendant_checked i j) s) = (if (i, j) \<in> (edges (tables s))\<^sup>* then Yes else No)"
  using assms
  by (auto simp: is_descendant_checked_def run_simps check_of_def descendants_exact
      rtrancl_eq_or_trancl)

theorem is_descendant_exact_witness:
  "fst (run_state (is_descendant_checked 1 2) (connect sample)) = Yes \<and> (1, 2) \<in> (edges sample)\<^sup>*"
proof -
  have "(1, 2) \<in> edges sample" by (simp add: edges_def sample_defs)
  then have "(1, 2) \<in> (edges sample)\<^sup>*" by blast
  with is_descendant_exact [of 1 2 "connect sample"] show ?thesis by simp
qed

lemma path_resolves:
  assumes "hierarchy (tables s)" "length (storage (tables s)) \<le> 10000" "faults s = []"
    and "distinct visited" "set visited \<subseteq> sto_id ` set (storage (tables s))"
    and "\<forall>v\<in>set visited. (current, v) \<in> (edges (tables s))\<^sup>+"
    and "current = 0 \<or> (\<exists>l\<in>set (storage (tables s)). sto_id l = current \<and> sto_workspace l = ws)"
  shows "\<exists>above. fst (run_state (hierarchy_path ws visited current names) s) = Some (above @ names)"
  using assms
proof (induction "length (storage (tables s)) - length visited" arbitrary: s visited current names
    rule: less_induct)
  case less
  let ?ls = "storage (tables s)"
  show ?case
  proof (cases "current = 0")
    case True
    then show ?thesis by (subst hierarchy_path.simps) (simp add: run_simps)
  next
    case False
    with less.prems(7) obtain l where l: "l \<in> set ?ls" "sto_id l = current" "sto_workspace l = ws" by blast
    have acyc: "acyclic (edges (tables s))" and pos: "0 < current"
      and keys: "distinct (map sto_id ?ls)" and placed: "placed ?ls l"
      using less.prems(1) l by (auto simp: hierarchy_def)
    have new: "current \<notin> set visited" using less.prems(6) acyc by (auto simp: acyclic_def)
    have ids: "set (current # visited) \<subseteq> sto_id ` set ?ls" using less.prems(5) l by auto
    have "length (current # visited) \<le> length ?ls"
      using card_mono [OF _ ids] distinct_card [of "current # visited"] new less.prems(4)
        card_image_le [of "set ?ls" sto_id] card_length [of ?ls] by simp
    then have short: "length visited < length ?ls" by simp
    have find: "find (\<lambda>x. sto_id x = current) ?ls = Some l"
      using sto.lookup_unique [OF keys l(1)] l(2) by simp
    have tick: "tick s = s" using less.prems(3) by (simp add: tick_def)
    have run: "run_state (hierarchy_path ws visited current names) s
      = run_state (hierarchy_path ws (current # visited) (sto_parent l) (sto_name l # names)) s"
      using pos new short less.prems(2,3) l(3)
      by (subst hierarchy_path.simps) (simp add: run_simps storage_try_get_def find tick)
    have edge: "(sto_parent l, current) \<in> edges (tables s)" using l by (auto simp: edges_def)
    have "\<exists>above. fst (run_state (hierarchy_path ws (current # visited) (sto_parent l)
        (sto_name l # names)) s) = Some (above @ sto_name l # names)"
    proof (rule less.hyps)
      show "\<forall>v\<in>set (current # visited). (sto_parent l, v) \<in> (edges (tables s))\<^sup>+"
        using edge less.prems(6) by (auto intro: trancl_into_trancl2)
      show "sto_parent l = 0 \<or> (\<exists>p\<in>set ?ls. sto_id p = sto_parent l \<and> sto_workspace p = ws)"
        using placed l(3) by (auto simp: placed_def)
    qed (use less.prems short new ids in auto)
    then obtain above where
      "fst (run_state (hierarchy_path ws (current # visited) (sto_parent l) (sto_name l # names)) s)
        = Some ((above @ [sto_name l]) @ names)" by auto
    with run show ?thesis by metis
  qed
qed

text \<open>
  Property C13. The walk that builds the display path of a location ends at a root: with the
  hierarchy intact and at most 10000 locations, no stored location is ever reported as lying in
  an invalid hierarchy, and the path ends with the name of the location.
\<close>

theorem display_path_resolves:
  assumes "hierarchy (tables s)" "length (storage (tables s)) \<le> 10000" "faults s = []"
    "l \<in> set (storage (tables s))"
  shows "\<exists>above. fst (run_state (authoritative (sto_id l)) s) = Inr (l, above @ [sto_name l])"
proof -
  have keys: "distinct (map sto_id (storage (tables s)))" and pos: "0 < sto_id l"
    and placed: "placed (storage (tables s)) l" using assms(1,4) by (auto simp: hierarchy_def)
  have find: "find (\<lambda>x. sto_id x = sto_id l) (storage (tables s)) = Some l"
    by (rule sto.lookup_unique [OF keys assms(4)])
  have tick: "tick s = s" using assms(3) by (simp add: tick_def)
  have short: "0 < length (storage (tables s))" using assms(4) by (cases "storage (tables s)") auto
  have run: "run_state (hierarchy_path (sto_workspace l) [] (sto_id l) []) s
      = run_state (hierarchy_path (sto_workspace l) [sto_id l] (sto_parent l) [sto_name l]) s"
    using pos assms(3)
    by (subst hierarchy_path.simps) (simp add: run_simps storage_try_get_def find tick)
  obtain above where
    "fst (run_state (hierarchy_path (sto_workspace l) [sto_id l] (sto_parent l) [sto_name l]) s)
      = Some (above @ [sto_name l])"
    using path_resolves [OF assms(1-3), of "[sto_id l]" "sto_parent l" "sto_workspace l" "[sto_name l]"]
      assms(4) placed by (auto simp: edges_def placed_def)
  with run assms(3) show ?thesis
    by (auto simp: authoritative_def run_simps storage_try_get_def find tick split: prod.splits)
qed

theorem display_path_resolves_witness:
  "\<exists>above. fst (run_state (authoritative 2) (connect sample))
    = Inr (sample_location 2 1, above @ [''Drawer''])"
  using display_path_resolves [of "connect sample" "sample_location 2 1"] hierarchy_sample
  by (simp add: sample_defs)

end
