(* ===== verification/CollectionItems.thy ===== *)
theory CollectionItems
  imports StorageHierarchy
begin

text \<open>
  My Collection: \<open>models/CollectionItem\<close>, \<open>CollectionRepository\<close> and
  \<open>CollectionItemService\<close>. An item is a Set, a Minifig or a MOC owned as a whole; it may come
  from a completed Build, and then it carries the catalog identity of that Build.
\<close>

section \<open>CollectionItem\<close>

datatype item_type = SetItem | MinifigItem | MocItem | InvalidType
datatype item_state = Assembled | Unassembled | PartiallyAssembled | Sealed | InvalidItemState
datatype item_condition = NewItem | UsedItem | InvalidCondition
datatype item_completeness = UnknownItem | CompleteItem | IncompleteItem | InvalidCompleteness

fun type_to_string :: "item_type \<Rightarrow> string" where
  "type_to_string SetItem = ''Set''"
| "type_to_string MinifigItem = ''Minifig''"
| "type_to_string MocItem = ''MOC''"
| "type_to_string InvalidType = []"

definition type_from_string :: "string \<Rightarrow> item_type" where
  "type_from_string v = (if v = ''Set'' then SetItem else if v = ''Minifig'' then MinifigItem
     else if v = ''MOC'' then MocItem else InvalidType)"

fun state_to_string :: "item_state \<Rightarrow> string" where
  "state_to_string Assembled = ''Assembled''"
| "state_to_string Unassembled = ''Unassembled''"
| "state_to_string PartiallyAssembled = ''PartiallyAssembled''"
| "state_to_string Sealed = ''Sealed''"
| "state_to_string InvalidItemState = []"

definition state_from_string :: "string \<Rightarrow> item_state" where
  "state_from_string v = (if v = ''Assembled'' then Assembled
     else if v = ''Unassembled'' then Unassembled
     else if v = ''PartiallyAssembled'' then PartiallyAssembled
     else if v = ''Sealed'' then Sealed else InvalidItemState)"

fun condition_to_string :: "item_condition \<Rightarrow> string" where
  "condition_to_string NewItem = ''New''"
| "condition_to_string UsedItem = ''Used''"
| "condition_to_string InvalidCondition = []"

definition condition_from_string :: "string \<Rightarrow> item_condition" where
  "condition_from_string v = (if v = ''New'' then NewItem
     else if v = ''Used'' then UsedItem else InvalidCondition)"

fun completeness_to_string :: "item_completeness \<Rightarrow> string" where
  "completeness_to_string UnknownItem = ''Unknown''"
| "completeness_to_string CompleteItem = ''Complete''"
| "completeness_to_string IncompleteItem = ''Incomplete''"
| "completeness_to_string InvalidCompleteness = []"

definition completeness_from_string :: "string \<Rightarrow> item_completeness" where
  "completeness_from_string v = (if v = ''Unknown'' then UnknownItem
     else if v = ''Complete'' then CompleteItem
     else if v = ''Incomplete'' then IncompleteItem else InvalidCompleteness)"

record collection_item =
  itm_id :: int
  itm_workspace :: int
  itm_type :: item_type
  itm_set_catalog :: int
  itm_minifig_catalog :: int
  itm_state :: item_state
  itm_condition :: item_condition
  itm_completeness :: item_completeness
  itm_storage :: int
  itm_source_build :: int
  itm_nickname :: string
  itm_notes :: string
  itm_allow_parts :: bool
  itm_active :: bool
  itm_modified :: int

text \<open>A default-constructed item (the member initialisers of \<open>CollectionItem.h\<close>).\<close>

definition blank_item :: collection_item where
  "blank_item = \<lparr>itm_id = 0, itm_workspace = 0, itm_type = InvalidType, itm_set_catalog = 0,
     itm_minifig_catalog = 0, itm_state = InvalidItemState, itm_condition = UsedItem,
     itm_completeness = UnknownItem, itm_storage = 0, itm_source_build = 0, itm_nickname = [],
     itm_notes = [], itm_allow_parts = False, itm_active = True, itm_modified = 0\<rparr>"

section \<open>CollectionRepository\<close>

definition item_from_row :: "collection_row \<Rightarrow> collection_item" where
  "item_from_row c = \<lparr>itm_id = col_id c, itm_workspace = col_workspace c,
     itm_type = type_from_string (col_type c), itm_set_catalog = col_set_catalog c,
     itm_minifig_catalog = col_minifig_catalog c, itm_state = state_from_string (col_state c),
     itm_condition = condition_from_string (col_condition c),
     itm_completeness = completeness_from_string (col_completeness c),
     itm_storage = col_storage c, itm_source_build = col_source_build c,
     itm_nickname = col_nickname c, itm_notes = col_notes c, itm_allow_parts = col_allow_parts c,
     itm_active = col_active c, itm_modified = col_modified c\<rparr>"

text \<open>The columns the insert binds.\<close>

definition row_of_item :: "collection_item \<Rightarrow> collection_row" where
  "row_of_item i = \<lparr>col_id = itm_id i, col_workspace = itm_workspace i,
     col_type = type_to_string (itm_type i), col_set_catalog = nullable (itm_set_catalog i),
     col_minifig_catalog = nullable (itm_minifig_catalog i),
     col_state = state_to_string (itm_state i), col_condition = condition_to_string (itm_condition i),
     col_completeness = completeness_to_string (itm_completeness i),
     col_storage = nullable (itm_storage i), col_source_build = nullable (itm_source_build i),
     col_nickname = trimmed (itm_nickname i), col_notes = itm_notes i,
     col_allow_parts = itm_allow_parts i, col_active = itm_active i, col_modified = itm_modified i\<rparr>"

definition insert_item :: "collection_row \<Rightarrow> tables \<Rightarrow> int \<times> tables" where
  "insert_item c t = (let i = seq_collection t + 1
     in (i, t\<lparr>collection := collection t @ [put_col_id i c], seq_collection := i\<rparr>))"

definition update_items ::
    "(collection_row \<Rightarrow> bool) \<Rightarrow> (collection_row \<Rightarrow> collection_row) \<Rightarrow> tables \<Rightarrow> nat \<times> tables" where
  "update_items P f t = (count_where P (collection t), t\<lparr>collection := update_where P f (collection t)\<rparr>)"

definition collection_create :: "collection_item \<Rightarrow> (session, collection_item option) state" where
  "collection_create item = do {
     now \<leftarrow> current_time;
     i \<leftarrow> sql_exec (insert_item (row_of_item (item\<lparr>itm_modified := now\<rparr>)));
     ret (case i of None \<Rightarrow> None | Some i \<Rightarrow> Some (item\<lparr>itm_id := i, itm_modified := now\<rparr>))
   }"

definition collection_try_get :: "int \<Rightarrow> (session, collection_item option option) state" where
  "collection_try_get i =
     (if i \<le> 0 then ret (Some None)
      else sql_query (\<lambda>t. map_option item_from_row (find (\<lambda>c. col_id c = i) (collection t))))"

definition collection_try_get_by_source_build ::
    "int \<Rightarrow> (session, collection_item option option) state" where
  "collection_try_get_by_source_build b =
     (if b \<le> 0 then ret (Some None)
      else sql_query (\<lambda>t. map_option item_from_row (find (\<lambda>c. col_source_build c = b) (collection t))))"

definition collection_try_has_source_build :: "int \<Rightarrow> (session, bool option) state" where
  "collection_try_has_source_build b = do {
     item \<leftarrow> collection_try_get_by_source_build b;
     ret (map_option got item)
   }"

definition collection_item_update :: "collection_item \<Rightarrow> (session, collection_item option) state" where
  "collection_item_update item = do {
     now \<leftarrow> current_time;
     n \<leftarrow> sql_exec (update_items
       (\<lambda>c. col_id c = itm_id item \<and> col_workspace c = itm_workspace item)
       (\<lambda>c. c\<lparr>col_state := state_to_string (itm_state item),
          col_condition := condition_to_string (itm_condition item),
          col_completeness := completeness_to_string (itm_completeness item),
          col_storage := nullable (itm_storage item), col_nickname := trimmed (itm_nickname item),
          col_notes := itm_notes item, col_allow_parts := itm_allow_parts item,
          col_modified := now\<rparr>));
     ret (if n = Some 1 then Some (item\<lparr>itm_modified := now\<rparr>) else None)
   }"

definition transition_catalog_item_to_unassembled :: "int \<Rightarrow> int \<Rightarrow> int \<Rightarrow> (session, bool) state" where
  "transition_catalog_item_to_unassembled i ws expected_modified = do {
     now \<leftarrow> current_time;
     n \<leftarrow> sql_exec (update_items
       (\<lambda>c. col_id c = i \<and> col_workspace c = ws \<and> col_modified c = expected_modified
          \<and> col_active c \<and> col_state c = ''Assembled'' \<and> col_completeness c = ''Complete''
          \<and> col_source_build c = 0 \<and> col_type c \<in> {''Set'', ''Minifig''})
       (\<lambda>c. c\<lparr>col_state := ''Unassembled'', col_modified := now\<rparr>));
     ret (n = Some 1)
   }"

definition update_state_for_source_build :: "int \<Rightarrow> item_state \<Rightarrow> (session, bool) state" where
  "update_state_for_source_build b st = do {
     now \<leftarrow> current_time;
     n \<leftarrow> sql_exec (update_items (\<lambda>c. col_source_build c = b)
       (\<lambda>c. c\<lparr>col_state := state_to_string st, col_modified := now\<rparr>));
     ret (n = Some 1)
   }"

definition collection_set_active :: "int \<Rightarrow> bool \<Rightarrow> (session, bool) state" where
  "collection_set_active i active = do {
     now \<leftarrow> current_time;
     n \<leftarrow> sql_exec (update_items (\<lambda>c. col_id c = i) (\<lambda>c. c\<lparr>col_active := active, col_modified := now\<rparr>));
     ret (n = Some 1)
   }"

section \<open>CollectionItemService\<close>

datatype item_error = ItemInvalidInput | ItemWorkspaceNotFound | CatalogItemNotFound | LocationInvalid
  | SourceBuildNotFound | SourceBuildIncomplete | SourceBuildMismatch | SourceBuildAlreadyUsed
  | CatalogMatchNotFound | CatalogMatchAmbiguous | SourceBuildAlreadyLinked
  | PhysicalTransitionRequired | ItemNotFound | ItemDatabaseFailure

text \<open>The answer of a successful operation: the item (if any) and whether it changed.\<close>

type_synonym item_result = "item_error + collection_item \<times> bool"

text \<open>The three repositories the validation reads through.\<close>

definition workspace_try_get :: "int \<Rightarrow> (session, workspace_row option option) state" where
  "workspace_try_get i = sql_query (\<lambda>t. find (\<lambda>w. wsp_id w = i) (workspaces t))"

definition set_catalog_try_get :: "int \<Rightarrow> (session, set_catalog_row option option) state" where
  "set_catalog_try_get i =
     (if i \<le> 0 then ret (Some None)
      else sql_query (\<lambda>t. find (\<lambda>c. sct_id c = i) (set_catalog t)))"

definition minifig_catalog_try_get :: "int \<Rightarrow> (session, int option option) state" where
  "minifig_catalog_try_get i =
     (if i \<le> 0 then ret (Some None)
      else sql_query (\<lambda>t. find (\<lambda>c. c = i) (minifig_catalog t)))"

text \<open>The four parts of \<open>validate\<close>, in order; \<open>None\<close> means the part has no objection.\<close>

definition check_identity :: "collection_item \<Rightarrow> (session, item_error option) state" where
  "check_identity item =
     (if itm_type item = SetItem then
        (if itm_set_catalog item \<le> 0 \<or> itm_minifig_catalog item > 0 then ret (Some ItemInvalidInput)
         else do {
           catalog \<leftarrow> set_catalog_try_get (itm_set_catalog item);
           ret (case catalog of None \<Rightarrow> Some ItemDatabaseFailure
             | Some None \<Rightarrow> Some CatalogItemNotFound | Some (Some c) \<Rightarrow> None)
         })
      else if itm_type item = MinifigItem then
        (if itm_minifig_catalog item \<le> 0 \<or> itm_set_catalog item > 0 \<or> itm_allow_parts item
         then ret (Some ItemInvalidInput)
         else do {
           catalog \<leftarrow> minifig_catalog_try_get (itm_minifig_catalog item);
           ret (case catalog of None \<Rightarrow> Some ItemDatabaseFailure
             | Some None \<Rightarrow> Some CatalogItemNotFound | Some (Some c) \<Rightarrow> None)
         })
      else if itm_set_catalog item > 0 \<or> itm_minifig_catalog item > 0 \<or> itm_source_build item \<le> 0
      then ret (Some ItemInvalidInput)
      else ret None)"

definition check_location :: "collection_item \<Rightarrow> int \<Rightarrow> (session, item_error option) state" where
  "check_location item preserved =
     (if itm_storage item > 0 \<and> itm_storage item \<noteq> preserved
      then do {
        c \<leftarrow> valid_destination_checked (itm_workspace item) (itm_storage item) AllowsCollection 0;
        ret (case c of CheckError \<Rightarrow> Some ItemDatabaseFailure | No \<Rightarrow> Some LocationInvalid | Yes \<Rightarrow> None)
      }
      else ret None)"

definition check_source_build :: "collection_item \<Rightarrow> bool \<Rightarrow> (session, item_error option) state" where
  "check_source_build item creating =
     (if itm_source_build item \<le> 0 then ret None
      else do {
        build \<leftarrow> build_try_get (itm_source_build item);
        case build of None \<Rightarrow> ret (Some ItemDatabaseFailure)
        | Some None \<Rightarrow> ret (Some SourceBuildNotFound)
        | Some (Some b) \<Rightarrow>
            if bld_workspace b \<noteq> itm_workspace item then ret (Some SourceBuildMismatch)
            else if creating \<and> bld_status b \<noteq> ''Complete'' then ret (Some SourceBuildIncomplete)
            else if bld_type b \<noteq> type_to_string (itm_type item) then ret (Some SourceBuildMismatch)
            else if itm_type item = SetItem \<and> bld_set_catalog b \<noteq> itm_set_catalog item
            then ret (Some SourceBuildMismatch)
            else if itm_type item = MinifigItem \<and> bld_minifig b \<noteq> itm_minifig_catalog item
            then ret (Some SourceBuildMismatch)
            else if creating then do {
              used \<leftarrow> collection_try_has_source_build (itm_source_build item);
              ret (case used of None \<Rightarrow> Some ItemDatabaseFailure
                | Some u \<Rightarrow> if u then Some SourceBuildAlreadyUsed else None)
            }
            else ret None
      })"

definition validate_item :: "collection_item \<Rightarrow> bool \<Rightarrow> int \<Rightarrow> (session, item_error option) state" where
  "validate_item item creating preserved =
     (if itm_workspace item \<le> 0 \<or> itm_type item = InvalidType \<or> itm_state item = InvalidItemState
        \<or> itm_condition item = InvalidCondition \<or> itm_completeness item = InvalidCompleteness
      then ret (Some ItemInvalidInput)
      else do {
        workspace \<leftarrow> workspace_try_get (itm_workspace item);
        case workspace of None \<Rightarrow> ret (Some ItemDatabaseFailure)
        | Some None \<Rightarrow> ret (Some ItemWorkspaceNotFound)
        | Some (Some w) \<Rightarrow> do {
            e \<leftarrow> check_identity item;
            case e of Some e \<Rightarrow> ret (Some e)
            | None \<Rightarrow> do {
                e \<leftarrow> check_location item preserved;
                case e of Some e \<Rightarrow> ret (Some e) | None \<Rightarrow> check_source_build item creating
              }
          }
      })"

definition create_item :: "collection_item \<Rightarrow> (session, item_result) state" where
  "create_item item = do {
     e \<leftarrow> validate_item item True 0;
     case e of Some e \<Rightarrow> ret (Inl e)
     | None \<Rightarrow> do {
         stored \<leftarrow> collection_create item;
         ret (case stored of None \<Rightarrow> Inl ItemDatabaseFailure | Some i \<Rightarrow> Inr (i, True))
       }
   }"

text \<open>What the caller chooses for a new item.\<close>

record item_details =
  det_state :: item_state
  det_storage :: int
  det_nickname :: string
  det_notes :: string
  det_condition :: item_condition
  det_completeness :: item_completeness

definition new_item :: "int \<Rightarrow> item_type \<Rightarrow> int \<Rightarrow> int \<Rightarrow> int \<Rightarrow> item_details \<Rightarrow> collection_item" where
  "new_item ws ty catalog minifig build d = blank_item\<lparr>itm_workspace := ws, itm_type := ty,
     itm_set_catalog := catalog, itm_minifig_catalog := minifig, itm_state := det_state d,
     itm_condition := det_condition d, itm_completeness := det_completeness d,
     itm_storage := det_storage d, itm_source_build := build, itm_nickname := det_nickname d,
     itm_notes := det_notes d\<rparr>"

definition create_set_in_current_transaction ::
    "int \<Rightarrow> int \<Rightarrow> int \<Rightarrow> item_details \<Rightarrow> (session, item_result) state" where
  "create_set_in_current_transaction ws catalog build d = create_item (new_item ws SetItem catalog 0 build d)"

definition create_minifig_in_current_transaction ::
    "int \<Rightarrow> int \<Rightarrow> int \<Rightarrow> item_details \<Rightarrow> (session, item_result) state" where
  "create_minifig_in_current_transaction ws catalog build d =
     create_item (new_item ws MinifigItem 0 catalog build d)"

definition create_moc_in_current_transaction ::
    "int \<Rightarrow> int \<Rightarrow> item_details \<Rightarrow> (session, item_result) state" where
  "create_moc_in_current_transaction ws build d = create_item (new_item ws MocItem 0 0 build d)"

definition create_from_build_in_current_transaction ::
    "int \<Rightarrow> int \<Rightarrow> item_details \<Rightarrow> (session, item_result) state" where
  "create_from_build_in_current_transaction ws build_id d = do {
     build \<leftarrow> build_try_get build_id;
     case build of None \<Rightarrow> ret (Inl ItemDatabaseFailure)
     | Some None \<Rightarrow> ret (Inl SourceBuildNotFound)
     | Some (Some b) \<Rightarrow>
         if \<not> bld_active b then ret (Inl SourceBuildMismatch)
         else if bld_workspace b \<noteq> ws then ret (Inl SourceBuildMismatch)
         else if bld_status b \<noteq> ''Complete'' then ret (Inl SourceBuildIncomplete)
         else if bld_type b = ''Set'' then
           (if bld_set_catalog b \<le> 0 then ret (Inl CatalogItemNotFound)
            else create_set_in_current_transaction ws (bld_set_catalog b) build_id d)
         else if bld_type b = ''Minifig'' then
           (if bld_minifig b \<le> 0 then ret (Inl CatalogItemNotFound)
            else create_minifig_in_current_transaction ws (bld_minifig b) build_id d)
         else if bld_type b = ''MOC'' then
           (if bld_set_catalog b > 0 \<or> bld_minifig b > 0 then ret (Inl SourceBuildMismatch)
            else create_moc_in_current_transaction ws build_id d)
         else ret (Inl SourceBuildMismatch)
   }"

definition detailed :: "collection_item \<Rightarrow> item_details \<Rightarrow> bool \<Rightarrow> collection_item" where
  "detailed item d allow_parts = item\<lparr>itm_state := det_state d, itm_condition := det_condition d,
     itm_completeness := det_completeness d, itm_storage := det_storage d,
     itm_nickname := det_nickname d, itm_notes := det_notes d, itm_allow_parts := allow_parts\<rparr>"

definition update_details_in_current_transaction ::
    "int \<Rightarrow> item_details \<Rightarrow> bool \<Rightarrow> (session, item_result) state" where
  "update_details_in_current_transaction i d allow_parts = do {
     existing \<leftarrow> collection_try_get i;
     case existing of None \<Rightarrow> ret (Inl ItemDatabaseFailure)
     | Some None \<Rightarrow> ret (Inl ItemNotFound)
     | Some (Some item) \<Rightarrow>
         if itm_state item = Assembled \<and> det_state d = Unassembled
         then ret (Inl PhysicalTransitionRequired)
         else do {
           e \<leftarrow> validate_item (detailed item d allow_parts) False (itm_storage item);
           case e of Some e \<Rightarrow> ret (Inl e)
           | None \<Rightarrow> do {
               stored \<leftarrow> collection_item_update (detailed item d allow_parts);
               ret (case stored of None \<Rightarrow> Inl ItemDatabaseFailure | Some i \<Rightarrow> Inr (i, True))
             }
         }
   }"

definition update_state_for_disassembly :: "int \<Rightarrow> item_state \<Rightarrow> (session, item_result) state" where
  "update_state_for_disassembly build_id st =
     (if st = InvalidItemState \<or> build_id \<le> 0 then ret (Inl ItemInvalidInput)
      else do {
        found \<leftarrow> collection_try_get_by_source_build build_id;
        case found of None \<Rightarrow> ret (Inl ItemDatabaseFailure)
        | Some None \<Rightarrow> ret (Inr (blank_item, False))
        | Some (Some item) \<Rightarrow> do {
            done \<leftarrow> update_state_for_source_build build_id st;
            if \<not> done then ret (Inl ItemDatabaseFailure)
            else do {
              again \<leftarrow> collection_try_get (itm_id item);
              ret (case found_row again of None \<Rightarrow> Inl ItemDatabaseFailure | Some i \<Rightarrow> Inr (i, True))
            }
          }
      })"

definition exact_set_matches :: "string \<Rightarrow> (session, set_catalog_row list option) state" where
  "exact_set_matches number =
     (if trimmed number = [] then ret (Some [])
      else sql_query (\<lambda>t. sort_key sct_id
        (filter (\<lambda>c. sct_number c = trimmed number) (set_catalog t))))"

definition preview_legacy_set_build_link ::
    "int \<Rightarrow> (session, item_error + build_row \<times> set_catalog_row) state" where
  "preview_legacy_set_build_link build_id = do {
     build \<leftarrow> build_try_get build_id;
     case build of None \<Rightarrow> ret (Inl ItemDatabaseFailure)
     | Some None \<Rightarrow> ret (Inl SourceBuildNotFound)
     | Some (Some b) \<Rightarrow>
         if bld_type b \<noteq> ''Set'' \<or> trimmed (bld_set_number b) = [] then ret (Inl SourceBuildMismatch)
         else if bld_set_catalog b > 0 then ret (Inl SourceBuildAlreadyLinked)
         else do {
           matches \<leftarrow> exact_set_matches (bld_set_number b);
           ret (case matches of None \<Rightarrow> Inl ItemDatabaseFailure
             | Some [] \<Rightarrow> Inl CatalogMatchNotFound
             | Some [c] \<Rightarrow> Inr (b, c)
             | Some (c # d # cs) \<Rightarrow> Inl CatalogMatchAmbiguous)
         }
   }"

definition link_legacy_set_build_in_current_transaction ::
    "int \<Rightarrow> int \<Rightarrow> (session, item_result) state" where
  "link_legacy_set_build_in_current_transaction build_id expected = do {
     preview \<leftarrow> preview_legacy_set_build_link build_id;
     case preview of Inl e \<Rightarrow> ret (Inl e)
     | Inr (b, c) \<Rightarrow>
         if sct_id c \<noteq> expected then ret (Inl SourceBuildMismatch)
         else do {
           linked \<leftarrow> build_link_set_catalog build_id expected;
           ret (if linked then Inr (blank_item, True) else Inl ItemDatabaseFailure)
         }
   }"

definition item_set_active_in_current_transaction :: "int \<Rightarrow> bool \<Rightarrow> (session, item_result) state" where
  "item_set_active_in_current_transaction i active = do {
     existing \<leftarrow> collection_try_get i;
     case existing of None \<Rightarrow> ret (Inl ItemDatabaseFailure)
     | Some None \<Rightarrow> ret (Inl ItemNotFound)
     | Some (Some item) \<Rightarrow> do {
         done \<leftarrow> collection_set_active i active;
         if \<not> done then ret (Inl ItemDatabaseFailure)
         else do {
           again \<leftarrow> collection_try_get i;
           ret (case found_row again of None \<Rightarrow> Inl ItemDatabaseFailure | Some i \<Rightarrow> Inr (i, True))
         }
       }
   }"

text \<open>The public operations, each in its own transaction.\<close>

datatype item_call =
    CreateSet int int int item_details
  | CreateMinifig int int int item_details
  | CreateMoc int int item_details
  | CreateFromBuild int int item_details
  | UpdateDetails int item_details bool
  | LinkLegacySetBuild int int
  | SetItemActive int bool

fun item_operation :: "item_call \<Rightarrow> (session, item_result) state" where
  "item_operation (CreateSet ws c b d) = create_set_in_current_transaction ws c b d"
| "item_operation (CreateMinifig ws c b d) = create_minifig_in_current_transaction ws c b d"
| "item_operation (CreateMoc ws b d) = create_moc_in_current_transaction ws b d"
| "item_operation (CreateFromBuild ws b d) = create_from_build_in_current_transaction ws b d"
| "item_operation (UpdateDetails i d allow) = update_details_in_current_transaction i d allow"
| "item_operation (LinkLegacySetBuild b c) = link_legacy_set_build_in_current_transaction b c"
| "item_operation (SetItemActive i active) = item_set_active_in_current_transaction i active"

definition collection_service :: "item_call \<Rightarrow> (session, item_result) state" where
  "collection_service c = host_transaction ItemInvalidInput ItemDatabaseFailure (item_operation c)"

end
