(* ===== verification/CollectionRules.thy ===== *)
theory CollectionRules
  imports CollectionItems
begin

text \<open>
  What My Collection promises: an item reads back as it was stored, an item that came from a
  Build always agrees with that Build on workspace, type and catalog identity, an edit never
  disassembles an item behind the back of the inventory, and a refused operation leaves no trace.
\<close>

section \<open>Operations: what they read and what they keep\<close>

lemma reads_collection [reads_rules]:
  "reads_only (collection_try_get i)" "reads_only (collection_try_get_by_source_build b)"
  "reads_only (collection_try_has_source_build b)" "reads_only (workspace_try_get ws)"
  "reads_only (set_catalog_try_get i)" "reads_only (minifig_catalog_try_get i)"
  "reads_only (exact_set_matches n)"
  by (auto simp: collection_try_get_def collection_try_get_by_source_build_def
      collection_try_has_source_build_def workspace_try_get_def set_catalog_try_get_def
      minifig_catalog_try_get_def exact_set_matches_def intro!: reads_rules)

lemma reads_item_checks [reads_rules]:
  "reads_only (check_identity item)" "reads_only (check_location item preserved)"
  "reads_only (check_source_build item creating)"
  by (auto simp: check_identity_def check_location_def check_source_build_def intro!: reads_rules)

lemma reads_validate_item [reads_rules]:
  "reads_only (validate_item item creating preserved)"
  "reads_only (preview_legacy_set_build_link b)"
  by (auto simp: validate_item_def preview_legacy_set_build_link_def intro!: reads_rules)

lemmas keeps_item_reads [keeps_rules] = reads_collection [THEN reads_keeps]
  reads_validate_item [THEN reads_keeps]

lemmas valid_item_reads [valid_rules] = reads_collection [THEN reads_valid]
  reads_validate_item [THEN reads_valid]

lemma keeps_collection_writes [keeps_rules]:
  "keeps_connection (collection_create item)" "keeps_connection (collection_item_update item)"
  "keeps_connection (collection_set_active i active)"
  "keeps_connection (update_state_for_source_build b st)"
  "keeps_connection (transition_catalog_item_to_unassembled i ws m)"
  by (auto simp: collection_create_def collection_item_update_def collection_set_active_def
      update_state_for_source_build_def transition_catalog_item_to_unassembled_def
      intro!: keeps_rules)

lemma valid_collection_writes [valid_rules]:
  "keeps_valid (collection_create item)" "keeps_valid (collection_item_update item)"
  "keeps_valid (collection_set_active i active)"
  "keeps_valid (update_state_for_source_build b st)"
  "keeps_valid (transition_catalog_item_to_unassembled i ws m)"
  by (auto simp: collection_create_def collection_item_update_def collection_set_active_def
      update_state_for_source_build_def transition_catalog_item_to_unassembled_def
      intro!: valid_rules)

lemma keeps_item_services [keeps_rules]:
  "keeps_connection (create_item item)" "keeps_connection (update_state_for_disassembly b st)"
  by (auto simp: create_item_def update_state_for_disassembly_def intro!: keeps_rules)

lemma valid_item_services [valid_rules]:
  "keeps_valid (create_item item)" "keeps_valid (update_state_for_disassembly b st)"
  by (auto simp: create_item_def update_state_for_disassembly_def intro!: valid_rules)

lemmas item_operation_defs = create_set_in_current_transaction_def
  create_minifig_in_current_transaction_def create_moc_in_current_transaction_def
  create_from_build_in_current_transaction_def update_details_in_current_transaction_def
  link_legacy_set_build_in_current_transaction_def item_set_active_in_current_transaction_def

lemma keeps_item_operation [keeps_rules]: "keeps_connection (item_operation c)"
  by (cases c) (auto simp: item_operation_defs intro!: keeps_rules)

lemma valid_item_operation [valid_rules]: "keeps_valid (item_operation c)"
  by (cases c) (auto simp: item_operation_defs intro!: valid_rules)

interpretation item_body: service_body "item_operation c" for c
  by unfold_locales (rule keeps_rules)

section \<open>What a validated item satisfies\<close>

lemma enum_strings [simp]:
  "type_from_string (type_to_string ty) = ty" "state_from_string (state_to_string st) = st"
  "condition_from_string (condition_to_string co) = co"
  "completeness_from_string (completeness_to_string cm) = cm"
  by (cases ty, simp_all add: type_from_string_def)
    (cases st, simp_all add: state_from_string_def,
     (cases co, simp_all add: condition_from_string_def),
     (cases cm, simp_all add: completeness_from_string_def))

text \<open>The Build an item claims to come from, as the validation compares them.\<close>

definition agrees :: "build_row \<Rightarrow> collection_item \<Rightarrow> bool" where
  "agrees b item \<longleftrightarrow> bld_id b = itm_source_build item \<and> bld_workspace b = itm_workspace item
     \<and> bld_type b = type_to_string (itm_type item)
     \<and> (itm_type item = SetItem \<longrightarrow> bld_set_catalog b = itm_set_catalog item)
     \<and> (itm_type item = MinifigItem \<longrightarrow> bld_minifig b = itm_minifig_catalog item)"

lemma check_source_build_passed:
  assumes "run_state (check_source_build item creating) s = (None, s')" "0 < itm_source_build item"
  shows "\<exists>b\<in>set (builds (tables s)). agrees b item \<and> (creating \<longrightarrow> bld_status b = ''Complete''
    \<and> (\<forall>c\<in>set (collection (tables s)). col_source_build c \<noteq> itm_source_build item))"
proof -
  obtain build s1 where get: "run_state (build_try_get (itm_source_build item)) s = (build, s1)"
    by fastforce
  then have t1: "tables s1 = tables s" by (rule after_reading [OF reads_build_get(1)])
  from assms get obtain b where b: "build = Some (Some b)"
    by (auto simp: check_source_build_def run_simps split: option.splits)
  with get assms(2) have m: "b \<in> set (builds (tables s))" "bld_id b = itm_source_build item"
    by (auto simp: build_try_get_def run_simps split: if_splits dest: find_SomeD)
  from assms get b have ok: "bld_workspace b = itm_workspace item"
    "bld_type b = type_to_string (itm_type item)"
    "itm_type item = SetItem \<longrightarrow> bld_set_catalog b = itm_set_catalog item"
    "itm_type item = MinifigItem \<longrightarrow> bld_minifig b = itm_minifig_catalog item"
    "creating \<longrightarrow> bld_status b = ''Complete''"
    by (auto simp: check_source_build_def run_simps split: if_splits)
  moreover have "\<forall>c\<in>set (collection (tables s)). col_source_build c \<noteq> itm_source_build item" if creating
  proof -
    from that assms get b ok have
      "fst (run_state (collection_try_has_source_build (itm_source_build item)) s1) = Some False"
      by (auto simp: check_source_build_def run_simps split: if_splits option.splits prod.splits)
    with assms(2) t1 show ?thesis
      by (auto simp: collection_try_has_source_build_def collection_try_get_by_source_build_def
          run_simps got_def find_None_iff split: if_splits)
  qed
  ultimately show ?thesis using m by (auto simp: agrees_def)
qed

lemma check_location_passed:
  assumes "run_state (check_location item preserved) s = (None, s')"
    "0 < itm_storage item" "itm_storage item \<noteq> preserved"
  shows "\<exists>l\<in>set (storage (tables s)). sto_id l = itm_storage item
    \<and> is_destination (itm_workspace item) AllowsCollection (tables s) l"
  using assms by (auto simp: check_location_def valid_destination_checked_def check_of_def run_simps
      list_ex_iff split: if_splits)

lemma validate_item_passed:
  assumes "run_state (validate_item item creating preserved) s = (None, s')"
  shows "tables s' = tables s"
    "0 < itm_source_build item \<Longrightarrow> \<exists>b\<in>set (builds (tables s)). agrees b item
      \<and> (creating \<longrightarrow> bld_status b = ''Complete''
        \<and> (\<forall>c\<in>set (collection (tables s)). col_source_build c \<noteq> itm_source_build item))"
    "0 < itm_storage item \<Longrightarrow> itm_storage item \<noteq> preserved \<Longrightarrow>
      \<exists>l\<in>set (storage (tables s)). sto_id l = itm_storage item
        \<and> is_destination (itm_workspace item) AllowsCollection (tables s) l"
proof -
  obtain w s0 where v0: "run_state (workspace_try_get (itm_workspace item)) s = (w, s0)" by fastforce
  obtain e1 s1 where v1: "run_state (check_identity item) s0 = (e1, s1)" by fastforce
  obtain e2 s2 where v2: "run_state (check_location item preserved) s1 = (e2, s2)" by fastforce
  have t: "tables s0 = tables s" "tables s1 = tables s" "tables s2 = tables s"
    using after_reading [OF _ v0] after_reading [OF _ v1] after_reading [OF _ v2]
      reads_collection reads_item_checks by auto
  from assms v0 v1 v2 have e: "e2 = None" "run_state (check_source_build item creating) s2 = (None, s')"
    by (auto simp: validate_item_def run_simps split: if_splits option.splits)
  show "tables s' = tables s"
    using after_reading [OF reads_validate_item(1) assms] .
  show "0 < itm_source_build item \<Longrightarrow> \<exists>b\<in>set (builds (tables s)). agrees b item
      \<and> (creating \<longrightarrow> bld_status b = ''Complete''
        \<and> (\<forall>c\<in>set (collection (tables s)). col_source_build c \<noteq> itm_source_build item))"
    using check_source_build_passed [OF e(2)] t by simp
  show "0 < itm_storage item \<Longrightarrow> itm_storage item \<noteq> preserved \<Longrightarrow>
      \<exists>l\<in>set (storage (tables s)). sto_id l = itm_storage item
        \<and> is_destination (itm_workspace item) AllowsCollection (tables s) l"
    using check_location_passed [of item preserved s1 s2] v2 e(1) t by simp
qed

section \<open>Items and their Builds\<close>

text \<open>An item that names a source Build agrees with it.\<close>

definition linked_row :: "build_row list \<Rightarrow> collection_row \<Rightarrow> bool" where
  "linked_row bs c \<longleftrightarrow> col_source_build c = 0 \<or>
     (\<exists>b\<in>set bs. bld_id b = col_source_build c \<and> bld_workspace b = col_workspace c
        \<and> bld_type b = col_type c
        \<and> (col_type c = ''Set'' \<longrightarrow> bld_set_catalog b = col_set_catalog c)
        \<and> (col_type c = ''Minifig'' \<longrightarrow> bld_minifig b = col_minifig_catalog c))"

definition linked :: "tables \<Rightarrow> bool" where
  "linked t \<longleftrightarrow> (\<forall>c\<in>set (collection t). linked_row (builds t) c)"

definition same_link :: "collection_row \<Rightarrow> collection_row \<Rightarrow> bool" where
  "same_link c c' \<longleftrightarrow> col_id c' = col_id c \<and> col_source_build c' = col_source_build c
     \<and> col_workspace c' = col_workspace c \<and> col_type c' = col_type c
     \<and> col_set_catalog c' = col_set_catalog c \<and> col_minifig_catalog c' = col_minifig_catalog c"

lemma linked_update_items:
  assumes "linked t" "\<And>c. same_link c (f c)"
  shows "linked (snd (update_items P f t))"
  using assms by (fastforce simp: linked_def linked_row_def same_link_def update_items_def set_update_where)

lemma linked_insert_item:
  assumes "linked t" "itm_source_build item \<le> 0 \<or> (\<exists>b\<in>set (builds t). agrees b item)"
    "itm_set_catalog item > 0 \<or> itm_type item \<noteq> SetItem"
    "itm_minifig_catalog item > 0 \<or> itm_type item \<noteq> MinifigItem"
  shows "linked (snd (insert_item (row_of_item item) t))"
proof -
  have "linked_row (builds t) (put_col_id i (row_of_item item))" for i
    using assms(2-4) by (cases "itm_type item")
      (auto simp: linked_row_def agrees_def row_of_item_def put_col_id_def nullable_def)
  with assms(1) show ?thesis
    by (auto simp: linked_def insert_item_def Let_def)
qed

text \<open>
  Linking a legacy Build gives it a catalog identity it did not have. No item depends on that:
  an item of a Set Build without a catalog identity would be a Set without one.
\<close>

lemma linked_link_set_catalog:
  assumes "linked t" "constraints t"
  shows "linked (snd (update_builds (\<lambda>b. bld_id b = i \<and> bld_type b = ''Set'' \<and> bld_set_catalog b = 0)
    (\<lambda>b. b\<lparr>bld_set_catalog := catalog\<rparr>) t))"
proof -
  let ?P = "\<lambda>b. bld_id b = i \<and> bld_type b = ''Set'' \<and> bld_set_catalog b = 0"
  let ?f = "\<lambda>b. b\<lparr>bld_set_catalog := catalog\<rparr>"
  have "linked_row (update_where ?P ?f (builds t)) c" if c: "c \<in> set (collection t)" for c
  proof (cases "col_source_build c = 0")
    case False
    from assms(1) c False obtain b where b: "b \<in> set (builds t)" "bld_id b = col_source_build c"
      "bld_workspace b = col_workspace c" "bld_type b = col_type c"
      "col_type c = ''Set'' \<longrightarrow> bld_set_catalog b = col_set_catalog c"
      "col_type c = ''Minifig'' \<longrightarrow> bld_minifig b = col_minifig_catalog c"
      by (auto simp: linked_def linked_row_def)
    moreover have "collection_row_ok t c"
      using assms(2) c by (simp add: constraints_def collection_constraints_def)
    ultimately have "\<not> ?P b" by (auto simp: collection_row_ok_def)
    with b(1) have "b \<in> set (update_where ?P ?f (builds t))" by (force simp: set_update_where)
    with b show ?thesis by (auto simp: linked_row_def)
  qed (simp add: linked_row_def)
  then show ?thesis by (simp add: linked_def update_builds_def)
qed

lemma check_identity_passed:
  assumes "run_state (check_identity item) s = (None, s')" "itm_type item \<noteq> InvalidType"
  shows "itm_set_catalog item > 0 \<or> itm_type item \<noteq> SetItem"
    "itm_minifig_catalog item > 0 \<or> itm_type item \<noteq> MinifigItem"
  using assms by (auto simp: check_identity_def run_simps split: if_splits)

lemma validate_item_identity:
  assumes "run_state (validate_item item creating preserved) s = (None, s')"
  shows "itm_set_catalog item > 0 \<or> itm_type item \<noteq> SetItem"
    "itm_minifig_catalog item > 0 \<or> itm_type item \<noteq> MinifigItem"
proof -
  from assms obtain s0 s1 where "run_state (check_identity item) s0 = (None, s1)" "itm_type item \<noteq> InvalidType"
    by (auto simp: validate_item_def run_simps split: if_splits option.splits prod.splits)
  from check_identity_passed [OF this]
  show "itm_set_catalog item > 0 \<or> itm_type item \<noteq> SetItem"
    "itm_minifig_catalog item > 0 \<or> itm_type item \<noteq> MinifigItem" .
qed

text \<open>What a creation stored.\<close>

lemma create_item_stored:
  assumes "run_state (create_item item) s = (Inr (item', changed), s')"
  obtains now i where "tables s' = snd (insert_item (row_of_item (item\<lparr>itm_modified := now\<rparr>)) (tables s))"
    "i = seq_collection (tables s) + 1" "item' = item\<lparr>itm_id := i, itm_modified := now\<rparr>"
    "constraints (tables s')" "changed"
    "0 < itm_source_build item \<Longrightarrow> \<exists>b\<in>set (builds (tables s)). agrees b item \<and> bld_status b = ''Complete''
      \<and> (\<forall>c\<in>set (collection (tables s)). col_source_build c \<noteq> itm_source_build item)"
    "0 < itm_storage item \<Longrightarrow> \<exists>l\<in>set (storage (tables s)). sto_id l = itm_storage item
        \<and> is_destination (itm_workspace item) AllowsCollection (tables s) l"
    "itm_set_catalog item > 0 \<or> itm_type item \<noteq> SetItem"
    "itm_minifig_catalog item > 0 \<or> itm_type item \<noteq> MinifigItem"
proof -
  obtain e s1 where v: "run_state (validate_item item True 0) s = (e, s1)" by fastforce
  with assms have e: "e = None" by (auto simp: create_item_def run_simps split: option.splits)
  from validate_item_passed [OF v [unfolded e]] validate_item_identity [OF v [unfolded e]] assms v e
  show ?thesis
    by (intro that [of "clock s1" "seq_collection (tables s) + 1"])
      (auto simp: create_item_def collection_create_def insert_item_def run_simps Let_def split: if_splits)
qed

lemma linked_create_item:
  assumes "run_state (create_item item) s = (Inr r, s')" "linked (tables s)"
  shows "linked (tables s')"
proof -
  obtain item' changed where r: "r = (item', changed)" by fastforce
  show ?thesis
  proof (rule create_item_stored [OF assms(1) [unfolded r]])
    fix now i
    assume t: "tables s' = snd (insert_item (row_of_item (item\<lparr>itm_modified := now\<rparr>)) (tables s))"
      and b: "0 < itm_source_build item \<Longrightarrow> \<exists>b\<in>set (builds (tables s)). agrees b item
        \<and> bld_status b = ''Complete''
        \<and> (\<forall>c\<in>set (collection (tables s)). col_source_build c \<noteq> itm_source_build item)"
      and k: "itm_set_catalog item > 0 \<or> itm_type item \<noteq> SetItem"
        "itm_minifig_catalog item > 0 \<or> itm_type item \<noteq> MinifigItem"
    have "itm_source_build item \<le> 0 \<or> (\<exists>b\<in>set (builds (tables s)). agrees b item)"
      using b by force
    with k show ?thesis unfolding t
      by (intro linked_insert_item [OF assms(2)]) (simp_all add: agrees_def)
  qed
qed

text \<open>An update of the collection that keeps every link.\<close>

lemma linked_collection_writes:
  assumes "linked (tables s)"
  shows "run_state (collection_item_update item) s = (r1, s') \<Longrightarrow> linked (tables s')"
    "run_state (collection_set_active i active) s = (r2, s') \<Longrightarrow> linked (tables s')"
    "run_state (update_state_for_source_build b st) s = (r2, s') \<Longrightarrow> linked (tables s')"
  using assms
  by (auto simp: collection_item_update_def collection_set_active_def update_state_for_source_build_def
      run_simps same_link_def split: if_splits intro!: linked_update_items)

lemma linked_item_operation:
  assumes "run_state (item_operation c) s = (Inr r, s')" "linked (tables s)" "constraints (tables s)"
  shows "linked (tables s')"
proof (cases c)
  case (CreateFromBuild ws b d)
  obtain build s1 where get: "run_state (build_try_get b) s = (build, s1)" by fastforce
  then have "linked (tables s1)" using assms(2) after_reading [OF reads_build_get(1) get] by simp
  with assms(1) CreateFromBuild get show ?thesis
    by (auto simp: create_from_build_in_current_transaction_def create_set_in_current_transaction_def
        create_minifig_in_current_transaction_def create_moc_in_current_transaction_def run_simps
        split: if_splits option.splits dest: linked_create_item)
next
  case (UpdateDetails i d allow)
  obtain row s1 where get: "run_state (collection_try_get i) s = (row, s1)" by fastforce
  then have t1: "linked (tables s1)" using assms(2) after_reading [OF reads_collection(1) get] by simp
  with assms(1) UpdateDetails get show ?thesis
    by (auto simp: update_details_in_current_transaction_def run_simps
        split: if_splits option.splits prod.splits dest!: after_reading [OF reads_validate_item(1)]
        elim!: linked_collection_writes(1) [rotated])
next
  case (LinkLegacySetBuild b cat)
  obtain p s1 where pre: "run_state (preview_legacy_set_build_link b) s = (p, s1)" by fastforce
  from after_reading [OF reads_validate_item(2) pre] assms LinkLegacySetBuild pre show ?thesis
    by (auto simp: link_legacy_set_build_in_current_transaction_def build_link_set_catalog_def run_simps
        split: if_splits sum.splits prod.splits intro!: linked_link_set_catalog)
next
  case (SetItemActive i active)
  obtain row s1 where get: "run_state (collection_try_get i) s = (row, s1)" by fastforce
  obtain ok s2 where wrote: "run_state (collection_set_active i active) s1 = (ok, s2)" by fastforce
  have "linked (tables s2)"
    using linked_collection_writes(2) [OF _ wrote] assms(2) after_reading [OF reads_collection(1) get] by simp
  with assms(1) SetItemActive get wrote show ?thesis
    by (auto simp: item_set_active_in_current_transaction_def run_simps
        split: if_splits option.splits prod.splits dest!: after_reading [OF reads_collection(1)])
qed (use assms in \<open>auto simp: item_operation_defs dest: linked_create_item\<close>)

section \<open>Properties\<close>

text \<open>
  Property C8. Whatever public Collection operation runs and whichever database statement fails:
  every item that came from a Build still agrees with it on workspace, type and catalog identity,
  no two items come from the same Build (a constraint of the table), and an operation that
  reports an error has changed nothing.
\<close>

theorem collection_calls_keep_links:
  assumes "run_state (collection_service c) s = (r, s')" "saved s = None"
    "constraints (tables s)" "linked (tables s)"
  shows "linked (tables s') \<and> constraints (tables s') \<and> saved s' = None
    \<and> (\<not> succeeds r \<longrightarrow> tables s' = tables s)"
proof (cases r)
  case (Inl e)
  with assms item_body.service_atomic [of _ _ c s e s'] item_body.service_outcome [of _ _ c s r s']
  show ?thesis by (auto simp: collection_service_def)
next
  case (Inr a)
  from assms(1) have run: "run_state (host_transaction ItemInvalidInput ItemDatabaseFailure
      (item_operation c)) s = (Inr a, s')" by (simp add: Inr collection_service_def)
  from item_body.service_effect [OF this assms(2)] obtain u u' where
    u: "tables u = tables s" "run_state (item_operation c) u = (Inr a, u')" "tables s' = tables u'"
    by blast
  from linked_item_operation [OF u(2)] validD [OF valid_item_operation u(2)] assms(3,4) u
    item_body.service_outcome [OF run assms(2)] Inr
  show ?thesis by simp
qed

definition sample_linked :: tables where
  "sample_linked = sample\<lparr>builds := [sample_build 1 ''Stock'' ''Pulling'',
     (sample_build 2 ''CompleteSet'' ''Complete'')\<lparr>bld_set_catalog := 7\<rparr>]\<rparr>"

definition sample_details :: "item_state \<Rightarrow> int \<Rightarrow> item_details" where
  "sample_details st location = \<lparr>det_state = st, det_storage = location, det_nickname = '' Gate '',
     det_notes = [], det_condition = UsedItem, det_completeness = CompleteItem\<rparr>"

lemma sample_linked_ok: "constraints sample_linked" "linked sample_linked"
  by (simp_all add: constraint_defs sample_linked_def sample_defs linked_def)

theorem collection_calls_keep_links_witness:
  "linked (tables (snd (run_state (collection_service (CreateFromBuild 1 2 (sample_details Assembled 2)))
     (connect sample_linked))))
   \<and> map_option (\<lambda>c. (col_id c, col_set_catalog c, col_source_build c))
       (find (\<lambda>c. col_active c) (collection (tables (snd
         (run_state (collection_service (CreateFromBuild 1 2 (sample_details Assembled 2)))
           (connect sample_linked)))))) = Some (1, 7, 2)"
proof
  show "linked (tables (snd (run_state (collection_service (CreateFromBuild 1 2 (sample_details Assembled 2)))
     (connect sample_linked))))"
    using collection_calls_keep_links [OF prod.collapse [symmetric],
        of "connect sample_linked" "CreateFromBuild 1 2 (sample_details Assembled 2)"]
    by (simp add: sample_linked_ok)
  show "map_option (\<lambda>c. (col_id c, col_set_catalog c, col_source_build c))
       (find (\<lambda>c. col_active c) (collection (tables (snd
         (run_state (collection_service (CreateFromBuild 1 2 (sample_details Assembled 2)))
           (connect sample_linked)))))) = Some (1, 7, 2)"
    by code_simp
qed

text \<open>
  An item stored by the repository reads back with every field it was stored with,
  the enumerations included: the nickname without surrounding blanks, an absent reference as 0,
  and the identity and time the insert assigned.
\<close>

theorem stored_item_reads_back:
  assumes "run_state (collection_create item) s = (Some stored, s1)" "0 \<le> seq_collection (tables s)"
    "run_state (collection_try_get (itm_id stored)) s1 = (Some found, s2)"
  shows "found = Some (stored\<lparr>itm_nickname := trimmed (itm_nickname item),
      itm_set_catalog := nullable (itm_set_catalog item),
      itm_minifig_catalog := nullable (itm_minifig_catalog item),
      itm_storage := nullable (itm_storage item),
      itm_source_build := nullable (itm_source_build item)\<rparr>)
    \<and> stored = item\<lparr>itm_id := seq_collection (tables s) + 1, itm_modified := clock s\<rparr>"
proof -
  let ?i = "seq_collection (tables s) + 1"
  let ?row = "row_of_item (item\<lparr>itm_modified := clock s\<rparr>)"
  from assms(1) have stored: "stored = item\<lparr>itm_id := ?i, itm_modified := clock s\<rparr>"
    and t1: "tables s1 = snd (insert_item ?row (tables s))"
    and c: "constraints (snd (insert_item ?row (tables s)))"
    by (auto simp: collection_create_def insert_item_def run_simps Let_def split: if_splits)
  have rows: "collection (snd (insert_item ?row (tables s))) = collection (tables s) @ [put_col_id ?i ?row]"
    by (simp add: insert_item_def Let_def)
  have "?i \<notin> col_id ` set (collection (tables s))"
    using constraints_collection_keys [OF c] unfolding rows by (auto simp: put_col_id_def)
  from col.lookup_insert [OF this]
  have "find (\<lambda>r. col_id r = ?i) (collection (tables s1)) = Some (put_col_id ?i ?row)"
    by (simp add: t1 rows)
  with assms(2,3) stored show ?thesis
    by (auto simp: collection_try_get_def run_simps item_from_row_def row_of_item_def put_col_id_def
        split: if_splits)
qed

definition sample_item :: collection_item where
  "sample_item = new_item 1 SetItem 7 0 0 (sample_details Sealed 2)"

theorem stored_item_reads_back_witness:
  "map_option (map_option (\<lambda>i. (itm_nickname i, itm_state i))) (fst (run_state (collection_try_get 1)
     (snd (run_state (collection_create sample_item) (connect sample))))) = Some (Some (''Gate'', Sealed))"
proof -
  have "fst (run_state (collection_create sample_item) (connect sample)) = Some (sample_item\<lparr>itm_id := 1\<rparr>)"
    by code_simp
  then obtain s1 where c: "run_state (collection_create sample_item) (connect sample)
      = (Some (sample_item\<lparr>itm_id := 1\<rparr>), s1)" by (metis prod.collapse)
  have "fst (run_state (collection_try_get 1)
      (snd (run_state (collection_create sample_item) (connect sample)))) \<noteq> None" by code_simp
  then obtain found s2 where g: "run_state (collection_try_get 1) s1 = (Some found, s2)"
    unfolding c by (metis option.exhaust prod.collapse snd_conv)
  have g': "run_state (collection_try_get (itm_id (sample_item\<lparr>itm_id := 1\<rparr>))) s1 = (Some found, s2)"
    using g by simp
  have pos: "0 \<le> seq_collection (tables (connect sample))" by code_simp
  have vals: "trimmed (itm_nickname sample_item) = ''Gate''" "itm_state sample_item = Sealed"
    by (code_simp, code_simp)
  from stored_item_reads_back [OF c pos g'] show ?thesis
    unfolding c snd_conv g fst_conv by (simp add: vals)
qed

lemma service_run:
  assumes "run_state (collection_service c) s = (Inr a, s')" "saved s = None"
  obtains u u' where "tables u = tables s" "run_state (item_operation c) u = (Inr a, u')"
    "tables s' = tables u'"
  using assms by (auto simp: collection_service_def elim!: item_body.service_effect)

text \<open>
  An edit of a Collection item changes that item only, keeps what it is (type, catalog
  identity, source Build, activity), never turns an assembled item into an unassembled one (only a
  disassembly does, which returns the pieces to the inventory), and moves it only to an active
  Collection location of its workspace with no active location below.
\<close>

theorem item_edit_exact:
  assumes "run_state (collection_service (UpdateDetails i d allow)) s = (Inr (item, changed), s')"
    "saved s = None"
  shows "\<exists>c now. c \<in> set (collection (tables s)) \<and> col_id c = i
    \<and> \<not> (col_state c = ''Assembled'' \<and> det_state d = Unassembled)
    \<and> tables s' = (tables s)\<lparr>collection := update_where
        (\<lambda>x. col_id x = i \<and> col_workspace x = col_workspace c)
        (\<lambda>x. x\<lparr>col_state := state_to_string (det_state d),
           col_condition := condition_to_string (det_condition d),
           col_completeness := completeness_to_string (det_completeness d),
           col_storage := nullable (det_storage d), col_nickname := trimmed (det_nickname d),
           col_notes := det_notes d, col_allow_parts := allow, col_modified := now\<rparr>)
        (collection (tables s))\<rparr>
    \<and> (0 < det_storage d \<longrightarrow> det_storage d = col_storage c \<or>
        (\<exists>l\<in>set (storage (tables s)). sto_id l = det_storage d
          \<and> is_destination (col_workspace c) AllowsCollection (tables s) l))"
proof -
  from service_run [OF assms] obtain u u' where
    u: "tables u = tables s" "tables s' = tables u'"
      "run_state (update_details_in_current_transaction i d allow) u = (Inr (item, changed), u')"
    by (metis item_operation.simps(5))
  obtain row s1 where get: "run_state (collection_try_get i) u = (row, s1)" by fastforce
  have t1: "tables s1 = tables s" using after_reading [OF reads_collection(1) get] u(1) by simp
  from u(3) get obtain old where old: "row = Some (Some old)"
    by (auto simp: update_details_in_current_transaction_def run_simps split: option.splits)
  obtain e s2 where v: "run_state (validate_item (detailed old d allow) False (itm_storage old)) s1 = (e, s2)"
    by fastforce
  from u(3) get old v have e: "e = None" "\<not> (itm_state old = Assembled \<and> det_state d = Unassembled)"
    by (auto simp: update_details_in_current_transaction_def run_simps split: if_splits option.splits)
  from validate_item_passed(1,3) [OF v [unfolded e(1)]] t1 have t2: "tables s2 = tables s"
    and loc: "0 < det_storage d \<Longrightarrow> det_storage d = itm_storage old \<or>
        (\<exists>l\<in>set (storage (tables s)). sto_id l = det_storage d
          \<and> is_destination (itm_workspace old) AllowsCollection (tables s) l)"
    by (auto simp: detailed_def)
  from get old u(1) obtain c where c: "c \<in> set (collection (tables s))" "col_id c = i" "old = item_from_row c"
    by (auto simp: collection_try_get_def run_simps split: if_splits dest!: col.lookup_SomeD)
  have "tables u' = (tables s)\<lparr>collection := update_where
      (\<lambda>x. col_id x = i \<and> col_workspace x = col_workspace c)
      (\<lambda>x. x\<lparr>col_state := state_to_string (det_state d),
         col_condition := condition_to_string (det_condition d),
         col_completeness := completeness_to_string (det_completeness d),
         col_storage := nullable (det_storage d), col_nickname := trimmed (det_nickname d),
         col_notes := det_notes d, col_allow_parts := allow, col_modified := clock s2\<rparr>)
      (collection (tables s))\<rparr>"
    using u(3) get old v e t2 c
    by (auto simp: update_details_in_current_transaction_def collection_item_update_def update_items_def
        detailed_def item_from_row_def run_simps split: if_splits option.splits)
  moreover have "\<not> (col_state c = ''Assembled'' \<and> det_state d = Unassembled)"
    using e(2) c(3) by (auto simp: item_from_row_def state_from_string_def)
  ultimately show ?thesis
    using c loc u(2) by (intro exI [of _ c] exI [of _ "clock s2"]) (simp add: item_from_row_def)
qed

definition sample_owned :: tables where
  "sample_owned = sample\<lparr>collection := [\<lparr>col_id = 1, col_workspace = 1, col_type = ''Set'',
     col_set_catalog = 7, col_minifig_catalog = 0, col_state = ''Assembled'', col_condition = ''Used'',
     col_completeness = ''Complete'', col_storage = 2, col_source_build = 0, col_nickname = [],
     col_notes = [], col_allow_parts = False, col_active = True, col_modified = 0\<rparr>],
     seq_collection := 1\<rparr>"

theorem item_edit_exact_witness:
  "map col_nickname (collection (tables (snd (run_state
     (collection_service (UpdateDetails 1 (sample_details Sealed 2) True)) (connect sample_owned))))) = [''Gate'']
   \<and> fst (run_state (collection_service (UpdateDetails 1 (sample_details Unassembled 2) True))
       (connect sample_owned)) = Inl PhysicalTransitionRequired"
proof
  have "succeeds (fst (run_state (collection_service (UpdateDetails 1 (sample_details Sealed 2) True))
      (connect sample_owned)))" by code_simp
  then obtain item changed s' where run: "run_state
      (collection_service (UpdateDetails 1 (sample_details Sealed 2) True)) (connect sample_owned)
      = (Inr (item, changed), s')"
    by (metis succeeds_iff prod.collapse)
  have "saved (connect sample_owned) = None" by simp
  from item_edit_exact [OF run this]
  show "map col_nickname (collection (tables (snd (run_state
     (collection_service (UpdateDetails 1 (sample_details Sealed 2) True)) (connect sample_owned))))) = [''Gate'']"
    unfolding run snd_conv
    by (auto simp: sample_owned_def sample_details_def trimmed_def is_space_def)
  show "fst (run_state (collection_service (UpdateDetails 1 (sample_details Unassembled 2) True))
       (connect sample_owned)) = Inl PhysicalTransitionRequired"
    by code_simp
qed

text \<open>
  Creating an item from a Build succeeds only for an active, completed Build of the
  workspace that no item comes from; it appends exactly one item, with the type and the catalog
  identity of the Build and a new identity, and changes nothing else.
\<close>

theorem create_from_build_exact:
  assumes "run_state (collection_service (CreateFromBuild ws b d)) s = (Inr (item, changed), s')"
    "saved s = None" "0 < b"
  shows "\<exists>r\<in>set (builds (tables s)). bld_id r = b \<and> bld_workspace r = ws \<and> bld_active r
    \<and> bld_status r = ''Complete''
    \<and> (\<forall>c\<in>set (collection (tables s)). col_source_build c \<noteq> b)
    \<and> (\<exists>c. tables s' = (tables s)\<lparr>collection := collection (tables s) @ [c],
          seq_collection := seq_collection (tables s) + 1\<rparr>
        \<and> col_id c = seq_collection (tables s) + 1 \<and> col_workspace c = ws \<and> col_source_build c = b
        \<and> col_type c = bld_type r \<and> col_state c = state_to_string (det_state d)
        \<and> (bld_type r = ''Set'' \<longrightarrow> col_set_catalog c = bld_set_catalog r)
        \<and> (bld_type r = ''Minifig'' \<longrightarrow> col_minifig_catalog c = bld_minifig r))"
proof -
  from service_run [OF assms(1,2)] obtain u u' where
    u: "tables u = tables s" "tables s' = tables u'"
      "run_state (create_from_build_in_current_transaction ws b d) u = (Inr (item, changed), u')"
    by (metis item_operation.simps(4))
  obtain build s1 where get: "run_state (build_try_get b) u = (build, s1)" by fastforce
  have t1: "tables s1 = tables s" using after_reading [OF reads_build_get(1) get] u(1) by simp
  from u(3) get obtain r where r: "build = Some (Some r)"
    by (auto simp: create_from_build_in_current_transaction_def run_simps split: option.splits)
  with get u(1) assms(3) have m: "r \<in> set (builds (tables s))" "bld_id r = b"
    by (auto simp: build_try_get_def run_simps split: if_splits dest: find_SomeD)
  from u(3) get r obtain ty cat fig where guard: "bld_active r" "bld_workspace r = ws"
      "bld_status r = ''Complete''"
    and made: "run_state (create_item (new_item ws ty cat fig b d)) s1 = (Inr (item, changed), u')"
    and ty: "type_to_string ty = bld_type r"
      "bld_type r = ''Set'' \<Longrightarrow> cat = bld_set_catalog r \<and> 0 < cat"
      "bld_type r = ''Minifig'' \<Longrightarrow> fig = bld_minifig r \<and> 0 < fig"
    by (fastforce simp: create_from_build_in_current_transaction_def
        create_set_in_current_transaction_def create_minifig_in_current_transaction_def
        create_moc_in_current_transaction_def run_simps split: if_splits)
  show ?thesis
  proof (rule create_item_stored [OF made])
    fix now i
    assume ins: "tables u' = snd (insert_item (row_of_item ((new_item ws ty cat fig b d)\<lparr>itm_modified := now\<rparr>)) (tables s1))"
      and uses: "0 < itm_source_build (new_item ws ty cat fig b d) \<Longrightarrow>
        \<exists>r\<in>set (builds (tables s1)). agrees r (new_item ws ty cat fig b d) \<and> bld_status r = ''Complete''
          \<and> (\<forall>c\<in>set (collection (tables s1)). col_source_build c \<noteq> itm_source_build (new_item ws ty cat fig b d))"
    from uses assms(3) t1 have "\<forall>c\<in>set (collection (tables s)). col_source_build c \<noteq> b"
      by (auto simp: new_item_def)
    with m guard ty ins u(2) t1 assms(3) show ?thesis
      by (intro bexI [of _ r] conjI exI [of _ "put_col_id (seq_collection (tables s) + 1)
          (row_of_item ((new_item ws ty cat fig b d)\<lparr>itm_modified := now\<rparr>))"])
        (auto simp: insert_item_def Let_def row_of_item_def put_col_id_def new_item_def nullable_def)
  qed
qed

theorem create_from_build_exact_witness:
  "length (collection (tables (snd (run_state
     (collection_service (CreateFromBuild 1 2 (sample_details Assembled 2))) (connect sample_linked))))) = 1
   \<and> fst (run_state (collection_service (CreateFromBuild 1 1 (sample_details Assembled 2)))
       (connect sample_linked)) = Inl SourceBuildIncomplete"
proof
  have "succeeds (fst (run_state (collection_service (CreateFromBuild 1 2 (sample_details Assembled 2)))
      (connect sample_linked)))" by code_simp
  then obtain item changed s' where run: "run_state
      (collection_service (CreateFromBuild 1 2 (sample_details Assembled 2))) (connect sample_linked)
      = (Inr (item, changed), s')"
    by (metis succeeds_iff prod.collapse)
  have "saved (connect sample_linked) = None" "(0::int) < 2" by simp_all
  from create_from_build_exact [OF run this]
  show "length (collection (tables (snd (run_state
     (collection_service (CreateFromBuild 1 2 (sample_details Assembled 2))) (connect sample_linked))))) = 1"
    unfolding run snd_conv by (auto simp: sample_linked_def sample_defs)
  show "fst (run_state (collection_service (CreateFromBuild 1 1 (sample_details Assembled 2)))
       (connect sample_linked)) = Inl SourceBuildIncomplete"
    by code_simp
qed

text \<open>
  Reactivating an archived item does not look at its location again: an item that
  was archived in location 2 while the location was active comes back as an active item of an
  inactive location, which a deactivation of the location would have refused to leave behind.
\<close>

theorem reactivation_can_occupy_inactive_location:
  "let t = sample_owned\<lparr>inventory := [sample_row 1 1 1 20]\<rparr>\<lparr>movements := []\<rparr>;
       (archived, s1) = run_state (collection_service (SetItemActive 1 False)) (connect t);
       (closed, s2) = run_state (set_location_active 1 2 False None) s1;
       (back, s3) = run_state (collection_service (SetItemActive 1 True)) s2
   in succeeds archived \<and> succeeds closed \<and> succeeds back \<and> has_collection 2 (tables s3)
    \<and> map_option sto_active (find (\<lambda>l. sto_id l = 2) (storage (tables s3))) = Some False
    \<and> fst (run_state (set_location_active 1 2 False None) (connect t)) = Inl CollectionOccupied"
  by code_simp

end
