(* ===== verification/BuildServices.thy ===== *)
theory BuildServices
  imports InventoryBooks CollectionRules
begin

text \<open>
  The services that carry a Build from its plan to its end: \<open>BuildMutationService\<close> (create,
  edit, complete, archive), \<open>BuildRequirementMutationService\<close>,
  \<open>BuildAllocationMutationService\<close>, \<open>BuildPullingService\<close> and
  \<open>BuildLifecycleService\<close> (disassemble, cancel, store spares). Each public operation runs its
  \<open>InCurrentTransaction\<close> body in a transaction of its own.
\<close>

text \<open>The error values of the four mutation services.\<close>

datatype build_error = BuildInvalidInput | BuildNotFound | BuildInvalidState | BuildDatabaseFailure
  | EmptyOptionalRead  \<comment> \<open>the code dereferences an empty \<open>std::optional\<close>: no defined behaviour\<close>

definition build_service :: "(session, build_error + 'a) state \<Rightarrow> (session, build_error + 'a) state" where
  "build_service body = host_transaction BuildInvalidState BuildDatabaseFailure body"

definition max0 :: "int \<Rightarrow> int" where
  "max0 i = max i 0"

section \<open>BuildMutationService\<close>

definition create_build_in_current_transaction :: "build_row \<Rightarrow> (session, build_error + build_row) state" where
  "create_build_in_current_transaction b =
     (if bld_workspace b \<le> 0 \<or> trimmed (bld_name b) = []
        \<or> trimmed (bld_type b) \<notin> {''Set'', ''MOC''} then ret (Inl BuildInvalidInput)
      else do {
        workspace \<leftarrow> workspace_try_get (bld_workspace b);
        case workspace of None \<Rightarrow> ret (Inl BuildDatabaseFailure)
        | Some None \<Rightarrow> ret (Inl BuildNotFound)
        | Some (Some w) \<Rightarrow> do {
            manufacturer \<leftarrow> (if bld_manufacturer b > 0
              then do { m \<leftarrow> manufacturer_by_id (bld_manufacturer b); ret (got m) } else ret True);
            if \<not> manufacturer then ret (Inl BuildNotFound)
            else do {
              stored \<leftarrow> build_create
                (b\<lparr>bld_name := trimmed (bld_name b), bld_notes := trimmed (bld_notes b)\<rparr>);
              ret (case stored of None \<Rightarrow> Inl BuildDatabaseFailure | Some x \<Rightarrow> Inr x)
            }
          }
      })"

definition with_metadata :: "build_row \<Rightarrow> string \<Rightarrow> int \<Rightarrow> string \<Rightarrow> build_row" where
  "with_metadata b name manufacturer notes = b\<lparr>bld_name := trimmed name,
     bld_manufacturer := manufacturer, bld_notes := trimmed notes\<rparr>"

text \<open>The answer: the Build and whether it changed.\<close>

definition update_metadata_in_current_transaction ::
    "int \<Rightarrow> string \<Rightarrow> int \<Rightarrow> string \<Rightarrow> (session, build_error + build_row \<times> bool) state" where
  "update_metadata_in_current_transaction i name manufacturer notes =
     (if trimmed name = [] then ret (Inl BuildInvalidInput)
      else do {
        build \<leftarrow> build_try_get i;
        case build of None \<Rightarrow> ret (Inl BuildDatabaseFailure)
        | Some None \<Rightarrow> ret (Inl BuildNotFound)
        | Some (Some b) \<Rightarrow> do {
            known \<leftarrow> (if manufacturer > 0
              then do { m \<leftarrow> manufacturer_by_id manufacturer; ret (got m) } else ret True);
            if \<not> known then ret (Inl BuildNotFound)
            else if bld_name b = trimmed name \<and> bld_manufacturer b = manufacturer
              \<and> bld_notes b = trimmed notes
            then ret (Inr (with_metadata b name manufacturer notes, False))
            else do {
              stored \<leftarrow> build_update (with_metadata b name manufacturer notes);
              ret (case stored of None \<Rightarrow> Inl BuildDatabaseFailure | Some x \<Rightarrow> Inr (x, True))
            }
          }
      })"

text \<open>Reactivating a cancelled Build plans it again.\<close>

definition activated :: "build_row \<Rightarrow> bool \<Rightarrow> build_row" where
  "activated b active = b\<lparr>bld_status := (if active \<and> bld_status b = ''Cancelled'' then ''Planned''
     else bld_status b), bld_active := active\<rparr>"

definition set_build_active_in_current_transaction ::
    "int \<Rightarrow> bool \<Rightarrow> (session, build_error + build_row \<times> bool) state" where
  "set_build_active_in_current_transaction i active = do {
     build \<leftarrow> build_try_get i;
     case build of None \<Rightarrow> ret (Inl BuildDatabaseFailure)
     | Some None \<Rightarrow> ret (Inl BuildNotFound)
     | Some (Some b) \<Rightarrow>
         if \<not> active \<and> bld_status b \<noteq> ''Cancelled'' \<and> bld_status b \<noteq> ''Disassembled''
         then ret (Inl BuildInvalidState)
         else if bld_active b = active then ret (Inr (b, False))
         else do {
           stored \<leftarrow> build_update (activated b active);
           ret (case stored of None \<Rightarrow> Inl BuildDatabaseFailure | Some x \<Rightarrow> Inr (x, True))
         }
   }"

definition all_pulled :: "requirement_row list \<Rightarrow> bool" where
  "all_pulled rs \<longleftrightarrow> list_all (\<lambda>r. req_spare r \<or> req_required r \<le> req_pulled r) rs"

definition complete_build_in_current_transaction :: "int \<Rightarrow> (session, build_error + build_row) state" where
  "complete_build_in_current_transaction i = do {
     build \<leftarrow> build_try_get i;
     case build of None \<Rightarrow> ret (Inl BuildDatabaseFailure)
     | Some None \<Rightarrow> ret (Inl BuildNotFound)
     | Some (Some b) \<Rightarrow> do {
         requirements \<leftarrow> requirement_try_get_by_build i;
         case requirements of None \<Rightarrow> ret (Inl BuildDatabaseFailure)
         | Some rs \<Rightarrow>
             if rs = [] then ret (Inl BuildInvalidState)
             else if bld_mode b = ''Stock'' \<and> \<not> all_pulled rs then ret (Inl BuildInvalidState)
             else do {
               stored \<leftarrow> build_update (b\<lparr>bld_status := ''Complete''\<rparr>);
               ret (case stored of None \<Rightarrow> Inl BuildDatabaseFailure | Some x \<Rightarrow> Inr x)
             }
       }
   }"

section \<open>BuildRequirementMutationService\<close>

definition editable :: "build_row \<Rightarrow> bool" where
  "editable b \<longleftrightarrow> bld_active b \<and> bld_mode b = ''Stock'' \<and> bld_status b \<in> {''Planned'', ''Pulling''}"

definition color_by_id :: "int \<Rightarrow> (session, int option) state" where
  "color_by_id i = do {
     row \<leftarrow> sql_query (\<lambda>t. find (\<lambda>c. c = i) (colors t));
     ret (found_row row)
   }"

text \<open>A part that is given has to exist; the color is looked up only when the part was found.\<close>

definition part_and_color_known :: "int \<Rightarrow> int \<Rightarrow> bool \<Rightarrow> (session, bool) state" where
  "part_and_color_known p c optional = do {
     part \<leftarrow> (if optional \<and> p \<le> 0 then ret True else do { x \<leftarrow> part_by_id p; ret (got x) });
     if \<not> part then ret False
     else if optional \<and> c \<le> 0 then ret True
     else do { x \<leftarrow> color_by_id c; ret (got x) }
   }"

definition add_requirement_in_current_transaction ::
    "requirement_row \<Rightarrow> (session, build_error + requirement_row \<times> bool) state" where
  "add_requirement_in_current_transaction r =
     (if req_build r \<le> 0 \<or> req_part r \<le> 0 \<or> req_color r \<le> 0 \<or> req_required r \<le> 0
      then ret (Inl BuildInvalidInput)
      else do {
        build \<leftarrow> build_get (req_build r);
        case build of None \<Rightarrow> ret (Inl BuildNotFound)
        | Some b \<Rightarrow>
            if \<not> editable b then ret (Inl BuildInvalidState)
            else do {
              known \<leftarrow> part_and_color_known (req_part r) (req_color r) False;
              if \<not> known then ret (Inl BuildNotFound)
              else do {
                stored \<leftarrow> requirement_create r;
                ret (case stored of None \<Rightarrow> Inl BuildDatabaseFailure | Some x \<Rightarrow> Inr (x, True))
              }
            }
      })"

definition identity_changes :: "requirement_row \<Rightarrow> int \<Rightarrow> int \<Rightarrow> bool" where
  "identity_changes r p c \<longleftrightarrow> p \<noteq> req_sub_part r \<or> c \<noteq> req_sub_color r"

definition edited_requirement :: "requirement_row \<Rightarrow> int \<Rightarrow> int \<Rightarrow> int \<Rightarrow> bool \<Rightarrow> requirement_row" where
  "edited_requirement r p c q spare = r\<lparr>req_sub_part := p, req_sub_color := c, req_required := q,
     req_spare := spare\<rparr>"

text \<open>The write at the end of \<open>edit\<close>, skipped when nothing changes.\<close>

definition store_edited_requirement ::
    "requirement_row \<Rightarrow> int \<Rightarrow> int \<Rightarrow> int \<Rightarrow> bool \<Rightarrow> (session, build_error + requirement_row \<times> bool) state" where
  "store_edited_requirement r p c q spare =
     (if \<not> identity_changes r p c \<and> q = req_required r \<and> spare = req_spare r
      then ret (Inr (edited_requirement r p c q spare, False))
      else do {
        stored \<leftarrow> requirement_update (edited_requirement r p c q spare);
        ret (if stored then Inr (edited_requirement r p c q spare, True) else Inl BuildDatabaseFailure)
      })"

definition edit_requirement_in_current_transaction ::
    "int \<Rightarrow> int \<Rightarrow> int \<Rightarrow> int \<Rightarrow> bool \<Rightarrow> (session, build_error + requirement_row \<times> bool) state" where
  "edit_requirement_in_current_transaction i p c q spare = do {
     requirement \<leftarrow> requirement_try_get i;
     case requirement of None \<Rightarrow> ret (Inl BuildDatabaseFailure)
     | Some None \<Rightarrow> ret (Inl BuildNotFound)
     | Some (Some r) \<Rightarrow> do {
         build \<leftarrow> build_try_get (req_build r);
         case build of None \<Rightarrow> ret (Inl BuildDatabaseFailure)
         | Some None \<Rightarrow> ret (Inl BuildNotFound)
         | Some (Some b) \<Rightarrow>
             if \<not> editable b then ret (Inl BuildInvalidState)
             else if q \<le> 0 then ret (Inl BuildInvalidInput)
             else do {
               known \<leftarrow> part_and_color_known p c True;
               if \<not> known then ret (Inl BuildNotFound)
               else do {
                 n \<leftarrow> total_allocated_for_requirement i;
                 if q < int32 (req_pulled r + n) then ret (Inl BuildInvalidState)
                 else if identity_changes r p c \<and> n > 0 then ret (Inl BuildInvalidState)
                 else if identity_changes r p c then do {
                   m \<leftarrow> total_allocated_for_part_color_for_build (req_build r) (effective_part r)
                     (effective_color r);
                   if m > 0 then ret (Inl BuildInvalidState)
                   else store_edited_requirement r p c q spare
                 }
                 else store_edited_requirement r p c q spare
               }
             }
       }
   }"

definition remove_requirement_in_current_transaction ::
    "int \<Rightarrow> (session, build_error + requirement_row \<times> bool) state" where
  "remove_requirement_in_current_transaction i = do {
     requirement \<leftarrow> requirement_try_get i;
     case requirement of None \<Rightarrow> ret (Inl BuildDatabaseFailure)
     | Some None \<Rightarrow> ret (Inl BuildNotFound)
     | Some (Some r) \<Rightarrow> do {
         build \<leftarrow> build_get (req_build r);
         case build of None \<Rightarrow> ret (Inl BuildNotFound)
         | Some b \<Rightarrow>
             if \<not> editable b then ret (Inl BuildInvalidState)
             else if req_pulled r > 0 \<or> req_released r > 0 then ret (Inl BuildInvalidState)
             else do {
               n \<leftarrow> total_allocated_for_requirement i;
               if n > 0 then ret (Inl BuildInvalidState)
               else do {
                 removed \<leftarrow> requirement_remove i;
                 ret (if removed then Inr (r, True) else Inl BuildDatabaseFailure)
               }
             }
       }
   }"

section \<open>BuildAllocationMutationService\<close>

definition allocatable :: "build_row \<Rightarrow> bool" where
  "allocatable b \<longleftrightarrow> bld_active b \<and> bld_status b \<in> {''Planned'', ''Pulling''} \<and> bld_mode b = ''Stock''"

text \<open>The first loop of \<open>replaceForRequirement\<close>: every row is valid, and the sum of the rows.\<close>

fun check_candidates ::
    "build_row \<Rightarrow> requirement_row \<Rightarrow> allocation_row list \<Rightarrow> int list \<Rightarrow> int
     \<Rightarrow> (session, build_error + int) state" where
  "check_candidates b r [] seen tot = ret (Inr tot)"
| "check_candidates b r (a # as) seen tot =
     (if alloc_quantity a \<le> 0 \<or> alloc_inventory a \<le> 0 then ret (Inl BuildInvalidInput)
      else if alloc_inventory a \<in> set seen then ret (Inl BuildInvalidInput)
      else do {
        row \<leftarrow> inventory_get (alloc_inventory a);
        case row of None \<Rightarrow> ret (Inl BuildNotFound)
        | Some x \<Rightarrow>
            if inv_workspace x \<noteq> bld_workspace b \<or> inv_part x \<noteq> effective_part r
              \<or> inv_color x \<noteq> effective_color r then ret (Inl BuildInvalidState)
            else if tot > int_max - alloc_quantity a then ret (Inl BuildInvalidInput)
            else check_candidates b r as (alloc_inventory a # seen) (tot + alloc_quantity a)
      })"

text \<open>
  The second loop: what other requirements leave of each record covers the new quantity. The code
  iterates over a hash map; the order only decides which of several failing rows is met first.
\<close>

fun check_available :: "int \<Rightarrow> allocation_row list \<Rightarrow> (session, build_error option) state" where
  "check_available i [] = ret None"
| "check_available i (a # as) = do {
     row \<leftarrow> inventory_get (alloc_inventory a);
     own \<leftarrow> allocation_get_by_inventory (alloc_inventory a);
     n \<leftarrow> total_allocated_for_inventory (alloc_inventory a);
     case row of None \<Rightarrow> ret (Some EmptyOptionalRead)
     | Some x \<Rightarrow>
         if alloc_quantity a > inv_quantity x
           - max0 (n - sum_where alloc_quantity (\<lambda>y. alloc_requirement y = i) own)
         then ret (Some BuildInvalidState)
         else check_available i as
   }"

definition candidate_for :: "requirement_row \<Rightarrow> inventory_row \<Rightarrow> allocation_row \<Rightarrow> allocation_row" where
  "candidate_for r x a = a\<lparr>alloc_build := req_build r, alloc_requirement := req_id r,
     alloc_part := effective_part r, alloc_color := effective_color r,
     alloc_storage := inv_storage x\<rparr>"

fun create_candidates ::
    "requirement_row \<Rightarrow> allocation_row list \<Rightarrow> (session, build_error + allocation_row list) state" where
  "create_candidates r [] = ret (Inr [])"
| "create_candidates r (a # as) = do {
     row \<leftarrow> inventory_get (alloc_inventory a);
     case row of None \<Rightarrow> ret (Inl EmptyOptionalRead)
     | Some x \<Rightarrow> do {
         stored \<leftarrow> allocation_create (candidate_for r x a);
         case stored of None \<Rightarrow> ret (Inl BuildDatabaseFailure)
         | Some c \<Rightarrow> do {
             rest \<leftarrow> create_candidates r as;
             ret (case rest of Inl e \<Rightarrow> Inl e | Inr cs \<Rightarrow> Inr (c # cs))
           }
       }
   }"

definition replace_for_requirement_in_current_transaction ::
    "int \<Rightarrow> allocation_row list \<Rightarrow> (session, build_error + allocation_row list) state" where
  "replace_for_requirement_in_current_transaction i requested = do {
     requirement \<leftarrow> requirement_get i;
     case requirement of None \<Rightarrow> ret (Inl BuildNotFound)
     | Some r \<Rightarrow>
         if req_pulled r > 0 then ret (Inl BuildInvalidState)
         else do {
           build \<leftarrow> build_get (req_build r);
           case build of None \<Rightarrow> ret (Inl BuildNotFound)
           | Some b \<Rightarrow>
               if \<not> allocatable b then ret (Inl BuildInvalidState)
               else do {
                 checked \<leftarrow> check_candidates b r requested [] 0;
                 case checked of Inl e \<Rightarrow> ret (Inl e)
                 | Inr tot \<Rightarrow> do {
                     objection \<leftarrow> check_available i requested;
                     case objection of Some e \<Rightarrow> ret (Inl e)
                     | None \<Rightarrow>
                         if tot > max0 (req_required r - req_pulled r) then ret (Inl BuildInvalidState)
                         else do {
                           cleared \<leftarrow> allocation_remove_all_for_requirement i;
                           if \<not> cleared then ret (Inl BuildDatabaseFailure)
                           else create_candidates r requested
                         }
                   }
               }
         }
   }"

text \<open>What one requirement takes from one record: all it still needs or all the record has left.\<close>

definition take_from_record ::
    "build_row \<Rightarrow> requirement_row \<Rightarrow> inventory_row \<Rightarrow> int \<Rightarrow> (session, build_error + int) state" where
  "take_from_record b r x needed = do {
     n \<leftarrow> total_allocated_for_inventory (inv_id x);
     let add = min needed (max0 (inv_quantity x - n));
     if add = 0 then ret (Inr 0)
     else do {
       current \<leftarrow> allocation_get_by_requirement (req_id r);
       case find (\<lambda>a. alloc_inventory a = inv_id x) current of
         Some a \<Rightarrow> do {
           updated \<leftarrow> allocation_update (a\<lparr>alloc_quantity := int32 (alloc_quantity a + add)\<rparr>);
           ret (if updated then Inr add else Inl BuildDatabaseFailure)
         }
       | None \<Rightarrow> do {
           created \<leftarrow> allocation_create \<lparr>alloc_id = 0, alloc_build = bld_id b,
             alloc_requirement = req_id r, alloc_inventory = inv_id x,
             alloc_part = effective_part r, alloc_color = effective_color r,
             alloc_storage = inv_storage x, alloc_quantity = add\<rparr>;
           ret (if created = None then Inl BuildDatabaseFailure else Inr add)
         }
     }
   }"

fun take_from_records ::
    "build_row \<Rightarrow> requirement_row \<Rightarrow> inventory_row list \<Rightarrow> int \<Rightarrow> int \<Rightarrow> (session, build_error + int) state" where
  "take_from_records b r [] needed added = ret (Inr added)"
| "take_from_records b r (x # xs) needed added =
     (if needed = 0 then ret (Inr added)
      else do {
        taken \<leftarrow> take_from_record b r x needed;
        case taken of Inl e \<Rightarrow> ret (Inl e)
        | Inr add \<Rightarrow> take_from_records b r xs (needed - add) (int32 (added + add))
      })"

text \<open>\<open>std::stable_sort\<close>: the records of the preferred location first, the order kept otherwise.\<close>

definition preferred_first :: "int \<Rightarrow> inventory_row list \<Rightarrow> inventory_row list" where
  "preferred_first location xs =
     filter (\<lambda>x. inv_storage x = location) xs @ filter (\<lambda>x. inv_storage x \<noteq> location) xs"

definition allocate_requirement ::
    "build_row \<Rightarrow> int \<Rightarrow> requirement_row \<Rightarrow> int \<Rightarrow> (session, build_error + int) state" where
  "allocate_requirement b preferred r added =
     (if req_spare r then ret (Inr added)
      else do {
        n \<leftarrow> total_allocated_for_requirement (req_id r);
        let needed = max0 (int32 (req_required r - req_pulled r - n));
        if needed = 0 then ret (Inr added)
        else do {
          xs \<leftarrow> inventory_get_by_part_color (bld_workspace b) (effective_part r) (effective_color r);
          take_from_records b r (preferred_first preferred xs) needed added
        }
      })"

fun allocate_requirements ::
    "build_row \<Rightarrow> int \<Rightarrow> requirement_row list \<Rightarrow> int \<Rightarrow> (session, build_error + int) state" where
  "allocate_requirements b preferred [] added = ret (Inr added)"
| "allocate_requirements b preferred (r # rs) added = do {
     x \<leftarrow> allocate_requirement b preferred r added;
     case x of Inl e \<Rightarrow> ret (Inl e) | Inr n \<Rightarrow> allocate_requirements b preferred rs n
   }"

text \<open>The answer: the allocations of the Build afterwards and the pieces added.\<close>

definition allocate_available_in_current_transaction ::
    "int \<Rightarrow> int \<Rightarrow> (session, build_error + allocation_row list \<times> int) state" where
  "allocate_available_in_current_transaction i preferred = do {
     build \<leftarrow> build_get i;
     case build of None \<Rightarrow> ret (Inl BuildNotFound)
     | Some b \<Rightarrow>
         if \<not> allocatable b then ret (Inl BuildInvalidState)
         else do {
           rs \<leftarrow> requirement_get_by_build i;
           done \<leftarrow> allocate_requirements b preferred rs 0;
           case done of Inl e \<Rightarrow> ret (Inl e)
           | Inr added \<Rightarrow> do {
               as \<leftarrow> allocation_get_by_build i;
               ret (Inr (as, added))
             }
         }
   }"

end
