(* ===== verification/BuildLifecycle.thy ===== *)
theory BuildLifecycle
  imports BuildServices
begin

text \<open>
  \<open>BuildPullingService\<close>, which takes allocated pieces out of the inventory and into a Build, and
  \<open>BuildLifecycleService\<close>, which returns them: disassembly, cancellation, and the release of the
  spare pieces of a complete set.
\<close>

section \<open>BuildPullingService\<close>

datatype pull_error = NoPullQuantities | InvalidPullRequest | AllocationMissing | NotAStockBuild
  | NotLinkedToRequirement | RequirementNoLongerValid | EffectiveIdentityChanged
  | InventoryMissing | InventoryIdentityChanged | ExceedsAllocation | ExceedsInventory
  | ExceedsRequirement | PullWriteFailed | DifferentBuilds | PullNotStarted | PullNotCommitted

record pull_request =
  pull_allocation :: int
  pull_quantity :: int

definition pull_movement :: "build_row \<Rightarrow> inventory_row \<Rightarrow> int \<Rightarrow> movement_row" where
  "pull_movement b x q = blank_movement\<lparr>mov_workspace := inv_workspace x, mov_inventory := inv_id x,
     mov_part := inv_part x, mov_color := inv_color x, mov_type := ''BuildPull'',
     mov_quantity := - q, mov_from := inv_storage x, mov_condition := inv_condition x,
     mov_ownership := inv_ownership x, mov_ref_type := ''Build'', mov_ref_id := number_text (bld_id b),
     mov_notes := ''Pulled for '' @ bld_name b @
       (if trimmed (bld_set_number b) = [] then [] else '' ('' @ bld_set_number b @ '')'') @ ''.''\<rparr>"

text \<open>The checks of \<open>applyPull\<close>: the rows the pull is about, or the reason it is refused.\<close>

definition pull_rows :: "int \<Rightarrow> int \<Rightarrow>
    (session, pull_error + allocation_row \<times> build_row \<times> requirement_row \<times> inventory_row) state" where
  "pull_rows i q = do {
     allocation \<leftarrow> allocation_get i;
     case allocation of None \<Rightarrow> ret (Inl AllocationMissing)
     | Some a \<Rightarrow> do {
         build \<leftarrow> build_get (alloc_build a);
         case build of None \<Rightarrow> ret (Inl NotAStockBuild)
         | Some b \<Rightarrow>
             if bld_mode b \<noteq> ''Stock'' then ret (Inl NotAStockBuild)
             else if alloc_requirement a \<le> 0 then ret (Inl NotLinkedToRequirement)
             else do {
               requirement \<leftarrow> requirement_get (alloc_requirement a);
               case requirement of None \<Rightarrow> ret (Inl RequirementNoLongerValid)
               | Some r \<Rightarrow>
                   if req_build r \<noteq> alloc_build a \<or> req_spare r then ret (Inl RequirementNoLongerValid)
                   else if effective_part r \<noteq> alloc_part a \<or> effective_color r \<noteq> alloc_color a
                   then ret (Inl EffectiveIdentityChanged)
                   else do {
                     row \<leftarrow> inventory_get (alloc_inventory a);
                     ret (case row of None \<Rightarrow> Inl InventoryMissing
                       | Some x \<Rightarrow>
                           if inv_part x \<noteq> alloc_part a \<or> inv_color x \<noteq> alloc_color a
                             \<or> inv_storage x \<noteq> alloc_storage a then Inl InventoryIdentityChanged
                           else if q > alloc_quantity a then Inl ExceedsAllocation
                           else if q > inv_quantity x then Inl ExceedsInventory
                           else if int32 (req_pulled r + q) > req_required r
                           then Inl ExceedsRequirement
                           else Inr (a, b, r, x))
                   }
             }
       }
   }"

text \<open>The writes of \<open>applyPull\<close>, in order; the answer is whether all of them succeeded.\<close>

definition reduce_allocation :: "allocation_row \<Rightarrow> int \<Rightarrow> (session, bool) state" where
  "reduce_allocation a q =
     (if alloc_quantity a - q = 0 then allocation_remove (alloc_id a)
      else allocation_update (a\<lparr>alloc_quantity := alloc_quantity a - q\<rparr>))"

definition pull_writes ::
    "allocation_row \<Rightarrow> build_row \<Rightarrow> requirement_row \<Rightarrow> inventory_row \<Rightarrow> int \<Rightarrow> (session, bool) state" where
  "pull_writes a b r x q = do {
     taken \<leftarrow> inventory_update_quantity (inv_id x) (inv_quantity x - q);
     if \<not> taken then ret False
     else do {
       recorded \<leftarrow> record_pulled_manufacturer (alloc_build a) (inv_part x) (inv_color x)
         (inv_manufacturer x) q;
       if \<not> recorded then ret False
       else do {
         reduced \<leftarrow> reduce_allocation a q;
         if \<not> reduced then ret False
         else do {
           pulled \<leftarrow> requirement_update (r\<lparr>req_pulled := int32 (req_pulled r + q)\<rparr>);
           if \<not> pulled then ret False
           else movement_create (pull_movement b x q)
         }
       }
     }
   }"

definition apply_pull :: "int \<Rightarrow> int \<Rightarrow> (session, pull_error + int) state" where
  "apply_pull i q = do {
     rows \<leftarrow> pull_rows i q;
     case rows of Inl e \<Rightarrow> ret (Inl e)
     | Inr (a, b, r, x) \<Rightarrow> do {
         written \<leftarrow> pull_writes a b r x q;
         ret (if written then Inr (alloc_build a) else Inl PullWriteFailed)
       }
   }"

text \<open>The loop over the requests: all of one Build; the answer counts the rows and the pieces.\<close>

fun apply_pull_loop :: "pull_request list \<Rightarrow> int \<Rightarrow> int \<Rightarrow> int \<Rightarrow> (session, pull_error + int \<times> int) state" where
  "apply_pull_loop [] expected rows got_pieces = ret (Inr (rows, got_pieces))"
| "apply_pull_loop (p # ps) expected rows got_pieces =
     (if pull_quantity p = 0 then apply_pull_loop ps expected rows got_pieces
      else do {
        pulled \<leftarrow> apply_pull (pull_allocation p) (pull_quantity p);
        case pulled of Inl e \<Rightarrow> ret (Inl e)
        | Inr build \<Rightarrow>
            if expected \<noteq> 0 \<and> build \<noteq> expected then ret (Inl DifferentBuilds)
            else apply_pull_loop ps build (rows + 1) (int32 (got_pieces + pull_quantity p))
      })"

definition apply_pulls :: "pull_request list \<Rightarrow> (session, pull_error + int \<times> int) state" where
  "apply_pulls ps =
     (if ps = [] then ret (Inl NoPullQuantities)
      else if list_ex (\<lambda>p. pull_allocation p \<le> 0 \<or> pull_quantity p < 0) ps
      then ret (Inl InvalidPullRequest)
      else apply_pull_loop ps 0 0 0)"

definition record_pulls :: "pull_request list \<Rightarrow> (session, pull_error + int \<times> int) state" where
  "record_pulls ps = transactional succeeds (Inl PullNotStarted) (Inl PullNotCommitted) (apply_pulls ps)"

definition record_pull :: "int \<Rightarrow> int \<Rightarrow> (session, pull_error + int \<times> int) state" where
  "record_pull i q = record_pulls [\<lparr>pull_allocation = i, pull_quantity = q\<rparr>]"

section \<open>BuildLifecycleService: returning pieces\<close>

record disassembly_return =
  ret_requirement :: int
  ret_part :: int
  ret_color :: int
  ret_manufacturer :: int
  ret_storage :: int
  ret_quantity :: int
  ret_spare :: bool

text \<open>The requirement a returned row belongs to, or the reason the row is refused.\<close>

definition check_return :: "build_row \<Rightarrow> disassembly_return \<Rightarrow> (session, build_error + requirement_row) state" where
  "check_return b row = do {
     requirement \<leftarrow> requirement_try_get (ret_requirement row);
     case requirement of None \<Rightarrow> ret (Inl BuildDatabaseFailure)
     | Some requirement \<Rightarrow> do {
         destination \<leftarrow> storage_try_get (ret_storage row);
         case destination of None \<Rightarrow> ret (Inl BuildDatabaseFailure)
         | Some destination \<Rightarrow> do {
             children \<leftarrow> has_active_children_checked (ret_storage row);
             ret (if children = CheckError then Inl BuildDatabaseFailure
               else case (requirement, destination) of
                 (Some r, Some l) \<Rightarrow>
                   if req_build r \<noteq> bld_id b
                     \<or> (if bld_mode b = ''Stock'' then effective_part r else req_part r) \<noteq> ret_part row
                     \<or> (if bld_mode b = ''Stock'' then effective_color r else req_color r) \<noteq> ret_color row
                     \<or> \<not> sto_active l \<or> sto_workspace l \<noteq> bld_workspace b \<or> children = Yes
                   then Inl BuildInvalidState
                   else if bld_mode b = ''Stock'' \<and>
                     (ret_quantity row > req_pulled r \<or> ret_manufacturer row \<le> 0)
                   then Inl BuildInvalidState
                   else if bld_mode b = ''CompleteSet'' \<and>
                     ret_quantity row > max0 (req_required r - req_released r)
                   then Inl BuildInvalidState
                   else Inr r
               | _ \<Rightarrow> Inl BuildInvalidState)
           }
       }
   }"

definition returned_record :: "build_row \<Rightarrow> disassembly_return \<Rightarrow> inventory_row" where
  "returned_record b row = \<lparr>inv_id = 0, inv_workspace = bld_workspace b, inv_part = ret_part row,
     inv_color = ret_color row, inv_storage = ret_storage row, inv_manufacturer = ret_manufacturer row,
     inv_condition = (if bld_mode b = ''CompleteSet'' \<and> ret_spare row then ''New'' else ''Used''),
     inv_ownership = ''Owned'', inv_quantity = ret_quantity row\<rparr>"

definition add_returned :: "build_row \<Rightarrow> disassembly_return \<Rightarrow>
    (session, (inventory_row \<times> add_result) option) state" where
  "add_returned b row = add_or_increase_in_current_transaction (returned_record b row)
     (if bld_mode b = ''CompleteSet'' then ''SetDisassembly'' else ''BuildDisassembly'')
     ''Build'' (number_text (bld_id b)) (''Returned while disassembling '' @ bld_name b @ ''.'')"

text \<open>One row: back into the inventory and, for a Build from stock, out of the Build.\<close>

definition return_row :: "build_row \<Rightarrow> disassembly_return \<Rightarrow> (session, build_error + int) state" where
  "return_row b row = do {
     checked \<leftarrow> check_return b row;
     case checked of Inl e \<Rightarrow> ret (Inl e)
     | Inr r \<Rightarrow> do {
         added \<leftarrow> add_returned b row;
         case added of None \<Rightarrow> ret (Inl BuildDatabaseFailure)
         | Some (after, result) \<Rightarrow>
             if bld_mode b = ''Stock'' then do {
               reduced \<leftarrow> reduce_pulled_manufacturer (bld_id b) (ret_part row) (ret_color row)
                 (ret_manufacturer row) (ret_quantity row);
               if \<not> reduced then ret (Inl BuildDatabaseFailure)
               else do {
                 stored \<leftarrow> requirement_update (r\<lparr>req_pulled := req_pulled r - ret_quantity row\<rparr>);
                 ret (if stored then Inr (add_record result) else Inl BuildDatabaseFailure)
               }
             }
             else ret (Inr (add_record result))
       }
   }"

text \<open>What a lifecycle operation reports.\<close>

record lifecycle_result =
  lif_requirements :: "int list"
  lif_inventory :: "int list"
  lif_allocations :: "int list"
  lif_returned :: int
  lif_collection_changed :: bool

definition no_returns :: lifecycle_result where
  "no_returns = \<lparr>lif_requirements = [], lif_inventory = [], lif_allocations = [], lif_returned = 0,
     lif_collection_changed = False\<rparr>"

fun return_pieces :: "build_row \<Rightarrow> disassembly_return list \<Rightarrow> lifecycle_result
    \<Rightarrow> (session, build_error + lifecycle_result) state" where
  "return_pieces b [] result = ret (Inr result)"
| "return_pieces b (row # rows) result =
     (if ret_quantity row \<le> 0 then return_pieces b rows result
      else do {
        returned \<leftarrow> return_row b row;
        case returned of Inl e \<Rightarrow> ret (Inl e)
        | Inr i \<Rightarrow> return_pieces b rows (result\<lparr>
            lif_requirements := lif_requirements result @ [ret_requirement row],
            lif_inventory := lif_inventory result @ [i],
            lif_returned := int32 (lif_returned result + ret_quantity row)\<rparr>)
      })"

section \<open>BuildLifecycleService: the plan of a disassembly\<close>

definition planned_return :: "requirement_row \<Rightarrow> int \<Rightarrow> int \<Rightarrow> int \<Rightarrow> int \<Rightarrow> disassembly_return" where
  "planned_return r p c manufacturer q = \<lparr>ret_requirement = req_id r, ret_part = p, ret_color = c,
     ret_manufacturer = manufacturer, ret_storage = 0, ret_quantity = q, ret_spare = req_spare r\<rparr>"

definition set_plan_row :: "build_row \<Rightarrow> requirement_row \<Rightarrow> disassembly_return list" where
  "set_plan_row b r = (let q = (if req_spare r then max0 (req_required r - req_released r)
       else req_required r)
     in if q > 0 then [planned_return r (req_part r) (req_color r) (bld_manufacturer b) q] else [])"

fun plan_rows :: "build_row \<Rightarrow> requirement_row list \<Rightarrow> disassembly_return list
    \<Rightarrow> (session, build_error + disassembly_return list) state" where
  "plan_rows b [] rows = ret (Inr rows)"
| "plan_rows b (r # rs) rows =
     (if bld_mode b = ''CompleteSet'' then plan_rows b rs (rows @ set_plan_row b r)
      else do {
        pulled \<leftarrow> pulled_manufacturer_provenance (bld_id b) (effective_part r) (effective_color r);
        if int32 (sum_list (map snd pulled)) \<noteq> req_pulled r then ret (Inl BuildInvalidState)
        else plan_rows b rs (rows @ map (\<lambda>(m, q).
          planned_return r (effective_part r) (effective_color r) m q) pulled)
      })"

definition disassembly_return_plan ::
    "int \<Rightarrow> (session, build_error + build_row \<times> disassembly_return list) state" where
  "disassembly_return_plan i = do {
     build \<leftarrow> build_try_get i;
     case build of None \<Rightarrow> ret (Inl BuildDatabaseFailure)
     | Some None \<Rightarrow> ret (Inl BuildNotFound)
     | Some (Some b) \<Rightarrow>
         if \<not> bld_active b \<or> bld_status b \<noteq> ''Complete''
           \<or> bld_mode b \<notin> {''Stock'', ''CompleteSet''} then ret (Inl BuildInvalidState)
         else do {
           requirements \<leftarrow> requirement_try_get_by_build i;
           case requirements of None \<Rightarrow> ret (Inl BuildDatabaseFailure)
           | Some rs \<Rightarrow> do {
               plan \<leftarrow> plan_rows b rs [];
               ret (case plan of Inl e \<Rightarrow> Inl e
                 | Inr rows \<Rightarrow> if rows = [] then Inl BuildInvalidState else Inr (b, rows))
             }
         }
   }"

definition linked_collection_disassembly_return_plan ::
    "int \<Rightarrow> (session, build_error + build_row \<times> disassembly_return list \<times> collection_item) state" where
  "linked_collection_disassembly_return_plan i = do {
     item \<leftarrow> collection_try_get i;
     case item of None \<Rightarrow> ret (Inl BuildDatabaseFailure)
     | Some None \<Rightarrow> ret (Inl BuildNotFound)
     | Some (Some item) \<Rightarrow>
         if \<not> itm_active item \<or> itm_state item \<noteq> Assembled \<or> itm_completeness item \<noteq> CompleteItem
           \<or> itm_source_build item \<le> 0 \<or> itm_type item \<notin> {SetItem, MinifigItem, MocItem}
         then ret (Inl BuildInvalidState)
         else do {
           linked \<leftarrow> collection_try_get_by_source_build (itm_source_build item);
           case linked of None \<Rightarrow> ret (Inl BuildDatabaseFailure)
           | Some None \<Rightarrow> ret (Inl BuildInvalidState)
           | Some (Some l) \<Rightarrow>
               if itm_id l \<noteq> itm_id item then ret (Inl BuildInvalidState)
               else do {
                 plan \<leftarrow> disassembly_return_plan (itm_source_build item);
                 ret (case plan of Inl e \<Rightarrow> Inl e
                   | Inr (b, rows) \<Rightarrow>
                       if bld_workspace b \<noteq> itm_workspace item
                         \<or> bld_type b \<noteq> type_to_string (itm_type item)
                         \<or> (itm_type item = SetItem \<and> bld_set_catalog b \<noteq> itm_set_catalog item)
                         \<or> (itm_type item = MinifigItem \<and> bld_minifig b \<noteq> itm_minifig_catalog item)
                       then Inl BuildInvalidState else Inr (b, rows, item))
               }
         }
   }"

section \<open>BuildLifecycleService: disassembly, cancellation, spares\<close>

text \<open>The Collection item of the Build follows; the answer is whether it changed.\<close>

definition synchronize_item :: "int \<Rightarrow> item_state \<Rightarrow> (session, build_error + bool) state" where
  "synchronize_item i st = do {
     linked \<leftarrow> collection_try_get_by_source_build i;
     case linked of None \<Rightarrow> ret (Inl BuildDatabaseFailure)
     | Some None \<Rightarrow> ret (Inr False)
     | Some (Some l) \<Rightarrow> do {
         item \<leftarrow> update_state_for_disassembly i st;
         ret (case item of Inl e \<Rightarrow> Inl BuildDatabaseFailure | Inr (x, changed) \<Rightarrow> Inr changed)
       }
   }"

definition disassemble_in_current_transaction ::
    "int \<Rightarrow> disassembly_return list \<Rightarrow> item_state \<Rightarrow> (session, build_error + build_row \<times> lifecycle_result) state" where
  "disassemble_in_current_transaction i rows st = do {
     build \<leftarrow> build_try_get i;
     case build of None \<Rightarrow> ret (Inl BuildDatabaseFailure)
     | Some None \<Rightarrow> ret (Inl BuildNotFound)
     | Some (Some b) \<Rightarrow>
         if bld_status b \<noteq> ''Complete'' then ret (Inl BuildInvalidState)
         else do {
           returned \<leftarrow> return_pieces b rows no_returns;
           case returned of Inl e \<Rightarrow> ret (Inl e)
           | Inr result \<Rightarrow> do {
               stored \<leftarrow> build_update (b\<lparr>bld_status := ''Disassembled''\<rparr>);
               case stored of None \<Rightarrow> ret (Inl BuildDatabaseFailure)
               | Some b' \<Rightarrow> do {
                   changed \<leftarrow> synchronize_item i st;
                   ret (case changed of Inl e \<Rightarrow> Inl e
                     | Inr c \<Rightarrow> Inr (b', result\<lparr>lif_collection_changed := c\<rparr>))
                 }
             }
         }
   }"

definition cancel_in_current_transaction ::
    "int \<Rightarrow> disassembly_return list \<Rightarrow> item_state \<Rightarrow> (session, build_error + build_row \<times> lifecycle_result) state" where
  "cancel_in_current_transaction i rows st = do {
     build \<leftarrow> build_try_get i;
     case build of None \<Rightarrow> ret (Inl BuildDatabaseFailure)
     | Some None \<Rightarrow> ret (Inl BuildNotFound)
     | Some (Some b) \<Rightarrow>
         if bld_status b \<notin> {''Planned'', ''Pulling''} then ret (Inl BuildInvalidState)
         else do {
           returned \<leftarrow> return_pieces b rows no_returns;
           case returned of Inl e \<Rightarrow> ret (Inl e)
           | Inr result \<Rightarrow> do {
               requirements \<leftarrow> requirement_try_get_by_build i;
               case requirements of None \<Rightarrow> ret (Inl BuildDatabaseFailure)
               | Some rs \<Rightarrow>
                   if list_ex (\<lambda>r. req_pulled r > 0) rs then ret (Inl BuildInvalidState)
                   else do {
                     existing \<leftarrow> allocation_try_get_by_build i;
                     case existing of None \<Rightarrow> ret (Inl BuildDatabaseFailure)
                     | Some as \<Rightarrow> do {
                         released \<leftarrow> allocation_remove_all_for_build i;
                         if \<not> released then ret (Inl BuildDatabaseFailure)
                         else do {
                           changed \<leftarrow> synchronize_item i st;
                           case changed of Inl e \<Rightarrow> ret (Inl e)
                           | Inr c \<Rightarrow> do {
                               stored \<leftarrow> build_update (b\<lparr>bld_status := ''Cancelled''\<rparr>);
                               ret (case stored of None \<Rightarrow> Inl BuildDatabaseFailure
                                 | Some b' \<Rightarrow> Inr (b', result\<lparr>lif_allocations := map alloc_id as,
                                     lif_collection_changed := c\<rparr>))
                             }
                         }
                       }
                   }
             }
         }
   }"

definition spare_record :: "build_row \<Rightarrow> requirement_row \<Rightarrow> int \<Rightarrow> int \<Rightarrow> inventory_row" where
  "spare_record b r location q = \<lparr>inv_id = 0, inv_workspace = bld_workspace b, inv_part = req_part r,
     inv_color = req_color r, inv_storage = location, inv_manufacturer = bld_manufacturer b,
     inv_condition = ''New'', inv_ownership = ''Owned'', inv_quantity = q\<rparr>"

text \<open>The checks of \<open>storeCompleteSetSpare\<close>: the Build and the spare requirement.\<close>

definition check_spare ::
    "int \<Rightarrow> int \<Rightarrow> int \<Rightarrow> int \<Rightarrow> (session, build_error + build_row \<times> requirement_row) state" where
  "check_spare i requirement_id location q = do {
     build \<leftarrow> build_try_get i;
     case build of None \<Rightarrow> ret (Inl BuildDatabaseFailure)
     | Some build \<Rightarrow> do {
         requirement \<leftarrow> requirement_try_get requirement_id;
         case requirement of None \<Rightarrow> ret (Inl BuildDatabaseFailure)
         | Some requirement \<Rightarrow> do {
             destination \<leftarrow> storage_try_get location;
             case destination of None \<Rightarrow> ret (Inl BuildDatabaseFailure)
             | Some destination \<Rightarrow> do {
                 children \<leftarrow> has_active_children_checked location;
                 ret (if children = CheckError then Inl BuildDatabaseFailure
                   else case (build, requirement, destination) of
                     (Some b, Some r, Some l) \<Rightarrow>
                       if bld_mode b \<noteq> ''CompleteSet'' \<or> bld_status b \<noteq> ''Complete''
                         \<or> req_build r \<noteq> i \<or> \<not> req_spare r \<or> q \<le> 0
                         \<or> q > max0 (req_required r - req_released r)
                         \<or> \<not> sto_active l \<or> sto_workspace l \<noteq> bld_workspace b \<or> children = Yes
                       then Inl BuildInvalidState else Inr (b, r)
                   | _ \<Rightarrow> Inl BuildNotFound)
               }
           }
       }
   }"

definition store_complete_set_spare_in_current_transaction ::
    "int \<Rightarrow> int \<Rightarrow> int \<Rightarrow> int \<Rightarrow> (session, build_error + build_row \<times> lifecycle_result) state" where
  "store_complete_set_spare_in_current_transaction i requirement_id location q = do {
     checked \<leftarrow> check_spare i requirement_id location q;
     case checked of Inl e \<Rightarrow> ret (Inl e)
     | Inr (b, r) \<Rightarrow> do {
         added \<leftarrow> add_or_increase_in_current_transaction (spare_record b r location q)
           ''SetSpareRelease'' ''Build'' (number_text i)
           (''Stored boxed spare from Complete Set '' @ bld_name b @ ''.'');
         case added of None \<Rightarrow> ret (Inl BuildDatabaseFailure)
         | Some (after, result) \<Rightarrow> do {
             stored \<leftarrow> requirement_update (r\<lparr>req_released := int32 (req_released r + q)\<rparr>);
             ret (if stored then Inr (b, no_returns\<lparr>lif_requirements := [requirement_id],
                 lif_inventory := [add_record result], lif_returned := q\<rparr>)
               else Inl BuildDatabaseFailure)
           }
       }
   }"

end
