(* ===== verification/BuildLedger.thy ===== *)
theory BuildLedger
  imports BuildLifecycle
begin

text \<open>
  What the statements and operations of the Builds do to the pieces. Beside the loose stock there
  are three accounts: the manufacturer provenance of the pieces inside Builds (\<open>built\<close>), the
  quantities the requirements report as pulled (\<open>pulled\<close>), and the allocations (\<open>reserved\<close>).
  Each is a sum over the rows whose key satisfies a predicate, as \<open>stock\<close> is.
\<close>

definition built :: "(int \<times> int \<times> int \<times> int \<Rightarrow> bool) \<Rightarrow> tables \<Rightarrow> int" where
  "built Q t = sum_where prov_quantity (\<lambda>p. Q (provenance_identity p)) (provenance t)"

definition requirement_key :: "requirement_row \<Rightarrow> int \<times> int \<times> int" where
  "requirement_key r = (req_build r, effective_part r, effective_color r)"

definition pulled :: "(int \<times> int \<times> int \<Rightarrow> bool) \<Rightarrow> tables \<Rightarrow> int" where
  "pulled Q t = sum_where req_pulled (\<lambda>r. Q (requirement_key r)) (requirements t)"

definition allocation_key :: "allocation_row \<Rightarrow> int \<times> int \<times> int" where
  "allocation_key a = (alloc_build a, alloc_requirement a, alloc_inventory a)"

definition reserved :: "(int \<times> int \<times> int \<Rightarrow> bool) \<Rightarrow> tables \<Rightarrow> int" where
  "reserved Q t = allocated (\<lambda>a. Q (allocation_key a)) t"

section \<open>Statements and the accounts they leave alone\<close>

lemmas statement_defs = update_inventory_def insert_inventory_def insert_movement_def
  update_requirements_def delete_requirements_def insert_requirement_def
  update_allocations_def delete_allocations_def insert_allocation_def
  decrease_provenance_def clean_provenance_def update_builds_def insert_build_def update_items_def

lemmas account_defs = stock_def on_hand_def quantities_fit_def built_def pulled_def reserved_def
  allocated_def

lemma upsert_provenance_frame [simp]:
  "inventory (snd (upsert_provenance k n t)) = inventory t"
  "movements (snd (upsert_provenance k n t)) = movements t"
  "seq_movement (snd (upsert_provenance k n t)) = seq_movement t"
  "requirements (snd (upsert_provenance k n t)) = requirements t"
  "allocations (snd (upsert_provenance k n t)) = allocations t"
  "builds (snd (upsert_provenance k n t)) = builds t"
  "storage (snd (upsert_provenance k n t)) = storage t"
  "manufacturers (snd (upsert_provenance k n t)) = manufacturers t"
  "collection (snd (upsert_provenance k n t)) = collection t"
  by (auto simp: upsert_provenance_def Let_def split: prod.split)

lemma inventory_statements_frame [simp]:
  "provenance (snd (update_inventory i f t)) = provenance t"
  "requirements (snd (update_inventory i f t)) = requirements t"
  "allocations (snd (update_inventory i f t)) = allocations t"
  "builds (snd (update_inventory i f t)) = builds t"
  "provenance (snd (insert_movement m t)) = provenance t"
  "requirements (snd (insert_movement m t)) = requirements t"
  "allocations (snd (insert_movement m t)) = allocations t"
  "builds (snd (insert_movement m t)) = builds t"
  "storage (snd (update_inventory i f t)) = storage t"
  "manufacturers (snd (update_inventory i f t)) = manufacturers t"
  "storage (snd (insert_movement m t)) = storage t"
  "manufacturers (snd (insert_movement m t)) = manufacturers t"
  "collection (snd (update_inventory i f t)) = collection t"
  "collection (snd (insert_movement m t)) = collection t"
  by (simp_all add: statement_defs Let_def)

lemma requirement_statements_frame [simp]:
  "inventory (snd (update_requirements P f t)) = inventory t"
  "movements (snd (update_requirements P f t)) = movements t"
  "seq_movement (snd (update_requirements P f t)) = seq_movement t"
  "provenance (snd (update_requirements P f t)) = provenance t"
  "allocations (snd (update_requirements P f t)) = allocations t"
  "builds (snd (update_requirements P f t)) = builds t"
  "storage (snd (update_requirements P f t)) = storage t"
  "manufacturers (snd (update_requirements P f t)) = manufacturers t"
  "collection (snd (update_requirements P f t)) = collection t"
  by (simp_all add: statement_defs Let_def)

lemma allocation_statements_frame [simp]:
  "inventory (snd (update_allocations P f t)) = inventory t"
  "movements (snd (update_allocations P f t)) = movements t"
  "seq_movement (snd (update_allocations P f t)) = seq_movement t"
  "provenance (snd (update_allocations P f t)) = provenance t"
  "requirements (snd (update_allocations P f t)) = requirements t"
  "builds (snd (update_allocations P f t)) = builds t"
  "inventory (snd (delete_allocations P t)) = inventory t"
  "movements (snd (delete_allocations P t)) = movements t"
  "seq_movement (snd (delete_allocations P t)) = seq_movement t"
  "provenance (snd (delete_allocations P t)) = provenance t"
  "requirements (snd (delete_allocations P t)) = requirements t"
  "builds (snd (delete_allocations P t)) = builds t"
  "storage (snd (update_allocations P f t)) = storage t"
  "manufacturers (snd (update_allocations P f t)) = manufacturers t"
  "storage (snd (delete_allocations P t)) = storage t"
  "manufacturers (snd (delete_allocations P t)) = manufacturers t"
  "collection (snd (update_allocations P f t)) = collection t"
  "collection (snd (delete_allocations P t)) = collection t"
  by (simp_all add: statement_defs Let_def)

lemma provenance_statements_frame [simp]:
  "inventory (snd (decrease_provenance k n t)) = inventory t"
  "movements (snd (decrease_provenance k n t)) = movements t"
  "seq_movement (snd (decrease_provenance k n t)) = seq_movement t"
  "requirements (snd (decrease_provenance k n t)) = requirements t"
  "allocations (snd (decrease_provenance k n t)) = allocations t"
  "builds (snd (decrease_provenance k n t)) = builds t"
  "inventory (snd (clean_provenance k t)) = inventory t"
  "movements (snd (clean_provenance k t)) = movements t"
  "seq_movement (snd (clean_provenance k t)) = seq_movement t"
  "requirements (snd (clean_provenance k t)) = requirements t"
  "allocations (snd (clean_provenance k t)) = allocations t"
  "builds (snd (clean_provenance k t)) = builds t"
  "collection (snd (decrease_provenance k n t)) = collection t"
  "collection (snd (clean_provenance k t)) = collection t"
  "storage (snd (decrease_provenance k n t)) = storage t"
  "manufacturers (snd (decrease_provenance k n t)) = manufacturers t"
  "storage (snd (clean_provenance k t)) = storage t"
  "manufacturers (snd (clean_provenance k t)) = manufacturers t"
  by (simp_all add: statement_defs Let_def)

text \<open>An account depends on one table only.\<close>

lemma accounts_cong:
  "inventory t' = inventory t \<Longrightarrow> stock Q t' = stock Q t"
  "inventory t' = inventory t \<Longrightarrow> on_hand i t' = on_hand i t"
  "inventory t' = inventory t \<Longrightarrow> quantities_fit t' = quantities_fit t"
  "provenance t' = provenance t \<Longrightarrow> built Q' t' = built Q' t"
  "requirements t' = requirements t \<Longrightarrow> pulled Q'' t' = pulled Q'' t"
  "allocations t' = allocations t \<Longrightarrow> reserved Q'' t' = reserved Q'' t"
  by (simp_all add: account_defs)

section \<open>Statements and the accounts they change\<close>

lemma provenance_key_unique:
  assumes "constraints t" "p \<in> set (provenance t)" "p' \<in> set (provenance t)"
    "provenance_identity p = provenance_identity p'"
  shows "p = p'"
  using constraints_provenance_identity [OF assms(1)] assms(2-4)
  by (auto simp: distinct_map inj_on_def)

lemma sum_update_unique:
  assumes "distinct (map k rows)" "r \<in> set rows" "\<And>x. x \<in> set rows \<Longrightarrow> P x \<longleftrightarrow> x = r"
  shows "sum_where q R (update_where P f rows)
    = sum_where q R rows - (if R r then q r else 0) + (if R (f r) then q (f r) else 0)"
  using assms
proof (induction rows)
  case Nil
  then show ?case by simp
next
  case (Cons a rows)
  show ?case
  proof (cases "a = r")
    case True
    with Cons.prems have "r \<notin> set rows" by auto
    with Cons.prems(3) have "update_where P f rows = rows"
      by (auto simp: update_where_def intro!: map_idI)
    with True Cons.prems show ?thesis by simp
  next
    case False
    with Cons.prems have "distinct (map k rows)" "r \<in> set rows"
      "\<And>x. x \<in> set rows \<Longrightarrow> P x \<longleftrightarrow> x = r" "\<not> P a" by auto
    with Cons.IH show ?thesis by simp
  qed
qed

lemma built_upsert:
  assumes "constraints t"
  shows "built Q (snd (upsert_provenance k n t)) = built Q t + (if Q k then n else 0)"
proof (cases "list_ex (\<lambda>p. provenance_identity p = k) (provenance t)")
  case True
  then obtain p where p: "p \<in> set (provenance t)" "provenance_identity p = k"
    by (auto simp: list_ex_iff)
  have "\<And>x. x \<in> set (provenance t) \<Longrightarrow> provenance_identity x = k \<longleftrightarrow> x = p"
    using provenance_key_unique [OF assms p(1)] p by metis
  from sum_update_unique [OF constraints_provenance_keys [OF assms] p(1) this,
      of prov_quantity "\<lambda>p. Q (provenance_identity p)" "\<lambda>p. p\<lparr>prov_quantity := prov_quantity p + n\<rparr>"]
  show ?thesis using True p(2)
    by (simp add: built_def upsert_provenance_def provenance_identity_def)
next
  case False
  then show ?thesis
    by (cases k) (auto simp: built_def upsert_provenance_def provenance_identity_def Let_def)
qed

lemma built_decrease:
  assumes "constraints t" "fst (decrease_provenance k n t) \<noteq> 0"
  shows "built Q (snd (decrease_provenance k n t)) = built Q t - (if Q k then n else 0)"
proof -
  let ?P = "\<lambda>p. provenance_identity p = k \<and> prov_quantity p \<ge> n"
  from assms(2) obtain p where p: "p \<in> set (provenance t)" "?P p"
    using count_where_pos [of ?P "provenance t"] by (auto simp: decrease_provenance_def)
  have "\<And>x. x \<in> set (provenance t) \<Longrightarrow> ?P x \<longleftrightarrow> x = p"
    using provenance_key_unique [OF assms(1) p(1)] p by metis
  from sum_update_unique [OF constraints_provenance_keys [OF assms(1)] p(1) this,
      of prov_quantity "\<lambda>p. Q (provenance_identity p)" "\<lambda>p. p\<lparr>prov_quantity := prov_quantity p - n\<rparr>"]
  show ?thesis using p(2)
    by (simp add: built_def decrease_provenance_def provenance_identity_def Let_def)
qed

lemma sum_where_zero: "(\<And>x. x \<in> set rows \<Longrightarrow> P x \<Longrightarrow> q x = 0) \<Longrightarrow> sum_where q P rows = 0"
  by (induction rows) auto

lemma sum_where_drop_zero:
  "(\<And>x. x \<in> set rows \<Longrightarrow> \<not> K x \<Longrightarrow> q x = 0) \<Longrightarrow> sum_where q P (filter K rows) = sum_where q P rows"
  by (induction rows) (auto simp del: sum_where_filter)

lemma built_clean [simp]: "built Q (snd (clean_provenance k t)) = built Q t"
  unfolding built_def clean_provenance_def Let_def snd_conv
  by (simp del: sum_where_filter, rule sum_where_drop_zero) auto

lemma pulled_update:
  assumes "find (\<lambda>x. req_id x = i) (requirements t) = Some old" "constraints t"
    "requirement_key new = requirement_key old"
  shows "pulled Q (snd (update_requirements (\<lambda>x. req_id x = i) (\<lambda>x. new) t))
    = pulled Q t + (if Q (requirement_key old) then req_pulled new - req_pulled old else 0)"
  using req.sum_where_update [OF assms(1) constraints_requirement_keys [OF assms(2)],
      of req_pulled "\<lambda>r. Q (requirement_key r)" "\<lambda>x. new"] assms(3)
  by (simp add: pulled_def update_requirements_def)

lemma reserved_update:
  assumes "find (\<lambda>x. alloc_id x = i) (allocations t) = Some old" "constraints t"
  shows "reserved Q (snd (update_allocations (\<lambda>x. alloc_id x = i) (\<lambda>x. new) t))
    = reserved Q t - (if Q (allocation_key old) then alloc_quantity old else 0)
      + (if Q (allocation_key new) then alloc_quantity new else 0)"
  using alloc.sum_where_update [OF assms(1) constraints_allocation_keys [OF assms(2)],
      of alloc_quantity "\<lambda>a. Q (allocation_key a)" "\<lambda>x. new"]
  by (simp add: reserved_def allocated_def update_allocations_def)

lemma reserved_delete:
  assumes "find (\<lambda>x. alloc_id x = i) (allocations t) = Some old" "constraints t"
  shows "reserved Q (snd (delete_allocations (\<lambda>x. alloc_id x = i) t))
    = reserved Q t - (if Q (allocation_key old) then alloc_quantity old else 0)"
  using alloc.sum_where_delete [OF assms(1) constraints_allocation_keys [OF assms(2)],
      of alloc_quantity "\<lambda>a. Q (allocation_key a)"]
  by (simp add: reserved_def allocated_def delete_allocations_def del: sum_where_filter)

section \<open>Operations: what a success wrote\<close>

lemma inventory_update_quantity_success:
  "run_state (inventory_update_quantity i q) s = (True, s') \<Longrightarrow>
   tables s' = snd (update_inventory i (set_quantity q) (tables s)) \<and> constraints (tables s') \<and> 0 \<le> q"
  by (auto simp: inventory_update_quantity_def run_simps split: if_splits)

lemma record_pulled_success:
  "run_state (record_pulled_manufacturer b p c m n) s = (True, s') \<Longrightarrow>
   tables s' = snd (upsert_provenance (b, p, c, m) n (tables s)) \<and> constraints (tables s') \<and> 0 < n \<and> 0 < m"
  by (auto simp: record_pulled_manufacturer_def run_simps split: if_splits)

lemma reduce_pulled_success:
  assumes "run_state (reduce_pulled_manufacturer b p c m n) s = (True, s')"
  shows "tables s' = snd (clean_provenance (b, p, c, m) (snd (decrease_provenance (b, p, c, m) n (tables s))))"
    "fst (decrease_provenance (b, p, c, m) n (tables s)) \<noteq> 0" "constraints (tables s')" "0 < n"
  using assms by (auto simp: reduce_pulled_manufacturer_def run_simps split: if_splits)

lemma requirement_update_success:
  assumes "run_state (requirement_update r) s = (True, s')"
  shows "tables s' = snd (update_requirements (\<lambda>x. req_id x = req_id r) (\<lambda>x. bound_requirement r) (tables s))"
    "constraints (tables s')" "0 \<le> req_pulled r" "0 \<le> req_released r" "0 < req_required r"
  using assms
  by (auto simp: requirement_update_def requirement_fields_ok_def run_simps split: if_splits)

lemma bound_requirement_simps [simp]:
  "requirement_key (bound_requirement r) = requirement_key r"
  "req_pulled (bound_requirement r) = req_pulled r" "req_id (bound_requirement r) = req_id r"
  "req_required (bound_requirement r) = req_required r" "req_spare (bound_requirement r) = req_spare r"
  "req_build (bound_requirement r) = req_build r"
  by (simp_all add: bound_requirement_def requirement_key_def effective_part_def effective_color_def
      nullable_def)

lemma requirement_key_pulled [simp]:
  "requirement_key (r\<lparr>req_pulled := n\<rparr>) = requirement_key r"
  by (simp add: requirement_key_def effective_part_def effective_color_def)

lemma allocation_update_success:
  "run_state (allocation_update a) s = (True, s') \<Longrightarrow>
   tables s' = snd (update_allocations (\<lambda>x. alloc_id x = alloc_id a) (\<lambda>x. bound_allocation a) (tables s))
   \<and> constraints (tables s') \<and> allocation_fields_ok a"
  by (auto simp: allocation_update_def run_simps split: if_splits)

lemma allocation_remove_success:
  "run_state (allocation_remove i) s = (True, s') \<Longrightarrow>
   tables s' = snd (delete_allocations (\<lambda>x. alloc_id x = i) (tables s)) \<and> constraints (tables s')"
  by (auto simp: allocation_remove_def run_simps split: if_splits)

lemma bound_allocation_simps [simp]:
  "0 \<le> alloc_requirement a \<Longrightarrow> bound_allocation a = a"
  by (simp add: bound_allocation_def nullable_def)

lemma allocation_key_quantity [simp]: "allocation_key (a\<lparr>alloc_quantity := n\<rparr>) = allocation_key a"
  by (simp add: allocation_key_def)

lemma reduce_allocation_effect:
  assumes "run_state (reduce_allocation a q) s = (True, s')"
    "find (\<lambda>x. alloc_id x = alloc_id a) (allocations (tables s)) = Some a"
    "constraints (tables s)" "0 \<le> alloc_requirement a"
  shows "reserved Q (tables s') = reserved Q (tables s) - (if Q (allocation_key a) then q else 0)"
    "constraints (tables s')" "inventory (tables s') = inventory (tables s)"
    "movements (tables s') = movements (tables s)" "seq_movement (tables s') = seq_movement (tables s)"
    "provenance (tables s') = provenance (tables s)" "requirements (tables s') = requirements (tables s)"
    "builds (tables s') = builds (tables s)" "collection (tables s') = collection (tables s)"
  using assms
  by (auto simp: reduce_allocation_def reserved_update reserved_delete split: if_splits
      dest!: allocation_update_success allocation_remove_success)

section \<open>Pulling\<close>

lemma build_get_found:
  "run_state (build_get i) s = (Some b, s') \<Longrightarrow>
   find (\<lambda>b. bld_id b = i) (builds (tables s)) = Some b \<and> tables s' = tables s"
  by (auto simp: build_get_def build_try_get_def run_simps split: if_splits)

lemma requirement_get_found:
  "run_state (requirement_get i) s = (Some r, s') \<Longrightarrow>
   find (\<lambda>r. req_id r = i) (requirements (tables s)) = Some r \<and> tables s' = tables s"
  by (auto simp: requirement_get_def requirement_try_get_def run_simps split: if_splits)

lemma allocation_get_found:
  "run_state (allocation_get i) s = (Some a, s') \<Longrightarrow>
   find (\<lambda>a. alloc_id a = i) (allocations (tables s)) = Some a \<and> tables s' = tables s"
  by (auto simp: allocation_get_def run_simps split: if_splits)

lemma pull_rows_success:
  assumes "run_state (pull_rows i q) s = (Inr (a, b, r, x), s')"
  shows "find (\<lambda>y. alloc_id y = i) (allocations (tables s)) = Some a"
    "find (\<lambda>y. bld_id y = alloc_build a) (builds (tables s)) = Some b"
    "find (\<lambda>y. req_id y = alloc_requirement a) (requirements (tables s)) = Some r"
    "find (\<lambda>y. inv_id y = alloc_inventory a) (inventory (tables s)) = Some x"
    "bld_mode b = ''Stock''" "0 < alloc_requirement a" "req_build r = alloc_build a"
    "\<not> req_spare r" "effective_part r = inv_part x" "effective_color r = inv_color x"
    "alloc_part a = inv_part x" "alloc_color a = inv_color x" "alloc_storage a = inv_storage x"
    "q \<le> alloc_quantity a" "q \<le> inv_quantity x" "int32 (req_pulled r + q) \<le> req_required r"
    "tables s' = tables s"
  using assms
  by (auto simp: pull_rows_def run_simps split: if_splits option.splits prod.splits
      dest!: allocation_get_found build_get_found requirement_get_found inventory_get_found)

end
