(* ===== verification/BuildFlow.thy ===== *)
theory BuildFlow
  imports BuildLedger
begin

text \<open>
  The flow of pieces between the inventory and the Builds: what a pull, a return, a cancellation
  and a disassembly do to the accounts, one operation at a time.
\<close>

section \<open>Books\<close>

text \<open>
  The books (quantities, ledger, lost pieces) depend on the inventory and its ledger only, so one
  movement that accounts for a change of the stock keeps them whatever else the change wrote.
\<close>

lemma books_cong:
  assumes "books t" "inventory t' = inventory t" "movements t' = movements t" "constraints t'"
  shows "books t'"
  using assms by (simp add: books_def reconciled_def lost_covered_def pieces_def stock_def
      ledger_def outstanding_lost_def quantities_fit_def)

lemma books_step:
  assumes "books t" "constraints t'" "quantities_fit t'"
    "\<And>Q. stock Q t' = stock Q t + (if Q (inventory_identity x) then n else 0)"
    "movements t' = movements t @ [m]"
    "mov_workspace m = inv_workspace x" "mov_part m = inv_part x" "mov_color m = inv_color x"
    "mov_quantity m = n" "mov_type m \<notin> {''Move'', ''Merge'', ''Lost'', ''Found''}"
  shows "books t'"
proof -
  have "pieces ws p c t' = ledger ws p c t'" for ws p c
    using assms(1,4,5-10)
    by (auto simp: pieces_def ledger_def books_def reconciled_def counted_def changes_quantity_def)
  moreover have "0 \<le> outstanding_lost ws p c t'" for ws p c
    using assms(1,5,10) by (auto simp: books_def lost_covered_def outstanding_lost_def)
  ultimately show ?thesis
    using assms(2,3) by (simp add: books_def reconciled_def lost_covered_def)
qed

text \<open>The counters of the requirements are C++ \<open>int\<close> values as well.\<close>

definition counts_fit :: "tables \<Rightarrow> bool" where
  "counts_fit t \<longleftrightarrow> (\<forall>r\<in>set (requirements t). req_pulled r \<le> int_max \<and> req_released r \<le> int_max
     \<and> req_required r \<le> int_max)"

lemma counts_fit_cong: "requirements t' = requirements t \<Longrightarrow> counts_fit t' = counts_fit t"
  by (simp add: counts_fit_def)

section \<open>Pulling\<close>

lemma pull_movement_simps [simp]:
  "mov_workspace (pull_movement b x q) = inv_workspace x" "mov_part (pull_movement b x q) = inv_part x"
  "mov_color (pull_movement b x q) = inv_color x" "mov_quantity (pull_movement b x q) = - q"
  "mov_type (pull_movement b x q) = ''BuildPull''"
  by (simp_all add: pull_movement_def)

text \<open>Every account after a pull of \<open>q\<close> pieces.\<close>

lemma apply_pull_effect:
  assumes "run_state (apply_pull i q) s = (Inr build, s')" "constraints (tables s)"
    "quantities_fit (tables s)" "counts_fit (tables s)" "0 \<le> q"
  obtains a b r x where
    "find (\<lambda>y. alloc_id y = i) (allocations (tables s)) = Some a"
    "find (\<lambda>y. bld_id y = build) (builds (tables s)) = Some b" "bld_mode b = ''Stock''"
    "find (\<lambda>y. req_id y = alloc_requirement a) (requirements (tables s)) = Some r"
    "find (\<lambda>y. inv_id y = alloc_inventory a) (inventory (tables s)) = Some x"
    "alloc_build a = build" "req_build r = build" "\<not> req_spare r"
    "requirement_key r = (build, inv_part x, inv_color x)"
    "q \<le> alloc_quantity a" "q \<le> inv_quantity x" "req_pulled r + q \<le> req_required r" "0 < q"
    "constraints (tables s')" "quantities_fit (tables s')" "counts_fit (tables s')"
    "\<And>Q. stock Q (tables s') = stock Q (tables s) - (if Q (inventory_identity x) then q else 0)"
    "\<And>j. on_hand j (tables s') = on_hand j (tables s) - (if j = inv_id x then q else 0)"
    "\<And>Q. built Q (tables s') = built Q (tables s)
      + (if Q (build, inv_part x, inv_color x, inv_manufacturer x) then q else 0)"
    "\<And>Q. pulled Q (tables s') = pulled Q (tables s) + (if Q (requirement_key r) then q else 0)"
    "\<And>Q. reserved Q (tables s') = reserved Q (tables s) - (if Q (allocation_key a) then q else 0)"
    "requirements (tables s') = update_where (\<lambda>y. req_id y = req_id r)
      (\<lambda>y. bound_requirement (r\<lparr>req_pulled := req_pulled r + q\<rparr>)) (requirements (tables s))"
    "movements (tables s') = movements (tables s)
      @ [logged (seq_movement (tables s) + 1) (pull_movement b x q)]"
    "builds (tables s') = builds (tables s)" "collection (tables s') = collection (tables s)"
proof -
  let ?t = "tables s"
  obtain a b r x s0 where rows: "run_state (pull_rows i q) s = (Inr (a, b, r, x), s0)"
    and writes: "run_state (pull_writes a b r x q) s0 = (True, s')" and build: "build = alloc_build a"
    using assms(1) by (auto simp: apply_pull_def run_simps split: sum.splits prod.splits if_splits)
  note g = pull_rows_success [OF rows]
  from writes obtain s1 s2 s3 s4 where
    w: "run_state (inventory_update_quantity (inv_id x) (inv_quantity x - q)) s0 = (True, s1)"
      "run_state (record_pulled_manufacturer (alloc_build a) (inv_part x) (inv_color x)
        (inv_manufacturer x) q) s1 = (True, s2)"
      "run_state (reduce_allocation a q) s2 = (True, s3)"
      "run_state (requirement_update (r\<lparr>req_pulled := int32 (req_pulled r + q)\<rparr>)) s3 = (True, s4)"
      "run_state (movement_create (pull_movement b x q)) s4 = (True, s')"
    by (auto simp: pull_writes_def run_simps split: if_splits prod.splits)
  have ids: "alloc_id a = i" "req_id r = alloc_requirement a" "inv_id x = alloc_inventory a"
    "bld_id b = alloc_build a"
    using g(1-4) by (auto simp: find_Some_iff)
  from inventory_update_quantity_success [OF w(1), unfolded g(17)] have
    t1: "tables s1 = snd (update_inventory (inv_id x) (set_quantity (inv_quantity x - q)) ?t)"
      "constraints (tables s1)" by blast+
  from record_pulled_success [OF w(2)] have
    t2: "tables s2 = snd (upsert_provenance (alloc_build a, inv_part x, inv_color x, inv_manufacturer x) q (tables s1))"
      "constraints (tables s2)" "0 < q" by blast+
  have "find (\<lambda>y. alloc_id y = alloc_id a) (allocations (tables s2)) = Some a"
    using g(1) ids(1) by (simp add: t1(1) t2(1))
  moreover have "0 \<le> alloc_requirement a" using g(6) by simp
  ultimately have t3: "\<And>Q. reserved Q (tables s3) = reserved Q (tables s2) - (if Q (allocation_key a) then q else 0)"
    "constraints (tables s3)" "inventory (tables s3) = inventory (tables s2)"
    "movements (tables s3) = movements (tables s2)" "seq_movement (tables s3) = seq_movement (tables s2)"
    "provenance (tables s3) = provenance (tables s2)" "requirements (tables s3) = requirements (tables s2)"
    "builds (tables s3) = builds (tables s2)" "collection (tables s3) = collection (tables s2)"
    using reduce_allocation_effect [OF w(3) _ t2(2)] by blast+
  note t4 = requirement_update_success(1-3) [OF w(4), simplified]
  from movement_create_success [OF w(5)] have
    t5: "tables s' = snd (insert_movement (pull_movement b x q) (tables s4))" "constraints (tables s')"
    by blast+
  have r: "r \<in> set (requirements ?t)" "find (\<lambda>y. req_id y = req_id r) (requirements (tables s3)) = Some r"
    using g(3) ids(2) by (auto simp: t3 t2(1) t1(1) dest: req.lookup_SomeD)
  have x: "x \<in> set (inventory ?t)" "find (\<lambda>y. inv_id y = inv_id x) (inventory ?t) = Some x"
    using g(4) ids(3) by (auto dest: inv.lookup_SomeD)
  have q: "q \<le> int_max" using g(15) x(1) assms(3) by (force simp: quantities_fit_def)
  have exact: "int32 (req_pulled r + q) = req_pulled r + q"
    using t4(3) assms(2,4,5) r(1) q
    by (intro int32_add_nonneg)
      (auto simp: constraints_def requirement_constraints_def counts_fit_def)
  have inv: "inventory (tables s') = inventory (tables s1)"
    "provenance (tables s') = provenance (tables s2)"
    "allocations (tables s') = allocations (tables s3)"
    "requirements (tables s') = requirements (tables s4)"
    by (simp_all add: t5(1) t4(1) t3 t2(1))
  have reqs: "requirements (tables s') = update_where (\<lambda>y. req_id y = req_id r)
      (\<lambda>y. bound_requirement (r\<lparr>req_pulled := req_pulled r + q\<rparr>)) (requirements ?t)"
    by (simp add: inv t4(1) t3 t2(1) t1(1) update_requirements_def exact)
  show ?thesis
  proof (rule that [of a b r x])
    show "find (\<lambda>y. bld_id y = build) (builds (tables s)) = Some b" using g(2) build by simp
    show "requirement_key r = (build, inv_part x, inv_color x)"
      using g(7,9,10) build by (simp add: requirement_key_def)
    show "req_pulled r + q \<le> req_required r" using g(16) exact by simp
    have "inv_quantity x - q \<le> int_max"
      using x(1) assms(3) t2(3) by (force simp: quantities_fit_def)
    then show "quantities_fit (tables s')"
      using quantities_fit_set_quantity [OF assms(3)]
      by (subst accounts_cong(3) [OF inv(1)]) (simp add: t1(1))
    have "req_pulled r + q \<le> int_max" using int_range_int32 [of "req_pulled r + q"]
      by (simp add: exact int_range_def)
    then show "counts_fit (tables s')"
      using assms(4) r(1) by (auto simp: counts_fit_def reqs set_update_where bound_requirement_def)
    show "stock Q (tables s') = stock Q ?t - (if Q (inventory_identity x) then q else 0)" for Q
      using stock_set_quantity [OF x(2) assms(2)]
      by (subst accounts_cong(1) [OF inv(1)]) (simp add: t1(1))
    show "on_hand j (tables s') = on_hand j ?t - (if j = inv_id x then q else 0)" for j
      using on_hand_set_quantity [OF x(2) assms(2)] on_hand_lookup [OF x(2) assms(2)]
      by (subst accounts_cong(2) [OF inv(1)]) (simp add: t1(1))
    show "built Q (tables s') = built Q ?t
        + (if Q (build, inv_part x, inv_color x, inv_manufacturer x) then q else 0)" for Q
      using built_upsert [OF t1(2)]
      by (subst accounts_cong(4) [OF inv(2)]) (simp add: t2(1) build built_def t1(1))
    show "pulled Q (tables s') = pulled Q ?t + (if Q (requirement_key r) then q else 0)" for Q
      using pulled_update [OF r(2) t3(2), of "bound_requirement (r\<lparr>req_pulled := int32 (req_pulled r + q)\<rparr>)" Q]
      by (subst accounts_cong(5) [OF inv(4)])
        (simp add: t4(1) exact pulled_def t3 t2(1) t1(1))
    show "reserved Q (tables s') = reserved Q ?t - (if Q (allocation_key a) then q else 0)" for Q
      using t3(1) by (subst accounts_cong(6) [OF inv(3)]) (simp add: reserved_def allocated_def t2(1) t1(1))
  qed (use g build ids t2(3) t5 reqs in \<open>simp_all add: t5(1) t4(1) t3 t2(1) t1(1)\<close>)
qed

section \<open>Pieces and where they are\<close>

text \<open>The pieces of a part, color and manufacturer, loose or inside a Build.\<close>

definition held :: "int \<Rightarrow> int \<Rightarrow> int \<Rightarrow> tables \<Rightarrow> int" where
  "held p c m t = stock (\<lambda>(ws, p', c', l, m', rest). p' = p \<and> c' = c \<and> m' = m) t
     + built (\<lambda>(b, p', c', m'). p' = p \<and> c' = c \<and> m' = m) t"

text \<open>
  How many pieces of a kind the provenance of a Build holds beyond those its requirements report
  as pulled. The calls keep this difference whatever it is; the accounts agree when it is zero.
\<close>

type_synonym drift = "int \<Rightarrow> int \<Rightarrow> int \<Rightarrow> int"

definition drift_of :: "tables \<Rightarrow> drift" where
  "drift_of t b p c = built (\<lambda>(b', p', c', m). (b', p', c') = (b, p, c)) t - pulled (\<lambda>k. k = (b, p, c)) t"

definition agree :: "drift \<Rightarrow> tables \<Rightarrow> bool" where
  "agree d t \<longleftrightarrow> books t \<and> counts_fit t \<and> drift_of t = d"

abbreviation no_drift :: drift where
  "no_drift \<equiv> \<lambda>b p c. 0"

text \<open>The provenance of every Build accounts for exactly the pieces its requirements report.\<close>

abbreviation accounts :: "tables \<Rightarrow> bool" where
  "accounts \<equiv> agree no_drift"

text \<open>The books alone, whatever the provenance says.\<close>

definition ledgers :: "tables \<Rightarrow> bool" where
  "ledgers t \<longleftrightarrow> books t \<and> counts_fit t"

lemma ledgers_agree: "ledgers t \<longleftrightarrow> (\<exists>d. agree d t)"
  by (simp add: ledgers_def agree_def)

lemma agree_ledgers: "agree d t \<Longrightarrow> ledgers t"
  by (simp add: ledgers_def agree_def)

lemma accountsD:
  "agree d t \<Longrightarrow> books t" "agree d t \<Longrightarrow> counts_fit t" "agree d t \<Longrightarrow> drift_of t = d"
  "agree d t \<Longrightarrow> constraints t" "agree d t \<Longrightarrow> quantities_fit t"
  by (simp_all add: agree_def books_def)

lemma accounts_covered:
  "accounts t \<Longrightarrow> built (\<lambda>(b', p', c', m). (b', p', c') = (b, p, c)) t = pulled (\<lambda>k. k = (b, p, c)) t"
  by (drule accountsD(3)) (simp add: drift_of_def fun_eq_iff)

lemma held_cong: "inventory t' = inventory t \<Longrightarrow> provenance t' = provenance t \<Longrightarrow> held p c m t' = held p c m t"
  by (simp add: held_def stock_def built_def)

lemma drift_cong: "provenance t' = provenance t \<Longrightarrow> requirements t' = requirements t \<Longrightarrow> drift_of t' = drift_of t"
  by (simp add: drift_of_def fun_eq_iff built_def pulled_def)

text \<open>Pulled quantities only grow, and only up to what is required.\<close>

definition pulls_within :: "tables \<Rightarrow> tables \<Rightarrow> bool" where
  "pulls_within t t' \<longleftrightarrow> (\<forall>r'\<in>set (requirements t'). \<exists>r\<in>set (requirements t). req_id r = req_id r'
     \<and> req_required r = req_required r' \<and> req_pulled r \<le> req_pulled r'
     \<and> (req_pulled r' = req_pulled r \<or> req_pulled r' \<le> req_required r'))"

lemma pulls_within_refl: "pulls_within t t"
  by (auto simp: pulls_within_def)

lemma pulls_within_trans:
  assumes "pulls_within t t1" "pulls_within t1 t2"
  shows "pulls_within t t2"
  unfolding pulls_within_def
proof
  fix r2 assume "r2 \<in> set (requirements t2)"
  with assms(2) obtain r1 where r1: "r1 \<in> set (requirements t1)" "req_id r1 = req_id r2"
    "req_required r1 = req_required r2" "req_pulled r1 \<le> req_pulled r2"
    "req_pulled r2 = req_pulled r1 \<or> req_pulled r2 \<le> req_required r2"
    by (auto simp: pulls_within_def)
  with assms(1) obtain r where "r \<in> set (requirements t)" "req_id r = req_id r1"
    "req_required r = req_required r1" "req_pulled r \<le> req_pulled r1"
    "req_pulled r1 = req_pulled r \<or> req_pulled r1 \<le> req_required r1"
    by (auto simp: pulls_within_def)
  with r1 show "\<exists>r\<in>set (requirements t). req_id r = req_id r2 \<and> req_required r = req_required r2
     \<and> req_pulled r \<le> req_pulled r2 \<and> (req_pulled r2 = req_pulled r \<or> req_pulled r2 \<le> req_required r2)"
    by (intro bexI [of _ r]) auto
qed

lemma apply_pull_accounts:
  assumes "run_state (apply_pull i q) s = (Inr build, s')" "agree d (tables s)" "0 \<le> q"
  shows "agree d (tables s')" "held p c m (tables s') = held p c m (tables s)"
    "stock (\<lambda>k. True) (tables s') = stock (\<lambda>k. True) (tables s) - q"
    "pulled (\<lambda>k. True) (tables s') = pulled (\<lambda>k. True) (tables s) + q"
    "reserved (\<lambda>k. True) (tables s') = reserved (\<lambda>k. True) (tables s) - q"
    "pulls_within (tables s) (tables s')" "builds (tables s') = builds (tables s)"
    "collection (tables s') = collection (tables s)"
    "\<exists>b. find (\<lambda>y. bld_id y = build) (builds (tables s)) = Some b \<and> bld_mode b = ''Stock''"
proof -
  obtain a b r x where e:
    "find (\<lambda>y. alloc_id y = i) (allocations (tables s)) = Some a"
    "find (\<lambda>y. bld_id y = build) (builds (tables s)) = Some b" "bld_mode b = ''Stock''"
    "find (\<lambda>y. req_id y = alloc_requirement a) (requirements (tables s)) = Some r"
    "requirement_key r = (build, inv_part x, inv_color x)"
    "req_pulled r + q \<le> req_required r" "0 < q"
    "constraints (tables s')" "quantities_fit (tables s')" "counts_fit (tables s')" and
    stock: "\<And>Q. stock Q (tables s') = stock Q (tables s) - (if Q (inventory_identity x) then q else 0)" and
    built: "\<And>Q. built Q (tables s') = built Q (tables s)
      + (if Q (build, inv_part x, inv_color x, inv_manufacturer x) then q else 0)" and
    pulled: "\<And>Q. pulled Q (tables s') = pulled Q (tables s) + (if Q (requirement_key r) then q else 0)" and
    reserved: "\<And>Q. reserved Q (tables s') = reserved Q (tables s) - (if Q (allocation_key a) then q else 0)" and
    reqs: "requirements (tables s') = update_where (\<lambda>y. req_id y = req_id r)
      (\<lambda>y. bound_requirement (r\<lparr>req_pulled := req_pulled r + q\<rparr>)) (requirements (tables s))" and
    log: "movements (tables s') = movements (tables s)
      @ [logged (seq_movement (tables s) + 1) (pull_movement b x q)]" and
    same: "builds (tables s') = builds (tables s)" "collection (tables s') = collection (tables s)"
    by (rule apply_pull_effect [OF assms(1) accountsD(4,5,2) [OF assms(2)] assms(3)]) (rule that, assumption+)
  have "books (tables s')"
    by (rule books_step [OF accountsD(1) [OF assms(2)] e(8,9), of x "- q", OF _ log]) (auto simp: stock)
  moreover have "drift_of (tables s') = d"
    using accountsD(3) [OF assms(2)] e(5) by (simp add: drift_of_def fun_eq_iff built pulled)
  ultimately show "agree d (tables s')" using e(10) by (simp add: agree_def)
  show "held p c m (tables s') = held p c m (tables s)"
    by (simp add: held_def stock built inventory_identity_def)
  show "stock (\<lambda>k. True) (tables s') = stock (\<lambda>k. True) (tables s) - q"
    "pulled (\<lambda>k. True) (tables s') = pulled (\<lambda>k. True) (tables s) + q"
    "reserved (\<lambda>k. True) (tables s') = reserved (\<lambda>k. True) (tables s) - q"
    by (simp_all add: stock pulled reserved)
  have "r \<in> set (requirements (tables s))" using e(4) by (auto dest: req.lookup_SomeD)
  then show "pulls_within (tables s) (tables s')"
    using e(6,7) by (auto simp: pulls_within_def reqs set_update_where intro: bexI [of _ r])
  show "builds (tables s') = builds (tables s)" "collection (tables s') = collection (tables s)"
    by (rule same)+
  show "\<exists>b. find (\<lambda>y. bld_id y = build) (builds (tables s)) = Some b \<and> bld_mode b = ''Stock''"
    using e(2,3) by blast
qed

definition requested :: "pull_request list \<Rightarrow> int" where
  "requested ps = sum_list (map pull_quantity ps)"

lemma apply_pull_loop_accounts:
  assumes "run_state (apply_pull_loop ps expected rows n) s = (Inr result, s')"
    "agree d (tables s)" "\<forall>p\<in>set ps. 0 \<le> pull_quantity p"
  shows "agree d (tables s') \<and> (\<forall>p c m. held p c m (tables s') = held p c m (tables s))
    \<and> stock (\<lambda>k. True) (tables s') = stock (\<lambda>k. True) (tables s) - requested ps
    \<and> pulled (\<lambda>k. True) (tables s') = pulled (\<lambda>k. True) (tables s) + requested ps
    \<and> reserved (\<lambda>k. True) (tables s') = reserved (\<lambda>k. True) (tables s) - requested ps
    \<and> pulls_within (tables s) (tables s') \<and> builds (tables s') = builds (tables s)
    \<and> collection (tables s') = collection (tables s)"
  using assms
proof (induction ps expected rows n arbitrary: s rule: apply_pull_loop.induct)
  case (1 expected rows n)
  then show ?case by (simp add: run_simps requested_def pulls_within_refl)
next
  case (2 p ps expected rows n)
  show ?case
  proof (cases "pull_quantity p = 0")
    case True
    with 2 show ?thesis by (simp add: requested_def)
  next
    case False
    obtain x s1 where one: "run_state (apply_pull (pull_allocation p) (pull_quantity p)) s = (x, s1)"
      by fastforce
    with False 2(3) obtain build where x: "x = Inr build"
      by (auto simp: run_simps split: sum.splits)
    with False 2(3) one have rest: "run_state (apply_pull_loop ps build (rows + 1)
        (int32 (n + pull_quantity p))) s1 = (Inr result, s')" "\<not> (expected \<noteq> 0 \<and> build \<noteq> expected)"
      by (auto simp: run_simps split: if_splits)
    have "0 \<le> pull_quantity p" using 2(5) by simp
    note a = apply_pull_accounts [OF one [unfolded x] 2(4) this]
    note ih = 2(2) [OF False rest(2) rest(1) a(1)]
    from ih 2(5) a pulls_within_trans [OF a(6)] show ?thesis
      by (simp add: requested_def)
  qed
qed

lemma apply_pulls_accounts:
  assumes "run_state (apply_pulls ps) s = (Inr result, s')" "agree d (tables s)"
  shows "agree d (tables s') \<and> (\<forall>p c m. held p c m (tables s') = held p c m (tables s))
    \<and> stock (\<lambda>k. True) (tables s') = stock (\<lambda>k. True) (tables s) - requested ps
    \<and> pulled (\<lambda>k. True) (tables s') = pulled (\<lambda>k. True) (tables s) + requested ps
    \<and> reserved (\<lambda>k. True) (tables s') = reserved (\<lambda>k. True) (tables s) - requested ps
    \<and> pulls_within (tables s) (tables s') \<and> builds (tables s') = builds (tables s)
    \<and> collection (tables s') = collection (tables s)"
proof (rule apply_pull_loop_accounts [where expected = 0 and rows = 0 and n = 0])
  show "run_state (apply_pull_loop ps 0 0 0) s = (Inr result, s')"
    using assms(1) by (auto simp: apply_pulls_def run_simps split: if_splits)
  show "\<forall>p\<in>set ps. 0 \<le> pull_quantity p"
    using assms(1) by (auto simp: apply_pulls_def run_simps list_ex_iff split: if_splits)
qed (rule assms(2))

section \<open>Returning pieces\<close>

text \<open>No requirement asks for less, or reports more as pulled, than before.\<close>

definition requirements_eased :: "tables \<Rightarrow> tables \<Rightarrow> bool" where
  "requirements_eased t t' \<longleftrightarrow> (\<forall>r'\<in>set (requirements t'). \<exists>r\<in>set (requirements t).
     req_id r = req_id r' \<and> req_required r \<le> req_required r' \<and> req_pulled r' \<le> req_pulled r)"

lemma eased_same: "requirements t' = requirements t \<Longrightarrow> requirements_eased t t'"
  by (auto simp: requirements_eased_def)

lemma eased_trans: "requirements_eased t t1 \<Longrightarrow> requirements_eased t1 t2 \<Longrightarrow> requirements_eased t t2"
  unfolding requirements_eased_def
proof
  fix r2 assume all: "\<forall>r'\<in>set (requirements t1). \<exists>r\<in>set (requirements t). req_id r = req_id r'
      \<and> req_required r \<le> req_required r' \<and> req_pulled r' \<le> req_pulled r"
    "\<forall>r'\<in>set (requirements t2). \<exists>r\<in>set (requirements t1). req_id r = req_id r'
      \<and> req_required r \<le> req_required r' \<and> req_pulled r' \<le> req_pulled r"
    and "r2 \<in> set (requirements t2)"
  then obtain r1 where r1: "r1 \<in> set (requirements t1)" "req_id r1 = req_id r2"
    "req_required r1 \<le> req_required r2" "req_pulled r2 \<le> req_pulled r1" by blast
  with all(1) obtain r where "r \<in> set (requirements t)" "req_id r = req_id r1"
    "req_required r \<le> req_required r1" "req_pulled r1 \<le> req_pulled r" by blast
  with r1 show "\<exists>r\<in>set (requirements t). req_id r = req_id r2
      \<and> req_required r \<le> req_required r2 \<and> req_pulled r2 \<le> req_pulled r"
    by (intro bexI [of _ r]) simp_all
qed

lemma requirement_try_get_found:
  "run_state (requirement_try_get i) s = (Some (Some r), s') \<Longrightarrow>
   find (\<lambda>r. req_id r = i) (requirements (tables s)) = Some r \<and> tables s' = tables s"
  by (auto simp: requirement_try_get_def run_simps split: if_splits)

lemma check_return_success:
  assumes "run_state (check_return b row) s = (Inr r, s')"
  shows "find (\<lambda>y. req_id y = ret_requirement row) (requirements (tables s)) = Some r"
    "req_build r = bld_id b"
    "bld_mode b = ''Stock'' \<Longrightarrow> effective_part r = ret_part row \<and> effective_color r = ret_color row
      \<and> ret_quantity row \<le> req_pulled r \<and> 0 < ret_manufacturer row"
    "bld_mode b = ''CompleteSet'' \<Longrightarrow> req_part r = ret_part row \<and> req_color r = ret_color row
      \<and> ret_quantity row \<le> max0 (req_required r - req_released r)"
    "\<exists>l\<in>set (storage (tables s)). sto_id l = ret_storage row \<and> sto_active l
      \<and> sto_workspace l = bld_workspace b \<and> \<not> has_active_children (ret_storage row) (tables s)"
    "tables s' = tables s"
proof -
  obtain requirement s1 where get: "run_state (requirement_try_get (ret_requirement row)) s = (requirement, s1)"
    by fastforce
  then have s1: "tables s1 = tables s" using after_reading [OF reads_requirement_get(1)] by blast
  from assms get have found: "requirement = Some (Some r)"
    by (auto simp: check_return_def run_simps split: if_splits option.splits prod.splits)
  from requirement_try_get_found [OF get [unfolded found]]
  show "find (\<lambda>y. req_id y = ret_requirement row) (requirements (tables s)) = Some r" by simp
  from assms get found show "req_build r = bld_id b"
    "bld_mode b = ''Stock'' \<Longrightarrow> effective_part r = ret_part row \<and> effective_color r = ret_color row
      \<and> ret_quantity row \<le> req_pulled r \<and> 0 < ret_manufacturer row"
    "bld_mode b = ''CompleteSet'' \<Longrightarrow> req_part r = ret_part row \<and> req_color r = ret_color row
      \<and> ret_quantity row \<le> max0 (req_required r - req_released r)"
    by (auto simp: check_return_def run_simps split: if_splits option.splits prod.splits)
  obtain l s2 where dest: "run_state (storage_try_get (ret_storage row)) s1 = (l, s2)" by fastforce
  obtain ch s3 where ch: "run_state (has_active_children_checked (ret_storage row)) s2 = (ch, s3)"
    by fastforce
  have s2: "tables s2 = tables s" "tables s3 = tables s"
    using after_reading [OF reads_storage(1) dest] after_reading [OF reads_storage(3) ch] s1 by simp_all
  from assms get found dest ch obtain x where x: "l = Some (Some x)" "sto_active x"
      "sto_workspace x = bld_workspace b" "ch = No" "s' = s3"
    by (cases ch) (auto simp: check_return_def run_simps split: if_splits option.splits)
  from dest x(1) s1 have "x \<in> set (storage (tables s))" "sto_id x = ret_storage row"
    by (auto simp: storage_try_get_def run_simps split: if_splits dest: sto.lookup_SomeD)
  moreover from ch x(4) s2 have "\<not> has_active_children (ret_storage row) (tables s)"
    by (auto simp: has_active_children_checked_def check_of_def run_simps split: if_splits)
  ultimately show "\<exists>l\<in>set (storage (tables s)). sto_id l = ret_storage row \<and> sto_active l
      \<and> sto_workspace l = bld_workspace b \<and> \<not> has_active_children (ret_storage row) (tables s)"
    using x by blast
  show "tables s' = tables s" using x(5) s2 by simp
qed

lemma return_types [simp]:
  "plain_type ''SetDisassembly''" "plain_type ''BuildDisassembly''" "plain_type ''SetSpareRelease''"
  by (simp_all add: plain_type_def trimmed_def is_space_def)

text \<open>Adding pieces to the inventory on behalf of a Build keeps all accounts.\<close>

lemma add_accounts:
  assumes "run_state (add_or_increase_in_current_transaction x ty rt ri msg) s = (Some (after, result), s')"
    "agree d (tables s)" "inv_quantity x \<le> int_max" "plain_type ty"
  obtains m where "0 < inv_manufacturer x \<Longrightarrow> m = inv_manufacturer x"
    "\<And>Q. stock Q (tables s') = stock Q (tables s)
      + (if Q (inventory_identity (bound_inventory (x\<lparr>inv_manufacturer := m\<rparr>))) then inv_quantity x else 0)"
    "agree d (tables s')" "only_inventory (tables s) (tables s')" "0 < inv_quantity x"
    "\<And>j. on_hand j (tables s) \<le> on_hand j (tables s')"
proof (rule add_or_increase_effect [OF assms(1) accountsD(4,5) [OF assms(2)] assms(3)])
  fix m existed
  assume e: "0 < inv_manufacturer x \<Longrightarrow> m = inv_manufacturer x"
    "adds (inventory_identity (bound_inventory (x\<lparr>inv_manufacturer := m\<rparr>))) (inv_quantity x) (tables s) (tables s')"
    "\<And>j. on_hand j (tables s) \<le> on_hand j (tables s')" "0 < inv_quantity x"
  have only: "only_inventory (tables s) (tables s')" by (rule adds_only [OF e(2)])
  have "counts_fit (tables s')" "drift_of (tables s') = d"
    using only_inventory_fields [OF only] accountsD(2,3) [OF assms(2)] counts_fit_cong drift_cong
    by metis+
  with books_add_or_increase [OF assms(1) accountsD(1) [OF assms(2)] assms(3,4)]
  have "agree d (tables s')" by (simp add: agree_def)
  with only e addsD [OF e(2)] show thesis by (intro that [of m]) auto
qed

lemma requirement_quantities:
  assumes "agree d t" "r \<in> set (requirements t)"
  shows "0 \<le> req_pulled r" "0 \<le> req_released r" "0 < req_required r" "req_pulled r \<le> int_max"
    "req_released r \<le> int_max" "req_required r \<le> int_max"
  using assms accountsD(2,4) [OF assms(1)]
  by (auto simp: constraints_def requirement_constraints_def counts_fit_def)

lemma identity_returned [simp]:
  "inventory_identity (bound_inventory ((returned_record b row)\<lparr>inv_manufacturer := m\<rparr>))
    = (bld_workspace b, ret_part row, ret_color row, ret_storage row, m,
       trimmed (if bld_mode b = ''CompleteSet'' \<and> ret_spare row then ''New'' else ''Used''), ''Owned'')"
  by (simp add: returned_record_def bound_inventory_def inventory_identity_def trimmed_def is_space_def)

lemma returned_record_simps [simp]:
  "inv_quantity (returned_record b row) = ret_quantity row"
  "inv_manufacturer (returned_record b row) = ret_manufacturer row"
  by (simp_all add: returned_record_def)

lemma add_returned_accounts:
  assumes "run_state (add_returned b row) s = (Some (after, result), s')"
    "agree d (tables s)" "ret_quantity row \<le> int_max"
  obtains m where "0 < ret_manufacturer row \<Longrightarrow> m = ret_manufacturer row"
    "\<And>Q. stock Q (tables s') = stock Q (tables s)
      + (if Q (inventory_identity (bound_inventory ((returned_record b row)\<lparr>inv_manufacturer := m\<rparr>)))
         then ret_quantity row else 0)"
    "agree d (tables s')" "only_inventory (tables s) (tables s')" "0 < ret_quantity row"
    "\<And>j. on_hand j (tables s) \<le> on_hand j (tables s')"
proof -
  have fit: "inv_quantity (returned_record b row) \<le> int_max" using assms(3) by simp
  show thesis
  proof (rule add_accounts [OF assms(1) [unfolded add_returned_def] assms(2) fit])
    show "plain_type (if bld_mode b = ''CompleteSet'' then ''SetDisassembly'' else ''BuildDisassembly'')"
      by simp
  qed (rule that, simp_all only: returned_record_simps)
qed

text \<open>
  A row returned from a Build from stock moves its pieces from the Build to the inventory, under
  the manufacturer they came from.
\<close>

lemma return_row_stock:
  assumes "run_state (return_row b row) s = (Inr i, s')" "agree d (tables s)" "bld_mode b = ''Stock''"
  shows "agree d (tables s')" "held p c m (tables s') = held p c m (tables s)"
    "stock (\<lambda>k. True) (tables s') = stock (\<lambda>k. True) (tables s) + ret_quantity row"
    "pulled (\<lambda>k. True) (tables s') = pulled (\<lambda>k. True) (tables s) - ret_quantity row"
    "builds (tables s') = builds (tables s)" "allocations (tables s') = allocations (tables s)"
    "collection (tables s') = collection (tables s)" "storage (tables s') = storage (tables s)"
    "\<And>j. on_hand j (tables s) \<le> on_hand j (tables s')" "requirements_eased (tables s) (tables s')"
    "manufacturers (tables s') = manufacturers (tables s)"
proof -
  let ?t = "tables s" and ?q = "ret_quantity row"
  let ?k = "(bld_id b, ret_part row, ret_color row, ret_manufacturer row)"
  obtain r s0 after result s1 s2 where
    check: "run_state (check_return b row) s = (Inr r, s0)" and
    add: "run_state (add_returned b row) s0 = (Some (after, result), s1)" and
    red: "run_state (reduce_pulled_manufacturer (bld_id b) (ret_part row) (ret_color row)
      (ret_manufacturer row) ?q) s1 = (True, s2)" and
    upd: "run_state (requirement_update (r\<lparr>req_pulled := req_pulled r - ?q\<rparr>)) s2 = (True, s')"
    using assms(1,3) by (auto simp: return_row_def run_simps
        split: if_splits sum.splits prod.splits option.splits)
  note g = check_return_success [OF check]
  have r: "r \<in> set (requirements ?t)" "req_id r = ret_requirement row"
    using g(1) by (auto dest: req.lookup_SomeD)
  note rq = requirement_quantities [OF assms(2) r(1)]
  have key: "requirement_key r = (bld_id b, ret_part row, ret_color row)"
    using g(2,3) assms(3) by (simp add: requirement_key_def)
  have acc0: "agree d (tables s0)" using assms(2) g(6) by simp
  have fit: "ret_quantity row \<le> int_max" using g(3) assms(3) rq(4) by simp
  obtain m where a: "0 < ret_manufacturer row \<Longrightarrow> m = ret_manufacturer row"
    "\<And>Q. stock Q (tables s1) = stock Q ?t
      + (if Q (inventory_identity (bound_inventory ((returned_record b row)\<lparr>inv_manufacturer := m\<rparr>))) then ?q else 0)"
    "agree d (tables s1)" "only_inventory ?t (tables s1)"
    "\<And>j. on_hand j ?t \<le> on_hand j (tables s1)"
    by (rule add_returned_accounts [OF add acc0 fit], unfold g(6)) (rule that, assumption+)
  have man: "m = ret_manufacturer row" using a(1) g(3) assms(3) by simp
  note c1 = accountsD(4) [OF a(3)]
  note red = reduce_pulled_success [OF red]
  note upd = requirement_update_success(1-3) [OF upd, simplified]
  note frame = only_inventory_fields [OF a(4)]
  have r2: "find (\<lambda>y. req_id y = req_id r) (requirements (tables s2)) = Some r"
    using g(1) r(2) frame by (simp add: red(1))
  have stock: "stock Q (tables s') = stock Q (tables s1)" for Q
    by (simp add: stock_def upd(1) red(1))
  have built: "built Q (tables s') = built Q ?t - (if Q ?k then ?q else 0)" for Q
    using built_decrease [OF c1 red(2), of Q] frame built_clean
    by (simp add: upd(1) red(1) built_def)
  have pulled: "pulled Q (tables s') = pulled Q ?t - (if Q (requirement_key r) then ?q else 0)" for Q
    using pulled_update [OF r2 red(3), of "bound_requirement (r\<lparr>req_pulled := req_pulled r - ?q\<rparr>)" Q] frame
    by (simp add: upd(1) red(1) pulled_def)
  have inv: "inventory (tables s') = inventory (tables s1)" "movements (tables s') = movements (tables s1)"
    by (simp_all add: upd(1) red(1))
  have reqs: "requirements (tables s') = update_where (\<lambda>y. req_id y = req_id r)
      (\<lambda>y. bound_requirement (r\<lparr>req_pulled := req_pulled r - ?q\<rparr>)) (requirements ?t)"
    using frame by (simp add: upd(1) red(1) update_requirements_def)
  have "0 < ?q" by (rule red(4))
  with r(1) show "requirements_eased ?t (tables s')"
    by (force simp: requirements_eased_def reqs set_update_where)
  from reqs have "counts_fit (tables s')"
    using accountsD(2) [OF assms(2)] rq red(4)
    by (auto simp: counts_fit_def set_update_where bound_requirement_def)
  moreover have "drift_of (tables s') = d"
    using accountsD(3) [OF assms(2)] by (simp add: drift_of_def fun_eq_iff built pulled key)
  moreover have "books (tables s')"
    by (rule books_cong [OF accountsD(1) [OF a(3)] inv upd(2)])
  ultimately show "agree d (tables s')" by (simp add: agree_def)
  show "held p c m (tables s') = held p c m ?t" for m
    by (simp add: held_def stock built a(2) man)
  show "stock (\<lambda>k. True) (tables s') = stock (\<lambda>k. True) ?t + ?q"
    "pulled (\<lambda>k. True) (tables s') = pulled (\<lambda>k. True) ?t - ?q"
    by (simp_all add: stock a(2) pulled)
  show "builds (tables s') = builds ?t" "allocations (tables s') = allocations ?t"
    "collection (tables s') = collection ?t" "storage (tables s') = storage ?t"
    "manufacturers (tables s') = manufacturers ?t"
    using frame by (simp_all add: upd(1) red(1))
  show "\<And>j. on_hand j ?t \<le> on_hand j (tables s')"
    using a(5) by (simp add: on_hand_def inv)
qed

lemma accounts_cong':
  assumes "agree d t" "inventory t' = inventory t" "movements t' = movements t"
    "provenance t' = provenance t" "requirements t' = requirements t" "constraints t'"
  shows "agree d t'"
  using assms books_cong [of t t'] counts_fit_cong [of t' t] drift_cong [of t' t]
  by (simp add: agree_def)

text \<open>A row of a complete set only enters the inventory; the Build keeps no count of it.\<close>

lemma return_row_set:
  assumes "run_state (return_row b row) s = (Inr i, s')" "agree d (tables s)" "bld_mode b = ''CompleteSet''"
  shows "agree d (tables s')" "only_inventory (tables s) (tables s')"
    "stock (\<lambda>k. True) (tables s') = stock (\<lambda>k. True) (tables s) + ret_quantity row"
    "\<exists>r\<in>set (requirements (tables s)). req_id r = ret_requirement row \<and> req_build r = bld_id b
      \<and> ret_quantity row \<le> max0 (req_required r - req_released r)"
    "\<And>j. on_hand j (tables s) \<le> on_hand j (tables s')"
proof -
  let ?t = "tables s" and ?q = "ret_quantity row"
  obtain r s0 after result where
    check: "run_state (check_return b row) s = (Inr r, s0)" and
    add: "run_state (add_returned b row) s0 = (Some (after, result), s')"
    using assms(1,3) by (auto simp: return_row_def run_simps
        split: if_splits sum.splits prod.splits option.splits)
  note g = check_return_success [OF check]
  have r: "r \<in> set (requirements ?t)" "req_id r = ret_requirement row"
    using g(1) by (auto dest: req.lookup_SomeD)
  note rq = requirement_quantities [OF assms(2) r(1)]
  have acc0: "agree d (tables s0)" using assms(2) g(6) by simp
  have fit: "?q \<le> int_max"
    using g(4) assms(3) rq(2,6) by (auto simp: max0_def int_max_def)
  obtain m where a: "\<And>Q. stock Q (tables s') = stock Q ?t
      + (if Q (inventory_identity (bound_inventory ((returned_record b row)\<lparr>inv_manufacturer := m\<rparr>))) then ?q else 0)"
    "agree d (tables s')" "only_inventory ?t (tables s')"
    "\<And>j. on_hand j ?t \<le> on_hand j (tables s')"
    by (rule add_returned_accounts [OF add acc0 fit], unfold g(6)) (rule that, assumption+)
  show "agree d (tables s')" "only_inventory ?t (tables s')"
    "stock (\<lambda>k. True) (tables s') = stock (\<lambda>k. True) ?t + ?q"
    "\<And>j. on_hand j ?t \<le> on_hand j (tables s')"
    using a by simp_all
  show "\<exists>r\<in>set (requirements ?t). req_id r = ret_requirement row \<and> req_build r = bld_id b
      \<and> ?q \<le> max0 (req_required r - req_released r)"
    using r g(2,4) assms(3) by blast
qed

definition returned_quantity :: "disassembly_return list \<Rightarrow> int" where
  "returned_quantity rows = sum_list (map (\<lambda>row. max0 (ret_quantity row)) rows)"

lemma return_pieces_stock:
  assumes "run_state (return_pieces b rows result) s = (Inr result', s')" "agree d (tables s)"
    "bld_mode b = ''Stock''"
  shows "agree d (tables s') \<and> (\<forall>p c m. held p c m (tables s') = held p c m (tables s))
    \<and> stock (\<lambda>k. True) (tables s') = stock (\<lambda>k. True) (tables s) + returned_quantity rows
    \<and> pulled (\<lambda>k. True) (tables s') = pulled (\<lambda>k. True) (tables s) - returned_quantity rows
    \<and> builds (tables s') = builds (tables s) \<and> allocations (tables s') = allocations (tables s)
    \<and> collection (tables s') = collection (tables s)
    \<and> (\<forall>j. on_hand j (tables s) \<le> on_hand j (tables s')) \<and> requirements_eased (tables s) (tables s')
    \<and> manufacturers (tables s') = manufacturers (tables s)"
  using assms
proof (induction b rows result arbitrary: s rule: return_pieces.induct)
  case (1 b result)
  then show ?case by (simp add: run_simps returned_quantity_def eased_same)
next
  case (2 b row rows result)
  show ?case
  proof (cases "ret_quantity row \<le> 0")
    case True
    with 2 show ?thesis by (simp add: returned_quantity_def max0_def)
  next
    case False
    obtain x s1 where one: "run_state (return_row b row) s = (x, s1)" by fastforce
    with False 2(3) obtain i where x: "x = Inr i" by (auto simp: run_simps split: sum.splits)
    note rest = 2(3) [unfolded return_pieces.simps if_not_P [OF False] run_simps one x prod.case sum.case]
    note a = return_row_stock [OF one [unfolded x] 2(4,5)]
    from 2(2) [OF False rest a(1) 2(5)] a False show ?thesis
      by (auto simp: returned_quantity_def max0_def intro: order_trans [OF a(9)] eased_trans [OF a(10)])
  qed
qed

lemma return_pieces_set:
  assumes "run_state (return_pieces b rows result) s = (Inr result', s')" "agree d (tables s)"
    "bld_mode b = ''CompleteSet''"
  shows "agree d (tables s') \<and> only_inventory (tables s) (tables s')
    \<and> stock (\<lambda>k. True) (tables s') = stock (\<lambda>k. True) (tables s) + returned_quantity rows
    \<and> (\<forall>row\<in>set rows. 0 < ret_quantity row \<longrightarrow>
        (\<exists>r\<in>set (requirements (tables s)). req_id r = ret_requirement row \<and> req_build r = bld_id b
          \<and> ret_quantity row \<le> max0 (req_required r - req_released r)))
    \<and> (\<forall>j. on_hand j (tables s) \<le> on_hand j (tables s'))"
  using assms
proof (induction b rows result arbitrary: s rule: return_pieces.induct)
  case (1 b result)
  then show ?case by (simp add: run_simps returned_quantity_def)
next
  case (2 b row rows result)
  show ?case
  proof (cases "ret_quantity row \<le> 0")
    case True
    with 2 show ?thesis by (simp add: returned_quantity_def max0_def)
  next
    case False
    obtain x s1 where one: "run_state (return_row b row) s = (x, s1)" by fastforce
    with False 2(3) obtain i where x: "x = Inr i" by (auto simp: run_simps split: sum.splits)
    note rest = 2(3) [unfolded return_pieces.simps if_not_P [OF False] run_simps one x prod.case sum.case]
    note a = return_row_set [OF one [unfolded x] 2(4,5)]
    from 2(2) [OF False rest a(1) 2(5)] a False only_inventory_trans [OF a(2)]
      only_inventory_fields [OF a(2)] show ?thesis
      by (auto simp: returned_quantity_def max0_def intro: order_trans [OF a(5)])
  qed
qed

section \<open>Statuses\<close>

lemma build_try_get_found:
  "run_state (build_try_get i) s = (Some (Some b), s') \<Longrightarrow>
   find (\<lambda>b. bld_id b = i) (builds (tables s)) = Some b \<and> 0 < i \<and> tables s' = tables s"
  by (auto simp: build_try_get_def run_simps split: if_splits)

lemma build_update_success:
  assumes "run_state (build_update b) s = (Some b', s')"
  shows "\<exists>m. b' = b\<lparr>bld_manufacturer := m\<rparr> \<and> kept_manufacturer (tables s) b m
      \<and> tables s' = snd (update_builds (\<lambda>r. bld_id r = bld_id b)
      (\<lambda>r. bound_build (b\<lparr>bld_manufacturer := m\<rparr>)) (tables s))"
    "constraints (tables s')"
proof -
  obtain m s1 where m: "run_state (build_manufacturer b) s = (m, s1)" by fastforce
  have s1: "tables s1 = tables s" by (rule after_reading [OF reads_build_manufacturer m])
  from assms m s1 have "0 < m" "b' = b\<lparr>bld_manufacturer := m\<rparr>" "tables s' = snd (update_builds
      (\<lambda>r. bld_id r = bld_id b) (\<lambda>r. bound_build (b\<lparr>bld_manufacturer := m\<rparr>)) (tables s))"
    and c: "constraints (tables s')"
    by (auto simp: build_update_def run_simps split: if_splits)
  with build_manufacturer_run [OF m] show "\<exists>m. b' = b\<lparr>bld_manufacturer := m\<rparr>
      \<and> kept_manufacturer (tables s) b m \<and> tables s' = snd (update_builds
      (\<lambda>r. bld_id r = bld_id b) (\<lambda>r. bound_build (b\<lparr>bld_manufacturer := m\<rparr>)) (tables s))" by blast
  show "constraints (tables s')" by (rule c)
qed

lemma build_statements_frame [simp]:
  "inventory (snd (update_builds P f t)) = inventory t" "movements (snd (update_builds P f t)) = movements t"
  "provenance (snd (update_builds P f t)) = provenance t"
  "requirements (snd (update_builds P f t)) = requirements t"
  "allocations (snd (update_builds P f t)) = allocations t"
  "collection (snd (update_builds P f t)) = collection t"
  by (simp_all add: update_builds_def)

text \<open>The Collection item of a Build changes nothing the accounts see.\<close>

definition only_collection :: "tables \<Rightarrow> tables \<Rightarrow> bool" where
  "only_collection t t' \<longleftrightarrow> t' = t\<lparr>collection := collection t'\<rparr>"

lemma only_collection_items [simp]: "only_collection t (snd (update_items P f t))" "only_collection t t"
  by (simp_all add: only_collection_def update_items_def)

lemma only_collection_frame:
  assumes "only_collection t t'"
  shows "inventory t' = inventory t" "movements t' = movements t" "provenance t' = provenance t"
    "requirements t' = requirements t" "allocations t' = allocations t" "builds t' = builds t"
    "manufacturers t' = manufacturers t"
  using assms by (cases t, cases t', simp add: only_collection_def)+

lemma update_state_for_disassembly_frame:
  assumes "run_state (update_state_for_disassembly b st) s = (r, s')"
  shows "only_collection (tables s) (tables s')"
proof (cases "st = InvalidItemState \<or> b \<le> 0")
  case True
  with assms show ?thesis by (auto simp: update_state_for_disassembly_def run_simps)
next
  case False
  obtain found s1 where get: "run_state (collection_try_get_by_source_build b) s = (found, s1)" by fastforce
  then have s1: "tables s1 = tables s" using after_reading [OF reads_collection(2)] by blast
  obtain ok s2 where upd: "run_state (update_state_for_source_build b st) s1 = (ok, s2)" by fastforce
  have s2: "only_collection (tables s) (tables s2)"
    using upd s1 by (auto simp: update_state_for_source_build_def run_simps split: if_splits)
  from False assms get upd have "tables s' = tables s1 \<or> tables s' = tables s2"
    by (auto simp: update_state_for_disassembly_def run_simps split: if_splits option.splits prod.splits
        dest!: after_reading [OF reads_collection(1)])
  with s1 s2 show ?thesis by auto
qed

lemma synchronize_item_frame:
  assumes "run_state (synchronize_item i st) s = (r, s')" "agree d (tables s)"
  shows "agree d (tables s')" "only_collection (tables s) (tables s')"
proof -
  obtain found s1 where get: "run_state (collection_try_get_by_source_build i) s = (found, s1)" by fastforce
  then have s1: "tables s1 = tables s" using after_reading [OF reads_collection(2)] by blast
  obtain x s2 where upd: "run_state (update_state_for_disassembly i st) s1 = (x, s2)" by fastforce
  from update_state_for_disassembly_frame [OF upd] s1
  have s2: "only_collection (tables s) (tables s2)" by simp
  from assms(1) get upd have "tables s' = tables s1 \<or> tables s' = tables s2"
    by (auto simp: synchronize_item_def run_simps split: option.splits sum.splits)
  with s1 s2 show only: "only_collection (tables s) (tables s')" by auto
  have "keeps_valid (synchronize_item i st)"
    by (auto simp: synchronize_item_def intro!: valid_rules)
  then have "constraints (tables s')" by (rule validD [OF _ assms(1) accountsD(4) [OF assms(2)]])
  with only_collection_frame [OF only] show "agree d (tables s')"
    by (intro accounts_cong' [OF assms(2)])
qed

section \<open>Cancelling and disassembling\<close>

lemma build_modes:
  "constraints t \<Longrightarrow> b \<in> set (builds t) \<Longrightarrow> bld_mode b \<noteq> ''Stock'' \<Longrightarrow> bld_mode b = ''CompleteSet''"
  by (auto simp: constraints_def build_constraints_def)

lemma return_pieces_any:
  assumes "run_state (return_pieces b rows result) s = (Inr result', s')" "agree d (tables s)"
    "b \<in> set (builds (tables s))"
  shows "agree d (tables s')" "builds (tables s') = builds (tables s)"
    "allocations (tables s') = allocations (tables s)" "collection (tables s') = collection (tables s)"
    "bld_mode b = ''Stock'' \<Longrightarrow> held p c m (tables s') = held p c m (tables s)"
    "stock (\<lambda>k. True) (tables s') = stock (\<lambda>k. True) (tables s) + returned_quantity rows"
    "on_hand j (tables s) \<le> on_hand j (tables s')" "requirements_eased (tables s) (tables s')"
    "manufacturers (tables s') = manufacturers (tables s)"
proof -
  have "agree d (tables s') \<and> builds (tables s') = builds (tables s)
    \<and> allocations (tables s') = allocations (tables s) \<and> collection (tables s') = collection (tables s)
    \<and> (bld_mode b = ''Stock'' \<longrightarrow> held p c m (tables s') = held p c m (tables s))
    \<and> stock (\<lambda>k. True) (tables s') = stock (\<lambda>k. True) (tables s) + returned_quantity rows
    \<and> on_hand j (tables s) \<le> on_hand j (tables s') \<and> requirements_eased (tables s) (tables s')
    \<and> manufacturers (tables s') = manufacturers (tables s)"
  proof (cases "bld_mode b = ''Stock''")
    case True
    from return_pieces_stock [OF assms(1,2) True] True show ?thesis by simp
  next
    case False
    from return_pieces_set [OF assms(1,2) build_modes [OF accountsD(4) [OF assms(2)] assms(3) False]]
      False only_inventory_fields [of "tables s" "tables s'"] show ?thesis by (simp add: eased_same)
  qed
  then show "agree d (tables s')" "builds (tables s') = builds (tables s)"
    "allocations (tables s') = allocations (tables s)" "collection (tables s') = collection (tables s)"
    "bld_mode b = ''Stock'' \<Longrightarrow> held p c m (tables s') = held p c m (tables s)"
    "stock (\<lambda>k. True) (tables s') = stock (\<lambda>k. True) (tables s) + returned_quantity rows"
    "on_hand j (tables s) \<le> on_hand j (tables s')" "requirements_eased (tables s) (tables s')"
    "manufacturers (tables s') = manufacturers (tables s)" by blast+
qed

text \<open>The status change at the end, on a state that keeps the accounts.\<close>

lemma status_update:
  assumes "run_state (build_update (b\<lparr>bld_status := st\<rparr>)) s = (Some b', s')" "agree d (tables s)"
  shows "agree d (tables s')" "bld_status b' = st"
    "\<exists>m. kept_manufacturer (tables s) b m \<and> builds (tables s') = update_where (\<lambda>r. bld_id r = bld_id b)
      (\<lambda>r. bound_build (b\<lparr>bld_status := st, bld_manufacturer := m\<rparr>)) (builds (tables s))"
    "inventory (tables s') = inventory (tables s)" "provenance (tables s') = provenance (tables s)"
    "requirements (tables s') = requirements (tables s)" "allocations (tables s') = allocations (tables s)"
    "movements (tables s') = movements (tables s)" "collection (tables s') = collection (tables s)"
proof -
  from build_update_success(1) [OF assms(1)] obtain m where
    m: "b' = b\<lparr>bld_status := st, bld_manufacturer := m\<rparr>" "kept_manufacturer (tables s) b m" "tables s' = snd (update_builds
      (\<lambda>r. bld_id r = bld_id b) (\<lambda>r. bound_build (b\<lparr>bld_status := st, bld_manufacturer := m\<rparr>)) (tables s))"
    by auto
  from m(1) show "bld_status b' = st" by simp
  from m(3) show f: "inventory (tables s') = inventory (tables s)" "provenance (tables s') = provenance (tables s)"
    "requirements (tables s') = requirements (tables s)" "allocations (tables s') = allocations (tables s)"
    "movements (tables s') = movements (tables s)" "collection (tables s') = collection (tables s)"
    by simp_all
  show "\<exists>m. kept_manufacturer (tables s) b m \<and> builds (tables s') = update_where (\<lambda>r. bld_id r = bld_id b)
      (\<lambda>r. bound_build (b\<lparr>bld_status := st, bld_manufacturer := m\<rparr>)) (builds (tables s))"
    using m(2,3) by (auto simp: update_builds_def)
  show "agree d (tables s')"
    using f build_update_success(2) [OF assms(1)] by (intro accounts_cong' [OF assms(2)])
qed

lemma cancel_effect:
  assumes "run_state (cancel_in_current_transaction i rows st) s = (Inr (b', result), s')"
    "agree d (tables s)"
  obtains b m where "find (\<lambda>b. bld_id b = i) (builds (tables s)) = Some b"
    "kept_manufacturer (tables s) b m" "bld_status b \<in> {''Planned'', ''Pulling''}" "bld_status b' = ''Cancelled''"
    "agree d (tables s')"
    "\<And>p c m. bld_mode b = ''Stock'' \<Longrightarrow> held p c m (tables s') = held p c m (tables s)"
    "stock (\<lambda>k. True) (tables s') = stock (\<lambda>k. True) (tables s) + returned_quantity rows"
    "\<And>j. on_hand j (tables s) \<le> on_hand j (tables s')"
    "\<And>r. r \<in> set (requirements (tables s')) \<Longrightarrow> req_build r = i \<Longrightarrow> req_pulled r = 0"
    "allocations (tables s') = filter (\<lambda>a. alloc_build a \<noteq> i) (allocations (tables s))"
    "builds (tables s') = update_where (\<lambda>r. bld_id r = i)
      (\<lambda>r. bound_build (b\<lparr>bld_status := ''Cancelled'', bld_manufacturer := m\<rparr>)) (builds (tables s))"
    "requirements_eased (tables s) (tables s')"
proof -
  obtain build s0 where get: "run_state (build_try_get i) s = (build, s0)" by fastforce
  with assms(1) obtain b where b: "build = Some (Some b)"
    by (auto simp: cancel_in_current_transaction_def run_simps split: option.splits)
  note found = build_try_get_found [OF get [unfolded b]]
  have bin: "b \<in> set (builds (tables s0))" "bld_id b = i"
    using found by (auto dest: bld.lookup_SomeD)
  obtain ret s1 where ret: "run_state (return_pieces b rows no_returns) s0 = (ret, s1)" by fastforce
  with assms(1) get b obtain result1 where r1: "ret = Inr result1" "bld_status b \<in> {''Planned'', ''Pulling''}"
    by (auto simp: cancel_in_current_transaction_def run_simps split: if_splits sum.splits)
  have acc0: "agree d (tables s0)" using assms(2) found by simp
  note p = return_pieces_any [OF ret [unfolded r1(1)] acc0 bin(1)]
  obtain reqs s2 where req: "run_state (requirement_try_get_by_build i) s1 = (reqs, s2)" by fastforce
  have t2: "tables s2 = tables s1" by (rule after_reading [OF reads_requirement_get(3) req])
  with assms(1) get b ret r1 req obtain rs where rs: "reqs = Some rs" "\<not> list_ex (\<lambda>r. req_pulled r > 0) rs"
    by (auto simp: cancel_in_current_transaction_def run_simps split: if_splits option.splits)
  obtain old s3 where al: "run_state (allocation_try_get_by_build i) s2 = (old, s3)" by fastforce
  have t3: "tables s3 = tables s1" using after_reading [OF reads_allocation_get(2) al] t2 by simp
  obtain ok s4 where rel: "run_state (allocation_remove_all_for_build i) s3 = (ok, s4)" by fastforce
  obtain ch s5 where syn: "run_state (synchronize_item i st) s4 = (ch, s5)" by fastforce
  obtain up s6 where upd: "run_state (build_update (b\<lparr>bld_status := ''Cancelled''\<rparr>)) s5 = (up, s6)" by fastforce
  from assms(1) get b ret r1 req rs al rel syn upd have ok: "ok" "\<exists>c. ch = Inr c" "up = Some b'" "s' = s6"
    by (auto simp: cancel_in_current_transaction_def run_simps split: if_splits option.splits sum.splits)
  from rel ok(1) t3 have t4: "tables s4 = snd (delete_allocations (\<lambda>a. alloc_build a = i) (tables s1))"
    "constraints (tables s4)"
    by (auto simp: allocation_remove_all_for_build_def run_simps split: if_splits)
  have acc4: "agree d (tables s4)" using t4 by (intro accounts_cong' [OF p(1)]) simp_all
  note y = synchronize_item_frame [OF syn acc4]
  note f5 = only_collection_frame [OF y(2)]
  note z = status_update [OF upd [unfolded ok(3)] y(1)]
  have inv: "inventory (tables s') = inventory (tables s1)" "provenance (tables s') = provenance (tables s1)"
    "requirements (tables s') = requirements (tables s1)"
    using z(4-6) f5 t4(1) ok(4) by simp_all
  have "set rs = {r \<in> set (requirements (tables s1)). req_build r = i}"
    using req rs(1) found by (auto simp: requirement_try_get_by_build_def requirements_of_def run_simps
        split: if_splits)
  then have none: "req_pulled r \<le> 0" if "r \<in> set (requirements (tables s'))" "req_build r = i" for r
    using rs(2) that inv(3) by (auto simp: list_ex_iff)
  have acc': "agree d (tables s')" using z(1) ok(4) by simp
  have frame: "builds (tables s5) = builds (tables s)" "tables s0 = tables s"
    "allocations (tables s') = filter (\<lambda>a. alloc_build a \<noteq> i) (allocations (tables s))"
    using f5(6) t4(1) p(2,3) found z(7) f5(5) ok(4) by (simp_all add: delete_allocations_def)
  have makers: "manufacturers (tables s5) = manufacturers (tables s)"
    using f5(7) t4(1) p(9) found by (simp add: delete_allocations_def)
  from z(3) ok(4) obtain m where m: "kept_manufacturer (tables s5) b m" "builds (tables s') = update_where (\<lambda>r. bld_id r = i)
      (\<lambda>r. bound_build (b\<lparr>bld_status := ''Cancelled'', bld_manufacturer := m\<rparr>)) (builds (tables s))"
    by (auto simp: frame bin(2))
  show thesis
  proof (rule that [of b m])
    show "held p c m (tables s') = held p c m (tables s)" if "bld_mode b = ''Stock''" for p c m
      using p(5) [OF that] held_cong [OF inv(1,2)] found by simp
    show "stock (\<lambda>k. True) (tables s') = stock (\<lambda>k. True) (tables s) + returned_quantity rows"
      "on_hand j (tables s) \<le> on_hand j (tables s')" for j
      using p(6,7) found by (simp_all add: stock_def on_hand_def inv)
    show "requirements_eased (tables s) (tables s')"
      using p(8) found inv(3) by (simp add: requirements_eased_def)
    show "req_pulled r = 0" if "r \<in> set (requirements (tables s'))" "req_build r = i" for r
      using none [OF that] requirement_quantities(1) [OF acc' that(1)] by simp
  qed (use found r1 z(2) acc' m kept_manufacturer_cong [OF makers] frame in simp_all)
qed

lemma disassemble_effect:
  assumes "run_state (disassemble_in_current_transaction i rows st) s = (Inr (b', result), s')"
    "agree d (tables s)"
  obtains b m where "find (\<lambda>b. bld_id b = i) (builds (tables s)) = Some b"
    "kept_manufacturer (tables s) b m" "bld_status b = ''Complete''" "bld_status b' = ''Disassembled''" "agree d (tables s')"
    "\<And>p c m. bld_mode b = ''Stock'' \<Longrightarrow> held p c m (tables s') = held p c m (tables s)"
    "stock (\<lambda>k. True) (tables s') = stock (\<lambda>k. True) (tables s) + returned_quantity rows"
    "\<And>j. on_hand j (tables s) \<le> on_hand j (tables s')"
    "allocations (tables s') = allocations (tables s)"
    "builds (tables s') = update_where (\<lambda>r. bld_id r = i)
      (\<lambda>r. bound_build (b\<lparr>bld_status := ''Disassembled'', bld_manufacturer := m\<rparr>)) (builds (tables s))"
    "requirements_eased (tables s) (tables s')"
proof -
  obtain build s0 where get: "run_state (build_try_get i) s = (build, s0)" by fastforce
  with assms(1) obtain b where b: "build = Some (Some b)"
    by (auto simp: disassemble_in_current_transaction_def run_simps split: option.splits)
  note found = build_try_get_found [OF get [unfolded b]]
  have bin: "b \<in> set (builds (tables s0))" "bld_id b = i"
    using found by (auto dest: bld.lookup_SomeD)
  obtain ret s1 where ret: "run_state (return_pieces b rows no_returns) s0 = (ret, s1)" by fastforce
  with assms(1) get b obtain result1 where r1: "ret = Inr result1" "bld_status b = ''Complete''"
    by (auto simp: disassemble_in_current_transaction_def run_simps split: if_splits sum.splits)
  have acc0: "agree d (tables s0)" using assms(2) found by simp
  note p = return_pieces_any [OF ret [unfolded r1(1)] acc0 bin(1)]
  obtain up s2 where upd: "run_state (build_update (b\<lparr>bld_status := ''Disassembled''\<rparr>)) s1 = (up, s2)"
    by fastforce
  with assms(1) get b ret r1 obtain b2 where b2: "up = Some b2"
    by (auto simp: disassemble_in_current_transaction_def run_simps split: if_splits option.splits)
  obtain ch s3 where syn: "run_state (synchronize_item i st) s2 = (ch, s3)" by fastforce
  from assms(1) get b ret r1 upd b2 syn have ok: "b2 = b'" "s' = s3"
    by (auto simp: disassemble_in_current_transaction_def run_simps split: if_splits option.splits sum.splits)
  note z = status_update [OF upd [unfolded b2] p(1)]
  note y = synchronize_item_frame [OF syn z(1)]
  note f = only_collection_frame [OF y(2)]
  have inv: "inventory (tables s') = inventory (tables s1)" "provenance (tables s') = provenance (tables s1)"
    using z(4,5) f(1,3) ok(2) by simp_all
  from z(3) f(6) ok(2) found p(2) bin(2) obtain m where m: "kept_manufacturer (tables s1) b m" "builds (tables s') = update_where (\<lambda>r. bld_id r = i)
      (\<lambda>r. bound_build (b\<lparr>bld_status := ''Disassembled'', bld_manufacturer := m\<rparr>)) (builds (tables s))"
    by auto
  show thesis
  proof (rule that [of b m])
    show "held p c m (tables s') = held p c m (tables s)" if "bld_mode b = ''Stock''" for p c m
      using p(5) [OF that] held_cong [OF inv(1,2)] found by simp
    show "stock (\<lambda>k. True) (tables s') = stock (\<lambda>k. True) (tables s) + returned_quantity rows"
      "on_hand j (tables s) \<le> on_hand j (tables s')" for j
      using p(6,7) found by (simp_all add: stock_def on_hand_def inv)
    show "requirements_eased (tables s) (tables s')"
      using p(8) found z(6) f(4) ok(2) by (simp add: requirements_eased_def)
  qed (use found r1 z(2,7) y(1) f(5) p(3) m kept_manufacturer_cong [OF p(9)]
      kept_manufacturer_cong [of "tables s0" "tables s"] ok in simp_all)
qed

end
