(* ===== verification/BuildRules.thy ===== *)
theory BuildRules
  imports BuildFlow
begin

text \<open>
  What the Build services promise: pieces are neither lost nor invented between the inventory and
  the Builds, refused operations leave no trace, a Build is complete only when everything is
  pulled, and the statuses follow the order of the life of a Build.
\<close>

section \<open>The services run in one transaction\<close>

lemma keeps_inventory_update_quantity [keeps_rules]: "keeps_connection (inventory_update_quantity i q)"
  by (auto simp: inventory_update_quantity_def intro!: keeps_rules)

lemma reads_color_by_id [reads_rules]: "reads_only (color_by_id i)"
  by (auto simp: color_by_id_def intro!: reads_rules)

lemma reads_part_and_color [reads_rules]: "reads_only (part_and_color_known p c optional)"
  by (auto simp: part_and_color_known_def intro!: reads_rules)

lemma reads_check_candidates [reads_rules]: "reads_only (check_candidates b r as seen n)"
  by (induction as arbitrary: seen n) (auto intro!: reads_rules)

lemma reads_check_available [reads_rules]: "reads_only (check_available i as)"
  by (induction as) (auto intro!: reads_rules)

lemma reads_pull_rows [reads_rules]: "reads_only (pull_rows i q)"
  by (auto simp: pull_rows_def intro!: reads_rules)

lemma reads_check_return [reads_rules]: "reads_only (check_return b row)"
  by (auto simp: check_return_def intro!: reads_rules)

lemma reads_plan_rows [reads_rules]: "reads_only (plan_rows b rs rows)"
  by (induction b rs rows rule: plan_rows.induct) (auto intro!: reads_rules)

lemma reads_plan [reads_rules]: "reads_only (disassembly_return_plan i)"
  by (auto simp: disassembly_return_plan_def intro!: reads_rules)

lemma reads_check_spare [reads_rules]: "reads_only (check_spare i r l q)"
  by (auto simp: check_spare_def intro!: reads_rules)

lemmas keeps_build_reads [keeps_rules] = reads_part_and_color [THEN reads_keeps]
  reads_check_candidates [THEN reads_keeps] reads_check_available [THEN reads_keeps]
  reads_pull_rows [THEN reads_keeps] reads_check_return [THEN reads_keeps]
  reads_check_spare [THEN reads_keeps] reads_plan [THEN reads_keeps]

lemma keeps_pull [keeps_rules]: "keeps_connection (apply_pull i q)"
  by (auto simp: apply_pull_def pull_writes_def reduce_allocation_def intro!: keeps_rules)

lemma keeps_pull_loop [keeps_rules]: "keeps_connection (apply_pull_loop ps e rows n)"
  by (induction ps arbitrary: e rows n) (auto intro!: keeps_rules)

lemma keeps_apply_pulls [keeps_rules]: "keeps_connection (apply_pulls ps)"
  by (auto simp: apply_pulls_def intro!: keeps_rules)

lemma keeps_return_row [keeps_rules]: "keeps_connection (return_row b row)"
  by (auto simp: return_row_def add_returned_def intro!: keeps_rules)

lemma keeps_return_pieces [keeps_rules]: "keeps_connection (return_pieces b rows result)"
  by (induction b rows result rule: return_pieces.induct) (auto intro!: keeps_rules)

lemma keeps_synchronize_item [keeps_rules]: "keeps_connection (synchronize_item i st)"
  by (auto simp: synchronize_item_def intro!: keeps_rules)

lemma keeps_lifecycle [keeps_rules]:
  "keeps_connection (disassemble_in_current_transaction i rows st)"
  "keeps_connection (cancel_in_current_transaction i rows st)"
  "keeps_connection (store_complete_set_spare_in_current_transaction i r l q)"
  by (auto simp: disassemble_in_current_transaction_def cancel_in_current_transaction_def
      store_complete_set_spare_in_current_transaction_def intro!: keeps_rules)

lemma keeps_create_candidates [keeps_rules]: "keeps_connection (create_candidates r as)"
  by (induction as) (auto intro!: keeps_rules)

lemma keeps_take_from_records [keeps_rules]: "keeps_connection (take_from_records b r xs needed added)"
  by (induction xs arbitrary: needed added)
    (auto simp: take_from_record_def Let_def intro!: keeps_rules)

lemma keeps_allocate_requirements [keeps_rules]: "keeps_connection (allocate_requirements b preferred rs added)"
  by (induction rs arbitrary: added) (auto simp: allocate_requirement_def Let_def intro!: keeps_rules)

lemma keeps_build_mutations [keeps_rules]:
  "keeps_connection (create_build_in_current_transaction b)"
  "keeps_connection (update_metadata_in_current_transaction i name man notes)"
  "keeps_connection (set_build_active_in_current_transaction i active)"
  "keeps_connection (complete_build_in_current_transaction i)"
  by (auto simp: create_build_in_current_transaction_def update_metadata_in_current_transaction_def
      set_build_active_in_current_transaction_def complete_build_in_current_transaction_def
      intro!: keeps_rules)

lemma keeps_requirement_mutations [keeps_rules]:
  "keeps_connection (add_requirement_in_current_transaction r)"
  "keeps_connection (edit_requirement_in_current_transaction i p c q spare)"
  "keeps_connection (remove_requirement_in_current_transaction i)"
  by (auto simp: add_requirement_in_current_transaction_def store_edited_requirement_def
      edit_requirement_in_current_transaction_def remove_requirement_in_current_transaction_def
      intro!: keeps_rules)

lemma keeps_allocation_mutations [keeps_rules]:
  "keeps_connection (replace_for_requirement_in_current_transaction i as)"
  "keeps_connection (allocate_available_in_current_transaction i preferred)"
  by (auto simp: replace_for_requirement_in_current_transaction_def
      allocate_available_in_current_transaction_def intro!: keeps_rules)

interpretation pull_body: transaction_body "apply_pulls ps" succeeds for ps
  by unfold_locales (rule keeps_rules)

interpretation create_build_body: service_body "create_build_in_current_transaction b" for b
  by unfold_locales (rule keeps_rules)

interpretation metadata_body: service_body "update_metadata_in_current_transaction i name man msg"
  for i name man msg
  by unfold_locales (rule keeps_rules)

interpretation activity_body: service_body "set_build_active_in_current_transaction i active"
  for i active
  by unfold_locales (rule keeps_rules)

interpretation complete_body: service_body "complete_build_in_current_transaction i" for i
  by unfold_locales (rule keeps_rules)

interpretation add_requirement_body: service_body "add_requirement_in_current_transaction r" for r
  by unfold_locales (rule keeps_rules)

interpretation edit_requirement_body: service_body "edit_requirement_in_current_transaction i p c q spare"
  for i p c q spare
  by unfold_locales (rule keeps_rules)

interpretation remove_requirement_body: service_body "remove_requirement_in_current_transaction i" for i
  by unfold_locales (rule keeps_rules)

interpretation replace_body: service_body "replace_for_requirement_in_current_transaction i as" for i as
  by unfold_locales (rule keeps_rules)

interpretation allocate_body: service_body "allocate_available_in_current_transaction i preferred"
  for i preferred
  by unfold_locales (rule keeps_rules)

interpretation disassemble_body: service_body "disassemble_in_current_transaction i rows st"
  for i rows st
  by unfold_locales (rule keeps_rules)

interpretation cancel_body: service_body "cancel_in_current_transaction i rows st" for i rows st
  by unfold_locales (rule keeps_rules)

interpretation spare_body: service_body "store_complete_set_spare_in_current_transaction i r l q"
  for i r l q
  by unfold_locales (rule keeps_rules)

end
