(* ===== verification/BuildConservation.thy ===== *)
theory BuildConservation
  imports BuildRules
begin

text \<open>
  Pieces are neither lost nor invented between the inventory and the Builds: what pulling,
  cancelling, disassembling and releasing spares do to every account, and what completing a Build
  requires.
\<close>

section \<open>A Build in progress\<close>

text \<open>
  The database of the examples with a Build that has pulled three LEGO bricks and one of another
  manufacturer, and still has five allocated.
\<close>

definition sample_progress :: tables where
  "sample_progress = sample\<lparr>
     requirements := [sample_requirement 1 1 8 4, (sample_requirement 2 2 4 1)\<lparr>req_spare := True, req_pulled := 0\<rparr>],
     provenance := [\<lparr>prov_id = 1, prov_build = 1, prov_part = 10, prov_color = 5, prov_manufacturer = 1,
         prov_quantity = 3\<rparr>,
       \<lparr>prov_id = 2, prov_build = 1, prov_part = 10, prov_color = 5, prov_manufacturer = 2,
         prov_quantity = 1\<rparr>]\<rparr>"

lemma accounts_sample: "accounts sample"
  using books_sample
  by (simp add: agree_def counts_fit_def drift_of_def fun_eq_iff built_def pulled_def sample_defs int_max_def)

lemma accounts_sample_progress: "accounts sample_progress"
proof -
  have "constraints sample_progress"
    by (simp add: constraint_defs sample_progress_def sample_defs provenance_identity_def)
  then have "books sample_progress"
    by (intro books_cong [OF books_sample]) (simp_all add: sample_progress_def)
  then show ?thesis
    by (simp add: agree_def counts_fit_def drift_of_def fun_eq_iff built_def pulled_def sample_progress_def
        sample_defs int_max_def provenance_identity_def requirement_key_def effective_part_def
        effective_color_def)
qed

section \<open>Pulling\<close>

text \<open>
  Property C14. Pulling for a Build conserves pieces. A successful \<open>recordPulls\<close> takes the requested
  number of pieces from the inventory, reports as many as pulled and releases as many from the
  allocations; for every part, color and manufacturer the loose pieces and those inside Builds
  together stay the same, no requirement reports more than it requires through it, and the
  accounts still agree. A pull that fails changes nothing, whatever statement failed.
\<close>

theorem record_pulls_conserves:
  assumes "run_state (record_pulls ps) s = (r, s')" "saved s = None" "accounts (tables s)"
  shows "if succeeds r
    then accounts (tables s') \<and> (\<forall>p c m. held p c m (tables s') = held p c m (tables s))
      \<and> stock (\<lambda>k. True) (tables s') = stock (\<lambda>k. True) (tables s) - requested ps
      \<and> pulled (\<lambda>k. True) (tables s') = pulled (\<lambda>k. True) (tables s) + requested ps
      \<and> reserved (\<lambda>k. True) (tables s') = reserved (\<lambda>k. True) (tables s) - requested ps
      \<and> pulls_within (tables s) (tables s')
      \<and> builds (tables s') = builds (tables s) \<and> collection (tables s') = collection (tables s)
    else tables s' = tables s"
proof (cases "succeeds r")
  case True
  then obtain result where r: "r = Inr result" by (auto simp: succeeds_iff)
  obtain u u' where u: "tables u = tables s" "run_state (apply_pulls ps) u = (r, u')" "tables s' = tables u'"
    by (rule pull_body.effect [OF assms(1) [unfolded record_pulls_def] assms(2)]) (use True in auto)
  from apply_pulls_accounts [OF u(2) [unfolded r]] u True assms(3) show ?thesis by simp
next
  case False
  with pull_body.atomic [OF assms(1) [unfolded record_pulls_def] assms(2)] show ?thesis by simp
qed

theorem record_pulls_conserves_witness:
  "stock (\<lambda>k. True) (tables (snd (run_state (record_pulls [\<lparr>pull_allocation = 1, pull_quantity = 3\<rparr>]) (connect sample_progress)))) = 23
   \<and> pulled (\<lambda>k. True) (tables (snd (run_state (record_pulls [\<lparr>pull_allocation = 1, pull_quantity = 3\<rparr>]) (connect sample_progress)))) = 7
   \<and> tables (snd (run_state (record_pulls [\<lparr>pull_allocation = 1, pull_quantity = 3\<rparr>, \<lparr>pull_allocation = 1, pull_quantity = 3\<rparr>])
       (connect sample_progress))) = sample_progress"
proof -
  let ?one = "[\<lparr>pull_allocation = 1, pull_quantity = 3\<rparr>]"
    and ?two = "[\<lparr>pull_allocation = 1, pull_quantity = 3\<rparr>, \<lparr>pull_allocation = 1, pull_quantity = 3\<rparr>]"
  have acc: "saved (connect sample_progress) = None" "accounts (tables (connect sample_progress))"
    using accounts_sample_progress by simp_all
  have "succeeds (fst (run_state (record_pulls ?one) (connect sample_progress)))"
    "\<not> succeeds (fst (run_state (record_pulls ?two) (connect sample_progress)))" by code_simp+
  moreover have "stock (\<lambda>k. True) sample_progress = 26" "pulled (\<lambda>k. True) sample_progress = 4"
    by (simp_all add: stock_def pulled_def sample_progress_def sample_defs)
  ultimately show ?thesis
    using record_pulls_conserves [of ?one "connect sample_progress", OF prod.collapse [symmetric] acc]
      record_pulls_conserves [of ?two "connect sample_progress", OF prod.collapse [symmetric] acc]
    by (simp add: requested_def)
qed

section \<open>Cancelling and disassembling\<close>

text \<open>
  Property C19. Cancelling gives everything back. A Build that was cancelled was planned or being
  pulled; every piece the caller returned is in the inventory again (for a Build from stock: out
  of the Build, under its own manufacturer), none of its requirements still reports a pulled piece,
  none of its pieces is left in the provenance and none of its allocations is left. Of the Builds
  only this one changes, and of it the status alone: the manufacturer stays (one that was never set
  becomes LEGO) and the row is stored the way every update stores it, with its texts trimmed. A
  cancellation that fails changes nothing.
\<close>

theorem cancel_gives_back:
  assumes "run_state (build_service (cancel_in_current_transaction i rows st)) s = (r, s')"
    "saved s = None" "accounts (tables s)"
  shows "case r of Inl e \<Rightarrow> tables s' = tables s
    | Inr (b', result) \<Rightarrow> \<exists>b m. find (\<lambda>b. bld_id b = i) (builds (tables s)) = Some b
        \<and> kept_manufacturer (tables s) b m
        \<and> bld_status b \<in> {''Planned'', ''Pulling''} \<and> bld_status b' = ''Cancelled''
        \<and> accounts (tables s')
        \<and> (bld_mode b = ''Stock'' \<longrightarrow> (\<forall>p c m. held p c m (tables s') = held p c m (tables s)))
        \<and> stock (\<lambda>k. True) (tables s') = stock (\<lambda>k. True) (tables s) + returned_quantity rows
        \<and> (\<forall>q\<in>set (requirements (tables s')). req_build q = i \<longrightarrow> req_pulled q = 0)
        \<and> (\<forall>p c. built (\<lambda>(b, p', c', m). (b, p', c') = (i, p, c)) (tables s') = 0)
        \<and> allocations (tables s') = filter (\<lambda>a. alloc_build a \<noteq> i) (allocations (tables s))
        \<and> builds (tables s') = update_where (\<lambda>b. bld_id b = i)
            (\<lambda>x. bound_build (b\<lparr>bld_status := ''Cancelled'', bld_manufacturer := m\<rparr>)) (builds (tables s))"
proof (cases r)
  case (Inl e)
  with cancel_body.service_atomic assms(1,2) show ?thesis by (simp add: build_service_def)
next
  case (Inr x)
  obtain b' result where x: "x = (b', result)" by fastforce
  obtain u u' where u: "tables u = tables s" "tables s' = tables u'"
      "run_state (cancel_in_current_transaction i rows st) u = (Inr (b', result), u')"
    by (rule cancel_body.service_effect [OF assms(1) [unfolded build_service_def Inr x] assms(2)]) auto
  from u(1) assms(3) have acc: "accounts (tables u)" by simp
  obtain b m where e: "find (\<lambda>b. bld_id b = i) (builds (tables u)) = Some b"
    "kept_manufacturer (tables u) b m"
    "bld_status b \<in> {''Planned'', ''Pulling''}" "bld_status b' = ''Cancelled''" "accounts (tables u')"
    "\<And>p c m. bld_mode b = ''Stock'' \<Longrightarrow> held p c m (tables u') = held p c m (tables u)"
    "stock (\<lambda>k. True) (tables u') = stock (\<lambda>k. True) (tables u) + returned_quantity rows"
    "\<And>r. r \<in> set (requirements (tables u')) \<Longrightarrow> req_build r = i \<Longrightarrow> req_pulled r = 0"
    "allocations (tables u') = filter (\<lambda>a. alloc_build a \<noteq> i) (allocations (tables u))"
    "builds (tables u') = update_where (\<lambda>r. bld_id r = i)
      (\<lambda>r. bound_build (b\<lparr>bld_status := ''Cancelled'', bld_manufacturer := m\<rparr>)) (builds (tables u))"
    by (rule cancel_effect [OF u(3) acc]) (rule that, assumption+)
  have "built (\<lambda>(b, p', c', m). (b, p', c') = (i, p, c)) (tables u') = 0" for p c
  proof -
    have "pulled (\<lambda>k. k = (i, p, c)) (tables u') = 0"
      unfolding pulled_def by (rule sum_where_zero) (use e(8) in \<open>auto simp: requirement_key_def\<close>)
    with accounts_covered [OF e(5)] show ?thesis by simp
  qed
  with e u show ?thesis unfolding Inr x by (simp, intro exI [of _ m]) simp
qed

definition sample_return :: "int \<Rightarrow> int \<Rightarrow> disassembly_return" where
  "sample_return manufacturer q = \<lparr>ret_requirement = 1, ret_part = 10, ret_color = 5,
     ret_manufacturer = manufacturer, ret_storage = 2, ret_quantity = q, ret_spare = False\<rparr>"

theorem cancel_gives_back_witness:
  "stock (\<lambda>k. True) (tables (snd (run_state (build_service (cancel_in_current_transaction 1
       [sample_return 1 3, sample_return 2 1] Unassembled)) (connect sample_progress)))) = 30
   \<and> tables (snd (run_state (build_service (cancel_in_current_transaction 1
       [sample_return 1 3] Unassembled)) (connect sample_progress))) = sample_progress"
proof -
  let ?all = "build_service (cancel_in_current_transaction 1 [sample_return 1 3, sample_return 2 1] Unassembled)"
    and ?some = "build_service (cancel_in_current_transaction 1 [sample_return 1 3] Unassembled)"
  have acc: "saved (connect sample_progress) = None" "accounts (tables (connect sample_progress))"
    using accounts_sample_progress by simp_all
  have "succeeds (fst (run_state ?all (connect sample_progress)))"
    "fst (run_state ?some (connect sample_progress)) = Inl BuildInvalidState" by code_simp+
  then obtain x where "fst (run_state ?all (connect sample_progress)) = Inr x"
    "fst (run_state ?some (connect sample_progress)) = Inl BuildInvalidState" by (auto simp: succeeds_iff)
  moreover have "stock (\<lambda>k. True) sample_progress = 26"
    "returned_quantity [sample_return 1 3, sample_return 2 1] = 4"
    by (simp_all add: stock_def sample_progress_def sample_defs returned_quantity_def
        sample_return_def max0_def)
  ultimately show ?thesis
    using cancel_gives_back [OF prod.collapse [symmetric] acc, of 1 "[sample_return 1 3, sample_return 2 1]" Unassembled]
      cancel_gives_back [OF prod.collapse [symmetric] acc, of 1 "[sample_return 1 3]" Unassembled]
    by (cases x) auto
qed

text \<open>
  Property C20. Disassembling conserves pieces. Only a completed Build is disassembled; the pieces
  the caller lists enter the inventory, for a Build from stock out of the Build and under their own
  manufacturer, so loose and built pieces together stay the same; the allocations are untouched.
  Of the Builds only this one changes, and of it the status alone: the manufacturer stays (one that
  was never set becomes LEGO) and the row is stored the way every update stores it, with its texts
  trimmed. A failure changes nothing.
\<close>

theorem disassemble_conserves:
  assumes "run_state (build_service (disassemble_in_current_transaction i rows st)) s = (r, s')"
    "saved s = None" "accounts (tables s)"
  shows "case r of Inl e \<Rightarrow> tables s' = tables s
    | Inr (b', result) \<Rightarrow> \<exists>b m. find (\<lambda>b. bld_id b = i) (builds (tables s)) = Some b
        \<and> kept_manufacturer (tables s) b m
        \<and> bld_status b = ''Complete'' \<and> bld_status b' = ''Disassembled'' \<and> accounts (tables s')
        \<and> (bld_mode b = ''Stock'' \<longrightarrow> (\<forall>p c m. held p c m (tables s') = held p c m (tables s)))
        \<and> stock (\<lambda>k. True) (tables s') = stock (\<lambda>k. True) (tables s) + returned_quantity rows
        \<and> allocations (tables s') = allocations (tables s)
        \<and> builds (tables s') = update_where (\<lambda>b. bld_id b = i)
            (\<lambda>x. bound_build (b\<lparr>bld_status := ''Disassembled'', bld_manufacturer := m\<rparr>)) (builds (tables s))"
proof (cases r)
  case (Inl e)
  with disassemble_body.service_atomic assms(1,2) show ?thesis by (simp add: build_service_def)
next
  case (Inr x)
  obtain b' result where x: "x = (b', result)" by fastforce
  obtain u u' where u: "tables u = tables s" "tables s' = tables u'"
      "run_state (disassemble_in_current_transaction i rows st) u = (Inr (b', result), u')"
    by (rule disassemble_body.service_effect [OF assms(1) [unfolded build_service_def Inr x] assms(2)]) auto
  from u(1) assms(3) have acc: "accounts (tables u)" by simp
  obtain b m where e: "find (\<lambda>b. bld_id b = i) (builds (tables u)) = Some b"
    "kept_manufacturer (tables u) b m"
    "bld_status b = ''Complete''" "bld_status b' = ''Disassembled''" "accounts (tables u')"
    "\<And>p c m. bld_mode b = ''Stock'' \<Longrightarrow> held p c m (tables u') = held p c m (tables u)"
    "stock (\<lambda>k. True) (tables u') = stock (\<lambda>k. True) (tables u) + returned_quantity rows"
    "allocations (tables u') = allocations (tables u)"
    "builds (tables u') = update_where (\<lambda>r. bld_id r = i)
      (\<lambda>r. bound_build (b\<lparr>bld_status := ''Disassembled'', bld_manufacturer := m\<rparr>)) (builds (tables u))"
    by (rule disassemble_effect [OF u(3) acc]) (rule that, assumption+)
  with u show ?thesis unfolding Inr x by (simp, intro exI [of _ m]) simp
qed

definition sample_done :: tables where
  "sample_done = sample_progress\<lparr>allocations := [],
     builds := [sample_build 1 ''Stock'' ''Complete'', sample_build 2 ''CompleteSet'' ''Complete'']\<rparr>"

lemma accounts_sample_done: "accounts sample_done"
proof -
  have "constraints sample_done"
    by (simp add: constraint_defs sample_done_def sample_progress_def sample_defs provenance_identity_def)
  then show ?thesis
    by (intro accounts_cong' [OF accounts_sample_progress]) (simp_all add: sample_done_def)
qed

theorem disassemble_conserves_witness:
  "held 10 5 1 (tables (snd (run_state (build_service (disassemble_in_current_transaction 1
       [sample_return 1 3, sample_return 2 1] Unassembled)) (connect sample_done)))) = 23
   \<and> tables (snd (run_state (build_service (disassemble_in_current_transaction 1
       [sample_return 1 2, sample_return 1 2] Unassembled)) (connect sample_done))) = sample_done"
proof -
  let ?all = "build_service (disassemble_in_current_transaction 1 [sample_return 1 3, sample_return 2 1] Unassembled)"
    and ?bad = "build_service (disassemble_in_current_transaction 1 [sample_return 1 2, sample_return 1 2] Unassembled)"
  have acc: "saved (connect sample_done) = None" "accounts (tables (connect sample_done))"
    using accounts_sample_done by simp_all
  have "succeeds (fst (run_state ?all (connect sample_done)))"
    "\<not> succeeds (fst (run_state ?bad (connect sample_done)))" by code_simp+
  then obtain x e where "fst (run_state ?all (connect sample_done)) = Inr x"
    "fst (run_state ?bad (connect sample_done)) = Inl e"
    by (metis succeeds_iff succeeds_simps(2) sum.exhaust)
  moreover have "held 10 5 1 sample_done = 23"
    by (simp add: held_def stock_def built_def sample_done_def sample_progress_def sample_defs
        inventory_identity_def provenance_identity_def)
  moreover have "find (\<lambda>b. bld_id b = 1) (builds sample_done) = Some (sample_build 1 ''Stock'' ''Complete'')"
    by (simp add: sample_done_def sample_defs)
  ultimately show ?thesis
    using disassemble_conserves [OF prod.collapse [symmetric] acc, of 1 "[sample_return 1 3, sample_return 2 1]" Unassembled]
      disassemble_conserves [OF prod.collapse [symmetric] acc, of 1 "[sample_return 1 2, sample_return 1 2]" Unassembled]
    by (cases x) (auto simp: sample_build_def)
qed

section \<open>Completing\<close>

text \<open>
  Property C21. A Build is completed only when its pieces are there. Completion succeeds only for a
  Build that has requirements and, when it is built from stock, has pulled every required piece
  that is not a spare; it changes the status of this Build to Complete and nothing else in
  the database: the manufacturer stays (one that was never set becomes LEGO) and the row is stored
  the way every update stores it, with its texts trimmed. A failure changes nothing.
\<close>

theorem complete_needs_all_pieces:
  assumes "run_state (build_service (complete_build_in_current_transaction i)) s = (r, s')"
    "saved s = None"
  shows "case r of Inl e \<Rightarrow> tables s' = tables s
    | Inr b' \<Rightarrow> \<exists>b m. find (\<lambda>b. bld_id b = i) (builds (tables s)) = Some b
        \<and> kept_manufacturer (tables s) b m
        \<and> b' = b\<lparr>bld_status := ''Complete'', bld_manufacturer := m\<rparr>
        \<and> (\<exists>q\<in>set (requirements (tables s)). req_build q = i)
        \<and> (bld_mode b = ''Stock'' \<longrightarrow> (\<forall>q\<in>set (requirements (tables s)).
             req_build q = i \<and> \<not> req_spare q \<longrightarrow> req_required q \<le> req_pulled q))
        \<and> tables s' = (tables s)\<lparr>builds := update_where (\<lambda>x. bld_id x = i)
             (\<lambda>x. bound_build b') (builds (tables s))\<rparr>"
proof (cases r)
  case (Inl e)
  with complete_body.service_atomic assms show ?thesis by (simp add: build_service_def)
next
  case (Inr b')
  obtain u u' where u: "tables u = tables s" "tables s' = tables u'"
      "run_state (complete_build_in_current_transaction i) u = (Inr b', u')"
    by (rule complete_body.service_effect [OF assms(1) [unfolded build_service_def Inr] assms(2)]) auto
  obtain build s1 where get: "run_state (build_try_get i) u = (build, s1)" by fastforce
  with u(3) obtain b where b: "build = Some (Some b)"
    by (auto simp: complete_build_in_current_transaction_def run_simps split: option.splits)
  note found = build_try_get_found [OF get [unfolded b]]
  obtain reqs s2 where req: "run_state (requirement_try_get_by_build i) s1 = (reqs, s2)" by fastforce
  have t2: "tables s2 = tables s" using after_reading [OF reads_requirement_get(3) req] found u(1) by simp
  from u(3) get b req obtain rs where rs: "reqs = Some rs" "rs \<noteq> []"
      "bld_mode b = ''Stock'' \<Longrightarrow> all_pulled rs"
    and upd: "run_state (build_update (b\<lparr>bld_status := ''Complete''\<rparr>)) s2 = (Some b', u')"
    by (auto simp: complete_build_in_current_transaction_def run_simps
        split: option.splits if_splits prod.splits)
  have "set rs = {r \<in> set (requirements (tables s)). req_build r = i}"
    using req rs(1) found u(1)
    by (auto simp: requirement_try_get_by_build_def requirements_of_def run_simps split: if_splits)
  with rs have "\<exists>q\<in>set (requirements (tables s)). req_build q = i"
    "bld_mode b = ''Stock'' \<Longrightarrow> \<forall>q\<in>set (requirements (tables s)).
       req_build q = i \<and> \<not> req_spare q \<longrightarrow> req_required q \<le> req_pulled q"
    by (auto simp: all_pulled_def list_all_iff neq_Nil_conv)
  moreover from build_update_success(1) [OF upd] obtain m where
    "b' = b\<lparr>bld_status := ''Complete'', bld_manufacturer := m\<rparr>" "kept_manufacturer (tables s) b m"
    "tables u' = snd (update_builds (\<lambda>r. bld_id r = bld_id b) (\<lambda>r. bound_build b') (tables s))"
    using t2 kept_manufacturer_cong [of "tables s2" "tables s" b] by auto
  moreover have "bld_id b = i" using found by (auto dest: bld.lookup_SomeD)
  ultimately show ?thesis using found u unfolding Inr sum.case
    by (intro exI [of _ b] exI [of _ m]) (auto simp: update_builds_def)
qed

definition sample_ready :: tables where
  "sample_ready = sample_done\<lparr>requirements := [sample_requirement 1 1 4 4],
     builds := [sample_build 1 ''Stock'' ''Pulling'', sample_build 2 ''CompleteSet'' ''Planned'']\<rparr>"

theorem complete_needs_all_pieces_witness:
  "map bld_status (builds (tables (snd (run_state
     (build_service (complete_build_in_current_transaction 1)) (connect sample_ready))))) = [''Complete'', ''Planned'']
   \<and> tables (snd (run_state
     (build_service (complete_build_in_current_transaction 2)) (connect sample_ready))) = sample_ready"
proof -
  have "succeeds (fst (run_state (build_service (complete_build_in_current_transaction 1)) (connect sample_ready)))"
    "fst (run_state (build_service (complete_build_in_current_transaction 2)) (connect sample_ready))
      = Inl BuildInvalidState" by code_simp+
  then obtain b where "fst (run_state (build_service (complete_build_in_current_transaction 1)) (connect sample_ready)) = Inr b"
    "fst (run_state (build_service (complete_build_in_current_transaction 2)) (connect sample_ready))
      = Inl BuildInvalidState" by (auto simp: succeeds_iff)
  moreover have "saved (connect sample_ready) = None" by simp
  moreover have "find (\<lambda>b. bld_id b = 1) (builds sample_ready) = Some (sample_build 1 ''Stock'' ''Pulling'')"
    "builds sample_ready = [sample_build 1 ''Stock'' ''Pulling'', sample_build 2 ''CompleteSet'' ''Planned'']"
    by (simp_all add: sample_ready_def sample_build_def)
  moreover have "bld_id (sample_build i m st) = i" "bld_status (sample_build i m st) = st" for i m st
    by (simp_all add: sample_build_def)
  ultimately show ?thesis
    using complete_needs_all_pieces [OF prod.collapse [symmetric], of "connect sample_ready" 1]
      complete_needs_all_pieces [OF prod.collapse [symmetric], of "connect sample_ready" 2]
    by (auto simp: bound_build_def trimmed_def is_space_def)
qed

section \<open>Spares of a complete set\<close>

lemma check_spare_success:
  assumes "run_state (check_spare i k l q) s = (Inr (b, r), s')"
  shows "find (\<lambda>b. bld_id b = i) (builds (tables s)) = Some b"
    "find (\<lambda>x. req_id x = k) (requirements (tables s)) = Some r"
    "bld_mode b = ''CompleteSet''" "bld_status b = ''Complete''" "req_build r = i" "req_spare r"
    "0 < q" "q \<le> req_required r - req_released r"
    "\<exists>loc\<in>set (storage (tables s)). sto_id loc = l \<and> sto_active loc
      \<and> sto_workspace loc = bld_workspace b \<and> \<not> has_active_children l (tables s)"
    "tables s' = tables s"
proof -
  obtain build s1 where gb: "run_state (build_try_get i) s = (build, s1)" by fastforce
  obtain req s2 where gr: "run_state (requirement_try_get k) s1 = (req, s2)" by fastforce
  obtain loc s3 where gl: "run_state (storage_try_get l) s2 = (loc, s3)" by fastforce
  obtain ch s4 where ch: "run_state (has_active_children_checked l) s3 = (ch, s4)" by fastforce
  have t: "tables s1 = tables s" "tables s2 = tables s" "tables s3 = tables s" "tables s4 = tables s"
    using after_reading [OF reads_build_get(1) gb] after_reading [OF reads_requirement_get(1) gr]
      after_reading [OF reads_storage(1) gl] after_reading [OF reads_storage(3) ch] by simp_all
  from assms gb gr gl ch obtain x where x: "build = Some (Some b)" "req = Some (Some r)"
      "loc = Some (Some x)" "sto_active x" "sto_workspace x = bld_workspace b" "ch = No" "s' = s4" and
    g: "bld_mode b = ''CompleteSet''" "bld_status b = ''Complete''" "req_build r = i" "req_spare r"
      "0 < q" "q \<le> max0 (req_required r - req_released r)"
    by (cases ch) (auto simp: check_spare_def run_simps split: if_splits option.splits)
  show "find (\<lambda>b. bld_id b = i) (builds (tables s)) = Some b"
    using build_try_get_found [OF gb [unfolded x(1)]] by simp
  show "find (\<lambda>x. req_id x = k) (requirements (tables s)) = Some r"
    using requirement_try_get_found [OF gr [unfolded x(2)]] t by simp
  from gl x(3) t have "x \<in> set (storage (tables s))" "sto_id x = l"
    by (auto simp: storage_try_get_def run_simps split: if_splits dest: sto.lookup_SomeD)
  moreover from ch x(6) t have "\<not> has_active_children l (tables s)"
    by (auto simp: has_active_children_checked_def check_of_def run_simps split: if_splits)
  ultimately show "\<exists>loc\<in>set (storage (tables s)). sto_id loc = l \<and> sto_active loc
      \<and> sto_workspace loc = bld_workspace b \<and> \<not> has_active_children l (tables s)"
    using x by blast
  show "q \<le> req_required r - req_released r" using g(5,6) by (simp add: max0_def)
  show "tables s' = tables s" using x t by simp
  show "bld_mode b = ''CompleteSet''" "bld_status b = ''Complete''" "req_build r = i" "req_spare r" "0 < q"
    by (rule g)+
qed

lemma requirement_key_released [simp]:
  "requirement_key (r\<lparr>req_released := n\<rparr>) = requirement_key r"
  by (simp add: requirement_key_def effective_part_def effective_color_def)

text \<open>Storing a requirement whose pulled pieces and effective identity stay keeps the accounts.\<close>

lemma requirement_update_accounts:
  assumes "run_state (requirement_update r') s = (True, s')" "agree d (tables s)"
    "find (\<lambda>x. req_id x = req_id r') (requirements (tables s)) = Some r"
    "requirement_key r' = requirement_key r" "req_pulled r' = req_pulled r"
    "req_released r' \<le> int_max" "req_required r' \<le> int_max"
  shows "agree d (tables s')"
proof -
  note w = requirement_update_success [OF assms(1)]
  have "pulled Q (tables s') = pulled Q (tables s)" for Q
    using pulled_update [OF assms(3) accountsD(4) [OF assms(2)], of "bound_requirement r'" Q] assms(4,5)
    by (simp add: w(1))
  moreover have "built Q (tables s') = built Q (tables s)" for Q by (simp add: w(1) built_def)
  ultimately have "drift_of (tables s') = d"
    using accountsD(3) [OF assms(2)] by (simp add: drift_of_def fun_eq_iff)
  moreover have "r \<in> set (requirements (tables s))" using assms(3) by (auto dest: req.lookup_SomeD)
  then have "counts_fit (tables s')"
    using accountsD(2) [OF assms(2)] assms(5-7)
    by (auto simp: counts_fit_def w(1) update_requirements_def set_update_where bound_requirement_def)
  moreover have "books (tables s')"
    by (rule books_cong [OF accountsD(1) [OF assms(2)] _ _ w(2)]) (simp_all add: w(1))
  ultimately show ?thesis by (simp add: agree_def)
qed

lemma store_spare_effect:
  assumes "run_state (store_complete_set_spare_in_current_transaction i k l q) s = (Inr (b, result), s')"
    "agree d (tables s)"
  obtains r s1 where "run_state (check_spare i k l q) s = (Inr (b, r), s1)"
    "requirements (tables s') = update_where (\<lambda>y. req_id y = k)
       (\<lambda>y. bound_requirement (r\<lparr>req_released := req_released r + q\<rparr>)) (requirements (tables s))"
    "stock (\<lambda>k. True) (tables s') = stock (\<lambda>k. True) (tables s) + q" "agree d (tables s')"
    "builds (tables s') = builds (tables s)" "allocations (tables s') = allocations (tables s)"
    "\<And>j. on_hand j (tables s) \<le> on_hand j (tables s')"
proof -
  obtain b' r s1 added s2 where
    check: "run_state (check_spare i k l q) s = (Inr (b', r), s1)" and
    add: "run_state (add_or_increase_in_current_transaction (spare_record b' r l q) ''SetSpareRelease''
      ''Build'' (number_text i) (''Stored boxed spare from Complete Set '' @ bld_name b' @ ''.'')) s1
      = (Some added, s2)" and
    upd: "run_state (requirement_update (r\<lparr>req_released := int32 (req_released r + q)\<rparr>)) s2 = (True, s')" and
    b: "b' = b"
    using assms(1) by (auto simp: store_complete_set_spare_in_current_transaction_def run_simps
        split: if_splits sum.splits prod.splits option.splits)
  obtain after res where added: "added = (after, res)" by fastforce
  note c = check_spare_success [OF check]
  have r: "r \<in> set (requirements (tables s))" "req_id r = k" using c(2) by (auto dest: req.lookup_SomeD)
  note rq = requirement_quantities [OF assms(2) r(1)]
  have exact: "int32 (req_released r + q) = req_released r + q"
    using c(7,8) rq by (intro int32_id) (auto simp: int_range_def)
  have fit: "inv_quantity (spare_record b' r l q) \<le> int_max" "agree d (tables s1)"
    using c(8,10) rq assms(2) by (simp_all add: spare_record_def)
  obtain m where a: "\<And>Q. stock Q (tables s2) = stock Q (tables s1)
      + (if Q (inventory_identity (bound_inventory ((spare_record b' r l q)\<lparr>inv_manufacturer := m\<rparr>)))
         then inv_quantity (spare_record b' r l q) else 0)"
    "agree d (tables s2)" "only_inventory (tables s1) (tables s2)"
    "\<And>j. on_hand j (tables s1) \<le> on_hand j (tables s2)"
    by (rule add_accounts [OF add [unfolded added] fit(2,1)]) (simp, rule that, assumption+)
  note frame = only_inventory_fields [OF a(3), unfolded c(10)]
  have r2: "find (\<lambda>x. req_id x = req_id (r\<lparr>req_released := int32 (req_released r + q)\<rparr>))
      (requirements (tables s2)) = Some r"
    using c(2) r(2) frame by simp
  have acc: "agree d (tables s')"
    by (rule requirement_update_accounts [OF upd a(2) r2])
      (use exact c(8) rq in simp_all)
  note w = requirement_update_success(1) [OF upd, simplified]
  show thesis
  proof (rule that [OF check [unfolded b]])
    show "requirements (tables s') = update_where (\<lambda>y. req_id y = k)
       (\<lambda>y. bound_requirement (r\<lparr>req_released := req_released r + q\<rparr>)) (requirements (tables s))"
      using frame r(2) by (simp add: w update_requirements_def exact)
    show "stock (\<lambda>k. True) (tables s') = stock (\<lambda>k. True) (tables s) + q"
      using a(1) [of "\<lambda>k. True"] c(10) by (simp add: w stock_def spare_record_def)
    show "on_hand j (tables s) \<le> on_hand j (tables s')" for j
      using a(4) [of j] c(10) by (simp add: w on_hand_def)
  qed (use acc frame in \<open>simp_all add: w\<close>)
qed

text \<open>
  Spare pieces are released at most once. Storing boxed spares of a complete set
  succeeds only for a spare requirement of a completed set Build, puts exactly the given number of
  pieces into an active leaf location of the workspace, and books them on the requirement, whose
  released pieces never exceed the required ones; the accounts of the inventory still agree. A
  failure changes nothing.
\<close>

theorem spare_release_bounded:
  assumes "run_state (build_service (store_complete_set_spare_in_current_transaction i k l q)) s = (r, s')"
    "saved s = None" "accounts (tables s)"
  shows "case r of Inl e \<Rightarrow> tables s' = tables s
    | Inr (b, result) \<Rightarrow> find (\<lambda>b. bld_id b = i) (builds (tables s)) = Some b
        \<and> bld_mode b = ''CompleteSet'' \<and> bld_status b = ''Complete''
        \<and> (\<exists>x. find (\<lambda>x. req_id x = k) (requirements (tables s)) = Some x \<and> req_build x = i \<and> req_spare x
            \<and> 0 < q \<and> req_released x + q \<le> req_required x
            \<and> requirements (tables s') = update_where (\<lambda>y. req_id y = k)
                (\<lambda>y. bound_requirement (x\<lparr>req_released := req_released x + q\<rparr>)) (requirements (tables s)))
        \<and> (\<exists>loc\<in>set (storage (tables s)). sto_id loc = l \<and> sto_active loc
            \<and> sto_workspace loc = bld_workspace b \<and> \<not> has_active_children l (tables s))
        \<and> stock (\<lambda>k. True) (tables s') = stock (\<lambda>k. True) (tables s) + q
        \<and> accounts (tables s') \<and> builds (tables s') = builds (tables s)
        \<and> allocations (tables s') = allocations (tables s)"
proof (cases r)
  case (Inl e)
  with spare_body.service_atomic assms(1,2) show ?thesis by (simp add: build_service_def)
next
  case (Inr x)
  obtain b result where x: "x = (b, result)" by fastforce
  obtain u u' where u: "tables u = tables s" "tables s' = tables u'"
      "run_state (store_complete_set_spare_in_current_transaction i k l q) u = (Inr (b, result), u')"
    by (rule spare_body.service_effect [OF assms(1) [unfolded build_service_def Inr x] assms(2)]) auto
  from u(1) assms(3) have acc: "accounts (tables u)" by simp
  obtain y s1 where check: "run_state (check_spare i k l q) u = (Inr (b, y), s1)" and
    e: "requirements (tables u') = update_where (\<lambda>z. req_id z = k)
       (\<lambda>z. bound_requirement (y\<lparr>req_released := req_released y + q\<rparr>)) (requirements (tables u))"
    "stock (\<lambda>k. True) (tables u') = stock (\<lambda>k. True) (tables u) + q" "accounts (tables u')"
    "builds (tables u') = builds (tables u)" "allocations (tables u') = allocations (tables u)"
    by (rule store_spare_effect [OF u(3) acc]) (rule that, assumption+)
  from check_spare_success [OF check] e u show ?thesis
    unfolding Inr x by (simp add: algebra_simps)
qed

definition sample_spares :: tables where
  "sample_spares = sample_done\<lparr>requirements :=
     [sample_requirement 1 1 8 4, (sample_requirement 2 2 4 0)\<lparr>req_spare := True\<rparr>]\<rparr>"

lemma accounts_sample_spares: "accounts sample_spares"
proof -
  have "sample_spares = sample_done"
    by (simp add: sample_spares_def sample_done_def sample_progress_def sample_requirement_def)
  then show ?thesis using accounts_sample_done by simp
qed

theorem spare_release_bounded_witness:
  "stock (\<lambda>k. True) (tables (snd (run_state
     (build_service (store_complete_set_spare_in_current_transaction 2 2 2 3)) (connect sample_spares)))) = 29
   \<and> fst (run_state (build_service (store_complete_set_spare_in_current_transaction 2 2 2 2))
       (snd (run_state (build_service (store_complete_set_spare_in_current_transaction 2 2 2 3)) (connect sample_spares))))
     = Inl BuildInvalidState"
proof
  have acc: "saved (connect sample_spares) = None" "accounts (tables (connect sample_spares))"
    using accounts_sample_spares by simp_all
  have "succeeds (fst (run_state (build_service (store_complete_set_spare_in_current_transaction 2 2 2 3)) (connect sample_spares)))"
    by code_simp
  then obtain x where "fst (run_state (build_service (store_complete_set_spare_in_current_transaction 2 2 2 3))
      (connect sample_spares)) = Inr x" by (auto simp: succeeds_iff)
  moreover have "stock (\<lambda>k. True) sample_spares = 26"
    by (simp add: stock_def sample_spares_def sample_done_def sample_progress_def sample_defs)
  ultimately show "stock (\<lambda>k. True) (tables (snd (run_state
     (build_service (store_complete_set_spare_in_current_transaction 2 2 2 3)) (connect sample_spares)))) = 29"
    using spare_release_bounded [OF prod.collapse [symmetric] acc, of 2 2 2 3] by (cases x) simp
  show "fst (run_state (build_service (store_complete_set_spare_in_current_transaction 2 2 2 2))
       (snd (run_state (build_service (store_complete_set_spare_in_current_transaction 2 2 2 3)) (connect sample_spares))))
     = Inl BuildInvalidState" by code_simp
qed

end
