(* ===== verification/BuildPlanning.thy ===== *)
theory BuildPlanning
  imports BuildConservation
begin

text \<open>
  All the services of the Builds together: each call, in any order and whichever database
  statements fail, keeps the books and counters, and the accounts of the pieces unless it
  takes pulled pieces to another identity; without failures it also keeps every
  allocation within the inventory and within what its requirement still needs.
\<close>

section \<open>Computations that write one table\<close>

lemma reads_workspace [reads_rules]: "reads_only (workspace_try_get i)"
  by (auto simp: workspace_try_get_def intro!: reads_rules)

context frame_relation
begin

lemmas stays_basic [stays_rules] = reads_build_manufacturer [THEN stays_reads] reads_build_get [THEN stays_reads]
  reads_requirement_get [THEN stays_reads] reads_allocation_get [THEN stays_reads]
  reads_allocation_totals [THEN stays_reads] reads_workspace [THEN stays_reads]
  reads_manufacturer_by_id [THEN stays_reads] reads_inventory_get [THEN stays_reads]
  reads_check_candidates [THEN stays_reads] reads_check_available [THEN stays_reads]

end

definition only_allocations :: "tables \<Rightarrow> tables \<Rightarrow> bool" where
  "only_allocations t t' \<longleftrightarrow> t' = t\<lparr>allocations := allocations t', seq_allocation := seq_allocation t'\<rparr>"

definition only_builds :: "tables \<Rightarrow> tables \<Rightarrow> bool" where
  "only_builds t t' \<longleftrightarrow> t' = t\<lparr>builds := builds t', seq_build := seq_build t'\<rparr>"

lemma only_allocations_fields:
  "only_allocations t t' \<Longrightarrow> inventory t' = inventory t \<and> movements t' = movements t
    \<and> provenance t' = provenance t \<and> requirements t' = requirements t \<and> builds t' = builds t"
  by (cases t, cases t') (simp add: only_allocations_def)

lemma only_builds_fields:
  "only_builds t t' \<Longrightarrow> inventory t' = inventory t \<and> movements t' = movements t
    \<and> provenance t' = provenance t \<and> requirements t' = requirements t \<and> allocations t' = allocations t"
  by (cases t, cases t') (simp add: only_builds_def)

interpretation allocations_frame: frame_relation only_allocations
proof
  show "only_allocations t t" for t by (simp add: only_allocations_def)
  show "only_allocations t t2" if "only_allocations t t1" "only_allocations t1 t2" for t t1 t2
    using that by (cases t, cases t1, cases t2) (simp add: only_allocations_def)
qed

interpretation builds_frame: frame_relation only_builds
proof
  show "only_builds t t" for t by (simp add: only_builds_def)
  show "only_builds t t2" if "only_builds t t1" "only_builds t1 t2" for t t1 t2
    using that by (cases t, cases t1, cases t2) (simp add: only_builds_def)
qed

lemma stays_allocation_writes [stays_rules]:
  "stays only_allocations (allocation_create a)" "stays only_allocations (allocation_update a)"
  "stays only_allocations (allocation_remove_all_for_requirement i)"
  by (auto simp: allocation_create_def allocation_update_def allocation_remove_all_for_requirement_def
      only_allocations_def insert_allocation_def update_allocations_def delete_allocations_def Let_def
      intro!: stays_rules allocations_frame.stays_exec)

lemma stays_build_writes [stays_rules]:
  "stays only_builds (build_create b)" "stays only_builds (build_update b)"
  by (auto simp: build_create_def build_update_def only_builds_def insert_build_def update_builds_def
      Let_def intro!: stays_rules builds_frame.stays_exec)

lemma stays_build_services [stays_rules]:
  "stays only_builds (create_build_in_current_transaction b)"
  "stays only_builds (update_metadata_in_current_transaction i name man msg)"
  "stays only_builds (set_build_active_in_current_transaction i active)"
  "stays only_builds (complete_build_in_current_transaction i)"
  by (auto simp: create_build_in_current_transaction_def update_metadata_in_current_transaction_def
      set_build_active_in_current_transaction_def complete_build_in_current_transaction_def
      intro!: stays_rules)

lemma stays_create_candidates [stays_rules]: "stays only_allocations (create_candidates r as)"
  by (induction as) (auto intro!: stays_rules)

lemma stays_take_from_records [stays_rules]:
  "stays only_allocations (take_from_records b r xs needed added)"
  by (induction xs arbitrary: needed added)
    (auto simp: take_from_record_def Let_def intro!: stays_rules)

lemma stays_allocate_requirements [stays_rules]:
  "stays only_allocations (allocate_requirements b preferred rs added)"
  by (induction rs arbitrary: added)
    (auto simp: allocate_requirement_def Let_def intro!: stays_rules)

lemma stays_allocation_services [stays_rules]:
  "stays only_allocations (replace_for_requirement_in_current_transaction i as)"
  "stays only_allocations (allocate_available_in_current_transaction i preferred)"
  by (auto simp: replace_for_requirement_in_current_transaction_def
      allocate_available_in_current_transaction_def intro!: stays_rules)

section \<open>Reading without failures\<close>

text \<open>When no statement fails, a lookup answers from the tables and leaves the session as it is.\<close>

named_theorems quiet_runs "lookups when no statement fails"

lemma quiet_lookups [quiet_runs]:
  assumes "faults s = []"
  shows "run_state (build_try_get i) s
      = (Some (if i \<le> 0 then None else find (\<lambda>b. bld_id b = i) (builds (tables s))), s)"
    "run_state (requirement_try_get i) s
      = (Some (if i \<le> 0 then None else find (\<lambda>r. req_id r = i) (requirements (tables s))), s)"
    "run_state (inventory_get i) s
      = (find (\<lambda>r. inv_id r = i) (inventory (tables s)), s)"
    "run_state (total_allocated_for_requirement i) s
      = (if i \<le> 0 then 0 else allocated (\<lambda>a. alloc_requirement a = i) (tables s), s)"
    "run_state (total_allocated_for_inventory i) s
      = (if i \<le> 0 then 0 else allocated (\<lambda>a. alloc_inventory a = i) (tables s), s)"
    "run_state (total_allocated_for_part_color_for_build b p c) s
      = (if b \<le> 0 \<or> p \<le> 0 \<or> c \<le> 0 then 0
         else allocated (\<lambda>a. alloc_build a = b \<and> alloc_part a = p \<and> alloc_color a = c) (tables s), s)"
  using assms
  by (simp_all add: build_try_get_def requirement_try_get_def inventory_get_def
      inventory_try_get_def
      total_allocated_for_requirement_def total_allocated_for_inventory_def
      try_total_allocated_for_inventory_def total_allocated_for_part_color_for_build_def
      found_row_def run_simps)

lemma quiet_gets [quiet_runs]:
  assumes "faults s = []"
  shows "run_state (build_get i) s
      = (if i \<le> 0 then None else find (\<lambda>b. bld_id b = i) (builds (tables s)), s)"
    "run_state (requirement_get i) s
      = (if i \<le> 0 then None else find (\<lambda>r. req_id r = i) (requirements (tables s)), s)"
    "snd (run_state (part_by_id p) s) = s" "snd (run_state (color_by_id c) s) = s"
  using assms
  by (simp_all add: build_get_def requirement_get_def part_by_id_def color_by_id_def found_row_def
      quiet_lookups run_simps)

lemma quiet_known [quiet_runs]:
  assumes "faults s = []" "run_state (part_and_color_known p c optional) s = (x, s')"
  shows "s' = s"
  using assms by (auto simp: part_and_color_known_def part_by_id_def color_by_id_def run_simps split: if_splits)

section \<open>Every service keeps the accounts\<close>

lemmas valid_build_reads [valid_rules] = reads_workspace [THEN reads_valid]
  reads_inventory_get [THEN reads_valid] reads_check_candidates [THEN reads_valid]
  reads_check_available [THEN reads_valid]

lemma valid_build_services [valid_rules]:
  "keeps_valid (create_build_in_current_transaction b)"
  "keeps_valid (update_metadata_in_current_transaction i name man msg)"
  "keeps_valid (set_build_active_in_current_transaction i active)"
  "keeps_valid (complete_build_in_current_transaction i)"
  by (auto simp: create_build_in_current_transaction_def update_metadata_in_current_transaction_def
      set_build_active_in_current_transaction_def complete_build_in_current_transaction_def
      intro!: valid_rules)

lemma valid_create_candidates [valid_rules]: "keeps_valid (create_candidates r as)"
  by (induction as) (auto intro!: valid_rules)

lemma valid_take_from_records [valid_rules]: "keeps_valid (take_from_records b r xs needed added)"
  by (induction xs arbitrary: needed added) (auto simp: take_from_record_def Let_def intro!: valid_rules)

lemma valid_allocate_requirements [valid_rules]: "keeps_valid (allocate_requirements b preferred rs added)"
  by (induction rs arbitrary: added) (auto simp: allocate_requirement_def Let_def intro!: valid_rules)

lemma valid_allocation_services [valid_rules]:
  "keeps_valid (replace_for_requirement_in_current_transaction i as)"
  "keeps_valid (allocate_available_in_current_transaction i preferred)"
  by (auto simp: replace_for_requirement_in_current_transaction_def
      allocate_available_in_current_transaction_def intro!: valid_rules)

lemma accounts_when_builds:
  assumes "stays only_builds m" "keeps_valid m" "run_state m s = (r, s')" "agree d (tables s)"
  shows "agree d (tables s')"
  using only_builds_fields [OF staysD [OF assms(1,3)]] validD [OF assms(2,3) accountsD(4) [OF assms(4)]]
  by (intro accounts_cong' [OF assms(4)]) simp_all

lemma accounts_when_allocations:
  assumes "stays only_allocations m" "keeps_valid m" "run_state m s = (r, s')" "agree d (tables s)"
  shows "agree d (tables s')"
  using only_allocations_fields [OF staysD [OF assms(1,3)]] validD [OF assms(2,3) accountsD(4) [OF assms(4)]]
  by (intro accounts_cong' [OF assms(4)]) simp_all

text \<open>
  A new requirement changes no book; without pulled pieces, like a removed one, it changes no
  account either.
\<close>

lemma requirement_create_ledgers:
  assumes "run_state (requirement_create r) s = (Some r', s')" "ledgers (tables s)"
    "req_pulled r \<le> int_max" "req_required r \<le> int_max" "req_released r \<le> int_max"
  shows "ledgers (tables s')"
proof -
  have t: "tables s' = snd (insert_requirement (bound_requirement r) (tables s))" "constraints (tables s')"
    using assms(1) by (auto simp: requirement_create_def run_simps split: if_splits)
  have "books (tables s)" "counts_fit (tables s)" using assms(2) by (simp_all add: ledgers_def)
  moreover have "books (tables s')"
    by (rule books_cong [OF calculation(1) _ _ t(2)]) (simp_all add: t(1) insert_requirement_def Let_def)
  ultimately show ?thesis
    using assms(3-5)
    by (auto simp: ledgers_def counts_fit_def t(1) insert_requirement_def Let_def bound_requirement_def put_req_id_def)
qed

lemma requirement_create_accounts:
  assumes "run_state (requirement_create r) s = (Some r', s')" "agree d (tables s)"
    "req_pulled r = 0" "req_required r \<le> int_max" "req_released r \<le> int_max"
  shows "agree d (tables s')"
proof -
  have t: "tables s' = snd (insert_requirement (bound_requirement r) (tables s))"
    using assms(1) by (auto simp: requirement_create_def run_simps split: if_splits)
  have "ledgers (tables s')"
    by (rule requirement_create_ledgers [OF assms(1) agree_ledgers [OF assms(2)]])
      (use assms(3-5) in \<open>simp_all add: int_max_def\<close>)
  moreover have "drift_of (tables s') = d"
    using accountsD(3) [OF assms(2)] assms(3)
    by (auto simp: drift_of_def fun_eq_iff built_def pulled_def t insert_requirement_def Let_def
        bound_requirement_def put_req_id_def)
  ultimately show ?thesis by (simp add: agree_def ledgers_def)
qed

lemma requirement_remove_accounts:
  assumes "run_state (requirement_remove i) s = (True, s')" "agree d (tables s)"
    "find (\<lambda>r. req_id r = i) (requirements (tables s)) = Some r" "req_pulled r = 0"
  shows "agree d (tables s')"
proof -
  have t: "tables s' = snd (delete_requirements (\<lambda>r. req_id r = i) (tables s))" "constraints (tables s')"
    using assms(1) by (auto simp: requirement_remove_def run_simps split: if_splits)
  have "pulled Q (tables s') = pulled Q (tables s)" for Q
    using req.sum_where_delete [OF assms(3) constraints_requirement_keys [OF accountsD(4) [OF assms(2)]],
        of req_pulled "\<lambda>r. Q (requirement_key r)"] assms(4)
    by (simp add: pulled_def t(1) delete_requirements_def del: sum_where_filter)
  then have "drift_of (tables s') = d"
    using accountsD(3) [OF assms(2)] by (simp add: drift_of_def fun_eq_iff t(1) built_def delete_requirements_def)
  moreover have "books (tables s')"
    by (rule books_cong [OF accountsD(1) [OF assms(2)] _ _ t(2)]) (simp_all add: t(1) delete_requirements_def)
  moreover have "counts_fit (tables s')"
    using accountsD(2) [OF assms(2)] by (auto simp: counts_fit_def t(1) delete_requirements_def)
  ultimately show ?thesis by (simp add: agree_def)
qed

lemma add_requirement_writes:
  assumes "run_state (add_requirement_in_current_transaction r) s = (Inr x, s')"
  obtains u y where "tables u = tables s" "run_state (requirement_create r) u = (Some y, s')"
proof -
  obtain build s1 where b: "run_state (build_get (req_build r)) s = (build, s1)" by fastforce
  obtain known s2 where k: "run_state (part_and_color_known (req_part r) (req_color r) False) s1 = (known, s2)"
    by fastforce
  have t: "tables s2 = tables s"
    using after_reading [OF reads_build_get(2) b] after_reading [OF reads_part_and_color k] by simp
  from assms(1) b k obtain y where "run_state (requirement_create r) s2 = (Some y, s')"
    by (auto simp: add_requirement_in_current_transaction_def run_simps
        split: if_splits option.splits prod.splits)
  with t show thesis by (rule that)
qed

lemma add_requirement_accounts:
  assumes "run_state (add_requirement_in_current_transaction r) s = (Inr x, s')" "agree d (tables s)"
    "req_pulled r = 0" "req_required r \<le> int_max" "req_released r \<le> int_max"
  shows "agree d (tables s')"
  by (rule add_requirement_writes [OF assms(1)]) (use requirement_create_accounts assms(2-5) in fastforce)

lemma add_requirement_ledgers:
  assumes "run_state (add_requirement_in_current_transaction r) s = (Inr x, s')" "ledgers (tables s)"
    "req_pulled r \<le> int_max" "req_required r \<le> int_max" "req_released r \<le> int_max"
  shows "ledgers (tables s')"
  by (rule add_requirement_writes [OF assms(1)]) (use requirement_create_ledgers assms(2-5) in fastforce)

text \<open>An edit may change the effective part and color only before anything is pulled.\<close>

lemma edited_requirement_simps [simp]:
  "req_id (edited_requirement r p c q spare) = req_id r"
  "req_pulled (edited_requirement r p c q spare) = req_pulled r"
  "req_released (edited_requirement r p c q spare) = req_released r"
  "req_required (edited_requirement r p c q spare) = q"
  by (simp_all add: edited_requirement_def)

lemma edited_key [simp]:
  "\<not> identity_changes r p c \<Longrightarrow> requirement_key (edited_requirement r p c q spare) = requirement_key r"
  by (simp add: edited_requirement_def identity_changes_def requirement_key_def effective_part_def
      effective_color_def)

lemma pulled_update_zero:
  assumes "find (\<lambda>x. req_id x = i) (requirements t) = Some old" "constraints t"
    "req_pulled old = 0" "req_pulled new = 0"
  shows "pulled Q (snd (update_requirements (\<lambda>x. req_id x = i) (\<lambda>x. new) t)) = pulled Q t"
  using req.sum_where_update [OF assms(1) constraints_requirement_keys [OF assms(2)],
      of req_pulled "\<lambda>r. Q (requirement_key r)" "\<lambda>x. new"] assms(3,4)
  by (simp add: pulled_def update_requirements_def)

lemma store_edited_write:
  assumes "run_state (store_edited_requirement r p c q spare) s = (Inr x, s')"
  shows "s' = s \<or> run_state (requirement_update (edited_requirement r p c q spare)) s = (True, s')"
  using assms by (auto simp: store_edited_requirement_def run_simps split: if_splits prod.splits)

lemma store_edited_ledgers:
  assumes "run_state (store_edited_requirement r p c q spare) s = (Inr x, s')" "ledgers (tables s)"
    "r \<in> set (requirements (tables s))" "q \<le> int_max"
  shows "ledgers (tables s')"
  using store_edited_write [OF assms(1)]
proof (elim disjE)
  assume upd: "run_state (requirement_update (edited_requirement r p c q spare)) s = (True, s')"
  note w = requirement_update_success [OF upd, simplified]
  have t: "books (tables s)" "counts_fit (tables s)" using assms(2) by (simp_all add: ledgers_def)
  have "counts_fit (tables s')"
    using t(2) assms(3,4)
    by (auto simp: counts_fit_def w(1) update_requirements_def set_update_where bound_requirement_def)
  moreover have "books (tables s')" by (rule books_cong [OF t(1) _ _ w(2)]) (simp_all add: w(1))
  ultimately show ?thesis by (simp add: ledgers_def)
qed (use assms(2) in simp)

lemma store_edited_accounts:
  assumes "run_state (store_edited_requirement r p c q spare) s = (Inr x, s')" "agree d (tables s)"
    "find (\<lambda>x. req_id x = req_id r) (requirements (tables s)) = Some r"
    "identity_changes r p c \<Longrightarrow> req_pulled r = 0" "q \<le> int_max"
  shows "agree d (tables s')"
  using store_edited_write [OF assms(1)]
proof (elim disjE)
  assume upd: "run_state (requirement_update (edited_requirement r p c q spare)) s = (True, s')"
  have r: "r \<in> set (requirements (tables s))" using assms(3) by (auto dest: req.lookup_SomeD)
  note rq = requirement_quantities [OF assms(2) r]
  show ?thesis
  proof (cases "identity_changes r p c")
    case False
    then show ?thesis
      using requirement_update_accounts [OF upd assms(2)] assms(3,5) rq by simp
  next
    case True
    note w = requirement_update_success [OF upd, simplified]
    have "pulled Q (tables s') = pulled Q (tables s)" for Q
      using pulled_update_zero [OF assms(3) accountsD(4) [OF assms(2)]] assms(4) True by (simp add: w(1))
    then have "drift_of (tables s') = d"
      using accountsD(3) [OF assms(2)] by (simp add: drift_of_def fun_eq_iff w(1) built_def)
    with store_edited_ledgers [OF assms(1) agree_ledgers [OF assms(2)] r assms(5)]
    show ?thesis by (simp add: agree_def ledgers_def)
  qed
qed (use assms(2) in simp)

text \<open>The way of \<open>edit\<close> to its write, with what it read and checked.\<close>

lemma edit_requirement_success:
  assumes "run_state (edit_requirement_in_current_transaction i p c q spare) s = (Inr x, s')"
  obtains r b n u and m :: int where "find (\<lambda>r. req_id r = i) (requirements (tables s)) = Some r"
    "find (\<lambda>b. bld_id b = req_build r) (builds (tables s)) = Some b" "editable b" "0 < q"
    "int32 (req_pulled r + n) \<le> q" "identity_changes r p c \<Longrightarrow> n \<le> 0 \<and> m \<le> 0" "tables u = tables s"
    "faults s = [] \<Longrightarrow> n = allocated (\<lambda>a. alloc_requirement a = i) (tables s) \<and> faults u = []"
    "run_state (store_edited_requirement r p c q spare) u = (Inr x, s')"
proof -
  obtain requirement s1 where gr: "run_state (requirement_try_get i) s = (requirement, s1)" by fastforce
  with assms obtain r where r: "requirement = Some (Some r)"
    by (auto simp: edit_requirement_in_current_transaction_def run_simps split: option.splits)
  note fr = requirement_try_get_found [OF gr [unfolded r]]
  obtain build s2 where gb: "run_state (build_try_get (req_build r)) s1 = (build, s2)" by fastforce
  with assms gr r obtain b where b: "build = Some (Some b)" and g: "editable b" "0 < q"
    by (auto simp: edit_requirement_in_current_transaction_def run_simps split: option.splits if_splits)
  note fb = build_try_get_found [OF gb [unfolded b]]
  obtain known s3 where gk: "run_state (part_and_color_known p c True) s2 = (known, s3)" by fastforce
  obtain n s4 where gn: "run_state (total_allocated_for_requirement i) s3 = (n, s4)" by fastforce
  obtain m s5 where gm: "run_state (total_allocated_for_part_color_for_build (req_build r)
      (effective_part r) (effective_color r)) s4 = (m, s5)" by fastforce
  have t: "tables s3 = tables s" "tables s4 = tables s" "tables s5 = tables s"
    using fr fb after_reading [OF reads_part_and_color gk] after_reading [OF reads_allocation_totals(1) gn]
      after_reading [OF reads_allocation_totals(3) gm] by simp_all
  have fault: "n = allocated (\<lambda>a. alloc_requirement a = i) (tables s) \<and> faults s4 = [] \<and> faults s5 = []"
    if q: "faults s = []"
  proof -
    from gr gb q have "s1 = s" "s2 = s" "0 < i"
      by (auto simp: quiet_runs r split: if_splits)
    moreover from this quiet_known [OF q] gk have "s3 = s" by blast
    ultimately show ?thesis using gn gm q by (auto simp: quiet_runs)
  qed
  show thesis
  proof (cases "identity_changes r p c")
    case True
    with assms gr r gb b g gk gn gm have "int32 (req_pulled r + n) \<le> q" "n \<le> 0" "m \<le> 0"
      "run_state (store_edited_requirement r p c q spare) s5 = (Inr x, s')"
      by (auto simp: edit_requirement_in_current_transaction_def run_simps split: if_splits)
    with fr fb g t fault show thesis by (intro that [of r b n m s5]) simp_all
  next
    case False
    with assms gr r gb b g gk gn gm have "int32 (req_pulled r + n) \<le> q"
      "run_state (store_edited_requirement r p c q spare) s4 = (Inr x, s')"
      by (auto simp: edit_requirement_in_current_transaction_def run_simps split: if_splits)
    with False fr fb g t fault show thesis by (intro that [of r b n m s4]) simp_all
  qed
qed

lemma remove_requirement_success:
  assumes "run_state (remove_requirement_in_current_transaction i) s = (Inr x, s')"
  obtains r b n u where "find (\<lambda>r. req_id r = i) (requirements (tables s)) = Some r"
    "find (\<lambda>b. bld_id b = req_build r) (builds (tables s)) = Some b" "editable b"
    "req_pulled r \<le> 0" "req_released r \<le> 0" "n \<le> (0::int)" "tables u = tables s"
    "faults s = [] \<Longrightarrow> n = allocated (\<lambda>a. alloc_requirement a = i) (tables s) \<and> faults u = []"
    "run_state (requirement_remove i) u = (True, s')"
proof -
  obtain requirement s1 where gr: "run_state (requirement_try_get i) s = (requirement, s1)" by fastforce
  with assms obtain r where r: "requirement = Some (Some r)"
    by (auto simp: remove_requirement_in_current_transaction_def run_simps split: option.splits)
  note fr = requirement_try_get_found [OF gr [unfolded r]]
  obtain build s2 where gb: "run_state (build_get (req_build r)) s1 = (build, s2)" by fastforce
  with assms gr r obtain b where b: "build = Some b" and g: "editable b" "req_pulled r \<le> 0" "req_released r \<le> 0"
    by (auto simp: remove_requirement_in_current_transaction_def run_simps split: option.splits if_splits)
  note fb = build_get_found [OF gb [unfolded b]]
  obtain n s3 where gn: "run_state (total_allocated_for_requirement i) s2 = (n, s3)" by fastforce
  have t: "tables s3 = tables s" using fr fb after_reading [OF reads_allocation_totals(1) gn] by simp
  have fault: "n = allocated (\<lambda>a. alloc_requirement a = i) (tables s) \<and> faults s3 = []" if q: "faults s = []"
    using gr gb gn q by (auto simp: quiet_runs r split: if_splits)
  from assms gr r gb b g gn have "n \<le> 0" "run_state (requirement_remove i) s3 = (True, s')"
    by (auto simp: remove_requirement_in_current_transaction_def run_simps split: if_splits prod.splits)
  with fr fb g t fault show thesis by (intro that [of r b n s3]) simp_all
qed

lemma requirement_services_accounts:
  "run_state (edit_requirement_in_current_transaction i p c q spare) s = (Inr x, s') \<Longrightarrow>
   agree d (tables s) \<Longrightarrow> q \<le> int_max \<Longrightarrow>
   (\<And>r. r \<in> set (requirements (tables s)) \<Longrightarrow> req_id r = i \<Longrightarrow> identity_changes r p c \<Longrightarrow> req_pulled r = 0) \<Longrightarrow>
   agree d (tables s')"
  "run_state (remove_requirement_in_current_transaction i) s = (Inr x, s') \<Longrightarrow>
   agree d (tables s) \<Longrightarrow> agree d (tables s')"
proof -
  assume e: "run_state (edit_requirement_in_current_transaction i p c q spare) s = (Inr x, s')"
    "agree d (tables s)" "q \<le> int_max"
    "\<And>r. r \<in> set (requirements (tables s)) \<Longrightarrow> req_id r = i \<Longrightarrow> identity_changes r p c \<Longrightarrow> req_pulled r = 0"
  obtain r u where r: "find (\<lambda>r. req_id r = i) (requirements (tables s)) = Some r" "tables u = tables s"
    "run_state (store_edited_requirement r p c q spare) u = (Inr x, s')"
    by (rule edit_requirement_success [OF e(1)]) (rule that, assumption+)
  have "r \<in> set (requirements (tables s))" "req_id r = i" using r(1) by (auto dest: req.lookup_SomeD)
  with r e show "agree d (tables s')" by (intro store_edited_accounts [OF r(3)]) auto
next
  assume e: "run_state (remove_requirement_in_current_transaction i) s = (Inr x, s')" "agree d (tables s)"
  obtain r u where r: "find (\<lambda>r. req_id r = i) (requirements (tables s)) = Some r" "req_pulled r \<le> 0"
    "tables u = tables s" "run_state (requirement_remove i) u = (True, s')"
    by (rule remove_requirement_success [OF e(1)]) (rule that, assumption+)
  have "r \<in> set (requirements (tables s))" using r(1) by (auto dest: req.lookup_SomeD)
  with requirement_quantities(1) [OF e(2)] r(2) have "req_pulled r = 0" by force
  with r e(2) show "agree d (tables s')" by (intro requirement_remove_accounts [OF r(4)]) auto
qed

section \<open>The calls\<close>

text \<open>Every operation of the five services that changes the database.\<close>

datatype build_call =
    CreateBuild build_row
  | UpdateMetadata int string int string
  | SetBuildActive int bool
  | CompleteBuild int
  | AddRequirement requirement_row
  | EditRequirement int int int int bool
  | RemoveRequirement int
  | ReplaceAllocations int "allocation_row list"
  | AllocateAvailable int int
  | RecordPulls "pull_request list"
  | Disassemble int "disassembly_return list" item_state
  | CancelBuild int "disassembly_return list" item_state
  | StoreSpare int int int int

text \<open>The answer is whether the call reported success.\<close>

definition reports :: "(session, 'e + 'a) state \<Rightarrow> (session, bool) state" where
  "reports m = do { r \<leftarrow> m; ret (succeeds r) }"

fun run_call :: "build_call \<Rightarrow> (session, bool) state" where
  "run_call (CreateBuild b) = reports (build_service (create_build_in_current_transaction b))"
| "run_call (UpdateMetadata i name man msg) =
     reports (build_service (update_metadata_in_current_transaction i name man msg))"
| "run_call (SetBuildActive i active) =
     reports (build_service (set_build_active_in_current_transaction i active))"
| "run_call (CompleteBuild i) = reports (build_service (complete_build_in_current_transaction i))"
| "run_call (AddRequirement r) = reports (build_service (add_requirement_in_current_transaction r))"
| "run_call (EditRequirement i p c q spare) =
     reports (build_service (edit_requirement_in_current_transaction i p c q spare))"
| "run_call (RemoveRequirement i) =
     reports (build_service (remove_requirement_in_current_transaction i))"
| "run_call (ReplaceAllocations i as) =
     reports (build_service (replace_for_requirement_in_current_transaction i as))"
| "run_call (AllocateAvailable i preferred) =
     reports (build_service (allocate_available_in_current_transaction i preferred))"
| "run_call (RecordPulls ps) = reports (record_pulls ps)"
| "run_call (Disassemble i rows st) =
     reports (build_service (disassemble_in_current_transaction i rows st))"
| "run_call (CancelBuild i rows st) =
     reports (build_service (cancel_in_current_transaction i rows st))"
| "run_call (StoreSpare i k l q) =
     reports (build_service (store_complete_set_spare_in_current_transaction i k l q))"

text \<open>
  What every caller passes: the quantities are C++ \<open>int\<close> values, which the integers of the model do
  not say.
\<close>

fun call_in_range :: "build_call \<Rightarrow> bool" where
  "call_in_range (AddRequirement r) \<longleftrightarrow>
     req_pulled r \<le> int_max \<and> req_required r \<le> int_max \<and> req_released r \<le> int_max"
| "call_in_range (EditRequirement i p c q spare) \<longleftrightarrow> q \<le> int_max"
| "call_in_range _ \<longleftrightarrow> True"

text \<open>
  A call that leaves the pulled pieces to the kind they were pulled for: a new requirement reports
  nothing as pulled, and the effective part and color of a requirement do not change while pieces are
  pulled for it. The service checks neither.
\<close>

fun keeps_kinds :: "tables \<Rightarrow> build_call \<Rightarrow> bool" where
  "keeps_kinds t (AddRequirement r) \<longleftrightarrow> req_pulled r = 0"
| "keeps_kinds t (EditRequirement i p c q spare) \<longleftrightarrow>
     list_all (\<lambda>r. req_id r = i \<and> identity_changes r p c \<longrightarrow> req_pulled r = 0) (requirements t)"
| "keeps_kinds t _ \<longleftrightarrow> True"

lemma run_reports [run_simps]:
  "run_state (reports m) s = (succeeds (fst (run_state m s)), snd (run_state m s))"
  by (simp add: reports_def run_simps split: prod.split)

text \<open>What a call does inside its transaction.\<close>

fun call_body :: "build_call \<Rightarrow> (session, bool) state" where
  "call_body (CreateBuild b) = reports (create_build_in_current_transaction b)"
| "call_body (UpdateMetadata i name man msg) = reports (update_metadata_in_current_transaction i name man msg)"
| "call_body (SetBuildActive i active) = reports (set_build_active_in_current_transaction i active)"
| "call_body (CompleteBuild i) = reports (complete_build_in_current_transaction i)"
| "call_body (AddRequirement r) = reports (add_requirement_in_current_transaction r)"
| "call_body (EditRequirement i p c q spare) = reports (edit_requirement_in_current_transaction i p c q spare)"
| "call_body (RemoveRequirement i) = reports (remove_requirement_in_current_transaction i)"
| "call_body (ReplaceAllocations i as) = reports (replace_for_requirement_in_current_transaction i as)"
| "call_body (AllocateAvailable i preferred) = reports (allocate_available_in_current_transaction i preferred)"
| "call_body (RecordPulls ps) = reports (apply_pulls ps)"
| "call_body (Disassemble i rows st) = reports (disassemble_in_current_transaction i rows st)"
| "call_body (CancelBuild i rows st) = reports (cancel_in_current_transaction i rows st)"
| "call_body (StoreSpare i k l q) = reports (store_complete_set_spare_in_current_transaction i k l q)"

definition ends_well :: "(session, bool) state \<Rightarrow> (session, bool) state \<Rightarrow> bool" where
  "ends_well m body \<longleftrightarrow> (\<forall>s ok s'. run_state m s = (ok, s') \<longrightarrow> saved s = None \<longrightarrow>
     saved s' = None \<and> (if ok then \<exists>u u'. tables u = tables s \<and> tables s' = tables u'
       \<and> (faults s = [] \<longrightarrow> faults u = []) \<and> run_state body u = (True, u')
     else tables s' = tables s))"

context service_body
begin

lemma ends_well: "ends_well (reports (host_transaction refused failed body)) (reports body)"
  unfolding ends_well_def
proof (intro allI impI)
  fix s ok s'
  assume run: "run_state (reports (host_transaction refused failed body)) s = (ok, s')" and saved: "saved s = None"
  obtain r where r: "run_state (host_transaction refused failed body) s = (r, s')" "ok = succeeds r"
    using run by (metis run_reports prod.collapse prod.inject)
  have "saved s' = None" using service_outcome r(1) saved by auto
  moreover have "tables s' = tables s" if "\<not> ok"
    using service_atomic r saved that by (cases r) auto
  moreover have "\<exists>u u'. tables u = tables s \<and> tables s' = tables u'
       \<and> (faults s = [] \<longrightarrow> faults u = []) \<and> run_state (reports body) u = (True, u')" if "ok"
  proof -
    from that r(2) obtain a where a: "r = Inr a" by (auto simp: succeeds_iff)
    obtain u u' where "tables u = tables s" "tables s' = tables u'" "faults s = [] \<longrightarrow> faults u = []"
      "run_state body u = (Inr a, u')"
      by (rule service_effect [OF r(1) [unfolded a] saved]) auto
    then show ?thesis by (intro exI [of _ u] exI [of _ u']) (simp add: run_reports)
  qed
  ultimately show "saved s' = None \<and> (if ok then \<exists>u u'. tables u = tables s \<and> tables s' = tables u'
       \<and> (faults s = [] \<longrightarrow> faults u = []) \<and> run_state (reports body) u = (True, u')
     else tables s' = tables s)" by simp
qed

end

lemma pulls_end_well: "ends_well (reports (record_pulls ps)) (reports (apply_pulls ps))"
  unfolding ends_well_def
proof (intro allI impI)
  fix s ok s'
  assume run: "run_state (reports (record_pulls ps)) s = (ok, s')" and saved: "saved s = None"
  obtain r where r: "run_state (record_pulls ps) s = (r, s')" "ok = succeeds r"
    using run by (metis run_reports prod.collapse prod.inject)
  from pull_body.outcome [OF r(1) [unfolded record_pulls_def] saved] r(2)
  show "saved s' = None \<and> (if ok then \<exists>u u'. tables u = tables s \<and> tables s' = tables u'
       \<and> (faults s = [] \<longrightarrow> faults u = []) \<and> run_state (reports (apply_pulls ps)) u = (True, u')
     else tables s' = tables s)" by (auto simp: run_reports split: if_splits)
qed

lemma call_outcome: "ends_well (run_call c) (call_body c)"
  by (cases c) (simp_all add: build_service_def pulls_end_well create_build_body.ends_well metadata_body.ends_well
      activity_body.ends_well complete_body.ends_well add_requirement_body.ends_well
      edit_requirement_body.ends_well remove_requirement_body.ends_well replace_body.ends_well
      allocate_body.ends_well disassemble_body.ends_well cancel_body.ends_well spare_body.ends_well)

text \<open>A relation every body keeps is kept by every call, whether it succeeds or fails.\<close>

lemma call_keeps:
  assumes "saved s = None" "P (tables s)"
    "\<And>u u'. tables u = tables s \<Longrightarrow> (faults s = [] \<Longrightarrow> faults u = []) \<Longrightarrow>
      run_state (call_body c) u = (True, u') \<Longrightarrow> P (tables u')"
  shows "P (tables (snd (run_state (run_call c) s)))" "saved (snd (run_state (run_call c) s)) = None"
  using call_outcome [of c, unfolded ends_well_def] assms
  by (metis prod.collapse)+

lemma reports_true: "run_state (reports m) u = (True, u') \<Longrightarrow> \<exists>a. run_state m u = (Inr a, u')"
  by (metis run_reports prod.collapse prod.inject succeeds_iff)

lemma body_accounts:
  assumes "run_state (call_body c) u = (True, u')" "agree d (tables u)" "call_in_range c"
    "keeps_kinds (tables u) c"
  shows "agree d (tables u')"
proof (cases c)
  case (CreateBuild b)
  with assms show ?thesis
    by (auto dest!: reports_true intro: accounts_when_builds [OF stays_build_services(1) valid_build_services(1)])
next
  case (UpdateMetadata i name man msg)
  with assms show ?thesis
    by (auto dest!: reports_true intro: accounts_when_builds [OF stays_build_services(2) valid_build_services(2)])
next
  case (SetBuildActive i active)
  with assms show ?thesis
    by (auto dest!: reports_true intro: accounts_when_builds [OF stays_build_services(3) valid_build_services(3)])
next
  case (CompleteBuild i)
  with assms show ?thesis
    by (auto dest!: reports_true intro: accounts_when_builds [OF stays_build_services(4) valid_build_services(4)])
next
  case (AddRequirement r)
  with assms show ?thesis by (auto dest!: reports_true intro: add_requirement_accounts)
next
  case (EditRequirement i p c q spare)
  with assms(1) obtain x where "run_state (edit_requirement_in_current_transaction i p c q spare) u
      = (Inr x, u')" by (auto dest!: reports_true)
  moreover from EditRequirement assms(3,4) have "q \<le> int_max"
    "\<And>r. r \<in> set (requirements (tables u)) \<Longrightarrow> req_id r = i \<Longrightarrow> identity_changes r p c \<Longrightarrow> req_pulled r = 0"
    by (simp_all add: list_all_iff)
  ultimately show ?thesis by (rule requirement_services_accounts(1) [OF _ assms(2)])
next
  case (RemoveRequirement i)
  with assms show ?thesis by (auto dest!: reports_true intro: requirement_services_accounts(2))
next
  case (ReplaceAllocations i as)
  with assms show ?thesis
    by (auto dest!: reports_true
        intro: accounts_when_allocations [OF stays_allocation_services(1) valid_allocation_services(1)])
next
  case (AllocateAvailable i preferred)
  with assms show ?thesis
    by (auto dest!: reports_true
        intro: accounts_when_allocations [OF stays_allocation_services(2) valid_allocation_services(2)])
next
  case (RecordPulls ps)
  with assms apply_pulls_accounts show ?thesis by (fastforce dest!: reports_true)
next
  case (Disassemble i rows st)
  with assms(1) obtain b result where "run_state (disassemble_in_current_transaction i rows st) u
      = (Inr (b, result), u')" by (auto dest!: reports_true)
  then show ?thesis by (rule disassemble_effect [OF _ assms(2)])
next
  case (CancelBuild i rows st)
  with assms(1) obtain b result where "run_state (cancel_in_current_transaction i rows st) u
      = (Inr (b, result), u')" by (auto dest!: reports_true)
  then show ?thesis by (rule cancel_effect [OF _ assms(2)])
next
  case (StoreSpare i k l q)
  with assms(1) obtain b result where "run_state (store_complete_set_spare_in_current_transaction i k l q) u
      = (Inr (b, result), u')" by (auto dest!: reports_true)
  then show ?thesis by (rule store_spare_effect [OF _ assms(2)])
qed

text \<open>The books are kept even where the pulled pieces change their kind.\<close>

lemma body_ledgers:
  assumes "run_state (call_body c) u = (True, u')" "ledgers (tables u)" "call_in_range c"
  shows "ledgers (tables u')"
proof (cases "keeps_kinds (tables u) c")
  case True
  from assms(2) obtain d where "agree d (tables u)" by (auto simp: ledgers_agree)
  then show ?thesis by (rule body_accounts [OF assms(1) _ assms(3) True, THEN agree_ledgers])
next
  case False
  show ?thesis
  proof (cases c)
    case (AddRequirement r)
    with assms show ?thesis by (auto dest!: reports_true intro: add_requirement_ledgers)
  next
    case (EditRequirement i p c q spare)
    with assms(1) obtain x where run: "run_state (edit_requirement_in_current_transaction i p c q spare) u
        = (Inr x, u')" by (auto dest!: reports_true)
    obtain r w where "find (\<lambda>r. req_id r = i) (requirements (tables u)) = Some r" "tables w = tables u"
      "run_state (store_edited_requirement r p c q spare) w = (Inr x, u')"
      by (rule edit_requirement_success [OF run]) (rule that, assumption+)
    with store_edited_ledgers EditRequirement assms(2,3) show ?thesis
      by (fastforce dest: req.lookup_SomeD)
  qed (use False in simp_all)
qed

text \<open>
  Any sequence of calls, each on a session of its own with failures of its own. The history holds
  every call with the tables it found.
\<close>

inductive builds_reach :: "tables \<Rightarrow> (tables \<times> build_call) list \<Rightarrow> tables \<Rightarrow> bool" where
  untouched: "builds_reach t [] t"
| after_call: "builds_reach t history (tables s) \<Longrightarrow> saved s = None \<Longrightarrow>
    builds_reach t (history @ [(tables s, c)]) (tables (snd (run_state (run_call c) s)))"

text \<open>
  Property C15. Whatever sequence of Build operations runs (creating, editing, completing,
  archiving, adding, changing and removing requirements, allocating, pulling, disassembling,
  cancelling, releasing spares), with arguments in the range of a C++ \<open>int\<close> and whichever database
  statements fail on the way, the constraints of the schema hold, the inventory agrees with its
  ledger and every counter stays in its range when they did before. The manufacturer provenance of
  every Build agrees with what its requirements report as pulled as well, when it did before and no
  call of the sequence added a requirement that already reports pulled pieces or changed the
  effective part or color of a requirement with pulled pieces; the services accept both.
\<close>

theorem build_calls_keep_accounts:
  assumes "builds_reach t history t'" "ledgers t" "\<forall>(u, c)\<in>set history. call_in_range c"
  shows "ledgers t' \<and> (accounts t \<and> (\<forall>(u, c)\<in>set history. keeps_kinds u c) \<longrightarrow> accounts t')"
  using assms
proof (induction rule: builds_reach.induct)
  case (untouched t)
  then show ?case by simp
next
  case (after_call t history s c)
  have "ledgers (tables (snd (run_state (run_call c) s)))"
    by (rule call_keeps(1) [OF after_call.hyps(2)]) (use after_call body_ledgers in auto)
  moreover have "accounts (tables (snd (run_state (run_call c) s)))"
    if "accounts t" "\<forall>(u, c)\<in>set (history @ [(tables s, c)]). keeps_kinds u c"
    by (rule call_keeps(1) [OF after_call.hyps(2)]) (use that after_call body_accounts in auto)
  ultimately show ?case by blast
qed

theorem build_calls_keep_accounts_witness:
  "accounts (tables (snd (run_state (run_call (CompleteBuild 1)) (snd (run_state
     (run_call (RecordPulls [\<lparr>pull_allocation = 1, pull_quantity = 4\<rparr>])) (connect sample_progress))))))
   \<and> map bld_status (builds (tables (snd (run_state (run_call (CompleteBuild 1)) (snd (run_state
       (run_call (RecordPulls [\<lparr>pull_allocation = 1, pull_quantity = 4\<rparr>])) (connect sample_progress)))))))
     = [''Complete'', ''Complete'']"
proof
  let ?pull = "RecordPulls [\<lparr>pull_allocation = 1, pull_quantity = 4\<rparr>]"
  let ?s = "snd (run_state (run_call ?pull) (connect sample_progress))"
  have "builds_reach sample_progress ([] @ [(sample_progress, ?pull)]) (tables ?s)"
    using after_call [OF builds_reach.untouched, of "connect sample_progress" ?pull] by simp
  moreover have "saved ?s = None" by (rule call_keeps(2) [where P = "\<lambda>t. True"]) simp_all
  ultimately have "builds_reach sample_progress (([] @ [(sample_progress, ?pull)]) @ [(tables ?s, CompleteBuild 1)])
      (tables (snd (run_state (run_call (CompleteBuild 1)) ?s)))"
    by (rule after_call)
  from build_calls_keep_accounts [OF this agree_ledgers [OF accounts_sample_progress]] accounts_sample_progress
  show "accounts (tables (snd (run_state (run_call (CompleteBuild 1)) ?s)))" by simp
  show "map bld_status (builds (tables (snd (run_state (run_call (CompleteBuild 1)) ?s))))
     = [''Complete'', ''Complete'']" by code_simp
qed

end
