(* ===== verification/BuildAllocations.thy ===== *)
theory BuildAllocations
  imports BuildPlanning
begin

text \<open>
  Allocations stay within their bounds. As long as no database statement fails, the services never
  allocate more of a record than it holds, nor more for a requirement than it still needs. (A
  failing statement can break this: the sums of allocations read as zero then.)
\<close>

section \<open>What is claimed of records and for requirements\<close>

definition claimed :: "(int \<Rightarrow> int \<Rightarrow> bool) \<Rightarrow> tables \<Rightarrow> int" where
  "claimed Q t = allocated (\<lambda>a. Q (alloc_requirement a) (alloc_inventory a)) t"

definition planned :: "tables \<Rightarrow> bool" where
  "planned t \<longleftrightarrow>
     (\<forall>r\<in>set (requirements t). 0 < req_id r \<longrightarrow>
        req_pulled r + claimed (\<lambda>i j. i = req_id r) t \<le> req_required r)
     \<and> (\<forall>j. claimed (\<lambda>i j'. j' = j) t \<le> on_hand j t)"

lemma plannedD:
  "planned t \<Longrightarrow> r \<in> set (requirements t) \<Longrightarrow> 0 < req_id r \<Longrightarrow>
   req_pulled r + claimed (\<lambda>i j. i = req_id r) t \<le> req_required r"
  "planned t \<Longrightarrow> claimed (\<lambda>i j'. j' = j) t \<le> on_hand j t"
  by (simp_all add: planned_def)

lemma planned_cong:
  assumes "planned t" "requirements t' = requirements t" "allocations t' = allocations t"
    "inventory t' = inventory t"
  shows "planned t'"
  using assms by (simp add: planned_def claimed_def allocated_def on_hand_def)

lemma claimed_reserved: "claimed Q t = reserved (\<lambda>(b, i, j). Q i j) t"
  by (simp add: claimed_def reserved_def allocation_key_def)

lemma claimed_cong: "allocations t' = allocations t \<Longrightarrow> claimed Q t' = claimed Q t"
  by (simp add: claimed_def allocated_def)

lemma sum_where_split:
  "sum_where q P xs = sum_where q (\<lambda>x. P x \<and> K x) xs + sum_where q (\<lambda>x. P x \<and> \<not> K x) xs"
  by (induction xs) auto

lemma claimed_filter:
  assumes "allocations t' = filter K (allocations t)" "constraints t"
  shows "claimed Q t' \<le> claimed Q t"
proof -
  have "claimed Q t = sum_where alloc_quantity (\<lambda>a. Q (alloc_requirement a) (alloc_inventory a) \<and> K a) (allocations t)
      + sum_where alloc_quantity (\<lambda>a. Q (alloc_requirement a) (alloc_inventory a) \<and> \<not> K a) (allocations t)"
    unfolding claimed_def allocated_def by (rule sum_where_split)
  moreover have "0 \<le> sum_where alloc_quantity (\<lambda>a. Q (alloc_requirement a) (alloc_inventory a) \<and> \<not> K a) (allocations t)"
    using constraints_allocation_pos [OF assms(2)] by (intro sum_where_nonneg) (auto intro: less_imp_le)
  ultimately show ?thesis using assms(1) by (simp add: claimed_def allocated_def)
qed

lemma planned_mono:
  assumes "planned t"
    "\<And>r'. r' \<in> set (requirements t') \<Longrightarrow> \<exists>r\<in>set (requirements t). req_id r = req_id r'
      \<and> req_required r \<le> req_required r' \<and> req_pulled r' \<le> req_pulled r"
    "\<And>Q. claimed Q t' \<le> claimed Q t" "\<And>j. on_hand j t \<le> on_hand j t'"
  shows "planned t'"
  unfolding planned_def
proof (intro conjI ballI impI allI)
  fix r' assume r': "r' \<in> set (requirements t')" "0 < req_id r'"
  with assms(2) obtain r where r: "r \<in> set (requirements t)" "req_id r = req_id r'"
    "req_required r \<le> req_required r'" "req_pulled r' \<le> req_pulled r" by blast
  have "req_pulled r + claimed (\<lambda>i j. i = req_id r) t \<le> req_required r"
    by (rule plannedD(1) [OF assms(1) r(1)]) (simp add: r(2) r'(2))
  moreover have "claimed (\<lambda>i j. i = req_id r) t' \<le> claimed (\<lambda>i j. i = req_id r) t" by (rule assms(3))
  ultimately show "req_pulled r' + claimed (\<lambda>i j. i = req_id r') t' \<le> req_required r'"
    using r(2-4) by simp
next
  fix j
  have "claimed (\<lambda>i j'. j' = j) t' \<le> claimed (\<lambda>i j'. j' = j) t" by (rule assms(3))
  also have "\<dots> \<le> on_hand j t" using assms(1) by (simp add: planned_def)
  also have "\<dots> \<le> on_hand j t'" by (rule assms(4))
  finally show "claimed (\<lambda>i j'. j' = j) t' \<le> on_hand j t'" .
qed

lemma planned_when_builds:
  assumes "stays only_builds m" "run_state m s = (r, s')" "planned (tables s)"
  shows "planned (tables s')"
  using only_builds_fields [OF staysD [OF assms(1,2)]] by (intro planned_cong [OF assms(3)]) simp_all

section \<open>Requirements\<close>

lemma allocation_refers:
  "constraints t \<Longrightarrow> a \<in> set (allocations t) \<Longrightarrow>
   alloc_requirement a = 0 \<or> alloc_requirement a \<in> req_id ` set (requirements t)"
  by (auto simp: constraints_def allocation_constraints_def refers_or_null_def)

lemma add_requirement_planned:
  assumes "run_state (add_requirement_in_current_transaction r) s = (Inr x, s')" "agree d (tables s)"
    "planned (tables s)" "req_pulled r \<le> req_required r"
  shows "planned (tables s')"
proof -
  obtain s2 y where t: "tables s2 = tables s" and y: "run_state (requirement_create r) s2 = (Some y, s')"
    by (rule add_requirement_writes [OF assms(1)])
  let ?i = "seq_requirement (tables s) + 1"
  have w: "tables s' = snd (insert_requirement (bound_requirement r) (tables s))" "constraints (tables s')"
    "0 < req_required r"
    using y t by (auto simp: requirement_create_def requirement_fields_ok_def run_simps split: if_splits)
  have same: "claimed Q (tables s') = claimed Q (tables s)" "on_hand j (tables s') = on_hand j (tables s)" for Q j
    by (simp_all add: w(1) claimed_def allocated_def on_hand_def insert_requirement_def Let_def)
  have reqs: "requirements (tables s') = requirements (tables s) @ [put_req_id ?i (bound_requirement r)]"
    by (simp add: w(1) insert_requirement_def Let_def)
  have "?i \<notin> req_id ` set (requirements (tables s))"
    using constraints_requirement_keys [OF w(2)] by (simp add: reqs put_req_id_def)
  moreover have "alloc_requirement a = 0 \<or> alloc_requirement a \<in> req_id ` set (requirements (tables s))"
    if "a \<in> set (allocations (tables s))" for a
    using allocation_refers [OF accountsD(4) [OF assms(2)] that] .
  ultimately have "alloc_requirement a \<noteq> ?i" if "0 < ?i" "a \<in> set (allocations (tables s))" for a
    using that by (metis less_irrefl)
  then have "claimed (\<lambda>i j. i = ?i) (tables s) = 0" if "0 < ?i"
    using that unfolding claimed_def allocated_def by (intro sum_where_none) blast
  with assms(3,4) w(3) same show ?thesis
    by (auto simp: planned_def reqs put_req_id_def)
qed

lemma requirement_update_planned:
  assumes "run_state (requirement_update r') s = (True, s')" "planned (tables s)"
    "0 < req_id r' \<Longrightarrow> req_pulled r' + claimed (\<lambda>i j. i = req_id r') (tables s) \<le> req_required r'"
  shows "planned (tables s')"
proof -
  note w = requirement_update_success(1) [OF assms(1)]
  have "claimed Q (tables s') = claimed Q (tables s)" "on_hand j (tables s') = on_hand j (tables s)" for Q j
    by (simp_all add: w claimed_def allocated_def on_hand_def)
  with assms(2,3) show ?thesis
    by (auto simp: planned_def w update_requirements_def set_update_where)
qed

lemma edit_requirement_planned:
  assumes "run_state (edit_requirement_in_current_transaction i p c q spare) s = (Inr x, s')"
    "agree d (tables s)" "planned (tables s)" "faults s = []"
  shows "planned (tables s')"
proof -
  obtain r b n u where e: "find (\<lambda>r. req_id r = i) (requirements (tables s)) = Some r"
    "int32 (req_pulled r + n) \<le> q" "tables u = tables s"
    "faults s = [] \<Longrightarrow> n = allocated (\<lambda>a. alloc_requirement a = i) (tables s) \<and> faults u = []"
    "run_state (store_edited_requirement r p c q spare) u = (Inr x, s')"
    by (rule edit_requirement_success [OF assms(1)]) (rule that, assumption+)
  have r: "r \<in> set (requirements (tables s))" "req_id r = i" using e(1) by (auto dest: req.lookup_SomeD)
  have n: "n = claimed (\<lambda>k j. k = i) (tables s)" using e(4) assms(4) by (simp add: claimed_def)
  have nonneg: "0 \<le> n" using accountsD(4) [OF assms(2)] unfolding n claimed_def allocated_def
    by (intro sum_where_nonneg) (auto dest: constraints_allocation_pos intro: less_imp_le)
  have fits: "req_pulled r + n \<le> q" if "0 < i"
  proof -
    have "req_pulled r + n \<le> req_required r" using assms(3) r that by (auto simp: planned_def n)
    with requirement_quantities [OF assms(2) r(1)] nonneg have "int32 (req_pulled r + n) = req_pulled r + n"
      by (intro int32_id) (simp add: int_range_def)
    with e(2) show ?thesis by simp
  qed
  show ?thesis
  proof (cases "\<not> identity_changes r p c \<and> q = req_required r \<and> spare = req_spare r")
    case True
    with e(3,5) assms(3) show ?thesis by (auto simp: store_edited_requirement_def run_simps)
  next
    case False
    with e(5) have "run_state (requirement_update (edited_requirement r p c q spare)) u = (True, s')"
      by (auto simp: store_edited_requirement_def run_simps split: if_splits prod.splits)
    then show ?thesis
      by (rule requirement_update_planned) (use e(3) assms(3) fits n r in simp_all)
  qed
qed

lemma remove_requirement_planned:
  assumes "run_state (remove_requirement_in_current_transaction i) s = (Inr x, s')" "planned (tables s)"
  shows "planned (tables s')"
proof -
  obtain u where "tables u = tables s" "run_state (requirement_remove i) u = (True, s')"
    by (rule remove_requirement_success [OF assms(1)]) (rule that, assumption+)
  then have "tables s' = snd (delete_requirements (\<lambda>r. req_id r = i) (tables s))"
    by (auto simp: requirement_remove_def run_simps split: if_splits)
  with assms(2) show ?thesis
    by (intro planned_mono [OF assms(2)]) (auto simp: delete_requirements_def claimed_def allocated_def on_hand_def)
qed

section \<open>Replacing the allocations of a requirement\<close>

text \<open>The checks, when no statement fails: they leave the session alone and mean what they say.\<close>

lemma check_candidates_quiet:
  assumes "run_state (check_candidates b r as seen n) s = (Inr tot, s')" "faults s = []"
  shows "s' = s \<and> tot = n + sum_list (map alloc_quantity as)
    \<and> (\<forall>a\<in>set as. 0 < alloc_quantity a \<and> 0 < alloc_inventory a) \<and> distinct (map alloc_inventory as)
    \<and> alloc_inventory ` set as \<inter> set seen = {}"
  using assms(1)
proof (induction as arbitrary: seen n)
  case Nil
  then show ?case by (simp add: run_simps)
next
  case (Cons a as)
  from Cons.prems assms(2) obtain x where
    "0 < alloc_quantity a" "0 < alloc_inventory a" "alloc_inventory a \<notin> set seen"
    "run_state (check_candidates b r as (alloc_inventory a # seen) (n + alloc_quantity a)) s = (Inr tot, s')"
    by (auto simp: run_simps quiet_runs split: if_splits option.splits)
  with Cons.IH [OF this(4)] show ?case by auto
qed

lemma sum_where_insort: "sum_where q P (insort_key f x xs) = sum_where q P (x # xs)"
  by (induction xs) auto

lemma sum_where_sort [simp]: "sum_where q P (sort_key f xs) = sum_where q P xs"
  by (induction xs) (simp_all add: sum_where_insort)

lemma check_available_quiet:
  assumes "run_state (check_available i as) s = (None, s')" "faults s = []"
    "\<forall>a\<in>set as. 0 < alloc_inventory a"
  shows "s' = s \<and> (\<forall>a\<in>set as. \<exists>x. find (\<lambda>y. inv_id y = alloc_inventory a) (inventory (tables s)) = Some x
    \<and> alloc_quantity a \<le> inv_quantity x - (claimed (\<lambda>k j. j = alloc_inventory a) (tables s)
        - claimed (\<lambda>k j. k = i \<and> j = alloc_inventory a) (tables s)))"
  using assms(1,3)
proof (induction as)
  case Nil
  then show ?case by (simp add: run_simps)
next
  case (Cons a as)
  have own: "run_state (allocation_get_by_inventory (alloc_inventory a)) s = (sort_key alloc_build
      (filter (\<lambda>y. alloc_inventory y = alloc_inventory a) (allocations (tables s))), s)"
    using Cons.prems(2) assms(2) by (simp add: allocation_get_by_inventory_def run_simps)
  have sum: "sum_where alloc_quantity (\<lambda>y. alloc_requirement y = i) (sort_key alloc_build
      (filter (\<lambda>y. alloc_inventory y = alloc_inventory a) (allocations (tables s))))
      = claimed (\<lambda>k j. k = i \<and> j = alloc_inventory a) (tables s)"
    by (simp add: claimed_def allocated_def)
  from Cons.prems assms(2) obtain x where x:
    "find (\<lambda>y. inv_id y = alloc_inventory a) (inventory (tables s)) = Some x"
    "alloc_quantity a \<le> inv_quantity x - max0 (claimed (\<lambda>k j. j = alloc_inventory a) (tables s)
        - claimed (\<lambda>k j. k = i \<and> j = alloc_inventory a) (tables s))"
    and rest: "run_state (check_available i as) s = (None, s')"
    by (auto simp: run_simps quiet_runs own sum claimed_def
        allocated_def split: if_splits option.splits)
  have "alloc_quantity a \<le> inv_quantity x - (claimed (\<lambda>k j. j = alloc_inventory a) (tables s)
        - claimed (\<lambda>k j. k = i \<and> j = alloc_inventory a) (tables s))"
    using x(2) by (simp add: max0_def)
  with x(1) Cons.IH [OF rest] Cons.prems(2) show ?case by auto
qed

text \<open>The new rows add what they say for the requirement and its records.\<close>

lemma create_candidates_claims:
  assumes "run_state (create_candidates r as) s = (Inr cs, s')" "faults s = []" "0 < req_id r"
  shows "claimed Q (tables s') = claimed Q (tables s)
      + sum_where alloc_quantity (\<lambda>a. Q (req_id r) (alloc_inventory a)) as"
  using assms(1,2)
proof (induction as arbitrary: s cs)
  case Nil
  then show ?case by (simp add: run_simps)
next
  case (Cons a as)
  from Cons.prems obtain x c s1 cs' where
    stored: "run_state (allocation_create (candidate_for r x a)) s = (Some c, s1)" and
    rest: "run_state (create_candidates r as) s1 = (Inr cs', s')"
    by (auto simp: run_simps quiet_runs split: option.splits prod.splits sum.splits)
  from stored Cons.prems(2) have "tables s1 = snd (insert_allocation (bound_allocation (candidate_for r x a)) (tables s))"
    "faults s1 = []"
    by (auto simp: allocation_create_def run_simps split: if_splits)
  moreover from this have "claimed Q (tables s1) = claimed Q (tables s)
      + (if Q (req_id r) (alloc_inventory a) then alloc_quantity a else 0)"
    using assms(3) by (simp add: claimed_def allocated_def insert_allocation_def Let_def put_alloc_id_def
        candidate_for_def bound_allocation_def nullable_def)
  ultimately show ?case using Cons.IH [OF rest] by simp
qed

lemma sum_where_one:
  "distinct (map k as) \<Longrightarrow> a \<in> set as \<Longrightarrow> sum_where q (\<lambda>x. k x = k a) as = q a"
proof (induction as)
  case (Cons b as)
  have "sum_where q (\<lambda>x. k x = k b) as = 0" using Cons.prems(1) by (intro sum_where_none) (metis distinct.simps(2) imageI list.simps(9) set_map)
  with Cons show ?case by auto
qed simp

lemma replace_planned:
  assumes "run_state (replace_for_requirement_in_current_transaction i as) s = (Inr cs, s')"
    "agree d (tables s)" "planned (tables s)" "faults s = []"
  shows "planned (tables s')"
proof -
  let ?t = "tables s"
  from assms(1,4) obtain r where i: "0 < i" and
    r: "find (\<lambda>r. req_id r = i) (requirements ?t) = Some r" "\<not> 0 < req_pulled r"
    by (auto simp: replace_for_requirement_in_current_transaction_def run_simps quiet_runs
        split: if_splits option.splits)
  with assms(1,4) obtain b where b: "find (\<lambda>b. bld_id b = req_build r) (builds ?t) = Some b"
    by (auto simp: replace_for_requirement_in_current_transaction_def run_simps quiet_runs
        split: if_splits option.splits)
  from assms(1,4) i r b obtain tot s1 where
    c: "run_state (check_candidates b r as [] 0) s = (Inr tot, s1)"
    by (auto simp: replace_for_requirement_in_current_transaction_def run_simps quiet_runs
        split: if_splits option.splits sum.splits prod.splits)
  note cand = check_candidates_quiet [OF c assms(4)]
  from assms(1,4) i r b c cand obtain s2 where
    v: "run_state (check_available i as) s = (None, s2)" and
    tot: "tot \<le> max0 (req_required r - req_pulled r)"
    by (auto simp: replace_for_requirement_in_current_transaction_def run_simps quiet_runs
        split: if_splits option.splits prod.splits)
  from v assms(4) cand have avail: "\<forall>a\<in>set as. \<exists>x. find (\<lambda>y. inv_id y = alloc_inventory a) (inventory ?t) = Some x
    \<and> alloc_quantity a \<le> inv_quantity x - (claimed (\<lambda>k j. j = alloc_inventory a) ?t
        - claimed (\<lambda>k j. k = i \<and> j = alloc_inventory a) ?t)" "s2 = s"
    using check_available_quiet [OF v assms(4)] by auto
  from assms(1,4) i r b c cand v avail(2) tot obtain s3 where
    cleared: "run_state (allocation_remove_all_for_requirement i) s = (True, s3)" and
    created: "run_state (create_candidates r as) s3 = (Inr cs, s')"
    by (auto simp: replace_for_requirement_in_current_transaction_def run_simps quiet_runs
        split: if_splits option.splits prod.splits)
  from cleared i assms(4) have t3: "tables s3 = snd (delete_allocations (\<lambda>a. alloc_requirement a = i) ?t)"
    "faults s3 = []"
    by (auto simp: allocation_remove_all_for_requirement_def run_simps split: if_splits)
  have rr: "r \<in> set (requirements ?t)" "req_id r = i" using r(1) by (auto dest: req.lookup_SomeD)
  have "0 < req_id r" using i rr by simp
  note claims = create_candidates_claims [OF created t3(2) this, unfolded rr(2)]
  have gone: "claimed Q (tables s3) = claimed (\<lambda>k j. Q k j \<and> k \<noteq> i) ?t" for Q
    by (simp add: claimed_def allocated_def t3(1) delete_allocations_def)
  note frame = only_allocations_fields [OF staysD [OF stays_allocation_services(1) assms(1)]]
  have total: "sum_where alloc_quantity (\<lambda>a. True) as = tot"
    using cand by (simp add: sum_where_def)
  show ?thesis
    unfolding planned_def
  proof (intro conjI ballI impI allI)
    fix y assume y: "y \<in> set (requirements (tables s'))" "0 < req_id y"
    then have y': "y \<in> set (requirements ?t)" using frame by simp
    show "req_pulled y + claimed (\<lambda>k j. k = req_id y) (tables s') \<le> req_required y"
    proof (cases "req_id y = i")
      case True
      then have "y = r" using rr y' constraints_requirement_keys [OF accountsD(4) [OF assms(2)]]
        by (auto simp: distinct_map inj_on_def)
      moreover have "claimed (\<lambda>k j. k = i) (tables s') = tot"
        by (simp add: claims gone total) (simp add: claimed_def allocated_def sum_where_none)
      moreover have "req_pulled r = 0" "0 < req_required r"
        using requirement_quantities [OF assms(2) rr(1)] r(2) by simp_all
      ultimately show ?thesis using tot rr(2) by (simp add: max0_def)
    next
      case False
      then have "claimed (\<lambda>k j. k = req_id y) (tables s') = claimed (\<lambda>k j. k = req_id y) ?t"
        by (simp add: claims gone sum_where_none)
          (simp add: claimed_def allocated_def, rule sum_where_cong, auto)
      with plannedD(1) [OF assms(3) y' y(2)] show ?thesis by simp
    qed
  next
    fix j
    have split: "claimed (\<lambda>k j'. j' = j) ?t = claimed (\<lambda>k j'. j' = j \<and> k \<noteq> i) ?t + claimed (\<lambda>k j'. k = i \<and> j' = j) ?t"
      unfolding claimed_def allocated_def
      by (subst sum_where_split [where K = "\<lambda>a. alloc_requirement a \<noteq> i"]) (simp add: conj_commute)
    have own: "0 \<le> claimed (\<lambda>k j'. k = i \<and> j' = j) ?t"
      using accountsD(4) [OF assms(2)] unfolding claimed_def allocated_def
      by (intro sum_where_nonneg) (auto dest: constraints_allocation_pos intro: less_imp_le)
    have hand: "on_hand j (tables s') = on_hand j ?t" using frame by (simp add: on_hand_def)
    show "claimed (\<lambda>k j'. j' = j) (tables s') \<le> on_hand j (tables s')"
    proof (cases "j \<in> alloc_inventory ` set as")
      case True
      then obtain a where a: "a \<in> set as" "alloc_inventory a = j" by auto
      with avail(1) obtain x where x: "find (\<lambda>y. inv_id y = j) (inventory ?t) = Some x"
        "alloc_quantity a \<le> inv_quantity x - (claimed (\<lambda>k j'. j' = j) ?t - claimed (\<lambda>k j'. k = i \<and> j' = j) ?t)"
        by auto
      have "sum_where alloc_quantity (\<lambda>y. alloc_inventory y = alloc_inventory a) as = alloc_quantity a"
        using sum_where_one [of alloc_inventory as a] a(1) cand by simp
      with a(2) x split show ?thesis
        using on_hand_lookup [OF x(1) accountsD(4) [OF assms(2)]] by (simp add: hand claims gone)
    next
      case False
      then have "sum_where alloc_quantity (\<lambda>y. alloc_inventory y = j) as = 0"
        by (intro sum_where_none) auto
      with split own plannedD(2) [OF assms(3), of j] show ?thesis by (simp add: hand claims gone)
    qed
  qed
qed

section \<open>Allocating what is available\<close>

lemma claimed_nonneg: "constraints t \<Longrightarrow> 0 \<le> claimed Q t"
  unfolding claimed_def allocated_def
  by (intro sum_where_nonneg) (auto dest: constraints_allocation_pos intro: less_imp_le)

lemma claimed_member:
  assumes "constraints t" "a \<in> set (allocations t)"
  shows "alloc_quantity a \<le> claimed (\<lambda>i j. i = alloc_requirement a) t"
  unfolding claimed_def allocated_def
  by (rule sum_where_member_le [OF assms(2)])
    (use constraints_allocation_pos [OF assms(1)] in \<open>auto intro: less_imp_le\<close>)

text \<open>Storing more in an allocation adds the difference to what is claimed.\<close>

lemma claimed_more:
  assumes "run_state (allocation_update (a\<lparr>alloc_quantity := int32 (alloc_quantity a + n)\<rparr>)) s = (True, s')"
    "constraints (tables s)" "a \<in> set (allocations (tables s))" "0 < alloc_requirement a"
    "0 \<le> n" "claimed (\<lambda>i j. i = alloc_requirement a) (tables s) + n \<le> int_max"
  shows "claimed Q (tables s') = claimed Q (tables s)
      + (if Q (alloc_requirement a) (alloc_inventory a) then n else 0)"
proof -
  have "0 < alloc_quantity a" "alloc_quantity a + n \<le> int_max"
    using constraints_allocation_pos [OF assms(2,3)] claimed_member [OF assms(2,3)] assms(6) by simp_all
  with assms(5) have exact: "int32 (alloc_quantity a + n) = alloc_quantity a + n"
    by (intro int32_id) (simp add: int_range_def)
  have "find (\<lambda>x. alloc_id x = alloc_id a) (allocations (tables s)) = Some a"
    using alloc.lookup_unique [OF constraints_allocation_keys [OF assms(2)] assms(3)] by simp
  from reserved_update [OF this assms(2)] allocation_update_success [OF assms(1)] assms(4) exact
  show ?thesis by (simp add: claimed_reserved) (simp add: allocation_key_def)
qed

text \<open>What one requirement takes from one record, when no statement fails.\<close>

lemma take_from_record_cases:
  assumes "run_state (take_from_record b r x needed) s = (Inr add, s')" "faults s = []"
  obtains (nothing) "add = 0" "s' = s" |
    (more) a where "0 < req_id r" "a \<in> set (allocations (tables s))"
      "alloc_requirement a = req_id r" "alloc_inventory a = inv_id x"
      "add = min needed (max0 (inv_quantity x - claimed (\<lambda>i j. j = inv_id x) (tables s)))"
      "run_state (allocation_update (a\<lparr>alloc_quantity := int32 (alloc_quantity a + add)\<rparr>)) s = (True, s')" |
    (new) a y where "0 < inv_id x"
      "add = min needed (max0 (inv_quantity x - claimed (\<lambda>i j. j = inv_id x) (tables s)))"
      "alloc_requirement a = req_id r" "alloc_inventory a = inv_id x" "alloc_quantity a = add"
      "run_state (allocation_create a) s = (Some y, s')"
proof -
  let ?n = "if inv_id x \<le> 0 then 0 else claimed (\<lambda>i j. j = inv_id x) (tables s)"
  let ?add = "min needed (max0 (inv_quantity x - ?n))"
  let ?cur = "if req_id r \<le> 0 then [] else sort_key (\<lambda>a. (alloc_storage a, alloc_inventory a))
      (filter (\<lambda>a. alloc_requirement a = req_id r) (allocations (tables s)))"
  have n: "run_state (total_allocated_for_inventory (inv_id x)) s = (?n, s)"
    by (simp add: quiet_runs assms(2) claimed_def)
  have cur: "run_state (allocation_get_by_requirement (req_id r)) s = (?cur, s)"
    using assms(2) by (simp add: allocation_get_by_requirement_def run_simps)
  show thesis
  proof (cases "?add = 0")
    case True
    with assms(1) n have "add = 0" "s' = s" by (auto simp: take_from_record_def run_simps Let_def)
    then show thesis by (rule nothing)
  next
    case False
    show thesis
    proof (cases "find (\<lambda>a. alloc_inventory a = inv_id x) ?cur")
      case (Some a)
      then have a: "0 < req_id r" "a \<in> set (allocations (tables s))"
        "alloc_requirement a = req_id r" "alloc_inventory a = inv_id x"
        by (auto dest!: find_SomeD split: if_splits)
      from assms(1) n cur False Some have w: "add = ?add"
        "run_state (allocation_update (a\<lparr>alloc_quantity := int32 (alloc_quantity a + add)\<rparr>)) s = (True, s')"
        by (auto simp: take_from_record_def run_simps Let_def split: if_splits prod.splits)
      from w(2) a(4) have "0 < inv_id x"
        by (auto simp: allocation_update_def allocation_fields_ok_def run_simps split: if_splits)
      with a w more show thesis by simp
    next
      case None
      let ?a = "\<lparr>alloc_id = 0, alloc_build = bld_id b, alloc_requirement = req_id r,
        alloc_inventory = inv_id x, alloc_part = effective_part r, alloc_color = effective_color r,
        alloc_storage = inv_storage x, alloc_quantity = ?add\<rparr>"
      from assms(1) n cur False None obtain y where w: "add = ?add"
        "run_state (allocation_create ?a) s = (Some y, s')"
        by (auto simp: take_from_record_def run_simps Let_def split: if_splits prod.splits)
      from w(2) have "0 < inv_id x"
        by (auto simp: allocation_create_def allocation_fields_ok_def run_simps split: if_splits)
      with w new [of ?a y] show thesis by simp
    qed
  qed
qed

lemma take_from_record_quiet:
  assumes "run_state (take_from_record b r x needed) s = (Inr add, s')" "faults s = []"
    "agree d (tables s)" "planned (tables s)" "0 \<le> needed"
    "r \<in> set (requirements (tables s))" "find (\<lambda>y. inv_id y = inv_id x) (inventory (tables s)) = Some x"
    "0 < req_id r \<Longrightarrow> req_pulled r + claimed (\<lambda>i j. i = req_id r) (tables s) + needed \<le> req_required r"
  shows "faults s' = []" "0 \<le> add" "add \<le> needed"
    "claimed (\<lambda>i j. j = inv_id x) (tables s) + add \<le> on_hand (inv_id x) (tables s)"
    "claimed Q (tables s') = claimed Q (tables s) + (if Q (nullable (req_id r)) (inv_id x) then add else 0)"
proof -
  let ?t = "tables s"
  note c = accountsD(4) [OF assms(3)]
  have room: "claimed (\<lambda>i j. j = inv_id x) ?t \<le> inv_quantity x" "on_hand (inv_id x) ?t = inv_quantity x"
    using plannedD(2) [OF assms(4), of "inv_id x"] on_hand_lookup [OF assms(7) c] by simp_all
  have "faults s' = [] \<and> 0 \<le> add \<and> add \<le> needed
    \<and> claimed (\<lambda>i j. j = inv_id x) ?t + add \<le> on_hand (inv_id x) ?t
    \<and> claimed Q (tables s') = claimed Q ?t + (if Q (nullable (req_id r)) (inv_id x) then add else 0)"
    using assms(1,2)
  proof (cases rule: take_from_record_cases)
    case nothing
    then show ?thesis using assms(2,5) room by simp
  next
    case (more a)
    have add: "0 \<le> add" "add \<le> needed" "claimed (\<lambda>i j. j = inv_id x) ?t + add \<le> inv_quantity x"
      using more(5) assms(5) room by (auto simp: max0_def)
    have "claimed (\<lambda>i j. i = alloc_requirement a) ?t + add \<le> int_max"
      using assms(8) more(1,3) add(2) requirement_quantities [OF assms(3,6)] by simp
    from claimed_more [OF more(6) c more(2) _ add(1) this, of Q] more(1,3,4)
    have "claimed Q (tables s') = claimed Q ?t + (if Q (nullable (req_id r)) (inv_id x) then add else 0)"
      by (simp add: nullable_def)
    moreover have "faults s' = []"
      using more(6) assms(2) by (auto simp: allocation_update_def run_simps split: if_splits)
    ultimately show ?thesis using add room by simp
  next
    case (new a y)
    have add: "0 \<le> add" "add \<le> needed" "claimed (\<lambda>i j. j = inv_id x) ?t + add \<le> inv_quantity x"
      using new(2) assms(5) room by (auto simp: max0_def)
    have "tables s' = snd (insert_allocation (bound_allocation a) ?t)" "faults s' = []"
      using new(6) assms(2) by (auto simp: allocation_create_def run_simps split: if_splits)
    moreover from this new have "claimed Q (tables s') = claimed Q ?t
        + (if Q (nullable (req_id r)) (inv_id x) then add else 0)"
      by (simp add: claimed_def allocated_def insert_allocation_def Let_def put_alloc_id_def
          bound_allocation_def)
    ultimately show ?thesis using add room by simp
  qed
  then show "faults s' = []" "0 \<le> add" "add \<le> needed"
    "claimed (\<lambda>i j. j = inv_id x) (tables s) + add \<le> on_hand (inv_id x) (tables s)"
    "claimed Q (tables s') = claimed Q (tables s) + (if Q (nullable (req_id r)) (inv_id x) then add else 0)"
    by blast+
qed

lemma allocation_key_unique:
  "constraints t \<Longrightarrow> r \<in> set (requirements t) \<Longrightarrow> y \<in> set (requirements t) \<Longrightarrow> req_id y = req_id r \<Longrightarrow> y = r"
  using constraints_requirement_keys by (auto simp: distinct_map inj_on_def)

lemma take_from_record_frame [stays_rules]: "stays only_allocations (take_from_record b r x needed)"
  by (auto simp: take_from_record_def Let_def intro!: stays_rules)

lemma take_from_record_valid [valid_rules]: "keeps_valid (take_from_record b r x needed)"
  by (auto simp: take_from_record_def Let_def intro!: valid_rules)

text \<open>What is left to claim for a requirement.\<close>

definition filling :: "requirement_row \<Rightarrow> int \<Rightarrow> tables \<Rightarrow> bool" where
  "filling r needed t \<longleftrightarrow> 0 \<le> needed \<and> r \<in> set (requirements t)
     \<and> (0 < req_id r \<longrightarrow> req_pulled r + claimed (\<lambda>i j. i = req_id r) t + needed \<le> req_required r)"

lemma take_from_record_planned:
  assumes "run_state (take_from_record b r x needed) s = (Inr add, s')" "faults s = []"
    "agree d (tables s)" "planned (tables s)" "filling r needed (tables s)"
    "find (\<lambda>y. inv_id y = inv_id x) (inventory (tables s)) = Some x"
  shows "faults s' = []" "agree d (tables s')" "planned (tables s')"
    "filling r (needed - add) (tables s')" "only_allocations (tables s) (tables s')"
proof -
  have fill: "0 \<le> needed" "r \<in> set (requirements (tables s))"
    "0 < req_id r \<Longrightarrow> req_pulled r + claimed (\<lambda>i j. i = req_id r) (tables s) + needed \<le> req_required r"
    using assms(5) by (simp_all add: filling_def)
  note t = take_from_record_quiet [OF assms(1-4) fill(1,2) assms(6) fill(3)]
  show "faults s' = []" by (rule t(1))
  show "agree d (tables s')"
    by (rule accounts_when_allocations [OF take_from_record_frame take_from_record_valid assms(1,3)])
  show only: "only_allocations (tables s) (tables s')"
    by (rule staysD [OF take_from_record_frame assms(1)])
  note frame = only_allocations_fields [OF only]
  show "filling r (needed - add) (tables s')"
    using fill t(2,3) t(5) [of "\<lambda>i j. i = req_id r"] frame
    by (auto simp: filling_def nullable_def)
  show "planned (tables s')"
    unfolding planned_def
  proof (intro conjI ballI impI allI)
    fix y assume y: "y \<in> set (requirements (tables s'))" "0 < req_id y"
    then have old: "y \<in> set (requirements (tables s))" using frame by simp
    show "req_pulled y + claimed (\<lambda>i j. i = req_id y) (tables s') \<le> req_required y"
    proof (cases "req_id y = req_id r")
      case True
      then have "y = r" using allocation_key_unique [OF accountsD(4) [OF assms(3)] fill(2) old] by simp
      then show ?thesis using y(2) fill(3) t(3) t(5) [of "\<lambda>i j. i = req_id r"] by (auto simp: nullable_def)
    next
      case False
      then have "nullable (req_id r) \<noteq> req_id y" using y(2) by (auto simp: nullable_def)
      then show ?thesis using plannedD(1) [OF assms(4) old y(2)] by (simp add: t(5))
    qed
  next
    fix j
    show "claimed (\<lambda>i j'. j' = j) (tables s') \<le> on_hand j (tables s')"
      using plannedD(2) [OF assms(4), of j] t(4) frame by (auto simp: t(5) on_hand_def)
  qed
qed

lemma take_from_records_planned:
  assumes "run_state (take_from_records b r xs needed added) s = (Inr n, s')" "faults s = []"
    "agree d (tables s)" "planned (tables s)" "filling r needed (tables s)"
    "\<forall>x\<in>set xs. find (\<lambda>y. inv_id y = inv_id x) (inventory (tables s)) = Some x"
  shows "faults s' = [] \<and> agree d (tables s') \<and> planned (tables s')"
  using assms
proof (induction xs arbitrary: s needed added)
  case Nil
  then show ?case by (simp add: run_simps)
next
  case (Cons x xs)
  show ?case
  proof (cases "needed = 0")
    case True
    with Cons.prems show ?thesis by (simp add: run_simps)
  next
    case False
    with Cons.prems(1) obtain add s1 where
      one: "run_state (take_from_record b r x needed) s = (Inr add, s1)" and
      rest: "run_state (take_from_records b r xs (needed - add) (int32 (added + add))) s1 = (Inr n, s')"
      by (auto simp: run_simps split: sum.splits prod.splits)
    have "find (\<lambda>y. inv_id y = inv_id x) (inventory (tables s)) = Some x" using Cons.prems(6) by simp
    note t = take_from_record_planned [OF one Cons.prems(2-5) this]
    show ?thesis
      by (rule Cons.IH [OF rest t(1-4)]) (use only_allocations_fields [OF t(5)] Cons.prems(6) in simp)
  qed
qed

lemma allocate_requirement_planned:
  assumes "run_state (allocate_requirement b preferred r added) s = (Inr n, s')" "faults s = []"
    "agree d (tables s)" "planned (tables s)" "r \<in> set (requirements (tables s))"
  shows "faults s' = [] \<and> agree d (tables s') \<and> planned (tables s')"
proof -
  let ?c = "if req_id r \<le> 0 then 0 else claimed (\<lambda>i j. i = req_id r) (tables s)"
  let ?needed = "max0 (int32 (req_required r - req_pulled r - ?c))"
  have total: "run_state (total_allocated_for_requirement (req_id r)) s = (?c, s)"
    by (simp add: quiet_runs assms(2) claimed_def)
  note rq = requirement_quantities [OF assms(3,5)]
  note c = accountsD(4) [OF assms(3)]
  show ?thesis
  proof (cases "req_spare r \<or> ?needed = 0")
    case True
    with assms(1) total have "s' = s"
      by (cases "req_spare r") (simp_all add: allocate_requirement_def run_simps Let_def)
    with assms show ?thesis by simp
  next
    case False
    have bound: "req_pulled r + ?c \<le> req_required r" if "0 < req_id r"
      using plannedD(1) [OF assms(4,5) that] that by simp
    have filling: "filling r ?needed (tables s)"
    proof (cases "0 < req_id r")
      case True
      with bound rq claimed_nonneg [OF c, of "\<lambda>i j. i = req_id r"]
      have "int32 (req_required r - req_pulled r - ?c) = req_required r - req_pulled r - ?c"
        by (intro int32_id) (simp add: int_range_def)
      with True bound assms(5) show ?thesis by (simp add: filling_def max0_def)
    next
      case False
      then show ?thesis using assms(5) by (simp add: filling_def max0_def)
    qed
    obtain xs where xs: "run_state (inventory_get_by_part_color (bld_workspace b) (effective_part r)
        (effective_color r)) s = (xs, s)" "set xs \<subseteq> set (inventory (tables s))"
    proof (cases "bld_workspace b \<le> 0 \<or> effective_part r \<le> 0 \<or> effective_color r \<le> 0")
      case True
      then show ?thesis by (intro that [of "[]"]) (auto simp: inventory_get_by_part_color_def run_simps)
    next
      case False
      show ?thesis by (rule that) (use False assms(2) in \<open>auto simp: inventory_get_by_part_color_def run_simps\<close>)
    qed
    have rest: "run_state (take_from_records b r (preferred_first preferred xs) ?needed added) s = (Inr n, s')"
      using assms(1) False total xs(1) by (simp add: allocate_requirement_def run_simps Let_def)
    show ?thesis
      by (rule take_from_records_planned [OF rest assms(2-4) filling])
        (use xs(2) inv.lookup_unique [OF constraints_inventory_keys [OF c]] in \<open>auto simp: preferred_first_def\<close>)
  qed
qed

lemma allocate_requirement_frame [stays_rules]: "stays only_allocations (allocate_requirement b preferred r added)"
  by (auto simp: allocate_requirement_def Let_def intro!: stays_rules)

lemma allocate_requirements_planned:
  assumes "run_state (allocate_requirements b preferred rs added) s = (Inr n, s')" "faults s = []"
    "agree d (tables s)" "planned (tables s)" "set rs \<subseteq> set (requirements (tables s))"
  shows "planned (tables s')"
  using assms
proof (induction rs arbitrary: s added)
  case Nil
  then show ?case by (simp add: run_simps)
next
  case (Cons r rs)
  then obtain m s1 where one: "run_state (allocate_requirement b preferred r added) s = (Inr m, s1)" and
    rest: "run_state (allocate_requirements b preferred rs m) s1 = (Inr n, s')"
    by (auto simp: run_simps split: sum.splits prod.splits)
  have "r \<in> set (requirements (tables s))" using Cons.prems(5) by simp
  note t = allocate_requirement_planned [OF one Cons.prems(2-4) this]
  show ?case
    by (rule Cons.IH [OF rest]) (use t Cons.prems(5) only_allocations_fields [OF staysD
        [OF allocate_requirement_frame one]] in auto)
qed

lemma allocate_available_planned:
  assumes "run_state (allocate_available_in_current_transaction i preferred) s = (Inr x, s')" "faults s = []"
    "agree d (tables s)" "planned (tables s)"
  shows "planned (tables s')"
proof -
  let ?rs = "requirements_of i (tables s)"
  have rs: "run_state (requirement_get_by_build i) s = (if i \<le> 0 then [] else ?rs, s)"
    using assms(2) by (simp add: requirement_get_by_build_def requirement_try_get_by_build_def run_simps)
  from assms(1,2) obtain b where b: "run_state (build_get i) s = (Some b, s)" "allocatable b" "0 < i"
    by (auto simp: allocate_available_in_current_transaction_def run_simps quiet_runs
        split: if_splits option.splits)
  with assms(1) rs obtain n s1 where
    all: "run_state (allocate_requirements b preferred ?rs 0) s = (Inr n, s1)" and
    final: "\<exists>as. run_state (allocation_get_by_build i) s1 = (as, s')"
    by (auto simp: allocate_available_in_current_transaction_def run_simps split: sum.splits prod.splits)
  have "planned (tables s1)"
    by (rule allocate_requirements_planned [OF all assms(2-4)]) (auto simp: requirements_of_def)
  with final after_reading [OF reads_allocation_get(3)] show ?thesis by fastforce
qed

section \<open>Pulling, returning and releasing\<close>

lemma apply_pull_planned:
  assumes "run_state (apply_pull i q) s = (Inr build, s')" "agree d (tables s)" "0 \<le> q" "planned (tables s)"
  shows "planned (tables s')"
proof -
  obtain a b r x where e:
    "find (\<lambda>y. req_id y = alloc_requirement a) (requirements (tables s)) = Some r"
    "find (\<lambda>y. inv_id y = alloc_inventory a) (inventory (tables s)) = Some x"
    "\<And>j. on_hand j (tables s') = on_hand j (tables s) - (if j = inv_id x then q else 0)"
    "\<And>Q. reserved Q (tables s') = reserved Q (tables s) - (if Q (allocation_key a) then q else 0)"
    "requirements (tables s') = update_where (\<lambda>y. req_id y = req_id r)
      (\<lambda>y. bound_requirement (r\<lparr>req_pulled := req_pulled r + q\<rparr>)) (requirements (tables s))"
    by (rule apply_pull_effect [OF assms(1) accountsD(4,5,2) [OF assms(2)] assms(3)]) (rule that, assumption+)
  have r: "r \<in> set (requirements (tables s))" "req_id r = alloc_requirement a" "inv_id x = alloc_inventory a"
    using e(1,2) by (auto dest: req.lookup_SomeD inv.lookup_SomeD)
  have claimed: "claimed Q (tables s') = claimed Q (tables s) - (if Q (req_id r) (inv_id x) then q else 0)" for Q
    by (simp add: claimed_reserved e(4) allocation_key_def r)
  show ?thesis
    unfolding planned_def
  proof (intro conjI ballI impI allI)
    fix y assume y: "y \<in> set (requirements (tables s'))" "0 < req_id y"
    then consider (same) "y \<in> set (requirements (tables s))" "req_id y \<noteq> req_id r" |
      (pulled) "y = bound_requirement (r\<lparr>req_pulled := req_pulled r + q\<rparr>)"
      by (auto simp: e(5) set_update_where)
    then show "req_pulled y + claimed (\<lambda>i j. i = req_id y) (tables s') \<le> req_required y"
    proof cases
      case same
      with plannedD(1) [OF assms(4) same(1) y(2)] show ?thesis by (simp add: claimed)
    next
      case pulled
      with plannedD(1) [OF assms(4) r(1)] y(2) show ?thesis by (simp add: claimed)
    qed
  next
    fix j
    show "claimed (\<lambda>i j'. j' = j) (tables s') \<le> on_hand j (tables s')"
      using plannedD(2) [OF assms(4), of j] by (auto simp: claimed e(3))
  qed
qed

lemma apply_pull_loop_planned:
  assumes "run_state (apply_pull_loop ps expected rows n) s = (Inr result, s')"
    "agree d (tables s)" "\<forall>p\<in>set ps. 0 \<le> pull_quantity p" "planned (tables s)"
  shows "planned (tables s')"
  using assms
proof (induction ps expected rows n arbitrary: s rule: apply_pull_loop.induct)
  case (1 expected rows n)
  then show ?case by (simp add: run_simps)
next
  case (2 p ps expected rows n)
  show ?case
  proof (cases "pull_quantity p = 0")
    case True
    with 2 show ?thesis by simp
  next
    case False
    obtain x s1 where one: "run_state (apply_pull (pull_allocation p) (pull_quantity p)) s = (x, s1)"
      by fastforce
    with False 2(3) obtain build where x: "x = Inr build"
      by (auto simp: run_simps split: sum.splits)
    with False 2(3) one have rest: "run_state (apply_pull_loop ps build (rows + 1)
        (int32 (n + pull_quantity p))) s1 = (Inr result, s')" "\<not> (expected \<noteq> 0 \<and> build \<noteq> expected)"
      by (auto simp: run_simps split: if_splits)
    have "0 \<le> pull_quantity p" using 2(5) by simp
    note a = apply_pull_accounts(1) [OF one [unfolded x] 2(4) this]
      apply_pull_planned [OF one [unfolded x] 2(4) this 2(6)]
    from 2(2) [OF False rest(2) rest(1) a(1)] 2(5) a(2) show ?thesis by simp
  qed
qed

lemma apply_pulls_planned:
  assumes "run_state (apply_pulls ps) s = (Inr result, s')" "agree d (tables s)" "planned (tables s)"
  shows "planned (tables s')"
proof (rule apply_pull_loop_planned [where expected = 0 and rows = 0 and n = 0])
  show "run_state (apply_pull_loop ps 0 0 0) s = (Inr result, s')"
    using assms(1) by (auto simp: apply_pulls_def run_simps split: if_splits)
  show "\<forall>p\<in>set ps. 0 \<le> pull_quantity p"
    using assms(1) by (auto simp: apply_pulls_def run_simps list_ex_iff split: if_splits)
qed (rule assms)+

lemma planned_eased:
  assumes "planned t" "requirements_eased t t'" "\<And>Q. claimed Q t' \<le> claimed Q t" "\<And>j. on_hand j t \<le> on_hand j t'"
  shows "planned t'"
  by (rule planned_mono [OF assms(1)]) (use assms(2-4) in \<open>auto simp: requirements_eased_def\<close>)

lemma lifecycle_planned:
  "run_state (disassemble_in_current_transaction i rows st) s = (Inr (b, result), s') \<Longrightarrow>
   agree d (tables s) \<Longrightarrow> planned (tables s) \<Longrightarrow> planned (tables s')"
  "run_state (cancel_in_current_transaction i rows st) s = (Inr (b, result), s') \<Longrightarrow>
   agree d (tables s) \<Longrightarrow> planned (tables s) \<Longrightarrow> planned (tables s')"
  "run_state (store_complete_set_spare_in_current_transaction i k l q) s = (Inr (b, result), s') \<Longrightarrow>
   agree d (tables s) \<Longrightarrow> planned (tables s) \<Longrightarrow> planned (tables s')"
proof -
  assume r: "run_state (disassemble_in_current_transaction i rows st) s = (Inr (b, result), s')"
    "agree d (tables s)" and p: "planned (tables s)"
  have e: "requirements_eased (tables s) (tables s')" "allocations (tables s') = allocations (tables s)"
    "\<And>j. on_hand j (tables s) \<le> on_hand j (tables s')"
    by (rule disassemble_effect [OF r]; assumption)+
  then show "planned (tables s')" by (intro planned_eased [OF p]) (simp_all add: claimed_def allocated_def)
next
  assume r: "run_state (cancel_in_current_transaction i rows st) s = (Inr (b, result), s')"
    "agree d (tables s)" and p: "planned (tables s)"
  have e: "requirements_eased (tables s) (tables s')"
    "allocations (tables s') = filter (\<lambda>a. alloc_build a \<noteq> i) (allocations (tables s))"
    "\<And>j. on_hand j (tables s) \<le> on_hand j (tables s')"
    by (rule cancel_effect [OF r]; assumption)+
  show "planned (tables s')"
    by (rule planned_eased [OF p e(1) claimed_filter [OF e(2) accountsD(4) [OF r(2)]] e(3)])
next
  assume r: "run_state (store_complete_set_spare_in_current_transaction i k l q) s = (Inr (b, result), s')"
    "agree d (tables s)" and p: "planned (tables s)"
  obtain y s1 where e: "run_state (check_spare i k l q) s = (Inr (b, y), s1)"
    "requirements (tables s') = update_where (\<lambda>z. req_id z = k)
       (\<lambda>z. bound_requirement (y\<lparr>req_released := req_released y + q\<rparr>)) (requirements (tables s))"
    "allocations (tables s') = allocations (tables s)" "\<And>j. on_hand j (tables s) \<le> on_hand j (tables s')"
    by (rule store_spare_effect [OF r]) (rule that, assumption+)
  have "y \<in> set (requirements (tables s))"
    using check_spare_success(2) [OF e(1)] by (auto dest: req.lookup_SomeD)
  then have "requirements_eased (tables s) (tables s')"
    by (auto simp: requirements_eased_def e(2) set_update_where)
  then show "planned (tables s')"
    using e(3,4) by (intro planned_eased [OF p]) (simp_all add: claimed_def allocated_def)
qed

section \<open>All calls\<close>

text \<open>
  What the callers of \<open>addRequirement\<close> keep to and the service does not check: a new requirement does
  not report more pieces as pulled than it requires.
\<close>

fun adds_within :: "build_call \<Rightarrow> bool" where
  "adds_within (AddRequirement r) \<longleftrightarrow> req_pulled r \<le> req_required r"
| "adds_within _ \<longleftrightarrow> True"

lemma body_planned:
  assumes "run_state (call_body c) u = (True, u')" "agree d (tables u)" "planned (tables u)"
    "adds_within c" "faults u = []"
  shows "planned (tables u')"
proof (cases c)
  case (CreateBuild b)
  with assms show ?thesis by (auto dest!: reports_true intro: planned_when_builds [OF stays_build_services(1)])
next
  case (UpdateMetadata i name man msg)
  with assms show ?thesis by (auto dest!: reports_true intro: planned_when_builds [OF stays_build_services(2)])
next
  case (SetBuildActive i active)
  with assms show ?thesis by (auto dest!: reports_true intro: planned_when_builds [OF stays_build_services(3)])
next
  case (CompleteBuild i)
  with assms show ?thesis by (auto dest!: reports_true intro: planned_when_builds [OF stays_build_services(4)])
next
  case (AddRequirement r)
  with assms show ?thesis by (auto dest!: reports_true intro: add_requirement_planned)
next
  case (EditRequirement i p c q spare)
  with assms show ?thesis by (auto dest!: reports_true intro: edit_requirement_planned)
next
  case (RemoveRequirement i)
  with assms show ?thesis by (auto dest!: reports_true intro: remove_requirement_planned)
next
  case (ReplaceAllocations i as)
  with assms show ?thesis by (auto dest!: reports_true intro: replace_planned)
next
  case (AllocateAvailable i preferred)
  with assms show ?thesis by (auto dest!: reports_true intro: allocate_available_planned)
next
  case (RecordPulls ps)
  with assms show ?thesis by (auto dest!: reports_true intro: apply_pulls_planned)
next
  case (Disassemble i rows st)
  with assms show ?thesis by (auto dest!: reports_true intro: lifecycle_planned(1))
next
  case (CancelBuild i rows st)
  with assms show ?thesis by (auto dest!: reports_true intro: lifecycle_planned(2))
next
  case (StoreSpare i k l q)
  with assms show ?thesis by (auto dest!: reports_true intro: lifecycle_planned(3))
qed

text \<open>Sequences of calls in which no statement fails.\<close>

inductive builds_reach_quietly :: "tables \<Rightarrow> build_call list \<Rightarrow> tables \<Rightarrow> bool" where
  quiet_start: "builds_reach_quietly t [] t"
| quiet_call: "builds_reach_quietly t calls (tables s) \<Longrightarrow> saved s = None \<Longrightarrow> faults s = [] \<Longrightarrow>
    builds_reach_quietly t (calls @ [c]) (tables (snd (run_state (run_call c) s)))"

text \<open>
  Property C16. Nothing is promised twice. While no database statement fails, whatever sequence of
  Build operations runs, with arguments in the range of a C++ \<open>int\<close> and no new requirement that
  reports more pieces as pulled than it requires (which the service would accept), the allocations
  of an inventory record never exceed the pieces it holds, and the pieces pulled and allocated for a
  requirement never exceed what it requires, when this held before, the books agreed and the counters
  were in range. Nothing is asked of the manufacturer provenance of the Builds.
\<close>

theorem allocations_stay_within:
  assumes "builds_reach_quietly t calls t'" "ledgers t" "planned t"
    "\<forall>c\<in>set calls. call_in_range c \<and> adds_within c"
  shows "(\<forall>r\<in>set (requirements t'). 0 < req_id r \<longrightarrow>
      req_pulled r + allocated (\<lambda>a. alloc_requirement a = req_id r) t' \<le> req_required r)
    \<and> (\<forall>j. allocated (\<lambda>a. alloc_inventory a = j) t' \<le> on_hand j t')"
proof -
  have "ledgers t' \<and> planned t'"
    using assms
  proof (induction rule: builds_reach_quietly.induct)
    case (quiet_start t)
    then show ?case by simp
  next
    case (quiet_call t calls s c)
    then have before: "ledgers (tables s)" "planned (tables s)" "call_in_range c" "adds_within c" by simp_all
    show ?case
    proof (rule call_keeps(1) [OF quiet_call.hyps(2), where P = "\<lambda>t. ledgers t \<and> planned t"])
      fix u u'
      assume u: "tables u = tables s" "faults s = [] \<Longrightarrow> faults u = []" "run_state (call_body c) u = (True, u')"
      obtain d where "agree d (tables u)" using before(1) u(1) by (auto simp: ledgers_agree)
      with body_planned [OF u(3)] body_ledgers [OF u(3)] before u quiet_call.hyps(3)
      show "ledgers (tables u') \<and> planned (tables u')" by simp
    qed (use before in simp)
  qed
  then show ?thesis by (auto simp: planned_def claimed_def)
qed

lemma planned_sample: "planned sample"
  by (auto simp: planned_def claimed_def allocated_def on_hand_def sample_defs)

theorem allocations_stay_within_witness:
  "(let t = tables (snd (run_state (run_call (AllocateAvailable 1 2)) (connect sample)))
    in allocated (\<lambda>a. alloc_inventory a = 2) t \<le> on_hand 2 t \<and> length (allocations t) = 2
      \<and> allocated (\<lambda>a. alloc_requirement a = 1) t = 8)"
proof -
  let ?t = "tables (snd (run_state (run_call (AllocateAvailable 1 2)) (connect sample)))"
  have "builds_reach_quietly sample [] (tables (connect sample))" by (simp add: quiet_start)
  then have "builds_reach_quietly sample ([] @ [AllocateAvailable 1 2]) ?t"
    by (rule quiet_call) (simp_all add: connect_def)
  from allocations_stay_within [OF this agree_ledgers [OF accounts_sample] planned_sample]
  have "allocated (\<lambda>a. alloc_inventory a = 2) ?t \<le> on_hand 2 ?t" by simp
  moreover have "length (allocations ?t) = 2" "allocated (\<lambda>a. alloc_requirement a = 1) ?t = 8"
    by code_simp+
  ultimately show ?thesis by simp
qed

end
