(* ===== verification/BuildStatus.thy ===== *)
theory BuildStatus
  imports BuildAllocations
begin

text \<open>
  The life of a Build as an abstract machine over its status and its activity alone, and the proof
  that the services implement it: each successful call makes exactly the abstract step of the Build
  it names, each failed call none.
\<close>

section \<open>The abstract machine\<close>

text \<open>The stage of a Build: its status and whether it is active, that is, not archived.\<close>

type_synonym stage = "string \<times> bool"

definition stages :: "tables \<Rightarrow> int \<Rightarrow> stage option" where
  "stages t i = map_option (\<lambda>b. (bld_status b, bld_active b)) (find (\<lambda>b. bld_id b = i) (builds t))"

definition moves_to :: "(string \<Rightarrow> bool \<Rightarrow> bool) \<Rightarrow> (string \<Rightarrow> bool \<Rightarrow> stage) \<Rightarrow> int
    \<Rightarrow> (int \<Rightarrow> stage option) \<Rightarrow> (int \<Rightarrow> stage option) \<Rightarrow> bool" where
  "moves_to guard target i m m' \<longleftrightarrow> (case m i of None \<Rightarrow> False
     | Some (st, a) \<Rightarrow> guard st a \<and> m' = m(i \<mapsto> target st a))"

text \<open>
  The steps of the machine. Completing has no condition on the status, as in the code; archiving
  needs a cancelled or disassembled Build, and taking an archived cancelled Build back plans it
  again. Every step but the creation has one outcome.
\<close>

fun life :: "build_call \<Rightarrow> (int \<Rightarrow> stage option) \<Rightarrow> (int \<Rightarrow> stage option) \<Rightarrow> bool" where
  "life (CreateBuild b) m m' \<longleftrightarrow> (\<exists>i. m i = None \<and> m' = m(i \<mapsto> (trimmed (bld_status b), bld_active b)))"
| "life (CompleteBuild i) m m' \<longleftrightarrow> moves_to (\<lambda>st a. True) (\<lambda>st a. (''Complete'', a)) i m m'"
| "life (Disassemble i rows st) m m' \<longleftrightarrow>
     moves_to (\<lambda>st a. st = ''Complete'') (\<lambda>st a. (''Disassembled'', a)) i m m'"
| "life (CancelBuild i rows st) m m' \<longleftrightarrow>
     moves_to (\<lambda>st a. st \<in> {''Planned'', ''Pulling''}) (\<lambda>st a. (''Cancelled'', a)) i m m'"
| "life (SetBuildActive i active) m m' \<longleftrightarrow>
     moves_to (\<lambda>st a. active \<or> st \<in> {''Cancelled'', ''Disassembled''})
       (\<lambda>st a. (if active \<and> \<not> a \<and> st = ''Cancelled'' then ''Planned'' else st, active)) i m m'"
| "life c m m' \<longleftrightarrow> m' = m"

section \<open>The services implement it\<close>

lemma stages_cong: "builds t' = builds t \<Longrightarrow> stages t' = stages t"
  by (simp add: stages_def fun_eq_iff)

lemma bound_build_status [simp]:
  "bld_status (bound_build b) = trimmed (bld_status b)" "bld_id (bound_build b) = bld_id b"
  "bld_active (bound_build b) = bld_active b"
  by (simp_all add: bound_build_def)

lemma trimmed_status [simp]:
  "trimmed ''Complete'' = ''Complete''" "trimmed ''Disassembled'' = ''Disassembled''"
  "trimmed ''Cancelled'' = ''Cancelled''" "trimmed ''Planned'' = ''Planned''" "trimmed ''Pulling'' = ''Pulling''"
  by (simp_all add: trimmed_def is_space_def)

lemma known_status:
  "constraints t \<Longrightarrow> find (\<lambda>b. bld_id b = i) (builds t) = Some b \<Longrightarrow> trimmed (bld_status b) = bld_status b"
  by (auto simp: constraints_def build_constraints_def dest!: bld.lookup_SomeD)

lemma find_update_constant:
  "bld_id c = i \<Longrightarrow> find (\<lambda>b. bld_id b = j) (update_where (\<lambda>b. bld_id b = i) (\<lambda>b. c) rows)
    = (if j = i \<and> find (\<lambda>b. bld_id b = i) rows \<noteq> None then Some c else find (\<lambda>b. bld_id b = j) rows)"
  by (induction rows) auto

lemma stages_update:
  assumes "builds t' = update_where (\<lambda>b. bld_id b = i) (\<lambda>b. bound_build c) (builds t)"
    "find (\<lambda>b. bld_id b = i) (builds t) = Some b" "bld_id c = i"
  shows "stages t' = (stages t)(i \<mapsto> (trimmed (bld_status c), bld_active c))"
  using assms by (auto simp: stages_def fun_eq_iff find_update_constant)

text \<open>Reading a Build and storing a changed copy of it.\<close>

lemma stored_build_status:
  assumes "run_state (build_update c) s = (Some c', s')" "bld_id c = i"
    "find (\<lambda>b. bld_id b = i) (builds (tables s)) = Some b"
  shows "stages (tables s') = (stages (tables s))(i \<mapsto> (trimmed (bld_status c), bld_active c))"
proof -
  from build_update_success(1) [OF assms(1)] obtain m where
    "tables s' = snd (update_builds (\<lambda>r. bld_id r = i) (\<lambda>r. bound_build (c\<lparr>bld_manufacturer := m\<rparr>)) (tables s))"
    using assms(2) by auto
  then have "builds (tables s') = update_where (\<lambda>r. bld_id r = i)
      (\<lambda>r. bound_build (c\<lparr>bld_manufacturer := m\<rparr>)) (builds (tables s))"
    by (simp add: update_builds_def)
  from stages_update [OF this assms(3)] assms(2) show ?thesis by simp
qed

lemma create_life:
  assumes "run_state (create_build_in_current_transaction b) s = (Inr x, s')"
  shows "life (CreateBuild b) (stages (tables s)) (stages (tables s'))"
proof -
  let ?c = "b\<lparr>bld_name := trimmed (bld_name b), bld_notes := trimmed (bld_notes b)\<rparr>"
  obtain w s1 where w: "run_state (workspace_try_get (bld_workspace b)) s = (w, s1)" by fastforce
  obtain m s2 where m: "run_state (manufacturer_by_id (bld_manufacturer b)) s1 = (m, s2)" by fastforce
  have t: "tables s1 = tables s" "tables s2 = tables s"
    using after_reading [OF reads_workspace w] after_reading [OF reads_manufacturer_by_id m] by simp_all
  from assms w m obtain y u where y: "run_state (build_create ?c) u = (Some y, s')" "tables u = tables s"
    using t by (auto simp: create_build_in_current_transaction_def run_simps
        split: if_splits option.splits prod.splits)
  obtain k u1 where k: "run_state (build_manufacturer ?c) u = (k, u1)" by fastforce
  have u1: "tables u1 = tables s" using after_reading [OF reads_build_manufacturer k] y(2) by simp
  let ?i = "seq_build (tables s) + 1"
  have s': "builds (tables s') = builds (tables s) @ [put_bld_id ?i (bound_build (?c\<lparr>bld_manufacturer := k\<rparr>))]"
    "constraints (tables s')"
    using y(1) k u1 by (auto simp: build_create_def insert_build_def Let_def run_simps split: if_splits)
  have "?i \<notin> bld_id ` set (builds (tables s))"
    using s' by (simp add: constraints_def build_constraints_def put_bld_id_def)
  then have "find (\<lambda>b. bld_id b = ?i) (builds (tables s)) = None"
    by (metis (mono_tags, lifting) find_None_iff imageI)
  moreover from this have "stages (tables s') = (stages (tables s))(?i \<mapsto> (trimmed (bld_status b), bld_active b))"
    using bld.lookup_insert_other bld.lookup_insert [OF \<open>?i \<notin> bld_id ` set (builds (tables s))\<close>]
    by (auto simp: fun_eq_iff stages_def s'(1) put_bld_id_def)
  ultimately show ?thesis by (auto simp: stages_def)
qed

lemma metadata_life:
  assumes "run_state (update_metadata_in_current_transaction i name man msg) s = (Inr x, s')" "constraints (tables s)"
  shows "stages (tables s') = stages (tables s)"
proof -
  obtain build s1 where get: "run_state (build_try_get i) s = (build, s1)" by fastforce
  with assms(1) obtain b where b: "build = Some (Some b)"
    by (auto simp: update_metadata_in_current_transaction_def run_simps split: option.splits if_splits)
  note found = build_try_get_found [OF get [unfolded b]]
  obtain m s2 where m: "run_state (manufacturer_by_id man) s1 = (m, s2)" by fastforce
  have t: "tables s1 = tables s" "tables s2 = tables s"
    using found after_reading [OF reads_manufacturer_by_id m] by simp_all
  have st: "bld_status (with_metadata b name man msg) = bld_status b" "bld_id (with_metadata b name man msg) = i"
    "bld_active (with_metadata b name man msg) = bld_active b"
    using found by (auto simp: with_metadata_def dest: bld.lookup_SomeD)
  from assms(1) get b m consider "s' = s1" | "s' = s2" |
    y u where "run_state (build_update (with_metadata b name man msg)) u = (Some y, s')" "tables u = tables s"
    using t by (auto simp: update_metadata_in_current_transaction_def run_simps
        split: if_splits option.splits prod.splits)
  then show ?thesis
  proof cases
    case 3
    have "stages (tables s') = (stages (tables u))(i \<mapsto> (trimmed (bld_status b), bld_active b))"
      using stored_build_status [OF 3(1) st(2)] found 3(2) st(1,3) by simp
    also have "\<dots> = stages (tables s)"
      using found known_status [OF assms(2), of i b] 3(2) by (auto simp: stages_def fun_eq_iff)
    finally show ?thesis .
  qed (simp_all add: t)
qed

lemma activity_life:
  assumes "run_state (set_build_active_in_current_transaction i active) s = (Inr x, s')" "constraints (tables s)"
  shows "life (SetBuildActive i active) (stages (tables s)) (stages (tables s'))"
proof -
  obtain build s1 where get: "run_state (build_try_get i) s = (build, s1)" by fastforce
  with assms(1) obtain b where b: "build = Some (Some b)"
    by (auto simp: set_build_active_in_current_transaction_def run_simps split: option.splits if_splits)
  note found = build_try_get_found [OF get [unfolded b]]
  have st: "stages (tables s) i = Some (bld_status b, bld_active b)" "bld_id (activated b active) = i"
    "find (\<lambda>b. bld_id b = i) (builds (tables s1)) = Some b"
    using found by (auto simp: stages_def activated_def dest: bld.lookup_SomeD)
  from assms(1) get b consider (same) "bld_active b = active" "tables s' = tables s" |
    (stored) y where "bld_active b \<noteq> active" "run_state (build_update (activated b active)) s1 = (Some y, s')"
    using found by (auto simp: set_build_active_in_current_transaction_def run_simps
        split: if_splits option.splits prod.splits)
  moreover from assms(1) get b have guard: "active \<or> bld_status b \<in> {''Cancelled'', ''Disassembled''}"
    by (auto simp: set_build_active_in_current_transaction_def run_simps split: if_splits)
  ultimately show ?thesis
  proof cases
    case same
    then show ?thesis using guard st(1) by (auto simp: moves_to_def fun_upd_idem)
  next
    case stored
    have "stages (tables s') = (stages (tables s))
        (i \<mapsto> (trimmed (bld_status (activated b active)), bld_active (activated b active)))"
      using stored_build_status [OF stored(2) st(2,3)] found by simp
    moreover have "trimmed (bld_status (activated b active)) = bld_status (activated b active)"
      using found known_status [OF assms(2), of i b] by (simp add: activated_def)
    ultimately show ?thesis using guard st(1) stored(1) by (auto simp: moves_to_def activated_def)
  qed
qed

lemma complete_life:
  assumes "run_state (complete_build_in_current_transaction i) s = (Inr x, s')"
  shows "life (CompleteBuild i) (stages (tables s)) (stages (tables s'))"
proof -
  obtain build s1 where get: "run_state (build_try_get i) s = (build, s1)" by fastforce
  with assms obtain b where b: "build = Some (Some b)"
    by (auto simp: complete_build_in_current_transaction_def run_simps split: option.splits)
  note found = build_try_get_found [OF get [unfolded b]]
  obtain reqs s2 where req: "run_state (requirement_try_get_by_build i) s1 = (reqs, s2)" by fastforce
  have t2: "tables s2 = tables s" using after_reading [OF reads_requirement_get(3) req] found by simp
  have c: "bld_id (b\<lparr>bld_status := ''Complete''\<rparr>) = i" "find (\<lambda>b. bld_id b = i) (builds (tables s2)) = Some b"
    using found t2 by (auto dest: bld.lookup_SomeD)
  from assms get b req obtain y where
    "run_state (build_update (b\<lparr>bld_status := ''Complete''\<rparr>)) s2 = (Some y, s')"
    by (auto simp: complete_build_in_current_transaction_def run_simps
        split: option.splits if_splits prod.splits)
  from stored_build_status [OF this c] t2 found show ?thesis by (simp add: stages_def moves_to_def)
qed

lemma ended_life:
  "run_state (disassemble_in_current_transaction i rows st) s = (Inr (b, result), s') \<Longrightarrow> agree d (tables s) \<Longrightarrow>
   life (Disassemble i rows st) (stages (tables s)) (stages (tables s'))"
  "run_state (cancel_in_current_transaction i rows st) s = (Inr (b, result), s') \<Longrightarrow> agree d (tables s) \<Longrightarrow>
   life (CancelBuild i rows st) (stages (tables s)) (stages (tables s'))"
proof -
  assume r: "run_state (disassemble_in_current_transaction i rows st) s = (Inr (b, result), s')" "agree d (tables s)"
  obtain c m where e: "find (\<lambda>b. bld_id b = i) (builds (tables s)) = Some c" "bld_status c = ''Complete''"
    "builds (tables s') = update_where (\<lambda>r. bld_id r = i)
      (\<lambda>r. bound_build (c\<lparr>bld_status := ''Disassembled'', bld_manufacturer := m\<rparr>)) (builds (tables s))"
    by (rule disassemble_effect [OF r]) (rule that, assumption+)
  then have "bld_id (c\<lparr>bld_status := ''Disassembled'', bld_manufacturer := m\<rparr>) = i" by (auto dest: bld.lookup_SomeD)
  from stages_update [OF e(3,1) this] e(1,2)
  show "life (Disassemble i rows st) (stages (tables s)) (stages (tables s'))" by (simp add: stages_def moves_to_def)
next
  assume r: "run_state (cancel_in_current_transaction i rows st) s = (Inr (b, result), s')" "agree d (tables s)"
  obtain c m where e: "find (\<lambda>b. bld_id b = i) (builds (tables s)) = Some c"
    "bld_status c \<in> {''Planned'', ''Pulling''}"
    "builds (tables s') = update_where (\<lambda>r. bld_id r = i)
      (\<lambda>r. bound_build (c\<lparr>bld_status := ''Cancelled'', bld_manufacturer := m\<rparr>)) (builds (tables s))"
    by (rule cancel_effect [OF r]) (rule that, assumption+)
  then have "bld_id (c\<lparr>bld_status := ''Cancelled'', bld_manufacturer := m\<rparr>) = i" by (auto dest: bld.lookup_SomeD)
  from stages_update [OF e(3,1) this] e(1,2)
  show "life (CancelBuild i rows st) (stages (tables s)) (stages (tables s'))" by (auto simp: stages_def moves_to_def)
qed

text \<open>The requirement services write one table.\<close>

definition only_requirements :: "tables \<Rightarrow> tables \<Rightarrow> bool" where
  "only_requirements t t' \<longleftrightarrow> t' = t\<lparr>requirements := requirements t', seq_requirement := seq_requirement t'\<rparr>"

interpretation requirements_frame: frame_relation only_requirements
proof
  show "only_requirements t t" for t by (simp add: only_requirements_def)
  show "only_requirements t t2" if "only_requirements t t1" "only_requirements t1 t2" for t t1 t2
    using that by (cases t, cases t1, cases t2) (simp add: only_requirements_def)
qed

lemma stays_requirement_writes [stays_rules]:
  "stays only_requirements (requirement_create r)" "stays only_requirements (requirement_update r)"
  "stays only_requirements (requirement_remove i)"
  by (auto simp: requirement_create_def requirement_update_def requirement_remove_def
      only_requirements_def insert_requirement_def update_requirements_def delete_requirements_def Let_def
      intro!: stays_rules requirements_frame.stays_exec)

lemmas stays_known [stays_rules] = requirements_frame.stays_reads [OF reads_part_and_color]

lemma stays_requirement_services:
  "stays only_requirements (add_requirement_in_current_transaction r)"
  "stays only_requirements (edit_requirement_in_current_transaction i p c q spare)"
  "stays only_requirements (remove_requirement_in_current_transaction i)"
  by (auto simp: add_requirement_in_current_transaction_def edit_requirement_in_current_transaction_def
      store_edited_requirement_def remove_requirement_in_current_transaction_def intro!: stays_rules)

lemma only_requirements_builds: "only_requirements t t' \<Longrightarrow> builds t' = builds t"
  by (cases t, cases t') (simp add: only_requirements_def)

lemma requirement_services_stages:
  assumes "stays only_requirements m" "run_state m s = (r, s')"
  shows "stages (tables s') = stages (tables s)"
  by (rule stages_cong [OF only_requirements_builds [OF staysD [OF assms]]])

lemma allocation_services_stages:
  assumes "stays only_allocations m" "run_state m s = (r, s')"
  shows "stages (tables s') = stages (tables s)"
  using only_allocations_fields [OF staysD [OF assms]] by (intro stages_cong) simp

lemma body_life:
  assumes "run_state (call_body c) u = (True, u')" "agree d (tables u)"
  shows "life c (stages (tables u)) (stages (tables u'))"
proof (cases c)
  case (CreateBuild b)
  with assms(1) create_life show ?thesis by (metis call_body.simps(1) reports_true)
next
  case (UpdateMetadata i name man msg)
  with assms metadata_life accountsD(4) show ?thesis by (metis call_body.simps(2) life.simps(6) reports_true)
next
  case (SetBuildActive i active)
  with assms activity_life accountsD(4) show ?thesis by (metis call_body.simps(3) reports_true)
next
  case (CompleteBuild i)
  with assms complete_life show ?thesis by (metis call_body.simps(4) reports_true)
next
  case (AddRequirement r)
  with assms show ?thesis
    by (auto dest!: reports_true dest: requirement_services_stages [OF stays_requirement_services(1)])
next
  case (EditRequirement i p c q spare)
  with assms show ?thesis
    by (auto dest!: reports_true dest: requirement_services_stages [OF stays_requirement_services(2)])
next
  case (RemoveRequirement i)
  with assms show ?thesis
    by (auto dest!: reports_true dest: requirement_services_stages [OF stays_requirement_services(3)])
next
  case (ReplaceAllocations i as)
  with assms show ?thesis
    by (auto dest!: reports_true dest: allocation_services_stages [OF stays_allocation_services(1)])
next
  case (AllocateAvailable i preferred)
  with assms show ?thesis
    by (auto dest!: reports_true dest: allocation_services_stages [OF stays_allocation_services(2)])
next
  case (RecordPulls ps)
  with assms(1) obtain x where "run_state (apply_pulls ps) u = (Inr x, u')" by (auto dest!: reports_true)
  from apply_pulls_accounts [OF this assms(2)] RecordPulls stages_cong [of "tables u'" "tables u"] show ?thesis by simp
next
  case (Disassemble i rows st)
  with assms(1) obtain b result where "run_state (disassemble_in_current_transaction i rows st) u
      = (Inr (b, result), u')" by (auto dest!: reports_true)
  from ended_life(1) [OF this assms(2)] Disassemble show ?thesis by simp
next
  case (CancelBuild i rows st)
  with assms(1) obtain b result where "run_state (cancel_in_current_transaction i rows st) u
      = (Inr (b, result), u')" by (auto dest!: reports_true)
  from ended_life(2) [OF this assms(2)] CancelBuild show ?thesis by simp
next
  case (StoreSpare i k l q)
  with assms(1) obtain b result where r: "run_state (store_complete_set_spare_in_current_transaction i k l q) u
      = (Inr (b, result), u')" by (auto dest!: reports_true)
  have "builds (tables u') = builds (tables u)" by (rule store_spare_effect [OF r assms(2)])
  with StoreSpare stages_cong [of "tables u'" "tables u"] show ?thesis by simp
qed

text \<open>
  Property C18. The services implement the life of a Build. Seen through the status and the activity
  alone, every Build operation that reports success makes exactly the step of the abstract machine
  that belongs to it (completing, cancelling only planned or pulling Builds, disassembling only
  completed ones, archiving only cancelled or disassembled ones, reactivating, where an archived
  Build that was cancelled is planned again, and no other operation changes either), and every
  operation that reports failure, for whatever reason, makes none.
\<close>

theorem services_implement_life:
  assumes "run_state (run_call c) s = (ok, s')" "saved s = None" "accounts (tables s)"
  shows "if ok then life c (stages (tables s)) (stages (tables s'))
    else stages (tables s') = stages (tables s)"
proof (cases ok)
  case True
  with call_outcome [of c] assms obtain u u' where
    "tables u = tables s" "tables s' = tables u'" "run_state (call_body c) u = (True, u')"
    unfolding ends_well_def by (metis (full_types))
  with body_life [of c u u'] assms(3) True show ?thesis by simp
next
  case False
  with call_outcome [of c] assms have "tables s' = tables s" unfolding ends_well_def by (metis (full_types))
  with False show ?thesis by simp
qed

text \<open>An archived Build that was cancelled.\<close>

definition sample_archived :: tables where
  "sample_archived = sample_progress\<lparr>builds := [(sample_build 1 ''Stock'' ''Cancelled'')\<lparr>bld_active := False\<rparr>,
     sample_build 2 ''CompleteSet'' ''Complete'']\<rparr>"

lemma accounts_sample_archived: "accounts sample_archived"
proof -
  have "constraints sample_archived"
    by (simp add: constraint_defs sample_archived_def sample_progress_def sample_defs provenance_identity_def)
  then show ?thesis
    by (intro accounts_cong' [OF accounts_sample_progress]) (simp_all add: sample_archived_def)
qed

text \<open>Cancelling a planned Build, which a completed one refuses, and taking an archived one back.\<close>

theorem services_implement_life_witness:
  "life (CancelBuild 1 [] Unassembled) (stages sample)
     (stages (tables (snd (run_state (run_call (CancelBuild 1 [] Unassembled)) (connect sample)))))
   \<and> stages (tables (snd (run_state (run_call (CancelBuild 2 [] Unassembled)) (connect sample))))
     = stages sample
   \<and> stages sample_archived 1 = Some (''Cancelled'', False)
   \<and> stages (tables (snd (run_state (run_call (SetBuildActive 1 True)) (connect sample_archived)))) 1
     = Some (''Planned'', True)"
proof -
  have acc: "saved (connect sample) = None" "accounts (tables (connect sample))"
    "saved (connect sample_archived) = None" "accounts (tables (connect sample_archived))"
    using accounts_sample accounts_sample_archived by simp_all
  have runs: "fst (run_state (run_call (CancelBuild 1 [] Unassembled)) (connect sample))"
    "\<not> fst (run_state (run_call (CancelBuild 2 [] Unassembled)) (connect sample))"
    "fst (run_state (run_call (SetBuildActive 1 True)) (connect sample_archived))" by code_simp+
  have before: "stages sample_archived 1 = Some (''Cancelled'', False)"
    by (simp add: stages_def sample_archived_def sample_build_def)
  have "life (SetBuildActive 1 True) (stages sample_archived)
      (stages (tables (snd (run_state (run_call (SetBuildActive 1 True)) (connect sample_archived)))))"
    using services_implement_life [OF prod.collapse [symmetric] acc(3,4), of "SetBuildActive 1 True"] runs(3)
    by (simp del: life.simps run_call.simps)
  then have "stages (tables (snd (run_state (run_call (SetBuildActive 1 True)) (connect sample_archived)))) 1
      = Some (''Planned'', True)"
    using before by (simp add: moves_to_def del: run_call.simps)
  with before runs(1,2) services_implement_life [OF prod.collapse [symmetric] acc(1,2), of "CancelBuild 1 [] Unassembled"]
    services_implement_life [OF prod.collapse [symmetric] acc(1,2), of "CancelBuild 2 [] Unassembled"]
  show ?thesis by (simp del: life.simps run_call.simps)
qed

end
