(* ===== verification/BuildGaps.thy ===== *)
theory BuildGaps
  imports BuildStatus
begin

text \<open>
  Where the services do not keep what the rest of this development shows about them: each theorem
  runs the services on a small database and exhibits one behaviour the code does not guard
  against.
\<close>

section \<open>An edit after pulling\<close>

text \<open>
  A Build that pulled four bricks of part 10 for its only requirement and has nothing allocated.
  The service then accepts an edit that substitutes part 11.
\<close>

definition sample_pulling :: tables where
  "sample_pulling = sample_progress\<lparr>allocations := []\<rparr>"

definition sample_trapped :: tables where
  "sample_trapped = tables (snd (run_state (run_call (EditRequirement 1 11 5 8 False)) (connect sample_pulling)))"

lemma sample_trapped_eq:
  "sample_trapped = sample_pulling\<lparr>requirements :=
     [(sample_requirement 1 1 8 4)\<lparr>req_sub_part := 11, req_sub_color := 5\<rparr>,
      (sample_requirement 2 2 4 1)\<lparr>req_spare := True, req_pulled := 0\<rparr>]\<rparr>"
  by code_simp

text \<open>No row can be returned when the provenance knows no piece of the effective part and color.\<close>

lemma return_row_needs_provenance:
  assumes "bld_mode b = ''Stock''" "constraints (tables s)" "quantities_fit (tables s)"
    "\<forall>r\<in>set (requirements (tables s)). req_build r = bld_id b \<longrightarrow> req_pulled r \<le> int_max
      \<and> (\<forall>p\<in>set (provenance (tables s)). (prov_build p, prov_part p, prov_color p)
        \<noteq> (bld_id b, effective_part r, effective_color r))"
  shows "\<not> succeeds (fst (run_state (return_row b row) s))"
proof
  assume "succeeds (fst (run_state (return_row b row) s))"
  then obtain i s' where run: "run_state (return_row b row) s = (Inr i, s')"
    by (metis succeeds_iff prod.collapse)
  obtain y s0 after result s1 s2 where
    check: "run_state (check_return b row) s = (Inr y, s0)" and
    add: "run_state (add_returned b row) s0 = (Some (after, result), s1)" and
    red: "run_state (reduce_pulled_manufacturer (bld_id b) (ret_part row) (ret_color row)
      (ret_manufacturer row) (ret_quantity row)) s1 = (True, s2)"
    using run assms(1) by (auto simp: return_row_def run_simps
        split: if_splits sum.splits prod.splits option.splits)
  note g = check_return_success [OF check]
  have y: "y \<in> set (requirements (tables s))" "req_build y = bld_id b"
    using g(1,2) by (auto dest: req.lookup_SomeD)
  then have fit: "inv_quantity (returned_record b row) \<le> int_max" using g(3) assms(1,4) by fastforce
  have "provenance (tables s1) = provenance (tables s)"
  proof (rule add_or_increase_effect [OF add [unfolded add_returned_def] _ _ fit])
    show "constraints (tables s0)" "quantities_fit (tables s0)" using assms(2,3) g(6) by simp_all
  next
    fix m existed
    assume "adds (inventory_identity (bound_inventory ((returned_record b row)\<lparr>inv_manufacturer := m\<rparr>)))
      (inv_quantity (returned_record b row)) (tables s0) (tables s1)"
    from only_inventory_fields [OF adds_only [OF this]] g(6)
    show "provenance (tables s1) = provenance (tables s)" by simp
  qed
  with reduce_pulled_success(2) [OF red] obtain p where "p \<in> set (provenance (tables s))"
    "provenance_identity p = (bld_id b, ret_part row, ret_color row, ret_manufacturer row)"
    using count_where_pos [of _ "provenance (tables s1)"] by (auto simp: decrease_provenance_def Let_def)
  with assms(4) g(3) assms(1) y show False by (fastforce simp: provenance_identity_def)
qed

lemma return_pieces_needs_provenance:
  assumes "bld_mode b = ''Stock''" "constraints (tables s)" "quantities_fit (tables s)"
    "\<forall>r\<in>set (requirements (tables s)). req_build r = bld_id b \<longrightarrow> req_pulled r \<le> int_max
      \<and> (\<forall>p\<in>set (provenance (tables s)). (prov_build p, prov_part p, prov_color p)
        \<noteq> (bld_id b, effective_part r, effective_color r))"
    "run_state (return_pieces b rows result) s = (Inr x, s')"
  shows "s' = s"
  using assms(5)
proof (induction rows arbitrary: result)
  case Nil
  then show ?case by (simp add: run_simps)
next
  case (Cons row rows)
  obtain y s1 where one: "run_state (return_row b row) s = (y, s1)" by fastforce
  have "\<not> succeeds y" using return_row_needs_provenance [OF assms(1-4), of row] one by simp
  with Cons.prems one have "ret_quantity row \<le> 0"
    by (auto simp: run_simps succeeds_def split: if_splits sum.splits)
  with Cons show ?case by simp
qed

text \<open>
  Editing a requirement after pulling traps the Build. The service accepts a
  substitute part for a requirement whose pieces were already pulled; from then on no list of
  returned rows whatsoever makes the cancellation of the Build succeed, although before the edit
  returning the pulled pieces did.
\<close>

theorem edit_after_pull_traps_build:
  "fst (run_state (run_call (CancelBuild 1 [sample_return 1 3, sample_return 2 1] Unassembled)) (connect sample_pulling))
   \<and> fst (run_state (run_call (EditRequirement 1 11 5 8 False)) (connect sample_pulling))
   \<and> (\<forall>rows st. \<not> fst (run_state (run_call (CancelBuild 1 rows st)) (connect sample_trapped)))"
proof (intro conjI allI notI)
  show "fst (run_state (run_call (CancelBuild 1 [sample_return 1 3, sample_return 2 1] Unassembled)) (connect sample_pulling))"
    "fst (run_state (run_call (EditRequirement 1 11 5 8 False)) (connect sample_pulling))"
    by code_simp+
  fix rows st
  let ?b = "sample_build 1 ''Stock'' ''Pulling''"
  assume ok: "fst (run_state (run_call (CancelBuild 1 rows st)) (connect sample_trapped))"
  let ?run = "run_state (build_service (cancel_in_current_transaction 1 rows st)) (connect sample_trapped)"
  from ok obtain x s' where "?run = (Inr x, s')"
    by (metis prod.collapse run_call.simps(12) run_reports fst_conv succeeds_iff)
  moreover have "saved (connect sample_trapped) = None" by simp
  ultimately obtain u u' where u: "tables u = sample_trapped" "faults u = []"
      "run_state (cancel_in_current_transaction 1 rows st) u = (Inr x, u')"
    unfolding build_service_def by (rule cancel_body.service_effect) (auto simp: connect_def)
  have c: "constraints (tables u)" "quantities_fit (tables u)"
    unfolding u(1) sample_trapped_eq
    by (simp_all add: sample_pulling_def sample_progress_def constraint_defs sample_defs
        quantities_fit_def int_max_def)
  have none: "\<forall>r\<in>set (requirements (tables u)). req_build r = bld_id ?b \<longrightarrow> req_pulled r \<le> int_max
      \<and> (\<forall>p\<in>set (provenance (tables u)). (prov_build p, prov_part p, prov_color p)
        \<noteq> (bld_id ?b, effective_part r, effective_color r))"
    unfolding u(1) sample_trapped_eq
    by (simp add: sample_pulling_def sample_progress_def sample_defs effective_part_def int_max_def)
  have get: "run_state (build_try_get 1) u = (Some (Some ?b), u)"
    using u(1,2) by (simp add: quiet_runs sample_trapped_eq sample_pulling_def sample_progress_def sample_defs)
  obtain res s1 where ret: "run_state (return_pieces ?b rows no_returns) u = (res, s1)" by fastforce
  with u(3) get obtain result where res: "res = Inr result"
    by (auto simp: cancel_in_current_transaction_def run_simps sample_build_def split: sum.splits if_splits)
  have mode: "bld_mode ?b = ''Stock''" by (simp add: sample_build_def)
  have s1: "s1 = u" by (rule return_pieces_needs_provenance [OF mode c none ret [unfolded res]])
  have "run_state (requirement_try_get_by_build 1) u = (Some (requirements_of 1 sample_trapped), u)"
    using u(1,2) by (simp add: requirement_try_get_by_build_def run_simps)
  moreover have "list_ex (\<lambda>r. req_pulled r > 0) (requirements_of 1 sample_trapped)"
    unfolding sample_trapped_eq
    by (simp add: requirements_of_def sample_pulling_def sample_progress_def sample_defs)
  ultimately show False
    using u(3) get ret res s1
    by (auto simp: cancel_in_current_transaction_def run_simps split: if_splits)
qed

section \<open>Rows that are checked one by one\<close>

text \<open>
  Disassembling a complete set checks every returned row against the requirement but keeps no
  count: two rows for the same requirement of four pieces return eight.
\<close>

theorem set_disassembly_returns_twice:
  "(let row = \<lparr>ret_requirement = 2, ret_part = 10, ret_color = 5, ret_manufacturer = 1, ret_storage = 2,
        ret_quantity = 4, ret_spare = False\<rparr>;
      (ok, s') = run_state (run_call (Disassemble 2 [row, row] Unassembled)) (connect sample)
    in ok \<and> stock (\<lambda>k. True) (tables s') = stock (\<lambda>k. True) sample + 8
      \<and> map req_required (filter (\<lambda>r. req_build r = 2) (requirements (tables s'))) = [4])"
  by code_simp

text \<open>
  The plan of a disassembly compares the pieces of one requirement with the provenance of the
  whole Build for its effective part and color, so a Build with a second requirement whose
  substitute is the same part has no plan, although its accounts agree.
\<close>

definition sample_shared :: tables where
  "sample_shared = sample_progress\<lparr>allocations := [],
     builds := [sample_build 1 ''Stock'' ''Complete'', sample_build 2 ''CompleteSet'' ''Complete''],
     requirements := [sample_requirement 1 1 3 3,
       (sample_requirement 2 1 1 1)\<lparr>req_part := 11, req_sub_part := 10\<rparr>]\<rparr>"

lemma accounts_sample_shared: "accounts sample_shared"
proof -
  have "constraints sample_shared"
    by (simp add: constraint_defs sample_shared_def sample_progress_def sample_defs)
  then have "books sample_shared"
    by (intro books_cong [OF books_sample]) (simp_all add: sample_shared_def sample_progress_def)
  then show ?thesis
    by (simp add: agree_def counts_fit_def drift_of_def fun_eq_iff built_def pulled_def sample_shared_def
        sample_progress_def sample_defs int_max_def provenance_identity_def requirement_key_def
        effective_part_def effective_color_def)
qed

theorem shared_part_has_no_plan:
  "accounts sample_shared \<and>
   fst (run_state (disassembly_return_plan 1) (connect sample_shared)) = Inl BuildInvalidState \<and>
   succeeds (fst (run_state (disassembly_return_plan 1)
     (connect (tables (snd (run_state (run_call (CompleteBuild 1)) (connect sample_ready)))))))"
proof (intro conjI)
  show "accounts sample_shared" by (rule accounts_sample_shared)
qed code_simp+

section \<open>Sums that fail to load\<close>

text \<open>
  The sum of the allocations of a record reads as zero when its query fails, and the automatic
  allocation then takes pieces that are taken already.
\<close>

theorem failed_sum_overallocates:
  "(let t = sample\<lparr>requirements := [sample_requirement 1 1 30 0]\<rparr>;
      (ok, s') = run_state (run_call (AllocateAvailable 1 0))
        ((connect t)\<lparr>faults := [False, False, False, False, False, True]\<rparr>)
    in ok \<and> on_hand 1 (tables s') = 20 \<and> allocated (\<lambda>a. alloc_inventory a = 1) (tables s') = 25)"
  by code_simp

section \<open>Allocations of spares\<close>

text \<open>
  Pieces can be allocated for a spare requirement of a Build from stock but never pulled for it,
  and neither completing nor disassembling the Build releases them.
\<close>

theorem spare_allocation_outlives_build:
  "(let t = sample_ready\<lparr>requirements := [sample_requirement 1 1 4 4,
          (sample_requirement 2 1 2 0)\<lparr>req_spare := True\<rparr>]\<rparr>;
      (ok1, s1) = run_state (run_call (ReplaceAllocations 2 [sample_allocation\<lparr>alloc_quantity := 2\<rparr>])) (connect t);
      (ok2, s2) = run_state (run_call (RecordPulls [\<lparr>pull_allocation = 2, pull_quantity = 1\<rparr>])) s1;
      (ok3, s3) = run_state (run_call (CompleteBuild 1)) s2;
      (ok4, s4) = run_state (run_call (Disassemble 1 [sample_return 1 3, sample_return 2 1] Unassembled)) s3
    in ok1 \<and> \<not> ok2 \<and> ok3 \<and> ok4 \<and> map alloc_quantity (allocations (tables s4)) = [2])"
  by code_simp

end
