(* ===== verification/Compositions.thy ===== *)
theory Compositions
  imports BuildFlow "HOL-Library.AList"
begin

text \<open>
  The pieces a catalog Set or Minifig consists of (\<open>EffectiveSetCompositionRepository\<close>,
  \<open>MinifigCatalogPartRepository::listForMinifig\<close>) and the addition of a whole composition to the
  inventory (\<open>services/inventory/CompositionToInventoryService\<close>).
\<close>

section \<open>Reading a composition\<close>

definition part_number_of :: "tables \<Rightarrow> int \<Rightarrow> string" where
  "part_number_of t p = (case find (\<lambda>x. part_id x = p) (parts t) of None \<Rightarrow> [] | Some x \<Rightarrow> part_number x)"

definition color_name_of :: "tables \<Rightarrow> int \<Rightarrow> string" where
  "color_name_of t c = (case map_of (color_names t) c of None \<Rightarrow> [] | Some n \<Rightarrow> n)"

text \<open>The order of the listing: required rows first, then part number and color name
  (\<open>COLLATE NOCASE\<close>, which folds the ASCII letters to lower case).\<close>

definition composition_key :: "tables \<Rightarrow> composition_row \<Rightarrow> bool \<times> string \<times> string \<times> int" where
  "composition_key t r = (cmp_spare r, map to_lower (part_number_of t (cmp_part r)),
     map to_lower (color_name_of t (cmp_color r)), cmp_id r)"

text \<open>The rows of one owner, joined with the parts and the colors.\<close>

definition joined_rows :: "int \<Rightarrow> bool \<Rightarrow> composition_row list \<Rightarrow> tables \<Rightarrow> composition_row list" where
  "joined_rows owner spares rows t = sort_key (composition_key t)
     (filter (\<lambda>r. cmp_owner r = owner \<and> (spares \<or> \<not> cmp_spare r)
        \<and> cmp_part r \<in> set (map part_id (parts t)) \<and> cmp_color r \<in> set (colors t)) rows)"

definition preferred_revision :: "int \<Rightarrow> tables \<Rightarrow> revision_row option" where
  "preferred_revision i t = find (\<lambda>r. rev_set r = i \<and> nocase_eq (rev_provider r) ''Rebrickable''
     \<and> rev_active r \<and> rev_preferred r) (set_revisions t)"

definition revision_composition ::
    "int \<Rightarrow> bool \<Rightarrow> revision_row option \<Rightarrow> tables \<Rightarrow> composition_row list" where
  "revision_composition i spares revision t = (case revision of
     Some r \<Rightarrow> joined_rows (rev_id r) spares (revision_parts t) t
   | None \<Rightarrow> joined_rows i spares (set_catalog_parts t) t)"

definition effective_set_composition ::
    "int \<Rightarrow> bool \<Rightarrow> (session, composition_row list option) state" where
  "effective_set_composition i spares = do {
     revision \<leftarrow> sql_query (preferred_revision i);
     case revision of None \<Rightarrow> ret None
     | Some revision \<Rightarrow> sql_query (revision_composition i spares revision)
   }"

definition minifig_composition :: "int \<Rightarrow> (session, composition_row list) state" where
  "minifig_composition i = do {
     rows \<leftarrow> sql_query (\<lambda>t. map (\<lambda>r. r\<lparr>cmp_quantity := int32 (cmp_quantity r)\<rparr>)
       (joined_rows i True (minifig_catalog_parts t) t));
     ret (case rows of None \<Rightarrow> [] | Some rs \<Rightarrow> rs)
   }"

text \<open>What the two listings give when no statement fails.\<close>

definition set_pieces :: "int \<Rightarrow> tables \<Rightarrow> composition_row list" where
  "set_pieces i t = revision_composition i True (preferred_revision i t) t"

definition minifig_pieces :: "int \<Rightarrow> tables \<Rightarrow> composition_row list" where
  "minifig_pieces i t = map (\<lambda>r. r\<lparr>cmp_quantity := int32 (cmp_quantity r)\<rparr>)
     (joined_rows i True (minifig_catalog_parts t) t)"

lemma effective_set_composition_run:
  "run_state (effective_set_composition i True) s = (Some rows, s') \<Longrightarrow>
   rows = set_pieces i (tables s) \<and> tables s' = tables s"
  by (auto simp: effective_set_composition_def set_pieces_def run_simps split: if_splits)

lemma minifig_composition_run:
  "run_state (minifig_composition i) s = (rows, s') \<Longrightarrow>
   (rows = [] \<or> rows = minifig_pieces i (tables s)) \<and> tables s' = tables s"
  by (auto simp: minifig_composition_def minifig_pieces_def run_simps split: if_splits)

lemma reads_composition [reads_rules]:
  "reads_only (effective_set_composition i spares)" "reads_only (minifig_composition i)"
  by (auto simp: effective_set_composition_def minifig_composition_def intro!: reads_rules)

section \<open>CompositionToInventoryService\<close>

text \<open>The quantity of a row is a \<open>qint64\<close>.\<close>

record placed_row =
  plc_part :: int
  plc_color :: int
  plc_storage :: int
  plc_quantity :: int

record addition_context =
  ctx_workspace :: int
  ctx_manufacturer :: int
  ctx_condition :: string
  ctx_ownership :: string
  ctx_movement :: string
  ctx_ref_type :: string
  ctx_ref_id :: string
  ctx_notes :: string

datatype addition_error = InvalidAddition | DestinationUnavailable | IdentityUnavailable
  | QuantitiesUnreadable | QuantityOverflow | TotalTooLarge | AdditionNotRecorded

definition int64_max :: int where
  "int64_max = 9223372036854775807"

definition placed_key :: "placed_row \<Rightarrow> int \<times> int \<times> int" where
  "placed_key r = (plc_part r, plc_color r, plc_storage r)"

text \<open>The rows by part, color and destination, in the order of a \<open>std::map\<close>.\<close>

fun aggregate :: "placed_row list \<Rightarrow> ((int \<times> int \<times> int) \<times> int) list
    \<Rightarrow> ((int \<times> int \<times> int) \<times> int) list option" where
  "aggregate [] rows = (if rows = [] then None else Some (sort_key fst rows))"
| "aggregate (r # rs) rows =
     (if plc_part r \<le> 0 \<or> plc_color r \<le> 0 \<or> plc_storage r \<le> 0 \<or> plc_quantity r \<le> 0
        \<or> plc_quantity r > int_max then None
      else case map_of rows (placed_key r) of
        None \<Rightarrow> aggregate rs (rows @ [(placed_key r, plc_quantity r)])
      | Some n \<Rightarrow> if n > int_max - plc_quantity r then None
          else aggregate rs (AList.update (placed_key r) (n + plc_quantity r) rows))"

definition identity_available :: "int \<Rightarrow> int \<Rightarrow> int \<Rightarrow> tables \<Rightarrow> bool" where
  "identity_available p c m t \<longleftrightarrow> list_ex (\<lambda>x. part_id x = p \<and> part_active x) (parts t)
     \<and> c \<in> set (colors t) \<and> m \<in> set (map man_id (manufacturers t))"

definition existing_quantities :: "addition_context \<Rightarrow> int \<times> int \<times> int \<Rightarrow> tables \<Rightarrow> int list" where
  "existing_quantities x = (\<lambda>(p, c, l) t. map inv_quantity (filter (\<lambda>r.
     inventory_identity r = (ctx_workspace x, p, c, l, ctx_manufacturer x, ctx_condition x, ctx_ownership x))
     (inventory t)))"

fun validate_rows :: "addition_context \<Rightarrow> ((int \<times> int \<times> int) \<times> int) list \<Rightarrow> int
    \<Rightarrow> (session, addition_error + int) state" where
  "validate_rows x [] n = ret (Inr n)"
| "validate_rows x ((k, q) # rows) n = do {
     destination \<leftarrow> valid_destination_checked (ctx_workspace x) (snd (snd k)) AllowsInventory 0;
     if destination \<noteq> Yes then ret (Inl DestinationUnavailable)
     else do {
       known \<leftarrow> sql_query (identity_available (fst k) (fst (snd k)) (ctx_manufacturer x));
       if known \<noteq> Some True then ret (Inl IdentityUnavailable)
       else do {
         existing \<leftarrow> sql_query (existing_quantities x k);
         case existing of None \<Rightarrow> ret (Inl QuantitiesUnreadable)
         | Some existing \<Rightarrow>
             if list_ex (\<lambda>e. e < 0 \<or> e > int_max - q) existing then ret (Inl QuantityOverflow)
             else if n > int64_max - q then ret (Inl TotalTooLarge)
             else validate_rows x rows (n + q)
       }
     }
   }"

definition validate_addition :: "addition_context \<Rightarrow> placed_row list \<Rightarrow> (session, addition_error + int) state" where
  "validate_addition x input =
     (if ctx_workspace x \<le> 0 \<or> ctx_manufacturer x \<le> 0 \<or> ctx_condition x \<notin> {''Used'', ''New''}
        \<or> ctx_ownership x \<noteq> ''Owned'' then ret (Inl InvalidAddition)
      else case aggregate input [] of None \<Rightarrow> ret (Inl InvalidAddition)
        | Some rows \<Rightarrow> validate_rows x rows 0)"

definition placed_record :: "addition_context \<Rightarrow> placed_row \<Rightarrow> inventory_row" where
  "placed_record x r = \<lparr>inv_id = 0, inv_workspace = ctx_workspace x, inv_part = plc_part r,
     inv_color = plc_color r, inv_storage = plc_storage r, inv_manufacturer = ctx_manufacturer x,
     inv_condition = ctx_condition x, inv_ownership = ctx_ownership x,
     inv_quantity = int32 (plc_quantity r)\<rparr>"

fun add_rows :: "addition_context \<Rightarrow> placed_row list \<Rightarrow> int list \<Rightarrow> (session, int list option) state" where
  "add_rows x [] ids = ret (Some ids)"
| "add_rows x (r # rs) ids = do {
     added \<leftarrow> add_or_increase_in_current_transaction (placed_record x r) (ctx_movement x)
       (ctx_ref_type x) (ctx_ref_id x) (ctx_notes x);
     case added of None \<Rightarrow> ret None
     | Some (after, result) \<Rightarrow> add_rows x rs (ids @ [add_record result])
   }"

text \<open>The answer: the records in the order of the rows, and the number of pieces.\<close>

definition add_composition ::
    "addition_context \<Rightarrow> placed_row list \<Rightarrow> (session, addition_error + int list \<times> int) state" where
  "add_composition x input = do {
     valid \<leftarrow> validate_addition x input;
     case valid of Inl e \<Rightarrow> ret (Inl e)
     | Inr n \<Rightarrow> do {
         ids \<leftarrow> add_rows x input [];
         ret (case ids of None \<Rightarrow> Inl AdditionNotRecorded | Some ids \<Rightarrow> Inr (ids, n))
       }
   }"

section \<open>What an addition did\<close>

definition row_ok :: "placed_row \<Rightarrow> bool" where
  "row_ok r \<longleftrightarrow> 0 < plc_part r \<and> 0 < plc_color r \<and> 0 < plc_storage r \<and> 0 < plc_quantity r
     \<and> plc_quantity r \<le> int_max"

definition pieces_of :: "placed_row list \<Rightarrow> int" where
  "pieces_of rows = sum_list (map plc_quantity rows)"

lemma pieces_of_simps [simp]: "pieces_of [] = 0" "pieces_of (r # rs) = plc_quantity r + pieces_of rs"
  by (simp_all add: pieces_of_def)

lemma sum_update_assoc:
  "map_of rows k = Some n \<Longrightarrow> sum_list (map snd (AList.update k (n + q) rows)) = sum_list (map snd rows) + q"
  for q :: int
  by (induction rows) (auto split: if_splits)

lemma sum_sort_key: "sum_list (map snd (sort_key f rows)) = sum_list (map snd rows)"
  for rows :: "('a \<times> int) list"
proof (induction rows)
  case (Cons r rows)
  have "sum_list (map snd (insort_key f r xs)) = snd r + sum_list (map snd xs)" for xs
    by (induction xs) auto
  with Cons show ?case by simp
qed simp

lemma aggregate_facts:
  "aggregate input rows = Some out \<Longrightarrow>
   list_all row_ok input \<and> sum_list (map snd out) = sum_list (map snd rows) + pieces_of input"
proof (induction input arbitrary: rows)
  case Nil
  then show ?case by (auto simp: sum_sort_key split: if_splits)
next
  case (Cons r rs)
  then show ?case
    by (auto simp: row_ok_def sum_update_assoc split: if_splits option.splits)
qed

lemma reads_valid_destination: "reads_only (valid_destination_checked ws i cap e)"
  by (auto simp: valid_destination_checked_def intro!: reads_rules)

lemma reads_validate_rows [reads_rules]: "reads_only (validate_rows x rows n)"
proof (induction x rows n rule: validate_rows.induct)
  case (2 x k q rows n)
  then show ?case by (auto intro!: reads_rules reads_valid_destination)
qed (auto intro: reads_rules)

lemma reads_validate_addition [reads_rules]: "reads_only (validate_addition x input)"
  by (auto simp: validate_addition_def intro!: reads_rules)

lemma validate_rows_total:
  "run_state (validate_rows x rows n) s = (Inr m, s') \<Longrightarrow> m = n + sum_list (map snd rows)"
proof (induction rows arbitrary: n s)
  case (Cons kq rows)
  from Cons.prems show ?case
    by (cases kq) (auto simp: run_simps dest!: Cons.IH split: prod.splits if_splits)
qed (simp add: run_simps)

lemma validate_addition_facts:
  assumes "run_state (validate_addition x input) s = (Inr n, s')"
  shows "list_all row_ok input" "n = pieces_of input" "ctx_condition x \<in> {''Used'', ''New''}"
    "ctx_ownership x = ''Owned''" "0 < ctx_manufacturer x" "tables s' = tables s"
proof -
  from assms obtain rows where rows: "aggregate input [] = Some rows"
      "run_state (validate_rows x rows 0) s = (Inr n, s')"
    and x: "ctx_condition x \<in> {''Used'', ''New''}" "ctx_ownership x = ''Owned''" "0 < ctx_manufacturer x"
    by (auto simp: validate_addition_def run_simps split: if_splits option.splits)
  from aggregate_facts [OF rows(1)] validate_rows_total [OF rows(2)]
  show "list_all row_ok input" "n = pieces_of input" by simp_all
  show "ctx_condition x \<in> {''Used'', ''New''}" "ctx_ownership x = ''Owned''" "0 < ctx_manufacturer x"
    by (rule x)+
  show "tables s' = tables s"
    using readsD [OF reads_validate_rows rows(2)] by simp
qed

definition placed_identity :: "addition_context \<Rightarrow> placed_row \<Rightarrow> identity" where
  "placed_identity x r = (ctx_workspace x, plc_part r, plc_color r, plc_storage r, ctx_manufacturer x,
     ctx_condition x, ctx_ownership x)"

lemma trimmed_words [simp]:
  "trimmed ''Used'' = ''Used''" "trimmed ''New'' = ''New''" "trimmed ''Owned'' = ''Owned''"
  by (simp_all add: trimmed_def is_space_def)

lemma placed_record_simps:
  assumes "row_ok r"
  shows "inv_quantity (placed_record x r) = plc_quantity r"
  using assms by (simp add: placed_record_def row_ok_def int32_id int_range_def)

lemma placed_record_identity:
  assumes "ctx_condition x \<in> {''Used'', ''New''}" "ctx_ownership x = ''Owned''"
  shows "inventory_identity (bound_inventory ((placed_record x r)\<lparr>inv_manufacturer := ctx_manufacturer x\<rparr>))
    = placed_identity x r"
  using assms by (auto simp: placed_record_def placed_identity_def bound_inventory_def inventory_identity_def)

lemma add_rows_accounts:
  assumes "run_state (add_rows x rows ids) s = (Some ids', s')" "agree d (tables s)"
    "list_all row_ok rows" "ctx_condition x \<in> {''Used'', ''New''}" "ctx_ownership x = ''Owned''"
    "0 < ctx_manufacturer x" "plain_type (ctx_movement x)"
  shows "agree d (tables s') \<and> only_inventory (tables s) (tables s')
    \<and> length ids' = length ids + length rows
    \<and> (\<forall>Q. stock Q (tables s') = stock Q (tables s)
         + pieces_of (filter (\<lambda>r. Q (placed_identity x r)) rows))"
  using assms
proof (induction rows arbitrary: s ids)
  case Nil
  then show ?case by (simp add: run_simps)
next
  case (Cons r rs)
  obtain added s1 where add: "run_state (add_or_increase_in_current_transaction (placed_record x r)
      (ctx_movement x) (ctx_ref_type x) (ctx_ref_id x) (ctx_notes x)) s = (added, s1)" by fastforce
  with Cons.prems(1) obtain after result where a: "added = Some (after, result)"
    and rest: "run_state (add_rows x rs (ids @ [add_record result])) s1 = (Some ids', s')"
    by (auto simp: run_simps split: option.splits)
  have ok: "row_ok r" "list_all row_ok rs" using Cons.prems(3) by simp_all
  have q: "inv_quantity (placed_record x r) = plc_quantity r" "plc_quantity r \<le> int_max"
    using placed_record_simps [OF ok(1)] ok(1) by (simp_all add: row_ok_def)
  obtain m where m: "m = ctx_manufacturer x"
    "\<And>Q. stock Q (tables s1) = stock Q (tables s)
      + (if Q (inventory_identity (bound_inventory ((placed_record x r)\<lparr>inv_manufacturer := m\<rparr>)))
         then plc_quantity r else 0)"
    "agree d (tables s1)" "only_inventory (tables s) (tables s1)"
    by (rule add_accounts [OF add [unfolded a] Cons.prems(2) _ Cons.prems(7)])
       (use q Cons.prems(6) in \<open>auto simp: placed_record_def\<close>)
  note IH = Cons.IH [OF rest m(3) ok(2) Cons.prems(4-7)]
  show ?case
    using IH m(2) only_inventory_trans [OF m(4)] placed_record_identity [OF Cons.prems(4,5)]
    by (auto simp: m(1))
qed

lemma add_composition_accounts:
  assumes "run_state (add_composition x rows) s = (Inr (ids, n), s')" "agree d (tables s)"
    "plain_type (ctx_movement x)"
  shows "agree d (tables s')" "only_inventory (tables s) (tables s')" "n = pieces_of rows"
    "length ids = length rows" "list_all row_ok rows" "ctx_condition x \<in> {''Used'', ''New''}"
    "\<And>Q. stock Q (tables s') = stock Q (tables s) + pieces_of (filter (\<lambda>r. Q (placed_identity x r)) rows)"
proof -
  obtain valid s1 where v: "run_state (validate_addition x rows) s = (valid, s1)" by fastforce
  with assms(1) obtain k where k: "valid = Inr k"
    by (auto simp: add_composition_def run_simps split: sum.splits)
  obtain more s2 where a: "run_state (add_rows x rows []) s1 = (more, s2)" by fastforce
  from assms(1) v k a have m: "more = Some ids" "n = k" "s2 = s'"
    by (auto simp: add_composition_def run_simps split: option.splits)
  note f = validate_addition_facts [OF v [unfolded k]]
  have acc: "agree d (tables s1)" using f(6) assms(2) by simp
  note e = add_rows_accounts [OF a [unfolded m] acc f(1,3,4,5) assms(3)]
  show "agree d (tables s')" "only_inventory (tables s) (tables s')" "n = pieces_of rows"
    "length ids = length rows" "list_all row_ok rows" "ctx_condition x \<in> {''Used'', ''New''}"
    "\<And>Q. stock Q (tables s') = stock Q (tables s) + pieces_of (filter (\<lambda>r. Q (placed_identity x r)) rows)"
    using e f m by simp_all
qed

lemma keeps_add_composition [keeps_rules]: "keeps_connection (add_composition x rows)"
proof -
  have "keeps_connection (add_rows x rows ids)" for ids
    by (induction rows arbitrary: ids) (auto intro!: keeps_rules)
  then show ?thesis
    by (auto simp: add_composition_def intro!: keeps_rules reads_keeps [OF reads_validate_addition])
qed

end
