(* ===== verification/CollectionDisassembly.thy ===== *)
theory CollectionDisassembly
  imports Compositions BuildConservation
begin

text \<open>
  Taking apart a Set or Minifig of the Collection that does not come from a Build
  (\<open>services/collection/CollectionDisassemblyService\<close>): the required pieces of its catalog
  composition go into the inventory, at the destinations the caller assigned, and the item becomes
  unassembled.
\<close>

section \<open>The plan\<close>

datatype disassembly_error = DisInvalidInput | DisNotFound | DisIneligible | DisUnsupported
  | DisCompositionUnavailable | DisInvalidDestination | DisStale | DisDatabaseFailure

text \<open>The rows by part and color, while the composition is read.\<close>

record plan_state =
  pls_rows :: "((int \<times> int) \<times> int) list"
  pls_overflow :: bool
  pls_spare_rows :: int
  pls_spare_pieces :: int

definition amount_of :: "('k \<times> int) list \<Rightarrow> 'k \<Rightarrow> int" where
  "amount_of rows k = (case map_of rows k of None \<Rightarrow> 0 | Some n \<Rightarrow> n)"

definition append_row :: "composition_row \<Rightarrow> plan_state \<Rightarrow> plan_state" where
  "append_row r p =
     (let q = cmp_quantity r; k = (cmp_part r, cmp_color r) in
      if q > int_max then p\<lparr>pls_overflow := True\<rparr>
      else if cmp_spare r then
        (let p = p\<lparr>pls_spare_rows := pls_spare_rows p + 1\<rparr> in
         if pls_spare_pieces p > int_max - max 0 q then p\<lparr>pls_overflow := True\<rparr>
         else p\<lparr>pls_spare_pieces := pls_spare_pieces p + max 0 q\<rparr>)
      else if cmp_part r \<le> 0 \<or> cmp_color r \<le> 0 \<or> q \<le> 0 then p
      else if amount_of (pls_rows p) k > int_max - q then p\<lparr>pls_overflow := True\<rparr>
      else p\<lparr>pls_rows := AList.update k (amount_of (pls_rows p) k + q) (pls_rows p)\<rparr>)"

definition plan_of :: "composition_row list \<Rightarrow> plan_state" where
  "plan_of rows = fold append_row rows
     \<lparr>pls_rows = [], pls_overflow = False, pls_spare_rows = 0, pls_spare_pieces = 0\<rparr>"

record disassembly_plan =
  dpl_item :: collection_item
  dpl_reference :: string
  dpl_rows :: "((int \<times> int) \<times> int) list"
  dpl_pieces :: int
  dpl_spare_rows :: int
  dpl_spare_pieces :: int

text \<open>The identities of the rows, and their total.\<close>

fun check_plan_rows :: "((int \<times> int) \<times> int) list \<Rightarrow> int \<Rightarrow> (session, disassembly_error + int) state" where
  "check_plan_rows [] n = ret (Inr n)"
| "check_plan_rows (((p, c), q) # rows) n = do {
     part \<leftarrow> part_by_id p;
     color \<leftarrow> color_by_id c;
     if (case part of None \<Rightarrow> True | Some x \<Rightarrow> \<not> part_active x) \<or> color = None
     then ret (Inl DisCompositionUnavailable)
     else if n > int_max - q then ret (Inl DisCompositionUnavailable)
     else check_plan_rows rows (n + q)
   }"

text \<open>\<open>displayById\<close>: the item with the number of its Set or Minifig.\<close>

definition display_reference :: "tables \<Rightarrow> collection_row \<Rightarrow> string" where
  "display_reference t c =
     (if col_type c = ''Set'' then
        (case find (\<lambda>x. sct_id x = col_set_catalog c) (set_catalog t) of None \<Rightarrow> [] | Some x \<Rightarrow> sct_number x)
      else if col_type c = ''Minifig'' then
        (case map_of (minifig_numbers t) (col_minifig_catalog c) of None \<Rightarrow> [] | Some n \<Rightarrow> n)
      else (case find (\<lambda>b. bld_id b = col_source_build c) (builds t) of None \<Rightarrow> [] | Some b \<Rightarrow> bld_set_number b))"

definition collection_display :: "int \<Rightarrow> (session, (collection_item \<times> string) option) state" where
  "collection_display i =
     (if i \<le> 0 then ret None
      else do {
        row \<leftarrow> sql_query (\<lambda>t. map_option (\<lambda>c. (item_from_row c, display_reference t c))
          (find (\<lambda>c. col_id c = i) (collection t)));
        ret (found_row row)
      })"

definition ineligible :: "collection_item \<Rightarrow> disassembly_error option" where
  "ineligible item =
     (if \<not> itm_active item \<or> itm_state item \<noteq> Assembled \<or> itm_completeness item \<noteq> CompleteItem
      then Some DisIneligible
      else if itm_source_build item > 0 \<or> itm_type item \<notin> {SetItem, MinifigItem} then Some DisUnsupported
      else None)"

definition item_composition :: "collection_item \<Rightarrow> (session, composition_row list option) state" where
  "item_composition item =
     (if itm_type item = SetItem then effective_set_composition (itm_set_catalog item) True
      else do { rows \<leftarrow> minifig_composition (itm_minifig_catalog item); ret (Some rows) })"

definition build_plan :: "int \<Rightarrow> (session, disassembly_error + disassembly_plan) state" where
  "build_plan i =
     (if i \<le> 0 then ret (Inl DisInvalidInput)
      else do {
        display \<leftarrow> collection_display i;
        case display of None \<Rightarrow> ret (Inl DisNotFound)
        | Some (item, reference) \<Rightarrow>
          (case ineligible item of Some e \<Rightarrow> ret (Inl e)
           | None \<Rightarrow> do {
               composition \<leftarrow> item_composition item;
               case composition of None \<Rightarrow> ret (Inl DisDatabaseFailure)
               | Some composition \<Rightarrow>
                   (let p = plan_of composition; rows = sort_key fst (pls_rows p) in
                    if pls_overflow p then ret (Inl DisCompositionUnavailable)
                    else do {
                      pieces \<leftarrow> check_plan_rows rows 0;
                      ret (case pieces of Inl e \<Rightarrow> Inl e
                        | Inr n \<Rightarrow> if rows = [] then Inl DisCompositionUnavailable
                            else Inr \<lparr>dpl_item = item, dpl_reference = reference, dpl_rows = rows,
                              dpl_pieces = n, dpl_spare_rows = pls_spare_rows p,
                              dpl_spare_pieces = pls_spare_pieces p\<rparr>)
                    })
             })
      })"

section \<open>Disassembling\<close>

record destination_assignment =
  dst_part :: int
  dst_color :: int
  dst_quantity :: int
  dst_storage :: int

definition assignment_key :: "destination_assignment \<Rightarrow> int \<times> int" where
  "assignment_key a = (dst_part a, dst_color a)"

fun check_assignments :: "int \<Rightarrow> ((int \<times> int) \<times> int) list \<Rightarrow> destination_assignment list
    \<Rightarrow> ((int \<times> int) \<times> int) list \<Rightarrow> (session, disassembly_error + ((int \<times> int) \<times> int) list) state" where
  "check_assignments ws required [] assigned = ret (Inr assigned)"
| "check_assignments ws required (a # as) assigned =
     (if map_of required (assignment_key a) = None \<or> dst_quantity a \<le> 0 \<or> dst_storage a \<le> 0
      then ret (Inl DisInvalidInput)
      else do {
        destination \<leftarrow> valid_destination_checked ws (dst_storage a) AllowsInventory 0;
        if destination \<noteq> Yes then ret (Inl DisInvalidDestination)
        else if amount_of assigned (assignment_key a) > int_max - dst_quantity a
        then ret (Inl DisInvalidInput)
        else check_assignments ws required as (AList.update (assignment_key a)
          (amount_of assigned (assignment_key a) + dst_quantity a) assigned)
      })"

definition disassembly_context :: "disassembly_plan \<Rightarrow> int \<Rightarrow> addition_context" where
  "disassembly_context plan manufacturer =
     \<lparr>ctx_workspace = itm_workspace (dpl_item plan), ctx_manufacturer = manufacturer,
      ctx_condition = condition_to_string (itm_condition (dpl_item plan)), ctx_ownership = ''Owned'',
      ctx_movement = ''CollectionDisassembly'', ctx_ref_type = ''Collection'',
      ctx_ref_id = number_text (itm_id (dpl_item plan)),
      ctx_notes = ''Required piece returned while disassembling Collection item ''
        @ number_text (itm_id (dpl_item plan)) @ '' ('' @ dpl_reference plan @ '').''\<rparr>"

definition placed_assignment :: "destination_assignment \<Rightarrow> placed_row" where
  "placed_assignment a = \<lparr>plc_part = dst_part a, plc_color = dst_color a, plc_storage = dst_storage a,
     plc_quantity = dst_quantity a\<rparr>"

record item_disassembly_result =
  idr_inventory :: "int list"
  idr_pieces :: int
  idr_rows :: int

text \<open>The expected version of the item is \<open>None\<close> when the \<open>QDateTime\<close> is not valid.\<close>

definition disassemble_item_in_current_transaction ::
    "int \<Rightarrow> int option \<Rightarrow> destination_assignment list
     \<Rightarrow> (session, disassembly_error + item_disassembly_result) state" where
  "disassemble_item_in_current_transaction i expected as =
     (case expected of None \<Rightarrow> ret (Inl DisInvalidInput)
      | Some version \<Rightarrow> do {
          plan \<leftarrow> build_plan i;
          case plan of Inl e \<Rightarrow> ret (Inl e)
          | Inr plan \<Rightarrow>
            if itm_modified (dpl_item plan) \<noteq> version then ret (Inl DisStale)
            else do {
              assigned \<leftarrow> check_assignments (itm_workspace (dpl_item plan)) (dpl_rows plan) as [];
              case assigned of Inl e \<Rightarrow> ret (Inl e)
              | Inr assigned \<Rightarrow>
                if sort_key fst assigned \<noteq> dpl_rows plan then ret (Inl DisInvalidInput)
                else do {
                  manufacturer \<leftarrow> lego_manufacturer_id;
                  if manufacturer \<le> 0 then ret (Inl DisDatabaseFailure)
                  else do {
                    added \<leftarrow> add_composition (disassembly_context plan manufacturer)
                      (map placed_assignment as);
                    case added of Inl e \<Rightarrow> ret (Inl DisDatabaseFailure)
                    | Inr (ids, n) \<Rightarrow> do {
                        moved \<leftarrow> transition_catalog_item_to_unassembled i
                          (itm_workspace (dpl_item plan)) version;
                        ret (if moved then Inr \<lparr>idr_inventory = ids, idr_pieces = int32 n,
                            idr_rows = int (length as)\<rparr>
                          else Inl DisStale)
                      }
                  }
                }
            }
        })"

definition disassemble_item :: "int \<Rightarrow> int option \<Rightarrow> destination_assignment list
    \<Rightarrow> (session, disassembly_error + item_disassembly_result) state" where
  "disassemble_item i expected as =
     (if expected = None then ret (Inl DisInvalidInput)
      else host_transaction DisInvalidInput DisDatabaseFailure
        (disassemble_item_in_current_transaction i expected as))"

section \<open>Amounts by key\<close>

lemma amount_of_Nil [simp]: "amount_of [] k = 0"
  by (simp add: amount_of_def)

lemma amount_of_update [simp]:
  "amount_of (AList.update k n rows) k' = (if k' = k then n else amount_of rows k')"
  by (simp add: amount_of_def update_conv')

lemma amount_of_set:
  assumes "distinct (map fst rows)" "distinct (map fst rows')" "set rows = set rows'"
  shows "amount_of rows k = amount_of rows' k"
proof (cases "map_of rows k")
  case None
  then have "k \<notin> fst ` set rows'" using assms(3) by (simp add: map_of_eq_None_iff)
  then have "map_of rows' k = None" by (simp add: map_of_eq_None_iff)
  with None show ?thesis by (simp add: amount_of_def)
next
  case (Some n)
  then have "map_of rows' k = Some n" using assms by (simp add: map_of_eq_Some_iff)
  with Some show ?thesis by (simp add: amount_of_def)
qed

lemma amount_of_sort [simp]:
  "distinct (map fst rows) \<Longrightarrow> amount_of (sort_key fst rows) k = amount_of rows k"
  by (rule amount_of_set) (simp_all add: distinct_map)

definition required :: "int \<Rightarrow> int \<Rightarrow> composition_row list \<Rightarrow> int" where
  "required p c rows = sum_where cmp_quantity
     (\<lambda>r. \<not> cmp_spare r \<and> cmp_part r = p \<and> cmp_color r = c \<and> 0 < cmp_quantity r) rows"

lemma append_row_facts:
  assumes "\<not> pls_overflow (append_row r st)" "distinct (map fst (pls_rows st))"
  shows "\<not> pls_overflow st" "distinct (map fst (pls_rows (append_row r st)))"
    "0 < p \<Longrightarrow> 0 < c \<Longrightarrow> amount_of (pls_rows (append_row r st)) (p, c)
       = amount_of (pls_rows st) (p, c) + required p c [r]"
  using assms
  by (auto simp: append_row_def Let_def required_def distinct_update
      split: if_splits)

lemma plan_rows_facts:
  assumes "\<not> pls_overflow (fold append_row rows st)" "distinct (map fst (pls_rows st))"
  shows "distinct (map fst (pls_rows (fold append_row rows st)))
    \<and> (0 < p \<longrightarrow> 0 < c \<longrightarrow> amount_of (pls_rows (fold append_row rows st)) (p, c)
        = amount_of (pls_rows st) (p, c) + required p c rows)"
  using assms
proof (induction rows arbitrary: st)
  case (Cons r rows)
  have sticky: "pls_overflow st \<Longrightarrow> pls_overflow (append_row r st)" for r st
    by (simp add: append_row_def Let_def)
  have "pls_overflow st \<Longrightarrow> pls_overflow (fold append_row rows st)" for st
    by (induction rows arbitrary: st) (auto intro: sticky)
  with Cons.prems(1) have calm: "\<not> pls_overflow (append_row r st)" by auto
  note one = append_row_facts [OF calm Cons.prems(2)]
  from Cons.IH [OF _ one(2)] Cons.prems(1) one(3) show ?case
    by (auto simp: required_def)
qed (simp add: required_def)

lemma plan_of_facts:
  assumes "\<not> pls_overflow (plan_of rows)"
  shows "distinct (map fst (pls_rows (plan_of rows)))"
    "0 < p \<Longrightarrow> 0 < c \<Longrightarrow> amount_of (pls_rows (plan_of rows)) (p, c) = required p c rows"
  using plan_rows_facts [of rows "\<lparr>pls_rows = [], pls_overflow = False, pls_spare_rows = 0, pls_spare_pieces = 0\<rparr>" p c]
    assms
  by (simp_all add: plan_of_def amount_of_def)

definition assigned_to :: "int \<times> int \<Rightarrow> destination_assignment list \<Rightarrow> int" where
  "assigned_to k as = sum_where dst_quantity (\<lambda>a. assignment_key a = k) as"

lemma check_assignments_facts:
  assumes "run_state (check_assignments ws rows as assigned) s = (Inr out, s')"
    "distinct (map fst assigned)"
  shows "distinct (map fst out) \<and> tables s' = tables s
    \<and> amount_of out k = amount_of assigned k + assigned_to k as"
  using assms
proof (induction as arbitrary: assigned s)
  case (Cons a as)
  obtain d s1 where d: "run_state (valid_destination_checked ws (dst_storage a) AllowsInventory 0) s = (d, s1)"
    by fastforce
  have t1: "tables s1 = tables s" using readsD [OF reads_valid_destination d] by simp
  from Cons.prems(1) d have rest: "run_state (check_assignments ws rows as
      (AList.update (assignment_key a) (amount_of assigned (assignment_key a) + dst_quantity a) assigned)) s1
      = (Inr out, s')"
    by (auto simp: run_simps split: if_splits)
  from Cons.IH [OF rest] Cons.prems(2) t1 show ?case
    by (auto simp: distinct_update assigned_to_def)
qed (simp add: run_simps assigned_to_def)

lemma check_assignments_places:
  assumes "run_state (check_assignments ws rows as assigned) s = (Inr out, s')" "a \<in> set as"
  shows "0 < dst_quantity a \<and> (\<exists>l\<in>set (storage (tables s)). sto_id l = dst_storage a
    \<and> is_destination ws AllowsInventory (tables s) l)"
  using assms
proof (induction as arbitrary: assigned s)
  case (Cons b as)
  obtain d s1 where d: "run_state (valid_destination_checked ws (dst_storage b) AllowsInventory 0) s = (d, s1)"
    by fastforce
  have t1: "tables s1 = tables s" using readsD [OF reads_valid_destination d] by simp
  from Cons.prems(1) d have rest: "run_state (check_assignments ws rows as
      (AList.update (assignment_key b) (amount_of assigned (assignment_key b) + dst_quantity b) assigned)) s1
      = (Inr out, s')" and b: "0 < dst_quantity b" "d = Yes"
    by (auto simp: run_simps split: if_splits)
  from d b(2) have "\<exists>l\<in>set (storage (tables s)). sto_id l = dst_storage b
      \<and> is_destination ws AllowsInventory (tables s) l"
    by (auto simp: valid_destination_checked_def check_of_def run_simps list_ex_iff split: if_splits)
  with b(1) Cons.IH [OF rest] Cons.prems(2) t1 show ?case by auto
qed simp

section \<open>What a disassembly did\<close>

text \<open>The catalog composition of the item a row holds.\<close>

definition item_pieces :: "collection_row \<Rightarrow> tables \<Rightarrow> composition_row list" where
  "item_pieces c t = (if col_type c = ''Set'' then set_pieces (col_set_catalog c) t
     else minifig_pieces (col_minifig_catalog c) t)"

definition disassemblable :: "collection_row \<Rightarrow> bool" where
  "disassemblable c \<longleftrightarrow> col_active c \<and> col_state c = ''Assembled'' \<and> col_completeness c = ''Complete''
     \<and> col_source_build c \<le> 0 \<and> col_type c \<in> {''Set'', ''Minifig''}"

lemma ineligible_row: "ineligible (item_from_row c) = None \<Longrightarrow> disassemblable c"
  by (auto simp: ineligible_def disassemblable_def item_from_row_def state_from_string_def
      completeness_from_string_def type_from_string_def split: if_splits)

lemma reads_item_plan [reads_rules]:
  "reads_only (collection_display i)" "reads_only (item_composition item)"
  "reads_only (part_by_id p)" "reads_only (color_by_id p)" "reads_only (check_plan_rows rows n)"
proof -
  show parts: "reads_only (part_by_id p)" "reads_only (color_by_id p)" for p
    by (auto simp: part_by_id_def color_by_id_def intro!: reads_rules)
  show "reads_only (check_plan_rows rows n)"
    by (induction rows n rule: check_plan_rows.induct) (auto intro!: reads_rules parts)
  show "reads_only (collection_display i)" "reads_only (item_composition item)"
    by (auto simp: collection_display_def item_composition_def intro!: reads_rules)
qed

lemma item_composition_run:
  assumes "run_state (item_composition (item_from_row c)) s = (Some rows, s')" "rows \<noteq> []"
    "disassemblable c"
  shows "rows = item_pieces c (tables s)"
proof (cases "col_type c = ''Set''")
  case True
  then have "run_state (effective_set_composition (col_set_catalog c) True) s = (Some rows, s')"
    using assms(1) by (simp add: item_composition_def item_from_row_def type_from_string_def)
  from effective_set_composition_run [OF this] True show ?thesis by (simp add: item_pieces_def)
next
  case False
  with assms(3) have "col_type c = ''Minifig''" by (simp add: disassemblable_def)
  then have "run_state (minifig_composition (col_minifig_catalog c)) s = (rows, s')"
    using assms(1)
    by (simp add: item_composition_def item_from_row_def type_from_string_def run_simps split: prod.splits)
  from minifig_composition_run [OF this] assms(2) False show ?thesis by (simp add: item_pieces_def)
qed

lemma build_plan_facts:
  assumes "run_state (build_plan i) s = (Inr plan, s')"
  obtains c where "find (\<lambda>c. col_id c = i) (collection (tables s)) = Some c" "disassemblable c"
    "dpl_item plan = item_from_row c" "\<not> pls_overflow (plan_of (item_pieces c (tables s)))"
    "dpl_rows plan = sort_key fst (pls_rows (plan_of (item_pieces c (tables s))))"
    "tables s' = tables s" "0 < i"
proof -
  obtain display s1 where d: "run_state (collection_display i) s = (display, s1)" by fastforce
  from assms d obtain item ref where dis: "display = Some (item, ref)" and inel: "ineligible item = None"
    and i: "0 < i"
    by (auto simp: build_plan_def run_simps split: if_splits option.splits)
  from d dis obtain c where c: "find (\<lambda>c. col_id c = i) (collection (tables s)) = Some c"
      "item = item_from_row c"
    by (auto simp: collection_display_def run_simps found_row_def split: if_splits)
  note dis_c = ineligible_row [OF inel [unfolded c(2)]]
  have t1: "tables s1 = tables s" using readsD [OF reads_item_plan(1) d] by simp
  obtain comp s2 where comp: "run_state (item_composition item) s1 = (comp, s2)" by fastforce
  from assms d dis inel comp i obtain rows where rows: "comp = Some rows"
    by (auto simp: build_plan_def run_simps split: if_splits option.splits)
  let ?p = "plan_of rows"
  obtain n s3 where n: "run_state (check_plan_rows (sort_key fst (pls_rows ?p)) 0) s2 = (n, s3)" by fastforce
  have t3: "tables s3 = tables s"
    using readsD [OF reads_item_plan(5) n] readsD [OF reads_item_plan(2) comp] t1 by simp
  from assms d dis inel comp i rows n have calm: "\<not> pls_overflow ?p"
    by (auto simp: build_plan_def run_simps Let_def split: if_splits)
  with assms d dis inel comp i rows n have fin: "sort_key fst (pls_rows ?p) \<noteq> []" "s' = s3"
      "dpl_item plan = item" "dpl_rows plan = sort_key fst (pls_rows ?p)"
    by (auto simp: build_plan_def run_simps Let_def split: if_splits sum.splits)
  have "rows \<noteq> []"
  proof
    assume "rows = []"
    with fin(1) show False by (simp add: plan_of_def)
  qed
  with comp rows c(2) dis_c t1 have "rows = item_pieces c (tables s)"
    using item_composition_run [of c s1 rows s2] by simp
  with calm fin c dis_c t3 i show thesis by (intro that [of c]) simp_all
qed

lemma transition_success:
  assumes "run_state (transition_catalog_item_to_unassembled i ws version) s = (True, s')"
    "constraints (tables s)"
  shows "\<exists>now. tables s' = (tables s)\<lparr>collection := update_where (\<lambda>c. col_id c = i)
      (\<lambda>c. c\<lparr>col_state := ''Unassembled'', col_modified := now\<rparr>) (collection (tables s))\<rparr>"
    "constraints (tables s')"
proof -
  let ?P = "\<lambda>c. col_id c = i \<and> col_workspace c = ws \<and> col_modified c = version \<and> col_active c
    \<and> col_state c = ''Assembled'' \<and> col_completeness c = ''Complete'' \<and> col_source_build c = 0
    \<and> col_type c \<in> {''Set'', ''Minifig''}"
  let ?f = "\<lambda>c. c\<lparr>col_state := ''Unassembled'', col_modified := clock s\<rparr>"
  from assms(1) have t: "tables s' = snd (update_items ?P ?f (tables s))" "constraints (tables s')"
    and one: "count_where ?P (collection (tables s)) = 1"
    by (auto simp: transition_catalog_item_to_unassembled_def run_simps update_items_def split: if_splits)
  from one obtain c where c: "c \<in> set (collection (tables s))" "?P c"
    using count_where_pos [of ?P "collection (tables s)"] by auto
  have "?P x \<longleftrightarrow> col_id x = i" if "x \<in> set (collection (tables s))" for x
    using constraints_collection_keys [OF assms(2)] that c by (auto simp: distinct_map dest: inj_onD)
  then have "update_where ?P ?f (collection (tables s)) = update_where (\<lambda>c. col_id c = i) ?f (collection (tables s))"
    by (simp add: update_where_def)
  with t(1) show "\<exists>now. tables s' = (tables s)\<lparr>collection := update_where (\<lambda>c. col_id c = i)
      (\<lambda>c. c\<lparr>col_state := ''Unassembled'', col_modified := now\<rparr>) (collection (tables s))\<rparr>"
    by (auto simp: update_items_def)
  show "constraints (tables s')" by (rule t(2))
qed

text \<open>The pieces of a part and color the records of one owner, manufacturer and condition hold.\<close>

definition pieces_held :: "int \<Rightarrow> int \<Rightarrow> int \<Rightarrow> int \<Rightarrow> string \<Rightarrow> tables \<Rightarrow> int" where
  "pieces_held ws p c m cond t =
     stock (\<lambda>(ws', p', c', l, m', cond', own). ws' = ws \<and> p' = p \<and> c' = c \<and> m' = m \<and> cond' = cond) t"

definition assigned_pieces :: "destination_assignment list \<Rightarrow> int" where
  "assigned_pieces as = sum_list (map dst_quantity as)"

text \<open>The record the pieces of one destination enter: where, of which maker and in which condition.\<close>

definition assigned_identity :: "collection_row \<Rightarrow> int \<Rightarrow> destination_assignment \<Rightarrow> identity" where
  "assigned_identity c m a = (col_workspace c, dst_part a, dst_color a, dst_storage a, m, col_condition c, ''Owned'')"

lemma placed_at:
  "pieces_of (filter (\<lambda>r. P (plc_part r, plc_color r, plc_storage r)) (map placed_assignment as))
    = assigned_pieces (filter (\<lambda>a. P (dst_part a, dst_color a, dst_storage a)) as)"
  by (induction as) (auto simp: placed_assignment_def assigned_pieces_def)

lemma placed_pieces:
  "pieces_of (map placed_assignment as) = assigned_pieces as"
  "pieces_of (filter (\<lambda>r. (case placed_identity x r of (ws', p', c', l, m', cond', own) \<Rightarrow>
       ws' = ctx_workspace x \<and> p' = p \<and> c' = c \<and> m' = ctx_manufacturer x \<and> cond' = ctx_condition x))
     (map placed_assignment as)) = assigned_to (p, c) as"
  by (induction as)
     (auto simp: placed_assignment_def placed_identity_def assigned_to_def assigned_pieces_def assignment_key_def)

lemma disassembly_type: "plain_type ''CollectionDisassembly''"
  by (simp add: plain_type_def trimmed_def is_space_def)

lemma condition_read: "condition_to_string (condition_from_string v) \<in> {''Used'', ''New''} \<Longrightarrow>
  condition_to_string (condition_from_string v) = v"
  by (auto simp: condition_from_string_def split: if_splits)

lemma disassemble_item_effect:
  assumes "run_state (disassemble_item_in_current_transaction i expected as) s = (Inr result, s')"
    "agree d0 (tables s)"
  obtains c m now where "find (\<lambda>c. col_id c = i) (collection (tables s)) = Some c" "disassemblable c"
    "expected = Some (col_modified c)" "agree d0 (tables s')"
    "\<exists>x\<in>set (manufacturers (tables s)). nocase_eq (man_code x) ''LEGO'' \<and> man_id x = m"
    "\<And>p k. 0 < p \<Longrightarrow> 0 < k \<Longrightarrow> pieces_held (col_workspace c) p k m (col_condition c) (tables s')
       = pieces_held (col_workspace c) p k m (col_condition c) (tables s)
         + required p k (item_pieces c (tables s))"
    "\<And>Q. stock Q (tables s') = stock Q (tables s) + assigned_pieces (filter (\<lambda>a. Q (assigned_identity c m a)) as)"
    "\<And>p k. 0 < p \<Longrightarrow> 0 < k \<Longrightarrow> assigned_to (p, k) as = required p k (item_pieces c (tables s))"
    "\<forall>a\<in>set as. 0 < dst_quantity a \<and> (\<exists>l\<in>set (storage (tables s)). sto_id l = dst_storage a
       \<and> is_destination (col_workspace c) AllowsInventory (tables s) l)"
    "\<exists>u. only_inventory (tables s) u \<and> tables s' = u\<lparr>collection := update_where (\<lambda>c. col_id c = i)
       (\<lambda>c. c\<lparr>col_state := ''Unassembled'', col_modified := now\<rparr>) (collection (tables s))\<rparr>"
proof -
  from assms(1) obtain version where version: "expected = Some version"
    by (auto simp: disassemble_item_in_current_transaction_def run_simps split: option.splits)
  obtain plan s1 where p: "run_state (build_plan i) s = (plan, s1)" by fastforce
  with assms(1) version obtain d where d: "plan = Inr d" and fresh: "itm_modified (dpl_item d) = version"
    by (auto simp: disassemble_item_in_current_transaction_def run_simps split: sum.splits if_splits)
  obtain c where c: "find (\<lambda>c. col_id c = i) (collection (tables s)) = Some c" "disassemblable c"
      "dpl_item d = item_from_row c" "\<not> pls_overflow (plan_of (item_pieces c (tables s)))"
      "dpl_rows d = sort_key fst (pls_rows (plan_of (item_pieces c (tables s))))" "tables s1 = tables s"
    by (rule build_plan_facts [OF p [unfolded d]]) (rule that, assumption+)
  obtain assigned s2 where a: "run_state (check_assignments (itm_workspace (dpl_item d)) (dpl_rows d) as []) s1
      = (assigned, s2)" by fastforce
  with assms(1) version p d fresh obtain rows where rows: "assigned = Inr rows" "sort_key fst rows = dpl_rows d"
    by (auto simp: disassemble_item_in_current_transaction_def run_simps split: sum.splits if_splits)
  note given = check_assignments_facts [OF a [unfolded rows], simplified]
  obtain m s3 where m: "run_state lego_manufacturer_id s2 = (m, s3)" by fastforce
  with assms(1) version p d fresh a rows have m0: "0 < m"
    by (auto simp: disassemble_item_in_current_transaction_def run_simps split: if_splits)
  from lego_run [OF m m0] given c(6) have t3: "tables s3 = tables s"
    and lego: "\<exists>x\<in>set (manufacturers (tables s)). nocase_eq (man_code x) ''LEGO'' \<and> man_id x = m" by simp_all
  let ?x = "disassembly_context d m"
  obtain added s4 where add: "run_state (add_composition ?x (map placed_assignment as)) s3 = (added, s4)" by fastforce
  with assms(1) version p d fresh a rows m m0 obtain ids n where n: "added = Inr (ids, n)"
    by (auto simp: disassemble_item_in_current_transaction_def run_simps split: sum.splits if_splits)
  obtain moved s5 where mv: "run_state (transition_catalog_item_to_unassembled i (itm_workspace (dpl_item d)) version) s4
      = (moved, s5)" by fastforce
  with assms(1) version p d fresh a rows m m0 add n have fin: "moved" "s5 = s'"
    by (auto simp: disassemble_item_in_current_transaction_def run_simps split: if_splits)
  have acc3: "agree d0 (tables s3)" using t3 assms(2) by simp
  have plain: "plain_type (ctx_movement ?x)" by (simp add: disassembly_context_def disassembly_type)
  note e = add_composition_accounts [OF add [unfolded n] acc3 plain]
  note t = transition_success [OF mv [unfolded fin eqTrueI [OF fin(1)]] accountsD(4) [OF e(1)]]
  obtain now where now: "tables s' = (tables s4)\<lparr>collection := update_where (\<lambda>c. col_id c = i)
      (\<lambda>c. c\<lparr>col_state := ''Unassembled'', col_modified := now\<rparr>) (collection (tables s))\<rparr>"
    using t(1) only_inventory_fields [OF e(2)] t3 by auto
  have x: "ctx_workspace ?x = col_workspace c" "ctx_manufacturer ?x = m" "ctx_condition ?x = col_condition c"
    "ctx_ownership ?x = ''Owned''"
    using e(6) condition_read [of "col_condition c"]
    by (simp_all add: disassembly_context_def c(3) item_from_row_def)
  have inv: "inventory (tables s') = inventory (tables s4)" by (simp add: now)
  have stocked: "stock Q (tables s') = stock Q (tables s)
      + pieces_of (filter (\<lambda>r. Q (placed_identity ?x r)) (map placed_assignment as))" for Q
    using e(7) [of Q] accounts_cong(1) [OF inv, of Q] t3 by simp
  have amounts: "assigned_to (p, k) as = required p k (item_pieces c (tables s))" if "0 < p" "0 < k" for p k
  proof -
    have "amount_of (sort_key fst rows) (p, k) = assigned_to (p, k) as"
      using given by simp
    moreover have "amount_of (dpl_rows d) (p, k) = required p k (item_pieces c (tables s))"
      using plan_of_facts [OF c(4)] that by (simp add: c(5))
    ultimately show ?thesis by (simp add: rows(2))
  qed
  show thesis
  proof (rule that [OF c(1,2) _ _ lego])
    show "expected = Some (col_modified c)"
      using version fresh by (simp add: c(3) item_from_row_def)
    show "agree d0 (tables s')"
      by (rule accounts_cong' [OF e(1) _ _ _ _ t(2)]) (simp_all add: now)
    show "stock Q (tables s') = stock Q (tables s) + assigned_pieces (filter (\<lambda>a. Q (assigned_identity c m a)) as)" for Q
      using stocked [of Q] placed_at [of "\<lambda>(p, k, l). Q (col_workspace c, p, k, l, m, col_condition c, ''Owned'')" as]
      by (simp add: placed_identity_def assigned_identity_def x)
    show "assigned_to (p, k) as = required p k (item_pieces c (tables s))" if "0 < p" "0 < k" for p k
      by (rule amounts [OF that])
    show "\<forall>a\<in>set as. 0 < dst_quantity a \<and> (\<exists>l\<in>set (storage (tables s)). sto_id l = dst_storage a
       \<and> is_destination (col_workspace c) AllowsInventory (tables s) l)"
      using check_assignments_places [OF a [unfolded rows]] c(6) by (auto simp: c(3) item_from_row_def)
    show "pieces_held (col_workspace c) p k m (col_condition c) (tables s')
       = pieces_held (col_workspace c) p k m (col_condition c) (tables s)
         + required p k (item_pieces c (tables s))" if "0 < p" "0 < k" for p k
      unfolding pieces_held_def stocked amounts [OF that, symmetric]
      using placed_pieces(2) [of ?x p k as] by (simp add: x)
    show "\<exists>u. only_inventory (tables s) u \<and> tables s' = u\<lparr>collection := update_where (\<lambda>c. col_id c = i)
       (\<lambda>c. c\<lparr>col_state := ''Unassembled'', col_modified := now\<rparr>) (collection (tables s))\<rparr>"
      using e(2) t3 now by auto
  qed
qed

lemma keeps_check_assignments [keeps_rules]: "keeps_connection (check_assignments ws rows as assigned)"
  by (induction as arbitrary: assigned)
     (auto intro!: keeps_rules reads_keeps [OF reads_valid_destination])

lemma keeps_disassemble_item:
  "keeps_connection (disassemble_item_in_current_transaction i expected as)"
proof -
  have "reads_only (build_plan i)"
    by (auto simp: build_plan_def Let_def intro!: reads_rules split: prod.splits)
  then have plan: "keeps_connection (build_plan i)" by (rule reads_keeps)
  show ?thesis
    by (auto simp: disassemble_item_in_current_transaction_def transition_catalog_item_to_unassembled_def
        intro!: keeps_rules plan reads_keeps [OF reads_lego])
qed

interpretation disassemble_item_body: service_body "disassemble_item_in_current_transaction i expected as"
  for i expected as by unfold_locales (rule keeps_disassemble_item)

text \<open>
  Property C30. Taking apart a Collection item conserves its pieces. A success is one of an active,
  assembled and complete Set or Minifig that no Build is the source of, in the version the caller
  saw; the caller's assignments give for every part and color exactly the required pieces of its
  catalog composition, spares excluded, at destinations that take inventory; the pieces of each
  assignment enter the inventory at its destination, in the condition of the item, owned and under
  the LEGO manufacturer, and no other stock changes, with the inventory still equal to its ledger;
  the item becomes unassembled, and nothing else changes. A failure, whichever statement failed, changes nothing, so no item gives its pieces
  twice.
\<close>

theorem item_disassembly_exact:
  assumes "run_state (disassemble_item i expected as) s = (r, s')" "saved s = None" "accounts (tables s)"
  shows "case r of Inl e \<Rightarrow> tables s' = tables s
    | Inr result \<Rightarrow> \<exists>c m now u. find (\<lambda>c. col_id c = i) (collection (tables s)) = Some c
        \<and> disassemblable c \<and> expected = Some (col_modified c) \<and> accounts (tables s')
        \<and> (\<exists>x\<in>set (manufacturers (tables s)). nocase_eq (man_code x) ''LEGO'' \<and> man_id x = m)
        \<and> (\<forall>p>0. \<forall>k>0. pieces_held (col_workspace c) p k m (col_condition c) (tables s')
             = pieces_held (col_workspace c) p k m (col_condition c) (tables s)
               + required p k (item_pieces c (tables s)))
        \<and> (\<forall>p>0. \<forall>k>0. assigned_to (p, k) as = required p k (item_pieces c (tables s)))
        \<and> (\<forall>a\<in>set as. 0 < dst_quantity a \<and> (\<exists>l\<in>set (storage (tables s)). sto_id l = dst_storage a
             \<and> is_destination (col_workspace c) AllowsInventory (tables s) l))
        \<and> (\<forall>Q. stock Q (tables s') = stock Q (tables s)
             + assigned_pieces (filter (\<lambda>a. Q (assigned_identity c m a)) as))
        \<and> only_inventory (tables s) u
        \<and> tables s' = u\<lparr>collection := update_where (\<lambda>c. col_id c = i)
             (\<lambda>c. c\<lparr>col_state := ''Unassembled'', col_modified := now\<rparr>) (collection (tables s))\<rparr>"
proof (cases "expected = None")
  case True
  with assms show ?thesis by (auto simp: disassemble_item_def run_simps)
next
  case False
  with assms(1) have run: "run_state (host_transaction DisInvalidInput DisDatabaseFailure
      (disassemble_item_in_current_transaction i expected as)) s = (r, s')"
    by (simp add: disassemble_item_def)
  show ?thesis
  proof (cases r)
    case (Inl e)
    with disassemble_item_body.service_atomic [OF run [unfolded Inl] assms(2)] show ?thesis by simp
  next
    case (Inr result)
    obtain v v' where v: "tables v = tables s" "tables s' = tables v'"
        "run_state (disassemble_item_in_current_transaction i expected as) v = (Inr result, v')"
      by (rule disassemble_item_body.service_effect [OF run [unfolded Inr] assms(2)]) auto
    from v(1) assms(3) have acc: "accounts (tables v)" by simp
    show ?thesis
      by (rule disassemble_item_effect [OF v(3) acc]) (unfold Inr sum.case v(1,2), blast)
  qed
qed

text \<open>A set of two required bricks and a spare one, owned assembled; only location 2 is a leaf.\<close>

definition sample_owned :: tables where
  "sample_owned = sample_progress\<lparr>
     collection := [\<lparr>col_id = 1, col_workspace = 1, col_type = ''Set'', col_set_catalog = 7,
       col_minifig_catalog = 0, col_state = ''Assembled'', col_condition = ''Used'',
       col_completeness = ''Complete'', col_storage = 0, col_source_build = 0, col_nickname = [],
       col_notes = [], col_allow_parts = False, col_active = True, col_modified = 3\<rparr>],
     set_catalog_parts := [
       \<lparr>cmp_id = 1, cmp_owner = 7, cmp_part = 10, cmp_color = 5, cmp_quantity = 2, cmp_spare = False\<rparr>,
       \<lparr>cmp_id = 2, cmp_owner = 7, cmp_part = 10, cmp_color = 5, cmp_quantity = 1, cmp_spare = True\<rparr>]\<rparr>"

definition sample_assignment :: "int \<Rightarrow> int \<Rightarrow> destination_assignment" where
  "sample_assignment q l = \<lparr>dst_part = 10, dst_color = 5, dst_quantity = q, dst_storage = l\<rparr>"

lemma accounts_sample_owned: "accounts sample_owned"
proof -
  have "constraints sample_owned"
    by (simp add: constraint_defs sample_owned_def sample_progress_def sample_defs provenance_identity_def)
  then show ?thesis
    by (intro accounts_cong' [OF accounts_sample_progress]) (simp_all add: sample_owned_def)
qed

theorem item_disassembly_exact_witness:
  "stock (\<lambda>(ws, p, k, l, rest). l = 2) (tables (snd (run_state (disassemble_item 1 (Some 3) [sample_assignment 2 2])
       (connect sample_owned)))) = stock (\<lambda>(ws, p, k, l, rest). l = 2) sample_owned + 2
   \<and> tables (snd (run_state (disassemble_item 1 (Some 3) [sample_assignment 3 2])
       (connect sample_owned))) = sample_owned"
proof -
  let ?good = "disassemble_item 1 (Some 3) [sample_assignment 2 2]"
    and ?bad = "disassemble_item 1 (Some 3) [sample_assignment 3 2]"
  have acc: "saved (connect sample_owned) = None" "accounts (tables (connect sample_owned))"
    using accounts_sample_owned by simp_all
  have "succeeds (fst (run_state ?good (connect sample_owned)))"
    "\<not> succeeds (fst (run_state ?bad (connect sample_owned)))" by code_simp+
  then obtain x e where "fst (run_state ?good (connect sample_owned)) = Inr x"
    "fst (run_state ?bad (connect sample_owned)) = Inl e"
    by (metis succeeds_iff succeeds_simps(2) sum.exhaust)
  then show ?thesis
    using item_disassembly_exact [OF prod.collapse [symmetric] acc, of 1 "Some 3" "[sample_assignment 2 2]"]
      item_disassembly_exact [OF prod.collapse [symmetric] acc, of 1 "Some 3" "[sample_assignment 3 2]"]
    by (auto simp: assigned_pieces_def assigned_identity_def sample_assignment_def)
qed

end
