(* ===== verification/BuildCreation.thy ===== *)
theory BuildCreation
  imports CollectionDisassembly BuildPlanning
begin

text \<open>
  Builds from stock made from the catalog (\<open>services/builds/SetBuildCreationService\<close>,
  \<open>MinifigBuildCreationService\<close>): one planned Build with a requirement for every required row of
  the composition of a Set or a Minifig.
\<close>

section \<open>The two services\<close>

datatype creation_error = CreationNotStarted | CreationNotCommitted | NameMissing
  | WorkspaceUnavailable | CatalogUnavailable | CompositionUnreadable | NothingRequired
  | BuildNotStored | RequirementNotStored

record creation_result =
  crr_build :: int
  crr_rows :: int
  crr_pieces :: int
  crr_excluded :: int

definition new_build :: "int \<Rightarrow> string \<Rightarrow> int \<Rightarrow> int \<Rightarrow> string \<Rightarrow> string \<Rightarrow> build_row" where
  "new_build ws kind set_id minifig_id number name =
     \<lparr>bld_id = 0, bld_workspace = ws, bld_type = kind, bld_name = name, bld_set_number = number,
      bld_mode = ''Stock'', bld_status = ''Planned'', bld_active = True, bld_notes = [],
      bld_manufacturer = 0, bld_minifig = minifig_id, bld_set_catalog = set_id\<rparr>"

definition required_row :: "int \<Rightarrow> composition_row \<Rightarrow> requirement_row" where
  "required_row build r = \<lparr>req_id = 0, req_build = build, req_part = cmp_part r, req_color = cmp_color r,
     req_sub_part = 0, req_sub_color = 0, req_required = int32 (cmp_quantity r), req_pulled = 0,
     req_released = 0, req_spare = False\<rparr>"

fun create_requirements ::
    "int \<Rightarrow> composition_row list \<Rightarrow> creation_result \<Rightarrow> (session, creation_error + creation_result) state" where
  "create_requirements build [] result = ret (Inr result)"
| "create_requirements build (r # rs) result = do {
     stored \<leftarrow> requirement_create (required_row build r);
     if stored = None then ret (Inl RequirementNotStored)
     else create_requirements build rs (result\<lparr>crr_rows := crr_rows result + 1,
       crr_pieces := int32 (crr_pieces result + cmp_quantity r)\<rparr>)
   }"

text \<open>What the two services share from the composition on.\<close>

definition create_from_rows ::
    "build_row \<Rightarrow> composition_row list \<Rightarrow> int \<Rightarrow> (session, creation_error + creation_result) state" where
  "create_from_rows b rows excluded =
     (if rows = [] then ret (Inl NothingRequired)
      else do {
        stored \<leftarrow> build_create b;
        case stored of None \<Rightarrow> ret (Inl BuildNotStored)
        | Some b' \<Rightarrow> create_requirements (bld_id b') rows
            \<lparr>crr_build = bld_id b', crr_rows = 0, crr_pieces = 0, crr_excluded = excluded\<rparr>
      })"

definition required_rows :: "composition_row list \<Rightarrow> composition_row list" where
  "required_rows rows = filter (\<lambda>r. \<not> cmp_spare r) rows"

definition spare_pieces :: "composition_row list \<Rightarrow> int" where
  "spare_pieces rows = foldl (\<lambda>n r. if cmp_spare r then int32 (n + cmp_quantity r) else n) 0 rows"

definition workspace_known :: "int \<Rightarrow> (session, bool) state" where
  "workspace_known ws =
     (if ws \<le> 0 then ret False
      else do { w \<leftarrow> workspace_try_get ws; ret (found_row w \<noteq> None) })"

definition create_set_build_in_current_transaction ::
    "int \<Rightarrow> int \<Rightarrow> string \<Rightarrow> (session, creation_error + creation_result) state" where
  "create_set_build_in_current_transaction ws set_id build_name =
     (if trimmed build_name = [] then ret (Inl NameMissing)
      else do {
        known \<leftarrow> workspace_known ws;
        if \<not> known then ret (Inl WorkspaceUnavailable)
        else do {
          catalog \<leftarrow> set_catalog_try_get set_id;
          case found_row catalog of None \<Rightarrow> ret (Inl CatalogUnavailable)
          | Some x \<Rightarrow> do {
              composition \<leftarrow> effective_set_composition set_id True;
              case composition of None \<Rightarrow> ret (Inl CompositionUnreadable)
              | Some rows \<Rightarrow> create_from_rows
                  (new_build ws ''Set'' set_id 0 (sct_number x) (trimmed build_name))
                  (required_rows rows) (spare_pieces rows)
            }
        }
      })"

definition create_minifig_build_in_current_transaction ::
    "int \<Rightarrow> int \<Rightarrow> string \<Rightarrow> (session, creation_error + creation_result) state" where
  "create_minifig_build_in_current_transaction ws minifig_id build_name = do {
     known \<leftarrow> workspace_known ws;
     if \<not> known then ret (Inl WorkspaceUnavailable)
     else do {
       catalog \<leftarrow> minifig_catalog_try_get minifig_id;
       if minifig_id \<le> 0 \<or> found_row catalog = None then ret (Inl CatalogUnavailable)
       else if trimmed build_name = [] then ret (Inl NameMissing)
       else do {
         rows \<leftarrow> minifig_composition minifig_id;
         create_from_rows (new_build ws ''Minifig'' 0 minifig_id [] (trimmed build_name))
           (required_rows rows) 0
       }
     }
   }"

definition create_set_build :: "int \<Rightarrow> int \<Rightarrow> string \<Rightarrow> (session, creation_error + creation_result) state" where
  "create_set_build ws set_id build_name = transactional succeeds (Inl CreationNotStarted)
     (Inl CreationNotCommitted) (create_set_build_in_current_transaction ws set_id build_name)"

definition create_minifig_build :: "int \<Rightarrow> int \<Rightarrow> string \<Rightarrow> (session, creation_error + creation_result) state" where
  "create_minifig_build ws minifig_id build_name = transactional succeeds (Inl CreationNotStarted)
     (Inl CreationNotCommitted) (create_minifig_build_in_current_transaction ws minifig_id build_name)"

section \<open>What a creation stored\<close>

text \<open>The requirements have consecutive identities, from the counter of the table on.\<close>

fun numbered :: "int \<Rightarrow> requirement_row list \<Rightarrow> requirement_row list" where
  "numbered i [] = []"
| "numbered i (r # rs) = put_req_id (i + 1) r # numbered (i + 1) rs"

definition quantities_ok :: "composition_row list \<Rightarrow> bool" where
  "quantities_ok rows \<longleftrightarrow> (\<forall>r\<in>set rows. 0 < int32 (cmp_quantity r))"

lemma bound_required_row [simp]: "bound_requirement (required_row b r) = required_row b r"
  by (simp add: bound_requirement_def required_row_def nullable_def)

lemma required_row_simps [simp]:
  "req_required (required_row b r) = int32 (cmp_quantity r)" "req_pulled (required_row b r) = 0"
  "req_released (required_row b r) = 0"
  by (simp_all add: required_row_def)

lemma create_requirements_effect:
  assumes "run_state (create_requirements b rows result) s = (Inr result', s')" "agree d (tables s)"
  shows "tables s' = (tables s)\<lparr>requirements := requirements (tables s)
        @ numbered (seq_requirement (tables s)) (map (required_row b) rows),
      seq_requirement := seq_requirement (tables s) + int (length rows)\<rparr>
    \<and> agree d (tables s') \<and> quantities_ok rows \<and> crr_build result' = crr_build result
    \<and> crr_rows result' = crr_rows result + int (length rows)"
  using assms
proof (induction rows arbitrary: result s)
  case Nil
  then show ?case by (simp add: run_simps quantities_ok_def)
next
  case (Cons r rs)
  obtain stored s1 where c: "run_state (requirement_create (required_row b r)) s = (stored, s1)" by fastforce
  with Cons.prems(1) obtain x where x: "stored = Some x"
    by (auto simp: run_simps split: if_splits)
  with Cons.prems(1) c have rest: "run_state (create_requirements b rs (result\<lparr>crr_rows := crr_rows result + 1,
      crr_pieces := int32 (crr_pieces result + cmp_quantity r)\<rparr>)) s1 = (Inr result', s')"
    by (simp add: run_simps)
  have one: "tables s1 = snd (insert_requirement (required_row b r) (tables s))" "0 < int32 (cmp_quantity r)"
    using c x by (auto simp: requirement_create_def run_simps requirement_fields_ok_def split: if_splits)
  have acc: "agree d (tables s1)"
    by (rule requirement_create_accounts [OF c [unfolded x] Cons.prems(2)])
       (use int_range_int32 [of "cmp_quantity r"] in \<open>simp_all add: int_range_def int_max_def\<close>)
  note IH = Cons.IH [OF rest acc]
  have "agree d (tables s')" "quantities_ok (r # rs)" "crr_build result' = crr_build result"
    "crr_rows result' = crr_rows result + int (length (r # rs))"
    using conjunct2 [OF IH] one(2) by (simp_all add: quantities_ok_def)
  moreover have "tables s' = (tables s)\<lparr>requirements := requirements (tables s)
        @ numbered (seq_requirement (tables s)) (map (required_row b) (r # rs)),
      seq_requirement := seq_requirement (tables s) + int (length (r # rs))\<rparr>"
    using conjunct1 [OF IH] by (simp add: one(1) insert_requirement_def Let_def)
  ultimately show ?case by blast
qed

lemma build_create_effect:
  assumes "run_state (build_create b) s = (Some b', s')" "agree d (tables s)"
  obtains m where "0 < m" "0 < bld_manufacturer b \<Longrightarrow> m = bld_manufacturer b"
    "tables s' = (tables s)\<lparr>builds := builds (tables s)
        @ [put_bld_id (seq_build (tables s) + 1) (bound_build (b\<lparr>bld_manufacturer := m\<rparr>))],
      seq_build := seq_build (tables s) + 1\<rparr>"
    "bld_id b' = seq_build (tables s) + 1" "agree d (tables s')"
proof -
  obtain m s1 where m: "run_state (build_manufacturer b) s = (m, s1)" by fastforce
  have t1: "tables s1 = tables s" using after_reading [OF reads_build_manufacturer m] by simp
  have t: "0 < m" "tables s' = snd (insert_build (bound_build (b\<lparr>bld_manufacturer := m\<rparr>)) (tables s))"
      "bld_id b' = seq_build (tables s) + 1" "constraints (tables s')"
    using assms(1) m t1
    by (auto simp: build_create_def insert_build_def Let_def run_simps split: if_splits)
  have "agree d (tables s')"
    by (rule accounts_cong' [OF assms(2) _ _ _ _ t(4)]) (simp_all add: t(2) insert_build_def Let_def)
  moreover have "0 < bld_manufacturer b \<Longrightarrow> m = bld_manufacturer b"
    using m by (simp add: build_manufacturer_def run_simps)
  ultimately show thesis using t by (intro that [of m]) (simp_all add: insert_build_def Let_def)
qed

text \<open>The tables after a Build was made from the rows of a composition.\<close>

definition with_build :: "build_row \<Rightarrow> composition_row list \<Rightarrow> tables \<Rightarrow> tables" where
  "with_build b rows t = t\<lparr>builds := builds t @ [put_bld_id (seq_build t + 1) b],
     seq_build := seq_build t + 1,
     requirements := requirements t
       @ numbered (seq_requirement t) (map (required_row (seq_build t + 1)) rows),
     seq_requirement := seq_requirement t + int (length rows)\<rparr>"

lemma create_from_rows_effect:
  assumes "run_state (create_from_rows b rows excluded) s = (Inr result, s')" "agree d (tables s)"
  obtains m where "0 < m" "tables s' = with_build (bound_build (b\<lparr>bld_manufacturer := m\<rparr>)) rows (tables s)"
    "agree d (tables s')" "rows \<noteq> []" "quantities_ok rows" "crr_build result = seq_build (tables s) + 1"
    "crr_rows result = int (length rows)"
proof -
  obtain stored s1 where c: "run_state (build_create b) s = (stored, s1)" by fastforce
  with assms(1) obtain b' where b': "stored = Some b'" and rows: "rows \<noteq> []"
    by (auto simp: create_from_rows_def run_simps split: if_splits option.splits)
  with assms(1) c have rest: "run_state (create_requirements (bld_id b') rows
      \<lparr>crr_build = bld_id b', crr_rows = 0, crr_pieces = 0, crr_excluded = excluded\<rparr>) s1 = (Inr result, s')"
    by (simp add: create_from_rows_def run_simps)
  obtain m where m: "0 < m" "tables s1 = (tables s)\<lparr>builds := builds (tables s)
        @ [put_bld_id (seq_build (tables s) + 1) (bound_build (b\<lparr>bld_manufacturer := m\<rparr>))],
      seq_build := seq_build (tables s) + 1\<rparr>" "bld_id b' = seq_build (tables s) + 1" "agree d (tables s1)"
    by (rule build_create_effect [OF c [unfolded b'] assms(2)]) (rule that, assumption+)
  note e = create_requirements_effect [OF rest m(4)]
  show thesis
  proof (rule that [OF m(1) _ _ rows])
    show "tables s' = with_build (bound_build (b\<lparr>bld_manufacturer := m\<rparr>)) rows (tables s)"
      using conjunct1 [OF e] by (simp add: with_build_def m(2,3))
  qed (use conjunct2 [OF e] m(3) in simp_all)
qed

lemma workspace_known_run:
  "run_state (workspace_known ws) s = (b, s') \<Longrightarrow>
   tables s' = tables s \<and> (b \<longrightarrow> 0 < ws \<and> ws \<in> wsp_id ` set (workspaces (tables s)))"
  by (auto simp: workspace_known_def workspace_try_get_def run_simps found_row_def
      dest!: find_SomeD split: if_splits option.splits)

definition planned_build :: "int \<Rightarrow> string \<Rightarrow> int \<Rightarrow> int \<Rightarrow> string \<Rightarrow> build_row \<Rightarrow> bool" where
  "planned_build ws kind set_id minifig_id name b \<longleftrightarrow> bld_workspace b = ws \<and> bld_type b = kind
     \<and> bld_set_catalog b = set_id \<and> bld_minifig b = minifig_id \<and> bld_name b = trimmed name
     \<and> bld_mode b = ''Stock'' \<and> bld_status b = ''Planned'' \<and> bld_active b \<and> 0 < bld_manufacturer b"

lemma trimmed_kinds [simp]:
  "trimmed ''Set'' = ''Set''" "trimmed ''Minifig'' = ''Minifig''" "trimmed ''Stock'' = ''Stock''"
  "trimmed ''Planned'' = ''Planned''"
  by (simp_all add: trimmed_def is_space_def)

lemma planned_new_build:
  assumes "kind \<in> {''Set'', ''Minifig''}" "0 \<le> set_id" "0 \<le> minifig_id" "0 < m"
  shows "planned_build ws kind set_id minifig_id name
    (bound_build ((new_build ws kind set_id minifig_id number (trimmed name))\<lparr>bld_manufacturer := m\<rparr>))"
  using assms
  by (auto simp: planned_build_def new_build_def bound_build_def nullable_def)

lemma create_set_build_effect:
  assumes "run_state (create_set_build_in_current_transaction ws i name) s = (Inr result, s')"
    "agree d (tables s)"
  obtains number m where "0 < m" "tables s' = with_build (bound_build ((new_build ws ''Set'' i 0 number
      (trimmed name))\<lparr>bld_manufacturer := m\<rparr>)) (required_rows (set_pieces i (tables s))) (tables s)"
    "agree d (tables s')" "required_rows (set_pieces i (tables s)) \<noteq> []"
    "quantities_ok (required_rows (set_pieces i (tables s)))"
    "crr_build result = seq_build (tables s) + 1" "0 < i"
proof -
  obtain known s1 where k: "run_state (workspace_known ws) s = (known, s1)" by fastforce
  obtain catalog s2 where c: "run_state (set_catalog_try_get i) s1 = (catalog, s2)" by fastforce
  from assms(1) k c obtain x where x: "found_row catalog = Some x" and known: "known"
    by (auto simp: create_set_build_in_current_transaction_def run_simps split: if_splits option.splits)
  have t2: "tables s2 = tables s" "0 < i"
    using workspace_known_run [OF k] c x
    by (auto simp: set_catalog_try_get_def run_simps found_row_def split: if_splits)
  obtain comp s3 where e: "run_state (effective_set_composition i True) s2 = (comp, s3)" by fastforce
  with assms(1) k c x known obtain rows where rows: "comp = Some rows"
    by (auto simp: create_set_build_in_current_transaction_def run_simps split: if_splits option.splits)
  from effective_set_composition_run [OF e [unfolded rows]] t2 have
    pieces: "rows = set_pieces i (tables s)" "tables s3 = tables s" by simp_all
  from assms(1) k c x known e rows have fin: "run_state (create_from_rows (new_build ws ''Set'' i 0 (sct_number x)
      (trimmed name)) (required_rows rows) (spare_pieces rows)) s3 = (Inr result, s')"
    by (auto simp: create_set_build_in_current_transaction_def run_simps split: if_splits)
  have acc: "agree d (tables s3)" using pieces assms(2) by simp
  show thesis
    by (rule create_from_rows_effect [OF fin acc]) (rule that [of _ "sct_number x"]; simp add: pieces t2)
qed

lemma create_minifig_build_effect:
  assumes "run_state (create_minifig_build_in_current_transaction ws i name) s = (Inr result, s')"
    "agree d (tables s)"
  obtains m where "0 < m" "tables s' = with_build (bound_build ((new_build ws ''Minifig'' 0 i []
      (trimmed name))\<lparr>bld_manufacturer := m\<rparr>)) (required_rows (minifig_pieces i (tables s))) (tables s)"
    "agree d (tables s')" "required_rows (minifig_pieces i (tables s)) \<noteq> []"
    "quantities_ok (required_rows (minifig_pieces i (tables s)))"
    "crr_build result = seq_build (tables s) + 1" "0 < i"
proof -
  obtain known s1 where k: "run_state (workspace_known ws) s = (known, s1)" by fastforce
  obtain catalog s2 where c: "run_state (minifig_catalog_try_get i) s1 = (catalog, s2)" by fastforce
  from assms(1) k c have i: "0 < i" and known: "known" "found_row catalog \<noteq> None" "trimmed name \<noteq> []"
    by (auto simp: create_minifig_build_in_current_transaction_def run_simps split: if_splits)
  have t2: "tables s2 = tables s"
    using workspace_known_run [OF k] c by (auto simp: minifig_catalog_try_get_def run_simps split: if_splits)
  obtain rows s3 where e: "run_state (minifig_composition i) s2 = (rows, s3)" by fastforce
  with assms(1) k c i known have fin: "run_state (create_from_rows (new_build ws ''Minifig'' 0 i [] (trimmed name))
      (required_rows rows) 0) s3 = (Inr result, s')"
    by (auto simp: create_minifig_build_in_current_transaction_def run_simps split: if_splits)
  have "required_rows rows \<noteq> []"
    using fin by (auto simp: create_from_rows_def run_simps split: if_splits)
  then have "rows \<noteq> []" by (auto simp: required_rows_def)
  with minifig_composition_run [OF e] t2 have
    pieces: "rows = minifig_pieces i (tables s)" "tables s3 = tables s" by simp_all
  have acc: "agree d (tables s3)" using pieces assms(2) by simp
  show thesis
    by (rule create_from_rows_effect [OF fin acc]) (rule that; simp add: pieces i)
qed

lemma keeps_creation:
  "keeps_connection (create_set_build_in_current_transaction ws i name)"
  "keeps_connection (create_minifig_build_in_current_transaction ws i name)"
proof -
  have reqs: "keeps_connection (create_requirements b rows result)" for b rows result
    by (induction rows arbitrary: result) (auto intro!: keeps_rules)
  have rows: "keeps_connection (create_from_rows b rows n)" for b rows n
    by (auto simp: create_from_rows_def intro!: keeps_rules reqs)
  have "reads_only (workspace_known ws)" "reads_only (set_catalog_try_get i)" "reads_only (minifig_catalog_try_get i)"
    by (auto simp: workspace_known_def workspace_try_get_def set_catalog_try_get_def minifig_catalog_try_get_def
        intro!: reads_rules)
  note reading = this [THEN reads_keeps]
  show "keeps_connection (create_set_build_in_current_transaction ws i name)"
    "keeps_connection (create_minifig_build_in_current_transaction ws i name)"
    by (auto simp: create_set_build_in_current_transaction_def create_minifig_build_in_current_transaction_def
        intro!: keeps_rules rows reading reads_composition [THEN reads_keeps])
qed

interpretation create_set_body: transaction_body "create_set_build_in_current_transaction ws i name" succeeds
  for ws i name by unfold_locales (rule keeps_creation)

interpretation create_minifig_body: transaction_body "create_minifig_build_in_current_transaction ws i name" succeeds
  for ws i name by unfold_locales (rule keeps_creation)

text \<open>
  Property C33. A Build made from the catalog is the composition, all of it or nothing. A success
  adds one active planned Build from stock of the Set or Minifig, under the trimmed name, and for
  every required row of its composition one requirement with that part, color and quantity and
  nothing pulled; it changes nothing else, and all accounts still agree. A failure, whichever
  statement failed, changes nothing.
\<close>

theorem catalog_build_exact:
  assumes "run_state (if minifig then create_minifig_build ws i name else create_set_build ws i name) s = (r, s')"
    "saved s = None" "accounts (tables s)"
  shows "case r of Inl e \<Rightarrow> tables s' = tables s
    | Inr result \<Rightarrow> \<exists>b. (if minifig then planned_build ws ''Minifig'' 0 i name b
          else planned_build ws ''Set'' i 0 name b)
        \<and> (let rows = required_rows (if minifig then minifig_pieces i (tables s) else set_pieces i (tables s))
           in rows \<noteq> [] \<and> quantities_ok rows \<and> tables s' = with_build b rows (tables s))
        \<and> crr_build result = seq_build (tables s) + 1 \<and> accounts (tables s')"
proof (cases minifig)
  case True
  note run = assms(1) [unfolded create_minifig_build_def if_P [OF True]]
  show ?thesis
  proof (cases r)
    case (Inl e)
    with create_minifig_body.atomic [OF run assms(2)] show ?thesis by simp
  next
    case (Inr result)
    have ok: "succeeds r" using Inr by simp
    obtain u u' where u: "tables u = tables s" "tables s' = tables u'"
        "run_state (create_minifig_build_in_current_transaction ws i name) u = (Inr result, u')"
      by (rule create_minifig_body.effect [OF run assms(2)]) (use Inr in auto)
    from u(1) assms(3) have acc: "accounts (tables u)" by simp
    show ?thesis
      by (rule create_minifig_build_effect [OF u(3) acc])
         (unfold Inr sum.case u(1,2), use True planned_new_build in \<open>auto simp: Let_def intro!: exI\<close>)
  qed
next
  case False
  note run = assms(1) [unfolded create_set_build_def if_not_P [OF False]]
  show ?thesis
  proof (cases r)
    case (Inl e)
    with create_set_body.atomic [OF run assms(2)] show ?thesis by simp
  next
    case (Inr result)
    obtain u u' where u: "tables u = tables s" "tables s' = tables u'"
        "run_state (create_set_build_in_current_transaction ws i name) u = (Inr result, u')"
      by (rule create_set_body.effect [OF run assms(2)]) (use Inr in auto)
    from u(1) assms(3) have acc: "accounts (tables u)" by simp
    show ?thesis
      by (rule create_set_build_effect [OF u(3) acc])
         (unfold Inr sum.case u(1,2), use False planned_new_build in \<open>auto simp: Let_def intro!: exI\<close>)
  qed
qed

theorem catalog_build_exact_witness:
  "requirements (tables (snd (run_state (create_set_build 1 7 '' Castle '') (connect sample_owned))))
     = requirements sample_owned @ [\<lparr>req_id = 3, req_build = 3, req_part = 10, req_color = 5,
         req_sub_part = 0, req_sub_color = 0, req_required = 2, req_pulled = 0, req_released = 0,
         req_spare = False\<rparr>]
   \<and> tables (snd (run_state (create_minifig_build 1 7 '' Castle '') (connect sample_owned))) = sample_owned"
proof -
  let ?set = "create_set_build 1 7 '' Castle ''" and ?fig = "create_minifig_build 1 7 '' Castle ''"
  have acc: "saved (connect sample_owned) = None" "accounts (tables (connect sample_owned))"
    using accounts_sample_owned by simp_all
  have "succeeds (fst (run_state ?set (connect sample_owned)))"
    "\<not> succeeds (fst (run_state ?fig (connect sample_owned)))" by code_simp+
  then obtain x e where r: "fst (run_state ?set (connect sample_owned)) = Inr x"
    "fst (run_state ?fig (connect sample_owned)) = Inl e"
    by (metis succeeds_iff succeeds_simps(2) sum.exhaust)
  have rows: "required_rows (set_pieces 7 sample_owned) = [\<lparr>cmp_id = 1, cmp_owner = 7, cmp_part = 10,
      cmp_color = 5, cmp_quantity = 2, cmp_spare = False\<rparr>]"
    by code_simp
  have seq: "seq_build sample_owned = 2" "seq_requirement sample_owned = 2" by code_simp+
  define t where "t = snd (run_state ?set (connect sample_owned))"
  have "run_state (if False then ?fig else ?set) (connect sample_owned) = (Inr x, t)"
    using r(1) by (simp add: t_def prod_eq_iff)
  from catalog_build_exact [OF this acc] obtain b
    where "tables t = with_build b (required_rows (set_pieces 7 sample_owned)) sample_owned"
    by (auto simp: Let_def)
  then have made: "requirements (tables t) = requirements sample_owned @ [\<lparr>req_id = 3, req_build = 3,
      req_part = 10, req_color = 5, req_sub_part = 0, req_sub_color = 0, req_required = 2,
      req_pulled = 0, req_released = 0, req_spare = False\<rparr>]"
    by (simp add: rows with_build_def required_row_def put_req_id_def seq int32_def)
  define u where "u = snd (run_state ?fig (connect sample_owned))"
  have "run_state (if True then ?fig else ?set) (connect sample_owned) = (Inl e, u)"
    using r(2) by (simp add: u_def prod_eq_iff)
  from catalog_build_exact [OF this acc] have "tables u = sample_owned" by simp
  with made show ?thesis by (simp add: t_def u_def)
qed

end
