(* ===== verification/Machines.thy ===== *)
theory Machines
  imports Main
begin

text \<open>
  Histories of the components that live in memory and not in the database: a component is
  a state and a function that applies one event to it, and a history is the fold of a list
  of events. The locales state what a component has to show of one event, and conclude it
  for every history; each component interprets them on its own transition function.
\<close>

section \<open>Invariants of histories\<close>

locale guarded_machine =
  fixes step :: "'e \<Rightarrow> 's \<Rightarrow> 's"
    and admitted :: "'e \<Rightarrow> bool"
    and good :: "'s \<Rightarrow> bool"
  assumes step_good: "admitted e \<Longrightarrow> good s \<Longrightarrow> good (step e s)"
begin

lemma run_good: "list_all admitted es \<Longrightarrow> good s \<Longrightarrow> good (fold step es s)"
  by (induction es arbitrary: s) (auto intro: step_good)

end

locale event_machine =
  fixes step :: "'e \<Rightarrow> 's \<Rightarrow> 's"
    and good :: "'s \<Rightarrow> bool"
  assumes step_good: "good s \<Longrightarrow> good (step e s)"

sublocale event_machine \<subseteq> guarded: guarded_machine step "\<lambda>_. True" good
  by unfold_locales (rule step_good)

context event_machine begin

lemma run_good: "good s \<Longrightarrow> good (fold step es s)"
  by (rule guarded.run_good) (simp add: list_all_iff)

end

end
