(* ===== verification/HostAdmission.thy ===== *)
theory HostAdmission
  imports Machines Prelude "HOL-Library.Word"
begin

text \<open>
  The admission control of the Host (\<open>network/HostRequestAdmissionController\<close>): how many
  reads and writes one client and all clients may have in progress. An admitted request
  holds a lease; the destructor of the lease gives its place back. The state of the
  controller is a record, \<open>admit\<close> and \<open>release\<close> are \<open>admit\<close> and \<open>~Lease\<close>, and a history
  interleaves the two in any order, over the leases the server still holds. The log lines
  are not modelled.
\<close>

section \<open>Requests, owners and leases\<close>

datatype authentication_kind = LegacySharedToken | PairedDevice

record request_context =
  session_id :: string
  request_id :: string
  authentication_kind :: authentication_kind
  paired_device_id :: string

definition fairness_owner :: "request_context \<Rightarrow> string" where
  "fairness_owner c = (case authentication_kind c of
     PairedDevice \<Rightarrow> ''device:'' @ map to_lower (trimmed (paired_device_id c))
   | LegacySharedToken \<Rightarrow> ''session:'' @ session_id c)"

datatype work_kind = ReadWork | WriteWork

datatype rejection = NoRejection | DuplicateRequestId | OwnerLimit | GlobalLimit

record lease =
  lease_owner :: string
  lease_session :: string
  lease_request :: string
  lease_kind :: work_kind

record owner_counts =
  own_reads :: int
  own_writes :: int
  own_rejections :: "64 word"

record admission =
  owners :: "string \<rightharpoonup> owner_counts"
  in_flight :: "string \<rightharpoonup> string set"
  global_reads :: int
  global_writes :: int
  read_high_water :: int
  write_high_water :: int
  owner_rejections :: "64 word"
  global_rejections :: "64 word"

definition fresh_counts :: owner_counts where
  "fresh_counts = \<lparr>own_reads = 0, own_writes = 0, own_rejections = 0\<rparr>"

definition fresh_admission :: admission where
  "fresh_admission = \<lparr>owners = Map.empty, in_flight = Map.empty, global_reads = 0,
     global_writes = 0, read_high_water = 0, write_high_water = 0,
     owner_rejections = 0, global_rejections = 0\<rparr>"

section \<open>Admission and release\<close>

fun owner_limit :: "work_kind \<Rightarrow> int" where
  "owner_limit ReadWork = 8"
| "owner_limit WriteWork = 4"

fun global_limit :: "work_kind \<Rightarrow> int" where
  "global_limit ReadWork = 64"
| "global_limit WriteWork = 16"

fun owner_count :: "work_kind \<Rightarrow> owner_counts \<Rightarrow> int" where
  "owner_count ReadWork c = own_reads c"
| "owner_count WriteWork c = own_writes c"

fun global_count :: "work_kind \<Rightarrow> admission \<Rightarrow> int" where
  "global_count ReadWork s = global_reads s"
| "global_count WriteWork s = global_writes s"

definition is_request_in_flight :: "string \<Rightarrow> string \<Rightarrow> admission \<Rightarrow> bool" where
  "is_request_in_flight session request s =
     (case in_flight s session of None \<Rightarrow> False | Some rs \<Rightarrow> request \<in> rs)"

text \<open>The counters after an accepted request: \<open>owners[owner]\<close> has been created before.\<close>

fun count_in :: "work_kind \<Rightarrow> string \<Rightarrow> owner_counts \<Rightarrow> admission \<Rightarrow> admission" where
  "count_in ReadWork owner c s =
     s\<lparr>owners := (owners s)(owner \<mapsto> c\<lparr>own_reads := own_reads c + 1\<rparr>),
       global_reads := global_reads s + 1,
       read_high_water := (if global_reads s + 1 > read_high_water s
                           then global_reads s + 1 else read_high_water s)\<rparr>"
| "count_in WriteWork owner c s =
     s\<lparr>owners := (owners s)(owner \<mapsto> c\<lparr>own_writes := own_writes c + 1\<rparr>),
       global_writes := global_writes s + 1,
       write_high_water := (if global_writes s + 1 > write_high_water s
                            then global_writes s + 1 else write_high_water s)\<rparr>"

definition admit ::
  "request_context \<Rightarrow> work_kind \<Rightarrow> admission \<Rightarrow> (rejection \<times> lease option) \<times> admission" where
  "admit ctx kind s =
     (let owner = fairness_owner ctx in
      if is_request_in_flight (session_id ctx) (request_id ctx) s
      then ((DuplicateRequestId, None), s)
      else let counts = (case owners s owner of None \<Rightarrow> fresh_counts | Some c \<Rightarrow> c) in
      if owner_count kind counts \<ge> owner_limit kind
      then ((OwnerLimit, None),
        s\<lparr>owners := (owners s)(owner \<mapsto> counts\<lparr>own_rejections := own_rejections counts + 1\<rparr>),
          owner_rejections := owner_rejections s + 1\<rparr>)
      else if global_count kind s \<ge> global_limit kind
      then ((GlobalLimit, None),
        s\<lparr>global_rejections := global_rejections s + 1,
          owners := (if own_reads counts = 0 \<and> own_writes counts = 0
                     then (owners s)(owner := None)
                     else (owners s)(owner \<mapsto> counts))\<rparr>)
      else let t = count_in kind owner counts s;
               requests = (case in_flight t (session_id ctx) of None \<Rightarrow> {} | Some rs \<Rightarrow> rs) in
        ((NoRejection, Some \<lparr>lease_owner = owner, lease_session = session_id ctx,
            lease_request = request_id ctx, lease_kind = kind\<rparr>),
         t\<lparr>in_flight := (in_flight t)(session_id ctx \<mapsto> insert (request_id ctx) requests)\<rparr>))"

fun count_out :: "work_kind \<Rightarrow> owner_counts \<Rightarrow> owner_counts" where
  "count_out ReadWork c = c\<lparr>own_reads := own_reads c - 1\<rparr>"
| "count_out WriteWork c = c\<lparr>own_writes := own_writes c - 1\<rparr>"

fun global_out :: "work_kind \<Rightarrow> admission \<Rightarrow> admission" where
  "global_out ReadWork s = s\<lparr>global_reads := global_reads s - 1\<rparr>"
| "global_out WriteWork s = s\<lparr>global_writes := global_writes s - 1\<rparr>"

definition release :: "lease \<Rightarrow> admission \<Rightarrow> admission" where
  "release l s =
     (let t = (case owners s (lease_owner l) of
           None \<Rightarrow> s
         | Some c \<Rightarrow> let d = count_out (lease_kind l) c; u = global_out (lease_kind l) s in
             if own_reads d = 0 \<and> own_writes d = 0
             then u\<lparr>owners := (owners u)(lease_owner l := None)\<rparr>
             else u\<lparr>owners := (owners u)(lease_owner l \<mapsto> d)\<rparr>)
      in case in_flight t (lease_session l) of
           None \<Rightarrow> t
         | Some rs \<Rightarrow> let rest = rs - {lease_request l} in
             t\<lparr>in_flight := (in_flight t)(lease_session l := (if rest = {} then None else Some rest))\<rparr>)"

definition owner_outstanding :: "string \<Rightarrow> work_kind \<Rightarrow> admission \<Rightarrow> int" where
  "owner_outstanding owner kind s =
     (case owners s owner of None \<Rightarrow> 0 | Some c \<Rightarrow> owner_count kind c)"

record admission_snapshot =
  snap_reads :: int
  snap_writes :: int
  snap_read_high :: int
  snap_write_high :: int
  snap_owner_rejections :: "64 word"
  snap_global_rejections :: "64 word"
  tracked_owners :: int
  tracked_sessions :: int

definition snapshot :: "admission \<Rightarrow> admission_snapshot" where
  "snapshot s = \<lparr>snap_reads = global_reads s, snap_writes = global_writes s,
     snap_read_high = read_high_water s, snap_write_high = write_high_water s,
     snap_owner_rejections = owner_rejections s, snap_global_rejections = global_rejections s,
     tracked_owners = int (card (dom (owners s))),
     tracked_sessions = int (card (dom (in_flight s)))\<rparr>"

section \<open>Histories: admissions and releases in any order\<close>

text \<open>
  The server keeps the leases of the requests in progress. \<open>Finish n\<close> ends the request of
  the n-th of them; a number without a lease is no event.
\<close>

datatype admission_event = Arrive request_context work_kind | Finish nat

fun admission_step ::
  "admission_event \<Rightarrow> admission \<times> lease list \<Rightarrow> admission \<times> lease list" where
  "admission_step (Arrive ctx kind) (s, ls) =
     (case admit ctx kind s of
        ((_, None), t) \<Rightarrow> (t, ls)
      | ((_, Some l), t) \<Rightarrow> (t, l # ls))"
| "admission_step (Finish n) (s, ls) =
     (if n < length ls then (release (ls ! n) s, take n ls @ drop (Suc n) ls) else (s, ls))"

definition held :: "string \<Rightarrow> work_kind \<Rightarrow> lease list \<Rightarrow> nat" where
  "held owner kind ls = count_where (\<lambda>l. lease_owner l = owner \<and> lease_kind l = kind) ls"

definition held_by_all :: "work_kind \<Rightarrow> lease list \<Rightarrow> nat" where
  "held_by_all kind ls = count_where (\<lambda>l. lease_kind l = kind) ls"

definition requests_of :: "string \<Rightarrow> lease list \<Rightarrow> string set" where
  "requests_of session ls = lease_request ` {l \<in> set ls. lease_session l = session}"

definition no_request_twice :: "lease list \<Rightarrow> bool" where
  "no_request_twice ls = distinct (map (\<lambda>l. (lease_session l, lease_request l)) ls)"

text \<open>What the controller stores is a function of the leases in progress.\<close>

definition admission_good :: "admission \<times> lease list \<Rightarrow> bool" where
  "admission_good = (\<lambda>(s, ls).
     no_request_twice ls
     \<and> (\<forall>owner. owners s owner = None \<longleftrightarrow> held owner ReadWork ls = 0 \<and> held owner WriteWork ls = 0)
     \<and> (\<forall>owner kind. owner_outstanding owner kind s = int (held owner kind ls))
     \<and> (\<forall>kind. global_count kind s = int (held_by_all kind ls))
     \<and> (\<forall>session. in_flight s session =
          (if requests_of session ls = {} then None else Some (requests_of session ls)))
     \<and> (\<forall>owner kind. int (held owner kind ls) \<le> owner_limit kind)
     \<and> (\<forall>kind. int (held_by_all kind ls) \<le> global_limit kind)
     \<and> global_reads s \<le> read_high_water s \<and> read_high_water s \<le> 64
     \<and> global_writes s \<le> write_high_water s \<and> write_high_water s \<le> 16)"

lemma held_Cons [simp]:
  "held owner kind (l # ls) = held owner kind ls + (if lease_owner l = owner \<and> lease_kind l = kind then 1 else 0)"
  by (simp add: held_def)

lemma held_by_all_Cons [simp]:
  "held_by_all kind (l # ls) = held_by_all kind ls + (if lease_kind l = kind then 1 else 0)"
  by (simp add: held_by_all_def)

lemma requests_of_Cons [simp]:
  "requests_of session (l # ls) =
     (if lease_session l = session then insert (lease_request l) (requests_of session ls)
      else requests_of session ls)"
  by (auto simp: requests_of_def)

text \<open>The order of the leases does not matter, so a lease that ends may stand first.\<close>

lemma held_perm:
  "held owner kind (xs @ l # ys) = held owner kind (l # xs @ ys)"
  "held_by_all kind (xs @ l # ys) = held_by_all kind (l # xs @ ys)"
  "requests_of session (xs @ l # ys) = requests_of session (l # xs @ ys)"
  "no_request_twice (xs @ l # ys) = no_request_twice (l # xs @ ys)"
  by (auto simp: held_def held_by_all_def requests_of_def no_request_twice_def)

lemma admission_good_perm:
  "admission_good (s, xs @ l # ys) = admission_good (s, l # xs @ ys)"
  by (simp only: admission_good_def prod.case held_perm)

lemma admission_goodD:
  assumes "admission_good (s, ls)"
  shows "no_request_twice ls"
    and "owners s owner = None \<longleftrightarrow> held owner ReadWork ls = 0 \<and> held owner WriteWork ls = 0"
    and "owner_outstanding owner kind s = int (held owner kind ls)"
    and "global_count kind s = int (held_by_all kind ls)"
    and "in_flight s session = (if requests_of session ls = {} then None else Some (requests_of session ls))"
    and "int (held owner kind ls) \<le> owner_limit kind"
    and "int (held_by_all kind ls) \<le> global_limit kind"
    and "global_reads s \<le> read_high_water s" "read_high_water s \<le> 64"
    and "global_writes s \<le> write_high_water s" "write_high_water s \<le> 16"
  using assms by (auto simp: admission_good_def)

lemma known_owner:
  assumes "admission_good (s, ls)" "owners s owner = Some c"
  shows "own_reads c = int (held owner ReadWork ls)" "own_writes c = int (held owner WriteWork ls)"
  using admission_goodD(3) [OF assms(1), of owner ReadWork]
    admission_goodD(3) [OF assms(1), of owner WriteWork] assms(2)
  by (simp_all add: owner_outstanding_def)

lemma counts_of_owner:
  assumes "admission_good (s, ls)"
  shows "owner_count kind (case owners s owner of None \<Rightarrow> fresh_counts | Some c \<Rightarrow> c)
    = int (held owner kind ls)"
  using admission_goodD(3) [OF assms, of owner kind]
  by (cases kind; cases "owners s owner") (auto simp: owner_outstanding_def fresh_counts_def)

lemma in_flight_iff:
  assumes "admission_good (s, ls)"
  shows "is_request_in_flight session request s \<longleftrightarrow> request \<in> requests_of session ls"
  using admission_goodD(5) [OF assms, of session] by (auto simp: is_request_in_flight_def)

section \<open>The decision of the controller, read off the leases in progress\<close>

definition decision :: "request_context \<Rightarrow> work_kind \<Rightarrow> lease list \<Rightarrow> rejection" where
  "decision ctx kind ls =
     (if request_id ctx \<in> requests_of (session_id ctx) ls then DuplicateRequestId
      else if int (held (fairness_owner ctx) kind ls) \<ge> owner_limit kind then OwnerLimit
      else if int (held_by_all kind ls) \<ge> global_limit kind then GlobalLimit
      else NoRejection)"

definition lease_for :: "request_context \<Rightarrow> work_kind \<Rightarrow> lease" where
  "lease_for ctx kind = \<lparr>lease_owner = fairness_owner ctx,
     lease_session = session_id ctx, lease_request = request_id ctx, lease_kind = kind\<rparr>"

lemma admit_decides:
  assumes "admission_good (s, ls)"
  shows "fst (admit ctx kind s) =
    (decision ctx kind ls,
     if decision ctx kind ls = NoRejection then Some (lease_for ctx kind) else None)"
  using counts_of_owner [OF assms, of kind "fairness_owner ctx"]
    admission_goodD(4) [OF assms, of kind]
    in_flight_iff [OF assms, of "session_id ctx" "request_id ctx"]
  by (simp add: admit_def decision_def lease_for_def Let_def)

section \<open>One event keeps the accounts\<close>

lemma rejected_keeps:
  assumes good: "admission_good (s, ls)" and no: "decision ctx kind ls \<noteq> NoRejection"
  shows "admission_good (snd (admit ctx kind s), ls)"
proof -
  let ?o = "fairness_owner ctx"
  let ?t = "snd (admit ctx kind s)"
  let ?c = "case owners s ?o of None \<Rightarrow> fresh_counts | Some c \<Rightarrow> c"
  have c: "owner_count k ?c = int (held ?o k ls)" for k
    by (rule counts_of_owner [OF good])
  have zero: "own_reads ?c = 0 \<and> own_writes ?c = 0
      \<longleftrightarrow> held ?o ReadWork ls = 0 \<and> held ?o WriteWork ls = 0"
    using c [of ReadWork] c [of WriteWork] by simp
  have room: "held ?o kind ls \<noteq> 0" if "owner_limit kind \<le> int (held ?o kind ls)"
    using that by (cases kind) auto
  have rest: "global_reads ?t = global_reads s" "global_writes ?t = global_writes s"
    "read_high_water ?t = read_high_water s" "write_high_water ?t = write_high_water s"
    "in_flight ?t = in_flight s"
    using no c [of kind] admission_goodD(4) [OF good, of kind]
      in_flight_iff [OF good, of "session_id ctx" "request_id ctx"]
    by (auto simp: admit_def Let_def decision_def split: if_splits)
  have same: "owners ?t = owners s
      \<or> (\<exists>d. owners ?t = (owners s)(?o \<mapsto> d) \<and> own_reads d = own_reads ?c
            \<and> own_writes d = own_writes ?c \<and> held ?o ReadWork ls + held ?o WriteWork ls \<noteq> 0)
      \<or> (owners ?t = (owners s)(?o := None) \<and> held ?o ReadWork ls + held ?o WriteWork ls = 0)"
    using no c [of kind] zero room admission_goodD(4) [OF good, of kind]
      in_flight_iff [OF good, of "session_id ctx" "request_id ctx"]
    by (cases kind) (auto simp: admit_def Let_def decision_def split: if_splits)
  have outstanding: "owner_outstanding owner k ?t = int (held owner k ls)" for owner k
    using same admission_goodD(3) [OF good, of owner k] c [of k]
    by (cases k) (auto simp: owner_outstanding_def)
  have tracked: "owners ?t owner = None
      \<longleftrightarrow> held owner ReadWork ls = 0 \<and> held owner WriteWork ls = 0" for owner
    using same admission_goodD(2) [OF good, of owner] by (auto split: if_splits)
  have global: "global_count k ?t = int (held_by_all k ls)" for k
    using rest admission_goodD(4) [OF good, of k] by (cases k) auto
  show ?thesis
    unfolding admission_good_def prod.case
    using rest outstanding tracked global admission_goodD [OF good] by auto
qed

lemma accepted_keeps:
  assumes good: "admission_good (s, ls)" and yes: "decision ctx kind ls = NoRejection"
  shows "admission_good (snd (admit ctx kind s), lease_for ctx kind # ls)"
proof -
  let ?o = "fairness_owner ctx" and ?l = "lease_for ctx kind"
  let ?t = "snd (admit ctx kind s)"
  let ?c = "case owners s ?o of None \<Rightarrow> fresh_counts | Some c \<Rightarrow> c"
  let ?rs = "case in_flight s (session_id ctx) of None \<Rightarrow> {} | Some rs \<Rightarrow> rs"
  have c: "owner_count k ?c = int (held ?o k ls)" for k
    by (rule counts_of_owner [OF good])
  note c_reads = c [of ReadWork, simplified] and c_writes = c [of WriteWork, simplified]
  have free: "request_id ctx \<notin> requests_of (session_id ctx) ls"
    "int (held ?o kind ls) < owner_limit kind" "int (held_by_all kind ls) < global_limit kind"
    using yes by (auto simp: decision_def split: if_splits)
  have t: "?t = (count_in kind ?o ?c s)
      \<lparr>in_flight := (in_flight s)(session_id ctx \<mapsto> insert (request_id ctx) ?rs)\<rparr>"
    using free c [of kind] admission_goodD(4) [OF good, of kind]
      in_flight_iff [OF good, of "session_id ctx" "request_id ctx"]
    by (cases kind) (auto simp: admit_def Let_def)
  have rs: "?rs = requests_of (session_id ctx) ls"
    using admission_goodD(5) [OF good, of "session_id ctx"] by simp
  have once: "no_request_twice (?l # ls)"
    using admission_goodD(1) [OF good] free(1)
    by (auto simp: no_request_twice_def lease_for_def requests_of_def)
  have outstanding: "owner_outstanding owner k ?t = int (held owner k (?l # ls))" for owner k
    unfolding t
    using admission_goodD(3) [OF good, of owner k] c_reads c_writes
    by (cases k; cases kind) (auto simp: owner_outstanding_def lease_for_def)
  have tracked: "owners ?t owner = None
      \<longleftrightarrow> held owner ReadWork (?l # ls) = 0 \<and> held owner WriteWork (?l # ls) = 0" for owner
    unfolding t
    using admission_goodD(2) [OF good, of owner]
    by (cases kind) (auto simp: lease_for_def)
  have global: "global_count k ?t = int (held_by_all k (?l # ls))" for k
    unfolding t
    using admission_goodD(4) [OF good, of k] by (cases k; cases kind) (auto simp: lease_for_def)
  have requests: "in_flight ?t session = (if requests_of session (?l # ls) = {} then None
      else Some (requests_of session (?l # ls)))" for session
    unfolding t
    using admission_goodD(5) [OF good, of session] rs by (auto simp: lease_for_def)
  have owner_bound: "int (held owner k (?l # ls)) \<le> owner_limit k" for owner k
    using admission_goodD(6) [OF good, of owner k] free(2) by (auto simp: lease_for_def)
  have all_bound: "int (held_by_all k (?l # ls)) \<le> global_limit k" for k
    using admission_goodD(7) [OF good, of k] free(3) by (auto simp: lease_for_def)
  have high: "global_reads ?t \<le> read_high_water ?t \<and> read_high_water ?t \<le> 64
      \<and> global_writes ?t \<le> write_high_water ?t \<and> write_high_water ?t \<le> 16"
    unfolding t
    using admission_goodD(8,9,10,11) [OF good] admission_goodD(4) [OF good, of kind] free(3)
    by (cases kind) auto
  show ?thesis
    unfolding admission_good_def prod.case
    using once outstanding tracked global requests owner_bound all_bound high by blast
qed

lemma release_keeps:
  assumes good: "admission_good (s, l # ls)"
  shows "admission_good (release l s, ls)"
proof -
  let ?o = "lease_owner l" and ?k = "lease_kind l"
  have "held ?o ?k (l # ls) \<noteq> 0" by simp
  then obtain c where c: "owners s ?o = Some c"
    using admission_goodD(2) [OF good, of ?o] by (cases ?k; cases "owners s ?o") auto
  note counts = known_owner [OF good c]
  have gone: "lease_request l \<notin> requests_of (lease_session l) ls"
    using admission_goodD(1) [OF good] by (auto simp: no_request_twice_def requests_of_def image_iff)
  have flight: "in_flight s (lease_session l)
      = Some (insert (lease_request l) (requests_of (lease_session l) ls))"
    using admission_goodD(5) [OF good, of "lease_session l"] by simp
  let ?t = "release l s"
  have owners: "owners ?t = (owners s)(?o := (if held ?o ReadWork ls = 0 \<and> held ?o WriteWork ls = 0
      then None else Some (count_out ?k c)))"
    using counts c flight by (cases ?k) (auto simp: release_def Let_def)
  have requests_t: "in_flight ?t = (in_flight s)(lease_session l :=
      (if requests_of (lease_session l) ls = {} then None else Some (requests_of (lease_session l) ls)))"
    using c flight gone by (cases ?k) (auto simp: release_def Let_def insert_Diff_if)
  have totals: "global_reads ?t = global_reads s - (if ?k = ReadWork then 1 else 0)"
    "global_writes ?t = global_writes s - (if ?k = WriteWork then 1 else 0)"
    "read_high_water ?t = read_high_water s" "write_high_water ?t = write_high_water s"
    using c flight by (cases ?k; auto simp: release_def Let_def)+
  have outstanding: "owner_outstanding owner k ?t = int (held owner k ls)" for owner k
    using admission_goodD(3) [OF good, of owner k] counts
    by (cases k; cases ?k) (auto simp: owners owner_outstanding_def split: if_splits)
  have tracked: "owners ?t owner = None
      \<longleftrightarrow> held owner ReadWork ls = 0 \<and> held owner WriteWork ls = 0" for owner
    using admission_goodD(2) [OF good, of owner] by (auto simp: owners)
  have global: "global_count k ?t = int (held_by_all k ls)" for k
    using admission_goodD(4) [OF good, of k] by (cases k; cases ?k) (auto simp: totals)
  have requests: "in_flight ?t session = (if requests_of session ls = {} then None
      else Some (requests_of session ls))" for session
    using admission_goodD(5) [OF good, of session] by (auto simp: requests_t)
  have bounds: "int (held owner k ls) \<le> owner_limit k" "int (held_by_all k ls) \<le> global_limit k" for owner k
    using admission_goodD(6) [OF good, of owner k] admission_goodD(7) [OF good, of k] by (auto split: if_splits)
  have high: "global_reads ?t \<le> read_high_water ?t \<and> read_high_water ?t \<le> 64
      \<and> global_writes ?t \<le> write_high_water ?t \<and> write_high_water ?t \<le> 16"
    using admission_goodD(8,9,10,11) [OF good] by (auto simp: totals)
  have once: "no_request_twice ls"
    using admission_goodD(1) [OF good] by (simp add: no_request_twice_def)
  show ?thesis
    unfolding admission_good_def prod.case
    using once outstanding tracked global requests bounds high by blast
qed

lemma admission_step_good: "admission_good x \<Longrightarrow> admission_good (admission_step e x)"
proof -
  assume good: "admission_good x"
  obtain s ls where x: "x = (s, ls)" by fastforce
  show ?thesis
  proof (cases e)
    case (Arrive ctx kind)
    obtain r t where rt: "admit ctx kind s = (r, t)" by fastforce
    show ?thesis
      using admit_decides [OF good [unfolded x], of ctx kind]
        rejected_keeps [OF good [unfolded x], of ctx kind]
        accepted_keeps [OF good [unfolded x], of ctx kind]
      by (cases "decision ctx kind ls = NoRejection") (auto simp: x Arrive rt)
  next
    case (Finish n)
    show ?thesis
    proof (cases "n < length ls")
      case True
      then have "ls = take n ls @ ls ! n # drop (Suc n) ls" by (rule id_take_nth_drop)
      then have "admission_good (s, ls ! n # take n ls @ drop (Suc n) ls)"
        using good by (metis x admission_good_perm)
      then show ?thesis using True by (simp add: x Finish release_keeps)
    qed (use good in \<open>simp add: x Finish\<close>)
  qed
qed

interpretation admission: event_machine admission_step admission_good
  by unfold_locales (rule admission_step_good)

lemma fresh_good: "admission_good (fresh_admission, [])"
  unfolding admission_good_def prod.case
proof (intro conjI allI)
  fix owner kind
  show "global_count kind fresh_admission = int (held_by_all kind [])"
    "int (held owner kind []) \<le> owner_limit kind" "int (held_by_all kind []) \<le> global_limit kind"
    by (cases kind; simp add: fresh_admission_def held_def held_by_all_def)+
qed (simp_all add: fresh_admission_def no_request_twice_def held_def owner_outstanding_def requests_of_def)

section \<open>What the Host promises its clients\<close>

abbreviation admission_run :: "admission_event list \<Rightarrow> admission \<times> lease list" where
  "admission_run es \<equiv> fold admission_step es (fresh_admission, [])"

lemma admission_run_good: "admission_good (admission_run es)"
  by (rule admission.run_good [OF fresh_good])

lemma tracked_owners_set:
  assumes "admission_good (s, ls)"
  shows "dom (owners s) = lease_owner ` set ls"
proof -
  have "owners s owner \<noteq> None \<longleftrightarrow> owner \<in> lease_owner ` set ls" for owner
  proof -
    have "held owner ReadWork ls + held owner WriteWork ls = 0 \<longleftrightarrow> owner \<notin> lease_owner ` set ls"
    proof (induction ls)
      case (Cons l ls)
      then show ?case by (cases "lease_kind l") auto
    qed (simp add: held_def)
    then show ?thesis using admission_goodD(2) [OF assms, of owner] by auto
  qed
  then show ?thesis by (auto simp: dom_def)
qed

lemma tracked_sessions_set:
  assumes "admission_good (s, ls)"
  shows "dom (in_flight s) = lease_session ` set ls"
  using admission_goodD(5) [OF assms] by (auto simp: dom_def requests_of_def split: if_splits)

text \<open>
  Whatever requests arrive and end in whatever order, no client has more than
  eight reads and four writes in progress and all of them together no more than 64 and 16,
  and the snapshot the Host reports counts exactly the requests in progress, their clients
  and their sessions.
\<close>

theorem admission_within_limits:
  "let (s, ls) = admission_run es in
     (\<forall>owner. held owner ReadWork ls \<le> 8 \<and> held owner WriteWork ls \<le> 4)
     \<and> snap_reads (snapshot s) = int (held_by_all ReadWork ls) \<and> snap_reads (snapshot s) \<le> 64
     \<and> snap_writes (snapshot s) = int (held_by_all WriteWork ls) \<and> snap_writes (snapshot s) \<le> 16
     \<and> snap_reads (snapshot s) \<le> snap_read_high (snapshot s) \<and> snap_read_high (snapshot s) \<le> 64
     \<and> tracked_owners (snapshot s) = int (card (lease_owner ` set ls))
     \<and> tracked_sessions (snapshot s) = int (card (lease_session ` set ls))"
proof -
  obtain s ls where run: "admission_run es = (s, ls)" by fastforce
  note good = admission_run_good [of es, unfolded run]
  show ?thesis
    unfolding run Let_def prod.case
    using admission_goodD(4) [OF good, of ReadWork] admission_goodD(4) [OF good, of WriteWork]
      admission_goodD(6) [OF good, of _ ReadWork] admission_goodD(6) [OF good, of _ WriteWork]
      admission_goodD(7) [OF good, of ReadWork] admission_goodD(7) [OF good, of WriteWork]
      admission_goodD(8,9) [OF good]
      tracked_owners_set [OF good] tracked_sessions_set [OF good]
    by (simp add: snapshot_def)
qed

text \<open>
  Property C25. The answer to a request is the one a reference definition reads off the
  requests in progress: refused as a duplicate exactly when the same request of the same
  session is in progress, then by the quota of its client, then by the capacity of the
  Host, and admitted otherwise.
\<close>

theorem admission_decides:
  "let (s, ls) = admission_run es in
     fst (admit ctx kind s) =
       (decision ctx kind ls,
        if decision ctx kind ls = NoRejection then Some (lease_for ctx kind) else None)"
proof -
  obtain s ls where run: "admission_run es = (s, ls)" by fastforce
  show ?thesis
    unfolding run Let_def prod.case
    by (rule admit_decides [OF admission_run_good [of es, unfolded run]])
qed

lemma finish_all:
  "length ls = n \<Longrightarrow> snd (fold admission_step (replicate n (Finish 0)) (s, ls)) = []"
proof (induction n arbitrary: s ls)
  case (Suc n)
  then show ?case by (cases ls) auto
qed simp

text \<open>
  The controller never wedges: when the requests in progress have ended, every
  counter is zero again, no client or session is tracked any more, and whatever request
  arrives next is admitted.
\<close>

theorem admission_recovers:
  "let s = fst (admission_run (es @ replicate (length (snd (admission_run es))) (Finish 0))) in
     owners s = Map.empty \<and> in_flight s = Map.empty \<and> global_reads s = 0 \<and> global_writes s = 0
     \<and> fst (admit ctx kind s) = (NoRejection, Some (lease_for ctx kind))"
proof -
  let ?es = "es @ replicate (length (snd (admission_run es))) (Finish 0)"
  have "snd (admission_run ?es) = []"
    using finish_all [of "snd (admission_run es)" _ "fst (admission_run es)"] by simp
  then obtain s where run: "admission_run ?es = (s, [])" by (metis prod.collapse)
  note good = admission_run_good [of ?es, unfolded run]
  have none: "held owner k [] = 0" "held_by_all k [] = 0" "requests_of session [] = {}"
    for owner k session by (simp_all add: held_def held_by_all_def requests_of_def)
  have "decision ctx kind [] = NoRejection"
    by (cases kind) (simp_all add: decision_def none)
  then show ?thesis
    unfolding run Let_def fst_conv
    using admit_decides [OF good, of ctx kind] admission_goodD(2) [OF good]
      admission_goodD(5) [OF good] admission_goodD(4) [OF good, of ReadWork]
      admission_goodD(4) [OF good, of WriteWork]
    by (auto simp: none)
qed

end
