(* ===== verification/HostThrottle.thy ===== *)
theory HostThrottle
  imports Machines Main
begin

text \<open>
  The throttle of failed authentications (\<open>network/HostAuthenticationThrottle\<close>) and the
  steps of the server that use it (\<open>system.authenticate\<close> in
  \<open>network/BrickSuiteWebSocketServer\<close>). Times are milliseconds of a monotone clock. The
  order in which a \<open>QHash\<close> is iterated is not documented: it is the parameter \<open>order\<close>, a
  list of the keys of the table, and decides only which of several equally old entries is
  evicted from a full table.
\<close>

section \<open>The table of failures\<close>

record throttle_entry =
  failures :: int
  last_failure :: int
  locked_until :: int

type_synonym throttle = "string \<rightharpoonup> throttle_entry"

record throttle_decision =
  allowed :: bool
  retry_after :: int
  expired_lockout :: bool

definition failure_threshold :: int where
  "failure_threshold = 3"

definition lockout_ms :: int where
  "lockout_ms = 30 * 1000"

definition quiet_expiry_ms :: int where
  "quiet_expiry_ms = 10 * 60 * 1000"

definition maximum_tracked_keys :: nat where
  "maximum_tracked_keys = 1024"

lemmas throttle_constants =
  failure_threshold_def lockout_ms_def quiet_expiry_ms_def

definition prune :: "int \<Rightarrow> throttle \<Rightarrow> throttle" where
  "prune now m = (\<lambda>key. case m key of
      None \<Rightarrow> None
    | Some e \<Rightarrow> if now - last_failure e \<ge> quiet_expiry_ms then None else Some e)"

definition allow :: throttle_decision where
  "allow = \<lparr>allowed = True, retry_after = 0, expired_lockout = False\<rparr>"

definition throttle_check :: "string \<Rightarrow> int \<Rightarrow> throttle \<Rightarrow> throttle_decision \<times> throttle" where
  "throttle_check key now m0 =
     (let m = prune now m0 in
      case m key of
        None \<Rightarrow> (allow, m)
      | Some e \<Rightarrow>
          if locked_until e > now
          then (\<lparr>allowed = False, retry_after = locked_until e - now, expired_lockout = False\<rparr>, m)
          else if locked_until e > 0
          then (\<lparr>allowed = True, retry_after = 0, expired_lockout = True\<rparr>, m(key := None))
          else (allow, m))"

text \<open>The loop over the table: the first of the keys with the oldest failure.\<close>

definition oldest :: "(throttle \<Rightarrow> string list) \<Rightarrow> throttle \<Rightarrow> string" where
  "oldest order m =
     foldl (\<lambda>o1 k. if last_failure (the (m k)) < last_failure (the (m o1)) then k else o1)
       (hd (order m)) (order m)"

definition record_failure ::
  "(throttle \<Rightarrow> string list) \<Rightarrow> string \<Rightarrow> int \<Rightarrow> throttle \<Rightarrow> bool \<times> throttle" where
  "record_failure order key now m0 =
     (let m1 = prune now m0;
          m = (if m1 key = None \<and> card (dom m1) \<ge> maximum_tracked_keys
               then m1(oldest order m1 := None) else m1);
          old = (case m key of
             None \<Rightarrow> \<lparr>failures = 0, last_failure = 0, locked_until = 0\<rparr> | Some e \<Rightarrow> e);
          e = old\<lparr>last_failure := now, failures := failures old + 1\<rparr>
      in if failures e < failure_threshold then (False, m(key \<mapsto> e))
         else (True, m(key \<mapsto> e\<lparr>locked_until := now + lockout_ms\<rparr>)))"

definition record_success :: "string \<Rightarrow> throttle \<Rightarrow> bool \<times> throttle" where
  "record_success key m = (m key \<noteq> None, m(key := None))"

section \<open>The authentication step of the server\<close>

datatype attempt = Throttled | Rejected | Authenticated

text \<open>
  One request with its key, the clock, and whether its proof is right. The server reads
  the clock once and calls \<open>check\<close> and then \<open>recordFailure\<close> or \<open>recordSuccess\<close>.
\<close>

definition authenticate ::
  "(throttle \<Rightarrow> string list) \<Rightarrow> string \<Rightarrow> bool \<Rightarrow> int \<Rightarrow> throttle \<Rightarrow> attempt \<times> throttle" where
  "authenticate order key proof_ok now m0 =
     (case throttle_check key now m0 of (d, m) \<Rightarrow>
        if \<not> allowed d then (Throttled, m)
        else if \<not> proof_ok then (Rejected, snd (record_failure order key now m))
        else (Authenticated, snd (record_success key m)))"

text \<open>A history: before each attempt the clock advances by some milliseconds.\<close>

type_synonym authentication_event = "nat \<times> string \<times> bool"

fun throttle_step ::
  "(throttle \<Rightarrow> string list) \<Rightarrow> authentication_event \<Rightarrow> int \<times> throttle \<Rightarrow> int \<times> throttle" where
  "throttle_step order (wait, key, proof_ok) (now, m) =
     (now + int wait, snd (authenticate order key proof_ok (now + int wait) m))"

text \<open>The wrong proofs for a key that the server compared with the secret.\<close>

fun guesses ::
  "(throttle \<Rightarrow> string list) \<Rightarrow> string \<Rightarrow> authentication_event list \<Rightarrow> int \<times> throttle \<Rightarrow> int" where
  "guesses order k [] s = 0"
| "guesses order k ((wait, key, proof_ok) # es) s =
     (if key = k \<and> fst (authenticate order key proof_ok (fst s + int wait) (snd s)) = Rejected
      then 1 else 0)
     + guesses order k es (throttle_step order (wait, key, proof_ok) s)"

section \<open>Well-formed tables\<close>

text \<open>An entry has one or two failures and no lock, or three failures and a lock.\<close>

definition entry_good :: "int \<Rightarrow> throttle_entry \<Rightarrow> bool" where
  "entry_good now e \<longleftrightarrow> 0 \<le> last_failure e \<and> last_failure e \<le> now
     \<and> (locked_until e = 0 \<and> (failures e = 1 \<or> failures e = 2)
        \<or> locked_until e = last_failure e + lockout_ms \<and> failures e = 3)"

definition throttle_good :: "int \<times> throttle \<Rightarrow> bool" where
  "throttle_good = (\<lambda>(now, m). 0 \<le> now \<and> finite (dom m)
     \<and> (\<forall>k e. m k = Some e \<longrightarrow> entry_good now e))"

lemma entry_good_later: "entry_good now e \<Longrightarrow> now \<le> later \<Longrightarrow> entry_good later e"
  by (auto simp: entry_good_def)

lemma prune_SomeD: "prune now m k = Some e \<Longrightarrow> m k = Some e \<and> now - last_failure e < quiet_expiry_ms"
  by (auto simp: prune_def split: option.splits if_splits)

lemma dom_prune: "dom (prune now m) \<subseteq> dom m"
  by (auto dest: prune_SomeD)

lemma prune_idem [simp]: "prune now (prune now m) = prune now m"
  by (rule ext) (auto simp: prune_def split: option.splits)

lemma prune_update_None [simp]: "prune now (m(k := None)) = (prune now m)(k := None)"
  by (rule ext) (auto simp: prune_def)

lemma prune_empty [simp]: "prune now Map.empty = Map.empty"
  by (rule ext) (simp add: prune_def)

lemma prune_update_Some [simp]:
  "prune now (m(k \<mapsto> e)) =
     (prune now m)(k := (if now - last_failure e \<ge> quiet_expiry_ms then None else Some e))"
  by (rule ext) (simp add: prune_def)

text \<open>
  One attempt, case by case: what happens to the entry of the key. The other entries are
  only pruned, and one of them evicted when the table is full.
\<close>

definition evicted :: "(throttle \<Rightarrow> string list) \<Rightarrow> string \<Rightarrow> throttle \<Rightarrow> throttle" where
  "evicted order key m =
     (if m key = None \<and> card (dom m) \<ge> maximum_tracked_keys then m(oldest order m := None) else m)"

lemma evicted_SomeD: "evicted order key m k = Some e \<Longrightarrow> m k = Some e"
  by (auto simp: evicted_def split: if_splits)

lemma evicted_same [simp]: "m key = Some e \<Longrightarrow> evicted order key m = m"
  by (simp add: evicted_def)

lemma evicted_room: "card (dom m - {key}) < maximum_tracked_keys \<Longrightarrow> evicted order key m = m"
  by (auto simp: evicted_def domIff Diff_triv)

definition first_failure :: "int \<Rightarrow> throttle_entry" where
  "first_failure now = \<lparr>failures = 1, last_failure = now, locked_until = 0\<rparr>"

definition next_failure :: "int \<Rightarrow> throttle_entry \<Rightarrow> throttle_entry" where
  "next_failure now e = e\<lparr>last_failure := now, failures := failures e + 1,
     locked_until := (if failures e + 1 < failure_threshold then locked_until e
                      else now + lockout_ms)\<rparr>"

lemma record_failure_entry:
  "snd (record_failure order key now m) = (evicted order key (prune now m))(key \<mapsto>
    (case prune now m key of None \<Rightarrow> first_failure now | Some e \<Rightarrow> next_failure now e))"
proof (cases "prune now m key")
  case None
  then have "evicted order key (prune now m) key = None" by (auto simp: evicted_def)
  with None show ?thesis
    by (simp add: record_failure_def Let_def evicted_def first_failure_def throttle_constants)
next
  case (Some e)
  then show ?thesis
    by (simp add: record_failure_def Let_def next_failure_def throttle_constants)
qed

lemma wrong_proof:
  "authenticate order key False now m =
    (case prune now m key of
       None \<Rightarrow> (Rejected, (evicted order key (prune now m))(key \<mapsto> first_failure now))
     | Some e \<Rightarrow>
         if locked_until e > now then (Throttled, prune now m)
         else if locked_until e > 0
         then (Rejected, (evicted order key ((prune now m)(key := None)))(key \<mapsto> first_failure now))
         else (Rejected, (prune now m)(key \<mapsto> next_failure now e)))"
  by (auto simp: authenticate_def throttle_check_def Let_def allow_def record_failure_entry
      split: option.splits)

lemma wrong_proof_room:
  assumes room: "card (dom (prune now m) - {key}) < maximum_tracked_keys"
  shows "authenticate order key False now m =
    (case prune now m key of
       None \<Rightarrow> (Rejected, (prune now m)(key \<mapsto> first_failure now))
     | Some e \<Rightarrow>
         if locked_until e > now then (Throttled, prune now m)
         else if locked_until e > 0 then (Rejected, (prune now m)(key \<mapsto> first_failure now))
         else (Rejected, (prune now m)(key \<mapsto> next_failure now e)))"
proof -
  have "evicted order key (prune now m) = prune now m"
    "evicted order key ((prune now m)(key := None)) = (prune now m)(key := None)"
    using room by (simp_all add: evicted_room)
  then show ?thesis by (simp add: wrong_proof split: option.splits)
qed

lemma right_proof:
  "snd (authenticate order key True now m) =
     (if fst (authenticate order key True now m) = Throttled then prune now m
      else (prune now m)(key := None))"
  by (auto simp: authenticate_def throttle_check_def Let_def allow_def record_success_def
      split: option.splits)

text \<open>Every attempt, whatever its key, leaves a well-formed table.\<close>

lemma authenticate_SomeD:
  assumes "snd (authenticate order key ok now m) k = Some e"
  shows "prune now m k = Some e \<or> k = key \<and> (e = first_failure now
    \<or> (\<exists>d. prune now m key = Some d \<and> \<not> now < locked_until d \<and> \<not> 0 < locked_until d
          \<and> e = next_failure now d))"
  using assms
  by (cases ok)
     (auto simp: wrong_proof right_proof split: option.splits if_splits dest!: evicted_SomeD)

lemma dom_authenticate: "dom (snd (authenticate order key ok now m)) \<subseteq> insert key (dom m)"
  using authenticate_SomeD dom_prune [of now m] by blast

lemma throttle_step_good: "throttle_good x \<Longrightarrow> throttle_good (throttle_step order e x)"
proof -
  assume "throttle_good x"
  moreover obtain now m where x: "x = (now, m)" by fastforce
  moreover obtain wait key ok where e: "e = (wait, key, ok)" by (cases e)
  ultimately have good: "throttle_good (now, m)" by simp
  let ?n = "now + int wait"
  let ?t = "snd (authenticate order key ok ?n m)"
  have entries: "entry_good ?n e" if "prune ?n m k = Some e" for k e
    using good prune_SomeD [OF that] entry_good_later by (fastforce simp: throttle_good_def)
  have fin: "finite (dom m)" and now: "0 \<le> now" using good by (auto simp: throttle_good_def)
  have "entry_good ?n d" if "?t k = Some d" for k d
    using authenticate_SomeD [OF that]
  proof (elim disjE exE conjE)
    assume "d = first_failure ?n"
    then show ?thesis using now by (simp add: entry_good_def first_failure_def)
  next
    fix old assume "prune ?n m key = Some old" "\<not> ?n < locked_until old"
      "\<not> 0 < locked_until old" "d = next_failure ?n old"
    then show ?thesis using entries [of key old] now
      by (auto simp: entry_good_def next_failure_def throttle_constants)
  qed (rule entries)
  moreover have "finite (dom ?t)"
    using fin dom_authenticate [of order key ok ?n m] by (meson finite_insert finite_subset)
  ultimately show ?thesis using now by (simp add: x e throttle_good_def)
qed

interpretation throttle: event_machine "throttle_step order" throttle_good for order
  by unfold_locales (rule throttle_step_good)

section \<open>Guesses in a window of time\<close>

text \<open>
  In a window that opened at \<open>t0\<close>, \<open>g\<close> guesses for a key have been compared, less two for each
  right proof and three for each eviction, which make the table forget as many. \<open>r\<close> counts the
  lockouts among them: each takes thirty seconds of the window.
\<close>

definition window :: "int \<Rightarrow> int \<Rightarrow> int \<Rightarrow> throttle_entry option \<Rightarrow> bool" where
  "window t0 now g entry \<longleftrightarrow> t0 \<le> now \<and> (\<exists>r\<ge>0. case entry of
     None \<Rightarrow> g \<le> 3 * r \<and> t0 + lockout_ms * r \<le> now
   | Some e \<Rightarrow>
       if locked_until e = 0
       then g \<le> 0 \<or> (g \<le> 3 * r + failures e \<and> t0 + lockout_ms * r \<le> last_failure e)
       else g \<le> 0 \<or> (g \<le> 3 * r \<and> t0 + lockout_ms * r \<le> locked_until e))"

lemma whole_lockouts: "lockout_ms * r \<le> x \<Longrightarrow> r \<le> x div lockout_ms"
  using zdiv_mono1 [of "lockout_ms * r" x lockout_ms] by (simp add: lockout_ms_def)

lemma window_bound:
  assumes "window t0 now g entry" "\<And>e. entry = Some e \<Longrightarrow> entry_good now e"
  shows "g \<le> 3 * ((now - t0) div lockout_ms + 1)"
proof (cases "g \<le> 0")
  case False
  from assms(1) obtain r where r: "0 \<le> r" and t: "t0 \<le> now" and w: "case entry of
     None \<Rightarrow> g \<le> 3 * r \<and> t0 + lockout_ms * r \<le> now
   | Some e \<Rightarrow>
       if locked_until e = 0
       then g \<le> 0 \<or> (g \<le> 3 * r + failures e \<and> t0 + lockout_ms * r \<le> last_failure e)
       else g \<le> 0 \<or> (g \<le> 3 * r \<and> t0 + lockout_ms * r \<le> locked_until e)"
    by (auto simp: window_def)
  have "g \<le> 3 * r + 2 \<and> t0 + lockout_ms * r \<le> now
      \<or> g \<le> 3 * r \<and> t0 + lockout_ms * r \<le> now + lockout_ms"
    using w False assms(2)
    by (cases entry) (auto simp: entry_good_def lockout_ms_def split: if_splits)
  then have "r \<le> (now - t0) div lockout_ms \<and> g \<le> 3 * r + 2
      \<or> r - 1 \<le> (now - t0) div lockout_ms \<and> g \<le> 3 * r"
    using whole_lockouts [of r "now - t0"] whole_lockouts [of "r - 1" "now - t0"]
    by (auto simp: lockout_ms_def)
  then show ?thesis by auto
next
  case True
  from assms(1) have "0 \<le> now - t0" by (auto simp: window_def)
  then have "0 \<le> (now - t0) div lockout_ms" by (simp add: lockout_ms_def pos_imp_zdiv_nonneg_iff)
  with True show ?thesis by simp
qed

lemma window_prune:
  assumes w: "window t0 now g (m k)" and good: "\<And>e. m k = Some e \<Longrightarrow> entry_good now e"
    and later: "now \<le> later"
  shows "window t0 later g (prune later m k)"
proof (cases "m k")
  case None
  with w later show ?thesis by (fastforce simp: window_def prune_def)
next
  case (Some e)
  from good [OF Some] have e: "entry_good now e" .
  show ?thesis
  proof (cases "later - last_failure e \<ge> quiet_expiry_ms")
    case False
    with w later Some show ?thesis by (auto simp: window_def prune_def)
  next
    case True
    then have gone: "prune later m k = None" by (simp add: prune_def Some)
    from w obtain r where r: "0 \<le> r" and t: "t0 \<le> now" and v:
      "if locked_until e = 0
       then g \<le> 0 \<or> (g \<le> 3 * r + failures e \<and> t0 + lockout_ms * r \<le> last_failure e)
       else g \<le> 0 \<or> (g \<le> 3 * r \<and> t0 + lockout_ms * r \<le> locked_until e)"
      by (auto simp: window_def Some)
    have "g \<le> 0 \<or> g \<le> 3 * (r + 1) \<and> t0 + lockout_ms * (r + 1) \<le> later
        \<or> g \<le> 3 * r \<and> t0 + lockout_ms * r \<le> later"
      using v e True by (auto simp: entry_good_def throttle_constants split: if_splits)
    then show ?thesis
      unfolding window_def gone option.case
    proof (elim disjE)
      assume "g \<le> 0"
      then show "t0 \<le> later \<and> (\<exists>r\<ge>0. g \<le> 3 * r \<and> t0 + lockout_ms * r \<le> later)"
        using t later by (intro conjI exI [of _ 0]) auto
    next
      assume "g \<le> 3 * (r + 1) \<and> t0 + lockout_ms * (r + 1) \<le> later"
      then show "t0 \<le> later \<and> (\<exists>r\<ge>0. g \<le> 3 * r \<and> t0 + lockout_ms * r \<le> later)"
        using t later r by (intro conjI exI [of _ "r + 1"]) auto
    next
      assume "g \<le> 3 * r \<and> t0 + lockout_ms * r \<le> later"
      then show "t0 \<le> later \<and> (\<exists>r\<ge>0. g \<le> 3 * r \<and> t0 + lockout_ms * r \<le> later)"
        using t later r by (intro conjI exI [of _ r]) auto
    qed
  qed
qed

text \<open>A guess that is compared extends the count by one, and a third one locks the key.\<close>

lemma window_guess:
  assumes w: "window t0 now g (m key)" and good: "throttle_good (now, m)"
    and later: "now \<le> later"
  shows "window t0 later
    (g + (if fst (authenticate order key False later m) = Rejected then 1 else 0))
    (snd (authenticate order key False later m) key)"
proof -
  have now: "0 \<le> now" using good by (simp add: throttle_good_def)
  have entry: "\<And>e. m key = Some e \<Longrightarrow> entry_good now e" using good by (simp add: throttle_good_def)
  note pruned = window_prune [of t0 now g m key, OF w entry later]
  have fresh: "window t0 later (g + 1) (Some (first_failure later))"
    if "g \<le> 3 * r" "t0 + lockout_ms * r \<le> later" "0 \<le> r" for r
    using that w later by (auto simp: window_def first_failure_def intro!: exI [of _ r])
  show ?thesis
  proof (cases "prune later m key")
    case None
    then obtain r where "0 \<le> r" "g \<le> 3 * r" "t0 + lockout_ms * r \<le> later"
      using pruned by (auto simp: window_def)
    then show ?thesis using fresh [of r] by (simp add: wrong_proof None)
  next
    case (Some e)
    have e: "entry_good later e"
      using prune_SomeD [OF Some] entry later entry_good_later by blast
    from pruned obtain r where r: "0 \<le> r" and t: "t0 \<le> later" and v:
      "if locked_until e = 0
       then g \<le> 0 \<or> (g \<le> 3 * r + failures e \<and> t0 + lockout_ms * r \<le> last_failure e)
       else g \<le> 0 \<or> (g \<le> 3 * r \<and> t0 + lockout_ms * r \<le> locked_until e)"
      by (auto simp: window_def Some)
    have "locked_until e > later \<or> 0 < locked_until e \<and> locked_until e \<le> later
      \<or> locked_until e = 0 \<and> failures e = 1 \<or> locked_until e = 0 \<and> failures e = 2"
      using e by (auto simp: entry_good_def lockout_ms_def)
    then consider "locked_until e > later" | "0 < locked_until e" "locked_until e \<le> later"
      | "locked_until e = 0" "failures e = 1" | "locked_until e = 0" "failures e = 2"
      by blast
    then show ?thesis
    proof cases
      case 1
      then show ?thesis using pruned by (simp add: wrong_proof Some)
    next
      case 2
      have "window t0 later (g + 1) (Some (first_failure later))"
      proof (cases "g \<le> 0")
        case True
        then show ?thesis using fresh [of 0] t by simp
      next
        case False
        then show ?thesis using fresh [of r] v 2 r by auto
      qed
      then show ?thesis using 2 by (simp add: wrong_proof Some)
    next
      case 3
      have "window t0 later (g + 1) (Some (next_failure later e))"
      proof (cases "g \<le> 0")
        case True
        then show ?thesis using 3 t
          by (auto simp: window_def next_failure_def throttle_constants intro!: exI [of _ 0])
      next
        case False
        then show ?thesis using v 3 r t e
          by (auto simp: window_def next_failure_def throttle_constants entry_good_def
              intro!: exI [of _ r])
      qed
      then show ?thesis using 3 now later by (simp add: wrong_proof Some)
    next
      case 4
      have "window t0 later (g + 1) (Some (next_failure later e))"
      proof (cases "g \<le> 0")
        case True
        then show ?thesis using 4 t now later
          by (auto simp: window_def next_failure_def throttle_constants intro!: exI [of _ 1])
      next
        case False
        then show ?thesis using v 4 r t e now later
          by (auto simp: window_def next_failure_def throttle_constants entry_good_def
              intro!: exI [of _ "r + 1"])
      qed
      then show ?thesis using 4 now later by (simp add: wrong_proof Some)
    qed
  qed
qed

lemma forgotten:
  assumes "window t0 now g (Some e)" "last_failure e \<le> now" "locked_until e = 0 \<Longrightarrow> failures e \<le> n"
    "locked_until e \<noteq> 0 \<Longrightarrow> locked_until e \<le> now \<or> 3 \<le> n \<and> locked_until e \<le> now + lockout_ms" "0 \<le> n"
  shows "window t0 now (g - n) None"
proof -
  from assms(1) obtain r where r: "0 \<le> r" and t: "t0 \<le> now" and v:
    "if locked_until e = 0
     then g \<le> 0 \<or> (g \<le> 3 * r + failures e \<and> t0 + lockout_ms * r \<le> last_failure e)
     else g \<le> 0 \<or> (g \<le> 3 * r \<and> t0 + lockout_ms * r \<le> locked_until e)"
    by (auto simp: window_def)
  consider "g - n \<le> 0" | "g - n \<le> 3 * r" "t0 + lockout_ms * r \<le> now" | "1 \<le> r" "g - n \<le> 3 * (r - 1)" "t0 + lockout_ms * (r - 1) \<le> now"
  proof (cases "locked_until e = 0 \<or> locked_until e \<le> now")
    case True
    with v assms(2,3,5) that(1,2) show ?thesis by (auto split: if_splits)
  next
    case False
    with v assms(4) have "g \<le> 0 \<or> g \<le> 3 * r \<and> t0 + lockout_ms * r \<le> now + lockout_ms" "3 \<le> n" by auto
    moreover have "lockout_ms * (r - 1) = lockout_ms * r - lockout_ms" by (simp add: right_diff_distrib)
    ultimately show ?thesis using r that(1,3) by (cases "r = 0") auto
  qed
  then show ?thesis
  proof cases
    case 1
    with t show ?thesis by (auto simp: window_def intro!: exI [of _ 0])
  next
    case 2
    with t r show ?thesis by (auto simp: window_def)
  next
    case 3
    with t show ?thesis by (auto simp: window_def intro!: exI [of _ "r - 1"])
  qed
qed

text \<open>A right proof makes the table forget two guesses at most, an eviction three.\<close>

lemma window_success:
  assumes w: "window t0 now g (m key)" and good: "throttle_good (now, m)" and later: "now \<le> later"
  shows "window t0 later (g - (if fst (authenticate order key True later m) = Authenticated then 2 else 0))
    (snd (authenticate order key True later m) key)"
proof -
  have entry: "\<And>e. m key = Some e \<Longrightarrow> entry_good now e" using good by (simp add: throttle_good_def)
  note pruned = window_prune [of t0 now g m key, OF w entry later]
  show ?thesis
  proof (cases "prune later m key")
    case None
    with pruned have "window t0 later (g - 2) None" by (fastforce simp: window_def)
    with None show ?thesis by (simp add: authenticate_def throttle_check_def Let_def allow_def record_success_def)
  next
    case (Some e)
    have e: "entry_good later e"
      using prune_SomeD [OF Some] entry later entry_good_later by blast
    show ?thesis
    proof (cases "locked_until e > later")
      case True
      then show ?thesis using pruned Some by (simp add: authenticate_def throttle_check_def Let_def)
    next
      case False
      have "window t0 later (g - 2) None"
        using forgotten [of t0 later g e 2] pruned e False unfolding Some by (auto simp: entry_good_def lockout_ms_def)
      then show ?thesis using False Some
        by (simp add: authenticate_def throttle_check_def Let_def allow_def record_success_def)
    qed
  qed
qed

text \<open>An attempt on another key prunes, and may evict.\<close>

lemma other_key:
  assumes "k \<noteq> key"
  shows "snd (authenticate order key ok now m) k \<in> {prune now m k, None}"
  using assms by (cases ok) (auto simp: wrong_proof right_proof evicted_def split: option.splits)

lemma other_key_room:
  assumes "card (dom (prune now m) - {key}) < maximum_tracked_keys" "k \<noteq> key"
  shows "snd (authenticate order key ok now m) k = prune now m k"
  using assms(2)
  by (cases ok) (auto simp: wrong_proof_room [OF assms(1)] right_proof split: option.splits)

text \<open>The right proofs for a key that the server accepted, and the evictions of its entry.\<close>

fun acceptances ::
  "(throttle \<Rightarrow> string list) \<Rightarrow> string \<Rightarrow> authentication_event list \<Rightarrow> int \<times> throttle \<Rightarrow> int" where
  "acceptances order k [] s = 0"
| "acceptances order k ((wait, key, proof_ok) # es) s =
     (if key = k \<and> fst (authenticate order key proof_ok (fst s + int wait) (snd s)) = Authenticated
      then 1 else 0)
     + acceptances order k es (throttle_step order (wait, key, proof_ok) s)"

fun evictions ::
  "(throttle \<Rightarrow> string list) \<Rightarrow> string \<Rightarrow> authentication_event list \<Rightarrow> int \<times> throttle \<Rightarrow> int" where
  "evictions order k [] s = 0"
| "evictions order k ((wait, key, proof_ok) # es) s =
     (if key \<noteq> k \<and> prune (fst s + int wait) (snd s) k \<noteq> None
        \<and> snd (authenticate order key proof_ok (fst s + int wait) (snd s)) k = None then 1 else 0)
     + evictions order k es (throttle_step order (wait, key, proof_ok) s)"

text \<open>One attempt and the count of one key.\<close>

lemma window_step:
  fixes wait :: nat and key :: string and ok :: bool and order :: "throttle \<Rightarrow> string list" and now :: int and m :: throttle
  assumes "throttle_good (now, m)" "window t0 now g (m k)"
  defines "s' \<equiv> throttle_step order (wait, key, ok) (now, m)"
  shows "window t0 (fst s') (g + guesses order k [(wait, key, ok)] (now, m)
      - 2 * acceptances order k [(wait, key, ok)] (now, m) - 3 * evictions order k [(wait, key, ok)] (now, m)) (snd s' k)"
proof -
  let ?n = "now + int wait"
  have later: "now \<le> ?n" by simp
  show ?thesis
  proof (cases "key = k")
    case True
    have wrong: "fst (authenticate order key False ?n m) \<noteq> Authenticated"
      by (auto simp: wrong_proof split: option.splits)
    have right: "fst (authenticate order key True ?n m) \<noteq> Rejected"
      by (auto simp: authenticate_def split: prod.splits)
    show ?thesis
    proof (cases ok)
      case True
      with window_success [OF _ assms(1) later, of t0 g key order] assms(2) \<open>key = k\<close> right show ?thesis
        by (auto simp: s'_def)
    next
      case False
      with window_guess [OF _ assms(1) later, of t0 g key order] assms(2) \<open>key = k\<close> wrong show ?thesis
        by (auto simp: s'_def)
    qed
  next
    case False
    have entry: "\<And>e. m k = Some e \<Longrightarrow> entry_good now e" using assms(1) by (simp add: throttle_good_def)
    note pruned = window_prune [of t0 now g m k, OF assms(2) entry later]
    show ?thesis
    proof (cases "snd (authenticate order key ok ?n m) k = prune ?n m k")
      case True
      with False pruned show ?thesis by (auto simp: s'_def)
    next
      case forced: False
      with other_key [of k key order ok ?n m] False obtain e where e: "prune ?n m k = Some e"
        "snd (authenticate order key ok ?n m) k = None" by (cases "prune ?n m k") auto
      have "entry_good ?n e" using prune_SomeD [OF e(1)] entry later entry_good_later by blast
      with pruned have "window t0 ?n (g - 3) None" unfolding e(1)
        by (intro forgotten [of t0 ?n g e 3]) (auto simp: entry_good_def lockout_ms_def)
      with e False show ?thesis by (simp add: s'_def)
    qed
  qed
qed

lemma run_window:
  "throttle_good s \<Longrightarrow> window t0 (fst s) g (snd s k)
    \<Longrightarrow> window t0 (fst (fold (throttle_step order) es s)) (g + guesses order k es s - 2 * acceptances order k es s
          - 3 * evictions order k es s) (snd (fold (throttle_step order) es s) k)"
proof (induction es arbitrary: s g)
  case (Cons e es)
  obtain now m wait key ok where [simp]: "s = (now, m)" "e = (wait, key, ok)" by (cases s; cases e) auto
  let ?s = "throttle_step order e s"
  let ?g = "g + guesses order k [e] s - 2 * acceptances order k [e] s - 3 * evictions order k [e] s"
  have "window t0 (fst ?s) ?g (snd ?s k)" using window_step [of now m t0 g k order wait key ok] Cons.prems by simp
  from Cons.IH [OF throttle_step_good [OF Cons.prems(1)] this] show ?case by (simp add: algebra_simps)
qed simp

text \<open>With room for every key that occurs, nothing is evicted.\<close>

definition keys_of :: "authentication_event list \<Rightarrow> string set" where
  "keys_of es = (fst \<circ> snd) ` set es"

lemma no_evictions:
  assumes K: "finite K" "card K \<le> maximum_tracked_keys"
  shows "dom (snd s) \<subseteq> K \<Longrightarrow> keys_of es \<subseteq> K \<Longrightarrow> evictions order k es s = 0"
proof (induction es arbitrary: s)
  case (Cons e es)
  obtain now m wait key ok where [simp]: "s = (now, m)" "e = (wait, key, ok)" by (cases s; cases e) auto
  let ?n = "now + int wait"
  have key: "key \<in> K" using Cons.prems(2) by (simp add: keys_of_def)
  have "dom (prune ?n m) - {key} \<subset> K"
    using key Cons.prems(1) dom_prune [of ?n m] by (metis DiffD1 DiffD2 \<open>s = (now, m)\<close> insertI1 psubsetI snd_conv subset_iff)
  then have room: "card (dom (prune ?n m) - {key}) < maximum_tracked_keys"
    using psubset_card_mono [OF K(1), of "dom (prune ?n m) - {key}"] K(2) by linarith
  have "dom (snd (throttle_step order e s)) \<subseteq> K"
    using dom_authenticate [of order key ok ?n m] Cons.prems(1) key by auto
  with Cons.IH Cons.prems(2) other_key_room [OF room, of k order ok] show ?case by (auto simp: keys_of_def)
qed simp

lemma dom_run: "dom (snd (fold (throttle_step order) es s)) \<subseteq> dom (snd s) \<union> keys_of es"
proof (induction es arbitrary: s)
  case (Cons e es)
  obtain now m wait key ok where [simp]: "s = (now, m)" "e = (wait, key, ok)"
    by (cases s; cases e) auto
  show ?case
    using Cons.IH [of "throttle_step order e s"] dom_authenticate [of order key ok "now + int wait" m]
    by (auto simp: keys_of_def)
qed simp

lemma empty_throttle_good: "throttle_good (0, Map.empty)"
  by (simp add: throttle_good_def)

abbreviation throttle_run ::
  "(throttle \<Rightarrow> string list) \<Rightarrow> authentication_event list \<Rightarrow> int \<times> throttle" where
  "throttle_run order es \<equiv> fold (throttle_step order) es (0, Map.empty)"

text \<open>
  Property C24. However a client spaces its attempts and whatever other clients do, the wrong proofs of
  a client that the Host compares with the secret are bounded: in a window of \<open>d\<close> milliseconds, at any
  point of the history, at most \<open>3 * (d div 30000 + 1)\<close>, two more for each right proof of the client that
  was accepted in the window, and three more for each time its entry was evicted from the full table.
  While no more than 1024 clients have made attempts, nothing is evicted.
\<close>

theorem guesses_bounded:
  "let s = throttle_run order before; s' = throttle_run order (before @ es) in
     guesses order k es s
       \<le> 3 * ((fst s' - fst s) div 30000 + 1) + 2 * acceptances order k es s + 3 * evictions order k es s
     \<and> (card (keys_of (before @ es)) \<le> 1024 \<longrightarrow> evictions order k es s = 0)"
proof -
  define s where "s = throttle_run order before"
  let ?s' = "fold (throttle_step order) es s"
  have good: "throttle_good s" unfolding s_def by (rule throttle.run_good [OF empty_throttle_good])
  have "window (fst s) (fst s) 0 (snd s k)" by (cases "snd s k") (auto simp: window_def)
  from run_window [OF good this, of order es]
  have "window (fst s) (fst ?s') (guesses order k es s - 2 * acceptances order k es s - 3 * evictions order k es s)
    (snd ?s' k)" by simp
  moreover have "throttle_good ?s'" by (rule throttle.run_good [OF good])
  ultimately have "guesses order k es s \<le> 3 * ((fst (throttle_run order (before @ es)) - fst s) div 30000 + 1)
      + 2 * acceptances order k es s + 3 * evictions order k es s"
    using window_bound [of "fst s" "fst ?s'"] by (fastforce simp: throttle_good_def lockout_ms_def s_def)
  moreover have "card (keys_of (before @ es)) \<le> 1024 \<longrightarrow> evictions order k es s = 0"
  proof
    assume "card (keys_of (before @ es)) \<le> 1024"
    moreover have "dom (snd s) \<subseteq> keys_of (before @ es)"
      using dom_run [of order before "(0, Map.empty)"] by (auto simp: keys_of_def s_def)
    ultimately show "evictions order k es s = 0"
      by (intro no_evictions [of "keys_of (before @ es)"]) (auto simp: keys_of_def maximum_tracked_keys_def)
  qed
  ultimately show ?thesis by (simp add: Let_def s_def)
qed

theorem guesses_bounded_witness:
  "guesses (\<lambda>_. []) ''peer'' (replicate 5 (100, ''peer'', False))
     (throttle_run (\<lambda>_. []) [(0, ''other'', False)]) = 3
   \<and> (3 :: int) \<le> 3 * (500 div 30000 + 1)"
proof -
  let ?es = "replicate 5 (100, ''peer'', False) :: authentication_event list"
  let ?b = "[(0, ''other'', False)] :: authentication_event list"
  have replicate5: "replicate 5 x = [x, x, x, x, x]" for x :: authentication_event
    by (simp add: numeral_eq_Suc)
  have keys: "keys_of (?b @ ?es) = {''other'', ''peer''}"
    by (simp add: keys_of_def)
  have run: "guesses (\<lambda>_. []) ''peer'' ?es (throttle_run (\<lambda>_. []) ?b) = 3"
    "fst (throttle_run (\<lambda>_. []) (?b @ ?es)) - fst (throttle_run (\<lambda>_. []) ?b) = 500"
    by (simp_all add: replicate5 wrong_proof evicted_def first_failure_def next_failure_def
        throttle_constants maximum_tracked_keys_def)
  have "acceptances (\<lambda>_. []) ''peer'' ?es (throttle_run (\<lambda>_. []) ?b) = 0"
    by (simp add: replicate5 wrong_proof evicted_def first_failure_def next_failure_def
        throttle_constants maximum_tracked_keys_def)
  moreover have "evictions (\<lambda>_. []) ''peer'' ?es (throttle_run (\<lambda>_. []) ?b) = 0"
    using guesses_bounded [where order = "\<lambda>_. []" and k = "''peer''" and es = ?es and before = ?b]
    by (simp only: Let_def keys) simp
  ultimately show ?thesis
    using guesses_bounded [where order = "\<lambda>_. []" and k = "''peer''" and es = ?es and before = ?b] run
    by (simp only: Let_def) simp
qed

text \<open>
  A lockout ends when the Host says it does: at any point of a history a client
  is either allowed, or refused with a time of at most thirty seconds after which, if
  nothing happens in between, it is allowed.
\<close>

theorem lockout_ends:
  "let (now, m) = throttle_run order es; (d, m') = throttle_check key now m in
     allowed d \<or> (0 < retry_after d \<and> retry_after d \<le> 30000
       \<and> allowed (fst (throttle_check key (now + retry_after d) m')))"
proof -
  obtain now m where run: "throttle_run order es = (now, m)" by fastforce
  have good: "throttle_good (now, m)"
    using throttle.run_good [OF empty_throttle_good, of order es] by (simp add: run)
  have "entry_good now e" if "prune now m key = Some e" for e
    using good prune_SomeD [OF that] by (auto simp: throttle_good_def)
  then show ?thesis
    unfolding run
    by (auto simp: throttle_check_def Let_def allow_def entry_good_def lockout_ms_def
        dest: prune_SomeD split: option.splits)
qed

end
