(* ===== verification/HostFiles.thy ===== *)
theory HostFiles
  imports Prelude
begin

text \<open>
  The files beside the database: the primitive file operations the code uses (\<open>QFile\<close>,
  \<open>QSaveFile\<close>) and the Host data epoch kept with them (\<open>network/HostDataEpoch\<close>).

  The files are a map from absolute paths to contents. Every operation that changes a file
  or opens one consumes an entry of \<open>file_faults\<close>, and \<open>True\<close> makes it fail without effect;
  an exhausted list fails nothing. \<open>power\<close> is the number of operations until the machine
  stops: from then on nothing changes the files any more, which is all that a process that
  was killed there would have left. What the program computes after that point is of no
  consequence, and the theorems look at it only while there is power.

  A JSON document is a content with its fields, so the text of the documents is not
  modelled; any other content is a document the code finds malformed. \<open>QSaveFile\<close> replaces a
  file in one step. Paths are absolute and distinct paths are distinct files.
\<close>

section \<open>Files and operations on them\<close>

record restore_journal =
  jr_state :: string
  jr_live :: string
  jr_stage :: string
  jr_previous :: string
  jr_old_epoch :: string
  jr_new_epoch :: string

datatype content =
  DatabaseImage string
| EpochDocument int string
| InitializedMarker
| JournalDocument int restore_journal
| Fragment

type_synonym file_map = "string \<rightharpoonup> content"

record disk =
  files :: file_map
  file_faults :: "bool list"
  power :: nat

definition mutate :: "(file_map \<Rightarrow> file_map option) \<Rightarrow> (disk, bool) state" where
  "mutate f = State (\<lambda>d.
     if power d = 0 then (False, d)
     else let e = d\<lparr>power := power d - 1, file_faults := tl (file_faults d)\<rparr> in
       if file_faults d \<noteq> [] \<and> hd (file_faults d) then (False, e)
       else case f (files d) of None \<Rightarrow> (False, e) | Some g \<Rightarrow> (True, e\<lparr>files := g\<rparr>))"

definition file_exists :: "string \<Rightarrow> (disk, bool) state" where
  "file_exists p = State (\<lambda>d. (files d p \<noteq> None, d))"

definition look :: "(file_map \<Rightarrow> 'a) \<Rightarrow> (disk, 'a) state" where
  "look q = State (\<lambda>d. (q (files d), d))"

definition attempt :: "(disk, bool) state" where
  "attempt = mutate Some"

definition make_path :: "(disk, bool) state" where
  "make_path = attempt"

definition read_file :: "string \<Rightarrow> (disk, content option) state" where
  "read_file p = do {
     opened \<leftarrow> attempt;
     c \<leftarrow> look (\<lambda>f. f p);
     ret (if opened then c else None)
   }"

definition remove_file :: "string \<Rightarrow> (disk, bool) state" where
  "remove_file p = mutate (\<lambda>f. if f p = None then None else Some (f(p := None)))"

definition rename_file :: "string \<Rightarrow> string \<Rightarrow> (disk, bool) state" where
  "rename_file p q = mutate (\<lambda>f. case f p of
       None \<Rightarrow> None
     | Some c \<Rightarrow> if f q = None then Some (f(p := None, q \<mapsto> c)) else None)"

definition save_file :: "string \<Rightarrow> content \<Rightarrow> (disk, bool) state" where
  "save_file p c = mutate (\<lambda>f. Some (f(p \<mapsto> c)))"

text \<open>A copy writes a new file piece by piece and refuses to overwrite one.\<close>

definition copy_file :: "string \<Rightarrow> string \<Rightarrow> (disk, bool) state" where
  "copy_file p q = do {
     created \<leftarrow> mutate (\<lambda>f. if f p = None \<or> f q \<noteq> None then None else Some (f(q \<mapsto> Fragment)));
     if \<not> created then ret False
     else mutate (\<lambda>f. case f p of None \<Rightarrow> None | Some c \<Rightarrow> Some (f(q \<mapsto> c)))
   }"

section \<open>Statements about files before and after\<close>

text \<open>
  From files with \<open>P\<close>, the computation ends, however its operations fail and wherever the
  power goes, in a result and files with \<open>Q\<close>.
\<close>

definition leads :: "(file_map \<Rightarrow> bool) \<Rightarrow> (disk, 'a) state \<Rightarrow> ('a \<Rightarrow> file_map \<Rightarrow> bool) \<Rightarrow> bool" where
  "leads P m Q \<longleftrightarrow> (\<forall>d. P (files d) \<longrightarrow> (case run_state m d of (a, e) \<Rightarrow> Q a (files e)))"

named_theorems leads_rules "from files to files, operation by operation"

lemma leadsD: "leads P m Q \<Longrightarrow> run_state m d = (a, e) \<Longrightarrow> P (files d) \<Longrightarrow> Q a (files e)"
  by (auto simp: leads_def)

lemma leads_bind:
  "leads P m Q \<Longrightarrow> (\<And>a. leads (Q a) (f a) R) \<Longrightarrow> leads P (State_Monad.bind m f) R"
  by (fastforce simp: leads_def State_Monad.bind_def split: prod.splits)

lemma leads_ret: "(\<And>f. P f \<Longrightarrow> Q a f) \<Longrightarrow> leads P (ret a) Q"
  by (simp add: leads_def State_Monad.return_def)

lemma leads_if:
  "(b \<Longrightarrow> leads P m Q) \<Longrightarrow> (\<not> b \<Longrightarrow> leads P n Q) \<Longrightarrow> leads P (if b then m else n) Q"
  by simp

lemma leads_mono:
  "leads P m Q \<Longrightarrow> (\<And>f. P' f \<Longrightarrow> P f) \<Longrightarrow> (\<And>a f. Q a f \<Longrightarrow> Q' a f) \<Longrightarrow> leads P' m Q'"
  by (fastforce simp: leads_def split: prod.splits)

lemma leads_mutate:
  "(\<And>f. P f \<Longrightarrow> Q False f) \<Longrightarrow> (\<And>f g. P f \<Longrightarrow> h f = Some g \<Longrightarrow> Q True g) \<Longrightarrow> leads P (mutate h) Q"
  by (auto simp: leads_def mutate_def Let_def split: option.splits)

lemma leads_exists: "(\<And>f. P f \<Longrightarrow> Q (f p \<noteq> None) f) \<Longrightarrow> leads P (file_exists p) Q"
  by (simp add: leads_def file_exists_def)

lemma leads_look: "(\<And>f. P f \<Longrightarrow> Q (q f) f) \<Longrightarrow> leads P (look q) Q"
  by (simp add: leads_def look_def)

lemma leads_attempt: "(\<And>f. P f \<Longrightarrow> Q False f) \<Longrightarrow> (\<And>f. P f \<Longrightarrow> Q True f) \<Longrightarrow> leads P attempt Q"
  unfolding attempt_def by (rule leads_mutate) auto

lemma leads_remove:
  "(\<And>f. P f \<Longrightarrow> Q False f) \<Longrightarrow> (\<And>f c. P f \<Longrightarrow> f p = Some c \<Longrightarrow> Q True (f(p := None)))
    \<Longrightarrow> leads P (remove_file p) Q"
  unfolding remove_file_def by (rule leads_mutate) (auto split: if_splits)

lemma leads_rename:
  "(\<And>f. P f \<Longrightarrow> Q False f)
    \<Longrightarrow> (\<And>f c. P f \<Longrightarrow> f p = Some c \<Longrightarrow> f q = None \<Longrightarrow> Q True (f(p := None, q \<mapsto> c)))
    \<Longrightarrow> leads P (rename_file p q) Q"
  unfolding rename_file_def by (rule leads_mutate) (auto split: option.splits if_splits)

lemma leads_save:
  "(\<And>f. P f \<Longrightarrow> Q False f) \<Longrightarrow> (\<And>f. P f \<Longrightarrow> Q True (f(p \<mapsto> c))) \<Longrightarrow> leads P (save_file p c) Q"
  unfolding save_file_def by (rule leads_mutate) auto

lemma leads_read:
  "(\<And>f. P f \<Longrightarrow> Q None f) \<Longrightarrow> (\<And>f. P f \<Longrightarrow> Q (f p) f) \<Longrightarrow> leads P (read_file p) Q"
  unfolding read_file_def
  by (rule leads_bind, rule leads_attempt [where Q = "\<lambda>_. P"], assumption, assumption,
      rule leads_bind, rule leads_look [where Q = "\<lambda>a f. P f \<and> a = f p"], simp, rule leads_ret) auto

section \<open>The Host data epoch\<close>

definition hex_digit :: "char \<Rightarrow> bool" where
  "hex_digit c \<longleftrightarrow> (let n = (of_char c :: nat)
     in (48 \<le> n \<and> n \<le> 57) \<or> (65 \<le> n \<and> n \<le> 70) \<or> (97 \<le> n \<and> n \<le> 102))"

text \<open>A UUID is 36 characters, with dashes at four places, and not null.\<close>

definition epoch_valid :: "string \<Rightarrow> bool" where
  "epoch_valid e \<longleftrightarrow> length e = 36
     \<and> list_all (\<lambda>i. if i \<in> {8, 13, 18, 23} then e ! i = CHR ''-'' else hex_digit (e ! i)) [0..<36]
     \<and> \<not> list_all (\<lambda>c. c = CHR ''-'' \<or> c = CHR ''0'') e"

datatype epoch_error =
  EpochMissing | EpochUnreadable | EpochMalformed | EpochInvalid | NoDirectory
| EpochNotSaved | MarkerNotSaved

record epoch_result =
  ep_error :: "epoch_error option"
  ep_bootstrapped :: bool
  ep_epoch :: string

definition epoch_failure :: "epoch_error \<Rightarrow> epoch_result" where
  "epoch_failure e = \<lparr>ep_error = Some e, ep_bootstrapped = False, ep_epoch = []\<rparr>"

definition ep_success :: "epoch_result \<Rightarrow> bool" where
  "ep_success r \<longleftrightarrow> ep_error r = None"

definition epoch_path :: "string \<Rightarrow> string" where
  "epoch_path dir = dir @ ''/host-data-epoch.json''"

definition marker_path :: "string \<Rightarrow> string" where
  "marker_path dir = dir @ ''/host-data-epoch.initialized''"

definition persist_epoch :: "string \<Rightarrow> string \<Rightarrow> (disk, epoch_error option) state" where
  "persist_epoch epoch dir =
     (if \<not> epoch_valid epoch then ret (Some EpochInvalid)
      else do {
        made \<leftarrow> make_path;
        if \<not> made then ret (Some NoDirectory)
        else do {
          saved \<leftarrow> save_file (epoch_path dir) (EpochDocument 1 (map to_lower epoch));
          ret (if saved then None else Some EpochNotSaved)
        }
      })"

definition write_marker :: "string \<Rightarrow> (disk, bool) state" where
  "write_marker p = save_file p InitializedMarker"

text \<open>\<open>fresh\<close> is the UUID \<open>create\<close> makes.\<close>

definition load_epoch :: "string \<Rightarrow> string \<Rightarrow> bool \<Rightarrow> (disk, epoch_result) state" where
  "load_epoch fresh dir permit_bootstrap = do {
     epoch_exists \<leftarrow> file_exists (epoch_path dir);
     marker_exists \<leftarrow> file_exists (marker_path dir);
     if \<not> epoch_exists then
       if marker_exists \<or> \<not> permit_bootstrap then ret (epoch_failure EpochMissing)
       else do {
         persisted \<leftarrow> persist_epoch fresh dir;
         marked \<leftarrow> (if persisted \<noteq> None then ret False else write_marker (marker_path dir));
         if persisted \<noteq> None \<or> \<not> marked then do {
           _ \<leftarrow> remove_file (epoch_path dir);
           ret (epoch_failure (case persisted of Some e \<Rightarrow> e | None \<Rightarrow> MarkerNotSaved))
         }
         else ret \<lparr>ep_error = None, ep_bootstrapped = True, ep_epoch = fresh\<rparr>
       }
     else do {
       document \<leftarrow> read_file (epoch_path dir);
       case document of
         None \<Rightarrow> ret (epoch_failure EpochUnreadable)
       | Some (EpochDocument version epoch) \<Rightarrow>
           if version \<noteq> 1 \<or> \<not> epoch_valid epoch then ret (epoch_failure EpochMalformed)
           else do {
             marked \<leftarrow> (if marker_exists then ret True else write_marker (marker_path dir));
             if \<not> marked then ret (epoch_failure MarkerNotSaved)
             else ret \<lparr>ep_error = None, ep_bootstrapped = False, ep_epoch = map to_lower epoch\<rparr>
           }
       | Some _ \<Rightarrow> ret (epoch_failure EpochMalformed)
     }
   }"

definition load_existing :: "string \<Rightarrow> (disk, epoch_result) state" where
  "load_existing dir = load_epoch [] dir False"

definition load_or_bootstrap :: "string \<Rightarrow> string \<Rightarrow> (disk, epoch_result) state" where
  "load_or_bootstrap fresh dir = load_epoch fresh dir True"

text \<open>Reading an existing epoch writes nothing but the marker, and answers what the file says.\<close>

lemma leads_load_existing:
  assumes "\<And>r f. P f \<Longrightarrow> \<not> ep_success r \<Longrightarrow> Q r f"
    and "\<And>f c. P f \<Longrightarrow> P (f(marker_path dir \<mapsto> c))"
    and "\<And>r f e. P f \<Longrightarrow> f (epoch_path dir) = Some (EpochDocument 1 e) \<Longrightarrow> epoch_valid e
      \<Longrightarrow> r = \<lparr>ep_error = None, ep_bootstrapped = False, ep_epoch = map to_lower e\<rparr> \<Longrightarrow> Q r f"
  shows "leads P (load_existing dir) Q"
proof -
  have apart: "epoch_path dir \<noteq> marker_path dir"
    by (simp add: epoch_path_def marker_path_def)
  have fail: "\<not> ep_success (epoch_failure e)" for e
    by (simp add: ep_success_def epoch_failure_def)
  let ?Q = "\<lambda>x f. P f \<and> (x = None \<or> f (epoch_path dir) = x)"
  have read: "leads P (read_file (epoch_path dir)) ?Q"
    by (rule leads_read) auto
  have mark: "leads (?Q (Some (EpochDocument 1 e)))
      (if marker then ret True else write_marker (marker_path dir))
      (\<lambda>_ f. ?Q (Some (EpochDocument 1 e)) f)" for e marker
    unfolding write_marker_def
    by (rule leads_if) (auto intro!: leads_ret leads_save simp: assms(2) apart)
  have accepted: "leads (?Q (Some (EpochDocument 1 e))) (do {
      marked \<leftarrow> (if marker then ret True else write_marker (marker_path dir));
      if \<not> marked then ret (epoch_failure MarkerNotSaved)
      else ret \<lparr>ep_error = None, ep_bootstrapped = False, ep_epoch = map to_lower e\<rparr>
    }) Q" if "epoch_valid e" for e marker
    by (rule leads_bind [OF mark], rule leads_if; rule leads_ret)
       (use fail assms(1,3) that in auto)
  have parsed: "leads (?Q document)
      (case document of
         None \<Rightarrow> ret (epoch_failure EpochUnreadable)
       | Some (EpochDocument version epoch) \<Rightarrow>
           if version \<noteq> 1 \<or> \<not> epoch_valid epoch then ret (epoch_failure EpochMalformed)
           else do {
             marked \<leftarrow> (if marker then ret True else write_marker (marker_path dir));
             if \<not> marked then ret (epoch_failure MarkerNotSaved)
             else ret \<lparr>ep_error = None, ep_bootstrapped = False, ep_epoch = map to_lower epoch\<rparr>
           }
       | Some _ \<Rightarrow> ret (epoch_failure EpochMalformed)) Q" for document marker
  proof (cases "\<exists>e. document = Some (EpochDocument 1 e) \<and> epoch_valid e")
    case True
    then obtain e where e: "document = Some (EpochDocument 1 e)" "epoch_valid e" by blast
    show ?thesis using accepted [OF e(2), of marker] by (simp only: e option.case content.case) simp
  next
    case False
    then show ?thesis
      by (auto split: option.splits content.splits intro!: leads_ret assms(1) fail)
  qed
  show ?thesis
    unfolding load_existing_def load_epoch_def
    apply (rule leads_bind [OF leads_exists [where Q = "\<lambda>_ f. P f"]], assumption)
    apply (rule leads_bind [OF leads_exists [where Q = "\<lambda>_ f. P f"]], assumption)
    apply (rule leads_if)
     apply (rule leads_if)
      apply (rule leads_ret, rule assms(1), assumption, rule fail)
     apply simp
    apply (rule leads_bind [OF read])
    apply (rule parsed)
    done
qed

lemma leads_persist_epoch:
  "(\<And>r f. P f \<Longrightarrow> Q (Some r) f)
    \<Longrightarrow> (\<And>f. P f \<Longrightarrow> epoch_valid e \<Longrightarrow> Q None (f(epoch_path dir \<mapsto> EpochDocument 1 (map to_lower e))))
    \<Longrightarrow> leads P (persist_epoch e dir) Q"
  unfolding persist_epoch_def make_path_def
  by (auto intro!: leads_if leads_ret leads_bind [OF leads_attempt [where Q = "\<lambda>_. P"]]
      leads_bind [OF leads_save [where Q = "\<lambda>a f. if a then epoch_valid e \<longrightarrow> Q None f else P f"]])

end
