(* ===== verification/DatabaseRestore.thy ===== *)
theory DatabaseRestore
  imports HostFiles
begin

text \<open>
  Verified backups (\<open>DatabaseManager::createVerifiedBackup\<close>) and the Restore transaction
  (\<open>services/database/DatabaseRestoreTransaction\<close>): the replacement of the live database by
  a selected one under a journal, its rollback, and the recovery at startup.

  What SQLite reads in the files is a parameter: \<open>valid_file\<close> is the verdict of
  \<open>DatabaseFileValidator::validate\<close> and \<open>image_of\<close> what \<open>VACUUM INTO\<close> writes when it
  reads the database at a path. The fault injection of the tests and the progress messages
  are not modelled.
\<close>

record sqlite =
  valid_file :: "file_map \<Rightarrow> string \<Rightarrow> bool"
  image_of :: "file_map \<Rightarrow> string \<Rightarrow> content option"

section \<open>Verified backups\<close>

datatype backup_failure =
  BackupNone | BackupBusy | BackupSource | BackupDestination | BackupSnapshot | BackupVerification

text \<open>\<open>VACUUM INTO\<close> is given a new file; it writes all of it, or fails, or is cut off.\<close>

definition vacuum_into :: "sqlite \<Rightarrow> string \<Rightarrow> string \<Rightarrow> (disk, bool) state" where
  "vacuum_into q source p = do {
     created \<leftarrow> mutate (\<lambda>f. if f p \<noteq> None \<or> image_of q f source = None then None
                             else Some (f(p \<mapsto> Fragment)));
     if \<not> created then ret False
     else mutate (\<lambda>f. case image_of q f source of None \<Rightarrow> None | Some c \<Rightarrow> Some (f(p \<mapsto> c)))
   }"

definition create_snapshot :: "sqlite \<Rightarrow> string \<Rightarrow> string \<Rightarrow> (disk, backup_failure option) state" where
  "create_snapshot q source p0 =
     (let p = trimmed p0; temporary = p @ ''.tmp'' in
      if p = [] then ret (Some BackupDestination)
      else do {
        made \<leftarrow> make_path;
        if \<not> made then ret (Some BackupDestination) else do {
        stale \<leftarrow> file_exists temporary;
        cleared \<leftarrow> (if stale then remove_file temporary else ret True);
        if \<not> cleared then ret (Some BackupDestination) else do {
        written \<leftarrow> vacuum_into q source temporary;
        if \<not> written then do {
          _ \<leftarrow> remove_file temporary;
          ret (Some BackupSnapshot)
        } else do {
        present \<leftarrow> file_exists temporary;
        if \<not> present then ret (Some BackupSnapshot) else do {
        occupied \<leftarrow> file_exists p;
        freed \<leftarrow> (if occupied then remove_file p else ret True);
        if \<not> freed then do {
          _ \<leftarrow> remove_file temporary;
          ret (Some BackupDestination)
        } else do {
        published \<leftarrow> rename_file temporary p;
        if \<not> published then do {
          _ \<leftarrow> remove_file temporary;
          ret (Some BackupDestination)
        } else ret None
        }}}}}
      })"

text \<open>\<open>token\<close> is the UUID of the pending file. The lock is one more thing that may fail.\<close>

definition pending_path :: "string \<Rightarrow> string \<Rightarrow> string" where
  "pending_path backup token = backup @ ''.pending.'' @ token"

definition create_verified_backup ::
  "sqlite \<Rightarrow> string \<Rightarrow> string \<Rightarrow> string \<Rightarrow> (disk, backup_failure) state" where
  "create_verified_backup q token source backup =
     (let pending = pending_path backup token in do {
        locked \<leftarrow> attempt;
        if \<not> locked then ret BackupBusy else do {
        opened \<leftarrow> attempt;
        failure \<leftarrow> (if \<not> opened then ret BackupSource else do {
          snapshot_failure \<leftarrow> create_snapshot q source pending;
          case snapshot_failure of
            Some e \<Rightarrow> ret e
          | None \<Rightarrow> do {
              verified \<leftarrow> look (\<lambda>f. valid_file q f pending);
              if verified then do {
                published \<leftarrow> rename_file pending backup;
                if published then ret BackupNone
                else do {
                  _ \<leftarrow> remove_file pending;
                  ret BackupDestination
                }
              }
              else do {
                removed \<leftarrow> remove_file pending;
                _ \<leftarrow> (if removed then ret True
                       else rename_file pending (pending @ ''.unverified''));
                ret BackupVerification
              }
            }
        });
        _ \<leftarrow> remove_file (pending @ ''.tmp'');
        ret failure
        }
      })"

section \<open>Paths of the Restore transaction\<close>

definition sidecars :: "string list" where
  "sidecars = [''-wal'', ''-shm'', ''-journal'']"

definition journal_path :: "string \<Rightarrow> string" where
  "journal_path state_dir = state_dir @ ''/database-restore-transaction.json''"

definition stage_path :: "string \<Rightarrow> string" where
  "stage_path live = live @ ''.restore_candidate''"

definition previous_path :: "string \<Rightarrow> string" where
  "previous_path live = live @ ''.restore_previous''"

definition same_file :: "file_map \<Rightarrow> string \<Rightarrow> string \<Rightarrow> bool" where
  "same_file f p q \<longleftrightarrow> f p \<noteq> None \<and> f q \<noteq> None \<and> nocase_eq p q"

definition is_preflight_artifact :: "string \<Rightarrow> string \<Rightarrow> bool" where
  "is_preflight_artifact p live \<longleftrightarrow>
     (let marker = live @ ''.restore_preflight_''
      in length marker \<le> length p \<and> nocase_eq (take (length marker) p) marker)"

definition is_controlled_artifact :: "file_map \<Rightarrow> string \<Rightarrow> string \<Rightarrow> string \<Rightarrow> bool" where
  "is_controlled_artifact f p live state_dir \<longleftrightarrow>
     same_file f p live \<or> nocase_eq p (stage_path live) \<or> nocase_eq p (previous_path live)
     \<or> is_preflight_artifact p live \<or> nocase_eq p (journal_path state_dir)"

section \<open>The journal and the moves\<close>

definition write_journal :: "string \<Rightarrow> restore_journal \<Rightarrow> (disk, bool) state" where
  "write_journal p j = do {
     made \<leftarrow> make_path;
     if \<not> made then ret False else save_file p (JournalDocument 1 j)
   }"

definition journal_fields_ok :: "restore_journal \<Rightarrow> bool" where
  "journal_fields_ok j \<longleftrightarrow> (jr_state j = ''prepared'' \<or> jr_state j = ''committed'')
     \<and> jr_live j \<noteq> [] \<and> jr_stage j \<noteq> [] \<and> jr_previous j \<noteq> []
     \<and> epoch_valid (jr_old_epoch j) \<and> epoch_valid (jr_new_epoch j)"

definition read_journal :: "string \<Rightarrow> (disk, restore_journal option) state" where
  "read_journal p = do {
     document \<leftarrow> read_file p;
     ret (case document of
         Some (JournalDocument version j) \<Rightarrow>
           if version = 1 \<and> journal_fields_ok j then Some j else None
       | _ \<Rightarrow> None)
   }"

definition remove_path :: "string \<Rightarrow> (disk, bool) state" where
  "remove_path p = do {
     present \<leftarrow> file_exists p;
     if present then remove_file p else ret True
   }"

fun move_sidecars :: "string \<Rightarrow> string \<Rightarrow> string list \<Rightarrow> (disk, bool) state" where
  "move_sidecars p q [] = ret True"
| "move_sidecars p q (suffix # rest) = do {
     present \<leftarrow> file_exists (p @ suffix);
     if \<not> present then move_sidecars p q rest
     else do {
       _ \<leftarrow> remove_path (q @ suffix);
       moved \<leftarrow> rename_file (p @ suffix) (q @ suffix);
       if \<not> moved then ret False else move_sidecars p q rest
     }
   }"

definition move_with_sidecars :: "string \<Rightarrow> string \<Rightarrow> (disk, bool) state" where
  "move_with_sidecars p q = do {
     occupied \<leftarrow> file_exists q;
     freed \<leftarrow> (if occupied then remove_file q else ret True);
     if \<not> freed then ret False
     else do {
       moved \<leftarrow> rename_file p q;
       if \<not> moved then ret False else move_sidecars p q sidecars
     }
   }"

fun remove_all :: "string list \<Rightarrow> (disk, unit) state" where
  "remove_all [] = ret ()"
| "remove_all (p # ps) = do {
     _ \<leftarrow> remove_path p;
     remove_all ps
   }"

definition remove_with_sidecars :: "string \<Rightarrow> (disk, unit) state" where
  "remove_with_sidecars p = do {
     _ \<leftarrow> remove_path p;
     remove_all (map (\<lambda>suffix. p @ suffix) sidecars)
   }"

definition rollback_files :: "sqlite \<Rightarrow> restore_journal \<Rightarrow> (disk, bool) state" where
  "rollback_files q j = do {
     _ \<leftarrow> remove_with_sidecars (jr_live j);
     present \<leftarrow> file_exists (jr_previous j);
     moved \<leftarrow> (if \<not> present then ret False else move_with_sidecars (jr_previous j) (jr_live j));
     if \<not> moved then ret False else look (\<lambda>f. valid_file q f (jr_live j))
   }"

section \<open>The Restore\<close>

datatype restore_failure =
  RestoreNone | RestoreCandidate | RestoreSafetyBackup | RestoreStaging | RestoreJournal
| RestoreReplacement | RestoreInstalledValidation | RestoreEpochCommit | RestoreRollback

record restore_result =
  rr_success :: bool
  rr_restart :: bool
  rr_rolled_back :: bool
  rr_failure :: restore_failure
  rr_new_epoch :: string

definition restore_failed :: "restore_failure \<Rightarrow> string \<Rightarrow> restore_result" where
  "restore_failed e new_epoch = \<lparr>rr_success = False, rr_restart = False,
     rr_rolled_back = False, rr_failure = e, rr_new_epoch = new_epoch\<rparr>"

definition prepared_journal :: "string \<Rightarrow> string \<Rightarrow> string \<Rightarrow> restore_journal" where
  "prepared_journal live old_epoch new_epoch = \<lparr>jr_state = ''prepared'', jr_live = live,
     jr_stage = stage_path live, jr_previous = previous_path live,
     jr_old_epoch = old_epoch, jr_new_epoch = new_epoch\<rparr>"

text \<open>From the journal on: replacement, validation, the new epoch, and the clean-up.\<close>

definition finish_restore :: "restore_journal \<Rightarrow> string \<Rightarrow> (disk, restore_result) state" where
  "finish_restore j journal_file = do {
     _ \<leftarrow> write_journal journal_file (j\<lparr>jr_state := ''committed''\<rparr>);
     _ \<leftarrow> remove_with_sidecars (jr_previous j);
     _ \<leftarrow> remove_with_sidecars (jr_stage j);
     _ \<leftarrow> remove_file journal_file;
     ret \<lparr>rr_success = True, rr_restart = True, rr_rolled_back = False,
          rr_failure = RestoreNone, rr_new_epoch = jr_new_epoch j\<rparr>
   }"

definition recover_previous ::
  "sqlite \<Rightarrow> restore_journal \<Rightarrow> string \<Rightarrow> string \<Rightarrow> restore_failure
    \<Rightarrow> (disk, restore_result) state" where
  "recover_previous q j epoch_dir journal_file failure = do {
     rolled_back \<leftarrow> rollback_files q j;
     if rolled_back then do {
       _ \<leftarrow> persist_epoch (jr_old_epoch j) epoch_dir;
       _ \<leftarrow> remove_with_sidecars (jr_stage j);
       _ \<leftarrow> remove_file journal_file;
       ret ((restore_failed failure (jr_new_epoch j))\<lparr>rr_rolled_back := True\<rparr>)
     }
     else ret (restore_failed RestoreRollback (jr_new_epoch j))
   }"

definition replace_live ::
  "sqlite \<Rightarrow> restore_journal \<Rightarrow> string \<Rightarrow> string \<Rightarrow> (disk, restore_result) state" where
  "replace_live q j epoch_dir journal_file = do {
     moved_live \<leftarrow> move_with_sidecars (jr_live j) (jr_previous j);
     installed \<leftarrow> (if \<not> moved_live then ret False else rename_file (jr_stage j) (jr_live j));
     if \<not> installed then recover_previous q j epoch_dir journal_file RestoreReplacement
     else do {
       ok \<leftarrow> look (\<lambda>f. valid_file q f (jr_live j));
       if \<not> ok then recover_previous q j epoch_dir journal_file RestoreInstalledValidation
       else do {
         unsaved \<leftarrow> persist_epoch (jr_new_epoch j) epoch_dir;
         if unsaved \<noteq> None then recover_previous q j epoch_dir journal_file RestoreEpochCommit
         else finish_restore j journal_file
       }
     }
   }"

text \<open>
  \<open>execute\<close>. \<open>token\<close> is the UUID of the pending backup and \<open>fresh\<close> the new epoch.
\<close>

definition execute_restore ::
  "sqlite \<Rightarrow> string \<Rightarrow> string \<Rightarrow> string \<Rightarrow> string \<Rightarrow> string \<Rightarrow> string \<Rightarrow> string \<Rightarrow> bool
    \<Rightarrow> (disk, restore_result) state" where
  "execute_restore q token fresh candidate live safety epoch_dir state_dir trusted_preflight = do {
     candidate_ok \<leftarrow> look (\<lambda>f. valid_file q f candidate);
     controlled \<leftarrow> look (\<lambda>f. is_controlled_artifact f candidate live state_dir);
     if \<not> candidate_ok
       \<or> controlled \<and> \<not> (trusted_preflight \<and> is_preflight_artifact candidate live)
     then ret (restore_failed RestoreCandidate [])
     else do {
     current \<leftarrow> load_existing epoch_dir;
     if \<not> ep_success current then ret (restore_failed RestoreEpochCommit []) else do {
     backup_failed \<leftarrow> create_verified_backup q token live safety;
     if backup_failed \<noteq> BackupNone then ret (restore_failed RestoreSafetyBackup []) else do {
     let j = prepared_journal live (ep_epoch current) fresh;
     _ \<leftarrow> remove_with_sidecars (jr_stage j);
     _ \<leftarrow> remove_with_sidecars (jr_previous j);
     staged \<leftarrow> copy_file candidate (jr_stage j);
     if \<not> staged then ret (restore_failed RestoreStaging fresh) else do {
     journaled \<leftarrow> write_journal (journal_path state_dir) j;
     if \<not> journaled then do {
       _ \<leftarrow> remove_with_sidecars (jr_stage j);
       ret (restore_failed RestoreJournal fresh)
     }
     else replace_live q j epoch_dir (journal_path state_dir)
     }}}}
   }"

section \<open>Recovery at startup\<close>

record recovery_result =
  rc_success :: bool
  rc_recovered_previous :: bool
  rc_completed_restore :: bool

definition recovery :: "bool \<Rightarrow> bool \<Rightarrow> bool \<Rightarrow> recovery_result" where
  "recovery ok previous completed =
     \<lparr>rc_success = ok, rc_recovered_previous = previous, rc_completed_restore = completed\<rparr>"

definition recover_at_startup ::
  "sqlite \<Rightarrow> string \<Rightarrow> string \<Rightarrow> string \<Rightarrow> (disk, recovery_result) state" where
  "recover_at_startup q live epoch_dir state_dir = do {
     let path = journal_path state_dir;
     present \<leftarrow> file_exists path;
     if \<not> present then ret (recovery True False False) else do {
     read \<leftarrow> read_journal path;
     case read of
       None \<Rightarrow> ret (recovery False False False)
     | Some j \<Rightarrow>
         if \<not> nocase_eq (jr_live j) live then ret (recovery False False False)
         else do {
           epoch \<leftarrow> load_existing epoch_dir;
           if \<not> ep_success epoch then ret (recovery False False False)
           else if ep_epoch epoch = jr_new_epoch j then do {
             ok \<leftarrow> look (\<lambda>f. valid_file q f (jr_live j));
             if \<not> ok then ret (recovery False False False)
             else do {
               _ \<leftarrow> remove_with_sidecars (jr_previous j);
               _ \<leftarrow> remove_with_sidecars (jr_stage j);
               _ \<leftarrow> remove_file path;
               ret (recovery True False True)
             }
           }
           else if ep_epoch epoch \<noteq> jr_old_epoch j then ret (recovery False False False)
           else do {
             rolled_back \<leftarrow> rollback_files q j;
             if \<not> rolled_back then ret (recovery False False False)
             else do {
               _ \<leftarrow> remove_with_sidecars (jr_stage j);
               _ \<leftarrow> remove_file path;
               ret (recovery True True False)
             }
           }
         }
     }
   }"

end
