(* ===== verification/RestoreSafety.thy ===== *)
theory RestoreSafety
  imports DatabaseRestore
begin

text \<open>
  What a Restore leaves behind when operations on files fail or the machine stops at any
  point of it, and what the recovery at the next startups makes of that. The phases of the
  transaction are predicates on the files; every operation leads from one to another.
\<close>

section \<open>A Restore and its phases\<close>

text \<open>
  The paths of one Restore, the contents of the live and the selected database, what a
  backup of the live one contains, and the two epochs.
\<close>

record restore_case =
  live_db :: string
  candidate_db :: string
  safety_db :: string
  backup_token :: string
  epoch_home :: string
  state_home :: string
  old_image :: content
  new_image :: content
  backup_image :: content
  old_epoch :: string
  new_epoch :: string

definition pending_of :: "restore_case \<Rightarrow> string" where
  "pending_of w = pending_path (safety_db w) (backup_token w)"

definition core_paths :: "restore_case \<Rightarrow> string list" where
  "core_paths w = [live_db w, previous_path (live_db w), stage_path (live_db w),
     epoch_path (epoch_home w), journal_path (state_home w), safety_db w]"

definition key_paths :: "restore_case \<Rightarrow> string list" where
  "key_paths w = core_paths w @ candidate_db w # map (\<lambda>x. live_db w @ x) sidecars"

definition side_paths :: "restore_case \<Rightarrow> string list" where
  "side_paths w = map (\<lambda>x. stage_path (live_db w) @ x) sidecars
     @ map (\<lambda>x. previous_path (live_db w) @ x) sidecars
     @ [marker_path (epoch_home w), pending_of w, pending_of w @ ''.tmp'', pending_of w @ ''.unverified'']"

text \<open>
  The paths are different, the epochs are different UUIDs in lower case, and a backup of the
  closed live database reads it as it is.
\<close>

definition proper_case :: "sqlite \<Rightarrow> restore_case \<Rightarrow> bool" where
  "proper_case q w \<longleftrightarrow> distinct (key_paths w @ side_paths w)
     \<and> trimmed (pending_of w) = pending_of w
     \<and> map to_lower (old_epoch w) = old_epoch w \<and> map to_lower (new_epoch w) = new_epoch w
     \<and> old_epoch w \<noteq> new_epoch w
     \<and> (\<forall>f. f (live_db w) = Some (old_image w) \<longrightarrow> (\<forall>x\<in>set sidecars. f (live_db w @ x) = None)
          \<longrightarrow> image_of q f (live_db w) = Some (backup_image w))"

definition epoch_is :: "restore_case \<Rightarrow> string \<Rightarrow> file_map \<Rightarrow> bool" where
  "epoch_is w e f \<longleftrightarrow> f (epoch_path (epoch_home w)) = Some (EpochDocument 1 e)"

definition journal_of :: "restore_case \<Rightarrow> restore_journal" where
  "journal_of w = prepared_journal (live_db w) (old_epoch w) (new_epoch w)"

definition journal_at :: "restore_case \<Rightarrow> file_map \<Rightarrow> content option" where
  "journal_at w f = f (journal_path (state_home w))"

definition prepared :: "restore_case \<Rightarrow> content" where
  "prepared w = JournalDocument 1 (journal_of w)"

definition committed :: "restore_case \<Rightarrow> content" where
  "committed w = JournalDocument 1 ((journal_of w)\<lparr>jr_state := ''committed''\<rparr>)"

definition untouched :: "restore_case \<Rightarrow> file_map \<Rightarrow> bool" where
  "untouched w f \<longleftrightarrow> f (live_db w) = Some (old_image w) \<and> f (previous_path (live_db w)) = None
     \<and> epoch_is w (old_epoch w) f"

definition moved :: "restore_case \<Rightarrow> file_map \<Rightarrow> bool" where
  "moved w f \<longleftrightarrow> f (previous_path (live_db w)) = Some (old_image w) \<and> epoch_is w (old_epoch w) f
     \<and> (f (live_db w) = None \<or> f (live_db w) = Some (new_image w))"

definition lost :: "restore_case \<Rightarrow> file_map \<Rightarrow> bool" where
  "lost w f \<longleftrightarrow> f (live_db w) = None \<and> f (previous_path (live_db w)) = None
     \<and> epoch_is w (old_epoch w) f"

definition replaced :: "restore_case \<Rightarrow> file_map \<Rightarrow> bool" where
  "replaced w f \<longleftrightarrow> f (live_db w) = Some (new_image w) \<and> epoch_is w (new_epoch w) f"

text \<open>
  Before the Restore: no journal and the database closed. A Restore that cannot remove its rollback
  image at the end leaves it, so it is said apart that there is none.
\<close>

definition at_rest :: "restore_case \<Rightarrow> file_map \<Rightarrow> bool" where
  "at_rest w f \<longleftrightarrow> f (live_db w) = Some (old_image w) \<and> epoch_is w (old_epoch w) f \<and> journal_at w f = None
     \<and> f (candidate_db w) = Some (new_image w) \<and> (\<forall>x\<in>set sidecars. f (live_db w @ x) = None)"

definition undisturbed :: "restore_case \<Rightarrow> file_map \<Rightarrow> bool" where
  "undisturbed w f \<longleftrightarrow> untouched w f \<and> journal_at w f = None
     \<and> f (candidate_db w) = Some (new_image w) \<and> (\<forall>x\<in>set sidecars. f (live_db w @ x) = None)"

lemma undisturbed_start: "at_rest w f \<Longrightarrow> f (previous_path (live_db w)) = None \<Longrightarrow> undisturbed w f"
  by (simp add: at_rest_def undisturbed_def untouched_def)

definition backed_up :: "restore_case \<Rightarrow> file_map \<Rightarrow> bool" where
  "backed_up w f \<longleftrightarrow> f (safety_db w) = Some (backup_image w)"

definition under_way :: "restore_case \<Rightarrow> file_map \<Rightarrow> bool" where
  "under_way w f \<longleftrightarrow> journal_at w f = Some (prepared w) \<and> backed_up w f"

text \<open>Everything a crash can leave behind.\<close>

definition recoverable :: "restore_case \<Rightarrow> file_map \<Rightarrow> bool" where
  "recoverable w f \<longleftrightarrow>
     (untouched w f \<and> (journal_at w f = None \<or> under_way w f))
     \<or> (under_way w f \<and> (moved w f \<or> lost w f))
     \<or> (replaced w f \<and> journal_at w f \<in> {None, Some (prepared w), Some (committed w)})"


lemmas phase_defs = untouched_def moved_def lost_def replaced_def epoch_is_def journal_at_def
  backed_up_def under_way_def undisturbed_def

section \<open>Operations beside the key paths\<close>

definition about :: "string list \<Rightarrow> (file_map \<Rightarrow> bool) \<Rightarrow> bool" where
  "about ps P \<longleftrightarrow> (\<forall>f p c. p \<notin> set ps \<longrightarrow> P f \<longrightarrow> P (f(p := c)))"

lemma aboutD: "about ps P \<Longrightarrow> p \<notin> set ps \<Longrightarrow> P f \<Longrightarrow> P (f(p := c))"
  by (simp add: about_def)

lemma leads_remove_path:
  "(\<And>b f. P f \<Longrightarrow> Q b f) \<Longrightarrow> (\<And>f. P f \<Longrightarrow> Q True (f(p := None)))
    \<Longrightarrow> leads P (remove_path p) Q"
  unfolding remove_path_def
  by (rule leads_bind [OF leads_exists [where Q = "\<lambda>_. P"]], assumption)
     (auto intro!: leads_ret leads_remove)

lemma leads_remove_all:
  assumes "about ps P" "set rest \<inter> set ps = {}"
  shows "leads P (remove_all rest) (\<lambda>_. P)"
  using assms(2)
proof (induction rest)
  case (Cons p rest)
  then have "p \<notin> set ps" by auto
  then have "leads P (remove_path p) (\<lambda>_. P)"
    by (intro leads_remove_path) (auto intro: aboutD [OF assms(1)])
  moreover have "leads P (remove_all rest) (\<lambda>_. P)"
    using Cons by auto
  ultimately show ?case by (auto intro: leads_bind)
qed (simp add: leads_ret)

lemma leads_move_sidecars:
  assumes "about ps P" "\<forall>x\<in>set rest. p @ x \<notin> set ps \<and> q @ x \<notin> set ps"
  shows "leads P (move_sidecars p q rest) (\<lambda>_. P)"
  using assms(2)
proof (induction rest)
  case (Cons x rest)
  have out: "p @ x \<notin> set ps" "q @ x \<notin> set ps" and rest: "leads P (move_sidecars p q rest) (\<lambda>_. P)"
    using Cons by auto
  have cleared: "leads P (remove_path (q @ x)) (\<lambda>_. P)"
    by (rule leads_remove_path) (auto intro: aboutD [OF assms(1) out(2)])
  have moving: "leads P (rename_file (p @ x) (q @ x)) (\<lambda>_. P)"
    by (rule leads_rename) (auto intro!: aboutD [OF assms(1) out(1)] aboutD [OF assms(1) out(2)])
  show ?case
    by (auto intro!: leads_bind [OF leads_exists [where Q = "\<lambda>_. P"]] leads_if leads_ret
        leads_bind [OF cleared] leads_bind [OF moving] rest)
qed (simp add: leads_ret)

text \<open>The sidecars of the three databases and the marker are other files.\<close>

lemma proper_paths:
  assumes "proper_case q w"
  shows "distinct (core_paths w)"
    and "marker_path (epoch_home w) \<notin> set (core_paths w)"
    and "\<forall>x\<in>set sidecars. live_db w @ x \<notin> set (core_paths w) \<and> stage_path (live_db w) @ x \<notin> set (core_paths w)
        \<and> previous_path (live_db w) @ x \<notin> set (core_paths w)"
    and "old_epoch w \<noteq> new_epoch w" "map to_lower (old_epoch w) = old_epoch w"
      "map to_lower (new_epoch w) = new_epoch w"
proof -
  have "distinct (core_paths w @ (candidate_db w # map (\<lambda>x. live_db w @ x) sidecars) @ side_paths w)"
    using assms by (simp add: proper_case_def key_paths_def)
  then have core: "distinct (core_paths w)"
    and out: "set (core_paths w) \<inter> (insert (candidate_db w) ((\<lambda>x. live_db w @ x) ` set sidecars)
      \<union> set (side_paths w)) = {}"
    unfolding distinct_append by auto
  show "distinct (core_paths w)" by (rule core)
  show "marker_path (epoch_home w) \<notin> set (core_paths w)"
    using out by (auto simp: side_paths_def)
  show "\<forall>x\<in>set sidecars. live_db w @ x \<notin> set (core_paths w) \<and> stage_path (live_db w) @ x \<notin> set (core_paths w)
      \<and> previous_path (live_db w) @ x \<notin> set (core_paths w)"
  proof
    fix x assume x: "x \<in> set sidecars"
    have "stage_path (live_db w) @ x \<in> set (side_paths w)" "previous_path (live_db w) @ x \<in> set (side_paths w)"
      "live_db w @ x \<in> (\<lambda>x. live_db w @ x) ` set sidecars"
      using x by (auto simp: side_paths_def)
    then show "live_db w @ x \<notin> set (core_paths w) \<and> stage_path (live_db w) @ x \<notin> set (core_paths w)
      \<and> previous_path (live_db w) @ x \<notin> set (core_paths w)"
      using out by blast
  qed
qed (use assms in \<open>simp_all add: proper_case_def\<close>)

lemma journal_of_simps [simp]:
  "jr_live (journal_of w) = live_db w" "jr_stage (journal_of w) = stage_path (live_db w)"
  "jr_previous (journal_of w) = previous_path (live_db w)" "jr_state (journal_of w) = ''prepared''"
  "jr_old_epoch (journal_of w) = old_epoch w" "jr_new_epoch (journal_of w) = new_epoch w"
  by (simp_all add: journal_of_def prepared_journal_def)

lemma about_phases:
  "about (core_paths w) (\<lambda>f. under_way w f)" "about (core_paths w) (untouched w)"
  "about (core_paths w) (moved w)" "about (core_paths w) (lost w)" "about (core_paths w) (replaced w)"
  "about (core_paths w) (\<lambda>f. journal_at w f \<in> S)"
  "about (core_paths w) (\<lambda>f. f (stage_path (live_db w)) = c)"
  by (auto simp: about_def phase_defs core_paths_def)

lemma about_conj: "about ps P \<Longrightarrow> about ps Q \<Longrightarrow> about ps (\<lambda>f. P f \<and> Q f)"
  and about_disj: "about ps P \<Longrightarrow> about ps Q \<Longrightarrow> about ps (\<lambda>f. P f \<or> Q f)"
  by (auto simp: about_def)

lemmas about_rules = about_phases about_conj about_disj

lemma leads_remove_with_sidecars:
  assumes "\<And>b f. P f \<Longrightarrow> Q f" "\<And>f. P f \<Longrightarrow> Q (f(p := None))"
    and "about ps Q" "\<forall>x\<in>set sidecars. p @ x \<notin> set ps"
  shows "leads P (remove_with_sidecars p) (\<lambda>_. Q)"
  unfolding remove_with_sidecars_def
  by (rule leads_bind [OF leads_remove_path [where Q = "\<lambda>_. Q"]])
     (use assms in \<open>auto intro!: leads_remove_all [OF assms(3)]\<close>)

lemma leads_move_with_sidecars:
  assumes "\<And>f. P f \<Longrightarrow> N f"
    and "\<And>f. P f \<Longrightarrow> f q \<noteq> None \<Longrightarrow> M (f(q := None))"
    and "\<And>f. P f \<Longrightarrow> f q = None \<Longrightarrow> M f"
    and "\<And>f. M f \<Longrightarrow> N f"
    and "\<And>f c. M f \<Longrightarrow> f p = Some c \<Longrightarrow> f q = None \<Longrightarrow> Y (f(p := None, q \<mapsto> c))"
    and "\<And>f. Y f \<Longrightarrow> N f"
    and "about ps Y" "\<forall>x\<in>set sidecars. p @ x \<notin> set ps \<and> q @ x \<notin> set ps"
  shows "leads P (move_with_sidecars p q) (\<lambda>ok f. if ok then Y f else N f)"
proof -
  have seen: "leads P (file_exists q) (\<lambda>b f. P f \<and> (b \<longleftrightarrow> f q \<noteq> None))"
    by (rule leads_exists) auto
  have free: "leads (\<lambda>f. P f \<and> (b \<longleftrightarrow> f q \<noteq> None))
      (if b then remove_file q else ret True) (\<lambda>ok f. if ok then M f else N f)" for b
    by (rule leads_if) (auto intro!: leads_remove leads_ret simp: assms(1,2,3))
  have rename: "leads M (rename_file p q) (\<lambda>ok f. if ok then Y f else N f)"
    by (rule leads_rename) (auto simp: assms(4,5))
  have rest: "leads Y (move_sidecars p q sidecars) (\<lambda>ok f. if ok then Y f else N f)"
    by (rule leads_mono [OF leads_move_sidecars [OF assms(7,8)]]) (auto simp: assms(6))
  show ?thesis
    unfolding move_with_sidecars_def
    apply (rule leads_bind [OF seen])
    apply (rule leads_bind [OF free])
    subgoal for occupied freed
      apply (cases freed; simp only: not_True_eq_False not_False_eq_True if_True if_False)
       apply (rule leads_bind [OF rename])
      subgoal for ok
        by (cases ok; simp only: not_True_eq_False not_False_eq_True if_True if_False)
           (rule rest, rule leads_ret, simp)
      apply (rule leads_ret, simp)
      done
    done
qed

section \<open>From phase to phase\<close>

lemma core_apart:
  assumes "proper_case q w"
  shows "live_db w \<noteq> previous_path (live_db w)" "live_db w \<noteq> stage_path (live_db w)"
    "live_db w \<noteq> epoch_path (epoch_home w)" "live_db w \<noteq> journal_path (state_home w)"
    "live_db w \<noteq> safety_db w" "previous_path (live_db w) \<noteq> stage_path (live_db w)"
    "previous_path (live_db w) \<noteq> epoch_path (epoch_home w)"
    "previous_path (live_db w) \<noteq> journal_path (state_home w)"
    "previous_path (live_db w) \<noteq> safety_db w" "stage_path (live_db w) \<noteq> epoch_path (epoch_home w)"
    "stage_path (live_db w) \<noteq> journal_path (state_home w)" "stage_path (live_db w) \<noteq> safety_db w"
    "epoch_path (epoch_home w) \<noteq> journal_path (state_home w)"
    "epoch_path (epoch_home w) \<noteq> safety_db w" "journal_path (state_home w) \<noteq> safety_db w"
  using proper_paths(1) [OF assms] by (simp_all add: core_paths_def)

lemma leads_move_live:
  assumes "proper_case q w"
  shows "leads (\<lambda>f. under_way w f \<and> untouched w f \<and> f (stage_path (live_db w)) = Some (new_image w))
    (move_with_sidecars (live_db w) (previous_path (live_db w)))
    (\<lambda>ok f. if ok then under_way w f \<and> moved w f \<and> f (live_db w) = None
                \<and> f (stage_path (live_db w)) = Some (new_image w)
            else under_way w f \<and> (untouched w f \<or> moved w f))"
proof (rule leads_move_with_sidecars [where ps = "core_paths w"
      and M = "\<lambda>f. under_way w f \<and> untouched w f \<and> f (stage_path (live_db w)) = Some (new_image w)"])
  show "about (core_paths w) (\<lambda>f. under_way w f \<and> moved w f \<and> f (live_db w) = None
      \<and> f (stage_path (live_db w)) = Some (new_image w))"
    by (auto simp: about_def phase_defs core_paths_def)
  show "\<forall>x\<in>set sidecars. live_db w @ x \<notin> set (core_paths w) \<and> previous_path (live_db w) @ x \<notin> set (core_paths w)"
    using proper_paths(3) [OF assms] by blast
qed (insert core_apart [OF assms], auto simp: phase_defs)

text \<open>
  The rollback begins by removing the live database: if it had not been moved, nothing is
  left to move back.
\<close>

lemma leads_rollback:
  assumes "proper_case q w"
  shows "leads (\<lambda>f. under_way w f \<and> (untouched w f \<or> moved w f \<or> lost w f)) (rollback_files q (journal_of w))
    (\<lambda>ok f. if ok then under_way w f \<and> untouched w f
            else under_way w f \<and> (untouched w f \<or> moved w f \<or> lost w f))"
proof -
  note ne = core_apart [OF assms] and out = proper_paths(3) [OF assms]
  let ?P = "\<lambda>f. under_way w f \<and> (untouched w f \<or> moved w f \<or> lost w f)"
  let ?S = "\<lambda>b f. ?P f \<and> (b \<longrightarrow> f (previous_path (live_db w)) \<noteq> None)"
  let ?Q = "\<lambda>ok f. if ok then under_way w f \<and> untouched w f else ?P f"
  have cleared: "leads ?P (remove_with_sidecars (live_db w)) (\<lambda>_. ?P)"
  proof (rule leads_remove_with_sidecars [where ps = "core_paths w"])
    show "about (core_paths w) ?P" by (intro about_rules)
    show "\<forall>x\<in>set sidecars. live_db w @ x \<notin> set (core_paths w)" using out by blast
  qed (use ne in \<open>auto simp: phase_defs\<close>)
  have present: "leads ?P (file_exists (previous_path (live_db w))) ?S"
    by (rule leads_exists) auto
  have put_back: "leads (\<lambda>f. under_way w f \<and> moved w f)
      (move_with_sidecars (previous_path (live_db w)) (live_db w)) ?Q"
  proof (rule leads_move_with_sidecars [where ps = "core_paths w" and M = "\<lambda>f. under_way w f \<and> moved w f"])
    show "about (core_paths w) (\<lambda>f. under_way w f \<and> untouched w f)" by (intro about_rules)
    show "\<forall>x\<in>set sidecars. previous_path (live_db w) @ x \<notin> set (core_paths w)
        \<and> live_db w @ x \<notin> set (core_paths w)" using out by blast
  qed (insert ne, auto simp: phase_defs)
  have moving: "leads (?S b) (if \<not> b then ret False
      else move_with_sidecars (previous_path (live_db w)) (live_db w)) ?Q" for b
  proof (cases b)
    case True
    have "leads (?S True) (move_with_sidecars (previous_path (live_db w)) (live_db w)) ?Q"
      by (rule leads_mono [OF put_back]) (auto simp: untouched_def lost_def)
    then show ?thesis using True by simp
  qed (simp add: leads_ret)
  show ?thesis
    unfolding rollback_files_def journal_of_simps
    apply (rule leads_bind [OF cleared])
    apply (rule leads_bind [OF present])
    apply (rule leads_bind [OF moving])
    apply (rule leads_if)
    apply (auto intro!: leads_ret leads_look split: if_splits)
    done
qed

lemma leads_clear_stage:
  assumes "proper_case q w" "about (core_paths w) P" "\<And>f. P f \<Longrightarrow> P (f(stage_path (live_db w) := None))"
  shows "leads P (remove_with_sidecars (stage_path (live_db w))) (\<lambda>_. P)"
  by (rule leads_remove_with_sidecars [where ps = "core_paths w"])
     (use assms(2,3) proper_paths(3) [OF assms(1)] in auto)

definition resting :: "restore_case \<Rightarrow> file_map \<Rightarrow> bool" where
  "resting w f \<longleftrightarrow> untouched w f \<and> (journal_at w f = None \<or> under_way w f)"

definition installed :: "restore_case \<Rightarrow> file_map \<Rightarrow> bool" where
  "installed w f \<longleftrightarrow> replaced w f \<and> journal_at w f \<in> {None, Some (prepared w), Some (committed w)}"

lemma about_results: "about (core_paths w) (resting w)" "about (core_paths w) (installed w)"
  by (auto simp: about_def resting_def installed_def phase_defs core_paths_def)

text \<open>What a report is worth: each claim it makes holds of the files it leaves.\<close>

definition report_true :: "restore_case \<Rightarrow> restore_result \<Rightarrow> file_map \<Rightarrow> bool" where
  "report_true w r f \<longleftrightarrow>
     (if rr_success r then installed w f
      else if rr_rolled_back r \<or> rr_failure r \<noteq> RestoreRollback then resting w f
      else recoverable w f)"


lemma leads_recover_previous:
  assumes "proper_case q w"
  shows "leads (\<lambda>f. under_way w f \<and> (untouched w f \<or> moved w f))
    (recover_previous q (journal_of w) (epoch_home w) (journal_path (state_home w)) e) (report_true w)"
proof -
  note ne = core_apart [OF assms]
  have roll: "leads (\<lambda>f. under_way w f \<and> (untouched w f \<or> moved w f)) (rollback_files q (journal_of w))
      (\<lambda>ok f. if ok then under_way w f \<and> untouched w f
              else under_way w f \<and> (untouched w f \<or> moved w f \<or> lost w f))"
    by (rule leads_mono [OF leads_rollback [OF assms]]) auto
  have epoch: "leads (\<lambda>f. under_way w f \<and> untouched w f) (persist_epoch (old_epoch w) (epoch_home w))
      (\<lambda>_. resting w)"
    by (rule leads_persist_epoch)
       (use ne proper_paths(5) [OF assms] in \<open>auto simp: resting_def phase_defs\<close>)
  have stage: "leads (resting w) (remove_with_sidecars (stage_path (live_db w))) (\<lambda>_. resting w)"
    by (rule leads_clear_stage [OF assms about_results(1)]) (use ne in \<open>auto simp: resting_def phase_defs\<close>)
  have journal: "leads (resting w) (remove_file (journal_path (state_home w))) (\<lambda>_. resting w)"
    by (rule leads_remove) (use ne in \<open>auto simp: resting_def phase_defs\<close>)
  have good: "leads (\<lambda>f. under_way w f \<and> untouched w f) (do {
       _ \<leftarrow> persist_epoch (old_epoch w) (epoch_home w);
       _ \<leftarrow> remove_with_sidecars (stage_path (live_db w));
       _ \<leftarrow> remove_file (journal_path (state_home w));
       ret ((restore_failed e (new_epoch w))\<lparr>rr_rolled_back := True\<rparr>)
     }) (report_true w)"
    by (rule leads_bind [OF epoch], rule leads_bind [OF stage], rule leads_bind [OF journal], rule leads_ret)
       (simp add: report_true_def restore_failed_def)
  have bad: "leads (\<lambda>f. under_way w f \<and> (untouched w f \<or> moved w f \<or> lost w f))
      (ret (restore_failed RestoreRollback (new_epoch w))) (report_true w)"
    by (rule leads_ret) (auto simp: report_true_def restore_failed_def recoverable_def)
  show ?thesis
    unfolding recover_previous_def journal_of_simps
    apply (rule leads_bind [OF roll])
    subgoal for ok
      by (cases ok; simp only: if_True if_False) (rule good, rule bad)
    done
qed

lemma leads_finish:
  assumes "proper_case q w"
  shows "leads (\<lambda>f. replaced w f \<and> journal_at w f = Some (prepared w))
    (finish_restore (journal_of w) (journal_path (state_home w))) (report_true w)"
proof -
  note ne = core_apart [OF assms]
  have commit: "leads (\<lambda>f. replaced w f \<and> journal_at w f = Some (prepared w))
      (write_journal (journal_path (state_home w)) ((journal_of w)\<lparr>jr_state := ''committed''\<rparr>)) (\<lambda>_. installed w)"
    unfolding write_journal_def make_path_def
    apply (rule leads_bind [OF leads_attempt [where Q = "\<lambda>_ f. replaced w f \<and> journal_at w f = Some (prepared w)"]])
      apply assumption+
    apply (auto intro!: leads_if leads_ret leads_save simp: installed_def)
    using ne apply (auto simp: phase_defs committed_def)
    done
  have previous: "leads (installed w) (remove_with_sidecars (previous_path (live_db w))) (\<lambda>_. installed w)"
    by (rule leads_remove_with_sidecars [where ps = "core_paths w"])
       (use ne proper_paths(3) [OF assms] about_results in \<open>auto simp: installed_def phase_defs\<close>)
  have stage: "leads (installed w) (remove_with_sidecars (stage_path (live_db w))) (\<lambda>_. installed w)"
    by (rule leads_clear_stage [OF assms about_results(2)]) (use ne in \<open>auto simp: installed_def phase_defs\<close>)
  have journal: "leads (installed w) (remove_file (journal_path (state_home w))) (\<lambda>_. installed w)"
    by (rule leads_remove) (use ne in \<open>auto simp: installed_def phase_defs\<close>)
  show ?thesis
    unfolding finish_restore_def journal_of_simps
    by (rule leads_bind [OF commit], rule leads_bind [OF previous], rule leads_bind [OF stage],
        rule leads_bind [OF journal], rule leads_ret) (simp add: report_true_def)
qed

lemma leads_replace:
  assumes "proper_case q w"
  shows "leads (\<lambda>f. under_way w f \<and> untouched w f \<and> f (stage_path (live_db w)) = Some (new_image w))
    (replace_live q (journal_of w) (epoch_home w) (journal_path (state_home w))) (report_true w)"
proof -
  note ne = core_apart [OF assms]
  let ?B = "\<lambda>f. under_way w f \<and> moved w f \<and> f (live_db w) = None
    \<and> f (stage_path (live_db w)) = Some (new_image w)"
  let ?I = "\<lambda>f. under_way w f \<and> moved w f \<and> f (live_db w) = Some (new_image w)"
  let ?X = "\<lambda>f. under_way w f \<and> (untouched w f \<or> moved w f)"
  have put: "leads ?B (rename_file (stage_path (live_db w)) (live_db w)) (\<lambda>ok f. if ok then ?I f else ?X f)"
    by (rule leads_rename) (use ne in \<open>auto simp: phase_defs\<close>)
  have install: "leads (\<lambda>f. if ok then ?B f else ?X f)
      (if \<not> ok then ret False else rename_file (stage_path (live_db w)) (live_db w))
      (\<lambda>ok f. if ok then ?I f else ?X f)" for ok
    by (cases ok; simp only: not_True_eq_False not_False_eq_True if_True if_False)
       (rule put, rule leads_ret, simp)
  have valid: "leads ?I (look (\<lambda>f. valid_file q f (live_db w))) (\<lambda>_. ?I)"
    by (rule leads_look)
  have epoch: "leads ?I (persist_epoch (new_epoch w) (epoch_home w))
      (\<lambda>e f. if e = None then replaced w f \<and> journal_at w f = Some (prepared w) else ?I f)"
    by (rule leads_persist_epoch) (use ne proper_paths(6) [OF assms] in \<open>auto simp: phase_defs\<close>)
  have undo: "leads P (recover_previous q (journal_of w) (epoch_home w) (journal_path (state_home w)) e)
      (report_true w)" if "\<And>f. P f \<Longrightarrow> ?X f" for P e
    by (rule leads_mono [OF leads_recover_previous [OF assms]]) (use that in auto)
  show ?thesis
    unfolding replace_live_def journal_of_simps
    apply (rule leads_bind [OF leads_move_live [OF assms]])
    apply (rule leads_bind [OF install])
    subgoal for moved_live ok
      apply (cases ok; simp only: not_True_eq_False not_False_eq_True if_True if_False)
       apply (rule leads_bind [OF valid])
       apply (rule leads_if)
        apply (rule undo, simp)
       apply (rule leads_bind [OF epoch])
      subgoal for _ e
        by (cases e; simp only: option.distinct if_False if_True simp_thms)
           (rule leads_finish [OF assms], rule undo, simp)
      apply (rule undo, simp)
      done
    done
qed

section \<open>Before the journal\<close>

lemma proper_pending:
  assumes "proper_case q w"
  shows "pending_of w \<notin> set (key_paths w)" "pending_of w @ ''.tmp'' \<notin> set (key_paths w)"
    "pending_of w @ ''.unverified'' \<notin> set (key_paths w)" "marker_path (epoch_home w) \<notin> set (key_paths w)"
    "\<forall>x\<in>set sidecars. stage_path (live_db w) @ x \<notin> set (key_paths w)
        \<and> previous_path (live_db w) @ x \<notin> set (key_paths w)"
    "distinct (key_paths w)" "trimmed (pending_of w) = pending_of w"
proof -
  have "distinct (key_paths w @ side_paths w)"
    using assms by (simp add: proper_case_def)
  then have out: "set (key_paths w) \<inter> set (side_paths w) = {}" and key: "distinct (key_paths w)"
    unfolding distinct_append by auto
  show "distinct (key_paths w)" by (rule key)
  have "{pending_of w, pending_of w @ ''.tmp'', pending_of w @ ''.unverified'', marker_path (epoch_home w)}
      \<subseteq> set (side_paths w)" by (auto simp: side_paths_def)
  then show "pending_of w \<notin> set (key_paths w)" "pending_of w @ ''.tmp'' \<notin> set (key_paths w)"
    "pending_of w @ ''.unverified'' \<notin> set (key_paths w)" "marker_path (epoch_home w) \<notin> set (key_paths w)"
    using out by blast+
  show "\<forall>x\<in>set sidecars. stage_path (live_db w) @ x \<notin> set (key_paths w)
      \<and> previous_path (live_db w) @ x \<notin> set (key_paths w)"
  proof
    fix x assume x: "x \<in> set sidecars"
    have "stage_path (live_db w) @ x \<in> set (side_paths w)" "previous_path (live_db w) @ x \<in> set (side_paths w)"
      using x by (auto simp: side_paths_def)
    then show "stage_path (live_db w) @ x \<notin> set (key_paths w) \<and> previous_path (live_db w) @ x \<notin> set (key_paths w)"
      using out by blast
  qed
qed (use assms in \<open>simp add: proper_case_def\<close>)

lemma about_undisturbed: "about (key_paths w) (undisturbed w)" "about (key_paths w) (\<lambda>f. undisturbed w f \<and> backed_up w f)"
  by (auto simp: about_def phase_defs key_paths_def core_paths_def)

lemma image_undisturbed:
  "proper_case q w \<Longrightarrow> undisturbed w f \<Longrightarrow> image_of q f (live_db w) = Some (backup_image w)"
  by (auto simp: proper_case_def undisturbed_def untouched_def)

lemma leads_vacuum:
  assumes "proper_case q w" "p \<notin> set (key_paths w)"
  shows "leads (undisturbed w) (vacuum_into q (live_db w) p)
    (\<lambda>ok f. undisturbed w f \<and> (ok \<longrightarrow> f p = Some (backup_image w)))"
proof -
  note keep = aboutD [OF about_undisturbed(1) assms(2)]
  have create: "leads (undisturbed w) (mutate (\<lambda>f. if f p \<noteq> None \<or> image_of q f (live_db w) = None then None
      else Some (f(p \<mapsto> Fragment)))) (\<lambda>_. undisturbed w)"
    by (rule leads_mutate) (auto intro: keep split: if_splits)
  have fill: "leads (undisturbed w) (mutate (\<lambda>f. case image_of q f (live_db w) of None \<Rightarrow> None
      | Some c \<Rightarrow> Some (f(p \<mapsto> c)))) (\<lambda>ok f. undisturbed w f \<and> (ok \<longrightarrow> f p = Some (backup_image w)))"
    by (rule leads_mutate) (auto simp: image_undisturbed [OF assms(1)] intro: keep)
  show ?thesis
    unfolding vacuum_into_def
    by (rule leads_bind [OF create], rule leads_if) (auto intro!: leads_ret fill)
qed

text \<open>An operation on a file that is no key path and not the one looked at.\<close>

lemma leads_remove_aside:
  assumes "about ps P" "p \<notin> set ps" "p \<noteq> r"
  shows "leads (\<lambda>f. P f \<and> (b \<longrightarrow> f r = c)) (remove_file p) (\<lambda>_ f. P f \<and> (b \<longrightarrow> f r = c))"
  by (rule leads_remove) (insert assms(3), auto intro: aboutD [OF assms(1,2)])

lemma leads_remove_other:
  assumes "about ps P" "p \<notin> set ps"
  shows "leads P (remove_file p) (\<lambda>_. P)"
  by (rule leads_remove) (auto intro: aboutD [OF assms])

lemma leads_snapshot:
  assumes "proper_case q w"
  shows "leads (undisturbed w) (create_snapshot q (live_db w) (pending_of w))
    (\<lambda>r f. undisturbed w f \<and> (if r = None then f (pending_of w) = Some (backup_image w)
             else r \<noteq> Some BackupNone))"
proof -
  let ?R = "undisturbed w" and ?p = "pending_of w" and ?t = "pending_of w @ ''.tmp''"
  let ?Q = "\<lambda>r f. ?R f \<and> (if r = None then f ?p = Some (backup_image w) else r \<noteq> Some BackupNone)"
  let ?T = "\<lambda>f. ?R f \<and> f ?t = Some (backup_image w)"
  note p = proper_pending(1) [OF assms] and t = proper_pending(2) [OF assms]
  have fail: "leads P (ret (Some e)) ?Q" if "\<And>f. P f \<Longrightarrow> ?R f" "e \<noteq> BackupNone" for e P
    by (rule leads_ret) (use that in auto)
  have path: "leads ?R make_path (\<lambda>_. ?R)"
    unfolding make_path_def by (rule leads_attempt) auto
  have seen: "leads P (file_exists r) (\<lambda>_. P)" for P r
    by (rule leads_exists)
  have drop_t: "leads P (remove_file ?t) (\<lambda>_. ?R)" if "\<And>f. P f \<Longrightarrow> ?R f" for P
    by (rule leads_mono [OF leads_remove_other [OF about_undisturbed(1) t]]) (use that in auto)
  have cleared: "leads ?R (if b then remove_file ?t else ret True) (\<lambda>_. ?R)" for b
    by (rule leads_if) (auto intro: drop_t leads_ret)
  have freed: "leads ?T (if b then remove_file ?p else ret True) (\<lambda>_. ?T)" for b
    by (rule leads_if)
       (auto intro!: leads_remove leads_ret aboutD [OF about_undisturbed(1) p])
  have publish: "leads ?T (rename_file ?t ?p) (\<lambda>ok f. if ok then ?Q None f else ?T f)"
    by (rule leads_rename) (auto intro!: aboutD [OF about_undisturbed(1) p] aboutD [OF about_undisturbed(1) t])
  have undo: "leads P (do {
      _ \<leftarrow> remove_file ?t;
      ret (Some e)
    }) ?Q" if "\<And>f. P f \<Longrightarrow> ?R f" "e \<noteq> BackupNone" for P e
    by (rule leads_bind [OF drop_t [OF that(1)]], assumption, rule fail, assumption, rule that(2))
  have end1: "leads ?T (do {
      published \<leftarrow> rename_file ?t ?p;
      if \<not> published then do {
        _ \<leftarrow> remove_file ?t;
        ret (Some BackupDestination)
      } else ret None
    }) ?Q"
    apply (rule leads_bind [OF publish])
    subgoal for ok
      by (cases ok; simp only: not_True_eq_False not_False_eq_True if_True if_False)
         (rule leads_ret, simp, rule undo, simp, simp)
    done
  have vacuumed: "leads (\<lambda>f. ?R f \<and> (ok \<longrightarrow> f ?t = Some (backup_image w)))
    (if \<not> ok then do {
       _ \<leftarrow> remove_file ?t;
       ret (Some BackupSnapshot)
     } else do {
       there \<leftarrow> file_exists ?t;
       if \<not> there then ret (Some BackupSnapshot) else do {
       occupied \<leftarrow> file_exists ?p;
       free \<leftarrow> (if occupied then remove_file ?p else ret True);
       if \<not> free then do {
         _ \<leftarrow> remove_file ?t;
         ret (Some BackupDestination)
       } else do {
       published \<leftarrow> rename_file ?t ?p;
       if \<not> published then do {
         _ \<leftarrow> remove_file ?t;
         ret (Some BackupDestination)
       } else ret None
       }}}) ?Q" for ok
    apply (cases ok; simp only: not_True_eq_False not_False_eq_True if_True if_False simp_thms)
     apply (rule leads_bind [OF seen], rule leads_if, rule fail, simp, simp)
     apply (rule leads_bind [OF seen], rule leads_bind [OF freed], rule leads_if, rule undo, simp, simp, rule end1)
    apply (rule undo, assumption, simp)
    done
  have nonempty: "?p \<noteq> []"
    by (simp add: pending_of_def pending_path_def)
  show ?thesis
    unfolding create_snapshot_def Let_def proper_pending(7) [OF assms]
    apply (rule leads_if)
     apply (rule fail, assumption, simp)
    apply (rule leads_bind [OF path], rule leads_if, rule fail, assumption, simp)
    apply (rule leads_bind [OF seen], rule leads_bind [OF cleared], rule leads_if, rule fail, assumption, simp)
    apply (rule leads_bind [OF leads_vacuum [OF assms t]])
    apply (rule vacuumed)
    done
qed

lemma leads_backup:
  assumes "proper_case q w"
  shows "leads (undisturbed w) (create_verified_backup q (backup_token w) (live_db w) (safety_db w))
    (\<lambda>r f. undisturbed w f \<and> (r = BackupNone \<longrightarrow> backed_up w f))"
proof -
  let ?R = "undisturbed w" and ?p = "pending_of w"
  let ?Q = "\<lambda>r f. ?R f \<and> (r = BackupNone \<longrightarrow> backed_up w f)"
  let ?T = "\<lambda>f. ?R f \<and> f ?p = Some (backup_image w)"
  note p = proper_pending(1) [OF assms]
  note keep = aboutD [OF about_undisturbed(1)]
  have fail: "leads P (ret e) ?Q" if "\<And>f. P f \<Longrightarrow> ?R f" "e \<noteq> BackupNone" for e P
    by (rule leads_ret) (use that in auto)
  have attempted: "leads ?R attempt (\<lambda>_. ?R)" by (rule leads_attempt) auto
  have dropped: "leads P (remove_file ?p) (\<lambda>_. ?R)" if "\<And>f. P f \<Longrightarrow> ?R f" for P
    by (rule leads_mono [OF leads_remove_other [OF about_undisturbed(1) p]]) (use that in auto)
  have safety: "undisturbed w f \<Longrightarrow> undisturbed w (f(safety_db w := c))" for f c
    using proper_pending(6) [OF assms]
    by (auto simp: undisturbed_def untouched_def epoch_is_def journal_at_def key_paths_def
        core_paths_def image_iff)
  have publish: "leads ?T (rename_file ?p (safety_db w)) (\<lambda>ok f. if ok then ?R f \<and> backed_up w f else ?R f)"
    by (rule leads_rename) (auto simp: backed_up_def intro!: safety keep [OF p])
  have aside: "leads ?R (if b then ret True else rename_file ?p (?p @ ''.unverified'')) (\<lambda>_. ?R)" for b
    by (rule leads_if) (auto intro!: leads_ret leads_rename keep [OF p] keep [OF proper_pending(3) [OF assms]])
  have dropped1: "leads ?R (remove_file ?p) (\<lambda>_. ?R)" by (rule dropped)
  have published: "leads ?T (do {
      done1 \<leftarrow> rename_file ?p (safety_db w);
      if done1 then ret BackupNone
      else do {
        _ \<leftarrow> remove_file ?p;
        ret BackupDestination
      }
    }) ?Q"
    apply (rule leads_bind [OF publish])
    subgoal for ok
      by (cases ok; simp only: if_True if_False)
         (rule leads_ret, simp, rule leads_bind [OF dropped1], rule fail, assumption, simp)
    done
  have unverified: "leads ?T (do {
      removed \<leftarrow> remove_file ?p;
      _ \<leftarrow> (if removed then ret True else rename_file ?p (?p @ ''.unverified''));
      ret BackupVerification
    }) ?Q"
    by (rule leads_bind [OF dropped], simp, rule leads_bind [OF aside], rule fail, assumption, simp)
  have verified: "leads ?T (look (\<lambda>f. valid_file q f ?p)) (\<lambda>_. ?T)"
    by (rule leads_look)
  have snapshot: "leads ?R (create_snapshot q (live_db w) ?p)
      (\<lambda>r f. ?R f \<and> (if r = None then f ?p = Some (backup_image w) else r \<noteq> Some BackupNone))"
    by (rule leads_snapshot [OF assms])
  have path: "pending_path (safety_db w) (backup_token w) = ?p"
    by (simp add: pending_of_def)
  have cleaned: "leads (?Q r) (remove_file (?p @ ''.tmp'')) (\<lambda>_. ?Q r)" for r
    using aboutD [OF about_undisturbed(1) proper_pending(2) [OF assms]] proper_pending(2) [OF assms]
    by (intro leads_remove) (auto simp: backed_up_def key_paths_def core_paths_def)
  have reported: "leads (?Q r) (do {
      _ \<leftarrow> remove_file (?p @ ''.tmp'');
      ret r
    }) ?Q" for r
    by (rule leads_bind [OF cleaned], rule leads_ret)
  have one_way: "leads ?R (if \<not> opened then ret BackupSource else do {
      e \<leftarrow> create_snapshot q (live_db w) ?p;
      case e of
        Some e \<Rightarrow> ret e
      | None \<Rightarrow> do {
          ok \<leftarrow> look (\<lambda>f. valid_file q f ?p);
          if ok then do {
            done1 \<leftarrow> rename_file ?p (safety_db w);
            if done1 then ret BackupNone
            else do {
              _ \<leftarrow> remove_file ?p;
              ret BackupDestination
            }
          }
          else do {
            removed \<leftarrow> remove_file ?p;
            _ \<leftarrow> (if removed then ret True else rename_file ?p (?p @ ''.unverified''));
            ret BackupVerification
          }
        }
    }) ?Q" for opened
    apply (rule leads_if, rule fail, assumption, simp)
    apply (rule leads_bind [OF snapshot])
    subgoal for e
      apply (cases e; simp only: option.case option.distinct if_True if_False simp_thms)
       apply (rule leads_bind [OF verified], rule leads_if, rule published, rule unverified)
      apply (rule leads_ret, simp)
      done
    done
  show ?thesis
    unfolding create_verified_backup_def Let_def path
    apply (rule leads_bind [OF attempted], rule leads_if, rule fail, assumption, simp)
    apply (rule leads_bind [OF attempted])
    apply (rule leads_bind [OF one_way])
    apply (rule reported)
    done
qed

lemma leads_known: "(c \<Longrightarrow> leads P m Q) \<Longrightarrow> leads (\<lambda>f. P f \<and> c) m Q"
  by (cases c) (auto simp: leads_def)

lemma leads_epoch:
  assumes "about ps P" "marker_path (epoch_home w) \<notin> set ps" "\<And>f. P f \<Longrightarrow> epoch_is w e f" "map to_lower e = e"
  shows "leads P (load_existing (epoch_home w)) (\<lambda>r f. P f \<and> (ep_success r \<longrightarrow> ep_epoch r = e))"
proof (rule leads_load_existing)
  fix r f x
  assume f: "P f" "f (epoch_path (epoch_home w)) = Some (EpochDocument 1 x)"
    and r: "r = \<lparr>ep_error = None, ep_bootstrapped = False, ep_epoch = map to_lower x\<rparr>"
  from assms(3) [OF f(1)] f(2) have "x = e" by (simp add: epoch_is_def)
  with f(1) r assms(4) show "P f \<and> (ep_success r \<longrightarrow> ep_epoch r = e)" by simp
qed (use aboutD [OF assms(1,2)] in auto)

text \<open>Staging: what the old files of an earlier attempt leave, and a copy of the candidate.\<close>

lemma leads_staging:
  assumes "proper_case q w"
  shows "leads (\<lambda>f. undisturbed w f \<and> backed_up w f) (do {
      _ \<leftarrow> remove_with_sidecars (stage_path (live_db w));
      _ \<leftarrow> remove_with_sidecars (previous_path (live_db w));
      staged \<leftarrow> copy_file (candidate_db w) (stage_path (live_db w));
      if \<not> staged then ret (restore_failed RestoreStaging (new_epoch w)) else do {
      journaled \<leftarrow> write_journal (journal_path (state_home w)) (journal_of w);
      if \<not> journaled then do {
        _ \<leftarrow> remove_with_sidecars (stage_path (live_db w));
        ret (restore_failed RestoreJournal (new_epoch w))
      }
      else replace_live q (journal_of w) (epoch_home w) (journal_path (state_home w))
      }
    }) (report_true w)"
proof -
  note ne = core_apart [OF assms] and key = proper_pending(5,6) [OF assms]
  let ?P = "\<lambda>f. undisturbed w f \<and> backed_up w f"
  let ?S = "\<lambda>f. undisturbed w f \<and> backed_up w f \<and> f (stage_path (live_db w)) = Some (new_image w)"
  have about: "about (key_paths w) ?P" by (rule about_undisturbed)
  have stage: "?P (f(stage_path (live_db w) := c))" if "?P f" for f c
    using that key(2) by (auto simp: phase_defs key_paths_def core_paths_def image_iff)
  have previous: "?P (f(previous_path (live_db w) := None))" if "?P f" for f
    using that by (auto simp: phase_defs)
  have clear_stage: "leads ?P (remove_with_sidecars (stage_path (live_db w))) (\<lambda>_. ?P)"
    by (rule leads_remove_with_sidecars [OF _ _ about]) (use stage key(1) in auto)
  have clear_previous: "leads ?P (remove_with_sidecars (previous_path (live_db w))) (\<lambda>_. ?P)"
    by (rule leads_remove_with_sidecars [OF _ _ about]) (use previous key(1) in auto)
  have candidate: "candidate_db w \<noteq> stage_path (live_db w)"
    using key(2) by (auto simp: key_paths_def core_paths_def)
  have first_half: "leads ?P (mutate (\<lambda>f. if f (candidate_db w) = None \<or> f (stage_path (live_db w)) \<noteq> None
      then None else Some (f(stage_path (live_db w) \<mapsto> Fragment)))) (\<lambda>_. ?P)"
  proof (rule leads_mutate)
    fix f g assume f: "?P f" and "(if f (candidate_db w) = None \<or> f (stage_path (live_db w)) \<noteq> None
      then None else Some (f(stage_path (live_db w) \<mapsto> Fragment))) = Some g"
    then have "g = f(stage_path (live_db w) \<mapsto> Fragment)" by (auto split: if_splits)
    with stage [OF f] show "?P g" by simp
  qed
  have second_half: "leads ?P (mutate (\<lambda>f. case f (candidate_db w) of None \<Rightarrow> None
      | Some c \<Rightarrow> Some (f(stage_path (live_db w) \<mapsto> c)))) (\<lambda>ok f. if ok then ?S f else ?P f)"
  proof (rule leads_mutate)
    fix f g assume f: "?P f" and g: "(case f (candidate_db w) of None \<Rightarrow> None
      | Some c \<Rightarrow> Some (f(stage_path (live_db w) \<mapsto> c))) = Some g"
    then have "f (candidate_db w) = Some (new_image w)" by (simp add: undisturbed_def)
    with g stage [OF f] show "if True then ?S g else ?P g" by auto
  qed simp
  have copy: "leads ?P (copy_file (candidate_db w) (stage_path (live_db w))) (\<lambda>ok f. if ok then ?S f else ?P f)"
    unfolding copy_file_def
    apply (rule leads_bind [OF first_half])
    subgoal for created
      by (cases created; simp only: not_True_eq_False not_False_eq_True if_True if_False)
         (rule second_half, rule leads_ret, simp)
    done
  have journal: "leads ?S (write_journal (journal_path (state_home w)) (journal_of w))
      (\<lambda>ok f. if ok then under_way w f \<and> untouched w f \<and> f (stage_path (live_db w)) = Some (new_image w)
              else ?P f)"
    unfolding write_journal_def make_path_def
    apply (rule leads_bind [OF leads_attempt [where Q = "\<lambda>_. ?S"]], assumption, assumption)
    apply (rule leads_if, rule leads_ret, simp)
    apply (rule leads_save, simp)
    using ne apply (simp add: phase_defs prepared_def)
    done
  have fail: "leads ?P (ret (restore_failed e (new_epoch w))) (report_true w)" if "e \<noteq> RestoreRollback" for e
    by (rule leads_ret) (use that in \<open>simp add: report_true_def restore_failed_def resting_def undisturbed_def\<close>)
  show ?thesis
    apply (rule leads_bind [OF clear_stage], rule leads_bind [OF clear_previous], rule leads_bind [OF copy])
    subgoal for _ _ staged
      apply (cases staged; simp only: not_True_eq_False not_False_eq_True if_True if_False)
       apply (rule leads_bind [OF journal])
      subgoal for journaled
        by (cases journaled; simp only: not_True_eq_False not_False_eq_True if_True if_False)
           (rule leads_replace [OF assms], rule leads_bind [OF clear_stage], rule fail, simp)
      apply (rule fail, simp)
      done
    done
qed

abbreviation run_restore :: "sqlite \<Rightarrow> restore_case \<Rightarrow> bool \<Rightarrow> (disk, restore_result) state" where
  "run_restore q w trusted \<equiv> execute_restore q (backup_token w) (new_epoch w) (candidate_db w)
     (live_db w) (safety_db w) (epoch_home w) (state_home w) trusted"

lemma leads_execute:
  assumes "proper_case q w"
  shows "leads (undisturbed w) (run_restore q w trusted) (report_true w)"
proof -
  have rest: "report_true w (restore_failed e x) f" if "undisturbed w f" "e \<noteq> RestoreRollback" for e x f
    using that by (simp add: report_true_def restore_failed_def resting_def undisturbed_def)
  have fail: "leads P (ret (restore_failed e x)) (report_true w)"
    if "\<And>f. P f \<Longrightarrow> undisturbed w f" "e \<noteq> RestoreRollback" for e x P
    by (rule leads_ret) (use that rest in auto)
  have seen: "leads (undisturbed w) (look g) (\<lambda>_. undisturbed w)" for g :: "file_map \<Rightarrow> bool"
    by (rule leads_look)
  have epoch: "leads (undisturbed w) (load_existing (epoch_home w))
      (\<lambda>r f. undisturbed w f \<and> (ep_success r \<longrightarrow> ep_epoch r = old_epoch w))"
    by (rule leads_epoch [OF about_undisturbed(1) proper_pending(4) [OF assms] _ proper_paths(5) [OF assms]])
       (simp add: undisturbed_def untouched_def)
  have journal: "prepared_journal (live_db w) (old_epoch w) (new_epoch w) = journal_of w"
    by (simp add: journal_of_def)
  have backup: "leads (undisturbed w) (create_verified_backup q (backup_token w) (live_db w) (safety_db w))
      (\<lambda>r f. undisturbed w f \<and> (r = BackupNone \<longrightarrow> backed_up w f))"
    by (rule leads_backup [OF assms])
  show ?thesis
    unfolding execute_restore_def Let_def
    apply (rule leads_bind [OF seen], rule leads_bind [OF seen], rule leads_if, rule fail, assumption, simp)
    apply (rule leads_bind [OF epoch], rule leads_if, rule fail, simp, simp)
    apply (rule leads_mono [where Q = "report_true w"])
      prefer 3
      apply assumption
     apply (rule leads_known [where P = "undisturbed w"])
     defer
     apply blast
    subgoal premises known for _ _ current
    proof -
      from known have e: "ep_epoch current = old_epoch w" by blast
      show ?thesis
        unfolding e journal journal_of_simps
        apply (rule leads_bind [OF backup], rule leads_if, rule fail, simp, simp)
        apply (rule leads_mono [OF leads_staging [OF assms]])
         apply auto
        done
    qed
    done
qed

section \<open>Recovery\<close>







abbreviation run_recovery :: "sqlite \<Rightarrow> restore_case \<Rightarrow> (disk, recovery_result) state" where
  "run_recovery q w \<equiv> recover_at_startup q (live_db w) (epoch_home w) (state_home w)"





section \<open>Crashes and startups\<close>

text \<open>
  A startup with new faults and its own moment of failure; several of them may be cut off
  before one ends.
\<close>

definition boot :: "nat \<times> bool list \<Rightarrow> disk \<Rightarrow> disk" where
  "boot = (\<lambda>(n, bs) d. d\<lparr>power := n, file_faults := bs\<rparr>)"


lemma files_boot [simp]: "files (boot b d) = files d"
  by (cases b) (simp add: boot_def)


text \<open>
  Property C23. A Restore that finds no rollback image of an earlier one tells the truth about its
  outcome, whichever operations on files fail: when it reports success, the selected database is live under the new data epoch;
  when it reports that it failed, it either says that recovery failed or the previous
  database is live, unchanged and under its old epoch.
\<close>

theorem restore_reports_truth:
  assumes "proper_case q w" "at_rest w (files d)" "files d (previous_path (live_db w)) = None"
    "run_state (run_restore q w trusted) d = (r, e)"
  shows "if rr_success r
     then files e (live_db w) = Some (new_image w) \<and> epoch_is w (new_epoch w) (files e)
     else rr_failure r = RestoreRollback \<and> \<not> rr_rolled_back r
       \<or> files e (live_db w) = Some (old_image w) \<and> epoch_is w (old_epoch w) (files e)"
  using leadsD [OF leads_execute [OF assms(1)] assms(4) undisturbed_start [OF assms(2,3)]]
  by (auto simp: report_true_def installed_def resting_def replaced_def untouched_def split: if_splits)


section \<open>A Restore to try it on\<close>

definition plain_sqlite :: sqlite where
  "plain_sqlite = \<lparr>valid_file = (\<lambda>f p. case f p of Some (DatabaseImage _) \<Rightarrow> True | _ \<Rightarrow> False),
     image_of = (\<lambda>f p. f p)\<rparr>"

definition sample_case :: restore_case where
  "sample_case = \<lparr>live_db = ''/d/b.db'', candidate_db = ''/u/c.db'', safety_db = ''/d/s.db'',
     backup_token = ''1'', epoch_home = ''/h'', state_home = ''/h'',
     old_image = DatabaseImage ''mine'', new_image = DatabaseImage ''theirs'',
     backup_image = DatabaseImage ''mine'',
     old_epoch = ''00000000-0000-0000-0000-0000000000aa'',
     new_epoch = ''00000000-0000-0000-0000-0000000000bb''\<rparr>"

definition sample_disk :: "nat \<Rightarrow> disk" where
  "sample_disk n = \<lparr>files = [''/d/b.db'' \<mapsto> DatabaseImage ''mine'', ''/u/c.db'' \<mapsto> DatabaseImage ''theirs'',
     ''/h/host-data-epoch.json'' \<mapsto> EpochDocument 1 ''00000000-0000-0000-0000-0000000000aa'',
     ''/h/host-data-epoch.initialized'' \<mapsto> InitializedMarker],
     file_faults = [], power = n\<rparr>"

lemma sample_proper: "proper_case plain_sqlite sample_case"
proof -
  have "distinct (key_paths sample_case @ side_paths sample_case)" by code_simp
  moreover have "trimmed (pending_of sample_case) = pending_of sample_case" by code_simp
  moreover have "map to_lower (old_epoch sample_case) = old_epoch sample_case"
    "map to_lower (new_epoch sample_case) = new_epoch sample_case" by code_simp+
  moreover have "old_epoch sample_case \<noteq> new_epoch sample_case" by code_simp
  moreover have "image_of plain_sqlite f (live_db sample_case) = Some (backup_image sample_case)"
    if "f (live_db sample_case) = Some (old_image sample_case)" for f
    using that by (simp add: plain_sqlite_def sample_case_def)
  ultimately show ?thesis unfolding proper_case_def by blast
qed

lemma sample_at_rest:
  "at_rest sample_case (files (sample_disk n))" "files (sample_disk n) (previous_path (live_db sample_case)) = None"
  by (simp_all add: at_rest_def epoch_is_def journal_at_def sample_case_def sample_disk_def
      previous_path_def epoch_path_def journal_path_def sidecars_def)

theorem restore_reports_truth_witness:
  "let e = snd (run_state (run_restore plain_sqlite sample_case False) (sample_disk 100)) in
     power e = 79 \<and> files e ''/d/b.db'' = Some (DatabaseImage ''theirs'')"
proof -
  let ?run = "run_state (run_restore plain_sqlite sample_case False) (sample_disk 100)"
  have ok: "rr_success (fst ?run)" and left: "power (snd ?run) = 79" by code_simp+
  show ?thesis
    using restore_reports_truth [OF sample_proper sample_at_rest prod.collapse [symmetric], of False 100] ok left
    by (simp add: Let_def sample_case_def)
qed


section \<open>What the recovery destroys\<close>

text \<open>
  The rollback removes the live database before it looks for the rollback image. When the
  machine stops after the journal was written and before the live database was moved, the
  next startup therefore deletes the database, which was never touched, and reports that it
  cannot be restored; only the safety backup is left.
\<close>

theorem crash_before_move_loses_database:
  "let d = snd (run_state (run_restore plain_sqlite sample_case False) (sample_disk 13));
       (r, f) = run_state (run_recovery plain_sqlite sample_case) (boot (50, []) d) in
     files d ''/d/b.db'' = Some (DatabaseImage ''mine'')
     \<and> \<not> rc_success r \<and> files f ''/d/b.db'' = None
     \<and> files f ''/d/b.db.restore_previous'' = None
     \<and> files f ''/d/s.db'' = Some (DatabaseImage ''mine'')"
  by code_simp

text \<open>
  The same without a crash: the move of the live database fails, as it does on a system
  that refuses to rename an open file, and the rollback deletes it.
\<close>

theorem failed_move_loses_database:
  "let d = (sample_disk 100)\<lparr>file_faults := replicate 13 False @ [True]\<rparr>;
       (r, f) = run_state (run_restore plain_sqlite sample_case False) d in
     rr_failure r = RestoreRollback \<and> \<not> rr_rolled_back r
     \<and> files f ''/d/b.db'' = None \<and> files f ''/d/s.db'' = Some (DatabaseImage ''mine'')"
  by code_simp

text \<open>
  A rollback image that an earlier Restore could not remove. When the next one cannot remove it either,
  before the staging and again before the move, the rollback puts that older database in the place of the
  live one, and the Restore reports that it was rolled back.
\<close>

theorem leftover_image_replaces_database:
  "let d = (sample_disk 200)\<lparr>files := (files (sample_disk 200))(''/d/b.db.restore_previous'' \<mapsto> DatabaseImage ''older''),
         file_faults := replicate 9 False @ [True] @ replicate 4 False @ [True]\<rparr>;
       (r, f) = run_state (run_restore plain_sqlite sample_case False) d in
     \<not> rr_success r \<and> rr_rolled_back r \<and> files d ''/d/b.db'' = Some (DatabaseImage ''mine'')
     \<and> files f ''/d/b.db'' = Some (DatabaseImage ''older'')"
  by code_simp

end
