(* ===== verification/RemoteSession.thy ===== *)
theory RemoteSession
  imports Machines Prelude "HOL-Library.Word"
begin

text \<open>
  The session of a client with a Host (\<open>network/RemoteSessionState\<close>): who the Host is,
  which generation of session and Workspace the client is in, and which answers and events
  it may still accept. The generations are 64-bit counters. The epochs the client has
  retained (\<open>QSettings\<close>, group \<open>RetainedDataEpoch\<close>) are a map; the signals an operation emits
  are its result, in order.
\<close>

section \<open>State\<close>

datatype data_state = NeverLoaded | Current | StaleDisconnected

record remote_session =
  host_identity :: string
  data_epoch :: string
  epoch_supported :: bool
  session_generation :: "64 word"
  workspace_generation :: "64 word"
  workspace_id :: int
  session_authenticated :: bool
  had_session :: bool
  session_data :: data_state
  retained_epochs :: "string \<rightharpoonup> string"

definition new_session :: "(string \<rightharpoonup> string) \<Rightarrow> remote_session" where
  "new_session retained = \<lparr>host_identity = [], data_epoch = [], epoch_supported = False,
     session_generation = 0, workspace_generation = 0, workspace_id = 0,
     session_authenticated = False, had_session = False, session_data = NeverLoaded,
     retained_epochs = retained\<rparr>"

datatype session_signal =
  SessionEstablished bool
| SameHostRestored
| SessionLost
| HostIdentityChanged
| WorkspaceGenerationChanged "64 word" int
| DataStateChanged data_state
| MustClear
| ShouldRefresh
| DataEpochChanged

record session_snapshot =
  snap_identity :: string
  snap_session :: "64 word"
  snap_workspace :: "64 word"
  snap_workspace_id :: int

definition take_snapshot :: "remote_session \<Rightarrow> session_snapshot" where
  "take_snapshot s = \<lparr>snap_identity = host_identity s, snap_session = session_generation s,
     snap_workspace = workspace_generation s, snap_workspace_id = workspace_id s\<rparr>"

definition accepts :: "remote_session \<Rightarrow> session_snapshot \<Rightarrow> bool" where
  "accepts s v \<longleftrightarrow> session_authenticated s \<and> snap_identity v = host_identity s
     \<and> snap_session v = session_generation s \<and> snap_workspace v = workspace_generation s
     \<and> snap_workspace_id v = workspace_id s"

definition accepts_host_global :: "remote_session \<Rightarrow> session_snapshot \<Rightarrow> bool" where
  "accepts_host_global s v \<longleftrightarrow> session_authenticated s \<and> snap_identity v = host_identity s
     \<and> snap_session v = session_generation s"

definition accepts_event :: "remote_session \<Rightarrow> 64 word \<Rightarrow> int option \<Rightarrow> bool" where
  "accepts_event s generation workspace \<longleftrightarrow> session_authenticated s
     \<and> generation = session_generation s
     \<and> (case workspace of None \<Rightarrow> True | Some w \<Rightarrow> w = workspace_id s)"

section \<open>Operations\<close>

definition is_hex :: "char \<Rightarrow> bool" where
  "is_hex c \<longleftrightarrow> (let n = (of_char c :: nat); u = (of_char (to_upper c) :: nat)
     in (48 \<le> n \<and> n \<le> 57) \<or> (65 \<le> u \<and> u \<le> 70))"

definition normalized_fingerprint :: "string \<Rightarrow> string" where
  "normalized_fingerprint v =
     (let n = map to_upper (filter is_hex v) in if length n = 64 then n else [])"

definition set_data_state :: "data_state \<Rightarrow> remote_session \<Rightarrow> session_signal list \<times> remote_session" where
  "set_data_state d s =
     (if session_data s = d then ([], s) else ([DataStateChanged d], s\<lparr>session_data := d\<rparr>))"

definition advance_workspace :: "int \<Rightarrow> remote_session \<Rightarrow> session_signal list \<times> remote_session" where
  "advance_workspace w s =
     (let t = s\<lparr>workspace_id := w, workspace_generation := workspace_generation s + 1\<rparr>
      in ([WorkspaceGenerationChanged (workspace_generation t) w], t))"

definition authenticated_with_epoch ::
  "string \<Rightarrow> string \<Rightarrow> bool \<Rightarrow> remote_session \<Rightarrow> session_signal list \<times> remote_session" where
  "authenticated_with_epoch fingerprint epoch supported s =
     (let identity = normalized_fingerprint fingerprint in
      if identity = [] then ([], s)
      else
        let had = had_session s;
            same_host = (host_identity s \<noteq> [] \<and> identity = host_identity s);
            changed_host = (host_identity s \<noteq> [] \<and> \<not> same_host);
            present = (retained_epochs s identity \<noteq> None);
            retained = (case retained_epochs s identity of None \<Rightarrow> [] | Some e \<Rightarrow> e);
            changed_epoch = (supported \<and> (\<not> present \<or> retained \<noteq> epoch));
            lost_support = (\<not> supported \<and> retained \<noteq> []);
            s1 = s\<lparr>retained_epochs := (if supported then (retained_epochs s)(identity \<mapsto> epoch)
                                       else retained_epochs s),
                   session_generation := session_generation s + 1,
                   session_authenticated := True, had_session := True,
                   host_identity := identity, data_epoch := epoch, epoch_supported := supported\<rparr>;
            (signals, s2) =
              (if changed_host \<or> changed_epoch \<or> lost_support then
                 let (a, t) = advance_workspace 0 s1; (b, u) = set_data_state NeverLoaded t in
                 (a @ b @ [HostIdentityChanged, MustClear]
                    @ (if changed_epoch \<and> present then [DataEpochChanged] else []), u)
               else ([], s1))
        in (signals @ [SessionEstablished same_host]
              @ (if had \<and> same_host \<and> \<not> changed_epoch \<and> \<not> lost_support
                 then [SameHostRestored, ShouldRefresh] else []), s2))"

definition session_disconnected :: "remote_session \<Rightarrow> session_signal list \<times> remote_session" where
  "session_disconnected s =
     (if \<not> session_authenticated s then ([], s)
      else
        let s1 = s\<lparr>session_generation := session_generation s + 1, session_authenticated := False\<rparr>;
            (a, t) = set_data_state (if host_identity s = [] then NeverLoaded else StaleDisconnected) s1
        in (a @ [SessionLost], t))"

definition set_workspace_id :: "int \<Rightarrow> remote_session \<Rightarrow> session_signal list \<times> remote_session" where
  "set_workspace_id w0 s =
     (let w = max 0 w0 in if w = workspace_id s then ([], s) else advance_workspace w s)"

definition mark_current :: "remote_session \<Rightarrow> session_signal list \<times> remote_session" where
  "mark_current s = (if session_authenticated s then set_data_state Current s else ([], s))"

datatype session_event =
  Authenticated string string bool
| Disconnected
| SetWorkspace int
| MarkCurrent

fun session_call :: "session_event \<Rightarrow> remote_session \<Rightarrow> session_signal list \<times> remote_session" where
  "session_call (Authenticated f e supported) s = authenticated_with_epoch f e supported s"
| "session_call Disconnected s = session_disconnected s"
| "session_call (SetWorkspace w) s = set_workspace_id w s"
| "session_call MarkCurrent s = mark_current s"

definition session_step :: "session_event \<Rightarrow> remote_session \<Rightarrow> remote_session" where
  "session_step e s = snd (session_call e s)"

section \<open>Which events end a session or leave a Workspace\<close>

definition opens_session :: "session_event \<Rightarrow> bool" where
  "opens_session e \<longleftrightarrow> (case e of Authenticated f _ _ \<Rightarrow> normalized_fingerprint f \<noteq> [] | _ \<Rightarrow> False)"

definition ends_session :: "session_event \<Rightarrow> remote_session \<Rightarrow> bool" where
  "ends_session e s \<longleftrightarrow> opens_session e \<or> e = Disconnected \<and> session_authenticated s"

definition leaves_workspace :: "session_event \<Rightarrow> remote_session \<Rightarrow> bool" where
  "leaves_workspace e s \<longleftrightarrow> (case e of SetWorkspace w \<Rightarrow> max 0 w \<noteq> workspace_id s | _ \<Rightarrow> False)"

text \<open>The client stayed, through all of a history, in the session and Workspace it began in.\<close>

fun stayed :: "session_event list \<Rightarrow> remote_session \<Rightarrow> bool" where
  "stayed [] s = True"
| "stayed (e # es) s \<longleftrightarrow> \<not> ends_session e s \<and> \<not> leaves_workspace e s \<and> stayed es (session_step e s)"

lemmas session_defs = session_step_def authenticated_with_epoch_def session_disconnected_def
  set_workspace_id_def mark_current_def set_data_state_def advance_workspace_def

lemma session_generation_step:
  "session_generation (session_step e s)
     = session_generation s + (if ends_session e s then 1 else 0)"
  by (cases e) (auto simp: session_defs ends_session_def opens_session_def Let_def
      split: prod.splits if_splits)

lemma identity_step:
  "\<not> ends_session e s \<Longrightarrow> host_identity (session_step e s) = host_identity s
     \<and> session_authenticated (session_step e s) = session_authenticated s"
  by (cases e) (auto simp: session_defs ends_session_def opens_session_def Let_def
      split: prod.splits if_splits)

lemma workspace_step:
  "\<not> ends_session e s \<Longrightarrow>
     workspace_generation (session_step e s)
       = workspace_generation s + (if leaves_workspace e s then 1 else 0)
     \<and> (\<not> leaves_workspace e s \<longrightarrow> workspace_id (session_step e s) = workspace_id s)"
  by (cases e) (auto simp: session_defs ends_session_def opens_session_def leaves_workspace_def Let_def
      split: prod.splits if_splits)

fun count_events :: "(session_event \<Rightarrow> remote_session \<Rightarrow> bool) \<Rightarrow> session_event list \<Rightarrow> remote_session \<Rightarrow> nat" where
  "count_events P [] s = 0"
| "count_events P (e # es) s = (if P e s then 1 else 0) + count_events P es (session_step e s)"

lemma count_events_le: "count_events P es s \<le> length es"
  by (induction es arbitrary: s) (auto intro: le_SucI)

lemma session_generation_run:
  "session_generation (fold session_step es s)
     = session_generation s + of_nat (count_events ends_session es s)"
  by (induction es arbitrary: s) (simp_all add: session_generation_step)

lemma same_session_run:
  "count_events ends_session es s = 0 \<Longrightarrow>
     host_identity (fold session_step es s) = host_identity s
     \<and> session_authenticated (fold session_step es s) = session_authenticated s
     \<and> workspace_generation (fold session_step es s)
         = workspace_generation s + of_nat (count_events leaves_workspace es s)"
proof (induction es arbitrary: s)
  case (Cons e es)
  then have quiet: "\<not> ends_session e s" and rest: "count_events ends_session es (session_step e s) = 0"
    by (auto split: if_splits)
  show ?case
    using Cons.IH [OF rest] identity_step [OF quiet] workspace_step [OF quiet] by simp
qed simp

lemma same_workspace_run:
  "count_events ends_session es s = 0 \<Longrightarrow> count_events leaves_workspace es s = 0 \<Longrightarrow>
     workspace_id (fold session_step es s) = workspace_id s"
proof (induction es arbitrary: s)
  case (Cons e es)
  then have "\<not> ends_session e s" "\<not> leaves_workspace e s"
    "count_events ends_session es (session_step e s) = 0"
    "count_events leaves_workspace es (session_step e s) = 0"
    by (auto split: if_splits)
  then show ?case using Cons.IH workspace_step [of e s] by simp
qed simp

lemma stayed_counts:
  "stayed es s \<longleftrightarrow> count_events ends_session es s = 0 \<and> count_events leaves_workspace es s = 0"
  by (induction es arbitrary: s) auto

lemma small_count:
  assumes "n < 2 ^ 64" "(x :: 64 word) = x + of_nat n"
  shows "n = 0"
proof -
  have "of_nat n = (0 :: 64 word)" using assms(2) by (metis add_cancel_right_right)
  then have "n mod 2 ^ 64 = 0" by (simp add: word_of_nat_eq_0_iff dvd_eq_mod_eq_0)
  then show ?thesis using assms(1) by simp
qed

lemma one_digit_fingerprint:
  "is_hex c \<Longrightarrow> to_upper c = c \<Longrightarrow> normalized_fingerprint (replicate 64 c) = replicate 64 c"
  by (simp add: normalized_fingerprint_def filter_replicate)

lemma sample_fingerprints:
  "normalized_fingerprint (replicate 64 (CHR ''A'')) = replicate 64 (CHR ''A'')"
  "normalized_fingerprint (replicate 64 (CHR ''B'')) = replicate 64 (CHR ''B'')"
  by (rule one_digit_fingerprint; simp add: is_hex_def to_upper_def)+

text \<open>
  Property C28. An answer is accepted exactly when the client is still in the session and
  the Workspace in which it asked: the request's snapshot is accepted after any history of
  fewer than \<open>2 ^ 64\<close> events if and only if it was asked in an authenticated session and no
  event of the history authenticated again, lost the session or changed the Workspace, not
  even to come back to the same one.
\<close>

theorem answers_of_this_session_only:
  assumes "length es < 2 ^ 64"
  shows "accepts (fold session_step es s) (take_snapshot s) \<longleftrightarrow> session_authenticated s \<and> stayed es s"
proof
  assume a: "accepts (fold session_step es s) (take_snapshot s)"
  have small: "count_events P es s < 2 ^ 64" for P
    using count_events_le [of P es s] assms by simp
  have ended: "count_events ends_session es s = 0"
    using a session_generation_run [of es s] small_count [OF small, of "session_generation s"]
    by (simp add: accepts_def take_snapshot_def)
  moreover have "count_events leaves_workspace es s = 0"
    using a same_session_run [OF ended] small_count [OF small, of "workspace_generation s"]
    by (simp add: accepts_def take_snapshot_def)
  ultimately show "session_authenticated s \<and> stayed es s"
    using a same_session_run [OF ended] by (simp add: stayed_counts accepts_def)
next
  assume "session_authenticated s \<and> stayed es s"
  then show "accepts (fold session_step es s) (take_snapshot s)"
    using session_generation_run [of es s] same_session_run [of es s] same_workspace_run [of es s]
    by (simp add: stayed_counts accepts_def take_snapshot_def)
qed

theorem answers_of_this_session_only_witness:
  "let s = fold session_step [Authenticated (replicate 64 (CHR ''A'')) ''e'' True, SetWorkspace 3]
         (new_session Map.empty) in
     accepts (fold session_step [MarkCurrent, SetWorkspace 3] s) (take_snapshot s)
     \<and> \<not> accepts (fold session_step [SetWorkspace 4, SetWorkspace 3] s) (take_snapshot s)"
proof -
  let ?s = "fold session_step [Authenticated (replicate 64 (CHR ''A'')) ''e'' True, SetWorkspace 3]
    (new_session Map.empty)"
  have stay: "session_authenticated ?s" "stayed [MarkCurrent, SetWorkspace 3] ?s"
    "\<not> stayed [SetWorkspace 4, SetWorkspace 3] ?s"
    by (simp_all add: session_defs new_session_def sample_fingerprints Let_def ends_session_def
        opens_session_def leaves_workspace_def)
  define t where "t = ?s"
  have "accepts (fold session_step [MarkCurrent, SetWorkspace 3] t) (take_snapshot t)"
    using answers_of_this_session_only [of "[MarkCurrent, SetWorkspace 3]" t] stay(1,2) [folded t_def]
    by (simp del: stayed.simps)
  moreover have "\<not> accepts (fold session_step [SetWorkspace 4, SetWorkspace 3] t) (take_snapshot t)"
    using answers_of_this_session_only [of "[SetWorkspace 4, SetWorkspace 3]" t] stay(3) [folded t_def]
    by (simp del: stayed.simps)
  ultimately show ?thesis unfolding Let_def t_def [symmetric] by blast
qed

text \<open>
  What the client shows never outlives the database it came from: when it
  authenticates to another Host, or to one whose data epoch is not the one it retained, it
  tells its views to clear, leaves the Workspace and holds no data; and it asks them to
  refresh only when Host and epoch are the retained ones. With an epoch, it is the one
  retained for the next time.
\<close>

theorem other_data_is_cleared:
  assumes "normalized_fingerprint f \<noteq> []"
  shows "let i = normalized_fingerprint f;
             (signals, t) = authenticated_with_epoch f epoch supported s;
             kept = (if supported then retained_epochs s i = Some epoch
                     else retained_epochs s i \<in> {None, Some []}) in
     (if (host_identity s = [] \<or> host_identity s = i) \<and> kept
      then MustClear \<notin> set signals \<and> workspace_id t = workspace_id s \<and> session_data t = session_data s
      else MustClear \<in> set signals \<and> workspace_id t = 0 \<and> session_data t = NeverLoaded
         \<and> ShouldRefresh \<notin> set signals)
     \<and> (ShouldRefresh \<in> set signals \<longrightarrow> host_identity s = i \<and> kept)
     \<and> host_identity t = i \<and> session_authenticated t
     \<and> (supported \<longrightarrow> retained_epochs t i = Some epoch)"
  using assms
  by (cases "retained_epochs s (normalized_fingerprint f)"; cases supported)
     (auto simp: authenticated_with_epoch_def advance_workspace_def set_data_state_def Let_def)

theorem other_data_is_cleared_witness:
  "MustClear \<in> set (fst (authenticated_with_epoch (replicate 64 (CHR ''B'')) ''e'' True
     (session_step (Authenticated (replicate 64 (CHR ''A'')) ''e'' True) (new_session Map.empty))))"
proof -
  let ?s = "session_step (Authenticated (replicate 64 (CHR ''A'')) ''e'' True) (new_session Map.empty)"
  have f: "normalized_fingerprint (replicate 64 (CHR ''B'')) \<noteq> []"
    "host_identity ?s \<noteq> []" "host_identity ?s \<noteq> normalized_fingerprint (replicate 64 (CHR ''B''))"
    by (simp_all add: session_defs new_session_def sample_fingerprints Let_def replicate_eq_replicate
       )
  define t where "t = ?s"
  define g where "g = replicate 64 (CHR ''B'')"
  have "host_identity t \<noteq> [] \<and> host_identity t \<noteq> normalized_fingerprint g"
    using f(2,3) [folded t_def g_def] by blast
  then have "MustClear \<in> set (fst (authenticated_with_epoch g ''e'' True t))"
    using other_data_is_cleared [OF f(1) [folded g_def], of "''e''" True t]
    by (auto simp: Let_def split: prod.splits if_splits)
  then show ?thesis unfolding t_def g_def .
qed

end
