(* ===== verification/HostMutations.thy ===== *)
theory HostMutations
  imports Prelude
begin

text \<open>
  The mutations a client sends to the Host: \<open>HostWriteExecutor::Worker::execute\<close>, with the
  receipts of \<open>repositories/RemoteMutationReceiptRepository\<close>. The worker runs one call at a
  time. A call carries the mutation itself, a function on the operational tables (\<open>'d\<close>)
  that the Host's services provide; the authoritative part of a result (\<open>'j\<close>) and what is
  published after a commit (\<open>'p\<close>) are whatever that function says. The environment of a call
  decides which statements fail, with which text.
\<close>

section \<open>Receipts, contexts and results\<close>

record mutation_context =
  mc_operation :: string
  mc_workspace :: int
  mc_id :: string
  mc_client :: string

record 'j mutation_result =
  mr_id :: string
  mr_operation :: string
  mr_replayed :: bool
  mr_committed :: string
  mr_authoritative :: 'j

record mutation_error =
  me_code :: string
  me_retryable :: bool

record 'j receipt =
  rc_id :: string
  rc_operation :: string
  rc_workspace :: int
  rc_hash :: string
  rc_code :: string
  rc_result :: "'j mutation_result"
  rc_committed :: string
  rc_client :: string

record ('j, 'p) outcome =
  oc_success :: bool
  oc_authoritative :: 'j
  oc_error :: mutation_error
  oc_publication :: 'p

record ('d, 'j) host_database =
  hd_tables :: 'd
  hd_receipts :: "'j receipt list"
  hd_workspaces :: "int \<rightharpoonup> bool"   \<comment> \<open>\<open>workspace.is_active\<close> by identity\<close>

text \<open>What the environment does to a call; a text is the error a statement failed with.\<close>

record call_env =
  env_unavailable :: bool
  env_begins :: bool
  env_find_error :: "string option"
  env_workspace_error :: "string option"
  env_insert_error :: "string option"
  env_commits :: bool
  env_commit_error :: string
  env_now :: string
  env_listening :: bool       \<comment> \<open>the transport context exists when the worker is done\<close>
  env_delivered :: bool       \<comment> \<open>and when its event loop gets to the posted answer\<close>
  env_publisher :: bool

datatype ('j, 'p) call_event =
  Completed "'j mutation_result"
| Refused mutation_error
| Published 'p

definition contains_text :: "string \<Rightarrow> string \<Rightarrow> bool" where
  "contains_text p s \<longleftrightarrow> list_ex (\<lambda>i. nocase_eq (take (length p) (drop i s)) p) [0..<length s]"

definition is_busy_error :: "string \<Rightarrow> bool" where
  "is_busy_error s \<longleftrightarrow> contains_text ''locked'' s \<or> contains_text ''busy'' s"

definition busy_or_internal :: "bool \<Rightarrow> mutation_error" where
  "busy_or_internal busy =
     \<lparr>me_code = (if busy then ''BUSY'' else ''INTERNAL_ERROR''), me_retryable = True\<rparr>"

definition final_error :: "string \<Rightarrow> mutation_error" where
  "final_error code = \<lparr>me_code = code, me_retryable = False\<rparr>"

definition heard :: "call_env \<Rightarrow> bool" where
  "heard env \<longleftrightarrow> env_listening env \<and> env_delivered env"

text \<open>
  Publication is posted together with the answer when the worker still sees the transport
  context, and done by the worker itself when it does not.
\<close>

definition publishes :: "call_env \<Rightarrow> bool" where
  "publishes env \<longleftrightarrow> env_publisher env \<and> (if env_listening env then env_delivered env else True)"

section \<open>Stored results\<close>

definition hex_at :: "string \<Rightarrow> nat \<Rightarrow> bool" where
  "hex_at s i \<longleftrightarrow> (let n = (of_char (s ! i) :: nat)
     in (48 \<le> n \<and> n \<le> 57) \<or> (65 \<le> n \<and> n \<le> 70) \<or> (97 \<le> n \<and> n \<le> 102))"

text \<open>The pattern of a mutation identity: a UUID of version 1 to 5, variant 8 to b.\<close>

definition mutation_uuid :: "string \<Rightarrow> bool" where
  "mutation_uuid s \<longleftrightarrow> length s = 36
     \<and> list_all (\<lambda>i. if i \<in> {8, 13, 18, 23} then s ! i = CHR ''-'' else hex_at s i) [0..<36]
     \<and> s ! 14 \<in> set ''12345'' \<and> s ! 19 \<in> set ''89abAB''"

text \<open>\<open>resultFromJson\<close> of what \<open>resultToJson\<close> wrote: the fields are there, with their types.\<close>

definition result_from_stored :: "'j mutation_result \<Rightarrow> 'j mutation_result option" where
  "result_from_stored r =
     (if \<not> mutation_uuid (mr_id r) \<or> trimmed (mr_operation r) = [] then None
      else Some (r\<lparr>mr_id := map to_lower (mr_id r)\<rparr>))"

definition find_receipt :: "string \<Rightarrow> ('d, 'j) host_database \<Rightarrow> 'j receipt option" where
  "find_receipt i db = find (\<lambda>r. rc_id r = i) (hd_receipts db)"

section \<open>One call\<close>

definition execute_mutation ::
  "call_env \<Rightarrow> mutation_context \<Rightarrow> string \<Rightarrow> ('d \<Rightarrow> ('j, 'p) outcome \<times> 'd)
    \<Rightarrow> ('d, 'j) host_database \<Rightarrow> ('j, 'p) call_event list \<times> ('d, 'j) host_database" where
  "execute_mutation env c hash mutation db =
     (let fail = (\<lambda>e. (if heard env then [Refused e] else [], db)) in
      if env_unavailable env then fail \<lparr>me_code = ''INTERNAL_ERROR'', me_retryable = True\<rparr>
      else if \<not> env_begins env then fail \<lparr>me_code = ''BUSY'', me_retryable = True\<rparr>
      else case env_find_error env of
        Some text \<Rightarrow> fail (busy_or_internal (is_busy_error text))
      | None \<Rightarrow>
      (case find_receipt (mc_id c) db of
         Some receipt \<Rightarrow>
           if rc_operation receipt \<noteq> mc_operation c \<or> rc_workspace receipt \<noteq> mc_workspace c
             \<or> rc_hash receipt \<noteq> hash
           then fail (final_error ''IDEMPOTENCY_CONFLICT'')
           else (case result_from_stored (rc_result receipt) of
               None \<Rightarrow> fail (final_error ''INTERNAL_ERROR'')
             | Some r \<Rightarrow> (if heard env then [Completed (r\<lparr>mr_replayed := True\<rparr>)] else [], db))
       | None \<Rightarrow>
       (case env_workspace_error env of
          Some text \<Rightarrow> fail (busy_or_internal (is_busy_error text))
        | None \<Rightarrow>
        (case hd_workspaces db (mc_workspace c) of
           None \<Rightarrow> fail (final_error ''WORKSPACE_NOT_FOUND'')
         | Some active \<Rightarrow>
         if \<not> active then fail (final_error ''WORKSPACE_INACTIVE'')
         else case mutation (hd_tables db) of (outcome, tables) \<Rightarrow>
         if \<not> oc_success outcome
         then fail (if me_code (oc_error outcome) = [] then final_error ''INTERNAL_ERROR''
                    else oc_error outcome)
         else
           let r = \<lparr>mr_id = mc_id c, mr_operation = mc_operation c, mr_replayed = False,
                    mr_committed = env_now env, mr_authoritative = oc_authoritative outcome\<rparr>;
               stored = \<lparr>rc_id = mc_id c, rc_operation = mc_operation c,
                    rc_workspace = mc_workspace c, rc_hash = hash, rc_code = ''SUCCESS'',
                    rc_result = r, rc_committed = env_now env, rc_client = take 128 (mc_client c)\<rparr>
           in if env_insert_error env \<noteq> None \<or> \<not> env_commits env
              then fail (busy_or_internal
                ((case env_insert_error env of None \<Rightarrow> False | Some text \<Rightarrow> is_busy_error text)
                 \<or> is_busy_error (env_commit_error env)))
              else ((if heard env then [Completed r] else [])
                      @ (if publishes env then [Published (oc_publication outcome)] else []),
                    db\<lparr>hd_tables := tables, hd_receipts := hd_receipts db @ [stored]\<rparr>)))))"

section \<open>Histories of calls\<close>

type_synonym ('d, 'j, 'p) mutation_call =
  "call_env \<times> mutation_context \<times> string \<times> ('d \<Rightarrow> ('j, 'p) outcome \<times> 'd)"

text \<open>
  A history gives the calls with the events they caused and, beside, the calls that
  committed, in order.
\<close>

fun run_calls ::
  "('d, 'j, 'p) mutation_call list \<Rightarrow> ('d, 'j) host_database
    \<Rightarrow> (('d, 'j, 'p) mutation_call \<times> ('j, 'p) call_event list) list
       \<times> ('d, 'j, 'p) mutation_call list \<times> ('d, 'j) host_database" where
  "run_calls [] db = ([], [], db)"
| "run_calls ((env, c, h, m) # calls) db =
     (case execute_mutation env c h m db of (events, db1) \<Rightarrow>
      case run_calls calls db1 of (trace, committed, db2) \<Rightarrow>
        (((env, c, h, m), events) # trace,
         (if length (hd_receipts db1) > length (hd_receipts db) then [(env, c, h, m)] else []) @ committed,
         db2))"

definition apply_call :: "('d, 'j, 'p) mutation_call \<Rightarrow> 'd \<Rightarrow> 'd" where
  "apply_call = (\<lambda>(env, c, h, m) d. snd (m d))"

definition call_id :: "('d, 'j, 'p) mutation_call \<Rightarrow> string" where
  "call_id = (\<lambda>(env, c, h, m). mc_id c)"

definition fresh_host :: "'d \<Rightarrow> (int \<rightharpoonup> bool) \<Rightarrow> ('d, 'j) host_database" where
  "fresh_host d ws = \<lparr>hd_tables = d, hd_receipts = [], hd_workspaces = ws\<rparr>"

text \<open>A receipt answers for a call: same identity, operation, Workspace and data.\<close>

definition answers_for :: "'j receipt \<Rightarrow> mutation_context \<Rightarrow> string \<Rightarrow> 'j mutation_result \<Rightarrow> bool" where
  "answers_for r c h v \<longleftrightarrow> rc_id r = mc_id c \<and> rc_operation r = mc_operation c
     \<and> rc_workspace r = mc_workspace c \<and> rc_hash r = h
     \<and> mr_authoritative v = mr_authoritative (rc_result r)
     \<and> mr_committed v = mr_committed (rc_result r) \<and> mr_operation v = mr_operation (rc_result r)"

text \<open>The two ways a call ends: the database as it was, or the mutation with its receipt.\<close>

lemma call_cases:
  assumes "execute_mutation env c h m db = (events, db')"
  shows "db' = db \<and> (\<forall>p. Published p \<notin> set events)
      \<and> (\<forall>v. Completed v \<in> set events \<longrightarrow> (\<exists>r\<in>set (hd_receipts db). answers_for r c h v \<and> mr_replayed v))
    \<or> (\<exists>r. db' = db\<lparr>hd_tables := snd (m (hd_tables db)), hd_receipts := hd_receipts db @ [r]\<rparr>
        \<and> rc_id r = mc_id c \<and> mc_id c \<notin> rc_id ` set (hd_receipts db)
        \<and> oc_success (fst (m (hd_tables db))) \<and> hd_workspaces db (mc_workspace c) = Some True
        \<and> (\<forall>v. Completed v \<in> set events \<longrightarrow> answers_for r c h v \<and> \<not> mr_replayed v)
        \<and> filter (\<lambda>e. case e of Published _ \<Rightarrow> True | _ \<Rightarrow> False) events
            = (if publishes env then [Published (oc_publication (fst (m (hd_tables db))))] else []))"
proof (cases "find_receipt (mc_id c) db")
  case None
  then have new: "mc_id c \<notin> rc_id ` set (hd_receipts db)"
    by (auto simp: find_receipt_def find_None_iff)
  show ?thesis
    using assms new
    by (auto simp: execute_mutation_def Let_def None answers_for_def
        split: if_splits option.splits prod.splits)
next
  case (Some r)
  then have "r \<in> set (hd_receipts db)" "rc_id r = mc_id c"
    using find_SomeD [of "\<lambda>r. rc_id r = mc_id c" "hd_receipts db" r] by (auto simp: find_receipt_def)
  then show ?thesis
    using assms
    by (auto simp: execute_mutation_def Let_def Some answers_for_def result_from_stored_def
        split: if_splits option.splits)
qed

definition receipts_unique :: "('d, 'j) host_database \<Rightarrow> bool" where
  "receipts_unique db \<longleftrightarrow> distinct (map rc_id (hd_receipts db))"

lemma run_calls_facts:
  assumes "run_calls calls db = (trace, committed, db')" "receipts_unique db"
  shows "receipts_unique db'
    \<and> map rc_id (hd_receipts db') = map rc_id (hd_receipts db) @ map call_id committed
    \<and> set (hd_receipts db) \<subseteq> set (hd_receipts db')
    \<and> hd_tables db' = fold apply_call committed (hd_tables db)
    \<and> (\<forall>((env, c, h, m), events) \<in> set trace. \<forall>v. Completed v \<in> set events
          \<longrightarrow> (\<exists>r\<in>set (hd_receipts db'). answers_for r c h v))
    \<and> length (filter (\<lambda>e. case e of Published _ \<Rightarrow> True | _ \<Rightarrow> False) (concat (map snd trace)))
        = length (filter (\<lambda>(env, c, h, m). publishes env) committed)"
  using assms
proof (induction calls arbitrary: db trace committed)
  case (Cons call calls)
  obtain env c h m where call: "call = (env, c, h, m)" by (cases call)
  obtain events db1 where one: "execute_mutation env c h m db = (events, db1)" by fastforce
  obtain rest done1 where rest: "run_calls calls db1 = (rest, done1, db')"
    and trace: "trace = ((env, c, h, m), events) # rest"
    and committed: "committed = (if length (hd_receipts db1) > length (hd_receipts db)
      then [(env, c, h, m)] else []) @ done1"
    using Cons.prems(1) by (auto simp: call one split: prod.splits)
  have uniq: "receipts_unique db1"
    using call_cases [OF one] Cons.prems(2) by (auto simp: receipts_unique_def)
  note IH = Cons.IH [OF rest uniq]
  from call_cases [OF one] show ?case
  proof (elim disjE exE conjE)
    assume "db1 = db" "\<forall>p. Published p \<notin> set events"
      "\<forall>v. Completed v \<in> set events \<longrightarrow> (\<exists>r\<in>set (hd_receipts db). answers_for r c h v \<and> mr_replayed v)"
    moreover from this(2) have "filter (\<lambda>e. case e of Published _ \<Rightarrow> True | _ \<Rightarrow> False) events = []"
      by (auto simp: filter_empty_conv split: call_event.splits)
    ultimately show ?thesis using IH by (fastforce simp: trace committed)
  next
    fix r
    assume db1: "db1 = db\<lparr>hd_tables := snd (m (hd_tables db)), hd_receipts := hd_receipts db @ [r]\<rparr>"
      and r: "rc_id r = mc_id c"
        "\<forall>v. Completed v \<in> set events \<longrightarrow> answers_for r c h v \<and> \<not> mr_replayed v"
        "filter (\<lambda>e. case e of Published _ \<Rightarrow> True | _ \<Rightarrow> False) events
            = (if publishes env then [Published (oc_publication (fst (m (hd_tables db))))] else [])"
    then show ?thesis using IH
      by (auto simp: trace committed apply_call_def call_id_def)
  qed
qed simp

text \<open>
  Property C26. A mutation runs at most once, however often and in whatever order its
  request is sent again, and whichever statements and commits fail: the operational tables
  are the result of the calls that committed, in order; no two of these have the same
  mutation identity; every call that is answered with success is answered with the stored
  result of the one that committed under its identity, for the same operation, Workspace
  and data; and each commit, and nothing else, is published once, provided the transport
  context does not vanish between the commit and the delivery of the answer.
\<close>

theorem mutations_run_once:
  assumes "run_calls calls (fresh_host d ws) = (trace, committed, db)"
  shows "hd_tables db = fold apply_call committed d
    \<and> distinct (map call_id committed)
    \<and> map rc_id (hd_receipts db) = map call_id committed
    \<and> (\<forall>((env, c, h, m), events) \<in> set trace. \<forall>v. Completed v \<in> set events
          \<longrightarrow> (\<exists>r\<in>set (hd_receipts db). answers_for r c h v))
    \<and> length (filter (\<lambda>e. case e of Published _ \<Rightarrow> True | _ \<Rightarrow> False) (concat (map snd trace)))
        = length (filter (\<lambda>(env, c, h, m). publishes env) committed)"
proof -
  have "receipts_unique (fresh_host d ws)"
    by (simp add: receipts_unique_def fresh_host_def)
  from run_calls_facts [OF assms this] show ?thesis
    by (auto simp: receipts_unique_def fresh_host_def)
qed

definition calm_env :: call_env where
  "calm_env = \<lparr>env_unavailable = False, env_begins = True, env_find_error = None,
     env_workspace_error = None, env_insert_error = None, env_commits = True,
     env_commit_error = [], env_now = ''2026-01-01T00:00:00.000Z'', env_listening = True, env_delivered = True,
     env_publisher = True\<rparr>"

definition sample_call :: "bool \<Rightarrow> (int, string, int) mutation_call" where
  "sample_call commits = (calm_env\<lparr>env_commits := commits\<rparr>,
     \<lparr>mc_operation = ''inventory.add'', mc_workspace = 1,
      mc_id = ''11111111-1111-4111-8111-111111111111'', mc_client = ''c''\<rparr>, ''hash'',
     \<lambda>d. (\<lparr>oc_success = True, oc_authoritative = ''ok'',
       oc_error = final_error [], oc_publication = d\<rparr>, d + 5))"

lemma sample_text:
  "mutation_uuid ''11111111-1111-4111-8111-111111111111''" "\<not> is_busy_error []"
  "trimmed ''inventory.add'' \<noteq> []"
  by code_simp+

text \<open>The first attempt is lost in its commit, the second commits, the third is answered from the receipt.\<close>

theorem mutations_run_once_witness:
  "let (trace, committed, db) = run_calls [sample_call False, sample_call True, sample_call True]
         (fresh_host 10 [1 \<mapsto> True]) in
     hd_tables db = 15 \<and> length committed = 1
     \<and> map (\<lambda>(c, es). map (\<lambda>e. case e of Completed v \<Rightarrow> Some (mr_replayed v) | _ \<Rightarrow> None) es) trace
       = [[None], [Some False, None], [Some True]]"
proof -
  let ?calls = "[sample_call False, sample_call True, sample_call True]"
  obtain trace committed db where
    run: "run_calls ?calls (fresh_host 10 [1 \<mapsto> True]) = (trace, committed, db)"
    using prod_cases3 by blast
  have shape: "length committed = 1 \<and> map call_id committed = [''11111111-1111-4111-8111-111111111111'']
      \<and> map apply_call committed = [\<lambda>d. d + 5]
      \<and> map (\<lambda>(c, es). map (\<lambda>e. case e of Completed v \<Rightarrow> Some (mr_replayed v) | _ \<Rightarrow> None) es) trace
       = [[None], [Some False, None], [Some True]]"
    using run
    by (auto simp: sample_call_def calm_env_def execute_mutation_def find_receipt_def fresh_host_def
        result_from_stored_def Let_def sample_text apply_call_def call_id_def heard_def publishes_def)
  then have "fold apply_call committed 10 = 15" by (cases committed) auto
  then show ?thesis
    using mutations_run_once [OF run] shape by (simp add: run Let_def)
qed

text \<open>
  When the client disconnects between the commit and the delivery of its answer, the commit
  is not published to anyone.
\<close>

theorem commit_without_publication:
  "let (events, db) = execute_mutation (calm_env\<lparr>env_delivered := False\<rparr>)
         \<lparr>mc_operation = ''inventory.add'', mc_workspace = 1,
          mc_id = ''11111111-1111-4111-8111-111111111111'', mc_client = ''c''\<rparr> ''hash''
         (\<lambda>d. (\<lparr>oc_success = True, oc_authoritative = ''ok'',
           oc_error = final_error [], oc_publication = d\<rparr>, d + 5)) (fresh_host (10 :: int) [1 \<mapsto> True]) in
     hd_tables db = 15 \<and> env_publisher calm_env \<and> events = []"
  by (simp add: execute_mutation_def calm_env_def find_receipt_def fresh_host_def Let_def heard_def
      publishes_def)

end
