(* ===== verification/HostMaintenance.thy ===== *)
theory HostMaintenance
  imports Machines Prelude
begin

text \<open>
  Host Maintenance: the queues of the two Host executors (\<open>HostReadExecutor\<close>,
  \<open>HostWriteExecutor\<close>), the gate for writes on the Host itself (\<open>HostOperationalGate\<close>) and
  the coordinator that closes them, waits for the admitted work and opens them again
  (\<open>services/application/HostMaintenanceCoordinator\<close>).

  Each executor has its own thread. Taking a task off the queue and counting it as active
  are two operations on two atomic counters, which the application thread may observe in
  between, so they are two events here.
\<close>

section \<open>Executors\<close>

datatype worker = Waiting | Claiming | Running

record executor =
  ex_accepting :: bool
  ex_queued :: int
  ex_active :: int
  ex_worker :: worker

definition executor_idle :: "executor \<Rightarrow> bool" where
  "executor_idle x \<longleftrightarrow> ex_queued x = 0 \<and> ex_active x = 0"

definition enqueue :: "int \<Rightarrow> executor \<Rightarrow> bool \<times> executor" where
  "enqueue limit x =
     (if \<not> ex_accepting x then (False, x)
      else if ex_queued x + ex_active x \<ge> limit then (False, x)
      else (True, x\<lparr>ex_queued := ex_queued x + 1\<rparr>))"

text \<open>The worker: \<open>--m_queued\<close>, then \<open>++m_active\<close>, then the task, then \<open>--m_active\<close>.\<close>

definition take_task :: "executor \<Rightarrow> executor" where
  "take_task x = (if ex_worker x = Waiting \<and> ex_queued x > 0
     then x\<lparr>ex_queued := ex_queued x - 1, ex_worker := Claiming\<rparr> else x)"

definition start_task :: "executor \<Rightarrow> executor" where
  "start_task x = (if ex_worker x = Claiming
     then x\<lparr>ex_active := ex_active x + 1, ex_worker := Running\<rparr> else x)"

definition finish_task :: "executor \<Rightarrow> executor" where
  "finish_task x = (if ex_worker x = Running
     then x\<lparr>ex_active := ex_active x - 1, ex_worker := Waiting\<rparr> else x)"

text \<open>The queued reads of a session that went away (\<open>cancelQueuedReadsForSession\<close>).\<close>

definition cancel_queued :: "nat \<Rightarrow> executor \<Rightarrow> executor" where
  "cancel_queued n x = x\<lparr>ex_queued := ex_queued x - min (int n) (ex_queued x)\<rparr>"

definition set_accepting :: "bool \<Rightarrow> executor \<Rightarrow> executor" where
  "set_accepting b x = x\<lparr>ex_accepting := b\<rparr>"

definition maximum_queued_reads :: int where
  "maximum_queued_reads = 64"

definition maximum_queued_mutations :: int where
  "maximum_queued_mutations = 16"

section \<open>The coordinator\<close>

datatype maintenance_state =
  Normal | EnteringMaintenance | Maintenance | LeavingMaintenance | ShuttingDown

record maintenance =
  mt_state :: maintenance_state
  mt_timer :: bool                 \<comment> \<open>the drain timeout is running\<close>
  mt_admission_open :: bool        \<comment> \<open>the server admits operational requests\<close>
  mt_local_writes :: bool          \<comment> \<open>\<open>HostOperationalGate::localWritesAllowed\<close>\<close>
  mt_reads :: executor
  mt_writes :: executor

definition open_all :: "bool \<Rightarrow> maintenance \<Rightarrow> maintenance" where
  "open_all b s = s\<lparr>mt_admission_open := b, mt_local_writes := b,
     mt_reads := set_accepting b (mt_reads s), mt_writes := set_accepting b (mt_writes s)\<rparr>"

definition evaluate_drain :: "maintenance \<Rightarrow> maintenance" where
  "evaluate_drain s =
     (if mt_state s \<noteq> EnteringMaintenance \<or> \<not> executor_idle (mt_reads s) \<or> \<not> executor_idle (mt_writes s)
      then s else s\<lparr>mt_timer := False, mt_state := Maintenance\<rparr>)"

definition request_enter_maintenance :: "int \<Rightarrow> maintenance \<Rightarrow> bool \<times> maintenance" where
  "request_enter_maintenance timeout s =
     (if mt_state s \<noteq> Normal \<or> timeout \<le> 0 then (False, s)
      else (True, evaluate_drain ((open_all False (s\<lparr>mt_state := EnteringMaintenance\<rparr>))\<lparr>mt_timer := True\<rparr>)))"

definition reopen_after_failed_entry :: "maintenance \<Rightarrow> maintenance" where
  "reopen_after_failed_entry s = (open_all True s)\<lparr>mt_state := Normal\<rparr>"

definition drain_timeout :: "maintenance \<Rightarrow> maintenance" where
  "drain_timeout s =
     (if \<not> mt_timer s then s
      else let t = s\<lparr>mt_timer := False\<rparr> in
        if mt_state t = EnteringMaintenance then reopen_after_failed_entry t else t)"

definition leave_maintenance :: "maintenance \<Rightarrow> bool \<times> maintenance" where
  "leave_maintenance s =
     (if mt_state s \<noteq> Maintenance then (False, s)
      else (True, (open_all True (s\<lparr>mt_state := LeavingMaintenance\<rparr>))\<lparr>mt_state := Normal\<rparr>))"

definition begin_shutdown :: "maintenance \<Rightarrow> maintenance" where
  "begin_shutdown s =
     (if mt_state s = ShuttingDown then s
      else (open_all False (s\<lparr>mt_timer := False\<rparr>))\<lparr>mt_state := ShuttingDown\<rparr>)"

section \<open>Histories\<close>

datatype maintenance_event =
  EnqueueRead | EnqueueWrite
| TakeRead | StartRead | FinishRead | CancelReads nat
| TakeWrite | StartWrite | FinishWrite
| ActivitySeen                     \<comment> \<open>an \<open>activityChanged\<close> delivered to the coordinator\<close>
| RequestEnter int | TimeoutFired | RequestLeave | BeginShutdown

fun maintenance_step :: "maintenance_event \<Rightarrow> maintenance \<Rightarrow> maintenance" where
  "maintenance_step EnqueueRead s = s\<lparr>mt_reads := snd (enqueue maximum_queued_reads (mt_reads s))\<rparr>"
| "maintenance_step EnqueueWrite s = s\<lparr>mt_writes := snd (enqueue maximum_queued_mutations (mt_writes s))\<rparr>"
| "maintenance_step TakeRead s = s\<lparr>mt_reads := take_task (mt_reads s)\<rparr>"
| "maintenance_step StartRead s = s\<lparr>mt_reads := start_task (mt_reads s)\<rparr>"
| "maintenance_step FinishRead s = s\<lparr>mt_reads := finish_task (mt_reads s)\<rparr>"
| "maintenance_step (CancelReads n) s = s\<lparr>mt_reads := cancel_queued n (mt_reads s)\<rparr>"
| "maintenance_step TakeWrite s = s\<lparr>mt_writes := take_task (mt_writes s)\<rparr>"
| "maintenance_step StartWrite s = s\<lparr>mt_writes := start_task (mt_writes s)\<rparr>"
| "maintenance_step FinishWrite s = s\<lparr>mt_writes := finish_task (mt_writes s)\<rparr>"
| "maintenance_step ActivitySeen s = evaluate_drain s"
| "maintenance_step (RequestEnter t) s = snd (request_enter_maintenance t s)"
| "maintenance_step TimeoutFired s = drain_timeout s"
| "maintenance_step RequestLeave s = snd (leave_maintenance s)"
| "maintenance_step BeginShutdown s = begin_shutdown s"

definition idle_executor :: executor where
  "idle_executor = \<lparr>ex_accepting = True, ex_queued = 0, ex_active = 0, ex_worker = Waiting\<rparr>"

definition running_host :: maintenance where
  "running_host = \<lparr>mt_state = Normal, mt_timer = False, mt_admission_open = True,
     mt_local_writes = True, mt_reads = idle_executor, mt_writes = idle_executor\<rparr>"

text \<open>The counters of an executor: what is queued, and one active task while it runs.\<close>

definition executor_good :: "int \<Rightarrow> executor \<Rightarrow> bool" where
  "executor_good limit x \<longleftrightarrow> 0 \<le> ex_queued x \<and> ex_active x = (if ex_worker x = Running then 1 else 0)
     \<and> ex_queued x \<le> limit"

definition maintenance_good :: "maintenance \<Rightarrow> bool" where
  "maintenance_good s \<longleftrightarrow> executor_good maximum_queued_reads (mt_reads s)
     \<and> executor_good maximum_queued_mutations (mt_writes s)
     \<and> mt_state s \<noteq> LeavingMaintenance
     \<and> mt_timer s = (mt_state s = EnteringMaintenance)
     \<and> mt_admission_open s = (mt_state s = Normal) \<and> mt_local_writes s = (mt_state s = Normal)
     \<and> ex_accepting (mt_reads s) = (mt_state s = Normal)
     \<and> ex_accepting (mt_writes s) = (mt_state s = Normal)
     \<and> (mt_state s = Maintenance \<longrightarrow> ex_queued (mt_reads s) = 0 \<and> ex_queued (mt_writes s) = 0)"

lemmas executor_defs = enqueue_def take_task_def start_task_def finish_task_def cancel_queued_def
  set_accepting_def executor_good_def executor_idle_def

lemma executor_step_good:
  assumes "executor_good limit x"
  shows "executor_good limit (snd (enqueue limit x))" "executor_good limit (take_task x)"
    "executor_good limit (start_task x)" "executor_good limit (finish_task x)"
    "executor_good limit (cancel_queued n x)" "executor_good limit (set_accepting b x)"
  using assms by (auto simp: executor_defs)

lemma executor_step_accepting [simp]:
  "ex_accepting (snd (enqueue limit x)) = ex_accepting x" "ex_accepting (take_task x) = ex_accepting x"
  "ex_accepting (start_task x) = ex_accepting x" "ex_accepting (finish_task x) = ex_accepting x"
  "ex_accepting (cancel_queued n x) = ex_accepting x" "ex_accepting (set_accepting b x) = b"
  by (auto simp: executor_defs)

lemma executor_step_empty:
  "ex_queued x = 0 \<Longrightarrow> \<not> ex_accepting x \<Longrightarrow> ex_queued (snd (enqueue limit x)) = 0"
  "ex_queued x = 0 \<Longrightarrow> ex_queued (take_task x) = 0"
  "ex_queued x = 0 \<Longrightarrow> ex_queued (start_task x) = 0"
  "ex_queued x = 0 \<Longrightarrow> ex_queued (finish_task x) = 0"
  "ex_queued x = 0 \<Longrightarrow> ex_queued (cancel_queued n x) = 0"
  "ex_queued (set_accepting b x) = ex_queued x"
  by (auto simp: executor_defs)

lemmas coordinator_defs = open_all_def evaluate_drain_def request_enter_maintenance_def
  reopen_after_failed_entry_def drain_timeout_def leave_maintenance_def begin_shutdown_def

lemma maintenance_step_good: "maintenance_good s \<Longrightarrow> maintenance_good (maintenance_step e s)"
  by (cases e)
     (auto simp: maintenance_good_def coordinator_defs executor_step_good executor_step_empty
        executor_idle_def Let_def)

interpretation maintenance: event_machine maintenance_step maintenance_good
  by unfold_locales (rule maintenance_step_good)

lemma running_host_good: "maintenance_good running_host"
  by (simp add: maintenance_good_def running_host_def idle_executor_def executor_good_def
      maximum_queued_reads_def maximum_queued_mutations_def)

abbreviation maintenance_run :: "maintenance_event list \<Rightarrow> maintenance" where
  "maintenance_run es \<equiv> fold maintenance_step es running_host"

text \<open>
  The four gates of the Host, admission of requests, both executors and writes
  on the Host itself, are open in normal operation and closed in every other state, whatever
  happens in whatever order; in Maintenance nothing is queued and nothing can be queued; the
  drain timeout runs exactly while Maintenance is being entered; and the queues never hold
  more than 64 reads and 16 mutations.
\<close>

theorem gates_follow_state:
  "let s = maintenance_run es; open_gates = (mt_state s = Normal) in
     mt_admission_open s = open_gates \<and> mt_local_writes s = open_gates
     \<and> ex_accepting (mt_reads s) = open_gates \<and> ex_accepting (mt_writes s) = open_gates
     \<and> mt_timer s = (mt_state s = EnteringMaintenance)
     \<and> (if mt_state s = Maintenance
        then ex_queued (mt_reads s) = 0 \<and> ex_queued (mt_writes s) = 0
          \<and> \<not> fst (enqueue maximum_queued_reads (mt_reads s))
          \<and> \<not> fst (enqueue maximum_queued_mutations (mt_writes s))
        else True)
     \<and> ex_queued (mt_reads s) \<le> 64 \<and> ex_queued (mt_writes s) \<le> 16"
  using maintenance.run_good [OF running_host_good, of es]
  by (auto simp: Let_def maintenance_good_def executor_good_def enqueue_def
      maximum_queued_reads_def maximum_queued_mutations_def)

text \<open>
  The counters are read one after the other: a drain that is evaluated between
  \<open>--m_queued\<close> and \<open>++m_active\<close> of the worker finds both at zero, so that the Host reports
  Maintenance and the mutation starts afterwards.
\<close>

theorem mutation_starts_in_maintenance:
  "let s = maintenance_run [EnqueueWrite, TakeWrite, RequestEnter 30000, StartWrite] in
     mt_state s = Maintenance \<and> ex_worker (mt_writes s) = Running \<and> ex_active (mt_writes s) = 1"
  by code_simp

section \<open>Entering Maintenance comes to an end\<close>

text \<open>The events by which an executor that is not fed any more finishes what it holds.\<close>

definition drain_events ::
  "maintenance_event \<Rightarrow> maintenance_event \<Rightarrow> maintenance_event \<Rightarrow> executor \<Rightarrow> maintenance_event list" where
  "drain_events take1 start finish x =
     (case ex_worker x of Waiting \<Rightarrow> [] | Claiming \<Rightarrow> [start, finish] | Running \<Rightarrow> [finish])
     @ concat (replicate (nat (ex_queued x)) [take1, start, finish])"

definition drained :: "executor \<Rightarrow> executor" where
  "drained x = x\<lparr>ex_queued := 0, ex_active := 0, ex_worker := Waiting\<rparr>"

lemma drain_one:
  assumes "ex_worker x = Waiting" "ex_active x = 0" "0 < ex_queued x"
  shows "finish_task (start_task (take_task x)) = x\<lparr>ex_queued := ex_queued x - 1\<rparr>"
  using assms by (simp add: executor_defs)

lemma drain_queue_reads:
  "ex_worker (mt_reads s) = Waiting \<Longrightarrow> ex_active (mt_reads s) = 0 \<Longrightarrow> ex_queued (mt_reads s) = int n \<Longrightarrow>
     fold maintenance_step (concat (replicate n [TakeRead, StartRead, FinishRead])) s
       = s\<lparr>mt_reads := drained (mt_reads s)\<rparr>"
proof (induction n arbitrary: s)
  case (Suc n)
  then show ?case
    using Suc.IH [of "s\<lparr>mt_reads := (mt_reads s)\<lparr>ex_queued := int n\<rparr>\<rparr>"] drain_one [of "mt_reads s"]
    by (simp add: drained_def)
qed (simp add: drained_def)

lemma drain_queue_writes:
  "ex_worker (mt_writes s) = Waiting \<Longrightarrow> ex_active (mt_writes s) = 0 \<Longrightarrow> ex_queued (mt_writes s) = int n \<Longrightarrow>
     fold maintenance_step (concat (replicate n [TakeWrite, StartWrite, FinishWrite])) s
       = s\<lparr>mt_writes := drained (mt_writes s)\<rparr>"
proof (induction n arbitrary: s)
  case (Suc n)
  then show ?case
    using Suc.IH [of "s\<lparr>mt_writes := (mt_writes s)\<lparr>ex_queued := int n\<rparr>\<rparr>"] drain_one [of "mt_writes s"]
    by (simp add: drained_def)
qed (simp add: drained_def)

lemma drain_reads:
  assumes "executor_good limit (mt_reads s)"
  shows "fold maintenance_step (drain_events TakeRead StartRead FinishRead (mt_reads s)) s
    = s\<lparr>mt_reads := drained (mt_reads s)\<rparr>"
  using assms
  by (cases "ex_worker (mt_reads s)")
     (simp_all add: drain_events_def drain_queue_reads executor_defs drained_def)

lemma drain_writes:
  assumes "executor_good limit (mt_writes s)"
  shows "fold maintenance_step (drain_events TakeWrite StartWrite FinishWrite (mt_writes s)) s
    = s\<lparr>mt_writes := drained (mt_writes s)\<rparr>"
  using assms
  by (cases "ex_worker (mt_writes s)")
     (simp_all add: drain_events_def drain_queue_writes executor_defs drained_def)

text \<open>
  Property C27. Entering Maintenance never wedges: once the executors have worked off what
  they hold, the next activity the coordinator sees completes the entry; and if the timeout
  fires first, the Host is back in normal operation with every gate open.
\<close>

theorem maintenance_entry_ends:
  assumes "mt_state (maintenance_run es) = EnteringMaintenance"
  shows "let s = maintenance_run es;
             work = drain_events TakeRead StartRead FinishRead (mt_reads s)
               @ drain_events TakeWrite StartWrite FinishWrite (mt_writes s);
             t = maintenance_step TimeoutFired s in
     mt_state (fold maintenance_step (work @ [ActivitySeen]) s) = Maintenance
     \<and> mt_state t = Normal \<and> mt_admission_open t \<and> mt_local_writes t
     \<and> ex_accepting (mt_reads t) \<and> ex_accepting (mt_writes t)"
proof -
  define s where "s = maintenance_run es"
  have good: "maintenance_good s"
    unfolding s_def by (rule maintenance.run_good [OF running_host_good])
  have "executor_good maximum_queued_mutations (mt_writes (s\<lparr>mt_reads := drained (mt_reads s)\<rparr>))"
    "executor_good maximum_queued_reads (mt_reads s)"
    using good by (simp_all add: maintenance_good_def)
  note drain = drain_reads [OF this(2)] drain_writes [OF this(1)]
  then have "mt_state (fold maintenance_step (drain_events TakeRead StartRead FinishRead (mt_reads s)
      @ drain_events TakeWrite StartWrite FinishWrite (mt_writes s) @ [ActivitySeen]) s) = Maintenance"
    using assms by (simp add: s_def [symmetric] evaluate_drain_def executor_idle_def drained_def)
  then show ?thesis
    using assms good
    by (simp add: s_def [symmetric] Let_def drain_timeout_def reopen_after_failed_entry_def open_all_def
        maintenance_good_def)
qed

theorem maintenance_entry_ends_witness:
  "mt_state (fold maintenance_step [StartWrite, FinishWrite, TakeWrite, StartWrite, FinishWrite, ActivitySeen]
     (maintenance_run [EnqueueWrite, EnqueueWrite, TakeWrite, RequestEnter 30000])) = Maintenance"
proof -
  let ?es = "[EnqueueWrite, EnqueueWrite, TakeWrite, RequestEnter 30000]"
  have entering: "mt_state (maintenance_run ?es) = EnteringMaintenance" by code_simp
  have work: "drain_events TakeRead StartRead FinishRead (mt_reads (maintenance_run ?es))
      @ drain_events TakeWrite StartWrite FinishWrite (mt_writes (maintenance_run ?es))
      = [StartWrite, FinishWrite, TakeWrite, StartWrite, FinishWrite]"
    by code_simp
  show ?thesis
    using maintenance_entry_ends [OF entering] unfolding Let_def work by simp
qed

end
