(* ===== verification/BackupPolicy.thy ===== *)
theory BackupPolicy
  imports Prelude "HOL-Library.Char_ord" "HOL-Library.List_Lexorder" "HOL-Library.Product_Lexorder"
begin

text \<open>
  When and under which names the database is backed up automatically, and which backups are
  removed again (\<open>services/database/AutomaticBackupPolicy\<close>, \<open>AutomaticBackupRetention\<close>).
  A time is a record of its calendar fields in UTC. A backup name is read back with
  \<open>QDateTime::fromString\<close>, in local time: \<open>read_local\<close> is what the time zone of the
  machine makes of the fields, \<open>None\<close> for a time its clocks skip.
\<close>

section \<open>Times\<close>

record stamp =
  yr :: nat
  mo :: nat
  dy :: nat
  hh :: nat
  mi :: nat
  ss :: nat

definition leap_year :: "nat \<Rightarrow> bool" where
  "leap_year y \<longleftrightarrow> y mod 4 = 0 \<and> (y mod 100 \<noteq> 0 \<or> y mod 400 = 0)"

definition days_in_month :: "nat \<Rightarrow> nat \<Rightarrow> nat" where
  "days_in_month y m = (if m = 2 then (if leap_year y then 29 else 28)
     else if m \<in> {4, 6, 9, 11} then 30 else 31)"

definition valid_stamp :: "stamp \<Rightarrow> bool" where
  "valid_stamp t \<longleftrightarrow> 1 \<le> yr t \<and> 1 \<le> mo t \<and> mo t \<le> 12 \<and> 1 \<le> dy t
     \<and> dy t \<le> days_in_month (yr t) (mo t) \<and> hh t < 24 \<and> mi t < 60 \<and> ss t < 60"

text \<open>\<open>addSecs (1)\<close>\<close>

definition next_second :: "stamp \<Rightarrow> stamp" where
  "next_second t =
     (if ss t < 59 then t\<lparr>ss := ss t + 1\<rparr>
      else if mi t < 59 then t\<lparr>ss := 0, mi := mi t + 1\<rparr>
      else if hh t < 23 then t\<lparr>ss := 0, mi := 0, hh := hh t + 1\<rparr>
      else if dy t < days_in_month (yr t) (mo t) then t\<lparr>ss := 0, mi := 0, hh := 0, dy := dy t + 1\<rparr>
      else if mo t < 12 then t\<lparr>ss := 0, mi := 0, hh := 0, dy := 1, mo := mo t + 1\<rparr>
      else t\<lparr>ss := 0, mi := 0, hh := 0, dy := 1, mo := 1, yr := yr t + 1\<rparr>)"

definition rank :: "stamp \<Rightarrow> nat" where
  "rank t = ((((yr t * 13 + mo t) * 32 + dy t) * 24 + hh t) * 60 + mi t) * 60 + ss t"

lemma next_second_valid: "valid_stamp t \<Longrightarrow> valid_stamp (next_second t)"
  by (auto simp: valid_stamp_def next_second_def days_in_month_def)

lemma next_second_rank: "valid_stamp t \<Longrightarrow> rank t < rank (next_second t)"
proof -
  assume v: "valid_stamp t"
  then have "dy t \<le> 31"
    by (auto simp: valid_stamp_def days_in_month_def split: if_splits)
  with v show ?thesis
    by (auto simp: valid_stamp_def next_second_def rank_def)
qed

section \<open>Policy\<close>

definition supported_frequency :: "int \<Rightarrow> bool" where
  "supported_frequency h \<longleftrightarrow> h \<in> {1, 4, 8, 16, 24, 48, 168}"

definition normalize_frequency :: "int \<Rightarrow> int" where
  "normalize_frequency h = (if supported_frequency h then h else 24)"

definition normalize_retention :: "int \<Rightarrow> int" where
  "normalize_retention n = max 1 (min n 365)"

text \<open>Times here are seconds; \<open>None\<close> is an invalid \<open>QDateTime\<close>.\<close>

definition backup_due :: "bool \<Rightarrow> string \<Rightarrow> int \<Rightarrow> int option \<Rightarrow> int option \<Rightarrow> bool" where
  "backup_due enabled root frequency last_success now =
     (case now of
        None \<Rightarrow> False
      | Some t \<Rightarrow> enabled \<and> trimmed root \<noteq> []
          \<and> (case last_success of None \<Rightarrow> True
             | Some l \<Rightarrow> t \<ge> l + normalize_frequency frequency * 60 * 60))"

definition retry_eligible :: "int \<Rightarrow> int option \<Rightarrow> int \<Rightarrow> bool" where
  "retry_eligible frequency last_attempt t =
     (let retry_hours = max 1 (min (normalize_frequency frequency) 6) in
      case last_attempt of None \<Rightarrow> True | Some l \<Rightarrow> t \<ge> l + retry_hours * 60 * 60)"

section \<open>Names of backups\<close>

definition pad :: "nat \<Rightarrow> nat \<Rightarrow> string" where
  "pad w n = replicate (w - length (digits_of n)) (CHR ''0'') @ digits_of n"

definition stamp_text :: "stamp \<Rightarrow> string" where
  "stamp_text t = pad 4 (yr t) @ ''-'' @ pad 2 (mo t) @ ''-'' @ pad 2 (dy t) @ ''_''
     @ pad 2 (hh t) @ pad 2 (mi t) @ pad 2 (ss t)"

definition backup_file_name :: "int \<Rightarrow> stamp \<Rightarrow> string" where
  "backup_file_name v t = ''BrickSuite_AutoBackup_v'' @ number_text v @ ''_'' @ stamp_text t @ ''.db''"

definition is_digit :: "char \<Rightarrow> bool" where
  "is_digit c \<longleftrightarrow> (let n = (of_char c :: nat) in 48 \<le> n \<and> n \<le> 57)"

definition number_value :: "string \<Rightarrow> nat" where
  "number_value s = foldl (\<lambda>a c. 10 * a + (of_char c - 48)) 0 s"

text \<open>
  The shape the regular expression asks of what follows the version:
  \<open>_dddd-dd-dd_dddddd.db\<close>.
\<close>

definition stamp_shape :: "string \<Rightarrow> bool" where
  "stamp_shape s \<longleftrightarrow> length s = 21
     \<and> list_all (\<lambda>i. is_digit (s ! i)) ([1..<5] @ [6..<8] @ [9..<11] @ [12..<18])
     \<and> s ! 0 = CHR ''_'' \<and> s ! 5 = CHR ''-'' \<and> s ! 8 = CHR ''-'' \<and> s ! 11 = CHR ''_''
     \<and> drop 18 s = ''.db''"

definition stamp_of_shape :: "string \<Rightarrow> stamp" where
  "stamp_of_shape s = \<lparr>yr = number_value (take 4 (drop 1 s)), mo = number_value (take 2 (drop 6 s)),
     dy = number_value (take 2 (drop 9 s)), hh = number_value (take 2 (drop 12 s)),
     mi = number_value (take 2 (drop 14 s)), ss = number_value (take 2 (drop 16 s))\<rparr>"

text \<open>\<open>$\<close> matches at the end of the name and also before a newline that ends it.\<close>

definition parse_backup_name ::
  "(stamp \<Rightarrow> stamp option) \<Rightarrow> string \<Rightarrow> (int \<times> stamp) option" where
  "parse_backup_name read_local s0 =
     (let s = (if s0 \<noteq> [] \<and> last s0 = CHR 0x0A then butlast s0 else s0);
          prefix = ''BrickSuite_AutoBackup_v'';
          rest = drop (length prefix) s;
          version = takeWhile is_digit rest;
          tail = drop (length version) rest in
      if take (length prefix) s \<noteq> prefix \<or> version = [] \<or> \<not> stamp_shape tail then None
      else
        let v = int (number_value version); t = stamp_of_shape tail in
        if v > int_max \<or> v < 1 \<or> \<not> valid_stamp t then None
        else case read_local t of None \<Rightarrow> None | Some u \<Rightarrow> Some (v, u))"

definition is_retention_candidate :: "(stamp \<Rightarrow> stamp option) \<Rightarrow> string \<Rightarrow> int \<Rightarrow> bool" where
  "is_retention_candidate read_local name v =
     (case parse_backup_name read_local name of None \<Rightarrow> False | Some (w, _) \<Rightarrow> w = v)"

section \<open>Digits\<close>

lemma of_char_digit: "n < 10 \<Longrightarrow> (of_char (char_of (48 + n)) :: nat) = 48 + n"
  by simp

lemma number_value_snoc: "number_value (s @ [c]) = 10 * number_value s + (of_char c - 48)"
  by (simp add: number_value_def)

lemma number_value_digits [simp]: "number_value (digits_of n) = n"
proof (induction n rule: digits_of.induct)
  case (1 n)
  show ?case
  proof (cases "n < 10")
    case True
    then show ?thesis by (subst digits_of.simps) (simp add: number_value_def)
  next
    case False
    then show ?thesis
      using 1 by (subst digits_of.simps) (simp add: number_value_snoc)
  qed
qed

lemma digits_are_digits: "list_all is_digit (digits_of n)"
proof (induction n rule: digits_of.induct)
  case (1 n)
  have "is_digit (char_of (48 + m))" if "m < 10" for m :: nat
    using that by (simp add: is_digit_def Let_def)
  with 1 show ?case by (subst digits_of.simps) auto
qed

lemma digits_not_empty [simp]: "digits_of n \<noteq> []"
  by (subst digits_of.simps) simp

lemma length_digits: "n < 10 ^ Suc w \<Longrightarrow> length (digits_of n) \<le> Suc w"
proof (induction w arbitrary: n)
  case 0
  then show ?case by (subst digits_of.simps) simp
next
  case (Suc w)
  show ?case
  proof (cases "n < 10")
    case True
    then show ?thesis by (subst digits_of.simps) simp
  next
    case False
    have "n div 10 < 10 ^ Suc w" using Suc.prems by (simp add: less_mult_imp_div_less)
    from Suc.IH [OF this] show ?thesis using False by (subst digits_of.simps) simp
  qed
qed

lemma zeros_value: "number_value (replicate k (CHR ''0'') @ s) = number_value s"
  by (induction k) (simp_all add: number_value_def)

lemma number_value_pad [simp]: "number_value (pad w n) = n"
  by (simp add: pad_def zeros_value)

lemma pad_digits: "list_all is_digit (pad w n)"
  using digits_are_digits [of n] by (auto simp: pad_def list_all_iff is_digit_def)

lemma length_pad2: "n < 100 \<Longrightarrow> length (pad 2 n) = 2"
  using length_digits [of n 1] by (simp add: pad_def)

lemma length_pad4: "n < 10000 \<Longrightarrow> length (pad 4 n) = 4"
  using length_digits [of n 3] by (simp add: pad_def)

lemma pad_not_empty: "pad w n \<noteq> []"
  by (simp add: pad_def)

lemma two: "length s = 2 \<Longrightarrow> \<exists>a b. s = [a, b]"
  by (auto simp: length_Suc_conv numeral_2_eq_2)

lemma four: "length s = 4 \<Longrightarrow> \<exists>a b c d. s = [a, b, c, d]"
  by (auto simp: length_Suc_conv numeral_eq_Suc)

lemma valid_fields:
  "valid_stamp t \<Longrightarrow> mo t < 100 \<and> dy t < 100 \<and> hh t < 100 \<and> mi t < 100 \<and> ss t < 100"
  by (auto simp: valid_stamp_def days_in_month_def split: if_splits)

lemma stamp_text_shape:
  assumes "valid_stamp t" "yr t < 10000"
  shows "stamp_shape (''_'' @ stamp_text t @ ''.db'') \<and> stamp_of_shape (''_'' @ stamp_text t @ ''.db'') = t"
proof -
  note small = valid_fields [OF assms(1)]
  obtain y1 y2 y3 y4 where y: "pad 4 (yr t) = [y1, y2, y3, y4]"
    using four [OF length_pad4 [OF assms(2)]] by blast
  obtain a1 a2 where a: "pad 2 (mo t) = [a1, a2]" using two [OF length_pad2] small by blast
  obtain b1 b2 where b: "pad 2 (dy t) = [b1, b2]" using two [OF length_pad2] small by blast
  obtain c1 c2 where c: "pad 2 (hh t) = [c1, c2]" using two [OF length_pad2] small by blast
  obtain d1 d2 where d: "pad 2 (mi t) = [d1, d2]" using two [OF length_pad2] small by blast
  obtain e1 e2 where e: "pad 2 (ss t) = [e1, e2]" using two [OF length_pad2] small by blast
  have digits: "is_digit y1" "is_digit y2" "is_digit y3" "is_digit y4" "is_digit a1" "is_digit a2"
    "is_digit b1" "is_digit b2" "is_digit c1" "is_digit c2" "is_digit d1" "is_digit d2"
    "is_digit e1" "is_digit e2"
    using pad_digits [of 4 "yr t"] pad_digits [of 2 "mo t"] pad_digits [of 2 "dy t"]
      pad_digits [of 2 "hh t"] pad_digits [of 2 "mi t"] pad_digits [of 2 "ss t"]
    by (simp_all add: y a b c d e)
  have numbers: "number_value [y1, y2, y3, y4] = yr t" "number_value [a1, a2] = mo t"
    "number_value [b1, b2] = dy t" "number_value [c1, c2] = hh t" "number_value [d1, d2] = mi t"
    "number_value [e1, e2] = ss t"
    using number_value_pad [of 4 "yr t"] number_value_pad [of 2 "mo t"] number_value_pad [of 2 "dy t"]
      number_value_pad [of 2 "hh t"] number_value_pad [of 2 "mi t"] number_value_pad [of 2 "ss t"]
    by (simp_all only: y a b c d e)
  have shown: "''_'' @ stamp_text t @ ''.db'' = [CHR ''_'', y1, y2, y3, y4, CHR ''-'', a1, a2, CHR ''-'',
      b1, b2, CHR ''_'', c1, c2, d1, d2, e1, e2, CHR ''.'', CHR ''d'', CHR ''b'']"
    by (simp add: stamp_text_def y a b c d e)
  show ?thesis
    unfolding shown using digits
    by (simp add: stamp_shape_def stamp_of_shape_def numbers upt_rec)
qed

section \<open>Names read back\<close>

lemma takeWhile_stop: "list_all P xs \<Longrightarrow> \<not> P y \<Longrightarrow> takeWhile P (xs @ y # zs) = xs"
  by (induction xs) auto

lemma number_text_nat: "0 \<le> v \<Longrightarrow> number_text v = digits_of (nat v)"
  by (simp add: number_text_def)

lemma last_append_db: "last (xs @ ''.db'') = CHR ''b''"
  by simp

text \<open>
  A name made for a backup is read back as the schema version and the time it
  was made from, whenever the machine's time zone has that time.
\<close>

theorem backup_name_reads_back:
  assumes "valid_stamp t" "yr t < 10000" "1 \<le> v" "v \<le> int_max" "read_local t = Some t"
  shows "parse_backup_name read_local (backup_file_name v t) = Some (v, t)
    \<and> (is_retention_candidate read_local (backup_file_name v t) w \<longleftrightarrow> w = v)"
proof -
  define prefix where "prefix = ''BrickSuite_AutoBackup_v''"
  define rest where "rest = ''_'' @ stamp_text t @ ''.db''"
  have name: "backup_file_name v t = prefix @ digits_of (nat v) @ rest"
    using assms(3) by (simp add: backup_file_name_def number_text_nat prefix_def rest_def)
  have end_of: "last (prefix @ digits_of (nat v) @ rest) \<noteq> CHR 0x0A"
    by (simp add: rest_def)
  have version: "takeWhile is_digit (digits_of (nat v) @ rest) = digits_of (nat v)"
    using takeWhile_stop [OF digits_are_digits, of "CHR ''_''" "nat v" "stamp_text t @ ''.db''"]
    by (simp add: rest_def is_digit_def)
  have shape: "stamp_shape rest" "stamp_of_shape rest = t"
    using stamp_text_shape [OF assms(1,2)] by (simp_all add: rest_def)
  have "parse_backup_name read_local (prefix @ digits_of (nat v) @ rest) = Some (v, t)"
    unfolding parse_backup_name_def prefix_def [symmetric] Let_def
    using assms end_of shape by (simp add: version)
  then show ?thesis
    by (auto simp: name is_retention_candidate_def)
qed

theorem backup_name_reads_back_witness:
  "parse_backup_name Some (backup_file_name 7 \<lparr>yr = 2026, mo = 2, dy = 28, hh = 23, mi = 59, ss = 5\<rparr>)
     = Some (7, \<lparr>yr = 2026, mo = 2, dy = 28, hh = 23, mi = 59, ss = 5\<rparr>)"
proof -
  define t where "t = \<lparr>yr = 2026, mo = 2, dy = 28, hh = 23, mi = 59, ss = 5\<rparr>"
  have "valid_stamp t" "yr t < 10000"
    by (simp_all add: t_def valid_stamp_def days_in_month_def leap_year_def)
  then show ?thesis
    using backup_name_reads_back [of t 7 Some 7] by (simp add: t_def [symmetric] int_max_def)
qed

text \<open>
  The names carry UTC times and are read back in local time: a backup made at a time that the
  local clocks skip is not recognised, and no retention ever removes it.
\<close>

theorem backup_in_skipped_hour_unknown:
  "read_local t = None \<Longrightarrow> valid_stamp t \<Longrightarrow> yr t < 10000 \<Longrightarrow> 1 \<le> v \<Longrightarrow> v \<le> int_max
   \<Longrightarrow> \<not> is_retention_candidate read_local (backup_file_name v t) v"
proof -
  assume skipped: "read_local t = None" and t: "valid_stamp t" "yr t < 10000" and v: "1 \<le> v"
  have "takeWhile is_digit (digits_of (nat v) @ ''_'' @ stamp_text t @ ''.db'') = digits_of (nat v)"
    using takeWhile_stop [OF digits_are_digits, of "CHR ''_''" "nat v" "stamp_text t @ ''.db''"]
    by (simp add: is_digit_def)
  then show ?thesis
    using v skipped conjunct2 [OF stamp_text_shape [OF t]]
    by (simp add: is_retention_candidate_def parse_backup_name_def backup_file_name_def
        number_text_nat Let_def)
qed

section \<open>A name that is not used yet\<close>

partial_function (option) unused_backup_name ::
  "(string \<Rightarrow> bool) \<Rightarrow> int \<Rightarrow> stamp \<Rightarrow> string option" where
  "unused_backup_name exists v candidate =
     (let name = backup_file_name v candidate in
      if exists name then unused_backup_name exists v (next_second candidate) else Some name)"

lemma split_at_dash:
  assumes "list_all is_digit a" "list_all is_digit b" "a @ CHR ''-'' # x = b @ CHR ''-'' # y"
  shows "a = b \<and> x = y"
proof -
  have "\<not> is_digit (CHR ''-'')" by (simp add: is_digit_def)
  then show ?thesis
    using takeWhile_stop [OF assms(1), of "CHR ''-''" x] takeWhile_stop [OF assms(2), of "CHR ''-''" y]
      assms(3) by simp
qed

lemma pad_inj: "pad w a = pad w b \<Longrightarrow> a = b"
  by (drule arg_cong [of _ _ number_value]) simp

lemma stamp_text_inj:
  assumes "valid_stamp t" "valid_stamp u" "stamp_text t = stamp_text u"
  shows "t = u"
proof -
  note small = valid_fields [OF assms(1)] valid_fields [OF assms(2)]
  have split: "pad 4 (yr t) = pad 4 (yr u)
    \<and> pad 2 (mo t) @ ''-'' @ pad 2 (dy t) @ ''_'' @ pad 2 (hh t) @ pad 2 (mi t) @ pad 2 (ss t)
      = pad 2 (mo u) @ ''-'' @ pad 2 (dy u) @ ''_'' @ pad 2 (hh u) @ pad 2 (mi u) @ pad 2 (ss u)"
    using split_at_dash [OF pad_digits [of 4 "yr t"] pad_digits [of 4 "yr u"]] assms(3)
    by (simp add: stamp_text_def)
  then have "pad 2 (mo t) = pad 2 (mo u)" "pad 2 (dy t) = pad 2 (dy u)" "pad 2 (hh t) = pad 2 (hh u)"
    "pad 2 (mi t) = pad 2 (mi u)" "pad 2 (ss t) = pad 2 (ss u)"
    using small by (simp_all add: length_pad2)
  with split have "yr t = yr u" "mo t = mo u" "dy t = dy u" "hh t = hh u" "mi t = mi u" "ss t = ss u"
    by (auto dest: pad_inj)
  then show ?thesis by simp
qed

lemma backup_file_name_inj:
  "valid_stamp t \<Longrightarrow> valid_stamp u \<Longrightarrow> backup_file_name v t = backup_file_name v u \<Longrightarrow> t = u"
  by (simp add: backup_file_name_def stamp_text_inj)

lemma later_valid: "valid_stamp t \<Longrightarrow> valid_stamp ((next_second ^^ n) t)"
  by (induction n) (simp_all add: next_second_valid)

lemma later_rank: "valid_stamp t \<Longrightarrow> rank t + n \<le> rank ((next_second ^^ n) t)"
proof (induction n)
  case (Suc n)
  then show ?case
    using next_second_rank [OF later_valid [OF Suc.prems, of n]] by simp
qed simp

lemma later_inj: "valid_stamp t \<Longrightarrow> inj (\<lambda>n. (next_second ^^ n) t)"
proof -
  assume v: "valid_stamp t"
  have less: "rank ((next_second ^^ i) t) < rank ((next_second ^^ j) t)" if "i < j" for i j
  proof -
    from that obtain d where j: "j = Suc d + i" using less_iff_Suc_add by (metis add.commute add_Suc_right)
    show ?thesis
      using later_rank [OF later_valid [OF v, of i], of "Suc d"] by (simp only: j funpow_add comp_apply)
  qed
  show ?thesis
    by (rule injI) (metis less linorder_neq_iff)
qed

lemma unused_after:
  "\<forall>k<n. exists (backup_file_name v ((next_second ^^ k) t)) \<Longrightarrow>
   unused_backup_name exists v t = unused_backup_name exists v ((next_second ^^ n) t)"
proof (induction n)
  case (Suc n)
  then have "unused_backup_name exists v t = unused_backup_name exists v ((next_second ^^ n) t)" by simp
  also have "\<dots> = unused_backup_name exists v ((next_second ^^ Suc n) t)"
    using Suc.prems by (subst unused_backup_name.simps) (simp add: Let_def)
  finally show ?case .
qed simp

text \<open>
  With finitely many files in the directory the search for an unused name ends:
  it returns the name of the first second from the given one on that no file has.
\<close>

theorem unused_backup_name_found:
  assumes "valid_stamp t" "finite {name. exists name}"
  shows "\<exists>n. unused_backup_name exists v t = Some (backup_file_name v ((next_second ^^ n) t))
    \<and> (\<forall>k. exists (backup_file_name v ((next_second ^^ k) t)) \<longrightarrow> k \<noteq> n)
    \<and> (\<forall>k<n. exists (backup_file_name v ((next_second ^^ k) t)))"
proof -
  let ?name = "\<lambda>n. backup_file_name v ((next_second ^^ n) t)"
  have "inj ?name"
  proof (rule injI)
    fix i j assume "?name i = ?name j"
    then have "(next_second ^^ i) t = (next_second ^^ j) t"
      using backup_file_name_inj later_valid [OF assms(1)] by blast
    then show "i = j" by (rule injD [OF later_inj [OF assms(1)]])
  qed
  then have "infinite (range ?name)" using finite_imageD [of ?name UNIV] by auto
  then have "\<not> range ?name \<subseteq> {name. exists name}" using assms(2) finite_subset by blast
  then have "\<exists>n. \<not> exists (?name n)" by auto
  then obtain n where n: "\<not> exists (?name n)" and before: "\<forall>k<n. exists (?name k)"
    using exists_least_iff [of "\<lambda>n. \<not> exists (?name n)"] by auto
  have "unused_backup_name exists v t = Some (?name n)"
    using n by (subst unused_after [OF before], subst unused_backup_name.simps) (simp add: Let_def)
  with n before show ?thesis by blast
qed

theorem unused_backup_name_found_witness:
  "\<exists>n. unused_backup_name (\<lambda>x. x = backup_file_name 7 \<lparr>yr = 2026, mo = 12, dy = 31, hh = 23, mi = 59, ss = 59\<rparr>)
        7 \<lparr>yr = 2026, mo = 12, dy = 31, hh = 23, mi = 59, ss = 59\<rparr>
      = Some (backup_file_name 7 ((next_second ^^ n) \<lparr>yr = 2026, mo = 12, dy = 31, hh = 23, mi = 59, ss = 59\<rparr>))"
proof -
  define t where "t = \<lparr>yr = 2026, mo = 12, dy = 31, hh = 23, mi = 59, ss = 59\<rparr>"
  have "valid_stamp t" by (simp add: t_def valid_stamp_def days_in_month_def)
  then show ?thesis
    using unused_backup_name_found [of t "\<lambda>x. x = backup_file_name 7 t" 7] by (auto simp: t_def [symmetric])
qed

section \<open>Retention\<close>

record backup_candidate =
  cand_path :: string
  cand_name :: string
  cand_stamp :: stamp

record retention_result =
  ret_success :: bool
  ret_error :: "string option"
  ret_removed :: "string list"

definition stamp_key :: "stamp \<Rightarrow> nat \<times> nat \<times> nat \<times> nat \<times> nat \<times> nat" where
  "stamp_key t = (yr t, mo t, dy t, hh t, mi t, ss t)"

definition candidate_key :: "backup_candidate \<Rightarrow> (nat \<times> nat \<times> nat \<times> nat \<times> nat \<times> nat) \<times> string" where
  "candidate_key c = (stamp_key (cand_stamp c), cand_name c)"

text \<open>
  \<open>files\<close> are the names in the version directory. \<open>remover\<close> is the environment:
  whether the removal of a path succeeds.
\<close>

definition backup_candidates ::
  "(stamp \<Rightarrow> stamp option) \<Rightarrow> string \<Rightarrow> string list \<Rightarrow> int \<Rightarrow> backup_candidate list" where
  "backup_candidates read_local dir files v =
     List.map_filter (\<lambda>name. case parse_backup_name read_local name of
         None \<Rightarrow> None
       | Some (w, t) \<Rightarrow> if w \<noteq> v then None
           else Some \<lparr>cand_path = dir @ ''/'' @ name, cand_name = name, cand_stamp = t\<rparr>) files"

fun remove_excess ::
  "(string \<Rightarrow> bool) \<Rightarrow> string \<Rightarrow> int \<Rightarrow> backup_candidate list \<Rightarrow> retention_result \<Rightarrow> retention_result" where
  "remove_excess remover protected excess [] r = r"
| "remove_excess remover protected excess (c # cs) r =
     (if excess \<le> 0 then r
      else if cand_path c = protected then remove_excess remover protected excess cs r
      else if \<not> remover (cand_path c) then r\<lparr>ret_success := False, ret_error := Some (cand_path c)\<rparr>
      else remove_excess remover protected (excess - 1) cs
        (r\<lparr>ret_removed := ret_removed r @ [cand_path c]\<rparr>))"

definition clean_backups ::
  "(stamp \<Rightarrow> stamp option) \<Rightarrow> (string \<Rightarrow> bool) \<Rightarrow> string \<Rightarrow> string list \<Rightarrow> int \<Rightarrow> int \<Rightarrow> string
   \<Rightarrow> retention_result" where
  "clean_backups read_local remover dir files v count protected =
     (let candidates = sort_key candidate_key (backup_candidates read_local dir files v) in
      remove_excess remover protected (int (length candidates) - normalize_retention count) candidates
        \<lparr>ret_success = True, ret_error = None, ret_removed = []\<rparr>)"

lemma remove_excess_removed:
  "ret_removed (remove_excess remover protected excess cs r) = ret_removed r
     @ takeWhile remover (take (nat excess) (filter (\<lambda>p. p \<noteq> protected) (map cand_path cs)))"
proof (induction cs arbitrary: excess r)
  case (Cons c cs)
  have "0 < excess \<Longrightarrow> nat excess = Suc (nat (excess - 1))" by simp
  with Cons show ?case by (cases "excess \<le> 0") simp_all
qed simp

lemma remove_excess_success:
  "ret_success r \<Longrightarrow> ret_success (remove_excess remover protected excess cs r)
     = list_all remover (take (nat excess) (filter (\<lambda>p. p \<noteq> protected) (map cand_path cs)))"
proof (induction cs arbitrary: excess r)
  case (Cons c cs)
  have "0 < excess \<Longrightarrow> nat excess = Suc (nat (excess - 1))" by simp
  with Cons show ?case by (cases "excess \<le> 0") simp_all
qed simp

lemma backup_candidates_paths:
  "distinct files \<Longrightarrow> distinct (map cand_path (backup_candidates read_local dir files v))"
proof (induction files)
  case (Cons f fs)
  have "cand_name c \<in> set fs \<and> cand_path c = dir @ ''/'' @ cand_name c"
    if "c \<in> set (backup_candidates read_local dir fs v)" for c
    using that by (auto simp: backup_candidates_def List.map_filter_def split: option.splits if_splits)
  with Cons show ?case
    by (force simp: backup_candidates_def map_filter_simps split: option.splits)
qed (simp add: backup_candidates_def map_filter_simps)

lemma prefix_is_smallest:
  assumes "sorted (map key cs)" "i < length cs" "j < length cs" "i \<le> j"
  shows "key (cs ! i) \<le> key (cs ! j)"
  using sorted_nth_mono [OF assms(1,4)] assms(2,3) by simp

lemma filtered_prefix_smallest:
  assumes "sorted (map key cs)" "distinct cs" "c \<in> set (take n (filter P cs))" "d \<in> set (filter P cs)"
    "d \<notin> set (take n (filter P cs))"
  shows "key c \<le> key d"
proof -
  let ?fs = "filter P cs"
  have "sorted (map key ?fs)" using assms(1) by (rule sorted_filter)
  then have "sorted (map key (take n ?fs) @ map key (drop n ?fs))"
    by (metis append_take_drop_id map_append)
  moreover have "d \<in> set (drop n ?fs)"
    using assms(4,5) by (metis Un_iff append_take_drop_id set_append)
  ultimately show ?thesis using assms(3) by (auto simp: sorted_append)
qed

lemma filter_paths:
  "filter (\<lambda>p. p \<noteq> x) (map cand_path cs) = map cand_path (filter (\<lambda>c. cand_path c \<noteq> x) cs)"
  by (simp add: filter_map comp_def)

lemma takeWhile_take: "\<exists>m. takeWhile P (take n xs) = take m xs"
proof -
  have "takeWhile P (take n xs) = take (length (takeWhile P (take n xs))) (take n xs)"
    by (metis takeWhile_eq_take)
  then show ?thesis by (metis take_take)
qed

lemma length_filter_path:
  "distinct (map cand_path cs) \<Longrightarrow> length cs \<le> Suc (length (filter (\<lambda>c. cand_path c \<noteq> x) cs))"
proof (induction cs)
  case (Cons c cs)
  have "filter (\<lambda>c. cand_path c \<noteq> x) cs = cs" if "cand_path c = x"
    using that Cons.prems by (auto simp: filter_id_conv image_iff)
  with Cons show ?case by (cases "cand_path c = x") simp_all
qed simp

text \<open>
  Property C29. Retention removes only backups of the version, never the protected one, oldest
  first, and never leaves fewer than the configured number of those there were; it reports
  success exactly when that many are left.
\<close>

theorem retention_removes_oldest:
  assumes "distinct files"
  shows "let r = clean_backups read_local remover dir files v count protected;
      cs = backup_candidates read_local dir files v;
      target = min (length cs) (nat (normalize_retention count)) in
    protected \<notin> set (ret_removed r)
    \<and> set (ret_removed r) \<subseteq> {p. remover p} \<inter> cand_path ` set cs
    \<and> (ret_success r \<longleftrightarrow> length cs - length (ret_removed r) = target)
    \<and> target \<le> length cs - length (ret_removed r)
    \<and> (\<forall>c\<in>set cs. \<forall>d\<in>set cs. cand_path c \<in> set (ret_removed r) \<longrightarrow> cand_path d \<notin> set (ret_removed r)
         \<longrightarrow> cand_path d \<noteq> protected \<longrightarrow> candidate_key c \<le> candidate_key d)"
proof -
  define cs where "cs = backup_candidates read_local dir files v"
  define sorted_cs where "sorted_cs = sort_key candidate_key cs"
  define free where "free = filter (\<lambda>c. cand_path c \<noteq> protected) sorted_cs"
  define excess where "excess = nat (int (length cs) - normalize_retention count)"
  define r where "r = clean_backups read_local remover dir files v count protected"
  have paths: "distinct (map cand_path sorted_cs)"
    using backup_candidates_paths [OF assms] by (auto simp: sorted_cs_def cs_def distinct_map)
  have removed: "ret_removed r = takeWhile remover (take excess (map cand_path free))"
    by (simp add: r_def clean_backups_def Let_def remove_excess_removed filter_paths excess_def
        free_def sorted_cs_def cs_def)
  have success: "ret_success r = list_all remover (take excess (map cand_path free))"
    by (simp add: r_def clean_backups_def Let_def remove_excess_success filter_paths excess_def
        free_def sorted_cs_def cs_def)
  have one: "1 \<le> normalize_retention count" by (simp add: normalize_retention_def)
  have "length cs \<le> Suc (length free)"
    using length_filter_path [OF paths, of protected] by (simp add: free_def sorted_cs_def)
  with one have len: "length (take excess (map cand_path free)) = excess" by (simp add: excess_def)
  have excess: "length cs - excess = min (length cs) (nat (normalize_retention count))" "excess \<le> length cs"
    using one by (auto simp: excess_def)
  have at_most: "length (ret_removed r) \<le> excess"
    unfolding removed using length_takeWhile_le [of remover] len by metis
  have "length (ret_removed r) = excess \<longleftrightarrow> ret_success r"
    unfolding removed success using len
    by (metis list_all_iff takeWhile_eq_all_conv takeWhile_eq_take take_all_iff order_refl)
  with at_most excess have count: "ret_success r \<longleftrightarrow> length cs - length (ret_removed r)
      = min (length cs) (nat (normalize_retention count))"
    by linarith
  have free_set: "set free = {c \<in> set cs. cand_path c \<noteq> protected}"
    by (auto simp: free_def sorted_cs_def)
  have subset: "set (ret_removed r) \<subseteq> {p. remover p} \<inter> cand_path ` set free"
    unfolding removed by (auto dest!: set_takeWhileD in_set_takeD)
  obtain m where m: "ret_removed r = map cand_path (take m free)"
    using takeWhile_take [of remover excess "map cand_path free"] by (auto simp: removed take_map)
  have "candidate_key c \<le> candidate_key d"
    if "c \<in> set cs" "d \<in> set cs" "cand_path c \<in> set (ret_removed r)" "cand_path d \<notin> set (ret_removed r)"
      "cand_path d \<noteq> protected" for c d
  proof -
    from that(3) obtain e where e: "e \<in> set (take m free)" "cand_path e = cand_path c"
      by (auto simp: m)
    then have "e \<in> set cs" using free_set by (auto dest: in_set_takeD)
    with e that(1) paths have "c \<in> set (take m free)"
      by (auto simp: distinct_map sorted_cs_def dest: inj_onD)
    moreover have "d \<in> set free" using that(2,5) free_set by simp
    moreover have "d \<notin> set (take m free)" using that(4) by (auto simp: m)
    ultimately show ?thesis
      using filtered_prefix_smallest [of candidate_key sorted_cs c m] paths
      by (auto simp: free_def distinct_map sorted_cs_def)
  qed
  then show ?thesis
    using subset free_set count at_most excess
    by (auto simp: Let_def r_def [symmetric] cs_def [symmetric])
qed

theorem retention_removes_oldest_witness:
  "let a = backup_file_name 7 \<lparr>yr = 2026, mo = 2, dy = 28, hh = 23, mi = 59, ss = 5\<rparr>;
       b = backup_file_name 7 \<lparr>yr = 2026, mo = 3, dy = 1, hh = 0, mi = 0, ss = 0\<rparr>;
       r = clean_backups Some (\<lambda>p. True) ''d'' [b, a, ''notes.txt''] 7 1 (''d/'' @ b) in
    length (backup_candidates Some ''d'' [b, a, ''notes.txt''] 7) = 2
    \<and> ''d/'' @ b \<notin> set (ret_removed r) \<and> length (ret_removed r) \<le> 1"
proof -
  define t where "t = \<lparr>yr = 2026, mo = 2, dy = 28, hh = 23, mi = 59, ss = 5\<rparr>"
  define u where "u = \<lparr>yr = 2026, mo = 3, dy = 1, hh = 0, mi = 0, ss = 0\<rparr>"
  have v: "valid_stamp t" "yr t < 10000" "valid_stamp u" "yr u < 10000" "t \<noteq> u"
    by (simp_all add: t_def u_def valid_stamp_def days_in_month_def leap_year_def)
  have read: "parse_backup_name Some (backup_file_name 7 t) = Some (7, t)"
    "parse_backup_name Some (backup_file_name 7 u) = Some (7, u)"
    "parse_backup_name Some ''notes.txt'' = None"
    using backup_name_reads_back [of t 7 Some 7] backup_name_reads_back [of u 7 Some 7] v
    by (simp_all add: int_max_def parse_backup_name_def)
  have ne: "backup_file_name 7 t \<noteq> backup_file_name 7 u" using backup_file_name_inj v by metis
  have other: "backup_file_name 7 t \<noteq> ''notes.txt''" "backup_file_name 7 u \<noteq> ''notes.txt''"
    using read by auto
  show ?thesis
    unfolding t_def [symmetric] u_def [symmetric]
    using retention_removes_oldest [of "[backup_file_name 7 u, backup_file_name 7 t, ''notes.txt'']"
        Some "\<lambda>p. True" "''d''" 7 1 "''d/'' @ backup_file_name 7 u"] ne other
    apply (simp add: Let_def backup_candidates_def map_filter_simps read normalize_retention_def)
    apply (elim conjE, linarith)
    done
qed

end
