(* ===== verification/Json.thy ===== *)
theory Json
  imports Complex_Main
begin

text \<open>
  JSON values as Qt keeps them (\<open>QJsonValue\<close>): the documents of the paired-device registry and
  the payloads of the network messages. Numbers are doubles, here the rationals they stand for;
  an object is its fields, and the texts of the documents are not modelled.
\<close>

datatype json =
    JNull
  | JBool bool
  | JNumber rat
  | JString string
  | JArray "json list"
  | JObject "(string \<times> json) list"

text \<open>The field of an object; a missing one has no value of any type (\<open>Undefined\<close>).\<close>

definition field :: "string \<Rightarrow> (string \<times> json) list \<Rightarrow> json option" where
  "field k fields = map_of fields k"

text \<open>The readers with the defaults Qt gives for a value of another type.\<close>

fun to_text :: "json option \<Rightarrow> string" where
  "to_text (Some (JString s)) = s"
| "to_text _ = []"

fun to_flag :: "bool \<Rightarrow> json option \<Rightarrow> bool" where
  "to_flag d (Some (JBool b)) = b"
| "to_flag d _ = d"

definition is_integer :: "rat \<Rightarrow> bool" where
  "is_integer x \<longleftrightarrow> of_int \<lfloor>x\<rfloor> = x"

fun to_int :: "int \<Rightarrow> json option \<Rightarrow> int" where
  "to_int d (Some (JNumber x)) =
     (if is_integer x \<and> - 2147483648 \<le> x \<and> x \<le> 2147483647 then \<lfloor>x\<rfloor> else d)"
| "to_int d _ = d"

lemma is_integer_of_int [simp]: "is_integer (of_int i)"
  by (simp add: is_integer_def)

lemma is_integer_numeral [simp]: "is_integer (numeral n)" "is_integer 1" "is_integer 0"
  using is_integer_of_int [of "numeral n"] is_integer_of_int [of 1] is_integer_of_int [of 0] by simp_all

lemma field_simps [simp]:
  "field k [] = None" "field k ((k', v) # fs) = (if k = k' then Some v else field k fs)"
  by (simp_all add: field_def)

end
