(* ===== verification/DeviceRegistry.thy ===== *)
theory DeviceRegistry
  imports Prelude Json Machines
begin

text \<open>
  The devices paired with a Host: their registry and its file (\<open>network/PairedDeviceRegistry\<close>),
  their pairing by a code (\<open>network/BrickSuitePairingService\<close>), their revocation
  (\<open>network/PairedDeviceAdministrationService\<close>), and the part of the server
  (\<open>network/BrickSuiteWebSocketServer\<close>) that decides with them who is authenticated and whose
  requests are served.

  Saving the registry and writing, removing or reading a credential each consume an entry of
  \<open>hst_faults\<close>, and \<open>True\<close> makes the operation fail without effect; an exhausted list fails
  nothing. The file is replaced in one step (\<open>QSaveFile\<close>). Times are milliseconds; the texts of
  times are what the clock gives, and \<open>readable\<close> says which of them \<open>QDateTime::fromString\<close> reads.
\<close>

section \<open>State\<close>

record device =
  dev_id :: string
  dev_name :: string
  dev_first :: string
  dev_seen :: string
  dev_version :: string
  dev_platform :: string
  dev_reference :: string
  dev_active :: bool

datatype registry_file = NoFile | Unopenable | NotJson | Document json

record pairing_attempt =
  att_active :: bool
  att_code :: string
  att_expires :: int
  att_failures :: int
  att_retry :: "int option"

record host_session =
  ses_socket :: nat
  ses_authenticated :: bool
  ses_device :: string
  ses_closing :: bool

record device_host =
  hst_devices :: "device list"
  hst_available :: bool
  hst_file :: registry_file
  hst_credentials :: "string \<rightharpoonup> string"
  hst_attempt :: pairing_attempt
  hst_sessions :: "host_session list"
  hst_faults :: "bool list"

definition fallible :: "device_host \<Rightarrow> bool \<times> device_host" where
  "fallible h = (hst_faults h = [] \<or> \<not> hd (hst_faults h), h\<lparr>hst_faults := tl (hst_faults h)\<rparr>)"

section \<open>The registry file\<close>

definition registry_version :: int where
  "registry_version = 1"

definition hex_digit :: "char \<Rightarrow> bool" where
  "hex_digit c \<longleftrightarrow> (let n = (of_char c :: nat) in
     (48 \<le> n \<and> n \<le> 57) \<or> (65 \<le> n \<and> n \<le> 70) \<or> (97 \<le> n \<and> n \<le> 102))"

text \<open>The texts a \<open>QUuid\<close> that is not null writes without braces, in either case.\<close>

definition valid_uuid :: "string \<Rightarrow> bool" where
  "valid_uuid s \<longleftrightarrow> length s = 36
     \<and> list_all (\<lambda>(i, c). if i \<in> {8, 13, 18, 23} then c = CHR ''-'' else hex_digit c) (enumerate 0 s)
     \<and> list_ex (\<lambda>c. c \<noteq> CHR ''0'' \<and> c \<noteq> CHR ''-'') s"

definition device_json :: "device \<Rightarrow> json" where
  "device_json r = JObject [
     (''deviceId'', JString (dev_id r)), (''friendlyName'', JString (dev_name r)),
     (''firstPairedUtc'', JString (dev_first r)), (''lastSeenUtc'', JString (dev_seen r)),
     (''clientVersion'', JString (dev_version r)), (''platform'', JString (dev_platform r)),
     (''credentialReference'', JString (dev_reference r)), (''active'', JBool (dev_active r))]"

definition registry_document :: "device list \<Rightarrow> json" where
  "registry_document ds =
     JObject [(''version'', JNumber (of_int registry_version)), (''devices'', JArray (map device_json ds))]"

definition device_of_fields :: "(string \<times> json) list \<Rightarrow> device" where
  "device_of_fields f = \<lparr>dev_id = to_text (field ''deviceId'' f), dev_name = to_text (field ''friendlyName'' f),
     dev_first = to_text (field ''firstPairedUtc'' f), dev_seen = to_text (field ''lastSeenUtc'' f),
     dev_version = to_text (field ''clientVersion'' f), dev_platform = to_text (field ''platform'' f),
     dev_reference = to_text (field ''credentialReference'' f), dev_active = to_flag True (field ''active'' f)\<rparr>"

definition device_ok :: "(string \<Rightarrow> bool) \<Rightarrow> device \<Rightarrow> bool" where
  "device_ok readable r \<longleftrightarrow> valid_uuid (dev_id r) \<and> dev_name r \<noteq> [] \<and> length (dev_name r) \<le> 80
     \<and> dev_reference r \<noteq> [] \<and> readable (dev_first r)"

fun read_devices :: "(string \<Rightarrow> bool) \<Rightarrow> json list \<Rightarrow> string list \<Rightarrow> device list option" where
  "read_devices readable [] ids = Some []"
| "read_devices readable (JObject f # vs) ids =
     (let r = device_of_fields f in
      if \<not> device_ok readable r \<or> dev_id r \<in> set ids then None
      else map_option (Cons r) (read_devices readable vs (dev_id r # ids)))"
| "read_devices readable (_ # vs) ids = None"

fun read_registry :: "(string \<Rightarrow> bool) \<Rightarrow> json \<Rightarrow> device list option" where
  "read_registry readable (JObject f) =
     (if to_int (- 1) (field ''version'' f) \<noteq> registry_version then None
      else case field ''devices'' f of Some (JArray vs) \<Rightarrow> read_devices readable vs [] | _ \<Rightarrow> None)"
| "read_registry readable _ = None"

definition load_registry :: "(string \<Rightarrow> bool) \<Rightarrow> device_host \<Rightarrow> bool \<times> device_host" where
  "load_registry readable h =
     (case (case hst_file h of NoFile \<Rightarrow> Some [] | Unopenable \<Rightarrow> None | NotJson \<Rightarrow> None
            | Document j \<Rightarrow> read_registry readable j) of
        None \<Rightarrow> (False, h\<lparr>hst_devices := [], hst_available := False\<rparr>)
      | Some ds \<Rightarrow> (True, h\<lparr>hst_devices := ds, hst_available := True\<rparr>))"

definition save_registry :: "device_host \<Rightarrow> bool \<times> device_host" where
  "save_registry h = (case fallible h of (ok, g) \<Rightarrow>
     (ok, if ok then g\<lparr>hst_file := Document (registry_document (hst_devices g))\<rparr> else g))"

section \<open>Operations of the registry\<close>

text \<open>What the operations share: the changed devices are saved, and restored when that fails.\<close>

definition save_changed :: "device list \<Rightarrow> device_host \<Rightarrow> bool \<times> device_host" where
  "save_changed ds h = (case save_registry (h\<lparr>hst_devices := ds\<rparr>) of (ok, g) \<Rightarrow>
     (ok, if ok then g else g\<lparr>hst_devices := hst_devices h\<rparr>))"

definition find_device :: "string \<Rightarrow> device list \<Rightarrow> device option" where
  "find_device i ds = find (\<lambda>r. nocase_eq (dev_id r) i) ds"

fun change_first :: "(device \<Rightarrow> bool) \<Rightarrow> (device \<Rightarrow> device) \<Rightarrow> device list \<Rightarrow> device list" where
  "change_first P f [] = []"
| "change_first P f (r # rs) = (if P r then f r # rs else r # change_first P f rs)"

fun remove_first :: "(device \<Rightarrow> bool) \<Rightarrow> device list \<Rightarrow> device list" where
  "remove_first P [] = []"
| "remove_first P (r # rs) = (if P r then rs else r # remove_first P rs)"

definition add_device :: "device \<Rightarrow> device_host \<Rightarrow> bool \<times> device_host" where
  "add_device r h =
     (if \<not> hst_available h \<or> find_device (dev_id r) (hst_devices h) \<noteq> None then (False, h)
      else save_changed (hst_devices h @ [r]) h)"

definition rename_device :: "string \<Rightarrow> string \<Rightarrow> device_host \<Rightarrow> bool \<times> device_host" where
  "rename_device i name h =
     (if \<not> hst_available h \<or> trimmed name = [] \<or> length (trimmed name) > 80
        \<or> find_device i (hst_devices h) = None then (False, h)
      else save_changed (change_first (\<lambda>r. nocase_eq (dev_id r) i)
             (\<lambda>r. r\<lparr>dev_name := trimmed name\<rparr>) (hst_devices h)) h)"

definition deactivate_device :: "string \<Rightarrow> device_host \<Rightarrow> bool \<times> device_host" where
  "deactivate_device i h =
     (if \<not> hst_available h then (False, h)
      else case find_device i (hst_devices h) of None \<Rightarrow> (False, h)
        | Some r \<Rightarrow> if \<not> dev_active r then (True, h)
            else save_changed (change_first (\<lambda>r. nocase_eq (dev_id r) i)
                   (\<lambda>r. r\<lparr>dev_active := False\<rparr>) (hst_devices h)) h)"

definition deactivate_all :: "device_host \<Rightarrow> bool \<times> device_host" where
  "deactivate_all h = (if \<not> hst_available h then (False, h)
     else save_changed (map (\<lambda>r. r\<lparr>dev_active := False\<rparr>) (hst_devices h)) h)"

definition remove_device :: "string \<Rightarrow> device_host \<Rightarrow> bool \<times> device_host" where
  "remove_device i h =
     (if \<not> hst_available h then (False, h)
      else if find_device i (hst_devices h) = None then (True, h)
      else save_changed (remove_first (\<lambda>r. nocase_eq (dev_id r) i) (hst_devices h)) h)"

definition remove_all_inactive :: "device_host \<Rightarrow> bool \<times> device_host" where
  "remove_all_inactive h = (if \<not> hst_available h then (False, h)
     else save_changed (filter dev_active (hst_devices h)) h)"

definition update_last_seen :: "string \<Rightarrow> string \<Rightarrow> device_host \<Rightarrow> bool \<times> device_host" where
  "update_last_seen i stamp h =
     (if \<not> hst_available h \<or> (\<forall>r \<in> set (hst_devices h). dev_id r \<noteq> i) then (False, h)
      else save_changed (change_first (\<lambda>r. dev_id r = i) (\<lambda>r. r\<lparr>dev_seen := stamp\<rparr>) (hst_devices h)) h)"

section \<open>Pairing\<close>

definition no_attempt :: pairing_attempt where
  "no_attempt = \<lparr>att_active = False, att_code = [], att_expires = 0, att_failures = 0, att_retry = None\<rparr>"

definition expiration_seconds :: int where "expiration_seconds = 300"
definition maximum_failures :: int where "maximum_failures = 5"

definition group_code :: "string \<Rightarrow> string" where
  "group_code s = take 4 s @ ''-'' @ take 4 (drop 4 s) @ ''-'' @ take 4 (drop 8 s) @ ''-'' @ take 4 (drop 12 s)"

definition cancel_pairing :: "device_host \<Rightarrow> device_host" where
  "cancel_pairing h = h\<lparr>hst_attempt := no_attempt\<rparr>"

definition expire_if_needed :: "int \<Rightarrow> device_host \<Rightarrow> device_host" where
  "expire_if_needed now h =
     (if att_active (hst_attempt h) \<and> now \<ge> att_expires (hst_attempt h) then cancel_pairing h else h)"

text \<open>\<open>random\<close>: the 16 digits drawn, \<open>None\<close> when the generator failed.\<close>

definition start_pairing :: "string option \<Rightarrow> int \<Rightarrow> device_host \<Rightarrow> device_host" where
  "start_pairing random now h = (case random of None \<Rightarrow> h
     | Some digits \<Rightarrow> h\<lparr>hst_attempt := \<lparr>att_active = True, att_code = group_code digits,
         att_expires = now + 1000 * expiration_seconds, att_failures = 0, att_retry = None\<rparr>\<rparr>)"

definition normalized_code :: "string \<Rightarrow> string option" where
  "normalized_code code =
     (let s = trimmed code;
          compact = (if length s = 19 \<and> s ! 4 = CHR ''-'' \<and> s ! 9 = CHR ''-'' \<and> s ! 14 = CHR ''-''
            then take 4 s @ take 4 (drop 5 s) @ take 4 (drop 10 s) @ drop 15 s else s)
      in if length compact = 16 \<and> list_all hex_digit compact then Some (group_code (map to_upper compact)) else None)"

definition credential_reference :: "string \<Rightarrow> string" where
  "credential_reference i = ''BrickSuitePairedDevice/'' @ map to_lower i"

record pair_request =
  prq_code :: string
  prq_name :: string
  prq_version :: string
  prq_platform :: string

text \<open>What the Host draws and reads while it handles a request: two readings of the clock, the
  text of the second, a new identity and a new credential (empty when the generator failed).\<close>

record pair_draw =
  drw_checked :: int
  drw_now :: int
  drw_stamp :: string
  drw_device :: string
  drw_credential :: string

datatype pair_answer = PairingDisabled | PairingRateLimited | PairingAttemptsExceeded
  | PairingCodeInvalid | PairingInvalidName | CredentialStoreFailed | PairingPersistenceFailed
  | Paired string string

definition write_credential :: "string \<Rightarrow> string \<Rightarrow> device_host \<Rightarrow> bool \<times> device_host" where
  "write_credential k v h = (case fallible h of (ok, g) \<Rightarrow>
     (ok, if ok then g\<lparr>hst_credentials := (hst_credentials g)(k \<mapsto> v)\<rparr> else g))"

definition remove_credential :: "string \<Rightarrow> device_host \<Rightarrow> bool \<times> device_host" where
  "remove_credential k h = (case fallible h of (ok, g) \<Rightarrow>
     (ok, if ok then g\<lparr>hst_credentials := (hst_credentials g)(k := None)\<rparr> else g))"

definition new_device :: "pair_request \<Rightarrow> pair_draw \<Rightarrow> device" where
  "new_device q d = \<lparr>dev_id = drw_device d, dev_name = trimmed (prq_name q), dev_first = drw_stamp d,
     dev_seen = drw_stamp d, dev_version = take 40 (prq_version q), dev_platform = take 40 (prq_platform q),
     dev_reference = credential_reference (drw_device d), dev_active = True\<rparr>"

text \<open>The end of a pairing, once the code was right and is used up.\<close>

definition enroll :: "pair_request \<Rightarrow> pair_draw \<Rightarrow> device_host \<Rightarrow> pair_answer \<times> device_host" where
  "enroll q d h =
     (let reference = credential_reference (drw_device d) in
      if drw_credential d = [] then (CredentialStoreFailed, h)
      else case write_credential reference (drw_credential d) h of (written, h1) \<Rightarrow>
        if \<not> written then (CredentialStoreFailed, h1)
        else case add_device (new_device q d) h1 of (added, h2) \<Rightarrow>
          if added then (Paired (drw_device d) (drw_credential d), h2)
          else (PairingPersistenceFailed, snd (remove_credential reference h2)))"

definition wrong_code :: "int \<Rightarrow> device_host \<Rightarrow> pair_answer \<times> device_host" where
  "wrong_code now h =
     (let a = hst_attempt h; n = att_failures a + 1 in
      if n \<ge> maximum_failures then (PairingAttemptsExceeded, cancel_pairing h)
      else (PairingCodeInvalid, h\<lparr>hst_attempt := a\<lparr>att_failures := n, att_retry := Some (now + 1000 * n)\<rparr>\<rparr>))"

definition pair_device :: "pair_request \<Rightarrow> pair_draw \<Rightarrow> device_host \<Rightarrow> pair_answer \<times> device_host" where
  "pair_device q d h0 =
     (let h = expire_if_needed (drw_checked d) h0; a = hst_attempt h; now = drw_now d in
      if \<not> att_active a then (PairingDisabled, h)
      else if (case att_retry a of None \<Rightarrow> False | Some t \<Rightarrow> now < t) then (PairingRateLimited, h)
      else if normalized_code (prq_code q) \<noteq> Some (att_code a) then wrong_code now h
      else if trimmed (prq_name q) = [] \<or> length (trimmed (prq_name q)) > 80 then (PairingInvalidName, h)
      else enroll q d (cancel_pairing h))"

section \<open>The server: who is authenticated, and who is served\<close>

text \<open>
  The secret a device has to prove (\<open>None\<close>: no proof is accepted): its record must be active and
  its credential readable. An empty credential is refused as well.
\<close>

definition device_secret :: "string \<Rightarrow> device_host \<Rightarrow> (device \<times> string) option \<times> device_host" where
  "device_secret requested h =
     (case find_device (map to_lower (trimmed requested)) (hst_devices h) of None \<Rightarrow> (None, h)
      | Some r \<Rightarrow> if \<not> dev_active r then (None, h)
          else case fallible h of (ok, g) \<Rightarrow>
            (if ok then (case hst_credentials g (dev_reference r) of
               Some secret \<Rightarrow> if secret = [] then None else Some (r, secret) | None \<Rightarrow> None) else None, g))"

text \<open>\<open>proves\<close> says which secrets the proof of the request was made with.\<close>

definition authenticate_device ::
    "nat \<Rightarrow> string \<Rightarrow> (string \<Rightarrow> bool) \<Rightarrow> string \<Rightarrow> device_host \<Rightarrow> bool \<times> device_host" where
  "authenticate_device socket requested proves stamp h =
     (if \<not> list_ex (\<lambda>x. ses_socket x = socket \<and> \<not> ses_authenticated x) (hst_sessions h) then (False, h)
      else case device_secret requested h of (secret, g) \<Rightarrow>
        (case secret of None \<Rightarrow> (False, g)
         | Some (r, s) \<Rightarrow>
             if proves s then
               (True, snd (update_last_seen (dev_id r) stamp (g\<lparr>hst_sessions := map (\<lambda>x.
                  if ses_socket x = socket then x\<lparr>ses_authenticated := True, ses_device := dev_id r\<rparr> else x)
                  (hst_sessions g)\<rparr>)))
             else (False, g)))"

text \<open>A request of an operation is served on any connection that was authenticated.\<close>

definition serves :: "nat \<Rightarrow> device_host \<Rightarrow> bool" where
  "serves socket h \<longleftrightarrow> list_ex (\<lambda>x. ses_socket x = socket \<and> ses_authenticated x) (hst_sessions h)"

text \<open>The connections of a device are told, and closed by a call posted to the event loop.\<close>

definition disconnect_device :: "string \<Rightarrow> device_host \<Rightarrow> device_host" where
  "disconnect_device i h = h\<lparr>hst_sessions := map (\<lambda>x.
     if ses_authenticated x \<and> nocase_eq (ses_device x) i then x\<lparr>ses_closing := True\<rparr> else x) (hst_sessions h)\<rparr>"

definition disconnect_all :: "device_host \<Rightarrow> device_host" where
  "disconnect_all h = h\<lparr>hst_sessions := map (\<lambda>x.
     if ses_authenticated x \<and> ses_device x \<noteq> [] then x\<lparr>ses_closing := True\<rparr> else x) (hst_sessions h)\<rparr>"

definition run_closings :: "device_host \<Rightarrow> device_host" where
  "run_closings h = h\<lparr>hst_sessions := filter (\<lambda>x. \<not> ses_closing x) (hst_sessions h)\<rparr>"

section \<open>Revocation\<close>

datatype revocation = DeviceUnknown | NotDeactivated | CredentialKept | RecordKept | Revoked

definition revoke_device :: "string \<Rightarrow> device_host \<Rightarrow> revocation \<times> device_host" where
  "revoke_device i h =
     (case find_device i (hst_devices h) of None \<Rightarrow> (DeviceUnknown, h)
      | Some r \<Rightarrow> case deactivate_device i h of (ok, h1) \<Rightarrow>
          if \<not> ok then (NotDeactivated, h1)
          else case remove_credential (dev_reference r) (disconnect_device i h1) of (removed, h2) \<Rightarrow>
            if \<not> removed then (CredentialKept, h2)
            else case remove_device i h2 of (gone, h3) \<Rightarrow> (if gone then Revoked else RecordKept, h3))"

fun remove_credentials :: "device list \<Rightarrow> device_host \<Rightarrow> bool \<times> device_host" where
  "remove_credentials [] h = (True, h)"
| "remove_credentials (r # rs) h = (case remove_credential (dev_reference r) h of (ok, g) \<Rightarrow>
     case remove_credentials rs g of (rest, g') \<Rightarrow> (ok \<and> rest, g'))"

definition revoke_all_devices :: "device_host \<Rightarrow> revocation \<times> device_host" where
  "revoke_all_devices h =
     (case deactivate_all h of (ok, h1) \<Rightarrow>
        if \<not> ok then (NotDeactivated, h1)
        else case remove_credentials (hst_devices h) (disconnect_all h1) of (removed, h2) \<Rightarrow>
          if \<not> removed then (CredentialKept, h2)
          else case remove_all_inactive h2 of (gone, h3) \<Rightarrow> (if gone then Revoked else RecordKept, h3))"

end
