(* ===== verification/DeviceSafety.thy ===== *)
theory DeviceSafety
  imports DeviceRegistry
begin

text \<open>
  What holds of the paired devices of a Host in every history of pairings, renamings,
  revocations, authentications and restarts, whatever storage operations fail on the way.
\<close>

section \<open>Histories\<close>

datatype host_event =
    Restart
  | StartPairing "string option" int
  | CancelPairing
  | ShowPairing int
  | Pair pair_request pair_draw
  | Rename string string
  | Revoke string
  | RevokeAll
  | Connect nat
  | Authenticate nat string "string \<Rightarrow> bool" string
  | Disconnected nat
  | RunClosings

definition restart :: "(string \<Rightarrow> bool) \<Rightarrow> device_host \<Rightarrow> device_host" where
  "restart readable h = snd (load_registry readable
     (h\<lparr>hst_devices := [], hst_available := True, hst_attempt := no_attempt, hst_sessions := []\<rparr>))"

definition maximum_clients :: nat where
  "maximum_clients = 8"

definition open_session :: "nat \<Rightarrow> device_host \<Rightarrow> device_host" where
  "open_session socket h = (if list_ex (\<lambda>x. ses_socket x = socket) (hst_sessions h) then h
     else if length (hst_sessions h) \<ge> maximum_clients then h
     else h\<lparr>hst_sessions := hst_sessions h @ [\<lparr>ses_socket = socket, ses_authenticated = False,
       ses_device = [], ses_closing = False\<rparr>]\<rparr>)"

definition close_session :: "nat \<Rightarrow> device_host \<Rightarrow> device_host" where
  "close_session socket h = h\<lparr>hst_sessions := filter (\<lambda>x. ses_socket x \<noteq> socket) (hst_sessions h)\<rparr>"

fun host_step :: "(string \<Rightarrow> bool) \<Rightarrow> host_event \<Rightarrow> device_host \<Rightarrow> device_host" where
  "host_step readable Restart h = restart readable h"
| "host_step readable (StartPairing random now) h = start_pairing random now h"
| "host_step readable CancelPairing h = cancel_pairing h"
| "host_step readable (ShowPairing now) h = expire_if_needed now h"
| "host_step readable (Pair q d) h = snd (pair_device q d h)"
| "host_step readable (Rename i name) h = snd (rename_device i name h)"
| "host_step readable (Revoke i) h = snd (revoke_device i h)"
| "host_step readable RevokeAll h = snd (revoke_all_devices h)"
| "host_step readable (Connect socket) h = open_session socket h"
| "host_step readable (Authenticate socket requested proves stamp) h =
     snd (authenticate_device socket requested proves stamp h)"
| "host_step readable (Disconnected socket) h = close_session socket h"
| "host_step readable RunClosings h = run_closings h"

section \<open>Which devices an operation leaves\<close>

text \<open>
  Every operation leaves the devices as they were or replaces them in memory and in the file
  at once; the rest of the proofs only look at which lists replace them.
\<close>

definition stored_as :: "device list \<Rightarrow> device_host \<Rightarrow> bool" where
  "stored_as ds h \<longleftrightarrow> hst_devices h = ds \<and> hst_file h = Document (registry_document ds)"

definition same_registry :: "device_host \<Rightarrow> device_host \<Rightarrow> bool" where
  "same_registry h g \<longleftrightarrow> hst_devices g = hst_devices h \<and> hst_file g = hst_file h
     \<and> hst_available g = hst_available h"

lemma same_registry_refl [simp]: "same_registry h h"
  by (simp add: same_registry_def)

lemma fallible_simps [simp]:
  "hst_devices (snd (fallible h)) = hst_devices h" "hst_available (snd (fallible h)) = hst_available h"
  "hst_file (snd (fallible h)) = hst_file h" "hst_credentials (snd (fallible h)) = hst_credentials h"
  "hst_attempt (snd (fallible h)) = hst_attempt h" "hst_sessions (snd (fallible h)) = hst_sessions h"
  by (simp_all add: fallible_def)

lemma save_changed_cases:
  "(fst (save_changed ds h) \<and> hst_devices (snd (save_changed ds h)) = ds
      \<and> hst_file (snd (save_changed ds h)) = Document (registry_document ds)
      \<and> hst_available (snd (save_changed ds h)) = hst_available h)
   \<or> (\<not> fst (save_changed ds h) \<and> same_registry h (snd (save_changed ds h)))"
  by (simp add: save_changed_def save_registry_def fallible_def same_registry_def split: prod.splits)

lemma save_changed_rest [simp]:
  "hst_credentials (snd (save_changed ds h)) = hst_credentials h"
  "hst_attempt (snd (save_changed ds h)) = hst_attempt h"
  "hst_sessions (snd (save_changed ds h)) = hst_sessions h"
  by (simp_all add: save_changed_def save_registry_def fallible_def split: prod.splits)

section \<open>The file gives the devices back\<close>

definition registry_ok :: "(string \<Rightarrow> bool) \<Rightarrow> device list \<Rightarrow> bool" where
  "registry_ok readable ds \<longleftrightarrow> list_all (device_ok readable) ds \<and> distinct (map (map to_upper \<circ> dev_id) ds)"

lemma device_of_json: "device_json r = JObject f \<Longrightarrow> device_of_fields f = r"
  by (cases r) (auto simp: device_json_def device_of_fields_def)

lemma read_devices_back:
  "list_all (device_ok readable) ds \<Longrightarrow> distinct (map dev_id ds) \<Longrightarrow> set (map dev_id ds) \<inter> set ids = {}
   \<Longrightarrow> read_devices readable (map device_json ds) ids = Some ds"
proof (induction ds arbitrary: ids)
  case (Cons r ds)
  obtain f where f: "device_json r = JObject f" by (simp add: device_json_def)
  have "read_devices readable (map device_json ds) (dev_id r # ids) = Some ds"
    using Cons.prems by (intro Cons.IH) auto
  with Cons.prems show ?case by (simp add: f device_of_json [OF f] Let_def)
qed simp

lemma distinct_ids: "distinct (map (map to_upper \<circ> dev_id) ds) \<Longrightarrow> distinct (map dev_id ds)"
  by (simp add: distinct_map comp_def inj_on_def)

lemma read_registry_back:
  "registry_ok readable ds \<Longrightarrow> read_registry readable (registry_document ds) = Some ds"
  using read_devices_back [of readable ds "[]"] distinct_ids [of ds]
  by (simp add: registry_ok_def registry_document_def registry_version_def)

section \<open>Laws of single devices\<close>

text \<open>
  A statement about single devices that no renaming, no date and no deactivation takes away
  holds of all devices in every history in which it holds of the devices that are paired.
\<close>

locale device_law =
  fixes law :: "device \<Rightarrow> bool"
  assumes law_name: "law r \<Longrightarrow> law (r\<lparr>dev_name := n\<rparr>)"
    and law_seen: "law r \<Longrightarrow> law (r\<lparr>dev_seen := t\<rparr>)"
    and law_inactive: "law r \<Longrightarrow> law (r\<lparr>dev_active := False\<rparr>)"

definition host_good :: "(string \<Rightarrow> bool) \<Rightarrow> (device \<Rightarrow> bool) \<Rightarrow> device_host \<Rightarrow> bool" where
  "host_good readable law h \<longleftrightarrow> hst_available h \<and> registry_ok readable (hst_devices h)
     \<and> list_all law (hst_devices h)
     \<and> (hst_file h = Document (registry_document (hst_devices h)) \<or> hst_file h = NoFile \<and> hst_devices h = [])"

fun event_ok :: "(string \<Rightarrow> bool) \<Rightarrow> (device \<Rightarrow> bool) \<Rightarrow> host_event \<Rightarrow> bool" where
  "event_ok readable law (Pair q d) \<longleftrightarrow>
     readable (drw_stamp d) \<and> valid_uuid (drw_device d) \<and> law (new_device q d)"
| "event_ok readable law _ \<longleftrightarrow> True"

lemma host_good_same: "host_good readable law h \<Longrightarrow> same_registry h g \<Longrightarrow> host_good readable law g"
  by (simp add: host_good_def same_registry_def)

lemma host_good_saved:
  assumes "host_good readable law h" "registry_ok readable ds" "list_all law ds"
  shows "host_good readable law (snd (save_changed ds h))"
  using save_changed_cases [of ds h] assms by (auto simp: host_good_def same_registry_def)

lemma map_change_first: "(\<And>r. g (f r) = g r) \<Longrightarrow> map g (change_first P f ds) = map g ds"
  by (induction ds) auto

lemma list_all_change_first:
  "list_all Q ds \<Longrightarrow> (\<And>r. Q r \<Longrightarrow> Q (f r)) \<Longrightarrow> list_all Q (change_first P f ds)"
  by (induction ds) auto

lemma set_remove_first: "set (remove_first P ds) \<subseteq> set ds"
  by (induction ds) auto

lemma registry_ok_change_first:
  assumes "registry_ok readable ds" "\<And>r. device_ok readable r \<Longrightarrow> device_ok readable (f r)"
    "\<And>r. dev_id (f r) = dev_id r"
  shows "registry_ok readable (change_first P f ds)"
  using assms(1) list_all_change_first [of "device_ok readable" ds f P, OF _ assms(2)]
    map_change_first [of "map to_upper \<circ> dev_id" f P ds] assms(3)
  by (auto simp: registry_ok_def)

lemma distinct_remove_first: "distinct (map g ds) \<Longrightarrow> distinct (map g (remove_first P ds))"
  using set_remove_first [of P] by (induction ds) (auto simp: subset_iff)

lemma registry_ok_shorter:
  assumes "registry_ok readable ds"
  shows "registry_ok readable (remove_first P ds)" "registry_ok readable (filter Q ds)"
  using assms set_remove_first [of P ds] distinct_remove_first [of "map to_upper \<circ> dev_id" ds P]
  by (auto simp: registry_ok_def list_all_iff subset_iff distinct_map_filter)

lemma find_device_None: "find_device i ds = None \<longleftrightarrow> (\<forall>r \<in> set ds. \<not> nocase_eq (dev_id r) i)"
  by (auto simp: find_device_def find_None_iff)

lemma registry_ok_added:
  assumes "registry_ok readable ds" "device_ok readable r" "find_device (dev_id r) ds = None"
  shows "registry_ok readable (ds @ [r])"
  using assms by (auto simp: registry_ok_def find_device_None nocase_eq_def)

lemma same_registry_host_good [simp]:
  "host_good readable law (h\<lparr>hst_attempt := a\<rparr>) = host_good readable law h"
  "host_good readable law (h\<lparr>hst_sessions := xs\<rparr>) = host_good readable law h"
  "host_good readable law (h\<lparr>hst_credentials := c\<rparr>) = host_good readable law h"
  "host_good readable law (snd (fallible h)) = host_good readable law h"
  by (simp_all add: host_good_def)

lemma host_good_credentials [simp]:
  "host_good readable law (snd (write_credential k v h)) = host_good readable law h"
  "host_good readable law (snd (remove_credential k h)) = host_good readable law h"
  "host_good readable law (snd (remove_credentials ds h)) = host_good readable law h"
proof -
  show one: "host_good readable law (snd (remove_credential k h)) = host_good readable law h" for k h
    by (simp add: remove_credential_def split_beta)
  show "host_good readable law (snd (write_credential k v h)) = host_good readable law h"
    by (simp add: write_credential_def split_beta)
  show "host_good readable law (snd (remove_credentials ds h)) = host_good readable law h"
    by (induction ds arbitrary: h) (simp_all add: split_beta one)
qed

lemma host_good_shorter:
  assumes "host_good readable law h"
  shows "host_good readable law (snd (save_changed (remove_first P (hst_devices h)) h))"
    "host_good readable law (snd (save_changed (filter Q (hst_devices h)) h))"
  using assms set_remove_first [of P "hst_devices h"]
  by (intro host_good_saved [OF assms] registry_ok_shorter; auto simp: host_good_def list_all_iff)+

lemma host_good_restart: "host_good readable law h \<Longrightarrow> host_good readable law (restart readable h)"
  by (auto simp: host_good_def restart_def load_registry_def read_registry_back)

context device_law begin

lemma changed_first:
  assumes "host_good readable law h" "\<And>r. law r \<Longrightarrow> law (f r)" "\<And>r. dev_id (f r) = dev_id r"
    "\<And>r. device_ok readable r \<Longrightarrow> device_ok readable (f r)"
  shows "host_good readable law (snd (save_changed (change_first P f (hst_devices h)) h))"
  using assms by (intro host_good_saved registry_ok_change_first list_all_change_first)
    (auto simp: host_good_def)

lemma rename_good: "host_good readable law h \<Longrightarrow> host_good readable law (snd (rename_device i n h))"
  by (auto simp: rename_device_def device_ok_def intro!: changed_first law_name)

lemma deactivate_good: "host_good readable law h \<Longrightarrow> host_good readable law (snd (deactivate_device i h))"
  by (auto simp: deactivate_device_def device_ok_def split: option.split intro!: changed_first law_inactive)

lemma deactivate_all_good:
  assumes "host_good readable law h" shows "host_good readable law (snd (deactivate_all h))"
proof -
  let ?off = "map (\<lambda>r. r\<lparr>dev_active := False\<rparr>) (hst_devices h)"
  have "map (map to_upper \<circ> dev_id) ?off = map (map to_upper \<circ> dev_id) (hst_devices h)" by simp
  then have "registry_ok readable ?off" "list_all law ?off"
    using assms law_inactive
    by (auto simp: host_good_def registry_ok_def list_all_iff device_ok_def simp del: map_map)
  then show ?thesis using assms host_good_saved [OF assms] by (simp add: deactivate_all_def)
qed

lemma remove_good: "host_good readable law h \<Longrightarrow> host_good readable law (snd (remove_device i h))"
  by (simp add: remove_device_def host_good_shorter)

lemma remove_inactive_good: "host_good readable law h \<Longrightarrow> host_good readable law (snd (remove_all_inactive h))"
  by (simp add: remove_all_inactive_def host_good_shorter)

lemma last_seen_good: "host_good readable law h \<Longrightarrow> host_good readable law (snd (update_last_seen i t h))"
  by (auto simp: update_last_seen_def device_ok_def intro!: changed_first law_seen)

lemma revoke_good:
  assumes "host_good readable law h" shows "host_good readable law (snd (revoke_device i h))"
  using deactivate_good [OF assms, of i] assms
  by (auto simp: revoke_device_def disconnect_device_def split_beta split: option.split intro!: remove_good)

lemma revoke_all_good:
  assumes "host_good readable law h" shows "host_good readable law (snd (revoke_all_devices h))"
  using deactivate_all_good [OF assms]
  by (auto simp: revoke_all_devices_def disconnect_all_def split_beta intro!: remove_inactive_good)

lemma add_good:
  assumes "host_good readable law h" "device_ok readable r" "law r"
  shows "host_good readable law (snd (add_device r h))"
proof (cases "hst_available h \<and> find_device (dev_id r) (hst_devices h) = None")
  case True
  with assms have "registry_ok readable (hst_devices h @ [r])" "list_all law (hst_devices h @ [r])"
    by (auto simp: host_good_def registry_ok_added)
  with True host_good_saved [OF assms(1)] show ?thesis by (simp add: add_device_def)
next
  case False
  with assms show ?thesis by (auto simp: add_device_def)
qed

lemma pair_good:
  assumes good: "host_good readable law h" and q: "event_ok readable law (Pair q d)"
  shows "host_good readable law (snd (pair_device q d h))"
proof -
  have enroll: "host_good readable law (snd (enroll q d g))"
    if g: "host_good readable law g" and n: "trimmed (prq_name q) \<noteq> []" "length (trimmed (prq_name q)) \<le> 80" for g
  proof -
    have "device_ok readable (new_device q d)"
      using q n by (simp add: device_ok_def new_device_def credential_reference_def)
    with add_good [OF _ this] g q show ?thesis by (simp add: enroll_def Let_def split_beta)
  qed
  show ?thesis
    using good by (auto simp: pair_device_def Let_def expire_if_needed_def cancel_pairing_def
        wrong_code_def intro!: enroll)
qed

lemma authenticate_good:
  assumes "host_good readable law h"
  shows "host_good readable law (snd (authenticate_device socket requested proves stamp h))"
  using assms by (auto simp: authenticate_device_def device_secret_def split_beta
      split: option.split intro!: last_seen_good)

lemma step_good:
  assumes "event_ok readable law e" "host_good readable law h"
  shows "host_good readable law (host_step readable e h)"
  using assms rename_good revoke_good revoke_all_good pair_good authenticate_good host_good_restart
  by (cases e) (simp_all add: start_pairing_def cancel_pairing_def expire_if_needed_def open_session_def
      run_closings_def close_session_def split: option.split)

end

sublocale device_law \<subseteq> devices: guarded_machine "host_step readable" "event_ok readable law" "host_good readable law"
  for readable
  by unfold_locales (rule step_good)

interpretation any_device: device_law "\<lambda>_. True"
  by unfold_locales simp_all

interpretation inactive_device: device_law "\<lambda>r. nocase_eq (dev_id r) i \<longrightarrow> \<not> dev_active r" for i
  by unfold_locales simp_all

text \<open>
  Property C34. The devices survive a restart of the Host. Start from a Host whose file holds the
  devices it has in memory, and let any sequence of pairings, renamings, revocations,
  authentications, disconnections and restarts run, whichever writes of the registry and whichever
  accesses of the credential store fail: a restart then finds exactly the devices that were in
  memory, the registry stays usable, and no two devices have one identity, whatever the case of
  its letters.
\<close>

theorem registry_survives_restarts:
  assumes "host_good readable (\<lambda>_. True) h" "list_all (event_ok readable (\<lambda>_. True)) es"
  shows "let g = fold (host_step readable) es h in
    hst_devices (restart readable g) = hst_devices g \<and> hst_available g
    \<and> distinct (map (map to_upper \<circ> dev_id) (hst_devices g))"
proof -
  have "host_good readable (\<lambda>_. True) (fold (host_step readable) es h)"
    by (rule any_device.devices.run_good [OF assms(2,1)])
  then show ?thesis
    by (auto simp: Let_def host_good_def registry_ok_def restart_def load_registry_def read_registry_back)
qed

section \<open>Revocation\<close>

abbreviation revoked_law :: "string \<Rightarrow> device \<Rightarrow> bool" where
  "revoked_law i r \<equiv> nocase_eq (dev_id r) i \<longrightarrow> \<not> dev_active r"

lemma deactivated_first:
  "distinct (map (map to_upper \<circ> dev_id) ds)
   \<Longrightarrow> list_all (revoked_law i) (change_first (\<lambda>r. nocase_eq (dev_id r) i) (\<lambda>r. r\<lparr>dev_active := False\<rparr>) ds)"
  by (induction ds) (auto simp: list_all_iff nocase_eq_def image_iff)

lemma inactive_first:
  "distinct (map (map to_upper \<circ> dev_id) ds) \<Longrightarrow> find_device i ds = Some r \<Longrightarrow> \<not> dev_active r
   \<Longrightarrow> list_all (revoked_law i) ds"
  by (induction ds) (auto simp: list_all_iff nocase_eq_def find_device_def image_iff split: if_splits)

lemma host_good_law:
  "host_good readable (\<lambda>_. True) h \<Longrightarrow> list_all law (hst_devices h) \<Longrightarrow> host_good readable law h"
  by (simp add: host_good_def)

lemma deactivate_law:
  assumes good: "host_good readable (\<lambda>_. True) h" and ok: "fst (deactivate_device i h)"
  shows "host_good readable (revoked_law i) (snd (deactivate_device i h))"
proof (rule host_good_law [OF any_device.deactivate_good [OF good]])
  have ids: "distinct (map (map to_upper \<circ> dev_id) (hst_devices h))"
    using good by (simp add: host_good_def registry_ok_def)
  from ok obtain r where r: "find_device i (hst_devices h) = Some r" and "hst_available h"
    by (auto simp: deactivate_device_def split: option.splits if_splits)
  show "list_all (revoked_law i) (hst_devices (snd (deactivate_device i h)))"
  proof (cases "dev_active r")
    case False
    with r inactive_first [OF ids r False] \<open>hst_available h\<close> show ?thesis
      by (simp add: deactivate_device_def)
  next
    case True
    let ?ds = "change_first (\<lambda>r. nocase_eq (dev_id r) i) (\<lambda>r. r\<lparr>dev_active := False\<rparr>) (hst_devices h)"
    have step: "deactivate_device i h = save_changed ?ds h"
      using True r \<open>hst_available h\<close> by (simp add: deactivate_device_def)
    with ok save_changed_cases [of ?ds h] deactivated_first [OF ids] show ?thesis by auto
  qed
qed

text \<open>The connections of the device are closed, or will be by the call that was posted.\<close>

definition locked_out :: "string \<Rightarrow> host_session list \<Rightarrow> bool" where
  "locked_out i xs \<longleftrightarrow> (\<forall>x \<in> set xs. ses_authenticated x \<and> nocase_eq (ses_device x) i \<longrightarrow> ses_closing x)"

definition gone :: "string \<Rightarrow> host_session list \<Rightarrow> bool" where
  "gone i xs \<longleftrightarrow> (\<forall>x \<in> set xs. ses_authenticated x \<longrightarrow> \<not> nocase_eq (ses_device x) i)"

lemma no_secret:
  assumes "list_all (revoked_law i) (hst_devices h)" "nocase_eq (map to_lower (trimmed requested)) i"
  shows "fst (device_secret requested h) = None"
  using assms
  by (auto simp: device_secret_def find_device_def list_all_iff nocase_eq_def split: option.split
      dest!: find_SomeD)

lemma secret_of:
  "fst (device_secret requested h) = Some (r, s) \<Longrightarrow> r \<in> set (hst_devices h) \<and> dev_active r"
  by (auto simp: device_secret_def find_device_def split_beta dest!: find_SomeD split: option.splits if_splits)

lemma device_secret_rest [simp]:
  "hst_sessions (snd (device_secret requested h)) = hst_sessions h"
  "hst_devices (snd (device_secret requested h)) = hst_devices h"
  by (simp_all add: device_secret_def split_beta split: option.split)

lemma sessions_kept [simp]:
  "hst_sessions (snd (rename_device i n h)) = hst_sessions h"
  "hst_sessions (snd (deactivate_device i h)) = hst_sessions h"
  "hst_sessions (snd (deactivate_all h)) = hst_sessions h"
  "hst_sessions (snd (remove_device i h)) = hst_sessions h"
  "hst_sessions (snd (remove_all_inactive h)) = hst_sessions h"
  "hst_sessions (snd (update_last_seen i t h)) = hst_sessions h"
  "hst_sessions (snd (add_device r h)) = hst_sessions h"
  "hst_sessions (snd (remove_credential k h)) = hst_sessions h"
  "hst_sessions (snd (write_credential k v h)) = hst_sessions h"
  by (simp_all add: rename_device_def deactivate_device_def deactivate_all_def remove_device_def
      remove_all_inactive_def update_last_seen_def add_device_def remove_credential_def
      write_credential_def split_beta split: option.split)

lemma sessions_remove_credentials [simp]:
  "hst_sessions (snd (remove_credentials ds h)) = hst_sessions h"
  by (induction ds arbitrary: h) (simp_all add: split_beta)

lemma sessions_pair [simp]: "hst_sessions (snd (pair_device q d h)) = hst_sessions h"
  by (simp add: pair_device_def Let_def expire_if_needed_def cancel_pairing_def wrong_code_def
      enroll_def split_beta)

text \<open>What an event makes of the connections, for a device no event authenticates.\<close>

lemma authenticate_sessions:
  assumes "list_all (revoked_law i) (hst_devices h)"
  shows "locked_out i (hst_sessions h) \<Longrightarrow>
      locked_out i (hst_sessions (snd (authenticate_device socket requested proves stamp h)))"
    "gone i (hst_sessions h) \<Longrightarrow>
      gone i (hst_sessions (snd (authenticate_device socket requested proves stamp h)))"
  using assms
  by (auto simp: authenticate_device_def split_beta locked_out_def gone_def list_all_iff
      dest!: secret_of split: option.splits)

lemma disconnect_sessions:
  "locked_out i (hst_sessions h) \<Longrightarrow> locked_out i (hst_sessions (disconnect_device j h))"
  "gone i (hst_sessions h) \<Longrightarrow> gone i (hst_sessions (disconnect_device j h))"
  "locked_out i (hst_sessions h) \<Longrightarrow> locked_out i (hst_sessions (disconnect_all h))"
  "gone i (hst_sessions h) \<Longrightarrow> gone i (hst_sessions (disconnect_all h))"
  by (auto simp: locked_out_def gone_def disconnect_device_def disconnect_all_def)

lemma revoke_sessions:
  "locked_out i (hst_sessions h) \<Longrightarrow> locked_out i (hst_sessions (snd (revoke_device j h)))"
  "gone i (hst_sessions h) \<Longrightarrow> gone i (hst_sessions (snd (revoke_device j h)))"
  "locked_out i (hst_sessions h) \<Longrightarrow> locked_out i (hst_sessions (snd (revoke_all_devices h)))"
  "gone i (hst_sessions h) \<Longrightarrow> gone i (hst_sessions (snd (revoke_all_devices h)))"
  by (auto simp: revoke_device_def revoke_all_devices_def split_beta
      intro!: disconnect_sessions split: option.split)

lemma other_sessions [simp]:
  "hst_sessions (restart readable h) = []" "hst_sessions (start_pairing random now h) = hst_sessions h"
  "hst_sessions (cancel_pairing h) = hst_sessions h" "hst_sessions (expire_if_needed now h) = hst_sessions h"
  "hst_sessions (run_closings h) = filter (\<lambda>x. \<not> ses_closing x) (hst_sessions h)"
  "hst_sessions (close_session socket h) = filter (\<lambda>x. ses_socket x \<noteq> socket) (hst_sessions h)"
  by (simp_all add: restart_def load_registry_def start_pairing_def cancel_pairing_def
      expire_if_needed_def run_closings_def close_session_def split: option.split)

lemma open_sessions:
  "locked_out i (hst_sessions h) \<Longrightarrow> locked_out i (hst_sessions (open_session socket h))"
  "gone i (hst_sessions h) \<Longrightarrow> gone i (hst_sessions (open_session socket h))"
  by (auto simp: open_session_def locked_out_def gone_def)

lemma fewer_sessions:
  "locked_out i []" "gone i []" "locked_out i xs \<Longrightarrow> locked_out i (filter P xs)" "gone i xs \<Longrightarrow> gone i (filter P xs)"
  by (auto simp: locked_out_def gone_def)

lemma step_sessions:
  assumes "list_all (revoked_law i) (hst_devices h)"
  shows "locked_out i (hst_sessions h) \<Longrightarrow> locked_out i (hst_sessions (host_step readable e h))"
    "gone i (hst_sessions h) \<Longrightarrow> gone i (hst_sessions (host_step readable e h))"
  using authenticate_sessions [OF assms] revoke_sessions [of i h]
  by (cases e; simp add: open_sessions fewer_sessions)+

interpretation locked: guarded_machine "host_step readable" "event_ok readable (revoked_law i)"
    "\<lambda>h. host_good readable (revoked_law i) h \<and> locked_out i (hst_sessions h)" for readable i
  by unfold_locales (use step_sessions(1) inactive_device.step_good in \<open>auto simp: host_good_def\<close>)

interpretation out: guarded_machine "host_step readable" "event_ok readable (revoked_law i)"
    "\<lambda>h. host_good readable (revoked_law i) h \<and> gone i (hst_sessions h)" for readable i
  by unfold_locales (use step_sessions(2) inactive_device.step_good in \<open>auto simp: host_good_def\<close>)

lemma revoked_sessions:
  "find_device i (hst_devices h) \<noteq> None \<Longrightarrow> fst (deactivate_device i h)
   \<Longrightarrow> hst_sessions (snd (revoke_device i h)) = hst_sessions (disconnect_device i h)"
  by (auto simp: revoke_device_def split_beta) (simp_all add: disconnect_device_def)

lemma revoke_locks:
  assumes good: "host_good readable (\<lambda>_. True) h"
    and ok: "fst (revoke_device i h) \<notin> {DeviceUnknown, NotDeactivated}"
  shows "host_good readable (revoked_law i) (snd (revoke_device i h))"
    "locked_out i (hst_sessions (snd (revoke_device i h)))"
proof -
  from ok have off: "fst (deactivate_device i h)"
    by (auto simp: revoke_device_def split_beta split: option.splits if_splits)
  from ok have "find_device i (hst_devices h) \<noteq> None"
    by (intro notI) (simp add: revoke_device_def)
  then show "host_good readable (revoked_law i) (snd (revoke_device i h))"
    using off deactivate_law [OF good off]
    by (auto simp: revoke_device_def disconnect_device_def split_beta intro!: inactive_device.remove_good)
  show "locked_out i (hst_sessions (snd (revoke_device i h)))"
    using off \<open>find_device i (hst_devices h) \<noteq> None\<close>
    by (simp add: revoked_sessions) (auto simp: locked_out_def disconnect_device_def)
qed

lemma closings_gone: "locked_out i xs \<Longrightarrow> gone i (filter (\<lambda>x. \<not> ses_closing x) xs)"
  by (auto simp: locked_out_def gone_def)

text \<open>
  Property C35. A revoked device stays out. Once a revocation has been answered with anything but
  "unknown" or "not deactivated" (so also when its credential or its record could not be removed),
  no history of events in which that identity is not paired again lets the device authenticate,
  whatever it proves and whatever fails, restarts included; and the only connections it still has
  are those it had before, to be closed by a call that was posted, of which none is left as soon
  as that call has run.
\<close>

theorem revoked_stays_out:
  assumes good: "host_good readable (\<lambda>_. True) h"
    and ok: "fst (revoke_device i h) \<notin> {DeviceUnknown, NotDeactivated}"
    and es: "list_all (event_ok readable (revoked_law i)) es"
  shows "let g = fold (host_step readable) es (snd (revoke_device i h)) in
    (\<forall>socket requested proves stamp. nocase_eq (map to_lower (trimmed requested)) i
       \<longrightarrow> \<not> fst (authenticate_device socket requested proves stamp g))
    \<and> (\<forall>x \<in> set (hst_sessions g). ses_authenticated x \<and> nocase_eq (ses_device x) i \<longrightarrow>
         ses_closing x \<and> RunClosings \<notin> set es)"
proof -
  let ?r = "snd (revoke_device i h)"
  let ?g = "fold (host_step readable) es ?r"
  note start = revoke_locks [OF good ok]
  have now: "host_good readable (revoked_law i) ?g" "locked_out i (hst_sessions ?g)"
    using locked.run_good [OF es, of ?r] start by auto
  have closed: "gone i (hst_sessions ?g)" if "RunClosings \<in> set es"
  proof -
    from that obtain as bs where split: "es = as @ RunClosings # bs" by (meson split_list)
    have "host_good readable (revoked_law i) (fold (host_step readable) as ?r)"
      "locked_out i (hst_sessions (fold (host_step readable) as ?r))"
      using locked.run_good [of readable i as ?r] start es split by auto
    then show ?thesis
      using out.run_good [of readable i bs "run_closings (fold (host_step readable) as ?r)"] es split
      by (auto simp: run_closings_def closings_gone)
  qed
  have "\<not> fst (authenticate_device socket requested proves stamp ?g)"
    if "nocase_eq (map to_lower (trimmed requested)) i" for socket requested proves stamp
    using no_secret [OF _ that, of ?g] now(1)
    by (auto simp: authenticate_device_def split_beta host_good_def)
  with now(2) closed show ?thesis by (auto simp: Let_def locked_out_def gone_def)
qed

section \<open>A Host with one device\<close>

definition sample_device :: string where
  "sample_device = ''0a1b2c3d-1234-4321-8888-0123456789ab''"

definition sample_request :: pair_request where
  "sample_request = \<lparr>prq_code = ''0123-4567-89AB-CDEF'', prq_name = '' Laptop '', prq_version = ''1.0'',
     prq_platform = ''Linux''\<rparr>"

definition sample_draw :: pair_draw where
  "sample_draw = \<lparr>drw_checked = 1000, drw_now = 1000, drw_stamp = ''now'', drw_device = sample_device,
     drw_credential = ''secret''\<rparr>"

definition empty_host :: "bool list \<Rightarrow> device_host" where
  "empty_host faults = \<lparr>hst_devices = [], hst_available = True, hst_file = NoFile, hst_credentials = Map.empty,
     hst_attempt = no_attempt, hst_sessions = [], hst_faults = faults\<rparr>"

definition sample_pairing :: "host_event list" where
  "sample_pairing = [StartPairing (Some ''0123456789ABCDEF'') 0, Pair sample_request sample_draw,
     Connect 7, Authenticate 7 sample_device ((=) ''secret'') ''later'']"

definition sample_host :: device_host where
  "sample_host = fold (host_step (\<lambda>_. True)) sample_pairing (empty_host [])"

lemma empty_host_good: "host_good readable law (empty_host faults)"
  by (simp add: host_good_def empty_host_def registry_ok_def)

lemma sample_pairing_ok: "list_all (event_ok (\<lambda>_. True) (\<lambda>_. True)) sample_pairing"
proof -
  have "valid_uuid sample_device" by code_simp
  then show ?thesis by (simp add: sample_pairing_def sample_draw_def)
qed

theorem registry_survives_restarts_witness:
  "map dev_name (hst_devices (restart (\<lambda>_. True) sample_host)) = [''Laptop'']"
proof -
  have "hst_devices (restart (\<lambda>_. True) sample_host) = hst_devices sample_host"
    using registry_survives_restarts [OF empty_host_good sample_pairing_ok, of "[]"]
    by (simp add: sample_host_def Let_def)
  moreover have "map dev_name (hst_devices sample_host) = [''Laptop'']" by code_simp
  ultimately show ?thesis by simp
qed

lemma sample_host_good: "host_good (\<lambda>_. True) (\<lambda>_. True) sample_host"
  using any_device.devices.run_good [OF sample_pairing_ok empty_host_good] by (simp add: sample_host_def)

theorem revoked_stays_out_witness:
  "fst (authenticate_device 7 sample_device ((=) ''secret'') ''t'' (open_session 7 (empty_host []\<lparr>hst_devices := hst_devices sample_host,
     hst_credentials := hst_credentials sample_host\<rparr>)))
   \<and> \<not> fst (authenticate_device 8 sample_device ((=) ''secret'') ''t''
        (fold (host_step (\<lambda>_. True)) [RunClosings, Connect 8]
          (snd (revoke_device sample_device (sample_host\<lparr>hst_faults := [False, True]\<rparr>)))))"
proof -
  let ?h = "sample_host\<lparr>hst_faults := [False, True]\<rparr>" and ?es = "[RunClosings, Connect 8]"
  have good: "host_good (\<lambda>_. True) (\<lambda>_. True) ?h" using sample_host_good by (simp add: host_good_def)
  have answer: "fst (revoke_device sample_device ?h) = CredentialKept" by code_simp
  have es: "list_all (event_ok (\<lambda>_. True) (revoked_law sample_device)) ?es" by simp
  have same: "nocase_eq (map to_lower (trimmed sample_device)) sample_device" by code_simp
  have "\<not> fst (authenticate_device 8 sample_device ((=) ''secret'') ''t''
      (fold (host_step (\<lambda>_. True)) ?es (snd (revoke_device sample_device ?h))))"
    using revoked_stays_out [OF good _ es] answer same by (simp add: Let_def)
  moreover have "fst (authenticate_device 7 sample_device ((=) ''secret'') ''t'' (open_session 7 (empty_host []
      \<lparr>hst_devices := hst_devices sample_host, hst_credentials := hst_credentials sample_host\<rparr>)))"
    by code_simp
  ultimately show ?thesis by simp
qed

section \<open>What revocation does not do\<close>

text \<open>
  Revoking does not end the connections of the device itself: it posts the call that closes them,
  and a request that arrives before the event loop runs that call is still served, although
  \<open>revokeDevice\<close> says that no new request can be admitted.
\<close>

lemma revoked_still_served:
  "serves socket h \<Longrightarrow> serves socket (snd (revoke_device i h))"
proof -
  have "list_ex (\<lambda>x. ses_socket x = socket \<and> ses_authenticated x) (map (\<lambda>x. if P x then x\<lparr>ses_closing := True\<rparr> else x) xs)
      = list_ex (\<lambda>x. ses_socket x = socket \<and> ses_authenticated x) xs" for P xs
    by (induction xs) auto
  then have "serves socket (disconnect_device i g) = serves socket g" for g
    by (simp add: serves_def disconnect_device_def)
  moreover have "serves socket (snd (revoke_device i h)) = serves socket h
      \<or> serves socket (snd (revoke_device i h)) = serves socket (disconnect_device i h)"
    by (auto simp: serves_def revoke_device_def disconnect_device_def split_beta split: option.split)
  ultimately show "serves socket h \<Longrightarrow> serves socket (snd (revoke_device i h))" by auto
qed

text \<open>
  Reading a registry compares identities letter by letter while every other operation ignores
  their case: of two records that differ only in it, a complete revocation removes one.
\<close>

definition twin_host :: device_host where
  "twin_host = (let r = new_device sample_request sample_draw in
     restart (\<lambda>_. True) (empty_host []\<lparr>hst_file := Document (registry_document
       [r, r\<lparr>dev_id := map to_upper sample_device, dev_reference := ''other''\<rparr>]),
       hst_credentials := [''other'' \<mapsto> ''secret'']\<rparr>))"

lemma revocation_leaves_twin:
  "fst (revoke_device sample_device twin_host) = Revoked
   \<and> fst (authenticate_device 7 sample_device ((=) ''secret'') ''t''
        (open_session 7 (snd (revoke_device sample_device twin_host))))"
  by code_simp

end
