(* ===== verification/PairingLimits.thy ===== *)
theory PairingLimits
  imports DeviceSafety
begin

text \<open>
  What a pairing code is good for: how often it can be guessed, how fast, how long, and for how
  many devices; and that a pairing is stored completely or not at all.
\<close>

section \<open>The attempt after an event\<close>

lemma attempt_kept [simp]:
  "hst_attempt (snd (rename_device i n h)) = hst_attempt h"
  "hst_attempt (snd (deactivate_device i h)) = hst_attempt h"
  "hst_attempt (snd (deactivate_all h)) = hst_attempt h"
  "hst_attempt (snd (remove_device i h)) = hst_attempt h"
  "hst_attempt (snd (remove_all_inactive h)) = hst_attempt h"
  "hst_attempt (snd (update_last_seen i t h)) = hst_attempt h"
  "hst_attempt (snd (add_device r h)) = hst_attempt h"
  "hst_attempt (snd (remove_credential k h)) = hst_attempt h"
  "hst_attempt (snd (write_credential k v h)) = hst_attempt h"
  "hst_attempt (disconnect_device i h) = hst_attempt h"
  "hst_attempt (disconnect_all h) = hst_attempt h"
  "hst_attempt (open_session socket h) = hst_attempt h"
  "hst_attempt (run_closings h) = hst_attempt h"
  "hst_attempt (close_session socket h) = hst_attempt h"
  "hst_attempt (cancel_pairing h) = no_attempt"
  by (simp_all add: rename_device_def deactivate_device_def deactivate_all_def remove_device_def
      remove_all_inactive_def update_last_seen_def add_device_def remove_credential_def
      write_credential_def disconnect_device_def disconnect_all_def open_session_def run_closings_def close_session_def
      cancel_pairing_def split_beta split: option.split)

lemma attempt_remove_credentials [simp]: "hst_attempt (snd (remove_credentials ds h)) = hst_attempt h"
  by (induction ds arbitrary: h) (simp_all add: split_beta)

lemma attempt_others [simp]:
  "hst_attempt (snd (revoke_device i h)) = hst_attempt h"
  "hst_attempt (snd (revoke_all_devices h)) = hst_attempt h"
  "hst_attempt (snd (authenticate_device socket requested proves stamp h)) = hst_attempt h"
  "hst_attempt (restart readable h) = no_attempt"
  by (simp_all add: revoke_device_def revoke_all_devices_def authenticate_device_def device_secret_def
      restart_def load_registry_def split_beta split: option.split)

lemma attempt_enroll [simp]: "hst_attempt (snd (enroll q d h)) = hst_attempt h"
  by (simp add: enroll_def Let_def split_beta)

section \<open>The answers of the Host to pairing requests\<close>

fun wrong :: "pair_answer \<Rightarrow> bool" where
  "wrong PairingCodeInvalid = True"
| "wrong PairingAttemptsExceeded = True"
| "wrong _ = False"

fun paired :: "pair_answer \<Rightarrow> bool" where
  "paired (Paired _ _) = True"
| "paired _ = False"

fun pairings :: "(string \<Rightarrow> bool) \<Rightarrow> host_event list \<Rightarrow> device_host
    \<Rightarrow> (pair_request \<times> pair_draw \<times> pair_answer) list" where
  "pairings readable [] h = []"
| "pairings readable (e # es) h =
     (case e of Pair q d \<Rightarrow> [(q, d, fst (pair_device q d h))] | _ \<Rightarrow> [])
     @ pairings readable es (host_step readable e h)"

fun starts_pairing :: "host_event \<Rightarrow> bool" where
  "starts_pairing (StartPairing _ _) = True"
| "starts_pairing _ = False"

definition wrong_times :: "(pair_request \<times> pair_draw \<times> pair_answer) list \<Rightarrow> int list" where
  "wrong_times ps = map (\<lambda>(q, d, a). drw_now d) (filter (\<lambda>(q, d, a). wrong a) ps)"

lemma wrong_times_simps [simp]:
  "wrong_times [] = []"
  "wrong_times ((q, d, a) # ps) = (if wrong a then drw_now d # wrong_times ps else wrong_times ps)"
  by (simp_all add: wrong_times_def)

text \<open>A request in the terms of the attempt alone.\<close>

definition in_time :: "pair_draw \<Rightarrow> pairing_attempt \<Rightarrow> bool" where
  "in_time d a \<longleftrightarrow> att_active a \<and> drw_checked d < att_expires a
     \<and> (case att_retry a of None \<Rightarrow> True | Some t \<Rightarrow> t \<le> drw_now d)"

lemma enroll_not_wrong: "\<not> wrong (fst (enroll q d h))"
  by (simp add: enroll_def Let_def split_beta)

lemma pair_device_cases:
  assumes "pair_device q d h = (answer, g)" and "hst_attempt h = a"
  obtains (refused) "\<not> wrong answer" "\<not> paired answer" "hst_attempt g \<in> {a, no_attempt}"
  | (mistaken) "answer = PairingCodeInvalid" "in_time d a" "att_failures a + 1 < maximum_failures"
      "hst_attempt g = a\<lparr>att_failures := att_failures a + 1,
         att_retry := Some (drw_now d + 1000 * (att_failures a + 1))\<rparr>"
  | (exhausted) "answer = PairingAttemptsExceeded" "in_time d a" "hst_attempt g = no_attempt"
  | (enrolled) "paired answer" "in_time d a" "normalized_code (prq_code q) = Some (att_code a)"
      "hst_attempt g = no_attempt"
proof -
  let ?h = "expire_if_needed (drw_checked d) h"
  consider "\<not> att_active (hst_attempt ?h)" | "att_active (hst_attempt ?h)" "hst_attempt ?h = a"
      "drw_checked d < att_expires a"
    using assms(2)
    by (cases "att_active (hst_attempt h)"; cases "att_expires (hst_attempt h) \<le> drw_checked d")
       (simp_all add: expire_if_needed_def cancel_pairing_def no_attempt_def)
  then show ?thesis
  proof cases
    case 1
    with assms have "answer = PairingDisabled" "g = ?h" by (auto simp: pair_device_def Let_def)
    moreover have "hst_attempt ?h \<in> {a, no_attempt}"
      using assms(2) by (simp add: expire_if_needed_def)
    ultimately show ?thesis by (intro refused) simp_all
  next
    case 2
    show ?thesis
    proof (cases "case att_retry a of None \<Rightarrow> False | Some t \<Rightarrow> drw_now d < t")
      case True
      with 2 assms have "answer = PairingRateLimited" "g = ?h" by (auto simp: pair_device_def Let_def)
      with 2 show ?thesis by (intro refused) simp_all
    next
      case False
      with 2 have time: "in_time d a" by (auto simp: in_time_def split: option.splits)
      note rest = assms(1) [unfolded pair_device_def Let_def 2(2)] False 2(1)
      show ?thesis
      proof (cases "normalized_code (prq_code q) = Some (att_code a)")
        case False
        with rest 2(2) have "wrong_code (drw_now d) ?h = (answer, g)" by simp
        then show ?thesis
          using time 2(2) by (auto simp: wrong_code_def Let_def split: if_splits intro: mistaken exhausted)
      next
        case code: True
        show ?thesis
        proof (cases "trimmed (prq_name q) = [] \<or> length (trimmed (prq_name q)) > 80")
          case True
          with code rest 2(2) have "answer = PairingInvalidName" "g = ?h" by auto
          with 2 show ?thesis by (intro refused) simp_all
        next
          case False
          with code rest 2(2) have e: "enroll q d (cancel_pairing ?h) = (answer, g)" by auto
          then have "hst_attempt g = no_attempt" "\<not> wrong answer"
            using attempt_enroll [of q d "cancel_pairing ?h"] enroll_not_wrong [of q d "cancel_pairing ?h"]
            by simp_all
          with time code show ?thesis by (cases "paired answer") (auto intro: refused enrolled)
        qed
      qed
    qed
  qed
qed

text \<open>An event that is neither a start nor a request leaves the attempt or ends it.\<close>

lemma other_attempt:
  assumes "\<not> starts_pairing e" "\<nexists>q d. e = Pair q d"
  shows "hst_attempt (host_step readable e h) \<in> {hst_attempt h, no_attempt}"
  using assms by (cases e) (auto simp: expire_if_needed_def)

section \<open>The bounds\<close>

text \<open>Times of wrong codes, when \<open>n\<close> were wrong before and the next one is admitted from \<open>retry\<close> on.\<close>

fun spaced :: "int \<Rightarrow> int option \<Rightarrow> int list \<Rightarrow> bool" where
  "spaced n retry [] \<longleftrightarrow> True"
| "spaced n retry (t # ts) \<longleftrightarrow> n < maximum_failures \<and> (case retry of None \<Rightarrow> True | Some r \<Rightarrow> r \<le> t)
     \<and> spaced (n + 1) (Some (t + 1000 * (n + 1))) ts"

lemma spaced_length: "spaced n retry ts \<Longrightarrow> n \<le> maximum_failures \<Longrightarrow> n + int (length ts) \<le> maximum_failures"
  by (induction n retry ts rule: spaced.induct) auto

lemma spaced_gap:
  "spaced n retry ts \<Longrightarrow> Suc k < length ts \<Longrightarrow> ts ! k + 1000 * (n + 1 + int k) \<le> ts ! Suc k"
proof (induction n retry ts arbitrary: k rule: spaced.induct)
  case (2 n retry t ts)
  then show ?case
    by (cases k; cases ts) (auto simp: algebra_simps)
qed simp

definition ended :: "pairing_attempt \<Rightarrow> bool" where
  "ended a \<longleftrightarrow> \<not> att_active a"

lemma ended_no_attempt [simp]: "ended no_attempt" "\<not> in_time d no_attempt"
  by (simp_all add: ended_def no_attempt_def in_time_def)

lemma ended_in_time: "ended a \<Longrightarrow> \<not> in_time d a"
  by (simp add: ended_def in_time_def)

text \<open>With the attempt ended, no code is compared any more.\<close>

lemma pairings_ended:
  "list_all (\<lambda>e. \<not> starts_pairing e) es \<Longrightarrow> ended (hst_attempt h) \<Longrightarrow> (q, d, a) \<in> set (pairings readable es h)
   \<Longrightarrow> \<not> wrong a \<and> \<not> paired a"
proof (induction es arbitrary: h)
  case (Cons e es)
  have next_ended: "ended (hst_attempt (host_step readable e h))"
  proof (cases "\<exists>q d. e = Pair q d")
    case True
    then obtain q d where e: "e = Pair q d" by auto
    show ?thesis
      by (rule pair_device_cases [OF prod.collapse [symmetric, of "pair_device q d h"] refl])
         (use Cons.prems(2) ended_in_time in \<open>auto simp: e\<close>)
  next
    case False
    with Cons.prems other_attempt [of e readable h] show ?thesis by auto
  qed
  show ?case
  proof (cases "(q, d, a) \<in> set (pairings readable es (host_step readable e h))")
    case True
    with Cons.IH next_ended Cons.prems(1) show ?thesis by simp
  next
    case False
    with Cons.prems(3) have e: "e = Pair q d" and a: "a = fst (pair_device q d h)"
      by (auto split: host_event.splits)
    show ?thesis
      by (rule pair_device_cases [OF prod.collapse [symmetric, of "pair_device q d h"] refl])
         (use Cons.prems(2) ended_in_time in \<open>auto simp: a\<close>)
  qed
qed simp

lemma wrong_times_ended:
  "list_all (\<lambda>e. \<not> starts_pairing e) es \<Longrightarrow> ended (hst_attempt h) \<Longrightarrow> wrong_times (pairings readable es h) = []"
  "list_all (\<lambda>e. \<not> starts_pairing e) es \<Longrightarrow> ended (hst_attempt h)
   \<Longrightarrow> filter (\<lambda>(q, d, a). paired a) (pairings readable es h) = []"
  using pairings_ended [of es h _ _ _ readable]
  by (fastforce simp: wrong_times_def filter_empty_conv)+

definition pairings_within ::
    "pairing_attempt \<Rightarrow> (pair_request \<times> pair_draw \<times> pair_answer) list \<Rightarrow> bool" where
  "pairings_within a ps \<longleftrightarrow> spaced (att_failures a) (att_retry a) (wrong_times ps)
     \<and> length (filter (\<lambda>(q, d, x). paired x) ps) \<le> 1
     \<and> (\<forall>(q, d, x) \<in> set ps. wrong x \<or> paired x \<longrightarrow> drw_checked d < att_expires a)
     \<and> (\<forall>(q, d, x) \<in> set ps. paired x \<longrightarrow> normalized_code (prq_code q) = Some (att_code a))"

lemma within_ended:
  "list_all (\<lambda>e. \<not> starts_pairing e) es \<Longrightarrow> ended (hst_attempt h)
   \<Longrightarrow> pairings_within a (pairings readable es h)"
  using pairings_ended [of es h _ _ _ readable]
  by (auto simp: pairings_within_def wrong_times_ended)

lemma within_refused:
  "\<not> wrong x \<Longrightarrow> \<not> paired x \<Longrightarrow> pairings_within a ps \<Longrightarrow> pairings_within a ((q, d, x) # ps)"
  by (auto simp: pairings_within_def)

lemma within_last:
  assumes "pairings_within no_attempt ps" "wrong_times ps = []" "filter (\<lambda>(q, d, x). paired x) ps = []"
    and "in_time d a" "att_failures a < maximum_failures" "wrong x \<noteq> paired x"
    and "paired x \<Longrightarrow> normalized_code (prq_code q) = Some (att_code a)"
  shows "pairings_within a ((q, d, x) # ps)"
proof -
  have none: "\<not> wrong y \<and> \<not> paired y" if "(p, c, y) \<in> set ps" for p c y
    using assms(2,3) that by (auto simp: wrong_times_def filter_empty_conv)
  have "spaced (att_failures a) (att_retry a) (wrong_times ((q, d, x) # ps))"
    using assms(2,4,5) by (simp add: in_time_def split: option.splits)
  moreover have "length (filter (\<lambda>(q, d, x). paired x) ((q, d, x) # ps)) \<le> 1"
    using assms(3) by simp
  moreover have "drw_checked d < att_expires a" using assms(4) by (simp add: in_time_def)
  ultimately show ?thesis
    unfolding pairings_within_def using none assms(7) by auto
qed

lemma within_mistaken:
  assumes "pairings_within (a\<lparr>att_failures := att_failures a + 1,
      att_retry := Some (drw_now d + 1000 * (att_failures a + 1))\<rparr>) ps" "in_time d a"
    "att_failures a < maximum_failures"
  shows "pairings_within a ((q, d, PairingCodeInvalid) # ps)"
  using assms by (auto simp: pairings_within_def in_time_def split: option.splits)

lemma pairings_bounds:
  "list_all (\<lambda>e. \<not> starts_pairing e) es \<Longrightarrow>
   att_active (hst_attempt h) \<Longrightarrow> att_failures (hst_attempt h) < maximum_failures \<Longrightarrow>
   pairings_within (hst_attempt h) (pairings readable es h)"
proof (induction es arbitrary: h)
  case Nil
  then show ?case by (simp add: pairings_within_def)
next
  case (Cons e es)
  let ?a = "hst_attempt h" and ?g = "host_step readable e h"
  have es: "list_all (\<lambda>e. \<not> starts_pairing e) es" and e: "\<not> starts_pairing e" using Cons.prems(1) by auto
  have kept: "pairings_within ?a (pairings readable es ?g)" if "hst_attempt ?g \<in> {?a, no_attempt}"
    using that Cons.IH [OF es, of ?g] Cons.prems within_ended [OF es, of ?g] by auto
  show ?case
  proof (cases "\<exists>q d. e = Pair q d")
    case False
    then have "pairings readable (e # es) h = pairings readable es ?g" by (cases e) auto
    with kept other_attempt [OF e False] show ?thesis by simp
  next
    case True
    then obtain q d where p: "e = Pair q d" by auto
    obtain x g where x: "pair_device q d h = (x, g)" by (cases "pair_device q d h") auto
    then have all: "pairings readable (e # es) h = (q, d, x) # pairings readable es g" and g: "?g = g"
      by (simp_all add: p)
    from x refl show ?thesis
    proof (cases rule: pair_device_cases)
      case refused
      with kept show ?thesis unfolding all g by (intro within_refused) simp_all
    next
      case mistaken
      with Cons.IH [OF es, of g] Cons.prems show ?thesis
        unfolding all by (simp add: within_mistaken)
    next
      case exhausted
      with Cons.prems show ?thesis unfolding all
        by (intro within_last within_ended wrong_times_ended es) simp_all
    next
      case enrolled
      moreover have "\<not> wrong x" using enrolled(1) by (cases x) auto
      ultimately show ?thesis unfolding all using Cons.prems
        by (intro within_last within_ended wrong_times_ended es) simp_all
    qed
  qed
qed

text \<open>
  Property C36. A pairing code is good for little. From the start of a pairing until the next one,
  whatever else happens in between, at most five wrong codes are compared, the next one after the
  k-th at least k seconds later; at most one device is enrolled, with the right code; and no code
  is compared later than 300 seconds after the start.
\<close>

theorem pairing_code_limited:
  assumes "list_all (\<lambda>e. \<not> starts_pairing e) es"
  shows "let ps = pairings readable es (start_pairing (Some digits) now h); ts = wrong_times ps in
    length ts \<le> 5 \<and> (\<forall>k. Suc k < length ts \<longrightarrow> ts ! k + 1000 * (int k + 1) \<le> ts ! Suc k)
    \<and> length (filter (\<lambda>(q, d, x). paired x) ps) \<le> 1
    \<and> (\<forall>(q, d, x) \<in> set ps. wrong x \<or> paired x \<longrightarrow> drw_checked d < now + 300000)
    \<and> (\<forall>(q, d, x) \<in> set ps. paired x \<longrightarrow> normalized_code (prq_code q) = Some (group_code digits))"
proof -
  let ?h = "start_pairing (Some digits) now h"
  have within: "pairings_within (hst_attempt ?h) (pairings readable es ?h)"
    by (rule pairings_bounds [OF assms]) (simp_all add: start_pairing_def maximum_failures_def)
  then have spaced: "spaced 0 None (wrong_times (pairings readable es ?h))"
    by (simp add: pairings_within_def start_pairing_def)
  have "length (wrong_times (pairings readable es ?h)) \<le> 5"
    using spaced_length [OF spaced] by (simp add: maximum_failures_def)
  moreover have "\<forall>k. Suc k < length (wrong_times (pairings readable es ?h)) \<longrightarrow>
      wrong_times (pairings readable es ?h) ! k + 1000 * (int k + 1) \<le> wrong_times (pairings readable es ?h) ! Suc k"
    using spaced_gap [OF spaced] by (simp add: algebra_simps)
  ultimately show ?thesis
    using within unfolding Let_def pairings_within_def
    by (simp add: start_pairing_def expiration_seconds_def)
qed

theorem pairing_code_limited_witness:
  "let q = sample_request\<lparr>prq_code := ''0000-0000-0000-0000''\<rparr>;
       es = [Pair q sample_draw, Pair q (sample_draw\<lparr>drw_now := 1500\<rparr>), Pair q (sample_draw\<lparr>drw_now := 2000\<rparr>),
         Pair sample_request (sample_draw\<lparr>drw_now := 4000\<rparr>)];
       ps = pairings (\<lambda>_. True) es (start_pairing (Some ''0123456789ABCDEF'') 0 (empty_host []))
   in wrong_times ps = [1000, 2000] \<and> length (wrong_times ps) \<le> 5
      \<and> length (filter (\<lambda>(q, d, x). paired x) ps) = 1"
proof -
  define q where "q = sample_request\<lparr>prq_code := ''0000-0000-0000-0000''\<rparr>"
  define es where "es = [Pair q sample_draw, Pair q (sample_draw\<lparr>drw_now := 1500\<rparr>),
    Pair q (sample_draw\<lparr>drw_now := 2000\<rparr>), Pair sample_request (sample_draw\<lparr>drw_now := 4000\<rparr>)]"
  define ps where "ps = pairings (\<lambda>_. True) es (start_pairing (Some ''0123456789ABCDEF'') 0 (empty_host []))"
  have "list_all (\<lambda>e. \<not> starts_pairing e) es" by (simp add: es_def)
  from pairing_code_limited [OF this, of "\<lambda>_. True" "''0123456789ABCDEF''" 0 "empty_host []"]
  have "length (wrong_times ps) \<le> 5" by (simp add: ps_def Let_def)
  moreover have "wrong_times ps = [1000, 2000]" "length (filter (\<lambda>(q, d, x). paired x) ps) = 1"
    unfolding ps_def es_def q_def by code_simp+
  ultimately show ?thesis by (simp add: ps_def es_def q_def Let_def)
qed

section \<open>All or nothing\<close>

text \<open>What a request that enrolls nobody leaves: at most the new credential.\<close>

definition nobody_enrolled :: "pair_draw \<Rightarrow> device_host \<Rightarrow> device_host \<Rightarrow> bool" where
  "nobody_enrolled d h g \<longleftrightarrow> hst_devices g = hst_devices h \<and> hst_file g = hst_file h
     \<and> (\<forall>k. k \<noteq> credential_reference (drw_device d) \<longrightarrow> hst_credentials g k = hst_credentials h k)"

lemma add_device_cases:
  "(fst (add_device r h) \<and> find_device (dev_id r) (hst_devices h) = None
      \<and> hst_devices (snd (add_device r h)) = hst_devices h @ [r]
      \<and> hst_file (snd (add_device r h)) = Document (registry_document (hst_devices h @ [r])))
   \<or> (\<not> fst (add_device r h) \<and> hst_devices (snd (add_device r h)) = hst_devices h
      \<and> hst_file (snd (add_device r h)) = hst_file h)"
  using save_changed_cases [of "hst_devices h @ [r]" h]
  by (auto simp: add_device_def same_registry_def)

lemma credential_steps [simp]:
  "hst_devices (snd (write_credential k v h)) = hst_devices h" "hst_file (snd (write_credential k v h)) = hst_file h"
  "hst_devices (snd (remove_credential k h)) = hst_devices h" "hst_file (snd (remove_credential k h)) = hst_file h"
  "hst_credentials (snd (add_device r h)) = hst_credentials h"
  "fst (write_credential k v h) \<Longrightarrow> hst_credentials (snd (write_credential k v h)) = (hst_credentials h)(k \<mapsto> v)"
  "\<not> fst (write_credential k v h) \<Longrightarrow> hst_credentials (snd (write_credential k v h)) = hst_credentials h"
  "k' \<noteq> k \<Longrightarrow> hst_credentials (snd (remove_credential k h)) k' = hst_credentials h k'"
  by (simp_all add: write_credential_def remove_credential_def add_device_def split_beta)

lemma enroll_effect:
  assumes "enroll q d h = (answer, g)"
  shows "(answer = Paired (drw_device d) (drw_credential d) \<and> drw_credential d \<noteq> []
      \<and> find_device (drw_device d) (hst_devices h) = None \<and> hst_devices g = hst_devices h @ [new_device q d]
      \<and> hst_file g = Document (registry_document (hst_devices h @ [new_device q d]))
      \<and> hst_credentials g = (hst_credentials h)(credential_reference (drw_device d) \<mapsto> drw_credential d))
    \<or> (\<not> paired answer \<and> nobody_enrolled d h g)"
proof -
  let ?k = "credential_reference (drw_device d)" and ?w = "write_credential (credential_reference (drw_device d)) (drw_credential d) h"
  have id: "dev_id (new_device q d) = drw_device d" by (simp add: new_device_def)
  show ?thesis
  proof (cases "drw_credential d \<noteq> [] \<and> fst ?w")
    case False
    then have "(answer, g) = (CredentialStoreFailed, if drw_credential d = [] then h else snd ?w)"
      using assms by (cases "drw_credential d = []") (auto simp: enroll_def Let_def split_beta)
    with False show ?thesis by (auto simp: nobody_enrolled_def)
  next
    case True
    with assms have "(answer, g) = (if fst (add_device (new_device q d) (snd ?w))
        then (Paired (drw_device d) (drw_credential d), snd (add_device (new_device q d) (snd ?w)))
        else (PairingPersistenceFailed, snd (remove_credential ?k (snd (add_device (new_device q d) (snd ?w))))))"
      by (simp add: enroll_def Let_def split_beta)
    with True add_device_cases [of "new_device q d" "snd ?w"] show ?thesis
      by (auto simp: id nobody_enrolled_def split: if_splits)
  qed
qed

lemma nobody_enrolled_kept [simp]:
  "nobody_enrolled d h (h\<lparr>hst_attempt := a\<rparr>)" "nobody_enrolled d h h" "nobody_enrolled d h (expire_if_needed t h)"
  by (simp_all add: nobody_enrolled_def expire_if_needed_def cancel_pairing_def)

lemma pair_device_effect:
  assumes "pair_device q d h = (answer, g)"
  shows "(answer = Paired (drw_device d) (drw_credential d) \<and> drw_credential d \<noteq> []
      \<and> find_device (drw_device d) (hst_devices h) = None \<and> hst_devices g = hst_devices h @ [new_device q d]
      \<and> hst_file g = Document (registry_document (hst_devices h @ [new_device q d]))
      \<and> hst_credentials g = (hst_credentials h)(credential_reference (drw_device d) \<mapsto> drw_credential d))
    \<or> (\<not> paired answer \<and> nobody_enrolled d h g)"
proof -
  let ?h = "expire_if_needed (drw_checked d) h"
  have rest: "hst_devices ?h = hst_devices h" "hst_file ?h = hst_file h" "hst_credentials ?h = hst_credentials h"
    by (simp_all add: expire_if_needed_def cancel_pairing_def)
  from assms consider "\<not> paired answer" "nobody_enrolled d h g"
    | "enroll q d (cancel_pairing ?h) = (answer, g)"
    by (auto simp: pair_device_def Let_def wrong_code_def cancel_pairing_def nobody_enrolled_def rest split: if_splits)
  then show ?thesis
  proof cases
    case 2
    from enroll_effect [OF this] show ?thesis
      by (simp add: rest cancel_pairing_def nobody_enrolled_def)
  qed simp
qed

text \<open>
  A pairing is stored completely or not at all. When it succeeds, the new device is
  in memory and in the file, its credential is the one the client is told, and the code is used
  up; when it is answered with an error, whatever failed, the devices and the file are as before,
  and so is every credential except, when it could not be removed again, the new one.
\<close>

theorem pairing_all_or_nothing:
  assumes "pair_device q d h = (answer, g)"
  shows "case answer of
      Paired i c \<Rightarrow> i = drw_device d \<and> c = drw_credential d \<and> c \<noteq> []
        \<and> find_device i (hst_devices h) = None \<and> hst_devices g = hst_devices h @ [new_device q d]
        \<and> hst_file g = Document (registry_document (hst_devices g))
        \<and> hst_credentials g = (hst_credentials h)(credential_reference i \<mapsto> c) \<and> \<not> att_active (hst_attempt g)
    | _ \<Rightarrow> hst_devices g = hst_devices h \<and> hst_file g = hst_file h
        \<and> (\<forall>k. k \<noteq> credential_reference (drw_device d) \<longrightarrow> hst_credentials g k = hst_credentials h k)"
proof -
  have "hst_attempt g = no_attempt" if "paired answer"
    using assms refl by (rule pair_device_cases) (use that in \<open>auto\<close>)
  with pair_device_effect [OF assms] show ?thesis
    by (auto simp: nobody_enrolled_def no_attempt_def split: pair_answer.split)
qed

theorem pairing_all_or_nothing_witness:
  "let h = start_pairing (Some ''0123456789ABCDEF'') 0 (empty_host [False, True, True])
   in fst (pair_device sample_request sample_draw h) = PairingPersistenceFailed
      \<and> hst_devices (snd (pair_device sample_request sample_draw h)) = []"
proof -
  define h where "h = start_pairing (Some ''0123456789ABCDEF'') 0 (empty_host [False, True, True])"
  have answer: "fst (pair_device sample_request sample_draw h) = PairingPersistenceFailed"
    unfolding h_def by code_simp
  then obtain g where g: "pair_device sample_request sample_draw h = (PairingPersistenceFailed, g)"
    by (cases "pair_device sample_request sample_draw h") simp
  from pairing_all_or_nothing [OF this] have "hst_devices g = []"
    by (simp add: h_def start_pairing_def empty_host_def)
  with answer g show ?thesis by (simp add: h_def Let_def)
qed

end
