(* ===== verification/Invalidations.thy ===== *)
theory Invalidations
  imports Prelude Json
begin

text \<open>
  The events that tell clients which data a mutation changed: the event and its payload
  (\<open>network/OperationalInvalidation\<close>), which event belongs to which mutation
  (\<open>services/application/HostMutationPublicationService\<close>), and the broadcast to the clients
  (\<open>BrickSuiteWebSocketServer::broadcastInvalidation\<close>).

  A payload is an object of JSON values. Numbers are exact: every number of an event that is sent
  has passed \<open>validate\<close> and is at most \<open>MaximumJsonInteger\<close>, which a double holds.
\<close>

section \<open>Events\<close>

datatype inval_domain =
    WorkspacesDomain | StorageDomain | InventoryDomain | InventoryHistoryDomain | BuildsDomain
  | BuildRequirementsDomain | MissingPartsDomain | PullingDomain | CollectionDomain
  | PartReferencesDomain | BuildabilityDomain

definition all_domains :: "inval_domain list" where
  "all_domains = [WorkspacesDomain, StorageDomain, InventoryDomain, InventoryHistoryDomain, BuildsDomain,
     BuildRequirementsDomain, MissingPartsDomain, PullingDomain, CollectionDomain, PartReferencesDomain,
     BuildabilityDomain]"

primrec domain_name :: "inval_domain \<Rightarrow> string" where
  "domain_name WorkspacesDomain = ''workspaces''"
| "domain_name StorageDomain = ''storage''"
| "domain_name InventoryDomain = ''inventory''"
| "domain_name InventoryHistoryDomain = ''inventoryHistory''"
| "domain_name BuildsDomain = ''builds''"
| "domain_name BuildRequirementsDomain = ''buildRequirements''"
| "domain_name MissingPartsDomain = ''missingParts''"
| "domain_name PullingDomain = ''pulling''"
| "domain_name CollectionDomain = ''collection''"
| "domain_name PartReferencesDomain = ''partReferenceCustomizations''"
| "domain_name BuildabilityDomain = ''buildability''"

definition domain_from_name :: "string \<Rightarrow> inval_domain option" where
  "domain_from_name name = find (\<lambda>d. domain_name d = name) all_domains"

record invalidation =
  ivd_sequence :: int
  ivd_domains :: "inval_domain list"
  ivd_workspace :: "int option"
  ivd_build :: "int option"
  ivd_record :: "int option"
  ivd_location :: "int option"
  ivd_item :: "int option"
  ivd_part :: string

definition no_invalidation :: invalidation where
  "no_invalidation = \<lparr>ivd_sequence = 0, ivd_domains = [], ivd_workspace = None, ivd_build = None,
     ivd_record = None, ivd_location = None, ivd_item = None, ivd_part = []\<rparr>"

definition maximum_domains :: nat where "maximum_domains = 11"
definition maximum_part_number :: nat where "maximum_part_number = 128"
definition maximum_json_integer :: int where "maximum_json_integer = 9007199254740991"

definition requires_workspace :: "inval_domain \<Rightarrow> bool" where
  "requires_workspace d \<longleftrightarrow> d \<notin> {WorkspacesDomain, PartReferencesDomain, BuildabilityDomain}"

definition valid_id :: "int option \<Rightarrow> bool" where
  "valid_id i = (case i of None \<Rightarrow> True | Some n \<Rightarrow> n > 0 \<and> n \<le> maximum_json_integer)"

text \<open>The domains are enumerators, so none lies outside the enumeration.\<close>

definition validate :: "bool \<Rightarrow> invalidation \<Rightarrow> bool" where
  "validate require_sequence v \<longleftrightarrow>
     \<not> (require_sequence \<and> ivd_sequence v = 0) \<and> ivd_sequence v \<le> maximum_json_integer
     \<and> ivd_domains v \<noteq> [] \<and> length (ivd_domains v) \<le> maximum_domains
     \<and> distinct (ivd_domains v)
     \<and> \<not> (list_ex requires_workspace (ivd_domains v) \<and> list_ex (\<lambda>d. \<not> requires_workspace d) (ivd_domains v))
     \<and> \<not> (list_ex requires_workspace (ivd_domains v) \<and> ivd_workspace v = None)
     \<and> valid_id (ivd_workspace v) \<and> valid_id (ivd_build v) \<and> valid_id (ivd_record v)
     \<and> valid_id (ivd_location v) \<and> valid_id (ivd_item v)
     \<and> length (ivd_part v) \<le> maximum_part_number"

section \<open>Payloads\<close>

definition id_field :: "string \<Rightarrow> int option \<Rightarrow> (string \<times> json) list" where
  "id_field k i = (case i of None \<Rightarrow> [] | Some n \<Rightarrow> [(k, JNumber (of_int n))])"

definition to_payload :: "invalidation \<Rightarrow> (string \<times> json) list" where
  "to_payload v =
     [(''sequence'', JNumber (of_int (ivd_sequence v))),
      (''domains'', JArray (map (\<lambda>d. JString (domain_name d)) (ivd_domains v)))]
     @ id_field ''workspaceId'' (ivd_workspace v) @ id_field ''buildId'' (ivd_build v)
     @ id_field ''inventoryRecordId'' (ivd_record v) @ id_field ''storageLocationId'' (ivd_location v)
     @ id_field ''collectionItemId'' (ivd_item v)
     @ (if ivd_part v = [] then [] else [(''partNumber'', JString (ivd_part v))])"

definition for_protocol_minor :: "int \<Rightarrow> invalidation \<Rightarrow> invalidation" where
  "for_protocol_minor minor v =
     (if minor < 5 then v\<lparr>ivd_domains := removeAll BuildabilityDomain (ivd_domains v)\<rparr> else v)"

definition payload_fields :: "string list" where
  "payload_fields = [''sequence'', ''domains'', ''workspaceId'', ''buildId'', ''inventoryRecordId'',
     ''storageLocationId'', ''collectionItemId'', ''partNumber'']"

definition counting_number :: "json option \<Rightarrow> int option" where
  "counting_number j = (case j of
     Some (JNumber x) \<Rightarrow> if x < 1 \<or> x > of_int maximum_json_integer \<or> x \<noteq> of_int \<lfloor>x\<rfloor> then None else Some \<lfloor>x\<rfloor>
   | _ \<Rightarrow> None)"

definition read_optional_id :: "string \<Rightarrow> (string \<times> json) list \<Rightarrow> int option option" where
  "read_optional_id k p = (if field k p = None then Some None else map_option Some (counting_number (field k p)))"

fun read_domains :: "json list \<Rightarrow> string list \<Rightarrow> inval_domain list option" where
  "read_domains [] seen = Some []"
| "read_domains (JString s # js) seen =
     (if s \<in> set seen then None
      else case domain_from_name s of None \<Rightarrow> None
        | Some d \<Rightarrow> map_option (Cons d) (read_domains js (s # seen)))"
| "read_domains (_ # js) seen = None"

definition read_part :: "(string \<times> json) list \<Rightarrow> string option" where
  "read_part p = (case field ''partNumber'' p of None \<Rightarrow> Some []
     | Some (JString s) \<Rightarrow> if trimmed s = [] then None else Some (trimmed s)
     | _ \<Rightarrow> None)"

definition read_domain_list :: "(string \<times> json) list \<Rightarrow> inval_domain list option" where
  "read_domain_list p = (case field ''domains'' p of
     Some (JArray js) \<Rightarrow> if js = [] \<or> length js > maximum_domains then None else read_domains js []
   | _ \<Rightarrow> None)"

definition from_payload :: "(string \<times> json) list \<Rightarrow> invalidation option" where
  "from_payload p =
     (if \<not> set (map fst p) \<subseteq> set payload_fields then None
      else do {
        sequence \<leftarrow> counting_number (field ''sequence'' p);
        domains \<leftarrow> read_domain_list p;
        workspace \<leftarrow> read_optional_id ''workspaceId'' p;
        build \<leftarrow> read_optional_id ''buildId'' p;
        record_id \<leftarrow> read_optional_id ''inventoryRecordId'' p;
        location \<leftarrow> read_optional_id ''storageLocationId'' p;
        item \<leftarrow> read_optional_id ''collectionItemId'' p;
        part \<leftarrow> read_part p;
        let v = \<lparr>ivd_sequence = sequence, ivd_domains = domains, ivd_workspace = workspace,
          ivd_build = build, ivd_record = record_id, ivd_location = location, ivd_item = item,
          ivd_part = part\<rparr>
        in if validate True v then Some v else None
      })"

section \<open>Which event a mutation publishes\<close>

datatype workflow =
    WorkspaceWork | StorageWork | InventoryWork | BuildMetadataWork | BuildRequirementsWork
  | BuildCancellationWork | BuildDisassemblyWork | CompleteSetSpareWork | PullingWork | CollectionWork
  | CollectionDisassemblyWork | PartReferenceWork

record mutation_scope =
  sco_workspace :: "int option"
  sco_build :: "int option"
  sco_record :: "int option"
  sco_location :: "int option"
  sco_item :: "int option"
  sco_part :: string
  sco_inventory_changed :: bool
  sco_collection_changed :: bool

definition stock_domains :: "inval_domain list" where
  "stock_domains = [InventoryDomain, InventoryHistoryDomain, BuildsDomain, BuildRequirementsDomain,
     MissingPartsDomain, PullingDomain]"

definition build_domains :: "inval_domain list" where
  "build_domains = [BuildsDomain, BuildRequirementsDomain, MissingPartsDomain, PullingDomain]"

text \<open>The three ways a Build ends, or gives up spares, share their event.\<close>

definition build_end_invalidation :: "mutation_scope \<Rightarrow> invalidation" where
  "build_end_invalidation sc = no_invalidation\<lparr>
     ivd_domains := build_domains
       @ (if sco_inventory_changed sc then [InventoryDomain, InventoryHistoryDomain] else [])
       @ (if sco_collection_changed sc then [CollectionDomain] else []),
     ivd_workspace := sco_workspace sc, ivd_build := sco_build sc\<rparr>"

primrec invalidation_for :: "workflow \<Rightarrow> mutation_scope \<Rightarrow> invalidation" where
  "invalidation_for WorkspaceWork sc = no_invalidation\<lparr>ivd_domains := [WorkspacesDomain]\<rparr>"
| "invalidation_for StorageWork sc = no_invalidation\<lparr>ivd_domains := [StorageDomain],
     ivd_workspace := sco_workspace sc, ivd_location := sco_location sc\<rparr>"
| "invalidation_for InventoryWork sc = no_invalidation\<lparr>ivd_domains := stock_domains,
     ivd_workspace := sco_workspace sc, ivd_record := sco_record sc\<rparr>"
| "invalidation_for BuildMetadataWork sc = no_invalidation\<lparr>ivd_domains := [BuildsDomain],
     ivd_workspace := sco_workspace sc, ivd_build := sco_build sc\<rparr>"
| "invalidation_for BuildRequirementsWork sc = no_invalidation\<lparr>ivd_domains := build_domains,
     ivd_workspace := sco_workspace sc, ivd_build := sco_build sc\<rparr>"
| "invalidation_for BuildCancellationWork sc = build_end_invalidation sc"
| "invalidation_for BuildDisassemblyWork sc = build_end_invalidation sc"
| "invalidation_for CompleteSetSpareWork sc = build_end_invalidation sc"
| "invalidation_for PullingWork sc = no_invalidation\<lparr>ivd_domains := stock_domains,
     ivd_workspace := sco_workspace sc, ivd_build := sco_build sc\<rparr>"
| "invalidation_for CollectionWork sc = no_invalidation\<lparr>ivd_domains := [CollectionDomain],
     ivd_workspace := sco_workspace sc, ivd_item := sco_item sc\<rparr>"
| "invalidation_for CollectionDisassemblyWork sc = no_invalidation\<lparr>
     ivd_domains := [CollectionDomain, InventoryDomain, InventoryHistoryDomain],
     ivd_workspace := sco_workspace sc, ivd_item := sco_item sc\<rparr>"
| "invalidation_for PartReferenceWork sc = no_invalidation\<lparr>ivd_domains := [PartReferencesDomain],
     ivd_part := trimmed (sco_part sc)\<rparr>"

definition publish :: "workflow \<Rightarrow> mutation_scope \<Rightarrow> invalidation option" where
  "publish w sc = (let v = invalidation_for w sc in if validate False v then Some v else None)"

section \<open>The broadcast\<close>

record listener =
  lis_socket :: nat
  lis_authenticated :: bool
  lis_ready :: bool
  lis_minor :: int

definition receives :: "invalidation \<Rightarrow> listener \<Rightarrow> bool" where
  "receives v l \<longleftrightarrow> lis_authenticated l \<and> lis_ready l \<and> lis_minor l \<ge> 1
     \<and> ivd_domains (for_protocol_minor (lis_minor l) v) \<noteq> []"

definition next_sequence :: "int \<Rightarrow> int" where
  "next_sequence n = (if n = 0 \<or> n > maximum_json_integer then 1 else n)"

text \<open>The payloads handed to the connections, and the number of the next event.\<close>

definition broadcast :: "listener list \<Rightarrow> invalidation \<Rightarrow> int \<Rightarrow> (nat \<times> (string \<times> json) list) list \<times> int" where
  "broadcast listeners v0 n =
     (let v = v0\<lparr>ivd_sequence := next_sequence n\<rparr> in
      (if validate True v then map (\<lambda>l. (lis_socket l, to_payload (for_protocol_minor (lis_minor l) v)))
         (filter (receives v) listeners) else [],
       next_sequence n + 1))"

section \<open>Names and numbers read back\<close>

lemma domain_from_name [simp]: "domain_from_name (domain_name d) = Some d"
  by (cases d) (simp_all add: domain_from_name_def all_domains_def)

lemma domain_from_nameD: "domain_from_name s = Some d \<Longrightarrow> s = domain_name d"
  by (auto simp: domain_from_name_def dest: find_SomeD)

lemma inj_domain_name: "domain_name d = domain_name e \<longleftrightarrow> d = e"
  by (metis domain_from_name option.inject)

lemma read_domains_names:
  "distinct ds \<Longrightarrow> domain_name ` set ds \<inter> set seen = {}
   \<Longrightarrow> read_domains (map (\<lambda>d. JString (domain_name d)) ds) seen = Some ds"
proof (induction ds arbitrary: seen)
  case (Cons d ds)
  have "read_domains (map (\<lambda>d. JString (domain_name d)) ds) (domain_name d # seen) = Some ds"
    using Cons.prems by (intro Cons.IH) (auto simp: inj_domain_name)
  with Cons.prems show ?case by simp
qed simp

lemma read_domainsD:
  "read_domains js seen = Some ds \<Longrightarrow> js = map (\<lambda>d. JString (domain_name d)) ds"
proof (induction js seen arbitrary: ds rule: read_domains.induct)
  case (2 s js seen)
  then show ?case by (auto split: if_splits option.splits dest: domain_from_nameD)
qed auto

lemma counting_number_of_int [simp]:
  "1 \<le> n \<Longrightarrow> n \<le> maximum_json_integer \<Longrightarrow> counting_number (Some (JNumber (of_int n))) = Some n"
  by (simp add: counting_number_def)

lemma counting_numberD:
  "counting_number j = Some n \<Longrightarrow> j = Some (JNumber (of_int n)) \<and> 1 \<le> n \<and> n \<le> maximum_json_integer"
  by (auto simp: counting_number_def le_floor_iff floor_le_iff split: option.splits json.splits if_splits)

lemma field_append [simp]: "field k (xs @ ys) = (case field k xs of None \<Rightarrow> field k ys | Some v \<Rightarrow> Some v)"
  by (simp add: field_def map_add_def split: option.split)

lemma field_id_field [simp]:
  "field k (id_field k' i) = (if k = k' then map_option (\<lambda>n. JNumber (of_int n)) i else None)"
  by (simp add: id_field_def split: option.split)

lemma read_optional_id_valid:
  "field k p = map_option (\<lambda>n. JNumber (of_int n)) i \<Longrightarrow> valid_id i \<Longrightarrow> read_optional_id k p = Some i"
  by (auto simp: read_optional_id_def valid_id_def split: option.splits)

lemma read_optional_idD:
  "read_optional_id k p = Some i \<Longrightarrow> field k p = map_option (\<lambda>n. JNumber (of_int n)) i \<and> valid_id i"
  by (auto simp: read_optional_id_def valid_id_def dest!: counting_numberD split: if_splits)

lemma fst_id_field: "(a, b) \<in> set (id_field k i) \<Longrightarrow> a = k"
  by (auto simp: id_field_def split: option.splits)

lemma to_payload_fields: "set (map fst (to_payload v)) \<subseteq> set payload_fields"
  by (auto simp: to_payload_def payload_fields_def dest!: fst_id_field split: if_splits)

lemma invalidation_reads_back:
  assumes "validate True v" "trimmed (ivd_part v) = ivd_part v" "0 \<le> ivd_sequence v"
  shows "from_payload (to_payload v) = Some v"
proof -
  have v: "1 \<le> ivd_sequence v" "ivd_sequence v \<le> maximum_json_integer" "ivd_domains v \<noteq> []"
    "length (ivd_domains v) \<le> maximum_domains" "distinct (ivd_domains v)"
    "valid_id (ivd_workspace v)" "valid_id (ivd_build v)" "valid_id (ivd_record v)"
    "valid_id (ivd_location v)" "valid_id (ivd_item v)"
    using assms(1,3) by (auto simp: validate_def)
  have domains: "read_domain_list (to_payload v) = Some (ivd_domains v)"
    using v read_domains_names [of "ivd_domains v" "[]"] by (simp add: read_domain_list_def to_payload_def)
  have ids: "read_optional_id ''workspaceId'' (to_payload v) = Some (ivd_workspace v)"
    "read_optional_id ''buildId'' (to_payload v) = Some (ivd_build v)"
    "read_optional_id ''inventoryRecordId'' (to_payload v) = Some (ivd_record v)"
    "read_optional_id ''storageLocationId'' (to_payload v) = Some (ivd_location v)"
    "read_optional_id ''collectionItemId'' (to_payload v) = Some (ivd_item v)"
    using v by (auto intro!: read_optional_id_valid simp: to_payload_def split: option.split)
  have part: "read_part (to_payload v) = Some (ivd_part v)"
    using assms(2) by (auto simp: read_part_def to_payload_def split: option.split)
  have number: "counting_number (field ''sequence'' (to_payload v)) = Some (ivd_sequence v)"
    using v by (simp add: to_payload_def)
  from to_payload_fields [of v] assms(1) domains ids part number show ?thesis
    by (cases v) (simp add: from_payload_def Let_def)
qed

section \<open>What a client accepts\<close>

text \<open>Two payloads agree when they have the same fields with the same values, part numbers trimmed.\<close>

definition agree :: "(string \<times> json) list \<Rightarrow> (string \<times> json) list \<Rightarrow> bool" where
  "agree p q \<longleftrightarrow> (\<forall>k. k \<noteq> ''partNumber'' \<longrightarrow> field k p = field k q)
     \<and> trimmed (to_text (field ''partNumber'' p)) = trimmed (to_text (field ''partNumber'' q))"

lemma from_payloadD:
  assumes "from_payload p = Some v"
  shows "validate True v" "trimmed (ivd_part v) = ivd_part v" "1 \<le> ivd_sequence v"
    "set (map fst p) \<subseteq> set payload_fields"
    "field ''sequence'' p = Some (JNumber (of_int (ivd_sequence v)))"
    "field ''domains'' p = Some (JArray (map (\<lambda>d. JString (domain_name d)) (ivd_domains v)))"
    "field ''workspaceId'' p = map_option (\<lambda>n. JNumber (of_int n)) (ivd_workspace v)"
    "field ''buildId'' p = map_option (\<lambda>n. JNumber (of_int n)) (ivd_build v)"
    "field ''inventoryRecordId'' p = map_option (\<lambda>n. JNumber (of_int n)) (ivd_record v)"
    "field ''storageLocationId'' p = map_option (\<lambda>n. JNumber (of_int n)) (ivd_location v)"
    "field ''collectionItemId'' p = map_option (\<lambda>n. JNumber (of_int n)) (ivd_item v)"
    "trimmed (to_text (field ''partNumber'' p)) = ivd_part v"
proof -
  from assms obtain sequence domains workspace build record_id location item part where
    fields: "set (map fst p) \<subseteq> set payload_fields"
    and read: "counting_number (field ''sequence'' p) = Some sequence" "read_domain_list p = Some domains"
      "read_optional_id ''workspaceId'' p = Some workspace" "read_optional_id ''buildId'' p = Some build"
      "read_optional_id ''inventoryRecordId'' p = Some record_id"
      "read_optional_id ''storageLocationId'' p = Some location"
      "read_optional_id ''collectionItemId'' p = Some item" "read_part p = Some part"
    and valid: "validate True v" and v: "v = \<lparr>ivd_sequence = sequence, ivd_domains = domains,
      ivd_workspace = workspace, ivd_build = build, ivd_record = record_id, ivd_location = location,
      ivd_item = item, ivd_part = part\<rparr>"
    by (auto simp: from_payload_def Let_def split: if_splits Option.bind_splits)
  show "validate True v" "set (map fst p) \<subseteq> set payload_fields" by fact+
  show "trimmed (ivd_part v) = ivd_part v" "trimmed (to_text (field ''partNumber'' p)) = ivd_part v"
    using read(8) by (auto simp: v read_part_def split: option.splits json.splits if_splits)
  show "1 \<le> ivd_sequence v" "field ''sequence'' p = Some (JNumber (of_int (ivd_sequence v)))"
    using counting_numberD [OF read(1)] by (simp_all add: v)
  show "field ''domains'' p = Some (JArray (map (\<lambda>d. JString (domain_name d)) (ivd_domains v)))"
    using read(2) by (auto simp: v read_domain_list_def split: option.splits json.splits if_splits
        dest: read_domainsD)
  show "field ''workspaceId'' p = map_option (\<lambda>n. JNumber (of_int n)) (ivd_workspace v)"
    "field ''buildId'' p = map_option (\<lambda>n. JNumber (of_int n)) (ivd_build v)"
    "field ''inventoryRecordId'' p = map_option (\<lambda>n. JNumber (of_int n)) (ivd_record v)"
    "field ''storageLocationId'' p = map_option (\<lambda>n. JNumber (of_int n)) (ivd_location v)"
    "field ''collectionItemId'' p = map_option (\<lambda>n. JNumber (of_int n)) (ivd_item v)"
    using read(3-7) [THEN read_optional_idD] by (simp_all add: v)
qed

lemma other_field: "set (map fst p) \<subseteq> set payload_fields \<Longrightarrow> k \<notin> set payload_fields \<Longrightarrow> field k p = None"
  by (auto simp: field_def map_of_eq_None_iff)

text \<open>
  Property C37. Whatever payload a Host sends, what the client takes from it is a well-formed event:
  valid in every field, and with exactly the contents of the payload, the blanks around a part
  number aside; sent on, it is accepted as the same event again.
\<close>

theorem accepted_events_well_formed:
  assumes "from_payload p = Some v"
  shows "validate True v \<and> agree p (to_payload v) \<and> from_payload (to_payload v) = Some v"
proof -
  note parts = from_payloadD [OF assms]
  have "field k p = field k (to_payload v)" if "k \<noteq> ''partNumber''" for k
  proof (cases "k \<in> set payload_fields")
    case True
    with that parts(5-11) show ?thesis
      by (auto simp: payload_fields_def to_payload_def split: option.split)
  next
    case False
    with other_field [OF parts(4)] other_field [OF to_payload_fields, of k v] show ?thesis by simp
  qed
  moreover have "to_text (field ''partNumber'' (to_payload v)) = ivd_part v"
    by (auto simp: to_payload_def split: option.split)
  ultimately have "agree p (to_payload v)" using parts(2,12) by (simp add: agree_def)
  with parts(1,2,3) invalidation_reads_back [of v] show ?thesis by simp
qed

theorem accepted_events_well_formed_witness:
  "let p = [(''domains'', JArray [JString ''storage'']), (''sequence'', JNumber 7),
       (''workspaceId'', JNumber 3), (''storageLocationId'', JNumber 12)]
   in from_payload p = Some (no_invalidation\<lparr>ivd_sequence := 7, ivd_domains := [StorageDomain],
        ivd_workspace := Some 3, ivd_location := Some 12\<rparr>) \<and> agree p (to_payload (the (from_payload p)))"
proof -
  define p where "p = [(''domains'', JArray [JString ''storage'']), (''sequence'', JNumber 7),
    (''workspaceId'', JNumber 3), (''storageLocationId'', JNumber 12)]"
  have v: "from_payload p = Some (no_invalidation\<lparr>ivd_sequence := 7, ivd_domains := [StorageDomain],
      ivd_workspace := Some 3, ivd_location := Some 12\<rparr>)"
    unfolding p_def by code_simp
  from accepted_events_well_formed [OF this] v show ?thesis by (simp add: p_def Let_def)
qed

section \<open>What is published, and who hears it\<close>

lemma trimmed_length: "length (trimmed s) \<le> length s"
  by (simp add: trimmed_def) (metis dual_order.trans length_dropWhile_le length_rev)

lemma stock_domains_facts [simp]:
  "distinct stock_domains" "list_all requires_workspace stock_domains" "length stock_domains = 6"
  "distinct build_domains" "list_all requires_workspace build_domains" "length build_domains = 4"
  by (simp_all add: stock_domains_def build_domains_def requires_workspace_def)

lemma no_buildability: "BuildabilityDomain \<notin> set (ivd_domains (invalidation_for w sc))"
  by (cases w) (simp_all add: build_end_invalidation_def stock_domains_def build_domains_def)

lemma same_for_all_minors: "for_protocol_minor minor (invalidation_for w sc) = invalidation_for w sc"
  using no_buildability [of w sc] by (simp add: for_protocol_minor_def)

lemma published_trimmed: "trimmed (ivd_part (invalidation_for w sc)) = ivd_part (invalidation_for w sc)"
  by (cases w) (simp_all add: build_end_invalidation_def no_invalidation_def)

text \<open>A mutation is published exactly when its scope names what it touched.\<close>

definition scope_ok :: "workflow \<Rightarrow> mutation_scope \<Rightarrow> bool" where
  "scope_ok w sc \<longleftrightarrow> (let v = invalidation_for w sc in
     (w \<notin> {WorkspaceWork, PartReferenceWork} \<longrightarrow> sco_workspace sc \<noteq> None)
     \<and> valid_id (ivd_workspace v) \<and> valid_id (ivd_build v) \<and> valid_id (ivd_record v)
     \<and> valid_id (ivd_location v) \<and> valid_id (ivd_item v)
     \<and> (w = PartReferenceWork \<longrightarrow> length (trimmed (sco_part sc)) \<le> maximum_part_number))"

lemma publish_iff: "publish w sc = (if scope_ok w sc then Some (invalidation_for w sc) else None)"
  by (cases w)
     (auto simp: publish_def scope_ok_def validate_def Let_def build_end_invalidation_def no_invalidation_def
       maximum_domains_def maximum_part_number_def maximum_json_integer_def requires_workspace_def
       stock_domains_def build_domains_def)

lemma broadcast_payload:
  assumes v: "publish w sc = Some v" and n: "0 \<le> n" and l: "l \<in> set listeners" "lis_authenticated l" "lis_ready l"
    "1 \<le> lis_minor l"
  shows "(lis_socket l, to_payload (v\<lparr>ivd_sequence := next_sequence n\<rparr>)) \<in> set (fst (broadcast listeners v n))"
    "from_payload (to_payload (v\<lparr>ivd_sequence := next_sequence n\<rparr>)) = Some (v\<lparr>ivd_sequence := next_sequence n\<rparr>)"
proof -
  let ?v = "v\<lparr>ivd_sequence := next_sequence n\<rparr>"
  from v have eq: "v = invalidation_for w sc" and valid: "validate False v"
    by (auto simp: publish_def Let_def split: if_splits)
  have seq: "1 \<le> next_sequence n" "next_sequence n \<le> maximum_json_integer"
    using n by (auto simp: next_sequence_def maximum_json_integer_def)
  with valid have good: "validate True ?v" by (simp add: validate_def)
  have "for_protocol_minor m ?v = ?v" for m
    using no_buildability [of w sc] by (simp add: for_protocol_minor_def eq)
  moreover have "ivd_domains v \<noteq> []" using valid by (simp add: validate_def)
  ultimately show "(lis_socket l, to_payload ?v) \<in> set (fst (broadcast listeners v n))"
    using good l by (force simp: broadcast_def Let_def receives_def)
  show "from_payload (to_payload ?v) = Some ?v"
    using invalidation_reads_back [OF good] published_trimmed [of w sc] seq by (simp add: eq)
qed

end
