(* ===== verification/RemoteRefresh.thy ===== *)
theory RemoteRefresh
  imports Invalidations "HOL-Library.Word"
begin

text \<open>
  How a client keeps its views current: \<open>services/application/RemoteRefreshCoordinator\<close> decides
  from the events of the Host which views to load again, when, and what to load them for.

  A refresher is handed the cause of the refresh and calls back when it is done; the calls that
  are outstanding are kept beside the coordinator (\<open>refresh_run\<close>). Which surfaces are visible is
  an argument of the operations that ask (\<open>vis\<close>). All views are registered with a refresher and
  a visibility. The order in which pending views are started is that of the enumeration; the
  starts do not depend on each other. The session and Workspace generations are stored by the code
  but never read, and are left out.
\<close>

section \<open>Views and the coordinator\<close>

datatype projection =
    WorkspacesView | StorageView | InventoryView | InventoryLocationsView | BuildsView
  | BuildRequirementsView | MissingPartsView | PullingView | InventoryHistoryView | CollectionView
  | CollectionLocationsView | BuildabilityView | PartReferencesView

definition all_projections :: "projection list" where
  "all_projections = [WorkspacesView, StorageView, InventoryView, InventoryLocationsView, BuildsView,
     BuildRequirementsView, MissingPartsView, PullingView, InventoryHistoryView, CollectionView,
     CollectionLocationsView, BuildabilityView, PartReferencesView]"

primrec projections_for :: "inval_domain \<Rightarrow> projection list" where
  "projections_for WorkspacesDomain = [WorkspacesView, BuildabilityView]"
| "projections_for StorageDomain = [StorageView, InventoryView, InventoryLocationsView, CollectionView,
     CollectionLocationsView, PullingView, InventoryHistoryView, BuildabilityView]"
| "projections_for InventoryDomain = [InventoryView, BuildsView, MissingPartsView, PullingView,
     InventoryHistoryView, BuildabilityView]"
| "projections_for InventoryHistoryDomain = [InventoryHistoryView]"
| "projections_for BuildsDomain = [BuildsView, MissingPartsView, PullingView, BuildabilityView]"
| "projections_for BuildRequirementsDomain = [BuildRequirementsView, MissingPartsView, PullingView,
     BuildabilityView]"
| "projections_for MissingPartsDomain = [MissingPartsView]"
| "projections_for PullingDomain = [PullingView, BuildsView, MissingPartsView, InventoryView,
     InventoryHistoryView, BuildabilityView]"
| "projections_for CollectionDomain = [CollectionView, BuildsView, BuildabilityView]"
| "projections_for PartReferencesDomain = [PartReferencesView]"
| "projections_for BuildabilityDomain = [BuildabilityView]"

record registration =
  reg_dirty :: bool
  reg_in_flight :: bool
  reg_rerun :: bool
  reg_context :: "64 word"
  reg_cause :: invalidation

record coordinator =
  crd_registrations :: "projection \<Rightarrow> registration option"
  crd_pending :: "projection set"
  crd_timer :: bool
  crd_connected :: bool
  crd_available :: bool
  crd_context :: "64 word"

text \<open>The call of a refresher: its view, the context it was made in, and its cause.\<close>

record refresh_run =
  run_view :: projection
  run_context :: "64 word"
  run_cause :: invalidation

definition new_coordinator :: coordinator where
  "new_coordinator = \<lparr>crd_registrations = (\<lambda>_. None), crd_pending = {}, crd_timer = False,
     crd_connected = False, crd_available = True, crd_context = 0\<rparr>"

definition new_registration :: registration where
  "new_registration = \<lparr>reg_dirty = False, reg_in_flight = False, reg_rerun = False, reg_context = 0,
     reg_cause = no_invalidation\<rparr>"

section \<open>Operations\<close>

definition put_registration :: "projection \<Rightarrow> registration \<Rightarrow> coordinator \<Rightarrow> coordinator" where
  "put_registration p r c = c\<lparr>crd_registrations := (crd_registrations c)(p \<mapsto> r)\<rparr>"

definition register_projection :: "projection \<Rightarrow> coordinator \<Rightarrow> coordinator" where
  "register_projection p c = put_registration p new_registration c"

definition merge_optional :: "int option \<Rightarrow> int option \<Rightarrow> int option" where
  "merge_optional current incoming =
     (if current = None \<or> incoming = None \<or> current \<noteq> incoming then None else current)"

definition merge_domains :: "inval_domain list \<Rightarrow> inval_domain list \<Rightarrow> inval_domain list" where
  "merge_domains ds es = fold (\<lambda>e ds. if e \<in> set ds then ds else ds @ [e]) es ds"

definition merge_cause :: "invalidation \<Rightarrow> invalidation \<Rightarrow> invalidation" where
  "merge_cause t v = \<lparr>ivd_sequence = max (ivd_sequence t) (ivd_sequence v),
     ivd_domains = merge_domains (ivd_domains t) (ivd_domains v),
     ivd_workspace = merge_optional (ivd_workspace t) (ivd_workspace v),
     ivd_build = merge_optional (ivd_build t) (ivd_build v),
     ivd_record = merge_optional (ivd_record t) (ivd_record v),
     ivd_location = merge_optional (ivd_location t) (ivd_location v),
     ivd_item = merge_optional (ivd_item t) (ivd_item v),
     ivd_part = (if ivd_part t \<noteq> ivd_part v then [] else ivd_part t)\<rparr>"

definition start_timer :: "coordinator \<Rightarrow> coordinator" where
  "start_timer c = (if crd_available c \<and> crd_pending c \<noteq> {} then c\<lparr>crd_timer := True\<rparr> else c)"

definition mark_dirty :: "invalidation \<Rightarrow> projection \<Rightarrow> coordinator \<Rightarrow> coordinator" where
  "mark_dirty v p c = (case crd_registrations c p of None \<Rightarrow> c
     | Some r \<Rightarrow>
       let r = r\<lparr>reg_cause := if ivd_domains (reg_cause r) = [] then v else merge_cause (reg_cause r) v,
             reg_dirty := True\<rparr>
       in if reg_in_flight r then put_registration p (r\<lparr>reg_rerun := True\<rparr>) c
          else put_registration p r c\<lparr>crd_pending := insert p (crd_pending c)\<rparr>)"

definition refresh_plan :: "invalidation \<Rightarrow> projection list" where
  "refresh_plan v = filter (\<lambda>p. list_ex (\<lambda>d. p \<in> set (projections_for d)) (ivd_domains v)) all_projections"

definition receive_invalidation :: "invalidation \<Rightarrow> coordinator \<Rightarrow> coordinator" where
  "receive_invalidation v c =
     (if \<not> crd_connected c then c else start_timer (fold (mark_dirty v) (refresh_plan v) c))"

definition start_refresh :: "projection \<Rightarrow> coordinator \<Rightarrow> refresh_run list \<times> coordinator" where
  "start_refresh p c = (case crd_registrations c p of None \<Rightarrow> ([], c)
     | Some r \<Rightarrow>
       if \<not> crd_connected c \<or> \<not> crd_available c \<or> reg_in_flight r then ([], c)
       else ([\<lparr>run_view = p, run_context = crd_context c, run_cause = reg_cause r\<rparr>],
         put_registration p (r\<lparr>reg_dirty := False, reg_in_flight := True, reg_rerun := False,
           reg_context := crd_context c, reg_cause := no_invalidation\<rparr>) c))"

definition surface_became_relevant :: "projection \<Rightarrow> coordinator \<Rightarrow> refresh_run list \<times> coordinator" where
  "surface_became_relevant p c = (case crd_registrations c p of None \<Rightarrow> ([], c)
     | Some r \<Rightarrow>
       if \<not> reg_dirty r \<or> reg_in_flight r \<or> \<not> crd_connected c \<or> \<not> crd_available c then ([], c)
       else start_refresh p (c\<lparr>crd_pending := crd_pending c - {p}\<rparr>))"

fun start_visible :: "(projection \<Rightarrow> bool) \<Rightarrow> projection list \<Rightarrow> coordinator \<Rightarrow> refresh_run list \<times> coordinator" where
  "start_visible vis [] c = ([], c)"
| "start_visible vis (p # ps) c =
     (case (case crd_registrations c p of None \<Rightarrow> ([], c)
            | Some r \<Rightarrow> if \<not> reg_dirty r \<or> reg_in_flight r \<or> \<not> vis p then ([], c) else start_refresh p c) of
        (started, d) \<Rightarrow> case start_visible vis ps d of (others, e) \<Rightarrow> (started @ others, e))"

text \<open>The timer is single shot: it has stopped when it calls.\<close>

definition process_pending :: "(projection \<Rightarrow> bool) \<Rightarrow> coordinator \<Rightarrow> refresh_run list \<times> coordinator" where
  "process_pending vis c = start_visible vis (filter (\<lambda>p. p \<in> crd_pending c) all_projections)
     (c\<lparr>crd_pending := {}, crd_timer := False\<rparr>)"

definition complete_refresh ::
    "(projection \<Rightarrow> bool) \<Rightarrow> refresh_run \<Rightarrow> bool \<Rightarrow> coordinator \<Rightarrow> refresh_run list \<times> coordinator" where
  "complete_refresh vis run succeeded c =
     (let p = run_view run in case crd_registrations c p of None \<Rightarrow> ([], c)
      | Some r \<Rightarrow>
        if run_context run \<noteq> crd_context c then ([], c)
        else let rerun = reg_rerun r;
            r = r\<lparr>reg_in_flight := False, reg_rerun := False,
              reg_dirty := reg_dirty r \<or> \<not> succeeded \<or> rerun\<rparr>;
            c = put_registration p r c
          in if rerun \<and> reg_dirty r \<and> crd_connected c \<and> vis p then start_refresh p c else ([], c))"

definition reset_context :: "bool \<Rightarrow> coordinator \<Rightarrow> coordinator" where
  "reset_context up c = c\<lparr>crd_connected := up, crd_context := crd_context c + 1,
     crd_pending := {}, crd_timer := False,
     crd_registrations := (\<lambda>p. map_option (\<lambda>r. r\<lparr>reg_dirty := False, reg_in_flight := False,
       reg_rerun := False, reg_cause := no_invalidation\<rparr>) (crd_registrations c p))\<rparr>"

definition set_connected :: "bool \<Rightarrow> coordinator \<Rightarrow> coordinator" where
  "set_connected up c =
     (if crd_connected c = up then c
      else c\<lparr>crd_connected := up, crd_context := crd_context c + 1, crd_pending := {},
        crd_timer := False, crd_registrations := (\<lambda>p. map_option (\<lambda>r. r\<lparr>reg_in_flight := False,
          reg_rerun := False\<rparr>) (crd_registrations c p))\<rparr>)"

definition set_operational_available :: "bool \<Rightarrow> coordinator \<Rightarrow> coordinator" where
  "set_operational_available available c =
     (if crd_available c = available then c
      else if \<not> available then c\<lparr>crd_available := False, crd_timer := False\<rparr>
      else start_timer (c\<lparr>crd_available := True\<rparr>))"

definition is_dirty :: "coordinator \<Rightarrow> projection \<Rightarrow> bool" where
  "is_dirty c p = (case crd_registrations c p of None \<Rightarrow> False | Some r \<Rightarrow> reg_dirty r)"

definition is_in_flight :: "coordinator \<Rightarrow> projection \<Rightarrow> bool" where
  "is_in_flight c p = (case crd_registrations c p of None \<Rightarrow> False | Some r \<Rightarrow> reg_in_flight r)"

end
