(* ===== verification/RefreshHistories.thy ===== *)
theory RefreshHistories
  imports RemoteRefresh
begin

text \<open>
  That no event of the Host is lost on a client. Beside the coordinator a history keeps the
  refreshes that are running, each with the events it has to show, and for every view the
  events no refresh was started for since they arrived. It also keeps what this accounts for: the
  events that arrived for a view, and those a finished refresh showed, with its cause.
\<close>

section \<open>Histories\<close>

record refresh_history =
  rfh_state :: coordinator
  rfh_runs :: "(refresh_run \<times> invalidation list) list"
  rfh_unserved :: "projection \<Rightarrow> invalidation list"
  rfh_received :: "projection \<Rightarrow> invalidation list"
  rfh_shown :: "projection \<Rightarrow> (invalidation \<times> invalidation) list"

datatype refresh_event =
    Receive invalidation
  | TimerFires "projection \<Rightarrow> bool"
  | BecomesRelevant projection
  | Finish nat bool "projection \<Rightarrow> bool"
  | ResetContext bool
  | LoseConnection
  | SetAvailable bool

definition note_started :: "refresh_run list \<times> coordinator \<Rightarrow> refresh_history \<Rightarrow> refresh_history" where
  "note_started x h = h\<lparr>rfh_state := snd x,
     rfh_runs := rfh_runs h @ map (\<lambda>run. (run, rfh_unserved h (run_view run))) (fst x),
     rfh_unserved := (\<lambda>p. if p \<in> run_view ` set (fst x) then [] else rfh_unserved h p)\<rparr>"

definition current :: "projection \<Rightarrow> refresh_history \<Rightarrow> (refresh_run \<times> invalidation list) list" where
  "current p h = filter (\<lambda>(run, vs). run_view run = p \<and> run_context run = crd_context (rfh_state h)) (rfh_runs h)"

fun refresh_step :: "refresh_event \<Rightarrow> refresh_history \<Rightarrow> refresh_history" where
  "refresh_step (Receive v) h =
     (let concerns = (\<lambda>p. crd_connected (rfh_state h) \<and> p \<in> set (refresh_plan v)
            \<and> crd_registrations (rfh_state h) p \<noteq> None)
      in h\<lparr>rfh_state := receive_invalidation v (rfh_state h),
        rfh_unserved := (\<lambda>p. if concerns p then rfh_unserved h p @ [v] else rfh_unserved h p),
        rfh_received := (\<lambda>p. if concerns p then rfh_received h p @ [v] else rfh_received h p)\<rparr>)"
| "refresh_step (TimerFires vis) h =
     (if crd_timer (rfh_state h) then note_started (process_pending vis (rfh_state h)) h else h)"
| "refresh_step (BecomesRelevant p) h = note_started (surface_became_relevant p (rfh_state h)) h"
| "refresh_step (Finish k succeeded vis) h =
     (if k < length (rfh_runs h) then
        let (run, vs) = rfh_runs h ! k;
            counts = (run_context run = crd_context (rfh_state h));
            lost = (if counts \<and> \<not> succeeded then vs else []);
            seen = (if counts \<and> succeeded then map (\<lambda>v. (v, run_cause run)) vs else []);
            h = h\<lparr>rfh_runs := take k (rfh_runs h) @ drop (Suc k) (rfh_runs h),
              rfh_unserved := (\<lambda>p. if p = run_view run then lost @ rfh_unserved h p else rfh_unserved h p),
              rfh_shown := (\<lambda>p. if p = run_view run then seen @ rfh_shown h p else rfh_shown h p)\<rparr>
        in note_started (complete_refresh vis run succeeded (rfh_state h)) h
      else h)"
| "refresh_step (ResetContext up) h = h\<lparr>rfh_state := reset_context up (rfh_state h),
     rfh_unserved := (\<lambda>p. []), rfh_received := (\<lambda>p. []), rfh_shown := (\<lambda>p. [])\<rparr>"
| "refresh_step LoseConnection h = h\<lparr>rfh_state := set_connected False (rfh_state h),
     rfh_unserved := (\<lambda>p. concat (map snd (current p h)) @ rfh_unserved h p)\<rparr>"
| "refresh_step (SetAvailable available) h = h\<lparr>rfh_state := set_operational_available available (rfh_state h)\<rparr>"

section \<open>What the causes cover\<close>

definition id_covers :: "int option \<Rightarrow> int option \<Rightarrow> bool" where
  "id_covers c i \<longleftrightarrow> c = None \<or> c = i"

text \<open>A refresh for the cause \<open>c\<close> shows what the event \<open>v\<close> reports.\<close>

definition covers :: "invalidation \<Rightarrow> invalidation \<Rightarrow> bool" where
  "covers c v \<longleftrightarrow> set (ivd_domains v) \<subseteq> set (ivd_domains c)
     \<and> id_covers (ivd_workspace c) (ivd_workspace v) \<and> id_covers (ivd_build c) (ivd_build v)
     \<and> id_covers (ivd_record c) (ivd_record v) \<and> id_covers (ivd_location c) (ivd_location v)
     \<and> id_covers (ivd_item c) (ivd_item v) \<and> (ivd_part c = [] \<or> ivd_part c = ivd_part v)"

lemma set_merge_domains: "set (merge_domains ds es) = set ds \<union> set es"
  unfolding merge_domains_def by (induction es arbitrary: ds) auto

lemma id_covers_merge:
  "id_covers c i \<Longrightarrow> id_covers (merge_optional c j) i" "id_covers (merge_optional c j) j"
  by (auto simp: id_covers_def merge_optional_def)

lemma covers_merge: "covers c v \<Longrightarrow> covers (merge_cause c w) v" "covers (merge_cause c w) w"
  by (auto simp: covers_def merge_cause_def set_merge_domains id_covers_merge)

lemma covers_self [simp]: "covers v v"
  by (simp add: covers_def id_covers_def)

section \<open>The operations view by view\<close>

definition marked :: "invalidation \<Rightarrow> registration \<Rightarrow> registration" where
  "marked v r = r\<lparr>reg_cause := if ivd_domains (reg_cause r) = [] then v else merge_cause (reg_cause r) v,
     reg_dirty := True, reg_rerun := reg_rerun r \<or> reg_in_flight r\<rparr>"

lemma mark_dirty_eq:
  "mark_dirty v p c = (case crd_registrations c p of None \<Rightarrow> c
     | Some r \<Rightarrow> c\<lparr>crd_registrations := (crd_registrations c)(p \<mapsto> marked v r),
         crd_pending := (if reg_in_flight r then crd_pending c else insert p (crd_pending c))\<rparr>)"
  by (auto simp: mark_dirty_def marked_def put_registration_def Let_def split: option.split)

lemma fold_mark_dirty:
  "distinct ps \<Longrightarrow> fold (mark_dirty v) ps c = c\<lparr>
     crd_registrations := (\<lambda>p. if p \<in> set ps then map_option (marked v) (crd_registrations c p) else crd_registrations c p),
     crd_pending := crd_pending c \<union> {p \<in> set ps. \<exists>r. crd_registrations c p = Some r \<and> \<not> reg_in_flight r}\<rparr>"
proof (induction ps arbitrary: c)
  case (Cons p ps)
  then have p: "p \<notin> set ps" and ps: "distinct ps" by simp_all
  show ?case
    unfolding fold.simps comp_apply Cons.IH [OF ps]
    by (rule coordinator.equality) (use p in \<open>auto simp: mark_dirty_eq fun_eq_iff split: option.split\<close>)
qed (simp add: coordinator.equality)

lemma distinct_all_projections [simp]: "distinct all_projections" "p \<in> set all_projections"
  by (simp_all add: all_projections_def) (cases p; simp)

lemma distinct_refresh_plan [simp]: "distinct (refresh_plan v)"
  by (simp add: refresh_plan_def)

definition begun :: "coordinator \<Rightarrow> projection \<Rightarrow> refresh_run" where
  "begun c p = \<lparr>run_view = p, run_context = crd_context c,
     run_cause = (case crd_registrations c p of None \<Rightarrow> no_invalidation | Some r \<Rightarrow> reg_cause r)\<rparr>"

definition begin_registration :: "coordinator \<Rightarrow> registration \<Rightarrow> registration" where
  "begin_registration c r = r\<lparr>reg_dirty := False, reg_in_flight := True, reg_rerun := False,
     reg_context := crd_context c, reg_cause := no_invalidation\<rparr>"

definition startable :: "coordinator \<Rightarrow> projection \<Rightarrow> bool" where
  "startable c p \<longleftrightarrow> crd_connected c \<and> crd_available c
     \<and> (\<exists>r. crd_registrations c p = Some r \<and> \<not> reg_in_flight r)"

lemma is_dirty_iff: "is_dirty c p \<longleftrightarrow> (\<exists>r. crd_registrations c p = Some r \<and> reg_dirty r)"
  by (simp add: is_dirty_def split: option.split)

text \<open>The views \<open>ps\<close> are started, and nothing else happens but that fewer are pending.\<close>

definition starts :: "projection list \<Rightarrow> coordinator \<Rightarrow> refresh_run list \<times> coordinator \<Rightarrow> bool" where
  "starts ps c x \<longleftrightarrow> distinct ps \<and> list_all (startable c) ps \<and> fst x = map (begun c) ps
     \<and> crd_registrations (snd x) = (\<lambda>p. if p \<in> set ps then map_option (begin_registration c) (crd_registrations c p)
         else crd_registrations c p)
     \<and> crd_connected (snd x) = crd_connected c \<and> crd_available (snd x) = crd_available c
     \<and> crd_context (snd x) = crd_context c"

lemma start_refresh_eq:
  "start_refresh p c = (if startable c p then ([begun c p],
     c\<lparr>crd_registrations := (\<lambda>q. if q = p then map_option (begin_registration c) (crd_registrations c q)
        else crd_registrations c q)\<rparr>) else ([], c))"
  by (auto simp: start_refresh_def startable_def begun_def begin_registration_def put_registration_def
      fun_eq_iff split: option.split)

lemma starts_none: "starts [] c ([], d)" if "crd_registrations d = crd_registrations c"
    "crd_connected d = crd_connected c" "crd_available d = crd_available c" "crd_context d = crd_context c"
  using that by (simp add: starts_def)

lemma starts_refresh: "starts (if startable c p then [p] else []) c (start_refresh p c)"
  by (auto simp: start_refresh_eq starts_def)

lemma start_visible_eq:
  "distinct ps \<Longrightarrow> start_visible vis ps c =
     (let qs = filter (\<lambda>p. vis p \<and> is_dirty c p \<and> startable c p) ps in
      (map (begun c) qs, c\<lparr>crd_registrations := (\<lambda>p. if p \<in> set qs then map_option (begin_registration c) (crd_registrations c p)
         else crd_registrations c p)\<rparr>))"
proof (induction ps arbitrary: c)
  case (Cons p ps)
  let ?go = "vis p \<and> is_dirty c p \<and> startable c p"
  define d where "d = c\<lparr>crd_registrations := (\<lambda>q. if q = p then map_option (begin_registration c) (crd_registrations c q)
        else crd_registrations c q)\<rparr>"
  have head: "(case crd_registrations c p of None \<Rightarrow> ([], c)
      | Some r \<Rightarrow> if \<not> reg_dirty r \<or> reg_in_flight r \<or> \<not> vis p then ([], c) else start_refresh p c)
      = (if ?go then ([begun c p], d) else ([], c))"
    by (auto simp: start_refresh_eq is_dirty_iff startable_def d_def split: option.split)
  have same: "is_dirty d q = is_dirty c q" "startable d q = startable c q" "begun d q = begun c q" if "q \<in> set ps" for q
    using that Cons.prems by (auto simp: is_dirty_iff startable_def begun_def d_def)
  have begin_d: "begin_registration d = begin_registration c"
    by (simp add: begin_registration_def d_def fun_eq_iff)
  have chosen: "filter (\<lambda>q. vis q \<and> is_dirty d q \<and> startable d q) ps = filter (\<lambda>q. vis q \<and> is_dirty c q \<and> startable c q) ps"
    by (rule filter_cong) (simp_all add: same)
  have begun_d: "map (begun d) (filter Q ps) = map (begun c) (filter Q ps)" for Q
    by (simp add: same)
  have ps: "distinct ps" using Cons.prems by simp
  show ?case
  proof (cases ?go)
    case True
    have "start_visible vis (p # ps) c = (begun c p # fst (start_visible vis ps d), snd (start_visible vis ps d))"
      using head True by (simp add: split_beta)
    moreover have "begun c p # map (begun d) (filter (\<lambda>q. vis q \<and> is_dirty d q \<and> startable d q) ps)
        = map (begun c) (filter (\<lambda>q. vis q \<and> is_dirty c q \<and> startable c q) (p # ps))"
      using True by (simp add: chosen begun_d)
    moreover have "snd (start_visible vis ps d) = c\<lparr>crd_registrations := (\<lambda>q.
        if q \<in> set (filter (\<lambda>q. vis q \<and> is_dirty c q \<and> startable c q) (p # ps))
        then map_option (begin_registration c) (crd_registrations c q) else crd_registrations c q)\<rparr>"
      using True Cons.prems unfolding Cons.IH [OF ps] Let_def chosen begin_d
      by (intro coordinator.equality) (auto simp: d_def fun_eq_iff)
    ultimately show ?thesis unfolding Let_def by (simp add: Cons.IH [OF ps] Let_def)
  next
    case False
    then show ?thesis using head by (auto simp: Cons.IH [OF ps] Let_def)
  qed
qed (simp add: fun_eq_iff)

lemma starts_pending:
  "starts (filter (\<lambda>p. vis p \<and> is_dirty c p \<and> startable c p) (filter (\<lambda>p. p \<in> crd_pending c) all_projections))
     c (process_pending vis c)"
  by (auto simp: process_pending_def start_visible_eq starts_def Let_def list_all_iff startable_def is_dirty_iff
      begun_def begin_registration_def fun_eq_iff)

section \<open>The invariant\<close>

text \<open>
  Of each view: it is in flight while the one current refresh runs; it is to be run again exactly
  when it became dirty meanwhile; and while the client is connected, it is dirty when an event
  is unserved. The causes cover the events as well (\<open>strict\<close>) as long as no refresh failed.
\<close>

type_synonym running = "(refresh_run \<times> invalidation list) list"

definition causes_cover :: "registration \<Rightarrow> running \<Rightarrow> invalidation list \<Rightarrow> bool" where
  "causes_cover r runs unserved \<longleftrightarrow> (\<forall>v \<in> set unserved. covers (reg_cause r) v \<and> ivd_domains v \<noteq> [])
     \<and> (\<forall>(run, vs) \<in> set runs. \<forall>v \<in> set vs. covers (run_cause run) v)"

fun registration_ok ::
    "bool \<Rightarrow> bool \<Rightarrow> bool \<Rightarrow> running \<Rightarrow> invalidation list \<Rightarrow> registration option \<Rightarrow> bool" where
  "registration_ok strict up pending runs unserved None \<longleftrightarrow> runs = [] \<and> unserved = [] \<and> \<not> pending"
| "registration_ok strict up pending runs unserved (Some r) \<longleftrightarrow>
     length runs = (if reg_in_flight r then 1 else 0)
     \<and> (reg_rerun r \<longleftrightarrow> reg_in_flight r \<and> reg_dirty r)
     \<and> (pending \<longrightarrow> \<not> reg_in_flight r \<and> reg_dirty r)
     \<and> (up \<longrightarrow> (unserved \<noteq> [] \<longrightarrow> reg_dirty r) \<and> (strict \<longrightarrow> causes_cover r runs unserved))"

definition view_ok :: "bool \<Rightarrow> projection \<Rightarrow> refresh_history \<Rightarrow> bool" where
  "view_ok strict p h \<longleftrightarrow> registration_ok strict (crd_connected (rfh_state h)) (p \<in> crd_pending (rfh_state h))
     (current p h) (rfh_unserved h p) (crd_registrations (rfh_state h) p)"

definition runs_ok :: "refresh_history \<Rightarrow> bool" where
  "runs_ok h \<longleftrightarrow> (\<forall>(run, vs) \<in> set (rfh_runs h). run_context run \<le> crd_context (rfh_state h))"

definition timer_ok :: "coordinator \<Rightarrow> bool" where
  "timer_ok c \<longleftrightarrow> (crd_available c \<and> crd_pending c \<noteq> {} \<longrightarrow> crd_timer c)
     \<and> (crd_pending c \<noteq> {} \<longrightarrow> crd_connected c)"

definition refresh_good :: "bool \<Rightarrow> refresh_history \<Rightarrow> bool" where
  "refresh_good strict h \<longleftrightarrow> (\<forall>p. view_ok strict p h) \<and> runs_ok h \<and> timer_ok (rfh_state h)"

lemma in_plan: "p \<in> set (refresh_plan v) \<Longrightarrow> ivd_domains v \<noteq> []"
  by (auto simp: refresh_plan_def)

lemma causes_cover_marked:
  "causes_cover r runs unserved \<Longrightarrow> ivd_domains v \<noteq> [] \<Longrightarrow> causes_cover (marked v r) runs (unserved @ [v])"
  by (auto simp: causes_cover_def marked_def covers_merge) (auto simp: covers_def)

lemma receive_good:
  assumes "refresh_good strict h" shows "refresh_good strict (refresh_step (Receive v) h)"
proof -
  let ?c = "rfh_state h"
  define g where "g = refresh_step (Receive v) h"
  let ?in = "\<lambda>p. crd_connected ?c \<and> p \<in> set (refresh_plan v) \<and> crd_registrations ?c p \<noteq> None"
  have regs: "crd_registrations (rfh_state g) p = (if ?in p then map_option (marked v) (crd_registrations ?c p)
      else crd_registrations ?c p)"
    and pending: "p \<in> crd_pending (rfh_state g) \<longleftrightarrow> p \<in> crd_pending ?c \<or> ?in p
      \<and> (\<forall>r. crd_registrations ?c p = Some r \<longrightarrow> \<not> reg_in_flight r)"
    and rest: "crd_context (rfh_state g) = crd_context ?c" "crd_connected (rfh_state g) = crd_connected ?c"
    and runs: "rfh_runs g = rfh_runs h"
    and unserved: "rfh_unserved g p = (if ?in p then rfh_unserved h p @ [v] else rfh_unserved h p)" for p
    by (auto simp: g_def receive_invalidation_def fold_mark_dirty start_timer_def Let_def)
  have cur: "current p g = current p h" for p by (simp add: current_def rest runs)
  have "view_ok strict p g" for p
  proof -
    have v: "view_ok strict p h" using assms by (simp add: refresh_good_def)
    show ?thesis
    proof (cases "?in p")
      case False
      with v show ?thesis by (simp only: view_ok_def regs pending rest cur unserved if_False) auto
    next
      case True
      then obtain r where r: "crd_registrations ?c p = Some r" by auto
      have "causes_cover (marked v r) (current p h) (rfh_unserved h p @ [v])"
        if "causes_cover r (current p h) (rfh_unserved h p)"
        using causes_cover_marked [OF that] in_plan [of p v] True by blast
      with v r True show ?thesis
        by (simp add: view_ok_def regs pending rest cur unserved) (auto simp: marked_def)
    qed
  qed
  moreover have "runs_ok g" using assms by (simp add: refresh_good_def runs_ok_def rest runs)
  moreover have "timer_ok (rfh_state g)"
    using assms by (auto simp: refresh_good_def timer_ok_def g_def receive_invalidation_def start_timer_def fold_mark_dirty Let_def)
  ultimately show ?thesis unfolding refresh_good_def g_def by blast
qed

lemma started_good:
  assumes views: "\<forall>p. view_ok strict p h" and runs: "runs_ok h" and st: "starts ps (rfh_state h) x"
    and pending: "crd_pending (snd x) \<subseteq> crd_pending (rfh_state h) - set ps"
  shows "(\<forall>p. view_ok strict p (note_started x h)) \<and> runs_ok (note_started x h)"
proof -
  let ?c = "rfh_state h"
  define g where "g = note_started x h"
  have x: "fst x = map (begun ?c) ps" "distinct ps" "list_all (startable ?c) ps"
    "crd_context (snd x) = crd_context ?c"
    using st by (auto simp: starts_def)
  have "run_view ` set (fst x) = set ps" by (force simp: x(1) begun_def)
  then have regs: "crd_registrations (rfh_state g) p = (if p \<in> set ps then map_option (begin_registration ?c)
      (crd_registrations ?c p) else crd_registrations ?c p)"
    and conn: "crd_connected (rfh_state g) = crd_connected ?c"
    and unserved: "rfh_unserved g p = (if p \<in> set ps then [] else rfh_unserved h p)"
    and fewer: "crd_pending (rfh_state g) \<subseteq> crd_pending ?c - set ps" for p
    using st pending by (auto simp: starts_def g_def note_started_def)
  have mine: "filter (\<lambda>q. q = p) ps = (if p \<in> set ps then [p] else [])" for p
    using x(2) by (induction ps) (auto simp: filter_empty_conv)
  have cur: "current p g = current p h @ (if p \<in> set ps then [(begun ?c p, rfh_unserved h p)] else [])" for p
    using mine [of p] by (simp add: current_def g_def note_started_def x(1,4) begun_def filter_map comp_def)
  have "view_ok strict p g" for p
  proof -
    from views have v: "view_ok strict p h" by simp
    show ?thesis
    proof (cases "p \<in> set ps")
      case False
      with v fewer show ?thesis
        by (cases "crd_registrations ?c p") (auto simp: view_ok_def regs conn cur unserved)
    next
      case True
      with x(3) obtain r where r: "crd_registrations ?c p = Some r" "\<not> reg_in_flight r" "crd_connected ?c"
        by (auto simp: list_all_iff startable_def)
      from v r have "current p h = []" "strict \<longrightarrow> causes_cover r [] (rfh_unserved h p)"
        by (auto simp: view_ok_def)
      with True r fewer show ?thesis
        by (auto simp: view_ok_def regs conn cur unserved begin_registration_def causes_cover_def begun_def)
    qed
  qed
  moreover have "runs_ok g"
    using runs by (auto simp: runs_ok_def g_def note_started_def x(1,4) begun_def)
  ultimately show ?thesis by (simp add: g_def)
qed

lemma timer_good:
  assumes good: "refresh_good strict h" shows "refresh_good strict (refresh_step (TimerFires vis) h)"
proof (cases "crd_timer (rfh_state h)")
  case True
  have none: "crd_pending (snd (process_pending vis (rfh_state h))) = {}"
    by (simp add: process_pending_def start_visible_eq Let_def)
  have "(\<forall>p. view_ok strict p (note_started (process_pending vis (rfh_state h)) h))
      \<and> runs_ok (note_started (process_pending vis (rfh_state h)) h)"
    using good by (intro started_good [OF _ _ starts_pending]) (simp_all add: refresh_good_def none)
  with True none show ?thesis by (simp add: refresh_good_def timer_ok_def note_started_def)
qed (use good in simp)

lemma put_ok:
  assumes "\<forall>q. q \<noteq> p \<longrightarrow> view_ok strict q h"
    and "registration_ok strict (crd_connected (rfh_state h)) (p \<in> crd_pending (rfh_state h))
      (current p h) (rfh_unserved h p) (Some r)"
  shows "\<forall>q. view_ok strict q (h\<lparr>rfh_state := put_registration p r (rfh_state h)\<rparr>)"
  using assms by (auto simp: view_ok_def current_def put_registration_def)

lemma relevant_good:
  assumes good: "refresh_good strict h" shows "refresh_good strict (refresh_step (BecomesRelevant p) h)"
proof -
  let ?c = "rfh_state h" and ?x = "surface_became_relevant p (rfh_state h)"
  have "starts (if startable ?c p \<and> is_dirty ?c p then [p] else []) ?c ?x"
    by (auto simp: surface_became_relevant_def start_refresh_eq starts_def startable_def is_dirty_iff begun_def
        begin_registration_def fun_eq_iff split: option.split)
  moreover have "crd_pending (snd ?x) = crd_pending ?c - set (if startable ?c p \<and> is_dirty ?c p then [p] else [])"
    "crd_timer (snd ?x) = crd_timer ?c" "crd_available (snd ?x) = crd_available ?c"
    "crd_connected (snd ?x) = crd_connected ?c"
    by (auto simp: surface_became_relevant_def start_refresh_eq startable_def is_dirty_iff split: option.split)
  ultimately show ?thesis
    using started_good [of strict h "if startable ?c p \<and> is_dirty ?c p then [p] else []" ?x] good
    by (auto simp: refresh_good_def timer_ok_def note_started_def)
qed

lemma available_good:
  assumes "refresh_good strict h" shows "refresh_good strict (refresh_step (SetAvailable a) h)"
  using assms by (auto simp: refresh_good_def view_ok_def runs_ok_def timer_ok_def current_def
      set_operational_available_def start_timer_def)

text \<open>A finished refresh, taken off the list.\<close>

definition without ::
    "nat \<Rightarrow> invalidation list \<Rightarrow> (invalidation \<times> invalidation) list \<Rightarrow> refresh_history \<Rightarrow> refresh_history" where
  "without k lost seen h = h\<lparr>rfh_runs := take k (rfh_runs h) @ drop (Suc k) (rfh_runs h),
     rfh_unserved := (\<lambda>p. if p = run_view (fst (rfh_runs h ! k)) then lost @ rfh_unserved h p else rfh_unserved h p),
     rfh_shown := (\<lambda>p. if p = run_view (fst (rfh_runs h ! k)) then seen @ rfh_shown h p else rfh_shown h p)\<rparr>"

lemma filter_without:
  "k < length xs \<Longrightarrow> filter P xs = filter P (take k xs) @ (if P (xs ! k) then [xs ! k] else []) @ filter P (drop (Suc k) xs)"
  by (subst id_take_nth_drop [of k xs]) auto

lemma finish_good:
  assumes good: "refresh_good strict h" and ok: "strict \<Longrightarrow> succeeded"
  shows "refresh_good strict (refresh_step (Finish k succeeded vis) h)"
proof (cases "k < length (rfh_runs h)")
  case k: True
  obtain run vs where run: "rfh_runs h ! k = (run, vs)" by fastforce
  let ?c = "rfh_state h" and ?p = "run_view run"
  let ?lost = "if run_context run = crd_context ?c \<and> \<not> succeeded then vs else []"
  let ?seen = "if run_context run = crd_context ?c \<and> succeeded then map (\<lambda>v. (v, run_cause run)) vs else []"
  define g where "g = without k ?lost ?seen h"
  have step: "refresh_step (Finish k succeeded vis) h = note_started (complete_refresh vis run succeeded ?c) g"
    using k by (simp add: run g_def without_def Let_def)
  have g: "rfh_state g = ?c" "\<And>q. rfh_unserved g q = (if q = ?p then ?lost @ rfh_unserved h q else rfh_unserved h q)"
    by (simp_all add: g_def without_def run)
  have others: "current q g = current q h" if "q \<noteq> ?p \<or> run_context run \<noteq> crd_context ?c" for q
    using that filter_without [OF k] by (auto simp: current_def g_def without_def run)
  have runs: "runs_ok g" using good by (auto simp: refresh_good_def runs_ok_def g_def without_def dest: in_set_takeD in_set_dropD)
  show ?thesis
  proof (cases "run_context run = crd_context ?c")
    case False
    have "complete_refresh vis run succeeded ?c = ([], ?c)"
      using False by (simp add: complete_refresh_def Let_def split: option.split)
    with good others False runs g show ?thesis unfolding step
      by (simp add: refresh_good_def note_started_def view_ok_def current_def runs_ok_def)
  next
    case here: True
    have "(run, vs) \<in> set (current ?p h)"
      using here k run by (auto simp: current_def) (metis nth_mem)
    moreover have v: "view_ok strict ?p h" using good by (simp add: refresh_good_def)
    ultimately obtain r where r: "crd_registrations ?c ?p = Some r" "reg_in_flight r" "current ?p h = [(run, vs)]"
      "?p \<notin> crd_pending ?c"
      by (cases "crd_registrations ?c ?p") (auto simp: view_ok_def length_Suc_conv split: if_splits)
    have none: "current ?p g = []"
      using r(3) here filter_without [OF k, of "\<lambda>(run, vs). run_view run = ?p \<and> run_context run = crd_context ?c"]
      by (auto simp: current_def g_def without_def run append_eq_Cons_conv)
    define r' where "r' = r\<lparr>reg_in_flight := False, reg_rerun := False,
        reg_dirty := reg_dirty r \<or> \<not> succeeded \<or> reg_rerun r\<rparr>"
    define f where "f = g\<lparr>rfh_state := put_registration ?p r' ?c\<rparr>"
    have "registration_ok strict (crd_connected ?c) (?p \<in> crd_pending ?c) (current ?p g) (rfh_unserved g ?p) (Some r')"
      using v r ok by (auto simp: view_ok_def none g(2) here r'_def causes_cover_def)
    moreover have "\<forall>q. q \<noteq> ?p \<longrightarrow> view_ok strict q g"
      using good by (auto simp: refresh_good_def view_ok_def g others)
    ultimately have views: "\<forall>q. view_ok strict q f"
      using put_ok [of ?p strict g r'] by (simp add: f_def g(1))
    have runs_f: "runs_ok f" using runs by (simp add: runs_ok_def f_def put_registration_def g(1))
    have timer: "timer_ok (rfh_state f)" using good by (simp add: refresh_good_def timer_ok_def f_def put_registration_def)
    let ?again = "reg_rerun r \<and> reg_dirty r' \<and> crd_connected ?c \<and> vis ?p"
    have complete: "complete_refresh vis run succeeded ?c
        = (if ?again then start_refresh ?p (rfh_state f) else ([], rfh_state f))"
      using here by (simp add: complete_refresh_def Let_def r(1) f_def r'_def put_registration_def)
    have same: "note_started x g = note_started x f" for x
      by (simp add: note_started_def f_def cong: if_cong)
    show ?thesis
    proof (cases ?again)
      case False
      have "note_started ([], rfh_state f) f = f" by (simp add: note_started_def)
      with views runs_f timer show ?thesis unfolding step complete same if_not_P [OF False]
        by (simp add: refresh_good_def)
    next
      case True
      let ?d = "rfh_state f"
      have "?p \<notin> crd_pending ?d" using r(4) by (simp add: f_def put_registration_def)
      moreover have "crd_pending (snd (start_refresh ?p ?d)) = crd_pending ?d"
        "timer_ok (snd (start_refresh ?p ?d))"
        using timer by (simp_all add: start_refresh_eq timer_ok_def)
      ultimately show ?thesis
        using started_good [OF views runs_f starts_refresh, of ?p]
        unfolding step complete same if_P [OF True]
        by (auto simp: refresh_good_def) (simp_all add: note_started_def)
    qed
  qed
qed (use good in simp)

text \<open>A new context: no refresh that is running belongs to it.\<close>

lemma new_context:
  assumes "unat (crd_context c) + 1 < 2 ^ 64" "x \<le> crd_context c"
  shows "x \<noteq> crd_context c + 1" "x \<le> crd_context c + 1" "unat (crd_context c + 1) = Suc (unat (crd_context c))"
proof -
  have "crd_context c + 1 \<noteq> 0"
  proof
    assume "crd_context c + 1 = 0"
    then have "crd_context c = - 1" by (simp add: eq_neg_iff_add_eq_0)
    then have "unat (crd_context c) = 2 ^ 64 - 1" by (simp add: unsigned_minus_1_eq_mask mask_eq_exp_minus_1)
    with assms(1) show False by simp
  qed
  then show s: "unat (crd_context c + 1) = Suc (unat (crd_context c))"
    using unatSuc [of "crd_context c"] by (simp add: add.commute)
  from assms(2) have "unat x \<le> unat (crd_context c)" by (simp add: word_le_nat_alt)
  with s show "x \<noteq> crd_context c + 1" "x \<le> crd_context c + 1"
    by (auto simp: word_le_nat_alt)
qed

lemma reset_good:
  assumes good: "refresh_good strict h" and n: "unat (crd_context (rfh_state h)) + 1 < 2 ^ 64"
  shows "refresh_good strict (refresh_step (ResetContext up) h)"
proof -
  let ?c = "rfh_state h"
  have old: "run_context run \<le> crd_context ?c" if "(run, vs) \<in> set (rfh_runs h)" for run vs
    using good that by (auto simp: refresh_good_def runs_ok_def)
  have none: "filter (\<lambda>(run, vs). run_view run = p \<and> run_context run = crd_context ?c + 1) (rfh_runs h) = []" for p
    using old new_context(1) [OF n] by (fastforce simp: filter_empty_conv)
  have "registration_ok strict up False [] [] (map_option (\<lambda>r. r\<lparr>reg_dirty := False, reg_in_flight := False,
      reg_rerun := False, reg_cause := no_invalidation\<rparr>) o')" for o'
    by (cases o') (simp_all add: causes_cover_def)
  then have "view_ok strict p (refresh_step (ResetContext up) h)" for p
    by (simp add: view_ok_def current_def reset_context_def none)
  moreover have "runs_ok (refresh_step (ResetContext up) h)"
    using old new_context(2) [OF n] by (auto simp: runs_ok_def reset_context_def)
  ultimately show ?thesis
    by (simp add: refresh_good_def) (simp add: timer_ok_def reset_context_def)
qed

lemma lose_good:
  assumes good: "refresh_good strict h" and n: "unat (crd_context (rfh_state h)) + 1 < 2 ^ 64"
  shows "refresh_good strict (refresh_step LoseConnection h)"
proof (cases "crd_connected (rfh_state h)")
  case False
  have same: "set_connected False (rfh_state h) = rfh_state h" using False by (simp add: set_connected_def)
  have keep: "registration_ok strict False pending runs us' r"
    if "registration_ok strict False pending runs us r" "r = None \<longrightarrow> us' = []" for pending runs us us' r
    using that by (cases r) auto
  have "view_ok strict p (refresh_step LoseConnection h)" for p
  proof -
    have v: "registration_ok strict False (p \<in> crd_pending (rfh_state h)) (current p h) (rfh_unserved h p)
        (crd_registrations (rfh_state h) p)"
      using good False by (simp add: refresh_good_def view_ok_def)
    then have "crd_registrations (rfh_state h) p = None \<longrightarrow> concat (map snd (current p h)) @ rfh_unserved h p = []"
      by auto
    from keep [OF v this] show ?thesis using False by (simp add: view_ok_def same current_def)
  qed
  with good show ?thesis by (simp add: refresh_good_def runs_ok_def same)
next
  case True
  let ?c = "rfh_state h"
  let ?d = "set_connected False ?c"
  have old: "run_context run \<le> crd_context ?c" if "(run, vs) \<in> set (rfh_runs h)" for run vs
    using good that by (auto simp: refresh_good_def runs_ok_def)
  have none: "filter (\<lambda>(run, vs). run_view run = p \<and> run_context run = crd_context ?c + 1) (rfh_runs h) = []" for p
    using old new_context(1) [OF n] by (fastforce simp: filter_empty_conv)
  have d: "crd_context ?d = crd_context ?c + 1" "\<not> crd_connected ?d" "crd_pending ?d = {}"
    "crd_registrations ?d p = map_option (\<lambda>r. r\<lparr>reg_in_flight := False, reg_rerun := False\<rparr>) (crd_registrations ?c p)" for p
    using True by (simp_all add: set_connected_def)
  have "registration_ok strict False False [] us (map_option (\<lambda>r. r\<lparr>reg_in_flight := False, reg_rerun := False\<rparr>) r)"
    if "r = None \<longrightarrow> us = []" for us r using that by (cases r) auto
  moreover have "current p h = [] \<and> rfh_unserved h p = []" if "crd_registrations ?c p = None" for p
    using good that by (auto simp: refresh_good_def view_ok_def dest: spec [of _ p])
  ultimately have "view_ok strict p (refresh_step LoseConnection h)" for p
    by (simp add: view_ok_def current_def d none)
  moreover have "runs_ok (refresh_step LoseConnection h)"
    using old new_context(2) [OF n] by (auto simp: runs_ok_def d)
  ultimately show ?thesis by (simp add: refresh_good_def) (simp add: timer_ok_def d)
qed

fun fails :: "refresh_event \<Rightarrow> bool" where
  "fails (Finish k succeeded vis) \<longleftrightarrow> \<not> succeeded"
| "fails _ \<longleftrightarrow> False"

lemma refresh_step_good:
  assumes "refresh_good strict h" "unat (crd_context (rfh_state h)) + 1 < 2 ^ 64" "strict \<Longrightarrow> \<not> fails e"
  shows "refresh_good strict (refresh_step e h)"
  using assms receive_good timer_good relevant_good finish_good reset_good lose_good available_good
  by (cases e) (simp_all del: refresh_step.simps)

lemma start_context [simp]:
  "crd_context (snd (start_refresh p c)) = crd_context c"
  "crd_context (snd (surface_became_relevant p c)) = crd_context c"
  "crd_context (snd (process_pending vis c)) = crd_context c"
  "crd_context (snd (complete_refresh vis run ok c)) = crd_context c"
  "crd_context (receive_invalidation v c) = crd_context c"
  "crd_context (set_operational_available a c) = crd_context c"
  by (simp_all add: start_refresh_eq surface_became_relevant_def process_pending_def start_visible_eq
      complete_refresh_def receive_invalidation_def start_timer_def fold_mark_dirty put_registration_def
      set_operational_available_def Let_def split: option.split)

lemma step_context:
  assumes "unat (crd_context (rfh_state h)) + 1 < 2 ^ 64"
  shows "unat (crd_context (rfh_state (refresh_step e h))) \<le> Suc (unat (crd_context (rfh_state h)))"
  using new_context(3) [OF assms order_refl]
  by (cases e) (auto simp: note_started_def reset_context_def set_connected_def Let_def split: prod.split)

lemma refresh_run_good:
  "refresh_good strict h \<Longrightarrow> unat (crd_context (rfh_state h)) + length es < 2 ^ 64
   \<Longrightarrow> (strict \<Longrightarrow> list_all (\<lambda>e. \<not> fails e) es) \<Longrightarrow> refresh_good strict (fold refresh_step es h)"
proof (induction es arbitrary: h)
  case (Cons e es)
  then have n: "unat (crd_context (rfh_state h)) + 1 < 2 ^ 64" by simp
  have "unat (crd_context (rfh_state (refresh_step e h))) + length es < 2 ^ 64"
    using step_context [OF n, of e] Cons.prems(2) by simp
  with Cons.prems refresh_step_good [OF Cons.prems(1) n, of e] show ?case
    by (auto intro!: Cons.IH)
qed simp

section \<open>Every event is accounted for\<close>

definition running_events :: "projection \<Rightarrow> refresh_history \<Rightarrow> invalidation list" where
  "running_events p h = concat (map snd (current p h))"

definition accounted :: "refresh_history \<Rightarrow> bool" where
  "accounted h \<longleftrightarrow> (\<forall>p. set (rfh_received h p) \<subseteq> fst ` set (rfh_shown h p) \<union> set (running_events p h) \<union> set (rfh_unserved h p))"

lemma accounted_started:
  assumes "accounted h" "starts ps (rfh_state h) x"
  shows "accounted (note_started x h)"
proof -
  have new: "fst x = map (begun (rfh_state h)) ps" "crd_context (snd x) = crd_context (rfh_state h)"
    "run_view ` set (fst x) = set ps"
    using assms(2) by (force simp: starts_def begun_def)+
  have "set (running_events p (note_started x h)) \<supseteq> set (running_events p h) \<union> (if p \<in> set ps then set (rfh_unserved h p) else {})" for p
    unfolding running_events_def current_def
    by (auto simp: note_started_def new begun_def image_iff intro!: bexI [of _ p])
  with assms(1) show ?thesis
    unfolding accounted_def by (fastforce simp: note_started_def new(3) split: if_splits)
qed

lemma complete_starts:
  obtains d ps where "starts ps d (complete_refresh vis run ok c)" "crd_context d = crd_context c"
proof (cases "crd_registrations c (run_view run) = None \<or> run_context run \<noteq> crd_context c")
  case True
  then have "complete_refresh vis run ok c = ([], c)"
    by (auto simp: complete_refresh_def Let_def split: option.split)
  then have "starts [] c (complete_refresh vis run ok c)" by (simp add: starts_def)
  then show ?thesis by (rule that) simp
next
  case False
  then obtain r where r: "crd_registrations c (run_view run) = Some r" by auto
  define d where "d = put_registration (run_view run) (r\<lparr>reg_in_flight := False, reg_rerun := False,
      reg_dirty := reg_dirty r \<or> \<not> ok \<or> reg_rerun r\<rparr>) c"
  have "complete_refresh vis run ok c = ([], d) \<or> complete_refresh vis run ok c = start_refresh (run_view run) d"
    using False by (auto simp: complete_refresh_def Let_def r d_def)
  then have "\<exists>ps. starts ps d (complete_refresh vis run ok c)"
    using starts_refresh [of d "run_view run"] starts_none [of d d] by fastforce
  then show ?thesis using that by (auto simp: d_def put_registration_def)
qed

lemma accounted_finish:
  assumes acc: "accounted h" shows "accounted (refresh_step (Finish k succeeded vis) h)"
proof (cases "k < length (rfh_runs h)")
  case k: True
  obtain run vs where run: "rfh_runs h ! k = (run, vs)" by fastforce
  let ?c = "rfh_state h" and ?here = "run_context run = crd_context (rfh_state h)"
  define g where "g = without k (if ?here \<and> \<not> succeeded then vs else [])
    (if ?here \<and> succeeded then map (\<lambda>v. (v, run_cause run)) vs else []) h"
  have step: "refresh_step (Finish k succeeded vis) h = note_started (complete_refresh vis run succeeded ?c) g"
    using k by (simp add: run g_def without_def Let_def)
  have fewer: "set (running_events q h) \<subseteq> set (running_events q g) \<union> (if q = run_view run \<and> ?here then set vs else {})" for q
    using filter_without [OF k, of "\<lambda>(run, vs). run_view run = q \<and> run_context run = crd_context ?c"]
    by (auto simp: running_events_def current_def g_def without_def run split: if_splits)
  have g: "rfh_received g = rfh_received h"
    "set (rfh_unserved h q) \<subseteq> set (rfh_unserved g q)" "set (rfh_shown h q) \<subseteq> set (rfh_shown g q)"
    "?here \<Longrightarrow> set vs \<subseteq> set (rfh_unserved g (run_view run)) \<union> fst ` set (rfh_shown g (run_view run))" for q
    by (auto simp: g_def without_def run image_image image_Un)
  have covered: "x \<in> fst ` set (rfh_shown g q) \<union> set (running_events q g) \<union> set (rfh_unserved g q)"
    if "x \<in> set (rfh_received g q)" for x q
  proof -
    from acc that g(1) have "x \<in> fst ` set (rfh_shown h q) \<union> set (running_events q h) \<union> set (rfh_unserved h q)"
      by (auto simp: accounted_def)
    then consider "x \<in> fst ` set (rfh_shown g q)" | "x \<in> set (rfh_unserved g q)" | "x \<in> set (running_events q h)"
      using g(2,3) by blast
    then show ?thesis
    proof cases
      case 3
      with fewer [of q] g(4) show ?thesis by (auto split: if_splits)
    qed simp_all
  qed
  obtain d ps where d: "starts ps d (complete_refresh vis run succeeded ?c)" "crd_context d = crd_context ?c"
    by (rule complete_starts)
  let ?f = "g\<lparr>rfh_state := d\<rparr>"
  have "running_events q ?f = running_events q g" for q
    by (simp add: running_events_def current_def d(2)) (simp add: g_def without_def)
  then have "accounted ?f" using covered by (auto simp: accounted_def)
  from accounted_started [OF this, of ps "complete_refresh vis run succeeded ?c"] d(1)
  have "accounted (note_started (complete_refresh vis run succeeded ?c) ?f)" by simp
  then show ?thesis unfolding step by (simp add: note_started_def cong: if_cong)
qed (use acc in simp)

lemma accounted_step:
  assumes acc: "accounted h"
  shows "accounted (refresh_step e h)"
proof (cases e)
  case (Receive v)
  have "running_events p (refresh_step (Receive v) h) = running_events p h" for p
    by (simp add: running_events_def current_def Let_def)
  with acc show ?thesis by (fastforce simp: Receive accounted_def Let_def)
next
  case (TimerFires vis)
  show ?thesis
    using accounted_started [OF acc starts_pending] acc by (simp add: TimerFires)
next
  case (BecomesRelevant p)
  let ?c = "rfh_state h"
  have "starts (if startable ?c p \<and> is_dirty ?c p then [p] else []) ?c (surface_became_relevant p ?c)"
    by (auto simp: surface_became_relevant_def start_refresh_eq starts_def startable_def is_dirty_iff begun_def
        begin_registration_def fun_eq_iff split: option.split)
  from accounted_started [OF acc this] show ?thesis by (simp add: BecomesRelevant)
next
  case (ResetContext up)
  then show ?thesis by (simp add: accounted_def)
next
  case LoseConnection
  have "set (running_events p h) \<union> set (rfh_unserved h p) \<subseteq> set (rfh_unserved (refresh_step LoseConnection h) p)" for p
    by (auto simp: running_events_def)
  with acc show ?thesis unfolding LoseConnection accounted_def by fastforce
next
  case (SetAvailable a)
  have "running_events p (refresh_step (SetAvailable a) h) = running_events p h" for p
    by (simp add: running_events_def current_def)
  with acc show ?thesis by (simp add: SetAvailable accounted_def)
next
  case (Finish k succeeded vis)
  then show ?thesis using accounted_finish [OF acc] by simp
qed

lemma accounted_run: "accounted h \<Longrightarrow> accounted (fold refresh_step es h)"
  by (induction es arbitrary: h) (auto intro: accounted_step)

text \<open>Without failures, what was shown was shown for a cause that covers it.\<close>

definition shown_ok :: "refresh_history \<Rightarrow> bool" where
  "shown_ok h \<longleftrightarrow> (\<forall>p. \<forall>(v, c) \<in> set (rfh_shown h p). covers c v)"

text \<open>No refresh that is running has events its cause does not cover.\<close>

definition running_ok :: "refresh_history \<Rightarrow> bool" where
  "running_ok h \<longleftrightarrow> (\<forall>(run, vs) \<in> set (rfh_runs h). \<forall>v \<in> set vs. covers (run_cause run) v)"

lemma started_new:
  assumes "starts ps c x" "run \<in> set (fst x)"
  shows "run_context run = crd_context (snd x)" "crd_connected (snd x)"
  using assms by (auto simp: starts_def list_all_iff startable_def begun_def)

lemma relevant_starts: "\<exists>ps. starts ps c (surface_became_relevant p c)"
  by (intro exI [of _ "if startable c p \<and> is_dirty c p then [p] else []"])
     (auto simp: surface_became_relevant_def start_refresh_eq starts_def startable_def is_dirty_iff begun_def
      begin_registration_def fun_eq_iff split: option.split)

lemma new_runs:
  assumes "(run, vs) \<in> set (rfh_runs (refresh_step e h))"
  shows "(run, vs) \<in> set (rfh_runs h) \<or> (run_context run = crd_context (rfh_state (refresh_step e h))
    \<and> crd_connected (rfh_state (refresh_step e h)))"
proof (cases e)
  case (TimerFires vis)
  with assms started_new [OF starts_pending [of vis "rfh_state h"]] show ?thesis
    by (auto simp: note_started_def split: if_splits)
next
  case (BecomesRelevant p)
  obtain ps where "starts ps (rfh_state h) (surface_became_relevant p (rfh_state h))"
    using relevant_starts by blast
  from started_new [OF this] assms BecomesRelevant show ?thesis by (auto simp: note_started_def)
next
  case (Finish k ok vis)
  show ?thesis
  proof (cases "k < length (rfh_runs h)")
    case True
    obtain fin us where fin: "rfh_runs h ! k = (fin, us)" by fastforce
    obtain d ps where "starts ps d (complete_refresh vis fin ok (rfh_state h))" by (rule complete_starts)
    from started_new [OF this] assms True show ?thesis
      by (auto simp: Finish fin note_started_def Let_def dest: in_set_takeD in_set_dropD)
  qed (use assms Finish in simp)
qed (use assms in \<open>auto simp: Let_def\<close>)

lemma running_step:
  assumes "running_ok h" "refresh_good True (refresh_step e h)"
  shows "running_ok (refresh_step e h)"
proof -
  let ?g = "refresh_step e h"
  have "\<forall>v \<in> set vs. covers (run_cause run) v" if x: "(run, vs) \<in> set (rfh_runs ?g)" for run vs
  proof (cases "(run, vs) \<in> set (rfh_runs h)")
    case True
    with assms(1) show ?thesis by (auto simp: running_ok_def)
  next
    case False
    with new_runs [OF x] have here: "run_context run = crd_context (rfh_state ?g)" "crd_connected (rfh_state ?g)" by auto
    with x have cur: "(run, vs) \<in> set (current (run_view run) ?g)" by (auto simp: current_def)
    have "view_ok True (run_view run) ?g" using assms(2) by (simp add: refresh_good_def)
    with cur here obtain r where "causes_cover r (current (run_view run) ?g) (rfh_unserved ?g (run_view run))"
      by (cases "crd_registrations (rfh_state ?g) (run_view run)") (auto simp: view_ok_def)
    with cur show ?thesis by (auto simp: causes_cover_def)
  qed
  then show ?thesis by (auto simp: running_ok_def)
qed

lemma shown_step:
  assumes "shown_ok h" "running_ok h"
  shows "shown_ok (refresh_step e h)"
proof (cases e)
  case (Finish k ok vis)
  show ?thesis
  proof (cases "k < length (rfh_runs h)")
    case True
    obtain fin us where fin: "rfh_runs h ! k = (fin, us)" by fastforce
    then have "(fin, us) \<in> set (rfh_runs h)" using True nth_mem by fastforce
    with assms True show ?thesis
      by (fastforce simp: Finish fin shown_ok_def running_ok_def note_started_def Let_def)
  qed (use assms Finish in simp)
qed (use assms in \<open>auto simp: shown_ok_def note_started_def Let_def\<close>)

lemma refresh_run_shown:
  "refresh_good True h \<Longrightarrow> shown_ok h \<Longrightarrow> running_ok h \<Longrightarrow> unat (crd_context (rfh_state h)) + length es < 2 ^ 64
   \<Longrightarrow> list_all (\<lambda>e. \<not> fails e) es \<Longrightarrow> shown_ok (fold refresh_step es h) \<and> running_ok (fold refresh_step es h)"
proof (induction es arbitrary: h)
  case (Cons e es)
  from Cons.prems have n: "unat (crd_context (rfh_state h)) + 1 < 2 ^ 64" by simp
  have good: "refresh_good True (refresh_step e h)"
    using refresh_step_good [OF Cons.prems(1) n, of e] Cons.prems(5) by simp
  have "unat (crd_context (rfh_state (refresh_step e h))) + length es < 2 ^ 64"
    using step_context [OF n, of e] Cons.prems(4) by simp
  with Cons.prems good shown_step [of h e] running_step [of h e] Cons.IH [of "refresh_step e h"] show ?case
    by simp
qed simp

section \<open>No event is lost\<close>

definition new_history :: "projection list \<Rightarrow> refresh_history" where
  "new_history ps = \<lparr>rfh_state = fold register_projection ps new_coordinator, rfh_runs = [],
     rfh_unserved = (\<lambda>p. []), rfh_received = (\<lambda>p. []), rfh_shown = (\<lambda>p. [])\<rparr>"

lemma fold_register:
  "crd_registrations (fold register_projection ps c) p = (if p \<in> set ps then Some new_registration else crd_registrations c p)"
  "crd_pending (fold register_projection ps c) = crd_pending c"
  "crd_connected (fold register_projection ps c) = crd_connected c"
  "crd_context (fold register_projection ps c) = crd_context c"
  by (induction ps arbitrary: c) (auto simp: register_projection_def put_registration_def)

lemma new_history_good:
  "refresh_good strict (new_history ps)" "accounted (new_history ps)" "shown_ok (new_history ps)"
  "running_ok (new_history ps)" "crd_context (rfh_state (new_history ps)) = 0"
proof -
  have "view_ok strict p (new_history ps)" for p
    by (simp add: view_ok_def new_history_def current_def fold_register new_coordinator_def new_registration_def)
  then show "refresh_good strict (new_history ps)"
    by (simp add: refresh_good_def runs_ok_def timer_ok_def)
       (simp add: new_history_def fold_register new_coordinator_def)
  show "accounted (new_history ps)" "shown_ok (new_history ps)" "running_ok (new_history ps)"
    "crd_context (rfh_state (new_history ps)) = 0"
    by (simp_all add: accounted_def shown_ok_def running_ok_def new_history_def fold_register new_coordinator_def)
qed

text \<open>
  Property C38. No event of the Host is lost on its way to a view. In any history of events,
  timers, refreshes that end, surfaces coming up, changes of session or Workspace and Maintenance
  in which no refresh fails, as long as the client is connected, every event that arrived for a
  view since the last change of context has been shown by a refresh that was started for a cause
  covering it and ended, or is in such a refresh now, or the view is marked dirty with a cause
  that covers it.
\<close>

theorem no_event_is_lost:
  assumes "length es < 2 ^ 64" "list_all (\<lambda>e. \<not> fails e) es"
    and g: "g = fold refresh_step es (new_history ps)" and "crd_connected (rfh_state g)"
    and v: "v \<in> set (rfh_received g p)"
  shows "(\<exists>c. (v, c) \<in> set (rfh_shown g p) \<and> covers c v)
    \<or> (\<exists>run vs. (run, vs) \<in> set (current p g) \<and> v \<in> set vs \<and> covers (run_cause run) v)
    \<or> (\<exists>r. crd_registrations (rfh_state g) p = Some r \<and> reg_dirty r \<and> covers (reg_cause r) v)"
proof -
  note start = new_history_good
  have n: "unat (crd_context (rfh_state (new_history ps))) + length es < 2 ^ 64"
    using assms(1) by (simp add: start(5))
  have good: "refresh_good True g"
    unfolding g by (rule refresh_run_good [OF start(1) n]) (use assms(2) in simp)
  have shown: "shown_ok g" "running_ok g"
    using refresh_run_shown [OF start(1,3,4) n assms(2)] by (simp_all add: g)
  have "accounted g" unfolding g by (rule accounted_run [OF start(2)])
  with v consider "v \<in> fst ` set (rfh_shown g p)" | "v \<in> set (running_events p g)" | "v \<in> set (rfh_unserved g p)"
    unfolding accounted_def by blast
  then show ?thesis
  proof cases
    case 1
    with shown(1) show ?thesis by (fastforce simp: shown_ok_def)
  next
    case 2
    then obtain run vs where "(run, vs) \<in> set (current p g)" "v \<in> set vs"
      by (auto simp: running_events_def)
    moreover from this shown(2) have "covers (run_cause run) v" by (auto simp: current_def running_ok_def)
    ultimately show ?thesis by blast
  next
    case 3
    have "view_ok True p g" using good by (simp add: refresh_good_def)
    with 3 assms(4) obtain r where "crd_registrations (rfh_state g) p = Some r" "reg_dirty r" "covers (reg_cause r) v"
      by (cases "crd_registrations (rfh_state g) p") (auto simp: view_ok_def causes_cover_def)
    then show ?thesis by blast
  qed
qed

definition sample_event :: "inval_domain list \<Rightarrow> int \<Rightarrow> invalidation" where
  "sample_event ds build = no_invalidation\<lparr>ivd_sequence := 1, ivd_domains := ds, ivd_workspace := Some 1,
     ivd_build := Some build\<rparr>"

definition requirement_event :: "int \<Rightarrow> invalidation" where
  "requirement_event = sample_event [BuildRequirementsDomain]"

definition sample_refreshes :: "refresh_event list" where
  "sample_refreshes = [ResetContext True, Receive (requirement_event 5), TimerFires (\<lambda>p. True),
     Receive (requirement_event 7)]"

theorem no_event_is_lost_witness:
  "let g = fold refresh_step sample_refreshes (new_history [BuildRequirementsView]) in
     rfh_received g BuildRequirementsView = [requirement_event 5, requirement_event 7]
     \<and> (\<exists>run vs. (run, vs) \<in> set (current BuildRequirementsView g) \<and> covers (run_cause run) (requirement_event 5))"
proof -
  define g where "g = fold refresh_step sample_refreshes (new_history [BuildRequirementsView])"
  have received: "rfh_received g BuildRequirementsView = [requirement_event 5, requirement_event 7]"
    and conn: "crd_connected (rfh_state g)" and shown: "rfh_shown g BuildRequirementsView = []"
    and cause: "map_option reg_cause (crd_registrations (rfh_state g) BuildRequirementsView) = Some (requirement_event 7)"
    unfolding g_def by code_simp+
  have len: "length sample_refreshes < 2 ^ 64" and ok: "list_all (\<lambda>e. \<not> fails e) sample_refreshes"
    by (simp_all add: sample_refreshes_def)
  have "\<not> covers (requirement_event 7) (requirement_event 5)" by code_simp
  with no_event_is_lost [OF len ok g_def conn, of "requirement_event 5" BuildRequirementsView] shown cause received
  show ?thesis by (fastforce simp: g_def Let_def)
qed

section \<open>What is lost after a failure\<close>

text \<open>
  A refresh that fails leaves its view dirty, but its cause is gone: the next event becomes the
  whole cause, so that the refresh that follows is narrowed to that event alone.
\<close>

lemma cause_lost_by_failure:
  "let g = fold refresh_step [ResetContext True, Receive (requirement_event 5), TimerFires (\<lambda>p. True),
        Finish 0 False (\<lambda>p. True), Receive (requirement_event 7), TimerFires (\<lambda>p. True), Finish 0 True (\<lambda>p. True)]
      (new_history [BuildRequirementsView]) in
    rfh_shown g BuildRequirementsView
      = [(requirement_event 5, requirement_event 7), (requirement_event 7, requirement_event 7)]
    \<and> \<not> covers (requirement_event 7) (requirement_event 5) \<and> \<not> is_dirty (rfh_state g) BuildRequirementsView"
  by code_simp

text \<open>
  A view that is to be refreshed again when a refresh ends during Maintenance stays dirty and is
  not pending: when Maintenance is over nothing starts it, although it is visible.
\<close>

lemma rerun_lost_in_maintenance:
  "let g = fold refresh_step [ResetContext True, Receive (requirement_event 5), TimerFires (\<lambda>p. True),
        Receive (requirement_event 7), SetAvailable False, Finish 0 True (\<lambda>p. True), SetAvailable True]
      (new_history [BuildRequirementsView]) in
    is_dirty (rfh_state g) BuildRequirementsView \<and> rfh_runs g = [] \<and> \<not> crd_timer (rfh_state g)
    \<and> BuildRequirementsView \<notin> crd_pending (rfh_state g)"
  by code_simp

end
