(* ===== verification/RefreshProgress.thy ===== *)
theory RefreshProgress
  imports RefreshHistories RemoteSession
begin

text \<open>
  That views become current: a visible view settles once its refreshes end, and a mutation the
  Host publishes marks the right views of every connected client.
\<close>

section \<open>A visible view settles\<close>

definition is_current :: "projection \<Rightarrow> refresh_history \<Rightarrow> refresh_run \<times> invalidation list \<Rightarrow> bool" where
  "is_current p h x \<longleftrightarrow> run_view (fst x) = p \<and> run_context (fst x) = crd_context (rfh_state h)"

text \<open>The place of the refresh that runs for a view; past the end when none does.\<close>

definition run_index :: "projection \<Rightarrow> refresh_history \<Rightarrow> nat" where
  "run_index p h = length (takeWhile (\<lambda>x. \<not> is_current p h x) (rfh_runs h))"

definition finish_current :: "(projection \<Rightarrow> bool) \<Rightarrow> projection \<Rightarrow> refresh_history \<Rightarrow> refresh_history" where
  "finish_current vis p h = refresh_step (Finish (run_index p h) True vis) h"

lemma current_eq: "current p h = filter (is_current p h) (rfh_runs h)"
  unfolding current_def by (rule filter_cong) (auto simp: is_current_def)

lemma run_index_none: "current p h = [] \<Longrightarrow> run_index p h = length (rfh_runs h)"
  by (auto simp: current_eq run_index_def filter_empty_conv takeWhile_eq_all_conv[THEN iffD2])

lemma run_index_some:
  assumes "current p h \<noteq> []"
  shows "run_index p h < length (rfh_runs h)" "is_current p h (rfh_runs h ! run_index p h)"
proof -
  from assms have "\<exists>x \<in> set (rfh_runs h). is_current p h x" by (auto simp: current_eq filter_empty_conv)
  then have "takeWhile (\<lambda>x. \<not> is_current p h x) (rfh_runs h) \<noteq> rfh_runs h"
    by (auto simp: takeWhile_eq_all_conv)
  then show less: "run_index p h < length (rfh_runs h)"
    unfolding run_index_def by (metis length_takeWhile_le nat_less_le takeWhile_eq_take take_all order_refl)
  with nth_length_takeWhile [of "\<lambda>x. \<not> is_current p h x" "rfh_runs h"]
  show "is_current p h (rfh_runs h ! run_index p h)" by (simp add: run_index_def)
qed

lemma finish_idle: "current p h = [] \<Longrightarrow> finish_current vis p h = h"
  by (simp add: finish_current_def run_index_none)

text \<open>A refresh that ends well, seen by its view.\<close>

lemma finish_running:
  assumes cur: "current p h \<noteq> []" and r: "crd_registrations (rfh_state h) p = Some r"
    and env: "crd_connected (rfh_state h)" "crd_available (rfh_state h)" "vis p"
  shows "reg_rerun r \<Longrightarrow> rfh_unserved (finish_current vis p h) p = []
      \<and> map_option (\<lambda>r. (reg_in_flight r, reg_dirty r, reg_rerun r)) (crd_registrations (rfh_state (finish_current vis p h)) p)
        = Some (True, False, False)
      \<and> crd_connected (rfh_state (finish_current vis p h)) \<and> crd_available (rfh_state (finish_current vis p h))"
    "\<not> reg_rerun r \<Longrightarrow> rfh_unserved (finish_current vis p h) p = rfh_unserved h p
      \<and> map_option (\<lambda>r. (reg_in_flight r, reg_dirty r, reg_rerun r)) (crd_registrations (rfh_state (finish_current vis p h)) p)
        = Some (False, reg_dirty r, False)"
proof -
  obtain run vs where run: "rfh_runs h ! run_index p h = (run, vs)" by fastforce
  with run_index_some [OF cur] have here: "run_view run = p" "run_context run = crd_context (rfh_state h)"
    "run_index p h < length (rfh_runs h)" by (auto simp: is_current_def)
  note step = finish_current_def refresh_step.simps here run Let_def
  show "rfh_unserved (finish_current vis p h) p = []
      \<and> map_option (\<lambda>r. (reg_in_flight r, reg_dirty r, reg_rerun r)) (crd_registrations (rfh_state (finish_current vis p h)) p)
        = Some (True, False, False)
      \<and> crd_connected (rfh_state (finish_current vis p h)) \<and> crd_available (rfh_state (finish_current vis p h))"
    if "reg_rerun r"
    using that r env
    by (simp add: step note_started_def complete_refresh_def put_registration_def start_refresh_def)
  show "rfh_unserved (finish_current vis p h) p = rfh_unserved h p
      \<and> map_option (\<lambda>r. (reg_in_flight r, reg_dirty r, reg_rerun r)) (crd_registrations (rfh_state (finish_current vis p h)) p)
        = Some (False, reg_dirty r, False)" if "\<not> reg_rerun r"
    using that r env
    by (simp add: step note_started_def complete_refresh_def put_registration_def)
qed

definition settle :: "(projection \<Rightarrow> bool) \<Rightarrow> projection \<Rightarrow> refresh_history \<Rightarrow> refresh_history" where
  "settle vis p h = finish_current vis p (finish_current vis p (refresh_step (TimerFires vis) h))"

definition settled :: "projection \<Rightarrow> refresh_history \<Rightarrow> bool" where
  "settled p h \<longleftrightarrow> \<not> is_dirty (rfh_state h) p \<and> \<not> is_in_flight (rfh_state h) p \<and> rfh_unserved h p = []"

definition view_flags :: "projection \<Rightarrow> refresh_history \<Rightarrow> (bool \<times> bool \<times> bool) option" where
  "view_flags p h = map_option (\<lambda>r. (reg_in_flight r, reg_dirty r, reg_rerun r)) (crd_registrations (rfh_state h) p)"

lemma settledI: "view_flags p h = Some (False, False, x) \<Longrightarrow> rfh_unserved h p = [] \<Longrightarrow> settled p h"
  by (auto simp: settled_def view_flags_def is_dirty_def is_in_flight_def)

text \<open>From a view in flight: one refresh ends, and the one that followed it, if any, as well.\<close>

lemma in_flight_settles:
  assumes good: "refresh_good strict h" and r: "crd_registrations (rfh_state h) p = Some r" "reg_in_flight r"
    and env: "crd_connected (rfh_state h)" "crd_available (rfh_state h)" "vis p"
  shows "settled p (finish_current vis p (finish_current vis p h))"
proof -
  have ok: "view_ok strict p x" if "refresh_good strict x" for x using that by (simp add: refresh_good_def)
  have cur: "current p h \<noteq> []" using ok [OF good] r by (auto simp: view_ok_def)
  define g where "g = finish_current vis p h"
  have good_g: "refresh_good strict g"
    unfolding g_def finish_current_def by (rule finish_good [OF good]) simp
  show ?thesis
  proof (cases "reg_rerun r")
    case True
    from finish_running(1) [where p = p and h = h and vis = vis and r = r, OF cur r(1) env True]
    obtain r' where r': "crd_registrations (rfh_state g) p = Some r'" "reg_in_flight r'" "\<not> reg_dirty r'" "\<not> reg_rerun r'"
      and un: "rfh_unserved g p = []" and env': "crd_connected (rfh_state g)" "crd_available (rfh_state g)"
      by (auto simp: g_def)
    have "current p g \<noteq> []" using ok [OF good_g] r' by (auto simp: view_ok_def)
    from finish_running(2) [where p = p and h = g and vis = vis and r = r', OF this r'(1) env' env(3) r'(4)] un r'(3)
    show ?thesis unfolding g_def [symmetric] by (intro settledI [of _ _ False]) (simp_all add: view_flags_def)
  next
    case False
    have dirty: "\<not> reg_dirty r" "rfh_unserved h p = []"
      using ok [OF good] r env False by (auto simp: view_ok_def)
    from finish_running(2) [where p = p and h = h and vis = vis and r = r, OF cur r(1) env False] dirty
    have flags: "view_flags p g = Some (False, False, False)" "rfh_unserved g p = []"
      by (simp_all add: g_def view_flags_def)
    then have "current p g = []" using ok [OF good_g] by (auto simp: view_ok_def view_flags_def)
    with flags settledI [OF flags] show ?thesis unfolding g_def [symmetric] by (simp add: finish_idle)
  qed
qed

lemma timer_flight:
  assumes good: "refresh_good strict h" and env: "crd_connected (rfh_state h)" "crd_available (rfh_state h)" "vis p"
    and "p \<in> crd_pending (rfh_state h) \<or> is_in_flight (rfh_state h) p"
  shows "is_in_flight (rfh_state (refresh_step (TimerFires vis) h)) p
    \<and> crd_connected (rfh_state (refresh_step (TimerFires vis) h)) \<and> crd_available (rfh_state (refresh_step (TimerFires vis) h))"
proof -
  let ?c = "rfh_state h"
  let ?ps = "filter (\<lambda>p. vis p \<and> is_dirty ?c p \<and> startable ?c p) (filter (\<lambda>p. p \<in> crd_pending ?c) all_projections)"
  from starts_pending [of vis ?c] have after: "crd_registrations (snd (process_pending vis ?c)) q
      = (if q \<in> set ?ps then map_option (begin_registration ?c) (crd_registrations ?c q) else crd_registrations ?c q)"
    "crd_connected (snd (process_pending vis ?c)) = crd_connected ?c"
    "crd_available (snd (process_pending vis ?c)) = crd_available ?c" for q
    by (auto simp: starts_def)
  have v: "view_ok strict p h" using good by (simp add: refresh_good_def)
  show ?thesis
  proof (cases "p \<in> crd_pending ?c")
    case True
    with v obtain r where "crd_registrations ?c p = Some r" "\<not> reg_in_flight r" "reg_dirty r"
      by (cases "crd_registrations ?c p") (auto simp: view_ok_def)
    moreover have "crd_timer ?c" using good True env by (auto simp: refresh_good_def timer_ok_def)
    ultimately show ?thesis
      using True env by (auto simp: note_started_def after is_in_flight_def is_dirty_def startable_def begin_registration_def)
  next
    case False
    with assms(5) have flying: "is_in_flight ?c p" by simp
    then show ?thesis
      using env by (auto simp: note_started_def after is_in_flight_def begin_registration_def split: option.splits)
  qed
qed

lemma relevant_flight:
  assumes "crd_connected (rfh_state h)" "crd_available (rfh_state h)" "is_dirty (rfh_state h) p"
  shows "is_in_flight (rfh_state (refresh_step (BecomesRelevant p) h)) p
    \<and> crd_connected (rfh_state (refresh_step (BecomesRelevant p) h)) \<and> crd_available (rfh_state (refresh_step (BecomesRelevant p) h))"
proof -
  obtain r where "crd_registrations (rfh_state h) p = Some r" "reg_dirty r" using assms(3) by (auto simp: is_dirty_iff)
  with assms(1,2) show ?thesis
    by (cases "reg_in_flight r")
      (auto simp: note_started_def surface_became_relevant_def start_refresh_def put_registration_def is_in_flight_def)
qed

lemma flying_settles:
  assumes good: "refresh_good strict g" and env: "crd_connected (rfh_state g)" "crd_available (rfh_state g)" "vis p"
    and "p \<in> crd_pending (rfh_state g) \<or> is_in_flight (rfh_state g) p"
  shows "settled p (settle vis p g)"
proof -
  define f where "f = refresh_step (TimerFires vis) g"
  have "refresh_good strict f" unfolding f_def by (rule timer_good [OF good])
  moreover from timer_flight [of strict g vis p, OF good env assms(5)]
  obtain r where "crd_registrations (rfh_state f) p = Some r" "reg_in_flight r"
    "crd_connected (rfh_state f)" "crd_available (rfh_state f)"
    by (auto simp: f_def is_in_flight_def split: option.splits)
  ultimately show ?thesis
    unfolding settle_def f_def [symmetric] using in_flight_settles [of strict f p r vis] env(3) by blast
qed

text \<open>
  Property C39. A visible view settles. After any history at all, failed refreshes and Maintenance
  included, if the client is connected and the Host available, a visible view that is pending or
  being refreshed is current after its timer has fired and its refresh, and the one that had to
  follow it if an event overtook it, have ended well: it is neither dirty nor in flight, and no
  event is left that it has not been refreshed for. A dirty view that is neither pending nor being
  refreshed, as a failed refresh leaves it, is current in the same sense once its surface has become
  relevant again, and a view that is neither dirty nor being refreshed is current already.
\<close>

theorem visible_view_settles:
  assumes "length es < 2 ^ 64" and g: "g = fold refresh_step es (new_history ps)"
    and env: "crd_connected (rfh_state g)" "crd_available (rfh_state g)" "vis p"
  shows "(p \<in> crd_pending (rfh_state g) \<or> is_in_flight (rfh_state g) p \<longrightarrow> settled p (settle vis p g))
    \<and> (is_dirty (rfh_state g) p \<longrightarrow> settled p (settle vis p (refresh_step (BecomesRelevant p) g)))
    \<and> (\<not> is_dirty (rfh_state g) p \<and> \<not> is_in_flight (rfh_state g) p \<longrightarrow> settled p g)"
proof -
  have good: "refresh_good False g"
    unfolding g by (rule refresh_run_good [OF new_history_good(1)]) (use assms(1) in \<open>simp_all add: new_history_good\<close>)
  have "settled p (settle vis p (refresh_step (BecomesRelevant p) g))" if "is_dirty (rfh_state g) p"
    using relevant_flight [OF env(1,2) that] env(3) by (intro flying_settles [OF relevant_good [OF good]]) blast+
  moreover have "settled p g" if "\<not> is_dirty (rfh_state g) p" "\<not> is_in_flight (rfh_state g) p"
  proof -
    have "view_ok False p g" using good by (simp add: refresh_good_def)
    with that env(1) show ?thesis
      by (cases "crd_registrations (rfh_state g) p")
        (auto simp: view_ok_def settled_def is_dirty_def is_in_flight_def)
  qed
  ultimately show ?thesis using flying_settles [of False g vis p, OF good env] by blast
qed

text \<open>
  A view that is being refreshed when an event overtakes the refresh; and the view whose rerun was lost
  because the refresh ended in Maintenance.
\<close>

definition lost_rerun :: "refresh_event list" where
  "lost_rerun = [ResetContext True, Receive (requirement_event 5), TimerFires (\<lambda>p. True),
     Receive (requirement_event 7), SetAvailable False, Finish 0 True (\<lambda>p. True), SetAvailable True]"

theorem visible_view_settles_witness:
  "let g = fold refresh_step sample_refreshes (new_history [BuildRequirementsView]);
       l = fold refresh_step lost_rerun (new_history [BuildRequirementsView])
   in is_dirty (rfh_state g) BuildRequirementsView \<and> settled BuildRequirementsView (settle (\<lambda>p. True) BuildRequirementsView g)
     \<and> is_dirty (rfh_state l) BuildRequirementsView \<and> rfh_runs l = []
     \<and> settled BuildRequirementsView (settle (\<lambda>p. True) BuildRequirementsView
         (refresh_step (BecomesRelevant BuildRequirementsView) l))"
proof -
  define g where "g = fold refresh_step sample_refreshes (new_history [BuildRequirementsView])"
  define l where "l = fold refresh_step lost_rerun (new_history [BuildRequirementsView])"
  have "crd_connected (rfh_state g)" "crd_available (rfh_state g)" "is_in_flight (rfh_state g) BuildRequirementsView"
    and dirty: "is_dirty (rfh_state g) BuildRequirementsView"
    unfolding g_def by code_simp+
  moreover have "length sample_refreshes < 2 ^ 64" "length lost_rerun < 2 ^ 64"
    by (simp_all add: sample_refreshes_def lost_rerun_def)
  moreover have l: "crd_connected (rfh_state l)" "crd_available (rfh_state l)" "is_dirty (rfh_state l) BuildRequirementsView"
    "rfh_runs l = []" unfolding l_def by code_simp+
  ultimately have "settled BuildRequirementsView (settle (\<lambda>p. True) BuildRequirementsView g)"
    "settled BuildRequirementsView (settle (\<lambda>p. True) BuildRequirementsView
       (refresh_step (BecomesRelevant BuildRequirementsView) l))"
    using visible_view_settles [OF _ g_def, of "\<lambda>p. True" BuildRequirementsView]
      visible_view_settles [OF _ l_def, of "\<lambda>p. True" BuildRequirementsView] by blast+
  with dirty l show ?thesis by (simp add: g_def l_def Let_def)
qed

section \<open>From a mutation on the Host to the views of a client\<close>

definition covered_view :: "coordinator \<Rightarrow> projection \<Rightarrow> invalidation \<Rightarrow> bool" where
  "covered_view c p v \<longleftrightarrow> (\<exists>r. crd_registrations c p = Some r \<and> reg_dirty r \<and> covers (reg_cause r) v)"

lemma received_covered:
  assumes "crd_connected c" "crd_registrations c p \<noteq> None" "d \<in> set (ivd_domains v)" "p \<in> set (projections_for d)"
  shows "covered_view (receive_invalidation v c) p v"
proof -
  have "p \<in> set (refresh_plan v)" using assms(3,4) by (auto simp: refresh_plan_def list_ex_iff)
  moreover have "covers (reg_cause (marked v r)) v" "reg_dirty (marked v r)" for r
    by (simp_all add: marked_def covers_merge)
  ultimately show ?thesis
    using assms(1,2) by (auto simp: covered_view_def receive_invalidation_def start_timer_def fold_mark_dirty)
qed

text \<open>The client: what it makes of a payload that arrives in the session of that number.\<close>

definition client_receives :: "remote_session \<Rightarrow> 64 word \<Rightarrow> (string \<times> json) list \<Rightarrow> coordinator \<Rightarrow> coordinator" where
  "client_receives s generation payload c = (case from_payload payload of None \<Rightarrow> c
     | Some v \<Rightarrow> if accepts_event s generation (ivd_workspace v) then receive_invalidation v c else c)"

text \<open>
  Property C40. A mutation reaches the views. Whenever the Host publishes the event of a mutation,
  every connection that is authenticated and ready is handed a payload; and a client that takes
  it in its current session, in the Workspace the mutation changed, has every registered view of
  every domain of that mutation marked dirty, with a cause that covers the event.
\<close>

theorem mutation_reaches_views:
  assumes "publish w sc = Some v" "0 \<le> n" "l \<in> set listeners" "lis_authenticated l" "lis_ready l" "1 \<le> lis_minor l"
    and "session_authenticated s" "ivd_workspace v = None \<or> ivd_workspace v = Some (workspace_id s)"
    and "crd_connected c" "crd_registrations c p \<noteq> None" "d \<in> set (ivd_domains v)" "p \<in> set (projections_for d)"
  shows "\<exists>payload. (lis_socket l, payload) \<in> set (fst (broadcast listeners v n))
    \<and> covered_view (client_receives s (session_generation s) payload c) p (v\<lparr>ivd_sequence := next_sequence n\<rparr>)"
proof -
  let ?v = "v\<lparr>ivd_sequence := next_sequence n\<rparr>"
  note sent = broadcast_payload [OF assms(1-6)]
  have "accepts_event s (session_generation s) (ivd_workspace ?v)"
    using assms(7,8) by (auto simp: accepts_event_def)
  moreover have "covered_view (receive_invalidation ?v c) p ?v"
    using received_covered [OF assms(9,10), of d ?v] assms(11,12) by simp
  ultimately show ?thesis
    using sent by (auto simp: client_receives_def)
qed

theorem mutation_reaches_views_witness:
  "let sc = \<lparr>sco_workspace = Some 1, sco_build = None, sco_record = Some 4, sco_location = None, sco_item = None,
       sco_part = [], sco_inventory_changed = False, sco_collection_changed = False\<rparr>;
       l = \<lparr>lis_socket = 3, lis_authenticated = True, lis_ready = True, lis_minor = 4\<rparr>;
       s = new_session Map.empty\<lparr>session_authenticated := True, workspace_id := 1\<rparr>;
       c = reset_context True (register_projection BuildsView new_coordinator)
   in \<exists>payload. (3, payload) \<in> set (fst (broadcast [l] (invalidation_for InventoryWork sc) 1))
      \<and> is_dirty (client_receives s 0 payload c) BuildsView"
proof -
  define sc where "sc = \<lparr>sco_workspace = Some 1, sco_build = None, sco_record = Some 4, sco_location = None,
    sco_item = None, sco_part = [], sco_inventory_changed = False, sco_collection_changed = False\<rparr>"
  define l where "l = \<lparr>lis_socket = 3, lis_authenticated = True, lis_ready = True, lis_minor = 4\<rparr>"
  define s where "s = new_session Map.empty\<lparr>session_authenticated := True, workspace_id := 1\<rparr>"
  define c where "c = reset_context True (register_projection BuildsView new_coordinator)"
  have pub: "publish InventoryWork sc = Some (invalidation_for InventoryWork sc)"
    unfolding sc_def by code_simp
  have "\<exists>payload. (lis_socket l, payload) \<in> set (fst (broadcast [l] (invalidation_for InventoryWork sc) 1))
      \<and> covered_view (client_receives s (session_generation s) payload c) BuildsView
          (invalidation_for InventoryWork sc\<lparr>ivd_sequence := next_sequence 1\<rparr>)"
    by (rule mutation_reaches_views [OF pub, where d = InventoryDomain])
       (simp_all add: sc_def l_def s_def c_def new_session_def stock_domains_def reset_context_def
         register_projection_def put_registration_def new_coordinator_def)
  then show ?thesis
    unfolding Let_def sc_def [symmetric] l_def [symmetric] s_def [symmetric] c_def [symmetric]
    by (auto simp: covered_view_def is_dirty_def l_def s_def new_session_def)
qed

end
