(* ===== verification/HostRequests.thy ===== *)
theory HostRequests
  imports HostMutations Invalidations StorageHierarchy
begin

text \<open>
  The requests a client sends to change the Host's data, as far as they are common to all
  services: the metadata of \<open>RemoteMutationDto\<close>, the readers of JSON numbers, and what a mutation
  hands back to the executor (\<open>HostWriteExecutor::MutationOutcome\<close>). A mutation runs on the
  connection of the worker, inside the transaction the worker has begun; it is a session program
  of \<open>Session\<close>, whose failing statements are those the environment chose for this call.
\<close>

section \<open>Metadata\<close>

record metadata =
  mtd_workspace :: int
  mtd_id :: string
  mtd_epoch :: string
  mtd_expected :: "(string \<times> json) list"
  mtd_mutation :: "(string \<times> json) list"

definition metadata_fields :: "string list" where
  "metadata_fields = [''workspaceId'', ''mutationId'', ''dataEpoch'', ''expected'', ''mutation'']"

fun object_fields :: "json option \<Rightarrow> (string \<times> json) list option" where
  "object_fields (Some (JObject fs)) = Some fs"
| "object_fields _ = None"

text \<open>\<open>parseMetadata\<close>: the payload has these fields and no others, each of its type.\<close>

definition parse_metadata :: "(string \<times> json) list \<Rightarrow> metadata option" where
  "parse_metadata payload =
     (let with_epoch = field ''dataEpoch'' payload \<noteq> None;
          i = to_text (field ''mutationId'' payload);
          epoch = to_text (field ''dataEpoch'' payload) in
      case (counting_number (field ''workspaceId'' payload), object_fields (field ''expected'' payload),
            object_fields (field ''mutation'' payload)) of
        (Some ws, Some expected, Some mutation) \<Rightarrow>
          if length payload = (if with_epoch then 5 else 4)
            \<and> list_all (\<lambda>(k, v). k \<in> set metadata_fields) payload \<and> mutation_uuid i
            \<and> (with_epoch \<longrightarrow> mutation_uuid epoch)
          then Some \<lparr>mtd_workspace = ws, mtd_id = map to_lower i, mtd_epoch = map to_lower epoch,
            mtd_expected = expected, mtd_mutation = mutation\<rparr>
          else None
      | _ \<Rightarrow> None)"

text \<open>
  The \<open>integer\<close> and \<open>exactPositive\<close> of the readers: a number with no fraction between the
  bounds.
\<close>

fun json_integer :: "int \<Rightarrow> int \<Rightarrow> json option \<Rightarrow> int option" where
  "json_integer lo hi (Some (JNumber x)) =
     (if is_integer x \<and> of_int lo \<le> x \<and> x \<le> of_int hi then Some \<lfloor>x\<rfloor> else None)"
| "json_integer lo hi _ = None"

definition json_number :: "int \<Rightarrow> json" where
  "json_number n = JNumber (of_int n)"

lemma json_integer_number [simp]:
  "json_integer lo hi (Some (json_number n)) = (if lo \<le> n \<and> n \<le> hi then Some n else None)"
  by (simp add: json_number_def)

lemma json_integer_of_int [simp]:
  "json_integer lo hi (Some (JNumber (of_int n))) = (if lo \<le> n \<and> n \<le> hi then Some n else None)"
  by simp

lemma json_integerD: "json_integer lo hi v = Some n \<Longrightarrow> lo \<le> n \<and> n \<le> hi"
  by (erule json_integer.elims) (auto split: if_splits simp: le_floor_iff floor_le_iff is_integer_def)

definition int_or :: "int \<Rightarrow> int option \<Rightarrow> int" where
  "int_or d v = (case v of None \<Rightarrow> d | Some n \<Rightarrow> n)"

lemma int_or_simps [simp]: "int_or d None = d" "int_or d (Some n) = n"
  by (simp_all add: int_or_def)

text \<open>
  The \<open>id\<close> and \<open>text\<close> readers of the Build and Collection requests: an identity (or 0 where it is
  optional), and a text of bounded length that is not blank unless it may be.
\<close>

definition json_id :: "bool \<Rightarrow> json option \<Rightarrow> int option" where
  "json_id zero v = json_integer (if zero then 0 else 1) maximum_json_integer v"

fun json_text :: "bool \<Rightarrow> nat \<Rightarrow> json option \<Rightarrow> string option" where
  "json_text blank maximum (Some (JString s)) =
     (if length s \<le> maximum \<and> (blank \<or> trimmed s \<noteq> []) then Some s else None)"
| "json_text blank maximum _ = None"

fun json_string :: "json option \<Rightarrow> string option" where
  "json_string (Some (JString s)) = Some s"
| "json_string _ = None"

fun json_flag :: "json option \<Rightarrow> bool option" where
  "json_flag (Some (JBool b)) = Some b"
| "json_flag _ = None"

fun json_rows :: "json option \<Rightarrow> json list option" where
  "json_rows (Some (JArray vs)) = Some vs"
| "json_rows _ = None"

definition check_that :: "bool \<Rightarrow> unit option" where
  "check_that b = (if b then Some () else None)"

section \<open>Outcomes\<close>

text \<open>An error code, or the authoritative state with what is to be published.\<close>

type_synonym 'j host_result = "string + 'j \<times> workflow \<times> mutation_scope"

definition no_scope :: mutation_scope where
  "no_scope = \<lparr>sco_workspace = None, sco_build = None, sco_record = None, sco_location = None,
     sco_item = None, sco_part = [], sco_inventory_changed = False, sco_collection_changed = False\<rparr>"

definition outcome_of :: "'j \<Rightarrow> 'j host_result \<Rightarrow> ('j, workflow \<times> mutation_scope) outcome" where
  "outcome_of none r = (case r of
     Inl code \<Rightarrow> \<lparr>oc_success = False, oc_authoritative = none, oc_error = final_error code,
       oc_publication = (WorkspaceWork, no_scope)\<rparr>
   | Inr (state, flow, scope) \<Rightarrow> \<lparr>oc_success = True, oc_authoritative = state, oc_error = final_error [],
       oc_publication = (flow, scope)\<rparr>)"

text \<open>
  The call of a mutation by the worker, on tables inside its transaction. The failing statements
  and the time are those of this call; the connection is not the default one, so Host Maintenance
  does not refuse its statements.
\<close>

definition in_worker :: "tables \<Rightarrow> bool list \<Rightarrow> int \<Rightarrow> session" where
  "in_worker t failing now = \<lparr>tables = t, saved = Some t, faults = failing, local_writes = True, clock = now\<rparr>"

definition as_mutation :: "'j \<Rightarrow> bool list \<Rightarrow> int \<Rightarrow> (session, 'j host_result) state
    \<Rightarrow> tables \<Rightarrow> ('j, workflow \<times> mutation_scope) outcome \<times> tables" where
  "as_mutation none failing now m t =
     (case run_state m (in_worker t failing now) of (r, s) \<Rightarrow> (outcome_of none r, tables s))"

end
