(* ===== verification/HostInventory.thy ===== *)
theory HostInventory
  imports HostRequests InventoryBooks
begin

text \<open>
  The Inventory operations of the Host (\<open>services/application/HostInventoryMutationService\<close>) with
  the readers and writers of their requests (\<open>dto/RemoteInventoryMutationDtos\<close>). The column
  \<open>modified_utc\<close> of the records is not part of the tables; its text for a record is the parameter
  \<open>modified\<close>.
\<close>

section \<open>Requests\<close>

record stock_expected =
  xst_record :: int
  xst_quantity :: int
  xst_storage :: int
  xst_modified :: string
  xst_part :: string
  xst_color :: int
  xst_manufacturer :: string
  xst_condition :: string
  xst_ownership :: string

record stock_request =
  rst_workspace :: int
  rst_id :: string
  rst_expected :: stock_expected
  rst_record :: int
  rst_part :: string
  rst_color :: int
  rst_manufacturer :: string
  rst_storage :: int
  rst_destination :: int
  rst_quantity :: int
  rst_condition :: string
  rst_ownership :: string
  rst_notes :: string

definition maximum_quantity :: int where "maximum_quantity = 1000000"
definition maximum_text :: nat where "maximum_text = 256"

abbreviation number :: "int \<Rightarrow> json" where
  "number n \<equiv> JNumber (of_int n)"

definition stock_to_metadata :: "stock_request \<Rightarrow> metadata" where
  "stock_to_metadata r = (let e = rst_expected r in
     \<lparr>mtd_workspace = rst_workspace r, mtd_id = rst_id r, mtd_epoch = [],
      mtd_expected = [(''inventoryRecordId'', number (xst_record e)), (''quantity'', number (xst_quantity e)),
        (''storageLocationId'', number (xst_storage e)), (''modifiedUtc'', JString (xst_modified e)),
        (''partNumber'', JString (xst_part e)), (''colorExternalId'', number (xst_color e)),
        (''manufacturerName'', JString (xst_manufacturer e)), (''condition'', JString (xst_condition e)),
        (''ownershipType'', JString (xst_ownership e))],
      mtd_mutation = [(''inventoryRecordId'', number (rst_record r)), (''partNumber'', JString (rst_part r)),
        (''colorExternalId'', number (rst_color r)), (''manufacturerName'', JString (rst_manufacturer r)),
        (''storageLocationId'', number (rst_storage r)),
        (''destinationStorageLocationId'', number (rst_destination r)), (''quantity'', number (rst_quantity r)),
        (''condition'', JString (rst_condition r)), (''ownershipType'', JString (rst_ownership r)),
        (''notes'', JString (rst_notes r))]\<rparr>)"

abbreviation trimmed_text :: "string \<Rightarrow> (string \<times> json) list \<Rightarrow> string" where
  "trimmed_text k fs \<equiv> trimmed (to_text (field k fs))"

definition stock_expected_of :: "(string \<times> json) list \<Rightarrow> stock_expected" where
  "stock_expected_of e =
     \<lparr>xst_record = int_or 0 (json_integer 0 int_max (field ''inventoryRecordId'' e)),
      xst_quantity = int_or (- 1) (json_integer (- 1) maximum_quantity (field ''quantity'' e)),
      xst_storage = int_or 0 (json_integer 0 int_max (field ''storageLocationId'' e)),
      xst_modified = to_text (field ''modifiedUtc'' e), xst_part = trimmed_text ''partNumber'' e,
      xst_color = to_int (- 1) (field ''colorExternalId'' e),
      xst_manufacturer = trimmed_text ''manufacturerName'' e, xst_condition = trimmed_text ''condition'' e,
      xst_ownership = trimmed_text ''ownershipType'' e\<rparr>"

definition bounded_text :: "string \<Rightarrow> bool" where
  "bounded_text s \<longleftrightarrow> length s \<le> maximum_text"

definition names_record :: "string \<Rightarrow> bool" where
  "names_record operation \<longleftrightarrow> operation \<noteq> ''inventory.add'' \<and> operation \<noteq> ''inventory.markFound''"

definition stock_request_of :: "metadata \<Rightarrow> stock_request" where
  "stock_request_of md = (let m = mtd_mutation md in
     \<lparr>rst_workspace = mtd_workspace md, rst_id = mtd_id md,
      rst_expected = stock_expected_of (mtd_expected md),
      rst_record = int_or 0 (json_integer 0 int_max (field ''inventoryRecordId'' m)),
      rst_part = trimmed_text ''partNumber'' m, rst_color = to_int (- 1) (field ''colorExternalId'' m),
      rst_manufacturer = trimmed_text ''manufacturerName'' m,
      rst_storage = int_or 0 (json_integer 0 int_max (field ''storageLocationId'' m)),
      rst_destination = int_or 0 (json_integer 0 int_max (field ''destinationStorageLocationId'' m)),
      rst_quantity = int_or 0 (json_integer 0 maximum_quantity (field ''quantity'' m)),
      rst_condition = trimmed_text ''condition'' m, rst_ownership = trimmed_text ''ownershipType'' m,
      rst_notes = trimmed_text ''notes'' m\<rparr>)"

definition stock_from_metadata :: "string \<Rightarrow> metadata \<Rightarrow> stock_request option" where
  "stock_from_metadata operation md =
     (let r = stock_request_of md in
      if (names_record operation \<and> (rst_record r \<le> 0 \<or> xst_record (rst_expected r) \<noteq> rst_record r))
        \<or> rst_quantity r \<le> 0 \<or> \<not> bounded_text (rst_part r) \<or> \<not> bounded_text (rst_manufacturer r)
        \<or> \<not> bounded_text (rst_condition r) \<or> \<not> bounded_text (rst_ownership r) \<or> \<not> bounded_text (rst_notes r)
      then None else Some r)"

section \<open>Lookups\<close>

text \<open>\<open>scalarId\<close>: 0 when the query fails or finds nothing.\<close>

definition scalar_id :: "(tables \<Rightarrow> int option) \<Rightarrow> (session, int) state" where
  "scalar_id q = do { row \<leftarrow> sql_query q; ret (int_or 0 (found_row row)) }"

definition part_by_number :: "string \<Rightarrow> (session, int) state" where
  "part_by_number n = scalar_id (\<lambda>t. map_option part_id
     (find (\<lambda>p. nocase_eq (part_number p) n \<and> part_active p) (parts t)))"

definition color_by_external :: "int \<Rightarrow> (session, int) state" where
  "color_by_external n = scalar_id (\<lambda>t. map_option fst (find (\<lambda>(i, k). k = n \<and> i \<in> set (colors t)) (color_numbers t)))"

definition manufacturer_by_name :: "string \<Rightarrow> (session, int) state" where
  "manufacturer_by_name n = scalar_id (\<lambda>t. map_option man_id
     (find (\<lambda>m. nocase_eq (man_name m) n \<and> man_active m) (manufacturers t)))"

text \<open>\<open>validWorkspace\<close>: whether the workspace is active, or nothing.\<close>

definition valid_workspace :: "int \<Rightarrow> (session, bool option) state" where
  "valid_workspace ws = do {
     row \<leftarrow> sql_query (\<lambda>t. map_option wsp_active (find (\<lambda>w. wsp_id w = ws) (workspaces t)));
     ret (found_row row)
   }"

definition valid_storage :: "int \<Rightarrow> int \<Rightarrow> (session, bool) state" where
  "valid_storage i ws = do {
     r \<leftarrow> sql_query (\<lambda>t. list_ex (\<lambda>l. sto_id l = i \<and> is_destination ws AllowsInventory t l) (storage t));
     ret (r = Some True)
   }"

definition expected_matches :: "(int \<Rightarrow> string) \<Rightarrow> inventory_row \<Rightarrow> stock_expected \<Rightarrow> bool" where
  "expected_matches modified x e \<longleftrightarrow> xst_record e = inv_id x \<and> xst_quantity e = inv_quantity x
     \<and> xst_storage e = inv_storage x \<and> xst_modified e \<noteq> [] \<and> xst_modified e = modified (inv_id x)"

record stock_state =
  sst_source :: int
  sst_destination :: int
  sst_surviving :: int
  sst_quantity :: int
  sst_source_quantity :: int
  sst_storage :: int
  sst_created :: bool
  sst_merged :: bool

definition stock_answer :: "int \<Rightarrow> int \<Rightarrow> int \<Rightarrow> int \<Rightarrow> bool \<Rightarrow> bool \<Rightarrow> (session, stock_state) state" where
  "stock_answer source destination surviving source_quantity created merged = do {
     x \<leftarrow> inventory_get surviving;
     ret \<lparr>sst_source = source, sst_destination = destination, sst_surviving = surviving,
       sst_quantity = (case x of None \<Rightarrow> 0 | Some x \<Rightarrow> inv_quantity x),
       sst_source_quantity = source_quantity,
       sst_storage = (case x of None \<Rightarrow> 0 | Some x \<Rightarrow> inv_storage x),
       sst_created = created, sst_merged = merged\<rparr>
   }"

text \<open>\<open>successful\<close>: the answer, published for the Inventory of the workspace.\<close>

definition stock_success :: "stock_request \<Rightarrow> bool \<Rightarrow> (session, stock_state) state
    \<Rightarrow> (session, stock_state host_result) state" where
  "stock_success r single m = do {
     st \<leftarrow> m;
     ret (Inr (st, InventoryWork, no_scope\<lparr>sco_workspace := Some (rst_workspace r),
       sco_record := (if single then Some (sst_surviving st) else None)\<rparr>))
   }"

section \<open>The operations\<close>

definition stock_identities :: "stock_request \<Rightarrow> (session, (int \<times> int \<times> int) option) state" where
  "stock_identities r = do {
     part \<leftarrow> part_by_number (rst_part r);
     color \<leftarrow> color_by_external (rst_color r);
     manufacturer \<leftarrow> manufacturer_by_name (rst_manufacturer r);
     ret (if part = 0 \<or> color = 0 \<or> manufacturer = 0 then None else Some (part, color, manufacturer))
   }"

definition stock_add :: "stock_request \<Rightarrow> (session, stock_state host_result) state" where
  "stock_add r = do {
     known \<leftarrow> stock_identities r;
     case known of None \<Rightarrow> ret (Inl ''NOT_FOUND'')
     | Some (part, color, manufacturer) \<Rightarrow> do {
         place \<leftarrow> valid_storage (rst_storage r) (rst_workspace r);
         if \<not> place then ret (Inl ''INVALID_ARGUMENT'')
         else do {
           added \<leftarrow> add_or_increase_in_current_transaction
             \<lparr>inv_id = 0, inv_workspace = int32 (rst_workspace r), inv_part = part, inv_color = color,
              inv_storage = int32 (rst_storage r), inv_manufacturer = manufacturer,
              inv_condition = rst_condition r, inv_ownership = rst_ownership r,
              inv_quantity = rst_quantity r\<rparr> [] [] [] (rst_notes r);
           case added of None \<Rightarrow> ret (Inl ''CONFLICT'')
           | Some (x, result) \<Rightarrow> stock_success r True
               (stock_answer 0 0 (add_record result) (- 1) (add_created result) (add_merged result))
         }
       }
   }"

definition stock_edit :: "inventory_row \<Rightarrow> stock_request \<Rightarrow> (session, stock_state host_result) state" where
  "stock_edit source r = do {
     known \<leftarrow> stock_identities r;
     case known of None \<Rightarrow> ret (Inl ''NOT_FOUND'')
     | Some (part, color, manufacturer) \<Rightarrow> do {
         place \<leftarrow> valid_storage (rst_storage r) (rst_workspace r);
         if \<not> place then ret (Inl ''INVALID_ARGUMENT'')
         else do {
           edited \<leftarrow> update_or_merge_in_current_transaction (source\<lparr>inv_part := part,
             inv_color := color, inv_manufacturer := manufacturer, inv_storage := int32 (rst_storage r),
             inv_quantity := rst_quantity r, inv_condition := rst_condition r,
             inv_ownership := rst_ownership r\<rparr>);
           case edited of None \<Rightarrow> ret (Inl ''CONFLICT'')
           | Some (x, result) \<Rightarrow> stock_success r (\<not> upd_merged result)
               (stock_answer (upd_source result) 0 (upd_surviving result)
                 (if upd_merged result then 0 else upd_quantity result) False (upd_merged result))
         }
       }
   }"

definition stock_move :: "stock_request \<Rightarrow> (session, stock_state host_result) state" where
  "stock_move r = do {
     place \<leftarrow> valid_storage (rst_destination r) (rst_workspace r);
     if \<not> place then ret (Inl ''INVALID_ARGUMENT'')
     else do {
       moved \<leftarrow> move_inventory_in_current_transaction (int32 (rst_record r)) (int32 (rst_destination r))
         (rst_quantity r);
       case moved of None \<Rightarrow> ret (Inl ''CONFLICT'')
       | Some result \<Rightarrow> stock_success r False
           (stock_answer (mvr_source result) (mvr_destination result) (mvr_destination result)
             (mvr_source_quantity result) (mvr_created result) (\<not> mvr_created result))
     }
   }"

definition stock_correct :: "inventory_row \<Rightarrow> stock_request \<Rightarrow> (session, stock_state host_result) state" where
  "stock_correct source r = do {
     replacement \<leftarrow> part_by_number (rst_part r);
     if replacement = 0 then ret (Inl ''NOT_FOUND'')
     else do {
       corrected \<leftarrow> correct_entry_in_current_transaction (int32 (rst_record r)) replacement
         (rst_quantity r) (rst_notes r);
       if \<not> corrected then ret (Inl ''CONFLICT'')
       else do {
         destination \<leftarrow> scalar_id (\<lambda>t. map_option inv_id (find (\<lambda>x. inv_workspace x = rst_workspace r
           \<and> inv_part x = replacement \<and> inv_color x = inv_color source \<and> inv_storage x = inv_storage source
           \<and> inv_manufacturer x = inv_manufacturer source \<and> inv_condition x = inv_condition source
           \<and> inv_ownership x = inv_ownership source) (inventory t)));
         stock_success r False (stock_answer (inv_id source) destination destination
           (inv_quantity source - rst_quantity r) False False)
       }
     }
   }"

definition stock_remove :: "inventory_row \<Rightarrow> stock_request \<Rightarrow> (session, stock_state host_result) state" where
  "stock_remove source r = do {
     removed \<leftarrow> remove_entry_in_current_transaction (int32 (rst_record r)) (rst_quantity r) (rst_notes r);
     case removed of Inl e \<Rightarrow> ret (Inl ''CONFLICT'')
     | Inr done \<Rightarrow> stock_success r True (stock_answer (inv_id source) 0 (inv_id source)
         (inv_quantity source - rst_quantity r) False False)
   }"

definition stock_lost :: "inventory_row \<Rightarrow> stock_request \<Rightarrow> (session, stock_state host_result) state" where
  "stock_lost source r = do {
     lost \<leftarrow> mark_lost_in_current_transaction (int32 (rst_record r)) (rst_quantity r) (rst_notes r);
     if \<not> lost then ret (Inl ''CONFLICT'')
     else stock_success r True (stock_answer (inv_id source) 0 (inv_id source)
       (inv_quantity source - rst_quantity r) False False)
   }"

definition stock_found :: "stock_request \<Rightarrow> (session, stock_state host_result) state" where
  "stock_found r = do {
     part \<leftarrow> part_by_number (rst_part r);
     color \<leftarrow> color_by_external (rst_color r);
     if part = 0 \<or> color = 0 then ret (Inl ''NOT_FOUND'')
     else do {
       place \<leftarrow> valid_storage (rst_destination r) (rst_workspace r);
       if \<not> place then ret (Inl ''INVALID_ARGUMENT'')
       else do {
         found \<leftarrow> mark_found_in_current_transaction (int32 (rst_workspace r)) part color (rst_quantity r)
           (int32 (rst_destination r)) (rst_condition r) (rst_ownership r) (rst_notes r);
         case found of None \<Rightarrow> ret (Inl ''CONFLICT'')
         | Some result \<Rightarrow> stock_success r True
             (stock_answer 0 0 (fnd_record result) (- 1) (fnd_created result) (fnd_merged result))
       }
     }
   }"

text \<open>
  The operation by its name; everything that is no other operation is \<open>inventory.markFound\<close>. The
  operations on a record find it loaded: the reader has checked that the request names one, so
  the last case is never reached.
\<close>

definition stock_operation :: "string \<Rightarrow> inventory_row option \<Rightarrow> stock_request
    \<Rightarrow> (session, stock_state host_result) state" where
  "stock_operation operation source r =
     (if operation = ''inventory.add'' then stock_add r
      else if operation = ''inventory.move'' then stock_move r
      else if operation \<notin> {''inventory.edit'', ''inventory.correct'', ''inventory.remove'', ''inventory.markLost''}
      then stock_found r
      else case source of
        Some x \<Rightarrow>
          if operation = ''inventory.edit'' then stock_edit x r
          else if operation = ''inventory.correct'' then stock_correct x r
          else if operation = ''inventory.remove'' then stock_remove x r
          else stock_lost x r
      | None \<Rightarrow> ret (Inl ''INTERNAL_ERROR''))"

definition protects_allocations :: "string \<Rightarrow> bool" where
  "protects_allocations operation \<longleftrightarrow>
     operation \<in> {''inventory.edit'', ''inventory.move'', ''inventory.correct'', ''inventory.markLost''}"

text \<open>Whether Builds have allocated pieces of the record: an error code when they have.\<close>

definition check_unallocated :: "int \<Rightarrow> (session, string option) state" where
  "check_unallocated i = do {
     n \<leftarrow> sql_query (allocated (\<lambda>a. alloc_inventory a = i));
     ret (case n of None \<Rightarrow> Some ''INTERNAL_ERROR'' | Some n \<Rightarrow> if n > 0 then Some ''CONFLICT'' else None)
   }"

definition load_source :: "(int \<Rightarrow> string) \<Rightarrow> string \<Rightarrow> stock_request
    \<Rightarrow> (session, string + inventory_row option) state" where
  "load_source modified operation r =
     (if rst_record r \<le> 0 then ret (Inr None)
      else do {
        source \<leftarrow> inventory_get (int32 (rst_record r));
        case source of None \<Rightarrow> ret (Inl ''NOT_FOUND'')
        | Some x \<Rightarrow>
            if inv_workspace x \<noteq> rst_workspace r then ret (Inl ''NOT_FOUND'')
            else if \<not> expected_matches modified x (rst_expected r) then ret (Inl ''STALE_VERSION'')
            else if \<not> protects_allocations operation then ret (Inr (Some x))
            else do {
              e \<leftarrow> check_unallocated (inv_id x);
              ret (case e of Some code \<Rightarrow> Inl code | None \<Rightarrow> Inr (Some x))
            }
      })"

definition stock_mutation :: "(int \<Rightarrow> string) \<Rightarrow> string \<Rightarrow> stock_request
    \<Rightarrow> (session, stock_state host_result) state" where
  "stock_mutation modified operation r = do {
     ws \<leftarrow> valid_workspace (rst_workspace r);
     if ws = None then ret (Inl ''WORKSPACE_NOT_FOUND'')
     else if ws = Some False then ret (Inl ''WORKSPACE_INACTIVE'')
     else do {
       source \<leftarrow> load_source modified operation r;
       case source of Inl code \<Rightarrow> ret (Inl code)
       | Inr source \<Rightarrow> stock_operation operation source r
     }
   }"

end
