(* ===== verification/HostPulling.thy ===== *)
theory HostPulling
  imports HostRequests BuildLifecycle
begin

text \<open>
  Pulling from a client: \<open>services/application/HostPullingMutationService\<close> and the requests of
  \<open>dto/RemotePullingMutationDtos\<close>. The Host checks every row against what the client saw before it
  hands the rows to \<open>BuildPullingService\<close>.
\<close>

section \<open>Requests\<close>

record pull_row =
  plr_allocation :: int
  plr_quantity :: int
  plr_allocated :: int   \<comment> \<open>what the client saw: of the allocation, of the record and of the requirement\<close>
  plr_inventory :: int
  plr_pulled :: int

record pull_work =
  plw_workspace :: int
  plw_id :: string
  plw_build :: int
  plw_status :: string
  plw_rows :: "pull_row list"

definition maximum_rows :: nat where "maximum_rows = 500"

definition pull_row_json :: "pull_row \<Rightarrow> json" where
  "pull_row_json r = JObject [(''allocationId'', JNumber (of_int (plr_allocation r))),
     (''quantity'', JNumber (of_int (plr_quantity r))),
     (''expectedAllocatedQuantity'', JNumber (of_int (plr_allocated r))),
     (''expectedInventoryQuantity'', JNumber (of_int (plr_inventory r))),
     (''expectedRequirementPulledQuantity'', JNumber (of_int (plr_pulled r)))]"

definition pull_to_metadata :: "pull_work \<Rightarrow> metadata" where
  "pull_to_metadata q = \<lparr>mtd_workspace = plw_workspace q, mtd_id = plw_id q, mtd_epoch = [],
     mtd_expected = [(''buildStatus'', JString (plw_status q))],
     mtd_mutation = [(''buildId'', JNumber (of_int (plw_build q))),
       (''rows'', JArray (map pull_row_json (plw_rows q)))]\<rparr>"

definition exact_positive :: "json option \<Rightarrow> int option" where
  "exact_positive v = json_integer 1 int_max v"

definition read_pull_row :: "(string \<times> json) list \<Rightarrow> pull_row option" where
  "read_pull_row fs =
     (case (exact_positive (field ''allocationId'' fs), exact_positive (field ''quantity'' fs),
            exact_positive (field ''expectedAllocatedQuantity'' fs),
            exact_positive (field ''expectedInventoryQuantity'' fs),
            json_integer 0 int_max (field ''expectedRequirementPulledQuantity'' fs)) of
        (Some i, Some q, Some a, Some n, Some p) \<Rightarrow>
          Some \<lparr>plr_allocation = i, plr_quantity = q, plr_allocated = a, plr_inventory = n, plr_pulled = p\<rparr>
      | _ \<Rightarrow> None)"

fun read_pull_rows :: "json list \<Rightarrow> int list \<Rightarrow> pull_row list option" where
  "read_pull_rows [] seen = Some []"
| "read_pull_rows (JObject fs # vs) seen =
     (case read_pull_row fs of None \<Rightarrow> None
      | Some r \<Rightarrow> if plr_allocation r \<in> set seen then None
          else map_option (Cons r) (read_pull_rows vs (plr_allocation r # seen)))"
| "read_pull_rows (v # vs) seen = None"

fun pull_row_values :: "json option \<Rightarrow> json list option" where
  "pull_row_values (Some (JArray vs)) = (if vs = [] \<or> length vs > maximum_rows then None else Some vs)"
| "pull_row_values _ = None"

definition pull_from_metadata :: "metadata \<Rightarrow> pull_work option" where
  "pull_from_metadata md =
     (case (exact_positive (field ''buildId'' (mtd_mutation md)),
            pull_row_values (field ''rows'' (mtd_mutation md))) of
        (Some b, Some vs) \<Rightarrow>
          map_option (\<lambda>rows. \<lparr>plw_workspace = mtd_workspace md, plw_id = mtd_id md, plw_build = b,
            plw_status = to_text (field ''buildStatus'' (mtd_expected md)), plw_rows = rows\<rparr>)
            (read_pull_rows vs [])
      | _ \<Rightarrow> None)"

section \<open>The checks of the Host\<close>

text \<open>
  One row: the allocation, its requirement and its record, all as the client saw them.
  \<open>seen\<close> is what earlier rows expected of their requirements, \<open>asked\<close> what they ask of them.
\<close>

definition check_row :: "int \<Rightarrow> build_row \<Rightarrow> (int \<rightharpoonup> int) \<Rightarrow> (int \<Rightarrow> int) \<Rightarrow> pull_row
    \<Rightarrow> (session, int option) state" where
  "check_row ws b seen asked row = do {
     allocation \<leftarrow> allocation_get (plr_allocation row);
     case allocation of None \<Rightarrow> ret None
     | Some a \<Rightarrow>
         if alloc_build a \<noteq> bld_id b then ret None
         else do {
           requirement \<leftarrow> requirement_get (alloc_requirement a);
           record \<leftarrow> inventory_get (alloc_inventory a);
           case (requirement, record) of
             (Some r, Some x) \<Rightarrow>
               if req_build r \<noteq> bld_id b \<or> req_spare r \<or> inv_workspace x \<noteq> ws
                 \<or> effective_part r \<noteq> alloc_part a \<or> effective_color r \<noteq> alloc_color a
                 \<or> inv_part x \<noteq> alloc_part a \<or> inv_color x \<noteq> alloc_color a
                 \<or> inv_storage x \<noteq> alloc_storage a then ret None
               else if alloc_quantity a \<noteq> plr_allocated row \<or> inv_quantity x \<noteq> plr_inventory row
               then ret None
               else if seen (req_id r) \<noteq> None \<and> seen (req_id r) \<noteq> Some (plr_pulled row) then ret None
               else if req_pulled r \<noteq> plr_pulled row then ret None
               else if plr_quantity row > alloc_quantity a \<or> plr_quantity row > inv_quantity x then ret None
               else if asked (req_id r) + plr_quantity row > req_required r - req_pulled r then ret None
               else ret (Some (req_id r))
           | _ \<Rightarrow> ret None
         }
   }"

text \<open>All rows; the requirements they are about, in the order in which they first appear.\<close>

fun check_rows :: "int \<Rightarrow> build_row \<Rightarrow> pull_row list \<Rightarrow> (int \<times> int) list \<Rightarrow> (int \<Rightarrow> int)
    \<Rightarrow> (session, (int \<times> int) list option) state" where
  "check_rows ws b [] seen asked = ret (Some seen)"
| "check_rows ws b (row # rows) seen asked = do {
     ok \<leftarrow> check_row ws b (map_of seen) asked row;
     case ok of None \<Rightarrow> ret None
     | Some k \<Rightarrow> check_rows ws b rows
         (if map_of seen k = None then seen @ [(k, plr_pulled row)] else seen)
         (asked(k := asked k + plr_quantity row))
   }"

definition pull_of_row :: "pull_row \<Rightarrow> pull_request" where
  "pull_of_row row = \<lparr>pull_allocation = plr_allocation row, pull_quantity = plr_quantity row\<rparr>"

record pull_state =
  pst_build :: int
  pst_rows :: int
  pst_pieces :: int
  pst_allocations :: "int list"
  pst_totals :: "(int \<times> int) list"   \<comment> \<open>pulled pieces of each requirement afterwards\<close>
  pst_status :: string

fun pulled_totals :: "int list \<Rightarrow> (session, (int \<times> int) list) state" where
  "pulled_totals [] = ret []"
| "pulled_totals (k # ks) = do {
     r \<leftarrow> requirement_get k;
     rest \<leftarrow> pulled_totals ks;
     ret (case r of None \<Rightarrow> rest | Some r \<Rightarrow> (k, req_pulled r) # rest)
   }"

definition pulling_open :: "build_row \<Rightarrow> bool" where
  "pulling_open b \<longleftrightarrow> bld_active b \<and> bld_mode b = ''Stock'' \<and> bld_status b \<in> {''Planned'', ''Pulling''}"

definition pull_mutation :: "pull_work \<Rightarrow> (session, pull_state host_result) state" where
  "pull_mutation q = do {
     build \<leftarrow> build_get (int32 (plw_build q));
     case build of None \<Rightarrow> ret (Inl ''CONFLICT'')
     | Some b \<Rightarrow>
         if bld_workspace b \<noteq> plw_workspace q \<or> \<not> pulling_open b
           \<or> (plw_status q \<noteq> [] \<and> plw_status q \<noteq> bld_status b) then ret (Inl ''CONFLICT'')
         else do {
           checked \<leftarrow> check_rows (plw_workspace q) b (plw_rows q) [] (\<lambda>k. 0);
           case checked of None \<Rightarrow> ret (Inl ''CONFLICT'')
           | Some seen \<Rightarrow> do {
               pulled \<leftarrow> apply_pulls (map pull_of_row (plw_rows q));
               case pulled of Inl e \<Rightarrow> ret (Inl ''CONFLICT'')
               | Inr (rows, n) \<Rightarrow> do {
                   totals \<leftarrow> pulled_totals (map fst seen);
                   ret (Inr (\<lparr>pst_build = plw_build q, pst_rows = rows, pst_pieces = n,
                       pst_allocations = map plr_allocation (plw_rows q), pst_totals = totals,
                       pst_status = bld_status b\<rparr>,
                     PullingWork, no_scope\<lparr>sco_workspace := Some (plw_workspace q),
                       sco_build := Some (plw_build q)\<rparr>))
                 }
             }
         }
   }"

end
