(* ===== verification/HostPlaces.thy ===== *)
theory HostPlaces
  imports HostRequests
begin

text \<open>
  The Storage operations of the Host for its clients:
  \<open>services/application/HostStorageProtocolMutationService\<close>, with the requests of
  \<open>dto/RemoteStorageMutationDtos\<close>. The time of a text (\<open>QDateTime::fromString\<close>, in milliseconds,
  with its offset from UTC) is the parameter \<open>time_of\<close>.
\<close>

section \<open>Requests\<close>

record place_expected =
  plx_modified :: string
  plx_parent :: int
  plx_type :: int
  plx_name :: string
  plx_description :: string
  plx_sort :: int
  plx_active :: bool
  plx_allows_inventory :: bool
  plx_allows_collection :: bool

record place_request =
  plq_workspace :: int
  plq_storage :: int
  plq_id :: string
  plq_name :: string
  plq_description :: string
  plq_parent :: int
  plq_type :: int
  plq_allows_inventory :: bool
  plq_allows_collection :: bool
  plq_active :: bool
  plq_expected :: place_expected

definition no_place_expected :: place_expected where
  "no_place_expected = \<lparr>plx_modified = [], plx_parent = 0, plx_type = 0, plx_name = [],
     plx_description = [], plx_sort = 0, plx_active = True, plx_allows_inventory = True,
     plx_allows_collection = False\<rparr>"

definition new_place_request :: "int \<Rightarrow> string \<Rightarrow> place_request" where
  "new_place_request ws i = \<lparr>plq_workspace = ws, plq_storage = 0, plq_id = i, plq_name = [],
     plq_description = [], plq_parent = 0, plq_type = 0, plq_allows_inventory = True,
     plq_allows_collection = False, plq_active = True, plq_expected = no_place_expected\<rparr>"

definition place_expected_fields :: "place_expected \<Rightarrow> (string \<times> json) list" where
  "place_expected_fields e = [(''modifiedUtc'', JString (plx_modified e)),
     (''parentStorageId'', json_number (plx_parent e)), (''storageTypeId'', json_number (plx_type e)),
     (''name'', JString (plx_name e)), (''description'', JString (plx_description e)),
     (''sortOrder'', json_number (plx_sort e)), (''active'', JBool (plx_active e)),
     (''allowsInventory'', JBool (plx_allows_inventory e)),
     (''allowsCollection'', JBool (plx_allows_collection e))]"

definition place_to_metadata :: "string \<Rightarrow> place_request \<Rightarrow> metadata" where
  "place_to_metadata operation q =
     \<lparr>mtd_workspace = plq_workspace q, mtd_id = plq_id q, mtd_epoch = [],
      mtd_expected = (if operation = ''storage.add'' then [] else place_expected_fields (plq_expected q)),
      mtd_mutation = (if operation = ''storage.setActive''
        then [(''storageId'', json_number (plq_storage q)), (''active'', JBool (plq_active q))]
        else [(''name'', JString (plq_name q)), (''description'', JString (plq_description q)),
          (''parentStorageId'', json_number (plq_parent q)), (''storageTypeId'', json_number (plq_type q)),
          (''allowsInventory'', JBool (plq_allows_inventory q)),
          (''allowsCollection'', JBool (plq_allows_collection q))]
          @ (if operation = ''storage.edit'' then [(''storageId'', json_number (plq_storage q))] else []))\<rparr>"

definition place_add_keys :: "string list" where
  "place_add_keys = [''name'', ''description'', ''parentStorageId'', ''storageTypeId'',
     ''allowsInventory'', ''allowsCollection'']"

definition place_expected_keys :: "string list" where
  "place_expected_keys = [''modifiedUtc'', ''parentStorageId'', ''storageTypeId'', ''name'',
     ''description'', ''sortOrder'', ''active'', ''allowsInventory'', ''allowsCollection'']"

definition exact_keys :: "(string \<times> json) list \<Rightarrow> string list \<Rightarrow> bool" where
  "exact_keys fs ks \<longleftrightarrow> set (map fst fs) = set ks"

definition place_shape_ok :: "string \<Rightarrow> metadata \<Rightarrow> bool" where
  "place_shape_ok operation m \<longleftrightarrow>
     (if operation = ''storage.add'' then exact_keys (mtd_mutation m) place_add_keys \<and> mtd_expected m = []
      else if operation = ''storage.edit''
      then exact_keys (mtd_mutation m) (place_add_keys @ [''storageId'']) \<and> exact_keys (mtd_expected m) place_expected_keys
      else operation = ''storage.setActive'' \<and> exact_keys (mtd_mutation m) [''storageId'', ''active'']
        \<and> exact_keys (mtd_expected m) place_expected_keys)"

text \<open>The bounds of the names and descriptions are those of \<open>HostStorageMutationService\<close>.\<close>

definition read_place_expected :: "(string \<Rightarrow> (int \<times> int) option) \<Rightarrow> (string \<times> json) list \<Rightarrow> place_expected option" where
  "read_place_expected time_of e = do {
     parent \<leftarrow> json_integer 0 int_max (field ''parentStorageId'' e);
     type \<leftarrow> json_integer 1 int_max (field ''storageTypeId'' e);
     sort \<leftarrow> json_integer (- 2147483648) int_max (field ''sortOrder'' e);
     modified \<leftarrow> json_string (field ''modifiedUtc'' e);
     name \<leftarrow> json_string (field ''name'' e);
     description \<leftarrow> json_string (field ''description'' e);
     active \<leftarrow> json_flag (field ''active'' e);
     inventory \<leftarrow> json_flag (field ''allowsInventory'' e);
     collection \<leftarrow> json_flag (field ''allowsCollection'' e);
     time \<leftarrow> time_of modified;
     check_that (snd time = 0 \<and> length name \<le> 200 \<and> length description \<le> 2000);
     Some \<lparr>plx_modified = modified, plx_parent = parent, plx_type = type, plx_name = name,
       plx_description = description, plx_sort = sort, plx_active = active,
       plx_allows_inventory = inventory, plx_allows_collection = collection\<rparr>
   }"

definition read_place_target :: "(string \<Rightarrow> (int \<times> int) option) \<Rightarrow> string \<Rightarrow> metadata \<Rightarrow> (int \<times> place_expected) option" where
  "read_place_target time_of operation m =
     (if operation = ''storage.add'' then Some (0, no_place_expected)
      else do {
        i \<leftarrow> json_integer 1 int_max (field ''storageId'' (mtd_mutation m));
        e \<leftarrow> read_place_expected time_of (mtd_expected m);
        Some (i, e)
      })"

definition read_place_fields :: "metadata \<Rightarrow> place_request \<Rightarrow> place_request option" where
  "read_place_fields m q = (let fs = mtd_mutation m; name = to_text (field ''name'' fs);
       description = to_text (field ''description'' fs) in do {
     parent \<leftarrow> json_integer 0 int_max (field ''parentStorageId'' fs);
     type \<leftarrow> json_integer 1 int_max (field ''storageTypeId'' fs);
     inventory \<leftarrow> json_flag (field ''allowsInventory'' fs);
     collection \<leftarrow> json_flag (field ''allowsCollection'' fs);
     check_that (trimmed name \<noteq> [] \<and> length name \<le> 200 \<and> length description \<le> 2000);
     Some (q\<lparr>plq_name := name, plq_description := description, plq_parent := parent, plq_type := type,
       plq_allows_inventory := inventory, plq_allows_collection := collection\<rparr>)
   })"

definition place_from_metadata :: "(string \<Rightarrow> (int \<times> int) option) \<Rightarrow> string \<Rightarrow> metadata \<Rightarrow> place_request option" where
  "place_from_metadata time_of operation m =
     (if \<not> place_shape_ok operation m then None
      else do {
        target \<leftarrow> read_place_target time_of operation m;
        let q = (new_place_request (mtd_workspace m) (mtd_id m))\<lparr>plq_storage := fst target,
          plq_expected := snd target\<rparr>
        in if operation = ''storage.setActive''
           then map_option (\<lambda>b. q\<lparr>plq_active := b\<rparr>) (json_flag (field ''active'' (mtd_mutation m)))
           else read_place_fields m q
      })"

section \<open>The operations\<close>

fun storage_code :: "storage_error \<Rightarrow> string" where
  "storage_code InvalidArgument = ''INVALID_ARGUMENT''"
| "storage_code WorkspaceMissing = ''NOT_FOUND''"
| "storage_code StorageMissing = ''NOT_FOUND''"
| "storage_code ParentMissing = ''NOT_FOUND''"
| "storage_code TypeMissing = ''NOT_FOUND''"
| "storage_code StaleExpectedState = ''STALE_VERSION''"
| "storage_code StorageDatabaseFailure = ''INTERNAL_ERROR''"
| "storage_code _ = ''CONFLICT''"

text \<open>\<open>expected\<close>: the state the client saw; an unreadable time would be an invalid one, but the reader refuses it.\<close>

definition expected_place :: "(string \<Rightarrow> (int \<times> int) option) \<Rightarrow> place_expected \<Rightarrow> storage_row" where
  "expected_place time_of e = \<lparr>sto_id = 0, sto_workspace = 0, sto_parent = int32 (plx_parent e),
     sto_type = int32 (plx_type e), sto_name = plx_name e, sto_description = plx_description e,
     sto_sort = plx_sort e, sto_active = plx_active e, sto_allows_inventory = plx_allows_inventory e,
     sto_allows_collection = plx_allows_collection e,
     sto_modified = (case time_of (plx_modified e) of None \<Rightarrow> 0 | Some (n, offset) \<Rightarrow> n)\<rparr>"

definition place_call :: "(string \<Rightarrow> (int \<times> int) option) \<Rightarrow> string \<Rightarrow> place_request \<Rightarrow> storage_call" where
  "place_call time_of operation q = (let expected = Some (expected_place time_of (plq_expected q)) in
     if operation = ''storage.add'' then
       AddLocation \<lparr>adr_workspace = int32 (plq_workspace q), adr_parent = int32 (plq_parent q),
         adr_type = int32 (plq_type q), adr_name = plq_name q, adr_description = plq_description q,
         adr_allows_inventory = plq_allows_inventory q, adr_allows_collection = plq_allows_collection q\<rparr>
     else if operation = ''storage.edit'' then
       EditLocation \<lparr>edr_workspace = int32 (plq_workspace q), edr_storage = int32 (plq_storage q),
         edr_parent = int32 (plq_parent q), edr_type = int32 (plq_type q), edr_name = plq_name q,
         edr_description = plq_description q, edr_allows_inventory = plq_allows_inventory q,
         edr_allows_collection = plq_allows_collection q, edr_expected = expected\<rparr>
     else SetLocationActive (int32 (plq_workspace q)) (int32 (plq_storage q)) (plq_active q) expected)"

definition location_type_by_id :: "int \<Rightarrow> (session, location_type_row option) state" where
  "location_type_by_id i = do {
     row \<leftarrow> sql_query (\<lambda>t. find (\<lambda>x. typ_id x = i) (location_types t));
     ret (found_row row)
   }"

text \<open>The answer: whether a location was created, the location and its display path.\<close>

definition place_mutation :: "(string \<Rightarrow> (int \<times> int) option) \<Rightarrow> string \<Rightarrow> place_request
    \<Rightarrow> (session, (bool \<times> storage_row \<times> string list) host_result) state" where
  "place_mutation time_of operation q = do {
     result \<leftarrow> call_storage (place_call time_of operation q);
     case result of Inl e \<Rightarrow> ret (Inl (storage_code e))
     | Inr (l, path) \<Rightarrow> do {
         type \<leftarrow> location_type_by_id (sto_type l);
         if type = None then ret (Inl ''INTERNAL_ERROR'')
         else ret (Inr ((operation = ''storage.add'', l, path), StorageWork,
           no_scope\<lparr>sco_workspace := Some (plq_workspace q), sco_location := Some (sto_id l)\<rparr>))
       }
   }"

end
