(* ===== verification/HostCollection.thy ===== *)
theory HostCollection
  imports HostRequests CollectionDisassembly
begin

text \<open>
  The Collection operations of the Host for its clients:
  \<open>services/application/HostCollectionMutationService\<close> and \<open>CollectionDisassemblyPlanService\<close>, with
  the requests of \<open>dto/RemoteCollectionMutationDtos\<close>. The text of a time (\<open>Qt::ISODateWithMs\<close>) is the
  parameter \<open>stamp\<close>, whether a text is a time the parameter \<open>is_time\<close>, and the SHA-256 digest of a text
  in hexadecimal the parameter \<open>digest\<close>.
\<close>

section \<open>The disassembly plan a client sees\<close>

record portable_row =
  por_index :: int
  por_requirement :: int
  por_part :: string
  por_color :: int
  por_manufacturer :: string
  por_quantity :: int
  por_spare :: bool

record portable_plan =
  pop_authority :: string
  pop_item :: int
  pop_build :: int
  pop_modified :: int
  pop_rows :: "portable_row list"

definition color_number :: "int \<Rightarrow> (session, int option) state" where
  "color_number i = do {
     row \<leftarrow> sql_query (\<lambda>t. if i \<in> set (colors t) then Some (int_or 0 (map_of (color_numbers t) i)) else None);
     ret (found_row row)
   }"

fun portable_build_rows :: "disassembly_return list \<Rightarrow> int \<Rightarrow> (session, portable_row list option) state" where
  "portable_build_rows [] i = ret (Some [])"
| "portable_build_rows (r # rs) i = do {
     part \<leftarrow> part_by_id (ret_part r);
     color \<leftarrow> color_number (ret_color r);
     manufacturer \<leftarrow> manufacturer_by_id (ret_manufacturer r);
     case (part, color, manufacturer) of
       (Some p, Some c, Some m) \<Rightarrow> do {
         rest \<leftarrow> portable_build_rows rs (i + 1);
         ret (map_option (Cons \<lparr>por_index = i, por_requirement = ret_requirement r,
           por_part = part_number p, por_color = c, por_manufacturer = man_name m,
           por_quantity = ret_quantity r, por_spare = ret_spare r\<rparr>) rest)
       }
     | _ \<Rightarrow> ret None
   }"

fun portable_catalog_rows :: "string \<Rightarrow> ((int \<times> int) \<times> int) list \<Rightarrow> int \<Rightarrow> (session, portable_row list option) state" where
  "portable_catalog_rows lego [] i = ret (Some [])"
| "portable_catalog_rows lego (((p, c), q) # rows) i = do {
     color \<leftarrow> color_number c;
     part \<leftarrow> part_by_id p;
     case color of None \<Rightarrow> ret None
     | Some n \<Rightarrow> do {
         rest \<leftarrow> portable_catalog_rows lego rows (i + 1);
         ret (map_option (Cons \<lparr>por_index = i, por_requirement = 0,
           por_part = (case part of None \<Rightarrow> [] | Some x \<Rightarrow> part_number x), por_color = n,
           por_manufacturer = lego, por_quantity = q, por_spare = False\<rparr>) rest)
       }
   }"

text \<open>\<open>planHash\<close>: what is digested, its parts separated by NUL.\<close>

definition portable_row_texts :: "portable_row \<Rightarrow> string list" where
  "portable_row_texts r = [number_text (por_index r), number_text (por_requirement r), por_part r,
     number_text (por_color r), por_manufacturer r, number_text (por_quantity r),
     number_text (if por_spare r then 1 else 0)]"

definition plan_texts :: "(int \<Rightarrow> string) \<Rightarrow> portable_plan \<Rightarrow> string list" where
  "plan_texts stamp p = [pop_authority p, number_text (pop_item p), number_text (pop_build p), stamp (pop_modified p)]
     @ concat (map portable_row_texts (pop_rows p))"

definition plan_hash :: "(int \<Rightarrow> string) \<Rightarrow> (string \<Rightarrow> string) \<Rightarrow> portable_plan \<Rightarrow> string" where
  "plan_hash stamp digest p = digest (concat (tl (concat (map (\<lambda>x. [[CHR 0x00], x]) (plan_texts stamp p)))))"

text \<open>\<open>preview\<close>: the plan of the source Build of the item, or of its catalog composition.\<close>

definition portable_preview :: "int \<Rightarrow> int \<Rightarrow> (session, string + portable_plan) state" where
  "portable_preview ws i = do {
     display \<leftarrow> collection_display i;
     case display of None \<Rightarrow> ret (Inl ''NOT_FOUND'')
     | Some (item, reference) \<Rightarrow>
         let plan = (\<lambda>authority rows. \<lparr>pop_authority = authority, pop_item = itm_id item,
           pop_build = itm_source_build item, pop_modified = itm_modified item, pop_rows = rows\<rparr>) in
         if itm_workspace item \<noteq> ws then ret (Inl ''NOT_FOUND'')
         else if itm_source_build item > 0 then do {
           source \<leftarrow> linked_collection_disassembly_return_plan i;
           case source of Inl e \<Rightarrow> ret (Inl ''CONFLICT'')
           | Inr (b, rows, owner) \<Rightarrow> do {
               rows \<leftarrow> portable_build_rows rows 1;
               ret (case rows of None \<Rightarrow> Inl ''CONFLICT'' | Some rows \<Rightarrow> Inr (plan ''Build'' rows))
             }
         }
         else do {
           source \<leftarrow> build_plan i;
           case source of Inl e \<Rightarrow> ret (Inl (if e = DisNotFound then ''NOT_FOUND'' else ''CONFLICT''))
           | Inr source \<Rightarrow> do {
               m \<leftarrow> lego_manufacturer_id;
               lego \<leftarrow> manufacturer_by_id m;
               case lego of None \<Rightarrow> ret (Inl ''CONFLICT'')
               | Some lego \<Rightarrow> do {
                   rows \<leftarrow> portable_catalog_rows (man_name lego) (dpl_rows source) 1;
                   ret (case rows of None \<Rightarrow> Inl ''CONFLICT'' | Some rows \<Rightarrow> Inr (plan ''Catalog'' rows))
                 }
             }
         }
   }"

section \<open>Requests\<close>

record item_expected =
  ixp_modified :: string
  ixp_type :: string
  ixp_set :: string
  ixp_minifig :: string
  ixp_state :: string
  ixp_condition :: string
  ixp_completeness :: string
  ixp_nickname :: string
  ixp_notes :: string
  ixp_storage :: int
  ixp_build :: int
  ixp_active :: bool
  ixp_allow_parts :: bool

record row_return =
  rrt_row :: int
  rrt_storage :: int
  rrt_quantity :: int

record item_request =
  irq_workspace :: int
  irq_item :: int
  irq_storage :: int
  irq_build :: int
  irq_id :: string
  irq_source :: string
  irq_set :: string
  irq_minifig :: string
  irq_state :: string
  irq_condition :: string
  irq_completeness :: string
  irq_nickname :: string
  irq_notes :: string
  irq_plan :: string
  irq_active :: bool
  irq_allow_parts :: bool
  irq_expected :: item_expected
  irq_returns :: "row_return list"

definition no_item_expected :: item_expected where
  "no_item_expected = \<lparr>ixp_modified = [], ixp_type = [], ixp_set = [], ixp_minifig = [], ixp_state = [],
     ixp_condition = [], ixp_completeness = [], ixp_nickname = [], ixp_notes = [], ixp_storage = 0,
     ixp_build = 0, ixp_active = True, ixp_allow_parts = False\<rparr>"

definition new_item_request :: "int \<Rightarrow> string \<Rightarrow> item_request" where
  "new_item_request ws i = \<lparr>irq_workspace = ws, irq_item = 0, irq_storage = 0, irq_build = 0, irq_id = i,
     irq_source = [], irq_set = [], irq_minifig = [], irq_state = [], irq_condition = [],
     irq_completeness = [], irq_nickname = [], irq_notes = [], irq_plan = [], irq_active = True,
     irq_allow_parts = False, irq_expected = no_item_expected, irq_returns = []\<rparr>"

definition item_expected_fields :: "item_expected \<Rightarrow> (string \<times> json) list" where
  "item_expected_fields e = [(''modifiedUtc'', JString (ixp_modified e)), (''active'', JBool (ixp_active e)),
     (''type'', JString (ixp_type e)), (''setNumber'', JString (ixp_set e)),
     (''minifigNumber'', JString (ixp_minifig e)), (''sourceBuildId'', json_number (ixp_build e)),
     (''state'', JString (ixp_state e)), (''condition'', JString (ixp_condition e)),
     (''completeness'', JString (ixp_completeness e)), (''storageId'', json_number (ixp_storage e)),
     (''nickname'', JString (ixp_nickname e)), (''notes'', JString (ixp_notes e))]"

definition item_field_list :: "item_request \<Rightarrow> (string \<times> json) list" where
  "item_field_list r = [(''state'', JString (irq_state r)), (''condition'', JString (irq_condition r)),
     (''completeness'', JString (irq_completeness r)), (''storageId'', json_number (irq_storage r)),
     (''nickname'', JString (irq_nickname r)), (''notes'', JString (irq_notes r))]"

definition row_return_json :: "row_return \<Rightarrow> json" where
  "row_return_json r = JObject [(''rowIndex'', json_number (rrt_row r)), (''storageId'', json_number (rrt_storage r)),
     (''quantity'', json_number (rrt_quantity r))]"

definition item_mutation_fields :: "string \<Rightarrow> item_request \<Rightarrow> (string \<times> json) list" where
  "item_mutation_fields operation r =
     (if operation = ''collection.add'' then
        [(''sourceType'', JString (irq_source r)), (''setNumber'', JString (irq_set r)),
         (''minifigNumber'', JString (irq_minifig r)), (''buildId'', json_number (irq_build r))] @ item_field_list r
      else (''collectionItemId'', json_number (irq_item r)) #
        (if operation = ''collection.edit'' then item_field_list r
         else if operation = ''collection.partsSource.set'' then [(''allowPartsSource'', JBool (irq_allow_parts r))]
         else if operation = ''collection.disassemble''
         then [(''planId'', JString (irq_plan r)), (''returns'', JArray (map row_return_json (irq_returns r)))]
         else [(''desiredActive'', JBool (irq_active r))]))"

definition item_to_metadata :: "string \<Rightarrow> item_request \<Rightarrow> metadata" where
  "item_to_metadata operation r =
     \<lparr>mtd_workspace = irq_workspace r, mtd_id = irq_id r, mtd_epoch = [],
      mtd_expected = (if operation = ''collection.add'' then []
        else if operation = ''collection.partsSource.set''
        then [(''modifiedUtc'', JString (ixp_modified (irq_expected r))),
          (''allowPartsSource'', JBool (ixp_allow_parts (irq_expected r)))]
        else item_expected_fields (irq_expected r)),
      mtd_mutation = item_mutation_fields operation r\<rparr>"

definition read_item_expected :: "(string \<Rightarrow> bool) \<Rightarrow> (string \<times> json) list \<Rightarrow> item_expected option" where
  "read_item_expected is_time e = do {
     check_that (length e = 12);
     modified \<leftarrow> json_text False 4000 (field ''modifiedUtc'' e);
     active \<leftarrow> json_flag (field ''active'' e);
     type \<leftarrow> json_text False 4000 (field ''type'' e);
     number \<leftarrow> json_text True 200 (field ''setNumber'' e);
     minifig \<leftarrow> json_text True 200 (field ''minifigNumber'' e);
     build \<leftarrow> json_id True (field ''sourceBuildId'' e);
     st \<leftarrow> json_text False 4000 (field ''state'' e);
     condition \<leftarrow> json_text False 4000 (field ''condition'' e);
     completeness \<leftarrow> json_text False 4000 (field ''completeness'' e);
     place \<leftarrow> json_id True (field ''storageId'' e);
     nickname \<leftarrow> json_text True 500 (field ''nickname'' e);
     remarks \<leftarrow> json_text True 4000 (field ''notes'' e);
     check_that (is_time modified);
     Some \<lparr>ixp_modified = modified, ixp_type = type, ixp_set = number, ixp_minifig = minifig,
       ixp_state = st, ixp_condition = condition, ixp_completeness = completeness, ixp_nickname = nickname,
       ixp_notes = remarks, ixp_storage = place, ixp_build = build, ixp_active = active, ixp_allow_parts = False\<rparr>
   }"

definition read_item_fields :: "(string \<times> json) list \<Rightarrow> item_request \<Rightarrow> item_request option" where
  "read_item_fields m r = do {
     st \<leftarrow> json_text False 4000 (field ''state'' m);
     condition \<leftarrow> json_text False 4000 (field ''condition'' m);
     completeness \<leftarrow> json_text False 4000 (field ''completeness'' m);
     place \<leftarrow> json_id True (field ''storageId'' m);
     nickname \<leftarrow> json_text True 500 (field ''nickname'' m);
     remarks \<leftarrow> json_text True 4000 (field ''notes'' m);
     Some (r\<lparr>irq_state := st, irq_condition := condition, irq_completeness := completeness,
       irq_storage := place, irq_nickname := nickname, irq_notes := remarks\<rparr>)
   }"

definition read_item_add :: "metadata \<Rightarrow> item_request \<Rightarrow> item_request option" where
  "read_item_add md r = (let m = mtd_mutation md in do {
     check_that (mtd_expected md = [] \<and> length m = 10);
     source \<leftarrow> json_text False 4000 (field ''sourceType'' m);
     number \<leftarrow> json_text True 200 (field ''setNumber'' m);
     minifig \<leftarrow> json_text True 200 (field ''minifigNumber'' m);
     build \<leftarrow> json_id True (field ''buildId'' m);
     read_item_fields m (r\<lparr>irq_source := source, irq_set := number, irq_minifig := minifig, irq_build := build\<rparr>)
   })"

definition read_parts_source :: "(string \<Rightarrow> bool) \<Rightarrow> metadata \<Rightarrow> item_request \<Rightarrow> item_request option" where
  "read_parts_source is_time md r = (let m = mtd_mutation md; e = mtd_expected md in do {
     check_that (length m = 2 \<and> length e = 2);
     i \<leftarrow> json_id False (field ''collectionItemId'' m);
     allow \<leftarrow> json_flag (field ''allowPartsSource'' m);
     modified \<leftarrow> json_text False 4000 (field ''modifiedUtc'' e);
     allowed_before \<leftarrow> json_flag (field ''allowPartsSource'' e);
     check_that (is_time modified);
     Some (r\<lparr>irq_item := i, irq_allow_parts := allow,
       irq_expected := no_item_expected\<lparr>ixp_modified := modified, ixp_allow_parts := allowed_before\<rparr>\<rparr>)
   })"

definition read_row_return :: "json \<Rightarrow> row_return option" where
  "read_row_return v = do {
     fs \<leftarrow> object_fields (Some v);
     check_that (length fs = 3);
     i \<leftarrow> json_id False (field ''rowIndex'' fs);
     place \<leftarrow> json_id False (field ''storageId'' fs);
     n \<leftarrow> json_id False (field ''quantity'' fs);
     check_that (n \<le> int_max);
     Some \<lparr>rrt_row = i, rrt_storage = place, rrt_quantity = n\<rparr>
   }"

fun read_row_returns :: "json list \<Rightarrow> int list \<Rightarrow> row_return list option" where
  "read_row_returns [] seen = Some []"
| "read_row_returns (v # vs) seen = do {
     r \<leftarrow> read_row_return v;
     check_that (rrt_row r \<notin> set seen);
     rs \<leftarrow> read_row_returns vs (rrt_row r # seen);
     Some (r # rs)
   }"

definition read_item_returns :: "(string \<times> json) list \<Rightarrow> item_request \<Rightarrow> item_request option" where
  "read_item_returns m r = do {
     check_that (length m = 3);
     plan \<leftarrow> json_text False 128 (field ''planId'' m);
     vs \<leftarrow> json_rows (field ''returns'' m);
     check_that (vs \<noteq> [] \<and> length vs \<le> 500);
     rows \<leftarrow> read_row_returns vs [];
     Some (r\<lparr>irq_plan := plan, irq_returns := rows\<rparr>)
   }"

definition item_from_metadata :: "(string \<Rightarrow> bool) \<Rightarrow> string \<Rightarrow> metadata \<Rightarrow> item_request option" where
  "item_from_metadata is_time operation md =
     (let r = new_item_request (mtd_workspace md) (mtd_id md); m = mtd_mutation md in
      if operation \<notin> {''collection.add'', ''collection.edit'', ''collection.setActive'',
        ''collection.partsSource.set'', ''collection.disassemble''} then None
      else if operation = ''collection.add'' then read_item_add md r
      else if operation = ''collection.partsSource.set'' then read_parts_source is_time md r
      else do {
        e \<leftarrow> read_item_expected is_time (mtd_expected md);
        i \<leftarrow> json_id False (field ''collectionItemId'' m);
        let r = r\<lparr>irq_item := i, irq_expected := e\<rparr> in
        if operation = ''collection.edit''
        then do { check_that (length m = 7); read_item_fields m r }
        else if operation = ''collection.disassemble'' then read_item_returns m r
        else do {
          check_that (length m = 2);
          b \<leftarrow> json_flag (field ''desiredActive'' m);
          Some (r\<lparr>irq_active := b\<rparr>)
        }
      })"

section \<open>The operations\<close>

definition item_result_code :: "item_error \<Rightarrow> string" where
  "item_result_code e = (if e \<in> {ItemNotFound, CatalogItemNotFound, SourceBuildNotFound} then ''NOT_FOUND''
     else if e = SourceBuildAlreadyUsed then ''CONFLICT''
     else if e = ItemDatabaseFailure then ''INTERNAL_ERROR'' else ''INVALID_ARGUMENT'')"

text \<open>\<open>setNumber\<close> and \<open>minifigNumber\<close>: empty when the query fails or finds nothing.\<close>

definition set_number_of :: "int \<Rightarrow> (session, string) state" where
  "set_number_of i = do {
     row \<leftarrow> set_catalog_try_get i;
     ret (case row of Some (Some c) \<Rightarrow> sct_number c | _ \<Rightarrow> [])
   }"

definition minifig_number_of :: "int \<Rightarrow> (session, string) state" where
  "minifig_number_of i =
     (if i \<le> 0 then ret []
      else do {
        row \<leftarrow> sql_query (\<lambda>t. if i \<in> set (inactive_numbers t) then None else map_of (minifig_numbers t) i);
        ret (case row of Some (Some n) \<Rightarrow> n | _ \<Rightarrow> [])
      })"

text \<open>\<open>matches\<close>: the item is as the client saw it; a query runs only while everything before agrees.\<close>

definition item_matches :: "(int \<Rightarrow> string) \<Rightarrow> collection_item \<Rightarrow> item_expected \<Rightarrow> (session, bool) state" where
  "item_matches stamp i e =
     (if stamp (itm_modified i) \<noteq> ixp_modified e \<or> itm_active i \<noteq> ixp_active e
        \<or> type_to_string (itm_type i) \<noteq> ixp_type e then ret False
      else do {
        number \<leftarrow> set_number_of (itm_set_catalog i);
        if number \<noteq> ixp_set e then ret False
        else do {
          minifig \<leftarrow> minifig_number_of (itm_minifig_catalog i);
          ret (minifig = ixp_minifig e \<and> itm_source_build i = ixp_build e
            \<and> state_to_string (itm_state i) = ixp_state e
            \<and> condition_to_string (itm_condition i) = ixp_condition e
            \<and> completeness_to_string (itm_completeness i) = ixp_completeness e
            \<and> itm_storage i = ixp_storage e \<and> itm_nickname i = ixp_nickname e \<and> itm_notes i = ixp_notes e)
        }
      })"

text \<open>\<open>detail\<close>: the item with its numbers and the name of its location.\<close>

record item_answer =
  ian_item :: collection_item
  ian_set :: string
  ian_minifig :: string
  ian_place :: string

definition item_detail :: "collection_item \<Rightarrow> (session, item_answer) state" where
  "item_detail i = do {
     number \<leftarrow> set_number_of (itm_set_catalog i);
     minifig \<leftarrow> minifig_number_of (itm_minifig_catalog i);
     place \<leftarrow> (if itm_storage i > 0 then storage_get (itm_storage i) else ret None);
     ret \<lparr>ian_item = i, ian_set = number, ian_minifig = minifig,
       ian_place = (case place of None \<Rightarrow> [] | Some l \<Rightarrow> sto_name l)\<rparr>
   }"

definition item_scope :: "collection_item \<Rightarrow> mutation_scope" where
  "item_scope i = no_scope\<lparr>sco_workspace := Some (itm_workspace i), sco_item := Some (itm_id i)\<rparr>"

text \<open>\<open>map\<close> and \<open>mapPartsSource\<close>; the second answers with the item alone.\<close>

definition item_outcome :: "item_result \<Rightarrow> (session, item_answer host_result) state" where
  "item_outcome r = (case r of Inl e \<Rightarrow> ret (Inl (item_result_code e))
     | Inr (i, changed) \<Rightarrow> do { a \<leftarrow> item_detail i; ret (Inr (a, CollectionWork, item_scope i)) })"

definition parts_source_outcome :: "item_result \<Rightarrow> (session, item_answer host_result) state" where
  "parts_source_outcome r = ret (case r of Inl e \<Rightarrow> Inl (item_result_code e)
     | Inr (i, changed) \<Rightarrow> Inr (\<lparr>ian_item = i, ian_set = [], ian_minifig = [], ian_place = []\<rparr>,
         CollectionWork, item_scope i))"

definition request_details :: "item_request \<Rightarrow> item_details" where
  "request_details r = \<lparr>det_state = state_from_string (irq_state r), det_storage = int32 (irq_storage r),
     det_nickname = irq_nickname r, det_notes = irq_notes r,
     det_condition = condition_from_string (irq_condition r),
     det_completeness = completeness_from_string (irq_completeness r)\<rparr>"

text \<open>\<open>getByExternalIdentifier\<close> for Rebrickable; a blank number is reported like a failed query.\<close>

definition minifig_by_number :: "string \<Rightarrow> (session, int option option) state" where
  "minifig_by_number n =
     (if trimmed n = [] then ret None
      else sql_query (\<lambda>t. map_option fst (find (\<lambda>(i, k). nocase_eq k (trimmed n) \<and> i \<in> set (minifig_catalog t))
        (minifig_numbers t))))"

definition item_add :: "item_request \<Rightarrow> (session, item_answer host_result) state" where
  "item_add r =
     (if irq_source r = ''SetCatalog'' then do {
        rows \<leftarrow> exact_set_matches (irq_set r);
        case rows of None \<Rightarrow> ret (Inl ''INTERNAL_ERROR'')
        | Some [] \<Rightarrow> ret (Inl ''NOT_FOUND'')
        | Some [c] \<Rightarrow> do {
            x \<leftarrow> item_operation (CreateSet (int32 (irq_workspace r)) (sct_id c) 0 (request_details r));
            item_outcome x
          }
        | Some _ \<Rightarrow> ret (Inl ''CONFLICT'')
      }
      else if irq_source r = ''MinifigCatalog'' then do {
        row \<leftarrow> minifig_by_number (irq_minifig r);
        case row of None \<Rightarrow> ret (Inl ''INTERNAL_ERROR'')
        | Some None \<Rightarrow> ret (Inl ''NOT_FOUND'')
        | Some (Some i) \<Rightarrow> do {
            x \<leftarrow> item_operation (CreateMinifig (int32 (irq_workspace r)) i 0 (request_details r));
            item_outcome x
          }
      }
      else if irq_source r = ''Build'' then do {
        x \<leftarrow> item_operation (CreateFromBuild (int32 (irq_workspace r)) (int32 (irq_build r)) (request_details r));
        item_outcome x
      }
      else ret (Inl ''INVALID_ARGUMENT''))"

section \<open>Disassembly\<close>

text \<open>\<open>selected.value\<close>: what the client chose for a row, nothing for a row it did not name.\<close>

definition chosen :: "row_return list \<Rightarrow> int \<Rightarrow> row_return option" where
  "chosen rs k = find (\<lambda>r. rrt_row r = k) (rev rs)"

definition chosen_storage :: "row_return list \<Rightarrow> int \<Rightarrow> int" where
  "chosen_storage rs k = (case chosen rs k of None \<Rightarrow> 0 | Some r \<Rightarrow> int32 (rrt_storage r))"

definition chosen_quantity :: "row_return list \<Rightarrow> int \<Rightarrow> int" where
  "chosen_quantity rs k = (case chosen rs k of None \<Rightarrow> 0 | Some r \<Rightarrow> rrt_quantity r)"

fun check_chosen :: "int \<Rightarrow> row_return list \<Rightarrow> portable_row list \<Rightarrow> (session, string option) state" where
  "check_chosen ws rs [] = ret None"
| "check_chosen ws rs (p # ps) =
     (case chosen rs (por_index p) of None \<Rightarrow> ret (Some ''STALE_VERSION'')
      | Some r \<Rightarrow>
          if rrt_quantity r \<noteq> por_quantity p then ret (Some ''STALE_VERSION'')
          else do {
            c \<leftarrow> valid_destination_checked ws (int32 (rrt_storage r)) AllowsInventory 0;
            if c \<noteq> Yes then ret (Some ''CONFLICT'') else check_chosen ws rs ps
          })"

text \<open>The rows of the source plan, numbered from 1, at the places the client chose.\<close>

definition placed_returns :: "row_return list \<Rightarrow> disassembly_return list \<Rightarrow> disassembly_return list" where
  "placed_returns rs rows = map (\<lambda>(k, row). row\<lparr>ret_storage := chosen_storage rs k, ret_quantity := chosen_quantity rs k\<rparr>)
     (zip (map int [1..<Suc (length rows)]) rows)"

definition placed_assignments :: "row_return list \<Rightarrow> ((int \<times> int) \<times> int) list \<Rightarrow> destination_assignment list" where
  "placed_assignments rs rows = map (\<lambda>(k, (p, c), q). \<lparr>dst_part = p, dst_color = c, dst_quantity = q,
     dst_storage = chosen_storage rs k\<rparr>) (zip (map int [1..<Suc (length rows)]) rows)"

definition disassemble_linked :: "collection_item \<Rightarrow> portable_plan \<Rightarrow> row_return list
    \<Rightarrow> (session, string + workflow \<times> mutation_scope) state" where
  "disassemble_linked item plan rs = do {
     source \<leftarrow> linked_collection_disassembly_return_plan (itm_id item);
     case source of Inl e \<Rightarrow> ret (Inl ''STALE_VERSION'')
     | Inr (b, rows, owner) \<Rightarrow>
         if length rows \<noteq> length (pop_rows plan) then ret (Inl ''STALE_VERSION'')
         else do {
           result \<leftarrow> disassemble_in_current_transaction (itm_source_build item) (placed_returns rs rows) Unassembled;
           ret (case result of Inl e \<Rightarrow> Inl (if e = BuildDatabaseFailure then ''INTERNAL_ERROR'' else ''STALE_VERSION'')
             | Inr x \<Rightarrow> Inr (BuildDisassemblyWork, no_scope\<lparr>sco_build := Some (itm_source_build item),
                 sco_inventory_changed := True, sco_collection_changed := True\<rparr>))
         }
   }"

definition disassemble_catalog :: "collection_item \<Rightarrow> portable_plan \<Rightarrow> row_return list
    \<Rightarrow> (session, string + workflow \<times> mutation_scope) state" where
  "disassemble_catalog item plan rs = do {
     source \<leftarrow> build_plan (itm_id item);
     case source of Inl e \<Rightarrow> ret (Inl ''STALE_VERSION'')
     | Inr source \<Rightarrow>
         if length (dpl_rows source) \<noteq> length (pop_rows plan) then ret (Inl ''STALE_VERSION'')
         else do {
           result \<leftarrow> disassemble_item_in_current_transaction (itm_id item) (Some (itm_modified item))
             (placed_assignments rs (dpl_rows source));
           ret (case result of Inl e \<Rightarrow> Inl (if e = DisDatabaseFailure then ''INTERNAL_ERROR''
                 else if e = DisStale then ''STALE_VERSION'' else ''CONFLICT'')
             | Inr x \<Rightarrow> Inr (CollectionDisassemblyWork, no_scope))
         }
   }"

definition item_disassemble :: "(int \<Rightarrow> string) \<Rightarrow> (string \<Rightarrow> string) \<Rightarrow> item_request \<Rightarrow> collection_item
    \<Rightarrow> (session, item_answer host_result) state" where
  "item_disassemble stamp digest r item = do {
     portable \<leftarrow> portable_preview (int32 (irq_workspace r)) (itm_id item);
     case portable of Inl code \<Rightarrow> ret (Inl code)
     | Inr plan \<Rightarrow>
         if plan_hash stamp digest plan \<noteq> irq_plan r \<or> length (irq_returns r) \<noteq> length (pop_rows plan)
         then ret (Inl ''STALE_VERSION'')
         else do {
           objection \<leftarrow> check_chosen (itm_workspace item) (irq_returns r) (pop_rows plan);
           case objection of Some code \<Rightarrow> ret (Inl code)
           | None \<Rightarrow> do {
               result \<leftarrow> (if itm_source_build item > 0 then disassemble_linked item plan (irq_returns r)
                 else disassemble_catalog item plan (irq_returns r));
               case result of Inl code \<Rightarrow> ret (Inl code)
               | Inr (flow, scope) \<Rightarrow> do {
                   updated \<leftarrow> collection_try_get (itm_id item);
                   case updated of
                     Some (Some i) \<Rightarrow> do {
                       a \<leftarrow> item_detail i;
                       ret (Inr (a, flow, scope\<lparr>sco_workspace := Some (itm_workspace item),
                         sco_item := Some (itm_id item)\<rparr>))
                     }
                   | _ \<Rightarrow> ret (Inl ''INTERNAL_ERROR'')
                 }
             }
         }
   }"

section \<open>One request\<close>

definition item_details_of :: "collection_item \<Rightarrow> item_details" where
  "item_details_of i = \<lparr>det_state = itm_state i, det_storage = itm_storage i, det_nickname = itm_nickname i,
     det_notes = itm_notes i, det_condition = itm_condition i, det_completeness = itm_completeness i\<rparr>"

definition parts_source_set :: "(int \<Rightarrow> string) \<Rightarrow> item_request \<Rightarrow> collection_item
    \<Rightarrow> (session, item_answer host_result) state" where
  "parts_source_set stamp r item =
     (if itm_type item \<noteq> SetItem then ret (Inl ''INVALID_ARGUMENT'')
      else if stamp (itm_modified item) \<noteq> ixp_modified (irq_expected r)
        \<or> itm_allow_parts item \<noteq> ixp_allow_parts (irq_expected r) then ret (Inl ''STALE_VERSION'')
      else do {
        x \<leftarrow> item_operation (UpdateDetails (itm_id item) (item_details_of item) (irq_allow_parts r));
        parts_source_outcome x
      })"

definition change_item :: "(int \<Rightarrow> string) \<Rightarrow> (string \<Rightarrow> string) \<Rightarrow> string \<Rightarrow> item_request \<Rightarrow> collection_item
    \<Rightarrow> (session, item_answer host_result) state" where
  "change_item stamp digest operation r item = do {
     same \<leftarrow> item_matches stamp item (irq_expected r);
     if \<not> same then ret (Inl ''STALE_VERSION'')
     else if operation = ''collection.disassemble'' then item_disassemble stamp digest r item
     else if operation = ''collection.edit'' then do {
       x \<leftarrow> item_operation (UpdateDetails (itm_id item) (request_details r) (itm_allow_parts item));
       item_outcome x
     }
     else do {
       x \<leftarrow> item_operation (SetItemActive (itm_id item) (irq_active r));
       item_outcome x
     }
   }"

definition item_mutation :: "(int \<Rightarrow> string) \<Rightarrow> (string \<Rightarrow> string) \<Rightarrow> string \<Rightarrow> item_request
    \<Rightarrow> (session, item_answer host_result) state" where
  "item_mutation stamp digest operation r =
     (if operation = ''collection.add'' then item_add r
      else do {
        row \<leftarrow> collection_try_get (int32 (irq_item r));
        case row of None \<Rightarrow> ret (Inl ''INTERNAL_ERROR'')
        | Some None \<Rightarrow> ret (Inl ''NOT_FOUND'')
        | Some (Some item) \<Rightarrow>
            if itm_workspace item \<noteq> irq_workspace r then ret (Inl ''NOT_FOUND'')
            else if operation = ''collection.partsSource.set'' then parts_source_set stamp r item
            else change_item stamp digest operation r item
      })"

end
