(* ===== verification/HostBuilds.thy ===== *)
theory HostBuilds
  imports HostRequests BuildCreation BuildPlanning
begin

text \<open>
  The Build operations of the Host for its clients: \<open>services/application/HostBuildMutationService\<close>,
  with the requests of \<open>dto/RemoteBuildMutationDtos\<close>. The columns \<open>modified_utc\<close> and
  \<open>source_reference\<close> are not part of the tables; their texts are the parameters of \<open>build_texts\<close>.
  What an answer adds to the rows it returns (names, numbers) is read after the last write and
  decides nothing; it is left out.
\<close>

record build_texts =
  btx_build :: "int \<Rightarrow> string"
  btx_requirement :: "int \<Rightarrow> string"
  btx_allocation :: "int \<Rightarrow> string"
  btx_inventory :: "int \<Rightarrow> string"
  btx_reference :: "int \<Rightarrow> string"

section \<open>Requests\<close>

record build_expected =
  bxp_modified :: string
  bxp_type :: string
  bxp_reference :: string
  bxp_mode :: string
  bxp_manufacturer :: string
  bxp_name :: string
  bxp_status :: string
  bxp_notes :: string
  bxp_active :: bool

record return_choice =
  rtc_requirement :: int
  rtc_manufacturer :: string
  rtc_storage :: int
  rtc_quantity :: int
  rtc_spare :: bool

record requirement_expected =
  rxp_requirement :: int
  rxp_build :: int
  rxp_modified :: string
  rxp_part :: string
  rxp_color :: int
  rxp_sub_part :: string
  rxp_sub_color :: int
  rxp_required :: int
  rxp_pulled :: int
  rxp_released :: int
  rxp_spare :: bool

record allocation_choice =
  alc_allocation :: int
  alc_inventory :: int
  alc_quantity :: int
  alc_expected :: int
  alc_modified :: string
  alc_inventory_modified :: string
  alc_inventory_quantity :: int

record build_request =
  brq_workspace :: int
  brq_build :: int
  brq_id :: string
  brq_type :: string
  brq_reference :: string
  brq_mode :: string
  brq_manufacturer :: string
  brq_status :: string
  brq_name :: string
  brq_notes :: string
  brq_active :: bool
  brq_state :: string
  brq_expected :: build_expected
  brq_returns :: "return_choice list"
  brq_requirement :: int
  brq_part :: string
  brq_color :: int
  brq_sub_part :: string
  brq_sub_color :: int
  brq_required :: int
  brq_spare :: bool
  brq_storage :: int
  brq_quantity :: int
  brq_expected_requirement :: requirement_expected
  brq_allocations :: "allocation_choice list"

definition no_build_expected :: build_expected where
  "no_build_expected = \<lparr>bxp_modified = [], bxp_type = [], bxp_reference = [], bxp_mode = [],
     bxp_manufacturer = [], bxp_name = [], bxp_status = [], bxp_notes = [], bxp_active = True\<rparr>"

definition no_requirement_expected :: requirement_expected where
  "no_requirement_expected = \<lparr>rxp_requirement = 0, rxp_build = 0, rxp_modified = [], rxp_part = [],
     rxp_color = 0, rxp_sub_part = [], rxp_sub_color = - 1, rxp_required = 0, rxp_pulled = 0,
     rxp_released = 0, rxp_spare = False\<rparr>"

definition new_build_request :: "int \<Rightarrow> string \<Rightarrow> build_request" where
  "new_build_request ws i = \<lparr>brq_workspace = ws, brq_build = 0, brq_id = i, brq_type = [], brq_reference = [],
     brq_mode = [], brq_manufacturer = [], brq_status = [], brq_name = [], brq_notes = [], brq_active = True,
     brq_state = ''Unassembled'', brq_expected = no_build_expected, brq_returns = [], brq_requirement = 0,
     brq_part = [], brq_color = 0, brq_sub_part = [], brq_sub_color = - 1, brq_required = 0,
     brq_spare = False, brq_storage = 0, brq_quantity = 0,
     brq_expected_requirement = no_requirement_expected, brq_allocations = []\<rparr>"

definition build_expected_fields :: "build_expected \<Rightarrow> (string \<times> json) list" where
  "build_expected_fields e = [(''modifiedUtc'', JString (bxp_modified e)), (''buildType'', JString (bxp_type e)),
     (''reference'', JString (bxp_reference e)), (''inventoryMode'', JString (bxp_mode e)),
     (''manufacturer'', JString (bxp_manufacturer e)), (''name'', JString (bxp_name e)),
     (''status'', JString (bxp_status e)), (''notes'', JString (bxp_notes e)), (''active'', JBool (bxp_active e))]"

definition requirement_expected_fields :: "requirement_expected \<Rightarrow> (string \<times> json) list" where
  "requirement_expected_fields e = [(''requirementId'', json_number (rxp_requirement e)),
     (''buildId'', json_number (rxp_build e)), (''modifiedUtc'', JString (rxp_modified e)),
     (''partNumber'', JString (rxp_part e)), (''rebrickableColorId'', json_number (rxp_color e)),
     (''substitutePartNumber'', JString (rxp_sub_part e)),
     (''substituteRebrickableColorId'', json_number (rxp_sub_color e)),
     (''quantityRequired'', json_number (rxp_required e)), (''quantityPulled'', json_number (rxp_pulled e)),
     (''quantityReleased'', json_number (rxp_released e)), (''spare'', JBool (rxp_spare e))]"

definition allocation_choice_json :: "allocation_choice \<Rightarrow> json" where
  "allocation_choice_json a = JObject [(''allocationId'', json_number (alc_allocation a)),
     (''inventoryRecordId'', json_number (alc_inventory a)), (''quantity'', json_number (alc_quantity a)),
     (''expectedQuantity'', json_number (alc_expected a)), (''modifiedUtc'', JString (alc_modified a)),
     (''inventoryModifiedUtc'', JString (alc_inventory_modified a)),
     (''inventoryQuantity'', json_number (alc_inventory_quantity a))]"

definition return_choice_json :: "return_choice \<Rightarrow> json" where
  "return_choice_json r = JObject [(''requirementId'', json_number (rtc_requirement r)),
     (''manufacturer'', JString (rtc_manufacturer r)), (''storageId'', json_number (rtc_storage r)),
     (''quantity'', json_number (rtc_quantity r)), (''spare'', JBool (rtc_spare r))]"

definition substitute_fields :: "build_request \<Rightarrow> (string \<times> json) list" where
  "substitute_fields r = [(''substitutePartNumber'', JString (brq_sub_part r)),
     (''substituteRebrickableColorId'', json_number (brq_sub_color r)),
     (''quantityRequired'', json_number (brq_required r)), (''spare'', JBool (brq_spare r))]"

definition build_mutation_fields :: "string \<Rightarrow> build_request \<Rightarrow> (string \<times> json) list" where
  "build_mutation_fields operation r =
     (if operation = ''builds.requirements.add'' then [(''buildId'', json_number (brq_build r)),
        (''partNumber'', JString (brq_part r)), (''rebrickableColorId'', json_number (brq_color r))] @ substitute_fields r
      else if operation = ''builds.requirements.edit''
      then (''requirementId'', json_number (brq_requirement r)) # substitute_fields r
      else if operation = ''builds.requirements.remove'' then [(''requirementId'', json_number (brq_requirement r))]
      else if operation = ''builds.allocations.set'' then [(''requirementId'', json_number (brq_requirement r)),
        (''allocations'', JArray (map allocation_choice_json (brq_allocations r)))]
      else if operation = ''builds.allocateAvailable'' then [(''buildId'', json_number (brq_build r)),
        (''preferredStorageId'', json_number (brq_storage r))]
      else if operation = ''builds.add'' then [(''buildType'', JString (brq_type r)),
        (''reference'', JString (brq_reference r)), (''inventoryMode'', JString (brq_mode r)),
        (''manufacturer'', JString (brq_manufacturer r)), (''initialStatus'', JString (brq_status r)),
        (''name'', JString (brq_name r)), (''notes'', JString (brq_notes r))]
      else if operation = ''builds.spare.store'' then [(''buildId'', json_number (brq_build r)),
        (''requirementId'', json_number (brq_requirement r)), (''storageId'', json_number (brq_storage r)),
        (''quantity'', json_number (brq_quantity r))]
      else (''buildId'', json_number (brq_build r)) #
        (if operation = ''builds.edit'' then [(''name'', JString (brq_name r)),
           (''manufacturer'', JString (brq_manufacturer r)), (''notes'', JString (brq_notes r))]
         else if operation = ''builds.setActive'' then [(''desiredActive'', JBool (brq_active r))]
         else if operation = ''builds.cancel'' \<or> operation = ''builds.disassemble''
         then [(''linkedCollectionState'', JString (brq_state r)),
           (''returns'', JArray (map return_choice_json (brq_returns r)))]
         else []))"

definition expects_requirement :: "string \<Rightarrow> bool" where
  "expects_requirement operation \<longleftrightarrow> operation \<in> {''builds.requirements.edit'', ''builds.requirements.remove'',
     ''builds.allocations.set'', ''builds.spare.store''}"

definition build_to_metadata :: "string \<Rightarrow> build_request \<Rightarrow> metadata" where
  "build_to_metadata operation r =
     \<lparr>mtd_workspace = brq_workspace r, mtd_id = brq_id r, mtd_epoch = [],
      mtd_expected = (if operation \<in> {''builds.requirements.add'', ''builds.add''} then []
        else if expects_requirement operation then requirement_expected_fields (brq_expected_requirement r)
        else build_expected_fields (brq_expected r)),
      mtd_mutation = build_mutation_fields operation r\<rparr>"

definition maximum_pieces :: int where "maximum_pieces = 1000000"

definition read_build_expected :: "(string \<Rightarrow> bool) \<Rightarrow> (string \<times> json) list \<Rightarrow> build_expected option" where
  "read_build_expected is_time e = do {
     check_that (length e = 9);
     modified \<leftarrow> json_text False 4000 (field ''modifiedUtc'' e);
     check_that (is_time modified);
     type \<leftarrow> json_text False 4000 (field ''buildType'' e);
     reference \<leftarrow> json_text True 200 (field ''reference'' e);
     mode \<leftarrow> json_text False 4000 (field ''inventoryMode'' e);
     manufacturer \<leftarrow> json_text True 200 (field ''manufacturer'' e);
     name \<leftarrow> json_text False 500 (field ''name'' e);
     status \<leftarrow> json_text False 4000 (field ''status'' e);
     remarks \<leftarrow> json_text True 4000 (field ''notes'' e);
     active \<leftarrow> json_flag (field ''active'' e);
     Some \<lparr>bxp_modified = modified, bxp_type = type, bxp_reference = reference, bxp_mode = mode,
       bxp_manufacturer = manufacturer, bxp_name = name, bxp_status = status, bxp_notes = remarks,
       bxp_active = active\<rparr>
   }"

definition read_requirement_expected :: "(string \<Rightarrow> bool) \<Rightarrow> (string \<times> json) list \<Rightarrow> requirement_expected option" where
  "read_requirement_expected is_time e = do {
     check_that (length e = 11);
     i \<leftarrow> json_id False (field ''requirementId'' e);
     build \<leftarrow> json_id False (field ''buildId'' e);
     modified \<leftarrow> json_text False 4000 (field ''modifiedUtc'' e);
     check_that (is_time modified);
     part \<leftarrow> json_text False 100 (field ''partNumber'' e);
     color \<leftarrow> json_integer 0 int_max (field ''rebrickableColorId'' e);
     sub_part \<leftarrow> json_text True 100 (field ''substitutePartNumber'' e);
     sub_color \<leftarrow> json_integer (- 1) int_max (field ''substituteRebrickableColorId'' e);
     needed \<leftarrow> json_id False (field ''quantityRequired'' e);
     taken \<leftarrow> json_id True (field ''quantityPulled'' e);
     released \<leftarrow> json_id True (field ''quantityReleased'' e);
     check_that (needed \<le> maximum_pieces \<and> taken \<le> maximum_pieces \<and> released \<le> maximum_pieces);
     spare \<leftarrow> json_flag (field ''spare'' e);
     Some \<lparr>rxp_requirement = i, rxp_build = build, rxp_modified = modified, rxp_part = part,
       rxp_color = color, rxp_sub_part = sub_part, rxp_sub_color = sub_color, rxp_required = needed,
       rxp_pulled = taken, rxp_released = released, rxp_spare = spare\<rparr>
   }"

definition read_pieces :: "bool \<Rightarrow> json option \<Rightarrow> int option" where
  "read_pieces zero v = do {
     n \<leftarrow> json_id zero v;
     check_that (n \<le> maximum_pieces);
     Some n
   }"

definition read_allocation_choice :: "json \<Rightarrow> allocation_choice option" where
  "read_allocation_choice v = do {
     fs \<leftarrow> object_fields (Some v);
     check_that (length fs = 7);
     i \<leftarrow> json_id True (field ''allocationId'' fs);
     record_id \<leftarrow> json_id False (field ''inventoryRecordId'' fs);
     n \<leftarrow> read_pieces True (field ''quantity'' fs);
     before \<leftarrow> read_pieces True (field ''expectedQuantity'' fs);
     modified \<leftarrow> json_text True 4000 (field ''modifiedUtc'' fs);
     inventory_modified \<leftarrow> json_text True 4000 (field ''inventoryModifiedUtc'' fs);
     held \<leftarrow> json_id True (field ''inventoryQuantity'' fs);
     check_that (held \<le> 100000000);
     Some \<lparr>alc_allocation = i, alc_inventory = record_id, alc_quantity = n, alc_expected = before,
       alc_modified = modified, alc_inventory_modified = inventory_modified, alc_inventory_quantity = held\<rparr>
   }"

fun read_allocation_choices :: "json list \<Rightarrow> int list \<Rightarrow> allocation_choice list option" where
  "read_allocation_choices [] seen = Some []"
| "read_allocation_choices (v # vs) seen = do {
     a \<leftarrow> read_allocation_choice v;
     check_that (alc_inventory a \<notin> set seen);
     as \<leftarrow> read_allocation_choices vs (alc_inventory a # seen);
     Some (a # as)
   }"

definition read_return_choice :: "json \<Rightarrow> return_choice option" where
  "read_return_choice v = do {
     fs \<leftarrow> object_fields (Some v);
     check_that (length fs = 5);
     i \<leftarrow> json_id False (field ''requirementId'' fs);
     manufacturer \<leftarrow> json_text False 200 (field ''manufacturer'' fs);
     place \<leftarrow> json_id False (field ''storageId'' fs);
     n \<leftarrow> read_pieces False (field ''quantity'' fs);
     spare \<leftarrow> json_flag (field ''spare'' fs);
     Some \<lparr>rtc_requirement = i, rtc_manufacturer = manufacturer, rtc_storage = place, rtc_quantity = n,
       rtc_spare = spare\<rparr>
   }"

text \<open>Two rows are duplicates when they agree on all but the quantity, the case of the manufacturer ignored.\<close>

definition choice_key :: "return_choice \<Rightarrow> int \<times> string \<times> int \<times> bool" where
  "choice_key r = (rtc_requirement r, map to_lower (rtc_manufacturer r), rtc_storage r, rtc_spare r)"

fun read_return_choices :: "json list \<Rightarrow> (int \<times> string \<times> int \<times> bool) list \<Rightarrow> return_choice list option" where
  "read_return_choices [] seen = Some []"
| "read_return_choices (v # vs) seen = do {
     r \<leftarrow> read_return_choice v;
     check_that (choice_key r \<notin> set seen);
     rs \<leftarrow> read_return_choices vs (choice_key r # seen);
     Some (r # rs)
   }"

definition read_substitutes :: "(string \<times> json) list \<Rightarrow> build_request \<Rightarrow> build_request option" where
  "read_substitutes m r = do {
     part \<leftarrow> json_text True 100 (field ''substitutePartNumber'' m);
     color \<leftarrow> json_integer (- 1) int_max (field ''substituteRebrickableColorId'' m);
     n \<leftarrow> read_pieces False (field ''quantityRequired'' m);
     spare \<leftarrow> json_flag (field ''spare'' m);
     Some (r\<lparr>brq_sub_part := part, brq_sub_color := color, brq_required := n, brq_spare := spare\<rparr>)
   }"

definition read_requirement_add :: "metadata \<Rightarrow> build_request \<Rightarrow> build_request option" where
  "read_requirement_add md r = (let m = mtd_mutation md in do {
     check_that (mtd_expected md = [] \<and> length m = 7);
     build \<leftarrow> json_id False (field ''buildId'' m);
     part \<leftarrow> json_text False 100 (field ''partNumber'' m);
     color \<leftarrow> json_integer 0 int_max (field ''rebrickableColorId'' m);
     read_substitutes m (r\<lparr>brq_build := build, brq_part := part, brq_color := color\<rparr>)
   })"

definition read_requirement_change :: "(string \<Rightarrow> bool) \<Rightarrow> string \<Rightarrow> metadata \<Rightarrow> build_request \<Rightarrow> build_request option" where
  "read_requirement_change is_time operation md r = (let m = mtd_mutation md in do {
     e \<leftarrow> read_requirement_expected is_time (mtd_expected md);
     i \<leftarrow> json_id False (field ''requirementId'' m);
     check_that (i = rxp_requirement e);
     let r = r\<lparr>brq_requirement := i, brq_expected_requirement := e\<rparr> in
     if operation = ''builds.requirements.edit''
     then do { check_that (length m = 5); read_substitutes m r }
     else if operation = ''builds.requirements.remove'' then do { check_that (length m = 1); Some r }
     else do {
       check_that (length m = 2);
       vs \<leftarrow> json_rows (field ''allocations'' m);
       check_that (length vs \<le> 500);
       as \<leftarrow> read_allocation_choices vs [];
       Some (r\<lparr>brq_allocations := as\<rparr>)
     }
   })"

definition read_spare_store :: "(string \<Rightarrow> bool) \<Rightarrow> metadata \<Rightarrow> build_request \<Rightarrow> build_request option" where
  "read_spare_store is_time md r = (let m = mtd_mutation md in do {
     e \<leftarrow> read_requirement_expected is_time (mtd_expected md);
     check_that (length m = 4);
     build \<leftarrow> json_id False (field ''buildId'' m);
     i \<leftarrow> json_id False (field ''requirementId'' m);
     check_that (i = rxp_requirement e \<and> build = rxp_build e);
     place \<leftarrow> json_id False (field ''storageId'' m);
     n \<leftarrow> read_pieces False (field ''quantity'' m);
     Some (r\<lparr>brq_build := build, brq_requirement := i, brq_expected_requirement := e, brq_storage := place,
       brq_quantity := n\<rparr>)
   })"

definition read_build_add :: "metadata \<Rightarrow> build_request \<Rightarrow> build_request option" where
  "read_build_add md r = (let m = mtd_mutation md in do {
     check_that (mtd_expected md = [] \<and> length m = 7);
     type \<leftarrow> json_text False 4000 (field ''buildType'' m);
     reference \<leftarrow> json_text True 200 (field ''reference'' m);
     mode \<leftarrow> json_text False 4000 (field ''inventoryMode'' m);
     manufacturer \<leftarrow> json_text True 200 (field ''manufacturer'' m);
     status \<leftarrow> json_text False 4000 (field ''initialStatus'' m);
     name \<leftarrow> json_text False 500 (field ''name'' m);
     remarks \<leftarrow> json_text True 4000 (field ''notes'' m);
     Some (r\<lparr>brq_type := type, brq_reference := reference, brq_mode := mode, brq_manufacturer := manufacturer,
       brq_status := status, brq_name := name, brq_notes := remarks\<rparr>)
   })"

definition read_build_end :: "string \<Rightarrow> metadata \<Rightarrow> build_request \<Rightarrow> build_request option" where
  "read_build_end operation md r = (let m = mtd_mutation md; ends = operation = ''builds.disassemble'' in do {
     check_that (length m = 3);
     st \<leftarrow> json_text False 4000 (field ''linkedCollectionState'' m);
     vs \<leftarrow> json_rows (field ''returns'' m);
     check_that (\<not> (vs = [] \<and> ends) \<and> length vs \<le> (if ends then 500 else 10000));
     rows \<leftarrow> read_return_choices vs [];
     Some (r\<lparr>brq_state := st, brq_returns := rows\<rparr>)
   })"

definition read_build_change :: "(string \<Rightarrow> bool) \<Rightarrow> string \<Rightarrow> metadata \<Rightarrow> build_request \<Rightarrow> build_request option" where
  "read_build_change is_time operation md r = (let m = mtd_mutation md in do {
     e \<leftarrow> read_build_expected is_time (mtd_expected md);
     build \<leftarrow> json_id False (field ''buildId'' m);
     let r = r\<lparr>brq_build := build, brq_expected := e\<rparr> in
     if operation = ''builds.edit'' then do {
       check_that (length m = 4);
       name \<leftarrow> json_text False 500 (field ''name'' m);
       manufacturer \<leftarrow> json_text True 200 (field ''manufacturer'' m);
       remarks \<leftarrow> json_text True 4000 (field ''notes'' m);
       Some (r\<lparr>brq_name := name, brq_manufacturer := manufacturer, brq_notes := remarks\<rparr>)
     }
     else if operation = ''builds.setActive'' then do {
       check_that (length m = 2);
       b \<leftarrow> json_flag (field ''desiredActive'' m);
       Some (r\<lparr>brq_active := b\<rparr>)
     }
     else if operation = ''builds.complete'' then do { check_that (length m = 1); Some r }
     else if operation = ''builds.allocateAvailable'' then do {
       check_that (length m = 2);
       place \<leftarrow> json_id True (field ''preferredStorageId'' m);
       Some (r\<lparr>brq_storage := place\<rparr>)
     }
     else read_build_end operation md r
   })"

definition build_operations :: "string list" where
  "build_operations = [''builds.requirements.add'', ''builds.requirements.edit'', ''builds.requirements.remove'',
     ''builds.allocations.set'', ''builds.allocateAvailable'', ''builds.add'', ''builds.edit'',
     ''builds.setActive'', ''builds.complete'', ''builds.cancel'', ''builds.disassemble'', ''builds.spare.store'']"

definition build_from_metadata :: "(string \<Rightarrow> bool) \<Rightarrow> string \<Rightarrow> metadata \<Rightarrow> build_request option" where
  "build_from_metadata is_time operation md =
     (let r = new_build_request (mtd_workspace md) (mtd_id md) in
      if operation \<notin> set build_operations then None
      else if operation = ''builds.requirements.add'' then read_requirement_add md r
      else if operation = ''builds.spare.store'' then read_spare_store is_time md r
      else if expects_requirement operation then read_requirement_change is_time operation md r
      else if operation = ''builds.add'' then read_build_add md r
      else read_build_change is_time operation md r)"

section \<open>Lookups\<close>

definition part_with_number :: "string \<Rightarrow> (session, part_row option) state" where
  "part_with_number n = do {
     row \<leftarrow> sql_query (\<lambda>t. find (\<lambda>p. part_number p = trimmed n) (parts t));
     ret (found_row row)
   }"

definition color_with_number :: "int \<Rightarrow> (session, int option) state" where
  "color_with_number n = do {
     row \<leftarrow> sql_query (\<lambda>t. map_option fst (find (\<lambda>(i, k). k = n \<and> i \<in> set (colors t)) (color_numbers t)));
     ret (found_row row)
   }"

definition number_of_color :: "int \<Rightarrow> (session, int option) state" where
  "number_of_color i = do {
     row \<leftarrow> sql_query (\<lambda>t. if i \<in> set (colors t) then Some (int_or 0 (map_of (color_numbers t) i)) else None);
     ret (found_row row)
   }"

definition manufacturer_named :: "string \<Rightarrow> (session, manufacturer_row option) state" where
  "manufacturer_named n = do {
     row \<leftarrow> sql_query (\<lambda>t. find (\<lambda>m. nocase_eq (man_name m) (trimmed n)) (manufacturers t));
     ret (found_row row)
   }"

text \<open>\<open>manufacturerId\<close>: LEGO unless a manufacturer is required; 0 when it is not to be had.\<close>

definition requested_manufacturer :: "string \<Rightarrow> bool \<Rightarrow> (session, int) state" where
  "requested_manufacturer n needed =
     (if \<not> needed then lego_manufacturer_id
      else do {
        m \<leftarrow> manufacturer_named n;
        ret (case m of None \<Rightarrow> 0 | Some m \<Rightarrow> if man_active m then man_id m else 0)
      })"

definition manufacturer_display :: "build_row \<Rightarrow> (session, string) state" where
  "manufacturer_display b =
     (if bld_mode b \<noteq> ''CompleteSet'' then ret []
      else do {
        m \<leftarrow> manufacturer_by_id (bld_manufacturer b);
        ret (case m of None \<Rightarrow> [] | Some m \<Rightarrow> man_name m)
      })"

definition build_reference :: "build_texts \<Rightarrow> build_row \<Rightarrow> string" where
  "build_reference x b = (if btx_reference x (bld_id b) = [] then bld_set_number b else btx_reference x (bld_id b))"

text \<open>\<open>matches\<close> and \<open>requirementMatches\<close>: the row is as the client saw it.\<close>

definition build_matches :: "build_texts \<Rightarrow> build_row \<Rightarrow> build_expected \<Rightarrow> (session, bool) state" where
  "build_matches x b e =
     (if btx_build x (bld_id b) \<noteq> bxp_modified e \<or> bld_type b \<noteq> bxp_type e
        \<or> build_reference x b \<noteq> bxp_reference e \<or> bld_mode b \<noteq> bxp_mode e then ret False
      else do {
        m \<leftarrow> manufacturer_display b;
        ret (m = bxp_manufacturer e \<and> bld_name b = bxp_name e \<and> bld_status b = bxp_status e
          \<and> bld_notes b = bxp_notes e \<and> bld_active b = bxp_active e)
      })"

definition requirement_matches :: "build_texts \<Rightarrow> requirement_row \<Rightarrow> requirement_expected \<Rightarrow> (session, bool) state" where
  "requirement_matches x r e = do {
     part \<leftarrow> part_by_id (req_part r);
     color \<leftarrow> number_of_color (req_color r);
     sub_part \<leftarrow> part_by_id (req_sub_part r);
     sub_color \<leftarrow> number_of_color (req_sub_color r);
     ret (req_id r = rxp_requirement e \<and> req_build r = rxp_build e
       \<and> btx_requirement x (req_id r) = rxp_modified e
       \<and> (case part of None \<Rightarrow> [] | Some p \<Rightarrow> part_number p) = rxp_part e \<and> int_or 0 color = rxp_color e
       \<and> (case sub_part of None \<Rightarrow> [] | Some p \<Rightarrow> part_number p) = rxp_sub_part e
       \<and> int_or (- 1) sub_color = rxp_sub_color e \<and> req_required r = rxp_required e
       \<and> req_pulled r = rxp_pulled e \<and> req_released r = rxp_released e \<and> req_spare r = rxp_spare e)
   }"

text \<open>The substitutes of a request; 0 stands for none.\<close>

definition requested_substitutes :: "build_request \<Rightarrow> (session, (int \<times> int) option) state" where
  "requested_substitutes q = do {
     part \<leftarrow> (if brq_sub_part q = [] then ret (Some 0)
       else do { p \<leftarrow> part_with_number (brq_sub_part q); ret (map_option part_id p) });
     case part of None \<Rightarrow> ret None
     | Some part \<Rightarrow> do {
         color \<leftarrow> (if brq_sub_color q < 0 then ret (Some 0) else color_with_number (brq_sub_color q));
         ret (map_option (\<lambda>c. (part, c)) color)
       }
   }"

section \<open>Answers\<close>

datatype build_answer =
    BuildAnswer build_row
  | RequirementAnswer requirement_row
  | AllocationsAnswer build_row "allocation_row list"
  | LifecycleAnswer build_row lifecycle_result

definition planning_code :: "build_error \<Rightarrow> string" where
  "planning_code e = (if e = BuildNotFound then ''NOT_FOUND'' else if e = BuildDatabaseFailure then ''INTERNAL_ERROR''
     else if e = BuildInvalidState then ''CONFLICT'' else ''INVALID_ARGUMENT'')"

definition metadata_code :: "build_error \<Rightarrow> string" where
  "metadata_code e = (if e = BuildNotFound then ''NOT_FOUND'' else if e = BuildDatabaseFailure then ''INTERNAL_ERROR''
     else ''INVALID_ARGUMENT'')"

definition lifecycle_code :: "build_error \<Rightarrow> string" where
  "lifecycle_code e = (if e = BuildNotFound then ''NOT_FOUND'' else if e = BuildDatabaseFailure then ''INTERNAL_ERROR''
     else ''CONFLICT'')"

definition build_scope :: "int \<Rightarrow> int \<Rightarrow> mutation_scope" where
  "build_scope ws i = no_scope\<lparr>sco_workspace := Some ws, sco_build := Some i\<rparr>"

definition requirement_outcome :: "int \<Rightarrow> build_error + requirement_row \<times> bool \<Rightarrow> build_answer host_result" where
  "requirement_outcome ws r = (case r of Inl e \<Rightarrow> Inl (planning_code e)
     | Inr (x, changed) \<Rightarrow> Inr (RequirementAnswer x, BuildRequirementsWork, build_scope ws (req_build x)))"

definition allocations_outcome :: "build_row \<Rightarrow> build_error + allocation_row list \<Rightarrow> build_answer host_result" where
  "allocations_outcome b r = (case r of Inl e \<Rightarrow> Inl (planning_code e)
     | Inr as \<Rightarrow> Inr (AllocationsAnswer b as, BuildRequirementsWork, build_scope (bld_workspace b) (bld_id b)))"

definition build_outcome :: "workflow \<Rightarrow> build_error + build_row \<Rightarrow> build_answer host_result" where
  "build_outcome flow r = (case r of Inl e \<Rightarrow> Inl (metadata_code e)
     | Inr b \<Rightarrow> Inr (BuildAnswer b, flow, build_scope (bld_workspace b) (bld_id b)))"

definition lifecycle_outcome :: "workflow \<Rightarrow> build_error + build_row \<times> lifecycle_result \<Rightarrow> build_answer host_result" where
  "lifecycle_outcome flow r = (case r of Inl e \<Rightarrow> Inl (lifecycle_code e)
     | Inr (b, result) \<Rightarrow> Inr (LifecycleAnswer b result, flow, (build_scope (bld_workspace b) (bld_id b))
         \<lparr>sco_inventory_changed := lif_returned result > 0,
          sco_collection_changed := lif_collection_changed result\<rparr>))"

definition of_changed :: "build_error + 'a \<times> bool \<Rightarrow> build_error + 'a" where
  "of_changed r = (case r of Inl e \<Rightarrow> Inl e | Inr (b, changed) \<Rightarrow> Inr b)"

section \<open>Requirements and allocations\<close>

definition blank_requirement :: requirement_row where
  "blank_requirement = \<lparr>req_id = 0, req_build = 0, req_part = 0, req_color = 0, req_sub_part = 0,
     req_sub_color = 0, req_required = 0, req_pulled = 0, req_released = 0, req_spare = False\<rparr>"

definition requirement_add :: "build_request \<Rightarrow> (session, build_answer host_result) state" where
  "requirement_add q = do {
     build \<leftarrow> build_get (int32 (brq_build q));
     case build of None \<Rightarrow> ret (Inl ''NOT_FOUND'')
     | Some b \<Rightarrow>
         if bld_workspace b \<noteq> brq_workspace q then ret (Inl ''NOT_FOUND'')
         else do {
           part \<leftarrow> part_with_number (brq_part q);
           color \<leftarrow> color_with_number (brq_color q);
           case (part, color) of
             (Some p, Some c) \<Rightarrow> do {
               substitutes \<leftarrow> requested_substitutes q;
               case substitutes of None \<Rightarrow> ret (Inl ''NOT_FOUND'')
               | Some (sub_part, sub_color) \<Rightarrow> do {
                   added \<leftarrow> add_requirement_in_current_transaction (blank_requirement\<lparr>req_build := bld_id b,
                     req_part := part_id p, req_color := c, req_sub_part := sub_part,
                     req_sub_color := sub_color, req_required := brq_required q, req_spare := brq_spare q\<rparr>);
                   ret (requirement_outcome (brq_workspace q) added)
                 }
             }
           | _ \<Rightarrow> ret (Inl ''NOT_FOUND'')
         }
   }"

definition requirement_edit :: "requirement_row \<Rightarrow> build_request \<Rightarrow> (session, build_answer host_result) state" where
  "requirement_edit r q = do {
     substitutes \<leftarrow> requested_substitutes q;
     case substitutes of None \<Rightarrow> ret (Inl ''NOT_FOUND'')
     | Some (part, color) \<Rightarrow> do {
         edited \<leftarrow> edit_requirement_in_current_transaction (req_id r)
           (if part = req_part r then 0 else part) (if color = req_color r then 0 else color)
           (brq_required q) (brq_spare q);
         ret (requirement_outcome (brq_workspace q) edited)
       }
   }"

text \<open>Whether an allocation row of the request agrees with the allocations there are.\<close>

definition allocation_agrees :: "build_texts \<Rightarrow> allocation_row list \<Rightarrow> allocation_choice \<Rightarrow> bool" where
  "allocation_agrees x current row \<longleftrightarrow>
     (alc_allocation row > 0 \<longrightarrow>
       (case find (\<lambda>a. alloc_id a = alc_allocation row \<and> alloc_inventory a = alc_inventory row) current of
          None \<Rightarrow> False
        | Some a \<Rightarrow> alloc_quantity a = alc_expected row
            \<and> (alc_modified row \<noteq> [] \<longrightarrow> btx_allocation x (alloc_id a) = alc_modified row)))
     \<and> (alc_allocation row = 0 \<longrightarrow> \<not> list_ex (\<lambda>a. alloc_inventory a = alc_inventory row) current)"

definition wanted_allocation :: "allocation_choice \<Rightarrow> allocation_row" where
  "wanted_allocation row = \<lparr>alloc_id = 0, alloc_build = 0, alloc_requirement = 0,
     alloc_inventory = int32 (alc_inventory row), alloc_part = 0, alloc_color = 0, alloc_storage = 0,
     alloc_quantity = alc_quantity row\<rparr>"

fun desired_allocations :: "build_texts \<Rightarrow> int \<Rightarrow> allocation_row list \<Rightarrow> allocation_choice list
    \<Rightarrow> (session, string + allocation_row list) state" where
  "desired_allocations x ws current [] = ret (Inr [])"
| "desired_allocations x ws current (row # rows) = do {
     record \<leftarrow> inventory_get (int32 (alc_inventory row));
     case record of None \<Rightarrow> ret (Inl ''NOT_FOUND'')
     | Some i \<Rightarrow>
         if inv_workspace i \<noteq> ws then ret (Inl ''NOT_FOUND'')
         else if inv_quantity i \<noteq> alc_inventory_quantity row
           \<or> (alc_inventory_modified row \<noteq> [] \<and> btx_inventory x (inv_id i) \<noteq> alc_inventory_modified row)
         then ret (Inl ''STALE_VERSION'')
         else if \<not> allocation_agrees x current row then ret (Inl ''STALE_VERSION'')
         else do {
           rest \<leftarrow> desired_allocations x ws current rows;
           ret (case rest of Inl e \<Rightarrow> Inl e
             | Inr as \<Rightarrow> Inr (if alc_quantity row > 0 then wanted_allocation row # as else as))
         }
   }"

text \<open>
  The code dereferences the Build it has read again before the last step; an empty one has no
  defined behaviour (it was found a moment before in the same transaction).
\<close>

definition allocations_set :: "build_texts \<Rightarrow> requirement_row \<Rightarrow> build_request
    \<Rightarrow> (session, build_answer host_result) state" where
  "allocations_set x r q = do {
     current \<leftarrow> allocation_get_by_requirement (req_id r);
     if length current \<noteq> count_where (\<lambda>row. alc_allocation row > 0) (brq_allocations q)
     then ret (Inl ''STALE_VERSION'')
     else do {
       desired \<leftarrow> desired_allocations x (brq_workspace q) current (brq_allocations q);
       case desired of Inl code \<Rightarrow> ret (Inl code)
       | Inr as \<Rightarrow> do {
           build \<leftarrow> build_get (req_build r);
           case build of None \<Rightarrow> ret (Inl ''INTERNAL_ERROR'')
           | Some b \<Rightarrow> do {
               replaced \<leftarrow> replace_for_requirement_in_current_transaction (req_id r) as;
               ret (allocations_outcome b replaced)
             }
         }
     }
   }"

text \<open>The checks of the operations on a requirement.\<close>

definition requirement_change :: "build_texts \<Rightarrow> string \<Rightarrow> build_request \<Rightarrow> (session, build_answer host_result) state" where
  "requirement_change x operation q = do {
     requirement \<leftarrow> requirement_try_get (int32 (brq_requirement q));
     case requirement of None \<Rightarrow> ret (Inl ''INTERNAL_ERROR'')
     | Some None \<Rightarrow> ret (Inl ''NOT_FOUND'')
     | Some (Some r) \<Rightarrow> do {
         build \<leftarrow> build_get (req_build r);
         case build of None \<Rightarrow> ret (Inl ''NOT_FOUND'')
         | Some b \<Rightarrow>
             if bld_workspace b \<noteq> brq_workspace q \<or> rxp_build (brq_expected_requirement q) \<noteq> bld_id b
             then ret (Inl ''NOT_FOUND'')
             else do {
               same \<leftarrow> requirement_matches x r (brq_expected_requirement q);
               if \<not> same then ret (Inl ''STALE_VERSION'')
               else if operation = ''builds.requirements.remove'' then do {
                 removed \<leftarrow> remove_requirement_in_current_transaction (req_id r);
                 ret (requirement_outcome (brq_workspace q) removed)
               }
               else if operation = ''builds.requirements.edit'' then requirement_edit r q
               else allocations_set x r q
             }
       }
   }"

definition allocate_all :: "build_texts \<Rightarrow> build_request \<Rightarrow> (session, build_answer host_result) state" where
  "allocate_all x q = do {
     build \<leftarrow> build_get (int32 (brq_build q));
     case build of None \<Rightarrow> ret (Inl ''NOT_FOUND'')
     | Some b \<Rightarrow>
         if bld_workspace b \<noteq> brq_workspace q then ret (Inl ''NOT_FOUND'')
         else do {
           same \<leftarrow> build_matches x b (brq_expected q);
           if \<not> same then ret (Inl ''STALE_VERSION'')
           else do {
             done \<leftarrow> allocate_available_in_current_transaction (bld_id b) (int32 (brq_storage q));
             ret (allocations_outcome b (case done of Inl e \<Rightarrow> Inl e | Inr (as, added) \<Rightarrow> Inr as))
           }
         }
   }"

section \<open>Creating a Build\<close>

text \<open>What \<open>builds.add\<close> refuses before it looks anything up.\<close>

definition build_add_error :: "build_request \<Rightarrow> string option" where
  "build_add_error q =
     (if brq_type q \<notin> {''Set'', ''MOC''} \<or> brq_mode q \<notin> {''Stock'', ''CompleteSet''} \<or> brq_status q \<noteq> ''Planned''
        \<or> trimmed (brq_reference q) = [] \<or> (brq_type q = ''MOC'' \<and> brq_mode q \<noteq> ''Stock'')
      then Some ''INVALID_ARGUMENT'' else None)"

definition requested_build :: "build_request \<Rightarrow> int \<Rightarrow> int \<Rightarrow> build_row" where
  "requested_build q manufacturer catalog = \<lparr>bld_id = 0, bld_workspace = int32 (brq_workspace q),
     bld_type = brq_type q, bld_name = brq_name q, bld_set_number = trimmed (brq_reference q),
     bld_mode = brq_mode q, bld_status = ''Planned'', bld_active = True, bld_notes = brq_notes q,
     bld_manufacturer = manufacturer, bld_minifig = 0, bld_set_catalog = catalog\<rparr>"

definition add_plain_build :: "build_request \<Rightarrow> int \<Rightarrow> int \<Rightarrow> (session, build_answer host_result) state" where
  "add_plain_build q manufacturer catalog = do {
     created \<leftarrow> create_build_in_current_transaction (requested_build q manufacturer catalog);
     ret (build_outcome BuildMetadataWork created)
   }"

text \<open>A Set known to the catalog that is built from stock: with its requirements, then named.\<close>

definition add_catalog_build :: "build_request \<Rightarrow> int \<Rightarrow> int \<Rightarrow> (session, build_answer host_result) state" where
  "add_catalog_build q manufacturer catalog = do {
     created \<leftarrow> create_set_build_in_current_transaction (int32 (brq_workspace q)) catalog (brq_name q);
     case created of Inl e \<Rightarrow> ret (Inl ''INVALID_ARGUMENT'')
     | Inr c \<Rightarrow> do {
         updated \<leftarrow> update_metadata_in_current_transaction (crr_build c) (brq_name q) manufacturer (brq_notes q);
         ret (build_outcome BuildRequirementsWork (of_changed updated))
       }
   }"

definition build_add :: "build_request \<Rightarrow> (session, build_answer host_result) state" where
  "build_add q = (case build_add_error q of Some code \<Rightarrow> ret (Inl code)
     | None \<Rightarrow> do {
         manufacturer \<leftarrow> requested_manufacturer (brq_manufacturer q) (brq_mode q = ''CompleteSet'');
         if manufacturer \<le> 0 then ret (Inl ''NOT_FOUND'')
         else if brq_type q \<noteq> ''Set'' then add_plain_build q manufacturer 0
         else do {
           known \<leftarrow> exact_set_matches (trimmed (brq_reference q));
           case known of None \<Rightarrow> ret (Inl ''INTERNAL_ERROR'')
           | Some [] \<Rightarrow> add_plain_build q manufacturer 0
           | Some [c] \<Rightarrow> if brq_mode q = ''Stock'' then add_catalog_build q manufacturer (sct_id c)
               else add_plain_build q manufacturer (sct_id c)
           | Some _ \<Rightarrow> ret (Inl ''CONFLICT'')
         }
       })"

section \<open>The life of a Build\<close>

definition valid_inventory_destination :: "int \<Rightarrow> int \<Rightarrow> (session, bool) state" where
  "valid_inventory_destination ws i = do {
     destination \<leftarrow> storage_get i;
     children \<leftarrow> has_active_children_checked i;
     ret (case destination of None \<Rightarrow> False
       | Some l \<Rightarrow> sto_workspace l = ws \<and> sto_active l \<and> sto_allows_inventory l \<and> children = No)
   }"

definition spare_store :: "build_texts \<Rightarrow> build_row \<Rightarrow> build_request \<Rightarrow> (session, build_answer host_result) state" where
  "spare_store x b q =
     (if \<not> bld_active b then ret (Inl ''CONFLICT'')
      else do {
        requirement \<leftarrow> requirement_get (int32 (brq_requirement q));
        case requirement of None \<Rightarrow> ret (Inl ''STALE_VERSION'')
        | Some r \<Rightarrow> do {
            same \<leftarrow> requirement_matches x r (brq_expected_requirement q);
            if \<not> same then ret (Inl ''STALE_VERSION'')
            else do {
              place \<leftarrow> valid_inventory_destination (bld_workspace b) (int32 (brq_storage q));
              if \<not> place then ret (Inl ''CONFLICT'')
              else do {
                stored \<leftarrow> store_complete_set_spare_in_current_transaction (bld_id b) (req_id r)
                  (int32 (brq_storage q)) (brq_quantity q);
                ret (lifecycle_outcome CompleteSetSpareWork stored)
              }
            }
          }
      })"

definition build_edit :: "build_row \<Rightarrow> build_request \<Rightarrow> (session, build_answer host_result) state" where
  "build_edit b q = do {
     manufacturer \<leftarrow> requested_manufacturer (brq_manufacturer q) (bld_mode b = ''CompleteSet'');
     if manufacturer \<le> 0 then ret (Inl ''NOT_FOUND'')
     else do {
       updated \<leftarrow> update_metadata_in_current_transaction (bld_id b) (brq_name q) manufacturer (brq_notes q);
       ret (build_outcome BuildMetadataWork (of_changed updated))
     }
   }"

definition build_complete :: "build_row \<Rightarrow> (session, build_answer host_result) state" where
  "build_complete b =
     (if \<not> bld_active b \<or> bld_status b \<notin> {''Planned'', ''Pulling''} then ret (Inl ''INVALID_ARGUMENT'')
      else do {
        completed \<leftarrow> complete_build_in_current_transaction (bld_id b);
        ret (build_outcome BuildRequirementsWork completed)
      })"

text \<open>The rows of a cancellation or disassembly, each checked and resolved.\<close>

definition chosen_return :: "build_row \<Rightarrow> return_choice \<Rightarrow> (session, string + disassembly_return) state" where
  "chosen_return b row = do {
     requirement \<leftarrow> requirement_try_get (int32 (rtc_requirement row));
     case requirement of None \<Rightarrow> ret (Inl ''INTERNAL_ERROR'')
     | Some None \<Rightarrow> ret (Inl ''INVALID_ARGUMENT'')
     | Some (Some r) \<Rightarrow>
         if req_build r \<noteq> bld_id b then ret (Inl ''INVALID_ARGUMENT'')
         else do {
           place \<leftarrow> valid_inventory_destination (bld_workspace b) (int32 (rtc_storage row));
           if \<not> place then ret (Inl ''CONFLICT'')
           else do {
             manufacturer \<leftarrow> requested_manufacturer (rtc_manufacturer row) True;
             if manufacturer \<le> 0 then ret (Inl ''NOT_FOUND'')
             else ret (Inr \<lparr>ret_requirement = int32 (rtc_requirement row),
               ret_part = (if bld_mode b = ''Stock'' then effective_part r else req_part r),
               ret_color = (if bld_mode b = ''Stock'' then effective_color r else req_color r),
               ret_manufacturer = manufacturer, ret_storage = int32 (rtc_storage row),
               ret_quantity = rtc_quantity row, ret_spare = rtc_spare row\<rparr>)
           }
         }
   }"

fun chosen_returns :: "build_row \<Rightarrow> return_choice list \<Rightarrow> (session, string + disassembly_return list) state" where
  "chosen_returns b [] = ret (Inr [])"
| "chosen_returns b (row # rows) = do {
     r \<leftarrow> chosen_return b row;
     case r of Inl code \<Rightarrow> ret (Inl code)
     | Inr r \<Rightarrow> do {
         rest \<leftarrow> chosen_returns b rows;
         ret (case rest of Inl code \<Rightarrow> Inl code | Inr rs \<Rightarrow> Inr (r # rs))
       }
   }"

text \<open>\<open>expectedRows != submittedRows\<close>: two hash tables of quantities by requirement, manufacturer and spare.\<close>

definition return_key :: "disassembly_return \<Rightarrow> int \<times> int \<times> bool" where
  "return_key r = (ret_requirement r, ret_manufacturer r, ret_spare r)"

definition same_returns :: "disassembly_return list \<Rightarrow> disassembly_return list \<Rightarrow> bool" where
  "same_returns rows rows' \<longleftrightarrow> set (map return_key rows) = set (map return_key rows')
     \<and> list_all (\<lambda>k. sum_where ret_quantity (\<lambda>r. return_key r = k) rows
         = sum_where ret_quantity (\<lambda>r. return_key r = k) rows') (map return_key rows)"

definition ends_allowed :: "string \<Rightarrow> build_row \<Rightarrow> bool" where
  "ends_allowed operation b \<longleftrightarrow>
     (operation = ''builds.cancel'' \<longrightarrow> bld_status b \<in> {''Planned'', ''Pulling''})
     \<and> (operation = ''builds.disassemble'' \<longrightarrow> bld_active b \<and> bld_status b = ''Complete''
         \<and> bld_mode b \<in> {''Stock'', ''CompleteSet''})"

definition build_disassemble :: "build_row \<Rightarrow> disassembly_return list \<Rightarrow> item_state
    \<Rightarrow> (session, build_answer host_result) state" where
  "build_disassemble b rows st = do {
     plan \<leftarrow> disassembly_return_plan (bld_id b);
     case plan of Inl e \<Rightarrow> ret (Inl ''STALE_VERSION'')
     | Inr (b', planned) \<Rightarrow>
         if \<not> same_returns planned rows then ret (Inl ''STALE_VERSION'')
         else do {
           result \<leftarrow> disassemble_in_current_transaction (bld_id b) rows st;
           ret (lifecycle_outcome BuildDisassemblyWork result)
         }
   }"

definition build_end :: "string \<Rightarrow> build_row \<Rightarrow> build_request \<Rightarrow> (session, build_answer host_result) state" where
  "build_end operation b q =
     (if \<not> ends_allowed operation b then ret (Inl ''CONFLICT'')
      else do {
        rows \<leftarrow> chosen_returns b (brq_returns q);
        case rows of Inl code \<Rightarrow> ret (Inl code)
        | Inr rows \<Rightarrow>
            let st = state_from_string (brq_state q) in
            if st = InvalidItemState then ret (Inl ''INVALID_ARGUMENT'')
            else if operation = ''builds.disassemble'' then build_disassemble b rows st
            else do {
              result \<leftarrow> cancel_in_current_transaction (bld_id b) rows st;
              ret (lifecycle_outcome BuildCancellationWork result)
            }
      })"

text \<open>The operations on a Build that exists; storing a spare does not check what the client saw of it.\<close>

definition build_change :: "build_texts \<Rightarrow> string \<Rightarrow> build_request \<Rightarrow> (session, build_answer host_result) state" where
  "build_change x operation q = do {
     build \<leftarrow> build_try_get (int32 (brq_build q));
     case build of None \<Rightarrow> ret (Inl ''INTERNAL_ERROR'')
     | Some None \<Rightarrow> ret (Inl ''NOT_FOUND'')
     | Some (Some b) \<Rightarrow>
         if bld_workspace b \<noteq> brq_workspace q then ret (Inl ''NOT_FOUND'')
         else if operation = ''builds.spare.store'' then spare_store x b q
         else do {
           same \<leftarrow> build_matches x b (brq_expected q);
           if \<not> same then ret (Inl ''STALE_VERSION'')
           else if operation = ''builds.edit'' then build_edit b q
           else if operation = ''builds.setActive'' then do {
             changed \<leftarrow> set_build_active_in_current_transaction (bld_id b) (brq_active q);
             ret (build_outcome BuildMetadataWork (of_changed changed))
           }
           else if operation = ''builds.complete'' then build_complete b
           else build_end operation b q
         }
   }"

definition about_requirement :: "string \<Rightarrow> bool" where
  "about_requirement operation \<longleftrightarrow> take 20 operation = ''builds.requirements.'' \<or> operation = ''builds.allocations.set''"

definition build_mutation :: "build_texts \<Rightarrow> string \<Rightarrow> build_request \<Rightarrow> (session, build_answer host_result) state" where
  "build_mutation x operation q =
     (if operation = ''builds.requirements.add'' then requirement_add q
      else if about_requirement operation then requirement_change x operation q
      else if operation = ''builds.allocateAvailable'' then allocate_all x q
      else if operation = ''builds.add'' then build_add q
      else build_change x operation q)"

end
