(* ===== verification/PartReferences.thy ===== *)
theory PartReferences
  imports BuildRepositories Sample
begin

text \<open>
  The Part Reference: the built-in catalog of parts by family (\<open>services/parts/PartReferenceManifest\<close>),
  the entries users add to it (\<open>repositories/UserPartReferenceRepository\<close>) and the list that comes
  of both (\<open>services/parts/PartReferenceCustomizationService\<close>). Of an entry the model keeps what the
  order and the identity depend on; names, materials, categories and notes are display texts.
\<close>

section \<open>The manifest\<close>

datatype placement = Before | After | Append

record ref_entry =
  ren_user :: int          \<comment> \<open>\<open>userEntryId\<close>, 0 for a built-in entry\<close>
  ren_part_id :: int
  ren_number :: string
  ren_catalog :: string
  ren_section :: string
  ren_placement :: placement
  ren_anchor :: string

record manifest =
  mft_entries :: "ref_entry list"
  mft_catalogs :: "string list"

definition reference_key :: "string \<Rightarrow> string" where
  "reference_key s = map to_lower (trimmed s)"

text \<open>
  \<open>parseCsv\<close>: a quote opens a quoted field only at its start, a doubled quote stands for one, and
  carriage returns outside quotes are dropped. \<open>None\<close> is a misplaced or missing quote.
\<close>

fun parse_csv :: "string \<Rightarrow> bool \<Rightarrow> string \<Rightarrow> string list \<Rightarrow> string list list \<Rightarrow> string list list option" where
  "parse_csv [] quoted fld rec records =
     (if quoted then None
      else if fld \<noteq> [] \<or> rec \<noteq> [] then Some (records @ [rec @ [fld]]) else Some records)"
| "parse_csv (c # cs) True fld rec records =
     (if c = CHR 0x22 then
        (case cs of
           d # ds \<Rightarrow> if d = CHR 0x22 then parse_csv ds True (fld @ [d]) rec records
                    else parse_csv cs False fld rec records
         | [] \<Rightarrow> parse_csv cs False fld rec records)
      else parse_csv cs True (fld @ [c]) rec records)"
| "parse_csv (c # cs) False fld rec records =
     (if c = CHR 0x22 then (if fld \<noteq> [] then None else parse_csv cs True fld rec records)
      else if c = CHR 0x2C then parse_csv cs False [] (rec @ [fld]) records
      else if c = CHR 0x0A then parse_csv cs False [] [] (records @ [rec @ [fld]])
      else if c = CHR 0x0D then parse_csv cs False fld rec records
      else parse_csv cs False (fld @ [c]) rec records)"

definition required_columns :: "string list" where
  "required_columns = [''part_num'', ''part_name'', ''catalog'', ''section'', ''display_order'',
     ''source_category_id'', ''source_category'', ''material'', ''representative_for'', ''notes'']"

text \<open>The column of a header; of two equal ones the later. \<open>valueAt\<close> is empty where a row is too short.\<close>

fun column_of :: "string list \<Rightarrow> nat \<Rightarrow> string \<Rightarrow> nat option" where
  "column_of [] i name = None"
| "column_of (h # hs) i name = (case column_of hs (Suc i) name of
     Some j \<Rightarrow> Some j | None \<Rightarrow> if reference_key h = name then Some i else None)"

definition value_at :: "string list \<Rightarrow> string list \<Rightarrow> string \<Rightarrow> string" where
  "value_at headers row name = (case column_of headers 0 name of
     Some i \<Rightarrow> if i < length row then trimmed (row ! i) else [] | None \<Rightarrow> [])"

text \<open>\<open>QString::toInt\<close>: an optional sign and decimal digits, within 32 bits.\<close>

fun decimal_value :: "string \<Rightarrow> int \<Rightarrow> int option" where
  "decimal_value [] n = Some n"
| "decimal_value (c # cs) n = (let d = (of_char c :: int) - 48 in
     if 0 \<le> d \<and> d \<le> 9 then decimal_value cs (10 * n + d) else None)"

definition text_to_int :: "string \<Rightarrow> int option" where
  "text_to_int s = (let t = trimmed s;
       (sign, digits) = (case t of [] \<Rightarrow> (1, []) | c # cs \<Rightarrow>
         if c = CHR 0x2D then (- 1, cs) else if c = CHR 0x2B then (1, cs) else (1, t))
     in if digits = [] then None
        else case decimal_value digits 0 of None \<Rightarrow> None
        | Some n \<Rightarrow> if int_range (sign * n) then Some (sign * n) else None)"

definition positive_number :: "string \<Rightarrow> bool" where
  "positive_number s \<longleftrightarrow> (case text_to_int s of None \<Rightarrow> False | Some n \<Rightarrow> 0 < n)"

definition built_in :: "string \<Rightarrow> string \<Rightarrow> string \<Rightarrow> ref_entry" where
  "built_in number catalog section = \<lparr>ren_user = 0, ren_part_id = 0, ren_number = number,
     ren_catalog = catalog, ren_section = section, ren_placement = Append, ren_anchor = []\<rparr>"

text \<open>The rows of the manifest, read until one is invalid or repeats a part number.\<close>

fun read_entries :: "(string list \<Rightarrow> string \<Rightarrow> string) \<Rightarrow> string list list \<Rightarrow> manifest \<Rightarrow> manifest option" where
  "read_entries value_of [] m = Some m"
| "read_entries value_of (row # rows) m =
     (if list_all (\<lambda>f. trimmed f = []) row then read_entries value_of rows m
      else let e = built_in (value_of row ''part_num'') (value_of row ''catalog'') (value_of row ''section'') in
        if ren_number e = [] \<or> value_of row ''part_name'' = [] \<or> ren_catalog e = [] \<or> ren_section e = []
          \<or> \<not> positive_number (value_of row ''display_order'')
          \<or> \<not> positive_number (value_of row ''source_category_id'') then None
        else if reference_key (ren_number e) \<in> set (map (\<lambda>x. reference_key (ren_number x)) (mft_entries m)) then None
        else read_entries value_of rows \<lparr>mft_entries = mft_entries m @ [e],
          mft_catalogs = (if ren_catalog e \<in> set (mft_catalogs m) then mft_catalogs m
            else mft_catalogs m @ [ren_catalog e])\<rparr>)"

definition expected_entries :: nat where "expected_entries = 2985"
definition expected_catalogs :: nat where "expected_catalogs = 38"

definition load_manifest :: "string option \<Rightarrow> manifest option" where
  "load_manifest file = (case file of None \<Rightarrow> None | Some s \<Rightarrow>
     (case parse_csv s False [] [] [] of
        None \<Rightarrow> None
      | Some [] \<Rightarrow> None
      | Some (headers # rows) \<Rightarrow>
          if \<not> list_all (\<lambda>c. column_of headers 0 c \<noteq> None) required_columns then None
          else case read_entries (value_at headers) rows \<lparr>mft_entries = [], mft_catalogs = []\<rparr> of
            None \<Rightarrow> None
          | Some m \<Rightarrow>
              if length (mft_entries m) \<noteq> expected_entries \<or> length (mft_catalogs m) \<noteq> expected_catalogs
              then None else Some m))"

definition entries_for_catalog :: "manifest \<Rightarrow> string \<Rightarrow> ref_entry list" where
  "entries_for_catalog m catalog =
     filter (\<lambda>e. reference_key (ren_catalog e) = reference_key catalog) (mft_entries m)"

definition destination_key :: "string \<Rightarrow> string \<Rightarrow> string" where
  "destination_key catalog section = reference_key catalog @ CHR 0x1F # reference_key section"

definition entry_destination :: "ref_entry \<Rightarrow> string" where
  "entry_destination e = destination_key (ren_catalog e) (ren_section e)"

definition entry_key :: "ref_entry \<Rightarrow> string" where
  "entry_key e = reference_key (ren_number e)"

definition is_structured_catalog :: "string \<Rightarrow> bool" where
  "is_structured_catalog catalog \<longleftrightarrow>
     reference_key catalog \<in> {''bricks'', ''plates'', ''tiles'', ''technic beams & liftarms''}"

section \<open>UserPartReferenceRepository\<close>

fun placement_name :: "placement \<Rightarrow> string" where
  "placement_name Before = ''Before''"
| "placement_name After = ''After''"
| "placement_name Append = ''Append''"

definition placement_from_name :: "string \<Rightarrow> placement" where
  "placement_from_name s = (if s = ''Before'' then Before else if s = ''After'' then After else Append)"

definition all_references :: "(session, reference_row list option) state" where
  "all_references = sql_query (\<lambda>t. sort_key rfe_id (part_references t))"

definition reference_by_id :: "int \<Rightarrow> (session, reference_row option option) state" where
  "reference_by_id i = sql_query (\<lambda>t. find (\<lambda>r. rfe_id r = i) (part_references t))"

definition put_rfe_id :: "int \<Rightarrow> reference_row \<Rightarrow> reference_row" where
  "put_rfe_id i r = r\<lparr>rfe_id := i\<rparr>"

definition insert_reference :: "reference_row \<Rightarrow> tables \<Rightarrow> int \<times> tables" where
  "insert_reference r t = (let i = seq_reference t + 1
     in (i, t\<lparr>part_references := part_references t @ [put_rfe_id i r], seq_reference := i\<rparr>))"

definition reference_create :: "int \<Rightarrow> string \<Rightarrow> string \<Rightarrow> placement \<Rightarrow> string \<Rightarrow> (session, int option) state" where
  "reference_create p catalog section pl anchor = do {
     now \<leftarrow> current_time;
     sql_exec (insert_reference \<lparr>rfe_id = 0, rfe_part = p, rfe_catalog = trimmed catalog,
       rfe_section = trimmed section, rfe_anchor = trimmed anchor, rfe_placement = placement_name pl,
       rfe_created = now, rfe_modified = now\<rparr>)
   }"

definition delete_reference :: "int \<Rightarrow> tables \<Rightarrow> nat \<times> tables" where
  "delete_reference i t = (count_where (\<lambda>r. rfe_id r = i) (part_references t),
     t\<lparr>part_references := filter (\<lambda>r. rfe_id r \<noteq> i) (part_references t)\<rparr>)"

definition reference_remove :: "int \<Rightarrow> (session, bool) state" where
  "reference_remove i = do {
     affected \<leftarrow> sql_exec (delete_reference i);
     ret (affected = Some 1)
   }"

section \<open>PartReferenceCustomizationService\<close>

text \<open>The elements of a list where they occur first, as the code collects what it has not seen.\<close>

definition firsts :: "'a list \<Rightarrow> 'a list" where
  "firsts xs = rev (remdups (rev xs))"

definition valid_destination :: "manifest \<Rightarrow> string \<Rightarrow> string \<Rightarrow> bool" where
  "valid_destination m catalog section \<longleftrightarrow>
     list_ex (\<lambda>e. entry_destination e = destination_key catalog section) (mft_entries m)"

definition user_entry :: "reference_row \<Rightarrow> part_row \<Rightarrow> ref_entry" where
  "user_entry r p = \<lparr>ren_user = rfe_id r, ren_part_id = part_id p, ren_number = part_number p,
     ren_catalog = rfe_catalog r, ren_section = rfe_section r,
     ren_placement = placement_from_name (rfe_placement r), ren_anchor = rfe_anchor r\<rparr>"

text \<open>The stored rows that are shown: with a destination of the manifest and an active part that is not built in.\<close>

fun shown_entries :: "manifest \<Rightarrow> reference_row list \<Rightarrow> (session, ref_entry list) state" where
  "shown_entries m [] = ret []"
| "shown_entries m (r # rs) =
     (if \<not> valid_destination m (rfe_catalog r) (rfe_section r) then shown_entries m rs
      else do {
        part \<leftarrow> part_by_id (rfe_part r);
        case part of None \<Rightarrow> shown_entries m rs
        | Some p \<Rightarrow>
            if \<not> part_active p \<or> reference_key (part_number p) \<in> set (map entry_key (mft_entries m))
            then shown_entries m rs
            else do { es \<leftarrow> shown_entries m rs; ret (user_entry r p # es) }
      })"

text \<open>
  The place of a user entry in a section: before or after the entry with a given part number, or
  at the end. A hash maps a part number to the entry inserted last with it; an anchor counts only if
  it is a node of the section, and structured catalogs have no placements.
\<close>

definition last_with_key :: "string \<Rightarrow> ref_entry list \<Rightarrow> ref_entry option" where
  "last_with_key k es = find (\<lambda>e. entry_key e = k) (rev es)"

definition slot_of :: "ref_entry list \<Rightarrow> string \<Rightarrow> string \<Rightarrow> ref_entry list \<Rightarrow> ref_entry \<Rightarrow> placement \<times> string" where
  "slot_of all catalog section nodes u = (case last_with_key (entry_key u) all of
     None \<Rightarrow> (Append, [])
   | Some e \<Rightarrow>
       let anchor = reference_key (ren_anchor e);
           usable = anchor \<noteq> [] \<and> (case last_with_key anchor nodes of None \<Rightarrow> False
             | Some n \<Rightarrow> entry_destination n = destination_key catalog section)
       in if \<not> usable \<or> ren_placement e = Append \<or> is_structured_catalog catalog then (Append, [])
          else (ren_placement e, anchor))"

text \<open>
  \<open>emitEntry\<close> for each entry of a list: the entries placed before it, the entry, those placed after
  it, each part number once. \<open>emitted\<close> and \<open>out\<close> are the state of the recursion; the children of an
  entry are found among \<open>users\<close> by their slots.
\<close>

definition children :: "(ref_entry \<Rightarrow> placement \<times> string) \<Rightarrow> ref_entry list \<Rightarrow> placement \<Rightarrow> ref_entry \<Rightarrow> ref_entry list" where
  "children slot users pl e = filter (\<lambda>u. slot u = (pl, entry_key e)) users"

function (sequential) emit :: "(ref_entry \<Rightarrow> placement \<times> string) \<Rightarrow> ref_entry list \<Rightarrow> ref_entry list
    \<Rightarrow> string list \<times> ref_entry list \<Rightarrow> string list \<times> ref_entry list" where
  "emit slot users [] st = st"
| "emit slot users (e # es) (emitted, out) =
     (if entry_key e \<in> set emitted then emit slot users es (emitted, out)
      else let (emitted1, out1) = emit slot users (children slot users Before e) (entry_key e # emitted, out);
               (emitted2, out2) = emit slot users (children slot users After e) (emitted1, out1 @ [e])
           in emit slot users es (emitted2, out2))"
  by pat_completeness auto

definition reachable_keys :: "ref_entry list \<Rightarrow> ref_entry list \<Rightarrow> string set" where
  "reachable_keys users es = entry_key ` (set users \<union> set es)"

lemma emit_marks:
  "emit_dom (slot, users, es, st) \<Longrightarrow> set (fst st) \<subseteq> set (fst (emit slot users es st))"
proof (induction rule: emit.pinduct)
  case (1 slot users st)
  then show ?case by (simp add: emit.psimps)
next
  case (2 slot users e es emitted out)
  show ?case
  proof (cases "entry_key e \<in> set emitted")
    case True
    with 2 show ?thesis by (simp add: emit.psimps)
  next
    case False
    obtain em1 out1 where r1: "emit slot users (children slot users Before e) (entry_key e # emitted, out) = (em1, out1)"
      by fastforce
    obtain em2 out2 where r2: "emit slot users (children slot users After e) (em1, out1 @ [e]) = (em2, out2)"
      by fastforce
    from False 2 r1 r2 have "set (entry_key e # emitted) \<subseteq> set em1" "set em1 \<subseteq> set em2"
      "set em2 \<subseteq> set (fst (emit slot users es (em2, out2)))"
      by fastforce+
    then have "set emitted \<subseteq> set (fst (emit slot users es (em2, out2)))" by auto
    with False 2 r1 r2 show ?thesis by (simp add: emit.psimps)
  qed
qed

lemma finite_keys [simp]: "finite (reachable_keys users es)"
  by (simp add: reachable_keys_def)

lemma fewer_keys:
  assumes "entry_key e \<notin> set emitted" "set (entry_key e # emitted) \<subseteq> em"
  shows "card (reachable_keys users (children slot users pl e) - em)
    < card (reachable_keys users (e # es) - set emitted)"
proof (rule psubset_card_mono)
  have "reachable_keys users (children slot users pl e) \<subseteq> reachable_keys users (e # es)"
    "entry_key e \<in> reachable_keys users (e # es)"
    by (auto simp: reachable_keys_def children_def)
  with assms show "reachable_keys users (children slot users pl e) - em \<subset> reachable_keys users (e # es) - set emitted"
    by auto
qed simp

lemma no_more_keys:
  "set emitted \<subseteq> em \<Longrightarrow> card (reachable_keys users es - em) \<le> card (reachable_keys users (e # es) - set emitted)"
  by (intro card_mono) (auto simp: reachable_keys_def)

termination emit
proof (relation "measures [\<lambda>(slot, users, es, st). card (reachable_keys users es - set (fst st)),
    \<lambda>(slot, users, es, st). length es]", goal_cases)
  case 1
  then show ?case by simp
next
  case (2 slot users e es emitted out)
  then show ?case using no_more_keys [of emitted "set emitted" users es e] by (simp add: le_less)
next
  case (3 slot users e es emitted out)
  then show ?case using fewer_keys [of e emitted "set (entry_key e # emitted)" users slot Before es] by simp
next
  case (4 slot users e es emitted out x em1 out1)
  have "set (entry_key e # emitted) \<subseteq> set em1"
    using emit_marks [OF 4(4)] unfolding 4(2,3) [symmetric] by simp
  then show ?case using 4(1) fewer_keys [of e emitted "set em1" users slot After es] by simp
next
  case (5 slot users e es emitted out x em1 out1 y em2 out2)
  have "set (entry_key e # emitted) \<subseteq> set em1"
    using emit_marks [OF 5(7)] unfolding 5(2,3) [symmetric] by simp
  moreover have "set em1 \<subseteq> set em2"
    using emit_marks [OF 5(6)] unfolding 5(4,5) [symmetric] by simp
  ultimately have "set emitted \<subseteq> set em2" by auto
  then show ?case using no_more_keys [of emitted "set em2" users es e] by (simp add: le_less)
qed

text \<open>
  The entries of one section: the built-in ones with what is placed around them, then what is
  appended, then what a cycle of anchors has kept from being emitted. \<open>all\<close> are the shown user
  entries of every section, \<open>users\<close> those of this one.
\<close>

definition section_entries :: "ref_entry list \<Rightarrow> string \<Rightarrow> string \<Rightarrow> ref_entry list \<Rightarrow> ref_entry list \<Rightarrow> ref_entry list" where
  "section_entries all catalog section roots users =
     (let slot = slot_of all catalog section (roots @ users);
          appended = filter (\<lambda>u. fst (slot u) = Append) users
      in snd (emit slot users (roots @ appended @ users) ([], [])))"

definition arranged :: "manifest \<Rightarrow> ref_entry list \<Rightarrow> ref_entry list" where
  "arranged m all = concat (map (\<lambda>catalog. let es = entries_for_catalog m catalog in
     concat (map (\<lambda>section. section_entries all catalog section
         (filter (\<lambda>e. ren_section e = section) es)
         (filter (\<lambda>u. entry_destination u = destination_key catalog section) all))
       (firsts (map ren_section es)))) (mft_catalogs m))"

text \<open>\<open>effectiveEntries\<close>: the built-in entries alone when the stored ones cannot be read.\<close>

definition effective_entries :: "manifest \<Rightarrow> (session, ref_entry list) state" where
  "effective_entries m = do {
     stored \<leftarrow> all_references;
     case stored of None \<Rightarrow> ret (mft_entries m)
     | Some rs \<Rightarrow> do { users \<leftarrow> shown_entries m rs; ret (arranged m users) }
   }"

datatype reference_error = ReferencesClosed | PartUnavailable | AlreadyInReference | DestinationInvalid
  | AnchorInvalid | ReferenceNotSaved | BuiltInEntry | ReferenceNotRemoved

definition add_reference :: "manifest \<Rightarrow> int \<Rightarrow> string \<Rightarrow> string \<Rightarrow> placement \<Rightarrow> string
    \<Rightarrow> (session, reference_error + int) state" where
  "add_reference m p catalog section pl anchor = do {
     allowed \<leftarrow> host_write_allowed;
     if \<not> allowed then ret (Inl ReferencesClosed)
     else do {
       part \<leftarrow> part_by_id p;
       case part of None \<Rightarrow> ret (Inl PartUnavailable)
       | Some x \<Rightarrow>
           if \<not> part_active x then ret (Inl PartUnavailable)
           else do {
             effective \<leftarrow> effective_entries m;
             let pl' = (if is_structured_catalog catalog then Append else pl) in
             if list_ex (\<lambda>e. entry_key e = reference_key (part_number x)) effective then ret (Inl AlreadyInReference)
             else if \<not> valid_destination m catalog section then ret (Inl DestinationInvalid)
             else if pl' \<noteq> Append
               \<and> \<not> list_ex (\<lambda>e. entry_key e = reference_key anchor
                   \<and> entry_destination e = destination_key catalog section) effective
             then ret (Inl AnchorInvalid)
             else do {
               created \<leftarrow> reference_create p catalog section pl' anchor;
               case created of None \<Rightarrow> ret (Inl ReferenceNotSaved) | Some i \<Rightarrow> ret (Inr i)
             }
           }
     }
   }"

definition remove_reference :: "int \<Rightarrow> (session, reference_error + int) state" where
  "remove_reference i = do {
     allowed \<leftarrow> host_write_allowed;
     if \<not> allowed then ret (Inl ReferencesClosed)
     else if i \<le> 0 then ret (Inl BuiltInEntry)
     else do {
       removed \<leftarrow> reference_remove i;
       ret (if removed then Inr i else Inl ReferenceNotRemoved)
     }
   }"

section \<open>What is emitted\<close>

declare emit.simps(2) [simp del]

text \<open>The runs of \<open>emit\<close>: nothing left, an entry already emitted, or an entry between its children.\<close>

lemma emit_induct [consumes 1, case_names Nil Seen New]:
  assumes "emit slot users es (emitted, out) = (emitted', out')"
    and "\<And>emitted out. P [] emitted out emitted out"
    and "\<And>e es emitted out emitted' out'. entry_key e \<in> set emitted \<Longrightarrow> P es emitted out emitted' out' \<Longrightarrow>
      P (e # es) emitted out emitted' out'"
    and "\<And>e es emitted out em1 out1 em2 out2 emitted' out'. entry_key e \<notin> set emitted \<Longrightarrow>
      P (children slot users Before e) (entry_key e # emitted) out em1 out1 \<Longrightarrow>
      P (children slot users After e) em1 (out1 @ [e]) em2 out2 \<Longrightarrow>
      P es em2 out2 emitted' out' \<Longrightarrow> P (e # es) emitted out emitted' out'"
  shows "P es emitted out emitted' out'"
proof -
  have "P es (fst st) (snd st) (fst (emit slot users es st)) (snd (emit slot users es st))" for st
  proof (induction slot\<equiv>slot users\<equiv>users es st rule: emit.induct)
    case (1 st)
    show ?case by (simp add: assms(2))
  next
    case (2 e es emitted out)
    show ?case
    proof (cases "entry_key e \<in> set emitted")
      case True
      from assms(3) [OF this 2(1) [OF this, simplified]] True show ?thesis
        by (simp add: emit.simps(2))
    next
      case False
      obtain em1 out1 where r1: "emit slot users (children slot users Before e) (entry_key e # emitted, out) = (em1, out1)"
        by fastforce
      obtain em2 out2 where r2: "emit slot users (children slot users After e) (em1, out1 @ [e]) = (em2, out2)"
        by fastforce
      have "P (children slot users Before e) (entry_key e # emitted) out em1 out1"
        using 2(2) [OF False] unfolding r1 by simp
      moreover have "P (children slot users After e) em1 (out1 @ [e]) em2 out2"
        using 2(3) [OF False r1 [symmetric] refl] unfolding r2 by simp
      moreover note 2(4) [OF False r1 [symmetric] refl r2 [symmetric] refl]
      ultimately show ?thesis using assms(4) [OF False] False
        by (simp add: emit.simps(2) r1 r2)
    qed
  qed
  from this [of "(emitted, out)"] assms(1) show ?thesis by simp
qed

text \<open>The entries \<open>emit\<close> adds: each part number once, none that was emitted before.\<close>

definition adds :: "ref_entry list \<Rightarrow> ref_entry list \<Rightarrow> string list \<Rightarrow> ref_entry list \<Rightarrow> string list \<Rightarrow> ref_entry list \<Rightarrow> ref_entry list \<Rightarrow> bool" where
  "adds users es emitted out emitted' out' new \<longleftrightarrow> out' = out @ new \<and> set emitted' = set emitted \<union> entry_key ` set new
     \<and> distinct (map entry_key new) \<and> entry_key ` set new \<inter> set emitted = {}
     \<and> set new \<subseteq> set es \<union> set users \<and> entry_key ` set es \<subseteq> set emitted'"

lemma emit_addsD:
  assumes "adds users es emitted out emitted' out' new"
  shows "out' = out @ new" "set emitted' = set emitted \<union> entry_key ` set new" "distinct (map entry_key new)"
    "entry_key ` set new \<inter> set emitted = {}" "set new \<subseteq> set es \<union> set users"
    "entry_key ` set es \<subseteq> set emitted'"
  using assms unfolding adds_def by blast+

lemma children_users: "set (children slot users pl e) \<subseteq> set users"
  by (auto simp: children_def)

lemma adds_seen: "entry_key e \<in> set emitted \<Longrightarrow> adds users es emitted out emitted' out' new \<Longrightarrow>
    adds users (e # es) emitted out emitted' out' new"
  by (auto simp: adds_def)

lemma adds_new:
  assumes "entry_key e \<notin> set emitted"
    and first: "adds users (children slot users Before e) (entry_key e # emitted) out em1 out1 n1"
    and second: "adds users (children slot users After e) em1 (out1 @ [e]) em2 out2 n2"
    and rest: "adds users es em2 out2 emitted' out' n3"
  shows "adds users (e # es) emitted out emitted' out' (n1 @ e # n2 @ n3)"
proof -
  have "set n1 \<subseteq> set users" by (rule subset_trans [OF emit_addsD(5) [OF first]]) (simp add: children_users)
  moreover have "set n2 \<subseteq> set users" by (rule subset_trans [OF emit_addsD(5) [OF second]]) (simp add: children_users)
  ultimately have "set (n1 @ e # n2 @ n3) \<subseteq> set (e # es) \<union> set users" using emit_addsD(5) [OF rest] by auto
  moreover have "out' = out @ n1 @ e # n2 @ n3"
    using emit_addsD(1) [OF first] emit_addsD(1) [OF second] emit_addsD(1) [OF rest] by simp
  moreover have em: "set em1 = insert (entry_key e) (set emitted \<union> entry_key ` set n1)"
    "set em2 = set em1 \<union> entry_key ` set n2" "set emitted' = set em2 \<union> entry_key ` set n3"
    using emit_addsD(2) [OF first] emit_addsD(2) [OF second] emit_addsD(2) [OF rest] by simp_all
  moreover have "entry_key ` set (e # es) \<subseteq> set emitted'"
    using emit_addsD(6) [OF rest] unfolding em by auto
  moreover have "distinct (map entry_key (n1 @ e # n2 @ n3))"
    "entry_key ` set (n1 @ e # n2 @ n3) \<inter> set emitted = {}"
    using assms(1) emit_addsD(3,4) [OF first] emit_addsD(3,4) [OF second] emit_addsD(3,4) [OF rest] unfolding em by auto
  ultimately show ?thesis unfolding adds_def by auto
qed

lemma emit_adds:
  "emit slot users es (emitted, out) = (emitted', out') \<Longrightarrow> \<exists>new. adds users es emitted out emitted' out' new"
proof (induction rule: emit_induct)
  case (Nil emitted out)
  have "adds users [] emitted out emitted out []" by (simp add: adds_def)
  then show ?case ..
next
  case Seen
  then show ?case using adds_seen by blast
next
  case New
  then show ?case using adds_new by blast
qed

text \<open>
  Where an entry comes in relation to the one it is placed at. \<open>u\<close> is a child of \<open>a\<close> alone and is
  not itself in the list.
\<close>

definition only_child_of :: "(ref_entry \<Rightarrow> placement \<times> string) \<Rightarrow> ref_entry list \<Rightarrow> ref_entry \<Rightarrow> placement \<Rightarrow> string \<Rightarrow> bool" where
  "only_child_of slot users u pl k \<longleftrightarrow> slot u = (pl, k) \<and> u \<in> set users \<and> k \<noteq> entry_key u
     \<and> (\<forall>x\<in>set users. entry_key x = entry_key u \<longrightarrow> x = u)"

definition avoids :: "ref_entry \<Rightarrow> ref_entry list \<Rightarrow> bool" where
  "avoids u es \<longleftrightarrow> entry_key u \<notin> entry_key ` set es"

lemma avoids_children:
  assumes "only_child_of slot users u pl k" "pl' \<noteq> pl \<or> entry_key e \<noteq> k"
  shows "avoids u (children slot users pl' e)"
  using assms by (auto simp: only_child_of_def avoids_def children_def)

lemma child_of: "only_child_of slot users u pl k \<Longrightarrow> entry_key e = k \<Longrightarrow> u \<in> set (children slot users pl e)"
  by (auto simp: only_child_of_def children_def)

definition placed :: "placement \<Rightarrow> ref_entry \<Rightarrow> string \<Rightarrow> ref_entry list \<Rightarrow> bool" where
  "placed pl u k new \<longleftrightarrow> (k \<in> entry_key ` set new \<longrightarrow> (\<exists>xs a ys. new = xs @ a # ys \<and> entry_key a = k
     \<and> entry_key u \<in> entry_key ` set (if pl = Before then xs else ys)))"

lemma placed_append: "placed pl u k xs \<Longrightarrow> placed pl u k ys \<Longrightarrow> placed pl u k (xs @ ys)"
  unfolding placed_def
proof (intro impI)
  assume xs: "k \<in> entry_key ` set xs \<longrightarrow> (\<exists>vs a ws. xs = vs @ a # ws \<and> entry_key a = k
     \<and> entry_key u \<in> entry_key ` set (if pl = Before then vs else ws))"
    and ys: "k \<in> entry_key ` set ys \<longrightarrow> (\<exists>vs a ws. ys = vs @ a # ws \<and> entry_key a = k
     \<and> entry_key u \<in> entry_key ` set (if pl = Before then vs else ws))"
    and "k \<in> entry_key ` set (xs @ ys)"
  then consider "k \<in> entry_key ` set xs" | "k \<in> entry_key ` set ys" by auto
  then show "\<exists>vs a ws. xs @ ys = vs @ a # ws \<and> entry_key a = k
     \<and> entry_key u \<in> entry_key ` set (if pl = Before then vs else ws)"
  proof cases
    case 1
    with xs obtain vs a ws where "xs = vs @ a # ws" "entry_key a = k"
      "entry_key u \<in> entry_key ` set (if pl = Before then vs else ws)" by blast
    then show ?thesis by (intro exI [of _ vs] exI [of _ a] exI [of _ "ws @ ys"]) (auto split: if_splits)
  next
    case 2
    with ys obtain vs a ws where "ys = vs @ a # ws" "entry_key a = k"
      "entry_key u \<in> entry_key ` set (if pl = Before then vs else ws)" by blast
    then show ?thesis by (intro exI [of _ "xs @ vs"] exI [of _ a] exI [of _ ws]) (auto split: if_splits)
  qed
qed

lemma placed_none: "k \<notin> entry_key ` set xs \<Longrightarrow> placed pl u k xs"
  by (simp add: placed_def)

definition in_place :: "placement \<Rightarrow> ref_entry \<Rightarrow> string \<Rightarrow> string list \<Rightarrow> string list \<Rightarrow> ref_entry list \<Rightarrow> bool" where
  "in_place pl u k emitted emitted' new \<longleftrightarrow> (entry_key u \<in> set emitted' \<longrightarrow> k \<in> set emitted') \<and> placed pl u k new
     \<and> (k \<in> set emitted \<and> entry_key u \<notin> set emitted \<longrightarrow> entry_key u \<notin> set emitted')"

lemma in_place_new:
  assumes child: "only_child_of slot users u pl k" and "pl \<noteq> Append"
    and new: "entry_key e \<notin> set emitted"
    and first: "adds users (children slot users Before e) (entry_key e # emitted) out em1 out1 n1"
    and second: "adds users (children slot users After e) em1 (out1 @ [e]) em2 out2 n2"
    and rest: "adds users es em2 out2 emitted' out' n3"
    and in_first: "avoids u (children slot users Before e) \<Longrightarrow>
      entry_key u \<in> set (entry_key e # emitted) \<longrightarrow> k \<in> set (entry_key e # emitted) \<Longrightarrow>
      in_place pl u k (entry_key e # emitted) em1 n1"
    and in_second: "avoids u (children slot users After e) \<Longrightarrow> entry_key u \<in> set em1 \<longrightarrow> k \<in> set em1 \<Longrightarrow>
      in_place pl u k em1 em2 n2"
    and in_rest: "avoids u es \<Longrightarrow> entry_key u \<in> set em2 \<longrightarrow> k \<in> set em2 \<Longrightarrow> in_place pl u k em2 emitted' n3"
    and "avoids u (e # es)" and before: "entry_key u \<in> set emitted \<longrightarrow> k \<in> set emitted"
  shows "in_place pl u k emitted emitted' (n1 @ e # n2 @ n3)"
proof -
  have avoids: "entry_key e \<noteq> entry_key u" "avoids u es" using assms(10) by (auto simp: avoids_def)
  have em: "set em1 = insert (entry_key e) (set emitted \<union> entry_key ` set n1)"
    "set em2 = set em1 \<union> entry_key ` set n2" "set emitted' = set em2 \<union> entry_key ` set n3"
    using emit_addsD(2) [OF first] emit_addsD(2) [OF second] emit_addsD(2) [OF rest] by simp_all
  show ?thesis
  proof (cases "entry_key e = k")
    case False
    have one: "in_place pl u k (entry_key e # emitted) em1 n1"
      using False avoids before by (intro in_first avoids_children [OF child]) auto
    then have "entry_key u \<in> set em1 \<longrightarrow> k \<in> set em1" by (simp add: in_place_def)
    then have two: "in_place pl u k em1 em2 n2" using False by (intro in_second avoids_children [OF child]) auto
    then have "entry_key u \<in> set em2 \<longrightarrow> k \<in> set em2" by (simp add: in_place_def)
    then have three: "in_place pl u k em2 emitted' n3" using avoids by (intro in_rest)
    have "placed pl u k [e]" using False by (intro placed_none) simp
    then have "placed pl u k (n1 @ [e] @ n2 @ n3)"
      using one two three by (intro placed_append) (simp_all add: in_place_def)
    moreover have "entry_key u \<notin> set emitted'" if "k \<in> set emitted" "entry_key u \<notin> set emitted"
    proof -
      from one that avoids have "entry_key u \<notin> set em1" by (simp add: in_place_def)
      moreover from that have "k \<in> set em1" "k \<in> set em2" by (simp_all add: em)
      ultimately show ?thesis using two three by (simp add: in_place_def)
    qed
    ultimately show ?thesis using three by (simp add: in_place_def)
  next
    case True
    with new before have fresh: "entry_key u \<notin> set emitted" "k \<notin> set emitted" by auto
    have u: "u \<in> set (children slot users pl e)" using child_of [OF child True] .
    have "k \<notin> entry_key ` set (n2 @ n3)"
      using emit_addsD(4) [OF second] emit_addsD(4) [OF rest] True unfolding em by auto
    moreover have "entry_key u \<in> entry_key ` set (if pl = Before then n1 else n2 @ n3)"
    proof (cases "pl = Before")
      case True
      with u emit_addsD(6) [OF first] fresh avoids show ?thesis unfolding em by auto
    next
      case False
      with \<open>pl \<noteq> Append\<close> have "pl = After" by (cases pl) auto
      have "in_place pl u k (entry_key e # emitted) em1 n1"
        using False True fresh avoids by (intro in_first avoids_children [OF child]) auto
      then have "entry_key u \<notin> set em1" using True fresh avoids by (simp add: in_place_def)
      with u emit_addsD(6) [OF second] \<open>pl = After\<close> show ?thesis unfolding em by auto
    qed
    ultimately have "placed pl u k (n1 @ e # n2 @ n3)"
      using True unfolding placed_def by (intro impI exI [of _ n1] exI [of _ e] exI [of _ "n2 @ n3"]) auto
    then show ?thesis using True new em by (auto simp: in_place_def)
  qed
qed

lemma emit_places:
  assumes "emit slot users es (emitted, out) = (emitted', out')"
    and child: "only_child_of slot users u pl k" and "pl \<noteq> Append"
  shows "\<exists>new. adds users es emitted out emitted' out' new
    \<and> (avoids u es \<longrightarrow> (entry_key u \<in> set emitted \<longrightarrow> k \<in> set emitted) \<longrightarrow> in_place pl u k emitted emitted' new)"
  using assms(1)
proof (induction rule: emit_induct)
  case (Nil emitted out)
  have "adds users [] emitted out emitted out []" "placed pl u k []" by (simp_all add: adds_def placed_none)
  then show ?case by (auto simp: in_place_def)
next
  case (Seen e es)
  then show ?case using adds_seen by (fastforce simp: avoids_def)
next
  case (New e es emitted out em1 out1 em2 out2 emitted' out')
  then obtain n1 n2 n3 where n: "adds users (children slot users Before e) (entry_key e # emitted) out em1 out1 n1"
    "adds users (children slot users After e) em1 (out1 @ [e]) em2 out2 n2" "adds users es em2 out2 emitted' out' n3"
    and i: "avoids u (children slot users Before e) \<longrightarrow> (entry_key u \<in> set (entry_key e # emitted) \<longrightarrow> k \<in> set (entry_key e # emitted))
      \<longrightarrow> in_place pl u k (entry_key e # emitted) em1 n1"
    "avoids u (children slot users After e) \<longrightarrow> (entry_key u \<in> set em1 \<longrightarrow> k \<in> set em1) \<longrightarrow> in_place pl u k em1 em2 n2"
    "avoids u es \<longrightarrow> (entry_key u \<in> set em2 \<longrightarrow> k \<in> set em2) \<longrightarrow> in_place pl u k em2 emitted' n3"
    by blast
  have "in_place pl u k emitted emitted' (n1 @ e # n2 @ n3)"
    if "avoids u (e # es)" "entry_key u \<in> set emitted \<longrightarrow> k \<in> set emitted"
    by (rule in_place_new [OF child \<open>pl \<noteq> Append\<close> New(1) n]) (use i that in auto)
  with adds_new [OF New(1) n] show ?case by blast
qed

end
