(* ===== verification/HostReferences.thy ===== *)
theory HostReferences
  imports HostRequests HostBuilds PartReferences
begin

text \<open>
  The Part Reference operations of the Host for its clients:
  \<open>services/application/HostPartReferenceMutationService\<close>, with the requests of
  \<open>dto/RemotePartReferenceMutationDtos\<close>. The manifest the Host has loaded (\<open>None\<close> when it could not)
  and the text of a time (\<open>toString(Qt::ISODateWithMs)\<close>) are parameters.
\<close>

section \<open>Requests\<close>

record reference_expected =
  rfx_modified :: string
  rfx_part :: string
  rfx_catalog :: string
  rfx_section :: string
  rfx_placement :: placement
  rfx_anchor :: string

record reference_request =
  rfq_workspace :: int
  rfq_id :: string
  rfq_customization :: int
  rfq_part :: string
  rfq_catalog :: string
  rfq_section :: string
  rfq_placement :: placement
  rfq_anchor :: string
  rfq_expected :: reference_expected

definition reference_operations :: "string list" where
  "reference_operations = [''partReference.customizations.add'', ''partReference.customizations.remove'']"

definition no_reference_expected :: reference_expected where
  "no_reference_expected = \<lparr>rfx_modified = [], rfx_part = [], rfx_catalog = [], rfx_section = [],
     rfx_placement = Append, rfx_anchor = []\<rparr>"

definition new_reference_request :: "int \<Rightarrow> string \<Rightarrow> reference_request" where
  "new_reference_request ws i = \<lparr>rfq_workspace = ws, rfq_id = i, rfq_customization = 0, rfq_part = [],
     rfq_catalog = [], rfq_section = [], rfq_placement = Append, rfq_anchor = [],
     rfq_expected = no_reference_expected\<rparr>"

definition reference_expected_fields :: "reference_expected \<Rightarrow> (string \<times> json) list" where
  "reference_expected_fields e = [(''modifiedUtc'', JString (rfx_modified e)), (''partNumber'', JString (rfx_part e)),
     (''catalog'', JString (rfx_catalog e)), (''section'', JString (rfx_section e)),
     (''placement'', JString (placement_name (rfx_placement e))), (''anchorPartNumber'', JString (rfx_anchor e))]"

definition reference_to_metadata :: "string \<Rightarrow> reference_request \<Rightarrow> metadata" where
  "reference_to_metadata operation q =
     \<lparr>mtd_workspace = rfq_workspace q, mtd_id = rfq_id q, mtd_epoch = [],
      mtd_expected = (if operation = ''partReference.customizations.add'' then []
        else reference_expected_fields (rfq_expected q)),
      mtd_mutation = (if operation = ''partReference.customizations.add''
        then [(''partNumber'', JString (rfq_part q)), (''catalog'', JString (rfq_catalog q)),
          (''section'', JString (rfq_section q)), (''placement'', JString (placement_name (rfq_placement q))),
          (''anchorPartNumber'', JString (rfq_anchor q))]
        else [(''customizationId'', json_number (rfq_customization q))])\<rparr>"

text \<open>\<open>validText\<close>: a text, trimmed, of at most 200 characters.\<close>

fun valid_text :: "bool \<Rightarrow> json option \<Rightarrow> string option" where
  "valid_text blank (Some (JString s)) =
     (if length (trimmed s) \<le> 200 \<and> (blank \<or> trimmed s \<noteq> []) then Some (trimmed s) else None)"
| "valid_text blank _ = None"

fun parse_placement :: "json option \<Rightarrow> placement option" where
  "parse_placement (Some (JString s)) =
     (if s = ''Append'' then Some Append else if s = ''Before'' then Some Before
      else if s = ''After'' then Some After else None)"
| "parse_placement _ = None"

definition read_reference_add :: "metadata \<Rightarrow> reference_request option" where
  "read_reference_add m = (let fs = mtd_mutation m in do {
     check_that (mtd_expected m = [] \<and> length fs = 5);
     part \<leftarrow> valid_text False (field ''partNumber'' fs);
     catalog \<leftarrow> valid_text False (field ''catalog'' fs);
     section \<leftarrow> valid_text False (field ''section'' fs);
     placement \<leftarrow> parse_placement (field ''placement'' fs);
     anchor \<leftarrow> valid_text True (field ''anchorPartNumber'' fs);
     check_that ((placement \<noteq> Append \<longrightarrow> anchor \<noteq> []) \<and> (placement = Append \<longrightarrow> anchor = []));
     Some ((new_reference_request (mtd_workspace m) (mtd_id m))\<lparr>rfq_part := part, rfq_catalog := catalog,
       rfq_section := section, rfq_placement := placement, rfq_anchor := anchor\<rparr>)
   })"

definition read_reference_expected :: "(string \<Rightarrow> bool) \<Rightarrow> (string \<times> json) list \<Rightarrow> reference_expected option" where
  "read_reference_expected utc fs = do {
     check_that (length fs = 6);
     modified \<leftarrow> valid_text False (field ''modifiedUtc'' fs);
     part \<leftarrow> valid_text False (field ''partNumber'' fs);
     catalog \<leftarrow> valid_text False (field ''catalog'' fs);
     section \<leftarrow> valid_text False (field ''section'' fs);
     placement \<leftarrow> parse_placement (field ''placement'' fs);
     anchor \<leftarrow> valid_text True (field ''anchorPartNumber'' fs);
     check_that (utc modified);
     Some \<lparr>rfx_modified = modified, rfx_part = part, rfx_catalog = catalog, rfx_section = section,
       rfx_placement = placement, rfx_anchor = anchor\<rparr>
   }"

definition read_reference_remove :: "(string \<Rightarrow> bool) \<Rightarrow> metadata \<Rightarrow> reference_request option" where
  "read_reference_remove utc m = do {
     check_that (length (mtd_mutation m) = 1);
     i \<leftarrow> json_id False (field ''customizationId'' (mtd_mutation m));
     expected \<leftarrow> read_reference_expected utc (mtd_expected m);
     Some ((new_reference_request (mtd_workspace m) (mtd_id m))\<lparr>rfq_customization := i, rfq_expected := expected\<rparr>)
   }"

definition reference_from_metadata :: "(string \<Rightarrow> bool) \<Rightarrow> string \<Rightarrow> metadata \<Rightarrow> reference_request option" where
  "reference_from_metadata utc operation m =
     (if operation = ''partReference.customizations.add'' then read_reference_add m
      else if operation = ''partReference.customizations.remove'' then read_reference_remove utc m
      else None)"

section \<open>The operations\<close>

text \<open>The authoritative answer: the stored entry and the number of its part.\<close>

type_synonym reference_answer = "reference_row \<times> string"

definition reference_success :: "reference_row \<Rightarrow> part_row \<Rightarrow> reference_answer host_result" where
  "reference_success stored part = Inr ((stored, part_number part), PartReferenceWork,
     no_scope\<lparr>sco_part := part_number part\<rparr>)"

definition reference_add :: "manifest \<Rightarrow> reference_request \<Rightarrow> (session, reference_answer host_result) state" where
  "reference_add m q = do {
     overlay \<leftarrow> all_references;
     if overlay = None then ret (Inl ''INTERNAL_ERROR'')
     else do {
       part \<leftarrow> part_with_number (rfq_part q);
       case part of None \<Rightarrow> ret (Inl ''NOT_FOUND'')
       | Some p \<Rightarrow>
           if \<not> part_active p then ret (Inl ''NOT_FOUND'')
           else do {
             added \<leftarrow> add_reference m (part_id p) (rfq_catalog q) (rfq_section q) (rfq_placement q) (rfq_anchor q);
             case added of
               Inl e \<Rightarrow> ret (Inl (if e = AlreadyInReference then ''CONFLICT'' else ''INVALID_ARGUMENT''))
             | Inr i \<Rightarrow> do {
                 stored \<leftarrow> reference_by_id i;
                 case stored of Some (Some r) \<Rightarrow> ret (reference_success r p)
                 | _ \<Rightarrow> ret (Inl ''INTERNAL_ERROR'')
               }
           }
     }
   }"

definition reference_matches :: "(int \<Rightarrow> string) \<Rightarrow> reference_expected \<Rightarrow> reference_row \<Rightarrow> part_row \<Rightarrow> bool" where
  "reference_matches stamp e r p \<longleftrightarrow> stamp (rfe_modified r) = rfx_modified e
     \<and> reference_key (part_number p) = reference_key (rfx_part e)
     \<and> reference_key (rfe_catalog r) = reference_key (rfx_catalog e)
     \<and> reference_key (rfe_section r) = reference_key (rfx_section e)
     \<and> placement_from_name (rfe_placement r) = rfx_placement e
     \<and> reference_key (rfe_anchor r) = reference_key (rfx_anchor e)"

definition reference_delete :: "(int \<Rightarrow> string) \<Rightarrow> reference_request \<Rightarrow> (session, reference_answer host_result) state" where
  "reference_delete stamp q = do {
     found \<leftarrow> reference_by_id (int32 (rfq_customization q));
     case found of None \<Rightarrow> ret (Inl ''INTERNAL_ERROR'')
     | Some None \<Rightarrow> ret (Inl ''NOT_FOUND'')
     | Some (Some r) \<Rightarrow> do {
         part \<leftarrow> part_by_id (rfe_part r);
         case part of None \<Rightarrow> ret (Inl ''INTERNAL_ERROR'')
         | Some p \<Rightarrow>
             if \<not> reference_matches stamp (rfq_expected q) r p then ret (Inl ''STALE_VERSION'')
             else do {
               removed \<leftarrow> remove_reference (rfe_id r);
               if succeeds removed then ret (reference_success r p) else ret (Inl ''INTERNAL_ERROR'')
             }
       }
   }"

definition reference_mutation :: "manifest option \<Rightarrow> (int \<Rightarrow> string) \<Rightarrow> string \<Rightarrow> reference_request
    \<Rightarrow> (session, reference_answer host_result) state" where
  "reference_mutation loaded stamp operation q =
     (case loaded of None \<Rightarrow> ret (Inl ''INTERNAL_ERROR'')
      | Some m \<Rightarrow> if operation = ''partReference.customizations.add'' then reference_add m q
          else reference_delete stamp q)"

end
