(* ===== verification/HostReaders.thy ===== *)
theory HostReaders
  imports HostInventory HostPulling HostPlaces HostCollection HostBuilds HostReferences
begin

text \<open>
  The readers of the mutation requests together: what \<open>HostMutationProtocolService\<close> hands the
  factory of an operation. A request the Host accepted is in range, and the metadata a client
  writes for it is read back as the same request.
\<close>

section \<open>Requests of the clients\<close>

datatype host_request =
    StockRequest string stock_request
  | PullRequest pull_work
  | PlaceRequest string place_request
  | ItemRequest string item_request
  | BuildRequest string build_request
  | ReferenceRequest string reference_request

definition stock_operations :: "string list" where
  "stock_operations = [''inventory.add'', ''inventory.edit'', ''inventory.move'', ''inventory.correct'',
     ''inventory.remove'', ''inventory.markLost'', ''inventory.markFound'']"

definition place_operations :: "string list" where
  "place_operations = [''storage.add'', ''storage.edit'', ''storage.setActive'']"

definition item_operations :: "string list" where
  "item_operations = [''collection.add'', ''collection.edit'', ''collection.setActive'',
     ''collection.partsSource.set'', ''collection.disassemble'']"

text \<open>
  How times are read: a value in milliseconds with the offset from UTC. The requests of Builds and
  Collection items only ask whether the text is one in UTC.
\<close>

type_synonym time_reader = "string \<Rightarrow> (int \<times> int) option"

definition is_utc :: "time_reader \<Rightarrow> string \<Rightarrow> bool" where
  "is_utc time_of s \<longleftrightarrow> (case time_of s of None \<Rightarrow> False | Some (n, offset) \<Rightarrow> offset = 0)"

definition read_request :: "time_reader \<Rightarrow> string \<Rightarrow> metadata \<Rightarrow> host_request option" where
  "read_request time_of operation md =
     (if operation = ''builds.pulling.record'' then map_option PullRequest (pull_from_metadata md)
      else if operation \<in> set stock_operations
      then map_option (StockRequest operation) (stock_from_metadata operation md)
      else if operation \<in> set place_operations
      then map_option (PlaceRequest operation) (place_from_metadata time_of operation md)
      else if operation \<in> set item_operations
      then map_option (ItemRequest operation) (item_from_metadata (is_utc time_of) operation md)
      else if operation \<in> set build_operations
      then map_option (BuildRequest operation) (build_from_metadata (is_utc time_of) operation md)
      else if operation \<in> set reference_operations
      then map_option (ReferenceRequest operation) (reference_from_metadata (is_utc time_of) operation md)
      else None)"

fun request_metadata :: "host_request \<Rightarrow> metadata" where
  "request_metadata (StockRequest operation r) = stock_to_metadata r"
| "request_metadata (PullRequest q) = pull_to_metadata q"
| "request_metadata (PlaceRequest operation q) = place_to_metadata operation q"
| "request_metadata (ItemRequest operation r) = item_to_metadata operation r"
| "request_metadata (BuildRequest operation q) = build_to_metadata operation q"
| "request_metadata (ReferenceRequest operation q) = reference_to_metadata operation q"

section \<open>Values\<close>

named_theorems reader_simps "readers of JSON values"
named_theorems reader_dests "what a reader accepted"

lemma check_that_iff [reader_simps]: "check_that b = Some u \<longleftrightarrow> b"
  by (auto simp: check_that_def)

lemma check_that_bind [reader_simps]: "b \<Longrightarrow> Option.bind (check_that b) f = f ()"
  by (simp add: check_that_def)

lemma json_textD [reader_dests]:
  "json_text blank n v = Some s \<Longrightarrow> length s \<le> n \<and> (blank \<or> trimmed s \<noteq> [])"
  by (erule json_text.elims) (auto split: if_splits)

lemma json_idD [reader_dests]:
  "json_id zero v = Some n \<Longrightarrow> (if zero then 0 else 1) \<le> n \<and> n \<le> maximum_json_integer"
  unfolding json_id_def by (rule json_integerD)

lemma json_id_number [reader_simps]:
  "json_id zero (Some (json_number n)) =
   (if (if zero then 0 else 1) \<le> n \<and> n \<le> maximum_json_integer then Some n else None)"
  by (simp add: json_id_def)

lemma int_or_integer:
  "lo \<le> d \<Longrightarrow> d \<le> hi \<Longrightarrow> lo \<le> int_or d (json_integer lo hi v) \<and> int_or d (json_integer lo hi v) \<le> hi"
  by (cases "json_integer lo hi v") (auto dest: json_integerD)

lemma int_or_again [reader_simps]:
  "lo \<le> d \<Longrightarrow> d \<le> hi \<Longrightarrow>
   json_integer lo hi (Some (JNumber (of_int (int_or d (json_integer lo hi v))))) =
   Some (int_or d (json_integer lo hi v))"
  by (simp add: int_or_integer del: json_integer.simps)

lemma to_int_bounds: "- 2147483648 \<le> to_int (- 1) v \<and> to_int (- 1) v \<le> 2147483647"
  by (cases "(- 1 :: int, v)" rule: to_int.cases) (auto simp: floor_le_iff le_floor_iff)

lemma to_int_of_int: "to_int d (Some (JNumber (of_int n))) = (if - 2147483648 \<le> n \<and> n \<le> 2147483647 then n else d)"
  using of_int_le_iff [where 'a = rat, of "- 2147483648" n] of_int_le_iff [where 'a = rat, of n 2147483647]
  by simp

lemma to_int_again [reader_simps]: "to_int (- 1) (Some (JNumber (of_int (to_int (- 1) v)))) = to_int (- 1) v"
  unfolding to_int_of_int using to_int_bounds [of v] by simp

lemma read_pieces_Some [reader_dests]:
  "read_pieces zero v = Some n \<Longrightarrow> (if zero then 0 else 1) \<le> n \<and> n \<le> maximum_pieces"
  by (auto simp: read_pieces_def check_that_iff Option.bind_eq_Some_conv dest: json_idD)

lemma read_pieces_number [reader_simps]:
  "read_pieces zero (Some (json_number n)) =
   (if (if zero then 0 else 1) \<le> n \<and> n \<le> maximum_pieces then Some n else None)"
  by (auto simp: read_pieces_def json_id_number check_that_def maximum_pieces_def maximum_json_integer_def)

lemmas accepted_simps = Option.bind_eq_Some_conv check_that_iff

section \<open>Pulls and storage locations\<close>

lemma pull_row_again: "read_pull_row fs = Some r \<Longrightarrow>
    read_pull_row [(''allocationId'', JNumber (of_int (plr_allocation r))),
     (''quantity'', JNumber (of_int (plr_quantity r))),
     (''expectedAllocatedQuantity'', JNumber (of_int (plr_allocated r))),
     (''expectedInventoryQuantity'', JNumber (of_int (plr_inventory r))),
     (''expectedRequirementPulledQuantity'', JNumber (of_int (plr_pulled r)))] = Some r"
  by (auto simp: read_pull_row_def exact_positive_def simp del: json_integer.simps split: option.splits
      dest!: json_integerD)

lemma pull_rows_again:
  "read_pull_rows vs seen = Some rows \<Longrightarrow> read_pull_rows (map pull_row_json rows) seen = Some rows"
  by (induction vs seen arbitrary: rows rule: read_pull_rows.induct)
    (auto simp: pull_row_json_def pull_row_again split: option.splits if_splits)

lemma pull_rows_length: "read_pull_rows vs seen = Some rows \<Longrightarrow> length rows = length vs"
  by (induction vs seen arbitrary: rows rule: read_pull_rows.induct) (auto split: option.splits if_splits)

lemma pull_again:
  assumes "pull_from_metadata md = Some q"
  shows "pull_from_metadata (pull_to_metadata q) = Some q"
proof -
  obtain b vs rows where read: "exact_positive (field ''buildId'' (mtd_mutation md)) = Some b"
    "pull_row_values (field ''rows'' (mtd_mutation md)) = Some vs" "read_pull_rows vs [] = Some rows"
    and q: "q = \<lparr>plw_workspace = mtd_workspace md, plw_id = mtd_id md, plw_build = b,
            plw_status = to_text (field ''buildStatus'' (mtd_expected md)), plw_rows = rows\<rparr>"
    using assms by (auto simp: pull_from_metadata_def split: option.splits)
  from read(1) have "exact_positive (Some (JNumber (of_int b))) = Some b"
    by (auto simp: exact_positive_def simp del: json_integer.simps dest: json_integerD)
  moreover have "vs \<noteq> []" "length vs \<le> maximum_rows"
    using read(2) by (auto elim!: pull_row_values.elims split: if_splits)
  then have "pull_row_values (Some (JArray (map pull_row_json rows))) = Some (map pull_row_json rows)"
    using pull_rows_length [OF read(3)] by auto
  ultimately show ?thesis
    using pull_rows_again [OF read(3)] q by (simp add: pull_from_metadata_def pull_to_metadata_def)
qed

lemma place_expected_again:
  assumes "read_place_expected time_of fs = Some e"
  shows "read_place_expected time_of (place_expected_fields e) = Some e"
  using assms
  by (auto simp: read_place_expected_def place_expected_fields_def accepted_simps dest!: json_integerD)

lemma place_shape_operation: "place_shape_ok operation md \<Longrightarrow> operation \<in> set place_operations"
  unfolding place_shape_ok_def place_operations_def by (simp split: if_split_asm)

lemma place_read_shape: "place_from_metadata time_of operation md = Some q \<Longrightarrow> place_shape_ok operation md"
  by (simp add: place_from_metadata_def split: if_split_asm)

lemma place_shape_written:
  "operation \<in> set place_operations \<Longrightarrow> place_shape_ok operation (place_to_metadata operation q)"
  by (auto simp: place_operations_def place_shape_ok_def place_to_metadata_def exact_keys_def place_add_keys_def
      place_expected_fields_def place_expected_keys_def)

lemma place_again:
  assumes "place_from_metadata time_of operation md = Some q"
  shows "place_from_metadata time_of operation (place_to_metadata operation q) = Some q"
proof -
  note shape = place_read_shape [OF assms]
  note operation = place_shape_operation [OF shape]
  have written: "\<not> \<not> place_shape_ok operation (place_to_metadata operation q)"
    using place_shape_written [OF operation] by simp
  have "\<not> \<not> place_shape_ok operation md" using shape by simp
  note read = assms [unfolded place_from_metadata_def if_not_P [OF this]]
  consider "operation = ''storage.add''" | "operation = ''storage.edit''" | "operation = ''storage.setActive''"
    using operation by (auto simp: place_operations_def)
  then show ?thesis
  proof cases
    case 1
    with read show ?thesis
      unfolding place_from_metadata_def if_not_P [OF written]
      by (auto simp: read_place_target_def read_place_fields_def accepted_simps
          place_to_metadata_def new_place_request_def Let_def dest!: json_integerD)
  next
    case 2
    with read show ?thesis
      unfolding place_from_metadata_def if_not_P [OF written]
      by (auto simp: read_place_target_def read_place_fields_def accepted_simps
          place_to_metadata_def new_place_request_def Let_def place_expected_again dest!: json_integerD)
  next
    case 3
    with read show ?thesis
      unfolding place_from_metadata_def if_not_P [OF written]
      by (auto simp: read_place_target_def accepted_simps
          place_to_metadata_def new_place_request_def Let_def place_expected_again dest!: json_integerD)
  qed
qed

lemma place_kept:
  assumes "place_from_metadata time_of operation md = Some q"
  shows "plq_workspace q = mtd_workspace md" "plq_id q = mtd_id md"
  using assms unfolding place_from_metadata_def Let_def
  by (auto simp: read_place_fields_def new_place_request_def accepted_simps Let_def split: if_split_asm)

section \<open>Stock and Collection items\<close>

lemma bounds_positive [reader_simps]: "0 \<le> int_max" "0 \<le> maximum_quantity" "- 1 \<le> maximum_quantity"
  by (simp_all add: int_max_def maximum_quantity_def)

lemma stock_request_again: "stock_request_of (stock_to_metadata (stock_request_of md)) = stock_request_of md"
  by (simp add: stock_request_of_def stock_expected_of_def stock_to_metadata_def reader_simps Let_def
      del: json_integer.simps to_int.simps json_integer_of_int)

lemma stock_again:
  assumes "stock_from_metadata operation md = Some r"
  shows "stock_from_metadata operation (stock_to_metadata r) = Some r"
  using assms stock_request_again [of md] by (simp add: stock_from_metadata_def Let_def split: if_split_asm)

lemma item_expected_again:
  assumes "read_item_expected is_time fs = Some e"
  shows "read_item_expected is_time (item_expected_fields e) = Some e"
  using assms
  by (clarsimp simp: read_item_expected_def item_expected_fields_def accepted_simps)
    ((drule reader_dests)+, simp add: reader_simps)

lemma item_fields_again:
  assumes "read_item_fields m r = Some q"
  shows "field ''state'' m' = Some (JString (irq_state q)) \<Longrightarrow>
     field ''condition'' m' = Some (JString (irq_condition q)) \<Longrightarrow>
     field ''completeness'' m' = Some (JString (irq_completeness q)) \<Longrightarrow>
     field ''storageId'' m' = Some (json_number (irq_storage q)) \<Longrightarrow>
     field ''nickname'' m' = Some (JString (irq_nickname q)) \<Longrightarrow>
     field ''notes'' m' = Some (JString (irq_notes q)) \<Longrightarrow> read_item_fields m' r = Some q"
  using assms
  by (clarsimp simp: read_item_fields_def accepted_simps) ((drule reader_dests)+, simp add: reader_simps)

lemma item_fields_kept:
  assumes "read_item_fields m r = Some q"
  shows "irq_workspace q = irq_workspace r" "irq_id q = irq_id r" "irq_source q = irq_source r" "irq_set q = irq_set r"
  "irq_minifig q = irq_minifig r" "irq_build q = irq_build r" "irq_item q = irq_item r"
  "irq_expected q = irq_expected r"
  using assms by (auto simp: read_item_fields_def accepted_simps)

lemma row_returns_again:
  "read_row_returns vs seen = Some rs \<Longrightarrow> read_row_returns (map row_return_json rs) seen = Some rs \<and> length rs = length vs"
proof (induction vs arbitrary: rs seen)
  case (Cons v vs)
  then obtain r rs' where r: "read_row_return v = Some r" "rrt_row r \<notin> set seen"
    "read_row_returns vs (rrt_row r # seen) = Some rs'" "rs = r # rs'"
    by (auto simp: accepted_simps)
  have "read_row_return (row_return_json r) = Some r"
    using r(1)
    by (clarsimp simp: read_row_return_def row_return_json_def accepted_simps)
      ((drule reader_dests)+, simp add: reader_simps)
  with Cons.IH [OF r(3)] r show ?case by (simp add: reader_simps)
qed simp

lemma item_add_again:
  assumes "read_item_add md (new_item_request ws i) = Some r"
  shows "read_item_add (item_to_metadata ''collection.add'' r) (new_item_request ws i) = Some r"
    "irq_workspace r = ws" "irq_id r = i"
proof -
  obtain source number minifig build where base: "length source \<le> 4000" "trimmed source \<noteq> []"
    "length number \<le> 200" "length minifig \<le> 200" "0 \<le> build" "build \<le> maximum_json_integer"
    and read: "read_item_fields (mtd_mutation md) ((new_item_request ws i)\<lparr>irq_source := source, irq_set := number,
      irq_minifig := minifig, irq_build := build\<rparr>) = Some r"
    using assms by (clarsimp simp: read_item_add_def accepted_simps Let_def) ((drule reader_dests)+, auto)
  note kept = item_fields_kept [OF read]
  show "irq_workspace r = ws" "irq_id r = i" using kept by (simp_all add: new_item_request_def)
  show "read_item_add (item_to_metadata ''collection.add'' r) (new_item_request ws i) = Some r"
    using base kept
    by (simp add: read_item_add_def item_to_metadata_def item_mutation_fields_def item_field_list_def reader_simps
        Let_def)
      (rule item_fields_again [OF read]; simp)
qed

lemma parts_source_again:
  assumes "read_parts_source is_time md (new_item_request ws i) = Some r"
  shows "read_parts_source is_time (item_to_metadata ''collection.partsSource.set'' r) (new_item_request ws i) = Some r"
    "irq_workspace r = ws" "irq_id r = i"
proof -
  show "irq_workspace r = ws" "irq_id r = i"
    using assms by (auto simp: read_parts_source_def accepted_simps Let_def new_item_request_def)
  show "read_parts_source is_time (item_to_metadata ''collection.partsSource.set'' r) (new_item_request ws i) = Some r"
    using assms
    by (clarsimp simp: read_parts_source_def accepted_simps Let_def)
      ((drule reader_dests)+, simp add: reader_simps item_to_metadata_def item_mutation_fields_def)
qed

lemma item_returns_again:
  assumes "read_item_returns m r = Some q"
  shows "read_item_returns [(''collectionItemId'', v), (''planId'', JString (irq_plan q)),
      (''returns'', JArray (map row_return_json (irq_returns q)))] r = Some q"
    "irq_workspace q = irq_workspace r" "irq_id q = irq_id r" "irq_item q = irq_item r"
    "irq_expected q = irq_expected r"
proof -
  show "irq_workspace q = irq_workspace r" "irq_id q = irq_id r" "irq_item q = irq_item r"
    "irq_expected q = irq_expected r"
    using assms by (auto simp: read_item_returns_def accepted_simps)
  obtain plan vs rows where read: "json_text False 128 (field ''planId'' m) = Some plan"
    "vs \<noteq> []" "length vs \<le> 500" "read_row_returns vs [] = Some rows"
    "q = r\<lparr>irq_plan := plan, irq_returns := rows\<rparr>"
    using assms by (auto simp: read_item_returns_def accepted_simps)
  then have "rows \<noteq> []" using row_returns_again [OF read(4)] by auto
  with read row_returns_again [OF read(4)] json_textD [OF read(1)]
  show "read_item_returns [(''collectionItemId'', v), (''planId'', JString (irq_plan q)),
      (''returns'', JArray (map row_return_json (irq_returns q)))] r = Some q"
    by (auto simp: read_item_returns_def reader_simps)
qed

lemma item_again:
  assumes "item_from_metadata is_time operation md = Some r"
  shows "item_from_metadata is_time operation (item_to_metadata operation r) = Some r
    \<and> irq_workspace r = mtd_workspace md \<and> irq_id r = mtd_id md"
proof -
  let ?r = "new_item_request (mtd_workspace md) (mtd_id md)"
  have operation: "operation \<in> {''collection.add'', ''collection.edit'', ''collection.setActive'',
        ''collection.partsSource.set'', ''collection.disassemble''}"
    using assms by (simp add: item_from_metadata_def Let_def split: if_split_asm)
  consider "operation = ''collection.add''" | "operation = ''collection.partsSource.set''"
    | "operation = ''collection.edit''" | "operation = ''collection.disassemble''"
    | "operation = ''collection.setActive''"
    using operation by (simp only: insert_iff empty_iff) blast
  then show ?thesis
  proof cases
    case 1
    with assms have "read_item_add md ?r = Some r" by (simp add: item_from_metadata_def Let_def)
    from item_add_again [OF this] 1 show ?thesis
      by (simp add: item_from_metadata_def Let_def item_to_metadata_def)
  next
    case 2
    with assms have "read_parts_source is_time md ?r = Some r" by (simp add: item_from_metadata_def Let_def)
    from parts_source_again [OF this] 2 show ?thesis
      by (simp add: item_from_metadata_def Let_def item_to_metadata_def)
  next
    case 3
    with assms obtain e i where read: "read_item_expected is_time (mtd_expected md) = Some e"
      "json_id False (field ''collectionItemId'' (mtd_mutation md)) = Some i"
      "read_item_fields (mtd_mutation md) (?r\<lparr>irq_item := i, irq_expected := e\<rparr>) = Some r"
      by (auto simp: item_from_metadata_def Let_def accepted_simps)
    note kept = item_fields_kept [OF read(3)]
    have "read_item_fields ((''collectionItemId'', json_number (irq_item r)) # item_field_list r)
        (?r\<lparr>irq_item := i, irq_expected := e\<rparr>) = Some r"
      by (rule item_fields_again [OF read(3)]) (simp_all add: item_field_list_def)
    with 3 kept read(1,2) json_idD [OF read(2)] show ?thesis
      by (simp add: item_from_metadata_def Let_def item_to_metadata_def item_mutation_fields_def reader_simps
          item_expected_again [OF read(1)] new_item_request_def)
        (simp add: item_field_list_def reader_simps)
  next
    case 4
    with assms obtain e i where read: "read_item_expected is_time (mtd_expected md) = Some e"
      "json_id False (field ''collectionItemId'' (mtd_mutation md)) = Some i"
      "read_item_returns (mtd_mutation md) (?r\<lparr>irq_item := i, irq_expected := e\<rparr>) = Some r"
      by (auto simp: item_from_metadata_def Let_def accepted_simps)
    with 4 json_idD [OF read(2)] item_returns_again [OF read(3)] show ?thesis
      by (simp add: item_from_metadata_def Let_def item_to_metadata_def item_mutation_fields_def reader_simps
          item_expected_again [OF read(1)] new_item_request_def)
  next
    case 5
    with assms obtain e i b where read: "read_item_expected is_time (mtd_expected md) = Some e"
      "json_id False (field ''collectionItemId'' (mtd_mutation md)) = Some i"
      "json_flag (field ''desiredActive'' (mtd_mutation md)) = Some b"
      "r = ?r\<lparr>irq_item := i, irq_expected := e, irq_active := b\<rparr>"
      by (auto simp: item_from_metadata_def Let_def accepted_simps)
    with 5 json_idD [OF read(2)] show ?thesis
      by (simp add: item_from_metadata_def Let_def item_to_metadata_def item_mutation_fields_def reader_simps
          item_expected_again [OF read(1)] new_item_request_def)
  qed
qed

section \<open>Builds\<close>

lemma build_expected_again:
  assumes "read_build_expected is_time fs = Some e"
  shows "read_build_expected is_time (build_expected_fields e) = Some e"
  using assms
  by (clarsimp simp: read_build_expected_def build_expected_fields_def accepted_simps)
    ((drule reader_dests)+, simp add: reader_simps)

lemma requirement_expected_again:
  assumes "read_requirement_expected is_time fs = Some e"
  shows "read_requirement_expected is_time (requirement_expected_fields e) = Some e"
  using assms
  by (clarsimp simp: read_requirement_expected_def requirement_expected_fields_def accepted_simps)
    ((drule reader_dests json_integerD)+, simp add: reader_simps)

lemma allocation_choices_again:
  "read_allocation_choices vs seen = Some as \<Longrightarrow>
   read_allocation_choices (map allocation_choice_json as) seen = Some as \<and> length as = length vs"
proof (induction vs arbitrary: as seen)
  case (Cons v vs)
  then obtain a as' where a: "read_allocation_choice v = Some a" "alc_inventory a \<notin> set seen"
    "read_allocation_choices vs (alc_inventory a # seen) = Some as'" "as = a # as'"
    by (auto simp: accepted_simps)
  have "read_allocation_choice (allocation_choice_json a) = Some a"
    using a(1)
    by (clarsimp simp: read_allocation_choice_def allocation_choice_json_def accepted_simps)
      ((drule reader_dests)+, simp add: reader_simps)
  with Cons.IH [OF a(3)] a show ?case by (simp add: reader_simps)
qed simp

lemma return_choices_again:
  "read_return_choices vs seen = Some rs \<Longrightarrow>
   read_return_choices (map return_choice_json rs) seen = Some rs \<and> length rs = length vs"
proof (induction vs arbitrary: rs seen)
  case (Cons v vs)
  then obtain r rs' where r: "read_return_choice v = Some r" "choice_key r \<notin> set seen"
    "read_return_choices vs (choice_key r # seen) = Some rs'" "rs = r # rs'"
    by (auto simp: accepted_simps)
  have "read_return_choice (return_choice_json r) = Some r"
    using r(1)
    by (clarsimp simp: read_return_choice_def return_choice_json_def accepted_simps)
      ((drule reader_dests)+, simp add: reader_simps)
  with Cons.IH [OF r(3)] r show ?case by (simp add: reader_simps)
qed simp

lemma substitutes_read:
  assumes "read_substitutes m r = Some q"
  obtains part color n spare where "length part \<le> 100" "- 1 \<le> color" "color \<le> int_max" "1 \<le> n"
    "n \<le> maximum_pieces"
    "q = r\<lparr>brq_sub_part := part, brq_sub_color := color, brq_required := n, brq_spare := spare\<rparr>"
proof -
  obtain part color n spare where read: "json_text True 100 (field ''substitutePartNumber'' m) = Some part"
    "json_integer (- 1) int_max (field ''substituteRebrickableColorId'' m) = Some color"
    "read_pieces False (field ''quantityRequired'' m) = Some n"
    "q = r\<lparr>brq_sub_part := part, brq_sub_color := color, brq_required := n, brq_spare := spare\<rparr>"
    using assms by (auto simp: read_substitutes_def accepted_simps)
  show ?thesis
    by (rule that [OF _ _ _ _ _ read(4)])
      (use json_textD [OF read(1)] json_integerD [OF read(2)] read_pieces_Some [OF read(3)] in simp_all)
qed

lemma substitutes_again:
  assumes "read_substitutes m r = Some q"
    "field ''substitutePartNumber'' m' = Some (JString (brq_sub_part q))"
    "field ''substituteRebrickableColorId'' m' = Some (json_number (brq_sub_color q))"
    "field ''quantityRequired'' m' = Some (json_number (brq_required q))"
    "field ''spare'' m' = Some (JBool (brq_spare q))"
  shows "read_substitutes m' r = Some q"
  by (rule substitutes_read [OF assms(1)])
    (simp add: read_substitutes_def assms(2-) reader_simps)

lemma requirement_add_again:
  assumes "read_requirement_add md (new_build_request ws i) = Some q"
  shows "read_requirement_add (build_to_metadata ''builds.requirements.add'' q) (new_build_request ws i) = Some q"
    "brq_workspace q = ws" "brq_id q = i" "brq_required q \<le> maximum_pieces"
proof -
  let ?m = "mtd_mutation md"
  obtain build part color where read: "json_id False (field ''buildId'' ?m) = Some build"
    "json_text False 100 (field ''partNumber'' ?m) = Some part"
    "json_integer 0 int_max (field ''rebrickableColorId'' ?m) = Some color"
    and rest: "read_substitutes ?m ((new_build_request ws i)\<lparr>brq_build := build, brq_part := part, brq_color := color\<rparr>)
      = Some q"
    using assms by (auto simp: read_requirement_add_def accepted_simps Let_def)
  have kept: "brq_workspace q = ws" "brq_id q = i" "brq_build q = build" "brq_part q = part" "brq_color q = color"
    "brq_required q \<le> maximum_pieces"
    by (rule substitutes_read [OF rest]; simp add: new_build_request_def)+
  show "brq_workspace q = ws" "brq_id q = i" "brq_required q \<le> maximum_pieces" by (fact kept)+
  have "read_substitutes (build_mutation_fields ''builds.requirements.add'' q)
      ((new_build_request ws i)\<lparr>brq_build := build, brq_part := part, brq_color := color\<rparr>) = Some q"
    by (rule substitutes_again [OF rest]) (simp_all add: build_mutation_fields_def substitute_fields_def)
  then show "read_requirement_add (build_to_metadata ''builds.requirements.add'' q) (new_build_request ws i) = Some q"
    using json_idD [OF read(1)] json_textD [OF read(2)] json_integerD [OF read(3)] kept
    by (simp add: read_requirement_add_def build_to_metadata_def build_mutation_fields_def substitute_fields_def
        reader_simps)
qed

lemma requirement_change_again:
  assumes "read_requirement_change is_time operation md (new_build_request ws i) = Some q"
    "operation \<in> {''builds.requirements.edit'', ''builds.requirements.remove'', ''builds.allocations.set''}"
  shows "read_requirement_change is_time operation (build_to_metadata operation q) (new_build_request ws i) = Some q
    \<and> brq_workspace q = ws \<and> brq_id q = i \<and> brq_required q \<le> maximum_pieces"
proof -
  let ?m = "mtd_mutation md"
  define start where "start k e = (new_build_request ws i)\<lparr>brq_requirement := k, brq_expected_requirement := e\<rparr>"
    for k e
  have zero: "0 \<le> maximum_pieces" by (simp add: maximum_pieces_def)
  obtain e k where read: "read_requirement_expected is_time (mtd_expected md) = Some e"
    "json_id False (field ''requirementId'' ?m) = Some k" "k = rxp_requirement e"
    using assms(1) by (auto simp: read_requirement_change_def accepted_simps Let_def)
  note written = requirement_expected_again [OF read(1)] json_idD [OF read(2)]
  consider "operation = ''builds.requirements.edit''" | "operation = ''builds.requirements.remove''"
    | "operation = ''builds.allocations.set''"
    using assms(2) by (simp only: insert_iff empty_iff) blast
  then show ?thesis
  proof cases
    case 1
    with assms(1) read have rest: "read_substitutes ?m (start k e) = Some q"
      by (auto simp: read_requirement_change_def accepted_simps Let_def start_def)
    have kept: "brq_workspace q = ws" "brq_id q = i" "brq_requirement q = k" "brq_expected_requirement q = e"
      "brq_required q \<le> maximum_pieces"
      by (rule substitutes_read [OF rest]; simp add: new_build_request_def start_def)+
    have "read_substitutes (build_mutation_fields operation q) (start k e) = Some q"
      by (rule substitutes_again [OF rest]) (simp_all add: build_mutation_fields_def substitute_fields_def 1)
    then show ?thesis
      using 1 kept written read(3)
      by (simp add: read_requirement_change_def build_to_metadata_def build_mutation_fields_def
          substitute_fields_def reader_simps expects_requirement_def start_def)
  next
    case 2
    with assms(1) read have q: "q = start k e"
      by (auto simp: read_requirement_change_def accepted_simps Let_def start_def)
    from 2 written read(3) zero show ?thesis unfolding q start_def
      by (simp add: read_requirement_change_def build_to_metadata_def build_mutation_fields_def
          reader_simps expects_requirement_def new_build_request_def)
  next
    case 3
    with assms(1) read obtain vs as where rest: "length vs \<le> 500" "read_allocation_choices vs [] = Some as"
      and q: "q = (start k e)\<lparr>brq_allocations := as\<rparr>"
      by (auto simp: read_requirement_change_def accepted_simps Let_def start_def)
    from 3 written read(3) zero rest(1) allocation_choices_again [OF rest(2)] show ?thesis unfolding q start_def
      by (simp add: read_requirement_change_def build_to_metadata_def build_mutation_fields_def
          reader_simps expects_requirement_def new_build_request_def)
  qed
qed

lemma spare_store_again:
  assumes "read_spare_store is_time md (new_build_request ws i) = Some q"
  shows "read_spare_store is_time (build_to_metadata ''builds.spare.store'' q) (new_build_request ws i) = Some q
    \<and> brq_workspace q = ws \<and> brq_id q = i \<and> brq_required q \<le> maximum_pieces"
proof -
  let ?m = "mtd_mutation md"
  obtain e build k place n where read: "read_requirement_expected is_time (mtd_expected md) = Some e"
    "json_id False (field ''buildId'' ?m) = Some build" "json_id False (field ''requirementId'' ?m) = Some k"
    "json_id False (field ''storageId'' ?m) = Some place" "read_pieces False (field ''quantity'' ?m) = Some n"
    and same: "k = rxp_requirement e" "build = rxp_build e"
    and q: "q = (new_build_request ws i)\<lparr>brq_build := build, brq_requirement := k, brq_expected_requirement := e,
      brq_storage := place, brq_quantity := n\<rparr>"
    using assms by (auto simp: read_spare_store_def accepted_simps Let_def)
  from json_idD [OF read(2)] json_idD [OF read(3)] json_idD [OF read(4)] read_pieces_Some [OF read(5)] same
  show ?thesis unfolding q
    by (simp add: read_spare_store_def build_to_metadata_def build_mutation_fields_def reader_simps
        requirement_expected_again [OF read(1)] expects_requirement_def new_build_request_def maximum_pieces_def)
qed

lemma build_add_again:
  assumes "read_build_add md (new_build_request ws i) = Some q"
  shows "read_build_add (build_to_metadata ''builds.add'' q) (new_build_request ws i) = Some q
    \<and> brq_workspace q = ws \<and> brq_id q = i \<and> brq_required q \<le> maximum_pieces"
proof -
  let ?m = "mtd_mutation md"
  obtain type reference mode manufacturer status name remarks where
    read: "json_text False 4000 (field ''buildType'' ?m) = Some type"
    "json_text True 200 (field ''reference'' ?m) = Some reference"
    "json_text False 4000 (field ''inventoryMode'' ?m) = Some mode"
    "json_text True 200 (field ''manufacturer'' ?m) = Some manufacturer"
    "json_text False 4000 (field ''initialStatus'' ?m) = Some status"
    "json_text False 500 (field ''name'' ?m) = Some name"
    "json_text True 4000 (field ''notes'' ?m) = Some remarks"
    and q: "q = (new_build_request ws i)\<lparr>brq_type := type, brq_reference := reference, brq_mode := mode,
      brq_manufacturer := manufacturer, brq_status := status, brq_name := name, brq_notes := remarks\<rparr>"
    using assms by (auto simp: read_build_add_def accepted_simps Let_def)
  from read [THEN json_textD] show ?thesis unfolding q
    by (simp add: read_build_add_def build_to_metadata_def build_mutation_fields_def reader_simps
        new_build_request_def maximum_pieces_def)
qed

lemma build_end_again:
  assumes "read_build_end operation md r = Some q" "length fs = 3"
    "field ''linkedCollectionState'' fs = Some (JString (brq_state q))"
    "field ''returns'' fs = Some (JArray (map return_choice_json (brq_returns q)))"
  shows "mtd_mutation md' = fs \<Longrightarrow> read_build_end operation md' r = Some q"
    "q = r\<lparr>brq_state := brq_state q, brq_returns := brq_returns q\<rparr>"
proof -
  let ?m = "mtd_mutation md" and ?ends = "operation = ''builds.disassemble''"
  obtain st vs rows where read: "json_text False 4000 (field ''linkedCollectionState'' ?m) = Some st"
    "\<not> (vs = [] \<and> ?ends)" "length vs \<le> (if ?ends then 500 else 10000)" "read_return_choices vs [] = Some rows"
    and q: "q = r\<lparr>brq_state := st, brq_returns := rows\<rparr>"
    using assms(1) unfolding read_build_end_def Let_def accepted_simps by blast
  from return_choices_again [OF read(4)] read(2,3)
  have "\<not> (map return_choice_json rows = [] \<and> ?ends)" "length rows \<le> (if ?ends then 500 else 10000)" by auto
  with return_choices_again [OF read(4)] json_textD [OF read(1)] assms(2-)
  show "mtd_mutation md' = fs \<Longrightarrow> read_build_end operation md' r = Some q"
    unfolding q read_build_end_def Let_def by (simp add: reader_simps)
  show "q = r\<lparr>brq_state := brq_state q, brq_returns := brq_returns q\<rparr>" by (simp add: q)
qed

definition plain_change :: "string \<Rightarrow> bool" where
  "plain_change operation \<longleftrightarrow> operation \<in> {''builds.edit'', ''builds.setActive'', ''builds.complete'',
     ''builds.allocateAvailable'', ''builds.cancel'', ''builds.disassemble''}"

lemma build_change_again:
  assumes "read_build_change is_time operation md (new_build_request ws i) = Some q" "plain_change operation"
  shows "read_build_change is_time operation (build_to_metadata operation q) (new_build_request ws i) = Some q
    \<and> brq_workspace q = ws \<and> brq_id q = i \<and> brq_required q \<le> maximum_pieces"
proof -
  let ?m = "mtd_mutation md"
  define start where "start b e = (new_build_request ws i)\<lparr>brq_build := b, brq_expected := e\<rparr>" for b e
  have kept: "brq_workspace (start b e) = ws" "brq_id (start b e) = i" "brq_required (start b e) \<le> maximum_pieces"
    "brq_build (start b e) = b" "brq_expected (start b e) = e" for b e
    by (simp_all add: start_def new_build_request_def maximum_pieces_def)
  have "read_build_expected is_time (mtd_expected md) \<noteq> None"
    using assms(1) unfolding read_build_change_def Let_def
    by (intro notI) (simp only: Option.bind.simps option.distinct)
  then obtain e where e: "read_build_expected is_time (mtd_expected md) = Some e" by blast
  have "json_id False (field ''buildId'' ?m) \<noteq> None"
    using assms(1) e unfolding read_build_change_def Let_def
    by (intro notI) (simp only: Option.bind.simps option.distinct)
  then obtain b where "json_id False (field ''buildId'' ?m) = Some b" by blast
  note read = e this
  note written = build_expected_again [OF read(1)] json_idD [OF read(2)]
  note base = read_build_change_def build_to_metadata_def build_mutation_fields_def reader_simps
    expects_requirement_def
  have "operation = ''builds.edit'' \<or> operation = ''builds.setActive'' \<or> operation = ''builds.complete''
    \<or> operation = ''builds.allocateAvailable'' \<or> operation \<in> {''builds.cancel'', ''builds.disassemble''}"
    using assms(2) by (simp add: plain_change_def)
  then show ?thesis
  proof (elim disjE)
    assume this_case: "operation = ''builds.edit''"
    with assms(1) read obtain name manufacturer remarks where
      rest: "json_text False 500 (field ''name'' ?m) = Some name"
        "json_text True 200 (field ''manufacturer'' ?m) = Some manufacturer"
        "json_text True 4000 (field ''notes'' ?m) = Some remarks"
      and q: "q = (start b e)\<lparr>brq_name := name, brq_manufacturer := manufacturer, brq_notes := remarks\<rparr>"
      by (auto simp: read_build_change_def accepted_simps Let_def start_def)
    from this_case written rest [THEN json_textD] kept show ?thesis unfolding q by (simp add: base) (simp add: start_def)
  next
    assume this_case: "operation = ''builds.setActive''"
    with assms(1) read obtain active where q: "q = (start b e)\<lparr>brq_active := active\<rparr>"
      by (auto simp: read_build_change_def accepted_simps Let_def start_def)
    from this_case written kept show ?thesis unfolding q by (simp add: base) (simp add: start_def)
  next
    assume this_case: "operation = ''builds.complete''"
    with assms(1) read have q: "q = start b e"
      by (auto simp: read_build_change_def accepted_simps Let_def start_def)
    from this_case written kept show ?thesis unfolding q by (simp add: base) (simp add: start_def)
  next
    assume this_case: "operation = ''builds.allocateAvailable''"
    with assms(1) read obtain place where rest: "json_id True (field ''preferredStorageId'' ?m) = Some place"
      and q: "q = (start b e)\<lparr>brq_storage := place\<rparr>"
      by (auto simp: read_build_change_def accepted_simps Let_def start_def)
    from this_case written json_idD [OF rest] kept show ?thesis unfolding q by (simp add: base) (simp add: start_def)
  next
    assume this_case: "operation \<in> {''builds.cancel'', ''builds.disassemble''}"
    with assms(1) read have rest: "read_build_end operation md (start b e) = Some q"
      by (auto simp: read_build_change_def accepted_simps Let_def start_def)
    let ?fs = "build_mutation_fields operation q"
    have fs: "?fs = [(''buildId'', json_number (brq_build q)), (''linkedCollectionState'', JString (brq_state q)),
        (''returns'', JArray (map return_choice_json (brq_returns q)))]"
      using this_case by (auto simp: build_mutation_fields_def)
    have again: "read_build_end operation (build_to_metadata operation q) (start b e) = Some q"
      by (rule build_end_again(1) [OF rest, of ?fs]) (simp_all add: fs build_to_metadata_def)
    have "q = (start b e)\<lparr>brq_state := brq_state q, brq_returns := brq_returns q\<rparr>"
      by (rule build_end_again(2) [OF rest, of ?fs]) (simp_all add: fs)
    then have same: "brq_workspace q = ws" "brq_id q = i" "brq_required q \<le> maximum_pieces" "brq_build q = b"
      "brq_expected q = e"
      using kept [of b e] by (cases q; simp add: start_def new_build_request_def maximum_pieces_def)+
    have "mtd_expected (build_to_metadata operation q) = build_expected_fields e"
      "mtd_mutation (build_to_metadata operation q) = ?fs"
      using this_case same by (auto simp: build_to_metadata_def expects_requirement_def)
    with again this_case written same fs show ?thesis
      by (auto simp: read_build_change_def start_def reader_simps)
  qed
qed

lemma build_again:
  assumes "build_from_metadata is_time operation md = Some q"
  shows "build_from_metadata is_time operation (build_to_metadata operation q) = Some q
    \<and> brq_workspace q = mtd_workspace md \<and> brq_id q = mtd_id md \<and> brq_required q \<le> maximum_pieces"
proof -
  let ?r = "new_build_request (mtd_workspace md) (mtd_id md)" and ?md = "build_to_metadata operation q"
  have from_to: "mtd_workspace ?md = brq_workspace q" "mtd_id ?md = brq_id q"
    by (simp_all add: build_to_metadata_def)
  have known: "operation \<in> set build_operations"
    using assms by (simp add: build_from_metadata_def Let_def split: if_split_asm)
  let ?changes = "{''builds.requirements.edit'', ''builds.requirements.remove'', ''builds.allocations.set''}"
  have "operation = ''builds.requirements.add'' \<or> operation = ''builds.spare.store'' \<or> operation \<in> ?changes
    \<or> operation = ''builds.add'' \<or> plain_change operation"
    using known by (simp add: build_operations_def plain_change_def) (elim disjE; simp)
  then show ?thesis
  proof (elim disjE)
    assume this_case: "operation = ''builds.requirements.add''"
    with assms have "read_requirement_add md ?r = Some q"
      by (simp add: build_from_metadata_def Let_def build_operations_def)
    from requirement_add_again [OF this] this_case from_to show ?thesis
      by (simp add: build_from_metadata_def Let_def build_operations_def)
  next
    assume this_case: "operation = ''builds.spare.store''"
    with assms have "read_spare_store is_time md ?r = Some q"
      by (simp add: build_from_metadata_def Let_def build_operations_def)
    from spare_store_again [OF this] this_case from_to show ?thesis
      by (simp add: build_from_metadata_def Let_def build_operations_def)
  next
    assume this_case: "operation \<in> ?changes"
    then have dispatch: "build_from_metadata is_time operation md' = read_requirement_change is_time operation md'
        (new_build_request (mtd_workspace md') (mtd_id md'))" for md'
      by (elim insertE emptyE) (simp_all add: build_from_metadata_def Let_def build_operations_def expects_requirement_def)
    from requirement_change_again [OF assms [unfolded dispatch] this_case] show ?thesis
      by (simp add: dispatch from_to)
  next
    assume this_case: "operation = ''builds.add''"
    with assms have "read_build_add md ?r = Some q"
      by (simp add: build_from_metadata_def Let_def build_operations_def expects_requirement_def)
    from build_add_again [OF this] this_case from_to show ?thesis
      by (simp add: build_from_metadata_def Let_def build_operations_def expects_requirement_def)
  next
    assume this_case: "plain_change operation"
    then have dispatch: "build_from_metadata is_time operation md' = read_build_change is_time operation md'
        (new_build_request (mtd_workspace md') (mtd_id md'))" for md'
      unfolding plain_change_def
      by (elim insertE emptyE) (simp_all add: build_from_metadata_def Let_def build_operations_def expects_requirement_def)
    from build_change_again [OF assms [unfolded dispatch] this_case] show ?thesis
      by (simp add: dispatch from_to)
  qed
qed

section \<open>All requests\<close>

section \<open>Requests of the Part Reference\<close>

lemma valid_textD: "valid_text blank v = Some s \<Longrightarrow> trimmed s = s \<and> length s \<le> 200 \<and> (blank \<or> s \<noteq> [])"
  by (erule valid_text.elims) (auto split: if_splits)

lemma valid_text_again [reader_simps]:
  "trimmed s = s \<Longrightarrow> length s \<le> 200 \<Longrightarrow> blank \<or> s \<noteq> [] \<Longrightarrow> valid_text blank (Some (JString s)) = Some s"
  by simp

lemma placement_again [reader_simps]: "parse_placement (Some (JString (placement_name pl))) = Some pl"
  by (cases pl) simp_all

lemma reference_add_again:
  assumes "read_reference_add md = Some q"
  shows "read_reference_add (reference_to_metadata ''partReference.customizations.add'' q) = Some q"
    "rfq_workspace q = mtd_workspace md \<and> rfq_id q = mtd_id md"
proof -
  from assms obtain part catalog sect pl anchor where
    t: "valid_text False (field ''partNumber'' (mtd_mutation md)) = Some part"
    "valid_text False (field ''catalog'' (mtd_mutation md)) = Some catalog"
    "valid_text False (field ''section'' (mtd_mutation md)) = Some sect"
    "valid_text True (field ''anchorPartNumber'' (mtd_mutation md)) = Some anchor"
    and pl: "(pl \<noteq> Append \<longrightarrow> anchor \<noteq> []) \<and> (pl = Append \<longrightarrow> anchor = [])"
    and q: "q = (new_reference_request (mtd_workspace md) (mtd_id md))\<lparr>rfq_part := part, rfq_catalog := catalog,
       rfq_section := sect, rfq_placement := pl, rfq_anchor := anchor\<rparr>"
    unfolding read_reference_add_def Let_def accepted_simps by blast
  show "read_reference_add (reference_to_metadata ''partReference.customizations.add'' q) = Some q"
    using pl t [THEN valid_textD] unfolding read_reference_add_def Let_def
    by (simp add: q reference_to_metadata_def new_reference_request_def reader_simps del: parse_placement.simps)
  show "rfq_workspace q = mtd_workspace md \<and> rfq_id q = mtd_id md"
    by (simp add: q new_reference_request_def)
qed

lemma reference_expected_again:
  assumes "read_reference_expected utc fs = Some e"
  shows "read_reference_expected utc (reference_expected_fields e) = Some e"
proof -
  from assms obtain modified part catalog sect pl anchor where
    t: "valid_text False (field ''modifiedUtc'' fs) = Some modified" "valid_text False (field ''partNumber'' fs) = Some part"
    "valid_text False (field ''catalog'' fs) = Some catalog" "valid_text False (field ''section'' fs) = Some sect"
    "valid_text True (field ''anchorPartNumber'' fs) = Some anchor" and utc: "utc modified"
    and e: "e = \<lparr>rfx_modified = modified, rfx_part = part, rfx_catalog = catalog, rfx_section = sect,
       rfx_placement = pl, rfx_anchor = anchor\<rparr>"
    unfolding read_reference_expected_def accepted_simps by blast
  show ?thesis
    using utc t [THEN valid_textD] unfolding read_reference_expected_def
    by (simp add: e reference_expected_fields_def reader_simps del: parse_placement.simps)
qed

lemma reference_remove_again:
  assumes "read_reference_remove utc md = Some q"
  shows "read_reference_remove utc (reference_to_metadata ''partReference.customizations.remove'' q) = Some q"
    "rfq_workspace q = mtd_workspace md \<and> rfq_id q = mtd_id md"
proof -
  from assms obtain i e where i: "json_id False (field ''customizationId'' (mtd_mutation md)) = Some i"
    and e: "read_reference_expected utc (mtd_expected md) = Some e"
    and q: "q = (new_reference_request (mtd_workspace md) (mtd_id md))\<lparr>rfq_customization := i, rfq_expected := e\<rparr>"
    unfolding read_reference_remove_def accepted_simps by blast
  show "read_reference_remove utc (reference_to_metadata ''partReference.customizations.remove'' q) = Some q"
    using json_idD [OF i] reference_expected_again [OF e] unfolding read_reference_remove_def
    by (simp add: q reference_to_metadata_def new_reference_request_def reader_simps)
  show "rfq_workspace q = mtd_workspace md \<and> rfq_id q = mtd_id md"
    by (simp add: q new_reference_request_def)
qed

lemma reference_again:
  assumes "reference_from_metadata utc operation md = Some q"
  shows "reference_from_metadata utc operation (reference_to_metadata operation q) = Some q"
    "rfq_workspace q = mtd_workspace md" "rfq_id q = mtd_id md"
  using assms reference_add_again reference_remove_again unfolding reference_from_metadata_def
  by (simp_all split: if_split_asm)

section \<open>All requests\<close>

text \<open>
  Every request the Host accepts survives the wire: whatever metadata it was read from, the
  metadata a client writes for it is read back as the same request.
\<close>

lemma request_again:
  assumes "read_request time_of operation md = Some request"
  shows "read_request time_of operation (request_metadata request) = Some request"
  using assms unfolding read_request_def
  by (auto simp: pull_again stock_again place_again item_again build_again reference_again split: if_split_asm)

text \<open>What the readers let through is in range.\<close>

lemma stock_accepted:
  assumes "stock_from_metadata operation md = Some r"
  shows "0 < rst_quantity r" "rst_quantity r \<le> maximum_quantity" "names_record operation \<Longrightarrow> 0 < rst_record r"
    "0 \<le> rst_record r" "rst_record r \<le> int_max"
proof -
  have r: "r = stock_request_of md" and "0 < rst_quantity r" "names_record operation \<longrightarrow> 0 < rst_record r"
    using assms by (auto simp: stock_from_metadata_def Let_def split: if_split_asm)
  then show "0 < rst_quantity r" "names_record operation \<Longrightarrow> 0 < rst_record r" by simp_all
  show "rst_quantity r \<le> maximum_quantity" "0 \<le> rst_record r" "rst_record r \<le> int_max"
    using int_or_integer [of 0 0 maximum_quantity] int_or_integer [of 0 0 int_max]
    by (simp_all add: r stock_request_of_def Let_def bounds_positive)
qed

lemma read_request_kind:
  assumes "read_request time_of operation md = Some request"
  shows "case request of
      StockRequest op r \<Rightarrow> op = operation \<and> stock_from_metadata operation md = Some r
    | PullRequest q \<Rightarrow> operation = ''builds.pulling.record'' \<and> pull_from_metadata md = Some q
    | PlaceRequest op q \<Rightarrow> op = operation \<and> place_from_metadata time_of operation md = Some q
    | ItemRequest op r \<Rightarrow> op = operation \<and> item_from_metadata (is_utc time_of) operation md = Some r
    | BuildRequest op q \<Rightarrow> op = operation \<and> build_from_metadata (is_utc time_of) operation md = Some q
    | ReferenceRequest op q \<Rightarrow> op = operation \<and> reference_from_metadata (is_utc time_of) operation md = Some q"
  using assms unfolding read_request_def by (auto split: if_split_asm)

end
