(* ===== verification/HostProtocol.thy ===== *)
theory HostProtocol
  imports HostReaders HostAdmission Sample
begin

text \<open>
  The way of a mutation from a client to the worker of the Host and back: the submission by
  \<open>services/application/RemoteMutationApplicationServices\<close>, the dispatch by
  \<open>network/BrickSuiteOperationDispatcher\<close> with the operations \<open>BrickSuiteNetworkManager\<close> registers,
  and the handler of \<open>HostMutationProtocolService\<close>, which checks the metadata and the data epoch
  and hands the call to the executor (\<open>HostMutations\<close>). A message is its operation, the
  negotiated minor version and the fields of its payload.
\<close>

section \<open>The mutation of a request\<close>

datatype host_answer =
    StockAnswer stock_state
  | PullAnswer pull_state
  | PlaceAnswer "bool \<times> storage_row \<times> string list"
  | ItemAnswer item_answer
  | WorkAnswer build_answer
  | ReferenceAnswer reference_answer
  | NoAnswer

text \<open>
  How the Host writes and reads the time stamps and computes the hash of a plan, and the manifest of
  the Part Reference it has loaded.
\<close>

record host_texts =
  htx_inventory :: "int \<Rightarrow> string"
  htx_time :: "string \<Rightarrow> (int \<times> int) option"
  htx_item :: "int \<Rightarrow> string"
  htx_digest :: "string \<Rightarrow> string"
  htx_builds :: build_texts
  htx_stamp :: "int \<Rightarrow> string"
  htx_manifest :: "manifest option"

definition answered :: "('j \<Rightarrow> host_answer) \<Rightarrow> (session, 'j host_result) state \<Rightarrow> (session, host_answer host_result) state" where
  "answered f m = do { r \<leftarrow> m; ret (map_sum (\<lambda>e. e) (map_prod f (\<lambda>p. p)) r) }"

text \<open>The mutation factory of each of the six protocol services.\<close>

fun host_operation :: "host_texts \<Rightarrow> host_request \<Rightarrow> (session, host_answer host_result) state" where
  "host_operation x (StockRequest operation r) = answered StockAnswer (stock_mutation (htx_inventory x) operation r)"
| "host_operation x (PullRequest q) = answered PullAnswer (pull_mutation q)"
| "host_operation x (PlaceRequest operation q) = answered PlaceAnswer (place_mutation (htx_time x) operation q)"
| "host_operation x (ItemRequest operation r) =
     answered ItemAnswer (item_mutation (htx_item x) (htx_digest x) operation r)"
| "host_operation x (BuildRequest operation q) = answered WorkAnswer (build_mutation (htx_builds x) operation q)"
| "host_operation x (ReferenceRequest operation q) =
     answered ReferenceAnswer (reference_mutation (htx_manifest x) (htx_stamp x) operation q)"

definition host_mutation :: "host_texts \<Rightarrow> host_request \<Rightarrow> bool list \<Rightarrow> int \<Rightarrow> tables
    \<Rightarrow> (host_answer, workflow \<times> mutation_scope) outcome \<times> tables" where
  "host_mutation x request failing now = as_mutation NoAnswer failing now (host_operation x request)"

section \<open>Dispatch\<close>

text \<open>
  The mutations the Host registers, with the minor version they need.
\<close>

definition mutation_minor :: "string \<Rightarrow> nat option" where
  "mutation_minor operation =
     (if operation \<in> {''collection.partsSource.set'', ''collection.disassemble''} then Some 5
      else if operation = ''builds.pulling.record'' \<or> operation \<in> set stock_operations
        \<or> operation \<in> set place_operations \<or> operation \<in> set item_operations
        \<or> operation \<in> set build_operations \<or> operation \<in> set reference_operations then Some 2
      else None)"

record host_message =
  msg_operation :: string
  msg_minor :: nat
  msg_payload :: "(string \<times> json) list"

definition mutation_client_identity :: "request_context \<Rightarrow> string" where
  "mutation_client_identity c = (case authentication_kind c of
     LegacySharedToken \<Rightarrow> ''LegacySharedToken''
   | PairedDevice \<Rightarrow> (let i = map to_lower (trimmed (paired_device_id c)) in
       if i = [] then [] else ''PairedDevice:'' @ i))"

text \<open>The error of a reader that refuses the fields of a mutation.\<close>

definition unreadable_code :: "string \<Rightarrow> string" where
  "unreadable_code operation =
     (if operation = ''builds.pulling.record'' then ''INVALID_REQUEST'' else ''INVALID_ARGUMENT'')"

text \<open>
  The hash of a request covers its operation, Workspace, expectations and fields (\<open>requestHash\<close>);
  \<open>digest\<close> is SHA-256 of the JSON text.
\<close>

definition request_hash :: "(json \<Rightarrow> string) \<Rightarrow> string \<Rightarrow> metadata \<Rightarrow> string" where
  "request_hash digest operation md = digest (JObject [(''expected'', JObject (mtd_expected md)),
     (''mutation'', JObject (mtd_mutation md)), (''operation'', JString operation),
     (''workspaceId'', json_number (mtd_workspace md))])"

text \<open>\<open>dispatchAsync\<close> and the handler of \<open>registerOperation\<close>: an error code, or the call for the executor.\<close>

definition dispatch_mutation :: "host_texts \<Rightarrow> (json \<Rightarrow> string) \<Rightarrow> string \<Rightarrow> bool \<Rightarrow> request_context
    \<Rightarrow> host_message \<Rightarrow> string + mutation_context \<times> string \<times> host_request" where
  "dispatch_mutation x digest epoch authenticated client m =
     (let operation = msg_operation m in
      case mutation_minor operation of None \<Rightarrow> Inl ''UNKNOWN_OPERATION''
      | Some minor \<Rightarrow>
        if \<not> authenticated then Inl ''AUTH_REQUIRED''
        else if msg_minor m < minor then Inl ''FORBIDDEN''
        else case parse_metadata (msg_payload m) of None \<Rightarrow> Inl ''INVALID_ARGUMENT''
        | Some md \<Rightarrow>
          if mtd_epoch md \<noteq> [] \<and> mtd_epoch md \<noteq> epoch then Inl ''STALE_DATA_EPOCH''
          else case read_request (htx_time x) operation md of None \<Rightarrow> Inl (unreadable_code operation)
          | Some request \<Rightarrow>
            if mutation_client_identity client = [] then Inl ''INTERNAL_ERROR''
            else Inr (\<lparr>mc_operation = operation, mc_workspace = mtd_workspace md, mc_id = mtd_id md,
                mc_client = mutation_client_identity client\<rparr>, request_hash digest operation md, request))"

text \<open>
  A message and what comes of it when the worker runs its call. The answers that do not come from
  the worker are completed at once.
\<close>

record host_setting =
  hst_texts :: host_texts
  hst_digest :: "json \<Rightarrow> string"
  hst_epoch :: string

definition receive_mutation :: "host_setting \<Rightarrow> bool \<Rightarrow> request_context \<Rightarrow> call_env \<Rightarrow> bool list \<Rightarrow> int \<Rightarrow> host_message
    \<Rightarrow> (tables, host_answer) host_database
    \<Rightarrow> (host_answer, workflow \<times> mutation_scope) call_event list \<times> (tables, host_answer) host_database" where
  "receive_mutation h authenticated client env failing now m db =
     (case dispatch_mutation (hst_texts h) (hst_digest h) (hst_epoch h) authenticated client m of
        Inl code \<Rightarrow> ([Refused (final_error code)], db)
      | Inr (c, hash, request) \<Rightarrow>
          execute_mutation env c hash (host_mutation (hst_texts h) request failing now) db)"

section \<open>Submission\<close>

text \<open>
  The client remembers, for each mutation whose outcome it does not know, the data epoch it was
  sent under (\<open>m_epochByUnknownMutation\<close>).
\<close>

type_synonym unknown_mutations = "string \<rightharpoonup> string"

definition mutation_payload :: "string \<Rightarrow> metadata \<Rightarrow> (string \<times> json) list" where
  "mutation_payload epoch md = [(''expected'', JObject (mtd_expected md)), (''mutation'', JObject (mtd_mutation md)),
     (''mutationId'', JString (mtd_id md)), (''workspaceId'', json_number (mtd_workspace md))]
     @ (if epoch = [] then [] else [(''dataEpoch'', JString epoch)])"

text \<open>What the client knows of the Host when it submits: \<open>isAvailableFor\<close>, the state and the epoch.\<close>

record client_view =
  clv_available :: bool
  clv_maintenance :: bool
  clv_epoch :: string    \<comment> \<open>empty when the Host supports none\<close>

definition submit_mutation :: "client_view \<Rightarrow> metadata \<Rightarrow> unknown_mutations
    \<Rightarrow> (string + (string \<times> json) list) \<times> unknown_mutations" where
  "submit_mutation v md unknown =
     (if unknown (mtd_id md) \<noteq> None \<and> unknown (mtd_id md) \<noteq> Some (clv_epoch v)
      then (Inl ''STALE_DATA_EPOCH'', unknown)
      else if \<not> clv_available v
      then (Inl (if clv_maintenance v then ''HOST_MAINTENANCE'' else ''FORBIDDEN''), unknown)
      else (Inr (mutation_payload (clv_epoch v) md), unknown(mtd_id md \<mapsto> clv_epoch v)))"

text \<open>The answer to a request: a result (unless it cannot be decoded), or an error of the transport or the Host.\<close>

datatype 'j mutation_answer = Result "'j mutation_result option" | Failed string

definition unknown_outcome :: "string \<Rightarrow> string \<Rightarrow> 'j mutation_answer \<Rightarrow> bool" where
  "unknown_outcome operation i answer = (case answer of
     Result None \<Rightarrow> True
   | Result (Some r) \<Rightarrow> mr_operation r \<noteq> operation \<or> mr_id r \<noteq> i
   | Failed code \<Rightarrow> code \<in> {''TIMEOUT'', ''DISCONNECTED''})"

definition hear_answer :: "string \<Rightarrow> string \<Rightarrow> 'j mutation_answer \<Rightarrow> unknown_mutations \<Rightarrow> unknown_mutations" where
  "hear_answer operation i answer unknown =
     (if unknown_outcome operation i answer then unknown else unknown(i := None))"

datatype 'j client_event =
    Submit client_view string metadata    \<comment> \<open>with its operation\<close>
  | Hear string string "'j mutation_answer"

fun client_step :: "'j client_event \<Rightarrow> unknown_mutations
    \<Rightarrow> (string \<times> string \<times> (string \<times> json) list) list \<times> unknown_mutations" where
  "client_step (Submit v operation md) unknown = (case submit_mutation v md unknown of
     (Inl code, unknown') \<Rightarrow> ([], unknown')
   | (Inr payload, unknown') \<Rightarrow> ([(mtd_id md, operation, payload)], unknown'))"
| "client_step (Hear operation i answer) unknown = ([], hear_answer operation i answer unknown)"

fun client_run :: "'j client_event list \<Rightarrow> unknown_mutations
    \<Rightarrow> (string \<times> string \<times> (string \<times> json) list) list \<times> unknown_mutations" where
  "client_run [] unknown = ([], unknown)"
| "client_run (e # es) unknown = (case client_step e unknown of (sent, unknown1) \<Rightarrow>
     case client_run es unknown1 of (sent', unknown2) \<Rightarrow> (sent @ sent', unknown2))"

fun settles :: "string \<Rightarrow> 'j client_event \<Rightarrow> bool" where
  "settles i (Hear operation j answer) \<longleftrightarrow> j = i \<and> \<not> unknown_outcome operation j answer"
| "settles i (Submit v operation md) \<longleftrightarrow> False"

section \<open>From the client to the worker\<close>

lemma mutation_uuid_nonempty: "mutation_uuid s \<Longrightarrow> s \<noteq> []"
  by (auto simp: mutation_uuid_def)

lemma payload_fields [simp]:
  "field ''workspaceId'' (mutation_payload epoch md) = Some (json_number (mtd_workspace md))"
  "field ''mutationId'' (mutation_payload epoch md) = Some (JString (mtd_id md))"
  "field ''expected'' (mutation_payload epoch md) = Some (JObject (mtd_expected md))"
  "field ''mutation'' (mutation_payload epoch md) = Some (JObject (mtd_mutation md))"
  "field ''dataEpoch'' (mutation_payload epoch md) = (if epoch = [] then None else Some (JString epoch))"
  by (simp_all add: mutation_payload_def)

lemma payload_parsed:
  assumes "1 \<le> mtd_workspace md" "mtd_workspace md \<le> maximum_json_integer" "mutation_uuid (mtd_id md)"
    "epoch = [] \<or> mutation_uuid epoch"
  shows "parse_metadata (mutation_payload epoch md)
    = Some (md\<lparr>mtd_id := map to_lower (mtd_id md), mtd_epoch := map to_lower epoch\<rparr>)"
proof -
  have "counting_number (Some (json_number (mtd_workspace md))) = Some (mtd_workspace md)"
    using assms(1,2) by (simp add: counting_number_def json_number_def)
  moreover have "length (mutation_payload epoch md) = (if epoch = [] then 4 else 5)"
    "list_all (\<lambda>(k, v). k \<in> set metadata_fields) (mutation_payload epoch md)"
    by (simp_all add: mutation_payload_def metadata_fields_def)
  ultimately show ?thesis
    using assms(3,4) by (cases "epoch = []") (simp_all add: parse_metadata_def Let_def)
qed

lemma read_request_workspace:
  assumes "read_request time_of operation md = Some request"
  shows "mtd_workspace (request_metadata request) = mtd_workspace md" "mtd_id (request_metadata request) = mtd_id md"
proof -
  have "mtd_workspace (request_metadata request) = mtd_workspace md
    \<and> mtd_id (request_metadata request) = mtd_id md"
  proof (cases request)
    case (StockRequest op r)
    with read_request_kind [OF assms] have "r = stock_request_of md"
      by (simp add: stock_from_metadata_def Let_def split: if_split_asm)
    with StockRequest show ?thesis by (simp add: stock_to_metadata_def stock_request_of_def Let_def)
  next
    case (PullRequest q)
    with read_request_kind [OF assms] show ?thesis
      by (auto simp: pull_from_metadata_def pull_to_metadata_def split: option.splits)
  next
    case (PlaceRequest op q)
    with read_request_kind [OF assms] have "place_from_metadata time_of operation md = Some q" by simp
    from place_kept [OF this] PlaceRequest show ?thesis by (simp add: place_to_metadata_def)
  next
    case (ItemRequest op r)
    with read_request_kind [OF assms] have "item_from_metadata (is_utc time_of) operation md = Some r" by simp
    from item_again [OF this] ItemRequest show ?thesis by (simp add: item_to_metadata_def)
  next
    case (BuildRequest op q)
    with read_request_kind [OF assms] have "build_from_metadata (is_utc time_of) operation md = Some q" by simp
    from build_again [OF this] BuildRequest show ?thesis by (simp add: build_to_metadata_def)
  next
    case (ReferenceRequest op q)
    with read_request_kind [OF assms] have "reference_from_metadata (is_utc time_of) operation md = Some q" by simp
    from reference_again [OF this] ReferenceRequest show ?thesis by (simp add: reference_to_metadata_def)
  qed
  then show "mtd_workspace (request_metadata request) = mtd_workspace md"
    "mtd_id (request_metadata request) = mtd_id md" by simp_all
qed

text \<open>The readers look at the Workspace, the identity and the fields, not at the data epoch.\<close>

lemma read_ignores_epoch: "read_request time_of operation (md\<lparr>mtd_epoch := e\<rparr>) = read_request time_of operation md"
  by (simp add: read_request_def pull_from_metadata_def stock_from_metadata_def stock_request_of_def
      place_from_metadata_def place_shape_ok_def read_place_target_def read_place_fields_def item_from_metadata_def
      read_item_add_def read_parts_source_def build_from_metadata_def read_requirement_add_def read_spare_store_def
      read_requirement_change_def read_build_add_def read_build_change_def read_build_end_def reference_from_metadata_def read_reference_add_def
      read_reference_remove_def cong: option.case_cong if_cong)

text \<open>
  Property C3. A mutation arrives as it was sent. Whatever request the Host can read, of any of the
  30 operations, a client that writes its metadata and submits it has it dispatched to the worker as
  the same request, with its Workspace, identity and operation, when the client is authenticated,
  both sides agree on the data epoch and the negotiated version has the operation.
\<close>

theorem submitted_request_arrives:
  assumes "read_request (htx_time x) operation md = Some request"
    "1 \<le> mtd_workspace md" "mtd_workspace md \<le> maximum_json_integer" "mutation_uuid (mtd_id md)"
    "map to_lower (mtd_id md) = mtd_id md"
    "clv_available v" "unknown (mtd_id md) \<in> {None, Some (clv_epoch v)}"
    "clv_epoch v = [] \<or> mutation_uuid (clv_epoch v) \<and> map to_lower (clv_epoch v) = epoch"
    "mutation_minor operation = Some needed" "needed \<le> minor" "mutation_client_identity client \<noteq> []"
  shows "case submit_mutation v (request_metadata request) unknown of (sent, unknown') \<Rightarrow>
    \<exists>payload hash. sent = Inr payload \<and> unknown' = unknown(mtd_id md \<mapsto> clv_epoch v)
      \<and> dispatch_mutation x digest epoch True client
          \<lparr>msg_operation = operation, msg_minor = minor, msg_payload = payload\<rparr>
        = Inr (\<lparr>mc_operation = operation, mc_workspace = mtd_workspace md, mc_id = mtd_id md,
            mc_client = mutation_client_identity client\<rparr>, hash, request)"
proof -
  let ?md = "request_metadata request"
  have from_md: "mtd_workspace ?md = mtd_workspace md" "mtd_id ?md = mtd_id md"
    using read_request_workspace [OF assms(1)] by simp_all
  then have parsed: "parse_metadata (mutation_payload (clv_epoch v) ?md)
      = Some (?md\<lparr>mtd_epoch := map to_lower (clv_epoch v)\<rparr>)"
    using payload_parsed [of ?md "clv_epoch v"] assms(2-5,8) by (cases ?md) auto
  moreover have "read_request (htx_time x) operation (?md\<lparr>mtd_epoch := map to_lower (clv_epoch v)\<rparr>) = Some request"
    using request_again [OF assms(1)] by (simp add: read_ignores_epoch)
  ultimately show ?thesis
    using assms(6-11) from_md by (auto simp: submit_mutation_def dispatch_mutation_def Let_def)
qed

text \<open>A small request: four bricks of part 3001 for record 2, or a mutation of record \<open>i\<close>.\<close>

definition sample_texts :: host_texts where
  "sample_texts = \<lparr>htx_inventory = (\<lambda>i. ''v1''), htx_time = (\<lambda>s. Some (0, 0)), htx_item = (\<lambda>i. ''v1''),
     htx_digest = (\<lambda>s. s), htx_builds = \<lparr>btx_build = (\<lambda>i. ''v1''), btx_requirement = (\<lambda>i. ''v1''),
       btx_allocation = (\<lambda>i. ''v1''), btx_inventory = (\<lambda>i. ''v1''), btx_reference = (\<lambda>i. [])\<rparr>, htx_stamp = (\<lambda>n. ''v1''), htx_manifest = None\<rparr>"

definition sample_mutation_id :: string where
  "sample_mutation_id = ''11111111-1111-4111-8111-111111111111''"

definition sample_stock_request :: "int \<Rightarrow> int \<Rightarrow> stock_request" where
  "sample_stock_request i q = \<lparr>rst_workspace = 1, rst_id = sample_mutation_id,
     rst_expected = \<lparr>xst_record = i, xst_quantity = 20, xst_storage = 1, xst_modified = ''v1'', xst_part = [],
       xst_color = 0, xst_manufacturer = [], xst_condition = [], xst_ownership = []\<rparr>,
     rst_record = i, rst_part = ''3001'', rst_color = 4, rst_manufacturer = ''Gobricks'', rst_storage = 2,
     rst_destination = 0, rst_quantity = q, rst_condition = ''Used'', rst_ownership = ''Owned'', rst_notes = []\<rparr>"

definition sample_context :: "string \<Rightarrow> mutation_context" where
  "sample_context operation = \<lparr>mc_operation = operation, mc_workspace = 1, mc_id = sample_mutation_id, mc_client = ''c''\<rparr>"

definition sample_setting :: "string \<Rightarrow> host_setting" where
  "sample_setting epoch = \<lparr>hst_texts = sample_texts, hst_digest = (\<lambda>j. ''hash''), hst_epoch = epoch\<rparr>"

definition sample_client :: request_context where
  "sample_client = \<lparr>session_id = ''s'', request_id = ''r'', authentication_kind = LegacySharedToken,
     paired_device_id = []\<rparr>"

definition sample_view :: "string \<Rightarrow> client_view" where
  "sample_view epoch = \<lparr>clv_available = True, clv_maintenance = False, clv_epoch = epoch\<rparr>"

definition sample_epoch :: string where
  "sample_epoch = ''22222222-2222-4222-8222-222222222222''"

lemma sample_read:
  "read_request (htx_time sample_texts) ''inventory.add'' (stock_to_metadata (sample_stock_request 0 4))
   = Some (StockRequest ''inventory.add'' (sample_stock_request 0 4))"
  by code_simp

theorem submitted_request_arrives_witness:
  "case submit_mutation (sample_view sample_epoch) (stock_to_metadata (sample_stock_request 0 4)) Map.empty of
     (sent, unknown) \<Rightarrow> \<exists>payload hash. sent = Inr payload \<and> unknown sample_mutation_id = Some sample_epoch
       \<and> dispatch_mutation sample_texts (\<lambda>j. ''hash'') sample_epoch True sample_client
           \<lparr>msg_operation = ''inventory.add'', msg_minor = 5, msg_payload = payload\<rparr>
         = Inr (sample_context ''inventory.add''\<lparr>mc_client := ''LegacySharedToken''\<rparr>, hash,
             StockRequest ''inventory.add'' (sample_stock_request 0 4))"
proof -
  let ?md = "stock_to_metadata (sample_stock_request 0 4)"
  have facts: "1 \<le> mtd_workspace ?md" "mtd_workspace ?md \<le> maximum_json_integer" "mutation_uuid (mtd_id ?md)"
    "map to_lower (mtd_id ?md) = mtd_id ?md" "mutation_minor ''inventory.add'' = Some 2" "(2 :: nat) \<le> 5"
    by (code_simp)+
  have client: "mutation_client_identity sample_client = ''LegacySharedToken''"
    by (simp add: mutation_client_identity_def sample_client_def)
  have epoch: "mutation_uuid sample_epoch \<and> map to_lower sample_epoch = sample_epoch" by code_simp
  have "case submit_mutation (sample_view sample_epoch) ?md Map.empty of
     (sent, unknown) \<Rightarrow> \<exists>payload hash. sent = Inr payload \<and> unknown = [mtd_id ?md \<mapsto> sample_epoch]
       \<and> dispatch_mutation sample_texts (\<lambda>j. ''hash'') sample_epoch True sample_client
           \<lparr>msg_operation = ''inventory.add'', msg_minor = 5, msg_payload = payload\<rparr>
         = Inr (\<lparr>mc_operation = ''inventory.add'', mc_workspace = mtd_workspace ?md, mc_id = mtd_id ?md,
             mc_client = mutation_client_identity sample_client\<rparr>, hash,
             StockRequest ''inventory.add'' (sample_stock_request 0 4))"
    using submitted_request_arrives [OF sample_read facts(1-4), of "sample_view sample_epoch" Map.empty sample_epoch 2 5
        sample_client "\<lambda>j. ''hash''"] facts(5) client epoch
    by (simp add: sample_view_def)
  then show ?thesis
    by (auto simp: client sample_context_def stock_to_metadata_def sample_stock_request_def Let_def)
qed

section \<open>Uncertain mutations and Restore\<close>

lemma sent_under_epoch:
  assumes "client_run events unknown = (sent, unknown')" "\<forall>e\<in>set events. \<not> settles i e"
  shows "\<exists>epoch. (unknown i \<noteq> None \<longrightarrow> unknown i = Some epoch)
    \<and> (\<forall>(j, operation, payload)\<in>set sent. j = i \<longrightarrow> to_text (field ''dataEpoch'' payload) = epoch)
    \<and> (\<forall>e. unknown i = Some e \<longrightarrow> unknown' i = Some e)"
  using assms
proof (induction events arbitrary: unknown sent)
  case Nil
  then show ?case by auto
next
  case (Cons event events)
  obtain now1 unknown1 where one: "client_step event unknown = (now1, unknown1)" by fastforce
  obtain rest where rest: "client_run events unknown1 = (rest, unknown')" and sent: "sent = now1 @ rest"
    using Cons.prems(1) by (auto simp: one split: prod.splits)
  from Cons.IH [OF rest] Cons.prems(2) obtain epoch where
    later: "unknown1 i \<noteq> None \<longrightarrow> unknown1 i = Some epoch"
      "\<forall>(j, operation, payload)\<in>set rest. j = i \<longrightarrow> to_text (field ''dataEpoch'' payload) = epoch"
      "\<forall>e. unknown1 i = Some e \<longrightarrow> unknown' i = Some e" by auto
  have step: "(\<forall>e. unknown i = Some e \<longrightarrow> unknown1 i = Some e)
      \<and> (\<forall>(j, operation, payload)\<in>set now1. j = i \<longrightarrow> unknown1 i = Some (to_text (field ''dataEpoch'' payload)))"
  proof (cases event)
    case (Submit v operation md)
    with one show ?thesis by (auto simp: submit_mutation_def split: if_splits)
  next
    case (Hear operation j answer)
    with one Cons.prems(2) show ?thesis by (auto simp: hear_answer_def split: if_splits)
  qed
  show ?case
  proof (cases "unknown1 i")
    case None
    with step later show ?thesis by (intro exI [of _ epoch]) (auto simp: sent)
  next
    case (Some e)
    with step later show ?thesis by (intro exI [of _ e]) (fastforce simp: sent)
  qed
qed

lemma stale_epoch_refused:
  assumes "map to_lower (to_text (field ''dataEpoch'' (msg_payload m))) \<noteq> hst_epoch h"
    "field ''dataEpoch'' (msg_payload m) \<noteq> None"
  shows "\<exists>code. receive_mutation h authenticated client env failing now m db = ([Refused (final_error code)], db)"
proof -
  have "\<exists>code. dispatch_mutation (hst_texts h) (hst_digest h) (hst_epoch h) authenticated client m = Inl code"
  proof (cases "parse_metadata (msg_payload m)")
    case None
    then show ?thesis by (auto simp: dispatch_mutation_def Let_def split: option.splits)
  next
    case (Some md)
    with assms(2) have "mtd_epoch md = map to_lower (to_text (field ''dataEpoch'' (msg_payload m)))" "mtd_epoch md \<noteq> []"
      by (auto simp: parse_metadata_def Let_def dest: mutation_uuid_nonempty split: option.splits if_splits)
    with Some assms(1) show ?thesis by (auto simp: dispatch_mutation_def Let_def split: option.splits)
  qed
  then show ?thesis by (auto simp: receive_mutation_def)
qed

text \<open>
  Property C4. A mutation whose outcome a client does not know is never applied to another
  database. While no definitive answer to it arrives, whatever else is submitted, answered, lost or
  repeated and however often the Host is restored meanwhile: once the client has sent the mutation
  under one data epoch, every Host with another epoch refuses all its messages for the mutation and
  leaves its database as it is.
\<close>

theorem uncertain_mutation_stays_in_epoch:
  assumes "client_run events unknown = (sent, unknown')" "\<forall>e\<in>set events. \<not> settles i e"
    "(i, operation, payload) \<in> set sent" "field ''dataEpoch'' payload = Some (JString epoch)" "epoch \<noteq> []"
    "map to_lower epoch \<noteq> hst_epoch h" "(i, operation', payload') \<in> set sent"
  shows "\<exists>code. receive_mutation h authenticated client env failing now
      \<lparr>msg_operation = operation', msg_minor = minor, msg_payload = payload'\<rparr> db
    = ([Refused (final_error code)], db)"
proof (rule stale_epoch_refused)
  obtain e where "\<forall>(j, operation, payload)\<in>set sent. j = i \<longrightarrow> to_text (field ''dataEpoch'' payload) = e"
    using sent_under_epoch [OF assms(1,2)] by blast
  then have "to_text (field ''dataEpoch'' payload) = e" "to_text (field ''dataEpoch'' payload') = e"
    using assms(3,7) by auto
  with assms(4) have same: "to_text (field ''dataEpoch'' payload') = epoch" by simp
  with assms(6) show "map to_lower (to_text (field ''dataEpoch'' (msg_payload
      \<lparr>msg_operation = operation', msg_minor = minor, msg_payload = payload'\<rparr>))) \<noteq> hst_epoch h" by simp
  from same assms(5) show "field ''dataEpoch'' (msg_payload
      \<lparr>msg_operation = operation', msg_minor = minor, msg_payload = payload'\<rparr>) \<noteq> None"
    by (cases "field ''dataEpoch'' payload'") auto
qed

theorem uncertain_mutation_stays_in_epoch_witness:
  "let md = stock_to_metadata (sample_stock_request 0 4);
       events = [Submit (sample_view sample_epoch) ''inventory.add'' md,
         Hear ''inventory.add'' sample_mutation_id (Failed ''TIMEOUT'' :: unit mutation_answer),
         Submit (sample_view sample_mutation_id) ''inventory.add'' md,
         Submit (sample_view sample_epoch) ''inventory.add'' md];
       (sent, unknown) = client_run events Map.empty
   in map fst sent = [sample_mutation_id, sample_mutation_id]
     \<and> receive_mutation (sample_setting []) True sample_client calm_env [] 0
         \<lparr>msg_operation = ''inventory.add'', msg_minor = 5, msg_payload = snd (snd (sent ! 1))\<rparr> (fresh_host sample [1 \<mapsto> True])
       = ([Refused (final_error ''STALE_DATA_EPOCH'')], fresh_host sample [1 \<mapsto> True])"
proof -
  let ?md = "stock_to_metadata (sample_stock_request 0 4)"
  let ?payload = "mutation_payload sample_epoch ?md"
  let ?events = "[Submit (sample_view sample_epoch) ''inventory.add'' ?md,
         Hear ''inventory.add'' sample_mutation_id (Failed ''TIMEOUT'' :: unit mutation_answer),
         Submit (sample_view sample_mutation_id) ''inventory.add'' ?md,
         Submit (sample_view sample_epoch) ''inventory.add'' ?md]"
  let ?sent = "[(sample_mutation_id, ''inventory.add'', ?payload), (sample_mutation_id, ''inventory.add'', ?payload)]"
  have i: "mtd_id ?md = sample_mutation_id" by (simp add: stock_to_metadata_def sample_stock_request_def Let_def)
  have other: "sample_epoch \<noteq> sample_mutation_id" "sample_epoch \<noteq> []"
    by (simp_all add: sample_epoch_def sample_mutation_id_def)
  have run: "client_run ?events Map.empty = (?sent, [sample_mutation_id \<mapsto> sample_epoch])"
    using other by (simp add: submit_mutation_def sample_view_def i hear_answer_def unknown_outcome_def)
  have quiet: "\<forall>e\<in>set ?events. \<not> settles sample_mutation_id e" by (simp add: unknown_outcome_def)
  have one: "(sample_mutation_id, ''inventory.add'', ?payload) \<in> set ?sent" by simp
  have named: "field ''dataEpoch'' ?payload = Some (JString sample_epoch)" using other by simp
  have restored: "map to_lower sample_epoch \<noteq> hst_epoch (sample_setting [])"
    by (simp add: sample_setting_def sample_epoch_def)
  obtain code where refused: "receive_mutation (sample_setting []) True sample_client calm_env [] 0
      \<lparr>msg_operation = ''inventory.add'', msg_minor = 5, msg_payload = ?payload\<rparr> (fresh_host sample [1 \<mapsto> True])
    = ([Refused (final_error code)], fresh_host sample [1 \<mapsto> True])"
    using uncertain_mutation_stays_in_epoch [OF run quiet one named other(2) restored one] by blast
  have "dispatch_mutation sample_texts (\<lambda>j. ''hash'') [] True sample_client
      \<lparr>msg_operation = ''inventory.add'', msg_minor = 5, msg_payload = ?payload\<rparr> = Inl ''STALE_DATA_EPOCH''"
    by code_simp
  then have "code = ''STALE_DATA_EPOCH''"
    using refused by (simp add: receive_mutation_def sample_setting_def final_error_def)
  then show ?thesis using run refused by (simp add: Let_def)
qed

end
