(* ===== verification/HostFrames.thy ===== *)
theory HostFrames
  imports HostRequests BuildCreation BuildPlanning CollectionDisassembly
begin

text \<open>
  What the operations of the services leave alone: only the Storage service touches the storage
  locations, and neither it nor the Collection items touch what the books are about. Each is a
  frame relation (\<open>frame_relation\<close> of \<open>Session\<close>), shown of the statements once and composed by
  \<open>stays_rules\<close>.
\<close>

section \<open>The frames\<close>

definition same_storage :: "tables \<Rightarrow> tables \<Rightarrow> bool" where
  "same_storage t t' \<longleftrightarrow> storage t' = storage t \<and> seq_storage t' = seq_storage t"

definition same_books :: "tables \<Rightarrow> tables \<Rightarrow> bool" where
  "same_books t t' \<longleftrightarrow> inventory t' = inventory t \<and> movements t' = movements t
     \<and> provenance t' = provenance t \<and> requirements t' = requirements t"

text \<open>The locations stay, and the constraints hold if they did.\<close>

definition same_places :: "tables \<Rightarrow> tables \<Rightarrow> bool" where
  "same_places t t' \<longleftrightarrow> same_storage t t' \<and> (constraints t \<longrightarrow> constraints t')"

lemma hierarchy_frame: "same_storage t t' \<Longrightarrow> hierarchy t \<Longrightarrow> hierarchy t'"
  by (simp add: same_storage_def hierarchy_def edges_def)

lemma places_frame:
  "same_places t t' \<Longrightarrow> hierarchy t \<Longrightarrow> hierarchy t'"
  "same_places t t' \<Longrightarrow> constraints t \<Longrightarrow> constraints t'"
  using hierarchy_frame by (auto simp: same_places_def)

lemma accounts_frame: "same_books t t' \<Longrightarrow> constraints t' \<Longrightarrow> agree d t \<Longrightarrow> agree d t'"
  by (auto simp: same_books_def intro: accounts_cong')

context frame_relation
begin

lemma stays_prod [stays_rules]: "(\<And>a b. stays R (f a b)) \<Longrightarrow> stays R (case x of (a, b) \<Rightarrow> f a b)"
  by (cases x) auto

lemma stays_Let [stays_rules]: "(\<And>a. stays R (f a)) \<Longrightarrow> stays R (let a = x in f a)"
  by simp

lemmas stays_item_reads [stays_rules] = reads_collection [THEN stays_reads] reads_item_checks [THEN stays_reads]
  reads_validate_item [THEN stays_reads] reads_storage [THEN stays_reads] reads_validation [THEN stays_reads]
  reads_checks [THEN stays_reads] reads_authoritative [THEN stays_reads] reads_item_plan [THEN stays_reads]
  reads_composition [THEN stays_reads] reads_validate_addition [THEN stays_reads] reads_lego [THEN stays_reads]
  reads_part_by_id [THEN stays_reads] reads_color_by_id [THEN stays_reads] reads_pull_rows [THEN stays_reads]
  reads_check_return [THEN stays_reads] reads_plan [THEN stays_reads] reads_check_spare [THEN stays_reads]
  reads_provenance [THEN stays_reads] reads_part_and_color [THEN stays_reads] reads_clock [THEN stays_reads]
  reads_gate [THEN stays_reads]

end

interpretation storage_frame: frame_relation same_storage
  by unfold_locales (simp_all add: same_storage_def)

interpretation place_frame: frame_relation same_places
  by unfold_locales (auto simp: same_places_def same_storage_def)

text \<open>Every statement keeps the constraints, so a statement is judged by its locations alone.\<close>

lemma places_exec: "(\<And>t. same_storage t (snd (f t))) \<Longrightarrow> stays same_places (sql_exec f)"
  by (simp add: stays_def same_places_def run_simps storage_frame.frame_refl)

interpretation books_frame: frame_relation same_books
  by unfold_locales (simp_all add: same_books_def)

section \<open>Everything but the Storage service leaves the locations\<close>

lemma same_storage_basic [simp]:
  "same_storage t (snd (insert_movement m t))" "same_storage t (snd (update_inventory i f t))"
  "same_storage t (snd (insert_inventory r t))" "same_storage t (snd (insert_build b t))"
  "same_storage t (snd (update_builds P g t))" "same_storage t (snd (insert_requirement q t))"
  "same_storage t (snd (update_requirements P' h t))" "same_storage t (snd (delete_requirements P' t))"
  "same_storage t (snd (insert_allocation a t))" "same_storage t (snd (update_allocations P'' k t))"
  "same_storage t (snd (delete_allocations P'' t))" "same_storage t (snd (insert_item c t))"
  "same_storage t (snd (update_items P3 l t))" "same_storage t (snd (upsert_provenance key n t))"
  "same_storage t (snd (decrease_provenance key n t))" "same_storage t (snd (clean_provenance key t))"
  by (simp_all add: same_storage_def insert_movement_def update_inventory_def insert_inventory_def insert_build_def
      update_builds_def insert_requirement_def update_requirements_def delete_requirements_def
      insert_allocation_def update_allocations_def delete_allocations_def insert_item_def update_items_def
      upsert_provenance_def decrease_provenance_def clean_provenance_def Let_def split_beta)

lemma storage_writes [stays_rules]:
  "stays same_places (movement_create m)" "stays same_places (inventory_update_quantity i q)"
  "stays same_places (build_create b)" "stays same_places (build_update b)"
  "stays same_places (requirement_create r)" "stays same_places (requirement_update r)"
  "stays same_places (requirement_remove i)" "stays same_places (allocation_create a)"
  "stays same_places (allocation_update a)" "stays same_places (allocation_remove i)"
  "stays same_places (allocation_remove_all_for_requirement i)" "stays same_places (allocation_remove_all_for_build i)"
  "stays same_places (record_pulled_manufacturer j p c n q)" "stays same_places (reduce_pulled_manufacturer j p c n q)"
  "stays same_places (build_link_set_catalog i j)"
  by (auto simp: movement_create_def inventory_update_quantity_def build_create_def build_update_def requirement_create_def
      requirement_update_def requirement_remove_def allocation_create_def allocation_update_def allocation_remove_def
      allocation_remove_all_for_requirement_def allocation_remove_all_for_build_def record_pulled_manufacturer_def
      reduce_pulled_manufacturer_def build_link_set_catalog_def Let_def
      intro!: stays_rules places_exec)

lemma storage_inventory [stays_rules]:
  "stays same_places (set_quantity_with_movement i q ty rt ri n)" "stays same_places (upsert_inventory x)"
  by (auto simp: set_quantity_with_movement_def upsert_inventory_def Let_def
      intro!: stays_rules places_exec)

lemma storage_add [stays_rules]: "stays same_places (add_or_increase_in_current_transaction x ty rt ri n)"
  by (auto simp: add_or_increase_in_current_transaction_def normalized_manufacturer_id_def intro!: stays_rules)

lemma storage_stock [stays_rules]:
  "stays same_places (correct_entry_in_current_transaction i p q n)"
  "stays same_places (remove_entry_in_current_transaction i q n)"
  "stays same_places (mark_lost_in_current_transaction i q n)"
  "stays same_places (mark_found_in_current_transaction ws p c q d cond own n)"
  by (auto simp: correct_entry_in_current_transaction_def remove_entry_in_current_transaction_def
      mark_lost_in_current_transaction_def mark_found_in_current_transaction_def Let_def
      intro!: stays_rules places_exec)

lemma storage_move [stays_rules]: "stays same_places (move_inventory_in_current_transaction i d q)"
  by (auto simp: move_inventory_in_current_transaction_def move_source_def move_destination_def Let_def
      intro!: stays_rules places_exec)

lemma storage_create_movements [stays_rules]: "stays same_places (create_movements ms)"
  by (induction ms) (auto intro!: stays_rules)

lemma storage_edit [stays_rules]: "stays same_places (update_or_merge_in_current_transaction x)"
  by (auto simp: update_or_merge_in_current_transaction_def normalized_manufacturer_id_def apply_edit_def Let_def
      intro!: stays_rules places_exec)

lemma storage_build_services [stays_rules]:
  "stays same_places (create_build_in_current_transaction b)"
  "stays same_places (update_metadata_in_current_transaction i name man msg)"
  "stays same_places (set_build_active_in_current_transaction i active)"
  "stays same_places (complete_build_in_current_transaction i)"
  "stays same_places (add_requirement_in_current_transaction r)"
  "stays same_places (edit_requirement_in_current_transaction i p c q spare)"
  "stays same_places (remove_requirement_in_current_transaction i)"
  by (auto simp: create_build_in_current_transaction_def update_metadata_in_current_transaction_def
      set_build_active_in_current_transaction_def complete_build_in_current_transaction_def
      add_requirement_in_current_transaction_def edit_requirement_in_current_transaction_def
      store_edited_requirement_def remove_requirement_in_current_transaction_def
      intro!: stays_rules)

lemma storage_create_candidates [stays_rules]: "stays same_places (create_candidates r as)"
  by (induction as) (auto intro!: stays_rules)

lemma storage_take [stays_rules]: "stays same_places (take_from_records b r xs needed added)"
  by (induction xs arbitrary: needed added) (auto simp: take_from_record_def Let_def intro!: stays_rules)

lemma storage_allocate [stays_rules]: "stays same_places (allocate_requirements b preferred rs added)"
  by (induction rs arbitrary: added) (auto simp: allocate_requirement_def Let_def intro!: stays_rules)

lemma storage_allocation_services [stays_rules]:
  "stays same_places (replace_for_requirement_in_current_transaction i as)"
  "stays same_places (allocate_available_in_current_transaction i preferred)"
  by (auto simp: replace_for_requirement_in_current_transaction_def allocate_available_in_current_transaction_def
      intro!: stays_rules)

lemma storage_pull_loop [stays_rules]: "stays same_places (apply_pull_loop ps e rows n)"
  by (induction ps arbitrary: e rows n)
    (auto simp: apply_pull_def pull_writes_def reduce_allocation_def intro!: stays_rules)

lemma storage_return_pieces [stays_rules]: "stays same_places (return_pieces b rows result)"
  by (induction rows arbitrary: result) (auto simp: return_row_def add_returned_def intro!: stays_rules)

lemma storage_items [stays_rules]: "stays same_places (item_operation c)"
  by (cases c) (auto simp: item_operation_defs create_item_def collection_create_def collection_item_update_def
      collection_set_active_def intro!: stays_rules places_exec)

lemma storage_item_state [stays_rules]:
  "stays same_places (update_state_for_disassembly i st)"
  "stays same_places (transition_catalog_item_to_unassembled i ws v)"
  by (auto simp: update_state_for_disassembly_def collection_item_update_def update_state_for_source_build_def
      transition_catalog_item_to_unassembled_def intro!: stays_rules places_exec)

lemma storage_lifecycle [stays_rules]:
  "stays same_places (apply_pulls ps)" "stays same_places (disassemble_in_current_transaction i rows st)"
  "stays same_places (cancel_in_current_transaction i rows st)"
  "stays same_places (store_complete_set_spare_in_current_transaction i k l q)"
  by (auto simp: apply_pulls_def disassemble_in_current_transaction_def cancel_in_current_transaction_def
      synchronize_item_def store_complete_set_spare_in_current_transaction_def intro!: stays_rules)

lemma storage_call_body: "stays same_places (call_body c)"
  by (cases c) (auto simp: reports_def intro!: stays_rules)

lemma storage_create_requirements [stays_rules]: "stays same_places (create_requirements b rs result)"
  by (induction rs arbitrary: result) (auto intro!: stays_rules)

lemma storage_creation [stays_rules]:
  "stays same_places (create_set_build_in_current_transaction ws i name)"
  "stays same_places (create_minifig_build_in_current_transaction ws i name)"
  by (auto simp: create_set_build_in_current_transaction_def create_minifig_build_in_current_transaction_def
      create_from_rows_def workspace_known_def intro!: stays_rules)

lemma storage_add_rows [stays_rules]: "stays same_places (add_rows x rs ids)"
  by (induction rs arbitrary: ids) (auto intro!: stays_rules)

lemma reads_build_plan [reads_rules]: "reads_only (build_plan i)"
  by (auto simp: build_plan_def Let_def intro!: reads_rules)

lemma reads_check_assignments [reads_rules]: "reads_only (check_assignments ws rows as assigned)"
  by (induction as arbitrary: assigned) (auto simp: Let_def intro!: reads_rules)

lemmas storage_plan_reads [stays_rules] = reads_build_plan [THEN place_frame.stays_reads]
  reads_check_assignments [THEN place_frame.stays_reads]

lemma storage_disassemble_item [stays_rules]: "stays same_places (disassemble_item_in_current_transaction i v as)"
  by (auto simp: disassemble_item_in_current_transaction_def add_composition_def
      intro!: stays_rules)

section \<open>Storage and Collection items leave the books\<close>

lemma same_books_basic [simp]:
  "same_books t (snd (insert_location l t))" "same_books t (snd (update_locations P f t))"
  "same_books t (snd (reactivate_in i now t))" "same_books t (snd (insert_item c t))"
  "same_books t (snd (update_items P' g t))" "same_books t (snd (update_builds P'' h t))"
  by (simp_all add: same_books_def insert_location_def update_locations_def reactivate_in_def insert_item_def
      update_items_def update_builds_def Let_def)

lemma books_storage:
  "stays same_books (call_storage c)" "keeps_valid (call_storage c)"
proof -
  show "stays same_books (call_storage c)"
    by (cases c) (auto simp: add_location_def edit_location_def checked_edit_def set_location_active_def storage_create_def
        storage_update_def storage_reactivate_def storage_deactivate_def Let_def
        intro!: stays_rules books_frame.stays_exec)
  note reads = reads_storage [THEN reads_valid] reads_validation [THEN reads_valid]
    reads_checks [THEN reads_valid] reads_authoritative [THEN reads_valid]
  show "keeps_valid (call_storage c)"
    by (cases c) (auto simp: add_location_def edit_location_def checked_edit_def set_location_active_def storage_create_def
        storage_update_def storage_reactivate_def storage_deactivate_def Let_def
        intro!: valid_rules reads)
qed

lemma books_items [stays_rules]: "stays same_books (item_operation c)"
  by (cases c) (auto simp: item_operation_defs create_item_def collection_create_def collection_item_update_def
      collection_set_active_def build_link_set_catalog_def intro!: stays_rules books_frame.stays_exec)

end
