(* ===== verification/HostServices.thy ===== *)
theory HostServices
  imports HostFrames HostInventory HostPulling HostPlaces HostCollection HostBuilds HostReferences
begin

text \<open>
  What the requests of the clients keep. A mutation of the Host is a few reads and checks around
  one operation of the services the local user interface calls, run inside the transaction of the
  worker; the rules below reduce what a successful mutation leaves to what a successful service
  operation leaves.
\<close>

section \<open>The state of the workshop\<close>

text \<open>
  The constraints of the schema hold and the storage locations are a forest. On top of it the books
  agree (\<open>bk\<close>) and the provenance agrees as well (\<open>pv\<close>): some operations keep the former only.
\<close>

definition sound :: "bool \<Rightarrow> bool \<Rightarrow> tables \<Rightarrow> bool" where
  "sound bk pv t \<longleftrightarrow> constraints t \<and> hierarchy t \<and> (bk \<longrightarrow> ledgers t) \<and> (pv \<longrightarrow> accounts t)"

section \<open>Successful computations\<close>

text \<open>A property is kept whenever the answer is a success; a failure is undone by the worker.\<close>

definition on_success :: "(tables \<Rightarrow> bool) \<Rightarrow> (session, 'e + 'a) state \<Rightarrow> bool" where
  "on_success P m \<longleftrightarrow> (\<forall>s a s'. run_state m s = (Inr a, s') \<longrightarrow> P (tables s) \<longrightarrow> P (tables s'))"

lemma success_apply:
  "on_success P m \<Longrightarrow> run_state m s = (Inr a, s') \<Longrightarrow> P (tables s) \<Longrightarrow> P (tables s')"
  unfolding on_success_def by blast

definition written :: "(tables \<Rightarrow> bool) \<Rightarrow> ('a \<Rightarrow> bool) \<Rightarrow> (session, 'a) state \<Rightarrow> bool" where
  "written P ok m \<longleftrightarrow> (\<forall>s a s'. run_state m s = (a, s') \<longrightarrow> ok a \<longrightarrow> P (tables s) \<longrightarrow> P (tables s'))"

definition fails :: "(session, 'e + 'a) state \<Rightarrow> bool" where
  "fails m \<longleftrightarrow> (\<forall>s. \<not> succeeds (fst (run_state m s)))"

named_theorems success_rules "mutations whose success keeps a property"

lemma success_ret [success_rules]: "on_success P (ret r)"
  by (simp add: on_success_def run_simps)

lemma fails_ret [simp]: "fails (ret (Inl e))"
  by (simp add: fails_def run_simps)

lemma success_reads: "reads_only m \<Longrightarrow> on_success P m"
  unfolding on_success_def by (metis readsD)

lemma success_read: "reads_only m \<Longrightarrow> (\<And>a. on_success P (f a)) \<Longrightarrow> on_success P (State_Monad.bind m f)"
  unfolding on_success_def by (auto simp: run_simps split: prod.splits) (metis readsD)

lemma success_if [success_rules]:
  "(b \<Longrightarrow> on_success P m) \<Longrightarrow> (\<not> b \<Longrightarrow> on_success P m') \<Longrightarrow> on_success P (if b then m else m')"
  by simp

lemma success_option [success_rules]:
  "on_success P m \<Longrightarrow> (\<And>a. on_success P (f a)) \<Longrightarrow> on_success P (case x of None \<Rightarrow> m | Some a \<Rightarrow> f a)"
  by (cases x) auto

lemma success_sum [success_rules]:
  "(\<And>e. on_success P (g e)) \<Longrightarrow> (\<And>a. on_success P (f a)) \<Longrightarrow>
   on_success P (case x of Inl e \<Rightarrow> g e | Inr a \<Rightarrow> f a)"
  by (cases x) auto

lemma success_prod [success_rules]:
  "(\<And>a b. on_success P (f a b)) \<Longrightarrow> on_success P (case x of (a, b) \<Rightarrow> f a b)"
  by (cases x) auto

lemma success_list [success_rules]:
  "on_success P m \<Longrightarrow> (\<And>a as. on_success P (f a as)) \<Longrightarrow>
   on_success P (case x of [] \<Rightarrow> m | a # as \<Rightarrow> f a as)"
  by (cases x) auto

lemma success_Let [success_rules]: "(\<And>a. on_success P (f a)) \<Longrightarrow> on_success P (let a = x in f a)"
  by simp

text \<open>A write, by the type of its answer.\<close>

lemma success_write:
  assumes "written P ok m" "\<And>a. ok a \<Longrightarrow> on_success P (f a)" "\<And>a. \<not> ok a \<Longrightarrow> fails (f a)"
  shows "on_success P (State_Monad.bind m f)"
  unfolding on_success_def
proof (intro allI impI)
  fix s b s'
  assume run: "run_state (State_Monad.bind m f) s = (Inr b, s')" and "P (tables s)"
  obtain a s1 where first: "run_state m s = (a, s1)" by fastforce
  with run have rest: "run_state (f a) s1 = (Inr b, s')" by (simp add: run_simps)
  have ok: "ok a"
  proof (rule ccontr)
    assume "\<not> ok a"
    then have "\<not> succeeds (fst (run_state (f a) s1))" using assms(3) by (simp add: fails_def)
    with rest show False by simp
  qed
  then have "P (tables s1)" using assms(1) first \<open>P (tables s)\<close> unfolding written_def by blast
  with assms(2) [OF ok] rest show "P (tables s')" unfolding on_success_def by blast
qed

lemma write_option:
  "written P got m \<Longrightarrow> (\<And>a. on_success P (f (Some a))) \<Longrightarrow> fails (f None) \<Longrightarrow> on_success P (State_Monad.bind m f)"
  by (erule success_write) (auto simp: got_def)

lemma write_sum:
  "written P succeeds m \<Longrightarrow> (\<And>a. on_success P (f (Inr a))) \<Longrightarrow> (\<And>e. fails (f (Inl e))) \<Longrightarrow>
   on_success P (State_Monad.bind m f)"
  by (erule success_write) (auto simp: succeeds_def split: sum.splits)

lemma write_bool:
  "written P (\<lambda>b. b) m \<Longrightarrow> on_success P (f True) \<Longrightarrow> fails (f False) \<Longrightarrow> on_success P (State_Monad.bind m f)"
  by (erule success_write) (auto simp: )

section \<open>What the services leave sound\<close>

definition same_build_counts :: "tables \<Rightarrow> tables \<Rightarrow> bool" where
  "same_build_counts t t' \<longleftrightarrow> provenance t' = provenance t \<and> requirements t' = requirements t"

interpretation counts_frame: frame_relation same_build_counts
  by unfold_locales (simp_all add: same_build_counts_def)

lemma counts_basic [simp]:
  "same_build_counts t (snd (insert_movement m t))" "same_build_counts t (snd (update_inventory i f t))"
  "same_build_counts t (snd (insert_inventory r t))"
  by (simp_all add: same_build_counts_def insert_movement_def update_inventory_def insert_inventory_def Let_def)

lemma counts_movement [stays_rules]: "stays same_build_counts (movement_create m)"
  by (auto simp: movement_create_def intro!: stays_rules counts_frame.stays_exec)

lemma counts_inventory [stays_rules]:
  "stays same_build_counts (set_quantity_with_movement i q ty rt ri n)" "stays same_build_counts (upsert_inventory x)"
  by (auto simp: set_quantity_with_movement_def upsert_inventory_def Let_def
      intro!: stays_rules counts_frame.stays_exec)

lemma counts_add [stays_rules]: "stays same_build_counts (add_or_increase_in_current_transaction x ty rt ri n)"
  by (auto simp: add_or_increase_in_current_transaction_def normalized_manufacturer_id_def intro!: stays_rules)

lemma counts_stock [stays_rules]:
  "stays same_build_counts (correct_entry_in_current_transaction i p q n)"
  "stays same_build_counts (remove_entry_in_current_transaction i q n)"
  "stays same_build_counts (mark_lost_in_current_transaction i q n)"
  "stays same_build_counts (mark_found_in_current_transaction ws p c q d cond own n)"
  by (auto simp: correct_entry_in_current_transaction_def remove_entry_in_current_transaction_def
      mark_lost_in_current_transaction_def mark_found_in_current_transaction_def Let_def
      intro!: stays_rules counts_frame.stays_exec)

lemma counts_move [stays_rules]: "stays same_build_counts (move_inventory_in_current_transaction i d q)"
  by (auto simp: move_inventory_in_current_transaction_def move_source_def move_destination_def Let_def
      intro!: stays_rules counts_frame.stays_exec)

lemma agree_from_books:
  assumes "same_build_counts t t'" "agree d t" "books t'"
  shows "agree d t'"
  using assms counts_fit_cong [of t' t] drift_cong [of t' t]
  by (simp add: agree_def same_build_counts_def)

text \<open>
  An operation that leaves the locations is judged by what it does to the books, whatever the
  difference between provenance and requirements is.
\<close>

lemma sound_from_agree:
  assumes "stays same_places m"
    "\<And>d s a s'. bk \<or> pv \<Longrightarrow> run_state m s = (a, s') \<Longrightarrow> ok a \<Longrightarrow> agree d (tables s) \<Longrightarrow> agree d (tables s')"
  shows "written (sound bk pv) ok m"
  unfolding written_def
proof (intro allI impI)
  fix s a s'
  assume run: "run_state m s = (a, s')" and "ok a" and t: "sound bk pv (tables s)"
  note places = places_frame [OF staysD [OF assms(1) run]]
  show "sound bk pv (tables s')"
    using t places assms(2) [OF _ run \<open>ok a\<close>] unfolding sound_def ledgers_agree by blast
qed

lemma sound_from_books:
  assumes "stays same_places m" "stays same_build_counts m"
    "\<And>s a s'. bk \<or> pv \<Longrightarrow> run_state m s = (a, s') \<Longrightarrow> ok a \<Longrightarrow> books (tables s) \<Longrightarrow> books (tables s')"
  shows "written (sound bk pv) ok m"
  by (rule sound_from_agree [OF assms(1)])
    (blast intro: agree_from_books staysD [OF assms(2)] assms(3) accountsD(1))

lemma sound_add: "(bk \<or> pv \<Longrightarrow> inv_quantity x \<le> int_max \<and> plain_type ty) \<Longrightarrow>
    written (sound bk pv) got (add_or_increase_in_current_transaction x ty rt ri n)"
  by (rule sound_from_books [OF storage_add counts_add]) (auto simp: got_def dest: books_add_or_increase)

lemma sound_stock:
  "written (sound bk pv) (\<lambda>b. b) (correct_entry_in_current_transaction i p q n)"
  "written (sound bk pv) succeeds (remove_entry_in_current_transaction i q n)"
  "written (sound bk pv) (\<lambda>b. b) (mark_lost_in_current_transaction i q n)"
  "(bk \<or> pv \<Longrightarrow> q \<le> int_max) \<Longrightarrow> written (sound bk pv) got (mark_found_in_current_transaction ws p c q d cond own n)"
  "written (sound bk pv) got (move_inventory_in_current_transaction i d q)"
proof -
  show "written (sound bk pv) (\<lambda>b. b) (correct_entry_in_current_transaction i p q n)"
    by (rule sound_from_books [OF storage_stock(1) counts_stock(1)]) (auto dest: books_correct_entry)
  show "written (sound bk pv) succeeds (remove_entry_in_current_transaction i q n)"
    by (rule sound_from_books [OF storage_stock(2) counts_stock(2)]) (auto simp: succeeds_iff dest: books_remove_entry)
  show "written (sound bk pv) (\<lambda>b. b) (mark_lost_in_current_transaction i q n)"
    by (rule sound_from_books [OF storage_stock(3) counts_stock(3)]) (auto dest: books_mark_lost)
  show "(bk \<or> pv \<Longrightarrow> q \<le> int_max) \<Longrightarrow> written (sound bk pv) got (mark_found_in_current_transaction ws p c q d cond own n)"
    by (rule sound_from_books [OF storage_stock(4) counts_stock(4)]) (auto simp: got_def dest: books_mark_found)
  show "written (sound bk pv) got (move_inventory_in_current_transaction i d q)"
    by (rule sound_from_books [OF storage_move counts_move]) (auto simp: got_def dest: books_move)
qed

text \<open>The edit of a record keeps the constraints, and the books it may break.\<close>

lemma sound_edit: "\<not> bk \<Longrightarrow> \<not> pv \<Longrightarrow> written (sound bk pv) got (update_or_merge_in_current_transaction x)"
  by (rule sound_from_agree [OF storage_edit]) simp

text \<open>A successful body of a Build operation.\<close>

lemma written_reports: "written P (\<lambda>b. b) (reports m) \<longleftrightarrow> written P succeeds m"
proof -
  have "run_state m s = (fst (run_state m s), snd (run_state m s))" for s by simp
  then show ?thesis unfolding written_def run_reports by (metis fst_conv snd_conv)
qed

lemma sound_build:
  assumes "bk \<or> pv \<Longrightarrow> call_in_range c" "\<And>t. pv \<Longrightarrow> accounts t \<Longrightarrow> keeps_kinds t c"
  shows "written (sound bk pv) (\<lambda>b. b) (call_body c)"
  unfolding written_def
proof (intro allI impI)
  fix s a s'
  assume run: "run_state (call_body c) s = (a, s')" and "a" and t: "sound bk pv (tables s)"
  then have run: "run_state (call_body c) s = (True, s')" by simp
  show "sound bk pv (tables s')"
    using t places_frame [OF staysD [OF storage_call_body run]] body_ledgers [OF run] body_accounts [OF run] assms
    unfolding sound_def by blast
qed

lemma sound_builds:
  "written (sound bk pv) succeeds (create_build_in_current_transaction b)"
  "written (sound bk pv) succeeds (update_metadata_in_current_transaction i name man msg)"
  "written (sound bk pv) succeeds (set_build_active_in_current_transaction i active)"
  "written (sound bk pv) succeeds (complete_build_in_current_transaction i)"
  "written (sound bk pv) succeeds (remove_requirement_in_current_transaction i)"
  "written (sound bk pv) succeeds (replace_for_requirement_in_current_transaction i as)"
  "written (sound bk pv) succeeds (allocate_available_in_current_transaction i preferred)"
  "written (sound bk pv) succeeds (apply_pulls ps)"
  "written (sound bk pv) succeeds (disassemble_in_current_transaction i rows st)"
  "written (sound bk pv) succeeds (cancel_in_current_transaction i rows st)"
  "written (sound bk pv) succeeds (store_complete_set_spare_in_current_transaction i k l q)"
  using sound_build [of bk pv "CreateBuild b"] sound_build [of bk pv "UpdateMetadata i name man msg"]
    sound_build [of bk pv "SetBuildActive i active"] sound_build [of bk pv "CompleteBuild i"]
    sound_build [of bk pv "RemoveRequirement i"] sound_build [of bk pv "ReplaceAllocations i as"]
    sound_build [of bk pv "AllocateAvailable i preferred"] sound_build [of bk pv "RecordPulls ps"]
    sound_build [of bk pv "Disassemble i rows st"] sound_build [of bk pv "CancelBuild i rows st"]
    sound_build [of bk pv "StoreSpare i k l q"]
  by (simp_all add: written_reports)

lemma sound_add_requirement:
  "req_pulled r = 0 \<Longrightarrow> req_required r \<le> int_max \<Longrightarrow> req_released r \<le> int_max \<Longrightarrow>
   written (sound bk pv) succeeds (add_requirement_in_current_transaction r)"
  using sound_build [of bk pv "AddRequirement r"] by (simp add: written_reports int_max_def)

lemma sound_other:
  "written (sound bk pv) succeeds (create_set_build_in_current_transaction ws i name)"
  "written (sound bk pv) succeeds (create_minifig_build_in_current_transaction ws i name)"
  "written (sound bk pv) succeeds (disassemble_item_in_current_transaction i v as)"
proof -
  show "written (sound bk pv) succeeds (create_set_build_in_current_transaction ws i name)"
    by (rule sound_from_agree [OF storage_creation(1)]) (auto simp: succeeds_iff elim: create_set_build_effect)
  show "written (sound bk pv) succeeds (create_minifig_build_in_current_transaction ws i name)"
    by (rule sound_from_agree [OF storage_creation(2)]) (auto simp: succeeds_iff elim: create_minifig_build_effect)
  show "written (sound bk pv) succeeds (disassemble_item_in_current_transaction i v as)"
    by (rule sound_from_agree [OF storage_disassemble_item]) (auto simp: succeeds_iff elim: disassemble_item_effect)
qed

lemma sound_item: "written (sound bk pv) succeeds (item_operation c)"
  by (rule sound_from_agree [OF storage_items])
    (blast intro: accounts_frame staysD [OF books_items] validD [OF valid_item_operation] accountsD(4))

lemma sound_place: "written (sound bk pv) (\<lambda>r. True) (call_storage c)"
  unfolding written_def
proof (intro allI impI)
  fix s r s'
  assume run: "run_state (call_storage c) s = (r, s')" and t: "sound bk pv (tables s)"
  have "hierarchy (tables s')"
    using run t
    by (cases c) (auto simp: sound_def dest: add_location_hierarchy edit_location_hierarchy set_location_active_hierarchy)
  moreover have c: "constraints (tables s')"
    using validD [OF books_storage(2) run] t by (simp add: sound_def)
  moreover have "agree d (tables s) \<Longrightarrow> agree d (tables s')" for d
    by (rule accounts_frame [OF staysD [OF books_storage(1) run] c])
  ultimately show "sound bk pv (tables s')" using t unfolding sound_def ledgers_agree by blast
qed

end
