(* ===== verification/HostSoundness.thy ===== *)
theory HostSoundness
  imports HostServices
begin

text \<open>
  What every remote mutation that succeeds keeps: the constraints and the storage forest always, the
  books unless it edits an inventory record, the accounts of the Builds unless it also edits a
  requirement with pulled pieces.
\<close>

section \<open>What the mutations only read\<close>

lemma reads_stock_lookups [reads_rules]:
  "reads_only (scalar_id q)" "reads_only (valid_workspace ws)" "reads_only (valid_storage i ws)"
  "reads_only (check_unallocated i)" "reads_only (stock_answer a b c d e f)"
  by (auto simp: scalar_id_def valid_workspace_def valid_storage_def check_unallocated_def stock_answer_def
      intro!: reads_rules)

lemma reads_stock_identities [reads_rules]:
  "reads_only (part_by_number n)" "reads_only (color_by_external k)" "reads_only (manufacturer_by_name n)"
  "reads_only (stock_identities r)" "reads_only (load_source modified operation r)"
  by (auto simp: part_by_number_def color_by_external_def manufacturer_by_name_def stock_identities_def load_source_def
      intro!: reads_rules)

lemma reads_stock_success [reads_rules]: "reads_only m \<Longrightarrow> reads_only (stock_success r single m)"
  by (auto simp: stock_success_def intro!: reads_rules)

lemma reads_check_row [reads_rules]: "reads_only (check_row ws b seen asked row)"
  by (auto simp: check_row_def intro!: reads_rules split: option.splits)

lemma reads_check_rows [reads_rules]: "reads_only (check_rows ws b rows seen asked)"
  by (induction rows arbitrary: seen asked) (auto intro!: reads_rules)

lemma reads_pulled_totals [reads_rules]: "reads_only (pulled_totals ks)"
  by (induction ks) (auto intro!: reads_rules)

lemma reads_location_type [reads_rules]: "reads_only (location_type_by_id i)"
  by (auto simp: location_type_by_id_def intro!: reads_rules)

lemma reads_item_lookups [reads_rules]:
  "reads_only (color_number i)" "reads_only (set_number_of i)" "reads_only (minifig_number_of i)"
  "reads_only (minifig_by_number n)" "reads_only (exact_set_matches n)"
  by (auto simp: color_number_def set_number_of_def minifig_number_of_def minifig_by_number_def
      exact_set_matches_def intro!: reads_rules)

lemma reads_item_matches [reads_rules]:
  "reads_only (item_matches stamp i e)" "reads_only (item_detail i)"
  by (auto simp: item_matches_def item_detail_def intro!: reads_rules)

lemma reads_portable_rows [reads_rules]:
  "reads_only (portable_build_rows rs k)" "reads_only (portable_catalog_rows lego rows k)"
proof -
  show "reads_only (portable_build_rows rs k)"
    by (induction rs arbitrary: k) (auto intro!: reads_rules split: option.splits)
  show "reads_only (portable_catalog_rows lego rows k)"
    by (induction lego rows k rule: portable_catalog_rows.induct) (auto intro!: reads_rules)
qed

lemma reads_prod [reads_rules]: "(\<And>a b. reads_only (f a b)) \<Longrightarrow> reads_only (case x of (a, b) \<Rightarrow> f a b)"
  by (cases x) auto

lemma reads_linked_plan [reads_rules]: "reads_only (linked_collection_disassembly_return_plan i)"
  by (auto simp: linked_collection_disassembly_return_plan_def intro!: reads_rules)

lemma reads_preview [reads_rules]: "reads_only (portable_preview ws i)"
  by (auto simp: portable_preview_def Let_def intro!: reads_rules)

lemma reads_check_chosen [reads_rules]: "reads_only (check_chosen ws rs ps)"
  by (induction ps) (auto intro!: reads_rules split: option.splits)

lemma reads_build_lookups [reads_rules]:
  "reads_only (part_with_number n)" "reads_only (color_with_number k)" "reads_only (number_of_color i)"
  "reads_only (manufacturer_named n)" "reads_only (requested_manufacturer n needed)"
  "reads_only (manufacturer_display b)"
  by (auto simp: part_with_number_def color_with_number_def number_of_color_def manufacturer_named_def
      requested_manufacturer_def manufacturer_display_def intro!: reads_rules)

lemma reads_build_matches [reads_rules]:
  "reads_only (build_matches x b e)" "reads_only (requirement_matches x r re)" "reads_only (requested_substitutes q)"
  by (auto simp: build_matches_def requirement_matches_def requested_substitutes_def intro!: reads_rules)

lemma reads_desired [reads_rules]: "reads_only (desired_allocations x ws current rows)"
  by (induction rows) (auto intro!: reads_rules)

lemma reads_destination [reads_rules]: "reads_only (valid_inventory_destination ws i)"
  by (auto simp: valid_inventory_destination_def intro!: reads_rules)

lemma reads_chosen_return [reads_rules]: "reads_only (chosen_return b row)"
  by (auto simp: chosen_return_def intro!: reads_rules)

lemma reads_chosen_returns [reads_rules]: "reads_only (chosen_returns b rows)"
  by (induction rows) (auto intro!: reads_rules)

lemmas success_lookups [success_rules] =
  reads_stock_lookups [THEN success_read] reads_stock_identities [THEN success_read]
  reads_check_rows [THEN success_read] reads_pulled_totals [THEN success_read]
  reads_location_type [THEN success_read] reads_item_lookups [THEN success_read]
  reads_item_matches [THEN success_read] reads_preview [THEN success_read]
  reads_check_chosen [THEN success_read] reads_build_lookups [THEN success_read]
  reads_build_matches [THEN success_read] reads_desired [THEN success_read]
  reads_destination [THEN success_read] reads_chosen_returns [THEN success_read]
  reads_build_get [THEN success_read] reads_requirement_get [THEN success_read]
  reads_allocation_get [THEN success_read] reads_collection [THEN success_read]
  reads_plan [THEN success_read] reads_linked_plan [THEN success_read] reads_build_plan [THEN success_read]
  reads_part_by_id [THEN success_read]

lemmas success_answers [success_rules] = reads_stock_success [THEN success_reads]

section \<open>Each mutation\<close>

lemma fails_sum [simp]: "fails (ret (requirement_outcome ws (Inl e)))" "fails (ret (allocations_outcome b (Inl e)))"
  "fails (ret (build_outcome flow (Inl e)))" "fails (ret (lifecycle_outcome flow (Inl e)))"
  "fails (item_outcome (Inl e'))" "fails (parts_source_outcome (Inl e'))"
  by (simp_all add: requirement_outcome_def allocations_outcome_def build_outcome_def lifecycle_outcome_def
      item_outcome_def parts_source_outcome_def)

lemma of_changed_Inl [simp]: "of_changed (Inl e) = Inl e"
  by (simp add: of_changed_def)

lemma success_item_outcome [success_rules]:
  "on_success P (item_outcome r)" "on_success P (parts_source_outcome r)"
  by (auto simp: item_outcome_def parts_source_outcome_def intro!: success_rules)

lemma plain_empty: "plain_type []"
  by (simp add: plain_type_def)

lemma stock_mutation_sound:
  assumes "bk \<or> pv \<Longrightarrow> operation \<noteq> ''inventory.edit''" "rst_quantity r \<le> int_max"
  shows "on_success (sound bk pv) (stock_mutation modified operation r)"
proof -
  note writes = write_option [OF sound_add] write_bool [OF sound_stock(1)] write_sum [OF sound_stock(2)]
    write_bool [OF sound_stock(3)] write_option [OF sound_stock(4)] write_option [OF sound_stock(5)]
    write_option [OF sound_edit]
  have "on_success (sound bk pv) (stock_add r)"
    by (auto simp: stock_add_def assms(2) plain_empty intro!: writes success_rules reads_rules)
  moreover have "on_success (sound bk pv) (stock_move r)" "on_success (sound bk pv) (stock_found r)"
    by (auto simp: stock_move_def stock_found_def assms(2) intro!: writes success_rules reads_rules)
  moreover have "on_success (sound bk pv) (stock_correct x r)" "on_success (sound bk pv) (stock_remove x r)"
    "on_success (sound bk pv) (stock_lost x r)" for x
    by (auto simp: stock_correct_def stock_remove_def stock_lost_def intro!: writes success_rules reads_rules)
  moreover have "on_success (sound bk pv) (stock_edit x r)" if "operation = ''inventory.edit''" for x
    using assms(1) that by (auto simp: stock_edit_def intro!: writes success_rules reads_rules)
  ultimately have "on_success (sound bk pv) (stock_operation operation source r)" for source
    unfolding stock_operation_def
    by (intro success_if success_option success_ret) simp_all
  then show ?thesis
    unfolding stock_mutation_def by (intro success_rules)
qed

lemma pull_mutation_sound: "on_success (sound bk pv) (pull_mutation q)"
  by (auto simp: pull_mutation_def intro!: success_rules write_sum [OF sound_builds(8)])

lemma place_mutation_sound: "on_success (sound bk pv) (place_mutation time_of operation q)"
proof -
  have "written (sound bk pv) succeeds (call_storage c)" for c
    using sound_place [of bk pv c] by (simp add: written_def)
  note placing = write_sum [OF this]
  show ?thesis by (auto simp: place_mutation_def intro!: placing success_rules)
qed

lemma item_mutation_sound: "on_success (sound bk pv) (item_mutation stamp digest operation r)"
proof -
  note writes = write_sum [OF sound_item] write_sum [OF sound_builds(9)] write_sum [OF sound_other(3)]
  have "on_success (sound bk pv) (do { x \<leftarrow> item_operation c; item_outcome x })"
    "on_success (sound bk pv) (do { x \<leftarrow> item_operation c; parts_source_outcome x })" for c
    by (auto intro!: writes success_rules)
  moreover have "on_success (sound bk pv) (disassemble_linked item plan rs)" "on_success (sound bk pv) (disassemble_catalog item plan rs)"
    for item plan rs
    by (auto simp: disassemble_linked_def disassemble_catalog_def intro!: writes success_rules)
  note ends = this
  have "on_success (sound bk pv) (item_disassemble stamp digest r item)" for item
  proof -
    have ended: "written (sound bk pv) succeeds (if itm_source_build item > 0 then disassemble_linked item plan rs
        else disassemble_catalog item plan rs)" for plan rs
      using ends unfolding on_success_def written_def succeeds_iff by (auto split: if_splits)
    show ?thesis
      by (auto simp: item_disassemble_def intro!: write_sum [OF ended] success_rules)
  qed
  moreover have "on_success (sound bk pv) (item_add r)"
    unfolding item_add_def by (intro success_rules calculation)
  moreover have "on_success (sound bk pv) (parts_source_set stamp r item)" for item
    unfolding parts_source_set_def by (intro success_rules calculation)
  moreover have "on_success (sound bk pv) (change_item stamp digest operation r item)" for item
    unfolding change_item_def by (intro success_rules calculation)
  ultimately show ?thesis
    unfolding item_mutation_def by (intro success_rules) auto
qed

text \<open>
  What a client must not do: change what a requirement is about when pieces are pulled for it,
  which the service would accept. The Host compares the pulled pieces with those the request
  expects, so the request shows it. The amounts are those the reader lets through.
\<close>

definition build_request_fits :: "bool \<Rightarrow> string \<Rightarrow> build_request \<Rightarrow> bool" where
  "build_request_fits pv operation q \<longleftrightarrow> brq_required q \<le> int_max
     \<and> (pv \<and> operation = ''builds.requirements.edit'' \<longrightarrow> rxp_pulled (brq_expected_requirement q) = 0)"

lemma requirement_edit_sound:
  assumes "run_state (requirement_edit r q) s = (Inr a, s')" "sound bk pv (tables s)" "brq_required q \<le> int_max"
    "find (\<lambda>x. req_id x = req_id r) (requirements (tables s)) = Some r" "pv \<Longrightarrow> req_pulled r = 0"
  shows "sound bk pv (tables s')"
proof -
  obtain sub s1 where sub: "run_state (requested_substitutes q) s = (sub, s1)" by fastforce
  then have t: "tables s1 = tables s" using after_reading [OF reads_build_matches(3)] by blast
  from assms(1) sub obtain part color where "sub = Some (part, color)"
    by (auto simp: requirement_edit_def run_simps split: option.splits)
  then obtain p c x where "run_state (edit_requirement_in_current_transaction (req_id r) p c (brq_required q)
      (brq_spare q)) s1 = (Inr x, s')"
    using assms(1) sub
    by (auto simp: requirement_edit_def run_simps requirement_outcome_def split: prod.splits sum.splits)
  then have run: "run_state (call_body (EditRequirement (req_id r) p c (brq_required q) (brq_spare q))) s1 = (True, s')"
    by (simp add: run_reports)
  have "keeps_kinds (tables s1) (EditRequirement (req_id r) p c (brq_required q) (brq_spare q))" if "pv"
  proof -
    have "y = r" if "y \<in> set (requirements (tables s1))" "req_id y = req_id r" for y
      using that assms(2,4) req.lookup_unique [OF constraints_requirement_keys, of "tables s" y] t
      by (auto simp: sound_def)
    with assms(5) [OF that] show ?thesis by (auto simp: list_all_iff)
  qed
  with places_frame [OF staysD [OF storage_call_body run]] body_ledgers [OF run] body_accounts [OF run] assms(2,3) t
  show ?thesis unfolding sound_def by auto
qed

lemma requirement_change_sound:
  assumes "pv \<Longrightarrow> operation = ''builds.requirements.edit'' \<Longrightarrow> rxp_pulled (brq_expected_requirement q) = 0"
    "brq_required q \<le> int_max"
  shows "on_success (sound bk pv) (requirement_change x operation q)"
  unfolding on_success_def
proof (intro allI impI)
  fix s a s'
  assume run: "run_state (requirement_change x operation q) s = (Inr a, s')" and sound: "sound bk pv (tables s)"
  obtain row s1 where row: "run_state (requirement_try_get (int32 (brq_requirement q))) s = (row, s1)" by fastforce
  with run obtain r where r: "row = Some (Some r)"
    by (auto simp: requirement_change_def run_simps split: option.splits)
  note found = requirement_try_get_found [OF row [unfolded r]]
  obtain build s2 where build: "run_state (build_get (req_build r)) s1 = (build, s2)" by fastforce
  with run row r obtain b where b: "build = Some b"
    by (auto simp: requirement_change_def run_simps split: option.splits)
  obtain same s3 where same: "run_state (requirement_matches x r (brq_expected_requirement q)) s2 = (same, s3)"
    by fastforce
  have t: "tables s3 = tables s"
    using found after_reading [OF reads_build_get(2) build] after_reading [OF reads_build_matches(2) same] by simp
  from run row r build b same have "same" and rest: "run_state (if operation = ''builds.requirements.remove'' then do {
        removed \<leftarrow> remove_requirement_in_current_transaction (req_id r);
        ret (requirement_outcome (brq_workspace q) removed)
      } else if operation = ''builds.requirements.edit'' then requirement_edit r q
      else allocations_set x r q) s3 = (Inr a, s')"
    by (auto simp: requirement_change_def run_simps split: if_splits)
  have "req_id r = int32 (brq_requirement q)" using found by (auto dest: find_SomeD)
  then have this_row: "find (\<lambda>x. req_id x = req_id r) (requirements (tables s)) = Some r"
    using found by simp
  have pulled: "req_pulled r = rxp_pulled (brq_expected_requirement q)"
    using same \<open>same\<close> by (auto simp: requirement_matches_def run_simps split: prod.splits)
  have sets: "on_success (sound bk pv) (allocations_set x r q)"
    by (auto simp: allocations_set_def intro!: success_rules write_sum [OF sound_builds(6)])
  have removes: "on_success (sound bk pv) (do {
        removed \<leftarrow> remove_requirement_in_current_transaction (req_id r);
        ret (requirement_outcome (brq_workspace q) removed)
      })"
    by (auto intro!: success_rules write_sum [OF sound_builds(5)])
  have start: "sound bk pv (tables s3)" using sound t by simp
  consider "operation = ''builds.requirements.remove''" | "operation = ''builds.requirements.edit''"
    | "operation \<noteq> ''builds.requirements.remove''" "operation \<noteq> ''builds.requirements.edit''" by blast
  then show "sound bk pv (tables s')"
  proof cases
    case 1
    with rest have "run_state (do {
        removed \<leftarrow> remove_requirement_in_current_transaction (req_id r);
        ret (requirement_outcome (brq_workspace q) removed)
      }) s3 = (Inr a, s')" by (simp only: simp_thms if_True)
    then show ?thesis by (rule success_apply [OF removes _ start])
  next
    case 2
    then have "run_state (requirement_edit r q) s3 = (Inr a, s')" using rest by simp
    then show ?thesis
      by (rule requirement_edit_sound [OF _ start assms(2)]) (use this_row t pulled assms(1) 2 in simp_all)
  next
    case 3
    then have "run_state (allocations_set x r q) s3 = (Inr a, s')" using rest by simp
    then show ?thesis by (rule success_apply [OF sets _ start])
  qed
qed

lemma requirement_add_sound:
  assumes "brq_required q \<le> int_max"
  shows "on_success (sound bk pv) (requirement_add q)"
proof -
  have "0 \<le> int_max" by (simp add: int_max_def)
  then show ?thesis
    using assms
    by (auto simp: requirement_add_def blank_requirement_def split: option.splits
        intro!: success_rules write_sum [OF sound_add_requirement])
qed

lemma build_add_sound: "on_success (sound bk pv) (build_add q)"
proof -
  have "on_success (sound bk pv) (add_plain_build q m c)" for m c
    by (auto simp: add_plain_build_def intro!: success_rules write_sum [OF sound_builds(1)])
  moreover have "on_success (sound bk pv) (add_catalog_build q m c)" for m c
    by (auto simp: add_catalog_build_def intro!: success_rules write_sum [OF sound_other(1)]
        write_sum [OF sound_builds(2)])
  ultimately show ?thesis
    unfolding build_add_def by (intro success_rules) auto
qed

lemma build_change_sound: "on_success (sound bk pv) (build_change x operation q)"
proof -
  have "on_success (sound bk pv) (spare_store x b q)" for b
    by (auto simp: spare_store_def intro!: success_rules write_sum [OF sound_builds(11)])
  moreover have "on_success (sound bk pv) (build_edit b q)" for b
    by (auto simp: build_edit_def intro!: success_rules write_sum [OF sound_builds(2)])
  moreover have "on_success (sound bk pv) (build_complete b)" for b
    by (auto simp: build_complete_def intro!: success_rules write_sum [OF sound_builds(4)])
  moreover have "on_success (sound bk pv) (do {
        changed \<leftarrow> set_build_active_in_current_transaction (bld_id b) (brq_active q);
        ret (build_outcome BuildMetadataWork (of_changed changed))
      })" for b
    by (auto intro!: success_rules write_sum [OF sound_builds(3)])
  moreover have "on_success (sound bk pv) (build_end operation b q)" for b
    by (auto simp: build_end_def build_disassemble_def Let_def
        intro!: success_rules write_sum [OF sound_builds(9)] write_sum [OF sound_builds(10)])
  ultimately show ?thesis
    unfolding build_change_def by (intro success_rules) auto
qed

lemma build_mutation_sound:
  assumes "build_request_fits pv operation q"
  shows "on_success (sound bk pv) (build_mutation x operation q)"
proof -
  have "on_success (sound bk pv) (allocate_all x q)"
    by (auto simp: allocate_all_def intro!: success_rules write_sum [OF sound_builds(7)])
  then show ?thesis
    unfolding build_mutation_def
    using assms requirement_add_sound requirement_change_sound build_add_sound build_change_sound
    by (intro success_if) (auto simp: build_request_fits_def)
qed

section \<open>The Part Reference\<close>

lemma reads_references [reads_rules]:
  "reads_only all_references" "reads_only (reference_by_id i)" "reads_only (shown_entries m rs)"
  "reads_only (effective_entries m)"
proof -
  show one: "reads_only all_references" "reads_only (reference_by_id i)"
    by (auto simp: all_references_def reference_by_id_def intro!: reads_rules)
  have shown: "reads_only (shown_entries m rs)" for rs
    by (induction rs) (auto intro!: reads_rules reads_part_by_id)
  then show "reads_only (shown_entries m rs)" .
  show "reads_only (effective_entries m)"
    by (auto simp: effective_entries_def intro!: reads_rules one shown)
qed

lemma sound_frames:
  assumes "stays same_places m" "stays same_books m"
  shows "written (sound bk pv) ok m"
proof (rule sound_from_agree [OF assms(1)])
  fix d s a s'
  assume run: "run_state m s = (a, s')" and d: "agree d (tables s)"
  show "agree d (tables s')"
    by (rule accounts_frame [OF staysD [OF assms(2) run] places_frame(2) [OF staysD [OF assms(1) run]] d])
      (rule accountsD(4) [OF d])
qed

lemma reference_statements [stays_rules]:
  "stays same_places (reference_create p c sec pl a)" "stays same_places (reference_remove i)"
  "stays same_books (reference_create p c sec pl a)" "stays same_books (reference_remove i)"
  by (auto simp: reference_create_def reference_remove_def insert_reference_def delete_reference_def Let_def
      same_storage_def same_books_def intro!: stays_rules places_exec books_frame.stays_exec)

lemma sound_reference:
  "written (sound bk pv) ok (add_reference m p c sec pl a)" "written (sound bk pv) ok (remove_reference i)"
proof -
  note reads = reads_references(4) [THEN place_frame.stays_reads] reads_references(4) [THEN books_frame.stays_reads]
  show "written (sound bk pv) ok (add_reference m p c sec pl a)"
    by (rule sound_frames) (auto simp: add_reference_def Let_def intro!: stays_rules reads)
  show "written (sound bk pv) ok (remove_reference i)"
    by (rule sound_frames) (auto simp: remove_reference_def intro!: stays_rules)
qed

lemma reference_mutation_sound: "on_success (sound bk pv) (reference_mutation loaded stamp operation q)"
proof -
  note reads = reads_references(1,2) [THEN success_read] reads_build_lookups [THEN success_read]
  have "on_success (sound bk pv) (reference_add m q)" for m
    unfolding reference_add_def
    by (intro success_rules reads write_sum [OF sound_reference(1)]) (auto intro!: success_rules reads reads_rules)
  moreover have "on_success (sound bk pv) (reference_delete stamp q)" for stamp
    unfolding reference_delete_def
    by (auto intro!: success_rules reads reads_rules reads_part_by_id [THEN success_read]
        success_write [OF sound_reference(2) [where ok = "\<lambda>r. True"]])
  ultimately show ?thesis
    unfolding reference_mutation_def by (auto intro!: success_rules)
qed

end
