(* ===== verification/HostHistories.thy ===== *)
theory HostHistories
  imports HostProtocol HostSoundness
begin

text \<open>
  The Host at work: its own user interface calls the services directly, each call in a transaction
  of its own, while the worker runs the mutations of the clients one at a time. Both write the same
  database; a history is any sequence of the two, with any statements failing.
\<close>

section \<open>Requests of the clients\<close>

text \<open>
  Two requests the Host accepts break the books or the provenance: the edit of an inventory record,
  which may merge records without a movement, and the edit of a requirement some of whose pieces are
  pulled.
\<close>

fun edits_record :: "host_request \<Rightarrow> bool" where
  "edits_record (StockRequest operation r) \<longleftrightarrow> operation = ''inventory.edit''"
| "edits_record _ \<longleftrightarrow> False"

fun edits_pulled :: "host_request \<Rightarrow> bool" where
  "edits_pulled (BuildRequest operation q) \<longleftrightarrow>
     operation = ''builds.requirements.edit'' \<and> rxp_pulled (brq_expected_requirement q) \<noteq> 0"
| "edits_pulled _ \<longleftrightarrow> False"

fun request_fits :: "bool \<Rightarrow> bool \<Rightarrow> host_request \<Rightarrow> bool" where
  "request_fits bk pv (StockRequest operation r) \<longleftrightarrow>
     (bk \<or> pv \<longrightarrow> operation \<noteq> ''inventory.edit'') \<and> rst_quantity r \<le> int_max"
| "request_fits bk pv (BuildRequest operation q) \<longleftrightarrow> build_request_fits pv operation q"
| "request_fits bk pv _ \<longleftrightarrow> True"

text \<open>Whatever the readers let through is in the range of the services.\<close>

lemma accepted_fits:
  assumes "read_request time_of operation md = Some request"
    "bk \<or> pv \<Longrightarrow> \<not> edits_record request" "pv \<Longrightarrow> \<not> edits_pulled request"
  shows "request_fits bk pv request"
proof (cases request)
  case (StockRequest op r)
  with read_request_kind [OF assms(1)] stock_accepted(2) [of operation md r] assms(2) show ?thesis
    by (simp add: int_max_def maximum_quantity_def)
next
  case (BuildRequest op q)
  with read_request_kind [OF assms(1)] have "op = operation" "build_from_metadata (is_utc time_of) operation md = Some q"
    by simp_all
  with build_again [OF this(2)] BuildRequest assms(3) show ?thesis
    by (auto simp: build_request_fits_def int_max_def maximum_pieces_def)
qed simp_all

text \<open>The request the Host runs for a message, if it accepts the message.\<close>

definition accepted_request :: "host_setting \<Rightarrow> bool \<Rightarrow> request_context \<Rightarrow> host_message \<Rightarrow> host_request option" where
  "accepted_request h authenticated client m =
     (case dispatch_mutation (hst_texts h) (hst_digest h) (hst_epoch h) authenticated client m of
        Inl code \<Rightarrow> None | Inr (c, hash, request) \<Rightarrow> Some request)"

section \<open>Calls of the local user interface\<close>

datatype local_call =
    LocalStock stock_call
  | LocalPlace storage_call
  | LocalItem item_call
  | LocalBuild build_call
  | LocalCatalogBuild bool int int string   \<comment> \<open>of a Minifig or of a Set\<close>
  | LocalDisassembly int "int option" "destination_assignment list"
  | LocalReference manifest int string string placement string
  | LocalReferenceRemoval int

fun run_local :: "local_call \<Rightarrow> session \<Rightarrow> session" where
  "run_local (LocalStock c) s = snd (run_state (call_stock c) s)"
| "run_local (LocalPlace c) s = snd (run_state (call_storage c) s)"
| "run_local (LocalItem c) s = snd (run_state (collection_service c) s)"
| "run_local (LocalBuild c) s = snd (run_state (run_call c) s)"
| "run_local (LocalCatalogBuild minifig ws i name) s =
     snd (run_state (if minifig then create_minifig_build ws i name else create_set_build ws i name) s)"
| "run_local (LocalDisassembly i expected as) s = snd (run_state (disassemble_item i expected as) s)"
| "run_local (LocalReference m p catalog section pl anchor) s = snd (run_state (add_reference m p catalog section pl anchor) s)"
| "run_local (LocalReferenceRemoval i) s = snd (run_state (remove_reference i) s)"

text \<open>
  The arguments of the user interface are C++ \<open>int\<close> values, and it gives an addition or a set quantity
  a movement type of its own, none of those the move, the merge and the lost and found pieces have.
\<close>

fun local_in_range :: "local_call \<Rightarrow> bool" where
  "local_in_range (LocalStock c) \<longleftrightarrow> permitted c"
| "local_in_range (LocalBuild c) \<longleftrightarrow> call_in_range c"
| "local_in_range _ \<longleftrightarrow> True"

fun local_keeps_kinds :: "tables \<Rightarrow> local_call \<Rightarrow> bool" where
  "local_keeps_kinds t (LocalBuild c) \<longleftrightarrow> keeps_kinds t c"
| "local_keeps_kinds t _ \<longleftrightarrow> True"

text \<open>A transaction whose successful body keeps a property keeps it however it ends.\<close>

lemma transaction_keeps:
  assumes "keeps_connection body" "written P ok body" "\<not> ok not_begun" "\<not> ok not_committed"
    "saved s = None" "P (tables s)"
  shows "P (tables (snd (run_state (transactional ok not_begun not_committed body) s)))"
proof -
  obtain r s' where run: "run_state (transactional ok not_begun not_committed body) s = (r, s')" by fastforce
  show ?thesis
    using transaction_body.outcome [OF transaction_body.intro [OF assms(1)] run assms(5,3,4)] assms(2,6) run
    by (auto simp: written_def split: if_splits)
qed

lemma service_keeps:
  assumes "keeps_connection body" "written P succeeds body" "saved s = None" "P (tables s)"
  shows "P (tables (snd (run_state (host_transaction refused failed body) s)))"
  using transaction_keeps [OF assms(1,2) _ _ assms(3,4), of "Inl failed" "Inl failed"] assms(4)
  by (simp add: host_transaction_def run_simps split: if_splits)

lemma sound_set_quantity:
  assumes "bk \<or> pv \<Longrightarrow> q \<le> int_max \<and> plain_type ty" "saved s = None" "sound bk pv (tables s)"
  shows "sound bk pv (tables (snd (run_state (set_quantity_with_movement_managed i q ty rt ri n) s)))"
proof -
  obtain r s' where run: "run_state (set_quantity_with_movement_managed i q ty rt ri n) s = (r, s')" by fastforce
  have "written (sound bk pv) (\<lambda>b. b) (set_quantity_with_movement i q ty rt ri n)"
    using assms(1) by (intro sound_from_books storage_inventory counts_inventory) (auto dest: books_set_quantity)
  then show ?thesis
    using set_quantity_managed_run [OF run assms(2)] assms(3) run by (auto simp: written_def) metis
qed

lemma stock_local_sound:
  assumes "bk \<or> pv \<Longrightarrow> permitted c" "saved s = None" "sound bk pv (tables s)"
  shows "sound bk pv (tables (snd (run_state (call_stock c) s)))"
proof (cases c)
  case (AddOrIncrease r ty rt ri n)
  with assms transaction_keeps [OF keeps_add_or_increase sound_add _ _ assms(2,3)] show ?thesis
    by (auto simp: add_or_increase_def run_simps split_beta)
next
  case (SetQuantity i q ty rt ri n)
  with assms sound_set_quantity show ?thesis by simp
next
  case (CorrectEntry i p q n)
  with transaction_keeps [OF keeps_correct_entry sound_stock(1) _ _ assms(2,3), of False False] show ?thesis
    by (simp add: correct_entry_def)
next
  case (RemoveEntry i q n)
  with transaction_keeps [OF keeps_remove_entry sound_stock(2) _ _ assms(2,3)] show ?thesis
    by (simp add: remove_entry_def run_simps split_beta)
next
  case (MoveInventory i d q)
  with transaction_keeps [OF keeps_move_inventory sound_stock(5) _ _ assms(2,3)] show ?thesis
    by (simp add: move_inventory_def run_simps split_beta)
next
  case (MarkLost i q n)
  with transaction_keeps [OF keeps_mark_lost sound_stock(3) _ _ assms(2,3), of False False] show ?thesis
    by (simp add: mark_lost_def)
next
  case (MarkFound ws p c' q d cond own n)
  with assms(1) transaction_keeps [OF keeps_mark_found sound_stock(4) _ _ assms(2,3)] show ?thesis
    by (simp add: mark_found_def run_simps split_beta)
qed

lemma build_local_sound:
  assumes "bk \<or> pv \<Longrightarrow> call_in_range c" "pv \<Longrightarrow> keeps_kinds (tables s) c" "saved s = None" "sound bk pv (tables s)"
  shows "sound bk pv (tables (snd (run_state (run_call c) s)))"
proof (rule call_keeps(1) [where P = "sound bk pv", OF assms(3,4)])
  fix u u'
  assume u: "tables u = tables s" "run_state (call_body c) u = (True, u')"
  note kept = body_ledgers [OF u(2)] body_accounts [OF u(2), where d = no_drift]
  show "sound bk pv (tables u')"
    using assms kept places_frame [OF staysD [OF storage_call_body u(2)]] u(1) unfolding sound_def
    by (metis (mono_tags))
qed

lemma local_sound:
  assumes "bk \<or> pv \<Longrightarrow> local_in_range c" "pv \<Longrightarrow> local_keeps_kinds (tables s) c" "saved s = None"
    "sound bk pv (tables s)"
  shows "sound bk pv (tables (run_local c s))"
proof (cases c)
  case (LocalStock call)
  with assms stock_local_sound show ?thesis by simp
next
  case (LocalPlace call)
  with assms sound_place [of bk pv call] show ?thesis
    unfolding written_def by (metis prod.collapse run_local.simps(2))
next
  case (LocalItem call)
  with service_keeps [OF item_body.body_keeps sound_item assms(3,4)] show ?thesis
    by (simp add: collection_service_def)
next
  case (LocalBuild call)
  with assms build_local_sound show ?thesis by simp
next
  case (LocalCatalogBuild minifig ws i name)
  with transaction_keeps [OF keeps_creation(1) sound_other(1) _ _ assms(3,4)]
    transaction_keeps [OF keeps_creation(2) sound_other(2) _ _ assms(3,4)] show ?thesis
    by (simp add: create_minifig_build_def create_set_build_def)
next
  case (LocalDisassembly i expected as)
  with service_keeps [OF disassemble_item_body.body_keeps sound_other(3) assms(3,4)] assms(4) show ?thesis
    by (cases "expected = None") (simp_all add: disassemble_item_def run_simps)
next
  case (LocalReference m p catalog sect pl anchor)
  with assms(4) sound_reference(1) [of bk pv "\<lambda>r. True" m p catalog sect pl anchor] show ?thesis
    unfolding written_def by (metis prod.collapse run_local.simps(7))
next
  case (LocalReferenceRemoval i)
  with assms(4) sound_reference(2) [of bk pv "\<lambda>r. True" i] show ?thesis
    unfolding written_def by (metis prod.collapse run_local.simps(8))
qed

section \<open>Histories\<close>

lemma answered_success:
  assumes "on_success P m"
  shows "on_success P (answered f m)"
  unfolding on_success_def
proof (intro allI impI)
  fix s a s'
  assume run: "run_state (answered f m) s = (Inr a, s')" and P: "P (tables s)"
  obtain r s1 where first: "run_state m s = (r, s1)" by fastforce
  with run have "s1 = s'" "succeeds r" by (cases r; auto simp: answered_def run_simps)+
  then show "P (tables s')" using first success_apply [OF assms _ P] by (auto simp: succeeds_iff)
qed

lemma host_operation_sound: "request_fits bk pv request \<Longrightarrow> on_success (sound bk pv) (host_operation x request)"
  by (cases request)
    (auto intro!: answered_success stock_mutation_sound pull_mutation_sound place_mutation_sound
      item_mutation_sound build_mutation_sound reference_mutation_sound)

lemma host_mutation_sound:
  assumes "oc_success (fst (host_mutation x request failing now t))" "request_fits bk pv request" "sound bk pv t"
  shows "sound bk pv (snd (host_mutation x request failing now t))"
proof -
  obtain r s' where run: "run_state (host_operation x request) (in_worker t failing now) = (r, s')" by fastforce
  with assms(1) obtain a where "r = Inr a"
    by (cases r) (auto simp: host_mutation_def as_mutation_def outcome_of_def)
  with success_apply [OF host_operation_sound [OF assms(2)] run [unfolded this]] assms(3) run
  show ?thesis by (simp add: host_mutation_def as_mutation_def in_worker_def)
qed

lemma receive_sound:
  assumes "receive_mutation h authenticated client env failing now m db = (events, db')"
    "\<And>r. accepted_request h authenticated client m = Some r \<Longrightarrow> bk \<or> pv \<Longrightarrow> \<not> edits_record r"
    "\<And>r. accepted_request h authenticated client m = Some r \<Longrightarrow> pv \<Longrightarrow> \<not> edits_pulled r"
    "sound bk pv (hd_tables db)"
  shows "sound bk pv (hd_tables db')"
proof (cases "dispatch_mutation (hst_texts h) (hst_digest h) (hst_epoch h) authenticated client m")
  case (Inl code)
  with assms show ?thesis by (simp add: receive_mutation_def)
next
  case (Inr accepted)
  obtain c hash request where a: "accepted = (c, hash, request)" by (cases accepted) auto
  with Inr have "accepted_request h authenticated client m = Some request" by (simp add: accepted_request_def)
  note unharmed = assms(2,3) [OF this]
  from Inr a obtain time_of operation md where "read_request time_of operation md = Some request"
    by (auto simp: dispatch_mutation_def Let_def split: option.splits if_splits)
  then have "request_fits bk pv request" by (rule accepted_fits) (use unharmed in auto)
  moreover have "execute_mutation env c hash (host_mutation (hst_texts h) request failing now) db = (events, db')"
    using assms(1) Inr a by (simp add: receive_mutation_def)
  ultimately show ?thesis
    using call_cases [of env c hash _ db events db'] host_mutation_sound [of _ request failing now _ bk pv] assms(4) by fastforce
qed

text \<open>
  What happened to the database: a call of the user interface, with the tables it found, or a message
  of a client, with the request the Host accepted from it, if any.
\<close>

datatype happening = Locally tables local_call | Remotely "host_request option"

inductive host_works :: "(tables, host_answer) host_database \<Rightarrow> happening list \<Rightarrow>
    (tables, host_answer) host_database \<Rightarrow> bool" for db where
  opened: "host_works db [] db"
| locally: "host_works db history db1 \<Longrightarrow> tables s = hd_tables db1 \<Longrightarrow> saved s = None \<Longrightarrow>
    host_works db (history @ [Locally (tables s) c]) (db1\<lparr>hd_tables := tables (run_local c s)\<rparr>)"
| remotely: "host_works db history db1 \<Longrightarrow>
    receive_mutation h authenticated client env failing now m db1 = (events, db2) \<Longrightarrow>
    host_works db (history @ [Remotely (accepted_request h authenticated client m)]) db2"

text \<open>Happenings that cannot break the books: no remote edit of an inventory record.\<close>

fun keeps_books :: "happening \<Rightarrow> bool" where
  "keeps_books (Locally t c) \<longleftrightarrow> local_in_range c"
| "keeps_books (Remotely request) \<longleftrightarrow> (case request of None \<Rightarrow> True | Some r \<Rightarrow> \<not> edits_record r)"

text \<open>Happenings that leave the pulled pieces to the part and color they were pulled for.\<close>

fun keeps_pulled :: "happening \<Rightarrow> bool" where
  "keeps_pulled (Locally t c) \<longleftrightarrow> local_keeps_kinds t c"
| "keeps_pulled (Remotely request) \<longleftrightarrow> (case request of None \<Rightarrow> True | Some r \<Rightarrow> \<not> edits_pulled r)"

lemma history_sound:
  assumes "host_works db history db'" "sound bk pv (hd_tables db)"
    "\<forall>h\<in>set history. (bk \<or> pv \<longrightarrow> keeps_books h) \<and> (pv \<longrightarrow> keeps_pulled h)"
  shows "sound bk pv (hd_tables db')"
  using assms
proof (induction rule: host_works.induct)
  case (locally history db1 s c)
  have "sound bk pv (tables (run_local c s))"
    by (rule local_sound) (use locally in auto)
  then show ?case by simp
next
  case (remotely history db1 h authenticated client m env failing now events db2)
  show ?case
    by (rule receive_sound [OF remotely.hyps(2)]) (use remotely in auto)
qed

text \<open>
  Property C2. However the Host's own user interface and its clients take turns, whatever messages
  arrive, whichever statements, transactions and answers fail and whatever mutations are repeated, the
  constraints of the schema keep holding and the storage locations stay a forest. The inventory
  agrees with its ledger as well, unless the Host accepted a remote edit of an inventory record, and
  the manufacturer provenance of every Build agrees with what its requirements report as pulled,
  unless in addition a requirement with pulled pieces was edited remotely, or its part or color was
  changed locally, or a requirement was added that already reports pulled pieces. The user interface
  passes C++ \<open>int\<close> values and a movement type of its own.
\<close>

theorem host_stays_sound:
  assumes "host_works db history db'" "constraints (hd_tables db)" "hierarchy (hd_tables db)"
  shows "constraints (hd_tables db') \<and> hierarchy (hd_tables db')
    \<and> (ledgers (hd_tables db) \<and> (\<forall>h\<in>set history. keeps_books h) \<longrightarrow> ledgers (hd_tables db'))
    \<and> (accounts (hd_tables db) \<and> (\<forall>h\<in>set history. keeps_books h \<and> keeps_pulled h) \<longrightarrow> accounts (hd_tables db'))"
  using history_sound [OF assms(1), of False False] history_sound [OF assms(1), of True False]
    history_sound [OF assms(1), of False True] assms(2,3)
  unfolding sound_def by blast

text \<open>The Host's user loses three bricks, then a client adds four of them to another record.\<close>

definition sample_message :: host_message where
  "sample_message = \<lparr>msg_operation = ''inventory.add'', msg_minor = 5,
     msg_payload = mutation_payload [] (stock_to_metadata (sample_stock_request 0 4))\<rparr>"

definition sample_remote :: "tables \<Rightarrow> (tables, host_answer) host_database" where
  "sample_remote t = snd (receive_mutation (sample_setting []) True sample_client calm_env [] 0 sample_message
     (fresh_host t [1 \<mapsto> True]))"

lemma hierarchy_sample_progress: "hierarchy sample_progress"
  using hierarchy_frame [OF _ hierarchy_sample, of sample_progress]
  by (simp add: same_storage_def sample_progress_def)

lemma sample_dispatch:
  "dispatch_mutation sample_texts (\<lambda>j. ''hash'') [] True sample_client sample_message
    = Inr (sample_context ''inventory.add''\<lparr>mc_client := ''LegacySharedToken''\<rparr>, ''hash'',
        StockRequest ''inventory.add'' (sample_stock_request 0 4))"
  by code_simp

theorem host_stays_sound_witness:
  "let lost = tables (run_local (LocalStock (MarkLost 1 3 [])) (connect sample_progress));
       t = hd_tables (sample_remote lost)
   in accounts t \<and> hierarchy t \<and> map inv_quantity (inventory t) = [17, 10]"
proof -
  let ?lost = "tables (run_local (LocalStock (MarkLost 1 3 [])) (connect sample_progress))"
  let ?db = "fresh_host sample_progress [1 \<mapsto> True] :: (tables, host_answer) host_database"
  have "host_works ?db ([] @ [Locally sample_progress (LocalStock (MarkLost 1 3 []))]) (?db\<lparr>hd_tables := ?lost\<rparr>)"
    using locally [OF opened, where db = ?db and s = "connect sample_progress" and c = "LocalStock (MarkLost 1 3 [])"]
    by (simp add: fresh_host_def)
  moreover have "?db\<lparr>hd_tables := ?lost\<rparr> = fresh_host ?lost [1 \<mapsto> True]" by (simp add: fresh_host_def)
  ultimately have "host_works ?db ([] @ [Locally sample_progress (LocalStock (MarkLost 1 3 []))])
      (fresh_host ?lost [1 \<mapsto> True])" by metis
  from remotely [OF this prod.collapse [symmetric]]
  have works: "host_works ?db (([] @ [Locally sample_progress (LocalStock (MarkLost 1 3 []))])
      @ [Remotely (accepted_request (sample_setting []) True sample_client sample_message)]) (sample_remote ?lost)"
    unfolding sample_remote_def .
  moreover have "accepted_request (sample_setting []) True sample_client sample_message
      = Some (StockRequest ''inventory.add'' (sample_stock_request 0 4))"
    by (simp add: accepted_request_def sample_setting_def sample_dispatch)
  moreover note accounts_sample_progress hierarchy_sample_progress accountsD(4) [OF accounts_sample_progress]
  ultimately have "accounts (hd_tables (sample_remote ?lost))" "hierarchy (hd_tables (sample_remote ?lost))"
    using host_stays_sound [OF works] by (auto simp: fresh_host_def)
  moreover have "map inv_quantity (inventory (hd_tables (sample_remote ?lost))) = [17, 10]"
  proof -
    have "sample_remote ?lost = snd (execute_mutation calm_env (sample_context ''inventory.add''\<lparr>mc_client := ''LegacySharedToken''\<rparr>) ''hash''
        (host_mutation sample_texts (StockRequest ''inventory.add'' (sample_stock_request 0 4)) [] 0) (fresh_host ?lost [1 \<mapsto> True]))"
      by (simp add: sample_remote_def receive_mutation_def sample_setting_def sample_dispatch)
    moreover have "map inv_quantity (inventory (hd_tables (snd (execute_mutation calm_env
        (sample_context ''inventory.add''\<lparr>mc_client := ''LegacySharedToken''\<rparr>) ''hash''
        (host_mutation sample_texts (StockRequest ''inventory.add'' (sample_stock_request 0 4)) [] 0) (fresh_host ?lost [1 \<mapsto> True]))))) = [17, 10]"
      by code_simp
    ultimately show ?thesis by simp
  qed
  ultimately show ?thesis by (simp only: Let_def simp_thms)
qed

end
