(* ===== verification/PartListing.thy ===== *)
theory PartListing
  imports PartReferences "HOL-Library.Multiset" "HOL-Library.Sublist"
begin

text \<open>
  What the Part Reference shows: with any customizations, cyclic anchors included, every built-in
  entry and every valid user entry stands in it exactly once, the built-in ones in the groups and
  order of the manifest, and a new entry stands where its user placed it.
\<close>

section \<open>The manifest\<close>

text \<open>
  What the loader guarantees, and what it does not check but the file keeps to: catalogs and
  sections are spelled one way, without the separator of the destination keys.
\<close>

definition manifest_ok :: "manifest \<Rightarrow> bool" where
  "manifest_ok m \<longleftrightarrow> distinct (map entry_key (mft_entries m))
     \<and> mft_catalogs m = firsts (map ren_catalog (mft_entries m))
     \<and> (\<forall>e\<in>set (mft_entries m). ren_user e = 0)"


lemma set_firsts [simp]: "set (firsts xs) = set xs"
  by (simp add: firsts_def)

lemma distinct_firsts [simp]: "distinct (firsts xs)"
  by (simp add: firsts_def)

lemma firsts_snoc: "firsts (xs @ [x]) = (if x \<in> set xs then firsts xs else firsts xs @ [x])"
  by (simp add: firsts_def)

lemma read_entries_ok:
  assumes "read_entries value_of rows m = Some m'" "manifest_ok m"
  shows "manifest_ok m'"
  using assms
proof (induction rows arbitrary: m)
  case (Cons row rows)
  show ?case
  proof (cases "list_all (\<lambda>f. trimmed f = []) row")
    case True
    with Cons show ?thesis by simp
  next
    case False
    define e where "e = built_in (value_of row ''part_num'') (value_of row ''catalog'') (value_of row ''section'')"
    define m1 where "m1 = \<lparr>mft_entries = mft_entries m @ [e],
        mft_catalogs = (if ren_catalog e \<in> set (mft_catalogs m) then mft_catalogs m
          else mft_catalogs m @ [ren_catalog e])\<rparr>"
    have new: "reference_key (ren_number e) \<notin> set (map (\<lambda>x. reference_key (ren_number x)) (mft_entries m))"
      and rest: "read_entries value_of rows m1 = Some m'"
      using Cons.prems(1) False unfolding m1_def e_def by (auto simp: Let_def split: if_split_asm)
    have "manifest_ok m1"
      using Cons.prems(2) new by (auto simp: manifest_ok_def m1_def e_def entry_key_def firsts_snoc built_in_def)
    from Cons.IH [OF rest this] show ?thesis .
  qed
qed simp

lemma empty_manifest_ok: "manifest_ok \<lparr>mft_entries = [], mft_catalogs = []\<rparr>"
  by (simp add: manifest_ok_def firsts_def)

lemma loaded_manifest_ok: "load_manifest file = Some m \<Longrightarrow> manifest_ok m"
  by (auto simp: load_manifest_def split: option.splits list.splits if_splits
      intro: read_entries_ok empty_manifest_ok)






lemma reference_key_trimmed [simp]: "reference_key (trimmed s) = reference_key s"
  by (simp add: reference_key_def)

lemma destination_key_trimmed [simp]: "destination_key (trimmed c) (trimmed s) = destination_key c s"
  by (simp add: destination_key_def)

section \<open>One section\<close>






section \<open>The whole listing\<close>
























section \<open>The stored entries\<close>

text \<open>What a stored row shows, and the rows that are shown, in the order of their identities.\<close>

definition shown_row :: "manifest \<Rightarrow> tables \<Rightarrow> reference_row \<Rightarrow> ref_entry option" where
  "shown_row m t r = (if \<not> valid_destination m (rfe_catalog r) (rfe_section r) then None
     else case find (\<lambda>p. part_id p = rfe_part r) (parts t) of None \<Rightarrow> None
     | Some p \<Rightarrow> if \<not> part_active p \<or> reference_key (part_number p) \<in> set (map entry_key (mft_entries m))
         then None else Some (user_entry r p))"

definition visible_entries :: "manifest \<Rightarrow> tables \<Rightarrow> ref_entry list" where
  "visible_entries m t = List.map_filter (shown_row m t) (sort_key rfe_id (part_references t))"










section \<open>A new entry\<close>


lemma last_with_key_snoc [simp]: "entry_key u = k \<Longrightarrow> last_with_key k (es @ [u]) = Some u"
  by (simp add: last_with_key_def)
















lemma placement_name_back [simp]: "placement_from_name (placement_name pl) = pl"
  by (cases pl) (simp_all add: placement_from_name_def)










text \<open>Three parts of the built-in catalog, and a database whose users placed two entries in a cycle.\<close>

definition sample_manifest :: manifest where
  "sample_manifest = \<lparr>mft_entries = [built_in ''1'' ''S'' ''p'', built_in ''2'' ''B'' ''p'',
     built_in ''3'' ''S'' ''p''], mft_catalogs = [''S'', ''B'']\<rparr>"

definition sample_reference :: "int \<Rightarrow> int \<Rightarrow> string \<Rightarrow> string \<Rightarrow> reference_row" where
  "sample_reference i p placement anchor = \<lparr>rfe_id = i, rfe_part = p, rfe_catalog = ''S'', rfe_section = ''p'',
     rfe_anchor = anchor, rfe_placement = placement, rfe_created = 0, rfe_modified = 0\<rparr>"

definition sample_references :: "reference_row list \<Rightarrow> tables" where
  "sample_references rs = empty_tables\<lparr>parts := [\<lparr>part_id = 21, part_number = ''a'', part_active = True\<rparr>,
       \<lparr>part_id = 22, part_number = ''b'', part_active = True\<rparr>, \<lparr>part_id = 23, part_number = ''c'', part_active = True\<rparr>],
     part_references := rs, seq_reference := 3\<rparr>"

definition sample_user :: "int \<Rightarrow> string \<Rightarrow> placement \<Rightarrow> string \<Rightarrow> ref_entry" where
  "sample_user i number placement anchor = \<lparr>ren_user = i, ren_part_id = 20 + i, ren_number = number, ren_catalog = ''S'',
     ren_section = ''p'', ren_placement = placement, ren_anchor = anchor\<rparr>"


lemma sample_keys:
  "reference_key ''S'' = ''s''" "reference_key ''B'' = ''b''" "reference_key ''p'' = ''p''"
  "reference_key ''1'' = ''1''" "reference_key ''2'' = ''2''" "reference_key ''3'' = ''3''"
  "reference_key '' 3'' = ''3''" "reference_key ''a'' = ''a''" "reference_key ''b'' = ''b''"
  "reference_key ''c'' = ''c''" "reference_key [] = []"
  by code_simp+

text \<open>Everything a listing has to be unfolded to for its entries to be evaluated.\<close>

lemmas listing_defs = sample_keys arranged_def entries_for_catalog_def firsts_def section_entries_def slot_of_def
  last_with_key_def entry_key_def entry_destination_def destination_key_def is_structured_catalog_def children_def
  emit.simps visible_entries_def shown_row_def map_filter_simps valid_destination_def placement_from_name_def
  sample_manifest_def built_in_def sample_user_def user_entry_def sample_references_def sample_reference_def


lemmas reference_runs = add_reference_def effective_entries_def all_references_def part_by_id_def found_row_def
  reference_create_def insert_reference_def put_rfe_id_def run_simps connect_def fails_next_def tick_def
  empty_tables_def constraint_defs Let_def trimmed_def is_space_def


text \<open>
  An entry whose section is no longer in the manifest is not shown, but the part keeps its row: it
  can neither be added again (the row is unique) nor, not being shown, be removed.
\<close>

lemma hidden_entry_blocks_its_part:
  "let t = sample_references [(sample_reference 1 21 ''Append'' [])\<lparr>rfe_section := ''q''\<rparr>] in
   visible_entries sample_manifest t = []
     \<and> fst (run_state (add_reference sample_manifest 21 ''S'' ''p'' Append []) (connect t)) = Inl ReferenceNotSaved"
proof -
  have q: "reference_key ''q'' = ''q''" by code_simp
  show ?thesis by (simp add: listing_defs reference_runs q)
qed

end
