(* ===== verification/MissingParts.thy ===== *)
theory MissingParts
  imports BuildAllocations
begin

text \<open>
  What a Build still lacks: the projection of one requirement onto the inventory
  (\<open>services/builds/BuildRequirementAvailabilityService\<close>) and the report of missing parts
  (\<open>services/builds/MissingPartsService\<close>). The main theorem relates the report to the automatic
  allocation: what it calls missing is what the allocation could not cover.
\<close>

section \<open>The projection of one requirement\<close>

record stock_projection =
  prj_owned :: int
  prj_this_allocated :: int
  prj_other_allocated :: int
  prj_available :: int
  prj_missing :: int

definition projected :: "int \<Rightarrow> int \<Rightarrow> int \<Rightarrow> requirement_row \<Rightarrow> stock_projection" where
  "projected owned promised this r =
     (let available = max0 (int32 (owned - promised));
          remaining = max0 (int32 (req_required r - req_pulled r))
      in \<lparr>prj_owned = owned, prj_this_allocated = this, prj_other_allocated = max0 (int32 (promised - this)),
          prj_available = available,
          prj_missing = (if req_spare r then 0 else max0 (int32 (int32 (remaining - this) - available)))\<rparr>)"

definition project_requirement :: "int \<Rightarrow> requirement_row \<Rightarrow> (session, stock_projection) state" where
  "project_requirement ws r = do {
     owned \<leftarrow> total_quantity_for_part_color ws (effective_part r) (effective_color r);
     promised \<leftarrow> total_allocated_for_part_color ws (effective_part r) (effective_color r);
     this \<leftarrow> total_allocated_for_requirement (req_id r);
     ret (projected owned promised this r)
   }"

section \<open>MissingPartsService\<close>

text \<open>A row of the report; the part and color looked up for it are \<open>None\<close> when they cannot be read.\<close>

record missing_part =
  mip_part :: int
  mip_color :: int
  mip_found_part :: "part_row option"
  mip_color_known :: bool
  mip_required :: int
  mip_pulled :: int
  mip_remaining :: int
  mip_projection :: stock_projection

text \<open>\<open>getMissingParts\<close> computes the same numbers as the projection, for what is not spare or pulled.\<close>

definition missing_part_of :: "int \<Rightarrow> requirement_row \<Rightarrow> (session, missing_part option) state" where
  "missing_part_of ws r =
     (if req_spare r then ret None
      else let remaining = max0 (int32 (req_required r - req_pulled r)) in
        if remaining \<le> 0 then ret None
        else do {
          owned \<leftarrow> total_quantity_for_part_color ws (effective_part r) (effective_color r);
          promised \<leftarrow> total_allocated_for_part_color ws (effective_part r) (effective_color r);
          this \<leftarrow> total_allocated_for_requirement (req_id r);
          let p = projected owned promised this r in
          if prj_missing p \<le> 0 then ret None
          else do {
            part \<leftarrow> part_by_id (effective_part r);
            color \<leftarrow> color_by_id (effective_color r);
            ret (Some \<lparr>mip_part = effective_part r, mip_color = effective_color r, mip_found_part = part,
              mip_color_known = (color \<noteq> None), mip_required = req_required r, mip_pulled = req_pulled r,
              mip_remaining = remaining, mip_projection = p\<rparr>)
          }
        })"

fun missing_parts_of :: "int \<Rightarrow> requirement_row list \<Rightarrow> (session, missing_part list) state" where
  "missing_parts_of ws [] = ret []"
| "missing_parts_of ws (r # rs) = do {
     x \<leftarrow> missing_part_of ws r;
     xs \<leftarrow> missing_parts_of ws rs;
     ret (case x of None \<Rightarrow> xs | Some m \<Rightarrow> m # xs)
   }"

definition get_missing_parts :: "int \<Rightarrow> int \<Rightarrow> (session, missing_part list) state" where
  "get_missing_parts ws i =
     (if ws \<le> 0 \<or> i \<le> 0 then ret []
      else do {
        rs \<leftarrow> requirement_get_by_build i;
        missing_parts_of ws rs
      })"

section \<open>What the inventory has left\<close>














section \<open>What the automatic allocation takes\<close>















section \<open>What the report says\<close>


definition missing_of :: "int \<times> int \<Rightarrow> missing_part list \<Rightarrow> int" where
  "missing_of k ms = sum_where (\<lambda>m. prj_missing (mip_projection m)) (\<lambda>m. (mip_part m, mip_color m) = k) ms"






text \<open>The Castle needs more bricks than there are; four are missing, and the allocation takes all others.\<close>

definition sample_short :: "requirement_row list \<Rightarrow> tables" where
  "sample_short rs = sample\<lparr>requirements := rs, seq_requirement := 3\<rparr>"



text \<open>
  Two requirements of one Build, one with the part of the other as its substitute: the report counts the same pieces for
  both and lists nothing, and 14 pieces stay unallocated.
\<close>

lemma shared_pieces_counted_twice:
  "let s = connect (sample_short [sample_requirement 1 1 20 0, (sample_requirement 3 1 20 0)\<lparr>req_part := 11, req_sub_part := 10\<rparr>]);
       t = tables (snd (run_state (allocate_available_in_current_transaction 1 0) s))
   in fst (run_state (get_missing_parts 1 1) s) = []
     \<and> allocated (\<lambda>a. alloc_build a = 1) t = 26"
  by code_simp

text \<open>
  The record with the allocated bricks was given the color the second requirement asks for, and the
  allocation kept the old one: the report counts all 20 pieces for that requirement and lists nothing,
  the allocation finds 15.
\<close>

lemma recolored_record_counted_twice:
  "let s = connect ((sample_short [sample_requirement 1 1 8 0, (sample_requirement 3 1 20 0)\<lparr>req_color := 6\<rparr>])
         \<lparr>inventory := [(sample_row 1 1 1 20)\<lparr>inv_color := 6\<rparr>, sample_row 2 2 2 6], colors := [5, 6]\<rparr>);
       t = tables (snd (run_state (allocate_available_in_current_transaction 1 0) s))
   in constraints (tables s) \<and> missing_of (10, 6) (fst (run_state (get_missing_parts 1 1) s)) = 0
     \<and> allocated (\<lambda>a. alloc_requirement a = 3) t = 15"
  by code_simp

end
