(* ===== verification/Buildability.thy ===== *)
theory Buildability
  imports Compositions
begin

text \<open>
  Which Sets of the catalog could be built from the loose pieces and, as advice, from complete Sets
  whose owner allows it (\<open>repositories/InventoryBuildabilityRepository\<close>, \<open>models/InventoryBuildability\<close>).
  The search runs in two stages: the first selects candidate Sets by text, year, theme and size, the
  second evaluates every candidate exactly. The filters of the first stage are a parameter here: a
  function from the tables to the candidates. Labels, names and images of the results are left out.
\<close>

section \<open>What there is and what a Set needs\<close>

type_synonym kind = "int \<times> int"    \<comment> \<open>part and color\<close>

definition cmp_kind :: "composition_row \<Rightarrow> kind" where
  "cmp_kind r = (cmp_part r, cmp_color r)"

definition preferred_revisions :: "int \<Rightarrow> tables \<Rightarrow> revision_row list" where
  "preferred_revisions i t = filter (\<lambda>r. rev_set r = i \<and> nocase_eq (rev_provider r) ''Rebrickable''
     \<and> rev_active r \<and> rev_preferred r) (set_revisions t)"

text \<open>The common table expression \<open>effective_parts\<close>, for one Set.\<close>

definition effective_rows :: "int \<Rightarrow> tables \<Rightarrow> composition_row list" where
  "effective_rows i t =
     concat (map (\<lambda>v. filter (\<lambda>r. cmp_owner r = rev_id v \<and> \<not> cmp_spare r) (revision_parts t)) (preferred_revisions i t))
     @ (if preferred_revisions i t = [] then filter (\<lambda>r. cmp_owner r = i \<and> \<not> cmp_spare r) (set_catalog_parts t)
        else [])"

text \<open>A sum of the query, and the C++ \<open>int\<close> the program reads it into with \<open>toInt()\<close>.\<close>

definition summed_pieces :: "composition_row list \<Rightarrow> kind \<Rightarrow> int" where
  "summed_pieces rows k = sum_where cmp_quantity (\<lambda>r. cmp_kind r = k) rows"

definition pieces_in :: "composition_row list \<Rightarrow> kind \<Rightarrow> int" where
  "pieces_in rows k = int32 (summed_pieces rows k)"

definition usable_location :: "int \<Rightarrow> tables \<Rightarrow> bool" where
  "usable_location i t \<longleftrightarrow> list_ex (\<lambda>l. sto_id l = i \<and> sto_active l \<and> sto_allows_inventory l) (storage t)
     \<and> \<not> list_ex (\<lambda>c. sto_parent c = i \<and> sto_active c) (storage t)"

text \<open>Owned pieces in usable locations, less what Builds of the workspace have allocated.\<close>

definition unallocated_pieces :: "int \<Rightarrow> tables \<Rightarrow> kind \<Rightarrow> int" where
  "unallocated_pieces ws t k = max 0
     (sum_where inv_quantity (\<lambda>x. inv_workspace x = ws \<and> inv_ownership x = ''Owned'' \<and> inv_quantity x > 0
        \<and> usable_location (inv_storage x) t \<and> (inv_part x, inv_color x) = k) (inventory t)
      - sum_where alloc_quantity (\<lambda>a. (alloc_part a, alloc_color a) = k
        \<and> list_ex (\<lambda>b. bld_id b = alloc_build a \<and> bld_workspace b = ws) (builds t)) (allocations t))"

definition loose_pieces :: "int \<Rightarrow> tables \<Rightarrow> kind \<Rightarrow> int" where
  "loose_pieces ws t k = int32 (unallocated_pieces ws t k)"

definition may_lend :: "int \<Rightarrow> collection_row \<Rightarrow> bool" where
  "may_lend ws c \<longleftrightarrow> col_workspace c = ws \<and> col_type c = ''Set'' \<and> col_allow_parts c"

definition lends :: "collection_row \<Rightarrow> tables \<Rightarrow> bool" where
  "lends c t \<longleftrightarrow> col_active c \<and> col_completeness c = ''Complete'' \<and> col_state c = ''Assembled''
     \<and> effective_rows (col_set_catalog c) t \<noteq> []"

definition collection_sources :: "int \<Rightarrow> tables \<Rightarrow> collection_row list" where
  "collection_sources ws t = sort_key col_id (filter (\<lambda>c. may_lend ws c \<and> lends c t
     \<and> col_set_catalog c \<in> set (map sct_id (set_catalog t))) (collection t))"

definition dormant_sources :: "int \<Rightarrow> tables \<Rightarrow> nat" where
  "dormant_sources ws t = length (filter (\<lambda>c. may_lend ws c \<and> \<not> lends c t) (collection t))"

section \<open>Evaluating a Set\<close>

record kind_result =
  knd_kind :: kind
  knd_required :: int
  knd_loose_available :: int
  knd_loose_used :: int
  knd_collection_used :: int
  knd_missing :: int

record set_result =
  bld_set :: int
  set_total :: int
  set_loose :: int
  set_advisory :: int
  set_requirements :: "kind_result list"
  set_loose_requirements :: nat
  set_advisory_requirements :: nat
  set_missing :: int
  set_sources :: "(int \<times> int) list"    \<comment> \<open>Collection item and the pieces used of it\<close>

definition new_result :: "int \<Rightarrow> set_result" where
  "new_result i = \<lparr>bld_set = i, set_total = 0, set_loose = 0, set_advisory = 0, set_requirements = [],
     set_loose_requirements = 0, set_advisory_requirements = 0, set_missing = 0, set_sources = []\<rparr>"

text \<open>The loop over the sources: what is still needed after them, and what was used of each.\<close>

fun use_sources :: "(int \<times> int) list \<Rightarrow> int \<Rightarrow> int \<times> (int \<times> int) list" where
  "use_sources [] n = (n, [])"
| "use_sources ((i, available) # sources) n =
     (if n \<le> 0 then (n, [])
      else let used = min n available in
        if used \<le> 0 then use_sources sources n
        else let (rest, us) = use_sources sources (n - used) in (rest, (i, used) # us))"

fun count_use :: "(int \<times> int) list \<Rightarrow> int \<times> int \<Rightarrow> (int \<times> int) list" where
  "count_use [] u = [u]"
| "count_use ((i, n) # xs) u = (if i = fst u then (i, int32 (n + snd u)) # xs else (i, n) # count_use xs u)"

definition evaluate_kind :: "(kind \<Rightarrow> int) \<Rightarrow> (int \<times> (kind \<Rightarrow> int)) list \<Rightarrow> set_result \<Rightarrow> kind \<times> int \<Rightarrow> set_result" where
  "evaluate_kind loose sources item need =
     (let (k, n) = need;
          used = min n (loose k);
          (rest, uses) = use_sources (map (\<lambda>x. (fst x, snd x k)) sources) (n - used);
          borrowed = sum_list (map snd uses)
      in item\<lparr>set_total := int32 (set_total item + n), set_loose := int32 (set_loose item + used),
           set_advisory := int32 (set_advisory item + used + borrowed),
           set_requirements := set_requirements item @ [\<lparr>knd_kind = k, knd_required = n,
             knd_loose_available = loose k, knd_loose_used = used, knd_collection_used = borrowed, knd_missing = rest\<rparr>],
           set_loose_requirements := set_loose_requirements item + (if used = n then 1 else 0),
           set_advisory_requirements := set_advisory_requirements item + (if rest = 0 then 1 else 0),
           set_sources := foldl count_use (set_sources item) uses\<rparr>)"

text \<open>The kinds of a Set, in the order of the query.\<close>

definition needs_of :: "composition_row list \<Rightarrow> (kind \<times> int) list" where
  "needs_of rows = map (\<lambda>k. (k, pieces_in rows k)) (sort (remdups (map cmp_kind rows)))"

definition evaluate_set :: "(kind \<Rightarrow> int) \<Rightarrow> (int \<times> (kind \<Rightarrow> int)) list \<Rightarrow> int \<Rightarrow> composition_row list \<Rightarrow> set_result" where
  "evaluate_set loose sources i rows =
     (let item = foldl (evaluate_kind loose sources) (new_result i) (needs_of rows)
      in item\<lparr>set_missing := int32 (set_total item - set_advisory item)\<rparr>)"

text \<open>
  \<open>qRound(100.0 * value / total)\<close> within 0 and 100. Quantities are below 2^31, so that the quotient of
  doubles is never rounded across a half.
\<close>

definition percent :: "int \<Rightarrow> int \<Rightarrow> int" where
  "percent n m = (if m > 0 then max 0 (min 100 ((200 * n + m) div (2 * m))) else 0)"

definition loose_percent :: "set_result \<Rightarrow> int" where "loose_percent x = percent (set_loose x) (set_total x)"
definition advisory_percent :: "set_result \<Rightarrow> int" where "advisory_percent x = percent (set_advisory x) (set_total x)"

section \<open>The search\<close>

record build_search =
  bsq_workspace :: int
  bsq_minimum_percent :: int
  bsq_year_from :: int
  bsq_year_to :: int
  bsq_fully_only :: bool
  bsq_collection :: bool
  bsq_fully_first :: bool
  bsq_maximum :: int

record search_result =
  srs_sets :: "set_result list"
  srs_cap_reached :: bool
  srs_qualifying :: nat
  srs_eligible :: nat
  srs_dormant :: nat

definition active_percent :: "build_search \<Rightarrow> set_result \<Rightarrow> int" where
  "active_percent q x = (if bsq_collection q then advisory_percent x else loose_percent x)"

definition qualifies :: "build_search \<Rightarrow> set_result \<Rightarrow> bool" where
  "qualifies q x \<longleftrightarrow> 0 < bld_set x \<and> 0 < set_total x
     \<and> (if bsq_fully_only q then active_percent q x = 100
        else active_percent q x \<ge> max 0 (min 100 (bsq_minimum_percent q)))"

definition number_of_set :: "tables \<Rightarrow> int \<Rightarrow> string" where
  "number_of_set t i = (case find (\<lambda>x. sct_id x = i) (set_catalog t) of None \<Rightarrow> [] | Some x \<Rightarrow> sct_number x)"

text \<open>The order of the results, by the number where all else is equal.\<close>

definition result_key :: "build_search \<Rightarrow> tables \<Rightarrow> set_result \<Rightarrow> bool \<times> int \<times> int \<times> int \<times> string" where
  "result_key q t x = (bsq_fully_first q \<and> active_percent q x \<noteq> 100, - active_percent q x, set_missing x,
     - loose_percent x, map to_lower (number_of_set t (bld_set x)))"

text \<open>The rows the second stage loads: those of the candidates, joined with parts and colors.\<close>

definition candidate_rows :: "int \<Rightarrow> tables \<Rightarrow> composition_row list" where
  "candidate_rows i t = filter (\<lambda>r. cmp_part r \<in> set (map part_id (parts t)) \<and> cmp_color r \<in> set (colors t))
     (effective_rows i t)"

definition sources_of :: "collection_row list \<Rightarrow> tables \<Rightarrow> (int \<times> (kind \<Rightarrow> int)) list" where
  "sources_of cs t = map (\<lambda>c. (col_id c, pieces_in (effective_rows (col_set_catalog c) t))) cs"

definition evaluated :: "(kind \<Rightarrow> int) \<Rightarrow> (int \<times> (kind \<Rightarrow> int)) list \<Rightarrow> int list \<Rightarrow> tables \<Rightarrow> set_result list" where
  "evaluated loose sources is t = map (\<lambda>i. evaluate_set loose sources i (candidate_rows i t))
     (filter (\<lambda>i. candidate_rows i t \<noteq> []) (sort (remdups is)))"

definition search_sources :: "build_search \<Rightarrow> (session, ((int \<times> (kind \<Rightarrow> int)) list \<times> nat \<times> nat) option) state" where
  "search_sources q =
     (if \<not> bsq_collection q then ret (Some ([], 0, 0))
      else do {
        found \<leftarrow> sql_query (collection_sources (bsq_workspace q));
        case found of None \<Rightarrow> ret None
        | Some cs \<Rightarrow> do {
            dormant \<leftarrow> sql_query (dormant_sources (bsq_workspace q));
            case dormant of None \<Rightarrow> ret None
            | Some d \<Rightarrow>
                if cs = [] then ret (Some ([], 0, d))
                else do {
                  sources \<leftarrow> sql_query (sources_of cs);
                  ret (map_option (\<lambda>xs. (xs, length cs, d)) sources)
                }
          }
      })"

definition search_sets :: "build_search \<Rightarrow> (tables \<Rightarrow> int list) \<Rightarrow> (session, search_result option) state" where
  "search_sets q candidates =
     (if bsq_workspace q \<le> 0 then ret None
      else if bsq_year_from q > 0 \<and> bsq_year_to q > 0 \<and> bsq_year_from q > bsq_year_to q then ret None
      else do {
        loose \<leftarrow> sql_query (loose_pieces (bsq_workspace q));
        case loose of None \<Rightarrow> ret None
        | Some loose \<Rightarrow> do {
            found \<leftarrow> search_sources q;
            case found of None \<Rightarrow> ret None
            | Some (sources, eligible, dormant) \<Rightarrow> do {
                before \<leftarrow> sql_query (\<lambda>t. ());
                selected \<leftarrow> (if before = None then ret None else sql_query candidates);
                case selected of None \<Rightarrow> ret None
                | Some is \<Rightarrow>
                    if is = [] then ret (Some \<lparr>srs_sets = [], srs_cap_reached = False, srs_qualifying = 0,
                      srs_eligible = eligible, srs_dormant = dormant\<rparr>)
                    else do {
                      items \<leftarrow> sql_query (\<lambda>t. sort_key (result_key q t)
                        (filter (qualifies q) (evaluated loose sources is t)));
                      ret (map_option (\<lambda>xs. let cap = nat (max 50 (min 2000 (bsq_maximum q))) in
                        \<lparr>srs_sets = take cap xs, srs_cap_reached = (length xs > cap), srs_qualifying = length xs,
                          srs_eligible = eligible, srs_dormant = dormant\<rparr>) items)
                    }
              }
          }
      })"

section \<open>What an evaluation adds up to\<close>

lemma use_sources_exact:
  assumes "0 \<le> n" "\<forall>x\<in>set xs. 0 \<le> snd x" "use_sources xs n = (rest, us)"
  shows "rest = max 0 (n - sum_list (map snd xs))" "sum_list (map snd us) = n - rest"
proof -
  have "rest = max 0 (n - sum_list (map snd xs)) \<and> sum_list (map snd us) = n - rest"
    using assms
  proof (induction xs n arbitrary: rest us rule: use_sources.induct)
    case (1 n)
    then show ?case by simp
  next
    case (2 i available xs n)
    have others: "0 \<le> sum_list (map snd xs)" using 2(4) by (intro sum_list_nonneg) auto
    show ?case
    proof (cases "n \<le> 0 \<or> min n available \<le> 0")
      case True
      with 2 others show ?thesis by (auto split: if_splits)
    next
      case False
      obtain rest1 us1 where r: "use_sources xs (n - min n available) = (rest1, us1)" by fastforce
      with False 2(5) have out: "rest = rest1" "us = (i, min n available) # us1" by (simp_all add: Let_def)
      have "rest1 = max 0 (n - min n available - sum_list (map snd xs))
          \<and> sum_list (map snd us1) = n - min n available - rest1"
        by (rule 2(2)) (use False 2(4) r in auto)
      with out others False show ?thesis by auto
    qed
  qed
  then show "rest = max 0 (n - sum_list (map snd xs))" "sum_list (map snd us) = n - rest" by simp_all
qed

definition lent_by :: "(int \<times> (kind \<Rightarrow> int)) list \<Rightarrow> kind \<Rightarrow> int" where
  "lent_by sources k = sum_list (map (\<lambda>x. snd x k) sources)"

definition lack_of :: "(kind \<Rightarrow> int) \<Rightarrow> (int \<times> (kind \<Rightarrow> int)) list \<Rightarrow> kind \<times> int \<Rightarrow> int" where
  "lack_of loose sources need = max 0 (snd need - loose (fst need) - lent_by sources (fst need))"

definition lending_fits :: "(kind \<Rightarrow> int) \<Rightarrow> (int \<times> (kind \<Rightarrow> int)) list \<Rightarrow> bool" where
  "lending_fits loose sources \<longleftrightarrow> (\<forall>k. 0 \<le> loose k \<and> (\<forall>x\<in>set sources. 0 \<le> snd x k))"

lemma lending_fitsD:
  "lending_fits loose sources \<Longrightarrow> 0 \<le> loose k"
  "lending_fits loose sources \<Longrightarrow> x \<in> set sources \<Longrightarrow> 0 \<le> snd x k"
  unfolding lending_fits_def by blast+

lemma lent_by_nonneg: "lending_fits loose sources \<Longrightarrow> 0 \<le> lent_by sources k"
  unfolding lent_by_def by (intro sum_list_nonneg) (auto dest: lending_fitsD)

text \<open>The counters of a Set in progress, as long as its pieces fit into a C++ \<open>int\<close>.\<close>

definition counters_fit :: "set_result \<Rightarrow> bool" where
  "counters_fit x \<longleftrightarrow> 0 \<le> set_loose x \<and> set_loose x \<le> set_advisory x \<and> set_advisory x \<le> set_total x
     \<and> set_total x \<le> int_max"

lemma int32_nonneg: "0 \<le> x \<Longrightarrow> x \<le> int_max \<Longrightarrow> int32 x = x"
  by (rule int32_id) (simp add: int_range_def)

lemma evaluate_kind_exact:
  assumes "lending_fits loose sources" "0 \<le> snd need" "counters_fit item" "set_total item + snd need \<le> int_max"
  shows "set_total (evaluate_kind loose sources item need) = set_total item + snd need"
    "set_advisory (evaluate_kind loose sources item need) = set_advisory item + snd need - lack_of loose sources need"
    "bld_set (evaluate_kind loose sources item need) = bld_set item"
    "sources = [] \<Longrightarrow> set_advisory (evaluate_kind loose sources item need)
       - set_loose (evaluate_kind loose sources item need) = set_advisory item - set_loose item"
    "counters_fit (evaluate_kind loose sources item need)"
proof -
  obtain k n where need: "need = (k, n)" by fastforce
  let ?used = "min n (loose k)"
  obtain rest us where u: "use_sources (map (\<lambda>x. (fst x, snd x k)) sources) (n - ?used) = (rest, us)" by fastforce
  have pos: "0 \<le> loose k" "\<forall>x\<in>set (map (\<lambda>x. (fst x, snd x k)) sources). 0 \<le> snd x" "0 \<le> n - ?used"
    using lending_fitsD [OF assms(1)] by auto
  from use_sources_exact [OF pos(3,2) u]
  have r: "rest = max 0 (n - ?used - lent_by sources k)" "sum_list (map snd us) = n - ?used - rest"
    by (simp_all add: lent_by_def comp_def)
  have lack: "rest = lack_of loose sources need"
    using r(1) lent_by_nonneg [OF assms(1), of k] by (simp add: need lack_of_def min_def max_def)
  have bounds: "0 \<le> rest" "rest \<le> n - ?used" "0 \<le> ?used" "0 \<le> n"
    using r(1) pos assms(2) lent_by_nonneg [OF assms(1), of k] by (auto simp: need)
  note fit = assms(3) [unfolded counters_fit_def] assms(4) [unfolded need snd_conv]
  have total: "int32 (set_total item + n) = set_total item + n"
    by (rule int32_nonneg) (use fit bounds in linarith)+
  have loose: "int32 (set_loose item + ?used) = set_loose item + ?used"
    by (rule int32_nonneg) (use fit bounds in linarith)+
  have advisory: "int32 (set_advisory item + ?used + (n - ?used - rest)) = set_advisory item + n - rest"
    using int32_nonneg [of "set_advisory item + n - rest"] fit bounds by (simp add: algebra_simps)
  show all: "set_total (evaluate_kind loose sources item need) = set_total item + snd need"
    "set_advisory (evaluate_kind loose sources item need) = set_advisory item + snd need - lack_of loose sources need"
    "bld_set (evaluate_kind loose sources item need) = bld_set item"
    using u r(2) total advisory lack by (simp_all add: evaluate_kind_def Let_def need)
  have l: "set_loose (evaluate_kind loose sources item need) = set_loose item + ?used"
    using u loose by (simp add: evaluate_kind_def Let_def need)
  show "sources = [] \<Longrightarrow> set_advisory (evaluate_kind loose sources item need)
       - set_loose (evaluate_kind loose sources item need) = set_advisory item - set_loose item"
    using all(2) l lack r(1) bounds by (simp add: need lent_by_def)
  show "counters_fit (evaluate_kind loose sources item need)"
    unfolding counters_fit_def all l lack [symmetric] using fit bounds by (auto simp: need)
qed

lemma evaluate_kinds_exact:
  assumes "lending_fits loose sources" "\<forall>x\<in>set needs. 0 \<le> snd x" "counters_fit item"
    "set_total item + sum_list (map snd needs) \<le> int_max"
  shows "set_total (foldl (evaluate_kind loose sources) item needs) = set_total item + sum_list (map snd needs)
    \<and> set_advisory (foldl (evaluate_kind loose sources) item needs)
        = set_advisory item + sum_list (map snd needs) - sum_list (map (lack_of loose sources) needs)
    \<and> bld_set (foldl (evaluate_kind loose sources) item needs) = bld_set item
    \<and> (sources = [] \<longrightarrow> set_advisory (foldl (evaluate_kind loose sources) item needs)
        - set_loose (foldl (evaluate_kind loose sources) item needs) = set_advisory item - set_loose item)
    \<and> counters_fit (foldl (evaluate_kind loose sources) item needs)"
  using assms(2-)
proof (induction needs arbitrary: item)
  case (Cons need needs)
  have need: "0 \<le> snd need" using Cons.prems(1) by simp
  have "0 \<le> sum_list (map snd needs)" using Cons.prems(1) by (intro sum_list_nonneg) auto
  with Cons.prems(3) have fits: "set_total item + snd need \<le> int_max" by simp
  note one = evaluate_kind_exact [OF assms(1) need Cons.prems(2) fits]
  show ?case using Cons.IH [OF _ one(5)] Cons.prems one(1-4) by simp
qed simp

lemma pieces_by_kind:
  "finite K \<Longrightarrow> cmp_kind ` set rows \<subseteq> K \<Longrightarrow> sum (summed_pieces rows) K = sum_list (map cmp_quantity rows)"
proof (induction rows)
  case (Cons r rows)
  have "sum (summed_pieces (r # rows)) K = sum (\<lambda>k. (if cmp_kind r = k then cmp_quantity r else 0) + summed_pieces rows k) K"
    by (intro sum.cong) (simp_all add: summed_pieces_def)
  also have "\<dots> = cmp_quantity r + sum_list (map cmp_quantity rows)"
    using Cons by (simp add: sum.distrib)
  finally show ?case by simp
qed (simp add: summed_pieces_def)

text \<open>The kinds of a Set with what it needs of each, as they would be without a width.\<close>

definition true_needs :: "composition_row list \<Rightarrow> (kind \<times> int) list" where
  "true_needs rows = map (\<lambda>k. (k, summed_pieces rows k)) (sort (remdups (map cmp_kind rows)))"

lemma needs_total: "sum_list (map snd (true_needs rows)) = sum_list (map cmp_quantity rows)"
proof -
  have "sum_list (map snd (true_needs rows)) = sum_list (map (summed_pieces rows) (sort (remdups (map cmp_kind rows))))"
    by (simp add: true_needs_def comp_def)
  also have "\<dots> = sum (summed_pieces rows) (cmp_kind ` set rows)"
    by (subst sum_list_distinct_conv_sum_set) simp_all
  finally show ?thesis by (simp add: pieces_by_kind)
qed

text \<open>The rows of the catalog are positive: a CHECK of \<open>set_inventory_part\<close> and of \<open>set_catalog_part\<close>.\<close>

definition compositions_positive :: "tables \<Rightarrow> bool" where
  "compositions_positive t \<longleftrightarrow> (\<forall>r\<in>set (revision_parts t) \<union> set (set_catalog_parts t). 0 < cmp_quantity r)"

lemma effective_rows_positive: "compositions_positive t \<Longrightarrow> r \<in> set (effective_rows i t) \<Longrightarrow> 0 < cmp_quantity r"
  by (auto simp: compositions_positive_def effective_rows_def split: if_splits)

lemma summed_nonneg: "(\<And>r. r \<in> set rows \<Longrightarrow> 0 < cmp_quantity r) \<Longrightarrow> 0 \<le> summed_pieces rows k"
  unfolding summed_pieces_def by (intro sum_where_nonneg less_imp_le) simp

lemma summed_le_total:
  assumes "\<And>r. r \<in> set rows \<Longrightarrow> 0 < cmp_quantity r"
  shows "summed_pieces rows k \<le> sum_list (map cmp_quantity rows)"
  using assms
proof (induction rows)
  case (Cons r rows)
  have "0 < cmp_quantity r" "summed_pieces rows k \<le> sum_list (map cmp_quantity rows)"
    using Cons by simp_all
  then show ?case by (simp add: summed_pieces_def)
qed (simp add: summed_pieces_def)

lemma needs_exact:
  assumes "\<And>r. r \<in> set rows \<Longrightarrow> 0 < cmp_quantity r" "sum_list (map cmp_quantity rows) \<le> int_max"
  shows "needs_of rows = true_needs rows"
proof -
  have "pieces_in rows k = summed_pieces rows k" for k
    unfolding pieces_in_def
    using summed_nonneg [OF assms(1)] order_trans [OF summed_le_total [OF assms(1)] assms(2)]
    by (intro int32_nonneg) auto
  then show ?thesis by (simp add: needs_of_def true_needs_def)
qed

section \<open>What the search shows\<close>

definition lent :: "build_search \<Rightarrow> tables \<Rightarrow> (int \<times> (kind \<Rightarrow> int)) list" where
  "lent q t = (if bsq_collection q then sources_of (collection_sources (bsq_workspace q) t) t else [])"

text \<open>The same without a width: what the lending Sets really have.\<close>

definition truly_lent :: "build_search \<Rightarrow> tables \<Rightarrow> (int \<times> (kind \<Rightarrow> int)) list" where
  "truly_lent q t = (if bsq_collection q
     then map (\<lambda>c. (col_id c, summed_pieces (effective_rows (col_set_catalog c) t))) (collection_sources (bsq_workspace q) t)
     else [])"

text \<open>
  What the program takes for granted when it reads its sums into C++ \<open>int\<close> values: no kind has more
  than 2^31 - 1 loose pieces, nor does a lending Set, and no candidate needs more pieces than that.
\<close>

definition sums_fit :: "build_search \<Rightarrow> int list \<Rightarrow> tables \<Rightarrow> bool" where
  "sums_fit q is t \<longleftrightarrow> (\<forall>k. unallocated_pieces (bsq_workspace q) t k \<le> int_max)
     \<and> (\<forall>c\<in>set (collection_sources (bsq_workspace q) t). \<forall>k.
          summed_pieces (effective_rows (col_set_catalog c) t) k \<le> int_max)
     \<and> (\<forall>i\<in>set is. sum_list (map cmp_quantity (candidate_rows i t)) \<le> int_max)"

lemma sums_fitD:
  "sums_fit q is t \<Longrightarrow> unallocated_pieces (bsq_workspace q) t k \<le> int_max"
  "sums_fit q is t \<Longrightarrow> c \<in> set (collection_sources (bsq_workspace q) t) \<Longrightarrow>
   summed_pieces (effective_rows (col_set_catalog c) t) k \<le> int_max"
  "sums_fit q is t \<Longrightarrow> i \<in> set is \<Longrightarrow> sum_list (map cmp_quantity (candidate_rows i t)) \<le> int_max"
  unfolding sums_fit_def by blast+

lemma loose_exact:
  assumes "sums_fit q is t"
  shows "loose_pieces (bsq_workspace q) t = unallocated_pieces (bsq_workspace q) t"
proof
  fix k
  have "0 \<le> unallocated_pieces (bsq_workspace q) t k" by (simp add: unallocated_pieces_def)
  then show "loose_pieces (bsq_workspace q) t k = unallocated_pieces (bsq_workspace q) t k"
    using int32_nonneg sums_fitD(1) [OF assms] by (simp add: loose_pieces_def)
qed

lemma lent_exact:
  assumes "sums_fit q is t" "compositions_positive t"
  shows "lent q t = truly_lent q t"
proof -
  have "pieces_in (effective_rows (col_set_catalog c) t) = summed_pieces (effective_rows (col_set_catalog c) t)"
    if "c \<in> set (collection_sources (bsq_workspace q) t)" for c
  proof
    fix k
    show "pieces_in (effective_rows (col_set_catalog c) t) k = summed_pieces (effective_rows (col_set_catalog c) t) k"
      unfolding pieces_in_def
      by (rule int32_nonneg [OF summed_nonneg sums_fitD(2) [OF assms(1) that]])
        (rule effective_rows_positive [OF assms(2)])
  qed
  then show ?thesis by (simp add: lent_def truly_lent_def sources_of_def)
qed

lemma lending_fits_true:
  "compositions_positive t \<Longrightarrow> lending_fits (unallocated_pieces ws t) (truly_lent q t)"
  by (auto simp: lending_fits_def unallocated_pieces_def truly_lent_def intro!: summed_nonneg effective_rows_positive)

text \<open>The pieces of a Set that neither the loose pieces nor the lending Sets have, kind by kind.\<close>

definition lacking :: "build_search \<Rightarrow> int \<Rightarrow> tables \<Rightarrow> int" where
  "lacking q i t = sum_list (map (lack_of (unallocated_pieces (bsq_workspace q) t) (truly_lent q t)) (true_needs (candidate_rows i t)))"

lemma evaluate_set_exact:
  assumes "compositions_positive t" "sums_fit q is t" "i \<in> set is" "sources = lent q t"
    "loose = loose_pieces (bsq_workspace q) t"
  shows "set_total (evaluate_set loose sources i (candidate_rows i t)) = sum_list (map cmp_quantity (candidate_rows i t))"
    "set_missing (evaluate_set loose sources i (candidate_rows i t)) = lacking q i t"
    "bld_set (evaluate_set loose sources i (candidate_rows i t)) = i"
    "active_percent q (evaluate_set loose sources i (candidate_rows i t))
      = percent (sum_list (map cmp_quantity (candidate_rows i t)) - lacking q i t) (sum_list (map cmp_quantity (candidate_rows i t)))"
    "0 \<le> lacking q i t"
proof -
  let ?rows = "candidate_rows i t" and ?ws = "bsq_workspace q"
  have pos: "0 < cmp_quantity r" if "r \<in> set ?rows" for r
    using effective_rows_positive [OF assms(1)] that by (auto simp: candidate_rows_def)
  have total: "sum_list (map cmp_quantity ?rows) \<le> int_max" by (rule sums_fitD(3) [OF assms(2,3)])
  note true = loose_exact [OF assms(2)] lent_exact [OF assms(2,1)] needs_exact [OF pos total]
  have given: "loose = unallocated_pieces ?ws t" "sources = truly_lent q t" by (simp_all add: assms(4,5) true)
  have needs: "\<forall>x\<in>set (true_needs ?rows). 0 \<le> snd x"
    using summed_nonneg [OF pos] by (auto simp: true_needs_def)
  have start: "counters_fit (new_result i)" "set_total (new_result i) + sum_list (map snd (true_needs ?rows)) \<le> int_max"
    using total by (simp_all add: counters_fit_def new_result_def needs_total int_max_def)
  note all = evaluate_kinds_exact [OF lending_fits_true [OF assms(1), of ?ws q] needs start]
  have lack: "0 \<le> lacking q i t" unfolding lacking_def by (intro sum_list_nonneg) (auto simp: lack_of_def)
  then show "0 \<le> lacking q i t" .
  let ?x = "foldl (evaluate_kind loose sources) (new_result i) (needs_of ?rows)"
  have x: "set_total ?x = sum_list (map cmp_quantity ?rows)"
    "set_advisory ?x = sum_list (map cmp_quantity ?rows) - lacking q i t" "bld_set ?x = i"
    "sources = [] \<Longrightarrow> set_loose ?x = set_advisory ?x" "counters_fit ?x"
    using all by (simp_all add: given true(3) needs_total lacking_def new_result_def)
  then show "set_total (evaluate_set loose sources i ?rows) = sum_list (map cmp_quantity ?rows)"
    "bld_set (evaluate_set loose sources i ?rows) = i"
    by (simp_all add: evaluate_set_def Let_def)
  have "lacking q i t \<le> int_max" using x(1,2,5) by (simp add: counters_fit_def)
  then show "set_missing (evaluate_set loose sources i ?rows) = lacking q i t"
    using x(1,2) lack by (simp add: evaluate_set_def Let_def int32_nonneg)
  show "active_percent q (evaluate_set loose sources i ?rows)
      = percent (sum_list (map cmp_quantity ?rows) - lacking q i t) (sum_list (map cmp_quantity ?rows))"
    using x(1,2,4) assms(4)
    by (auto simp: active_percent_def advisory_percent_def loose_percent_def evaluate_set_def Let_def lent_def)
qed

lemma le_div_pos: "0 < d \<Longrightarrow> (k :: int) \<le> x div d \<longleftrightarrow> k * d \<le> x"
proof
  assume d: "0 < d" "k \<le> x div d"
  then have "k * d \<le> x div d * d" by simp
  also have "\<dots> \<le> x" using d(1) div_mult_mod_eq [of x d] pos_mod_sign [of d x] by linarith
  finally show "k * d \<le> x" .
next
  assume d: "0 < d" "k * d \<le> x"
  from zdiv_mono1 [OF d(2,1)] d(1) show "k \<le> x div d" by simp
qed

text \<open>A Set counts as full when at most half a percent of it is missing.\<close>

lemma percent_full:
  assumes "0 < m" "0 \<le> n"
  shows "percent (m - n) m = 100 \<longleftrightarrow> 200 * n \<le> m"
proof -
  have "percent (m - n) m = 100 \<longleftrightarrow> 100 \<le> (200 * (m - n) + m) div (2 * m)"
    using assms by (auto simp: percent_def)
  also have "\<dots> \<longleftrightarrow> 100 * (2 * m) \<le> 200 * (m - n) + m" using assms(1) by (intro le_div_pos) simp
  finally show ?thesis by (simp add: algebra_simps)
qed

lemma search_sources_run:
  assumes "run_state (search_sources q) s = (Some (sources, eligible, dormant), s')"
  shows "sources = lent q (tables s)" "tables s' = tables s"
proof -
  have "sources = lent q (tables s) \<and> tables s' = tables s"
    using assms by (auto simp: search_sources_def lent_def sources_of_def run_simps split: if_splits)
  then show "sources = lent q (tables s)" "tables s' = tables s" by simp_all
qed

definition results_of :: "build_search \<Rightarrow> int list \<Rightarrow> tables \<Rightarrow> set_result list" where
  "results_of q is t = sort_key (result_key q t)
     (filter (qualifies q) (evaluated (loose_pieces (bsq_workspace q) t) (lent q t) is t))"

lemma search_sets_run:
  assumes "run_state (search_sets q candidates) s = (Some res, s')"
  shows "srs_sets res = take (nat (max 50 (min 2000 (bsq_maximum q)))) (results_of q (candidates (tables s)) (tables s))"
    "srs_cap_reached res \<longleftrightarrow> nat (max 50 (min 2000 (bsq_maximum q))) < length (results_of q (candidates (tables s)) (tables s))"
proof -
  let ?ws = "bsq_workspace q"
  from assms obtain s1 sources eligible dormant s2 where
    one: "run_state (sql_query (loose_pieces ?ws)) s = (Some (loose_pieces ?ws (tables s)), s1)" "tables s1 = tables s"
    and two: "run_state (search_sources q) s1 = (Some (sources, eligible, dormant), s2)"
    and rest: "run_state (do {
                before \<leftarrow> sql_query (\<lambda>t. ());
                selected \<leftarrow> (if before = None then ret None else sql_query candidates);
                case selected of None \<Rightarrow> ret None
                | Some is \<Rightarrow>
                    if is = [] then ret (Some \<lparr>srs_sets = [], srs_cap_reached = False, srs_qualifying = 0,
                      srs_eligible = eligible, srs_dormant = dormant\<rparr>)
                    else do {
                      items \<leftarrow> sql_query (\<lambda>t. sort_key (result_key q t)
                        (filter (qualifies q) (evaluated (loose_pieces ?ws (tables s)) sources is t)));
                      ret (map_option (\<lambda>xs. let cap = nat (max 50 (min 2000 (bsq_maximum q))) in
                        \<lparr>srs_sets = take cap xs, srs_cap_reached = (length xs > cap), srs_qualifying = length xs,
                          srs_eligible = eligible, srs_dormant = dormant\<rparr>) items)
                    }
              }) s2 = (Some res, s')"
    by (auto simp: search_sets_def run_simps split: if_splits option.splits prod.splits)
  note found = search_sources_run [OF two]
  have "srs_sets res = take (nat (max 50 (min 2000 (bsq_maximum q)))) (results_of q (candidates (tables s)) (tables s))
    \<and> (srs_cap_reached res \<longleftrightarrow> nat (max 50 (min 2000 (bsq_maximum q))) < length (results_of q (candidates (tables s)) (tables s)))"
    using rest found one(2)
    by (auto simp: run_simps results_of_def evaluated_def Let_def split: if_splits option.splits)
  then show "srs_sets res = take (nat (max 50 (min 2000 (bsq_maximum q)))) (results_of q (candidates (tables s)) (tables s))"
    "srs_cap_reached res \<longleftrightarrow> nat (max 50 (min 2000 (bsq_maximum q))) < length (results_of q (candidates (tables s)) (tables s))"
    by simp_all
qed

text \<open>
  Property C31. What the buildability search shows is exact. The pieces it calls missing are those
  that neither the loose pieces nor the lending Sets have, part and color by part and color, none
  counted twice. A search for fully buildable Sets lists every candidate that lacks nothing, unless
  the result is capped, and none that lacks more than half a percent of its pieces. This holds as
  long as the sums fit into the C++ \<open>int\<close> they are read into: no kind has more than 2^31 - 1 loose
  pieces, no lending Set more of a kind and no candidate more pieces than that.
\<close>

theorem buildability_is_exact:
  assumes "run_state (search_sets q candidates) s = (Some res, s')" "compositions_positive (tables s)"
    "sums_fit q (candidates (tables s)) (tables s)"
  shows "(\<forall>x\<in>set (srs_sets res). bld_set x \<in> set (candidates (tables s))
      \<and> set_total x = sum_list (map cmp_quantity (candidate_rows (bld_set x) (tables s)))
      \<and> set_missing x = lacking q (bld_set x) (tables s)
      \<and> (bsq_fully_only q \<longrightarrow> 200 * set_missing x \<le> set_total x))
    \<and> (\<forall>i\<in>set (candidates (tables s)). 0 < i \<and> candidate_rows i (tables s) \<noteq> [] \<and> lacking q i (tables s) = 0
        \<and> \<not> srs_cap_reached res \<longrightarrow> i \<in> bld_set ` set (srs_sets res))"
proof (intro conjI ballI impI)
  let ?t = "tables s"
  note sets = search_sets_run [OF assms(1)]
  note exact = evaluate_set_exact [OF assms(2,3) _ refl refl]
  have positive: "0 < sum_list (map cmp_quantity (candidate_rows i ?t))" if rows: "candidate_rows i ?t \<noteq> []" for i
  proof -
    obtain r rs where rows: "candidate_rows i ?t = r # rs" using rows by (cases "candidate_rows i ?t") auto
    have pos: "0 < cmp_quantity y" if "y \<in> set (candidate_rows i ?t)" for y
      using effective_rows_positive [OF assms(2)] that by (auto simp: candidate_rows_def)
    then have "0 \<le> sum_list (map cmp_quantity rs)" unfolding rows by (intro sum_list_nonneg) (auto intro: less_imp_le)
    with pos [of r] show ?thesis by (simp add: rows)
  qed
  {
    fix x assume "x \<in> set (srs_sets res)"
    then have "x \<in> set (results_of q (candidates ?t) ?t)" using sets(1) in_set_takeD by fastforce
    then obtain i where i: "i \<in> set (candidates ?t)" "qualifies q x"
      "x = evaluate_set (loose_pieces (bsq_workspace q) ?t) (lent q ?t) i (candidate_rows i ?t)"
      by (auto simp: results_of_def evaluated_def)
    show "bld_set x \<in> set (candidates ?t)"
      "set_total x = sum_list (map cmp_quantity (candidate_rows (bld_set x) ?t))"
      "set_missing x = lacking q (bld_set x) ?t"
      using i exact [OF i(1)] by simp_all
    show "200 * set_missing x \<le> set_total x" if "bsq_fully_only q"
      using i(2) that exact [OF i(1)] percent_full [of "set_total x" "lacking q i ?t"] unfolding i(3)
      by (auto simp: qualifies_def)
  }
  fix i assume i: "i \<in> set (candidates ?t)"
    "0 < i \<and> candidate_rows i ?t \<noteq> [] \<and> lacking q i ?t = 0 \<and> \<not> srs_cap_reached res"
  let ?x = "evaluate_set (loose_pieces (bsq_workspace q) ?t) (lent q ?t) i (candidate_rows i ?t)"
  have "active_percent q ?x = 100"
    using exact(4) [OF i(1)] percent_full [OF positive, of i 0] positive [of i] i(2) by simp
  then have "qualifies q ?x" using i(2) exact [OF i(1)] positive [of i] by (simp add: qualifies_def)
  then have "?x \<in> set (results_of q (candidates ?t) ?t)" using i by (auto simp: results_of_def evaluated_def)
  moreover have "srs_sets res = results_of q (candidates ?t) ?t" using sets i(2) by simp
  ultimately show "i \<in> bld_set ` set (srs_sets res)" using exact(3) [OF i(1)] by (metis imageI)
qed

text \<open>
  155 bricks, five of them allocated, and a complete Set of 49 whose owner lends it: a Set that needs 200 bricks lacks
  one of them.
\<close>

definition sample_lending :: tables where
  "sample_lending = sample\<lparr>inventory := [sample_row 1 2 1 155],
     set_catalog := [\<lparr>sct_id = 7, sct_number = ''375-2'', sct_name = ''Castle''\<rparr>,
       \<lparr>sct_id = 8, sct_number = ''376-1'', sct_name = ''House''\<rparr>],
     set_catalog_parts := [\<lparr>cmp_id = 1, cmp_owner = 7, cmp_part = 10, cmp_color = 5, cmp_quantity = 200, cmp_spare = False\<rparr>,
       \<lparr>cmp_id = 2, cmp_owner = 8, cmp_part = 10, cmp_color = 5, cmp_quantity = 49, cmp_spare = False\<rparr>],
     collection := [\<lparr>col_id = 3, col_workspace = 1, col_type = ''Set'', col_set_catalog = 8, col_minifig_catalog = 0,
       col_state = ''Assembled'', col_condition = ''Used'', col_completeness = ''Complete'', col_storage = 1,
       col_source_build = 0, col_nickname = [], col_notes = [], col_allow_parts = True, col_active = True,
       col_modified = 0\<rparr>]\<rparr>"

definition sample_search :: build_search where
  "sample_search = \<lparr>bsq_workspace = 1, bsq_minimum_percent = 75, bsq_year_from = 0, bsq_year_to = 0,
     bsq_fully_only = True, bsq_collection = True, bsq_fully_first = True, bsq_maximum = 250\<rparr>"

lemma sums_fit_sample: "sums_fit sample_search [8, 7] (tables (connect sample_lending))"
proof -
  have "unallocated_pieces 1 sample_lending k \<le> int_max" for k
    by (simp add: unallocated_pieces_def sample_lending_def sample_defs int_max_def)
  moreover have "summed_pieces (effective_rows (col_set_catalog c) sample_lending) k \<le> int_max"
    if "c \<in> set (collection_sources 1 sample_lending)" for c k
  proof -
    have "col_set_catalog c = 8" using that by (auto simp: collection_sources_def sample_lending_def split: if_splits)
    then show ?thesis
      by (simp add: summed_pieces_def effective_rows_def preferred_revisions_def sample_lending_def sample_defs int_max_def)
  qed
  moreover have "\<forall>i\<in>set [8, 7]. sum_list (map cmp_quantity (candidate_rows i sample_lending)) \<le> int_max"
    by code_simp
  ultimately show ?thesis by (simp add: sums_fit_def sample_search_def)
qed

theorem buildability_is_exact_witness:
  "let r = run_state (search_sets sample_search (\<lambda>t. [8, 7])) (connect sample_lending) in
   \<exists>res. fst r = Some res \<and> map (\<lambda>x. (bld_set x, set_missing x, advisory_percent x)) (srs_sets res) = [(8, 0, 100), (7, 1, 100)]
     \<and> lacking sample_search 7 sample_lending = 1"
proof -
  let ?r = "run_state (search_sets sample_search (\<lambda>t. [8, 7])) (connect sample_lending)"
  have shown: "map_option (\<lambda>res. map (\<lambda>x. (bld_set x, set_missing x, advisory_percent x)) (srs_sets res)) (fst ?r)
      = Some [(8, 0, 100), (7, 1, 100)]" by code_simp
  then obtain res where res: "fst ?r = Some res"
    "map (\<lambda>x. (bld_set x, set_missing x, advisory_percent x)) (srs_sets res) = [(8, 0, 100), (7, 1, 100)]" by auto
  then have run: "?r = (Some res, snd ?r)" by (metis prod.collapse)
  have "compositions_positive (tables (connect sample_lending))"
    by (simp add: compositions_positive_def sample_lending_def sample_defs connect_def)
  from buildability_is_exact [OF run this sums_fit_sample]
  have "\<forall>x\<in>set (srs_sets res). set_missing x = lacking sample_search (bld_set x) sample_lending" by simp
  moreover have "(7, 1, 100) \<in> (\<lambda>x. (bld_set x, set_missing x, advisory_percent x)) ` set (srs_sets res)"
    using res(2) by (metis (no_types, lifting) list.set_intros(1) list.set_intros(2) list.set_map)
  ultimately have "lacking sample_search 7 sample_lending = 1" by auto
  with res show ?thesis unfolding Let_def by (intro exI [of _ res] conjI)
qed

text \<open>
  Beyond the width the search is wrong: two records of 2147483647 bricks each leave, for the program,
  -2 loose ones.
\<close>

lemma two_full_records_leave_none:
  "unallocated_pieces 1 (sample\<lparr>inventory := [sample_row 1 2 1 2147483647, sample_row 2 2 2 2147483647],
     allocations := []\<rparr>) (10, 5) = 4294967294
   \<and> loose_pieces 1 (sample\<lparr>inventory := [sample_row 1 2 1 2147483647, sample_row 2 2 2 2147483647],
     allocations := []\<rparr>) (10, 5) = - 2"
  by code_simp

text \<open>So a search for fully buildable Sets can show one that cannot be built.\<close>

lemma nearly_complete_counts_as_full: "percent 199 200 = 100" "percent 999 1000 = 100"
  by (simp_all add: percent_def)

end
