(* ===== verification/ColorAudit.thy ===== *)
theory ColorAudit
  imports PartReferences
begin

text \<open>
  The review of a color audit (\<open>services/inventory/InventoryColorAuditCsv\<close>): a CSV file of inventory
  records whose colors look wrong, loaded, reviewed row by row and written back after each decision.
  Texts are sequences of characters as after decoding; a byte order mark is not among them.
\<close>

section \<open>The text of the file\<close>

definition quoted_field :: "string \<Rightarrow> string" where
  "quoted_field v = CHR 0x22 # concat (map (\<lambda>c. if c = CHR 0x22 then [c, c] else [c]) v) @ [CHR 0x22]"

text \<open>\<open>parse\<close>; \<open>None\<close> is a quote inside an unquoted field or one that is never closed.\<close>

fun audit_records :: "string \<Rightarrow> bool \<Rightarrow> string \<Rightarrow> string list \<Rightarrow> string list list \<Rightarrow> string list list option" where
  "audit_records [] quoted fld row records =
     (if quoted then None
      else if fld \<noteq> [] \<or> row \<noteq> [] then Some (records @ [row @ [fld]]) else Some records)"
| "audit_records (c # cs) True fld row records =
     (if c = CHR 0x22 then
        (case cs of
           d # ds \<Rightarrow> if d = CHR 0x22 then audit_records ds True (fld @ [d]) row records
                    else audit_records cs False fld row records
         | [] \<Rightarrow> audit_records cs False fld row records)
      else audit_records cs True (fld @ [c]) row records)"
| "audit_records (c # cs) False fld row records =
     (if c = CHR 0x22 \<and> fld = [] then audit_records cs True fld row records
      else if c = CHR 0x2C then audit_records cs False [] (row @ [fld]) records
      else if c = CHR 0x0D then
        (case cs of
           d # ds \<Rightarrow> if d = CHR 0x0A then audit_records ds False [] [] (records @ [row @ [fld]])
                    else audit_records cs False [] [] (records @ [row @ [fld]])
         | [] \<Rightarrow> audit_records cs False [] [] (records @ [row @ [fld]]))
      else if c = CHR 0x0A then audit_records cs False [] [] (records @ [row @ [fld]])
      else if c = CHR 0x22 then None
      else audit_records cs False (fld @ [c]) row records)"

definition audit_parse :: "string \<Rightarrow> string list list option" where
  "audit_parse s = map_option (\<lambda>rs. rev (dropWhile (\<lambda>r. r = [[]]) (rev rs))) (audit_records s False [] [] [])"

fun encode_fields :: "string list \<Rightarrow> string" where
  "encode_fields [] = []"
| "encode_fields [v] = quoted_field v"
| "encode_fields (v # w # vs) = quoted_field v @ CHR 0x2C # encode_fields (w # vs)"

definition encode_row :: "string list \<Rightarrow> string" where
  "encode_row vs = encode_fields vs @ [CHR 0x0D, CHR 0x0A]"

definition encode_audit :: "string list \<Rightarrow> string list list \<Rightarrow> string" where
  "encode_audit headers rows = concat (map encode_row (headers # rows))"

section \<open>Loading\<close>

definition required_audit_columns :: "string list" where
  "required_audit_columns = [''inventory_record_id'', ''part_number'', ''stored_color_name'', ''audit_status'']"

definition review_columns :: "string list" where
  "review_columns = [''review_status'', ''reviewed_utc'', ''review_note'']"

text \<open>
  \<open>m_columns\<close> is a function of the headers: their trimmed texts are distinct, and the review columns
  are added to both.
\<close>

fun audit_column :: "string list \<Rightarrow> string \<Rightarrow> nat option" where
  "audit_column [] name = None"
| "audit_column (h # hs) name = (if trimmed h = name then Some 0 else map_option Suc (audit_column hs name))"

definition cell :: "string list \<Rightarrow> string list \<Rightarrow> string \<Rightarrow> string" where
  "cell headers row name = (case audit_column headers name of Some i \<Rightarrow> row ! i | None \<Rightarrow> [])"

definition set_cell :: "string list \<Rightarrow> string \<Rightarrow> string \<Rightarrow> string list \<Rightarrow> string list" where
  "set_cell headers name v row = (case audit_column headers name of Some i \<Rightarrow> row[i := v] | None \<Rightarrow> row)"

definition headers_ok :: "string list \<Rightarrow> bool" where
  "headers_ok headers \<longleftrightarrow> [] \<notin> set (map trimmed headers) \<and> distinct (map trimmed headers)"

definition row_valid :: "string list \<Rightarrow> string list \<Rightarrow> bool" where
  "row_valid headers row \<longleftrightarrow> length row = length headers
     \<and> positive_number (trimmed (cell headers row ''inventory_record_id''))
     \<and> trimmed (cell headers row ''part_number'') \<noteq> [] \<and> trimmed (cell headers row ''stored_color_name'') \<noteq> []
     \<and> trimmed (cell headers row ''audit_status'') \<noteq> []"

record audit =
  aud_headers :: "string list"
  aud_rows :: "string list list"
  aud_needs_backup :: bool
  aud_size :: nat
  aud_modified :: int

datatype audit_error = Unreadable | EmptyAudit | BadColumns | MissingColumn | BadRow

definition missing_reviews :: "string list \<Rightarrow> string list" where
  "missing_reviews headers = filter (\<lambda>c. audit_column headers c = None) review_columns"

text \<open>A row with its review columns, pending when its color differs and nothing was decided.\<close>

definition with_reviews :: "string list \<Rightarrow> string list \<Rightarrow> string list" where
  "with_reviews headers row = row @ map (\<lambda>_. []) (missing_reviews headers)"

definition mark_pending :: "string list \<Rightarrow> string list \<Rightarrow> string list" where
  "mark_pending headers row =
     (if trimmed (cell headers row ''review_status'') = []
        \<and> trimmed (cell headers row ''audit_status'') = ''COLOR_MISMATCH''
      then set_cell headers ''review_status'' ''PENDING'' row else row)"

text \<open>The bytes of a text in UTF-8; the characters here are at most two bytes long.\<close>

definition byte_size :: "string \<Rightarrow> nat" where
  "byte_size s = sum_list (map (\<lambda>c. if (of_char c :: nat) < 128 then 1 else 2) s)"

text \<open>\<open>None\<close> is a file that cannot be opened; the second component its time of modification.\<close>

definition load_audit :: "(string \<times> int) option \<Rightarrow> audit_error + audit" where
  "load_audit file = (case file of None \<Rightarrow> Inl Unreadable
   | Some (s, modified) \<Rightarrow>
       (case audit_parse s of None \<Rightarrow> Inl Unreadable
        | Some [] \<Rightarrow> Inl EmptyAudit
        | Some (headers # rows) \<Rightarrow>
            if \<not> headers_ok headers then Inl BadColumns
            else if \<not> list_all (\<lambda>c. audit_column headers c \<noteq> None) required_audit_columns then Inl MissingColumn
            else if \<not> list_all (row_valid headers) rows then Inl BadRow
            else let all = headers @ missing_reviews headers in
              Inr \<lparr>aud_headers = all, aud_rows = map (\<lambda>r. mark_pending all (with_reviews headers r)) rows,
                aud_needs_backup = (missing_reviews headers \<noteq> []), aud_size = byte_size s, aud_modified = modified\<rparr>))"

section \<open>Reviewing\<close>

definition audit_value :: "audit \<Rightarrow> nat \<Rightarrow> string \<Rightarrow> string" where
  "audit_value a i name = (if i < length (aud_rows a) then cell (aud_headers a) (aud_rows a ! i) name else [])"

definition review_rows :: "bool \<Rightarrow> audit \<Rightarrow> nat list" where
  "review_rows skipped_only a = filter (\<lambda>i. audit_value a i ''audit_status'' = ''COLOR_MISMATCH''
     \<and> (\<not> skipped_only \<or> audit_value a i ''review_status'' = ''SKIPPED'')) [0..<length (aud_rows a)]"

definition pending :: "audit \<Rightarrow> nat \<Rightarrow> bool" where
  "pending a i \<longleftrightarrow> audit_value a i ''audit_status'' = ''COLOR_MISMATCH'' \<and> audit_value a i ''review_status'' = ''PENDING''"

text \<open>\<open>nextPendingRow\<close>: the rows after a given one, then those up to it; -1 stands for before the first.\<close>

definition next_pending :: "audit \<Rightarrow> int \<Rightarrow> nat option" where
  "next_pending a after = find (pending a)
     ([nat (after + 1)..<length (aud_rows a)] @ [0..<min (nat (after + 1)) (length (aud_rows a))])"

text \<open>
  The audit file and its safety copy, and what the next save meets: whether the copy and the atomic
  replacement work, and the time they happen.
\<close>

record audit_files =
  adf_file :: "(string \<times> int) option"
  adf_original :: "string option"

record save_attempt =
  atm_copy_works :: bool
  atm_save_works :: bool
  atm_time :: int
  atm_stamp :: string    \<comment> \<open>the text of the time\<close>

definition write_audit :: "save_attempt \<Rightarrow> audit \<Rightarrow> audit_files \<Rightarrow> bool \<times> audit \<times> audit_files" where
  "write_audit e a w = (case adf_file w of
     None \<Rightarrow> (False, a, w)
   | Some (s, modified) \<Rightarrow>
       if byte_size s \<noteq> aud_size a \<or> modified \<noteq> aud_modified a then (False, a, w)
       else let copy = aud_needs_backup a \<and> adf_original w = None;
                w1 = (if copy \<and> atm_copy_works e then w\<lparr>adf_original := Some s\<rparr> else w) in
         if copy \<and> \<not> atm_copy_works e then (False, a, w)
         else if \<not> atm_save_works e then (False, a, w1)
         else let t = encode_audit (aud_headers a) (aud_rows a) in
           (True, a\<lparr>aud_needs_backup := False, aud_size := byte_size t, aud_modified := atm_time e\<rparr>,
            w1\<lparr>adf_file := Some (t, atm_time e)\<rparr>))"

definition allowed_dispositions :: "string list" where
  "allowed_dispositions = [''FIXED'', ''VERIFIED_OK'', ''SKIPPED'', ''NOT_FOUND'']"

definition decided :: "string list \<Rightarrow> string \<Rightarrow> string \<Rightarrow> string \<Rightarrow> string list \<Rightarrow> string list" where
  "decided headers status stamp note row = set_cell headers ''review_note'' note
     (set_cell headers ''reviewed_utc'' stamp (set_cell headers ''review_status'' status row))"

definition save_disposition ::
    "save_attempt \<Rightarrow> int \<Rightarrow> string \<Rightarrow> string \<Rightarrow> audit \<times> audit_files \<Rightarrow> bool \<times> audit \<times> audit_files" where
  "save_disposition e i status note aw = (case aw of (a, w) \<Rightarrow>
     if i < 0 \<or> i \<ge> int (length (aud_rows a)) \<or> status \<notin> set allowed_dispositions then (False, a, w)
     else if length note > 1024 then (False, a, w)
     else let changed = (aud_rows a)[nat i := decided (aud_headers a) status (atm_stamp e) note (aud_rows a ! nat i)];
              (ok, a1, w1) = write_audit e (a\<lparr>aud_rows := changed\<rparr>) w
          in if ok then (True, a1, w1) else (False, a1\<lparr>aud_rows := aud_rows a\<rparr>, w1))"

section \<open>What is written reads back\<close>

lemma escaped_reads_back:
  "rest = [] \<or> hd rest \<noteq> CHR 0x22 \<Longrightarrow>
   audit_records (concat (map (\<lambda>c. if c = CHR 0x22 then [c, c] else [c]) v) @ CHR 0x22 # rest) True fld row records
     = audit_records rest False (fld @ v) row records"
  by (induction v arbitrary: fld) (auto split: list.splits)

lemma field_reads_back:
  "rest = [] \<or> hd rest \<noteq> CHR 0x22 \<Longrightarrow>
   audit_records (quoted_field v @ rest) False [] row records = audit_records rest False v row records"
  using escaped_reads_back [of rest v "[]" row records] by (simp add: quoted_field_def)

lemma fields_read_back:
  "vs \<noteq> [] \<Longrightarrow> audit_records (encode_fields vs @ CHR 0x0D # CHR 0x0A # rest) False [] row records
     = audit_records rest False [] [] (records @ [row @ vs])"
proof (induction vs arbitrary: row rule: encode_fields.induct)
  case (2 v)
  then show ?case by (simp add: field_reads_back)
next
  case (3 v w vs)
  then show ?case by (simp add: field_reads_back)
qed simp

lemma rows_read_back:
  "[] \<notin> set rs \<Longrightarrow> audit_records (concat (map encode_row rs)) False [] [] records = Some (records @ rs)"
proof (induction rs arbitrary: records)
  case (Cons r rs)
  then show ?case using fields_read_back [of r "concat (map encode_row rs)" "[]" records]
    by (auto simp: encode_row_def [abs_def])
qed simp

lemma audit_reads_back:
  assumes "\<forall>r\<in>set rs. 1 < length r"
  shows "audit_parse (concat (map encode_row rs)) = Some rs"
proof -
  have "last rs \<noteq> [[]]" if "rs \<noteq> []" using assms last_in_set [OF that] by fastforce
  then have "dropWhile (\<lambda>r. r = [[]]) (rev rs) = rev rs" by (auto simp: dropWhile_eq_self_iff hd_rev)
  moreover have "[] \<notin> set rs" using assms by auto
  ultimately show ?thesis using rows_read_back [of rs "[]"] by (simp add: audit_parse_def)
qed

section \<open>Columns and cells\<close>

lemma audit_column_lt: "audit_column hs name = Some i \<Longrightarrow> i < length hs"
  by (induction hs name arbitrary: i rule: audit_column.induct) (auto split: if_splits)

lemma audit_column_None: "audit_column hs name = None \<longleftrightarrow> name \<notin> set (map trimmed hs)"
  by (induction hs name rule: audit_column.induct) auto

lemma audit_column_append:
  "audit_column (hs @ ks) name = (case audit_column hs name of Some i \<Rightarrow> Some i
     | None \<Rightarrow> map_option (\<lambda>i. i + length hs) (audit_column ks name))"
  by (induction hs name rule: audit_column.induct)
    (auto simp: option.map_comp comp_def option.map_ident split: option.splits)

lemma audit_column_inj: "audit_column hs n = Some i \<Longrightarrow> audit_column hs m = Some i \<Longrightarrow> n = m"
  by (induction hs n arbitrary: i rule: audit_column.induct) (auto split: if_splits)

lemma length_set_cell [simp]: "length (set_cell hs name v row) = length row"
  by (simp add: set_cell_def split: option.split)

lemma cell_set_cell [simp]:
  "cell hs (set_cell hs name v row) name' = (if name' = name \<and> audit_column hs name \<noteq> None \<and> length row = length hs
     then v else cell hs row name')" if "length row = length hs"
  using that audit_column_inj [of hs name _ name'] audit_column_lt [of hs name]
  by (auto simp: cell_def set_cell_def nth_list_update split: option.split)

text \<open>The review columns are spelled without surrounding spaces.\<close>

lemma trimmed_names:
  "map trimmed review_columns = review_columns" "map trimmed required_audit_columns = required_audit_columns"
  by code_simp+

lemma review_columns_props: "distinct review_columns" "[] \<notin> set review_columns"
  "set required_audit_columns \<inter> set review_columns = {}"
  by code_simp+

lemma headers_with_reviews:
  assumes "headers_ok hs"
  shows "headers_ok (hs @ missing_reviews hs)" "missing_reviews (hs @ missing_reviews hs) = []"
proof -
  have names: "map trimmed (missing_reviews hs) = missing_reviews hs"
    using trimmed_names(1) by (auto simp: missing_reviews_def intro!: map_idI dest: map_eq_conv [THEN iffD1, of trimmed review_columns id, simplified])
  then show "headers_ok (hs @ missing_reviews hs)"
    using assms review_columns_props by (auto simp: headers_ok_def missing_reviews_def audit_column_None)
  show "missing_reviews (hs @ missing_reviews hs) = []"
    using names by (auto simp: missing_reviews_def filter_empty_conv audit_column_None)
qed

lemma cell_append:
  "audit_column hs name \<noteq> None \<Longrightarrow> length row = length hs \<Longrightarrow> cell (hs @ ks) (row @ vs) name = cell hs row name"
  using audit_column_lt [of hs name] by (auto simp: cell_def audit_column_append nth_append)

section \<open>An audit in memory\<close>

text \<open>What a loaded audit is like, and stays like.\<close>

definition audit_shape :: "string list \<Rightarrow> string list list \<Rightarrow> bool" where
  "audit_shape hs rows \<longleftrightarrow> headers_ok hs \<and> list_all (\<lambda>c. audit_column hs c \<noteq> None) required_audit_columns
     \<and> missing_reviews hs = [] \<and> (\<forall>r\<in>set rows. row_valid hs r \<and> mark_pending hs r = r)"

lemma review_known: "missing_reviews hs = [] \<Longrightarrow> c \<in> set review_columns \<Longrightarrow> audit_column hs c \<noteq> None"
  by (auto simp: missing_reviews_def filter_empty_conv)

lemma row_valid_set_cell:
  assumes "c \<in> set review_columns"
  shows "row_valid hs (set_cell hs c v row) \<longleftrightarrow> row_valid hs row"
proof -
  have "c \<noteq> ''inventory_record_id''" "c \<noteq> ''part_number''" "c \<noteq> ''stored_color_name''" "c \<noteq> ''audit_status''"
    using assms by (auto simp: review_columns_def)
  then show ?thesis by (auto simp: row_valid_def)
qed

lemma row_valid_with_reviews:
  assumes "row_valid hs row" "list_all (\<lambda>c. audit_column hs c \<noteq> None) required_audit_columns"
  shows "row_valid (hs @ missing_reviews hs) (with_reviews hs row)"
  using assms by (auto simp: row_valid_def with_reviews_def cell_append required_audit_columns_def)

lemma mark_pending_valid: "row_valid hs (mark_pending hs row) \<longleftrightarrow> row_valid hs row"
  by (simp add: mark_pending_def row_valid_set_cell review_columns_def)

lemma pending_texts: "trimmed ''PENDING'' \<noteq> []" "list_all (\<lambda>s. trimmed s \<noteq> []) allowed_dispositions"
  by code_simp+

lemma mark_pending_idem:
  assumes "length row = length hs" "missing_reviews hs = []"
  shows "mark_pending hs (mark_pending hs row) = mark_pending hs row"
  using assms review_known [of hs "''review_status''"] pending_texts(1)
  by (simp add: mark_pending_def review_columns_def)

lemma load_shape:
  assumes "load_audit (Some (s, m)) = Inr a"
  shows "audit_shape (aud_headers a) (aud_rows a)" "aud_size a = byte_size s" "aud_modified a = m"
proof -
  from assms obtain hs rows where f: "audit_parse s = Some (hs # rows)" "headers_ok hs"
    "list_all (\<lambda>c. audit_column hs c \<noteq> None) required_audit_columns" "list_all (row_valid hs) rows"
    "a = \<lparr>aud_headers = hs @ missing_reviews hs,
      aud_rows = map (\<lambda>r. mark_pending (hs @ missing_reviews hs) (with_reviews hs r)) rows,
      aud_needs_backup = (missing_reviews hs \<noteq> []), aud_size = byte_size s, aud_modified = m\<rparr>"
    by (auto simp: load_audit_def Let_def split: option.splits list.splits if_splits)
  let ?all = "hs @ missing_reviews hs"
  have row: "row_valid ?all (mark_pending ?all (with_reviews hs r))
      \<and> mark_pending ?all (mark_pending ?all (with_reviews hs r)) = mark_pending ?all (with_reviews hs r)"
    if "r \<in> set rows" for r
  proof -
    have "row_valid ?all (with_reviews hs r)"
      using f(3,4) that by (intro row_valid_with_reviews) (simp_all add: list_all_iff)
    moreover from this have "length (with_reviews hs r) = length ?all" by (simp add: row_valid_def)
    ultimately show ?thesis using headers_with_reviews(2) [OF f(2)] by (simp add: mark_pending_valid mark_pending_idem)
  qed
  have "list_all (\<lambda>c. audit_column ?all c \<noteq> None) required_audit_columns"
    using f(3) by (auto simp: list_all_iff audit_column_append)
  then show "audit_shape (aud_headers a) (aud_rows a)"
    using headers_with_reviews [OF f(2)] row by (simp add: audit_shape_def f(5))
  show "aud_size a = byte_size s" "aud_modified a = m" by (simp_all add: f(5))
qed

lemma shape_reads_back:
  assumes "audit_shape hs rows"
  shows "load_audit (Some (encode_audit hs rows, m)) = Inr \<lparr>aud_headers = hs, aud_rows = rows,
    aud_needs_backup = False, aud_size = byte_size (encode_audit hs rows), aud_modified = m\<rparr>"
proof -
  have two: "{''inventory_record_id'', ''part_number''} \<subseteq> set (map trimmed hs)"
    using assms audit_column_None by (fastforce simp: audit_shape_def required_audit_columns_def)
  have "card {''inventory_record_id'', ''part_number''} = 2" by simp
  with card_mono [OF _ two] card_length [of "map trimmed hs"] have "1 < length hs" by simp
  moreover have "length r = length hs" if "r \<in> set rows" for r
    using assms that by (auto simp: audit_shape_def row_valid_def)
  ultimately have "audit_parse (encode_audit hs rows) = Some (hs # rows)"
    unfolding encode_audit_def by (intro audit_reads_back) auto
  moreover have "map (\<lambda>r. mark_pending hs (with_reviews hs r)) rows = rows"
    using assms by (auto simp: audit_shape_def with_reviews_def intro!: map_idI)
  ultimately show ?thesis using assms by (simp add: load_audit_def audit_shape_def list_all_iff)
qed

lemma decided_shape:
  assumes "audit_shape hs rows" "status \<in> set allowed_dispositions" "i < length rows"
  shows "audit_shape hs (rows[i := decided hs status stamp note (rows ! i)])"
    "cell hs (decided hs status stamp note (rows ! i)) ''review_status'' = status"
proof -
  let ?d = "decided hs status stamp note (rows ! i)"
  have old: "row_valid hs (rows ! i)" "length (rows ! i) = length hs" "missing_reviews hs = []"
    using assms(1) nth_mem [OF assms(3)] by (auto simp: audit_shape_def row_valid_def)
  show status: "cell hs ?d ''review_status'' = status"
    using old review_known [OF old(3)] by (simp add: decided_def review_columns_def)
  have "row_valid hs ?d" using old(1) by (simp add: decided_def row_valid_set_cell review_columns_def)
  moreover have "mark_pending hs ?d = ?d"
    using status assms(2) pending_texts(2) by (auto simp: mark_pending_def list_all_iff)
  ultimately show "audit_shape hs (rows[i := ?d])"
    using assms(1) set_update_subset_insert [of rows i ?d] by (auto simp: audit_shape_def)
qed

section \<open>Saving and reopening\<close>

text \<open>The audit in memory belongs to the file: opening it again gives the same headers and rows.\<close>

definition in_step :: "audit \<Rightarrow> audit_files \<Rightarrow> bool" where
  "in_step a w \<longleftrightarrow> audit_shape (aud_headers a) (aud_rows a) \<and> (\<exists>s m b. adf_file w = Some (s, m)
     \<and> load_audit (Some (s, m)) = Inr b \<and> aud_headers b = aud_headers a \<and> aud_rows b = aud_rows a
     \<and> aud_size a = byte_size s \<and> aud_modified a = m)"

text \<open>What a decision does to the file, the safety copy and the audit, for each way it can end.\<close>

lemma save_disposition_cases:
  assumes "save_disposition e i status note (a, w) = (ok, a', w')" "in_step a w"
  obtains (refused) "\<not> ok" "a' = a" "adf_file w' = adf_file w"
      "adf_original w' = adf_original w \<or> (adf_original w = None \<and> adf_original w' = map_option fst (adf_file w))" |
    (saved) rows where "ok" "rows = (aud_rows a)[nat i := decided (aud_headers a) status (atm_stamp e) note (aud_rows a ! nat i)]"
      "0 \<le> i" "nat i < length (aud_rows a)" "status \<in> set allowed_dispositions"
      "a' = a\<lparr>aud_rows := rows, aud_needs_backup := False, aud_size := byte_size (encode_audit (aud_headers a) rows),
         aud_modified := atm_time e\<rparr>"
      "adf_file w' = Some (encode_audit (aud_headers a) rows, atm_time e)"
      "adf_original w' = (if aud_needs_backup a \<and> adf_original w = None then map_option fst (adf_file w) else adf_original w)"
proof -
  let ?rows = "(aud_rows a)[nat i := decided (aud_headers a) status (atm_stamp e) note (aud_rows a ! nat i)]"
  obtain s m where contents: "adf_file w = Some (s, m)" "aud_size a = byte_size s" "aud_modified a = m"
    using assms(2) by (auto simp: in_step_def)
  show thesis
  proof (cases "i < 0 \<or> i \<ge> int (length (aud_rows a)) \<or> status \<notin> set allowed_dispositions \<or> length note > 1024")
    case True
    with assms(1) have "\<not> ok" "a' = a" "w' = w" by (auto simp: save_disposition_def split: if_splits)
    then show thesis by (intro refused) simp_all
  next
    case False
    obtain ok1 a1 w1 where written: "write_audit e (a\<lparr>aud_rows := ?rows\<rparr>) w = (ok1, a1, w1)"
      by (cases "write_audit e (a\<lparr>aud_rows := ?rows\<rparr>) w") auto
    with False assms(1) have "(ok, a', w') = (if ok1 then (True, a1, w1) else (False, a1\<lparr>aud_rows := aud_rows a\<rparr>, w1))"
      by (simp add: save_disposition_def Let_def)
    with written contents False show thesis
      by (cases ok1) (auto simp: write_audit_def Let_def split: if_splits intro: refused saved [of ?rows])
  qed
qed

lemma save_disposition_in_step:
  assumes "save_disposition e i status note (a, w) = (ok, a', w')" "in_step a w"
  shows "in_step a' w'"
  using assms
proof (cases rule: save_disposition_cases)
  case refused
  with assms(2) show ?thesis by (auto simp: in_step_def)
next
  case (saved rows)
  have "audit_shape (aud_headers a) (aud_rows a)" using assms(2) by (simp add: in_step_def)
  from decided_shape(1) [OF this saved(5,4)] have shape: "audit_shape (aud_headers a) rows" by (simp add: saved(2))
  then show ?thesis using shape_reads_back [OF shape] saved(6,7) by (auto simp: in_step_def)
qed

text \<open>A review: decisions one after the other, some of which may fail.\<close>

definition review :: "(save_attempt \<times> int \<times> string \<times> string) list \<Rightarrow> audit \<times> audit_files \<Rightarrow> audit \<times> audit_files" where
  "review es aw = fold (\<lambda>(e, i, status, note) aw. snd (save_disposition e i status note aw)) es aw"

text \<open>The first file is kept before it is replaced for the first time.\<close>

definition original_kept :: "string \<times> int \<Rightarrow> bool \<Rightarrow> audit_files \<Rightarrow> audit \<times> audit_files \<Rightarrow> bool" where
  "original_kept old needed w0 aw \<longleftrightarrow> (case aw of (a, w) \<Rightarrow> needed \<and> adf_original w0 = None \<longrightarrow>
     (adf_file w = Some old \<and> aud_needs_backup a \<and> adf_original w \<in> {None, Some (fst old)})
     \<or> adf_original w = Some (fst old))"

lemma save_disposition_original:
  assumes "save_disposition e i status note (a, w) = (ok, a', w')" "in_step a w" "original_kept old needed w0 (a, w)"
  shows "original_kept old needed w0 (a', w')"
  using assms
proof (cases rule: save_disposition_cases)
  case refused
  with assms(3) show ?thesis by (auto simp: original_kept_def)
next
  case (saved rows)
  with assms(3) show ?thesis by (cases old) (auto simp: original_kept_def)
qed

lemma review_keeps:
  assumes "review es (a, w) = (a', w')" "in_step a w" "original_kept old needed w0 (a, w)"
  shows "in_step a' w' \<and> original_kept old needed w0 (a', w')"
  using assms
proof (induction es arbitrary: a w)
  case Nil
  then show ?case by (simp add: review_def)
next
  case (Cons x es)
  obtain e i status remark where x: "x = (e, i, status, remark)" by (cases x) auto
  obtain ok a1 w1 where one: "save_disposition e i status remark (a, w) = (ok, a1, w1)" by (cases "save_disposition e i status remark (a, w)") auto
  show ?case
    by (rule Cons.IH [of a1 w1]) (use Cons.prems one x save_disposition_in_step [OF one Cons.prems(2)]
        save_disposition_original [OF one Cons.prems(2,3)] in \<open>simp_all add: review_def\<close>)
qed

text \<open>
  Property C32. A review survives. Whatever decisions are made on a loaded audit and whichever copies
  and saves fail, opening the file again gives exactly the headers and rows in memory. When the file
  was loaded without all review columns and there was no \<open>.original\<close> copy beside it yet, the contents it was
  loaded with are kept as that copy before the file is replaced; otherwise it is replaced without one.
\<close>

theorem reopened_audit_is_reviewed:
  assumes "adf_file w = Some (s, m)" "load_audit (Some (s, m)) = Inr a" "review es (a, w) = (a', w')"
  shows "(\<exists>b. load_audit (adf_file w') = Inr b \<and> aud_headers b = aud_headers a' \<and> aud_rows b = aud_rows a')
    \<and> (aud_needs_backup a \<and> adf_original w = None \<and> adf_file w' \<noteq> Some (s, m) \<longrightarrow> adf_original w' = Some s)"
proof -
  have "in_step a w" using assms(1,2) load_shape [OF assms(2)] by (auto simp: in_step_def)
  moreover have "original_kept (s, m) (aud_needs_backup a) w (a, w)" using assms(1) by (simp add: original_kept_def)
  ultimately have "in_step a' w' \<and> original_kept (s, m) (aud_needs_backup a) w (a', w')"
    by (rule review_keeps [OF assms(3)])
  then show ?thesis by (auto simp: in_step_def original_kept_def)
qed

text \<open>A file with one row to review: the first save fails, the second one succeeds.\<close>

definition sample_audit :: string where
  "sample_audit = encode_audit required_audit_columns [[''7'', ''3001'', ''Dark \"Red\", old'', ''COLOR_MISMATCH'']]"

definition sample_decisions :: "(save_attempt \<times> int \<times> string \<times> string) list" where
  "sample_decisions = [(\<lparr>atm_copy_works = True, atm_save_works = False, atm_time = 2, atm_stamp = ''t''\<rparr>, 0, ''FIXED'', []),
     (\<lparr>atm_copy_works = True, atm_save_works = True, atm_time = 3, atm_stamp = ''u''\<rparr>, 0, ''SKIPPED'', ''a, b'')]"

theorem reopened_audit_is_reviewed_witness:
  "let w = \<lparr>adf_file = Some (sample_audit, 1), adf_original = None\<rparr>;
       w' = snd (review sample_decisions (projr (load_audit (Some (sample_audit, 1))), w))
   in (\<exists>b. load_audit (adf_file w') = Inr b \<and> aud_rows b
        = [[''7'', ''3001'', ''Dark \"Red\", old'', ''COLOR_MISMATCH'', ''SKIPPED'', ''u'', ''a, b'']])
     \<and> adf_original w' = Some sample_audit"
proof -
  let ?a = "projr (load_audit (Some (sample_audit, 1)))" and ?w = "\<lparr>adf_file = Some (sample_audit, 1), adf_original = None\<rparr>"
  let ?r = "review sample_decisions (?a, ?w)"
  have "\<not> isl (load_audit (Some (sample_audit, 1)))" by code_simp
  then have loaded: "load_audit (Some (sample_audit, 1)) = Inr ?a" by (metis sum.collapse(2))
  have "aud_needs_backup ?a" "adf_file (snd ?r) \<noteq> Some (sample_audit, 1)"
    "aud_rows (fst ?r) = [[''7'', ''3001'', ''Dark \"Red\", old'', ''COLOR_MISMATCH'', ''SKIPPED'', ''u'', ''a, b'']]"
    by code_simp+
  with reopened_audit_is_reviewed [OF _ loaded prod.collapse [symmetric], of ?w sample_decisions]
  show ?thesis by (auto simp: Let_def)
qed

text \<open>
  A status with spaces around it is taken for a mismatch when the file is loaded, and for none when
  the rows to review are listed: the row is pending for ever.
\<close>

lemma spaced_status_never_reviewed:
  "let a = projr (load_audit (Some (encode_audit required_audit_columns
     [[''7'', ''3001'', ''Red'', '' COLOR_MISMATCH'']], 1)))
   in audit_value a 0 ''review_status'' = ''PENDING'' \<and> review_rows False a = [] \<and> next_pending a (- 1) = None"
  by code_simp

end
