(* ===== verification/Spec2Isabelle.thy ===== *)
theory Spec2Isabelle
  imports BuildGaps BuildCreation StorageHierarchy HostAdmission HostThrottle RestoreSafety RemoteSession HostMutations HostMaintenance BackupPolicy PairingLimits RefreshProgress HostHistories PartListing MissingParts Buildability ColorAudit
begin

text \<open>
  BrickSuite keeps the data of a brick workshop: which bricks lie where (the inventory, a ledger of
  movements beside it), what is being built from them (Builds with requirements, allocations and
  pulled pieces), which sets and minifigs are owned (My Collection), and where everything is stored
  (a hierarchy of locations). The data is one SQLite database per Host. The Host's own user interface
  calls the services directly; paired clients send requests over the network, which the Host admits,
  reads, and runs one after the other in a worker; every committed change is announced to the
  connected clients, which refresh their views. Backups, Restore and Maintenance stand around it.
  Paths below are under \<open>src/src/\<close>.

  How the code is rendered. A row of a table is a record, a table a list of rows, the database the
  record \<open>tables\<close> (\<open>Tables\<close>, from \<open>database/DatabaseSchema.cpp\<close>). A connection (\<open>Session\<close>) holds the
  tables, the copy a transaction would roll back to, a clock and a list of faults: one truth value
  for each statement to come, saying whether the database lets it fail. So every theorem about an
  operation speaks of every pattern of failing statements, transactions and commits. Operations are
  state monads (\<open>State_Monad\<close>) over the connection and read like the C++: early returns are branches,
  error enumerations are datatypes, a result is \<open>error + value\<close>, an option or a truth value as in the
  source. A C++ \<open>int\<close> is an \<open>int\<close> with its bounds as explicit hypotheses, or wrapped with \<open>int32\<close>
  where the code converts, sums read from SQL with \<open>toInt\<close> included; 64-bit counters that can wrap are words. Texts of messages and log lines are
  left out.

  The parts.

  Foundations. \<open>Prelude\<close> (integers, trimming, sums over rows, the monad), \<open>Json\<close> (values as Qt keeps
  them), \<open>Machines\<close> (locales for components that live in memory: what one event keeps, every history
  keeps), \<open>Tables\<close>, \<open>Session\<close> (statements, transactions; the locale \<open>transaction_body\<close> concludes what a
  transaction leaves from what its body writes), \<open>Sample\<close> (the small database of the examples).

  Inventory. \<open>InventoryRepository\<close> (\<open>repositories/InventoryRecordRepository.cpp\<close> and the movement
  repository), \<open>InventoryLedger\<close> (the effect of every operation on any sum over the stock),
  \<open>InventoryBooks\<close> (the stock equals the ledger, found never exceeds lost, failed calls leave no trace).

  Storage. \<open>StorageLocations\<close> (\<open>StorageLocationRepository\<close>, \<open>HostStorageMutationService\<close>) and
  \<open>StorageHierarchy\<close> (forest invariant, the recursive query decides descent, deactivation). The recursive
  query runs as many rounds as there are locations, and the display path at most the 10000 steps of
  the source; both are shown to be enough in a well-formed hierarchy.

  My Collection. \<open>CollectionItems\<close>, \<open>CollectionRules\<close> (items and their source Builds),
  \<open>Compositions\<close> (pieces of a catalog Set or Minifig and their addition to the inventory),
  \<open>CollectionDisassembly\<close>.

  Builds. \<open>BuildRepositories\<close>, \<open>BuildServices\<close>, \<open>BuildLifecycle\<close> (the services under \<open>services/builds/\<close>),
  \<open>BuildLedger\<close>, \<open>BuildFlow\<close>, \<open>BuildRules\<close>, \<open>BuildConservation\<close>, \<open>BuildPlanning\<close> (accounts of pieces under
  every operation and every history), \<open>BuildAllocations\<close> (no overallocation without failures),
  \<open>BuildStatus\<close> (refinement of an abstract machine of status and activity), \<open>BuildCreation\<close> (Builds from the catalog),
  \<open>BuildGaps\<close> (small runs in which the code does what it should not).

  Reports. \<open>MissingParts\<close> (\<open>MissingPartsService\<close> and \<open>BuildRequirementAvailabilityService\<close>; the report
  and the automatic allocation agree), \<open>Buildability\<close> (\<open>InventoryBuildabilityRepository\<close>; its numbers are
  exact while the sums fit 32 bits, and what counts as fully buildable may lack half a percent). \<open>ColorAudit\<close>
  (\<open>services/inventory/InventoryColorAuditCsv\<close>: a CSV file that is reviewed and written back).

  Part Reference. \<open>PartReferences\<close> (\<open>services/parts/PartReferenceManifest\<close>, its customizations in
  \<open>UserPartReferenceRepository\<close>, and \<open>PartReferenceCustomizationService\<close>; the recursion over anchors ends
  because every step emits a key not emitted before) and \<open>PartListing\<close> (every entry is shown once, the
  built-in ones in the groups and order of the manifest, a new one where its user placed it).

  Requests of clients. \<open>HostRequests\<close> (metadata and results, \<open>dto/RemoteMutationDtos\<close>), one theory for each
  group of operations with its readers, writers and mutation (\<open>HostInventory\<close>, \<open>HostPulling\<close>,
  \<open>HostPlaces\<close>, \<open>HostCollection\<close>, \<open>HostBuilds\<close>, \<open>HostReferences\<close>: \<open>services/application/Host*MutationService\<close> and the
  \<open>dto\<close> files), \<open>HostReaders\<close> (what a reader accepts it reads back from what its writer writes),
  \<open>HostProtocol\<close> (submission by the client with its data epoch, dispatch and answer), \<open>HostMutations\<close>
  (\<open>HostWriteExecutor\<close>: the transaction of a mutation with its receipt, so that a repeated request is
  answered and not run again), \<open>HostFrames\<close> (what each service leaves alone), \<open>HostServices\<close> and
  \<open>HostSoundness\<close> (every mutation keeps the constraints and the storage forest, the books when it edits no
  inventory record, the accounts of the Builds when it leaves the identity of pulled pieces alone),
  \<open>HostHistories\<close> (the user interface and the clients taking turns).

  The Host around them. \<open>HostAdmission\<close> (limits on requests in progress), \<open>HostThrottle\<close> (failed
  authentications), \<open>HostMaintenance\<close> (draining and reopening the executors), \<open>DeviceRegistry\<close>,
  \<open>DeviceSafety\<close>, \<open>PairingLimits\<close> (paired devices), \<open>HostFiles\<close>, \<open>DatabaseRestore\<close>, \<open>RestoreSafety\<close>
  (Restore with a power failure at any file operation; a recovery may itself be cut off any number of
  times), \<open>BackupPolicy\<close> (names, due times and retention of automatic backups).

  The client. \<open>RemoteSession\<close> (which answers still belong to the session; a snapshot is told apart from a
  later one for fewer than 2^64 events, the range of the counters), \<open>Invalidations\<close> (events, their payload
  and publication), \<open>RemoteRefresh\<close>, \<open>RefreshHistories\<close>, \<open>RefreshProgress\<close> (no event is lost, views settle).

  What is asked of the start and of the calls. \<open>constraints\<close> are those of the schema. \<open>books\<close> adds that the
  stock of every identity equals its movements and found pieces do not exceed lost ones. \<open>agree d\<close> says
  that the provenance of the Builds differs from the pulled pieces of their requirements by \<open>d\<close> for each
  Build, part and color; \<open>accounts\<close> is \<open>agree\<close> without a difference and \<open>ledgers\<close> leaves it open. The services
  accept calls that open a difference (a requirement added with pulled pieces, or given another part or
  color when it has some), so the histories record their calls and \<open>accounts\<close> is kept by those that make no
  such call (\<open>keeps_kinds\<close>), \<open>ledgers\<close> by all (\<open>call_in_range\<close>); a remote edit of a record breaks the books
  themselves (\<open>keeps_books\<close>). \<open>planned\<close> says that nothing is allocated twice. \<open>BuildGaps\<close> and
  \<open>InventoryBooks\<close> show by small runs that these conditions cannot be dropped.

  How the parts are joined. \<open>build_calls_keep_accounts\<close>, \<open>stock_calls_keep_books\<close>,
  \<open>storage_calls_keep_hierarchy\<close> and \<open>collection_calls_keep_links\<close> say what a service keeps of its own part;
  \<open>host_stays_sound\<close> joins them for the whole Host, local calls and remote mutations interleaved,
  \<open>submitted_request_arrives\<close> joins the client's writer with the Host's reader, \<open>mutations_run_once\<close> and
  \<open>uncertain_mutation_stays_in_epoch\<close> say what a repetition may do, and \<open>mutation_reaches_views\<close> joins the
  publication of a mutation with the views of the clients.

  Parameters of the model. The SHA-256 of requests and plans, the text of time stamps (\<open>host_texts\<close>), what
  SQLite reads in a file, the local time zone, the truth of an authentication proof and the
  operating system's file operations and credential store are functions or environments the
  theorems quantify over.

  Not modelled. The user interface; the text of JSON, WebSockets and TLS; the reads of the Host and
  exports (queries without effect), and the filters that choose the candidates of the buildability search; imports from
  third-party files; HTTP clients of Rebrickable, Brickset and BrickLink; part aliases and images; geometry and printing; settings, credentials, updater and logging; migrations of old
  databases. Of the modelled files these are left out: log lines and message texts, search and
  listing queries, the columns \<open>source_reference\<close>, \<open>created_utc\<close> and \<open>modified_utc\<close> of a Build (the
  latter a parameter where it is compared), the cleaning of receipts older than 90 days when the Host
  starts, fault injection for tests, a byte order mark before the Part Reference manifest, and the markers of \<open>QString::arg\<close> inside inserted texts.
\<close>

end
